(* ===== verification/Prelude.thy ===== *)
theory Prelude
  imports Main "HOL-Library.AList"
begin

text \<open>
  Shared vocabulary of the development.
  \<^item> \<^bold>\<open>Errors.\<close> A function of the program that may throw is a function into
    \<open>'e + 'a\<close> (\<open>Inl\<close> is the thrown code). \<open>bind_r\<close> sequences two such computations,
    \<open>check\<close> is the program's \<open>ensure\<close>/\<open>requireThat\<close>, \<open>for_each\<close> a loop whose body may throw.
  \<^item> \<^bold>\<open>Decimal strings.\<close> \<open>toString\<close> is \<open>BigInt.prototype.toString\<close>,
    \<open>digits_val\<close> is \<open>BigInt(s)\<close> on a string of digits, and \<open>canonical_dec k\<close> is the regular
    expression \<open>^(0|[1-9][0-9]{0,k})$\<close> with which every package guards its amounts.
  \<^item> \<^bold>\<open>JavaScript objects\<close> used as dictionaries are association lists with distinct keys
    (\<open>AList.update\<close> overwrites in place or appends, \<open>AList.delete\<close> removes).
  \<^item> \<^bold>\<open>BigInt division\<close> truncates towards zero: \<open>tdiv\<close>.
\<close>

named_theorems result_simps \<open>inversion of the error monad\<close>
named_theorems dec_simps \<open>reading back decimal strings\<close>

section \<open>Computations that may throw\<close>

definition bind_r :: "'e + 'a \<Rightarrow> ('a \<Rightarrow> 'e + 'b) \<Rightarrow> 'e + 'b" where
  "bind_r m f = (case m of Inl e \<Rightarrow> Inl e | Inr x \<Rightarrow> f x)"

definition check :: "bool \<Rightarrow> 'e \<Rightarrow> 'e + unit" where
  "check b e = (if b then Inr () else Inl e)"

fun for_each :: "('a \<Rightarrow> 'e + unit) \<Rightarrow> 'a list \<Rightarrow> 'e + unit" where
  "for_each f [] = Inr ()"
| "for_each f (x # xs) = bind_r (f x) (\<lambda>_. for_each f xs)"

fun map_r :: "('a \<Rightarrow> 'e + 'b) \<Rightarrow> 'a list \<Rightarrow> 'e + 'b list" where
  "map_r f [] = Inr []"
| "map_r f (x # xs) = bind_r (f x) (\<lambda>y. bind_r (map_r f xs) (\<lambda>ys. Inr (y # ys)))"

fun fold_r :: "('a \<Rightarrow> 's \<Rightarrow> 'e + 's) \<Rightarrow> 'a list \<Rightarrow> 's \<Rightarrow> 'e + 's" where
  "fold_r f [] s = Inr s"
| "fold_r f (x # xs) s = bind_r (f x s) (fold_r f xs)"

section \<open>Decimal strings\<close>

definition digit_char :: "int \<Rightarrow> char" where
  "digit_char d =
    (if d = 9 then CHR ''9'' else if d = 8 then CHR ''8'' else if d = 7 then CHR ''7'' else
     if d = 6 then CHR ''6'' else if d = 5 then CHR ''5'' else if d = 4 then CHR ''4'' else
     if d = 3 then CHR ''3'' else if d = 2 then CHR ''2'' else if d = 1 then CHR ''1'' else CHR ''0'')"

definition digit_val :: "char \<Rightarrow> int" where
  "digit_val c =
    (if CHR ''9'' = c then 9 else if CHR ''8'' = c then 8 else if CHR ''7'' = c then 7 else
     if CHR ''6'' = c then 6 else if CHR ''5'' = c then 5 else if CHR ''4'' = c then 4 else
     if CHR ''3'' = c then 3 else if CHR ''2'' = c then 2 else if CHR ''1'' = c then 1 else 0)"

definition is_digit :: "char \<Rightarrow> bool" where
  "is_digit c \<longleftrightarrow> c \<in> set ''0123456789''"

definition digits_val :: "string \<Rightarrow> int" where
  "digits_val s = foldl (\<lambda>a c. 10 * a + digit_val c) 0 s"

function dec_digits :: "int \<Rightarrow> string" where
  "dec_digits n =
     (if n < 10 then [digit_char n] else dec_digits (n div 10) @ [digit_char (n mod 10)])"
  by pat_completeness auto
termination
  by (relation "measure nat") auto

definition toString :: "int \<Rightarrow> string" where
  "toString n = (if n < 0 then CHR ''-'' # dec_digits (- n) else dec_digits n)"

definition canonical_dec :: "nat \<Rightarrow> string \<Rightarrow> bool" where
  "canonical_dec k s \<longleftrightarrow>
     s = ''0'' \<or>
     (case s of [] \<Rightarrow> False
      | c # cs \<Rightarrow> is_digit c \<and> c \<noteq> CHR ''0'' \<and> list_all is_digit cs \<and> length cs \<le> k)"

section \<open>Numbers\<close>

definition tdiv :: "int \<Rightarrow> int \<Rightarrow> int" where
  "tdiv a b = sgn a * sgn b * (\<bar>a\<bar> div \<bar>b\<bar>)"

definition ceilDiv :: "int \<Rightarrow> int \<Rightarrow> int" where
  "ceilDiv a b = tdiv (a + b - 1) b"

definition MAX_SAFE_INTEGER :: int where
  "MAX_SAFE_INTEGER = 2 ^ 53 - 1"

definition isSafeInteger :: "int \<Rightarrow> bool" where
  "isSafeInteger n \<longleftrightarrow> - MAX_SAFE_INTEGER \<le> n \<and> n \<le> MAX_SAFE_INTEGER"

section \<open>Character classes\<close>

definition is_alnum :: "char \<Rightarrow> bool" where
  "is_alnum c \<longleftrightarrow>
     c \<in> set ''ABCDEFGHIJKLMNOPQRSTUVWXYZabcdefghijklmnopqrstuvwxyz0123456789''"

definition is_hex :: "char \<Rightarrow> bool" where
  "is_hex c \<longleftrightarrow> c \<in> set ''0123456789abcdefABCDEF''"

definition is_lower_hex :: "char \<Rightarrow> bool" where
  "is_lower_hex c \<longleftrightarrow> c \<in> set ''0123456789abcdef''"

section \<open>Library lemmas: results\<close>

lemma bind_r_simps [simp]:
  "bind_r (Inl e) f = Inl e" "bind_r (Inr x) f = f x"
  by (simp_all add: bind_r_def)

lemma bind_r_Inr [result_simps]:
  "bind_r m f = Inr y \<longleftrightarrow> (\<exists>x. m = Inr x \<and> f x = Inr y)"
  by (cases m) auto

lemma bind_r_elim: "bind_r m f = Inr y \<Longrightarrow> (\<And>x. m = Inr x \<Longrightarrow> f x = Inr y \<Longrightarrow> thesis) \<Longrightarrow> thesis"
  by (auto simp: bind_r_Inr)

lemma bind_r_Inl [result_simps]:
  "bind_r m f = Inl e \<longleftrightarrow> m = Inl e \<or> (\<exists>x. m = Inr x \<and> f x = Inl e)"
  by (cases m) auto

lemma check_Inr [result_simps]: "check b e = Inr u \<longleftrightarrow> b"
  by (simp add: check_def)

lemma check_Inl [result_simps]: "check b e = Inl e' \<longleftrightarrow> \<not> b \<and> e' = e"
  by (auto simp: check_def)

lemma check_simps [simp]:
  "check True e = Inr ()" "check False e = Inl e"
  by (simp_all add: check_def)

lemma bind_check [simp]:
  "bind_r (check b e) f = (if b then f () else Inl e)"
  by (simp add: check_def)

lemma for_each_Inr [result_simps]:
  "for_each f xs = Inr u \<longleftrightarrow> (\<forall>x\<in>set xs. f x = Inr ())"
  by (induction xs) (auto simp: bind_r_Inr)

lemma for_each_Inl:
  "for_each f xs = Inl e \<Longrightarrow> \<exists>x\<in>set xs. f x = Inl e"
  by (induction xs) (auto simp: bind_r_Inl)

lemma map_r_Inr:
  "map_r f xs = Inr ys \<longleftrightarrow> list_all2 (\<lambda>x y. f x = Inr y) xs ys"
  by (induction xs arbitrary: ys) (auto simp: bind_r_Inr list_all2_Cons1)

lemma fold_r_invariant:
  assumes "fold_r f xs s = Inr t" and "P s"
    and "\<And>x s t. x \<in> set xs \<Longrightarrow> P s \<Longrightarrow> f x s = Inr t \<Longrightarrow> P t"
  shows "P t"
  using assms
proof (induction xs arbitrary: s)
  case Nil
  then show ?case by simp
next
  case (Cons x xs)
  from Cons.prems(1) obtain u where u: "f x s = Inr u" "fold_r f xs u = Inr t"
    by (auto simp: bind_r_Inr)
  have "P u" using Cons.prems(2) u(1) by (intro Cons.prems(3)[of x s u]) auto
  with u(2) show ?case using Cons.prems(3) by (intro Cons.IH[of u]) auto
qed

lemma fold_r_keeps:
  assumes "fold_r f xs s = Inr t" and "P s" and "\<And>x s t. P s \<Longrightarrow> f x s = Inr t \<Longrightarrow> P t"
  shows "P t"
  using assms(1,2) by (rule fold_r_invariant) (rule assms(3))

section \<open>Rounding\<close>

lemma tdiv_pos: "0 \<le> a \<Longrightarrow> 0 < b \<Longrightarrow> tdiv a b = a div b"
  by (cases "a = 0") (simp_all add: tdiv_def sgn_if)

text \<open>Division rounded up is the least integer whose multiple covers the dividend; rounded down, the
  greatest whose multiple fits.\<close>

lemma le_div_iff: "0 < b \<Longrightarrow> q \<le> a div b \<longleftrightarrow> q * b \<le> a" for a b q :: int
proof
  assume b: "0 < b" and "q \<le> a div b"
  then have "q * b \<le> (a div b) * b" by (simp add: mult_right_mono)
  also have "\<dots> \<le> a" using b by (metis add_increasing2 div_mult_mod_eq order_refl pos_mod_sign)
  finally show "q * b \<le> a" .
next
  assume b: "0 < b" and "q * b \<le> a"
  then have "(q * b) div b \<le> a div b" by (intro zdiv_mono1)
  moreover have "(q * b) div b = q" using b by simp
  ultimately show "q \<le> a div b" by simp
qed

lemma ceilDiv_le_iff: "0 \<le> a \<Longrightarrow> 0 < b \<Longrightarrow> ceilDiv a b \<le> q \<longleftrightarrow> a \<le> q * b"
proof -
  assume a: "0 \<le> a" "0 < b"
  have "ceilDiv a b \<le> q \<longleftrightarrow> \<not> q + 1 \<le> (a + b - 1) div b" using a by (simp add: ceilDiv_def tdiv_pos) linarith
  also have "\<dots> \<longleftrightarrow> \<not> (q + 1) * b \<le> a + b - 1" using a(2) by (simp add: le_div_iff)
  finally show ?thesis by (simp add: algebra_simps) linarith
qed

lemma ceilDiv_covers: "0 \<le> a \<Longrightarrow> 0 < b \<Longrightarrow> a \<le> ceilDiv a b * b"
  using ceilDiv_le_iff[of a b "ceilDiv a b"] by simp

lemma le_tdiv_iff: "0 \<le> a \<Longrightarrow> 0 < b \<Longrightarrow> q \<le> tdiv a b \<longleftrightarrow> q * b \<le> a"
  by (simp add: tdiv_pos le_div_iff)

lemma tdiv_nonneg: "0 \<le> a \<Longrightarrow> 0 < b \<Longrightarrow> 0 \<le> tdiv a b"
  using le_tdiv_iff[of a b 0] by simp

lemma tdiv_fits: "0 \<le> a \<Longrightarrow> 0 < b \<Longrightarrow> tdiv a b * b \<le> a"
  using le_tdiv_iff[of a b "tdiv a b"] by simp

lemma ceilDiv_nonneg: "0 \<le> a \<Longrightarrow> 0 < b \<Longrightarrow> 0 \<le> ceilDiv a b"
proof (rule ccontr)
  assume "0 \<le> a" "0 < b" "\<not> 0 \<le> ceilDiv a b"
  then have "ceilDiv a b * b < 0" by (simp add: mult_neg_pos)
  then show False using ceilDiv_covers[of a b] \<open>0 \<le> a\<close> \<open>0 < b\<close> by linarith
qed

section \<open>Association lists\<close>

lemma sum_update:
  fixes f :: "'v \<Rightarrow> int"
  assumes "distinct (map fst xs)"
  shows "sum_list (map (f \<circ> snd) (AList.update k v xs)) =
    sum_list (map (f \<circ> snd) xs) - (case map_of xs k of None \<Rightarrow> 0 | Some w \<Rightarrow> f w) + f v"
  using assms by (induction xs) (auto split: option.splits simp: map_of_eq_None_iff)

lemma update_new: "k \<notin> fst ` set m \<Longrightarrow> AList.update k v m = m @ [(k, v)]"
  by (induction m) auto

lemma update_all:
  "(\<forall>ip\<in>set xs. Q (snd ip)) \<Longrightarrow> Q v \<Longrightarrow> \<forall>ip\<in>set (AList.update k v xs). Q (snd ip)"
  by (induction xs) auto

section \<open>Machines driven by fallible steps\<close>

text \<open>The states a component can be in: an initial state, or the result of a step that did not throw.
  A step that throws leaves the old state in place.\<close>

inductive reaches :: "('s \<Rightarrow> bool) \<Rightarrow> ('s \<Rightarrow> 'i \<Rightarrow> 'e + 's) \<Rightarrow> 's \<Rightarrow> bool"
  for init :: "'s \<Rightarrow> bool" and step :: "'s \<Rightarrow> 'i \<Rightarrow> 'e + 's" where
  reach_init: "init s \<Longrightarrow> reaches init step s"
| reach_step: "reaches init step s \<Longrightarrow> step s i = Inr t \<Longrightarrow> reaches init step t"

fun run_inputs :: "('s \<Rightarrow> 'i \<Rightarrow> 'e + 's) \<Rightarrow> 's \<Rightarrow> 'i list \<Rightarrow> 's" where
  "run_inputs step s [] = s"
| "run_inputs step s (i # is) = run_inputs step (case step s i of Inl _ \<Rightarrow> s | Inr t \<Rightarrow> t) is"

locale guarded_machine =
  fixes init :: "'s \<Rightarrow> bool"
    and step :: "'s \<Rightarrow> 'i \<Rightarrow> 'e + 's"
    and inv :: "'s \<Rightarrow> bool"
  assumes init_inv: "init s \<Longrightarrow> inv s"
    and step_inv: "inv s \<Longrightarrow> step s i = Inr t \<Longrightarrow> inv t"
begin

lemma reachable_inv: "reaches init step s \<Longrightarrow> inv s"
  by (induction rule: reaches.induct) (auto intro: init_inv step_inv)

lemma run_reaches: "reaches init step s \<Longrightarrow> reaches init step (run_inputs step s is)"
  by (induction "is" arbitrary: s) (auto intro: reach_step split: sum.splits)

lemma run_inv: "init s \<Longrightarrow> inv (run_inputs step s is)"
  by (intro reachable_inv run_reaches reach_init)

end

end
