(* ===== verification/Decimal.thy ===== *)
theory Decimal
  imports Prelude
begin

text \<open>
  Facts about the decimal strings in which every package of the program keeps its amounts:
  printing an integer and reading it back, the canonical form, the number of digits. The locale
  \<open>canonical_reader\<close> is the contract the program's readers (\<open>unsigned\<close>, \<open>amount\<close>, \<open>uint\<close>,
  \<open>paperAmount\<close>) share; each is an interpretation of it in the theory of its package.
\<close>

declare dec_digits.simps [simp del]

lemma digit_char_val [simp]: "0 \<le> d \<Longrightarrow> d < 10 \<Longrightarrow> digit_val (digit_char d) = d"
  by (simp add: digit_char_def digit_val_def) presburger

lemma is_digit_digit_char [simp]: "is_digit (digit_char d)"
  by (simp add: digit_char_def is_digit_def)

lemma digit_val_bounds: "0 \<le> digit_val c" "digit_val c < 10"
  by (simp_all add: digit_val_def)

lemma digit_val_char [simp]: "is_digit c \<Longrightarrow> digit_char (digit_val c) = c"
  by (auto simp: is_digit_def digit_char_def digit_val_def)

lemma digit_char_zero [simp]: "0 \<le> d \<Longrightarrow> d < 10 \<Longrightarrow> digit_char d = CHR ''0'' \<longleftrightarrow> d = 0"
  by (simp add: digit_char_def) presburger

lemma digit_val_zero: "is_digit c \<Longrightarrow> digit_val c = 0 \<longleftrightarrow> c = CHR ''0''"
  by (auto simp: is_digit_def digit_val_def)

lemma minus_not_digit [simp]: "\<not> is_digit CHR ''-''"
  by (simp add: is_digit_def)

lemma digits_val_Nil [simp]: "digits_val [] = 0"
  by (simp add: digits_val_def)

lemma digits_val_snoc [simp]: "digits_val (s @ [c]) = 10 * digits_val s + digit_val c"
  by (simp add: digits_val_def)

lemma digits_val_nonneg [simp]: "0 \<le> digits_val s"
  by (induction s rule: rev_induct) (auto simp: digit_val_bounds)

lemma digits_val_append:
  "digits_val (s @ t) = digits_val s * 10 ^ length t + digits_val t"
proof (induction t rule: rev_induct)
  case Nil
  then show ?case by simp
next
  case (snoc c t)
  then show ?case
    using digits_val_snoc[of "s @ t" c] by (simp add: algebra_simps)
qed

lemma digits_val_Cons: "digits_val (c # t) = digit_val c * 10 ^ length t + digits_val t"
  using digits_val_append[of "[c]" t] digits_val_snoc[of "[]" c] by simp

lemma digits_val_less: "digits_val s < 10 ^ length s"
proof (induction s rule: rev_induct)
  case Nil
  then show ?case by simp
next
  case (snoc c s)
  then show ?case using digit_val_bounds(2)[of c] by simp
qed

lemma digits_val_replicate_zero [simp]: "digits_val (replicate k CHR ''0'') = 0"
  by (induction k) (simp_all add: digits_val_Cons digit_val_def)

lemma dec_digits_small [simp]: "n < 10 \<Longrightarrow> dec_digits n = [digit_char n]"
  by (subst dec_digits.simps) simp

lemma dec_digits_step: "10 \<le> n \<Longrightarrow> dec_digits n = dec_digits (n div 10) @ [digit_char (n mod 10)]"
  by (subst dec_digits.simps) simp

lemma dec_digits_nonempty [simp]: "dec_digits n \<noteq> []"
  by (subst dec_digits.simps) simp

lemma dec_digits_all: "list_all is_digit (dec_digits n)"
proof (induction n rule: dec_digits.induct)
  case (1 n)
  then show ?case by (cases "n < 10") (auto simp: dec_digits_step)
qed

lemma digits_val_dec_digits [simp]: "0 \<le> n \<Longrightarrow> digits_val (dec_digits n) = n"
proof (induction n rule: dec_digits.induct)
  case (1 n)
  show ?case
  proof (cases "n < 10")
    case True
    then show ?thesis using "1.prems" digits_val_snoc[of "[]"] by simp
  next
    case False
    then have "digits_val (dec_digits (n div 10)) = n div 10" using 1 by simp
    then show ?thesis using False by (simp add: dec_digits_step)
  qed
qed

lemma hd_dec_digits: "0 < n \<Longrightarrow> hd (dec_digits n) \<noteq> CHR ''0''"
proof (induction n rule: dec_digits.induct)
  case (1 n)
  then show ?case by (cases "n < 10") (simp_all add: dec_digits_step)
qed

lemma length_dec_digits_le: "0 \<le> n \<Longrightarrow> n < 10 ^ Suc k \<Longrightarrow> length (dec_digits n) \<le> Suc k"
proof (induction k arbitrary: n)
  case 0
  then show ?case by simp
next
  case (Suc k)
  show ?case
  proof (cases "n < 10")
    case False
    have "n div 10 < 10 ^ Suc k" using Suc.prems(2) by auto
    with Suc.IH[of "n div 10"] False show ?thesis by (simp add: dec_digits_step)
  qed simp
qed

lemma length_dec_digits_gt: "10 ^ Suc k \<le> n \<Longrightarrow> Suc k < length (dec_digits n)"
proof (rule ccontr)
  assume *: "10 ^ Suc k \<le> n" and "\<not> Suc k < length (dec_digits n)"
  then have "length (dec_digits n) \<le> Suc k" by simp
  then have "(10::int) ^ length (dec_digits n) \<le> 10 ^ Suc k" by (rule power_increasing) simp
  moreover have "0 \<le> n" using * by (meson order_trans zero_le_numeral zero_le_power)
  then have "n < 10 ^ length (dec_digits n)" using digits_val_less[of "dec_digits n"] by simp
  ultimately show False using * by linarith
qed

lemma length_dec_digits: "0 \<le> n \<Longrightarrow> length (dec_digits n) \<le> Suc k \<longleftrightarrow> n < 10 ^ Suc k"
  using length_dec_digits_le[of n k] length_dec_digits_gt[of k n] by linarith

lemma canonical_dec_digits:
  "0 \<le> n \<Longrightarrow> canonical_dec k (dec_digits n) \<longleftrightarrow> n < 10 ^ Suc k"
proof (cases "n = 0")
  case True
  then show ?thesis by (simp add: canonical_dec_def digit_char_def)
next
  case False
  assume "0 \<le> n"
  with False have n: "0 < n" by simp
  obtain c cs where d: "dec_digits n = c # cs" by (cases "dec_digits n") auto
  have "c \<noteq> CHR ''0''" using hd_dec_digits[OF n] d by simp
  moreover have "is_digit c" "list_all is_digit cs" using dec_digits_all[of n] d by auto
  moreover have "length cs \<le> k \<longleftrightarrow> n < 10 ^ Suc k"
    using length_dec_digits[of n k] n d by simp
  ultimately show ?thesis using d by (simp add: canonical_dec_def)
qed

text \<open>A digit string without a leading zero is the print of its value.\<close>

lemma dec_digits_digits_val:
  "list_all is_digit s \<Longrightarrow> s \<noteq> [] \<Longrightarrow> (length s = 1 \<or> hd s \<noteq> CHR ''0'') \<Longrightarrow>
   dec_digits (digits_val s) = s"
proof (induction s rule: rev_induct)
  case Nil
  then show ?case by simp
next
  case (snoc c s)
  show ?case
  proof (cases "s = []")
    case True
    then show ?thesis using snoc.prems digit_val_bounds[of c] digits_val_snoc[of "[]" c] by simp
  next
    case False
    have h: "hd s \<noteq> CHR ''0''" using snoc.prems(3) False by simp
    have IH: "dec_digits (digits_val s) = s" using snoc.IH snoc.prems(1) False h by simp
    have pos: "0 < digits_val s"
    proof -
      have d: "list_all is_digit s" using snoc.prems(1) by simp
      obtain a as where s: "s = a # as" using False by (cases s) auto
      have "is_digit a" "a \<noteq> CHR ''0''" using d h s by auto
      then have "1 \<le> digit_val a" using digit_val_zero[of a] digit_val_bounds(1)[of a] by linarith
      then have "10 ^ length as \<le> digit_val a * 10 ^ length as" by simp
      moreover have "(0::int) < 10 ^ length as" by simp
      ultimately have "0 < digit_val a * 10 ^ length as" by linarith
      then show ?thesis using s digits_val_nonneg[of as] by (simp add: digits_val_Cons add_pos_nonneg)
    qed
    have "10 \<le> digits_val (s @ [c])" using pos digit_val_bounds(1)[of c] by simp
    then show ?thesis
      using IH snoc.prems(1) digit_val_bounds[of c] by (simp add: dec_digits_step)
  qed
qed

lemma toString_nonneg: "0 \<le> n \<Longrightarrow> toString n = dec_digits n"
  by (simp add: toString_def)

lemma canonical_dec_iff:
  "canonical_dec k s \<longleftrightarrow> (\<exists>n. 0 \<le> n \<and> n < 10 ^ Suc k \<and> s = toString n)"
proof
  assume c: "canonical_dec k s"
  have "dec_digits (digits_val s) = s"
    using c by (intro dec_digits_digits_val)
      (auto simp: canonical_dec_def is_digit_def split: list.splits)
  moreover from this have "digits_val s < 10 ^ Suc k"
    using c canonical_dec_digits[of "digits_val s" k] by simp
  ultimately show "\<exists>n. 0 \<le> n \<and> n < 10 ^ Suc k \<and> s = toString n"
    by (intro exI[of _ "digits_val s"]) (simp add: toString_nonneg)
qed (auto simp: canonical_dec_digits toString_def not_less)

lemma digits_val_toString [simp]: "0 \<le> n \<Longrightarrow> digits_val (toString n) = n"
  by (simp add: toString_nonneg)

lemma canonical_toString [simp]: "canonical_dec k (toString n) \<longleftrightarrow> 0 \<le> n \<and> n < 10 ^ Suc k"
proof (cases "0 \<le> n")
  case True
  then show ?thesis by (simp add: canonical_dec_digits toString_nonneg del: power_Suc)
next
  case False
  then show ?thesis by (simp add: canonical_dec_def toString_def is_digit_def)
qed

lemma toString_inj [simp]: "toString m = toString n \<longleftrightarrow> m = n"
proof
  have hd_minus: "hd (dec_digits k) \<noteq> CHR ''-''" for k
    using dec_digits_all[of k] by (cases "dec_digits k") auto
  assume eq: "toString m = toString n"
  consider "0 \<le> m" "0 \<le> n" | "m < 0" "n < 0" | "m < 0" "0 \<le> n" | "0 \<le> m" "n < 0" by linarith
  then show "m = n"
  proof cases
    case 1
    then show ?thesis using eq digits_val_toString by metis
  next
    case 2
    then have "dec_digits (- m) = dec_digits (- n)" using eq by (simp add: toString_def)
    then have "digits_val (dec_digits (- m)) = digits_val (dec_digits (- n))" by simp
    then show ?thesis using 2 by simp
  next
    case 3
    then show ?thesis using eq hd_minus[of n] by (auto simp: toString_def dest: arg_cong[where f = hd])
  next
    case 4
    then show ?thesis using eq hd_minus[of m] by (auto simp: toString_def dest: arg_cong[where f = hd])
  qed
qed simp

lemma toString_0 [simp]: "toString 0 = ''0''"
  by (simp add: toString_def digit_char_def)

lemma toString_eq_0 [simp]: "toString n = ''0'' \<longleftrightarrow> n = 0"
  using toString_inj[of n 0] by simp

section \<open>The contract of an amount reader\<close>

text \<open>
  A reader accepts exactly the canonical prints of the integers \<open>0 \<dots> bound\<close>. From this law alone:
  reading is injective (an amount has one spelling), it inverts printing, results are in range, and
  a comparison of the stored string with \<open>'0'\<close> is a comparison of the amount with zero.
\<close>

locale canonical_reader =
  fixes reader :: "string \<Rightarrow> 'e + int"
    and bound :: int
  assumes reads: "reader s = Inr n \<longleftrightarrow> s = toString n \<and> 0 \<le> n \<and> n \<le> bound"
    and bound_nonneg: "0 \<le> bound"
begin

lemma read_print: "0 \<le> n \<Longrightarrow> n \<le> bound \<Longrightarrow> reader (toString n) = Inr n"
  by (simp add: reads)

lemma read_inj: "reader s = Inr n \<Longrightarrow> reader t = Inr n \<Longrightarrow> s = t"
  by (simp add: reads)

lemma read_bounds: "reader s = Inr n \<Longrightarrow> 0 \<le> n \<and> n \<le> bound"
  by (simp add: reads)

lemma read_zero: "reader s = Inr n \<Longrightarrow> s = ''0'' \<longleftrightarrow> n = 0"
  by (auto simp: reads)

lemma read_unit: "reader ''0'' = Inr 0"
  using read_print[of 0] bound_nonneg by simp

lemma read_print_iff: "(\<exists>m. reader (toString n) = Inr m) \<longleftrightarrow> 0 \<le> n \<and> n \<le> bound"
  by (auto simp: reads)

lemma read_print_fails: "\<not> (0 \<le> n \<and> n \<le> bound) \<Longrightarrow> \<exists>e. reader (toString n) = Inl e"
  using read_print_iff[of n] by (cases "reader (toString n)") auto

end

end
