(* ===== verification/Money.thy ===== *)
theory Money
  imports Decimal
begin

text \<open>
  \<^bold>\<open>packages/domain/src/money.ts.\<close> Settlement amounts are canonical decimal strings below
  \<open>2 ^ 256\<close>. \<open>unsigned\<close> and \<open>signed\<close> read them, \<open>parseUnits\<close> and \<open>formatUnits\<close> convert between a
  human decimal and base units. \<open>domain_error\<close> collects the codes thrown by the package
  (\<open>Error\<close> messages of \<open>money.ts\<close>, \<open>DomainError\<close> codes of \<open>vault.ts\<close>).
  Shown: the readers accept exactly the canonical prints of their range (the interpretation
  \<open>unsigned_reader\<close>), and formatting followed by parsing is the identity.
\<close>

datatype domain_error =
    NON_CANONICAL_AMOUNT | AMOUNT_OVERFLOW | INVALID_PRECISION | INVALID_DECIMAL | EXCESS_PRECISION
  | INVALID_ID | INEXACT_PASS_AMOUNT | PASS_ALREADY_ENABLED | PASS_ADOPTION_UNSAFE | PASS_NOT_ENABLED
  | VAULT_CLOSED | INSUFFICIENT_FREE_PASS | INSUFFICIENT_PASS_PRINCIPAL | OPEN_PASS_POSITIONS
  | WITHDRAWAL_NOT_PENDING | VAULT_EXIT_NOT_READY | UNSUPPORTED_SCOPE | INVALID_STATUS
  | INVALID_REVISION | EMPTY_RESERVATION | INVALID_PASS_LOCK | NEGATIVE_ACTIVE_EQUITY
  | UNFUNDED_FEE_LIABILITY | FEE_CONSERVATION | EQUITY_CONSERVATION | HISTORY_MISMATCH
  | FORBIDDEN | IDEMPOTENCY_CONFLICT | REVISION_CONFLICT | TEST_HISTORY_LIMIT | NON_POSITIVE_AMOUNT
  | INSUFFICIENT_IDLE | ALLOWANCE_EXCEEDED | INSUFFICIENT_ACTIVE_CASH | NO_ACTIVE_FUNDS
  | NOT_RUNNING | DUPLICATE_ORDER | ORDER_NOT_PENDING | NO_POSITION | PENDING_ORDERS
  | SETTLEMENT_POLICY_REQUIRED | INVALID_TEST_FEE | INVALID_EXCESS_ALLOCATION | EXCESS_FEE_PAYMENT
  | SYNTAX_ERROR

definition MAX_INTEGER :: int where
  "MAX_INTEGER = 2 ^ 256 - 1"

definition TEST_CASH_decimals :: nat where
  "TEST_CASH_decimals = 6"

definition unsigned :: "string \<Rightarrow> domain_error + int" where
  "unsigned s =
     (if \<not> canonical_dec 77 s then Inl NON_CANONICAL_AMOUNT
      else let result = digits_val s in
        if result > MAX_INTEGER then Inl AMOUNT_OVERFLOW else Inr result)"

definition signed_pattern :: "string \<Rightarrow> bool" where
  "signed_pattern s \<longleftrightarrow>
     s = ''0'' \<or> (canonical_dec 77 s \<and> s \<noteq> ''0'') \<or>
     (case s of [] \<Rightarrow> False | c # cs \<Rightarrow> c = CHR ''-'' \<and> canonical_dec 77 cs \<and> cs \<noteq> ''0'')"

definition big_int :: "string \<Rightarrow> int" where
  "big_int s = (case s of [] \<Rightarrow> 0
     | c # cs \<Rightarrow> if c = CHR ''-'' then - digits_val cs else digits_val s)"

definition signed :: "string \<Rightarrow> domain_error + int" where
  "signed s =
     (if \<not> signed_pattern s then Inl NON_CANONICAL_AMOUNT
      else let result = big_int s in
        if result > MAX_INTEGER \<or> result < - MAX_INTEGER then Inl AMOUNT_OVERFLOW else Inr result)"

text \<open>The two halves of \<open>value.split('.')\<close> for a value with at most one point, and the pattern
  \<open>^(0|[1-9]\d*)(\.\d+)?$\<close>.\<close>

definition before_point :: "string \<Rightarrow> string" where
  "before_point s = takeWhile (\<lambda>c. c \<noteq> CHR ''.'') s"

definition after_point :: "string \<Rightarrow> string" where
  "after_point s = drop 1 (dropWhile (\<lambda>c. c \<noteq> CHR ''.'') s)"

definition decimal_pattern :: "string \<Rightarrow> bool" where
  "decimal_pattern s \<longleftrightarrow>
     canonical_dec (length s) (before_point s) \<and>
     (CHR ''.'' \<in> set s \<longrightarrow> after_point s \<noteq> [] \<and> list_all is_digit (after_point s))"

definition padEnd :: "string \<Rightarrow> nat \<Rightarrow> char \<Rightarrow> string" where
  "padEnd s k c = s @ replicate (k - length s) c"

definition padStart :: "string \<Rightarrow> nat \<Rightarrow> char \<Rightarrow> string" where
  "padStart s k c = replicate (k - length s) c @ s"

definition or_zero :: "string \<Rightarrow> string" where
  "or_zero s = (if s = [] then ''0'' else s)"

definition parseUnits :: "string \<Rightarrow> int \<Rightarrow> domain_error + string" where
  "parseUnits value decimals =
     bind_r (check (isSafeInteger decimals \<and> 0 \<le> decimals \<and> decimals \<le> 36) INVALID_PRECISION) (\<lambda>_.
     bind_r (check (length value \<le> 115 \<and> decimal_pattern value) INVALID_DECIMAL) (\<lambda>_.
     let d = nat decimals; whole = before_point value; fraction = after_point value in
     bind_r (check (length fraction \<le> d) EXCESS_PRECISION) (\<lambda>_.
     let result = digits_val whole * 10 ^ d + digits_val (or_zero (padEnd fraction d CHR ''0'')) in
     bind_r (unsigned (toString result)) (\<lambda>n. Inr (toString n)))))"

definition formatUnits :: "string \<Rightarrow> int \<Rightarrow> domain_error + string" where
  "formatUnits value decimals =
     bind_r (unsigned value) (\<lambda>amount.
     bind_r (check (isSafeInteger decimals \<and> 0 \<le> decimals \<and> decimals \<le> 36) INVALID_PRECISION) (\<lambda>_.
     if decimals = 0 then Inr (toString amount)
     else let d = nat decimals; padded = padStart (toString amount) (d + 1) CHR ''0'';
              k = length padded - d in
        Inr (take k padded @ CHR ''.'' # drop k padded)))"

section \<open>The readers\<close>

lemma MAX_INTEGER_digits: "MAX_INTEGER < 10 ^ 78"
  by (simp add: MAX_INTEGER_def)

lemma MAX_INTEGER_nonneg [simp]: "0 \<le> MAX_INTEGER"
  by (simp add: MAX_INTEGER_def)

lemma unsigned_reads:
  "unsigned s = Inr n \<longleftrightarrow> s = toString n \<and> 0 \<le> n \<and> n \<le> MAX_INTEGER"
proof
  assume u: "unsigned s = Inr n"
  then have "canonical_dec 77 s" by (auto simp: unsigned_def split: if_splits)
  then obtain m where "0 \<le> m" "s = toString m" by (auto simp: canonical_dec_iff)
  with u show "s = toString n \<and> 0 \<le> n \<and> n \<le> MAX_INTEGER"
    by (auto simp: unsigned_def Let_def split: if_splits)
next
  assume r: "s = toString n \<and> 0 \<le> n \<and> n \<le> MAX_INTEGER"
  then have "n < 10 ^ Suc 77" using MAX_INTEGER_digits by simp
  with r show "unsigned s = Inr n" by (auto simp: unsigned_def Let_def)
qed

interpretation unsigned_reader: canonical_reader unsigned MAX_INTEGER
  by unfold_locales (simp_all add: unsigned_reads)

lemma unsigned_error:
  "unsigned s = Inl e \<Longrightarrow> e = NON_CANONICAL_AMOUNT \<or> e = AMOUNT_OVERFLOW"
  by (auto simp: unsigned_def Let_def split: if_splits)

lemma unsigned_toString [dec_simps]:
  "0 \<le> n \<Longrightarrow> n \<le> MAX_INTEGER \<Longrightarrow> unsigned (toString n) = Inr n"
  by (rule unsigned_reader.read_print)

lemma unsigned_print:
  "unsigned (toString n) =
     (if 0 \<le> n \<and> n \<le> MAX_INTEGER then Inr n
      else if 0 \<le> n \<and> n < 10 ^ 78 then Inl AMOUNT_OVERFLOW else Inl NON_CANONICAL_AMOUNT)"
  by (auto simp: unsigned_toString) (auto simp: unsigned_def Let_def)

lemma signed_toString [dec_simps]:
  assumes "- MAX_INTEGER \<le> n" "n \<le> MAX_INTEGER"
  shows "signed (toString n) = Inr n"
proof (cases "n < 0")
  case False
  then have "n < 10 ^ Suc 77" using assms(2) MAX_INTEGER_digits by simp
  then have "signed_pattern (toString n)" using False by (simp add: signed_pattern_def)
  moreover have "hd (toString n) \<noteq> CHR ''-''"
    using False dec_digits_all[of n] by (cases "dec_digits n") (auto simp: toString_def)
  then have "big_int (toString n) = digits_val (toString n)"
    by (cases "toString n") (simp_all add: big_int_def)
  then have "big_int (toString n) = n" using False by simp
  ultimately show ?thesis using assms by (simp add: signed_def)
next
  case True
  then have "- n < 10 ^ Suc 77" using assms(1) MAX_INTEGER_digits by simp
  then have "signed_pattern (toString n)"
    using True toString_nonneg[of "- n"] canonical_toString[of 77 "- n"] toString_eq_0[of "- n"]
    by (simp add: signed_pattern_def toString_def)
  moreover have "big_int (toString n) = n" using True by (simp add: big_int_def toString_def)
  ultimately show ?thesis using assms by (simp add: signed_def)
qed

lemma signed_canonical: "signed s = Inr n \<Longrightarrow> s = toString n \<and> \<bar>n\<bar> \<le> MAX_INTEGER"
proof -
  assume s: "signed s = Inr n"
  then have p: "signed_pattern s" and b: "n = big_int s" "\<bar>n\<bar> \<le> MAX_INTEGER"
    by (auto simp: signed_def Let_def split: if_splits)
  show ?thesis
  proof (cases "\<exists>cs. s = CHR ''-'' # cs")
    case True
    then obtain cs where cs: "s = CHR ''-'' # cs" by auto
    with p have "canonical_dec 77 cs" "cs \<noteq> ''0''"
      by (auto simp: signed_pattern_def canonical_dec_def)
    then obtain m where m: "0 \<le> m" "cs = toString m" "m \<noteq> 0" by (auto simp: canonical_dec_iff)
    with b cs have "n = - m" by (simp add: big_int_def)
    with m(1,3) have "toString n = CHR ''-'' # toString m" by (simp add: toString_def)
    with m cs b(2) show ?thesis by simp
  next
    case False
    with p have "canonical_dec 77 s"
      by (auto simp: signed_pattern_def canonical_dec_def split: list.splits)
    then obtain m where m: "0 \<le> m" "s = toString m" by (auto simp: canonical_dec_iff)
    moreover have "big_int s = digits_val s"
      using False by (auto simp: big_int_def split: list.splits)
    ultimately show ?thesis using b by simp
  qed
qed

lemma signed_error: "signed s = Inl e \<Longrightarrow> e = NON_CANONICAL_AMOUNT \<or> e = AMOUNT_OVERFLOW"
  by (auto simp: signed_def Let_def split: if_splits)

section \<open>Formatting and parsing\<close>

lemma point_not_digit [simp]: "\<not> is_digit CHR ''.''"
  by (simp add: is_digit_def)

lemma zero_digit: "is_digit CHR ''0''"
  by (simp add: is_digit_def)

lemma or_zero_val [simp]: "digits_val (or_zero s) = digits_val s"
  by (simp add: or_zero_def digits_val_def digit_val_def)

lemma list_all_digit_no_point: "list_all is_digit s \<Longrightarrow> CHR ''.'' \<notin> set s"
  by (induction s) auto

lemma point_split [simp]:
  "CHR ''.'' \<notin> set w \<Longrightarrow> before_point (w @ CHR ''.'' # f) = w"
  "CHR ''.'' \<notin> set w \<Longrightarrow> after_point (w @ CHR ''.'' # f) = f"
  "CHR ''.'' \<notin> set w \<Longrightarrow> before_point w = w"
  "CHR ''.'' \<notin> set w \<Longrightarrow> after_point w = []"
  by (induction w) (auto simp: before_point_def after_point_def)

lemma canonical_dec_mono: "canonical_dec k s \<Longrightarrow> k \<le> l \<Longrightarrow> canonical_dec l s"
  by (auto simp: canonical_dec_def split: list.splits)

text \<open>What parsing computes: the whole part scaled up plus the fraction padded to full precision.\<close>

lemma parseUnits_value:
  assumes "parseUnits v d = Inr r"
  shows "r = toString (digits_val (before_point v) * 10 ^ nat d +
             digits_val (after_point v) * 10 ^ (nat d - length (after_point v)))
       \<and> length (after_point v) \<le> nat d \<and> 0 \<le> d \<and> d \<le> 36"
proof -
  have pad: "digits_val (padEnd f k CHR ''0'') = digits_val f * 10 ^ (k - length f)" for f k
    by (simp add: padEnd_def digits_val_append)
  from assms show ?thesis
    by (auto simp: parseUnits_def Let_def pad unsigned_reads bind_r_Inr split: if_splits)
qed

lemma padStart_split:
  assumes n: "0 \<le> n" and d: "0 < d"
  defines "p \<equiv> padStart (toString n) (d + 1) CHR ''0''"
  shows "take (length p - d) p = toString (n div 10 ^ d)"
    and "length (drop (length p - d) p) = d" and "list_all is_digit p"
    and "digits_val p = n"
proof -
  let ?s = "dec_digits n"
  have s: "toString n = ?s" using n by (rule toString_nonneg)
  have all: "list_all is_digit p"
    using dec_digits_all[of n] zero_digit by (auto simp: p_def padStart_def s list_all_iff)
  show "list_all is_digit p" by (rule all)
  have len: "length p = max (d + 1) (length ?s)" by (simp add: p_def padStart_def s)
  show "length (drop (length p - d) p) = d" using len by simp
  show val: "digits_val p = n" using n by (simp add: p_def padStart_def s digits_val_append)
  let ?w = "take (length p - d) p" and ?f = "drop (length p - d) p"
  have "n = digits_val ?w * 10 ^ d + digits_val ?f"
    using val digits_val_append[of ?w ?f] len by simp
  moreover have "digits_val ?f < 10 ^ d" using digits_val_less[of ?f] len by simp
  ultimately have "n div 10 ^ d = digits_val ?w" by (simp add: div_pos_pos_trivial)
  moreover have "dec_digits (digits_val ?w) = ?w"
  proof (rule dec_digits_digits_val)
    show "list_all is_digit ?w" using all by (auto simp: list_all_iff dest: in_set_takeD)
    show "?w \<noteq> []" using len by auto
    show "length ?w = 1 \<or> hd ?w \<noteq> CHR ''0''"
    proof (cases "length ?s \<le> d + 1")
      case True
      then show ?thesis using len by simp
    next
      case False
      then have "p = ?s" by (simp add: p_def padStart_def s)
      moreover have "0 < n" using False n by (cases "n = 0") auto
      ultimately show ?thesis using hd_dec_digits[of n] False by (simp add: hd_take)
    qed
  qed
  ultimately show "?w = toString (n div 10 ^ d)" using n
    by (simp add: toString_nonneg pos_imp_zdiv_nonneg_iff)
qed

lemma toString_no_point: "0 \<le> n \<Longrightarrow> CHR ''.'' \<notin> set (toString n)"
  using dec_digits_all[of n] by (intro list_all_digit_no_point) (simp add: toString_nonneg)

lemma canonical_toString_length:
  "0 \<le> n \<Longrightarrow> length (toString n) \<le> k \<Longrightarrow> canonical_dec k (toString n)"
proof -
  assume n: "0 \<le> n" and k: "length (toString n) \<le> k"
  have "n < 10 ^ length (toString n)" using digits_val_less[of "toString n"] n by simp
  also have "\<dots> \<le> 10 ^ Suc k" using k by (intro power_increasing) auto
  finally show ?thesis using n by (simp only: canonical_toString)
qed

lemma length_toString_MAX: "0 \<le> n \<Longrightarrow> n \<le> MAX_INTEGER \<Longrightarrow> length (toString n) \<le> 78"
  using length_dec_digits[of n 77] MAX_INTEGER_digits by (simp add: toString_nonneg)

lemma parseUnits_whole:
  assumes "0 \<le> n" "n \<le> MAX_INTEGER"
  shows "parseUnits (toString n) 0 = Inr (toString n)"
proof -
  have "decimal_pattern (toString n)"
    using assms toString_no_point[of n] canonical_toString_length[of n "length (toString n)"]
    by (simp add: decimal_pattern_def)
  then show ?thesis
    using assms length_toString_MAX[of n] toString_no_point[of n]
    by (simp add: parseUnits_def isSafeInteger_def MAX_SAFE_INTEGER_def Let_def padEnd_def dec_simps)
qed

lemma parseUnits_point:
  assumes w: "0 \<le> w" "length (toString w) \<le> 78" and d: "0 < d" "d \<le> 36"
    and f: "list_all is_digit f" "length f = d"
    and n: "w * 10 ^ d + digits_val f \<le> MAX_INTEGER"
  shows "parseUnits (toString w @ CHR ''.'' # f) (int d) = Inr (toString (w * 10 ^ d + digits_val f))"
proof -
  let ?v = "toString w @ CHR ''.'' # f"
  have np: "CHR ''.'' \<notin> set (toString w)" using w(1) by (rule toString_no_point)
  have "decimal_pattern ?v"
    using np w(1) f d canonical_toString_length[of w "length ?v"]
    by (auto simp: decimal_pattern_def)
  moreover have "length ?v \<le> 115" using w(2) f d by simp
  moreover have "0 \<le> w * 10 ^ d + digits_val f" using w(1) by simp
  ultimately show ?thesis
    using np w d f n
    by (simp add: parseUnits_def isSafeInteger_def MAX_SAFE_INTEGER_def Let_def padEnd_def dec_simps)
qed

text \<open>Base units survive the trip through their human form. For every canonical amount and every
  supported precision, \<open>formatUnits\<close> succeeds and \<open>parseUnits\<close> reads the amount back exactly.\<close>

theorem format_parse_roundtrip:
  assumes "unsigned v = Inr n" and "0 \<le> d" and "d \<le> 36"
  shows "\<exists>t. formatUnits v d = Inr t \<and> parseUnits t d = Inr v"
proof -
  have v: "v = toString n" "0 \<le> n" "n \<le> MAX_INTEGER" using assms(1) by (simp_all add: unsigned_reads)
  have safe: "isSafeInteger d" using assms by (simp add: isSafeInteger_def MAX_SAFE_INTEGER_def)
  show ?thesis
  proof (cases "d = 0")
    case True
    then show ?thesis using v assms safe by (simp add: formatUnits_def parseUnits_whole)
  next
    case False
    define k where "k = nat d"
    have k: "0 < k" "k \<le> 36" "d = int k" using False assms by (auto simp: k_def)
    define p where "p = padStart (toString n) (k + 1) CHR ''0''"
    define f where "f = drop (length p - k) p"
    note ps = padStart_split[OF v(2) k(1), folded p_def, folded f_def]
    have fmt: "formatUnits v d = Inr (toString (n div 10 ^ k) @ CHR ''.'' # f)"
      using False assms safe ps(1) by (simp add: formatUnits_def Let_def k_def p_def f_def)
    have fv: "n = n div 10 ^ k * 10 ^ k + digits_val f"
    proof -
      have "n = digits_val (take (length p - k) p @ f)" using ps(4) by (simp add: f_def)
      also have "\<dots> = n div 10 ^ k * 10 ^ k + digits_val f"
        using ps(1,2) v(2) by (simp add: digits_val_append pos_imp_zdiv_nonneg_iff)
      finally show ?thesis .
    qed
    have "n div 10 ^ k \<le> n" using v(2) zdiv_mono2[of n 1 "10 ^ k"] by simp
    moreover have "0 \<le> n div 10 ^ k" using v(2) by (simp add: pos_imp_zdiv_nonneg_iff)
    moreover have "list_all is_digit f"
      using ps(3) by (auto simp: f_def list_all_iff dest: in_set_dropD)
    ultimately have "parseUnits (toString (n div 10 ^ k) @ CHR ''.'' # f) (int k) = Inr v"
      using parseUnits_point[of "n div 10 ^ k" k f] length_toString_MAX[of "n div 10 ^ k"] k ps(2) fv v
      by simp
    with fmt k show ?thesis by simp
  qed
qed

theorem format_parse_roundtrip_witness:
  "\<exists>t. formatUnits ''1500000'' 6 = Inr t \<and> parseUnits t 6 = Inr ''1500000''"
proof -
  have "unsigned ''1500000'' = Inr 1500000" by code_simp
  then show ?thesis by (rule format_parse_roundtrip) simp_all
qed

end
