(* ===== verification/Canonical_Json.thy ===== *)
theory Canonical_Json
  imports Decimal "HOL-Library.Multiset"
begin

text \<open>
  The canonical serialisation of JSON values on which the program bases its idempotency
  fingerprints (\<open>canonical\<close> in \<open>packages/domain/src/vault.ts\<close>) and its signatures and hashes
  (\<open>canonicalJson\<close> in \<open>src/security-model/index.ts\<close>). Object keys are sorted with
  \<open>localeCompare\<close>, whose outcome depends on the host's locale data and is therefore a parameter
  \<open>le\<close> of the model.
  Strings are lists of 8-bit characters; \<open>JSON.stringify\<close> of a string is \<open>quote\<close>.
  Shown: printing is injective (\<open>print_json_inj\<close>), hence, whatever \<open>le\<close> is, two values with the same
  canonical text are equal up to the order of their object entries (\<open>same_value\<close>, defined without any
  sorting); and when \<open>le\<close> is a linear order, values equal up to that order have the same text
  (\<open>canonical_inj\<close>).
\<close>

datatype json =
    JNull | JBool bool | JNum int | JStr string | JArr "json list" | JObj "(string \<times> json) list"

definition hex_char :: "nat \<Rightarrow> char" where
  "hex_char d = (if d < 16 then ''0123456789abcdef'' ! d else CHR ''0'')"

definition esc :: "char \<Rightarrow> string" where
  "esc c =
    (let n = of_char c :: nat in
     if n = 34 then [CHR 92, CHR 34]
     else if n = 92 then [CHR 92, CHR 92]
     else if n = 8 then [CHR 92, CHR ''b'']
     else if n = 9 then [CHR 92, CHR ''t'']
     else if n = 10 then [CHR 92, CHR ''n'']
     else if n = 12 then [CHR 92, CHR ''f'']
     else if n = 13 then [CHR 92, CHR ''r'']
     else if n < 32 then [CHR 92, CHR ''u'', CHR ''0'', CHR ''0'', hex_char (n div 16), hex_char (n mod 16)]
     else [c])"

definition quote :: "string \<Rightarrow> string" where
  "quote s = [CHR 34] @ concat (map esc s) @ [CHR 34]"

fun join :: "string list \<Rightarrow> string" where
  "join [] = []"
| "join [s] = s"
| "join (s # t # ts) = s @ [CHR '',''] @ join (t # ts)"

text \<open>\<open>Object.entries(value).sort(([a], [b]) => a.localeCompare(b))\<close>: a stable sort on the keys.\<close>

fun insert_entry :: "(string \<Rightarrow> string \<Rightarrow> bool) \<Rightarrow> string \<times> 'a \<Rightarrow> (string \<times> 'a) list \<Rightarrow> (string \<times> 'a) list" where
  "insert_entry le e [] = [e]"
| "insert_entry le e (x # xs) = (if le (fst e) (fst x) then e # x # xs else x # insert_entry le e xs)"

definition sort_entries :: "(string \<Rightarrow> string \<Rightarrow> bool) \<Rightarrow> (string \<times> 'a) list \<Rightarrow> (string \<times> 'a) list" where
  "sort_entries le es = foldr (insert_entry le) es []"

lemma mset_insert_entry [simp]: "mset (insert_entry le e xs) = add_mset e (mset xs)"
  by (induction xs) auto

lemma mset_sort_entries [simp]: "mset (sort_entries le es) = mset es"
  unfolding sort_entries_def by (induction es) auto

lemma set_sort_entries [simp]: "set (sort_entries le es) = set es"
  using mset_sort_entries mset_eq_setD by blast

lemma size_json_entry [termination_simp]:
  "(k, v) \<in> set es \<Longrightarrow> size v < Suc (size_list (size_prod (\<lambda>_. 0) size) es)"
  by (induction es) auto

function canonical :: "(string \<Rightarrow> string \<Rightarrow> bool) \<Rightarrow> json \<Rightarrow> string" where
  "canonical le JNull = ''null''"
| "canonical le (JBool b) = (if b then ''true'' else ''false'')"
| "canonical le (JNum n) = toString n"
| "canonical le (JStr s) = quote s"
| "canonical le (JArr vs) = ''['' @ join (map (canonical le) vs) @ '']''"
| "canonical le (JObj es) =
     ''{'' @ join (map (\<lambda>(k, v). quote k @ '':'' @ canonical le v) (sort_entries le es)) @ ''}''"
  by pat_completeness auto
termination
  by (relation "measure (size \<circ> snd)") (auto simp: termination_simp less_Suc_eq_le size_list_estimation')

text \<open>The value with every object's entries in sorted order, and the plain printer.\<close>

function norm :: "(string \<Rightarrow> string \<Rightarrow> bool) \<Rightarrow> json \<Rightarrow> json" where
  "norm le JNull = JNull"
| "norm le (JBool b) = JBool b"
| "norm le (JNum n) = JNum n"
| "norm le (JStr s) = JStr s"
| "norm le (JArr vs) = JArr (map (norm le) vs)"
| "norm le (JObj es) = JObj (map (\<lambda>(k, v). (k, norm le v)) (sort_entries le es))"
  by pat_completeness auto
termination
  by (relation "measure (size \<circ> snd)") (auto simp: termination_simp less_Suc_eq_le size_list_estimation')

fun print_json :: "json \<Rightarrow> string"
  and print_vals :: "json list \<Rightarrow> string"
  and print_entries :: "(string \<times> json) list \<Rightarrow> string" where
  "print_json JNull = ''null''"
| "print_json (JBool b) = (if b then ''true'' else ''false'')"
| "print_json (JNum n) = toString n"
| "print_json (JStr s) = quote s"
| "print_json (JArr vs) = ''['' @ print_vals vs @ '']''"
| "print_json (JObj es) = ''{'' @ print_entries es @ ''}''"
| "print_vals [] = []"
| "print_vals (v # vs) = print_json v @ (if vs = [] then [] else '','' @ print_vals vs)"
| "print_entries [] = []"
| "print_entries ((k, v) # es) =
     quote k @ '':'' @ print_json v @ (if es = [] then [] else '','' @ print_entries es)"

section \<open>Printing is injective\<close>

lemma join_Cons: "join (s # ss) = s @ (if ss = [] then [] else '','' @ join ss)"
  by (cases ss) auto

lemma canonical_print: "canonical le v = print_json (norm le v)"
proof (induction le v rule: canonical.induct)
  case (5 le vs)
  have "print_vals (map (norm le) ws) = join (map (canonical le) ws)" if "set ws \<subseteq> set vs" for ws
    using that by (induction ws) (auto simp: join_Cons 5)
  then show ?case by simp
next
  case (6 le es)
  have "print_entries (map (\<lambda>(k, v). (k, norm le v)) fs) =
        join (map (\<lambda>(k, v). quote k @ '':'' @ canonical le v) fs)"
    if "set fs \<subseteq> set (sort_entries le es)" for fs
    using that by (induction fs) (auto simp: join_Cons 6)
  then show ?case by simp
qed auto

definition unesc :: "string \<Rightarrow> nat" where
  "unesc s = (case s of [] \<Rightarrow> 0 | a # t \<Rightarrow>
     if a \<noteq> CHR 92 then of_char a
     else (case t of [] \<Rightarrow> 0 | b # t' \<Rightarrow>
       if b = CHR 34 then 34 else if b = CHR 92 then 92 else if b = CHR ''b'' then 8
       else if b = CHR ''t'' then 9 else if b = CHR ''n'' then 10 else if b = CHR ''f'' then 12
       else if b = CHR ''r'' then 13
       else (if t' ! 2 = CHR ''1'' then 16 else 0) +
            (if is_digit (t' ! 3) then nat (digit_val (t' ! 3)) else of_char (t' ! 3) - 87)))"

lemma unesc_esc_control:
  assumes "(of_char c :: nat) < 32"
  shows "unesc (esc c @ r) = of_char c"
proof -
  define n where "n = (of_char c :: nat)"
  have "n = 31 \<or> n = 30 \<or> n = 29 \<or> n = 28 \<or> n = 27 \<or> n = 26 \<or> n = 25 \<or> n = 24 \<or>
    n = 23 \<or> n = 22 \<or> n = 21 \<or> n = 20 \<or> n = 19 \<or> n = 18 \<or> n = 17 \<or> n = 16 \<or>
    n = 15 \<or> n = 14 \<or> n = 13 \<or> n = 12 \<or> n = 11 \<or> n = 10 \<or> n = 9 \<or> n = 8 \<or>
    n = 7 \<or> n = 6 \<or> n = 5 \<or> n = 4 \<or> n = 3 \<or> n = 2 \<or> n = 1 \<or> n = 0"
    using assms unfolding n_def by presburger
  then show ?thesis
    unfolding esc_def n_def[symmetric] Let_def
    by (elim disjE) (simp_all add: unesc_def hex_char_def is_digit_def digit_val_def)
qed

lemma unesc_esc: "unesc (esc c @ r) = of_char c"
proof (cases "(of_char c :: nat) < 32")
  case True
  then show ?thesis by (rule unesc_esc_control)
next
  case False
  have "c = CHR 92 \<longleftrightarrow> (of_char c :: nat) = 92" "c = CHR 34 \<longleftrightarrow> (of_char c :: nat) = 34"
    by (auto simp: of_char_eq_iff[of c "CHR 92", where 'a = nat, symmetric]
        of_char_eq_iff[of c "CHR 34", where 'a = nat, symmetric] simp del: of_char_eq_iff)
  then show ?thesis using False by (auto simp: esc_def unesc_def Let_def)
qed

lemma esc_prefix_free: "esc c @ r = esc d @ s \<Longrightarrow> c = d \<and> r = s"
  using unesc_esc[of c r] unesc_esc[of d s] by (auto simp: of_char_eq_iff)

lemma esc_not_quote: "esc c @ r \<noteq> CHR 34 # s"
proof
  assume eq: "esc c @ r = CHR 34 # s"
  then have "(of_char c :: nat) = 34" using unesc_esc[of c r] by (simp add: unesc_def)
  then show False using eq by (simp add: esc_def)
qed

lemma esc_string_inj:
  "concat (map esc s) @ CHR 34 # r = concat (map esc t) @ CHR 34 # r' \<Longrightarrow> s = t \<and> r = r'"
proof (induction s arbitrary: t)
  case Nil
  then show ?case using esc_not_quote by (cases t) (auto dest: sym)
next
  case (Cons c s)
  show ?case
  proof (cases t)
    case Nil
    then show ?thesis using Cons.prems esc_not_quote by auto
  next
    case (Cons d t')
    then show ?thesis using Cons.prems Cons.IH[of t'] by (auto dest: esc_prefix_free)
  qed
qed

lemma quote_inj: "quote s @ r = quote t @ r' \<Longrightarrow> s = t \<and> r = r'"
  using esc_string_inj[of s r t r'] by (simp add: quote_def)

lemma quote_inj_iff [simp]: "quote s = quote t \<longleftrightarrow> s = t"
  using quote_inj[of s "[]" t "[]"] by auto

definition terminated :: "string \<Rightarrow> bool" where
  "terminated r \<longleftrightarrow> r = [] \<or> hd r \<in> {CHR '','', CHR '']'', CHR ''}''}"

definition num_char :: "char \<Rightarrow> bool" where
  "num_char c \<longleftrightarrow> is_digit c \<or> c = CHR ''-''"

lemma terminated_simps [simp]:
  "terminated []" "terminated (CHR '','' # r)" "terminated (CHR '']'' # r)" "terminated (CHR ''}'' # r)"
  by (simp_all add: terminated_def)

lemma toString_num_chars: "list_all num_char (toString n)"
  using dec_digits_all[of n] dec_digits_all[of "- n"]
  by (auto simp: toString_def num_char_def list_all_iff)

lemma toString_head: "toString n @ r = c # s \<Longrightarrow> num_char c"
  using toString_num_chars[of n] by (cases "toString n") (auto simp: toString_def split: if_splits)

lemma not_num_char [simp]:
  "\<not> num_char CHR ''n''" "\<not> num_char CHR ''t''" "\<not> num_char CHR ''f''" "\<not> num_char CHR ''[''"
  "\<not> num_char CHR ''{''" "\<not> num_char CHR 34" "\<not> num_char CHR '']''" "\<not> num_char CHR ''}''"
  "\<not> num_char CHR '',''"
  by (simp_all add: num_char_def is_digit_def)

lemma takeWhile_toString: "terminated r \<Longrightarrow> takeWhile num_char (toString n @ r) = toString n"
proof -
  assume "terminated r"
  then have "takeWhile num_char r = []" by (cases r) (auto simp: terminated_def)
  then show ?thesis using toString_num_chars[of n] by (simp add: takeWhile_append2 list_all_iff)
qed

lemma toString_suffix_inj:
  assumes "terminated r" "terminated r'" "toString m @ r = toString n @ r'"
  shows "m = n \<and> r = r'"
proof -
  have "toString m = toString n"
    using assms takeWhile_toString[of r m] takeWhile_toString[of r' n] by simp
  then show ?thesis using assms(3) by simp
qed

lemma quote_head: "quote s @ r = c # t \<Longrightarrow> c = CHR 34"
  by (simp add: quote_def)

lemma toString_head_differs [simp]:
  assumes "\<not> num_char c"
  shows "toString n @ r \<noteq> c # t" "c # t \<noteq> toString n @ r"
  using assms toString_head[of n r c t] by metis+

lemma quote_head_differs [simp]:
  assumes "c \<noteq> CHR 34"
  shows "quote s @ r \<noteq> c # t" "c # t \<noteq> quote s @ r"
  using assms quote_head[of s r c t] by metis+

lemma toString_quote_differ [simp]: "toString n @ r \<noteq> quote s @ t" "quote s @ t \<noteq> toString n @ r"
  using toString_head[of n r "CHR 34"] unfolding quote_def by (metis append_Cons not_num_char(6))+

lemma print_json_head:
  "c \<in> {CHR '']'', CHR ''}'', CHR '',''} \<Longrightarrow> print_json v @ r \<noteq> c # s"
  by (cases v) auto

lemma print_inj_all:
  shows "terminated r \<Longrightarrow> terminated r' \<Longrightarrow> print_json v @ r = print_json w @ r' \<Longrightarrow> v = w \<and> r = r'"
    and "print_vals vs @ CHR '']'' # r = print_vals ws @ CHR '']'' # r' \<Longrightarrow> vs = ws \<and> r = r'"
    and "print_entries es @ CHR ''}'' # r = print_entries fs @ CHR ''}'' # r' \<Longrightarrow> es = fs \<and> r = r'"
proof (induction v and vs and es arbitrary: w r r' and ws r r' and fs r r'
    rule: print_json_print_vals_print_entries.induct)
  case 1
  then show ?case by (cases w) (simp_all split: if_splits)
next
  case (2 b)
  then show ?case by (cases w) (simp_all split: if_splits)
next
  case (3 n)
  then show ?case by (cases w) (auto split: if_splits dest: toString_suffix_inj)
next
  case (4 s)
  then show ?case by (cases w) (auto split: if_splits dest: quote_inj)
next
  case (5 vs)
  show ?case
  proof (cases w)
    case (JArr ws)
    then show ?thesis using 5(1)[of r ws r'] 5(4) by simp
  qed (insert 5(4), simp_all split: if_splits)
next
  case (6 es)
  show ?case
  proof (cases w)
    case (JObj fs)
    then show ?thesis using 6(1)[of r fs r'] 6(4) by simp
  qed (insert 6(4), simp_all split: if_splits)
next
  case 7
  then show ?case
    using print_json_head[of "CHR '']''", symmetric] by (cases ws) auto
next
  case (8 v vs)
  show ?case
  proof (cases ws)
    case Nil
    then show ?thesis using 8 print_json_head[of "CHR '']''"] by auto
  next
    case (Cons w ws')
    let ?t = "\<lambda>us q. (if us = [] then [] else '','' @ print_vals us) @ CHR '']'' # q"
    have t: "terminated (?t us q)" for us q by simp
    have "print_json v @ ?t vs r = print_json w @ ?t ws' r'" using 8(3) Cons by simp
    then have eq: "v = w" "?t vs r = ?t ws' r'" using 8(1)[OF t t] by auto
    then show ?thesis using Cons 8(2)[of r ws' r'] by (auto split: if_splits)
  qed
next
  case 9
  then show ?case by (cases fs) (auto simp: quote_def)
next
  case (10 k v es)
  show ?case
  proof (cases fs)
    case Nil
    then show ?thesis using 10 by (auto simp: quote_def)
  next
    case (Cons f fs')
    obtain l w where f: "f = (l, w)" by (cases f)
    let ?t = "\<lambda>us q. (if us = [] then [] else '','' @ print_entries us) @ CHR ''}'' # q"
    have t: "terminated (?t us q)" for us q by simp
    have "quote k @ '':'' @ print_json v @ ?t es r = quote l @ '':'' @ print_json w @ ?t fs' r'"
      using 10(3) Cons f by simp
    then have kl: "k = l" "print_json v @ ?t es r = print_json w @ ?t fs' r'"
      by (auto dest: quote_inj)
    then have eq: "v = w" "?t es r = ?t fs' r'" using 10(1)[OF t t] by auto
    then show ?thesis using Cons f kl 10(2)[of r fs' r'] by (auto split: if_splits)
  qed
qed

lemma print_json_inj: "print_json v = print_json w \<longleftrightarrow> v = w"
  using print_inj_all(1)[of "[]" "[]" v w] by auto

section \<open>Equality up to the order of object entries\<close>

text \<open>Two values are the same when they differ only in the order in which objects list their entries.\<close>

inductive same_value :: "json \<Rightarrow> json \<Rightarrow> bool" where
  same_null: "same_value JNull JNull"
| same_bool: "same_value (JBool b) (JBool b)"
| same_num: "same_value (JNum n) (JNum n)"
| same_str: "same_value (JStr x) (JStr x)"
| same_arr: "list_all2 same_value vs ws \<Longrightarrow> same_value (JArr vs) (JArr ws)"
| same_obj: "list_all2 (rel_prod (=) same_value) es gs \<Longrightarrow> mset gs = mset fs \<Longrightarrow> same_value (JObj es) (JObj fs)"

fun distinct_keys :: "json \<Rightarrow> bool" where
  "distinct_keys (JArr vs) \<longleftrightarrow> (\<forall>v\<in>set vs. distinct_keys v)"
| "distinct_keys (JObj es) \<longleftrightarrow> distinct (map fst es) \<and> (\<forall>(k, v)\<in>set es. distinct_keys v)"
| "distinct_keys _ \<longleftrightarrow> True"

definition key_order :: "(string \<Rightarrow> string \<Rightarrow> bool) \<Rightarrow> bool" where
  "key_order le \<longleftrightarrow> (\<forall>x y. le x y \<or> le y x) \<and> (\<forall>x y. le x y \<longrightarrow> le y x \<longrightarrow> x = y) \<and>
     (\<forall>x y z. le x y \<longrightarrow> le y z \<longrightarrow> le x z)"

lemma list_all2_map_eq:
  "map f xs = map f ys \<Longrightarrow> (\<And>x y. x \<in> set xs \<Longrightarrow> f x = f y \<Longrightarrow> R x y) \<Longrightarrow> list_all2 R xs ys"
proof (induction xs arbitrary: ys)
  case (Cons x xs)
  then show ?case by (cases ys) auto
qed simp

lemma norm_leaf:
  "norm le w = JNull \<longleftrightarrow> w = JNull" "norm le w = JBool b \<longleftrightarrow> w = JBool b" "norm le w = JNum n \<longleftrightarrow> w = JNum n"
  "norm le w = JStr x \<longleftrightarrow> w = JStr x"
  by (cases w; simp)+

lemma norm_same: "norm le v = norm le w \<Longrightarrow> same_value v w"
proof (induction le v arbitrary: w rule: norm.induct)
  case (5 le vs)
  obtain ws where "w = JArr ws" "map (norm le) vs = map (norm le) ws" using 5(2) by (cases w) auto
  then show ?case using 5(1) by (auto intro!: same_arr intro: list_all2_map_eq)
next
  case (6 le es)
  let ?f = "\<lambda>(k, v). (k, norm le v)"
  obtain fs where w: "w = JObj fs" and eq: "map ?f (sort_entries le es) = map ?f (sort_entries le fs)"
    using 6(2) by (cases w) auto
  have "list_all2 (rel_prod (=) same_value) (sort_entries le es) (sort_entries le fs)"
  proof (rule list_all2_map_eq[OF eq])
    fix x y assume "x \<in> set (sort_entries le es)" "?f x = ?f y"
    moreover obtain k v where "x = (k, v)" by (cases x)
    moreover obtain l w where "y = (l, w)" by (cases y)
    ultimately show "rel_prod (=) same_value x y" using 6(1)[of x k v w] by auto
  qed
  then obtain gs where "list_all2 (rel_prod (=) same_value) es gs" "mset gs = mset (sort_entries le fs)"
    using list_all2_reorder_left_invariance[of _ "sort_entries le es" "sort_entries le fs" es] by auto
  then show ?case unfolding w by (auto intro: same_obj)
qed (simp_all add: norm_leaf same_value.intros eq_commute[of _ "norm _ _"])

text \<open>Conversely: sorting by a linear order forgets the order in which distinct keys were listed.\<close>

lemma sort_entries_map: "sort_entries le (map (\<lambda>(k, v). (k, f v)) es) = map (\<lambda>(k, v). (k, f v)) (sort_entries le es)"
proof -
  have "insert_entry le (k, f v) (map (\<lambda>(k, v). (k, f v)) xs) = map (\<lambda>(k, v). (k, f v)) (insert_entry le (k, v) xs)" for k v xs
    by (induction xs) auto
  then show ?thesis unfolding sort_entries_def by (induction es) auto
qed

lemma sorted_insert_entry:
  assumes "key_order le" "sorted_wrt (\<lambda>x y. le (fst x) (fst y)) xs"
  shows "sorted_wrt (\<lambda>x y. le (fst x) (fst y)) (insert_entry le e xs)"
  using assms(2)
proof (induction xs)
  case (Cons x xs)
  have set: "set (insert_entry le e ys) = insert e (set ys)" for ys :: "(string \<times> 'a) list"
    by (induction ys) auto
  show ?case using Cons assms(1) unfolding key_order_def by (auto simp: set)
qed simp

lemma sorted_entries: "key_order le \<Longrightarrow> sorted_wrt (\<lambda>x y. le (fst x) (fst y)) (sort_entries le es)"
  unfolding sort_entries_def by (induction es) (auto intro: sorted_insert_entry)

lemma sorted_unique:
  assumes "key_order le" "mset xs = mset ys" "distinct (map fst xs)"
    "sorted_wrt (\<lambda>x y. le (fst x) (fst y)) xs" "sorted_wrt (\<lambda>x y. le (fst x) (fst y)) ys"
  shows "xs = ys"
  using assms(2-)
proof (induction xs arbitrary: ys)
  case (Cons x xs)
  obtain y ys' where ys: "ys = y # ys'" using Cons.prems(1) by (cases ys) auto
  have sets: "insert x (set xs) = insert y (set ys')" using arg_cong[OF Cons.prems(1), of set_mset] ys by simp
  have "fst x = fst y" if "x \<noteq> y"
  proof -
    have "x \<in> set ys'" "y \<in> set xs" using sets that by auto
    then show ?thesis using Cons.prems(3,4) ys assms(1) by (auto simp: key_order_def)
  qed
  moreover have "fst x \<noteq> fst y" if "x \<noteq> y"
    using sets that Cons.prems(2) by (auto simp: image_iff)
  ultimately have "x = y" by blast
  then show ?case using Cons ys by auto
qed simp

lemma same_norm: "same_value v w \<Longrightarrow> key_order le \<Longrightarrow> distinct_keys v \<Longrightarrow> norm le v = norm le w"
proof (induction rule: same_value.induct)
  case (same_arr vs ws)
  then have "map (norm le) vs = map (norm le) ws" by (induction rule: list_all2_induct) auto
  then show ?case by simp
next
  case (same_obj es gs fs)
  let ?f = "\<lambda>(k, v). (k, norm le v)"
  have dist: "distinct (map fst es)" and sub: "\<forall>(k, v)\<in>set es. distinct_keys v" using same_obj.prems(2) by auto
  have eq: "map ?f es = map ?f gs"
    using same_obj.IH sub same_obj.prems(1) by (induction rule: list_all2_induct) auto
  have "sort_entries le (map ?f es) = sort_entries le (map ?f fs)"
  proof (rule sorted_unique[OF same_obj.prems(1)])
    show "mset (sort_entries le (map ?f es)) = mset (sort_entries le (map ?f fs))"
      using eq same_obj.hyps by simp
    have "mset (map fst (sort_entries le (map ?f es))) = mset (map fst es)"
      by (simp add: image_mset.compositionality comp_def case_prod_unfold)
    then show "distinct (map fst (sort_entries le (map ?f es)))" using dist mset_eq_imp_distinct_iff by blast
  qed (rule sorted_entries[OF same_obj.prems(1)])+
  then show ?case by (simp add: sort_entries_map)
qed auto

text \<open>An order of keys: the lexicographic order of the character codes.\<close>

fun code_le :: "string \<Rightarrow> string \<Rightarrow> bool" where
  "code_le [] y = True"
| "code_le (a # x) [] = False"
| "code_le (a # x) (b # y) = ((of_char a :: nat) < of_char b \<or> a = b \<and> code_le x y)"

lemma code_le_order: "key_order code_le"
proof -
  have "code_le x y \<or> code_le y x" for x y
  proof (induction x y rule: code_le.induct)
    case (3 a x b y)
    then show ?case using of_char_eq_iff[of a b, where 'a = nat] by (auto simp: not_less le_less)
  qed (auto split: list.splits)
  moreover have "code_le x y \<Longrightarrow> code_le y x \<Longrightarrow> x = y" for x y
    by (induction x y rule: code_le.induct) (auto elim: code_le.elims)
  moreover have "code_le x y \<Longrightarrow> code_le y z \<Longrightarrow> code_le x z" for x y z
  proof (induction x y arbitrary: z rule: code_le.induct)
    case (3 a x b y)
    then show ?case by (cases z) auto
  qed auto
  ultimately show ?thesis by (auto simp: key_order_def)
qed

text \<open>C39: a canonical text determines the value it was made from, up to the order in which objects list their
  entries, and nothing else. Whatever \<open>localeCompare\<close> answers, two JSON values with the same canonical
  serialisation are the same value up to that order, so that no crafted string, number or nesting can imitate
  another value's text; and where the comparison is a linear order and no object repeats a key, two values that
  differ only in that order have the same serialisation.\<close>

theorem canonical_inj:
  shows "(canonical le v = canonical le w \<longrightarrow> same_value v w) \<and>
    (key_order le \<and> distinct_keys v \<longrightarrow> same_value v w \<longrightarrow> canonical le v = canonical le w)"
  using norm_same[of le v w] same_norm[of v w le] by (auto simp: canonical_print print_json_inj)

theorem canonical_inj_witness:
  "let v = JObj [(''b'', JNum 1), (''a'', JArr [JBool True])]; w = JObj [(''a'', JArr [JBool True]), (''b'', JNum 1)] in
   canonical code_le v = canonical code_le w \<and> \<not> same_value v (JObj [(''a'', JArr [JBool True]), (''b'', JNum 2)])"
proof -
  let ?v = "JObj [(''b'', JNum 1), (''a'', JArr [JBool True])]"
  let ?w = "JObj [(''a'', JArr [JBool True]), (''b'', JNum 1)]"
  let ?x = "JObj [(''a'', JArr [JBool True]), (''b'', JNum 2)]"
  have "canonical code_le ?v = canonical code_le ?w" by code_simp
  then have "same_value ?v ?w" using canonical_inj[of code_le ?v ?w] by blast
  moreover have "distinct_keys ?v" by simp
  moreover have "canonical code_le ?v \<noteq> canonical code_le ?x" by code_simp
  ultimately show ?thesis
    using canonical_inj[of code_le ?v ?w] canonical_inj[of code_le ?v ?x] code_le_order unfolding Let_def by blast
qed

end
