(* ===== verification/Vault.thy ===== *)
theory Vault
  imports Money Canonical_Json
begin

text \<open>
  \<^bold>\<open>packages/domain/src/vault.ts\<close>: the isolated strategy Vault as a pure state machine. One
  definition per function of the source, in its order: \<open>balances\<close>, the PASS capacity conversions,
  \<open>passAccounting\<close>, \<open>applyPassCommand\<close>, \<open>assertInvariant\<close>, \<open>createVault\<close>, \<open>execute\<close>, \<open>restoreVault\<close>.
  Amounts stay the canonical decimal strings the program stores, so every parse that can throw is a
  step of the model. \<open>Record<string, _>\<close> is an association list. The branches the TypeScript types
  exclude (an unknown command type, a status outside its union) have no counterpart. \<open>JSON.parse\<close>
  and the settlement policy are parameters; \<open>Object.freeze\<close> and \<open>structuredClone\<close> are identities
  on values.
\<close>

section \<open>Data\<close>

datatype role = Owner | Executor

record actor =
  actor_id :: string
  actor_role :: role

record split =
  profit :: string
  principal :: string

record pass_lock =
  lock_version :: int
  lock_principal :: string
  lock_closed :: bool
  lock_withdrawals :: "(string \<times> split) list"

datatype vault_status = Stopped | Running | Stopping

datatype command_body =
    Deposit string | Allocate string | Deallocate string | RequestWithdrawal string
  | ConfirmWithdrawal string | CancelWithdrawal string
  | Start | Stop | EnablePassLocking | CloseVault
  | ReserveBuy string string | CancelOrder string | FillBuy string
  | MarkPosition string | SettlePosition string | PayFees string

record command =
  cmd_id :: string
  expectedRevision :: int
  body :: command_body

record receipt =
  fingerprint :: string
  receipt_revision :: int

record vault_event =
  event_revision :: int
  event_commandId :: string
  event_type :: string
  event_actorId :: string

record vault =
  passLock :: "pass_lock option"
  scope :: string
  schemaVersion :: int
  vault_id :: string
  ownerId :: string
  executorId :: string
  strategyId :: string
  passes :: string
  revision :: int
  status :: vault_status
  idle :: string
  activeCash :: string
  positionCost :: string
  positionValue :: string
  feeLiability :: string
  deposits :: string
  withdrawalsPaid :: string
  realizedPnl :: string
  feesAccrued :: string
  feesPaid :: string
  orders :: "(string \<times> string) list"
  pendingWithdrawals :: "(string \<times> string) list"
  receipts :: "(string \<times> receipt) list"
  events :: "vault_event list"

record settlement =
  proceeds_in :: int
  cost_in :: int
  cash_in :: int
  existingFeeLiability :: int
  allowance_in :: int

record policy =
  policy_scope :: string
  policy_id :: string
  assess :: "settlement \<Rightarrow> int \<times> int"

record balance_sheet =
  reserved :: int
  pending :: int
  unrealized :: int
  activeGross :: int
  activeNet :: int
  equity :: int
  allowance :: int

record pass_view =
  view_principal :: string
  totalPassRaw :: string
  lockedPassRaw :: string
  freePassRaw :: string
  passDecimals :: int
  capacityDecimals :: int
  view_closed :: bool
  withdrawable :: string
  availableProfit :: string
  reservedPrincipal :: string
  view_withdrawals :: "(string \<times> split) list"

section \<open>Helpers\<close>

definition id_char :: "char \<Rightarrow> bool" where
  "id_char c \<longleftrightarrow> is_alnum c \<or> c = CHR ''_'' \<or> c = CHR ''-''"

definition idPattern :: "string \<Rightarrow> bool" where
  "idPattern s \<longleftrightarrow>
     (case s of [] \<Rightarrow> False | c # cs \<Rightarrow> is_alnum c \<and> list_all id_char cs \<and> length cs \<le> 79)"

definition validId :: "string \<Rightarrow> domain_error + unit" where
  "validId s = check (idPattern s) INVALID_ID"

fun sum_r :: "('a \<Rightarrow> domain_error + int) \<Rightarrow> 'a list \<Rightarrow> domain_error + int" where
  "sum_r f [] = Inr 0"
| "sum_r f (x # xs) = bind_r (f x) (\<lambda>a. bind_r (sum_r f xs) (\<lambda>b. Inr (a + b)))"

definition sum_amounts :: "(string \<times> string) list \<Rightarrow> domain_error + int" where
  "sum_amounts m = sum_r (\<lambda>e. unsigned (snd e)) m"

definition balances :: "vault \<Rightarrow> domain_error + balance_sheet" where
  "balances s =
     bind_r (sum_amounts (orders s)) (\<lambda>res.
     bind_r (sum_amounts (pendingWithdrawals s)) (\<lambda>pend.
     bind_r (unsigned (positionValue s)) (\<lambda>val.
     bind_r (unsigned (positionCost s)) (\<lambda>cost.
     bind_r (unsigned (activeCash s)) (\<lambda>cash.
     bind_r (unsigned (feeLiability s)) (\<lambda>fee.
     bind_r (unsigned (idle s)) (\<lambda>idl.
     bind_r (unsigned (passes s)) (\<lambda>pas.
     let gross = cash + res + val; net = gross - fee in
     Inr \<lparr>reserved = res, pending = pend, unrealized = val - cost, activeGross = gross,
          activeNet = net, equity = idl + net + pend,
          allowance = pas * 10 ^ TEST_CASH_decimals\<rparr>))))))))"

definition capacityToPassRaw :: "string \<Rightarrow> domain_error + string" where
  "capacityToPassRaw usdcRaw =
     bind_r (unsigned usdcRaw) (\<lambda>raw.
     bind_r (check (raw \<le> tdiv MAX_INTEGER 1000000000000) AMOUNT_OVERFLOW) (\<lambda>_.
     Inr (toString (raw * 1000000000000))))"

definition passRawToCapacity :: "string \<Rightarrow> domain_error + string" where
  "passRawToCapacity passRaw =
     bind_r (unsigned passRaw) (\<lambda>raw.
     bind_r (check (raw mod 1000000000000 = 0) INEXACT_PASS_AMOUNT) (\<lambda>_.
     Inr (toString (tdiv raw 1000000000000))))"

definition passAccounting :: "vault \<Rightarrow> domain_error + pass_view option" where
  "passAccounting s =
    (case passLock s of None \<Rightarrow> Inr None | Some lock \<Rightarrow>
     bind_r (unsigned (passes s)) (\<lambda>pas.
     let total = pas * 1000000 in
     bind_r (unsigned (lock_principal lock)) (\<lambda>prin.
     bind_r (sum_r (\<lambda>e. unsigned (profit (snd e))) (lock_withdrawals lock)) (\<lambda>resProfit.
     bind_r (sum_r (\<lambda>e. unsigned (principal (snd e))) (lock_withdrawals lock)) (\<lambda>resPrincipal.
     bind_r (unsigned (idle s)) (\<lambda>idl.
     bind_r (unsigned (activeCash s)) (\<lambda>act.
     bind_r (sum_amounts (pendingWithdrawals s)) (\<lambda>pend.
     bind_r (unsigned (feeLiability s)) (\<lambda>fee.
     let cash = idl + act + pend - fee;
         gain = (if cash > prin + resProfit then cash - prin - resProfit else 0) in
     bind_r (unsigned (positionCost s)) (\<lambda>cost.
     bind_r (unsigned (positionValue s)) (\<lambda>val.
     let exposed = (cost > 0 \<or> val > 0 \<or> length (orders s) > 0);
         limit = (if lock_closed lock then 0
                  else if exposed then (if idl < gain then idl else gain) else idl) in
     bind_r (capacityToPassRaw (toString total)) (\<lambda>totalRaw.
     bind_r (capacityToPassRaw (toString prin)) (\<lambda>lockedRaw.
     bind_r (capacityToPassRaw (toString (total - prin))) (\<lambda>freeRaw.
     Inr (Some \<lparr>view_principal = lock_principal lock, totalPassRaw = totalRaw,
       lockedPassRaw = lockedRaw, freePassRaw = freeRaw, passDecimals = 18, capacityDecimals = 6,
       view_closed = lock_closed lock, withdrawable = toString limit,
       availableProfit = toString gain, reservedPrincipal = toString resPrincipal,
       view_withdrawals = lock_withdrawals lock\<rparr>)))))))))))))))"

definition no_exposure :: "vault \<Rightarrow> bool" where
  "no_exposure s \<longleftrightarrow> positionCost s = ''0'' \<and> positionValue s = ''0'' \<and> orders s = []"

definition enablePass :: "vault \<Rightarrow> domain_error + pass_lock option" where
  "enablePass s =
     bind_r (check (passLock s = None) PASS_ALREADY_ENABLED) (\<lambda>_.
     bind_r
       (if status s = Stopped \<and> withdrawalsPaid s = ''0'' \<and> pendingWithdrawals s = [] \<and>
           positionCost s = ''0'' \<and> positionValue s = ''0'' \<and> orders s = [] \<and> feeLiability s = ''0''
        then bind_r (unsigned (deposits s)) (\<lambda>dep. bind_r (balances s) (\<lambda>b.
               check (dep \<le> allowance b) PASS_ADOPTION_UNSAFE))
        else Inl PASS_ADOPTION_UNSAFE) (\<lambda>_.
     Inr (Some \<lparr>lock_version = 1, lock_principal = deposits s, lock_closed = False,
                lock_withdrawals = []\<rparr>)))"

definition updatePassLock ::
  "vault \<Rightarrow> pass_lock \<Rightarrow> pass_view \<Rightarrow> int \<Rightarrow> command \<Rightarrow> domain_error + pass_lock option" where
  "updatePassLock s lock a prin c =
    (let wds = lock_withdrawals lock;
         keep = (\<lambda>p w. Inr (Some (lock\<lparr>lock_principal := toString p, lock_withdrawals := w\<rparr>))) in
     case body c of
       Deposit amt \<Rightarrow>
         bind_r (unsigned amt) (\<lambda>amount.
         bind_r (passRawToCapacity (freePassRaw a)) (\<lambda>cap.
         bind_r (unsigned cap) (\<lambda>free.
         bind_r (check (amount \<le> free) INSUFFICIENT_FREE_PASS) (\<lambda>_.
         keep (prin + amount) wds))))
     | RequestWithdrawal amt \<Rightarrow>
         bind_r (unsigned amt) (\<lambda>amount.
         bind_r (unsigned (availableProfit a)) (\<lambda>gain.
         let prof = (if amount < gain then amount else gain); part = amount - prof in
         bind_r (unsigned (reservedPrincipal a)) (\<lambda>resv.
         bind_r (check (part \<le> prin - resv) INSUFFICIENT_PASS_PRINCIPAL) (\<lambda>_.
         bind_r (check (part > 0 \<longrightarrow> no_exposure s) OPEN_PASS_POSITIONS) (\<lambda>_.
         keep prin (AList.update (cmd_id c) \<lparr>profit = toString prof, principal = toString part\<rparr> wds))))))
     | ConfirmWithdrawal wid \<Rightarrow>
         (case map_of wds wid of
            None \<Rightarrow> Inl WITHDRAWAL_NOT_PENDING
          | Some w \<Rightarrow>
              bind_r (unsigned (principal w)) (\<lambda>part.
              bind_r (check (part > 0 \<longrightarrow> no_exposure s) OPEN_PASS_POSITIONS) (\<lambda>_.
              keep (prin - part) (AList.delete wid wds))))
     | CancelWithdrawal wid \<Rightarrow>
         (case map_of wds wid of
            None \<Rightarrow> Inl WITHDRAWAL_NOT_PENDING
          | Some w \<Rightarrow> keep prin (AList.delete wid wds))
     | CloseVault \<Rightarrow>
         bind_r (check (status s = Stopped \<and> positionCost s = ''0'' \<and> positionValue s = ''0'' \<and>
                   orders s = [] \<and> pendingWithdrawals s = [] \<and> feeLiability s = ''0'')
                 VAULT_EXIT_NOT_READY) (\<lambda>_.
         Inr (Some \<lparr>lock_version = 1, lock_principal = ''0'', lock_closed = True,
                    lock_withdrawals = []\<rparr>))
     | _ \<Rightarrow> keep prin wds)"

definition applyPassCommand :: "vault \<Rightarrow> command \<Rightarrow> domain_error + pass_lock option" where
  "applyPassCommand s c =
    (if body c = EnablePassLocking then enablePass s
     else case passLock s of
       None \<Rightarrow> bind_r (check (body c \<noteq> CloseVault) PASS_NOT_ENABLED) (\<lambda>_. Inr None)
     | Some lock \<Rightarrow>
         bind_r (check (\<not> lock_closed lock) VAULT_CLOSED) (\<lambda>_.
         bind_r (unsigned (lock_principal lock)) (\<lambda>prin.
         bind_r (passAccounting s) (\<lambda>a.
         case a of None \<Rightarrow> Inr None | Some v \<Rightarrow> updatePassLock s lock v prin c))))"

section \<open>The invariant the program checks\<close>

definition amount_ok :: "string \<Rightarrow> domain_error + unit" where
  "amount_ok x = bind_r (unsigned x) (\<lambda>_. Inr ())"

definition reservation_ok :: "string \<times> string \<Rightarrow> domain_error + unit" where
  "reservation_ok e =
     bind_r (validId (fst e)) (\<lambda>_. bind_r (unsigned (snd e)) (\<lambda>n. check (n > 0) EMPTY_RESERVATION))"

definition split_ok :: "vault \<Rightarrow> string \<times> split \<Rightarrow> int \<Rightarrow> domain_error + int" where
  "split_ok s e acc =
    (case map_of (pendingWithdrawals s) (fst e) of
       None \<Rightarrow> Inl INVALID_PASS_LOCK
     | Some amt \<Rightarrow>
         bind_r (unsigned (profit (snd e))) (\<lambda>p.
         bind_r (unsigned (principal (snd e))) (\<lambda>q.
         bind_r (unsigned amt) (\<lambda>n.
         bind_r (check (p + q = n) INVALID_PASS_LOCK) (\<lambda>_. Inr (acc + q))))))"

definition assertPassLock :: "vault \<Rightarrow> pass_lock \<Rightarrow> domain_error + unit" where
  "assertPassLock s lock =
     bind_r (unsigned (passes s)) (\<lambda>pas.
     bind_r (capacityToPassRaw (toString (pas * 1000000))) (\<lambda>_.
     bind_r (check (lock_version lock = 1) INVALID_PASS_LOCK) (\<lambda>_.
     bind_r (unsigned (lock_principal lock)) (\<lambda>prin.
     bind_r (check (prin \<le> pas * 1000000) INVALID_PASS_LOCK) (\<lambda>_.
     bind_r (check (length (lock_withdrawals lock) = length (pendingWithdrawals s)) INVALID_PASS_LOCK) (\<lambda>_.
     bind_r (fold_r (split_ok s) (lock_withdrawals lock) 0) (\<lambda>resPrincipal.
     bind_r (check (resPrincipal \<le> prin) INVALID_PASS_LOCK) (\<lambda>_.
     check (lock_closed lock \<longrightarrow>
       lock_principal lock = ''0'' \<and> status s = Stopped \<and> idle s = ''0'' \<and> activeCash s = ''0'' \<and>
       positionCost s = ''0'' \<and> positionValue s = ''0'' \<and> feeLiability s = ''0'' \<and>
       orders s = [] \<and> pendingWithdrawals s = []) INVALID_PASS_LOCK))))))))"

definition history_ok :: "vault \<Rightarrow> nat \<times> vault_event \<Rightarrow> domain_error + unit" where
  "history_ok s ie =
     check (event_revision (snd ie) = int (fst ie) + 1 \<and>
            map_option receipt_revision (map_of (receipts s) (event_commandId (snd ie)))
              = Some (event_revision (snd ie))) HISTORY_MISMATCH"

definition assertInvariant :: "vault \<Rightarrow> domain_error + unit" where
  "assertInvariant s =
     bind_r (check (scope s = ''TEST_ONLY'' \<and> schemaVersion s = 1) UNSUPPORTED_SCOPE) (\<lambda>_.
     bind_r (for_each validId [vault_id s, ownerId s, executorId s, strategyId s]) (\<lambda>_.
     bind_r (check (isSafeInteger (revision s) \<and> revision s \<ge> 0) INVALID_REVISION) (\<lambda>_.
     bind_r (for_each amount_ok [passes s, idle s, activeCash s, positionCost s, positionValue s,
       feeLiability s, deposits s, withdrawalsPaid s, feesAccrued s, feesPaid s]) (\<lambda>_.
     bind_r (signed (realizedPnl s)) (\<lambda>pnl.
     bind_r (for_each reservation_ok (orders s)) (\<lambda>_.
     bind_r (for_each reservation_ok (pendingWithdrawals s)) (\<lambda>_.
     bind_r (case passLock s of None \<Rightarrow> Inr () | Some lock \<Rightarrow> assertPassLock s lock) (\<lambda>_.
     bind_r (balances s) (\<lambda>b.
     bind_r (unsigned (toString (allowance b))) (\<lambda>_.
     bind_r (check (activeNet b \<ge> 0) NEGATIVE_ACTIVE_EQUITY) (\<lambda>_.
     bind_r (unsigned (feeLiability s)) (\<lambda>fee.
     bind_r (unsigned (activeCash s)) (\<lambda>cash.
     bind_r (check (fee \<le> cash) UNFUNDED_FEE_LIABILITY) (\<lambda>_.
     bind_r (unsigned (feesAccrued s)) (\<lambda>accrued.
     bind_r (unsigned (feesPaid s)) (\<lambda>paid.
     bind_r (check (accrued = paid + fee) FEE_CONSERVATION) (\<lambda>_.
     bind_r (unsigned (deposits s)) (\<lambda>dep.
     bind_r (unsigned (withdrawalsPaid s)) (\<lambda>wd.
     bind_r (check (equity b = dep - wd + pnl + unrealized b - accrued) EQUITY_CONSERVATION) (\<lambda>_.
     bind_r (check (int (length (events s)) = revision s \<and> int (length (receipts s)) = revision s)
             HISTORY_MISMATCH) (\<lambda>_.
     for_each (history_ok s) (List.enumerate 0 (events s)))))))))))))))))))))))"

section \<open>Creation, transition, restoration\<close>

definition createVault ::
  "string \<Rightarrow> string \<Rightarrow> string \<Rightarrow> string \<Rightarrow> string \<Rightarrow> string \<Rightarrow> pass_lock option \<Rightarrow> domain_error + vault" where
  "createVault i owner executor strategy pas scp lock =
    (let s = \<lparr>passLock = lock, scope = scp, schemaVersion = 1, vault_id = i, ownerId = owner,
       executorId = executor, strategyId = strategy, passes = pas, revision = 0, status = Stopped,
       idle = ''0'', activeCash = ''0'', positionCost = ''0'', positionValue = ''0'',
       feeLiability = ''0'', deposits = ''0'', withdrawalsPaid = ''0'', realizedPnl = ''0'',
       feesAccrued = ''0'', feesPaid = ''0'', orders = [], pendingWithdrawals = [],
       receipts = [], events = []\<rparr>
     in bind_r (assertInvariant s) (\<lambda>_. Inr s))"

fun command_type :: "command_body \<Rightarrow> string" where
  "command_type (Deposit _) = ''deposit''"
| "command_type (Allocate _) = ''allocate''"
| "command_type (Deallocate _) = ''deallocate''"
| "command_type (RequestWithdrawal _) = ''requestWithdrawal''"
| "command_type (ConfirmWithdrawal _) = ''confirmWithdrawal''"
| "command_type (CancelWithdrawal _) = ''cancelWithdrawal''"
| "command_type Start = ''start''"
| "command_type Stop = ''stop''"
| "command_type EnablePassLocking = ''enablePassLocking''"
| "command_type CloseVault = ''closeVault''"
| "command_type (ReserveBuy _ _) = ''reserveBuy''"
| "command_type (CancelOrder _) = ''cancelOrder''"
| "command_type (FillBuy _) = ''fillBuy''"
| "command_type (MarkPosition _) = ''markPosition''"
| "command_type (SettlePosition _) = ''settlePosition''"
| "command_type (PayFees _) = ''payFees''"

definition ownerAction :: "command_body \<Rightarrow> bool" where
  "ownerAction b \<longleftrightarrow> command_type b \<in> set [''enablePassLocking'', ''closeVault'', ''deposit'', ''allocate'',
     ''deallocate'', ''requestWithdrawal'', ''cancelWithdrawal'', ''start'', ''stop'', ''cancelOrder'']"

fun command_fields :: "command_body \<Rightarrow> (string \<times> json) list" where
  "command_fields (Deposit a) = [(''amount'', JStr a)]"
| "command_fields (Allocate a) = [(''amount'', JStr a)]"
| "command_fields (Deallocate a) = [(''amount'', JStr a)]"
| "command_fields (RequestWithdrawal a) = [(''amount'', JStr a)]"
| "command_fields (ConfirmWithdrawal w) = [(''withdrawalId'', JStr w)]"
| "command_fields (CancelWithdrawal w) = [(''withdrawalId'', JStr w)]"
| "command_fields Start = []"
| "command_fields Stop = []"
| "command_fields EnablePassLocking = []"
| "command_fields CloseVault = []"
| "command_fields (ReserveBuy oid a) = [(''orderId'', JStr oid), (''amount'', JStr a)]"
| "command_fields (CancelOrder oid) = [(''orderId'', JStr oid)]"
| "command_fields (FillBuy oid) = [(''orderId'', JStr oid)]"
| "command_fields (MarkPosition v) = [(''value'', JStr v)]"
| "command_fields (SettlePosition p) = [(''proceeds'', JStr p)]"
| "command_fields (PayFees a) = [(''amount'', JStr a)]"

definition actor_json :: "actor \<Rightarrow> json" where
  "actor_json a = JObj [(''id'', JStr (actor_id a)),
     (''role'', JStr (if actor_role a = Owner then ''owner'' else ''executor''))]"

definition command_json :: "command \<Rightarrow> json" where
  "command_json c = JObj ([(''id'', JStr (cmd_id c)), (''expectedRevision'', JNum (expectedRevision c)),
     (''type'', JStr (command_type (body c)))] @ command_fields (body c))"

fun is_settle :: "command_body \<Rightarrow> bool" where
  "is_settle (SettlePosition _) = True"
| "is_settle _ = False"

definition policy_json :: "command \<Rightarrow> policy option \<Rightarrow> json" where
  "policy_json c p = (if is_settle (body c)
     then (case p of None \<Rightarrow> JNull | Some q \<Rightarrow> JStr (policy_id q)) else JNull)"

definition command_fingerprint ::
  "(string \<Rightarrow> string \<Rightarrow> bool) \<Rightarrow> actor \<Rightarrow> command \<Rightarrow> policy option \<Rightarrow> string" where
  "command_fingerprint le a c p =
     canonical le (JObj [(''actor'', actor_json a), (''command'', command_json c),
                         (''policyId'', policy_json c p)])"

fun amount_of :: "command_body \<Rightarrow> string option" where
  "amount_of (Deposit a) = Some a"
| "amount_of (Allocate a) = Some a"
| "amount_of (Deallocate a) = Some a"
| "amount_of (RequestWithdrawal a) = Some a"
| "amount_of (ReserveBuy _ a) = Some a"
| "amount_of (PayFees a) = Some a"
| "amount_of _ = None"

definition command_amount :: "command \<Rightarrow> domain_error + int" where
  "command_amount c =
    (case amount_of (body c) of None \<Rightarrow> Inr 0
     | Some x \<Rightarrow> bind_r (unsigned x) (\<lambda>n. bind_r (check (n > 0) NON_POSITIVE_AMOUNT) (\<lambda>_. Inr n)))"

definition settle :: "vault \<Rightarrow> balance_sheet \<Rightarrow> policy option \<Rightarrow> string \<Rightarrow> domain_error + vault" where
  "settle n b pol proceeds_str =
     bind_r (unsigned (positionCost n)) (\<lambda>cost.
     bind_r (check (cost > 0) NO_POSITION) (\<lambda>_.
     bind_r (check (orders n = []) PENDING_ORDERS) (\<lambda>_.
     case pol of None \<Rightarrow> Inl SETTLEMENT_POLICY_REQUIRED | Some q \<Rightarrow>
     bind_r (check (policy_scope q = ''TEST_ONLY'') SETTLEMENT_POLICY_REQUIRED) (\<lambda>_.
     bind_r (validId (policy_id q)) (\<lambda>_.
     bind_r (unsigned proceeds_str) (\<lambda>proceeds.
     bind_r (unsigned (activeCash n)) (\<lambda>cash.
     bind_r (unsigned (feeLiability n)) (\<lambda>liab.
     let result = assess q \<lparr>proceeds_in = proceeds, cost_in = cost, cash_in = cash,
                            existingFeeLiability = liab, allowance_in = allowance b\<rparr> in
     bind_r (unsigned (toString (fst result))) (\<lambda>fee.
     bind_r (unsigned (toString (snd result))) (\<lambda>excess.
     bind_r (check (fee \<le> (if proceeds > cost then proceeds - cost else 0)) INVALID_TEST_FEE) (\<lambda>_.
     let cashAfter = cash + proceeds; liabilityAfter = liab + fee in
     bind_r (check (excess \<le> cashAfter - liabilityAfter) INVALID_EXCESS_ALLOCATION) (\<lambda>_.
     bind_r (unsigned (idle n)) (\<lambda>idl.
     bind_r (unsigned (feesAccrued n)) (\<lambda>accrued.
     bind_r (signed (realizedPnl n)) (\<lambda>pnl.
     Inr (n\<lparr>activeCash := toString (cashAfter - excess), idle := toString (idl + excess),
            feeLiability := toString liabilityAfter, feesAccrued := toString (accrued + fee),
            realizedPnl := toString (pnl + proceeds - cost),
            positionCost := ''0'', positionValue := ''0''\<rparr>))))))))))))))))"

definition perform ::
  "vault \<Rightarrow> vault \<Rightarrow> balance_sheet \<Rightarrow> int \<Rightarrow> int \<Rightarrow> command \<Rightarrow> policy option \<Rightarrow> domain_error + vault" where
  "perform s n b available amount c pol =
    (case body c of
       EnablePassLocking \<Rightarrow> Inr n
     | CloseVault \<Rightarrow>
         bind_r (unsigned (withdrawalsPaid n)) (\<lambda>wd.
         bind_r (unsigned (idle n)) (\<lambda>idl.
         bind_r (unsigned (activeCash n)) (\<lambda>cash.
         Inr (n\<lparr>withdrawalsPaid := toString (wd + idl + cash), idle := ''0'', activeCash := ''0''\<rparr>))))
     | Deposit _ \<Rightarrow>
         bind_r (unsigned (idle n)) (\<lambda>idl.
         bind_r (unsigned (deposits n)) (\<lambda>dep.
         Inr (n\<lparr>idle := toString (idl + amount), deposits := toString (dep + amount)\<rparr>)))
     | Allocate _ \<Rightarrow>
         bind_r (unsigned (idle n)) (\<lambda>idl.
         bind_r (check (amount \<le> idl) INSUFFICIENT_IDLE) (\<lambda>_.
         bind_r (check (activeNet b + amount \<le> allowance b) ALLOWANCE_EXCEEDED) (\<lambda>_.
         bind_r (unsigned (activeCash n)) (\<lambda>cash.
         Inr (n\<lparr>idle := toString (idl - amount), activeCash := toString (cash + amount)\<rparr>)))))
     | Deallocate _ \<Rightarrow>
         bind_r (check (amount \<le> available) INSUFFICIENT_ACTIVE_CASH) (\<lambda>_.
         bind_r (unsigned (activeCash n)) (\<lambda>cash.
         bind_r (unsigned (idle n)) (\<lambda>idl.
         Inr (n\<lparr>activeCash := toString (cash - amount), idle := toString (idl + amount)\<rparr>))))
     | RequestWithdrawal _ \<Rightarrow>
         bind_r (unsigned (idle n)) (\<lambda>idl.
         bind_r (check (amount \<le> idl) INSUFFICIENT_IDLE) (\<lambda>_.
         Inr (n\<lparr>idle := toString (idl - amount),
                pendingWithdrawals := AList.update (cmd_id c) (toString amount) (pendingWithdrawals n)\<rparr>)))
     | ConfirmWithdrawal wid \<Rightarrow>
         bind_r (validId wid) (\<lambda>_.
         case map_of (pendingWithdrawals n) wid of None \<Rightarrow> Inl WITHDRAWAL_NOT_PENDING | Some o_str \<Rightarrow>
         bind_r (unsigned o_str) (\<lambda>owed.
         bind_r (unsigned (withdrawalsPaid n)) (\<lambda>wd.
         Inr (n\<lparr>pendingWithdrawals := AList.delete wid (pendingWithdrawals n),
                withdrawalsPaid := toString (wd + owed)\<rparr>))))
     | CancelWithdrawal wid \<Rightarrow>
         bind_r (validId wid) (\<lambda>_.
         case map_of (pendingWithdrawals n) wid of None \<Rightarrow> Inl WITHDRAWAL_NOT_PENDING | Some o_str \<Rightarrow>
         bind_r (unsigned o_str) (\<lambda>owed.
         bind_r (unsigned (idle n)) (\<lambda>idl.
         Inr (n\<lparr>pendingWithdrawals := AList.delete wid (pendingWithdrawals n),
                idle := toString (idl + owed)\<rparr>))))
     | Start \<Rightarrow>
         bind_r (check (activeNet b > 0) NO_ACTIVE_FUNDS) (\<lambda>_.
         bind_r (check (status s = Stopped) INVALID_STATUS) (\<lambda>_.
         Inr (n\<lparr>status := Running\<rparr>)))
     | Stop \<Rightarrow>
         bind_r (unsigned (positionCost n)) (\<lambda>cost.
         Inr (n\<lparr>status := (if cost > 0 \<or> orders n \<noteq> [] then Stopping else Stopped)\<rparr>))
     | ReserveBuy oid _ \<Rightarrow>
         bind_r (validId oid) (\<lambda>_.
         bind_r (check (status n = Running) NOT_RUNNING) (\<lambda>_.
         bind_r (check (map_of (orders n) oid = None) DUPLICATE_ORDER) (\<lambda>_.
         bind_r (check (amount \<le> available) INSUFFICIENT_ACTIVE_CASH) (\<lambda>_.
         bind_r (unsigned (activeCash n)) (\<lambda>cash.
         Inr (n\<lparr>activeCash := toString (cash - amount),
                orders := AList.update oid (toString amount) (orders n)\<rparr>))))))
     | CancelOrder oid \<Rightarrow>
         bind_r (validId oid) (\<lambda>_.
         case map_of (orders n) oid of None \<Rightarrow> Inl ORDER_NOT_PENDING | Some r_str \<Rightarrow>
         bind_r (unsigned r_str) (\<lambda>res.
         bind_r (unsigned (activeCash n)) (\<lambda>cash.
         Inr (n\<lparr>orders := AList.delete oid (orders n), activeCash := toString (cash + res)\<rparr>))))
     | FillBuy oid \<Rightarrow>
         bind_r (validId oid) (\<lambda>_.
         case map_of (orders n) oid of None \<Rightarrow> Inl ORDER_NOT_PENDING | Some r_str \<Rightarrow>
         bind_r (unsigned r_str) (\<lambda>res.
         bind_r (unsigned (positionCost n)) (\<lambda>cost.
         bind_r (unsigned (positionValue n)) (\<lambda>val.
         Inr (n\<lparr>orders := AList.delete oid (orders n), positionCost := toString (cost + res),
                positionValue := toString (val + res)\<rparr>)))))
     | MarkPosition v \<Rightarrow>
         bind_r (unsigned (positionCost n)) (\<lambda>cost.
         bind_r (check (cost > 0) NO_POSITION) (\<lambda>_.
         bind_r (unsigned v) (\<lambda>val. Inr (n\<lparr>positionValue := toString val\<rparr>))))
     | SettlePosition p \<Rightarrow> settle n b pol p
     | PayFees _ \<Rightarrow>
         bind_r (unsigned (feeLiability n)) (\<lambda>fee.
         bind_r (check (amount \<le> fee) EXCESS_FEE_PAYMENT) (\<lambda>_.
         bind_r (unsigned (activeCash n)) (\<lambda>cash.
         bind_r (unsigned (feesPaid n)) (\<lambda>paid.
         Inr (n\<lparr>feeLiability := toString (fee - amount), activeCash := toString (cash - amount),
                feesPaid := toString (paid + amount)\<rparr>))))))"

definition finish_status :: "vault \<Rightarrow> domain_error + vault" where
  "finish_status n =
     (if status n = Stopping
      then bind_r (unsigned (positionCost n)) (\<lambda>cost.
             Inr (if cost = 0 \<and> orders n = [] then n\<lparr>status := Stopped\<rparr> else n))
      else Inr n)"

definition record_command :: "vault \<Rightarrow> actor \<Rightarrow> command \<Rightarrow> string \<Rightarrow> vault" where
  "record_command n a c fp =
    (let r = revision n + 1 in
     n\<lparr>revision := r,
       receipts := AList.update (cmd_id c) \<lparr>fingerprint = fp, receipt_revision = r\<rparr> (receipts n),
       events := events n @ [\<lparr>event_revision = r, event_commandId = cmd_id c,
         event_type = command_type (body c), event_actorId = actor_id a\<rparr>]\<rparr>)"

definition transition_vault ::
  "vault \<Rightarrow> actor \<Rightarrow> command \<Rightarrow> policy option \<Rightarrow> string \<Rightarrow> domain_error + vault" where
  "transition_vault s a c pol fp =
     bind_r (check (isSafeInteger (expectedRevision c) \<and> expectedRevision c = revision s) REVISION_CONFLICT) (\<lambda>_.
     bind_r (check (revision s < 10000) TEST_HISTORY_LIMIT) (\<lambda>_.
     bind_r (command_amount c) (\<lambda>amount.
     bind_r (applyPassCommand s c) (\<lambda>lock.
     let next = (case lock of None \<Rightarrow> s | Some l \<Rightarrow> s\<lparr>passLock := Some l\<rparr>) in
     bind_r (balances s) (\<lambda>b.
     bind_r (unsigned (activeCash s)) (\<lambda>cash.
     bind_r (unsigned (feeLiability s)) (\<lambda>fee.
     bind_r (perform s next b (cash - fee) amount c pol) (\<lambda>n1.
     bind_r (finish_status n1) (\<lambda>n2.
     let n3 = record_command n2 a c fp in
     bind_r (assertInvariant n3) (\<lambda>_. Inr n3))))))))))"

definition execute ::
  "(string \<Rightarrow> string \<Rightarrow> bool) \<Rightarrow> vault \<Rightarrow> actor \<Rightarrow> command \<Rightarrow> policy option \<Rightarrow> domain_error + vault" where
  "execute le s a c pol =
     bind_r (assertInvariant s) (\<lambda>_.
     bind_r (validId (cmd_id c)) (\<lambda>_.
     bind_r (check (if ownerAction (body c) then actor_role a = Owner \<and> actor_id a = ownerId s
                    else actor_role a = Executor \<and> actor_id a = executorId s) FORBIDDEN) (\<lambda>_.
     let fp = command_fingerprint le a c pol in
     case map_of (receipts s) (cmd_id c) of
       Some previous \<Rightarrow> bind_r (check (fingerprint previous = fp) IDEMPOTENCY_CONFLICT) (\<lambda>_. Inr s)
     | None \<Rightarrow> transition_vault s a c pol fp)))"

definition restoreVault :: "(string \<Rightarrow> vault option) \<Rightarrow> string \<Rightarrow> domain_error + vault" where
  "restoreVault json_parse serialized =
    (case json_parse serialized of None \<Rightarrow> Inl SYNTAX_ERROR
     | Some candidate \<Rightarrow> bind_r (assertInvariant candidate) (\<lambda>_. Inr candidate))"

text \<open>\<^bold>\<open>packages/domain/src/fixtures.ts\<close>: the settlement policy of the test deployment.\<close>

definition ZERO_FEE_FULL_SETTLEMENT :: policy where
  "ZERO_FEE_FULL_SETTLEMENT = \<lparr>policy_scope = ''TEST_ONLY'',
     policy_id = ''fixture-full-settlement-zero-fee-v1'',
     assess = (\<lambda>i. let netCash = cash_in i + proceeds_in i - existingFeeLiability i in
       (0, if netCash > allowance_in i then netCash - allowance_in i else 0))\<rparr>"

end
