(* ===== verification/Vault_Sane.thy ===== *)
theory Vault_Sane
  imports Vault
begin

text \<open>
  What the Vault's runtime check means. \<open>vault_sane\<close> states the accounting laws of the Vault over
  exact integers, without any bound on their size; \<open>assertInvariant\<close> accepts a state exactly when it
  is sane and its amounts are in range (\<open>assertInvariant_sane\<close>), and on a sane state it can fail only
  with a range error (\<open>sane_range_error\<close>). The groups \<open>ids_sane\<close>, \<open>money_sane\<close>, \<open>lock_sane\<close> and
  \<open>history_sane\<close> are the parts that the transition proofs treat one by one.
\<close>

section \<open>Amounts\<close>

definition amt :: "string \<Rightarrow> int" where
  "amt s = digits_val s"

definition printed :: "string \<Rightarrow> bool" where
  "printed s \<longleftrightarrow> s = toString (amt s)"

definition pnl :: "vault \<Rightarrow> int" where
  "pnl s = big_int (realizedPnl s)"

definition held :: "(string \<times> string) list \<Rightarrow> int" where
  "held m = (\<Sum>e\<leftarrow>m. amt (snd e))"

definition range_error :: "domain_error \<Rightarrow> bool" where
  "range_error e \<longleftrightarrow> e = NON_CANONICAL_AMOUNT \<or> e = AMOUNT_OVERFLOW"

text \<open>A computation that can fail only because an amount leaves its range.\<close>

definition only_range :: "domain_error + 'a \<Rightarrow> bool" where
  "only_range m \<longleftrightarrow> (\<forall>e. m = Inl e \<longrightarrow> range_error e)"

definition reservations_sane :: "(string \<times> string) list \<Rightarrow> bool" where
  "reservations_sane m \<longleftrightarrow> (\<forall>e\<in>set m. idPattern (fst e) \<and> printed (snd e) \<and> 0 < amt (snd e))"

definition ids_sane :: "vault \<Rightarrow> bool" where
  "ids_sane s \<longleftrightarrow> scope s = ''TEST_ONLY'' \<and> schemaVersion s = 1 \<and> idPattern (vault_id s) \<and>
     idPattern (ownerId s) \<and> idPattern (executorId s) \<and> idPattern (strategyId s)"

definition money_sane :: "vault \<Rightarrow> bool" where
  "money_sane s \<longleftrightarrow>
     printed (passes s) \<and> printed (idle s) \<and> printed (activeCash s) \<and> printed (positionCost s) \<and>
     printed (positionValue s) \<and> printed (feeLiability s) \<and> printed (deposits s) \<and>
     printed (withdrawalsPaid s) \<and> printed (feesAccrued s) \<and> printed (feesPaid s) \<and>
     realizedPnl s = toString (pnl s) \<and>
     reservations_sane (orders s) \<and> reservations_sane (pendingWithdrawals s) \<and>
     amt (feeLiability s) \<le> amt (activeCash s) \<and>
     amt (feesAccrued s) = amt (feesPaid s) + amt (feeLiability s) \<and>
     amt (idle s) + (amt (activeCash s) + held (orders s) + amt (positionValue s) - amt (feeLiability s))
       + held (pendingWithdrawals s)
     = amt (deposits s) - amt (withdrawalsPaid s) + pnl s
       + (amt (positionValue s) - amt (positionCost s)) - amt (feesAccrued s)"

definition split_sane :: "vault \<Rightarrow> string \<times> split \<Rightarrow> bool" where
  "split_sane s e \<longleftrightarrow>
     (\<exists>v. map_of (pendingWithdrawals s) (fst e) = Some v \<and> printed (profit (snd e)) \<and>
          printed (principal (snd e)) \<and> amt (profit (snd e)) + amt (principal (snd e)) = amt v)"

definition principal_reserved :: "pass_lock \<Rightarrow> int" where
  "principal_reserved l = (\<Sum>e\<leftarrow>lock_withdrawals l. amt (principal (snd e)))"

definition lock_sane :: "vault \<Rightarrow> pass_lock \<Rightarrow> bool" where
  "lock_sane s l \<longleftrightarrow>
     lock_version l = 1 \<and> printed (lock_principal l) \<and> amt (lock_principal l) \<le> amt (passes s) * 1000000 \<and>
     length (lock_withdrawals l) = length (pendingWithdrawals s) \<and>
     (\<forall>e\<in>set (lock_withdrawals l). split_sane s e) \<and>
     principal_reserved l \<le> amt (lock_principal l) \<and>
     (lock_closed l \<longrightarrow> lock_principal l = ''0'' \<and> status s = Stopped \<and> idle s = ''0'' \<and>
        activeCash s = ''0'' \<and> positionCost s = ''0'' \<and> positionValue s = ''0'' \<and>
        feeLiability s = ''0'' \<and> orders s = [] \<and> pendingWithdrawals s = [])"

definition history_sane :: "vault \<Rightarrow> bool" where
  "history_sane s \<longleftrightarrow> isSafeInteger (revision s) \<and> 0 \<le> revision s \<and>
     int (length (events s)) = revision s \<and> int (length (receipts s)) = revision s \<and>
     (\<forall>i < length (events s). event_revision (events s ! i) = int i + 1 \<and>
        map_option receipt_revision (map_of (receipts s) (event_commandId (events s ! i))) = Some (int i + 1))"

definition vault_sane :: "vault \<Rightarrow> bool" where
  "vault_sane s \<longleftrightarrow> ids_sane s \<and> money_sane s \<and> history_sane s \<and>
     (\<forall>l. passLock s = Some l \<longrightarrow> lock_sane s l)"

text \<open>JavaScript objects have one value per key, and a pending withdrawal is filed under the id of the
  command that requested it.\<close>

definition objects_wf :: "vault \<Rightarrow> bool" where
  "objects_wf s \<longleftrightarrow> distinct (map fst (orders s)) \<and> distinct (map fst (pendingWithdrawals s)) \<and>
     distinct (map fst (receipts s)) \<and>
     (\<forall>l. passLock s = Some l \<longrightarrow> distinct (map fst (lock_withdrawals l)))"

definition pending_recorded :: "vault \<Rightarrow> bool" where
  "pending_recorded s \<longleftrightarrow> fst ` set (pendingWithdrawals s) \<subseteq> fst ` set (receipts s)"

section \<open>Reading amounts\<close>

lemma amt_nonneg [simp]: "0 \<le> amt s"
  by (simp add: amt_def)

lemma amt_toString [simp]: "0 \<le> n \<Longrightarrow> amt (toString n) = n"
  by (simp add: amt_def)

lemma printed_toString [simp]: "0 \<le> n \<Longrightarrow> printed (toString n)"
  by (simp add: printed_def)

lemma amt_zero [simp]: "amt ''0'' = 0"
  using amt_toString[of 0] by (simp del: amt_toString)

lemma printed_zero [simp]: "printed ''0''"
  using printed_toString[of 0] by (simp del: printed_toString)

lemma printed_eq_zero: "printed s \<Longrightarrow> s = ''0'' \<longleftrightarrow> amt s = 0"
  by (metis amt_zero printed_def toString_0)

lemma unsigned_amt: "unsigned s = Inr n \<longleftrightarrow> printed s \<and> n = amt s \<and> amt s \<le> MAX_INTEGER"
  by (auto simp: unsigned_reads printed_def)

lemma unsigned_amtD: "unsigned s = Inr n \<Longrightarrow> n = amt s"
  by (simp add: unsigned_amt)

lemma printed_unsigned_error: "unsigned s = Inl e \<Longrightarrow> range_error e"
  using unsigned_error by (simp add: range_error_def)

lemma big_int_toString [simp]: "big_int (toString n) = n"
proof (cases "n < 0")
  case False
  then have "hd (toString n) \<noteq> CHR ''-''"
    using dec_digits_all[of n] by (cases "dec_digits n") (auto simp: toString_def)
  then have "big_int (toString n) = digits_val (toString n)"
    by (cases "toString n") (simp_all add: big_int_def)
  then show ?thesis using False by simp
qed (simp add: big_int_def toString_def)

lemma signed_print: "signed (toString n) = Inr m \<Longrightarrow> m = n"
  using signed_canonical[of "toString n" m] by simp

lemma signed_pnl: "signed (realizedPnl s) = Inr n \<Longrightarrow> n = pnl s \<and> realizedPnl s = toString (pnl s)"
  using signed_canonical[of "realizedPnl s" n] by (simp add: pnl_def)

lemma sum_r_amt:
  "sum_r (\<lambda>e. unsigned (f e)) m = Inr n \<longleftrightarrow>
     (\<forall>e\<in>set m. printed (f e) \<and> amt (f e) \<le> MAX_INTEGER) \<and> n = (\<Sum>e\<leftarrow>m. amt (f e))"
  by (induction m arbitrary: n) (auto simp: bind_r_Inr unsigned_amt)

lemma sum_r_error: "sum_r (\<lambda>e. unsigned (f e)) m = Inl x \<Longrightarrow> range_error x"
  by (induction m) (auto simp: bind_r_Inl dest: printed_unsigned_error)

lemma sum_amounts_held:
  "sum_amounts m = Inr n \<longleftrightarrow> (\<forall>e\<in>set m. printed (snd e) \<and> amt (snd e) \<le> MAX_INTEGER) \<and> n = held m"
  by (simp add: sum_amounts_def sum_r_amt held_def)

lemma sum_amounts_error: "sum_amounts m = Inl x \<Longrightarrow> range_error x"
  by (simp add: sum_amounts_def sum_r_error)

lemma only_rangeI: "(\<And>e. m = Inl e \<Longrightarrow> range_error e) \<Longrightarrow> only_range m"
  by (simp add: only_range_def)

lemma only_range_bind: "only_range m \<Longrightarrow> (\<And>x. m = Inr x \<Longrightarrow> only_range (f x)) \<Longrightarrow> only_range (bind_r m f)"
  by (cases m) (auto simp: only_range_def)

lemma only_range_simps [simp]: "only_range (Inr x)" "only_range (check True e)"
  by (simp_all add: only_range_def)

lemma only_range_unsigned: "only_range (unsigned x)"
  by (rule only_rangeI) (rule printed_unsigned_error)

lemma only_range_for_each: "(\<And>x. x \<in> set xs \<Longrightarrow> only_range (f x)) \<Longrightarrow> only_range (for_each f xs)"
  by (rule only_rangeI) (drule for_each_Inl, auto simp: only_range_def)

section \<open>Objects\<close>

lemma delete_absent: "k \<notin> fst ` set m \<Longrightarrow> AList.delete k m = m"
  by (induction m) auto

lemma sum_delete:
  "distinct (map fst m) \<Longrightarrow> map_of m k = Some v \<Longrightarrow>
   (\<Sum>e\<leftarrow>AList.delete k m. f e) = (\<Sum>e\<leftarrow>m. f e) - (f (k, v) :: int)"
  by (induction m) (auto simp: delete_absent)

lemma length_delete:
  "distinct (map fst m) \<Longrightarrow> map_of m k = Some v \<Longrightarrow> length (AList.delete k m) = length m - 1"
  using sum_delete[of m k v "\<lambda>_. 1"] by (simp add: sum_list_triv)

lemma set_delete: "e \<in> set (AList.delete k m) \<longleftrightarrow> e \<in> set m \<and> fst e \<noteq> k"
  by (auto simp: AList.delete_eq)

lemma held_append [simp]: "held (m @ [(k, v)]) = held m + amt v"
  by (simp add: held_def)

lemma held_delete:
  "distinct (map fst m) \<Longrightarrow> map_of m k = Some v \<Longrightarrow> held (AList.delete k m) = held m - amt v"
  by (simp add: held_def sum_delete)

lemma held_nonneg [simp]: "0 \<le> held m"
  by (auto simp: held_def intro!: sum_list_nonneg)

lemma held_Nil [simp]: "held [] = 0"
  by (simp add: held_def)

lemma reservations_sane_simps [simp]:
  "reservations_sane []"
  "reservations_sane (m @ [(k, v)]) \<longleftrightarrow> reservations_sane m \<and> idPattern k \<and> printed v \<and> 0 < amt v"
  "reservations_sane m \<Longrightarrow> reservations_sane (AList.delete k m)"
  by (auto simp: reservations_sane_def set_delete)

lemma reservations_sane_lookup:
  "reservations_sane m \<Longrightarrow> map_of m k = Some v \<Longrightarrow> printed v \<and> 0 < amt v \<and> idPattern k"
  by (fastforce simp: reservations_sane_def dest: map_of_SomeD)

section \<open>What the runtime check means\<close>

lemma balances_ok:
  assumes "balances s = Inr b"
  shows "b = \<lparr>reserved = held (orders s), pending = held (pendingWithdrawals s),
     unrealized = amt (positionValue s) - amt (positionCost s),
     activeGross = amt (activeCash s) + held (orders s) + amt (positionValue s),
     activeNet = amt (activeCash s) + held (orders s) + amt (positionValue s) - amt (feeLiability s),
     equity = amt (idle s) + (amt (activeCash s) + held (orders s) + amt (positionValue s)
       - amt (feeLiability s)) + held (pendingWithdrawals s),
     allowance = amt (passes s) * 1000000\<rparr>"
  using assms
  by (auto simp: balances_def bind_r_Inr unsigned_amt sum_amounts_held Let_def TEST_CASH_decimals_def)

lemma balances_error: "balances s = Inl e \<Longrightarrow> range_error e"
  by (auto simp: balances_def bind_r_Inl Let_def dest: printed_unsigned_error sum_amounts_error)

lemma capacityToPassRaw_error: "capacityToPassRaw x = Inl e \<Longrightarrow> range_error e"
  by (auto simp: capacityToPassRaw_def bind_r_Inl check_Inl range_error_def split: if_splits
      dest: unsigned_error)

lemma reservation_ok_iff:
  "reservation_ok e = Inr u \<longleftrightarrow>
     idPattern (fst e) \<and> printed (snd e) \<and> amt (snd e) \<le> MAX_INTEGER \<and> 0 < amt (snd e)"
  by (auto simp: reservation_ok_def validId_def bind_r_Inr check_Inr unsigned_amt split: if_splits)

lemma split_fold:
  "fold_r (split_ok s) m acc = Inr n \<Longrightarrow>
     (\<forall>e\<in>set m. split_sane s e) \<and> n = acc + (\<Sum>e\<leftarrow>m. amt (principal (snd e)))"
proof (induction m arbitrary: acc)
  case Nil
  then show ?case by simp
next
  case (Cons e m)
  then obtain k where k: "split_ok s e acc = Inr k" "fold_r (split_ok s) m k = Inr n"
    by (auto simp: bind_r_Inr)
  from k(1) have "split_sane s e \<and> k = acc + amt (principal (snd e))"
    by (auto simp: split_ok_def split_sane_def bind_r_Inr check_Inr unsigned_amt split: option.splits if_splits)
  with Cons.IH[OF k(2)] show ?case by auto
qed

lemma split_fold_error:
  "\<forall>e\<in>set m. split_sane s e \<Longrightarrow> fold_r (split_ok s) m acc = Inl x \<Longrightarrow> range_error x"
proof (induction m arbitrary: acc)
  case Nil
  then show ?case by simp
next
  case (Cons e m)
  have "split_ok s e acc = Inl x \<Longrightarrow> range_error x"
    using Cons.prems(1)
    by (auto simp: split_ok_def split_sane_def bind_r_Inl check_Inl unsigned_amt split: if_splits
        dest: printed_unsigned_error)
  then show ?case using Cons by (auto simp: bind_r_Inl)
qed

lemma assertPassLock_sane: "assertPassLock s l = Inr u \<Longrightarrow> lock_sane s l"
  by (auto simp: assertPassLock_def lock_sane_def bind_r_Inr check_Inr unsigned_amt principal_reserved_def
      split: if_splits dest!: split_fold)

lemma assertPassLock_error:
  "lock_sane s l \<Longrightarrow> assertPassLock s l = Inl e \<Longrightarrow> range_error e"
  by (auto simp: assertPassLock_def lock_sane_def bind_r_Inl check_Inl unsigned_amt principal_reserved_def
      split: if_splits dest: printed_unsigned_error capacityToPassRaw_error split_fold_error dest!: split_fold)

lemma history_for_each:
  "for_each (history_ok s) (List.enumerate 0 (events s)) = Inr u \<longleftrightarrow>
   (\<forall>i < length (events s). event_revision (events s ! i) = int i + 1 \<and>
      map_option receipt_revision (map_of (receipts s) (event_commandId (events s ! i))) = Some (int i + 1))"
proof -
  have "for_each (history_ok s) (List.enumerate 0 (events s)) = Inr u \<longleftrightarrow>
        (\<forall>i < length (events s). history_ok s (i, events s ! i) = Inr ())"
    by (force simp: for_each_Inr in_set_enumerate_eq)
  then show ?thesis by (simp add: history_ok_def check_Inr cong: conj_cong)
qed

lemma assertInvariant_sane:
  assumes "assertInvariant s = Inr u"
  shows "vault_sane s"
proof -
  have lock: "\<forall>l. passLock s = Some l \<longrightarrow> lock_sane s l"
    using assms by (auto simp: assertInvariant_def bind_r_Inr check_Inr dest: assertPassLock_sane split: if_splits)
  have ids: "ids_sane s"
    using assms by (auto simp: assertInvariant_def ids_sane_def bind_r_Inr validId_def check_Inr split: if_splits)
  have hist: "history_sane s"
    using assms by (auto simp: assertInvariant_def history_sane_def bind_r_Inr check_Inr history_for_each
        split: if_splits)
  have "money_sane s"
    using assms
    by (auto simp: assertInvariant_def money_sane_def reservations_sane_def bind_r_Inr check_Inr for_each_Inr
        amount_ok_def reservation_ok_iff unsigned_amt split: if_splits dest!: balances_ok dest: signed_pnl)
  with lock ids hist show ?thesis by (simp add: vault_sane_def)
qed

lemma reservation_error:
  "reservations_sane m \<Longrightarrow> for_each reservation_ok m = Inl e \<Longrightarrow> range_error e"
  by (drule for_each_Inl)
    (auto simp: reservations_sane_def reservation_ok_def validId_def bind_r_Inl check_Inl unsigned_amt
      split: if_splits dest: printed_unsigned_error)

lemma sane_range_error:
  assumes sane: "vault_sane s" and err: "assertInvariant s = Inl e"
  shows "range_error e"
proof -
  have ids: "ids_sane s" and money: "money_sane s" and hist: "history_sane s"
    and lock: "passLock s = Some l \<Longrightarrow> lock_sane s l" for l
    using sane by (auto simp: vault_sane_def)
  have h: "for_each (history_ok s) (List.enumerate 0 (events s)) = Inr ()"
    using hist by (simp add: history_for_each history_sane_def)
  have l: "(case passLock s of None \<Rightarrow> Inr () | Some k \<Rightarrow> assertPassLock s k) = Inl x \<Longrightarrow> range_error x" for x
    using lock assertPassLock_error by (auto split: option.splits)
  have am: "amount_ok x = Inl y \<Longrightarrow> range_error y" for x y
    by (auto simp: amount_ok_def bind_r_Inl dest: printed_unsigned_error)
  have net: "amt (activeCash s) + held (orders s) + amt (positionValue s) - amt (feeLiability s) \<ge> 0"
  proof -
    have "amt (feeLiability s) \<le> amt (activeCash s)" using money by (simp add: money_sane_def)
    then show ?thesis using held_nonneg[of "orders s"] amt_nonneg[of "positionValue s"] by linarith
  qed
  have sg: "signed x = Inl y \<Longrightarrow> range_error y" for x y
    using signed_error by (simp add: range_error_def)
  have "only_range (assertInvariant s)"
    unfolding assertInvariant_def
    using ids money hist net
    by (intro only_range_bind)
      (auto simp: only_range_simps h ids_sane_def money_sane_def history_sane_def validId_def check_def
        unsigned_amt dest!: balances_ok signed_print simp del: bind_check for_each.simps
        intro: only_range_for_each only_range_unsigned only_rangeI[OF l] only_rangeI[OF am] only_rangeI[OF sg]
          only_rangeI[OF balances_error] only_rangeI[OF reservation_error])
  then show ?thesis using err by (simp add: only_range_def)
qed

end
