(* ===== verification/Vault_Steps.thy ===== *)
theory Vault_Steps
  imports Vault_Sane
begin

text \<open>
  One step of the Vault. For every command: its exact effect on the books (\<open>perform_effects\<close>), that the
  books stay balanced (\<open>perform_money\<close>), what it leaves alone (\<open>perform_frame\<close>), and that the PASS lock it
  computed fits the pending withdrawals it leaves (\<open>perform_lock\<close>). Together: the state a transition
  drafts is sane (\<open>draft_sane\<close>), so the final check of the program can reject it only because an amount
  left its range (\<open>transition_no_audit\<close>).
\<close>

declare amt_nonneg [simp del] held_nonneg [simp del]

lemma amounts_nonneg:
  "0 \<le> amt (passes s) \<and> 0 \<le> amt (idle s) \<and> 0 \<le> amt (activeCash s) \<and> 0 \<le> amt (positionCost s) \<and>
   0 \<le> amt (positionValue s) \<and> 0 \<le> amt (feeLiability s) \<and> 0 \<le> amt (deposits s) \<and>
   0 \<le> amt (withdrawalsPaid s) \<and> 0 \<le> amt (feesAccrued s) \<and> 0 \<le> amt (feesPaid s) \<and>
   0 \<le> held (orders s) \<and> 0 \<le> held (pendingWithdrawals s)"
  by (simp add: amt_nonneg held_nonneg)

lemma settle_money:
  assumes m: "money_sane n" and r: "settle n b pol p = Inr n1"
  shows "money_sane n1 \<and> orders n1 = orders n \<and> pendingWithdrawals n1 = pendingWithdrawals n"
proof -
  obtain q where q: "pol = Some q" using r by (auto simp: settle_def bind_r_Inr split: if_splits option.splits)
  define res where "res = assess q \<lparr>proceeds_in = amt p, cost_in = amt (positionCost n),
    cash_in = amt (activeCash n), existingFeeLiability = amt (feeLiability n), allowance_in = allowance b\<rparr>"
  have f: "0 \<le> fst res" "0 \<le> snd res" 
    and o: "orders n = []" and ex: "snd res \<le> amt (activeCash n) + amt p - (amt (feeLiability n) + fst res)"
    and n1: "n1 = n\<lparr>activeCash := toString (amt (activeCash n) + amt p - snd res), idle := toString (amt (idle n) + snd res),
            feeLiability := toString (amt (feeLiability n) + fst res), feesAccrued := toString (amt (feesAccrued n) + fst res),
            realizedPnl := toString (big_int (realizedPnl n) + amt p - amt (positionCost n)),
            positionCost := ''0'', positionValue := ''0''\<rparr>"
    using r unfolding q
    by (auto simp: settle_def bind_r_Inr Let_def check_Inr unsigned_reads res_def split: if_splits
       dest!: signed_canonical)
  show ?thesis
    using m amounts_nonneg[of n] f o ex unfolding n1 by (auto simp: money_sane_def pnl_def)
qed
lemmas perform_cases = perform_def bind_r_Inr validId_def check_Inr unsigned_amt

section \<open>The effect of each command on the books\<close>

lemma perform_deposit:
  assumes "perform s n b av amount c pol = Inr n1" "body c = Deposit x"
  shows "n1 = n\<lparr>idle := toString (amt (idle n) + amount), deposits := toString (amt (deposits n) + amount)\<rparr>"
  using assms by (auto simp: perform_cases split: if_splits)

lemma perform_allocate:
  assumes "perform s n b av amount c pol = Inr n1" "body c = Allocate x"
  shows "n1 = n\<lparr>idle := toString (amt (idle n) - amount), activeCash := toString (amt (activeCash n) + amount)\<rparr>
    \<and> amount \<le> amt (idle n) \<and> activeNet b + amount \<le> allowance b"
  using assms by (auto simp: perform_cases split: if_splits)

lemma perform_deallocate:
  assumes "perform s n b av amount c pol = Inr n1" "body c = Deallocate x"
  shows "n1 = n\<lparr>activeCash := toString (amt (activeCash n) - amount), idle := toString (amt (idle n) + amount)\<rparr>
    \<and> amount \<le> av"
  using assms by (auto simp: perform_cases split: if_splits)

lemma perform_request:
  assumes "perform s n b av amount c pol = Inr n1" "body c = RequestWithdrawal x"
    "cmd_id c \<notin> fst ` set (pendingWithdrawals n)"
  shows "n1 = n\<lparr>idle := toString (amt (idle n) - amount),
      pendingWithdrawals := pendingWithdrawals n @ [(cmd_id c, toString amount)]\<rparr> \<and> amount \<le> amt (idle n)"
  using assms by (auto simp: perform_cases update_new split: if_splits)

lemma perform_confirm:
  assumes "perform s n b av amount c pol = Inr n1" "body c = ConfirmWithdrawal w"
  shows "\<exists>v. map_of (pendingWithdrawals n) w = Some v \<and>
    n1 = n\<lparr>pendingWithdrawals := AList.delete w (pendingWithdrawals n),
      withdrawalsPaid := toString (amt (withdrawalsPaid n) + amt v)\<rparr>"
  using assms by (auto simp: perform_cases split: if_splits option.splits)

lemma perform_cancel:
  assumes "perform s n b av amount c pol = Inr n1" "body c = CancelWithdrawal w"
  shows "\<exists>v. map_of (pendingWithdrawals n) w = Some v \<and>
    n1 = n\<lparr>pendingWithdrawals := AList.delete w (pendingWithdrawals n),
      idle := toString (amt (idle n) + amt v)\<rparr>"
  using assms by (auto simp: perform_cases split: if_splits option.splits)

lemma perform_reserve:
  assumes "perform s n b av amount c pol = Inr n1" "body c = ReserveBuy oid x"
  shows "oid \<notin> fst ` set (orders n) \<and> idPattern oid \<and> amount \<le> av \<and> status n = Running \<and>
    n1 = n\<lparr>activeCash := toString (amt (activeCash n) - amount), orders := orders n @ [(oid, toString amount)]\<rparr>"
  using assms by (auto simp: perform_cases map_of_eq_None_iff update_new split: if_splits)

lemma perform_cancelOrder:
  assumes "perform s n b av amount c pol = Inr n1" "body c = CancelOrder oid"
  shows "\<exists>v. map_of (orders n) oid = Some v \<and>
    n1 = n\<lparr>orders := AList.delete oid (orders n), activeCash := toString (amt (activeCash n) + amt v)\<rparr>"
  using assms by (auto simp: perform_cases split: if_splits option.splits)

lemma perform_fill:
  assumes "perform s n b av amount c pol = Inr n1" "body c = FillBuy oid"
  shows "\<exists>v. map_of (orders n) oid = Some v \<and>
    n1 = n\<lparr>orders := AList.delete oid (orders n), positionCost := toString (amt (positionCost n) + amt v),
      positionValue := toString (amt (positionValue n) + amt v)\<rparr>"
  using assms by (auto simp: perform_cases split: if_splits option.splits)

lemma perform_payFees:
  assumes "perform s n b av amount c pol = Inr n1" "body c = PayFees x"
  shows "n1 = n\<lparr>feeLiability := toString (amt (feeLiability n) - amount),
      activeCash := toString (amt (activeCash n) - amount), feesPaid := toString (amt (feesPaid n) + amount)\<rparr>
    \<and> amount \<le> amt (feeLiability n)"
  using assms by (auto simp: perform_cases split: if_splits)

lemma perform_close:
  assumes "perform s n b av amount c pol = Inr n1" "body c = CloseVault"
  shows "n1 = n\<lparr>withdrawalsPaid := toString (amt (withdrawalsPaid n) + amt (idle n) + amt (activeCash n)),
      idle := ''0'', activeCash := ''0''\<rparr>"
  using assms by (auto simp: perform_cases split: if_splits)

lemma perform_mark:
  assumes "perform s n b av amount c pol = Inr n1" "body c = MarkPosition v"
  shows "n1 = n\<lparr>positionValue := toString (amt v)\<rparr> \<and> 0 < amt (positionCost n)"
  using assms by (auto simp: perform_cases split: if_splits)

lemma perform_control:
  assumes "perform s n b av amount c pol = Inr n1" "body c \<in> {EnablePassLocking, Start, Stop}"
  shows "\<exists>st. n1 = n\<lparr>status := st\<rparr>"
  using assms by (auto simp: perform_cases split: if_splits intro: exI[of _ "status n"])

lemmas perform_effects = perform_deposit perform_allocate perform_deallocate perform_request perform_confirm
  perform_cancel perform_reserve perform_cancelOrder perform_fill perform_payFees perform_close perform_mark

lemmas money_simps = money_sane_def pnl_def held_delete

text \<open>Every command keeps the books balanced, whatever its amounts: first the commands that release
  a reservation, then the ones that move an amount.\<close>

lemma perform_money_release:
  assumes m: "money_sane n"
    and d: "distinct (map fst (orders n))" "distinct (map fst (pendingWithdrawals n))"
    and r: "perform s n b av amount c pol = Inr n1"
    and c: "body c \<in> {ConfirmWithdrawal w, CancelWithdrawal w, CancelOrder w, FillBuy w}"
  shows "money_sane n1"
proof -
  note nn = amounts_nonneg[of n]
  consider "body c = ConfirmWithdrawal w" | "body c = CancelWithdrawal w" | "body c = CancelOrder w"
    | "body c = FillBuy w" using c by auto
  then show ?thesis
  proof cases
    case 1
    then obtain v where "map_of (pendingWithdrawals n) w = Some v"
      "n1 = n\<lparr>pendingWithdrawals := AList.delete w (pendingWithdrawals n),
        withdrawalsPaid := toString (amt (withdrawalsPaid n) + amt v)\<rparr>" using perform_confirm[OF r] by auto
    with m d nn amt_nonneg[of v] show ?thesis by (simp add: money_simps)
  next
    case 2
    then obtain v where "map_of (pendingWithdrawals n) w = Some v"
      "n1 = n\<lparr>pendingWithdrawals := AList.delete w (pendingWithdrawals n),
        idle := toString (amt (idle n) + amt v)\<rparr>" using perform_cancel[OF r] by auto
    with m d nn amt_nonneg[of v] show ?thesis by (simp add: money_simps)
  next
    case 3
    then obtain v where "map_of (orders n) w = Some v"
      "n1 = n\<lparr>orders := AList.delete w (orders n), activeCash := toString (amt (activeCash n) + amt v)\<rparr>"
      using perform_cancelOrder[OF r] by auto
    with m d nn amt_nonneg[of v] show ?thesis by (simp add: money_simps)
  next
    case 4
    then obtain v where "map_of (orders n) w = Some v"
      "n1 = n\<lparr>orders := AList.delete w (orders n), positionCost := toString (amt (positionCost n) + amt v),
        positionValue := toString (amt (positionValue n) + amt v)\<rparr>" using perform_fill[OF r] by auto
    with m d nn amt_nonneg[of v] show ?thesis by (simp add: money_simps)
  qed
qed

lemma perform_money:
  assumes m: "money_sane n"
    and d: "distinct (map fst (orders n))" "distinct (map fst (pendingWithdrawals n))"
    and r: "perform s n b av amount c pol = Inr n1"
    and a: "amount_of (body c) \<noteq> None \<Longrightarrow> 0 < amount"
    and av: "av = amt (activeCash n) - amt (feeLiability n)"
    and cid: "idPattern (cmd_id c)" "cmd_id c \<notin> fst ` set (pendingWithdrawals n)"
    and close: "body c = CloseVault \<Longrightarrow> feeLiability n = ''0''"
  shows "money_sane n1"
proof (cases "body c")
  case (SettlePosition p)
  then show ?thesis using r m settle_money by (auto simp: perform_def)
next
  case (Deposit x)
  with m a amounts_nonneg[of n] perform_deposit[OF r] show ?thesis by (simp add: money_simps)
next
  case (Allocate x)
  with m a amounts_nonneg[of n] perform_allocate[OF r] show ?thesis by (simp add: money_simps)
next
  case (Deallocate x)
  with m a av amounts_nonneg[of n] perform_deallocate[OF r] show ?thesis by (simp add: money_simps)
next
  case (RequestWithdrawal x)
  with m a cid amounts_nonneg[of n] perform_request[OF r] show ?thesis by (simp add: money_simps)
next
  case (ReserveBuy oid x)
  with m a av amounts_nonneg[of n] perform_reserve[OF r] show ?thesis by (simp add: money_simps)
next
  case (PayFees x)
  with m a amounts_nonneg[of n] perform_payFees[OF r] show ?thesis by (simp add: money_simps)
next
  case CloseVault
  with m close amounts_nonneg[of n] perform_close[OF r] show ?thesis by (simp add: money_simps)
next
  case (MarkPosition v)
  with m amt_nonneg[of v] perform_mark[OF r] show ?thesis by (simp add: money_simps)
qed (insert m perform_money_release[OF m d r] perform_control[OF r], auto simp: money_simps)

section \<open>What a command leaves alone\<close>

definition same_identity :: "vault \<Rightarrow> vault \<Rightarrow> bool" where
  "same_identity s t \<longleftrightarrow> scope t = scope s \<and> schemaVersion t = schemaVersion s \<and> vault_id t = vault_id s \<and>
     ownerId t = ownerId s \<and> executorId t = executorId s \<and> strategyId t = strategyId s \<and> passes t = passes s"

lemma settle_frame:
  assumes "settle n b pol p = Inr n1"
  shows "same_identity n n1 \<and> revision n1 = revision n \<and> receipts n1 = receipts n \<and> events n1 = events n \<and>
    passLock n1 = passLock n \<and> orders n1 = orders n \<and> pendingWithdrawals n1 = pendingWithdrawals n \<and>
    status n1 = status n"
  using assms
  by (auto simp: settle_def same_identity_def bind_r_Inr Let_def split: option.splits if_splits)

lemma perform_frame:
  assumes "perform s n b av amount c pol = Inr n1"
  shows "same_identity n n1 \<and> revision n1 = revision n \<and> receipts n1 = receipts n \<and> events n1 = events n \<and>
    passLock n1 = passLock n"
proof (cases "body c")
  case (SettlePosition p)
  then show ?thesis using assms settle_frame by (auto simp: perform_def)
qed (insert assms, auto simp: perform_def same_identity_def bind_r_Inr split: option.splits if_splits)

lemma keys_update: "fst ` set (AList.update k v m) = insert k (fst ` set m)"
  by (induction m) auto

lemma keys_delete: "fst ` set (AList.delete k m) = fst ` set m - {k}"
  by (force simp: set_delete)

lemma perform_pending:
  assumes "perform s n b av amount c pol = Inr n1"
    and "\<And>x. body c \<noteq> RequestWithdrawal x" "\<And>x. body c \<noteq> ConfirmWithdrawal x" "\<And>x. body c \<noteq> CancelWithdrawal x"
  shows "pendingWithdrawals n1 = pendingWithdrawals n"
proof (cases "body c")
  case (SettlePosition p)
  then show ?thesis using assms settle_frame by (auto simp: perform_def)
qed (insert assms, auto simp: perform_def bind_r_Inr split: option.splits if_splits)

lemma perform_pending_change:
  assumes "perform s n b av amount c pol = Inr n1"
  shows "pendingWithdrawals n1 = pendingWithdrawals n \<or>
    (\<exists>v. pendingWithdrawals n1 = AList.update (cmd_id c) v (pendingWithdrawals n)) \<or>
    (\<exists>w. pendingWithdrawals n1 = AList.delete w (pendingWithdrawals n))"
proof (cases "body c")
  case (RequestWithdrawal x)
  then show ?thesis using assms by (auto simp: perform_def bind_r_Inr split: if_splits)
next
  case (ConfirmWithdrawal w)
  then show ?thesis using perform_confirm[OF assms] by auto
next
  case (CancelWithdrawal w)
  then show ?thesis using perform_cancel[OF assms] by auto
qed (insert perform_pending[OF assms], auto)

lemma perform_objects:
  assumes r: "perform s n b av amount c pol = Inr n1"
    and d: "distinct (map fst (orders n))" "distinct (map fst (pendingWithdrawals n))"
  shows "distinct (map fst (orders n1)) \<and> distinct (map fst (pendingWithdrawals n1)) \<and>
    fst ` set (pendingWithdrawals n1) \<subseteq> insert (cmd_id c) (fst ` set (pendingWithdrawals n))"
proof -
  have "distinct (map fst (orders n1))"
  proof (cases "body c")
    case (SettlePosition p)
    then show ?thesis using r d settle_frame by (auto simp: perform_def)
  qed (insert r d, auto simp: perform_def bind_r_Inr distinct_update distinct_delete
      split: option.splits if_splits)
  moreover have "distinct (map fst (pendingWithdrawals n1)) \<and>
    fst ` set (pendingWithdrawals n1) \<subseteq> insert (cmd_id c) (fst ` set (pendingWithdrawals n))"
    using perform_pending_change[OF r] d(2)
    by (elim disjE exE) (simp_all add: distinct_update distinct_delete keys_update keys_delete subset_insertI
        Diff_subset subset_insertI2)
  ultimately show ?thesis by simp
qed

section \<open>The PASS lock follows the books\<close>

lemma tdiv_exact: "0 \<le> n \<Longrightarrow> 0 < k \<Longrightarrow> tdiv (n * k) k = n"
  by (cases "n = 0") (simp_all add: tdiv_def sgn_if)

lemma capacityToPassRaw_value:
  "capacityToPassRaw x = Inr y \<Longrightarrow> printed x \<and> y = toString (amt x * 1000000000000) \<and>
     amt x * 1000000000000 \<le> MAX_INTEGER"
proof -
  assume r: "capacityToPassRaw x = Inr y"
  then have p: "printed x" "y = toString (amt x * 1000000000000)" "amt x \<le> tdiv MAX_INTEGER 1000000000000"
    by (auto simp: capacityToPassRaw_def bind_r_Inr unsigned_amt split: if_splits)
  then have "amt x \<le> MAX_INTEGER div 1000000000000" by (simp add: tdiv_pos)
  then have "amt x * 1000000000000 \<le> MAX_INTEGER" by linarith
  with p show ?thesis by simp
qed

lemma passAccounting_view:
  assumes "passAccounting s = Inr (Some v)" "passLock s = Some l" "lock_sane s l"
  shows "freePassRaw v = toString ((amt (passes s) * 1000000 - amt (lock_principal l)) * 1000000000000) \<and>
    reservedPrincipal v = toString (principal_reserved l) \<and>
    (\<exists>gain. 0 \<le> gain \<and> availableProfit v = toString gain)"
proof -
  have "0 \<le> amt (passes s) * 1000000 - amt (lock_principal l)" using assms(3) by (simp add: lock_sane_def)
  then show ?thesis
    using assms(1,2)
    by (auto simp: passAccounting_def Let_def bind_r_Inr unsigned_amt sum_r_amt principal_reserved_def
        dest!: capacityToPassRaw_value)
qed

lemma free_capacity:
  assumes "passRawToCapacity (toString (n * 1000000000000)) = Inr cap" "unsigned cap = Inr free" "0 \<le> n"
  shows "free = n"
  using assms by (auto simp: passRawToCapacity_def bind_r_Inr unsigned_reads tdiv_exact split: if_splits)

lemma lock_deposit:
  assumes "updatePassLock s l v (amt (lock_principal l)) c = Inr r" "body c = Deposit x"
    "passAccounting s = Inr (Some v)" "passLock s = Some l" "lock_sane s l"
  shows "r = Some (l\<lparr>lock_principal := toString (amt (lock_principal l) + amt x)\<rparr>) \<and>
    amt (lock_principal l) + amt x \<le> amt (passes s) * 1000000"
proof -
  have n: "0 \<le> amt (passes s) * 1000000 - amt (lock_principal l)" using assms(5) by (simp add: lock_sane_def)
  note v = passAccounting_view[OF assms(3-5)]
  from assms(1,2) obtain cap free where u: "passRawToCapacity (freePassRaw v) = Inr cap" "unsigned cap = Inr free"
    "amt x \<le> free" "r = Some (l\<lparr>lock_principal := toString (amt (lock_principal l) + amt x)\<rparr>)"
    by (auto simp: updatePassLock_def Let_def bind_r_Inr unsigned_amt split: if_splits)
  have "free = amt (passes s) * 1000000 - amt (lock_principal l)"
    using u(1,2) v n by (intro free_capacity) auto
  with u show ?thesis by simp
qed

lemma lock_request:
  assumes "updatePassLock s l v (amt (lock_principal l)) c = Inr r" "body c = RequestWithdrawal x"
    "passAccounting s = Inr (Some v)" "passLock s = Some l" "lock_sane s l"
    "cmd_id c \<notin> fst ` set (pendingWithdrawals s)"
  shows "\<exists>g p. 0 \<le> g \<and> 0 \<le> p \<and> g + p = amt x \<and> p \<le> amt (lock_principal l) - principal_reserved l \<and>
    (0 < p \<longrightarrow> no_exposure s) \<and>
    r = Some (l\<lparr>lock_withdrawals := lock_withdrawals l @ [(cmd_id c, \<lparr>profit = toString g, principal = toString p\<rparr>)]\<rparr>)"
proof -
  have "cmd_id c \<notin> fst ` set (lock_withdrawals l)"
    using assms(5,6) by (force simp: lock_sane_def split_sane_def dest: map_of_SomeD)
  moreover have "toString (amt (lock_principal l)) = lock_principal l"
    using assms(5) by (simp add: lock_sane_def printed_def)
  moreover obtain gain where "0 \<le> gain" "availableProfit v = toString gain"
    "reservedPrincipal v = toString (principal_reserved l)"
    using passAccounting_view[OF assms(3-5)] by auto
  ultimately show ?thesis
    using assms(1,2) amt_nonneg[of x]
    by (intro exI[of _ "min (amt x) gain"] exI[of _ "amt x - min (amt x) gain"])
      (auto simp: updatePassLock_def Let_def bind_r_Inr unsigned_reads update_new min_def split: if_splits)
qed

lemma lock_release:
  assumes "updatePassLock s l v (amt (lock_principal l)) c = Inr r"
    "body c = ConfirmWithdrawal w \<or> body c = CancelWithdrawal w" "lock_sane s l"
  shows "\<exists>x k. map_of (lock_withdrawals l) w = Some x \<and>
    k = (if body c = ConfirmWithdrawal w then amt (principal x) else 0) \<and>
    (0 < k \<longrightarrow> no_exposure s) \<and>
    r = Some (l\<lparr>lock_principal := toString (amt (lock_principal l) - k),
      lock_withdrawals := AList.delete w (lock_withdrawals l)\<rparr>)"
  using assms
  by (auto simp: updatePassLock_def Let_def bind_r_Inr unsigned_amt lock_sane_def printed_def
      split: option.splits if_splits)

lemma lock_keep:
  assumes "updatePassLock s l v (amt (lock_principal l)) c = Inr r" "lock_sane s l"
    "\<And>x. body c \<noteq> Deposit x" "\<And>x. body c \<noteq> RequestWithdrawal x" "\<And>x. body c \<noteq> ConfirmWithdrawal x"
    "\<And>x. body c \<noteq> CancelWithdrawal x" "body c \<noteq> CloseVault"
  shows "r = Some l"
proof -
  have "toString (amt (lock_principal l)) = lock_principal l"
    using assms(2) by (simp add: lock_sane_def printed_def)
  then show ?thesis using assms by (cases "body c") (auto simp: updatePassLock_def Let_def)
qed

lemma split_part_le:
  assumes "map_of m w = Some x"
  shows "amt (principal x) \<le> (\<Sum>e\<leftarrow>m. amt (principal (snd e)))"
  using assms
proof (induction m)
  case Nil
  then show ?case by simp
next
  case (Cons e m)
  have "0 \<le> (\<Sum>e\<leftarrow>m. amt (principal (snd e)))"
    by (intro sum_list_nonneg) (auto simp: amt_nonneg)
  then show ?case using Cons amt_nonneg[of "principal (snd e)"] by (cases e) (auto split: if_splits)
qed

lemma lock_sane_frame:
  assumes "lock_sane s l" "pendingWithdrawals t = pendingWithdrawals s" "passes t = passes s" "\<not> lock_closed l"
  shows "lock_sane t l"
  using assms by (simp add: lock_sane_def split_sane_def)

lemma lock_sane_request:
  assumes l: "lock_sane s l" "\<not> lock_closed l" and k: "k \<notin> fst ` set (pendingWithdrawals s)"
    and g: "0 \<le> g" "0 \<le> p" "p \<le> amt (lock_principal l) - principal_reserved l"
    and t: "pendingWithdrawals t = pendingWithdrawals s @ [(k, toString (g + p))]" "passes t = passes s"
  shows "lock_sane t (l\<lparr>lock_withdrawals := lock_withdrawals l @ [(k, \<lparr>profit = toString g, principal = toString p\<rparr>)]\<rparr>)"
proof -
  have "split_sane s e \<Longrightarrow> split_sane t e" for e
    using k t(1) by (force simp: split_sane_def map_add_Some_iff dest: map_of_SomeD)
  moreover have "split_sane t (k, \<lparr>profit = toString g, principal = toString p\<rparr>)"
  proof -
    have "map_of (pendingWithdrawals t) k = Some (toString (g + p))"
      using t(1) k map_of_eq_None_iff[of "pendingWithdrawals s" k] by (simp add: map_add_def)
    then show ?thesis using g by (simp add: split_sane_def)
  qed
  ultimately show ?thesis using l g t by (auto simp: lock_sane_def principal_reserved_def)
qed

lemma lock_sane_release:
  assumes l: "lock_sane s l" "\<not> lock_closed l" and x: "map_of (lock_withdrawals l) w = Some x"
    and d: "distinct (map fst (lock_withdrawals l))" "distinct (map fst (pendingWithdrawals s))"
    and k: "k = amt (principal x) \<or> k = 0"
    and t: "pendingWithdrawals t = AList.delete w (pendingWithdrawals s)" "passes t = passes s"
  shows "lock_sane t (l\<lparr>lock_principal := toString (amt (lock_principal l) - k),
    lock_withdrawals := AList.delete w (lock_withdrawals l)\<rparr>)"
proof -
  have k0: "0 \<le> k" "k \<le> amt (principal x)" using k amt_nonneg[of "principal x"] by auto
  have part: "amt (principal x) \<le> principal_reserved l" "principal_reserved l \<le> amt (lock_principal l)"
    using split_part_le[OF x] l(1) by (simp_all add: principal_reserved_def lock_sane_def)
  obtain v where v: "map_of (pendingWithdrawals s) w = Some v"
    using map_of_SomeD[OF x] l(1) by (auto simp: lock_sane_def split_sane_def)
  have "split_sane t e" if "e \<in> set (AList.delete w (lock_withdrawals l))" for e
    using that l(1) t(1) by (auto simp: set_delete lock_sane_def split_sane_def delete_conv')
  moreover have "length (AList.delete w (lock_withdrawals l)) = length (AList.delete w (pendingWithdrawals s))"
    using length_delete[OF d(1) x] length_delete[OF d(2) v] l(1) by (simp add: lock_sane_def)
  moreover have "(\<Sum>e\<leftarrow>AList.delete w (lock_withdrawals l). amt (principal (snd e)))
      = principal_reserved l - amt (principal x)"
    using sum_delete[OF d(1) x, of "\<lambda>e. amt (principal (snd e))"] by (simp add: principal_reserved_def)
  ultimately show ?thesis using l t part k0 by (simp add: lock_sane_def principal_reserved_def)
qed

lemma applyPass_closed: "passLock s = Some l \<Longrightarrow> lock_closed l \<Longrightarrow> applyPassCommand s c = Inr r \<Longrightarrow> False"
  by (auto simp: applyPassCommand_def enablePass_def split: if_splits)

lemma passAccounting_Some: "passLock s = Some l \<Longrightarrow> passAccounting s = Inr v \<Longrightarrow> \<exists>w. v = Some w"
  by (auto simp: passAccounting_def Let_def bind_r_Inr)

lemma applyPass_open:
  assumes "applyPassCommand s c = Inr r" "passLock s = Some l"
  shows "body c \<noteq> EnablePassLocking \<and> \<not> lock_closed l \<and>
    (\<exists>v. passAccounting s = Inr (Some v) \<and> updatePassLock s l v (amt (lock_principal l)) c = Inr r)"
  using assms
  by (fastforce simp: applyPassCommand_def enablePass_def bind_r_Inr unsigned_amt
      split: if_splits option.splits dest: passAccounting_Some)

lemma applyPass_none:
  assumes "applyPassCommand s c = Inr r" "passLock s = None" "body c \<noteq> EnablePassLocking"
  shows "r = None \<and> body c \<noteq> CloseVault"
  using assms by (auto simp: applyPassCommand_def split: if_splits)

lemma applyPass_enable:
  assumes "applyPassCommand s c = Inr r" "body c = EnablePassLocking"
  shows "passLock s = None \<and> pendingWithdrawals s = [] \<and> amt (deposits s) \<le> amt (passes s) * 1000000 \<and>
    r = Some \<lparr>lock_version = 1, lock_principal = deposits s, lock_closed = False, lock_withdrawals = []\<rparr>"
  using assms
  by (auto simp: applyPassCommand_def enablePass_def bind_r_Inr check_Inr unsigned_amt split: if_splits
      dest!: balances_ok)

lemma applyPass_close:
  assumes "applyPassCommand s c = Inr r" "body c = CloseVault"
  shows "status s = Stopped \<and> no_exposure s \<and> pendingWithdrawals s = [] \<and> feeLiability s = ''0'' \<and>
    r = Some \<lparr>lock_version = 1, lock_principal = ''0'', lock_closed = True, lock_withdrawals = []\<rparr>"
  using assms
  by (auto simp: applyPassCommand_def bind_r_Inr updatePassLock_def no_exposure_def Let_def check_Inr
      split: if_splits option.splits dest: passAccounting_Some)

text \<open>After a command, the lock it computed fits the books it leaves: first for a Vault whose lock was
  already enabled, then in general.\<close>

lemma perform_lock_payout:
  assumes k: "lock_sane s k" "\<not> lock_closed k" "distinct (map fst (lock_withdrawals k))"
      "distinct (map fst (pendingWithdrawals s))"
    and v: "updatePassLock s k v (amt (lock_principal k)) c = Inr (Some l)"
    and c: "body c = ConfirmWithdrawal w \<or> body c = CancelWithdrawal w"
    and pf: "perform s n b av amount c pol = Inr n1"
    and n: "pendingWithdrawals n = pendingWithdrawals s" "passes n1 = passes s"
  shows "lock_sane n1 l \<and> distinct (map fst (lock_withdrawals l))"
proof -
  from lock_release[OF v c k(1)] obtain x p where x: "map_of (lock_withdrawals k) w = Some x"
    "p = (if body c = ConfirmWithdrawal w then amt (principal x) else 0)"
    "l = k\<lparr>lock_principal := toString (amt (lock_principal k) - p),
      lock_withdrawals := AList.delete w (lock_withdrawals k)\<rparr>" by (simp del: if_split) blast
  have "pendingWithdrawals n1 = AList.delete w (pendingWithdrawals s)"
    using c perform_confirm[OF pf] perform_cancel[OF pf] n by auto
  then have "lock_sane n1 l"
    unfolding x(3) using n x k by (intro lock_sane_release) auto
  then show ?thesis using x k(3) by (simp add: distinct_delete)
qed

lemma perform_lock_request:
  assumes k: "lock_sane s k" "\<not> lock_closed k" "distinct (map fst (lock_withdrawals k))" "passLock s = Some k"
    and v: "updatePassLock s k v (amt (lock_principal k)) c = Inr (Some l)" "passAccounting s = Inr (Some v)"
    and c: "body c = RequestWithdrawal x" "cmd_id c \<notin> fst ` set (pendingWithdrawals s)" "amount = amt x"
    and pf: "perform s n b av amount c pol = Inr n1"
    and n: "pendingWithdrawals n = pendingWithdrawals s" "passes n1 = passes s"
  shows "lock_sane n1 l \<and> distinct (map fst (lock_withdrawals l))"
proof -
  from lock_request[OF v(1) c(1) v(2) k(4,1) c(2)] obtain g p where gp:
    "0 \<le> g" "0 \<le> p" "g + p = amt x" "p \<le> amt (lock_principal k) - principal_reserved k"
    "l = k\<lparr>lock_withdrawals := lock_withdrawals k @ [(cmd_id c, \<lparr>profit = toString g, principal = toString p\<rparr>)]\<rparr>"
    by auto
  have "cmd_id c \<notin> fst ` set (lock_withdrawals k)"
    using k(1) c(2) by (force simp: lock_sane_def split_sane_def dest: map_of_SomeD)
  moreover have "pendingWithdrawals n1 = pendingWithdrawals s @ [(cmd_id c, toString (g + p))]"
    using perform_request[OF pf c(1)] c n gp(3) by simp
  ultimately show ?thesis
    using lock_sane_request[OF k(1,2) c(2) gp(1,2,4), of n1] gp(5) n k by auto
qed

lemma perform_lock_open:
  assumes k: "lock_sane s k" "distinct (map fst (lock_withdrawals k))" "distinct (map fst (pendingWithdrawals s))"
      "passLock s = Some k"
    and cid: "cmd_id c \<notin> fst ` set (pendingWithdrawals s)"
    and ap: "applyPassCommand s c = Inr (Some l)"
    and pf: "perform s (s\<lparr>passLock := Some l\<rparr>) b av amount c pol = Inr n1"
    and am: "\<And>x. amount_of (body c) = Some x \<Longrightarrow> amount = amt x"
  shows "lock_sane n1 l \<and> distinct (map fst (lock_withdrawals l))"
proof -
  from applyPass_open[OF ap k(4)] obtain v where v: "\<not> lock_closed k" "passAccounting s = Inr (Some v)"
    "updatePassLock s k v (amt (lock_principal k)) c = Inr (Some l)" by auto
  have fr: "passes n1 = passes s" using perform_frame[OF pf] by (simp add: same_identity_def)
  show ?thesis
  proof (cases "body c")
    case (Deposit x)
    note ld = lock_deposit[OF v(3) Deposit v(2) k(4,1)]
    have "lock_sane s l"
      using ld k(1) v(1) amt_nonneg[of "lock_principal k"] amt_nonneg[of x]
      by (simp add: lock_sane_def principal_reserved_def)
    moreover have "pendingWithdrawals n1 = pendingWithdrawals s"
      using Deposit perform_pending[OF pf] by auto
    ultimately show ?thesis using fr k v(1) ld by (auto intro: lock_sane_frame)
  next
    case (RequestWithdrawal x)
    then show ?thesis using perform_lock_request[OF k(1) v(1) k(2,4) v(3,2) RequestWithdrawal cid _ pf] fr am by simp
  next
    case CloseVault
    then show ?thesis
      using perform_close[OF pf CloseVault] applyPass_close[OF ap CloseVault]
      by (auto simp: lock_sane_def principal_reserved_def no_exposure_def amt_nonneg)
  qed (insert lock_keep[OF v(3) k(1)] perform_pending[OF pf] fr k v(1)
        perform_lock_payout[OF k(1) v(1) k(2,3) v(3) _ pf], auto intro: lock_sane_frame)
qed

lemma perform_lock:
  assumes s: "money_sane s" "\<And>l. passLock s = Some l \<Longrightarrow> lock_sane s l" "objects_wf s"
    and cid: "cmd_id c \<notin> fst ` set (pendingWithdrawals s)"
    and ap: "applyPassCommand s c = Inr r"
    and pf: "perform s (case r of None \<Rightarrow> s | Some l \<Rightarrow> s\<lparr>passLock := Some l\<rparr>) b av amount c pol = Inr n1"
    and am: "\<And>x. amount_of (body c) = Some x \<Longrightarrow> amount = amt x"
    and l: "passLock n1 = Some l"
  shows "lock_sane n1 l \<and> distinct (map fst (lock_withdrawals l))"
proof (cases "passLock s")
  case None
  have fr: "passes n1 = passes s" "r = Some l"
    using perform_frame[OF pf] l None by (auto simp: same_identity_def split: option.splits)
  then have e: "body c = EnablePassLocking" using applyPass_none[OF ap None] by auto
  have pe: "pendingWithdrawals n1 = []"
    using e perform_pending[OF pf] applyPass_enable[OF ap e] fr by auto
  have "l = \<lparr>lock_version = 1, lock_principal = deposits s, lock_closed = False, lock_withdrawals = []\<rparr>"
    using applyPass_enable[OF ap e] fr by simp
  then show ?thesis
    using applyPass_enable[OF ap e] s(1) pe fr
    by (auto simp: lock_sane_def money_sane_def principal_reserved_def amt_nonneg)
next
  case (Some k)
  have "r = Some l"
  proof (cases r)
    case None
    with applyPass_open[OF ap Some] show ?thesis
      by (cases "body c") (auto simp: updatePassLock_def Let_def bind_r_Inr split: option.splits if_splits)
  next
    case (Some l')
    then show ?thesis using perform_frame[OF pf] l by (simp add: same_identity_def)
  qed
  then show ?thesis
    using perform_lock_open[OF _ _ _ Some cid] ap pf am s Some by (auto simp: objects_wf_def)
qed

section \<open>The transition\<close>

definition audit_failure :: "domain_error \<Rightarrow> bool" where
  "audit_failure e \<longleftrightarrow> e \<in> {UNSUPPORTED_SCOPE, INVALID_REVISION, EMPTY_RESERVATION, INVALID_PASS_LOCK,
     NEGATIVE_ACTIVE_EQUITY, UNFUNDED_FEE_LIABILITY, FEE_CONSERVATION, EQUITY_CONSERVATION, HISTORY_MISMATCH}"

lemma range_not_audit: "range_error e \<Longrightarrow> \<not> audit_failure e"
  by (auto simp: range_error_def audit_failure_def)

lemma finish_status_cases:
  "finish_status n = Inr m \<Longrightarrow> m = n \<or> (status n = Stopping \<and> m = n\<lparr>status := Stopped\<rparr>)"
  by (auto simp: finish_status_def bind_r_Inr split: if_splits)

lemma history_append:
  assumes s: "history_sane s" "map_of (receipts s) k = None" "revision s < 10000"
    and t: "revision t = revision s + 1" "receipts t = AList.update k r (receipts s)" "receipt_revision r = revision s + 1"
      "events t = events s @ [e]" "event_revision e = revision s + 1" "event_commandId e = k"
  shows "history_sane t"
proof -
  have new: "k \<notin> fst ` set (receipts s)" using s(2) by (simp add: map_of_eq_None_iff)
  have old: "map_of (receipts s @ [(k, x)]) j = Some y" if "map_of (receipts s) j = Some y" for j x y
    using that new by (auto simp: map_add_def split: option.splits dest: map_of_SomeD)
  show ?thesis
    using s t new old
    by (auto simp: history_sane_def update_new nth_append less_Suc_eq map_add_def isSafeInteger_def MAX_SAFE_INTEGER_def)
qed

lemma history_record:
  assumes "history_sane s" "map_of (receipts s) (cmd_id c) = None" "revision s < 10000"
    "receipts n = receipts s" "events n = events s" "revision n = revision s"
  shows "history_sane (record_command n a c fp)"
  by (rule history_append[OF assms(1-3)]) (simp add: record_command_def Let_def assms)+

lemma draft_sane:
  assumes ok: "vault_sane s" "objects_wf s" "pending_recorded s"
    and id: "idPattern (cmd_id c)" "map_of (receipts s) (cmd_id c) = None" "revision s < 10000"
    and am: "\<And>x. amount_of (body c) = Some x \<Longrightarrow> amount = amt x \<and> 0 < amount"
    and ap: "applyPassCommand s c = Inr r"
    and pf: "perform s (case r of None \<Rightarrow> s | Some l \<Rightarrow> s\<lparr>passLock := Some l\<rparr>) b
               (amt (activeCash s) - amt (feeLiability s)) amount c pol = Inr n1"
    and fs: "finish_status n1 = Inr n2"
    and t_def: "t = record_command n2 a c fp"
  shows "vault_sane t \<and> objects_wf t \<and> pending_recorded t"
proof -
  let ?n = "case r of None \<Rightarrow> s | Some l \<Rightarrow> s\<lparr>passLock := Some l\<rparr>"
  have s: "money_sane s" "ids_sane s" "history_sane s" "passLock s = Some l \<Longrightarrow> lock_sane s l" for l
    using ok(1) by (auto simp: vault_sane_def)
  have n: "money_sane ?n" "orders ?n = orders s" "pendingWithdrawals ?n = pendingWithdrawals s"
    "activeCash ?n = activeCash s" "feeLiability ?n = feeLiability s" "same_identity s ?n"
    "receipts ?n = receipts s" "events ?n = events s" "revision ?n = revision s"
    using s(1) by (auto simp: money_sane_def pnl_def same_identity_def split: option.splits)
  have new: "cmd_id c \<notin> fst ` set (receipts s)" using id(2) by (simp add: map_of_eq_None_iff)
  then have cid: "cmd_id c \<notin> fst ` set (pendingWithdrawals s)" using ok(3) by (auto simp: pending_recorded_def)
  have d: "distinct (map fst (orders s))" "distinct (map fst (pendingWithdrawals s))" "distinct (map fst (receipts s))"
    using ok(2) by (auto simp: objects_wf_def)
  have close: "body c = CloseVault \<Longrightarrow> feeLiability s = ''0''" using applyPass_close[OF ap] by simp
  have pos: "amount_of (body c) \<noteq> None \<Longrightarrow> 0 < amount" using am by auto
  have m1: "money_sane n1"
    using perform_money[OF n(1) _ _ pf pos] d n cid id(1) close by simp
  have f1: "same_identity s n1" "receipts n1 = receipts s" "events n1 = events s" "revision n1 = revision s"
    using perform_frame[OF pf] n by (auto simp: same_identity_def)
  have l1: "passLock n1 = Some l \<Longrightarrow> lock_sane n1 l \<and> distinct (map fst (lock_withdrawals l))" for l
    using perform_lock[OF s(1,4) ok(2) cid ap pf] am by blast
  have o1: "distinct (map fst (orders n1))" "distinct (map fst (pendingWithdrawals n1))"
    "fst ` set (pendingWithdrawals n1) \<subseteq> insert (cmd_id c) (fst ` set (pendingWithdrawals s))"
    using perform_objects[OF pf] d n by auto
  have t: "t = n1\<lparr>status := status t, revision := revision t, receipts := receipts t, events := events t\<rparr>"
    "status n1 = Stopped \<Longrightarrow> status t = Stopped"
    and tf: "orders t = orders n1" "pendingWithdrawals t = pendingWithdrawals n1" "passLock t = passLock n1"
    using finish_status_cases[OF fs] unfolding t_def by (auto simp: record_command_def Let_def)
  obtain rec where rec: "receipts t = AList.update (cmd_id c) rec (receipts s)"
    using finish_status_cases[OF fs] f1 unfolding t_def by (auto simp: record_command_def Let_def)
  have "history_sane t"
    unfolding t_def using finish_status_cases[OF fs] f1 s(3) id by (intro history_record[of s]) auto
  moreover have "money_sane t" using m1 by (subst t(1)) (simp add: money_sane_def pnl_def)
  moreover have "ids_sane t" using s(2) f1(1) by (subst t(1)) (simp add: ids_sane_def same_identity_def)
  moreover have "passLock t = Some l \<Longrightarrow> lock_sane t l" for l
    using l1[of l] t(2) by (subst (asm) t(1), subst t(1)) (auto simp: lock_sane_def split_sane_def)
  moreover have "objects_wf t"
    using d o1 l1 by (auto simp: objects_wf_def rec tf distinct_update)
  moreover have "pending_recorded t"
    using o1(3) ok(3) unfolding pending_recorded_def rec tf keys_update by blast
  ultimately show ?thesis by (simp add: vault_sane_def)
qed

text \<open>No step before the final check reports an accounting failure of its own.\<close>

definition no_audit :: "domain_error + 'a \<Rightarrow> bool" where
  "no_audit m \<longleftrightarrow> (\<forall>e. m = Inl e \<longrightarrow> \<not> audit_failure e)"

lemma no_audit_bind: "no_audit m \<Longrightarrow> (\<And>x. m = Inr x \<Longrightarrow> no_audit (f x)) \<Longrightarrow> no_audit (bind_r m f)"
  by (cases m) (auto simp: no_audit_def)

lemma no_audit_range: "only_range m \<Longrightarrow> no_audit m"
  using range_not_audit by (auto simp: only_range_def no_audit_def)

lemma no_audit_simps [simp]:
  "no_audit (Inr x)" "no_audit (Inl e) \<longleftrightarrow> \<not> audit_failure e" "no_audit (check b e) \<longleftrightarrow> b \<or> \<not> audit_failure e"
  by (auto simp: no_audit_def check_def)

lemma no_audit_readers:
  "no_audit (unsigned x)" "no_audit (signed x)" "no_audit (balances s)" "no_audit (capacityToPassRaw x)"
  "no_audit (sum_r (\<lambda>e. unsigned (f e)) m)" "no_audit (sum_amounts n)"
  by (auto intro!: no_audit_range only_rangeI dest: unsigned_error signed_error balances_error
      capacityToPassRaw_error sum_r_error sum_amounts_error simp: range_error_def)

lemma no_audit_validId: "no_audit (validId x)"
  by (auto simp: validId_def audit_failure_def)

lemmas no_audit_intros = no_audit_bind no_audit_readers no_audit_validId

lemma passAccounting_no_audit: "no_audit (passAccounting s)"
  unfolding passAccounting_def Let_def
  by (cases "passLock s") (auto intro!: no_audit_intros)

lemma updatePassLock_no_audit: "no_audit (updatePassLock s l v p c)"
  unfolding updatePassLock_def Let_def passRawToCapacity_def
  by (cases "body c")
    (auto intro!: no_audit_intros simp del: bind_check simp: audit_failure_def split: option.splits)

lemma applyPass_no_audit: "no_audit (applyPassCommand s c)"
  unfolding applyPassCommand_def enablePass_def
  by (auto intro!: no_audit_intros passAccounting_no_audit updatePassLock_no_audit
      simp del: bind_check simp: audit_failure_def split: option.splits)

lemma settle_no_audit: "no_audit (settle n b pol p)"
  unfolding settle_def Let_def
  by (cases pol) (auto intro!: no_audit_intros simp del: bind_check simp: audit_failure_def)

lemma perform_no_audit: "no_audit (perform s n b av amount c pol)"
  unfolding perform_def
  by (cases "body c")
    (auto intro!: no_audit_intros settle_no_audit simp del: bind_check
      simp: audit_failure_def split: option.splits)

lemma finish_no_audit: "no_audit (finish_status n)"
  unfolding finish_status_def by (auto intro!: no_audit_intros)

lemma command_amount_no_audit: "no_audit (command_amount c)"
  unfolding command_amount_def
  by (cases "amount_of (body c)") (auto intro!: no_audit_intros simp del: bind_check simp: audit_failure_def)

lemma command_amount_ok:
  "command_amount c = Inr n \<Longrightarrow> amount_of (body c) = Some x \<Longrightarrow> n = amt x \<and> 0 < n"
  by (auto simp: command_amount_def bind_r_Inr unsigned_amt split: if_splits)

lemma transition_no_audit:
  assumes ok: "assertInvariant s = Inr ()" "objects_wf s" "pending_recorded s"
    and id: "idPattern (cmd_id c)" "map_of (receipts s) (cmd_id c) = None"
  shows "no_audit (transition_vault s a c pol fp)"
  unfolding transition_vault_def Let_def
proof (intro no_audit_bind applyPass_no_audit perform_no_audit finish_no_audit no_audit_readers
    command_amount_no_audit, goal_cases)
  case (3 u w amount r b cash fee n1 n2)
  have "revision s < 10000" using 3 by (simp add: check_Inr)
  moreover have "cash = amt (activeCash s)" "fee = amt (feeLiability s)" using 3 by (simp_all add: unsigned_amt)
  ultimately have "vault_sane (record_command n2 a c fp)"
    using draft_sane[OF assertInvariant_sane[OF ok(1)] ok(2,3) id _ command_amount_ok[OF 3(3)] 3(4) _ 3(9)] 3(8)
    by blast
  then show ?case by (intro no_audit_range only_rangeI) (rule sane_range_error)
qed (auto simp: audit_failure_def)

lemma transition_Inr:
  assumes ok: "assertInvariant s = Inr ()" "objects_wf s" "pending_recorded s"
    and id: "idPattern (cmd_id c)" "map_of (receipts s) (cmd_id c) = None"
    and t: "transition_vault s a c pol fp = Inr t"
  shows "assertInvariant t = Inr () \<and> objects_wf t \<and> pending_recorded t"
proof -
  from t obtain amount r b n1 n2 where st: "command_amount c = Inr amount" "applyPassCommand s c = Inr r"
    "perform s (case r of None \<Rightarrow> s | Some l \<Rightarrow> s\<lparr>passLock := Some l\<rparr>) b
       (amt (activeCash s) - amt (feeLiability s)) amount c pol = Inr n1"
    "finish_status n1 = Inr n2" "t = record_command n2 a c fp" "assertInvariant t = Inr ()" "revision s < 10000"
    by (auto simp: transition_vault_def Let_def bind_r_Inr unsigned_amt split: if_splits)
  then show ?thesis
    using draft_sane[OF assertInvariant_sane[OF ok(1)] ok(2,3) id st(7) command_amount_ok[OF st(1)] st(2,3,4,5)]
    by simp
qed

lemma transition_frame:
  assumes t: "transition_vault s a c pol fp = Inr t"
  shows "same_identity s t \<and> revision t = revision s + 1 \<and>
    receipts t = AList.update (cmd_id c) \<lparr>fingerprint = fp, receipt_revision = revision s + 1\<rparr> (receipts s) \<and>
    assertInvariant t = Inr ()"
proof -
  from t obtain amount r b n1 n2 av where st:
    "perform s (case r of None \<Rightarrow> s | Some l \<Rightarrow> s\<lparr>passLock := Some l\<rparr>) b av amount c pol = Inr n1"
    "finish_status n1 = Inr n2" "t = record_command n2 a c fp" "assertInvariant t = Inr ()"
    by (auto simp: transition_vault_def Let_def bind_r_Inr split: if_splits)
  show ?thesis
    using perform_frame[OF st(1)] finish_status_cases[OF st(2)] st(3,4)
    by (auto simp: record_command_def Let_def same_identity_def split: option.splits)
qed

end
