(* ===== verification/Vault_Properties.thy ===== *)
theory Vault_Properties
  imports Vault_Steps
begin

text \<open>
  The guarantees of the Vault over its whole life. A Vault is a \<open>guarded_machine\<close>: it starts with
  \<open>createVault\<close> and moves by \<open>execute\<close>; its invariant \<open>vault_inv\<close> is the program's own check together with
  the facts about object keys that the check relies on.
\<close>

type_synonym vault_input = "actor \<times> command \<times> policy option"

definition vault_start :: "vault \<Rightarrow> bool" where
  "vault_start s \<longleftrightarrow> (\<exists>i owner executor strategy pas lock.
     createVault i owner executor strategy pas ''TEST_ONLY'' lock = Inr s)"

definition vault_step :: "(string \<Rightarrow> string \<Rightarrow> bool) \<Rightarrow> vault \<Rightarrow> vault_input \<Rightarrow> domain_error + vault" where
  "vault_step le s i = (case i of (a, c, pol) \<Rightarrow> execute le s a c pol)"

definition vault_inv :: "vault \<Rightarrow> bool" where
  "vault_inv s \<longleftrightarrow> assertInvariant s = Inr () \<and> objects_wf s \<and> pending_recorded s"

section \<open>Reachable Vaults\<close>

lemma execute_cases:
  assumes "execute le s a c pol = Inr t"
  obtains "t = s" "assertInvariant s = Inr ()" "idPattern (cmd_id c)"
      "map_option fingerprint (map_of (receipts s) (cmd_id c)) = Some (command_fingerprint le a c pol)"
  | "map_of (receipts s) (cmd_id c) = None" "assertInvariant s = Inr ()" "idPattern (cmd_id c)"
      "transition_vault s a c pol (command_fingerprint le a c pol) = Inr t"
  using assms by (auto simp: execute_def Let_def validId_def bind_r_Inr split: option.splits if_splits)

lemma vault_start_inv: "vault_start s \<Longrightarrow> vault_inv s"
proof -
  assume "vault_start s"
  then obtain lock where ok: "assertInvariant s = Inr ()" and s: "orders s = []" "pendingWithdrawals s = []"
    "receipts s = []" "passLock s = lock"
    by (auto simp: vault_start_def createVault_def Let_def bind_r_Inr)
  have "lock = Some l \<Longrightarrow> lock_withdrawals l = []" for l
    using assertInvariant_sane[OF ok] s by (simp add: vault_sane_def lock_sane_def)
  then show ?thesis using ok s by (simp add: vault_inv_def objects_wf_def pending_recorded_def)
qed

lemma execute_inv: "vault_inv s \<Longrightarrow> execute le s a c pol = Inr t \<Longrightarrow> vault_inv t"
  by (erule execute_cases) (auto simp: vault_inv_def dest: transition_Inr)

interpretation vault_machine: guarded_machine vault_start "vault_step le" vault_inv for le
  by unfold_locales (auto simp: vault_start_inv vault_step_def intro: execute_inv)

lemma execute_no_audit: "vault_inv s \<Longrightarrow> no_audit (execute le s a c pol)"
  unfolding execute_def Let_def vault_inv_def
  by (cases "map_of (receipts s) (cmd_id c)")
    (auto intro!: no_audit_intros transition_no_audit simp del: bind_check simp: audit_failure_def
      validId_def check_Inr)

text \<open>C1: the accounting check of the program is a proof obligation that is always met. In every Vault
  reachable from \<open>createVault\<close> through \<open>execute\<close>, no command by any actor, under any settlement policy,
  makes the check report a conservation, solvency, lock or history failure: a rejected command was
  rejected by its own guard, or because an amount would leave its representable range.\<close>

theorem vault_books_never_break:
  assumes "reaches vault_start (vault_step le) s" and "execute le s a c pol = Inl e"
  shows "e \<notin> {UNSUPPORTED_SCOPE, INVALID_REVISION, EMPTY_RESERVATION, INVALID_PASS_LOCK,
     NEGATIVE_ACTIVE_EQUITY, UNFUNDED_FEE_LIABILITY, FEE_CONSERVATION, EQUITY_CONSERVATION, HISTORY_MISMATCH}"
  using execute_no_audit[OF vault_machine.reachable_inv[OF assms(1)]] assms(2)
  unfolding no_audit_def audit_failure_def by blast

text \<open>In every reachable Vault with PASS locking enabled, the locked principal never exceeds the
  capacity of the Vault's PASS (one PASS carries 1000000 settlement units), and the principal already
  promised to pending withdrawals never exceeds the locked principal.\<close>

theorem pass_lock_bounds:
  assumes "reaches vault_start (vault_step le) s" and "passLock s = Some l"
  shows "principal_reserved l \<le> amt (lock_principal l) \<and> amt (lock_principal l) \<le> amt (passes s) * 1000000"
  using assertInvariant_sane[of s] vault_machine.reachable_inv[OF assms(1)] assms(2)
  by (auto simp: vault_inv_def vault_sane_def lock_sane_def)

section \<open>Retries\<close>

lemma execute_recorded:
  assumes "execute le s a c pol = Inr t"
  shows "map_option fingerprint (map_of (receipts t) (cmd_id c)) = Some (command_fingerprint le a c pol)
    \<and> assertInvariant t = Inr () \<and> idPattern (cmd_id c) \<and> same_identity s t"
  using assms
proof (rule execute_cases)
  assume "transition_vault s a c pol (command_fingerprint le a c pol) = Inr t" "idPattern (cmd_id c)"
  then show ?thesis using transition_frame by (auto simp: update_conv')
qed (auto simp: same_identity_def)

lemma execute_role:
  assumes "execute le s a c pol = Inr t"
  shows "if ownerAction (body c) then actor_role a = Owner \<and> actor_id a = ownerId s
         else actor_role a = Executor \<and> actor_id a = executorId s"
  using assms by (auto simp: execute_def bind_r_Inr validId_def split: if_splits)

text \<open>A command is applied at most once. After \<open>execute\<close> succeeded, repeating the same call on the
  resulting Vault changes nothing and succeeds.\<close>

theorem execute_idempotent:
  assumes "execute le s a c pol = Inr t"
  shows "execute le t a c pol = Inr t"
  using execute_recorded[OF assms] execute_role[OF assms]
  by (auto simp: execute_def Let_def validId_def same_identity_def)

section \<open>Fingerprints\<close>

lemma norm_entries:
  assumes "norm le (JObj es) = norm le (JObj fs)" and "(k, v) \<in> set es"
  shows "\<exists>w. (k, w) \<in> set fs \<and> norm le v = norm le w"
proof -
  have "mset (map (\<lambda>(k, v). (k, norm le v)) (sort_entries le es)) = mset (map (\<lambda>(k, v). (k, norm le v)) (sort_entries le fs))"
    using assms(1) by simp
  then have "set (map (\<lambda>(k, v). (k, norm le v)) es) = set (map (\<lambda>(k, v). (k, norm le v)) fs)"
    by (metis mset_eq_setD mset_map mset_sort_entries)
  moreover have "(k, norm le v) \<in> set (map (\<lambda>(k, v). (k, norm le v)) es)" using assms(2) by force
  ultimately show ?thesis by auto
qed

lemma actor_json_inj: "norm le (actor_json a) = norm le (actor_json b) \<Longrightarrow> a = b"
proof -
  assume eq: "norm le (actor_json a) = norm le (actor_json b)"
  have "actor_id a = actor_id b"
    using norm_entries[OF eq[unfolded actor_json_def], of "''id''" "JStr (actor_id a)"] by simp
  moreover have "actor_role a = actor_role b"
    using norm_entries[OF eq[unfolded actor_json_def], of "''role''"]
    by (cases "actor_role a"; cases "actor_role b") auto
  ultimately show ?thesis by simp
qed

lemma command_body_inj:
  assumes "command_type b = command_type b'" and "set (command_fields b) \<subseteq> set (command_fields b')"
  shows "b = b'"
  using assms by (cases b; cases b') simp_all

lemma command_fields_strings: "(k, v) \<in> set (command_fields b) \<Longrightarrow> \<exists>x. v = JStr x \<and> k \<notin> {''id'', ''expectedRevision'', ''type''}"
  by (cases b) auto

lemma norm_JStr: "norm le v = JStr x \<longleftrightarrow> v = JStr x"
  by (cases v) auto

lemma command_json_inj: "norm le (command_json c) = norm le (command_json d) \<Longrightarrow> c = d"
proof -
  assume eq: "norm le (command_json c) = norm le (command_json d)"
  note entry = norm_entries[OF eq[unfolded command_json_def]]
  have "cmd_id c = cmd_id d"
    using entry[of "''id''" "JStr (cmd_id c)"] by (auto dest: command_fields_strings)
  moreover have "expectedRevision c = expectedRevision d"
    using entry[of "''expectedRevision''" "JNum (expectedRevision c)"] by (auto dest: command_fields_strings)
  moreover have "command_type (body c) = command_type (body d)"
    using entry[of "''type''" "JStr (command_type (body c))"] by (auto dest: command_fields_strings)
  moreover have "set (command_fields (body c)) \<subseteq> set (command_fields (body d))"
  proof
    fix e assume e: "e \<in> set (command_fields (body c))"
    obtain k v where kv: "e = (k, v)" by (cases e)
    obtain x where x: "v = JStr x" "k \<notin> {''id'', ''expectedRevision'', ''type''}"
      using command_fields_strings e kv by blast
    show "e \<in> set (command_fields (body d))"
      using entry[of k v] e kv x norm_JStr[of le _ x] by (auto simp: eq_commute[of "JStr x"])
  qed
  ultimately show ?thesis using command_body_inj by (metis command.equality unit.exhaust)
qed

lemma policy_json_inj:
  "norm le (policy_json c p) = norm le (policy_json c q) \<Longrightarrow> is_settle (body c) \<Longrightarrow>
     map_option policy_id p = map_option policy_id q"
  by (auto simp: policy_json_def split: option.splits)

lemma command_fingerprint_inj:
  assumes "command_fingerprint le a c p = command_fingerprint le b d q"
  shows "a = b \<and> c = d \<and> (is_settle (body c) \<longrightarrow> map_option policy_id p = map_option policy_id q)"
proof -
  have eq: "norm le (JObj [(''actor'', actor_json a), (''command'', command_json c), (''policyId'', policy_json c p)])
    = norm le (JObj [(''actor'', actor_json b), (''command'', command_json d), (''policyId'', policy_json d q)])"
    using assms unfolding command_fingerprint_def canonical_print print_json_inj .
  have "a = b" using norm_entries[OF eq, of "''actor''" "actor_json a"] actor_json_inj by auto
  moreover have cd: "c = d"
    using norm_entries[OF eq, of "''command''" "command_json c"] command_json_inj by auto
  moreover have "norm le (policy_json c p) = norm le (policy_json c q)"
    using norm_entries[OF eq, of "''policyId''" "policy_json c p"] cd by auto
  ultimately show ?thesis using policy_json_inj by blast
qed

text \<open>Receipts are never lost or rewritten: a receipt survives every further command.\<close>

lemma receipt_kept:
  assumes "execute le s a c pol = Inr t" and "map_of (receipts s) k = Some r"
  shows "map_of (receipts t) k = Some r"
  using assms(1)
proof (rule execute_cases)
  assume "transition_vault s a c pol (command_fingerprint le a c pol) = Inr t" and "map_of (receipts s) (cmd_id c) = None"
  then show ?thesis using assms(2) transition_frame by (auto simp: update_conv')
qed (use assms(2) in simp)

lemma receipts_persist:
  assumes "map_of (receipts t) k = Some r" "assertInvariant t = Inr ()" "same_identity s t"
  shows "map_of (receipts (run_inputs (vault_step le) t is)) k = Some r \<and>
    assertInvariant (run_inputs (vault_step le) t is) = Inr () \<and> same_identity s (run_inputs (vault_step le) t is)"
  using assms
proof (induction "is" arbitrary: t)
  case (Cons i "is")
  obtain a c pol where i: "i = (a, c, pol)" by (cases i)
  show ?case
  proof (cases "execute le t a c pol")
    case (Inl e)
    then show ?thesis using Cons i by (simp add: vault_step_def)
  next
    case (Inr u)
    then have "same_identity s u" using execute_recorded[OF Inr] Cons.prems(3) by (simp add: same_identity_def)
    then show ?thesis
      using Cons.IH[of u] receipt_kept[OF Inr Cons.prems(1)] execute_recorded[OF Inr] Inr i by (simp add: vault_step_def)
  qed
qed simp

text \<open>C13: a command id is bound for ever to the first call that used it. Let a call be accepted, and any sequence
  of further calls, accepted or refused, be made on the Vault. From then on the same call is answered with the
  Vault as it is, and whenever a call with that id is accepted, it came from the same actor, carried the same
  command (and, for a settlement, the same policy id) and changed nothing: there is no way to slip a different
  command under a used id.\<close>

theorem command_id_binds:
  assumes "execute le s a c pol = Inr t" and "t' = run_inputs (vault_step le) t is"
  shows "execute le t' a c pol = Inr t' \<and>
    (cmd_id d = cmd_id c \<longrightarrow> execute le t' b d pol' = Inr u \<longrightarrow>
       b = a \<and> d = c \<and> (is_settle (body c) \<longrightarrow> map_option policy_id pol' = map_option policy_id pol) \<and> u = t')"
proof -
  obtain r where "map_of (receipts t) (cmd_id c) = Some r" and fp: "fingerprint r = command_fingerprint le a c pol"
    and "assertInvariant t = Inr ()" "same_identity s t" and id: "idPattern (cmd_id c)"
    using execute_recorded[OF assms(1)] by auto
  then have r: "map_of (receipts t') (cmd_id c) = Some r" and ok: "assertInvariant t' = Inr ()" "same_identity s t'"
    using receipts_persist assms(2) by blast+
  have "execute le t' a c pol = Inr t'"
    using r fp ok id execute_role[OF assms(1)] by (auto simp: execute_def Let_def validId_def same_identity_def)
  moreover have "b = a \<and> d = c \<and> (is_settle (body c) \<longrightarrow> map_option policy_id pol' = map_option policy_id pol) \<and> u = t'"
    if "cmd_id d = cmd_id c" "execute le t' b d pol' = Inr u"
    using that(2)
  proof (rule execute_cases)
    assume "map_option fingerprint (map_of (receipts t') (cmd_id d)) = Some (command_fingerprint le b d pol')" "u = t'"
    then have "command_fingerprint le a c pol = command_fingerprint le b d pol'" using r fp that(1) by simp
    then show ?thesis using command_fingerprint_inj \<open>u = t'\<close> by metis
  qed (use r that(1) in auto)
  ultimately show ?thesis by blast
qed

section \<open>What commands can and cannot move\<close>

lemma transition_effect:
  assumes "transition_vault s a c pol fp = Inr t"
  obtains r b amount n1 where "applyPassCommand s c = Inr r"
    "command_amount c = Inr amount" "balances s = Inr b"
    "perform s (case r of None \<Rightarrow> s | Some l \<Rightarrow> s\<lparr>passLock := Some l\<rparr>) b
       (amt (activeCash s) - amt (feeLiability s)) amount c pol = Inr n1"
    "t = record_command n1 a c fp \<or> t = record_command (n1\<lparr>status := Stopped\<rparr>) a c fp"
    "assertInvariant t = Inr ()" "expectedRevision c = revision s"
  using assms
  by (fastforce simp: transition_vault_def bind_r_Inr Let_def unsigned_amt dest: finish_status_cases split: if_splits)

lemma amt_add [simp]: "0 \<le> n \<Longrightarrow> amt (toString (amt x + n)) = amt x + n"
  using amt_nonneg[of x] by (intro amt_toString) linarith

lemma settle_paid: "settle n b pol p = Inr m \<Longrightarrow> withdrawalsPaid m = withdrawalsPaid n \<and> deposits m = deposits n"
  by (auto simp: settle_def bind_r_Inr Let_def split: option.splits if_splits)

text \<open>What a command is entitled to pay out.\<close>

definition paid_out :: "vault \<Rightarrow> command \<Rightarrow> int" where
  "paid_out s c = (case body c of
       ConfirmWithdrawal w \<Rightarrow> (case map_of (pendingWithdrawals s) w of None \<Rightarrow> 0 | Some v \<Rightarrow> amt v)
     | CloseVault \<Rightarrow> amt (idle s) + amt (activeCash s)
     | _ \<Rightarrow> 0)"

lemma perform_paid:
  assumes "perform s n b av amount c pol = Inr n1"
  shows "amt (withdrawalsPaid n1) = amt (withdrawalsPaid n) + paid_out n c"
proof (cases "body c")
  case CloseVault
  then show ?thesis using perform_close[OF assms] amounts_nonneg[of n] by (simp add: paid_out_def)
next
  case (ConfirmWithdrawal w)
  then show ?thesis using perform_confirm[OF assms] by (auto simp: paid_out_def amt_nonneg)
next
  case (SettlePosition p)
  then show ?thesis using assms settle_paid by (auto simp: paid_out_def perform_def)
qed (use assms in \<open>auto simp: paid_out_def perform_cases split: if_splits option.splits\<close>)


lemma record_command_frame [simp]:
  "deposits (record_command n a c fp) = deposits n" "idle (record_command n a c fp) = idle n"
  "activeCash (record_command n a c fp) = activeCash n" "orders (record_command n a c fp) = orders n"
  "pendingWithdrawals (record_command n a c fp) = pendingWithdrawals n"
  "withdrawalsPaid (record_command n a c fp) = withdrawalsPaid n" "feesPaid (record_command n a c fp) = feesPaid n"
  "positionValue (record_command n a c fp) = positionValue n" "positionCost (record_command n a c fp) = positionCost n"
  "feeLiability (record_command n a c fp) = feeLiability n" "passes (record_command n a c fp) = passes n"
  "passLock (record_command n a c fp) = passLock n" "ownerId (record_command n a c fp) = ownerId n"
  by (simp_all add: record_command_def Let_def)

lemma draft_frame [simp]:
  "deposits (case r of None \<Rightarrow> s | Some l \<Rightarrow> s\<lparr>passLock := Some l\<rparr>) = deposits s"
  "idle (case r of None \<Rightarrow> s | Some l \<Rightarrow> s\<lparr>passLock := Some l\<rparr>) = idle s"
  "activeCash (case r of None \<Rightarrow> s | Some l \<Rightarrow> s\<lparr>passLock := Some l\<rparr>) = activeCash s"
  "orders (case r of None \<Rightarrow> s | Some l \<Rightarrow> s\<lparr>passLock := Some l\<rparr>) = orders s"
  "pendingWithdrawals (case r of None \<Rightarrow> s | Some l \<Rightarrow> s\<lparr>passLock := Some l\<rparr>) = pendingWithdrawals s"
  "withdrawalsPaid (case r of None \<Rightarrow> s | Some l \<Rightarrow> s\<lparr>passLock := Some l\<rparr>) = withdrawalsPaid s"
  "positionValue (case r of None \<Rightarrow> s | Some l \<Rightarrow> s\<lparr>passLock := Some l\<rparr>) = positionValue s"
  "positionCost (case r of None \<Rightarrow> s | Some l \<Rightarrow> s\<lparr>passLock := Some l\<rparr>) = positionCost s"
  "feeLiability (case r of None \<Rightarrow> s | Some l \<Rightarrow> s\<lparr>passLock := Some l\<rparr>) = feeLiability s"
  "passes (case r of None \<Rightarrow> s | Some l \<Rightarrow> s\<lparr>passLock := Some l\<rparr>) = passes s"
  "paid_out (case r of None \<Rightarrow> s | Some l \<Rightarrow> s\<lparr>passLock := Some l\<rparr>) c = paid_out s c"
  by (auto simp: paid_out_def split: option.splits command_body.splits)

lemma execute_new:
  assumes "execute le s a c pol = Inr t" "map_of (receipts s) (cmd_id c) = None"
  shows "transition_vault s a c pol (command_fingerprint le a c pol) = Inr t"
  using assms by (auto elim: execute_cases)

text \<open>C14: money leaves a Vault only through a confirmed withdrawal, by exactly its pending amount, or
  through the closing of the Vault, by exactly its idle and active cash. No other command raises the total
  paid out.\<close>

theorem payouts_exact:
  assumes "execute le s a c pol = Inr t" and "map_of (receipts s) (cmd_id c) = None"
  shows "amt (withdrawalsPaid t) = amt (withdrawalsPaid s) + paid_out s c"
  using execute_new[OF assms] by (rule transition_effect) (auto dest: perform_paid)

text \<open>What a successful settlement did: the policy's fee and excess were in their bounds, and the books
  moved by exactly these two numbers and the proceeds.\<close>

lemma settle_effect:
  assumes "settle n b pol p = Inr m"
  obtains q fee excess where "pol = Some q"
    "assess q \<lparr>proceeds_in = amt p, cost_in = amt (positionCost n), cash_in = amt (activeCash n),
       existingFeeLiability = amt (feeLiability n), allowance_in = allowance b\<rparr> = (fee, excess)"
    "0 \<le> fee" "0 \<le> excess" "fee \<le> max 0 (amt p - amt (positionCost n))"
    "excess \<le> amt (activeCash n) + amt p - (amt (feeLiability n) + fee)"
    "activeCash m = toString (amt (activeCash n) + amt p - excess)" "idle m = toString (amt (idle n) + excess)"
    "feeLiability m = toString (amt (feeLiability n) + fee)" "positionValue m = ''0''" "positionCost m = ''0''"
    "orders m = []" "passes m = passes n"
proof -
  obtain q where q: "pol = Some q" using assms by (auto simp: settle_def bind_r_Inr split: if_splits option.splits)
  define res where "res = assess q \<lparr>proceeds_in = amt p, cost_in = amt (positionCost n), cash_in = amt (activeCash n),
    existingFeeLiability = amt (feeLiability n), allowance_in = allowance b\<rparr>"
  have r: "\<exists>f x. unsigned (toString (fst res)) = Inr f \<and> unsigned (toString (snd res)) = Inr x \<and>
      f \<le> max 0 (amt p - amt (positionCost n)) \<and> x \<le> amt (activeCash n) + amt p - (amt (feeLiability n) + f) \<and>
      activeCash m = toString (amt (activeCash n) + amt p - x) \<and> idle m = toString (amt (idle n) + x) \<and>
      feeLiability m = toString (amt (feeLiability n) + f) \<and> positionValue m = ''0'' \<and> positionCost m = ''0'' \<and>
      orders m = [] \<and> passes m = passes n"
    using assms by (simp add: settle_def bind_r_Inr Let_def unsigned_amt q flip: res_def split: if_splits) auto
  show thesis
  proof (rule that[of q "fst res" "snd res"])
    show "pol = Some q" by (rule q)
  qed (use r in \<open>auto simp: unsigned_reads simp flip: res_def\<close>)
qed

lemma settle_idle: "settle n b pol p = Inr m \<Longrightarrow> amt (idle n) \<le> amt (idle m)"
  by (erule settle_effect) simp

lemma perform_executor:
  assumes "perform s n b av amount c pol = Inr n1" and "\<not> ownerAction (body c)"
  shows "deposits n1 = deposits n \<and> amt (idle n) \<le> amt (idle n1) \<and>
    (pendingWithdrawals n1 = pendingWithdrawals n \<or>
      (\<exists>w. body c = ConfirmWithdrawal w \<and> pendingWithdrawals n1 = AList.delete w (pendingWithdrawals n)))"
proof (cases "body c")
  case (SettlePosition p)
  then show ?thesis using assms settle_paid settle_idle settle_frame by (auto simp: perform_def)
qed (use assms in \<open>auto simp: ownerAction_def perform_cases split: if_splits option.splits\<close>)

text \<open>C38: the executor cannot touch what belongs to the owner outside the strategy. None of its commands
  changes the deposits, lowers idle cash, creates a withdrawal or alters the identities of the Vault; the
  only pending withdrawal it can resolve is the one it confirms.\<close>

theorem executor_confined:
  assumes "execute le s a c pol = Inr t" and "actor_role a = Executor"
  shows "deposits t = deposits s \<and> amt (idle s) \<le> amt (idle t) \<and> same_identity s t \<and>
    (pendingWithdrawals t = pendingWithdrawals s \<or>
      (\<exists>w. body c = ConfirmWithdrawal w \<and> pendingWithdrawals t = AList.delete w (pendingWithdrawals s)))"
proof -
  have own: "\<not> ownerAction (body c)" using execute_role[OF assms(1)] assms(2) by auto
  have same: "same_identity s t" using execute_recorded[OF assms(1)] by simp
  show ?thesis
    using assms(1)
  proof (rule execute_cases)
    assume "transition_vault s a c pol (command_fingerprint le a c pol) = Inr t"
    then show ?thesis
      by (rule transition_effect) (use own same in \<open>auto dest!: perform_executor\<close>)
  qed (use same in auto)
qed

text \<open>The cash a Vault holds, in whatever pocket: idle, active, reserved for an order, promised to a withdrawal.
  And what a command is entitled to move across the Vault's border.\<close>

definition vault_cash :: "vault \<Rightarrow> int" where
  "vault_cash s = amt (idle s) + amt (activeCash s) + held (orders s) + held (pendingWithdrawals s)"

definition owed_at :: "(string \<times> string) list \<Rightarrow> string \<Rightarrow> int" where
  "owed_at m k = (case map_of m k of None \<Rightarrow> 0 | Some v \<Rightarrow> amt v)"

fun cash_moved :: "vault \<Rightarrow> command_body \<Rightarrow> int" where
  "cash_moved s (Deposit x) = amt x"
| "cash_moved s (SettlePosition p) = amt p"
| "cash_moved s (ConfirmWithdrawal w) = - owed_at (pendingWithdrawals s) w"
| "cash_moved s CloseVault = - (amt (idle s) + amt (activeCash s))"
| "cash_moved s (FillBuy i) = - owed_at (orders s) i"
| "cash_moved s (PayFees x) = - amt x"
| "cash_moved s _ = 0"

fun deposited :: "command_body \<Rightarrow> int" where
  "deposited (Deposit x) = amt x"
| "deposited _ = 0"

fun fees_settled :: "command_body \<Rightarrow> int" where
  "fees_settled (PayFees x) = amt x"
| "fees_settled _ = 0"

fun cost_after :: "vault \<Rightarrow> command_body \<Rightarrow> int" where
  "cost_after s (FillBuy i) = amt (positionCost s) + owed_at (orders s) i"
| "cost_after s (SettlePosition p) = 0"
| "cost_after s _ = amt (positionCost s)"

lemma perform_cash:
  assumes r: "perform s n b av amount c pol = Inr n1"
    and d: "distinct (map fst (orders n))" "distinct (map fst (pendingWithdrawals n))"
    and a: "\<And>x. amount_of (body c) = Some x \<Longrightarrow> amount = amt x \<and> 0 < amount"
    and av: "av = amt (activeCash n) - amt (feeLiability n)" "amt (feeLiability n) \<le> amt (activeCash n)"
    and cid: "cmd_id c \<notin> fst ` set (pendingWithdrawals n)"
  shows "vault_cash n1 = vault_cash n + cash_moved n (body c)"
proof (cases "body c")
  case (SettlePosition p)
  then have st: "settle n b pol p = Inr n1" using r by (simp add: perform_def)
  have "orders n1 = orders n" "pendingWithdrawals n1 = pendingWithdrawals n" using settle_frame[OF st] by simp_all
  with st SettlePosition amounts_nonneg[of n] show ?thesis
    by (elim settle_effect) (simp add: vault_cash_def)
next
  case (RequestWithdrawal x)
  with a cid perform_request[OF r] amounts_nonneg[of n] show ?thesis by (simp add: vault_cash_def)
next
  case (ReserveBuy oid x)
  with a av perform_reserve[OF r] amounts_nonneg[of n] show ?thesis by (simp add: vault_cash_def)
next
  case (Deposit x)
  with a perform_deposit[OF r] amounts_nonneg[of n] show ?thesis by (simp add: vault_cash_def)
next
  case (Allocate x)
  with a perform_allocate[OF r] amounts_nonneg[of n] show ?thesis by (simp add: vault_cash_def)
next
  case (Deallocate x)
  with a av perform_deallocate[OF r] amounts_nonneg[of n] show ?thesis by (simp add: vault_cash_def)
next
  case (PayFees x)
  with a av perform_payFees[OF r] amounts_nonneg[of n] show ?thesis by (simp add: vault_cash_def)
next
  case CloseVault
  with perform_close[OF r] show ?thesis by (simp add: vault_cash_def)
next
  case (ConfirmWithdrawal w)
  with perform_confirm[OF r] d show ?thesis by (auto simp: vault_cash_def owed_at_def held_delete)
next
  case (CancelWithdrawal w)
  with perform_cancel[OF r] d amounts_nonneg[of n] show ?thesis by (auto simp: vault_cash_def held_delete amt_nonneg)
next
  case (CancelOrder w)
  with perform_cancelOrder[OF r] d amounts_nonneg[of n] show ?thesis by (auto simp: vault_cash_def held_delete amt_nonneg)
next
  case (FillBuy w)
  with perform_fill[OF r] d show ?thesis by (auto simp: vault_cash_def owed_at_def held_delete)
next
  case (MarkPosition v)
  with perform_mark[OF r] show ?thesis by (simp add: vault_cash_def)
qed (use perform_control[OF r] in \<open>auto simp: vault_cash_def\<close>)

lemma settle_fees: "settle n b pol p = Inr m \<Longrightarrow> feesPaid m = feesPaid n"
  by (auto simp: settle_def bind_r_Inr Let_def split: option.splits if_splits)

lemma perform_totals:
  assumes "perform s n b av amount c pol = Inr n1"
    and a: "\<And>x. amount_of (body c) = Some x \<Longrightarrow> amount = amt x \<and> 0 < amount"
  shows "amt (deposits n1) = amt (deposits n) + deposited (body c) \<and>
    amt (feesPaid n1) = amt (feesPaid n) + fees_settled (body c) \<and> amt (positionCost n1) = cost_after n (body c)"
proof (cases "body c")
  case (SettlePosition p)
  then have st: "settle n b pol p = Inr n1" using assms(1) by (simp add: perform_def)
  have "positionCost n1 = ''0''" using st by (rule settle_effect)
  with st SettlePosition show ?thesis by (simp add: settle_paid settle_fees)
next
  case (Deposit x)
  with a perform_deposit[OF assms(1)] show ?thesis by simp
next
  case (PayFees x)
  with a perform_payFees[OF assms(1)] show ?thesis by simp
next
  case (FillBuy i)
  with perform_fill[OF assms(1)] show ?thesis by (auto simp: owed_at_def amt_nonneg)
qed (use assms(1) in \<open>auto simp: perform_cases split: if_splits option.splits\<close>)

text \<open>C19: the Vault's cash moves only where a command says so, and by exactly the amount it names. For every
  accepted new command on a reachable Vault: the cash of the Vault (idle, active, reserved for orders, promised to
  withdrawals) grows by the amount of a deposit and by the proceeds of a settlement, shrinks by what a confirmed
  withdrawal promised, by the reservation of a filled order, by a fee payment and by all idle and active cash on
  closing, and every other command only moves it between pockets; the recorded deposits grow by exactly the
  deposited amount, the paid fees by exactly the fee payment, and the cost of the position by exactly the filled
  reservation, until a settlement ends it.\<close>

theorem cash_flow_exact:
  assumes "reaches vault_start (vault_step le) s"
    and "execute le s a c pol = Inr t" and "map_of (receipts s) (cmd_id c) = None"
  shows "vault_cash t = vault_cash s + cash_moved s (body c) \<and>
    amt (deposits t) = amt (deposits s) + deposited (body c) \<and>
    amt (feesPaid t) = amt (feesPaid s) + fees_settled (body c) \<and>
    amt (positionCost t) = cost_after s (body c)"
  using execute_new[OF assms(2,3)]
proof (rule transition_effect)
  fix r b amount n1
  let ?n = "case r of None \<Rightarrow> s | Some l \<Rightarrow> s\<lparr>passLock := Some l\<rparr>"
  assume am: "command_amount c = Inr amount"
    and pf: "perform s ?n b (amt (activeCash s) - amt (feeLiability s)) amount c pol = Inr n1"
    and t: "t = record_command n1 a c (command_fingerprint le a c pol) \<or>
      t = record_command (n1\<lparr>status := Stopped\<rparr>) a c (command_fingerprint le a c pol)"
  have inv: "vault_inv s" using vault_machine.reachable_inv[OF assms(1)] .
  have amount: "amount = amt x \<and> 0 < amount" if "amount_of (body c) = Some x" for x
    using am that by (auto simp: command_amount_def bind_r_Inr unsigned_amt split: if_splits)
  have covered: "amt (feeLiability s) \<le> amt (activeCash s)"
    using inv assertInvariant_sane[of s] by (auto simp: vault_inv_def vault_sane_def money_sane_def)
  have "cmd_id c \<notin> fst ` set (pendingWithdrawals s)"
    using inv assms(3) by (auto simp: vault_inv_def pending_recorded_def map_of_eq_None_iff)
  then have "vault_cash n1 = vault_cash ?n + cash_moved ?n (body c)"
    using inv covered by (intro perform_cash[OF pf _ _ amount]) (simp_all add: vault_inv_def objects_wf_def)
  moreover note perform_totals[OF pf amount]
  moreover have "vault_cash ?n = vault_cash s" "cash_moved ?n (body c) = cash_moved s (body c)"
    "cost_after ?n (body c) = cost_after s (body c)" "feesPaid ?n = feesPaid s"
    by (simp add: vault_cash_def, (cases "body c"; simp), (cases "body c"; simp), simp split: option.splits)
  ultimately show ?thesis using t by (auto simp: vault_cash_def)
qed

text \<open>Closing is final. Once the PASS lock is closed every accepted call is a replay and leaves the
  Vault as it is.\<close>

theorem closed_vault_final:
  assumes "execute le s a c pol = Inr t" and "passLock s = Some l" and "lock_closed l"
  shows "t = s"
  using assms(1)
proof (rule execute_cases)
  assume "transition_vault s a c pol (command_fingerprint le a c pol) = Inr t"
  then show ?thesis by (rule transition_effect) (use assms(2,3) applyPass_closed in blast)
qed

text \<open>The conversion from settlement capacity (6 decimals) to PASS units (18 decimals) is exact and
  is undone by the reverse conversion.\<close>

theorem pass_capacity_roundtrip:
  assumes "capacityToPassRaw x = Inr y"
  shows "passRawToCapacity y = Inr x"
proof -
  note v = capacityToPassRaw_value[OF assms]
  have "unsigned y = Inr (amt x * 1000000000000)" using v amt_nonneg[of x] by (simp add: unsigned_reads)
  then show ?thesis using v by (simp add: passRawToCapacity_def tdiv_exact amt_nonneg) (simp add: printed_def)
qed

section \<open>Settlement policies\<close>

text \<open>What \<open>settle\<close> expects of a policy: a fee within the realised profit and an excess within the net
  cash. A policy that keeps this contract is never refused; one that also caps the residue keeps the
  Vault within its allowance. The deployed policy does both.\<close>

locale settlement_policy =
  fixes q :: policy
  assumes scoped: "policy_scope q = ''TEST_ONLY'' \<and> idPattern (policy_id q)"
    and fee_bounds: "0 \<le> fst (assess q i) \<and> fst (assess q i) \<le> max 0 (proceeds_in i - cost_in i)"
    and excess_bounds: "0 \<le> cash_in i + proceeds_in i - (existingFeeLiability i + fst (assess q i)) \<Longrightarrow>
      0 \<le> allowance_in i \<Longrightarrow> 0 \<le> snd (assess q i) \<and>
      snd (assess q i) \<le> cash_in i + proceeds_in i - (existingFeeLiability i + fst (assess q i))"
begin

lemma settle_accepts:
  assumes "settle n b (Some q) p = Inl e" "0 \<le> allowance b" "amt (feeLiability n) \<le> amt (activeCash n)"
  shows "e \<in> {NO_POSITION, PENDING_ORDERS} \<or> range_error e"
proof -
  define i where "i = \<lparr>proceeds_in = amt p, cost_in = amt (positionCost n), cash_in = amt (activeCash n),
    existingFeeLiability = amt (feeLiability n), allowance_in = allowance b\<rparr>"
  define f where "f = fst (assess q i)"
  define x where "x = snd (assess q i)"
  have f: "0 \<le> f" "f \<le> max 0 (amt p - amt (positionCost n))" using fee_bounds[of i] by (simp_all add: f_def i_def)
  have net: "0 \<le> amt (activeCash n) + amt p - (amt (feeLiability n) + f)"
    using f assms(3) amt_nonneg[of p] amt_nonneg[of "positionCost n"] by linarith
  have x: "0 \<le> x" "x \<le> amt (activeCash n) + amt p - (amt (feeLiability n) + f)"
    using excess_bounds[of i] net assms(2) by (simp_all add: f_def x_def i_def)
  have "f \<le> (if amt (positionCost n) < amt p then amt p - amt (positionCost n) else 0)" using f by auto
  then show ?thesis
    using assms(1) scoped x f(1)
    by (auto simp: settle_def validId_def bind_r_Inl unsigned_amt range_error_def Let_def
          simp flip: i_def f_def x_def split: if_splits dest: unsigned_error signed_error)
qed

end

locale capping_policy = settlement_policy +
  assumes residual: "0 \<le> cash_in i + proceeds_in i - (existingFeeLiability i + fst (assess q i)) \<Longrightarrow>
      cash_in i + proceeds_in i - (existingFeeLiability i + fst (assess q i)) - snd (assess q i) \<le> allowance_in i"
begin

lemma settle_capped:
  assumes "settle n b (Some q) p = Inr m"
  shows "amt (activeCash m) - amt (feeLiability m) \<le> allowance b"
  using assms
proof (rule settle_effect)
  fix q' fee excess
  assume *: "Some q = Some q'" and
    a: "assess q' \<lparr>proceeds_in = amt p, cost_in = amt (positionCost n), cash_in = amt (activeCash n),
       existingFeeLiability = amt (feeLiability n), allowance_in = allowance b\<rparr> = (fee, excess)"
    and b: "0 \<le> fee" "0 \<le> excess" "excess \<le> amt (activeCash n) + amt p - (amt (feeLiability n) + fee)"
    and m: "activeCash m = toString (amt (activeCash n) + amt p - excess)"
      "feeLiability m = toString (amt (feeLiability n) + fee)"
  have "amt (activeCash m) = amt (activeCash n) + amt p - excess"
    using b amt_nonneg[of "feeLiability n"] by (simp add: m)
  moreover have "amt (feeLiability m) = amt (feeLiability n) + fee" using b by (simp add: m)
  ultimately show ?thesis using residual[of "\<lparr>proceeds_in = amt p, cost_in = amt (positionCost n),
      cash_in = amt (activeCash n), existingFeeLiability = amt (feeLiability n), allowance_in = allowance b\<rparr>"] * a b
    by simp
qed

end

interpretation zero_fee: capping_policy ZERO_FEE_FULL_SETTLEMENT
proof unfold_locales
  show "policy_scope ZERO_FEE_FULL_SETTLEMENT = ''TEST_ONLY'' \<and> idPattern (policy_id ZERO_FEE_FULL_SETTLEMENT)"
    by (simp add: ZERO_FEE_FULL_SETTLEMENT_def idPattern_def id_char_def is_alnum_def)
qed (auto simp: ZERO_FEE_FULL_SETTLEMENT_def Let_def)

text \<open>Net active value, as \<open>balances\<close> computes it.\<close>

definition active_net :: "vault \<Rightarrow> int" where
  "active_net s = amt (activeCash s) + held (orders s) + amt (positionValue s) - amt (feeLiability s)"

lemma balances_allowance:
  "balances s = Inr b \<Longrightarrow> allowance b = amt (passes s) * 1000000 \<and> activeNet b = active_net s"
  by (drule balances_ok) (auto simp: active_net_def)

text \<open>After a settlement under the deployed policy, the net active value is within the Vault's
  allowance and no position and no order is left: the whole excess went to idle cash.\<close>

theorem settlement_respects_allowance:
  assumes "execute le s a c (Some ZERO_FEE_FULL_SETTLEMENT) = Inr t" and "body c = SettlePosition p"
    and "map_of (receipts s) (cmd_id c) = None"
  shows "active_net t \<le> amt (passes t) * 1000000 \<and> positionCost t = ''0'' \<and> positionValue t = ''0'' \<and> orders t = []"
  using execute_new[OF assms(1,3)]
proof (rule transition_effect)
  fix r b amount n1
  assume b: "balances s = Inr b"
    and pf: "perform s (case r of None \<Rightarrow> s | Some l \<Rightarrow> s\<lparr>passLock := Some l\<rparr>) b
      (amt (activeCash s) - amt (feeLiability s)) amount c (Some ZERO_FEE_FULL_SETTLEMENT) = Inr n1"
    and t: "t = record_command n1 a c (command_fingerprint le a c (Some ZERO_FEE_FULL_SETTLEMENT)) \<or>
      t = record_command (n1\<lparr>status := Stopped\<rparr>) a c (command_fingerprint le a c (Some ZERO_FEE_FULL_SETTLEMENT))"
  have st: "settle (case r of None \<Rightarrow> s | Some l \<Rightarrow> s\<lparr>passLock := Some l\<rparr>) b (Some ZERO_FEE_FULL_SETTLEMENT) p = Inr n1"
    using pf assms(2) by (simp add: perform_def)
  have "orders n1 = [] \<and> positionValue n1 = ''0'' \<and> positionCost n1 = ''0'' \<and> passes n1 = passes s"
    using st by (rule settle_effect) simp
  then show ?thesis using zero_fee.settle_capped[OF st] balances_allowance[OF b] t
    by (auto simp: active_net_def held_def)
qed

text \<open>An accepted allocation raises the net active value by exactly its amount and never beyond the
  allowance of the Vault's PASS.\<close>

theorem allocation_respects_allowance:
  assumes "execute le s a c pol = Inr t" and "body c = Allocate x" and "map_of (receipts s) (cmd_id c) = None"
  shows "active_net t = active_net s + amt x \<and> active_net t \<le> amt (passes t) * 1000000"
  using execute_new[OF assms(1,3)]
proof (rule transition_effect)
  fix r b amount n1
  assume b: "balances s = Inr b" "command_amount c = Inr amount"
    and pf: "perform s (case r of None \<Rightarrow> s | Some l \<Rightarrow> s\<lparr>passLock := Some l\<rparr>) b
      (amt (activeCash s) - amt (feeLiability s)) amount c pol = Inr n1"
    and t: "t = record_command n1 a c (command_fingerprint le a c pol) \<or>
      t = record_command (n1\<lparr>status := Stopped\<rparr>) a c (command_fingerprint le a c pol)"
  have am: "amount = amt x" "0 < amount"
    using b(2) assms(2) by (auto simp: command_amount_def bind_r_Inr unsigned_amt split: if_splits)
  show ?thesis using perform_allocate[OF pf assms(2)] balances_allowance[OF b(1)] t am
    by (auto simp: active_net_def)
qed

section \<open>Worked examples\<close>

text \<open>A PASS-locked Vault, its first deposit, and Vaults restored in the middle of a strategy run; the
  witnesses apply the theorems to them.\<close>

definition demo_le :: "string \<Rightarrow> string \<Rightarrow> bool" where
  "demo_le x y \<longleftrightarrow> length x \<le> length y"

definition demo_owner :: actor where
  "demo_owner = \<lparr>actor_id = ''alice'', actor_role = Owner\<rparr>"

definition demo_executor :: actor where
  "demo_executor = \<lparr>actor_id = ''bot'', actor_role = Executor\<rparr>"

definition demo_command :: "command_body \<Rightarrow> command" where
  "demo_command b = \<lparr>cmd_id = ''c1'', expectedRevision = 0, body = b\<rparr>"

definition demo_lock :: pass_lock where
  "demo_lock = \<lparr>lock_version = 1, lock_principal = ''0'', lock_closed = False, lock_withdrawals = []\<rparr>"

definition demo_vault :: vault where
  "demo_vault = \<lparr>passLock = Some demo_lock, scope = ''TEST_ONLY'', schemaVersion = 1, vault_id = ''v'',
     ownerId = ''alice'', executorId = ''bot'', strategyId = ''ema'', passes = ''1'', revision = 0,
     status = Stopped, idle = ''0'', activeCash = ''0'', positionCost = ''0'', positionValue = ''0'',
     feeLiability = ''0'', deposits = ''0'', withdrawalsPaid = ''0'', realizedPnl = ''0'',
     feesAccrued = ''0'', feesPaid = ''0'', orders = [], pendingWithdrawals = [], receipts = [], events = []\<rparr>"

text \<open>A Vault without PASS locking that holds a position and a pending withdrawal.\<close>

definition demo_invested :: vault where
  "demo_invested = demo_vault\<lparr>passLock := None, passes := ''0'', status := Running, idle := ''400'', activeCash := ''300'',
     positionCost := ''200'', positionValue := ''250'', deposits := ''1000'', pendingWithdrawals := [(''w1'', ''100'')]\<rparr>"

definition demo_next :: "vault \<Rightarrow> actor \<Rightarrow> command_body \<Rightarrow> policy option \<Rightarrow> vault" where
  "demo_next s a b pol = (case execute demo_le s a (demo_command b) pol of Inl _ \<Rightarrow> s | Inr t \<Rightarrow> t)"

lemma demo_next_run:
  "\<not> isl (execute demo_le s a (demo_command b) pol) \<Longrightarrow> execute demo_le s a (demo_command b) pol = Inr (demo_next s a b pol)"
  by (auto simp: demo_next_def split: sum.splits)

lemma demo_start: "reaches vault_start (vault_step demo_le) demo_vault"
proof -
  have "createVault ''v'' ''alice'' ''bot'' ''ema'' ''1'' ''TEST_ONLY'' (Some demo_lock) = Inr demo_vault"
    by code_simp
  then have "vault_start demo_vault" unfolding vault_start_def by blast
  then show ?thesis by (rule reach_init)
qed

lemma demo_deposit: "execute demo_le demo_vault demo_owner (demo_command (Deposit ''3'')) None
    = Inr (demo_next demo_vault demo_owner (Deposit ''3'') None)"
  by (rule demo_next_run) code_simp

lemma demo_withdraw: "execute demo_le demo_invested demo_executor (demo_command (ConfirmWithdrawal ''w1'')) None
    = Inr (demo_next demo_invested demo_executor (ConfirmWithdrawal ''w1'') None)"
  by (rule demo_next_run) code_simp

lemma demo_settle: "execute demo_le demo_invested demo_executor (demo_command (SettlePosition ''2000'')) (Some ZERO_FEE_FULL_SETTLEMENT)
    = Inr (demo_next demo_invested demo_executor (SettlePosition ''2000'') (Some ZERO_FEE_FULL_SETTLEMENT))"
  by (rule demo_next_run) code_simp


lemma demo_reached: "reaches vault_start (vault_step demo_le) (demo_next demo_vault demo_owner (Deposit ''3'') None)"
  by (rule reach_step[OF demo_start, of "(demo_owner, demo_command (Deposit ''3''), None)"])
    (simp add: vault_step_def demo_deposit)

lemma demo_locked:
  "passLock (demo_next demo_vault demo_owner (Deposit ''3'') None) = Some (demo_lock\<lparr>lock_principal := ''3''\<rparr>)"
  by code_simp

lemma demo_refused: "execute demo_le demo_vault demo_owner (demo_command (Allocate ''7'')) None = Inl INSUFFICIENT_IDLE"
  by code_simp

lemma demo_allocate: "execute demo_le (demo_invested\<lparr>passes := ''1''\<rparr>) demo_owner (demo_command (Allocate ''40'')) None
    = Inr (demo_next (demo_invested\<lparr>passes := ''1''\<rparr>) demo_owner (Allocate ''40'') None)"
  by (rule demo_next_run) code_simp

text \<open>A Vault that was closed by its owner, with the closing as its only command.\<close>

definition demo_closed :: vault where
  "demo_closed = demo_next demo_vault demo_owner CloseVault None"

lemma demo_close: "execute demo_le demo_vault demo_owner (demo_command CloseVault) None = Inr demo_closed"
  unfolding demo_closed_def by (rule demo_next_run) code_simp

lemma demo_close_replay: "execute demo_le demo_closed demo_owner (demo_command CloseVault) None = Inr demo_closed"
  using execute_recorded[OF demo_close] execute_role[OF demo_close]
  by (auto simp: execute_def Let_def validId_def same_identity_def)

lemma demo_closed_lock:
  "passLock demo_closed = Some \<lparr>lock_version = 1, lock_principal = ''0'', lock_closed = True, lock_withdrawals = []\<rparr>"
  by code_simp

section \<open>Witnesses\<close>

theorem vault_books_never_break_witness:
  "reaches vault_start (vault_step demo_le) demo_vault \<and>
   INSUFFICIENT_IDLE \<notin> {UNSUPPORTED_SCOPE, INVALID_REVISION, EMPTY_RESERVATION, INVALID_PASS_LOCK,
     NEGATIVE_ACTIVE_EQUITY, UNFUNDED_FEE_LIABILITY, FEE_CONSERVATION, EQUITY_CONSERVATION, HISTORY_MISMATCH}"
  using vault_books_never_break[OF demo_start demo_refused] demo_start by blast

theorem pass_lock_bounds_witness:
  "principal_reserved (demo_lock\<lparr>lock_principal := ''3''\<rparr>) \<le> amt (lock_principal (demo_lock\<lparr>lock_principal := ''3''\<rparr>))"
  using pass_lock_bounds[OF demo_reached demo_locked] by blast

theorem execute_idempotent_witness:
  "\<exists>t. execute demo_le t demo_owner (demo_command (Deposit ''3'')) None = Inr t"
  using execute_idempotent[OF demo_deposit] by blast

theorem command_id_binds_witness:
  "let t = demo_next demo_invested demo_executor (ConfirmWithdrawal ''w1'') None;
       t' = run_inputs (vault_step demo_le) t
         [(demo_owner, \<lparr>cmd_id = ''c2'', expectedRevision = 1, body = Stop\<rparr>, None), (demo_owner, demo_command Start, None)] in
   revision t' = 2 \<and> execute demo_le t' demo_executor (demo_command (ConfirmWithdrawal ''w1'')) None = Inr t'"
proof -
  let ?t = "demo_next demo_invested demo_executor (ConfirmWithdrawal ''w1'') None"
  let ?t' = "run_inputs (vault_step demo_le) ?t
    [(demo_owner, \<lparr>cmd_id = ''c2'', expectedRevision = 1, body = Stop\<rparr>, None), (demo_owner, demo_command Start, None)]"
  have "revision ?t' = 2" by code_simp
  then show ?thesis using command_id_binds[OF demo_withdraw refl] unfolding Let_def by blast
qed

theorem cash_flow_exact_witness:
  "vault_cash (demo_next demo_vault demo_owner (Deposit ''3'') None) = 3 \<and>
   amt (deposits (demo_next demo_vault demo_owner (Deposit ''3'') None)) = 3"
proof -
  have "map_of (receipts demo_vault) (cmd_id (demo_command (Deposit ''3''))) = None" by (simp add: demo_vault_def)
  from cash_flow_exact[OF demo_start demo_deposit this] show ?thesis
    by (simp add: vault_cash_def demo_vault_def held_def demo_command_def amt_def digits_val_def digit_val_def)
qed

theorem payouts_exact_witness:
  "amt (withdrawalsPaid (demo_next demo_invested demo_executor (ConfirmWithdrawal ''w1'') None)) = 100"
proof -
  have "map_of (receipts demo_invested) (cmd_id (demo_command (ConfirmWithdrawal ''w1''))) = None"
    by (simp add: demo_invested_def demo_vault_def)
  then show ?thesis
    using payouts_exact[OF demo_withdraw]
    by (simp add: demo_invested_def demo_vault_def paid_out_def demo_command_def amt_def digits_val_def digit_val_def)
qed

theorem executor_confined_witness:
  "400 \<le> amt (idle (demo_next demo_invested demo_executor (SettlePosition ''2000'') (Some ZERO_FEE_FULL_SETTLEMENT)))"
  using executor_confined[OF demo_settle]
  by (simp add: demo_executor_def demo_invested_def amt_def digits_val_def digit_val_def)

theorem closed_vault_final_witness:
  "lock_closed (the (passLock demo_closed)) \<and>
   execute demo_le demo_closed demo_owner (demo_command CloseVault) None = Inr demo_closed"
  using closed_vault_final[OF demo_close_replay demo_closed_lock] demo_closed_lock demo_close_replay by simp

theorem pass_capacity_roundtrip_witness: "passRawToCapacity ''7000000000000'' = Inr ''7''"
  by (rule pass_capacity_roundtrip) code_simp

theorem settlement_respects_allowance_witness:
  "active_net (demo_next demo_invested demo_executor (SettlePosition ''2000'') (Some ZERO_FEE_FULL_SETTLEMENT))
     \<le> amt (passes (demo_next demo_invested demo_executor (SettlePosition ''2000'') (Some ZERO_FEE_FULL_SETTLEMENT))) * 1000000"
proof -
  have "map_of (receipts demo_invested) (cmd_id (demo_command (SettlePosition ''2000''))) = None"
    "body (demo_command (SettlePosition ''2000'')) = SettlePosition ''2000''"
    by (simp_all add: demo_invested_def demo_vault_def demo_command_def)
  then show ?thesis using settlement_respects_allowance[OF demo_settle] by blast
qed

theorem allocation_respects_allowance_witness:
  "active_net (demo_next (demo_invested\<lparr>passes := ''1''\<rparr>) demo_owner (Allocate ''40'') None) = 590"
proof -
  have "map_of (receipts (demo_invested\<lparr>passes := ''1''\<rparr>)) (cmd_id (demo_command (Allocate ''40''))) = None"
    "body (demo_command (Allocate ''40'')) = Allocate ''40''"
    by (simp_all add: demo_invested_def demo_vault_def demo_command_def)
  then have "active_net (demo_next (demo_invested\<lparr>passes := ''1''\<rparr>) demo_owner (Allocate ''40'') None)
    = active_net (demo_invested\<lparr>passes := ''1''\<rparr>) + amt ''40''"
    using allocation_respects_allowance[OF demo_allocate] by blast
  then show ?thesis
    by (simp add: active_net_def demo_invested_def demo_vault_def held_def amt_def digits_val_def digit_val_def)
qed

end
