(* ===== verification/Chain_Lifecycle.thy ===== *)
theory Chain_Lifecycle
  imports Decimal
begin

text \<open>
  \<^bold>\<open>packages/chain-adapter/src/types.ts, lifecycle.ts, policy.ts\<close>: checked hexadecimal values, the
  life cycle of an on-chain operation, and the bounds of the synchronisation policy. A transition is a
  value of the tagged union \<open>OperationTransition\<close>; an optional field is an \<open>option\<close>. Which strings
  \<open>Date.parse\<close> accepts is up to the JavaScript engine and is the parameter \<open>date_parses\<close>.
  Shown: an operation is a \<open>guarded_machine\<close>; a confirmed operation is canonical, mined successfully and
  reconciled; its identity and transaction hash never change; the final states are final.
\<close>

section \<open>Hexadecimal values\<close>

datatype chain_error =
    INVALID_ADDRESS | INVALID_TRANSACTION_HASH | INVALID_BLOCK_HASH | INVALID_HEX_DATA
  | INVALID_OPERATION_ID | INVALID_CHAIN_ID | INVALID_OPERATION_TRANSITION | INVALID_SUBMITTED_AT
  | INVALID_BLOCK_NUMBER | INVALID_TRANSACTION_INDEX | INVALID_CONFIRMATION_COUNT
  | RECONCILIATION_REQUIRED | INVALID_CONFIRMED_AT | REPLACEMENT_HASH_REQUIRED
  | REPLACEMENT_HASH_MUST_DIFFER | INVALID_CHAIN_SYNC_POLICY | INVALID_DEPLOYMENT_MANIFEST

definition lower_char :: "char \<Rightarrow> char" where
  "lower_char c = (let n = of_char c :: nat in
     if (65 \<le> n \<and> n \<le> 90) \<or> (192 \<le> n \<and> n \<le> 222 \<and> n \<noteq> 215) then char_of (n + 32) else c)"

definition toLowerCase :: "string \<Rightarrow> string" where
  "toLowerCase s = map lower_char s"

definition hex_digits :: "nat \<Rightarrow> string \<Rightarrow> bool" where
  "hex_digits k s \<longleftrightarrow> take 2 s = ''0x'' \<and> length s = k + 2 \<and> list_all is_hex (drop 2 s)"

definition checkedHex :: "string \<Rightarrow> nat \<Rightarrow> chain_error \<Rightarrow> chain_error + string" where
  "checkedHex value bytes code = (if hex_digits (bytes * 2) value then Inr value else Inl code)"

definition asAddress :: "string \<Rightarrow> chain_error + string" where
  "asAddress value = checkedHex value 20 INVALID_ADDRESS"

definition asTransactionHash :: "string \<Rightarrow> chain_error + string" where
  "asTransactionHash value = checkedHex value 32 INVALID_TRANSACTION_HASH"

definition asBlockHash :: "string \<Rightarrow> chain_error + string" where
  "asBlockHash value = checkedHex value 32 INVALID_BLOCK_HASH"

definition asHexData :: "string \<Rightarrow> chain_error + string" where
  "asHexData value =
     (if take 2 value = ''0x'' \<and> even (length value) \<and> list_all is_hex (drop 2 value)
      then Inr value else Inl INVALID_HEX_DATA)"

definition sameAddress :: "string \<Rightarrow> string \<Rightarrow> bool" where
  "sameAddress left right \<longleftrightarrow> toLowerCase left = toLowerCase right"

definition sameHash :: "string \<Rightarrow> string \<Rightarrow> bool" where
  "sameHash left right \<longleftrightarrow> toLowerCase left = toLowerCase right"

section \<open>Operations\<close>

datatype transaction_state =
    AWAITING_SIGNATURE | SUBMITTED | MINED | CONFIRMING | CONFIRMED | REJECTED | REVERTED
  | REPLACED | DROPPED | REORGED | RECONCILIATION_FAILED

datatype operation_error =
    WALLET_REJECTED | TRANSACTION_REVERTED | TRANSACTION_REPLACED | TRANSACTION_DROPPED
  | CHAIN_REORG | EVENT_EVIDENCE_MISMATCH | CONTRACT_STATE_MISMATCH | RPC_UNAVAILABLE

datatype receipt_status = Success | Reverted

record chain_operation =
  operationId :: string
  op_chainId :: int
  op_owner :: string
  op_target :: string
  op_calldata :: "string option"
  op_state :: transaction_state
  txHash :: "string option"
  submittedAt :: "string option"
  op_blockNumber :: "int option"
  op_blockHash :: "string option"
  transactionIndex :: "int option"
  receiptStatus :: "receipt_status option"
  confirmations :: int
  replacementTxHash :: "string option"
  op_canonical :: bool
  reconciled :: bool
  confirmedAt :: "string option"
  errorCode :: "operation_error option"

datatype operation_transition =
    To_SUBMITTED string string
  | To_REJECTED
  | To_MINED int string "int option"
  | To_REVERTED int string "int option"
  | To_CONFIRMING int "bool option"
  | To_CONFIRMED int string bool
  | To_REPLACED "string option"
  | To_DROPPED
  | To_REORGED
  | To_RECONCILIATION_FAILED operation_error

fun update_state :: "operation_transition \<Rightarrow> transaction_state" where
  "update_state (To_SUBMITTED _ _) = SUBMITTED"
| "update_state To_REJECTED = REJECTED"
| "update_state (To_MINED _ _ _) = MINED"
| "update_state (To_REVERTED _ _ _) = REVERTED"
| "update_state (To_CONFIRMING _ _) = CONFIRMING"
| "update_state (To_CONFIRMED _ _ _) = CONFIRMED"
| "update_state (To_REPLACED _) = REPLACED"
| "update_state To_DROPPED = DROPPED"
| "update_state To_REORGED = REORGED"
| "update_state (To_RECONCILIATION_FAILED _) = RECONCILIATION_FAILED"

fun transitions :: "transaction_state \<Rightarrow> transaction_state list" where
  "transitions AWAITING_SIGNATURE = [SUBMITTED, REJECTED]"
| "transitions SUBMITTED = [MINED, REVERTED, REPLACED, DROPPED]"
| "transitions MINED = [CONFIRMING, RECONCILIATION_FAILED, REORGED]"
| "transitions CONFIRMING = [CONFIRMING, CONFIRMED, RECONCILIATION_FAILED, REORGED]"
| "transitions CONFIRMED = [REORGED]"
| "transitions REJECTED = []"
| "transitions REVERTED = [REORGED]"
| "transitions REPLACED = []"
| "transitions DROPPED = []"
| "transitions REORGED = [MINED, REVERTED, REPLACED, DROPPED]"
| "transitions RECONCILIATION_FAILED = [CONFIRMING, REORGED]"

definition operation_id_char :: "char \<Rightarrow> bool" where
  "operation_id_char c \<longleftrightarrow> is_alnum c \<or> c = CHR ''_'' \<or> c = CHR ''-''"

definition validOperationId :: "string \<Rightarrow> bool" where
  "validOperationId s \<longleftrightarrow>
     (case s of [] \<Rightarrow> False | c # cs \<Rightarrow> is_alnum c \<and> list_all operation_id_char cs \<and> length cs \<le> 127)"

definition createOperation ::
  "string \<Rightarrow> int \<Rightarrow> string \<Rightarrow> string \<Rightarrow> string option \<Rightarrow> chain_error + chain_operation" where
  "createOperation oid chain owner target data =
     bind_r (check (validOperationId oid) INVALID_OPERATION_ID) (\<lambda>_.
     bind_r (check (isSafeInteger chain \<and> 0 < chain) INVALID_CHAIN_ID) (\<lambda>_.
     bind_r (case data of None \<Rightarrow> Inr None | Some d \<Rightarrow> bind_r (asHexData d) (\<lambda>h. Inr (Some h))) (\<lambda>cd.
     Inr \<lparr>operationId = oid, op_chainId = chain, op_owner = owner, op_target = target, op_calldata = cd,
       op_state = AWAITING_SIGNATURE, txHash = None, submittedAt = None, op_blockNumber = None,
       op_blockHash = None, transactionIndex = None, receiptStatus = None, confirmations = 0,
       replacementTxHash = None, op_canonical = False, reconciled = False, confirmedAt = None,
       errorCode = None\<rparr>)))"

definition valid_index :: "int option \<Rightarrow> bool" where
  "valid_index i \<longleftrightarrow> (case i of None \<Rightarrow> True | Some n \<Rightarrow> isSafeInteger n \<and> 0 \<le> n)"

definition transitionOperation ::
  "(string \<Rightarrow> bool) \<Rightarrow> chain_operation \<Rightarrow> operation_transition \<Rightarrow> chain_error + chain_operation" where
  "transitionOperation date_parses current update =
     bind_r (check (update_state update \<in> set (transitions (op_state current))) INVALID_OPERATION_TRANSITION) (\<lambda>_.
     let current' = current\<lparr>op_state := update_state update\<rparr> in
     case update of
       To_SUBMITTED hash time \<Rightarrow>
         bind_r (check (date_parses time) INVALID_SUBMITTED_AT) (\<lambda>_.
         Inr (current'\<lparr>txHash := Some hash, submittedAt := Some time, errorCode := None\<rparr>))
     | To_REJECTED \<Rightarrow>
         Inr (current'\<lparr>errorCode := Some WALLET_REJECTED, op_canonical := False, reconciled := False,
                       confirmedAt := None\<rparr>)
     | To_DROPPED \<Rightarrow>
         Inr (current'\<lparr>errorCode := Some TRANSACTION_DROPPED, op_canonical := False, reconciled := False,
                       confirmedAt := None\<rparr>)
     | To_MINED number hash index \<Rightarrow>
         bind_r (check (0 \<le> number) INVALID_BLOCK_NUMBER) (\<lambda>_.
         bind_r (check (valid_index index) INVALID_TRANSACTION_INDEX) (\<lambda>_.
         Inr (current'\<lparr>op_blockNumber := Some number, op_blockHash := Some hash, receiptStatus := Some Success,
                       transactionIndex := index, confirmations := 0, op_canonical := True,
                       reconciled := False, confirmedAt := None, errorCode := None\<rparr>)))
     | To_REVERTED number hash index \<Rightarrow>
         bind_r (check (0 \<le> number) INVALID_BLOCK_NUMBER) (\<lambda>_.
         bind_r (check (valid_index index) INVALID_TRANSACTION_INDEX) (\<lambda>_.
         Inr (current'\<lparr>op_blockNumber := Some number, op_blockHash := Some hash, receiptStatus := Some Reverted,
                       errorCode := Some TRANSACTION_REVERTED, transactionIndex := index, confirmations := 0,
                       op_canonical := True, reconciled := False, confirmedAt := None\<rparr>)))
     | To_CONFIRMING count recon \<Rightarrow>
         bind_r (check (isSafeInteger count \<and> confirmations current \<le> count) INVALID_CONFIRMATION_COUNT) (\<lambda>_.
         Inr (current'\<lparr>confirmations := count,
                       reconciled := (case recon of None \<Rightarrow> reconciled current | Some b \<Rightarrow> b),
                       confirmedAt := None, errorCode := None\<rparr>))
     | To_CONFIRMED count time recon \<Rightarrow>
         bind_r (check recon RECONCILIATION_REQUIRED) (\<lambda>_.
         bind_r (check (isSafeInteger count \<and> confirmations current \<le> count) INVALID_CONFIRMATION_COUNT) (\<lambda>_.
         bind_r (check (date_parses time) INVALID_CONFIRMED_AT) (\<lambda>_.
         Inr (current'\<lparr>confirmations := count, confirmedAt := Some time, reconciled := recon,
                       op_canonical := True, errorCode := None\<rparr>))))
     | To_REPLACED replacement \<Rightarrow>
         (case replacement of None \<Rightarrow> Inl REPLACEMENT_HASH_REQUIRED
          | Some hash \<Rightarrow>
              bind_r (check (hash \<noteq> []) REPLACEMENT_HASH_REQUIRED) (\<lambda>_.
              bind_r (check (map_option toLowerCase (txHash current) \<noteq> Some (toLowerCase hash))
                        REPLACEMENT_HASH_MUST_DIFFER) (\<lambda>_.
              Inr (current'\<lparr>replacementTxHash := Some hash, errorCode := Some TRANSACTION_REPLACED,
                            op_canonical := False, reconciled := False, confirmedAt := None\<rparr>))))
     | To_REORGED \<Rightarrow>
         Inr (current'\<lparr>errorCode := Some CHAIN_REORG, op_canonical := False, reconciled := False,
                       confirmedAt := None\<rparr>)
     | To_RECONCILIATION_FAILED code \<Rightarrow>
         Inr (current'\<lparr>errorCode := Some code, reconciled := False, confirmedAt := None\<rparr>))"

section \<open>Synchronisation policy\<close>

record chain_sync_policy =
  softReadyDepth :: int
  reorgSearchLimit :: int

definition boundedPolicy :: "int \<Rightarrow> chain_error + int" where
  "boundedPolicy value =
     (if \<not> isSafeInteger value \<or> value < 1 \<or> value > 10000 then Inl INVALID_CHAIN_SYNC_POLICY else Inr value)"

definition m3ChainSyncPolicy :: "int option \<Rightarrow> int option \<Rightarrow> chain_error + chain_sync_policy" where
  "m3ChainSyncPolicy soft limit =
     bind_r (boundedPolicy (case soft of None \<Rightarrow> 3 | Some v \<Rightarrow> v)) (\<lambda>s.
     bind_r (boundedPolicy (case limit of None \<Rightarrow> 128 | Some v \<Rightarrow> v)) (\<lambda>r.
     Inr \<lparr>softReadyDepth = s, reorgSearchLimit = r\<rparr>))"

section \<open>What an operation's fields mean\<close>

definition operation_start :: "chain_operation \<Rightarrow> bool" where
  "operation_start p \<longleftrightarrow> (\<exists>oid chain owner target data. createOperation oid chain owner target data = Inr p)"

definition in_block :: "transaction_state \<Rightarrow> bool" where
  "in_block st \<longleftrightarrow> st \<in> {MINED, CONFIRMING, CONFIRMED, RECONCILIATION_FAILED, REVERTED}"

definition operation_inv :: "chain_operation \<Rightarrow> bool" where
  "operation_inv p \<longleftrightarrow>
     (op_canonical p \<longleftrightarrow> in_block (op_state p)) \<and>
     (confirmedAt p \<noteq> None \<longleftrightarrow> op_state p = CONFIRMED) \<and>
     (reconciled p \<longrightarrow> op_state p \<in> {CONFIRMING, CONFIRMED}) \<and>
     (op_state p = CONFIRMED \<longrightarrow> reconciled p) \<and>
     (op_state p \<notin> {AWAITING_SIGNATURE, REJECTED} \<longleftrightarrow> txHash p \<noteq> None) \<and>
     (in_block (op_state p) \<longrightarrow>
        receiptStatus p = Some (if op_state p = REVERTED then Reverted else Success) \<and>
        (\<exists>n. op_blockNumber p = Some n \<and> 0 \<le> n) \<and> op_blockHash p \<noteq> None) \<and>
     (op_state p \<in> {AWAITING_SIGNATURE, SUBMITTED} \<longrightarrow> confirmations p = 0) \<and>
     isSafeInteger (confirmations p) \<and> 0 \<le> confirmations p"

definition same_operation :: "chain_operation \<Rightarrow> chain_operation \<Rightarrow> bool" where
  "same_operation p q \<longleftrightarrow> operationId q = operationId p \<and> op_chainId q = op_chainId p \<and>
     op_owner q = op_owner p \<and> op_target q = op_target p \<and> op_calldata q = op_calldata p"

lemmas transition_defs = transitionOperation_def Let_def

lemma lower_char_hex: "is_hex c \<Longrightarrow> is_hex (lower_char c) \<and> lower_char (lower_char c) = lower_char c"
proof -
  have "list_all (\<lambda>c. is_hex (lower_char c) \<and> lower_char (lower_char c) = lower_char c) ''0123456789abcdefABCDEF''"
    by code_simp
  then show "is_hex c \<Longrightarrow> ?thesis" by (simp only: list_all_iff is_hex_def)
qed

lemma toLowerCase_hex:
  "list_all is_hex s \<Longrightarrow> list_all is_hex (toLowerCase s) \<and> toLowerCase (toLowerCase s) = toLowerCase s"
  by (induction s) (auto simp: toLowerCase_def lower_char_hex)

lemma hex_digits_lower: "hex_digits k s \<Longrightarrow> hex_digits k (toLowerCase s) \<and> toLowerCase (toLowerCase s) = toLowerCase s"
proof -
  assume h: "hex_digits k s"
  then have s: "s = ''0x'' @ drop 2 s" by (metis append_take_drop_id hex_digits_def)
  have d: "list_all is_hex (drop 2 s)" using h by (simp add: hex_digits_def)
  have "toLowerCase s = ''0x'' @ toLowerCase (drop 2 s)"
    by (subst s) (simp add: toLowerCase_def lower_char_def Let_def)
  then show ?thesis using toLowerCase_hex[OF d] h
    by (simp add: hex_digits_def toLowerCase_def lower_char_def Let_def)
qed

lemma operation_start_inv: "operation_start p \<Longrightarrow> operation_inv p"
  by (auto simp: operation_start_def createOperation_def operation_inv_def bind_r_Inr in_block_def isSafeInteger_def
      MAX_SAFE_INTEGER_def split: if_splits)

lemma transition_allowed:
  "transitionOperation dp p u = Inr q \<Longrightarrow> op_state q = update_state u \<and> update_state u \<in> set (transitions (op_state p))"
  by (cases u) (auto simp: transition_defs bind_r_Inr split: if_splits option.splits)


text \<open>The states from which each state can be entered.\<close>

lemma transitions_into [simp]:
  "SUBMITTED \<in> set (transitions st) \<longleftrightarrow> st = AWAITING_SIGNATURE"
  "REJECTED \<in> set (transitions st) \<longleftrightarrow> st = AWAITING_SIGNATURE"
  "MINED \<in> set (transitions st) \<longleftrightarrow> st = SUBMITTED \<or> st = REORGED"
  "REVERTED \<in> set (transitions st) \<longleftrightarrow> st = SUBMITTED \<or> st = REORGED"
  "REPLACED \<in> set (transitions st) \<longleftrightarrow> st = SUBMITTED \<or> st = REORGED"
  "DROPPED \<in> set (transitions st) \<longleftrightarrow> st = SUBMITTED \<or> st = REORGED"
  "CONFIRMING \<in> set (transitions st) \<longleftrightarrow> st = MINED \<or> st = CONFIRMING \<or> st = RECONCILIATION_FAILED"
  "CONFIRMED \<in> set (transitions st) \<longleftrightarrow> st = CONFIRMING"
  "RECONCILIATION_FAILED \<in> set (transitions st) \<longleftrightarrow> st = MINED \<or> st = CONFIRMING"
  "REORGED \<in> set (transitions st) \<longleftrightarrow> in_block st"
  by (cases st; simp add: in_block_def)+

lemma in_block_simps [simp]:
  "in_block MINED" "in_block CONFIRMING" "in_block CONFIRMED" "in_block RECONCILIATION_FAILED" "in_block REVERTED"
  "\<not> in_block AWAITING_SIGNATURE" "\<not> in_block SUBMITTED" "\<not> in_block REJECTED" "\<not> in_block REPLACED"
  "\<not> in_block DROPPED" "\<not> in_block REORGED"
  by (simp_all add: in_block_def)

text \<open>The effect of each update, with the states it may be applied in.\<close>

lemma step_SUBMITTED:
  "transitionOperation dp p (To_SUBMITTED h t) = Inr q \<Longrightarrow> op_state p = AWAITING_SIGNATURE \<and>
    q = p\<lparr>op_state := SUBMITTED, txHash := Some h, submittedAt := Some t, errorCode := None\<rparr>"
  by (simp add: transition_defs split: if_splits)

lemma step_MINED:
  "transitionOperation dp p (To_MINED n h i) = Inr q \<Longrightarrow> (op_state p = SUBMITTED \<or> op_state p = REORGED) \<and> 0 \<le> n \<and>
    q = p\<lparr>op_state := MINED, op_blockNumber := Some n, op_blockHash := Some h, receiptStatus := Some Success,
      transactionIndex := i, confirmations := 0, op_canonical := True, reconciled := False, confirmedAt := None,
      errorCode := None\<rparr>"
  by (simp add: transition_defs split: if_splits)

lemma step_REVERTED:
  "transitionOperation dp p (To_REVERTED n h i) = Inr q \<Longrightarrow> (op_state p = SUBMITTED \<or> op_state p = REORGED) \<and> 0 \<le> n \<and>
    q = p\<lparr>op_state := REVERTED, op_blockNumber := Some n, op_blockHash := Some h, receiptStatus := Some Reverted,
      errorCode := Some TRANSACTION_REVERTED, transactionIndex := i, confirmations := 0, op_canonical := True,
      reconciled := False, confirmedAt := None\<rparr>"
  by (simp add: transition_defs split: if_splits)

lemma step_CONFIRMING:
  "transitionOperation dp p (To_CONFIRMING n r) = Inr q \<Longrightarrow>
    (op_state p = MINED \<or> op_state p = CONFIRMING \<or> op_state p = RECONCILIATION_FAILED) \<and>
    isSafeInteger n \<and> confirmations p \<le> n \<and>
    (\<exists>b. q = p\<lparr>op_state := CONFIRMING, confirmations := n, reconciled := b, confirmedAt := None, errorCode := None\<rparr>)"
  by (simp add: transition_defs split: if_splits) blast

lemma step_CONFIRMED:
  "transitionOperation dp p (To_CONFIRMED n t r) = Inr q \<Longrightarrow> op_state p = CONFIRMING \<and>
    isSafeInteger n \<and> confirmations p \<le> n \<and>
    q = p\<lparr>op_state := CONFIRMED, confirmations := n, confirmedAt := Some t, reconciled := True,
      op_canonical := True, errorCode := None\<rparr>"
  by (simp add: transition_defs split: if_splits)

lemma step_REPLACED:
  "transitionOperation dp p (To_REPLACED r) = Inr q \<Longrightarrow> (op_state p = SUBMITTED \<or> op_state p = REORGED) \<and>
    (\<exists>h. q = p\<lparr>op_state := REPLACED, replacementTxHash := Some h, errorCode := Some TRANSACTION_REPLACED,
      op_canonical := False, reconciled := False, confirmedAt := None\<rparr>)"
  by (cases r) (simp_all add: transition_defs split: if_splits, blast)

text \<open>The updates that only take the operation out of play.\<close>

lemma step_leave:
  "transitionOperation dp p u = Inr q \<Longrightarrow> u \<in> {To_REJECTED, To_DROPPED, To_REORGED} \<Longrightarrow>
    (u = To_REJECTED \<and> op_state p = AWAITING_SIGNATURE \<or>
     u = To_DROPPED \<and> (op_state p = SUBMITTED \<or> op_state p = REORGED) \<or>
     u = To_REORGED \<and> in_block (op_state p)) \<and>
    (\<exists>e. q = p\<lparr>op_state := update_state u, errorCode := Some e, op_canonical := False, reconciled := False,
      confirmedAt := None\<rparr>)"
  by (elim insertE emptyE) (simp_all add: transition_defs split: if_splits, blast+)

lemma step_FAILED:
  "transitionOperation dp p (To_RECONCILIATION_FAILED e) = Inr q \<Longrightarrow> (op_state p = MINED \<or> op_state p = CONFIRMING) \<and>
    q = p\<lparr>op_state := RECONCILIATION_FAILED, errorCode := Some e, reconciled := False, confirmedAt := None\<rparr>"
  by (simp add: transition_defs split: if_splits)

lemmas step_effects = step_SUBMITTED step_MINED step_REVERTED step_CONFIRMING step_CONFIRMED step_REPLACED
  step_leave step_FAILED

lemma isSafeInteger_0 [simp]: "isSafeInteger 0"
  by (simp add: isSafeInteger_def MAX_SAFE_INTEGER_def)

lemma in_block_not_new: "in_block st \<Longrightarrow> st \<noteq> AWAITING_SIGNATURE \<and> st \<noteq> REJECTED"
  by (auto simp: in_block_def)

lemma operation_step_inv:
  assumes i: "operation_inv p" and r: "transitionOperation dp p u = Inr q"
  shows "operation_inv q"
proof (cases u)
  case (To_SUBMITTED h t)
  then have "op_state p = AWAITING_SIGNATURE \<and>
    q = p\<lparr>op_state := SUBMITTED, txHash := Some h, submittedAt := Some t, errorCode := None\<rparr>"
    using r by (blast dest: step_SUBMITTED)
  then show ?thesis using i by (simp add: operation_inv_def)
next
  case (To_MINED n h k)
  then have q: "q = p\<lparr>op_state := MINED, op_blockNumber := Some n, op_blockHash := Some h, receiptStatus := Some Success,
      transactionIndex := k, confirmations := 0, op_canonical := True, reconciled := False, confirmedAt := None,
      errorCode := None\<rparr>" "0 \<le> n" and s: "op_state p = SUBMITTED \<or> op_state p = REORGED"
    using step_MINED r by auto
  show ?thesis using s i q(2) by (elim disjE) (simp_all add: operation_inv_def q(1))
next
  case (To_REVERTED n h k)
  then have q: "q = p\<lparr>op_state := REVERTED, op_blockNumber := Some n, op_blockHash := Some h, receiptStatus := Some Reverted,
      errorCode := Some TRANSACTION_REVERTED, transactionIndex := k, confirmations := 0, op_canonical := True,
      reconciled := False, confirmedAt := None\<rparr>" "0 \<le> n" and s: "op_state p = SUBMITTED \<or> op_state p = REORGED"
    using step_REVERTED r by auto
  show ?thesis using s i q(2) by (elim disjE) (simp_all add: operation_inv_def q(1))
next
  case (To_CONFIRMING n b)
  then obtain b where q: "q = p\<lparr>op_state := CONFIRMING, confirmations := n, reconciled := b, confirmedAt := None,
      errorCode := None\<rparr>" and n: "isSafeInteger n" "confirmations p \<le> n"
    and s: "op_state p = MINED \<or> op_state p = CONFIRMING \<or> op_state p = RECONCILIATION_FAILED"
    using step_CONFIRMING r by blast
  show ?thesis using s i n by (elim disjE) (simp_all add: operation_inv_def q)
next
  case (To_CONFIRMED n t b)
  then have "op_state p = CONFIRMING \<and> isSafeInteger n \<and> confirmations p \<le> n \<and>
    q = p\<lparr>op_state := CONFIRMED, confirmations := n, confirmedAt := Some t, reconciled := True,
      op_canonical := True, errorCode := None\<rparr>"
    using r by (blast dest: step_CONFIRMED)
  then show ?thesis using i by (simp add: operation_inv_def)
next
  case (To_REPLACED h)
  then obtain h where q: "q = p\<lparr>op_state := REPLACED, replacementTxHash := Some h, errorCode := Some TRANSACTION_REPLACED,
      op_canonical := False, reconciled := False, confirmedAt := None\<rparr>"
    and s: "op_state p = SUBMITTED \<or> op_state p = REORGED"
    using step_REPLACED r by blast
  show ?thesis using s i by (elim disjE) (simp_all add: operation_inv_def q)
next
  case (To_RECONCILIATION_FAILED e)
  then have q: "q = p\<lparr>op_state := RECONCILIATION_FAILED, errorCode := Some e, reconciled := False, confirmedAt := None\<rparr>"
    and s: "op_state p = MINED \<or> op_state p = CONFIRMING"
    using step_FAILED r by auto
  show ?thesis using s i by (elim disjE) (simp_all add: operation_inv_def q)
next
  case To_REJECTED
  then show ?thesis using step_leave[OF r] i by (auto simp: operation_inv_def)
next
  case To_DROPPED
  then obtain e where q: "q = p\<lparr>op_state := DROPPED, errorCode := Some e, op_canonical := False, reconciled := False,
      confirmedAt := None\<rparr>" and s: "op_state p = SUBMITTED \<or> op_state p = REORGED"
    using step_leave[OF r] by auto
  show ?thesis using s i by (elim disjE) (simp_all add: operation_inv_def q)
next
  case To_REORGED
  then obtain e where q: "q = p\<lparr>op_state := REORGED, errorCode := Some e, op_canonical := False, reconciled := False,
      confirmedAt := None\<rparr>" and s: "in_block (op_state p)"
    using step_leave[OF r] by auto
  show ?thesis using in_block_not_new[OF s] i by (simp add: operation_inv_def q)
qed

interpretation operation_machine:
  guarded_machine operation_start "transitionOperation dp" operation_inv for dp
  by unfold_locales (auto intro: operation_start_inv operation_step_inv)

text \<open>A confirmed operation has all its evidence. In every reachable operation, the state is CONFIRMED
  exactly when a confirmation time is recorded, and then the operation is reconciled, canonical, mined with
  a success receipt in a known block under a known transaction hash; and no operation outside a canonical
  block ever claims to be canonical or reconciled.\<close>

theorem confirmed_has_evidence:
  assumes "reaches operation_start (transitionOperation dp) p"
  shows "(confirmedAt p \<noteq> None \<longleftrightarrow> op_state p = CONFIRMED) \<and>
    (op_state p = CONFIRMED \<longrightarrow> reconciled p \<and> op_canonical p \<and> receiptStatus p = Some Success \<and>
       op_blockNumber p \<noteq> None \<and> op_blockHash p \<noteq> None \<and> txHash p \<noteq> None) \<and>
    (\<not> in_block (op_state p) \<longrightarrow> \<not> op_canonical p \<and> \<not> reconciled p)"
proof -
  have i: "operation_inv p" by (rule operation_machine.reachable_inv[OF assms])
  show ?thesis
  proof (cases "op_state p = CONFIRMED")
    case True
    then show ?thesis using i by (auto simp: operation_inv_def)
  next
    case False
    moreover have "\<not> in_block (op_state p) \<Longrightarrow> op_state p \<noteq> CONFIRMING" by auto
    ultimately show ?thesis using i by (simp add: operation_inv_def) blast
  qed
qed

text \<open>What an operation is never changes: no transition alters its id, chain, owner, target or
  calldata; its transaction hash is set once, by the submission; the confirmation count only grows while
  the operation stays in its block; and a rejected, replaced or dropped operation accepts no transition.\<close>

theorem operation_identity_stable:
  assumes "reaches operation_start (transitionOperation dp) p" and "transitionOperation dp p u = Inr q"
  shows "same_operation p q \<and> (txHash p \<noteq> None \<longrightarrow> txHash q = txHash p) \<and>
    (op_state q \<in> {CONFIRMING, CONFIRMED} \<longrightarrow> confirmations p \<le> confirmations q) \<and>
    op_state p \<notin> {REJECTED, REPLACED, DROPPED}"
proof -
  have fin: "op_state p \<notin> {REJECTED, REPLACED, DROPPED}" using transition_allowed[OF assms(2)] by auto
  have new: "op_state p = AWAITING_SIGNATURE \<Longrightarrow> txHash p = None"
    using operation_machine.reachable_inv[OF assms(1)] by (auto simp: operation_inv_def)
  have "same_operation p q \<and> (txHash p \<noteq> None \<longrightarrow> txHash q = txHash p) \<and>
    (op_state q \<in> {CONFIRMING, CONFIRMED} \<longrightarrow> confirmations p \<le> confirmations q)"
    using assms(2) new by (cases u) (auto simp: transition_defs same_operation_def split: if_splits option.splits)
  with fin show ?thesis by blast
qed

lemma m3ChainSyncPolicy_bounds:
  "m3ChainSyncPolicy soft limit = Inr p \<Longrightarrow>
     1 \<le> softReadyDepth p \<and> softReadyDepth p \<le> 10000 \<and> 1 \<le> reorgSearchLimit p \<and> reorgSearchLimit p \<le> 10000"
  by (auto simp: m3ChainSyncPolicy_def boundedPolicy_def bind_r_Inr split: if_splits)

section \<open>A confirmed operation\<close>

definition demo_hash :: string where
  "demo_hash = ''0x'' @ replicate 64 CHR ''a''"

definition demo_operation :: "nat \<Rightarrow> chain_operation" where
  "demo_operation k = run_inputs (transitionOperation (\<lambda>t. t \<noteq> []))
     (case createOperation ''op-1'' 46630 ''owner'' ''vault'' None of Inr p \<Rightarrow> p)
     (take k [To_SUBMITTED demo_hash ''2026-01-01T00:00:00.000Z'', To_MINED 7 demo_hash (Some 0),
       To_CONFIRMING 1 None, To_CONFIRMING 3 (Some True), To_CONFIRMED 4 ''2026-01-01T00:01:00.000Z'' True])"

lemma demo_operation_reaches: "reaches operation_start (transitionOperation (\<lambda>t. t \<noteq> [])) (demo_operation k)"
proof -
  obtain p where p: "createOperation ''op-1'' 46630 ''owner'' ''vault'' None = Inr p"
    by (simp add: createOperation_def validOperationId_def operation_id_char_def is_alnum_def isSafeInteger_def
        MAX_SAFE_INTEGER_def)
  then have "operation_start p" unfolding operation_start_def by blast
  then show ?thesis unfolding demo_operation_def p by (auto intro: operation_machine.run_reaches reach_init)
qed

theorem confirmed_has_evidence_witness:
  "op_state (demo_operation 5) = CONFIRMED \<and> reconciled (demo_operation 5) \<and> op_canonical (demo_operation 5)"
proof -
  have "op_state (demo_operation 5) = CONFIRMED" by code_simp
  then show ?thesis using confirmed_has_evidence[OF demo_operation_reaches[of 5]] by simp
qed

theorem operation_identity_stable_witness:
  "txHash (demo_operation 5) = txHash (demo_operation 4) \<and> txHash (demo_operation 4) \<noteq> None"
proof -
  have step: "transitionOperation (\<lambda>t. t \<noteq> []) (demo_operation 4) (To_CONFIRMED 4 ''2026-01-01T00:01:00.000Z'' True)
    = Inr (demo_operation 5)" by code_simp
  have "txHash (demo_operation 4) \<noteq> None" by code_simp
  then show ?thesis using operation_identity_stable[OF demo_operation_reaches step] by simp
qed

end
