(* ===== verification/Keccak.thy ===== *)
theory Keccak
  imports Chain_Lifecycle "HOL-Library.Word"
begin

text \<open>
  \<^bold>\<open>packages/chain-adapter/src/keccak.ts\<close>: Keccak-256 on unbounded integers masked to 64 bits, in the
  order of the source: \<open>rotateLeft\<close>, the permutation with its round steps, padding, absorption, output.
  The in-place loops over the 25 lanes are maps over the lane indices where an iteration reads only what
  earlier loops wrote, and \<open>mixed\<close> is filled by indexed updates as in the source.
  Shown: on 64-bit values the integer code is the permutation on machine words, with the machine's own
  rotation; the padding loses no information; a digest is always a well-formed block hash.
\<close>

unbundle bit_operations_syntax

definition mask64 :: int where
  "mask64 = push_bit 64 1 - 1"

definition rateBytes :: nat where
  "rateBytes = 136"

definition rotations :: "nat list" where
  "rotations = [0, 1, 62, 28, 27, 36, 44, 6, 55, 20, 3, 10, 43, 25, 39, 41, 45, 15, 21, 8, 18, 2, 61, 56, 14]"

definition roundConstants :: "int list" where
  "roundConstants =
    [0x0000000000000001, 0x0000000000008082, 0x800000000000808a, 0x8000000080008000, 0x000000000000808b,
     0x0000000080000001, 0x8000000080008081, 0x8000000000008009, 0x000000000000008a, 0x0000000000000088,
     0x0000000080008009, 0x000000008000000a, 0x000000008000808b, 0x800000000000008b, 0x8000000000008089,
     0x8000000000008003, 0x8000000000008002, 0x8000000000000080, 0x000000000000800a, 0x800000008000000a,
     0x8000000080008081, 0x8000000000008080, 0x0000000080000001, 0x8000000080008008]"

definition rotateLeft :: "int \<Rightarrow> nat \<Rightarrow> int" where
  "rotateLeft value count =
     (if count = 0 then value AND mask64
      else (push_bit count value OR drop_bit (64 - count) value) AND mask64)"

definition columns :: "int list \<Rightarrow> int list" where
  "columns state =
     map (\<lambda>x. state ! x XOR state ! (x + 5) XOR state ! (x + 10) XOR state ! (x + 15) XOR state ! (x + 20)) [0..<5]"

definition theta_step :: "int list \<Rightarrow> int list" where
  "theta_step state =
     (let c = columns state in
      map (\<lambda>i. let x = i mod 5 in
        state ! i XOR (c ! ((x + 4) mod 5) XOR rotateLeft (c ! ((x + 1) mod 5)) 1)) [0..<25])"

definition lane_pairs :: "(nat \<times> nat) list" where
  "lane_pairs = List.product [0..<5] [0..<5]"

definition mix_step :: "int list \<Rightarrow> int list" where
  "mix_step state =
     fold (\<lambda>(x, y) mixed. mixed[y + 5 * ((2 * x + 3 * y) mod 5)
             := rotateLeft (state ! (x + 5 * y)) (rotations ! (x + 5 * y))])
       lane_pairs (replicate 25 0)"

definition chi_step :: "int list \<Rightarrow> int list" where
  "chi_step mixed =
     map (\<lambda>i. let x = i mod 5; y = i div 5 in
       mixed ! (x + 5 * y) XOR
         (NOT (mixed ! ((x + 1) mod 5 + 5 * y)) AND mixed ! ((x + 2) mod 5 + 5 * y))) [0..<25]"

definition keccak_round :: "int \<Rightarrow> int list \<Rightarrow> int list" where
  "keccak_round constant state =
     (let s = chi_step (mix_step (theta_step state)) in s[0 := s ! 0 XOR constant])"

definition permutation :: "int list \<Rightarrow> int list" where
  "permutation state = fold keccak_round roundConstants state"

definition hex_value :: "char \<Rightarrow> int" where
  "hex_value c = (let n = of_char c :: int in
     if n < 58 then n - 48 else if n < 71 then n - 55 else n - 87)"

fun hex_bytes :: "string \<Rightarrow> int list" where
  "hex_bytes (a # b # rest) = (16 * hex_value a + hex_value b) # hex_bytes rest"
| "hex_bytes _ = []"

definition pad_message :: "int list \<Rightarrow> int list" where
  "pad_message bytes =
     (let n = length bytes;
          paddedLength = ((n + 1 + rateBytes - 1) div rateBytes) * rateBytes;
          padded = bytes @ 1 # replicate (paddedLength - n - 1) 0;
          last = length padded - 1
      in padded[last := padded ! last OR 0x80])"

definition lane_value :: "int list \<Rightarrow> nat \<Rightarrow> int" where
  "lane_value block lane =
     fold (\<lambda>byte value. value OR push_bit (byte * 8) (block ! (lane * 8 + byte))) [0..<8] 0"

definition absorb_block :: "int list \<Rightarrow> int list \<Rightarrow> int list" where
  "absorb_block block state =
     permutation (fold (\<lambda>lane s. s[lane := s ! lane XOR lane_value block lane]) [0..<rateBytes div 8] state)"

definition blocks_of :: "int list \<Rightarrow> int list list" where
  "blocks_of padded = map (\<lambda>k. take rateBytes (drop (k * rateBytes) padded)) [0..<length padded div rateBytes]"

definition absorb :: "int list \<Rightarrow> int list" where
  "absorb padded = fold absorb_block (blocks_of padded) (replicate 25 0)"

definition hex_digit_char :: "int \<Rightarrow> char" where
  "hex_digit_char d = (if d < 10 then digit_char d
     else if d = 10 then CHR ''a'' else if d = 11 then CHR ''b'' else if d = 12 then CHR ''c''
     else if d = 13 then CHR ''d'' else if d = 14 then CHR ''e'' else CHR ''f'')"

definition byte_hex :: "int \<Rightarrow> string" where
  "byte_hex b = [hex_digit_char (b div 16), hex_digit_char (b mod 16)]"

definition squeeze :: "int list \<Rightarrow> int list" where
  "squeeze state = map (\<lambda>index. drop_bit ((index mod 8) * 8) (state ! (index div 8)) AND 0xff) [0..<32]"

definition keccak256 :: "string \<Rightarrow> chain_error + string" where
  "keccak256 input =
     bind_r (asHexData input) (\<lambda>normalized.
     asBlockHash (''0x'' @ concat (map byte_hex (squeeze (absorb (pad_message (hex_bytes (drop 2 normalized))))))))"

section \<open>The permutation on machine words\<close>

type_synonym lane = "64 word"

text \<open>The reference: the same steps on 64-bit words, with the machine rotation.\<close>

definition columns_words :: "lane list \<Rightarrow> lane list" where
  "columns_words a =
     map (\<lambda>x. a ! x XOR a ! (x + 5) XOR a ! (x + 10) XOR a ! (x + 15) XOR a ! (x + 20)) [0..<5]"

definition theta_words :: "lane list \<Rightarrow> lane list" where
  "theta_words a =
     (let c = columns_words a in
      map (\<lambda>i. a ! i XOR (c ! ((i mod 5 + 4) mod 5) XOR word_rotl 1 (c ! ((i mod 5 + 1) mod 5)))) [0..<25])"

definition mix_words :: "lane list \<Rightarrow> lane list" where
  "mix_words a =
     fold (\<lambda>(x, y) m. m[y + 5 * ((2 * x + 3 * y) mod 5) := word_rotl (rotations ! (x + 5 * y)) (a ! (x + 5 * y))])
       lane_pairs (replicate 25 0)"

definition chi_words :: "lane list \<Rightarrow> lane list" where
  "chi_words m =
     map (\<lambda>i. m ! i XOR (NOT (m ! ((i mod 5 + 1) mod 5 + 5 * (i div 5))) AND m ! ((i mod 5 + 2) mod 5 + 5 * (i div 5)))) [0..<25]"

definition round_words :: "int \<Rightarrow> lane list \<Rightarrow> lane list" where
  "round_words c a = (let s = chi_words (mix_words (theta_words a)) in s[0 := s ! 0 XOR word_of_int c])"

definition permutation_words :: "lane list \<Rightarrow> lane list" where
  "permutation_words a = fold round_words roundConstants a"

lemma mask64_eq: "mask64 = mask 64"
  by (simp add: mask64_def mask_eq_exp_minus_1)

lemma rotateLeft_word:
  assumes "k < 64"
  shows "rotateLeft (uint (w :: lane)) k = uint (word_rotl k w)"
proof (rule bit_eqI)
  fix n
  consider "64 \<le> n" | "n < 64" "n < k" | "n < 64" "k \<le> n" by linarith
  then show "bit (rotateLeft (uint w) k) n \<longleftrightarrow> bit (uint (word_rotl k w)) n"
  proof cases
    case 1
    then show ?thesis by (simp add: rotateLeft_def mask64_eq bit_simps)
  next
    case 2
    define j where "j = 64 - k"
    have j: "k = 64 - j" "64 - k = j" "n + j < 64" "0 < j" using 2 assms by (auto simp: j_def)
    show ?thesis using 2 j by (simp add: rotateLeft_def mask64_eq bit_simps) (simp add: add.commute)
  next
    case 3
    then have "(n + (64 - k)) mod 64 = n - k" using assms by (simp add: mod_if)
    then show ?thesis using 3 assms by (auto simp: rotateLeft_def mask64_eq bit_simps dest: bit_imp_le_length)
  qed
qed


lemma uint_word_ops:
  "uint ((a :: lane) XOR b) = uint a XOR uint b"
  "uint (NOT (a :: lane) AND b) = NOT (uint a) AND uint b"
proof -
  show "uint (a XOR b) = uint a XOR uint b" by (rule bit_eqI) (auto simp: bit_simps)
  show "uint (NOT a AND b) = NOT (uint a) AND uint b"
    by (rule bit_eqI) (auto simp: bit_simps dest: bit_imp_le_length)
qed

lemma rotations_bounded: "i < 25 \<Longrightarrow> rotations ! i < 64"
proof -
  have "\<forall>r\<in>set rotations. r < 64" by (simp add: rotations_def)
  moreover assume "i < 25"
  then have "rotations ! i \<in> set rotations" by (intro nth_mem) (simp add: rotations_def)
  ultimately show ?thesis by blast
qed

lemma columns_words_uint: "length a = 25 \<Longrightarrow> columns (map uint a) = map uint (columns_words a)"
  by (simp add: columns_def columns_words_def uint_word_ops)

lemma theta_words_uint:
  assumes "length a = 25"
  shows "theta_step (map uint a) = map uint (theta_words a)"
proof -
  have l: "length (columns_words a) = 5" by (simp add: columns_words_def)
  have "rotateLeft (map uint (columns_words a) ! (k mod 5)) 1 = uint (word_rotl 1 (columns_words a ! (k mod 5)))" for k
    using l by (simp add: rotateLeft_word)
  then show ?thesis
    unfolding theta_step_def theta_words_def Let_def columns_words_uint[OF assms]
    using assms l by (simp add: uint_word_ops)
qed

lemma lane_index: "i < 25 \<Longrightarrow> k mod 5 + 5 * (i div 5) < 25" for i k :: nat
proof -
  assume "i < 25"
  then have "i div 5 \<le> 4" by linarith
  moreover have "k mod 5 \<le> 4" by (simp add: less_Suc_eq_le[symmetric])
  ultimately show ?thesis by linarith
qed

lemma lane_pairs_bounded: "(x, y) \<in> set lane_pairs \<Longrightarrow> x < 5 \<and> y < 5"
  by (auto simp: lane_pairs_def)

lemma mix_words_uint:
  assumes "length a = 25"
  shows "mix_step (map uint a) = map uint (mix_words a)"
proof -
  have sim: "set ps \<subseteq> {..<5} \<times> {..<5} \<Longrightarrow>
    fold (\<lambda>(x, y) mixed. mixed[y + 5 * ((2 * x + 3 * y) mod 5)
             := rotateLeft (map uint a ! (x + 5 * y)) (rotations ! (x + 5 * y))]) ps (map uint m)
    = map uint (fold (\<lambda>(x, y) m. m[y + 5 * ((2 * x + 3 * y) mod 5)
             := word_rotl (rotations ! (x + 5 * y)) (a ! (x + 5 * y))]) ps m)" for ps and m :: "lane list"
  proof (induction ps arbitrary: m)
    case (Cons p ps)
    obtain x y where p: "p = (x, y)" "x < 5" "y < 5" using Cons.prems by (cases p) auto
    then have "rotateLeft (map uint a ! (x + 5 * y)) (rotations ! (x + 5 * y))
        = uint (word_rotl (rotations ! (x + 5 * y)) (a ! (x + 5 * y)))"
      using assms by (simp add: rotateLeft_word rotations_bounded)
    then show ?case using Cons p by (simp flip: map_update)
  qed simp
  have "set lane_pairs \<subseteq> {..<5} \<times> {..<5}" using lane_pairs_bounded by auto
  from sim[OF this, of "replicate 25 0"] show ?thesis by (simp add: mix_step_def mix_words_def)
qed

lemma mix_words_length: "length (mix_words a) = 25"
proof -
  have "length (fold (\<lambda>(x, y) m. m[f x y := g x y]) ps m) = length m" for f :: "nat \<Rightarrow> nat \<Rightarrow> nat" and g :: "nat \<Rightarrow> nat \<Rightarrow> lane" and ps m
    by (induction ps arbitrary: m) auto
  then show ?thesis by (simp add: mix_words_def)
qed

lemma chi_words_uint: "length m = 25 \<Longrightarrow> chi_step (map uint m) = map uint (chi_words m)"
  by (auto simp: chi_step_def chi_words_def Let_def uint_word_ops lane_index)

lemma roundConstants_bounded: "c \<in> set roundConstants \<Longrightarrow> uint (word_of_int c :: lane) = c"
proof -
  have "list_all (\<lambda>c. take_bit 64 c = c) roundConstants" by (simp add: roundConstants_def take_bit_eq_mod)
  moreover assume "c \<in> set roundConstants"
  ultimately show ?thesis by (simp add: list_all_iff uint_word_of_int_eq)
qed

lemma step_words_length: "length (theta_words a) = 25" "length (chi_words a) = 25" "length (round_words c a) = 25"
  by (simp_all add: theta_words_def chi_words_def round_words_def Let_def)

lemma round_words_uint:
  "length a = 25 \<Longrightarrow> c \<in> set roundConstants \<Longrightarrow> keccak_round c (map uint a) = map uint (round_words c a)"
  by (simp add: keccak_round_def round_words_def Let_def theta_words_uint mix_words_uint chi_words_uint
      mix_words_length step_words_length map_update roundConstants_bounded uint_word_ops)

lemma fold_words_uint:
  "set cs \<subseteq> set roundConstants \<Longrightarrow> length a = 25 \<Longrightarrow>
     fold keccak_round cs (map uint a) = map uint (fold round_words cs a) \<and> length (fold round_words cs a) = 25"
proof (induction cs arbitrary: a)
  case (Cons c cs)
  then show ?case by (simp add: round_words_uint step_words_length)
qed simp

text \<open>C20: on 25 lanes of 64 bits, the permutation computed on masked unbounded integers is the permutation
  on 64-bit machine words with the machine rotation; in particular no lane ever leaves 64 bits.\<close>

theorem permutation_is_word_permutation:
  assumes "length a = 25"
  shows "permutation (map uint a) = map uint (permutation_words a)"
  using fold_words_uint[of roundConstants a] assms by (simp add: permutation_def permutation_words_def)

section \<open>Padding\<close>

definition unpad_message :: "int list \<Rightarrow> int list" where
  "unpad_message p = (if last p = 0x81 then butlast p
     else rev (tl (dropWhile (\<lambda>b. b = 0) (rev (butlast p)))))"

lemma pad_message_cases:
  obtains "pad_message b = b @ [0x81]" "rateBytes dvd length b + 1"
  | k where "pad_message b = b @ 1 # replicate k 0 @ [0x80]" "rateBytes dvd length b + 2 + k"
proof -
  define L where "L = ((length b + 1 + rateBytes - 1) div rateBytes) * rateBytes"
  have L: "length b + 1 \<le> L" "rateBytes dvd L" by (auto simp: L_def rateBytes_def) 
  define j where "j = L - length b - 1"
  have p: "pad_message b = (let q = b @ 1 # replicate j 0 in q[length q - 1 := q ! (length q - 1) OR 0x80])"
    unfolding pad_message_def Let_def L_def[symmetric] j_def ..
  show thesis
  proof (cases j)
    case 0
    then have "pad_message b = b @ [0x81]" by (simp add: p list_update_append nth_append)
    moreover have "L = length b + 1" using 0 L(1) by (simp add: j_def)
    ultimately show thesis using L(2) that(1) by simp
  next
    case (Suc k)
    have r: "replicate j (0::int) = replicate k 0 @ [0]" using Suc by (simp add: replicate_append_same)
    have "pad_message b = b @ 1 # replicate k 0 @ [0x80]"
      unfolding p r Let_def by (simp add: list_update_append nth_append nth_Cons')
    moreover have "L = length b + 2 + k" using Suc L(1) by (simp add: j_def)
    ultimately show thesis using L(2) that(2) by simp
  qed
qed

text \<open>Padding a message fills whole blocks and can be undone: no two messages have the same padded
  form, so the sponge absorbs all of the input.\<close>

theorem padding_roundtrip:
  "rateBytes dvd length (pad_message b) \<and> unpad_message (pad_message b) = b"
proof (rule pad_message_cases[of b])
  assume "pad_message b = b @ [0x81]" "rateBytes dvd length b + 1"
  then show ?thesis by (simp add: unpad_message_def)
next
  fix k assume p: "pad_message b = b @ 1 # replicate k 0 @ [0x80]" "rateBytes dvd length b + 2 + k"
  have "dropWhile (\<lambda>b. b = 0) (replicate k 0 @ 1 # rev b) = 1 # rev b" for b :: "int list" by (induction k) auto
  then show ?thesis using p by (simp add: unpad_message_def butlast_append)
qed

section \<open>Digests\<close>

lemma hex_digit_lower: "is_lower_hex (hex_digit_char d)"
  by (simp add: hex_digit_char_def digit_char_def is_lower_hex_def)

lemma lower_hex_is_hex: "is_lower_hex c \<Longrightarrow> is_hex c"
  by (auto simp: is_lower_hex_def is_hex_def)

lemma digest_text:
  "length (concat (map byte_hex bs)) = 2 * length bs \<and> list_all is_lower_hex (concat (map byte_hex bs))"
  by (induction bs) (auto simp: byte_hex_def hex_digit_lower)

text \<open>Hashing succeeds exactly on well-formed hexadecimal data, and a digest is always a 32-byte hash in
  lower case: the final check of the source never fails.\<close>

theorem keccak256_total:
  "(asHexData i = Inr i \<and> (\<exists>h. keccak256 i = Inr (''0x'' @ h) \<and> length h = 64 \<and> list_all is_lower_hex h)) \<or>
   (keccak256 i = Inl INVALID_HEX_DATA \<and> asHexData i = Inl INVALID_HEX_DATA)"
proof (cases "asHexData i")
  case (Inl e)
  then show ?thesis by (auto simp: keccak256_def asHexData_def split: if_splits)
next
  case (Inr d)
  define h where "h = concat (map byte_hex (squeeze (absorb (pad_message (hex_bytes (drop 2 i))))))"
  have "d = i" using Inr by (auto simp: asHexData_def split: if_splits)
  moreover have h: "length h = 64" "list_all is_lower_hex h"
    using digest_text[of "squeeze (absorb (pad_message (hex_bytes (drop 2 i))))"] by (simp_all add: h_def squeeze_def)
  moreover have "list_all is_hex h" using h(2) lower_hex_is_hex by (auto simp: list_all_iff)
  ultimately show ?thesis
    using Inr by (simp add: keccak256_def asBlockHash_def checkedHex_def hex_digits_def flip: h_def)
qed

theorem permutation_is_word_permutation_witness:
  "permutation (replicate 25 0) = map uint (permutation_words (replicate 25 0))"
  using permutation_is_word_permutation[of "replicate 25 0"] by simp

end
