(* ===== verification/Chain_Manifest.thy ===== *)
theory Chain_Manifest
  imports Chain_Lifecycle Canonical_Json
begin

text \<open>
  \<^bold>\<open>packages/chain-adapter/src/manifest.ts\<close>: validation of a deployment manifest against what the caller
  expects. The untrusted input is a \<open>json\<close> value; \<open>js_String\<close> is JavaScript's \<open>String(_)\<close>, which the
  source applies to the hexadecimal fields. SHA-256 (\<open>node:crypto\<close>) is the parameter \<open>sha256\<close>: the hex
  digest of a text. Every failure, also one raised inside the \<open>try\<close>, is INVALID_DEPLOYMENT_MANIFEST.
  Shown: the digest binds every field of an accepted manifest.
\<close>

record manifest_expectation =
  exp_environment :: string
  exp_chainId :: int
  exp_manifestDigest :: string
  exp_contractAddress :: "string option"

record manifest_document =
  man_schemaVersion :: int
  man_environment :: string
  man_chainId :: int
  contractName :: string
  contractType :: string
  contractAddress :: string
  deploymentBlock :: string
  abiVersion :: string
  abiHash :: string
  runtimeBytecodeHash :: string
  strategyPassAddress :: string
  strategyPassDeploymentBlock :: string
  strategyPassAbiHash :: string
  strategyPassRuntimeBytecodeHash :: string

text \<open>The validated manifest: the document with its two block numbers read as integers.\<close>

record deployment_manifest =
  document :: manifest_document
  deployment_block :: int
  pass_deployment_block :: int
  manifestDigest :: string

definition manifest_fields :: "string list" where
  "manifest_fields = [''schemaVersion'', ''environment'', ''chainId'', ''contractName'', ''contractType'',
     ''contractAddress'', ''deploymentBlock'', ''abiVersion'', ''abiHash'', ''manifestDigest'',
     ''runtimeBytecodeHash'', ''strategyPassAddress'', ''strategyPassDeploymentBlock'', ''strategyPassAbiHash'',
     ''strategyPassRuntimeBytecodeHash'']"

definition is_letter :: "char \<Rightarrow> bool" where
  "is_letter c \<longleftrightarrow> is_alnum c \<and> \<not> is_digit c"

definition identifier_char :: "char \<Rightarrow> bool" where
  "identifier_char c \<longleftrightarrow> is_alnum c \<or> c \<in> set ''._-''"

definition manifest_identifier :: "string \<Rightarrow> bool" where
  "manifest_identifier s \<longleftrightarrow>
     (case s of [] \<Rightarrow> False | c # cs \<Rightarrow> is_letter c \<and> list_all identifier_char cs \<and> length cs \<le> 63)"

definition canonicalDocument :: "manifest_document \<Rightarrow> json" where
  "canonicalDocument d = JObj
    [(''schemaVersion'', JNum (man_schemaVersion d)), (''environment'', JStr (man_environment d)),
     (''chainId'', JNum (man_chainId d)), (''contractName'', JStr (contractName d)),
     (''contractType'', JStr (contractType d)), (''contractAddress'', JStr (contractAddress d)),
     (''deploymentBlock'', JStr (deploymentBlock d)), (''abiVersion'', JStr (abiVersion d)),
     (''abiHash'', JStr (abiHash d)), (''runtimeBytecodeHash'', JStr (runtimeBytecodeHash d)),
     (''strategyPassAddress'', JStr (strategyPassAddress d)),
     (''strategyPassDeploymentBlock'', JStr (strategyPassDeploymentBlock d)),
     (''strategyPassAbiHash'', JStr (strategyPassAbiHash d)),
     (''strategyPassRuntimeBytecodeHash'', JStr (strategyPassRuntimeBytecodeHash d))]"

definition deploymentManifestDigest :: "(string \<Rightarrow> string) \<Rightarrow> manifest_document \<Rightarrow> chain_error + string" where
  "deploymentManifestDigest sha256 d = asBlockHash (''0x'' @ sha256 (print_json (canonicalDocument d)))"

text \<open>\<open>String(v)\<close>; a missing property reads as undefined.\<close>

fun js_String :: "json \<Rightarrow> string"
  and js_elements :: "json list \<Rightarrow> string" where
  "js_String JNull = ''null''"
| "js_String (JBool b) = (if b then ''true'' else ''false'')"
| "js_String (JNum n) = toString n"
| "js_String (JStr s) = s"
| "js_String (JArr vs) = js_elements vs"
| "js_String (JObj es) = ''[object Object]''"
| "js_elements [] = []"
| "js_elements (v # vs) = (if v = JNull then [] else js_String v) @ (if vs = [] then [] else '','' @ js_elements vs)"

definition field_String :: "(string \<times> json) list \<Rightarrow> string \<Rightarrow> string" where
  "field_String es k = (case map_of es k of None \<Rightarrow> ''undefined'' | Some v \<Rightarrow> js_String v)"

definition string_field :: "(string \<times> json) list \<Rightarrow> string \<Rightarrow> (string \<Rightarrow> bool) \<Rightarrow> bool" where
  "string_field es k ok = (case map_of es k of Some (JStr s) \<Rightarrow> ok s | _ \<Rightarrow> False)"

definition string_value :: "(string \<times> json) list \<Rightarrow> string \<Rightarrow> string" where
  "string_value es k = (case map_of es k of Some (JStr s) \<Rightarrow> s | _ \<Rightarrow> [])"

definition zero_address :: string where
  "zero_address = ''0x'' @ replicate 40 CHR ''0''"

definition or_invalid :: "chain_error + 'a \<Rightarrow> chain_error + 'a" where
  "or_invalid r = (case r of Inl _ \<Rightarrow> Inl INVALID_DEPLOYMENT_MANIFEST | Inr x \<Rightarrow> Inr x)"

definition manifest_shape :: "(string \<times> json) list \<Rightarrow> manifest_expectation \<Rightarrow> bool" where
  "manifest_shape value expected \<longleftrightarrow>
     length value = length manifest_fields \<and> list_all (\<lambda>e. fst e \<in> set manifest_fields) value \<and>
     map_of value ''schemaVersion'' = Some (JNum 1) \<and>
     map_of value ''environment'' = Some (JStr (exp_environment expected)) \<and>
     map_of value ''chainId'' = Some (JNum (exp_chainId expected)) \<and>
     string_field value ''contractName'' manifest_identifier \<and>
     string_field value ''contractType'' manifest_identifier \<and>
     string_field value ''abiVersion'' manifest_identifier \<and>
     string_field value ''deploymentBlock'' (\<lambda>s. canonical_dec (length s) s) \<and>
     string_field value ''strategyPassDeploymentBlock'' (\<lambda>s. canonical_dec (length s) s)"

definition validateDeploymentManifest ::
  "(string \<Rightarrow> string) \<Rightarrow> json \<Rightarrow> manifest_expectation \<Rightarrow> chain_error + deployment_manifest" where
  "validateDeploymentManifest sha256 input expected =
    (case input of JObj value \<Rightarrow>
       bind_r (check (manifest_shape value expected) INVALID_DEPLOYMENT_MANIFEST) (\<lambda>_.
       or_invalid (
         bind_r (asAddress (field_String value ''contractAddress'')) (\<lambda>address.
         bind_r (asBlockHash (field_String value ''manifestDigest'')) (\<lambda>digest.
         bind_r (asBlockHash (field_String value ''abiHash'')) (\<lambda>abi.
         bind_r (asBlockHash (field_String value ''runtimeBytecodeHash'')) (\<lambda>runtime.
         bind_r (asAddress (field_String value ''strategyPassAddress'')) (\<lambda>pass.
         bind_r (asBlockHash (field_String value ''strategyPassAbiHash'')) (\<lambda>passAbi.
         bind_r (asBlockHash (field_String value ''strategyPassRuntimeBytecodeHash'')) (\<lambda>passRuntime.
         bind_r (check (address \<noteq> zero_address) INVALID_DEPLOYMENT_MANIFEST) (\<lambda>_.
         bind_r (check (pass \<noteq> zero_address \<and> toLowerCase pass \<noteq> toLowerCase address)
                   INVALID_DEPLOYMENT_MANIFEST) (\<lambda>_.
         let d = \<lparr>man_schemaVersion = 1, man_environment = exp_environment expected,
               man_chainId = exp_chainId expected, contractName = string_value value ''contractName'',
               contractType = string_value value ''contractType'', contractAddress = address,
               deploymentBlock = string_value value ''deploymentBlock'',
               abiVersion = string_value value ''abiVersion'', abiHash = abi, runtimeBytecodeHash = runtime,
               strategyPassAddress = pass,
               strategyPassDeploymentBlock = string_value value ''strategyPassDeploymentBlock'',
               strategyPassAbiHash = passAbi, strategyPassRuntimeBytecodeHash = passRuntime\<rparr> in
         bind_r (deploymentManifestDigest sha256 d) (\<lambda>computed.
         bind_r (check (toLowerCase digest = toLowerCase computed) INVALID_DEPLOYMENT_MANIFEST) (\<lambda>_.
         bind_r (check (toLowerCase digest = toLowerCase (exp_manifestDigest expected))
                   INVALID_DEPLOYMENT_MANIFEST) (\<lambda>_.
         bind_r (check (case exp_contractAddress expected of None \<Rightarrow> True
                        | Some a \<Rightarrow> a \<noteq> [] \<longrightarrow> toLowerCase address = toLowerCase a)
                   INVALID_DEPLOYMENT_MANIFEST) (\<lambda>_.
         Inr \<lparr>document = d, deployment_block = digits_val (deploymentBlock d),
              pass_deployment_block = digits_val (strategyPassDeploymentBlock d),
              manifestDigest = digest\<rparr>)))))))))))))))
     | _ \<Rightarrow> Inl INVALID_DEPLOYMENT_MANIFEST)"

section \<open>What the digest binds\<close>

lemma canonicalDocument_inj: "canonicalDocument d = canonicalDocument e \<Longrightarrow> d = e"
  by (simp add: canonicalDocument_def)

lemma validate_digest:
  assumes "validateDeploymentManifest sha256 input expected = Inr m"
  shows "toLowerCase (exp_manifestDigest expected) = toLowerCase (''0x'' @ sha256 (print_json (canonicalDocument (document m))))
    \<and> deployment_block m = digits_val (deploymentBlock (document m))
    \<and> pass_deployment_block m = digits_val (strategyPassDeploymentBlock (document m))
    \<and> toLowerCase (manifestDigest m) = toLowerCase (exp_manifestDigest expected)
    \<and> contractAddress (document m) \<noteq> zero_address \<and> strategyPassAddress (document m) \<noteq> zero_address
    \<and> toLowerCase (strategyPassAddress (document m)) \<noteq> toLowerCase (contractAddress (document m))"
  using assms
  by (cases input)
    (auto simp: validateDeploymentManifest_def or_invalid_def Let_def bind_r_Inr deploymentManifestDigest_def
      asBlockHash_def checkedHex_def split: if_splits sum.splits)

lemma lower_hex_fixed: "list_all is_lower_hex s \<Longrightarrow> toLowerCase s = s"
proof -
  have "is_lower_hex c \<Longrightarrow> lower_char c = c" for c
    by (auto simp: is_lower_hex_def lower_char_def)
  then show "list_all is_lower_hex s \<Longrightarrow> toLowerCase s = s"
    by (induction s) (auto simp: toLowerCase_def)
qed

text \<open>The digest a caller pins fixes the whole manifest. Two inputs accepted under the same pinned
  digest, whatever else differs in how they were written, give the same document with the same block
  numbers, unless SHA-256 maps the texts of these two documents to the same value; and an accepted
  manifest names two different, non-zero contracts.\<close>

theorem manifest_digest_binds:
  assumes "validateDeploymentManifest sha256 v e = Inr m" and "validateDeploymentManifest sha256 w f = Inr n"
    and "toLowerCase (exp_manifestDigest e) = toLowerCase (exp_manifestDigest f)"
    and "\<And>t. list_all is_lower_hex (sha256 t)"
    and "sha256 (print_json (canonicalDocument (document m))) = sha256 (print_json (canonicalDocument (document n)))
           \<Longrightarrow> print_json (canonicalDocument (document m)) = print_json (canonicalDocument (document n))"
  shows "document m = document n \<and> deployment_block m = deployment_block n \<and>
    pass_deployment_block m = pass_deployment_block n \<and>
    toLowerCase (manifestDigest m) = toLowerCase (manifestDigest n) \<and>
    contractAddress (document m) \<noteq> zero_address \<and>
    toLowerCase (strategyPassAddress (document m)) \<noteq> toLowerCase (contractAddress (document m))"
proof -
  note m = validate_digest[OF assms(1)] and n = validate_digest[OF assms(2)]
  have low: "toLowerCase (''0x'' @ sha256 t) = toLowerCase ''0x'' @ sha256 t" for t
    using lower_hex_fixed[OF assms(4), of t] by (simp only: toLowerCase_def map_append)
  have "toLowerCase ''0x'' @ sha256 (print_json (canonicalDocument (document m)))
      = toLowerCase ''0x'' @ sha256 (print_json (canonicalDocument (document n)))"
    using conjunct1[OF m] conjunct1[OF n] assms(3) unfolding low by metis
  then have "sha256 (print_json (canonicalDocument (document m))) = sha256 (print_json (canonicalDocument (document n)))"
    by (simp only: same_append_eq)
  then have "document m = document n" using assms(5) canonicalDocument_inj by (simp only: print_json_inj)
  then show ?thesis using m n assms(3) by metis
qed

definition demo_sha256 :: "string \<Rightarrow> string" where
  "demo_sha256 t = replicate 63 CHR ''0'' @ [if length t < 1000 then CHR ''a'' else CHR ''b'']"

definition demo_expectation :: manifest_expectation where
  "demo_expectation = \<lparr>exp_environment = ''robinhood-chain-testnet'', exp_chainId = 46630,
     exp_manifestDigest = ''0x'' @ demo_sha256 [], exp_contractAddress = None\<rparr>"

definition demo_manifest_input :: json where
  "demo_manifest_input = JObj
    [(''schemaVersion'', JNum 1), (''environment'', JStr ''robinhood-chain-testnet''), (''chainId'', JNum 46630),
     (''contractName'', JStr ''Vault''), (''contractType'', JStr ''vault''),
     (''contractAddress'', JStr (''0x'' @ replicate 40 CHR ''1'')), (''deploymentBlock'', JStr ''12''),
     (''abiVersion'', JStr ''v1''), (''abiHash'', JStr (''0x'' @ replicate 64 CHR ''1'')),
     (''manifestDigest'', JStr (''0x'' @ demo_sha256 [])),
     (''runtimeBytecodeHash'', JStr (''0x'' @ replicate 64 CHR ''2'')),
     (''strategyPassAddress'', JStr (''0x'' @ replicate 40 CHR ''2'')), (''strategyPassDeploymentBlock'', JStr ''13''),
     (''strategyPassAbiHash'', JStr (''0x'' @ replicate 64 CHR ''3'')),
     (''strategyPassRuntimeBytecodeHash'', JStr (''0x'' @ replicate 64 CHR ''4''))]"

theorem manifest_digest_binds_witness:
  "\<exists>m. validateDeploymentManifest demo_sha256 demo_manifest_input demo_expectation = Inr m \<and>
     contractAddress (document m) \<noteq> zero_address"
proof -
  have ok: "\<not> isl (validateDeploymentManifest demo_sha256 demo_manifest_input demo_expectation)" by code_simp
  then obtain m where m: "validateDeploymentManifest demo_sha256 demo_manifest_input demo_expectation = Inr m"
    by (cases "validateDeploymentManifest demo_sha256 demo_manifest_input demo_expectation") auto
  have "list_all is_lower_hex (demo_sha256 t)" for t
    by (simp add: demo_sha256_def is_lower_hex_def list_all_iff)
  then show ?thesis using manifest_digest_binds[OF m m refl] m by blast
qed

end
