(* ===== verification/Launch_Math.thy ===== *)
theory Launch_Math
  imports Chain_Lifecycle
begin

text \<open>
  \<^bold>\<open>packages/launch-market/src/math.ts\<close> and the readers and constants of \<^bold>\<open>config.ts\<close>: mint cost,
  slippage floor, the constant-product quote and the three ETH conversions, on BigInt amounts. A JavaScript
  number argument is an integer here, so \<open>Number.isInteger\<close> holds.
  Shown: a quote is within the pool, never lowers the pool's product, and a round trip through the pool
  never profits; the ETH price of a purchase is the least amount that covers it; mint cost is exact.
\<close>

datatype launch_error =
    L_INVALID_ADDRESS | L_INVALID_AMOUNT | L_INVALID_HASH | WRONG_CHAIN | INVALID_STRATEGY_MANIFEST | DUPLICATE_PASS
  | MISSING_RUNTIME_HASH | MINT_PRECISION | SLIPPAGE_LIMIT | ZERO_OUTPUT | INSUFFICIENT_LIQUIDITY
  | INVALID_AMM_FEE | INVALID_CONVERSION
  | INVALID_EMAIL | INVALID_TIME | ACCOUNT_REQUIRED | VERIFIED_EMAIL_REQUIRED | IDENTITY_CHANGED
  | IDENTITY_EMAIL_CHANGED | CHALLENGE_LIMIT | WALLET_SIGNATURE_REQUIRED | WALLET_CHALLENGE_EXPIRED
  | WALLET_SIGNATURE_REJECTED | WALLET_ALREADY_BOUND | LINKED_WALLET_REQUIRED | WALLET_SESSION_LIMIT
  | INVALID_CLAIM_POLICY | CLAIM_RECONCILIATION_REQUIRED | CLAIM_IDENTITY_RECOVERY_REQUIRED | ALREADY_CLAIMED
  | CLAIM_RECOVERY_REQUIRED | CLAIM_BOUND_TO_ORIGINAL_WALLET | CLAIM_LIMIT_REACHED | QUOTE_NOT_FOUND
  | QUOTE_ALREADY_SUBMITTED | TRANSACTION_ALREADY_TRACKED | OPERATION_NOT_FOUND | INVALID_CLAIM_EVENT
  | SYNC_CONNECTION_LIMIT | INVALID_PROJECTION_LOCATION | INVALID_CLAIM_PROJECTION | OLD_MARKET_UPDATE
  | REORG_REQUIRED | FUTURE_CLAIM_EVENT | SQLITE_CONSTRAINT | RANGE_ERROR | L_SYNTAX_ERROR

section \<open>Constants and readers\<close>

definition LAUNCH_CHAIN_ID :: int where "LAUNCH_CHAIN_ID = 46630"
definition PASS_UNIT :: int where "PASS_UNIT = 10 ^ 18"
definition USDC_UNIT :: int where "USDC_UNIT = 10 ^ 6"
definition TOTAL_PASS :: int where "TOTAL_PASS = 1000000 * PASS_UNIT"
definition PUBLIC_PASS :: int where "PUBLIC_PASS = 500000 * PASS_UNIT"
definition LP_USDC :: int where "LP_USDC = 250000 * USDC_UNIT"
definition CLAIM_USDC :: int where "CLAIM_USDC = 1000 * USDC_UNIT"
definition MINT_PRICE_USDC :: int where "MINT_PRICE_USDC = 500000"

definition launch_address :: "(string \<Rightarrow> string option) \<Rightarrow> string \<Rightarrow> launch_error + string" where
  "launch_address getAddress value =
    (case getAddress value of None \<Rightarrow> Inl L_INVALID_ADDRESS
     | Some result \<Rightarrow> if result = ''0x'' @ replicate 40 CHR ''0'' then Inl L_INVALID_ADDRESS
                      else Inr (toLowerCase result))"

definition launch_uint :: "string \<Rightarrow> launch_error + int" where
  "launch_uint value =
     (if \<not> canonical_dec 77 value then Inl L_INVALID_AMOUNT
      else let parsed = digits_val value in
        if parsed \<ge> 2 ^ 256 then Inl L_INVALID_AMOUNT else Inr parsed)"

definition launch_hash :: "string \<Rightarrow> launch_error + string" where
  "launch_hash value = (if hex_digits 64 value then Inr (toLowerCase value) else Inl L_INVALID_HASH)"

section \<open>Market arithmetic\<close>

definition mintCost :: "int \<Rightarrow> launch_error + int" where
  "mintCost passAmount =
     bind_r (check (0 < passAmount) L_INVALID_AMOUNT) (\<lambda>_.
     bind_r (check (passAmount mod (tdiv PASS_UNIT MINT_PRICE_USDC) = 0) MINT_PRECISION) (\<lambda>_.
     Inr (tdiv (passAmount * MINT_PRICE_USDC) PASS_UNIT)))"

definition minOutput :: "int \<Rightarrow> int \<Rightarrow> launch_error + int" where
  "minOutput output slippageBps =
     bind_r (check (0 \<le> slippageBps \<and> slippageBps \<le> 500) SLIPPAGE_LIMIT) (\<lambda>_.
     let result = tdiv (output * (10000 - slippageBps)) 10000 in
     bind_r (check (result \<noteq> 0) ZERO_OUTPUT) (\<lambda>_. Inr result))"

record amm_quote =
  q_output :: int
  q_fee :: int
  q_priceImpactBps :: int

definition ammQuote :: "int \<Rightarrow> int \<Rightarrow> int \<Rightarrow> int \<Rightarrow> launch_error + amm_quote" where
  "ammQuote amountIn reserveIn reserveOut feeBps =
     bind_r (check (0 < amountIn \<and> 0 < reserveIn \<and> 0 < reserveOut) INSUFFICIENT_LIQUIDITY) (\<lambda>_.
     bind_r (check (0 \<le> feeBps \<and> feeBps \<le> 1000) INVALID_AMM_FEE) (\<lambda>_.
     let fee = ceilDiv (amountIn * feeBps) 10000;
         effective = amountIn - fee;
         output = tdiv (effective * reserveOut) (reserveIn + effective) in
     bind_r (check (output \<noteq> 0 \<and> output < reserveOut) ZERO_OUTPUT) (\<lambda>_.
     let spot = tdiv (amountIn * reserveOut) reserveIn;
         impact = (if spot = 0 then 0 else tdiv ((spot - output) * 10000) spot) in
     Inr \<lparr>q_output = output, q_fee = fee, q_priceImpactBps = impact\<rparr>)))"

definition ethForUsdc :: "int \<Rightarrow> int \<Rightarrow> int \<Rightarrow> launch_error + int" where
  "ethForUsdc usdc ethUsdPrice feeBps =
     bind_r (check (0 < usdc \<and> 0 < ethUsdPrice \<and> 0 \<le> feeBps \<and> feeBps \<le> 1000) INVALID_CONVERSION) (\<lambda>_.
     let gross = ceilDiv (usdc * 10000) (10000 - feeBps) in
     Inr (ceilDiv (gross * 10 ^ 18) ethUsdPrice))"

definition usdcForEth :: "int \<Rightarrow> int \<Rightarrow> int \<Rightarrow> launch_error + int" where
  "usdcForEth eth ethUsdPrice feeBps =
     bind_r (check (0 < eth \<and> 0 < ethUsdPrice \<and> 0 \<le> feeBps \<and> feeBps \<le> 1000) INVALID_CONVERSION) (\<lambda>_.
     let gross = tdiv (eth * ethUsdPrice) (10 ^ 18) in
     Inr (gross - ceilDiv (gross * feeBps) 10000))"

definition ethSaleOutput :: "int \<Rightarrow> int \<Rightarrow> int \<Rightarrow> launch_error + int" where
  "ethSaleOutput usdc ethUsdPrice feeBps =
     bind_r (check (0 < usdc \<and> 0 < ethUsdPrice \<and> 0 \<le> feeBps \<and> feeBps \<le> 1000) INVALID_CONVERSION) (\<lambda>_.
     let fee = ceilDiv (usdc * feeBps) 10000 in
     Inr (tdiv ((usdc - fee) * 10 ^ 18) ethUsdPrice))"

section \<open>The readers\<close>

interpretation launch_uint_reader: canonical_reader launch_uint "2 ^ 256 - 1"
proof unfold_locales
  fix s n
  show "launch_uint s = Inr n \<longleftrightarrow> s = toString n \<and> 0 \<le> n \<and> n \<le> 2 ^ 256 - 1"
  proof
    assume u: "launch_uint s = Inr n"
    then have "canonical_dec 77 s" by (auto simp: launch_uint_def split: if_splits)
    then obtain m where "0 \<le> m" "s = toString m" by (auto simp: canonical_dec_iff)
    with u show "s = toString n \<and> 0 \<le> n \<and> n \<le> 2 ^ 256 - 1"
      by (auto simp: launch_uint_def Let_def split: if_splits)
  next
    assume r: "s = toString n \<and> 0 \<le> n \<and> n \<le> 2 ^ 256 - 1"
    then have "n < 10 ^ Suc 77" by simp
    with r show "launch_uint s = Inr n" by (auto simp: launch_uint_def Let_def)
  qed
qed simp

section \<open>Properties of quotes\<close>

text \<open>What a successful quote computed.\<close>

lemma ammQuote_cases:
  assumes "ammQuote a ri ro f = Inr q"
  obtains e where "0 < a" "0 < ri" "0 < ro" "0 \<le> f" "f \<le> 1000" "e = a - q_fee q"
    "q_fee q = ceilDiv (a * f) 10000" "0 \<le> q_fee q" "0 < e"
    "q_output q = tdiv (e * ro) (ri + e)" "0 < q_output q" "q_output q < ro"
proof -
  define fee where "fee = ceilDiv (a * f) 10000"
  have g: "0 < a" "0 < ri" "0 < ro" "0 \<le> f" "f \<le> 1000" and q: "q_fee q = fee"
    "q_output q = tdiv ((a - fee) * ro) (ri + (a - fee))" "q_output q \<noteq> 0" "q_output q < ro"
    using assms by (auto simp: ammQuote_def Let_def fee_def split: if_splits)
  have af: "0 \<le> a * f" using g by simp
  have fee0: "0 \<le> fee" unfolding fee_def using af by (rule ceilDiv_nonneg) simp
  have "a * f \<le> a * 1000" using g by simp
  then have "fee \<le> a" using ceilDiv_le_iff[OF af, of 10000 a] g(1) by (simp add: fee_def)
  then have e0: "0 \<le> a - fee" by simp
  then have o0: "0 \<le> q_output q" unfolding q(2) using g by (intro tdiv_nonneg) auto
  moreover have "a - fee \<noteq> 0" using q(2,3) by (auto simp: tdiv_def)
  ultimately show thesis using that[of "a - fee"] g q e0 fee0 by (simp add: fee_def)
qed

text \<open>A quoted trade never drains or dilutes the pool. A successful quote pays out more than nothing
  and less than the reserve, charges a fee within the input, and with the effective input added and the
  output removed the product of the reserves does not fall.\<close>

theorem amm_product_never_falls:
  assumes "ammQuote a ri ro f = Inr q"
  shows "0 < q_output q \<and> q_output q < ro \<and> 0 \<le> q_fee q \<and> q_fee q < a \<and>
    ri * ro \<le> (ri + (a - q_fee q)) * (ro - q_output q)"
  using assms
proof (rule ammQuote_cases)
  fix e
  assume *: "0 < a" "0 < ri" "0 < ro" "e = a - q_fee q" "0 \<le> q_fee q" "0 < e"
    "q_output q = tdiv (e * ro) (ri + e)" "0 < q_output q" "q_output q < ro"
  have "q_output q * (ri + e) \<le> e * ro" unfolding *(7) using * by (intro tdiv_fits) auto
  then have "ri * ro \<le> (ri + e) * (ro - q_output q)" by (simp add: algebra_simps)
  then show ?thesis using * by simp
qed

text \<open>C15: there is no profit in going through the pool and back. After a trade, with the whole input in the
  pool, selling the output back at any permitted fee returns at most the original input.\<close>

theorem amm_round_trip_no_profit:
  assumes "ammQuote a ri ro f = Inr q" and "ammQuote (q_output q) (ro - q_output q) (ri + a) g = Inr p"
  shows "q_output p \<le> a"
  using assms(1)
proof (rule ammQuote_cases)
  fix e
  assume q: "0 < a" "0 < ri" "0 < ro" "e = a - q_fee q" "0 \<le> q_fee q" "0 < e"
    "q_output q = tdiv (e * ro) (ri + e)" "0 < q_output q" "q_output q < ro"
  show ?thesis
    using assms(2)
  proof (rule ammQuote_cases)
    fix d
    assume p: "d = q_output q - q_fee p" "0 \<le> q_fee p" "0 < d" "0 < ro - q_output q"
      "q_output p = tdiv (d * (ri + a)) (ro - q_output q + d)"
    have out: "q_output q * (ri + e) \<le> e * ro" unfolding q(7) using q by (intro tdiv_fits) auto
    have "q_output q * (ri + a) \<le> a * ro"
    proof -
      have a: "a = e + q_fee q" using q(4) by simp
      have "q_output q * (ri + a) = q_output q * (ri + e) + q_output q * q_fee q" unfolding a by (simp add: algebra_simps)
      also have "\<dots> \<le> e * ro + ro * q_fee q" using out q by (intro add_mono mult_right_mono) auto
      finally show ?thesis unfolding a by (simp add: algebra_simps)
    qed
    then have full: "q_output q * ri \<le> a * (ro - q_output q)" by (simp add: algebra_simps)
    have "q_output p * (ro - q_output q + d) \<le> d * (ri + a)" unfolding p(5) using p q by (intro tdiv_fits) auto
    also have "\<dots> \<le> a * (ro - q_output q + d)"
    proof -
      have "d * ri \<le> q_output q * ri" using p q by (intro mult_right_mono) auto
      then show ?thesis using full by (simp add: algebra_simps)
    qed
    finally show ?thesis using p(3,4) by (simp add: mult_le_cancel_right)
  qed
qed

lemma net_of_fee:
  assumes "0 \<le> g" "0 \<le> f" "f \<le> 1000"
  shows "u \<le> g - ceilDiv (g * f) 10000 \<longleftrightarrow> u * 10000 \<le> g * (10000 - f)"
proof -
  have "u \<le> g - ceilDiv (g * f) 10000 \<longleftrightarrow> ceilDiv (g * f) 10000 \<le> g - u" by linarith
  also have "\<dots> \<longleftrightarrow> g * f \<le> (g - u) * 10000" using assms by (intro ceilDiv_le_iff) auto
  finally show ?thesis by (simp add: algebra_simps)
qed

text \<open>C32: the ETH asked for a purchase is exactly enough. Converted at the same price and fee it yields at
  least the USDC that was wanted, and no smaller positive amount of ETH does.\<close>

theorem eth_price_is_least:
  assumes "ethForUsdc u p f = Inr e"
  shows "0 < e \<and> (\<exists>v. usdcForEth e p f = Inr v \<and> u \<le> v) \<and>
    (\<forall>d v. 0 < d \<longrightarrow> usdcForEth d p f = Inr v \<longrightarrow> u \<le> v \<longrightarrow> e \<le> d)"
proof -
  define g where "g = ceilDiv (u * 10000) (10000 - f)"
  have c: "0 < u" "0 < p" "0 \<le> f" "f \<le> 1000" and e: "e = ceilDiv (g * 10 ^ 18) p"
    using assms by (auto simp: ethForUsdc_def Let_def g_def split: if_splits)
  have gk: "g \<le> k \<longleftrightarrow> u * 10000 \<le> k * (10000 - f)" for k
    unfolding g_def using c by (intro ceilDiv_le_iff) auto
  have g0: "0 < g" using gk[of 0] c by force
  have ek: "e \<le> k \<longleftrightarrow> g * 10 ^ 18 \<le> k * p" for k
    unfolding e using c g0 by (intro ceilDiv_le_iff) auto
  have e0: "0 < e" using ek[of 0] g0 by (simp add: linorder_not_le[symmetric])
  have covers: "usdcForEth d p f = Inr v \<Longrightarrow> 0 < d \<Longrightarrow> u \<le> v \<longleftrightarrow> e \<le> d" for d v
  proof -
    assume v: "usdcForEth d p f = Inr v" and d: "0 < d"
    have dp: "0 \<le> d * p" using d c by simp
    have w: "v = tdiv (d * p) (10 ^ 18) - ceilDiv (tdiv (d * p) (10 ^ 18) * f) 10000"
      using v by (auto simp: usdcForEth_def Let_def split: if_splits)
    have "u \<le> v \<longleftrightarrow> u * 10000 \<le> tdiv (d * p) (10 ^ 18) * (10000 - f)"
      unfolding w using c dp by (intro net_of_fee tdiv_nonneg) auto
    also have "\<dots> \<longleftrightarrow> g \<le> tdiv (d * p) (10 ^ 18)" by (simp only: gk)
    also have "\<dots> \<longleftrightarrow> g * 10 ^ 18 \<le> d * p" using dp by (intro le_tdiv_iff) auto
    finally show ?thesis by (simp only: ek)
  qed
  moreover obtain v where "usdcForEth e p f = Inr v" using c e0 by (simp add: usdcForEth_def Let_def)
  ultimately show ?thesis using e0 by blast
qed

text \<open>Minting is priced without rounding: the cost in USDC units times the PASS unit is exactly the
  amount times the mint price, and an accepted amount costs something.\<close>

theorem mint_cost_exact:
  assumes "mintCost a = Inr c"
  shows "c * PASS_UNIT = a * MINT_PRICE_USDC \<and> 0 < c"
proof -
  have a: "0 < a" "a mod 2000000000000 = 0" and c: "c = tdiv (a * 500000) (10 ^ 18)"
    using assms by (auto simp: mintCost_def PASS_UNIT_def MINT_PRICE_USDC_def tdiv_pos split: if_splits)
  then obtain k where k: "a = 2000000000000 * k" by (auto simp: mod_eq_0_iff_dvd)
  have "c = k" unfolding c k using a k by (simp add: tdiv_pos)
  then show ?thesis using k a by (simp add: PASS_UNIT_def MINT_PRICE_USDC_def)
qed

lemma minOutput_floor:
  "minOutput out s = Inr m \<Longrightarrow> 0 \<le> out \<Longrightarrow> 0 < m \<and> m \<le> out \<and> m * 10000 \<le> out * (10000 - s)"
proof -
  assume "minOutput out s = Inr m" "0 \<le> out"
  then have s: "0 \<le> s" "s \<le> 500" "m = tdiv (out * (10000 - s)) 10000" "m \<noteq> 0"
    by (auto simp: minOutput_def Let_def split: if_splits)
  have p: "0 \<le> out * (10000 - s)" using s \<open>0 \<le> out\<close> by simp
  have "m * 10000 \<le> out * (10000 - s)" unfolding s(3) using p by (intro tdiv_fits) auto
  moreover have "0 \<le> m" unfolding s(3) using p by (intro tdiv_nonneg) auto
  moreover have "out * (10000 - s) \<le> out * 10000" using s \<open>0 \<le> out\<close> by (intro mult_left_mono) auto
  ultimately show ?thesis using s(4) by linarith
qed

section \<open>Witnesses\<close>

lemma demo_quote: "ammQuote 1000 100000 50000 30 = Inr \<lparr>q_output = 493, q_fee = 3, q_priceImpactBps = 140\<rparr>"
  by code_simp

lemma demo_quote_back:
  "ammQuote 493 (50000 - 493) (100000 + 1000) 30 = Inr \<lparr>q_output = 991, q_fee = 2, q_priceImpactBps = 139\<rparr>"
  by code_simp

theorem amm_product_never_falls_witness: "(100000 :: int) * 50000 \<le> (100000 + (1000 - 3)) * (50000 - 493)"
  using amm_product_never_falls[OF demo_quote] by simp

theorem amm_round_trip_no_profit_witness: "(991 :: int) \<le> 1000"
  using amm_round_trip_no_profit[OF demo_quote] demo_quote_back by simp

theorem eth_price_is_least_witness: "\<exists>v. usdcForEth 418054400000000 2500000000 30 = Inr v \<and> 1042000 \<le> v"
proof -
  have "ethForUsdc 1042000 2500000000 30 = Inr 418054400000000" by code_simp
  then show ?thesis using eth_price_is_least[of 1042000 2500000000 30] by simp
qed

theorem mint_cost_exact_witness: "3 * PASS_UNIT = 6000000000000 * MINT_PRICE_USDC"
proof -
  have "mintCost 6000000000000 = Inr 3" by code_simp
  then show ?thesis using mint_cost_exact[of 6000000000000 3] by simp
qed

end
