(* ===== verification/Launch_Types.thy ===== *)
theory Launch_Types
  imports Launch_Math
begin

text \<open>
  \<^bold>\<open>packages/launch-market/src/types.ts\<close> and the manifest part of \<^bold>\<open>config.ts\<close>: the data that the launch
  market stores, projects and serves, and the validation of its manifest. Amounts are the strings the
  program keeps; \<open>Record<StrategyId, T>\<close> is a pair of a TSLA and an AMZN value.
  Third-party functions (\<open>ethers\<close>, \<open>node:crypto\<close>, \<open>URL\<close>, \<open>Date\<close>) are the fields of \<open>market_env\<close>.
  Shown: an accepted manifest gives every contract a runtime hash and the two strategies different passes.
\<close>

datatype strategy_id = TSLA | AMZN

datatype settlement_asset = ETH | AF_USDC

datatype market_operation = MINT | BUY | SELL | CLAIM | CREATE_VAULT | DEPOSIT | WITHDRAW | CLOSE

datatype launch_state = PREPARING | MINTING | SOLD_OUT | LAUNCHED

datatype operation_state =
    Op_CREATED | Op_QUOTED | Op_AWAITING_WALLET | Op_SUBMITTED | Op_INCLUDED | Op_CONFIRMED_L2 | Op_COMPLETED
  | Op_EXPIRED | Op_REJECTED | Op_REVERTED | Op_DROPPED | Op_REORGED | Op_RECOVERY_REQUIRED

record chain_location =
  loc_chainId :: int
  loc_blockNumber :: string
  loc_blockHash :: string
  loc_transactionHash :: "string option"
  loc_logIndex :: "int option"
  loc_version :: string
  loc_confirmations :: int

record strategy_contracts =
  sc_pass :: string
  sc_launch :: "string option"
  sc_pool :: "string option"
  sc_lpRecipient :: string

record launch_manifest =
  lm_schemaVersion :: int
  lm_chainId :: int
  lm_deploymentBlock :: string
  lm_usdc :: string
  lm_claim :: string
  lm_conversionReserve :: string
  lm_router :: string
  lm_poolFactory :: string
  lm_vaultFactory :: "string option"
  lm_TSLA :: strategy_contracts
  lm_AMZN :: strategy_contracts
  lm_runtimeCodeHashes :: "(string \<times> string) list"

datatype deployment = NOT_DEPLOYED | CONFIGURED

record market_configuration =
  mc_mode :: string
  mc_deployment :: deployment
  mc_chainId :: int
  mc_confirmations :: int
  mc_manifest :: "launch_manifest option"

record strategy_market =
  sm_state :: launch_state
  sm_pass :: string
  totalSupplyRaw :: string
  publicSupplyRaw :: string
  soldRaw :: string
  remainingRaw :: string
  mintPriceUsdcRaw :: string
  lpPassRaw :: string
  lpUsdcRaw :: string
  sm_pool :: "string option"
  reservePassRaw :: string
  reserveUsdcRaw :: string
  ammFeeBps :: int

record claim_view =
  amountUsdcRaw :: string
  successfulClaims :: int
  maxClaims :: int
  remainingClaims :: int
  funded :: bool

record conversion_view =
  ethReserveRaw :: string
  usdcReserveRaw :: string
  ethBuyAvailable :: bool
  ethSellAvailable :: bool
  ethMintAvailable :: "bool option"
  conv_feeBps :: int
  conv_epoch :: string

record market_snapshot =
  snap_location :: chain_location
  snap_TSLA :: strategy_market
  snap_AMZN :: strategy_market
  snap_claim :: claim_view
  snap_conversion :: conversion_view

record market_transaction =
  tx_to :: string
  tx_data :: string
  tx_value :: string

record market_quote =
  quote_id :: string
  quote_owner :: string
  quote_strategyId :: strategy_id
  quote_operation :: market_operation
  quote_asset :: settlement_asset
  amountInRaw :: string
  estimatedOutRaw :: string
  minOutRaw :: string
  feeUsdcRaw :: string
  conversionFeeUsdcRaw :: string
  quote_priceImpactBps :: int
  quote_expiresAt :: int
  quote_reference :: "(string \<times> int) option"
  quote_transaction :: market_transaction
  quote_allowance :: "(string \<times> string \<times> string) option"
  gasEstimateRaw :: "string option"
  approvalRequired :: bool
  quote_location :: chain_location

record tracked_operation =
  op_id :: string
  op_quoteId :: string
  op_ownerAddress :: string
  op_transactionHash :: string
  op_status :: operation_state
  op_confirmations :: int
  op_location :: "chain_location option"
  op_error :: "string option"

record trusted_identity =
  ident_email :: string
  ident_subject :: string
  ident_emailVerified :: bool

datatype identity_kind = GOOGLE | WALLET_TEST

record market_account =
  ma_id :: string
  ma_accountKey :: string
  ma_email :: "string option"
  ma_identityKind :: identity_kind
  ma_wallet :: "string option"

datatype stream_type = SNAPSHOT | REORG | OPERATION

record stream_update =
  su_type :: stream_type
  su_location :: chain_location
  su_snapshot :: "market_snapshot option"
  su_operation :: "tracked_operation option"

text \<open>Third-party functions: \<open>getAddress\<close>, \<open>verifyMessage\<close>, \<open>id\<close> of ethers (\<open>None\<close> when they throw), the
  SHA-256 hex digest, the host of a URL and the ISO text of a time in seconds (\<open>None\<close> when out of range).\<close>

record market_env =
  env_getAddress :: "string \<Rightarrow> string option"
  env_verifyMessage :: "string \<Rightarrow> string \<Rightarrow> string option"
  env_id :: "string \<Rightarrow> string"
  env_sha256 :: "string \<Rightarrow> string"
  env_host :: "string \<Rightarrow> string"
  env_iso :: "int \<Rightarrow> string option"

section \<open>The manifest\<close>

definition opt_list :: "string option \<Rightarrow> string list" where
  "opt_list x = (case x of None \<Rightarrow> [] | Some a \<Rightarrow> if a = [] then [] else [a])"

definition strategy_addresses :: "strategy_contracts \<Rightarrow> string list" where
  "strategy_addresses s = sc_pass s # opt_list (sc_pool s) @ opt_list (sc_launch s)"

definition manifest_contracts :: "launch_manifest \<Rightarrow> string list" where
  "manifest_contracts m =
     [lm_usdc m, lm_claim m, lm_conversionReserve m, lm_router m, lm_poolFactory m]
     @ strategy_addresses (lm_TSLA m) @ strategy_addresses (lm_AMZN m) @ opt_list (lm_vaultFactory m)"

definition runtime_hash_ok :: "market_env \<Rightarrow> launch_manifest \<Rightarrow> string \<Rightarrow> launch_error + unit" where
  "runtime_hash_ok env m item =
     bind_r (launch_address (env_getAddress env) item) (\<lambda>a.
     case map_of (lm_runtimeCodeHashes m) a of
       None \<Rightarrow> Inl MISSING_RUNTIME_HASH
     | Some h \<Rightarrow> bind_r (check (h \<noteq> []) MISSING_RUNTIME_HASH) (\<lambda>_. bind_r (launch_hash h) (\<lambda>_. Inr ())))"

definition validateManifest :: "market_env \<Rightarrow> launch_manifest \<Rightarrow> launch_error + unit" where
  "validateManifest env m =
     bind_r (check (lm_schemaVersion m = 1 \<and> lm_chainId m = LAUNCH_CHAIN_ID) WRONG_CHAIN) (\<lambda>_.
     bind_r (launch_uint (lm_deploymentBlock m)) (\<lambda>_.
     bind_r (for_each (\<lambda>x. bind_r (launch_address (env_getAddress env) x) (\<lambda>_. Inr ()))
               (manifest_contracts m @ [sc_lpRecipient (lm_TSLA m), sc_lpRecipient (lm_AMZN m)])) (\<lambda>_.
     bind_r (check (opt_list (sc_launch (lm_TSLA m)) \<noteq> [] \<and> sc_launch (lm_AMZN m) = None \<and>
                    opt_list (sc_pool (lm_AMZN m)) \<noteq> []) INVALID_STRATEGY_MANIFEST) (\<lambda>_.
     bind_r (launch_address (env_getAddress env) (sc_pass (lm_TSLA m))) (\<lambda>t.
     bind_r (launch_address (env_getAddress env) (sc_pass (lm_AMZN m))) (\<lambda>a.
     bind_r (check (t \<noteq> a) DUPLICATE_PASS) (\<lambda>_.
     for_each (runtime_hash_ok env m) (manifest_contracts m))))))))"

definition configuration :: "market_env \<Rightarrow> launch_manifest option \<Rightarrow> launch_error + market_configuration" where
  "configuration env manifest =
     bind_r (case manifest of None \<Rightarrow> Inr () | Some m \<Rightarrow> validateManifest env m) (\<lambda>_.
     Inr \<lparr>mc_mode = ''ONCHAIN_TESTNET'',
          mc_deployment = (case manifest of None \<Rightarrow> NOT_DEPLOYED | Some _ \<Rightarrow> CONFIGURED),
          mc_chainId = (case manifest of None \<Rightarrow> LAUNCH_CHAIN_ID | Some m \<Rightarrow> lm_chainId m),
          mc_confirmations = 3, mc_manifest = manifest\<rparr>)"

lemma configuration_chain: "configuration env manifest = Inr c \<Longrightarrow> mc_chainId c = LAUNCH_CHAIN_ID"
  by (auto simp: configuration_def validateManifest_def bind_r_Inr split: option.splits if_splits)

lemma validated_contracts:
  assumes "validateManifest env m = Inr ()" and "item \<in> set (manifest_contracts m)"
  shows "\<exists>a h. launch_address (env_getAddress env) item = Inr a \<and>
    map_of (lm_runtimeCodeHashes m) a = Some h \<and> hex_digits 64 h"
proof -
  have "runtime_hash_ok env m item = Inr ()"
    using assms by (auto simp: validateManifest_def bind_r_Inr for_each_Inr split: if_splits)
  then show ?thesis
    by (auto simp: runtime_hash_ok_def bind_r_Inr launch_hash_def split: option.splits if_splits)
qed

end
