(* ===== verification/Launch_Store.thy ===== *)
theory Launch_Store
  imports Launch_Types
begin

text \<open>
  \<^bold>\<open>packages/launch-market/src/store.ts\<close>: accounts, wallet challenges and sessions, claim vouchers, quotes,
  tracked operations and observed claim events. A table is the list of its rows in insertion order;
  \<open>SELECT ... get()\<close> is the first matching row. PRIMARY KEY, UNIQUE and partial unique indexes are checked
  where a statement can violate them, with the error SQLITE_CONSTRAINT. A method returns the new store and
  either its value or the thrown code; \<open>atomic\<close> keeps the old store on a throw, and methods with two
  transactions keep the effect of the first. Random values are arguments. Payload columns hold the record
  they serialise.
\<close>

section \<open>Tables\<close>

record account_row =
  ar_id :: string
  ar_key :: string
  ar_email :: "string option"
  ar_subject :: "string option"
  ar_verified :: "int option"
  ar_wallet :: "string option"
  ar_created :: int
  ar_kind :: identity_kind

record challenge_row =
  ch_nonce :: string
  ch_account :: string
  ch_wallet :: string
  ch_message :: string
  ch_issued :: int
  ch_expires :: int
  ch_consumed :: bool

record session_row =
  se_token_hash :: string
  se_account :: string
  se_wallet :: string
  se_csrf :: string
  se_created :: int
  se_expires :: int

datatype voucher_status = V_ISSUED | V_SUBMITTED | V_INCLUDED | V_COMPLETED | V_REORGED | V_REVERTED | V_EXPIRED

record voucher_row =
  v_account :: string
  v_key :: string
  v_wallet :: string
  v_nonce :: string
  v_issued :: int
  v_deadline :: int
  v_status :: voucher_status
  v_tx :: "string option"

record quote_row =
  qr_id :: string
  qr_account :: string
  qr_owner :: string
  qr_payload :: market_quote
  qr_expires :: int

record operation_row =
  or_id :: string
  or_quote :: string
  or_owner :: string
  or_tx :: string
  or_payload :: tracked_operation

record event_row =
  ev_tx :: string
  ev_log :: int
  ev_block :: int
  ev_hash :: string
  ev_key :: string
  ev_wallet :: string
  ev_canonical :: bool

record snapshot_row =
  sr_block :: int
  sr_hash :: string
  sr_parent :: string
  sr_version :: int
  sr_payload :: market_snapshot
  sr_canonical :: bool

record market_store =
  st_origin :: string
  accounts :: "account_row list"
  wallet_challenges :: "challenge_row list"
  test_identities :: "(string \<times> string \<times> int) list"
  test_challenges :: "challenge_row list"
  test_sessions :: "session_row list"
  vouchers :: "voucher_row list"
  quotes :: "quote_row list"
  operation_rows :: "operation_row list"
  claim_events :: "event_row list"
  snapshots :: "snapshot_row list"
  projection_version :: int

type_synonym 'a store_result = "market_store \<times> (launch_error + 'a)"

definition empty_store :: "string \<Rightarrow> market_store" where
  "empty_store origin = \<lparr>st_origin = origin, accounts = [], wallet_challenges = [], test_identities = [],
     test_challenges = [], test_sessions = [], vouchers = [], quotes = [], operation_rows = [],
     claim_events = [], snapshots = [], projection_version = 0\<rparr>"

definition atomic :: "(market_store \<Rightarrow> launch_error + market_store \<times> 'a) \<Rightarrow> market_store \<Rightarrow> 'a store_result" where
  "atomic work s = (case work s of Inl e \<Rightarrow> (s, Inl e) | Inr (t, x) \<Rightarrow> (t, Inr x))"

definition reading :: "(market_store \<Rightarrow> launch_error + 'a) \<Rightarrow> market_store \<Rightarrow> 'a store_result" where
  "reading f s = (s, f s)"

section \<open>Reading\<close>

definition is_space :: "char \<Rightarrow> bool" where
  "is_space c \<longleftrightarrow> (let n = of_char c :: nat in (9 \<le> n \<and> n \<le> 13) \<or> n = 32 \<or> n = 160)"

definition trim :: "string \<Rightarrow> string" where
  "trim s = rev (dropWhile is_space (rev (dropWhile is_space s)))"

definition email_pattern :: "string \<Rightarrow> bool" where
  "email_pattern e \<longleftrightarrow>
     (let user = takeWhile (\<lambda>c. c \<noteq> CHR ''@'') e; domain = drop (length user + 1) e;
          word = (\<lambda>s. list_all (\<lambda>c. \<not> is_space c \<and> c \<noteq> CHR ''@'') s) in
      CHR ''@'' \<in> set e \<and> user \<noteq> [] \<and> word user \<and> word domain \<and>
      list_ex (\<lambda>i. domain ! i = CHR ''.'') [1..<length domain - 1])"

definition normalizeEmail :: "string \<Rightarrow> launch_error + string" where
  "normalizeEmail value =
    (let t = trim value; user = takeWhile (\<lambda>c. c \<noteq> CHR ''@'') t; rest = drop (length user + 1) t;
         email = (if length (filter (\<lambda>c. c = CHR ''@'') t) = 1 then user @ CHR ''@'' # toLowerCase rest else t) in
     bind_r (check (length email \<le> 254 \<and> email_pattern email) INVALID_EMAIL) (\<lambda>_. Inr email))"

definition seconds :: "int \<Rightarrow> launch_error + unit" where
  "seconds value = check (isSafeInteger value \<and> 0 \<le> value) INVALID_TIME"

definition account_view :: "account_row \<Rightarrow> market_account" where
  "account_view r = \<lparr>ma_id = ar_id r, ma_accountKey = ar_key r, ma_email = ar_email r,
     ma_identityKind = ar_kind r, ma_wallet = ar_wallet r\<rparr>"

definition account :: "market_store \<Rightarrow> string \<Rightarrow> launch_error + market_account" where
  "account s accountId =
    (case find (\<lambda>r. ar_id r = accountId) (accounts s) of
       None \<Rightarrow> Inl ACCOUNT_REQUIRED | Some r \<Rightarrow> Inr (account_view r))"

definition googleAccount :: "market_store \<Rightarrow> string \<Rightarrow> launch_error + market_account" where
  "googleAccount s accountId =
     bind_r (account s accountId) (\<lambda>a.
     bind_r (check (ma_email a \<noteq> None \<and> ma_identityKind a = GOOGLE) VERIFIED_EMAIL_REQUIRED) (\<lambda>_. Inr a))"

section \<open>Accounts\<close>

definition insert_account :: "account_row \<Rightarrow> market_store \<Rightarrow> launch_error + market_store" where
  "insert_account r s =
     bind_r (check (list_all (\<lambda>a. ar_id a \<noteq> ar_id r \<and> ar_key a \<noteq> ar_key r \<and>
         (ar_email r \<noteq> None \<longrightarrow> ar_email a \<noteq> ar_email r) \<and> (ar_subject r \<noteq> None \<longrightarrow> ar_subject a \<noteq> ar_subject r) \<and>
         (ar_wallet r \<noteq> None \<longrightarrow> ar_wallet a \<noteq> ar_wallet r)) (accounts s)) SQLITE_CONSTRAINT) (\<lambda>_.
     Inr (s\<lparr>accounts := accounts s @ [r]\<rparr>))"

definition trustedAccount ::
  "market_env \<Rightarrow> trusted_identity \<Rightarrow> int \<Rightarrow> string \<Rightarrow> market_store \<Rightarrow> market_account store_result" where
  "trustedAccount env identity now uuid s0 =
    (case bind_r (seconds now) (\<lambda>_.
          bind_r (check (ident_emailVerified identity \<and> ident_subject identity \<noteq> [] \<and>
                    length (ident_subject identity) \<le> 200) VERIFIED_EMAIL_REQUIRED) (\<lambda>_.
          normalizeEmail (ident_email identity))) of
       Inl e \<Rightarrow> (s0, Inl e)
     | Inr email \<Rightarrow> atomic (\<lambda>s.
         case find (\<lambda>r. ar_email r = Some email) (accounts s) of
           Some existing \<Rightarrow>
             bind_r (check (ar_subject existing = Some (ident_subject identity)) IDENTITY_CHANGED) (\<lambda>_.
             bind_r (googleAccount s (ar_id existing)) (\<lambda>a. Inr (s, a)))
         | None \<Rightarrow>
             bind_r (check (find (\<lambda>r. ar_subject r = Some (ident_subject identity)) (accounts s) = None)
                       IDENTITY_EMAIL_CHANGED) (\<lambda>_.
             bind_r (insert_account \<lparr>ar_id = uuid, ar_key = env_id env (''AlphaForge verified account:'' @ uuid),
                       ar_email = Some email, ar_subject = Some (ident_subject identity), ar_verified = Some now,
                       ar_wallet = None, ar_created = now, ar_kind = GOOGLE\<rparr> s) (\<lambda>t.
             bind_r (googleAccount t uuid) (\<lambda>a. Inr (t, a))))) s0)"

section \<open>Wallet challenges\<close>

definition nl :: string where
  "nl = [CHR 10]"

text \<open>The sign-in text; the two kinds of challenge differ in its first and third line.\<close>

definition challenge_text ::
  "market_env \<Rightarrow> string \<Rightarrow> string \<Rightarrow> string \<Rightarrow> string \<Rightarrow> string \<Rightarrow> int \<Rightarrow> int \<Rightarrow> launch_error + string" where
  "challenge_text env origin opening wallet purpose nonce now expiresAt =
    (case (env_iso env now, env_iso env expiresAt) of
       (Some issued, Some expiry) \<Rightarrow>
         Inr (env_host env origin @ opening @ nl @ wallet @ nl @ nl @ purpose @ nl @ nl @ ''URI: '' @ origin @ nl
              @ ''Version: 1'' @ nl @ ''Chain ID: '' @ toString LAUNCH_CHAIN_ID @ nl @ ''Nonce: '' @ nonce @ nl
              @ ''Issued At: '' @ issued @ nl @ ''Expiration Time: '' @ expiry)
     | _ \<Rightarrow> Inl RANGE_ERROR)"

definition link_purpose :: "string \<Rightarrow> string" where
  "link_purpose accountId = ''Link this wallet to AlphaForge account '' @ accountId
     @ ''. This signature authorizes account linkage only. It does not move assets or authorize transactions.''"

definition wallet_purpose :: string where
  "wallet_purpose = ''Sign in to AlphaForge wallet-only TESTNET mode. This proves control of this wallet; it does not verify an email, move assets or approve a transaction. Free credits are limited to one claim for this wallet and 100 claims in total.''"

definition add_challenge ::
  "(market_store \<Rightarrow> challenge_row list) \<Rightarrow> (challenge_row \<Rightarrow> bool) \<Rightarrow> challenge_row \<Rightarrow> market_store
     \<Rightarrow> launch_error + challenge_row list" where
  "add_challenge table stale row s =
    (let kept = filter (\<lambda>c. \<not> stale c) (table s) in
     bind_r (check (length kept < 1000) CHALLENGE_LIMIT) (\<lambda>_.
     bind_r (check (list_all (\<lambda>c. ch_nonce c \<noteq> ch_nonce row) kept) SQLITE_CONSTRAINT) (\<lambda>_. Inr (kept @ [row]))))"

definition bindingChallenge ::
  "market_env \<Rightarrow> string \<Rightarrow> string \<Rightarrow> int \<Rightarrow> string \<Rightarrow> market_store \<Rightarrow> (string \<times> string \<times> int) store_result" where
  "bindingChallenge env accountId walletInput now nonce s0 =
    (case bind_r (seconds now) (\<lambda>_.
          bind_r (account s0 accountId) (\<lambda>a.
          bind_r (launch_address (env_getAddress env) walletInput) (\<lambda>wallet.
          bind_r (check (ma_identityKind a = GOOGLE) VERIFIED_EMAIL_REQUIRED) (\<lambda>_.
          bind_r (challenge_text env (st_origin s0) '' wants you to link your Ethereum account:'' wallet
                    (link_purpose (ma_id a)) nonce now (now + 300)) (\<lambda>message.
          Inr (wallet, message)))))) of
       Inl e \<Rightarrow> (s0, Inl e)
     | Inr (wallet, message) \<Rightarrow> atomic (\<lambda>s.
         bind_r (add_challenge wallet_challenges (\<lambda>c. ch_account c = accountId \<or> ch_expires c \<le> now)
                   \<lparr>ch_nonce = nonce, ch_account = accountId, ch_wallet = wallet, ch_message = message,
                    ch_issued = now, ch_expires = now + 300, ch_consumed = False\<rparr> s) (\<lambda>cs.
         Inr (s\<lparr>wallet_challenges := cs\<rparr>, (nonce, message, now + 300)))) s0)"

definition nonce_ok :: "string \<Rightarrow> bool" where
  "nonce_ok nonce \<longleftrightarrow> length nonce = 48 \<and> list_all is_lower_hex nonce"

definition consume :: "string \<Rightarrow> challenge_row list \<Rightarrow> challenge_row list" where
  "consume nonce cs = map (\<lambda>c. if ch_nonce c = nonce then c\<lparr>ch_consumed := True\<rparr> else c) cs"

text \<open>The signer of a challenge, or the code WALLET_SIGNATURE_REJECTED.\<close>

definition challenge_signer :: "market_env \<Rightarrow> challenge_row \<Rightarrow> string \<Rightarrow> launch_error + string" where
  "challenge_signer env c signature =
    (case (case env_verifyMessage env (ch_message c) signature of None \<Rightarrow> Inl WALLET_SIGNATURE_REJECTED
           | Some a \<Rightarrow> launch_address (env_getAddress env) a) of
       Inl _ \<Rightarrow> Inl WALLET_SIGNATURE_REJECTED
     | Inr signer \<Rightarrow> bind_r (check (signer = ch_wallet c) WALLET_SIGNATURE_REJECTED) (\<lambda>_. Inr signer))"

definition has_history :: "string \<Rightarrow> market_store \<Rightarrow> bool" where
  "has_history accountId s \<longleftrightarrow>
     list_ex (\<lambda>v. v_account v = accountId) (vouchers s) \<or> list_ex (\<lambda>q. qr_account q = accountId) (quotes s) \<or>
     list_ex (\<lambda>e. se_account e = accountId) (test_sessions s) \<or>
     list_ex (\<lambda>i. fst (snd i) = accountId) (test_identities s) \<or>
     list_ex (\<lambda>e. list_ex (\<lambda>a. ar_id a = accountId \<and> ar_key a = ev_key e) (accounts s)) (claim_events s)"

definition bind_signer :: "string \<Rightarrow> string \<Rightarrow> market_store \<Rightarrow> launch_error + market_store \<times> market_account" where
  "bind_signer accountId signer s =
    (case find (\<lambda>r. ar_wallet r = Some signer \<and> ar_id r \<noteq> accountId) (accounts s) of
       Some other \<Rightarrow>
         (case find (\<lambda>r. ar_id r = accountId) (accounts s) of
            None \<Rightarrow> Inl WALLET_ALREADY_BOUND
          | Some current \<Rightarrow>
              bind_r (check (ar_kind other = WALLET_TEST \<and> ar_kind current = GOOGLE \<and> ar_wallet current = None \<and>
                        \<not> has_history accountId s) WALLET_ALREADY_BOUND) (\<lambda>_.
              let t = s\<lparr>wallet_challenges := filter (\<lambda>c. ch_account c \<noteq> accountId) (wallet_challenges s),
                        accounts := map (\<lambda>r. if ar_id r = ar_id other
                            then r\<lparr>ar_email := ar_email current, ar_subject := ar_subject current,
                                   ar_verified := ar_verified current, ar_kind := GOOGLE\<rparr> else r)
                          (filter (\<lambda>r. ar_id r \<noteq> accountId) (accounts s))\<rparr> in
              bind_r (account t (ar_id other)) (\<lambda>a. Inr (t, a))))
     | None \<Rightarrow>
         let t = s\<lparr>accounts := map (\<lambda>r. if ar_id r = accountId then r\<lparr>ar_wallet := Some signer\<rparr> else r) (accounts s)\<rparr> in
         bind_r (account t accountId) (\<lambda>a. Inr (t, a)))"

definition bindWallet ::
  "market_env \<Rightarrow> string \<Rightarrow> string \<Rightarrow> string \<Rightarrow> int \<Rightarrow> market_store \<Rightarrow> market_account store_result" where
  "bindWallet env accountId nonce signature now s0 =
    (case bind_r (seconds now) (\<lambda>_. check (nonce_ok nonce \<and> hex_digits 130 signature) WALLET_SIGNATURE_REQUIRED) of
       Inl e \<Rightarrow> (s0, Inl e)
     | Inr _ \<Rightarrow>
        (case atomic (\<lambda>s.
           case find (\<lambda>c. ch_nonce c = nonce \<and> ch_account c = accountId \<and> \<not> ch_consumed c \<and> ch_expires c > now)
                  (wallet_challenges s) of
             None \<Rightarrow> Inl WALLET_CHALLENGE_EXPIRED
           | Some c \<Rightarrow> Inr (s\<lparr>wallet_challenges := consume nonce (wallet_challenges s)\<rparr>, c)) s0 of
           (s1, Inl e) \<Rightarrow> (s1, Inl e)
         | (s1, Inr c) \<Rightarrow>
             (case challenge_signer env c signature of
                Inl e \<Rightarrow> (s1, Inl e)
              | Inr signer \<Rightarrow> atomic (bind_signer accountId signer) s1)))"

definition walletTestChallenge ::
  "market_env \<Rightarrow> string \<Rightarrow> int \<Rightarrow> string \<Rightarrow> market_store \<Rightarrow> (string \<times> string \<times> int) store_result" where
  "walletTestChallenge env walletInput now nonce s0 =
    (case bind_r (seconds now) (\<lambda>_.
          bind_r (launch_address (env_getAddress env) walletInput) (\<lambda>wallet.
          bind_r (challenge_text env (st_origin s0) '' wants you to sign in with your Ethereum account:'' wallet
                    wallet_purpose nonce now (now + 300)) (\<lambda>message.
          Inr (wallet, message)))) of
       Inl e \<Rightarrow> (s0, Inl e)
     | Inr (wallet, message) \<Rightarrow> atomic (\<lambda>s.
         bind_r (add_challenge test_challenges (\<lambda>c. ch_wallet c = wallet \<or> ch_expires c \<le> now)
                   \<lparr>ch_nonce = nonce, ch_account = [], ch_wallet = wallet, ch_message = message,
                    ch_issued = now, ch_expires = now + 300, ch_consumed = False\<rparr> s) (\<lambda>cs.
         Inr (s\<lparr>test_challenges := cs\<rparr>, (nonce, message, now + 300)))) s0)"


definition or_else :: "'a option \<Rightarrow> 'a option \<Rightarrow> 'a option" where
  "or_else x y = (case x of None \<Rightarrow> y | Some a \<Rightarrow> Some a)"

definition session_account :: "market_env \<Rightarrow> string \<Rightarrow> int \<Rightarrow> string \<Rightarrow> market_store \<Rightarrow> launch_error + market_store \<times> string" where
  "session_account env signer now uuid s =
    (case or_else (map_option (\<lambda>i. fst (snd i)) (find (\<lambda>i. fst i = signer) (test_identities s)))
            (or_else (map_option ar_id (find (\<lambda>r. ar_wallet r = Some signer) (accounts s)))
              (map_option v_account (find (\<lambda>v. v_wallet v = signer) (vouchers s)))) of
       Some accountId \<Rightarrow> Inr (s, accountId)
     | None \<Rightarrow>
         bind_r (insert_account \<lparr>ar_id = uuid, ar_key = env_id env (''AlphaForge wallet test account:'' @ uuid),
                   ar_email = None, ar_subject = None, ar_verified = None, ar_wallet = Some signer,
                   ar_created = now, ar_kind = WALLET_TEST\<rparr> s) (\<lambda>t. Inr (t, uuid)))"

record wallet_session =
  ws_account :: market_account
  ws_csrf :: string
  ws_expires :: int

definition open_session ::
  "market_env \<Rightarrow> string \<Rightarrow> int \<Rightarrow> string \<Rightarrow> string \<Rightarrow> string \<Rightarrow> market_store
     \<Rightarrow> launch_error + market_store \<times> wallet_session" where
  "open_session env signer now uuid token csrf s =
     bind_r (session_account env signer now uuid s) (\<lambda>(s1, accountId).
     bind_r (account s1 accountId) (\<lambda>a.
     bind_r (check (ma_wallet a = Some signer) LINKED_WALLET_REQUIRED) (\<lambda>_.
     let s2 = (if find (\<lambda>i. fst i = signer) (test_identities s1) = None
               then s1\<lparr>test_identities := test_identities s1 @ [(signer, accountId, now)]\<rparr> else s1);
         kept = filter (\<lambda>e. \<not> (se_account e = accountId \<or> se_expires e \<le> now)) (test_sessions s2) in
     bind_r (check (length kept < 10000) WALLET_SESSION_LIMIT) (\<lambda>_.
     bind_r (check (list_all (\<lambda>e. se_token_hash e \<noteq> env_sha256 env token) kept) SQLITE_CONSTRAINT) (\<lambda>_.
     Inr (s2\<lparr>test_sessions := kept @ [\<lparr>se_token_hash = env_sha256 env token, se_account = accountId,
            se_wallet = signer, se_csrf = csrf, se_created = now, se_expires = now + 3600\<rparr>]\<rparr>,
          \<lparr>ws_account = a, ws_csrf = csrf, ws_expires = now + 3600\<rparr>))))))"

definition openWalletTestSession ::
  "market_env \<Rightarrow> string \<Rightarrow> string \<Rightarrow> int \<Rightarrow> string \<Rightarrow> string \<Rightarrow> string \<Rightarrow> market_store \<Rightarrow> wallet_session store_result" where
  "openWalletTestSession env nonce signature now uuid token csrf s0 =
    (case bind_r (seconds now) (\<lambda>_. check (nonce_ok nonce \<and> hex_digits 130 signature) WALLET_SIGNATURE_REQUIRED) of
       Inl e \<Rightarrow> (s0, Inl e)
     | Inr _ \<Rightarrow>
        (case atomic (\<lambda>s.
           case find (\<lambda>c. ch_nonce c = nonce \<and> \<not> ch_consumed c \<and> ch_issued c \<le> now \<and> ch_expires c > now)
                  (test_challenges s) of
             None \<Rightarrow> Inl WALLET_CHALLENGE_EXPIRED
           | Some c \<Rightarrow> Inr (s\<lparr>test_challenges := consume nonce (test_challenges s)\<rparr>, c)) s0 of
           (s1, Inl e) \<Rightarrow> (s1, Inl e)
         | (s1, Inr c) \<Rightarrow>
             (case challenge_signer env c signature of
                Inl e \<Rightarrow> (s1, Inl e)
              | Inr signer \<Rightarrow> atomic (open_session env signer now uuid token csrf) s1)))"

definition token_ok :: "string \<Rightarrow> bool" where
  "token_ok t \<longleftrightarrow> length t = 43 \<and> list_all (\<lambda>c. is_alnum c \<or> c = CHR ''_'' \<or> c = CHR ''-'') t"

definition walletTestSession ::
  "market_env \<Rightarrow> string \<Rightarrow> string option \<Rightarrow> int \<Rightarrow> bool \<Rightarrow> market_store \<Rightarrow> launch_error + wallet_session option" where
  "walletTestSession env token csrf now mutation s =
     bind_r (seconds now) (\<lambda>_.
     if \<not> token_ok token then Inr None
     else case find (\<lambda>e. se_token_hash e = env_sha256 env token \<and> se_created e \<le> now \<and> se_expires e > now)
                 (test_sessions s) of
       None \<Rightarrow> Inr None
     | Some row \<Rightarrow>
         bind_r (if mutation
                 then (case csrf of None \<Rightarrow> Inr False
                       | Some c \<Rightarrow> if \<not> token_ok c then Inr False
                           else if length c \<noteq> length (se_csrf row) then Inl RANGE_ERROR
                           else Inr (c = se_csrf row))
                 else Inr True) (\<lambda>ok.
         if \<not> ok then Inr None
         else bind_r (account s (se_account row)) (\<lambda>a.
           if ma_wallet a \<noteq> Some (se_wallet row) then Inr None
           else Inr (Some \<lparr>ws_account = a, ws_csrf = se_csrf row, ws_expires = se_expires row\<rparr>))))"

definition requireWallet :: "market_env \<Rightarrow> string \<Rightarrow> string \<Rightarrow> market_store \<Rightarrow> launch_error + market_account" where
  "requireWallet env accountId owner s =
     bind_r (account s accountId) (\<lambda>a.
     bind_r (launch_address (env_getAddress env) owner) (\<lambda>w.
     bind_r (check (ma_wallet a = Some w) LINKED_WALLET_REQUIRED) (\<lambda>_. Inr a)))"

section \<open>Claim vouchers\<close>

definition voucher :: "market_store \<Rightarrow> string \<Rightarrow> voucher_row option" where
  "voucher s accountId = find (\<lambda>v. v_account v = accountId) (vouchers s)"

definition wallet_claimed :: "market_store \<Rightarrow> string \<Rightarrow> bool" where
  "wallet_claimed s wallet \<longleftrightarrow> list_ex (\<lambda>e. ev_wallet e = wallet \<and> ev_canonical e) (claim_events s)"

definition claimStatus :: "market_store \<Rightarrow> string \<Rightarrow> launch_error + voucher_status option" where
  "claimStatus s accountId =
     bind_r (account s accountId) (\<lambda>a.
     let own = map_option v_status (voucher s accountId) in
     if own = Some V_COMPLETED then Inr (Some V_COMPLETED)
     else case ma_wallet a of None \<Rightarrow> Inr own | Some wallet \<Rightarrow>
       if wallet_claimed s wallet then Inr (Some V_COMPLETED)
       else let others = filter (\<lambda>v. v_wallet v = wallet \<and> v_account v \<noteq> accountId) (vouchers s) in
         if list_ex (\<lambda>v. v_status v = V_COMPLETED) others then Inr (Some V_COMPLETED)
         else (case others of [] \<Rightarrow> Inr own | v # _ \<Rightarrow> Inr (Some (v_status v))))"

definition canonical_claims :: "market_store \<Rightarrow> event_row list" where
  "canonical_claims s = filter ev_canonical (claim_events s)"

definition unresolved_voucher :: "int \<Rightarrow> voucher_row \<Rightarrow> bool" where
  "unresolved_voucher now v \<longleftrightarrow> (v_status v = V_ISSUED \<and> v_deadline v > now) \<or>
     v_status v \<in> set [V_SUBMITTED, V_REORGED, V_REVERTED, V_EXPIRED]"

definition unresolved :: "int \<Rightarrow> market_store \<Rightarrow> int" where
  "unresolved now s = int (length (filter (unresolved_voucher now) (vouchers s)))"

definition registered_claim :: "market_store \<Rightarrow> event_row \<Rightarrow> bool" where
  "registered_claim s e \<longleftrightarrow>
     list_ex (\<lambda>v. v_key v = ev_key e \<and> v_wallet v = ev_wallet e \<and> v_tx v = Some (ev_tx e) \<and>
       v_status v \<in> set [V_INCLUDED, V_COMPLETED] \<and>
       list_ex (\<lambda>a. ar_id a = v_account v \<and> ar_key a = ev_key e) (accounts s)) (vouchers s)"

definition renew_voucher :: "string \<Rightarrow> int \<Rightarrow> int \<Rightarrow> market_store \<Rightarrow> market_store" where
  "renew_voucher accountId now deadline s =
     s\<lparr>vouchers := map (\<lambda>v. if v_account v = accountId
          then v\<lparr>v_issued := now, v_deadline := deadline, v_status := V_ISSUED\<rparr> else v) (vouchers s)\<rparr>"

definition insert_voucher :: "voucher_row \<Rightarrow> market_store \<Rightarrow> launch_error + market_store" where
  "insert_voucher r s =
     bind_r (check (list_all (\<lambda>v. v_account v \<noteq> v_account r \<and> v_key v \<noteq> v_key r \<and> v_nonce v \<noteq> v_nonce r) (vouchers s))
               SQLITE_CONSTRAINT) (\<lambda>_.
     Inr (s\<lparr>vouchers := vouchers s @ [r]\<rparr>))"

definition returned_voucher :: "string \<Rightarrow> market_store \<Rightarrow> launch_error + market_store \<times> voucher_row" where
  "returned_voucher accountId s =
    (case voucher s accountId of None \<Rightarrow> Inl ACCOUNT_REQUIRED | Some v \<Rightarrow> Inr (s, v))"

definition reserve_work ::
  "market_env \<Rightarrow> string \<Rightarrow> string \<Rightarrow> int \<Rightarrow> int \<Rightarrow> int \<Rightarrow> string \<Rightarrow> market_store
     \<Rightarrow> launch_error + market_store \<times> voucher_row" where
  "reserve_work env accountId owner now deadline claims nonce s =
     bind_r (requireWallet env accountId owner s) (\<lambda>a.
     bind_r (check (int (length (canonical_claims s)) = claims) CLAIM_RECONCILIATION_REQUIRED) (\<lambda>_.
     bind_r (check (list_all (registered_claim s) (canonical_claims s)) CLAIM_IDENTITY_RECOVERY_REQUIRED) (\<lambda>_.
     case ma_wallet a of None \<Rightarrow> Inl LINKED_WALLET_REQUIRED | Some wallet \<Rightarrow>
     bind_r (check (\<not> wallet_claimed s wallet) ALREADY_CLAIMED) (\<lambda>_.
     bind_r (case find (\<lambda>v. v_wallet v = wallet \<and> v_account v \<noteq> accountId) (vouchers s) of
               None \<Rightarrow> Inr ()
             | Some v \<Rightarrow> Inl (if v_status v = V_COMPLETED then ALREADY_CLAIMED else CLAIM_RECOVERY_REQUIRED)) (\<lambda>_.
     case voucher s accountId of
       Some v \<Rightarrow>
         bind_r (check (v_wallet v = wallet) CLAIM_BOUND_TO_ORIGINAL_WALLET) (\<lambda>_.
         bind_r (check (v_status v \<noteq> V_COMPLETED) ALREADY_CLAIMED) (\<lambda>_.
         bind_r (check (v_tx v = None \<and> v_status v \<notin> set [V_INCLUDED, V_REORGED, V_REVERTED])
                   CLAIM_RECOVERY_REQUIRED) (\<lambda>_.
         if v_deadline v \<le> now
         then bind_r (check (claims + unresolved now s < 100) CLAIM_LIMIT_REACHED) (\<lambda>_.
              returned_voucher accountId (renew_voucher accountId now deadline s))
         else Inr (s, v))))
     | None \<Rightarrow>
         bind_r (check (\<not> list_ex (\<lambda>e. ev_key e = ma_accountKey a \<and> ev_canonical e) (claim_events s))
                   ALREADY_CLAIMED) (\<lambda>_.
         bind_r (check (claims + unresolved now s < 100) CLAIM_LIMIT_REACHED) (\<lambda>_.
         bind_r (insert_voucher \<lparr>v_account = ma_id a, v_key = ma_accountKey a, v_wallet = wallet, v_nonce = nonce,
                   v_issued = now, v_deadline = deadline, v_status = V_ISSUED, v_tx = None\<rparr> s) (\<lambda>t.
         returned_voucher accountId t))))))))"

definition reserveClaim ::
  "market_env \<Rightarrow> string \<Rightarrow> string \<Rightarrow> int \<Rightarrow> int \<Rightarrow> int \<Rightarrow> string \<Rightarrow> market_store \<Rightarrow> voucher_row store_result" where
  "reserveClaim env accountId owner now deadline claims nonce s0 =
    (case bind_r (seconds now) (\<lambda>_. bind_r (seconds deadline) (\<lambda>_.
          check (now < deadline \<and> deadline - now \<le> 300 \<and> 0 \<le> claims \<and> claims \<le> 100) INVALID_CLAIM_POLICY)) of
       Inl e \<Rightarrow> (s0, Inl e)
     | Inr _ \<Rightarrow> atomic (reserve_work env accountId owner now deadline claims nonce) s0)"

section \<open>Quotes and operations\<close>

definition saveQuote :: "market_env \<Rightarrow> string \<Rightarrow> market_quote \<Rightarrow> market_store \<Rightarrow> unit store_result" where
  "saveQuote env accountId q s0 = atomic (\<lambda>s.
     bind_r (requireWallet env accountId (quote_owner q) s) (\<lambda>_.
     bind_r (launch_address (env_getAddress env) (quote_owner q)) (\<lambda>owner.
     bind_r (check (list_all (\<lambda>r. qr_id r \<noteq> quote_id q) (quotes s)) SQLITE_CONSTRAINT) (\<lambda>_.
     Inr (s\<lparr>quotes := quotes s @ [\<lparr>qr_id = quote_id q, qr_account = accountId, qr_owner = owner, qr_payload = q,
            qr_expires = quote_expiresAt q\<rparr>]\<rparr>, ()))))) s0"

definition stored_quote :: "market_store \<Rightarrow> string \<Rightarrow> string \<Rightarrow> launch_error + market_quote" where
  "stored_quote s qid accountId =
    (case find (\<lambda>r. qr_id r = qid \<and> qr_account r = accountId) (quotes s) of
       None \<Rightarrow> Inl QUOTE_NOT_FOUND | Some r \<Rightarrow> Inr (qr_payload r))"

definition mark_submitted :: "string \<Rightarrow> string \<Rightarrow> market_store \<Rightarrow> launch_error + market_store" where
  "mark_submitted accountId tx s =
    (let hit = (\<lambda>v. v_account v = accountId \<and> v_tx v = None) in
     bind_r (check (list_ex hit (vouchers s) \<longrightarrow> list_all (\<lambda>v. v_tx v \<noteq> Some tx) (vouchers s)) SQLITE_CONSTRAINT) (\<lambda>_.
     Inr (s\<lparr>vouchers := map (\<lambda>v. if hit v then v\<lparr>v_status := V_SUBMITTED, v_tx := Some tx\<rparr> else v) (vouchers s)\<rparr>)))"

definition submit_work ::
  "string \<Rightarrow> string \<Rightarrow> market_quote \<Rightarrow> string \<Rightarrow> string \<Rightarrow> market_store \<Rightarrow> launch_error + market_store \<times> tracked_operation" where
  "submit_work accountId qid q tx uuid s =
    (case find (\<lambda>r. or_quote r = qid) (operation_rows s) of
       Some r \<Rightarrow>
         bind_r (check (op_transactionHash (or_payload r) = tx) QUOTE_ALREADY_SUBMITTED) (\<lambda>_. Inr (s, or_payload r))
     | None \<Rightarrow>
         bind_r (check (list_all (\<lambda>r. or_tx r \<noteq> tx) (operation_rows s)) TRANSACTION_ALREADY_TRACKED) (\<lambda>_.
         let operation = \<lparr>op_id = uuid, op_quoteId = qid, op_ownerAddress = quote_owner q, op_transactionHash = tx,
               op_status = Op_SUBMITTED, op_confirmations = 0, op_location = None, op_error = None\<rparr> in
         bind_r (check (list_all (\<lambda>r. or_id r \<noteq> uuid) (operation_rows s)) SQLITE_CONSTRAINT) (\<lambda>_.
         let t = s\<lparr>operation_rows := operation_rows s @ [\<lparr>or_id = uuid, or_quote = qid, or_owner = quote_owner q,
                     or_tx = tx, or_payload = operation\<rparr>]\<rparr> in
         bind_r (if quote_operation q = CLAIM then mark_submitted accountId tx t else Inr t) (\<lambda>u.
         Inr (u, operation)))))"

definition submit ::
  "market_env \<Rightarrow> string \<Rightarrow> string \<Rightarrow> string \<Rightarrow> string \<Rightarrow> market_store \<Rightarrow> tracked_operation store_result" where
  "submit env accountId qid txInput uuid s0 =
    (case bind_r (stored_quote s0 qid accountId) (\<lambda>q.
          bind_r (launch_hash txInput) (\<lambda>tx.
          bind_r (requireWallet env accountId (quote_owner q) s0) (\<lambda>_. Inr (q, tx)))) of
       Inl e \<Rightarrow> (s0, Inl e)
     | Inr (q, tx) \<Rightarrow> atomic (submit_work accountId qid q tx uuid) s0)"

definition owned_by :: "market_store \<Rightarrow> string \<Rightarrow> operation_row \<Rightarrow> bool" where
  "owned_by s accountId r \<longleftrightarrow> list_ex (\<lambda>q. qr_id q = or_quote r \<and> qr_account q = accountId) (quotes s)"

definition operation :: "market_store \<Rightarrow> string \<Rightarrow> string \<Rightarrow> launch_error + tracked_operation" where
  "operation s oid accountId =
    (case find (\<lambda>r. or_id r = oid \<and> owned_by s accountId r) (operation_rows s) of
       None \<Rightarrow> Inl OPERATION_NOT_FOUND | Some r \<Rightarrow> Inr (or_payload r))"

definition operations :: "market_env \<Rightarrow> market_store \<Rightarrow> string \<Rightarrow> string \<Rightarrow> launch_error + tracked_operation list" where
  "operations env s accountId owner =
     bind_r (account s accountId) (\<lambda>_.
     bind_r (launch_address (env_getAddress env) owner) (\<lambda>o_addr.
     Inr (map or_payload (take 50 (rev (filter (\<lambda>r. owned_by s accountId r \<and> or_owner r = o_addr)
       (operation_rows s)))))))"

definition voucher_status_of :: "operation_state \<Rightarrow> voucher_status" where
  "voucher_status_of st =
    (if st = Op_COMPLETED then V_COMPLETED else if st = Op_REORGED then V_REORGED
     else if st = Op_REVERTED then V_REVERTED
     else if st = Op_INCLUDED \<or> st = Op_CONFIRMED_L2 then V_INCLUDED else V_SUBMITTED)"

definition set_voucher_status :: "string \<Rightarrow> voucher_status \<Rightarrow> market_store \<Rightarrow> market_store" where
  "set_voucher_status tx st s =
     s\<lparr>vouchers := map (\<lambda>v. if v_tx v = Some tx then v\<lparr>v_status := st\<rparr> else v) (vouchers s)\<rparr>"

definition updateOperation :: "tracked_operation \<Rightarrow> market_store \<Rightarrow> unit store_result" where
  "updateOperation p s0 = atomic (\<lambda>s.
     Inr (set_voucher_status (op_transactionHash p) (voucher_status_of (op_status p))
       (s\<lparr>operation_rows := map (\<lambda>r. if or_id r = op_id p \<and> or_tx r = op_transactionHash p
            then r\<lparr>or_payload := p\<rparr> else r) (operation_rows s)\<rparr>), ())) s0"

section \<open>Claim events\<close>

definition radix_val :: "int \<Rightarrow> string \<Rightarrow> int" where
  "radix_val b ds = foldl (\<lambda>a c. b * a + (if is_digit c then digit_val c else of_char (lower_char c) - 87)) 0 ds"

definition js_BigInt :: "string \<Rightarrow> launch_error + int" where
  "js_BigInt s =
    (let t = trim s; digits = (\<lambda>ds. ds \<noteq> [] \<and> list_all is_digit ds) in
     if t = [] then Inr 0
     else if digits t then Inr (digits_val t)
     else if hd t = CHR ''-'' \<and> digits (tl t) then Inr (- digits_val (tl t))
     else if hd t = CHR ''+'' \<and> digits (tl t) then Inr (digits_val (tl t))
     else if length t > 2 \<and> toLowerCase (take 2 t) = ''0x'' \<and> list_all is_hex (drop 2 t) then Inr (radix_val 16 (drop 2 t))
     else if length t > 2 \<and> toLowerCase (take 2 t) = ''0o'' \<and> list_all (\<lambda>c. c \<in> set ''01234567'') (drop 2 t)
       then Inr (radix_val 8 (drop 2 t))
     else if length t > 2 \<and> toLowerCase (take 2 t) = ''0b'' \<and> list_all (\<lambda>c. c \<in> set ''01'') (drop 2 t)
       then Inr (radix_val 2 (drop 2 t))
     else Inl L_SYNTAX_ERROR)"

record indexed_claim =
  ic_accountKey :: string
  ic_wallet :: string
  ic_location :: chain_location

definition same_event :: "event_row \<Rightarrow> event_row \<Rightarrow> bool" where
  "same_event e f \<longleftrightarrow> ev_tx e = ev_tx f \<and> ev_log e = ev_log f \<and> ev_hash e = ev_hash f"

definition upsert_event :: "event_row \<Rightarrow> market_store \<Rightarrow> launch_error + market_store" where
  "upsert_event r s =
    (case find (same_event r) (claim_events s) of
       Some old \<Rightarrow>
         bind_r (check (list_all (\<lambda>e. ev_canonical e \<and> ev_key e = ev_key old \<longrightarrow> same_event r e) (claim_events s))
                   SQLITE_CONSTRAINT) (\<lambda>_.
         Inr (s\<lparr>claim_events := map (\<lambda>e. if same_event r e then e\<lparr>ev_canonical := True\<rparr> else e) (claim_events s)\<rparr>))
     | None \<Rightarrow>
         bind_r (check (list_all (\<lambda>e. \<not> (ev_canonical e \<and> ev_key e = ev_key r)) (claim_events s)) SQLITE_CONSTRAINT) (\<lambda>_.
         Inr (s\<lparr>claim_events := claim_events s @ [r]\<rparr>)))"

definition mark_claimed :: "string \<Rightarrow> voucher_status \<Rightarrow> string \<Rightarrow> market_store \<Rightarrow> launch_error + market_store" where
  "mark_claimed key st tx s =
     bind_r (check (list_ex (\<lambda>v. v_key v = key) (vouchers s) \<longrightarrow>
               list_all (\<lambda>v. v_key v \<noteq> key \<longrightarrow> v_tx v \<noteq> Some tx) (vouchers s)) SQLITE_CONSTRAINT) (\<lambda>_.
     Inr (s\<lparr>vouchers := map (\<lambda>v. if v_key v = key then v\<lparr>v_status := st, v_tx := Some tx\<rparr> else v) (vouchers s)\<rparr>))"

definition claim_row :: "market_env \<Rightarrow> indexed_claim \<Rightarrow> launch_error + event_row \<times> string" where
  "claim_row env c =
    (let l = ic_location c in
     bind_r (check (loc_chainId l = LAUNCH_CHAIN_ID) INVALID_CLAIM_EVENT) (\<lambda>_.
     case (loc_transactionHash l, loc_logIndex l) of
       (Some rawTx, Some logIndex) \<Rightarrow>
         bind_r (check (isSafeInteger logIndex \<and> 0 \<le> logIndex \<and> isSafeInteger (loc_confirmations l) \<and>
                   1 \<le> loc_confirmations l) INVALID_CLAIM_EVENT) (\<lambda>_.
         bind_r (js_BigInt (loc_blockNumber l)) (\<lambda>block.
         bind_r (check (block \<le> MAX_SAFE_INTEGER \<and> 0 \<le> block) INVALID_CLAIM_EVENT) (\<lambda>_.
         bind_r (launch_hash rawTx) (\<lambda>tx.
         bind_r (launch_hash (loc_blockHash l)) (\<lambda>bh.
         bind_r (launch_hash (ic_accountKey c)) (\<lambda>key.
         bind_r (launch_address (env_getAddress env) (ic_wallet c)) (\<lambda>wallet.
         Inr (\<lparr>ev_tx = tx, ev_log = logIndex, ev_block = block, ev_hash = bh, ev_key = key,
               ev_wallet = wallet, ev_canonical = True\<rparr>, rawTx))))))))
     | _ \<Rightarrow> Inl INVALID_CLAIM_EVENT))"

definition observe_work :: "market_env \<Rightarrow> indexed_claim \<Rightarrow> market_store \<Rightarrow> launch_error + market_store" where
  "observe_work env c s =
     bind_r (claim_row env c) (\<lambda>(row, rawTx).
     bind_r (upsert_event row s) (\<lambda>t.
     mark_claimed (ic_accountKey c)
       (if loc_confirmations (ic_location c) \<ge> 3 then V_COMPLETED else V_INCLUDED) rawTx t))"

definition observeClaim :: "market_env \<Rightarrow> indexed_claim \<Rightarrow> market_store \<Rightarrow> unit store_result" where
  "observeClaim env c s0 = atomic (\<lambda>s. bind_r (observe_work env c s) (\<lambda>t. Inr (t, ()))) s0"

definition rollback_work :: "int \<Rightarrow> market_store \<Rightarrow> market_store" where
  "rollback_work fromBlock s =
    (let rows = filter (\<lambda>e. ev_block e \<ge> fromBlock \<and> ev_canonical e) (claim_events s);
         t = fold (\<lambda>e. set_voucher_status (ev_tx e) V_REORGED) rows s in
     t\<lparr>claim_events := map (\<lambda>e. if ev_block e \<ge> fromBlock then e\<lparr>ev_canonical := False\<rparr> else e) (claim_events t)\<rparr>)"

definition rollbackClaims :: "int \<Rightarrow> market_store \<Rightarrow> unit store_result" where
  "rollbackClaims fromBlock s0 = atomic (\<lambda>s. Inr (rollback_work fromBlock s, ())) s0"

end
