(* ===== verification/Launch_Claims.thy ===== *)
theory Launch_Claims
  imports Launch_Store
begin

text \<open>
  The guarantees of the launch store over every sequence of its calls. \<open>store_call\<close> lists the methods that
  change the store with their arguments (random values included); \<open>perform_call\<close> is the store after the call,
  whether it returned or threw. The store is a \<open>guarded_machine\<close> whose invariant \<open>store_inv\<close> says which rows
  can be confused with which.
\<close>

datatype store_call =
    Call_trustedAccount trusted_identity int string
  | Call_bindingChallenge string string int string
  | Call_bindWallet string string string int
  | Call_walletTestChallenge string int string
  | Call_openWalletTestSession string string int string string string
  | Call_reserveClaim string string int int int string
  | Call_saveQuote string market_quote
  | Call_submit string string string string
  | Call_updateOperation tracked_operation
  | Call_observeClaim indexed_claim
  | Call_rollbackClaims int

fun perform_call :: "market_env \<Rightarrow> market_store \<Rightarrow> store_call \<Rightarrow> market_store" where
  "perform_call env s (Call_trustedAccount i now u) = fst (trustedAccount env i now u s)"
| "perform_call env s (Call_bindingChallenge a w now n) = fst (bindingChallenge env a w now n s)"
| "perform_call env s (Call_bindWallet a n sig now) = fst (bindWallet env a n sig now s)"
| "perform_call env s (Call_walletTestChallenge w now n) = fst (walletTestChallenge env w now n s)"
| "perform_call env s (Call_openWalletTestSession n sig now u t c) = fst (openWalletTestSession env n sig now u t c s)"
| "perform_call env s (Call_reserveClaim a ow now d k n) = fst (reserveClaim env a ow now d k n s)"
| "perform_call env s (Call_saveQuote a q) = fst (saveQuote env a q s)"
| "perform_call env s (Call_submit a q tx u) = fst (submit env a q tx u s)"
| "perform_call env s (Call_updateOperation p) = fst (updateOperation p s)"
| "perform_call env s (Call_observeClaim c) = fst (observeClaim env c s)"
| "perform_call env s (Call_rollbackClaims b) = fst (rollbackClaims b s)"

definition store_step :: "market_env \<Rightarrow> market_store \<Rightarrow> store_call \<Rightarrow> launch_error + market_store" where
  "store_step env s c = Inr (perform_call env s c)"

definition store_start :: "market_store \<Rightarrow> bool" where
  "store_start s \<longleftrightarrow> (\<exists>origin. s = empty_store origin)"

section \<open>The invariant\<close>

text \<open>A column, where it is not NULL, determines the row's identity: a UNIQUE column of a table with
  primary key \<open>ident\<close>.\<close>

definition determines :: "('a \<Rightarrow> 'k option) \<Rightarrow> ('a \<Rightarrow> 'i) \<Rightarrow> 'a list \<Rightarrow> bool" where
  "determines col ident rows \<longleftrightarrow>
     (\<forall>x\<in>set rows. \<forall>y\<in>set rows. col x \<noteq> None \<longrightarrow> col x = col y \<longrightarrow> ident x = ident y)"

lemma determinesD:
  "determines col ident rows \<Longrightarrow> x \<in> set rows \<Longrightarrow> y \<in> set rows \<Longrightarrow> col x = Some k \<Longrightarrow> col y = Some k \<Longrightarrow> ident x = ident y"
  unfolding determines_def by (metis option.distinct(1))

lemma determines_Nil: "determines col ident []"
  by (simp add: determines_def)

lemma determines_add:
  assumes d: "determines col ident rows" and n: "\<And>x. x \<in> set rows \<Longrightarrow> col x \<noteq> None \<Longrightarrow> col x \<noteq> col r"
  shows "determines col ident (rows @ [r])"
  unfolding determines_def
proof (intro ballI impI)
  fix x y assume "x \<in> set (rows @ [r])" "y \<in> set (rows @ [r])" and c: "col x \<noteq> None" "col x = col y"
  then consider "x \<in> set rows" "y \<in> set rows" | "x = r" "y = r" | "x \<in> set rows" "y = r" | "x = r" "y \<in> set rows" by auto
  then show "ident x = ident y"
  proof cases
    case 1
    then show ?thesis using d c unfolding determines_def by blast
  next
    case 3
    then show ?thesis using n[of x] c by simp
  next
    case 4
    then show ?thesis using n[of y] c by simp
  qed simp
qed

lemma determines_map:
  "determines col ident rows \<Longrightarrow> (\<And>x. ident (f x) = ident x) \<Longrightarrow> (\<And>x. x \<in> set rows \<Longrightarrow> col (f x) = col x) \<Longrightarrow>
     determines col ident (map f rows)"
  unfolding determines_def by (metis (no_types, lifting) image_iff list.set_map)

lemma determines_clear:
  assumes "determines col ident rows" "\<And>x. ident (f x) = ident x" "\<And>x. col (f x) = col x \<or> col (f x) = None"
  shows "determines col ident (map f rows)"
  unfolding determines_def
proof (intro ballI impI)
  fix u v assume "u \<in> set (map f rows)" "v \<in> set (map f rows)" and c: "col u \<noteq> None" "col u = col v"
  then obtain x y where xy: "x \<in> set rows" "y \<in> set rows" "u = f x" "v = f y" by auto
  have "col x = col u" "col y = col v" using assms(3)[of x] assms(3)[of y] xy c by auto
  then have "ident x = ident y" using assms(1) xy c unfolding determines_def by metis
  then show "ident u = ident v" using assms(2) xy by simp
qed

lemma determines_filter: "determines col ident rows \<Longrightarrow> determines col ident (filter P rows)"
  unfolding determines_def by (metis filter_is_subset subsetD)

text \<open>Writing one value into one row of a column.\<close>

lemma determines_set:
  assumes "determines col ident rows" "\<And>x. ident (f x) = ident x"
    and "\<And>x. x \<in> set rows \<Longrightarrow> col (f x) = (if hit x then Some k else col x)"
    and "\<And>x. x \<in> set rows \<Longrightarrow> \<not> hit x \<Longrightarrow> col x \<noteq> Some k"
    and "\<And>x y. x \<in> set rows \<Longrightarrow> y \<in> set rows \<Longrightarrow> hit x \<Longrightarrow> hit y \<Longrightarrow> ident x = ident y"
  shows "determines col ident (map f rows)"
proof -
  have "ident x = ident y" if x: "x \<in> set rows" and y: "y \<in> set rows" and c: "col (f x) \<noteq> None" "col (f x) = col (f y)" for x y
  proof (cases "hit x"; cases "hit y")
    assume "\<not> hit x" "\<not> hit y"
    then show ?thesis using c assms(1) assms(3)[OF x] assms(3)[OF y] x y unfolding determines_def by metis
  next
    assume "hit x" "\<not> hit y"
    then show ?thesis using c assms(3)[OF x] assms(3)[OF y] assms(4)[OF y] by simp
  next
    assume "\<not> hit x" "hit y"
    then show ?thesis using c assms(3)[OF x] assms(3)[OF y] assms(4)[OF x] by simp
  next
    assume "hit x" "hit y"
    then show ?thesis using assms(5) x y by blast
  qed
  then show ?thesis unfolding determines_def using assms(2) by (metis (no_types, lifting) image_iff list.set_map)
qed

definition account_inv :: "account_row list \<Rightarrow> bool" where
  "account_inv as \<longleftrightarrow> distinct (map ar_id as) \<and> determines (\<lambda>a. Some (ar_key a)) ar_id as \<and> determines ar_wallet ar_id as"

definition voucher_inv :: "voucher_row list \<Rightarrow> bool" where
  "voucher_inv vs \<longleftrightarrow> distinct (map v_account vs) \<and> determines (\<lambda>v. Some (v_key v)) v_account vs \<and>
     determines (\<lambda>v. Some (v_wallet v)) v_account vs \<and> determines v_tx v_account vs"

definition registry_inv :: "account_row list \<Rightarrow> voucher_row list \<Rightarrow> bool" where
  "registry_inv as vs \<longleftrightarrow> (\<forall>v\<in>set vs. \<exists>a\<in>set as. ar_id a = v_account v \<and> ar_key a = v_key v)"

definition event_key :: "event_row \<Rightarrow> string \<times> int \<times> string" where
  "event_key e = (ev_tx e, ev_log e, ev_hash e)"

definition event_inv :: "event_row list \<Rightarrow> bool" where
  "event_inv es \<longleftrightarrow> determines (\<lambda>e. if ev_canonical e then Some (ev_key e) else None) event_key es \<and>
     determines (\<lambda>e. Some (event_key e)) ev_key es \<and> distinct (map event_key es)"

definition store_inv :: "market_store \<Rightarrow> bool" where
  "store_inv s \<longleftrightarrow> account_inv (accounts s) \<and> voucher_inv (vouchers s) \<and> registry_inv (accounts s) (vouchers s) \<and>
     event_inv (claim_events s)"

section \<open>Reading a call\<close>

lemma atomic_cases: "fst (atomic w s) = s \<or> (\<exists>x. w s = Inr (fst (atomic w s), x))"
  by (auto simp: atomic_def split: sum.splits)

lemma atomic_Inr: "atomic w s = (t, Inr x) \<longleftrightarrow> w s = Inr (t, x)"
  by (auto simp: atomic_def split: sum.splits)

lemma atomic_Inl: "atomic w s = (t, Inl e) \<longleftrightarrow> w s = Inl e \<and> t = s"
  by (auto simp: atomic_def split: sum.splits)

lemma find_none: "find P xs = None \<longleftrightarrow> (\<forall>x\<in>set xs. \<not> P x)"
  by (auto simp: find_None_iff)

lemma find_some: "find P xs = Some x \<Longrightarrow> x \<in> set xs \<and> P x"
  by (auto simp: find_Some_iff)

lemma account_Inr: "account s i = Inr a \<Longrightarrow> \<exists>r\<in>set (accounts s). ar_id r = i \<and> a = account_view r"
  by (auto simp: account_def split: option.splits dest: find_some)

text \<open>Statements that rewrite vouchers in place keep who owns them.\<close>

definition same_owner :: "voucher_row \<Rightarrow> voucher_row \<Rightarrow> bool" where
  "same_owner v w \<longleftrightarrow> v_account v = v_account w \<and> v_key v = v_key w \<and> v_wallet v = v_wallet w \<and> v_nonce v = v_nonce w"

lemma voucher_map_accounts:
  assumes "\<And>v. same_owner (f v) v"
  shows "map v_account (map f vs) = map v_account vs"
  using assms by (induction vs) (auto simp: same_owner_def)

lemma same_owner_ident: "(\<And>v. same_owner (f v) v) \<Longrightarrow> v_account (f v) = v_account v"
  by (simp add: same_owner_def)

lemma voucher_inv_map:
  assumes "voucher_inv vs" "\<And>v. same_owner (f v) v" "determines v_tx v_account (map f vs)"
  shows "voucher_inv (map f vs)"
  unfolding voucher_inv_def
proof (intro conjI)
  show "distinct (map v_account (map f vs))"
    unfolding voucher_map_accounts[of f, OF assms(2)] using assms(1) by (simp add: voucher_inv_def)
  show "determines (\<lambda>v. Some (v_key v)) v_account (map f vs)"
    using assms(1,2) by (intro determines_map) (auto simp: voucher_inv_def same_owner_def)
  show "determines (\<lambda>v. Some (v_wallet v)) v_account (map f vs)"
    using assms(1,2) by (intro determines_map) (auto simp: voucher_inv_def same_owner_def)
qed (rule assms(3))

lemma registry_inv_map:
  "registry_inv as vs \<Longrightarrow> (\<And>v. same_owner (f v) v) \<Longrightarrow> registry_inv as (map f vs)"
  by (auto simp: registry_inv_def same_owner_def)

lemma voucher_inv_keep_tx:
  assumes "voucher_inv vs" "\<And>v. same_owner (f v) v" "\<And>v. v_tx (f v) = v_tx v"
  shows "voucher_inv (map f vs)"
  using assms by (intro voucher_inv_map determines_map) (auto simp: voucher_inv_def same_owner_def)

section \<open>Every call keeps the invariant\<close>

lemma set_voucher_status_inv: "store_inv s \<Longrightarrow> store_inv (set_voucher_status tx st s)"
  unfolding store_inv_def set_voucher_status_def
  by (auto intro!: voucher_inv_keep_tx registry_inv_map simp: same_owner_def)

lemma mark_submitted_inv: 
  assumes i: "store_inv s" and m: "mark_submitted a tx s = Inr t"
  shows "store_inv t"
proof -
  define hit where "hit = (\<lambda>v :: voucher_row. v_account v = a \<and> v_tx v = None)"
  define f where "f = (\<lambda>v :: voucher_row. if hit v then v\<lparr>v_status := V_SUBMITTED, v_tx := Some tx\<rparr> else v)"
  have t: "t = s\<lparr>vouchers := map f (vouchers s)\<rparr>" and
    free: "list_ex hit (vouchers s) \<longrightarrow> list_all (\<lambda>v. v_tx v \<noteq> Some tx) (vouchers s)"
    using m by (auto simp: mark_submitted_def f_def hit_def Let_def split: if_splits)
  have own: "same_owner (f v) v" for v by (simp add: f_def same_owner_def)
  have "determines v_tx v_account (map f (vouchers s))"
  proof (cases "list_ex hit (vouchers s)")
    case True
    then show ?thesis
      using i free by (intro determines_set[where hit = hit and k = tx])
        (auto simp: store_inv_def voucher_inv_def f_def hit_def list_all_iff)
  next
    case False
    then have "map f (vouchers s) = vouchers s" by (auto simp: f_def list_ex_iff map_idI)
    then show ?thesis using i by (simp add: store_inv_def voucher_inv_def)
  qed
  then show ?thesis using i own by (auto simp: store_inv_def t intro!: voucher_inv_map registry_inv_map)
qed

lemma mark_claimed_inv:
  assumes i: "store_inv s" and m: "mark_claimed key st tx s = Inr t"
  shows "store_inv t"
proof -
  define f where "f = (\<lambda>v :: voucher_row. if v_key v = key then v\<lparr>v_status := st, v_tx := Some tx\<rparr> else v)"
  have t: "t = s\<lparr>vouchers := map f (vouchers s)\<rparr>" and
    free: "list_ex (\<lambda>v. v_key v = key) (vouchers s) \<longrightarrow> list_all (\<lambda>v. v_key v \<noteq> key \<longrightarrow> v_tx v \<noteq> Some tx) (vouchers s)"
    using m by (auto simp: mark_claimed_def f_def split: if_splits)
  have own: "same_owner (f v) v" for v by (simp add: f_def same_owner_def)
  have keys: "determines (\<lambda>v. Some (v_key v)) v_account (vouchers s)" using i by (simp add: store_inv_def voucher_inv_def)
  have "determines v_tx v_account (map f (vouchers s))"
  proof (cases "list_ex (\<lambda>v. v_key v = key) (vouchers s)")
    case True
    then show ?thesis
      using i free keys by (intro determines_set[where hit = "\<lambda>v. v_key v = key" and k = tx])
        (auto simp: store_inv_def voucher_inv_def f_def list_all_iff dest: determinesD[OF keys])
  next
    case False
    then have "map f (vouchers s) = vouchers s" by (auto simp: f_def list_ex_iff map_idI)
    then show ?thesis using i by (simp add: store_inv_def voucher_inv_def)
  qed
  then show ?thesis using i own by (auto simp: store_inv_def t intro!: voucher_inv_map registry_inv_map)
qed

lemma same_event_key: "same_event e f \<longleftrightarrow> event_key e = event_key f"
  by (auto simp: same_event_def event_key_def)

lemma upsert_event_inv:
  assumes i: "store_inv s" and u: "upsert_event r s = Inr t" and r: "ev_canonical r"
  shows "store_inv t"
proof (cases "find (same_event r) (claim_events s)")
  case None
  then have new: "\<forall>e\<in>set (claim_events s). event_key e \<noteq> event_key r" by (auto simp: find_none same_event_key)
  have "t = s\<lparr>claim_events := claim_events s @ [r]\<rparr>"
    "\<forall>e\<in>set (claim_events s). \<not> (ev_canonical e \<and> ev_key e = ev_key r)"
    using u None by (auto simp: upsert_event_def list_all_iff split: if_splits)
  then show ?thesis using i new r by (auto simp: store_inv_def event_inv_def intro!: determines_add split: if_splits)
next
  case (Some old)
  define f where "f = (\<lambda>e :: event_row. if same_event r e then e\<lparr>ev_canonical := True\<rparr> else e)"
  have t: "t = s\<lparr>claim_events := map f (claim_events s)\<rparr>" and
    free: "\<forall>e\<in>set (claim_events s). ev_canonical e \<and> ev_key e = ev_key old \<longrightarrow> same_event r e"
    using u Some by (auto simp: upsert_event_def f_def list_all_iff split: if_splits)
  have old: "old \<in> set (claim_events s)" "same_event r old" using find_some[OF Some] by auto
  have pk: "determines (\<lambda>e. Some (event_key e)) ev_key (claim_events s)"
    and can: "determines (\<lambda>e. if ev_canonical e then Some (ev_key e) else None) event_key (claim_events s)"
    using i by (auto simp: store_inv_def event_inv_def)
  have k: "e \<in> set (claim_events s) \<Longrightarrow> same_event r e \<Longrightarrow> ev_key e = ev_key old" for e
    using determinesD[OF pk _ old(1)] old(2) by (auto simp: same_event_key)
  have "determines (\<lambda>e. Some (event_key e)) ev_key (map f (claim_events s))"
    using pk by (intro determines_map) (auto simp: f_def event_key_def)
  moreover have "determines (\<lambda>e. if ev_canonical e then Some (ev_key e) else None) event_key (map f (claim_events s))"
  proof (rule determines_set[OF can, where hit = "same_event r" and k = "ev_key old"])
    show "event_key (f e) = event_key e" for e by (simp add: f_def event_key_def)
    show "(if ev_canonical (f e) then Some (ev_key (f e)) else None)
        = (if same_event r e then Some (ev_key old) else if ev_canonical e then Some (ev_key e) else None)"
      if "e \<in> set (claim_events s)" for e using k[OF that] by (simp add: f_def)
    show "(if ev_canonical e then Some (ev_key e) else None) \<noteq> Some (ev_key old)"
      if "e \<in> set (claim_events s)" "\<not> same_event r e" for e using free that by (simp split: if_splits) blast
    show "event_key x = event_key y" if "same_event r x" "same_event r y" for x y
      using that by (simp add: same_event_key)
  qed
  moreover have "map event_key (map f (claim_events s)) = map event_key (claim_events s)"
    by (simp add: f_def event_key_def)
  ultimately show ?thesis using i by (simp add: store_inv_def event_inv_def t del: map_map)
qed

lemma claim_row_canonical: "claim_row env c = Inr (r, tx) \<Longrightarrow> ev_canonical r"
  by (auto simp: claim_row_def Let_def bind_r_Inr split: option.splits if_splits)

lemma observe_work_Inr:
  assumes "observe_work env c s = Inr t"
  obtains r u st tx where "ev_canonical r" "upsert_event r s = Inr u" "mark_claimed (ic_accountKey c) st tx u = Inr t"
    "st = V_COMPLETED \<or> st = V_INCLUDED"
  using assms by (auto simp: observe_work_def bind_r_Inr dest: claim_row_canonical)

lemma observe_work_inv: "store_inv s \<Longrightarrow> observe_work env c s = Inr t \<Longrightarrow> store_inv t"
  by (erule observe_work_Inr) (metis upsert_event_inv mark_claimed_inv)


lemma rollback_vouchers: "store_inv s \<Longrightarrow> store_inv (fold (\<lambda>e. set_voucher_status (ev_tx e) st) es s)"
  by (induction es arbitrary: s) (auto intro: set_voucher_status_inv)

lemma rollback_work_inv:
  assumes "store_inv s"
  shows "store_inv (rollback_work b s)"
proof -
  define t where "t = fold (\<lambda>e. set_voucher_status (ev_tx e) V_REORGED)
    (filter (\<lambda>e. ev_block e \<ge> b \<and> ev_canonical e) (claim_events s)) s"
  define f where "f = (\<lambda>e :: event_row. if ev_block e \<ge> b then e\<lparr>ev_canonical := False\<rparr> else e)"
  have t: "store_inv t" unfolding t_def by (rule rollback_vouchers[OF assms])
  have f: "event_key (f e) = event_key e" "ev_key (f e) = ev_key e" "ev_canonical (f e) \<Longrightarrow> ev_canonical e" for e
    by (auto simp: f_def event_key_def split: if_splits)
  have "determines (\<lambda>e. Some (event_key e)) ev_key (map f (claim_events t))"
    using t f by (intro determines_map) (auto simp: store_inv_def event_inv_def)
  moreover have "determines (\<lambda>e. if ev_canonical e then Some (ev_key e) else None) event_key (map f (claim_events t))"
    using t f by (intro determines_clear) (auto simp: store_inv_def event_inv_def)
  moreover have "map event_key (map f (claim_events t)) = map event_key (claim_events t)" using f by simp
  ultimately show ?thesis
    using t unfolding rollback_work_def Let_def t_def[symmetric] f_def[symmetric]
    by (simp add: store_inv_def event_inv_def del: map_map)
qed

lemma requireWallet_Inr:
  "requireWallet env i owner s = Inr a \<Longrightarrow> ma_id a = i \<and> ma_wallet a \<noteq> None \<and>
     (\<exists>r\<in>set (accounts s). ar_id r = i \<and> ar_key r = ma_accountKey a)"
  by (fastforce simp: requireWallet_def bind_r_Inr account_view_def split: if_splits dest!: account_Inr)

text \<open>The three ways in which a reservation succeeds.\<close>

lemma reserve_work_Inr:
  assumes "reserve_work env i owner now d k n s = Inr (t, v)"
  obtains "t = s" "voucher s i = Some v" "now < v_deadline v" "v_tx v = None"
  | "t = renew_voucher i now d s" "k + unresolved now s < 100" "voucher t i = Some v"
      "\<exists>w. voucher s i = Some w \<and> v_tx w = None \<and> v_status w \<notin> {V_COMPLETED, V_INCLUDED, V_REORGED, V_REVERTED}"
  | a r where "requireWallet env i owner s = Inr a" "ma_wallet a = Some (v_wallet r)"
      "r = \<lparr>v_account = i, v_key = ma_accountKey a, v_wallet = v_wallet r, v_nonce = n, v_issued = now, v_deadline = d,
         v_status = V_ISSUED, v_tx = None\<rparr>"
      "t = s\<lparr>vouchers := vouchers s @ [r]\<rparr>" "k + unresolved now s < 100" "voucher t i = Some v"
      "\<forall>w\<in>set (vouchers s). v_account w \<noteq> i \<and> v_key w \<noteq> v_key r \<and> v_wallet w \<noteq> v_wallet r"
proof -
  obtain a wallet where a: "requireWallet env i owner s = Inr a" "ma_wallet a = Some wallet"
    using assms requireWallet_Inr by (fastforce simp: reserve_work_def bind_r_Inr)
  have id: "ma_id a = i" using requireWallet_Inr[OF a(1)] by simp
  have none: "find (\<lambda>w. v_wallet w = wallet \<and> v_account w \<noteq> i) (vouchers s) = None"
    using assms a by (auto simp: reserve_work_def bind_r_Inr split: if_splits option.splits)
  show thesis
  proof (cases "voucher s i")
    case (Some w)
    have w: "v_wallet w = wallet" "v_status w \<noteq> V_COMPLETED" "v_tx w = None" "v_status w \<notin> {V_INCLUDED, V_REORGED, V_REVERTED}"
      using assms a none Some by (auto simp: reserve_work_def bind_r_Inr split: if_splits)
    show thesis
    proof (cases "v_deadline w \<le> now")
      case True
      then show thesis using assms a none Some w that(2)
        by (auto simp: reserve_work_def bind_r_Inr returned_voucher_def split: if_splits option.splits)
    next
      case False
      then show thesis using assms a none Some w that(1)
        by (auto simp: reserve_work_def bind_r_Inr split: if_splits)
    qed
  next
    case None
    define r where "r = \<lparr>v_account = i, v_key = ma_accountKey a, v_wallet = wallet, v_nonce = n, v_issued = now,
       v_deadline = d, v_status = V_ISSUED, v_tx = None\<rparr>"
    have t: "t = s\<lparr>vouchers := vouchers s @ [r]\<rparr>" "k + unresolved now s < 100" "voucher t i = Some v"
      "list_all (\<lambda>v. v_account v \<noteq> v_account r \<and> v_key v \<noteq> v_key r \<and> v_nonce v \<noteq> v_nonce r) (vouchers s)"
      using assms a none None id
      by (auto simp: reserve_work_def bind_r_Inr insert_voucher_def returned_voucher_def r_def split: if_splits option.splits)
    have "\<forall>w\<in>set (vouchers s). v_account w \<noteq> i \<and> v_key w \<noteq> v_key r \<and> v_wallet w \<noteq> v_wallet r"
      using t(4) none by (auto simp: list_all_iff find_none r_def)
    then show thesis using that(3)[of a r] a t by (simp add: r_def)
  qed
qed

lemma renew_voucher_inv: "store_inv s \<Longrightarrow> store_inv (renew_voucher i now d s)"
  unfolding store_inv_def renew_voucher_def
  by (auto intro!: voucher_inv_keep_tx registry_inv_map simp: same_owner_def)

lemma reserve_work_inv:
  assumes i: "store_inv s" and r: "reserve_work env i owner now d k n s = Inr (t, v)"
  shows "store_inv t"
  using r
proof (rule reserve_work_Inr)
  fix a r
  assume a: "requireWallet env i owner s = Inr a"
    and r: "r = \<lparr>v_account = i, v_key = ma_accountKey a, v_wallet = v_wallet r, v_nonce = n, v_issued = now, v_deadline = d,
         v_status = V_ISSUED, v_tx = None\<rparr>"
    and t: "t = s\<lparr>vouchers := vouchers s @ [r]\<rparr>"
    and new: "\<forall>w\<in>set (vouchers s). v_account w \<noteq> i \<and> v_key w \<noteq> v_key r \<and> v_wallet w \<noteq> v_wallet r"
  have ra: "v_account r = i" "v_key r = ma_accountKey a" "v_tx r = None" by (subst r, simp)+
  have "voucher_inv (vouchers s @ [r])"
    using i new ra unfolding store_inv_def voucher_inv_def by (auto intro!: determines_add)
  moreover have "registry_inv (accounts s) (vouchers s @ [r])"
    using i requireWallet_Inr[OF a] ra by (auto simp: store_inv_def registry_inv_def)
  ultimately show ?thesis using i by (simp add: store_inv_def t)
qed (auto intro: i renew_voucher_inv[OF i])


lemma submit_work_inv: "store_inv s \<Longrightarrow> submit_work i q p tx u s = Inr (t, x) \<Longrightarrow> store_inv t"
proof -
  assume i: "store_inv s" and w: "submit_work i q p tx u s = Inr (t, x)"
  have ops: "store_inv (s\<lparr>operation_rows := rs\<rparr>)" for rs using i by (simp add: store_inv_def)
  show ?thesis using w i ops
    by (auto simp: submit_work_def Let_def bind_r_Inr split: option.splits if_splits intro: mark_submitted_inv)
qed

section \<open>Accounts\<close>

lemma insert_account_inv:
  assumes i: "store_inv s" and r: "insert_account r s = Inr t"
  shows "store_inv t"
proof -
  have t: "t = s\<lparr>accounts := accounts s @ [r]\<rparr>" and
    new: "\<forall>a\<in>set (accounts s). ar_id a \<noteq> ar_id r \<and> ar_key a \<noteq> ar_key r \<and> (ar_wallet r \<noteq> None \<longrightarrow> ar_wallet a \<noteq> ar_wallet r)"
    using r by (auto simp: insert_account_def list_all_iff split: if_splits)
  have "account_inv (accounts s @ [r])"
    using i new unfolding store_inv_def account_inv_def by (auto intro!: determines_add)
  moreover have "registry_inv (accounts s @ [r]) (vouchers s)" using i by (auto simp: store_inv_def registry_inv_def)
  ultimately show ?thesis using i by (simp add: store_inv_def t)
qed

text \<open>Rewriting accounts in place: ids and keys stay.\<close>

lemma account_inv_map:
  assumes "account_inv as" "\<And>a. ar_id (f a) = ar_id a" "\<And>a. ar_key (f a) = ar_key a" "determines ar_wallet ar_id (map f as)"
  shows "account_inv (map f as)"
proof -
  have "map ar_id (map f as) = map ar_id as" using assms(2) by simp
  moreover have "determines (\<lambda>a. Some (ar_key a)) ar_id (map f as)"
    using assms(1-3) by (intro determines_map) (auto simp: account_inv_def)
  ultimately show ?thesis using assms(1,4) by (simp add: account_inv_def del: map_map)
qed

lemma registry_accounts_map:
  "registry_inv as vs \<Longrightarrow> (\<And>a. ar_id (f a) = ar_id a) \<Longrightarrow> (\<And>a. ar_key (f a) = ar_key a) \<Longrightarrow> registry_inv (map f as) vs"
  by (fastforce simp: registry_inv_def)

lemma account_inv_filter: "account_inv as \<Longrightarrow> account_inv (filter P as)"
  by (auto simp: account_inv_def intro: determines_filter distinct_map_filter)

lemma bind_fresh_inv:
  assumes i: "store_inv s" and free: "find (\<lambda>r. ar_wallet r = Some w \<and> ar_id r \<noteq> a) (accounts s) = None"
  shows "store_inv (s\<lparr>accounts := map (\<lambda>r. if ar_id r = a then r\<lparr>ar_wallet := Some w\<rparr> else r) (accounts s)\<rparr>)"
proof -
  define f where "f = (\<lambda>r :: account_row. if ar_id r = a then r\<lparr>ar_wallet := Some w\<rparr> else r)"
  have f: "ar_id (f r) = ar_id r" "ar_key (f r) = ar_key r" for r by (simp_all add: f_def)
  have "determines ar_wallet ar_id (map f (accounts s))"
    using i free by (intro determines_set[where hit = "\<lambda>r. ar_id r = a" and k = w])
      (auto simp: store_inv_def account_inv_def f_def find_none)
  then show ?thesis
    using i f unfolding f_def[symmetric] by (auto simp: store_inv_def intro!: account_inv_map registry_accounts_map)
qed

lemma adopt_inv:
  assumes i: "store_inv s" and h: "\<not> has_history a s"
    and f: "\<And>r. ar_id (f r) = ar_id r" "\<And>r. ar_key (f r) = ar_key r" "\<And>r. ar_wallet (f r) = ar_wallet r"
  shows "store_inv (s\<lparr>wallet_challenges := cs, accounts := map f (filter (\<lambda>r. ar_id r \<noteq> a) (accounts s))\<rparr>)"
proof -
  have "registry_inv (filter (\<lambda>r. ar_id r \<noteq> a) (accounts s)) (vouchers s)"
    using i h by (fastforce simp: store_inv_def registry_inv_def has_history_def list_ex_iff)
  moreover have "account_inv (filter (\<lambda>r. ar_id r \<noteq> a) (accounts s))"
    using i by (simp add: store_inv_def account_inv_filter)
  moreover from this have "determines ar_wallet ar_id (map f (filter (\<lambda>r. ar_id r \<noteq> a) (accounts s)))"
    using f by (intro determines_map) (auto simp: account_inv_def)
  ultimately show ?thesis using i f by (auto simp: store_inv_def intro!: account_inv_map registry_accounts_map)
qed

lemma bind_signer_inv:
  assumes i: "store_inv s" and b: "bind_signer a w s = Inr (t, x)"
  shows "store_inv t"
proof (cases "find (\<lambda>r. ar_wallet r = Some w \<and> ar_id r \<noteq> a) (accounts s)")
  case None
  then show ?thesis using b bind_fresh_inv[OF i] by (auto simp: bind_signer_def Let_def bind_r_Inr)
next
  case (Some other)
  then show ?thesis using b i
    by (auto simp: bind_signer_def Let_def bind_r_Inr split: option.splits if_splits intro!: adopt_inv)
qed

lemma other_tables_inv [simp]:
  "store_inv (s\<lparr>wallet_challenges := cs\<rparr>) = store_inv s" "store_inv (s\<lparr>test_challenges := cs\<rparr>) = store_inv s"
  "store_inv (s\<lparr>test_sessions := es\<rparr>) = store_inv s" "store_inv (s\<lparr>test_identities := ids\<rparr>) = store_inv s"
  "store_inv (s\<lparr>quotes := qs\<rparr>) = store_inv s" "store_inv (s\<lparr>operation_rows := rs\<rparr>) = store_inv s"
  by (simp_all add: store_inv_def)

lemma session_account_inv: "store_inv s \<Longrightarrow> session_account env w now u s = Inr (t, i) \<Longrightarrow> store_inv t"
  by (auto simp: session_account_def bind_r_Inr split: option.splits intro: insert_account_inv)

lemma open_session_inv: "store_inv s \<Longrightarrow> open_session env w now u tok cs s = Inr (t, x) \<Longrightarrow> store_inv t"
  by (auto simp: open_session_def Let_def bind_r_Inr split: prod.splits if_splits dest: session_account_inv)


lemma atomic_inv:
  "store_inv s \<Longrightarrow> (\<And>t x. w s = Inr (t, x) \<Longrightarrow> store_inv t) \<Longrightarrow> store_inv (fst (atomic w s))"
  using atomic_cases[of w s] by metis

lemma trustedAccount_inv: "store_inv s \<Longrightarrow> store_inv (fst (trustedAccount env i now u s))"
  unfolding trustedAccount_def
  by (auto split: sum.splits intro!: atomic_inv)
    (auto simp: bind_r_Inr split: option.splits if_splits intro: insert_account_inv)

text \<open>A method that consumes a challenge in one transaction and acts on it in a second.\<close>

lemma two_phase_inv:
  assumes "store_inv s0" and "\<And>t x. w s0 = Inr (t, x) \<Longrightarrow> store_inv t \<and> store_inv (fst (k t x))"
  shows "store_inv (fst (case atomic w s0 of (s1, Inl e) \<Rightarrow> (s1, Inl e) | (s1, Inr x) \<Rightarrow> k s1 x))"
proof (cases "w s0")
  case (Inl e)
  then show ?thesis using assms(1) by (simp add: atomic_def)
next
  case (Inr tx)
  then show ?thesis using assms(2) by (cases tx) (simp add: atomic_def)
qed

lemma bindWallet_inv:
  assumes "store_inv s"
  shows "store_inv (fst (bindWallet env a n sig now s))"
proof (cases "bind_r (seconds now) (\<lambda>_. check (nonce_ok n \<and> hex_digits 130 sig) WALLET_SIGNATURE_REQUIRED)")
  case (Inl e)
  then show ?thesis using assms by (simp only: bindWallet_def sum.case fst_conv)
next
  case (Inr u)
  show ?thesis unfolding bindWallet_def Inr sum.case
  proof (rule two_phase_inv[OF assms])
    fix t c
    assume "(case find (\<lambda>c. ch_nonce c = n \<and> ch_account c = a \<and> \<not> ch_consumed c \<and> now < ch_expires c) (wallet_challenges s) of
        None \<Rightarrow> Inl WALLET_CHALLENGE_EXPIRED
      | Some c \<Rightarrow> Inr (s\<lparr>wallet_challenges := consume n (wallet_challenges s)\<rparr>, c)) = Inr (t, c)"
    then have t: "store_inv t" using assms by (auto split: option.splits)
    moreover have "store_inv (fst (case challenge_signer env c sig of Inl e \<Rightarrow> (t, Inl e)
        | Inr signer \<Rightarrow> atomic (bind_signer a signer) t))"
      using t by (auto split: sum.splits intro!: atomic_inv dest: bind_signer_inv)
    ultimately show "store_inv t \<and> store_inv (fst (case challenge_signer env c sig of Inl e \<Rightarrow> (t, Inl e)
        | Inr signer \<Rightarrow> atomic (bind_signer a signer) t))" by blast
  qed
qed

lemma openWalletTestSession_inv:
  assumes "store_inv s"
  shows "store_inv (fst (openWalletTestSession env n sig now u tok cs s))"
proof (cases "bind_r (seconds now) (\<lambda>_. check (nonce_ok n \<and> hex_digits 130 sig) WALLET_SIGNATURE_REQUIRED)")
  case (Inl e)
  then show ?thesis using assms by (simp only: openWalletTestSession_def sum.case fst_conv)
next
  case (Inr u')
  show ?thesis unfolding openWalletTestSession_def Inr sum.case
  proof (rule two_phase_inv[OF assms])
    fix t c
    assume "(case find (\<lambda>c. ch_nonce c = n \<and> \<not> ch_consumed c \<and> ch_issued c \<le> now \<and> now < ch_expires c) (test_challenges s) of
        None \<Rightarrow> Inl WALLET_CHALLENGE_EXPIRED
      | Some c \<Rightarrow> Inr (s\<lparr>test_challenges := consume n (test_challenges s)\<rparr>, c)) = Inr (t, c)"
    then have t: "store_inv t" using assms by (auto split: option.splits)
    moreover have "store_inv (fst (case challenge_signer env c sig of Inl e \<Rightarrow> (t, Inl e)
        | Inr signer \<Rightarrow> atomic (open_session env signer now u tok cs) t))"
      using t by (auto split: sum.splits intro!: atomic_inv dest: open_session_inv)
    ultimately show "store_inv t \<and> store_inv (fst (case challenge_signer env c sig of Inl e \<Rightarrow> (t, Inl e)
        | Inr signer \<Rightarrow> atomic (open_session env signer now u tok cs) t))" by blast
  qed
qed

lemma perform_call_inv: "store_inv s \<Longrightarrow> store_inv (perform_call env s c)"
proof (cases c)
  case (Call_bindingChallenge a w now n)
  assume "store_inv s"
  then show ?thesis unfolding Call_bindingChallenge
    by (auto simp: bindingChallenge_def bind_r_Inr split: sum.splits intro!: atomic_inv)
next
  case (Call_walletTestChallenge w now n)
  assume "store_inv s"
  then show ?thesis unfolding Call_walletTestChallenge
    by (auto simp: walletTestChallenge_def bind_r_Inr split: sum.splits intro!: atomic_inv)
next
  case (Call_reserveClaim a ow now d k n)
  assume "store_inv s"
  then show ?thesis unfolding Call_reserveClaim
    by (auto simp: reserveClaim_def split: sum.splits intro!: atomic_inv dest: reserve_work_inv)
next
  case (Call_saveQuote a q)
  assume "store_inv s"
  then show ?thesis unfolding Call_saveQuote
    by (auto simp: saveQuote_def bind_r_Inr split: if_splits intro!: atomic_inv)
next
  case (Call_submit a q tx u)
  assume "store_inv s"
  then show ?thesis unfolding Call_submit
    by (auto simp: submit_def split: sum.splits intro!: atomic_inv dest: submit_work_inv)
next
  case (Call_updateOperation p)
  assume "store_inv s"
  then show ?thesis unfolding Call_updateOperation
    by (auto simp: updateOperation_def intro!: atomic_inv set_voucher_status_inv)
next
  case (Call_observeClaim c)
  assume "store_inv s"
  then show ?thesis unfolding Call_observeClaim
    by (auto simp: observeClaim_def bind_r_Inr intro!: atomic_inv dest: observe_work_inv)
next
  case (Call_rollbackClaims b)
  assume "store_inv s"
  then show ?thesis unfolding Call_rollbackClaims
    by (auto simp: rollbackClaims_def intro!: atomic_inv rollback_work_inv)
qed (auto intro: trustedAccount_inv bindWallet_inv openWalletTestSession_inv)

lemma empty_store_inv: "store_inv (empty_store origin)"
  by (simp add: empty_store_def store_inv_def account_inv_def voucher_inv_def registry_inv_def event_inv_def determines_Nil)

interpretation store_machine: guarded_machine store_start "store_step env" store_inv for env
  by unfold_locales (auto simp: store_start_def store_step_def empty_store_inv intro: perform_call_inv)

section \<open>What the store guarantees\<close>

lemma distinct_column:
  assumes "distinct (map ident rows)" "determines (\<lambda>r. Some (col r)) ident rows"
  shows "distinct (map col rows)"
  unfolding distinct_map
proof
  show "distinct rows" using assms(1) by (simp add: distinct_map)
  show "inj_on col (set rows)"
  proof (rule inj_onI)
    fix x y assume xy: "x \<in> set rows" "y \<in> set rows" "col x = col y"
    have "ident x = ident y" by (rule determinesD[OF assms(2) xy(1,2) refl]) (simp only: xy(3))
    then show "x = y" using assms(1) xy unfolding distinct_map by (metis inj_onD)
  qed
qed

text \<open>C2: free credits cannot be claimed twice by changing accounts. In every store reachable through its
  calls, in any order and with any outcome, no two vouchers share an account, a wallet or a claim key; no
  two canonical claim events share a claim key; every voucher belongs to an account with the same claim
  key, and no two accounts share a wallet.\<close>

theorem one_claim_per_identity:
  assumes "reaches store_start (store_step env) s"
  shows "distinct (map v_account (vouchers s)) \<and> distinct (map v_wallet (vouchers s)) \<and>
    distinct (map v_key (vouchers s)) \<and> distinct (map ev_key (canonical_claims s)) \<and>
    (\<forall>v\<in>set (vouchers s). \<exists>a\<in>set (accounts s). ar_id a = v_account v \<and> ar_key a = v_key v) \<and>
    (\<forall>a\<in>set (accounts s). \<forall>b\<in>set (accounts s). ar_wallet a \<noteq> None \<longrightarrow> ar_wallet a = ar_wallet b \<longrightarrow> a = b)"
proof -
  have i: "store_inv s" by (rule store_machine.reachable_inv[OF assms])
  then have v: "distinct (map v_account (vouchers s))" by (simp add: store_inv_def voucher_inv_def)
  moreover have "distinct (map v_wallet (vouchers s))" "distinct (map v_key (vouchers s))"
    using i v by (auto simp: store_inv_def voucher_inv_def intro: distinct_column)
  moreover have "distinct (map ev_key (canonical_claims s))"
  proof (rule distinct_column[of event_key])
    show "distinct (map event_key (canonical_claims s))"
      using i by (simp add: store_inv_def event_inv_def canonical_claims_def distinct_map_filter)
    show "determines (\<lambda>e. Some (ev_key e)) event_key (canonical_claims s)"
      unfolding determines_def
    proof (intro ballI impI)
      fix e f assume ef: "e \<in> set (canonical_claims s)" "f \<in> set (canonical_claims s)" "Some (ev_key e) = Some (ev_key f)"
      have "determines (\<lambda>e. if ev_canonical e then Some (ev_key e) else None) event_key (claim_events s)"
        using i by (simp add: store_inv_def event_inv_def)
      then show "event_key e = event_key f"
        by (rule determinesD[of _ _ _ e f "ev_key e"]) (use ef in \<open>simp_all add: canonical_claims_def\<close>)
    qed
  qed
  moreover have "\<forall>v\<in>set (vouchers s). \<exists>a\<in>set (accounts s). ar_id a = v_account v \<and> ar_key a = v_key v"
    using i by (simp add: store_inv_def registry_inv_def)
  moreover have "\<forall>a\<in>set (accounts s). \<forall>b\<in>set (accounts s). ar_wallet a \<noteq> None \<longrightarrow> ar_wallet a = ar_wallet b \<longrightarrow> a = b"
  proof (intro ballI impI)
    fix a b assume ab: "a \<in> set (accounts s)" "b \<in> set (accounts s)" "ar_wallet a \<noteq> None" "ar_wallet a = ar_wallet b"
    obtain w where w: "ar_wallet a = Some w" "ar_wallet b = Some w" using ab(3,4) by auto
    have "determines ar_wallet ar_id (accounts s)" using i by (simp add: store_inv_def account_inv_def)
    then have "ar_id a = ar_id b" by (rule determinesD[OF _ ab(1,2) w])
    moreover have "inj_on ar_id (set (accounts s))" using i by (simp add: store_inv_def account_inv_def distinct_map)
    ultimately show "a = b" using ab by (metis inj_onD)
  qed
  ultimately show ?thesis by blast
qed


section \<open>The claim limit\<close>

lemma filter_map_bound:
  assumes "\<And>v. v \<in> set vs \<Longrightarrow> \<not> hit v \<Longrightarrow> f v = v"
  shows "length (filter P (map f vs)) \<le> length (filter P vs) + length (filter hit vs)"
  using assms by (induction vs) force+

lemma single_voucher: "distinct (map v_account vs) \<Longrightarrow> length (filter (\<lambda>v. v_account v = i) vs) \<le> 1"
proof (induction vs)
  case (Cons v vs)
  then show ?case by (cases "v_account v = i") (auto simp: filter_empty_conv image_iff)
qed simp

lemma reserveClaim_Inr:
  assumes "reserveClaim env i owner now d k n s = (t, Inr v)"
  shows "reserve_work env i owner now d k n s = Inr (t, v) \<and> now < d"
  using assms by (auto simp: reserveClaim_def bind_r_Inr check_Inr atomic_Inr split: sum.splits if_splits)

lemma reserve_reconciled:
  "reserve_work env i owner now d k n s = Inr (t, v) \<Longrightarrow> int (length (canonical_claims s)) = k"
  by (auto simp: reserve_work_def bind_r_Inr split: if_splits)

text \<open>The hundred-claim limit is kept by every voucher that is issued or renewed: afterwards the claims
  observed on chain, which must agree with the chain's own count, and the vouchers that may still be used
  are together at most one hundred. A call that issues nothing returns the live voucher unchanged.\<close>

theorem claim_limit_kept:
  assumes "reaches store_start (store_step env) s" and "reserveClaim env i owner now d k n s = (t, Inr v)"
  shows "int (length (canonical_claims s)) = k \<and>
    (if t = s then now < v_deadline v else int (length (canonical_claims t)) + unresolved now t \<le> 100)"
proof -
  have w: "reserve_work env i owner now d k n s = Inr (t, v)" using reserveClaim_Inr[OF assms(2)] by simp
  have k: "int (length (canonical_claims s)) = k" by (rule reserve_reconciled[OF w])
  have one: "length (filter (\<lambda>v. v_account v = i) (vouchers s)) \<le> 1"
    using store_machine.reachable_inv[OF assms(1)] by (intro single_voucher) (simp add: store_inv_def voucher_inv_def)
  show ?thesis
    using w
  proof (rule reserve_work_Inr)
    assume t: "t = renew_voucher i now d s" and lim: "k + unresolved now s < 100"
      and old: "\<exists>w. voucher s i = Some w \<and> v_tx w = None \<and> v_status w \<notin> {V_COMPLETED, V_INCLUDED, V_REORGED, V_REVERTED}"
      and v: "voucher t i = Some v"
    have "unresolved now t \<le> unresolved now s + 1"
      using filter_map_bound[of "vouchers s" "\<lambda>v. v_account v = i"
          "\<lambda>v. if v_account v = i then v\<lparr>v_issued := now, v_deadline := d, v_status := V_ISSUED\<rparr> else v"
          "unresolved_voucher now"] one
      by (simp add: unresolved_def t renew_voucher_def)
    moreover have "canonical_claims t = canonical_claims s" by (simp add: t renew_voucher_def canonical_claims_def)
    moreover have "now < v_deadline v"
    proof -
      have "v \<in> set (vouchers t)" "v_account v = i" using v find_some by (fastforce simp: voucher_def)+
      then obtain w where "v = w\<lparr>v_issued := now, v_deadline := d, v_status := V_ISSUED\<rparr>"
        by (auto simp: t renew_voucher_def split: if_splits)
      then show ?thesis using reserveClaim_Inr[OF assms(2)] by simp
    qed
    ultimately show ?thesis using k lim by auto
  next
    fix a r
    assume t: "t = s\<lparr>vouchers := vouchers s @ [r]\<rparr>" and lim: "k + unresolved now s < 100"
    have "unresolved now t \<le> unresolved now s + 1" by (simp add: unresolved_def t)
    moreover have "t \<noteq> s" by (metis append_self_conv market_store.select_convs(7) market_store.surjective
        market_store.update_convs(7) not_Cons_self2 t)
    moreover have "canonical_claims t = canonical_claims s" by (simp add: t canonical_claims_def)
    ultimately show ?thesis using k lim by simp
  qed (use k in simp)
qed

section \<open>Spent vouchers\<close>

definition spent :: "string \<Rightarrow> market_store \<Rightarrow> bool" where
  "spent i s \<longleftrightarrow> (\<exists>v\<in>set (vouchers s). v_account v = i \<and> v_tx v \<noteq> None)"

lemma spent_map:
  "spent i s \<Longrightarrow> vouchers t = map f (vouchers s) \<Longrightarrow> (\<And>v. same_owner (f v) v) \<Longrightarrow> (\<And>v. v_tx v \<noteq> None \<Longrightarrow> v_tx (f v) \<noteq> None) \<Longrightarrow>
     spent i t"
  by (fastforce simp: spent_def same_owner_def)

lemma spent_set_status: "spent i s \<Longrightarrow> spent i (set_voucher_status tx st s)"
  by (erule spent_map[where f = "\<lambda>v. if v_tx v = Some tx then v\<lparr>v_status := st\<rparr> else v"])
    (auto simp: set_voucher_status_def same_owner_def)

lemma spent_rollback: "spent i s \<Longrightarrow> spent i (rollback_work b s)"
proof -
  assume "spent i s"
  then have "spent i (fold (\<lambda>e. set_voucher_status (ev_tx e) V_REORGED) es s)" for es
    by (induction es arbitrary: s) (auto intro: spent_set_status)
  then show ?thesis by (simp add: rollback_work_def Let_def spent_def)
qed

lemma spent_mark_submitted: "spent i s \<Longrightarrow> mark_submitted a tx s = Inr t \<Longrightarrow> spent i t"
  by (erule spent_map[where f = "\<lambda>v. if v_account v = a \<and> v_tx v = None then v\<lparr>v_status := V_SUBMITTED, v_tx := Some tx\<rparr> else v"])
    (auto simp: mark_submitted_def Let_def same_owner_def split: if_splits)

lemma spent_mark_claimed: "spent i s \<Longrightarrow> mark_claimed key st tx s = Inr t \<Longrightarrow> spent i t"
  by (erule spent_map[where f = "\<lambda>v. if v_key v = key then v\<lparr>v_status := st, v_tx := Some tx\<rparr> else v"])
    (auto simp: mark_claimed_def same_owner_def split: if_splits)

lemma spent_renew: "spent i s \<Longrightarrow> spent i (renew_voucher a now d s)"
  by (erule spent_map[where f = "\<lambda>v. if v_account v = a then v\<lparr>v_issued := now, v_deadline := d, v_status := V_ISSUED\<rparr> else v"])
    (auto simp: renew_voucher_def same_owner_def)

lemma spent_cong: "vouchers t = vouchers s \<Longrightarrow> spent i t = spent i s"
  by (simp add: spent_def)

lemma other_tables_spent [simp]:
  "spent i (s\<lparr>wallet_challenges := cs\<rparr>) = spent i s" "spent i (s\<lparr>test_challenges := cs\<rparr>) = spent i s"
  "spent i (s\<lparr>quotes := qs\<rparr>) = spent i s" "spent i (s\<lparr>operation_rows := rs\<rparr>) = spent i s"
  "spent i (s\<lparr>accounts := as\<rparr>) = spent i s"
  by (simp_all add: spent_def)

lemma spent_append: "spent i s \<Longrightarrow> spent i (s\<lparr>vouchers := vouchers s @ vs\<rparr>)"
  unfolding spent_def by auto

lemma spent_reserve:
  assumes "spent i s" "reserve_work env a owner now d k n s = Inr (t, v)"
  shows "spent i t"
  using assms(2)
proof (rule reserve_work_Inr)
  assume "t = renew_voucher a now d s"
  then show ?thesis using assms(1) by (simp add: spent_renew)
next
  fix b r assume "t = s\<lparr>vouchers := vouchers s @ [r]\<rparr>"
  then show ?thesis using assms(1) by (simp only: spent_append)
qed (use assms(1) in simp)

lemma spent_observe: "spent i s \<Longrightarrow> observe_work env c s = Inr t \<Longrightarrow> spent i t"
proof (erule observe_work_Inr)
  fix r u st tx assume "spent i s" "upsert_event r s = Inr u" "mark_claimed (ic_accountKey c) st tx u = Inr t"
  moreover from this have "vouchers u = vouchers s" by (auto simp: upsert_event_def split: option.splits if_splits)
  ultimately show "spent i t" using spent_mark_claimed spent_cong by blast
qed

lemma spent_submit:
  assumes i: "spent i s" and w: "submit_work a q p tx u s = Inr (t, x)"
  shows "spent i t"
proof -
  have ops: "spent i (s\<lparr>operation_rows := rs\<rparr>)" for rs using i by simp
  show ?thesis using w i
    by (auto simp: submit_work_def Let_def bind_r_Inr split: option.splits if_splits dest: spent_mark_submitted[OF ops])
qed

lemma atomic_spent:
  "spent i s \<Longrightarrow> (\<And>t x. w s = Inr (t, x) \<Longrightarrow> spent i t) \<Longrightarrow> spent i (fst (atomic w s))"
  using atomic_cases[of w s] by metis


lemma open_session_vouchers: "open_session env w now u tok cs s = Inr (t, x) \<Longrightarrow> vouchers t = vouchers s"
  by (auto simp: open_session_def session_account_def insert_account_def Let_def bind_r_Inr
      split: prod.splits if_splits option.splits)

lemma bind_signer_vouchers: "bind_signer a w s = Inr (t, x) \<Longrightarrow> vouchers t = vouchers s"
  by (auto simp: bind_signer_def Let_def bind_r_Inr split: option.splits if_splits)

lemma atomic_vouchers:
  "(\<And>t x. w s = Inr (t, x) \<Longrightarrow> vouchers t = vouchers s) \<Longrightarrow> vouchers (fst (atomic w s)) = vouchers s"
  using atomic_cases[of w s] by metis

lemma two_phase_vouchers:
  assumes "\<And>t x. w s0 = Inr (t, x) \<Longrightarrow> vouchers (fst (k t x)) = vouchers s0"
  shows "vouchers (fst (case atomic w s0 of (s1, Inl e) \<Rightarrow> (s1, Inl e) | (s1, Inr x) \<Rightarrow> k s1 x)) = vouchers s0"
proof (cases "w s0")
  case (Inl e)
  then show ?thesis by (simp add: atomic_def)
next
  case (Inr tx)
  then show ?thesis using assms by (cases tx) (simp add: atomic_def)
qed

lemma signer_vouchers:
  assumes "\<And>g t' x. f g t = Inr (t', x) \<Longrightarrow> vouchers t' = vouchers t"
  shows "vouchers (fst (case challenge_signer env c sig of Inl e \<Rightarrow> (t, Inl e) | Inr g \<Rightarrow> atomic (f g) t)) = vouchers t"
  using assms by (auto split: sum.splits intro!: atomic_vouchers)

lemma bindWallet_vouchers: "vouchers (fst (bindWallet env a n sig now s)) = vouchers s"
proof (cases "bind_r (seconds now) (\<lambda>_. check (nonce_ok n \<and> hex_digits 130 sig) WALLET_SIGNATURE_REQUIRED)")
  case (Inl e)
  then show ?thesis by (simp only: bindWallet_def sum.case fst_conv)
next
  case (Inr u)
  show ?thesis unfolding bindWallet_def Inr sum.case
    by (rule two_phase_vouchers) (auto split: option.splits simp: signer_vouchers bind_signer_vouchers)
qed

lemma openWalletTestSession_vouchers: "vouchers (fst (openWalletTestSession env n sig now u tok cs s)) = vouchers s"
proof (cases "bind_r (seconds now) (\<lambda>_. check (nonce_ok n \<and> hex_digits 130 sig) WALLET_SIGNATURE_REQUIRED)")
  case (Inl e)
  then show ?thesis by (simp only: openWalletTestSession_def sum.case fst_conv)
next
  case (Inr u')
  show ?thesis unfolding openWalletTestSession_def Inr sum.case
    by (rule two_phase_vouchers) (auto split: option.splits simp: signer_vouchers open_session_vouchers)
qed

lemma spent_call: "spent i s \<Longrightarrow> spent i (perform_call env s c)"
proof (cases c)
  case (Call_trustedAccount p now u)
  assume "spent i s"
  then show ?thesis unfolding Call_trustedAccount
    by (auto simp: trustedAccount_def bind_r_Inr insert_account_def split: sum.splits option.splits if_splits
        intro!: atomic_spent)
next
  case (Call_bindingChallenge a w now n)
  assume "spent i s"
  then show ?thesis unfolding Call_bindingChallenge
    by (auto simp: bindingChallenge_def bind_r_Inr split: sum.splits intro!: atomic_spent)
next
  case (Call_walletTestChallenge w now n)
  assume "spent i s"
  then show ?thesis unfolding Call_walletTestChallenge
    by (auto simp: walletTestChallenge_def bind_r_Inr split: sum.splits intro!: atomic_spent)
next
  case (Call_reserveClaim a ow now d k n)
  assume "spent i s"
  then show ?thesis unfolding Call_reserveClaim
    by (auto simp: reserveClaim_def split: sum.splits intro!: atomic_spent dest: spent_reserve)
next
  case (Call_saveQuote a q)
  assume "spent i s"
  then show ?thesis unfolding Call_saveQuote
    by (auto simp: saveQuote_def bind_r_Inr split: if_splits intro!: atomic_spent)
next
  case (Call_submit a q tx u)
  assume "spent i s"
  then show ?thesis unfolding Call_submit
    by (auto simp: submit_def split: sum.splits intro!: atomic_spent dest: spent_submit)
next
  case (Call_updateOperation p)
  assume "spent i s"
  then show ?thesis unfolding Call_updateOperation
    by (auto simp: updateOperation_def intro!: atomic_spent spent_set_status)
next
  case (Call_observeClaim c)
  assume "spent i s"
  then show ?thesis unfolding Call_observeClaim
    by (auto simp: observeClaim_def bind_r_Inr intro!: atomic_spent dest: spent_observe)
next
  case (Call_rollbackClaims b)
  assume "spent i s"
  then show ?thesis unfolding Call_rollbackClaims
    by (auto simp: rollbackClaims_def intro!: atomic_spent spent_rollback)
qed (simp_all add: spent_cong[OF bindWallet_vouchers] spent_cong[OF openWalletTestSession_vouchers])


text \<open>C40: a reorganisation never silently reopens a claim. Once a transaction is recorded against an account's
  voucher, no later sequence of calls, rollbacks included, lets that account reserve a claim again.\<close>

theorem spent_voucher_never_reissued:
  assumes "reaches store_start (store_step env) s" and "voucher s i = Some v" and "v_tx v \<noteq> None"
  shows "\<exists>e. snd (reserveClaim env i owner now d k n (run_inputs (store_step env) s calls)) = Inl e"
proof -
  define t where "t = run_inputs (store_step env) s calls"
  have "spent i s" using assms(2,3) find_some by (fastforce simp: voucher_def spent_def)
  then have sp: "spent i t" unfolding t_def
    by (induction calls arbitrary: s) (auto simp: store_step_def spent_call)
  have "reaches store_start (store_step env) t"
    unfolding t_def by (rule store_machine.run_reaches[OF assms(1)])
  then have inv: "store_inv t" by (rule store_machine.reachable_inv)
  obtain w where w: "w \<in> set (vouchers t)" "v_account w = i" "v_tx w \<noteq> None" using sp by (auto simp: spent_def)
  have only: "voucher t i = Some x \<Longrightarrow> x = w" for x
  proof -
    assume "voucher t i = Some x"
    then have "x \<in> set (vouchers t)" "v_account x = i" using find_some by (fastforce simp: voucher_def)+
    moreover have "inj_on v_account (set (vouchers t))" using inv by (simp add: store_inv_def voucher_inv_def distinct_map)
    ultimately show "x = w" using w by (metis inj_onD)
  qed
  have "False" if "reserveClaim env i owner now d k n t = (u, Inr x)" for u x
    using conjunct1[OF reserveClaim_Inr[OF that]]
  proof (rule reserve_work_Inr)
    assume "voucher t i = Some x" "v_tx x = None"
    then show False using only[of x] w(3) by simp
  next
    assume "\<exists>y. voucher t i = Some y \<and> v_tx y = None \<and> v_status y \<notin> {V_COMPLETED, V_INCLUDED, V_REORGED, V_REVERTED}"
    then obtain y where "voucher t i = Some y" "v_tx y = None" by (elim exE conjE)
    then show False using only[of y] w(3) by simp
  next
    fix a r assume "\<forall>y\<in>set (vouchers t). v_account y \<noteq> i \<and> v_key y \<noteq> v_key r \<and> v_wallet y \<noteq> v_wallet r"
    then show False using w(1,2) by simp
  qed
  then show ?thesis unfolding t_def[symmetric]
    by (cases "reserveClaim env i owner now d k n t"; cases "snd (reserveClaim env i owner now d k n t)") auto
qed

section \<open>Challenges are single use\<close>

definition refused_early :: "launch_error + wallet_session \<Rightarrow> bool" where
  "refused_early r \<longleftrightarrow> r \<in> {Inl INVALID_TIME, Inl WALLET_SIGNATURE_REQUIRED, Inl WALLET_CHALLENGE_EXPIRED}"

definition used_up :: "string \<Rightarrow> market_store \<Rightarrow> bool" where
  "used_up n s \<longleftrightarrow> (\<forall>c\<in>set (test_challenges s). ch_nonce c = n \<longrightarrow> ch_consumed c)"

lemma session_account_challenges: "session_account env w now u s = Inr (t, x) \<Longrightarrow> test_challenges t = test_challenges s"
  by (auto simp: session_account_def insert_account_def bind_r_Inr split: if_splits option.splits)

lemma open_session_challenges:
  assumes "open_session env w now u tok cs s = Inr (t, x)"
  shows "test_challenges t = test_challenges s"
proof -
  obtain s1 a where s1: "session_account env w now u s = Inr (s1, a)"
    using assms by (auto simp only: open_session_def bind_r_Inr)
  have "test_challenges t = test_challenges s1"
    using assms s1 by (auto simp: open_session_def Let_def bind_r_Inr split: if_splits)
  then show ?thesis using session_account_challenges[OF s1] by simp
qed

lemma consume_consumes:
  assumes "x \<in> set (consume n cs)" and "ch_nonce x = n"
  shows "ch_consumed x"
proof -
  obtain c where "x = (if ch_nonce c = n then c\<lparr>ch_consumed := True\<rparr> else c)"
    using assms(1) unfolding consume_def set_map by (elim imageE)
  with assms(2) show ?thesis by (cases "ch_nonce c = n") simp_all
qed

lemma consume_used_up: "used_up n (s\<lparr>test_challenges := consume n cs\<rparr>)"
  unfolding used_up_def by (simp add: consume_consumes)

text \<open>The two phases of opening a session, with the challenge the first one finds.\<close>

definition live_challenge :: "string \<Rightarrow> int \<Rightarrow> market_store \<Rightarrow> challenge_row option" where
  "live_challenge n now s =
     find (\<lambda>c. ch_nonce c = n \<and> \<not> ch_consumed c \<and> ch_issued c \<le> now \<and> ch_expires c > now) (test_challenges s)"

definition session_request_ok :: "string \<Rightarrow> string \<Rightarrow> int \<Rightarrow> launch_error + unit" where
  "session_request_ok n sig now =
     bind_r (seconds now) (\<lambda>_. check (nonce_ok n \<and> hex_digits 130 sig) WALLET_SIGNATURE_REQUIRED)"

lemma openWalletTestSession_phases:
  "openWalletTestSession env n sig now u tok cs s =
    (case session_request_ok n sig now of Inl e \<Rightarrow> (s, Inl e) | Inr _ \<Rightarrow>
      (case live_challenge n now s of None \<Rightarrow> (s, Inl WALLET_CHALLENGE_EXPIRED) | Some c \<Rightarrow>
        (case challenge_signer env c sig of
           Inl e \<Rightarrow> (s\<lparr>test_challenges := consume n (test_challenges s)\<rparr>, Inl e)
         | Inr signer \<Rightarrow> atomic (open_session env signer now u tok cs)
             (s\<lparr>test_challenges := consume n (test_challenges s)\<rparr>))))"
  unfolding openWalletTestSession_def session_request_ok_def live_challenge_def
  by (auto simp: atomic_def split: sum.split option.split)

lemma session_request_Inl: "session_request_ok n sig now = Inl e \<Longrightarrow> refused_early (Inl e)"
  by (auto simp: session_request_ok_def seconds_def check_Inl refused_early_def split: if_splits)

lemma used_up_refuses:
  assumes "used_up n s"
  shows "fst (openWalletTestSession env n sig now u tok cs s) = s \<and>
    refused_early (snd (openWalletTestSession env n sig now u tok cs s))"
proof -
  have "live_challenge n now s = None"
    using assms by (auto simp: find_None_iff used_up_def live_challenge_def)
  then show ?thesis unfolding openWalletTestSession_phases
    using session_request_Inl by (auto simp: refused_early_def split: sum.split)
qed

text \<open>A signed challenge opens at most one session. As soon as a call got past the first check of the
  nonce, whether it then succeeded or the signature was rejected, the same nonce is refused from then on,
  whatever is presented with it, and the refusal changes nothing.\<close>

theorem challenge_used_once:
  assumes "openWalletTestSession env n sig now u tok cs s = (t, r)" and "\<not> refused_early r"
  shows "fst (openWalletTestSession env n sig' now' u' tok' cs' t) = t \<and>
    refused_early (snd (openWalletTestSession env n sig' now' u' tok' cs' t))"
proof (rule used_up_refuses)
  define s1 where "s1 = s\<lparr>test_challenges := consume n (test_challenges s)\<rparr>"
  have late: "\<not> refused_early (snd (openWalletTestSession env n sig now u tok cs s))" using assms by simp
  obtain x where x: "session_request_ok n sig now = Inr x"
    using late session_request_Inl unfolding openWalletTestSession_phases
    by (cases "session_request_ok n sig now") auto
  obtain c where c: "live_challenge n now s = Some c"
    using late x unfolding openWalletTestSession_phases
    by (cases "live_challenge n now s") (auto simp: refused_early_def)
  have "(t, r) = (case challenge_signer env c sig of Inl e \<Rightarrow> (s1, Inl e)
      | Inr signer \<Rightarrow> atomic (open_session env signer now u tok cs) s1)"
    unfolding assms(1)[symmetric] openWalletTestSession_phases x c s1_def by simp
  then have "test_challenges t = test_challenges s1"
    by (auto split: sum.splits simp: atomic_def dest: open_session_challenges)
  then show "used_up n t" using consume_used_up[of n "test_challenges s" s] by (simp add: used_up_def s1_def)
qed

section \<open>Witnesses\<close>

definition demo_hash :: string where
  "demo_hash = ''0x'' @ replicate 64 CHR ''b''"

definition demo_env :: market_env where
  "demo_env = \<lparr>env_getAddress = (\<lambda>a. Some a), env_verifyMessage = (\<lambda>m sig. Some ''0xabc''),
     env_id = (\<lambda>x. demo_hash), env_sha256 = (\<lambda>x. x), env_host = (\<lambda>x. x), env_iso = (\<lambda>n. Some (toString n))\<rparr>"

definition demo_nonce :: string where
  "demo_nonce = replicate 48 CHR ''a''"

definition demo_signature :: string where
  "demo_signature = ''0x'' @ replicate 130 CHR ''1''"

definition demo_calls :: "store_call list" where
  "demo_calls =
    [Call_walletTestChallenge ''0xabc'' 1 demo_nonce,
     Call_openWalletTestSession demo_nonce demo_signature 2 ''u1'' ''t1'' ''c1'',
     Call_reserveClaim ''u1'' ''0xabc'' 3 50 0 ''7'']"

definition demo_store :: market_store where
  "demo_store = run_inputs (store_step demo_env) (empty_store ''o'') demo_calls"

lemma demo_store_reaches: "reaches store_start (store_step demo_env) demo_store"
proof -
  have "store_start (empty_store ''o'')" unfolding store_start_def by blast
  then show ?thesis unfolding demo_store_def by (intro store_machine.run_reaches reach_init)
qed

theorem one_claim_per_identity_witness:
  "length (vouchers demo_store) = 1 \<and> distinct (map v_account (vouchers demo_store)) \<and>
    distinct (map v_wallet (vouchers demo_store))"
proof -
  have "length (vouchers demo_store) = 1" by code_simp
  then show ?thesis using one_claim_per_identity[OF demo_store_reaches] by simp
qed

definition demo_reserved :: "voucher_row store_result" where
  "demo_reserved = reserveClaim demo_env ''u1'' ''0xabc'' 4 100 0 ''7'' demo_store"

theorem claim_limit_kept_witness:
  "int (length (canonical_claims demo_store)) = 0 \<and> \<not> isl (snd demo_reserved)"
proof -
  have ok: "\<not> isl (snd demo_reserved)" by code_simp
  then obtain v where v: "snd demo_reserved = Inr v" by (cases "snd demo_reserved") auto
  have "reserveClaim demo_env ''u1'' ''0xabc'' 4 100 0 ''7'' demo_store = (fst demo_reserved, Inr v)"
    unfolding v[symmetric] by (simp add: demo_reserved_def)
  from claim_limit_kept[OF demo_store_reaches this] ok show ?thesis by simp
qed

definition demo_claim :: indexed_claim where
  "demo_claim = \<lparr>ic_accountKey = demo_hash, ic_wallet = ''0xabc'',
     ic_location = \<lparr>loc_chainId = LAUNCH_CHAIN_ID, loc_blockNumber = ''9'', loc_blockHash = demo_hash,
       loc_transactionHash = Some demo_hash, loc_logIndex = Some 0, loc_version = ''1'', loc_confirmations = 3\<rparr>\<rparr>"

definition demo_claimed :: market_store where
  "demo_claimed = run_inputs (store_step demo_env) demo_store [Call_observeClaim demo_claim]"

lemma demo_claimed_reaches: "reaches store_start (store_step demo_env) demo_claimed"
  unfolding demo_claimed_def by (rule store_machine.run_reaches[OF demo_store_reaches])

theorem spent_voucher_never_reissued_witness:
  "\<exists>v. voucher demo_claimed ''u1'' = Some v \<and> v_tx v \<noteq> None \<and>
     (\<exists>e. snd (reserveClaim demo_env ''u1'' ''0xabc'' 4 100 0 ''8''
        (run_inputs (store_step demo_env) demo_claimed [Call_rollbackClaims 5])) = Inl e)"
proof -
  have "(case voucher demo_claimed ''u1'' of None \<Rightarrow> False | Some v \<Rightarrow> v_tx v \<noteq> None)" by code_simp
  then obtain v where v: "voucher demo_claimed ''u1'' = Some v" "v_tx v \<noteq> None" by (auto split: option.splits)
  show ?thesis using spent_voucher_never_reissued[OF demo_claimed_reaches v] v by blast
qed

definition demo_opened :: "wallet_session store_result" where
  "demo_opened = openWalletTestSession demo_env demo_nonce demo_signature 2 ''u1'' ''t1'' ''c1''
     (run_inputs (store_step demo_env) (empty_store ''o'') [Call_walletTestChallenge ''0xabc'' 1 demo_nonce])"

theorem challenge_used_once_witness:
  "\<not> isl (snd demo_opened) \<and>
    refused_early (snd (openWalletTestSession demo_env demo_nonce demo_signature 2 ''u2'' ''t2'' ''c2'' (fst demo_opened)))"
proof -
  have ok: "\<not> isl (snd demo_opened)" by code_simp
  then have late: "\<not> refused_early (snd demo_opened)" by (auto simp: refused_early_def)
  have "openWalletTestSession demo_env demo_nonce demo_signature 2 ''u1'' ''t1'' ''c1''
      (run_inputs (store_step demo_env) (empty_store ''o'') [Call_walletTestChallenge ''0xabc'' 1 demo_nonce])
    = (fst demo_opened, snd demo_opened)" by (simp add: demo_opened_def)
  from challenge_used_once[OF this late] ok show ?thesis by simp
qed

text \<open>The voucher keeps the transaction hash as it was given, the claim event the lower-case one. A claim
  reported with an upper-case hash is therefore not found when its block is rolled back: the event is no
  longer canonical, the voucher stays COMPLETED.\<close>

lemma unnormalised_claim_survives_rollback:
  "let c = demo_claim\<lparr>ic_location := ic_location demo_claim\<lparr>loc_transactionHash := Some (''0x'' @ replicate 64 CHR ''B'')\<rparr>\<rparr>;
       s = run_inputs (store_step demo_env) demo_store [Call_observeClaim c, Call_rollbackClaims 5] in
   map v_status (vouchers s) = [V_COMPLETED] \<and> canonical_claims s = []"
  by code_simp

lemma normalised_claim_is_rolled_back:
  "let s = run_inputs (store_step demo_env) demo_store [Call_observeClaim demo_claim, Call_rollbackClaims 5] in
   map v_status (vouchers s) = [V_REORGED] \<and> canonical_claims s = []"
  by code_simp

end
