(* ===== verification/Launch_Projection.thy ===== *)
theory Launch_Projection
  imports Launch_Claims
begin

text \<open>
  \<^bold>\<open>packages/launch-market/src/projection.ts\<close>: the broker that hands updates to the connected listeners and the
  projector that stores the market snapshot of each block, follows reorganisations and numbers what it
  publishes. A listener is any value; whether it throws on an update is an argument of \<open>publish\<close>.
  The table of snapshots has the keys of the schema: (block, hash) is primary, versions are unique, and at most
  one canonical row exists per block; violating one is SQLITE_CONSTRAINT. \<open>JSON.stringify\<close> of a snapshot is
  the snapshot. Shown: \<open>head_follows_commits\<close>.
\<close>

section \<open>Broker\<close>

record 'l broker =
  br_listeners :: "'l list"
  br_maxConnections :: int

definition subscribe :: "'l \<Rightarrow> 'l broker \<Rightarrow> launch_error + 'l broker" where
  "subscribe l b =
    (if int (length (br_listeners b)) \<ge> br_maxConnections b then Inl SYNC_CONNECTION_LIMIT
     else Inr (b\<lparr>br_listeners := (if l \<in> set (br_listeners b) then br_listeners b else br_listeners b @ [l])\<rparr>))"

definition unsubscribe :: "'l \<Rightarrow> 'l broker \<Rightarrow> 'l broker" where
  "unsubscribe l b = b\<lparr>br_listeners := filter (\<lambda>x. x \<noteq> l) (br_listeners b)\<rparr>"

definition publish :: "('l \<Rightarrow> stream_update \<Rightarrow> bool) \<Rightarrow> stream_update \<Rightarrow> 'l broker \<Rightarrow> 'l broker" where
  "publish throws event b = b\<lparr>br_listeners := filter (\<lambda>l. \<not> throws l event) (br_listeners b)\<rparr>"

definition connections :: "'l broker \<Rightarrow> int" where
  "connections b = int (length (br_listeners b))"

definition close_broker :: "'l broker \<Rightarrow> 'l broker" where
  "close_broker b = b\<lparr>br_listeners := []\<rparr>"

section \<open>Projector\<close>

definition canonical_rows :: "market_store \<Rightarrow> snapshot_row list" where
  "canonical_rows s = filter sr_canonical (snapshots s)"

definition by_height :: "market_store \<Rightarrow> snapshot_row list" where
  "by_height s = sort_key (\<lambda>r. - sr_block r) (canonical_rows s)"

definition latest :: "market_store \<Rightarrow> market_snapshot option" where
  "latest s = (case by_height s of [] \<Rightarrow> None | r # rs \<Rightarrow> Some (sr_payload r))"

definition projection_history :: "market_store \<Rightarrow> (string \<times> string) list" where
  "projection_history s = map (\<lambda>r. (toString (sr_block r), sr_hash r)) (take 128 (by_height s))"

definition next_version :: "market_store \<Rightarrow> market_store \<times> int" where
  "next_version s = (s\<lparr>projection_version := projection_version s + 1\<rparr>, projection_version s + 1)"

definition with_version :: "int \<Rightarrow> market_snapshot \<Rightarrow> market_snapshot" where
  "with_version v snap = snap\<lparr>snap_location := (snap_location snap)\<lparr>loc_version := toString v\<rparr>\<rparr>"

definition market_ok :: "market_env \<Rightarrow> strategy_market \<Rightarrow> launch_error + unit" where
  "market_ok env m =
     bind_r (launch_address (env_getAddress env) (sm_pass m)) (\<lambda>_.
     bind_r (for_each (\<lambda>p. bind_r (launch_address (env_getAddress env) p) (\<lambda>_. Inr ())) (filter (\<lambda>p. p \<noteq> []) (opt_list (sm_pool m)))) (\<lambda>_.
     for_each (\<lambda>raw. bind_r (launch_uint raw) (\<lambda>_. Inr ()))
       [totalSupplyRaw m, publicSupplyRaw m, soldRaw m, remainingRaw m, reservePassRaw m, reserveUsdcRaw m]))"

definition snapshot_ok :: "market_env \<Rightarrow> market_snapshot \<Rightarrow> string \<Rightarrow> launch_error + int \<times> string \<times> string" where
  "snapshot_ok env snap parentHash =
    (let l = snap_location snap; c = snap_claim snap in
     bind_r (launch_uint (loc_blockNumber l)) (\<lambda>block.
     bind_r (check (loc_chainId l = LAUNCH_CHAIN_ID \<and> block \<le> MAX_SAFE_INTEGER \<and> loc_confirmations l \<ge> 1)
               INVALID_PROJECTION_LOCATION) (\<lambda>_.
     bind_r (launch_hash (loc_blockHash l)) (\<lambda>bh.
     bind_r (launch_hash parentHash) (\<lambda>parent.
     bind_r (for_each (market_ok env) [snap_TSLA snap, snap_AMZN snap]) (\<lambda>_.
     bind_r (check (0 \<le> successfulClaims c \<and> successfulClaims c \<le> 100 \<and> remainingClaims c = 100 - successfulClaims c)
               INVALID_CLAIM_PROJECTION) (\<lambda>_.
     Inr (block, bh, parent))))))))"

definition follows :: "market_snapshot option \<Rightarrow> market_snapshot \<Rightarrow> int \<Rightarrow> string option \<Rightarrow> bool \<Rightarrow> launch_error + market_snapshot option" where
  "follows previous snap block previousCanonicalHash no_claims =
    (case previous of None \<Rightarrow> Inr None
     | Some old \<Rightarrow>
        bind_r (launch_uint (loc_blockNumber (snap_location old))) (\<lambda>oldBlock.
        bind_r (check (block \<ge> oldBlock) OLD_MARKET_UPDATE) (\<lambda>_.
        bind_r (check (\<not> (block = oldBlock \<and> loc_blockHash (snap_location snap) \<noteq> loc_blockHash (snap_location old))) REORG_REQUIRED) (\<lambda>_.
        bind_r (if block > oldBlock
                then (case previousCanonicalHash of None \<Rightarrow> Inl REORG_REQUIRED
                      | Some p \<Rightarrow> bind_r (launch_hash p) (\<lambda>h. check (h = loc_blockHash (snap_location old)) REORG_REQUIRED))
                else Inr ()) (\<lambda>_.
        Inr (if block = oldBlock \<and> snap\<lparr>snap_location := snap_location old\<rparr> = old \<and> no_claims then Some old else None))))))"

definition same_block :: "snapshot_row \<Rightarrow> snapshot_row \<Rightarrow> bool" where
  "same_block r q \<longleftrightarrow> sr_block r = sr_block q \<and> sr_hash r = sr_hash q"

definition upsert_snapshot :: "snapshot_row \<Rightarrow> market_store \<Rightarrow> launch_error + market_store" where
  "upsert_snapshot r s =
     bind_r (check (list_all (\<lambda>q. \<not> same_block r q \<longrightarrow> sr_version q \<noteq> sr_version r \<and> \<not> (sr_canonical q \<and> sr_block q = sr_block r)) (snapshots s))
               SQLITE_CONSTRAINT) (\<lambda>_.
     Inr (s\<lparr>snapshots := (if list_ex (same_block r) (snapshots s)
       then map (\<lambda>q. if same_block r q then q\<lparr>sr_version := sr_version r, sr_payload := sr_payload r, sr_canonical := True\<rparr> else q) (snapshots s)
       else snapshots s @ [r])\<rparr>))"

definition observe_at :: "market_env \<Rightarrow> int \<Rightarrow> indexed_claim \<Rightarrow> market_store \<Rightarrow> launch_error + market_store" where
  "observe_at env block c s =
     bind_r (launch_uint (loc_blockNumber (ic_location c))) (\<lambda>n.
     bind_r (check (n \<le> block) FUTURE_CLAIM_EVENT) (\<lambda>_. observe_work env c s))"

definition commit_work :: "market_env \<Rightarrow> market_snapshot \<Rightarrow> int \<Rightarrow> string \<Rightarrow> string \<Rightarrow> indexed_claim list \<Rightarrow> market_store \<Rightarrow>
    launch_error + market_store \<times> market_snapshot" where
  "commit_work env snap block bh parent claims s =
    (case next_version s of (s1, v) \<Rightarrow>
     let next = with_version v snap in
     bind_r (upsert_snapshot \<lparr>sr_block = block, sr_hash = bh, sr_parent = parent, sr_version = v, sr_payload = next, sr_canonical = True\<rparr> s1) (\<lambda>s2.
     bind_r (fold_r (observe_at env block) claims s2) (\<lambda>s3. Inr (s3, next))))"

text \<open>The result says whether an update is published: repeating the latest snapshot publishes nothing.\<close>

definition commit :: "market_env \<Rightarrow> market_snapshot \<Rightarrow> string \<Rightarrow> string option \<Rightarrow> indexed_claim list \<Rightarrow> market_store \<Rightarrow>
    (bool \<times> market_snapshot) store_result" where
  "commit env snap parentHash previousCanonicalHash claims s =
    (case bind_r (snapshot_ok env snap parentHash) (\<lambda>(block, bh, parent).
          bind_r (follows (latest s) snap block previousCanonicalHash (claims = [])) (\<lambda>known. Inr (block, bh, parent, known))) of
       Inl e \<Rightarrow> (s, Inl e)
     | Inr (block, bh, parent, Some old) \<Rightarrow> (s, Inr (False, old))
     | Inr (block, bh, parent, None) \<Rightarrow>
         atomic (\<lambda>s. bind_r (commit_work env snap block bh parent claims s) (\<lambda>(t, next). Inr (t, (True, next)))) s)"

definition orphan :: "int \<Rightarrow> snapshot_row \<Rightarrow> snapshot_row" where
  "orphan from r = (if sr_block r \<ge> from then r\<lparr>sr_canonical := False\<rparr> else r)"

definition set_payload :: "int \<Rightarrow> string \<Rightarrow> int \<Rightarrow> market_snapshot \<Rightarrow> snapshot_row \<Rightarrow> snapshot_row" where
  "set_payload block bh v snap r = (if sr_block r = block \<and> sr_hash r = bh then r\<lparr>sr_payload := snap, sr_version := v\<rparr> else r)"

definition rollback_head :: "int \<Rightarrow> market_store \<Rightarrow> launch_error + market_store \<times> market_snapshot option" where
  "rollback_head from s0 =
    (let s = rollback_work from s0; s1 = s\<lparr>snapshots := map (orphan from) (snapshots s)\<rparr> in
     case next_version s1 of (s2, v) \<Rightarrow>
     (case latest s1 of None \<Rightarrow> Inr (s2, None)
      | Some result \<Rightarrow>
         let next = with_version v result in
         bind_r (launch_uint (loc_blockNumber (snap_location result))) (\<lambda>block.
         Inr (s2\<lparr>snapshots := map (set_payload block (loc_blockHash (snap_location result)) v next) (snapshots s2)\<rparr>, Some next))))"

definition rollbackFrom :: "string \<Rightarrow> market_store \<Rightarrow> market_snapshot option store_result" where
  "rollbackFrom fromBlock s =
    (case bind_r (launch_uint fromBlock) (\<lambda>from. bind_r (check (from \<le> MAX_SAFE_INTEGER) INVALID_PROJECTION_LOCATION) (\<lambda>_. Inr from)) of
       Inl e \<Rightarrow> (s, Inl e)
     | Inr from \<Rightarrow> atomic (rollback_head from) s)"

text \<open>The projector with its broker.\<close>

record 'l projector =
  pj_store :: market_store
  pj_broker :: "'l broker"

definition snapshot_update :: "stream_type \<Rightarrow> market_snapshot \<Rightarrow> stream_update" where
  "snapshot_update t snap = \<lparr>su_type = t, su_location = snap_location snap, su_snapshot = Some snap, su_operation = None\<rparr>"

definition commit_publish :: "market_env \<Rightarrow> ('l \<Rightarrow> stream_update \<Rightarrow> bool) \<Rightarrow> market_snapshot \<Rightarrow> string \<Rightarrow> string option \<Rightarrow>
    indexed_claim list \<Rightarrow> 'l projector \<Rightarrow> 'l projector \<times> (launch_error + market_snapshot)" where
  "commit_publish env throws snap parentHash previousCanonicalHash claims p =
    (case commit env snap parentHash previousCanonicalHash claims (pj_store p) of
       (t, Inl e) \<Rightarrow> (p\<lparr>pj_store := t\<rparr>, Inl e)
     | (t, Inr (new, next)) \<Rightarrow>
        (p\<lparr>pj_store := t, pj_broker := (if new then publish throws (snapshot_update SNAPSHOT next) (pj_broker p) else pj_broker p)\<rparr>, Inr next))"

definition rollback_publish :: "('l \<Rightarrow> stream_update \<Rightarrow> bool) \<Rightarrow> string \<Rightarrow> 'l projector \<Rightarrow> 'l projector \<times> (launch_error + market_snapshot option)" where
  "rollback_publish throws fromBlock p =
    (case rollbackFrom fromBlock (pj_store p) of
       (t, Inl e) \<Rightarrow> (p\<lparr>pj_store := t\<rparr>, Inl e)
     | (t, Inr None) \<Rightarrow> (p\<lparr>pj_store := t\<rparr>, Inr None)
     | (t, Inr (Some next)) \<Rightarrow> (p\<lparr>pj_store := t, pj_broker := publish throws (snapshot_update REORG next) (pj_broker p)\<rparr>, Inr (Some next)))"

section \<open>The snapshot table\<close>

text \<open>What every reachable table satisfies. The block number and hash in a payload are those of its row, up to
  the case of the hash.\<close>

definition row_ok :: "snapshot_row \<Rightarrow> bool" where
  "row_ok r \<longleftrightarrow> launch_uint (loc_blockNumber (snap_location (sr_payload r))) = Inr (sr_block r) \<and>
     launch_hash (loc_blockHash (snap_location (sr_payload r))) = Inr (sr_hash r) \<and>
     loc_version (snap_location (sr_payload r)) = toString (sr_version r)"

definition table_ok :: "int \<Rightarrow> snapshot_row list \<Rightarrow> bool" where
  "table_ok version rows \<longleftrightarrow> distinct (map (\<lambda>r. (sr_block r, sr_hash r)) rows) \<and> distinct (map sr_version rows) \<and>
     distinct (map sr_block (filter sr_canonical rows)) \<and> (\<forall>r\<in>set rows. sr_version r \<le> version \<and> row_ok r)"

definition projection_ok :: "market_store \<Rightarrow> bool" where
  "projection_ok s \<longleftrightarrow> table_ok (projection_version s) (snapshots s)"

lemma latest_Some:
  assumes "latest s = Some snap"
  shows "\<exists>r\<in>set (canonical_rows s). sr_payload r = snap \<and> (\<forall>q\<in>set (canonical_rows s). sr_block q \<le> sr_block r)"
proof -
  obtain r rs where h: "by_height s = r # rs" "sr_payload r = snap" using assms by (auto simp: latest_def split: list.splits)
  have "sorted (map (\<lambda>r. - sr_block r) (by_height s))" by (simp add: by_height_def)
  moreover have "set (by_height s) = set (canonical_rows s)" by (simp add: by_height_def)
  ultimately show ?thesis using h by (intro bexI[of _ r]) auto
qed

lemma latest_None: "latest s = None \<Longrightarrow> canonical_rows s = []"
  by (auto simp: latest_def by_height_def split: list.splits dest: arg_cong[of _ _ length])

lemma latest_highest:
  assumes "r \<in> set (canonical_rows s)" "\<forall>q\<in>set (canonical_rows s). sr_block q \<le> sr_block r" "distinct (map sr_block (canonical_rows s))"
  shows "latest s = Some (sr_payload r)"
proof (cases "latest s")
  case None
  then show ?thesis using latest_None assms(1) by fastforce
next
  case (Some snap)
  then obtain q where q: "q \<in> set (canonical_rows s)" "sr_payload q = snap" "sr_block r \<le> sr_block q"
    using latest_Some assms(1) by blast
  then have "q = r" using assms by (metis antisym distinct_map inj_onD)
  then show ?thesis using q Some by simp
qed

lemma table_grow: "table_ok v rows \<Longrightarrow> v \<le> w \<Longrightarrow> table_ok w rows"
  by (auto simp: table_ok_def)

lemma table_ok_sets:
  "table_ok v rows \<longleftrightarrow> distinct rows \<and> (\<forall>p\<in>set rows. \<forall>q\<in>set rows. same_block p q \<longrightarrow> p = q) \<and>
     (\<forall>p\<in>set rows. \<forall>q\<in>set rows. sr_version p = sr_version q \<longrightarrow> p = q) \<and>
     (\<forall>p\<in>set rows. \<forall>q\<in>set rows. sr_canonical p \<and> sr_canonical q \<and> sr_block p = sr_block q \<longrightarrow> p = q) \<and>
     (\<forall>r\<in>set rows. sr_version r \<le> v \<and> row_ok r)"
  unfolding table_ok_def distinct_map inj_on_def same_block_def by auto

text \<open>A change of rows that keeps block and hash keeps the table well-formed when versions stay apart and no height
  gets a second canonical row.\<close>

lemma table_map:
  assumes "table_ok v rows" "\<And>q. q \<in> set rows \<Longrightarrow> same_block (f q) q"
    and "\<And>p q. p \<in> set rows \<Longrightarrow> q \<in> set rows \<Longrightarrow> sr_version (f p) = sr_version (f q) \<Longrightarrow> p = q"
    and "\<And>p q. p \<in> set rows \<Longrightarrow> q \<in> set rows \<Longrightarrow> sr_canonical (f p) \<Longrightarrow> sr_canonical (f q) \<Longrightarrow> sr_block p = sr_block q \<Longrightarrow> p = q"
    and "\<And>q. q \<in> set rows \<Longrightarrow> sr_version (f q) \<le> w \<and> row_ok (f q)"
  shows "table_ok w (map f rows)"
proof -
  have k: "\<forall>p\<in>set rows. \<forall>q\<in>set rows. same_block (f p) (f q) \<longrightarrow> p = q"
    using assms(1,2) by (auto simp: table_ok_sets same_block_def)
  then have "inj_on f (set rows)" by (auto simp: inj_on_def same_block_def)
  moreover have "sr_block (f q) = sr_block q" if "q \<in> set rows" for q using assms(2)[OF that] by (simp add: same_block_def)
  moreover have "\<forall>p\<in>set rows. \<forall>q\<in>set rows. sr_canonical (f p) \<and> sr_canonical (f q) \<and> sr_block p = sr_block q \<longrightarrow> f p = f q"
    "\<forall>p\<in>set rows. \<forall>q\<in>set rows. sr_version (f p) = sr_version (f q) \<longrightarrow> f p = f q"
    "\<forall>p\<in>set rows. \<forall>q\<in>set rows. same_block (f p) (f q) \<longrightarrow> f p = f q" using assms(3,4) k by blast+
  ultimately show ?thesis using assms(1,5) by (simp add: table_ok_sets distinct_map)
qed

lemma upsert_table:
  assumes "upsert_snapshot r s = Inr t" "table_ok v (snapshots s)" "v < sr_version r" "row_ok r" "sr_canonical r"
  shows "table_ok (sr_version r) (snapshots t)"
    and "\<exists>q\<in>set (snapshots t). sr_block q = sr_block r \<and> sr_canonical q \<and> sr_payload q = sr_payload r"
    and "\<And>q. q \<in> set (snapshots t) \<Longrightarrow> sr_block q \<noteq> sr_block r \<Longrightarrow> q \<in> set (snapshots s)"
proof -
  define f where "f q = (if same_block r q then q\<lparr>sr_version := sr_version r, sr_payload := sr_payload r, sr_canonical := True\<rparr> else q)" for q
  have c: "\<forall>q\<in>set (snapshots s). \<not> same_block r q \<longrightarrow> sr_version q \<noteq> sr_version r \<and> \<not> (sr_canonical q \<and> sr_block q = sr_block r)"
    and t: "snapshots t = (if list_ex (same_block r) (snapshots s) then map f (snapshots s) else snapshots s @ [r])"
    using assms(1) by (auto simp: upsert_snapshot_def f_def[abs_def] list_all_iff split: if_splits)
  note tab = assms(2)[unfolded table_ok_sets]
  have f: "same_block (f q) q" "sr_canonical q \<Longrightarrow> sr_canonical (f q)" for q by (simp_all add: f_def same_block_def)
  have one: "p = q" if "p \<in> set (snapshots s)" "q \<in> set (snapshots s)" "same_block r p" "same_block r q" for p q
    using tab that by (auto simp: same_block_def)
  have mapped: "table_ok (sr_version r) (map f (snapshots s))"
  proof (rule table_map[OF assms(2) f(1)])
    fix p q assume pq: "p \<in> set (snapshots s)" "q \<in> set (snapshots s)"
    show "sr_version (f p) = sr_version (f q) \<Longrightarrow> p = q" using tab pq c one by (auto simp: f_def split: if_splits)
    show "sr_canonical (f p) \<Longrightarrow> sr_canonical (f q) \<Longrightarrow> sr_block p = sr_block q \<Longrightarrow> p = q"
      using tab pq c one by (auto simp: f_def same_block_def split: if_splits)
    show "sr_version (f q) \<le> sr_version r \<and> row_ok (f q)"
      using tab pq assms(3,4) by (force simp: f_def same_block_def row_ok_def)
  qed
  have added: "table_ok (sr_version r) (snapshots s @ [r])" if "\<not> list_ex (same_block r) (snapshots s)"
  proof -
    have n: "\<not> same_block r q \<and> \<not> same_block q r \<and> sr_version q \<noteq> sr_version r \<and> \<not> (sr_canonical q \<and> sr_block q = sr_block r)"
      if "q \<in> set (snapshots s)" for q
      using c \<open>\<not> list_ex (same_block r) (snapshots s)\<close> that unfolding list_ex_iff same_block_def by metis
    have "r \<notin> set (snapshots s)" using n by blast
    moreover have "\<forall>q\<in>set (snapshots s). sr_version q \<le> sr_version r \<and> row_ok q" using tab assms(3) by fastforce
    ultimately show ?thesis using tab n assms(4) unfolding table_ok_sets by auto (metis n)+
  qed
  show "table_ok (sr_version r) (snapshots t)" using mapped added t by simp
  show "\<exists>q\<in>set (snapshots t). sr_block q = sr_block r \<and> sr_canonical q \<and> sr_payload q = sr_payload r"
  proof (cases "list_ex (same_block r) (snapshots s)")
    case True
    then obtain q where q: "q \<in> set (snapshots s)" "same_block r q" by (auto simp: list_ex_iff)
    have "sr_block (f q) = sr_block r \<and> sr_canonical (f q) \<and> sr_payload (f q) = sr_payload r" using q(2) by (simp add: f_def same_block_def)
    then show ?thesis using q(1) t True by auto
  qed (use assms(5) t in auto)
  show "q \<in> set (snapshots t) \<Longrightarrow> sr_block q \<noteq> sr_block r \<Longrightarrow> q \<in> set (snapshots s)" for q
    using t by (auto simp: f_def same_block_def split: if_splits)
qed

lemma upsert_event_rows: "upsert_event r s = Inr t \<Longrightarrow> snapshots t = snapshots s \<and> projection_version t = projection_version s"
  by (auto simp: upsert_event_def split: if_splits option.splits)

lemma mark_claimed_rows: "mark_claimed k st tx s = Inr t \<Longrightarrow> snapshots t = snapshots s \<and> projection_version t = projection_version s"
  by (auto simp: mark_claimed_def split: if_splits)

lemma observe_at_rows:
  "fold_r (observe_at env block) claims s = Inr t \<Longrightarrow> snapshots t = snapshots s \<and> projection_version t = projection_version s"
  by (rule fold_r_keeps[of _ _ _ _ "\<lambda>t. snapshots t = snapshots s \<and> projection_version t = projection_version s"])
    (auto simp: observe_at_def observe_work_def bind_r_Inr split: if_splits prod.splits dest!: upsert_event_rows mark_claimed_rows)

lemma rollback_work_rows: "snapshots (rollback_work from s) = snapshots s \<and> projection_version (rollback_work from s) = projection_version s"
proof -
  have "snapshots (fold (\<lambda>e. set_voucher_status (ev_tx e) V_REORGED) es s) = snapshots s \<and>
      projection_version (fold (\<lambda>e. set_voucher_status (ev_tx e) V_REORGED) es s) = projection_version s" for es
    by (induction es arbitrary: s) (auto simp: set_voucher_status_def)
  then show ?thesis by (simp add: rollback_work_def Let_def)
qed

definition new_row :: "market_store \<Rightarrow> market_snapshot \<Rightarrow> int \<Rightarrow> string \<Rightarrow> string \<Rightarrow> snapshot_row" where
  "new_row s snap block bh parent = \<lparr>sr_block = block, sr_hash = bh, sr_parent = parent, sr_version = projection_version s + 1,
     sr_payload = with_version (projection_version s + 1) snap, sr_canonical = True\<rparr>"

text \<open>A commit repeats the head when it carries no claims and the head has its block number and its content; the
  location of the head (version, confirmations) is not compared.\<close>

definition repeats_head :: "market_store \<Rightarrow> market_snapshot \<Rightarrow> indexed_claim list \<Rightarrow> market_snapshot \<Rightarrow> bool" where
  "repeats_head s snap claims old \<longleftrightarrow> latest s = Some old \<and> claims = [] \<and>
     launch_uint (loc_blockNumber (snap_location old)) = launch_uint (loc_blockNumber (snap_location snap)) \<and>
     snap_TSLA old = snap_TSLA snap \<and> snap_AMZN old = snap_AMZN snap \<and>
     snap_claim old = snap_claim snap \<and> snap_conversion old = snap_conversion snap"

lemma same_content:
  "snap\<lparr>snap_location := snap_location old\<rparr> = old \<longleftrightarrow> snap_TSLA old = snap_TSLA snap \<and> snap_AMZN old = snap_AMZN snap \<and>
     snap_claim old = snap_claim snap \<and> snap_conversion old = snap_conversion (snap :: market_snapshot)"
  by (cases old, cases snap) auto

lemma snapshot_ok_block: "snapshot_ok env snap parentHash = Inr (block, bh, parent) \<Longrightarrow>
    launch_uint (loc_blockNumber (snap_location snap)) = Inr block"
  by (auto simp: snapshot_ok_def Let_def bind_r_Inr split: if_splits)

lemma commit_cases:
  assumes "commit env snap parentHash previous claims s = (t, Inr (new, next))"
  obtains (known) "t = s" "\<not> new" "repeats_head s snap claims next"
      "loc_blockHash (snap_location next) = loc_blockHash (snap_location snap)"
  | (stored) block bh parent u where "new" "snapshot_ok env snap parentHash = Inr (block, bh, parent)"
      "\<forall>old. latest s = Some old \<longrightarrow> (\<exists>oldBlock. launch_uint (loc_blockNumber (snap_location old)) = Inr oldBlock \<and> oldBlock \<le> block)"
      "next = with_version (projection_version s + 1) snap"
      "upsert_snapshot (new_row s snap block bh parent) (s\<lparr>projection_version := projection_version s + 1\<rparr>) = Inr u"
      "snapshots t = snapshots u" "projection_version t = projection_version s + 1"
      "\<And>old. \<not> repeats_head s snap claims old"
proof -
  obtain block bh parent known_snap where ok: "snapshot_ok env snap parentHash = Inr (block, bh, parent)"
    and f: "follows (latest s) snap block previous (claims = []) = Inr known_snap"
    using assms by (auto simp: commit_def split: sum.splits) (auto simp: bind_r_Inr)
  show thesis
  proof (cases known_snap)
    case (Some old)
    have "repeats_head s snap claims old \<and> loc_blockHash (snap_location old) = loc_blockHash (snap_location snap)"
      using f Some snapshot_ok_block[OF ok]
      by (auto simp: follows_def bind_r_Inr repeats_head_def same_content split: option.splits if_splits)
    then show thesis using assms ok f Some by (intro known) (auto simp: commit_def)
  next
    case None
    have old: "\<exists>oldBlock. launch_uint (loc_blockNumber (snap_location old)) = Inr oldBlock \<and> oldBlock \<le> block" if "latest s = Some old" for old
      using f that by (auto simp: follows_def bind_r_Inr split: if_splits)
    have w: "commit_work env snap block bh parent claims s = Inr (t, next)" "new"
      using assms ok f None by (auto simp: commit_def atomic_def split: sum.splits) (auto simp: bind_r_Inr)
    obtain u where u: "upsert_snapshot (new_row s snap block bh parent) (s\<lparr>projection_version := projection_version s + 1\<rparr>) = Inr u"
      "fold_r (observe_at env block) claims u = Inr t" "next = with_version (projection_version s + 1) snap"
      using w(1) by (auto simp: commit_work_def next_version_def new_row_def Let_def bind_r_Inr)
    have "projection_version u = projection_version s + 1" using u(1) by (auto simp: upsert_snapshot_def split: if_splits)
    moreover have "\<not> repeats_head s snap claims old" for old
      using f None snapshot_ok_block[OF ok]
      by (auto simp: follows_def bind_r_Inr repeats_head_def same_content split: if_splits)
    ultimately show thesis using observe_at_rows[OF u(2)] u ok w old by (intro stored) auto
  qed
qed

lemma row_ok_new: "snapshot_ok env snap parentHash = Inr (block, bh, parent) \<Longrightarrow> row_ok (new_row s snap block bh parent)"
  by (auto simp: snapshot_ok_def Let_def bind_r_Inr row_ok_def new_row_def with_version_def split: if_splits)

lemma commit_head:
  assumes ok: "projection_ok s" and c: "commit env snap parentHash previous claims s = (t, Inr (new, next))"
  shows "projection_ok t \<and> latest t = Some next \<and> (\<not> new \<longrightarrow> t = s) \<and>
    (\<not> new \<longrightarrow> repeats_head s snap claims next \<and> loc_blockHash (snap_location next) = loc_blockHash (snap_location snap)) \<and>
    (new \<longrightarrow> projection_version t = projection_version s + 1 \<and> next = with_version (projection_version t) snap \<and>
       (\<forall>old. \<not> repeats_head s snap claims old))"
  using c
proof (cases rule: commit_cases)
  case known
  then show ?thesis using ok by (simp add: repeats_head_def)
next
  case (stored block bh parent u)
  define r where "r = new_row s snap block bh parent"
  have tab: "table_ok (projection_version s) (snapshots (s\<lparr>projection_version := projection_version s + 1\<rparr>))"
    using ok by (simp add: projection_ok_def)
  have r: "sr_block r = block" "sr_version r = projection_version s + 1" "sr_payload r = next" "sr_canonical r" "row_ok r"
    using stored(4) row_ok_new[OF stored(2), of s] by (simp_all add: r_def new_row_def)
  note up = upsert_table[OF stored(5)[folded r_def] tab, unfolded r(2), OF _ r(5,4)]
  have tab': "table_ok (projection_version t) (snapshots t)" using up(1) stored(6,7) by simp
  obtain q where q: "q \<in> set (canonical_rows t)" "sr_block q = block" "sr_payload q = next"
    using up(2) stored(6) r by (auto simp: canonical_rows_def)
  have "sr_block p \<le> block" if p: "p \<in> set (canonical_rows t)" for p
  proof (cases "sr_block p = block")
    case False
    then have "p \<in> set (canonical_rows s)" using up(3)[of p] p stored(6) r(1) by (auto simp: canonical_rows_def)
    moreover obtain old where old: "latest s = Some old" using latest_None[of s] calculation by (cases "latest s") auto
    ultimately obtain o1 where o1: "o1 \<in> set (snapshots s)" "sr_payload o1 = old" "sr_block p \<le> sr_block o1"
      using latest_Some[OF old] by (auto simp: canonical_rows_def)
    have "launch_uint (loc_blockNumber (snap_location old)) = Inr (sr_block o1)"
      using ok o1(1,2) by (auto simp: projection_ok_def table_ok_def row_ok_def)
    then show ?thesis using stored(3) old o1(3) by fastforce
  qed simp
  then have l: "latest t = Some next"
    using latest_highest[OF q(1)] q tab' by (simp add: table_ok_def canonical_rows_def)
  show ?thesis using tab' l stored(1,4,7,8) by (simp add: projection_ok_def)
qed

lemma launch_hash_idem: "launch_hash x = Inr h \<Longrightarrow> launch_hash h = Inr h"
  using hex_digits_lower[of 64 x] by (auto simp: launch_hash_def split: if_splits)

lemma orphan_table: "table_ok v rows \<Longrightarrow> table_ok v (map (orphan from) rows)"
  by (rule table_map) (auto simp: table_ok_sets orphan_def same_block_def row_ok_def split: if_splits)

lemma set_payload_table:
  assumes "table_ok v rows" and "v < w" and "row_ok r" and "r \<in> set rows"
    and "next = with_version w (sr_payload r)" and "bh = loc_blockHash (snap_location (sr_payload r))"
  shows "table_ok w (map (set_payload (sr_block r) bh w next) rows)"
proof (rule table_map[OF assms(1)])
  note tab = assms(1)[unfolded table_ok_sets]
  fix p q assume pq: "p \<in> set rows" "q \<in> set rows"
  show "same_block (set_payload (sr_block r) bh w next q) q" by (simp add: set_payload_def same_block_def)
  show "p = q" if "sr_version (set_payload (sr_block r) bh w next p) = sr_version (set_payload (sr_block r) bh w next q)"
  proof -
    have "sr_version p \<le> v" "sr_version q \<le> v" using tab pq by blast+
    moreover have "same_block p q \<Longrightarrow> p = q" "sr_version p = sr_version q \<Longrightarrow> p = q" using tab pq by blast+
    ultimately show ?thesis using that assms(2) by (auto simp: set_payload_def same_block_def split: if_splits)
  qed
  show "p = q" if "sr_canonical (set_payload (sr_block r) bh w next p)" "sr_canonical (set_payload (sr_block r) bh w next q)" "sr_block p = sr_block q"
    using that tab pq by (auto simp: set_payload_def split: if_splits)
  have h: "launch_hash (sr_hash q) = Inr (sr_hash q)" using tab pq launch_hash_idem by (auto simp: row_ok_def)
  show "sr_version (set_payload (sr_block r) bh w next q) \<le> w \<and> row_ok (set_payload (sr_block r) bh w next q)"
  proof (cases "sr_block q = sr_block r \<and> sr_hash q = bh")
    case True
    then show ?thesis using assms(3,6) h unfolding assms(5) by (simp add: set_payload_def row_ok_def with_version_def)
  next
    case False
    have "sr_version q \<le> v \<and> row_ok q" using tab pq by blast
    then show ?thesis using False assms(2) by (auto simp: set_payload_def)
  qed
qed

lemma rollback_ok:
  assumes "projection_ok s" "rollback_head from s = Inr (t, x)"
  shows "projection_ok t \<and> projection_version t = projection_version s + 1"
proof -
  define s1 where "s1 = (rollback_work from s)\<lparr>snapshots := map (orphan from) (snapshots s)\<rparr>"
  have v: "projection_version s1 = projection_version s" using rollback_work_rows[of "from" s] by (simp add: s1_def)
  have tab: "table_ok (projection_version s) (snapshots s1)" using orphan_table assms(1) by (simp add: s1_def projection_ok_def)
  show ?thesis
  proof (cases "latest s1")
    case None
    then have "t = s1\<lparr>projection_version := projection_version s1 + 1\<rparr>"
      using assms(2) rollback_work_rows[of "from" s] by (simp add: rollback_head_def Let_def next_version_def s1_def)
    then show ?thesis using tab v by (auto simp: projection_ok_def intro: table_grow)
  next
    case (Some result)
    then obtain r where r: "r \<in> set (snapshots s1)" "sr_payload r = result" using latest_Some[OF Some] by (auto simp: canonical_rows_def)
    have ok: "row_ok r" using tab r(1) by (simp add: table_ok_def)
    then have b: "launch_uint (loc_blockNumber (snap_location result)) = Inr (sr_block r)" using r(2) by (simp add: row_ok_def)
    have "snapshots t = map (set_payload (sr_block r) (loc_blockHash (snap_location result)) (projection_version s + 1)
          (with_version (projection_version s + 1) result)) (snapshots s1)" "projection_version t = projection_version s + 1"
      using assms(2) b v Some rollback_work_rows[of "from" s]
      by (auto simp: rollback_head_def Let_def next_version_def s1_def[symmetric] bind_r_Inr)
    then show ?thesis using set_payload_table[OF tab _ ok r(1) refl refl, of "projection_version s + 1"]
      by (simp add: projection_ok_def r(2))
  qed
qed

section \<open>The projector as a machine\<close>

text \<open>Steps of the projector, and changes of the store that touch neither the snapshots nor their version.\<close>

datatype projection_input =
    P_commit market_snapshot string "string option" "indexed_claim list"
  | P_rollback string
  | P_elsewhere market_store

definition projection_start :: "market_store \<Rightarrow> bool" where
  "projection_start s \<longleftrightarrow> (\<exists>origin. s = empty_store origin)"

definition projection_step :: "market_env \<Rightarrow> market_store \<Rightarrow> projection_input \<Rightarrow> launch_error + market_store" where
  "projection_step env s i =
    (case i of
       P_commit snap parentHash previous claims \<Rightarrow>
         (case commit env snap parentHash previous claims s of (t, Inl e) \<Rightarrow> Inl e | (t, Inr x) \<Rightarrow> Inr t)
     | P_rollback fromBlock \<Rightarrow> (case rollbackFrom fromBlock s of (t, Inl e) \<Rightarrow> Inl e | (t, Inr x) \<Rightarrow> Inr t)
     | P_elsewhere t \<Rightarrow> bind_r (check (snapshots t = snapshots s \<and> projection_version t = projection_version s) SQLITE_CONSTRAINT) (\<lambda>_. Inr t))"

interpretation projection: guarded_machine projection_start "projection_step env" projection_ok
proof unfold_locales
  show "projection_ok s" if "projection_start s" for s
    using that by (auto simp: projection_start_def empty_store_def projection_ok_def table_ok_def)
  show "projection_ok t" if ok: "projection_ok s" and step: "projection_step env s i = Inr t" for s i t
  proof (cases i)
    case (P_commit snap parentHash previous claims)
    then show ?thesis using step commit_head[OF ok] by (auto simp: projection_step_def split: sum.splits prod.splits)
  next
    case (P_rollback fromBlock)
    then show ?thesis using step rollback_ok[OF ok]
      by (auto simp: projection_step_def rollbackFrom_def atomic_def split: sum.splits prod.splits)
  next
    case (P_elsewhere u)
    then show ?thesis using step ok by (auto simp: projection_step_def projection_ok_def split: if_splits)
  qed
qed

text \<open>C17: the submitted snapshot becomes the head, and the projection never forks. In every state that commits,
  rollbacks and other uses of the store can reach, a commit that returns a snapshot makes it what \<open>latest\<close> returns,
  no canonical block is higher, each height has one canonical row, and no two rows share a version. The returned
  snapshot is the submitted one: unless the commit repeats the head (same block, same markets, claim and conversion,
  no claims), it is published as new, every field of it is the submitted one except that its version is above every
  version given out before; when it repeats the head, the head is returned and nothing changes.\<close>

theorem head_follows_commits:
  assumes "reaches projection_start (projection_step env) s"
    and "commit env snap parentHash previous claims s = (t, Inr (new, next))"
  shows "latest t = Some next \<and> distinct (map sr_block (canonical_rows t)) \<and> distinct (map sr_version (snapshots t)) \<and>
    (\<exists>r\<in>set (canonical_rows t). sr_payload r = next \<and> (\<forall>q\<in>set (canonical_rows t). sr_block q \<le> sr_block r)) \<and>
    (new \<longleftrightarrow> (\<forall>old. \<not> repeats_head s snap claims old)) \<and>
    snap_TSLA next = snap_TSLA snap \<and> snap_AMZN next = snap_AMZN snap \<and>
    snap_claim next = snap_claim snap \<and> snap_conversion next = snap_conversion snap \<and>
    loc_blockHash (snap_location next) = loc_blockHash (snap_location snap) \<and>
    launch_uint (loc_blockNumber (snap_location next)) = launch_uint (loc_blockNumber (snap_location snap)) \<and>
    (if new then (\<forall>r\<in>set (snapshots s). sr_version r < projection_version t) \<and>
       snap_location next = (snap_location snap)\<lparr>loc_version := toString (projection_version t)\<rparr>
     else t = s)"
proof -
  have ok: "projection_ok s" by (rule projection.reachable_inv[OF assms(1)])
  note h = commit_head[OF ok assms(2)]
  have rows: "\<forall>r\<in>set (snapshots s). sr_version r \<le> projection_version s" using ok by (simp add: projection_ok_def table_ok_def)
  have table: "distinct (map sr_block (canonical_rows t)) \<and> distinct (map sr_version (snapshots t))"
    using h by (simp add: projection_ok_def table_ok_def canonical_rows_def)
  show ?thesis
  proof (cases new)
    case True
    have e: "projection_version t = projection_version s + 1" "next = with_version (projection_version t) snap"
      "\<forall>old. \<not> repeats_head s snap claims old" "latest t = Some next" using h True by blast+
    have "\<forall>r\<in>set (snapshots s). sr_version r < projection_version t" using rows e(1) by fastforce
    then show ?thesis using True e(2-4) table latest_Some[OF e(4)] by (simp add: with_version_def)
  next
    case False
    then have "repeats_head s snap claims next" "loc_blockHash (snap_location next) = loc_blockHash (snap_location snap)"
      "t = s" "latest t = Some next" using h by blast+
    then show ?thesis using False table latest_Some[of t "next"] by (auto simp: repeats_head_def)
  qed
qed

section \<open>Witness\<close>

definition demo_projection_env :: market_env where
  "demo_projection_env = \<lparr>env_getAddress = (\<lambda>s. Some s), env_verifyMessage = (\<lambda>a b. None), env_id = (\<lambda>s. s), env_sha256 = (\<lambda>s. s),
     env_host = (\<lambda>s. s), env_iso = (\<lambda>n. None)\<rparr>"

definition demo_market :: strategy_market where
  "demo_market = \<lparr>sm_state = MINTING, sm_pass = ''0x1'', totalSupplyRaw = ''5'', publicSupplyRaw = ''3'', soldRaw = ''1'', remainingRaw = ''2'',
     mintPriceUsdcRaw = ''1'', lpPassRaw = ''0'', lpUsdcRaw = ''0'', sm_pool = None, reservePassRaw = ''0'', reserveUsdcRaw = ''0'', ammFeeBps = 30\<rparr>"

definition demo_hash_of :: "char \<Rightarrow> string" where
  "demo_hash_of c = ''0x'' @ replicate 64 c"

definition demo_snapshot :: "string \<Rightarrow> char \<Rightarrow> market_snapshot" where
  "demo_snapshot block c = \<lparr>snap_location = \<lparr>loc_chainId = LAUNCH_CHAIN_ID, loc_blockNumber = block, loc_blockHash = demo_hash_of c,
       loc_transactionHash = None, loc_logIndex = None, loc_version = [], loc_confirmations = 3\<rparr>,
     snap_TSLA = demo_market, snap_AMZN = demo_market,
     snap_claim = \<lparr>amountUsdcRaw = ''1'', successfulClaims = 0, maxClaims = 100, remainingClaims = 100, funded = True\<rparr>,
     snap_conversion = \<lparr>ethReserveRaw = ''0'', usdcReserveRaw = ''0'', ethBuyAvailable = False, ethSellAvailable = False, ethMintAvailable = None,
       conv_feeBps = 0, conv_epoch = ''0''\<rparr>\<rparr>"

definition demo_projected :: market_store where
  "demo_projected = run_inputs (projection_step demo_projection_env) (empty_store ''https://a'')
     [P_commit (demo_snapshot ''7'' CHR ''a'') (demo_hash_of CHR ''0'') None [],
      P_commit (demo_snapshot ''8'' CHR ''b'') (demo_hash_of CHR ''a'') (Some (demo_hash_of CHR ''a'')) [], P_rollback ''8'']"

theorem head_follows_commits_witness:
  "\<exists>t next. commit demo_projection_env (demo_snapshot ''8'' CHR ''c'') (demo_hash_of CHR ''a'') (Some (demo_hash_of CHR ''a'')) [] demo_projected
       = (t, Inr (True, next)) \<and> latest t = Some next \<and> loc_version (snap_location next) = ''4'' \<and>
     map (\<lambda>r. (sr_block r, sr_version r, sr_canonical r)) (snapshots t) = [(7, 3, True), (8, 2, False), (8, 4, True)]"
proof -
  let ?c = "commit demo_projection_env (demo_snapshot ''8'' CHR ''c'') (demo_hash_of CHR ''a'') (Some (demo_hash_of CHR ''a'')) [] demo_projected"
  have "case snd ?c of Inl e \<Rightarrow> False | Inr (new, next) \<Rightarrow> new \<and> loc_version (snap_location next) = ''4'' \<and>
      map (\<lambda>r. (sr_block r, sr_version r, sr_canonical r)) (snapshots (fst ?c)) = [(7, 3, True), (8, 2, False), (8, 4, True)]" by code_simp
  then obtain t head where c: "?c = (t, Inr (True, head))" "loc_version (snap_location head) = ''4''"
      "map (\<lambda>r. (sr_block r, sr_version r, sr_canonical r)) (snapshots t) = [(7, 3, True), (8, 2, False), (8, 4, True)]"
    by (cases ?c) (auto split: sum.splits prod.splits)
  have "projection_start (empty_store ''https://a'')" unfolding projection_start_def by blast
  then have "reaches projection_start (projection_step demo_projection_env) demo_projected"
    unfolding demo_projected_def by (intro projection.run_reaches reach_init)
  from head_follows_commits[OF this c(1)] have "latest t = Some head" by (rule conjunct1)
  then show ?thesis using c by (intro exI conjI)
qed

end
