(* ===== verification/Automata_Model.thy ===== *)
theory Automata_Model
  imports Decimal "HOL-Library.List_Lexorder" "HOL-Library.Char_ord"
begin

text \<open>
  \<^bold>\<open>packages/automata/src/model.ts\<close> and \<^bold>\<open>strategy-protocol.ts\<close>: the data of an automated portfolio run and
  the validation of its parameters, targets and decisions.

  Amounts that arrive from outside (quotes, limits, actions) are the decimal strings of the source. The
  amounts a run keeps are always written by \<open>toString\<close> of a BigInt; the model keeps that integer, and
  \<open>amount_int n\<close> is \<open>amount\<close> on its decimal text (lemma \<open>amount_toString\<close>). Records indexed by asset are
  association lists. The texts of \<open>reason\<close> are the constructors of \<open>reason\<close>.
\<close>

datatype automata_error =
    INVALID_PARAMETERS | INVALID_AMOUNT | NO_ACTIVE_FUNDS | INVALID_ID | FRAME_ORDER | INVALID_QUOTE | FUNDING_NAV
  | UNIT_PRECISION_LIMIT | INVALID_STATUS | STRATEGY_MODE | STRATEGY_FRAME | STALE_VALUATION
  | INSUFFICIENT_BOT_CASH | RUN_HISTORY_LIMIT | RUN_CONSERVATION | FRAME_CONFLICT | STRATEGY_TARGETS
  | STRATEGY_PROTOCOL_ERROR | STRATEGY_HISTORY | DIVISION_BY_ZERO

definition SCALE :: int where
  "SCALE = 1000000"

definition BPS :: int where
  "BPS = 10000"

definition ENGINE_VERSION :: string where
  "ENGINE_VERSION = ''alphaforge-automata-1''"

record asset =
  asset_id :: string
  asset_symbol :: string
  asset_decimals :: int
  asset_chain :: string
  asset_issuer :: string
  asset_contract :: "string option"

definition ASSETS :: "asset list" where
  "ASSETS =
    [\<lparr>asset_id = ''rwa-a'', asset_symbol = ''RWA-A'', asset_decimals = 6, asset_chain = ''robinhood-chain-testnet'',
       asset_issuer = ''SYNTHETIC_FIXTURE'', asset_contract = None\<rparr>,
     \<lparr>asset_id = ''rwa-b'', asset_symbol = ''RWA-B'', asset_decimals = 6, asset_chain = ''robinhood-chain-testnet'',
       asset_issuer = ''SYNTHETIC_FIXTURE'', asset_contract = None\<rparr>]"

datatype run_limits =
    Limits_off
  | Limits_percent "int option" "int option"
  | Limits_price string "string option" "string option"

datatype strategy_mode = Mode_rebalance | Mode_external

record parameters =
  pa_strategyMode :: "strategy_mode option"
  pa_weights :: "(string \<times> int) list"
  pa_deviationBps :: int
  pa_intervalMs :: int
  pa_feeBps :: int
  pa_maxSlippageBps :: int
  pa_limits :: run_limits

record quote =
  q_assetId :: string
  q_bid :: string
  q_ask :: string
  q_reference :: "string option"
  q_observedAt :: int
  q_expiresAt :: int
  q_capacity :: string
  q_slippageBps :: int
  q_available :: bool

record frame =
  f_seq :: int
  f_at :: int
  f_quotes :: "quote list"

datatype side = Buy | Sell
datatype purpose = For_rebalance | For_liquidation

record trade =
  t_id :: string
  t_at :: int
  t_assetId :: string
  t_side :: side
  t_quantity :: int
  t_price :: int
  t_fee :: int
  t_cashAfter :: int
  t_purpose :: purpose

datatype run_status = St_running | St_paused | St_liquidating | St_blocked | St_stopped

datatype reason =
    Quote_unavailable | Slippage_over_limit | No_valid_price | No_capacity_or_funds | Minimum_fill
  | Liquidation_incomplete | Valuation_incomplete | Settlement_excess

datatype trigger_reason = By_manual | By_upper | By_lower

text \<open>\<open>Number(n)\<close> of a BigInt: the nearest double, ties to even, or an infinity.\<close>

datatype js_number = Finite int | Infinity | Minus_Infinity

function bit_length :: "int \<Rightarrow> nat" where
  "bit_length n = (if n \<le> 0 then 0 else Suc (bit_length (n div 2)))"
  by pat_completeness auto
termination
  by (relation "measure nat") auto

declare bit_length.simps [simp del]

definition round_double :: "int \<Rightarrow> int" where
  "round_double n =
    (let u = 2 ^ (bit_length n - 53); q = n div u; r = n mod u in
     u * (if 2 * r < u \<or> (2 * r = u \<and> even q) then q else q + 1))"

definition js_Number :: "int \<Rightarrow> js_number" where
  "js_Number n =
    (let d = round_double \<bar>n\<bar> in
     if d < 2 ^ 1024 then Finite (sgn n * d) else if n < 0 then Minus_Infinity else Infinity)"

record position =
  p_quantity :: int
  p_cost :: int

record trigger_info =
  tr_reason :: trigger_reason
  tr_at :: int
  tr_equity :: int

record history_entry =
  h_at :: int
  h_equity :: int
  h_returnBps :: js_number
  h_status :: run_status
  h_reason :: "reason option"

record decision_info =
  di_id :: string
  di_frameSeq :: int
  di_at :: int
  di_targets :: "(string \<times> int) list"
  di_trades :: int

record run =
  r_lastDecision :: "decision_info option"
  r_version :: string
  r_id :: string
  r_parameters :: parameters
  r_status :: run_status
  r_cursor :: int
  r_clock :: int
  r_lastFrame :: "frame option"
  r_nextDecisionAt :: int
  r_cash :: int
  r_positions :: "(string \<times> position) list"
  r_quotes :: "(string \<times> quote) list"
  r_usedCapacity :: "(string \<times> int) list"
  r_initialCash :: int
  r_netContributed :: int
  r_unitsNumerator :: int
  r_unitsDenominator :: int
  r_emptyNumerator :: int
  r_emptyDenominator :: int
  r_fees :: int
  r_realizedPnl :: int
  r_trades :: "trade list"
  r_trigger :: "trigger_info option"
  r_reason :: "reason option"
  r_history :: "history_entry list"

datatype fund_direction = Fund_in | Fund_out

datatype action =
    A_decision string int "(string \<times> int) list"
  | A_frame frame
  | A_stop
  | A_pause
  | A_resume
  | A_fund fund_direction string

definition amount :: "string \<Rightarrow> automata_error + int" where
  "amount value = (if canonical_dec 23 value then Inr (digits_val value) else Inl INVALID_AMOUNT)"

definition amount_int :: "int \<Rightarrow> automata_error + int" where
  "amount_int n = (if 0 \<le> n \<and> n < 10 ^ 24 then Inr n else Inl INVALID_AMOUNT)"

definition integer :: "int \<Rightarrow> int \<Rightarrow> int \<Rightarrow> bool" where
  "integer v lo hi \<longleftrightarrow> isSafeInteger v \<and> lo \<le> v \<and> v \<le> hi"

definition id_ok :: "string \<Rightarrow> bool" where
  "id_ok s \<longleftrightarrow> 1 \<le> length s \<and> length s \<le> 80 \<and> list_all (\<lambda>c. is_alnum c \<or> c = CHR ''_'' \<or> c = CHR ''-'') s"

definition positive_amount :: "string option \<Rightarrow> automata_error + unit" where
  "positive_amount v =
    (case v of None \<Rightarrow> Inr () | Some s \<Rightarrow> bind_r (amount s) (\<lambda>n. check (n > 0) INVALID_PARAMETERS))"

definition validateLimits :: "parameters \<Rightarrow> automata_error + unit" where
  "validateLimits p =
    (case pa_limits p of
       Limits_off \<Rightarrow> Inr ()
     | Limits_percent upper lower \<Rightarrow>
         bind_r (check (upper \<noteq> None \<or> lower \<noteq> None) INVALID_PARAMETERS) (\<lambda>_.
         bind_r (check (case upper of None \<Rightarrow> True | Some u \<Rightarrow> integer u 1 1000000) INVALID_PARAMETERS) (\<lambda>_.
         check (case lower of None \<Rightarrow> True | Some l \<Rightarrow> integer l (- 10000) (- 1)) INVALID_PARAMETERS))
     | Limits_price assetId upper lower \<Rightarrow>
         bind_r (check (assetId \<in> set (map fst (pa_weights p))) INVALID_PARAMETERS) (\<lambda>_.
         bind_r (check (upper \<noteq> None \<or> lower \<noteq> None) INVALID_PARAMETERS) (\<lambda>_.
         bind_r (positive_amount upper) (\<lambda>_.
         bind_r (positive_amount lower) (\<lambda>_.
         case (upper, lower) of
           (Some u, Some l) \<Rightarrow> bind_r (amount u) (\<lambda>un. bind_r (amount l) (\<lambda>ln. check (un > ln) INVALID_PARAMETERS))
         | _ \<Rightarrow> Inr ())))))"

definition validateParameters :: "parameters \<Rightarrow> automata_error + unit" where
  "validateParameters p =
     bind_r (check (0 < length (pa_weights p) \<and> length (pa_weights p) \<le> length ASSETS \<and>
               list_all (\<lambda>(i, w). list_ex (\<lambda>a. asset_id a = i) ASSETS \<and> integer w 0 10000) (pa_weights p) \<and>
               sum_list (map snd (pa_weights p)) \<le> 10000) INVALID_PARAMETERS) (\<lambda>_.
     bind_r (check (integer (pa_deviationBps p) 1 10000 \<and> integer (pa_intervalMs p) 1000 86400000 \<and>
               integer (pa_feeBps p) 0 1000 \<and> integer (pa_maxSlippageBps p) 0 1000) INVALID_PARAMETERS) (\<lambda>_.
     validateLimits p))"

section \<open>Strategy protocol\<close>

definition STRATEGY_PROTOCOL :: string where
  "STRATEGY_PROTOCOL = ''alphaforge-targets-v1''"

record strategy_decision =
  sd_protocol :: string
  sd_runId :: string
  sd_id :: string
  sd_expectedRevision :: int
  sd_frameSeq :: int
  sd_targets :: "(string \<times> int) list"

definition validateTargets :: "(string \<times> int) list \<Rightarrow> string list \<Rightarrow> automata_error + unit" where
  "validateTargets targets eligible =
     check (length targets \<le> length eligible \<and>
       list_all (\<lambda>(i, w). i \<in> set eligible \<and> isSafeInteger w \<and> 0 \<le> w \<and> w \<le> 10000) targets \<and>
       sum_list (map snd targets) \<le> 10000) STRATEGY_TARGETS"

definition validateDecision :: "strategy_decision \<Rightarrow> string \<Rightarrow> string list \<Rightarrow> automata_error + unit" where
  "validateDecision d runId eligible =
     bind_r (check (sd_protocol d = STRATEGY_PROTOCOL \<and> sd_runId d = runId) STRATEGY_PROTOCOL_ERROR) (\<lambda>_.
     bind_r (check (id_ok (sd_id d)) INVALID_ID) (\<lambda>_.
     bind_r (check (isSafeInteger (sd_expectedRevision d) \<and> 0 \<le> sd_expectedRevision d \<and>
               isSafeInteger (sd_frameSeq d) \<and> 0 < sd_frameSeq d) STRATEGY_FRAME) (\<lambda>_.
     validateTargets (sd_targets d) eligible)))"

section \<open>Reading amounts\<close>

lemma amount_reads: "amount s = Inr n \<longleftrightarrow> s = toString n \<and> 0 \<le> n \<and> n \<le> 10 ^ 24 - 1"
  using canonical_dec_iff[of 23 s] by (auto simp: amount_def split: if_splits)

interpretation amount_reader: canonical_reader amount "10 ^ 24 - 1"
  by unfold_locales (simp_all add: amount_reads)

lemma amount_toString: "amount (toString n) = amount_int n"
  by (simp add: amount_def amount_int_def)

lemma amount_int_Inr [result_simps]: "amount_int n = Inr m \<longleftrightarrow> m = n \<and> 0 \<le> n \<and> n < 10 ^ 24"
  by (auto simp: amount_int_def)

lemma amount_Inl: "amount s = Inl e \<Longrightarrow> e = INVALID_AMOUNT"
  by (simp add: amount_def split: if_splits)

lemma amount_int_Inl: "amount_int n = Inl e \<Longrightarrow> e = INVALID_AMOUNT"
  by (simp add: amount_int_def split: if_splits)

end
