(* ===== verification/Euclid.thy ===== *)
theory Euclid
  imports Prelude
begin

text \<open>
  The loop \<open>while (b) [a, b] = [b, a % b]\<close> with which \<open>changeUnits\<close> of the portfolio engine and \<open>rational\<close> of the paper
  engine reduce a fraction, for BigInt's truncating remainder; it terminates on all integers and is the
  greatest common divisor on natural ones. With it the facts on truncating division both engines use.
\<close>

function euclid :: "int \<Rightarrow> int \<Rightarrow> int" where
  "euclid a b = (if b = 0 then a else euclid b (a - b * tdiv a b))"
  by pat_completeness auto
termination
proof (relation "measure (\<lambda>(a, b). nat \<bar>b\<bar>)")
  fix a b :: int assume b: "b \<noteq> 0"
  have "\<bar>a - b * tdiv a b\<bar> = \<bar>a\<bar> mod \<bar>b\<bar>"
  proof -
    have m: "\<bar>a\<bar> - \<bar>b\<bar> * (\<bar>a\<bar> div \<bar>b\<bar>) = \<bar>a\<bar> mod \<bar>b\<bar>" by (simp add: minus_mult_div_eq_mod)
    have "a - b * tdiv a b = sgn a * (\<bar>a\<bar> - \<bar>b\<bar> * (\<bar>a\<bar> div \<bar>b\<bar>))"
      by (cases "a = 0"; cases "0 < a"; cases "0 < b") (auto simp: tdiv_def algebra_simps sgn_if)
    then show ?thesis using b by (cases "a = 0") (simp_all add: m abs_mult abs_sgn_eq)
  qed
  then show "((b, a - b * tdiv a b), (a, b)) \<in> measure (\<lambda>(a, b). nat \<bar>b\<bar>)" using b by simp
qed simp

declare euclid.simps [simp del]

lemma tdiv_dvd: "b dvd a \<Longrightarrow> b \<noteq> 0 \<Longrightarrow> tdiv a b * b = a"
proof -
  assume "b dvd a" "b \<noteq> 0"
  then obtain k where a: "a = b * k" by (elim dvdE)
  have "\<bar>b * k\<bar> div \<bar>b\<bar> = \<bar>k\<bar>" using \<open>b \<noteq> 0\<close> by (simp add: abs_mult)
  moreover have "sgn (b * k) * sgn b = sgn k" using \<open>b \<noteq> 0\<close>
    by (cases b "0::int" rule: linorder_cases) (simp_all add: sgn_mult)
  ultimately show ?thesis unfolding a tdiv_def by (simp add: sgn_mult_abs)
qed

lemma tdiv_same_fraction:
  assumes "b \<noteq> 0" "d \<noteq> 0" "a * d = c * b"
  shows "tdiv a b = tdiv c d"
proof -
  have "\<bar>a\<bar> * \<bar>d\<bar> = \<bar>c\<bar> * \<bar>b\<bar>" using assms(3) by (metis abs_mult)
  then have "\<bar>a\<bar> div \<bar>b\<bar> = \<bar>c\<bar> div \<bar>d\<bar>"
    using assms(1,2) by (metis abs_eq_0 div_mult_mult1_if mult.commute)
  moreover have "sgn a * sgn d = sgn c * sgn b" using assms(3) by (metis sgn_mult)
  then have "sgn a * sgn b = sgn c * sgn d" using assms(1,2) by (auto simp: sgn_if split: if_splits)
  ultimately show ?thesis by (simp add: tdiv_def)
qed

text \<open>The loop computes the greatest common divisor.\<close>

lemma euclid_gcd: "0 \<le> a \<Longrightarrow> 0 \<le> b \<Longrightarrow> euclid a b = gcd a b"
proof (induction a b rule: euclid.induct)
  case (1 a b)
  show ?case
  proof (cases "b = 0")
    case True
    then show ?thesis using 1 by (simp add: euclid.simps)
  next
    case False
    then have "tdiv a b = a div b" using 1 by (cases "a = 0") (auto simp: tdiv_def sgn_if)
    then have m: "a - b * tdiv a b = a mod b" by (simp add: minus_mult_div_eq_mod)
    have "euclid b (a mod b) = gcd b (a mod b)" using 1 False m by simp
    then show ?thesis using False by (subst euclid.simps) (simp add: m gcd_red_int[of a b] gcd.commute)
  qed
qed

end
