(* ===== verification/Automata_Engine.thy ===== *)
theory Automata_Engine
  imports Automata_Model Euclid
begin

text \<open>
  \<^bold>\<open>packages/automata/src/engine.ts\<close>: valuation, limits, trading, liquidation, rebalancing, funding and the
  transition function of a portfolio run. The code mutates a clone of the run and throws it away on an
  error; here every such function maps a run to a new run or to the thrown code. \<open>big_div\<close> is BigInt
  division, which throws on a zero divisor; two frames or quotes have the same JSON text when they are equal.
\<close>

definition big_div :: "int \<Rightarrow> int \<Rightarrow> automata_error + int" where
  "big_div a b = (if b = 0 then Inl DIVISION_BY_ZERO else Inr (tdiv a b))"

fun all_r :: "('a \<Rightarrow> 'e + bool) \<Rightarrow> 'a list \<Rightarrow> 'e + bool" where
  "all_r f [] = Inr True"
| "all_r f (x # xs) = bind_r (f x) (\<lambda>b. if b then all_r f xs else Inr False)"

section \<open>Valuation\<close>

definition fresh :: "run \<Rightarrow> quote option \<Rightarrow> bool" where
  "fresh r q = (case q of None \<Rightarrow> False
     | Some q \<Rightarrow> q_available q \<and> q_observedAt q \<le> r_clock r \<and> r_clock r \<le> q_expiresAt q)"

definition bid_text :: "run \<Rightarrow> string \<Rightarrow> string" where
  "bid_text r i = (case map_of (r_quotes r) i of None \<Rightarrow> ''0'' | Some q \<Rightarrow> q_bid q)"

definition position_value :: "run \<Rightarrow> string \<times> position \<Rightarrow> automata_error + int" where
  "position_value r ip =
     bind_r (amount_int (p_quantity (snd ip))) (\<lambda>q.
     bind_r (amount (bid_text r (fst ip))) (\<lambda>b. Inr (tdiv (q * b) SCALE)))"

definition equity :: "run \<Rightarrow> automata_error + int" where
  "equity r =
     bind_r (amount_int (r_cash r)) (\<lambda>c.
     fold_r (\<lambda>ip sum. bind_r (position_value r ip) (\<lambda>v. Inr (sum + v))) (r_positions r) c)"

definition returnBps :: "run \<Rightarrow> automata_error + js_number" where
  "returnBps r =
    (let units = r_unitsNumerator r in
     if units \<noteq> 0
     then bind_r (equity r) (\<lambda>e. Inr (js_Number (tdiv ((e * r_unitsDenominator r - units) * BPS) units)))
     else bind_r (big_div ((r_emptyNumerator r - r_emptyDenominator r) * BPS) (r_emptyDenominator r)) (\<lambda>x.
          Inr (js_Number x)))"

definition createRun :: "string \<Rightarrow> string \<Rightarrow> parameters \<Rightarrow> automata_error + run" where
  "createRun rid cash p =
     bind_r (check (id_ok rid) INVALID_ID) (\<lambda>_.
     bind_r (amount cash) (\<lambda>c.
     bind_r (check (c > 0) NO_ACTIVE_FUNDS) (\<lambda>_.
     bind_r (validateParameters p) (\<lambda>_.
     Inr \<lparr>r_lastDecision = None, r_version = ENGINE_VERSION, r_id = rid, r_parameters = p, r_status = St_running,
          r_cursor = 0, r_clock = 0, r_lastFrame = None, r_nextDecisionAt = 0, r_cash = c, r_positions = [],
          r_quotes = [], r_usedCapacity = [], r_initialCash = c, r_netContributed = c, r_unitsNumerator = c,
          r_unitsDenominator = 1, r_emptyNumerator = 1, r_emptyDenominator = 1, r_fees = 0, r_realizedPnl = 0,
          r_trades = [], r_trigger = None, r_reason = None, r_history = []\<rparr>))))"

definition check_quote :: "run \<Rightarrow> int \<Rightarrow> string list \<Rightarrow> quote \<Rightarrow> automata_error + unit" where
  "check_quote r at seen q =
     bind_r (check (list_ex (\<lambda>a. asset_id a = q_assetId q) ASSETS \<and> q_assetId q \<notin> set seen) INVALID_QUOTE) (\<lambda>_.
     bind_r (amount (q_bid q)) (\<lambda>bid.
     bind_r (check (bid > 0) INVALID_QUOTE) (\<lambda>_.
     bind_r (amount (q_ask q)) (\<lambda>ask.
     bind_r (check (ask \<ge> bid) INVALID_QUOTE) (\<lambda>_.
     bind_r (amount (q_capacity q)) (\<lambda>_.
     bind_r (case q_reference q of None \<Rightarrow> Inr ()
             | Some s \<Rightarrow> bind_r (amount s) (\<lambda>n. check (n > 0) INVALID_QUOTE)) (\<lambda>_.
     bind_r (check (isSafeInteger (q_observedAt q) \<and> 0 \<le> q_observedAt q \<and> q_observedAt q \<le> at \<and>
               isSafeInteger (q_expiresAt q) \<and> q_observedAt q \<le> q_expiresAt q \<and> isSafeInteger (q_slippageBps q) \<and>
               0 \<le> q_slippageBps q \<and> q_slippageBps q \<le> 10000) INVALID_QUOTE) (\<lambda>_.
     case map_of (r_quotes r) (q_assetId q) of
       None \<Rightarrow> Inr ()
     | Some before \<Rightarrow>
         bind_r (check (q_observedAt q \<ge> q_observedAt before) INVALID_QUOTE) (\<lambda>_.
         check (q_observedAt q = q_observedAt before \<longrightarrow> q = before) INVALID_QUOTE)))))))))"

fun check_quotes :: "run \<Rightarrow> int \<Rightarrow> string list \<Rightarrow> quote list \<Rightarrow> automata_error + unit" where
  "check_quotes r at seen [] = Inr ()"
| "check_quotes r at seen (q # qs) =
    (case check_quote r at seen q of
       Inl _ \<Rightarrow> Inl INVALID_QUOTE
     | Inr _ \<Rightarrow> check_quotes r at (q_assetId q # seen) qs)"

definition validateFrame :: "run \<Rightarrow> frame \<Rightarrow> automata_error + unit" where
  "validateFrame r f =
     bind_r (check (isSafeInteger (f_seq f) \<and> f_seq f = r_cursor r + 1 \<and> isSafeInteger (f_at f) \<and> f_at f > r_clock r)
               FRAME_ORDER) (\<lambda>_.
     bind_r (check (length (f_quotes f) \<le> length ASSETS) INVALID_QUOTE) (\<lambda>_.
     check_quotes r (f_at f) [] (f_quotes f)))"

definition valuationsFresh :: "run \<Rightarrow> automata_error + bool" where
  "valuationsFresh r =
     all_r (\<lambda>(i, p). bind_r (amount_int (p_quantity p)) (\<lambda>n. Inr (n = 0 \<or> fresh r (map_of (r_quotes r) i)))) (r_positions r)"

section \<open>Limits\<close>

definition trigger :: "trigger_reason \<Rightarrow> run \<Rightarrow> automata_error + run" where
  "trigger why r =
    (case r_trigger r of
       Some _ \<Rightarrow> Inr (r\<lparr>r_status := St_liquidating\<rparr>)
     | None \<Rightarrow> bind_r (equity r) (\<lambda>e.
         Inr (r\<lparr>r_trigger := Some \<lparr>tr_reason = why, tr_at = r_clock r, tr_equity = e\<rparr>, r_status := St_liquidating\<rparr>)))"

definition percent_limits :: "int option \<Rightarrow> int option \<Rightarrow> run \<Rightarrow> automata_error + run" where
  "percent_limits upper lower r =
     bind_r (equity r) (\<lambda>e.
     let numerator = (e * r_unitsDenominator r - r_unitsNumerator r) * BPS; denominator = r_unitsNumerator r in
     if (case lower of None \<Rightarrow> False | Some l \<Rightarrow> numerator \<le> l * denominator) then trigger By_lower r
     else if (case upper of None \<Rightarrow> False | Some u \<Rightarrow> numerator \<ge> u * denominator) then trigger By_upper r
     else Inr r)"

definition crossed :: "(int \<Rightarrow> int \<Rightarrow> bool) \<Rightarrow> string \<Rightarrow> string option \<Rightarrow> automata_error + bool" where
  "crossed rel price limit =
    (case limit of None \<Rightarrow> Inr False | Some l \<Rightarrow> bind_r (amount price) (\<lambda>p. bind_r (amount l) (\<lambda>n. Inr (rel p n))))"

definition price_limits :: "string \<Rightarrow> string option \<Rightarrow> string option \<Rightarrow> run \<Rightarrow> automata_error + run" where
  "price_limits assetId upper lower r =
    (case map_of (r_quotes r) assetId of
       None \<Rightarrow> Inr r
     | Some q \<Rightarrow>
         if \<not> fresh r (Some q) then Inr r
         else bind_r (crossed (\<le>) (q_bid q) lower) (\<lambda>low.
           if low then trigger By_lower r
           else bind_r (crossed (\<ge>) (q_bid q) upper) (\<lambda>high. if high then trigger By_upper r else Inr r)))"

definition limits :: "run \<Rightarrow> automata_error + run" where
  "limits r =
    (if r_trigger r \<noteq> None \<or> r_status r = St_stopped then Inr r
     else case pa_limits (r_parameters r) of
       Limits_off \<Rightarrow> Inr r
     | Limits_percent upper lower \<Rightarrow>
         if r_unitsNumerator r = 0 then Inr r
         else bind_r (valuationsFresh r) (\<lambda>ok. if ok then percent_limits upper lower r else Inr r)
     | Limits_price assetId upper lower \<Rightarrow> price_limits assetId upper lower r)"

section \<open>Trading\<close>

definition no_trade :: "reason \<Rightarrow> run \<Rightarrow> automata_error + run" where
  "no_trade why r = Inr (r\<lparr>r_reason := Some why\<rparr>)"

definition used_capacity :: "run \<Rightarrow> string \<Rightarrow> int" where
  "used_capacity r i = (case map_of (r_usedCapacity r) i of None \<Rightarrow> 0 | Some n \<Rightarrow> n)"

definition position_of :: "run \<Rightarrow> string \<Rightarrow> position" where
  "position_of r i = (case map_of (r_positions r) i of None \<Rightarrow> \<lparr>p_quantity = 0, p_cost = 0\<rparr> | Some p \<Rightarrow> p)"

definition trade_price :: "side \<Rightarrow> quote \<Rightarrow> automata_error + int" where
  "trade_price sd q =
    (case sd of
       Buy \<Rightarrow> bind_r (amount (q_ask q)) (\<lambda>a. Inr (ceilDiv (a * (BPS + q_slippageBps q)) BPS))
     | Sell \<Rightarrow> bind_r (amount (q_bid q)) (\<lambda>b. Inr (tdiv (b * (BPS - q_slippageBps q)) BPS)))"

definition trade_quantity :: "run \<Rightarrow> string \<Rightarrow> side \<Rightarrow> int \<Rightarrow> int \<Rightarrow> automata_error + int" where
  "trade_quantity r i sd wanted price =
    (case sd of
       Sell \<Rightarrow> bind_r (amount_int (p_quantity (position_of r i))) (\<lambda>n. Inr (min wanted n))
     | Buy \<Rightarrow> bind_r (amount_int (r_cash r)) (\<lambda>c.
         bind_r (big_div (c * BPS * SCALE) (price * (BPS + pa_feeBps (r_parameters r)))) (\<lambda>n. Inr (min wanted n))))"

definition gross_of :: "side \<Rightarrow> int \<Rightarrow> int \<Rightarrow> int" where
  "gross_of sd quantity price =
    (case sd of Buy \<Rightarrow> ceilDiv (quantity * price) SCALE | Sell \<Rightarrow> tdiv (quantity * price) SCALE)"

definition fee_of :: "parameters \<Rightarrow> int \<Rightarrow> int" where
  "fee_of p gross = ceilDiv (gross * pa_feeBps p) BPS"

text \<open>The quantity after the one-unit correction of a purchase that rounding made too dear.\<close>

definition affordable :: "run \<Rightarrow> side \<Rightarrow> int \<Rightarrow> int \<Rightarrow> automata_error + int" where
  "affordable r sd quantity price =
    (case sd of
       Sell \<Rightarrow> Inr quantity
     | Buy \<Rightarrow> bind_r (amount_int (r_cash r)) (\<lambda>c.
         let gross = gross_of Buy quantity price in
         Inr (if gross + fee_of (r_parameters r) gross > c then quantity - 1 else quantity)))"

definition sold_cost :: "position \<Rightarrow> int \<Rightarrow> automata_error + int" where
  "sold_cost p quantity =
     bind_r (amount_int (p_quantity p)) (\<lambda>n. bind_r (amount_int (p_cost p)) (\<lambda>c.
     if quantity = n then Inr c else big_div (c * quantity) n))"

definition settle_trade :: "run \<Rightarrow> string \<Rightarrow> side \<Rightarrow> int \<Rightarrow> int \<Rightarrow> int \<Rightarrow> automata_error + run" where
  "settle_trade r i sd quantity gross fee =
    (let p = position_of r i in
     case sd of
       Buy \<Rightarrow>
         bind_r (amount_int (r_cash r)) (\<lambda>c.
         bind_r (amount_int (p_quantity p)) (\<lambda>n.
         bind_r (amount_int (p_cost p)) (\<lambda>k.
         Inr (r\<lparr>r_cash := c - gross - fee,
                r_positions := AList.update i \<lparr>p_quantity = n + quantity, p_cost = k + gross + fee\<rparr> (r_positions r)\<rparr>))))
     | Sell \<Rightarrow>
         bind_r (sold_cost p quantity) (\<lambda>cost.
         bind_r (amount_int (r_cash r)) (\<lambda>c.
         Inr (r\<lparr>r_cash := c + gross - fee,
                r_positions := AList.update i \<lparr>p_quantity = p_quantity p - quantity, p_cost = p_cost p - cost\<rparr> (r_positions r),
                r_realizedPnl := r_realizedPnl r + gross - fee - cost\<rparr>))))"

definition record_trade :: "run \<Rightarrow> string \<Rightarrow> side \<Rightarrow> int \<Rightarrow> int \<Rightarrow> int \<Rightarrow> purpose \<Rightarrow> automata_error + run" where
  "record_trade r i sd quantity price fee why =
     bind_r (amount_int (r_fees r)) (\<lambda>f.
     bind_r (amount_int (used_capacity r i)) (\<lambda>u.
     Inr (r\<lparr>r_fees := f + fee, r_usedCapacity := AList.update i (u + quantity) (r_usedCapacity r),
            r_trades := r_trades r @ [\<lparr>t_id = r_id r @ ''-'' @ toString (int (length (r_trades r)) + 1), t_at = r_clock r,
              t_assetId = i, t_side = sd, t_quantity = quantity, t_price = price, t_fee = fee, t_cashAfter = r_cash r,
              t_purpose = why\<rparr>]\<rparr>)))"

definition fill :: "run \<Rightarrow> string \<Rightarrow> side \<Rightarrow> int \<Rightarrow> int \<Rightarrow> purpose \<Rightarrow> automata_error + run" where
  "fill r i sd wanted price why =
     bind_r (affordable r sd wanted price) (\<lambda>quantity.
     let gross = gross_of sd quantity price; fee = fee_of (r_parameters r) gross in
     if quantity \<le> 0 \<or> gross \<le> fee then no_trade Minimum_fill r
     else bind_r (if sd = Buy then bind_r (amount_int (r_cash r)) (\<lambda>c. Inr (gross + fee > c)) else Inr False) (\<lambda>over.
       if over then no_trade Minimum_fill r
       else bind_r (settle_trade r i sd quantity gross fee) (\<lambda>r1. record_trade r1 i sd quantity price fee why)))"

definition trade :: "run \<Rightarrow> string \<Rightarrow> side \<Rightarrow> int \<Rightarrow> purpose \<Rightarrow> automata_error + run" where
  "trade r i sd requested why =
    (if requested \<le> 0 then Inr r
     else case map_of (r_quotes r) i of
       None \<Rightarrow> no_trade Quote_unavailable r
     | Some q \<Rightarrow>
         if \<not> fresh r (Some q) then no_trade Quote_unavailable r
         else if q_slippageBps q > pa_maxSlippageBps (r_parameters r) then no_trade Slippage_over_limit r
         else
           bind_r (amount (q_capacity q)) (\<lambda>cap.
           bind_r (amount_int (used_capacity r i)) (\<lambda>used.
           bind_r (trade_price sd q) (\<lambda>price.
           if price \<le> 0 then no_trade No_valid_price r
           else bind_r (trade_quantity r i sd (min requested (cap - used)) price) (\<lambda>wanted.
             if wanted \<le> 0 then no_trade No_capacity_or_funds r
             else fill r i sd wanted price why)))))"

definition liquidate :: "run \<Rightarrow> automata_error + run" where
  "liquidate r0 =
     bind_r (fold_r (\<lambda>i r. bind_r (amount_int (p_quantity (position_of r i))) (\<lambda>n. trade r i Sell n For_liquidation))
               (sort (map fst (r_positions r0))) (r0\<lparr>r_status := St_liquidating\<rparr>)) (\<lambda>r.
     bind_r (all_r (\<lambda>ip. bind_r (amount_int (p_quantity (snd ip))) (\<lambda>n. Inr (n = 0))) (r_positions r)) (\<lambda>flat.
     if flat then Inr (r\<lparr>r_status := St_stopped, r_reason := None\<rparr>)
     else Inr (r\<lparr>r_status := St_blocked,
       r_reason := (case r_reason r of None \<Rightarrow> Some Liquidation_incomplete | Some x \<Rightarrow> Some x)\<rparr>)))"

section \<open>Rebalancing\<close>

definition intent :: "run \<Rightarrow> (string \<times> int) list \<Rightarrow> int \<Rightarrow> string \<Rightarrow> quote \<Rightarrow> automata_error + (string \<times> side \<times> int) list" where
  "intent r targets nav i q =
    (let weight = (case map_of targets i of None \<Rightarrow> 0 | Some w \<Rightarrow> w) in
     bind_r (amount_int (p_quantity (position_of r i))) (\<lambda>n.
     bind_r (amount (q_bid q)) (\<lambda>bid.
     let difference = tdiv (nav * weight) BPS - tdiv (n * bid) SCALE; magnitude = \<bar>difference\<bar> in
     if magnitude * BPS < nav * pa_deviationBps (r_parameters r) \<or> magnitude = 0 then Inr []
     else let sd = (if difference > 0 then Buy else Sell) in
       bind_r (amount (if sd = Buy then q_ask q else q_bid q)) (\<lambda>price.
       bind_r (big_div (magnitude * SCALE) price) (\<lambda>quantity. Inr [(i, sd, quantity)])))))"

fun intents :: "(string \<times> int) list \<Rightarrow> int \<Rightarrow> string list \<Rightarrow> run \<Rightarrow> automata_error + run \<times> (string \<times> side \<times> int) list" where
  "intents targets nav [] r = Inr (r, [])"
| "intents targets nav (i # is) r =
    (case map_of (r_quotes r) i of
       Some q \<Rightarrow>
         if fresh r (Some q)
         then bind_r (intent r targets nav i q) (\<lambda>xs. bind_r (intents targets nav is r) (\<lambda>(r1, ys). Inr (r1, xs @ ys)))
         else intents targets nav is (r\<lparr>r_reason := Some Quote_unavailable\<rparr>)
     | None \<Rightarrow> intents targets nav is (r\<lparr>r_reason := Some Quote_unavailable\<rparr>))"

fun run_intents :: "(string \<times> side \<times> int) list \<Rightarrow> run \<Rightarrow> automata_error + run" where
  "run_intents [] r = Inr r"
| "run_intents ((i, sd, n) # xs) r =
     bind_r (trade r i sd n For_rebalance) (\<lambda>r1.
     bind_r (limits r1) (\<lambda>r2. if r_trigger r2 \<noteq> None then liquidate r2 else run_intents xs r2))"

definition rebalance_now :: "(string \<times> int) list \<Rightarrow> run \<Rightarrow> automata_error + run" where
  "rebalance_now targets r =
     bind_r (valuationsFresh r) (\<lambda>ok.
     if \<not> ok then no_trade Valuation_incomplete r
     else bind_r (equity r) (\<lambda>nav.
       bind_r (intents targets nav (sort (map fst (pa_weights (r_parameters r)))) r) (\<lambda>(r1, xs).
       run_intents (filter (\<lambda>x. fst (snd x) = Sell) xs @ filter (\<lambda>x. fst (snd x) = Buy) xs) r1)))"

definition rebalance :: "(string \<times> int) list \<Rightarrow> bool \<Rightarrow> run \<Rightarrow> automata_error + run" where
  "rebalance targets scheduled r =
    (if scheduled
     then if r_clock r < r_nextDecisionAt r then Inr r
          else rebalance_now targets (r\<lparr>r_nextDecisionAt := r_clock r + pa_intervalMs (r_parameters r)\<rparr>)
     else rebalance_now targets r)"

section \<open>Funding\<close>

definition changeUnits :: "int \<Rightarrow> fund_direction \<Rightarrow> run \<Rightarrow> automata_error + run" where
  "changeUnits cash dir r =
     bind_r (equity r) (\<lambda>nav.
     if nav = 0 \<and> r_unitsNumerator r = 0 \<and> dir = Fund_in
     then Inr (r\<lparr>r_unitsNumerator := cash * r_emptyDenominator r, r_unitsDenominator := r_emptyNumerator r\<rparr>)
     else bind_r (check (nav > 0 \<and> (dir = Fund_in \<or> cash \<le> nav)) FUNDING_NAV) (\<lambda>_.
       if dir = Fund_out \<and> cash = nav
       then Inr (r\<lparr>r_emptyNumerator := nav * r_unitsDenominator r, r_emptyDenominator := r_unitsNumerator r,
                   r_unitsNumerator := 0, r_unitsDenominator := 1\<rparr>)
       else let n = r_unitsNumerator r * (if dir = Fund_in then nav + cash else nav - cash);
                d = r_unitsDenominator r * nav; a = euclid n d in
         bind_r (big_div n a) (\<lambda>n'.
         bind_r (big_div d a) (\<lambda>d'.
         bind_r (check (int (length (toString n')) \<le> 4096 \<and> int (length (toString d')) \<le> 4096) UNIT_PRECISION_LIMIT) (\<lambda>_.
         Inr (r\<lparr>r_unitsNumerator := n', r_unitsDenominator := d'\<rparr>))))))"

definition push_history :: "int \<Rightarrow> reason option \<Rightarrow> run \<Rightarrow> automata_error + run" where
  "push_history e why r =
     bind_r (returnBps r) (\<lambda>b.
     Inr (r\<lparr>r_history := r_history r @ [\<lparr>h_at = r_clock r, h_equity = e, h_returnBps = b, h_status = r_status r,
            h_reason = why\<rparr>]\<rparr>))"

definition releaseSettlementExcess :: "run \<Rightarrow> int \<Rightarrow> automata_error + run" where
  "releaseSettlementExcess r excess =
     bind_r (check (0 \<le> excess) INVALID_AMOUNT) (\<lambda>_.
     bind_r (amount_int (r_cash r)) (\<lambda>c.
     bind_r (check (excess \<le> c) INVALID_AMOUNT) (\<lambda>_.
     bind_r (all_r (\<lambda>ip. bind_r (amount_int (p_quantity (snd ip))) (\<lambda>n. Inr (n = 0))) (r_positions r)) (\<lambda>flat.
     bind_r (check flat INVALID_STATUS) (\<lambda>_.
     if excess = 0 then Inr r
     else bind_r (changeUnits excess Fund_out r) (\<lambda>r1.
       let r2 = r1\<lparr>r_cash := c - excess, r_netContributed := r_netContributed r1 - excess\<rparr> in
       push_history (r_cash r2) (Some Settlement_excess) r2))))))"

section \<open>Transitions\<close>

definition take_quote :: "quote \<Rightarrow> run \<Rightarrow> run" where
  "take_quote q r =
    (let r1 = (if map_option q_observedAt (map_of (r_quotes r) (q_assetId q)) \<noteq> Some (q_observedAt q)
               then r\<lparr>r_usedCapacity := AList.update (q_assetId q) 0 (r_usedCapacity r)\<rparr> else r) in
     r1\<lparr>r_quotes := AList.update (q_assetId q) q (r_quotes r1)\<rparr>)"

definition act_frame :: "frame \<Rightarrow> run \<Rightarrow> automata_error + run" where
  "act_frame f r0 =
     bind_r (validateFrame r0 f) (\<lambda>_.
     bind_r (limits (fold take_quote (f_quotes f)
               (r0\<lparr>r_cursor := f_seq f, r_clock := f_at f, r_lastFrame := Some f\<rparr>))) (\<lambda>r.
     if r_trigger r \<noteq> None then liquidate r
     else if r_status r = St_running \<and> pa_strategyMode (r_parameters r) \<noteq> Some Mode_external
     then rebalance (pa_weights (r_parameters r)) True r else Inr r))"

definition act_decision :: "string \<Rightarrow> int \<Rightarrow> (string \<times> int) list \<Rightarrow> run \<Rightarrow> automata_error + run" where
  "act_decision did frameSeq targets r0 =
     bind_r (check (r_trigger r0 = None \<and> r_status r0 = St_running) INVALID_STATUS) (\<lambda>_.
     bind_r (check (pa_strategyMode (r_parameters r0) = Some Mode_external) STRATEGY_MODE) (\<lambda>_.
     bind_r (check (isSafeInteger frameSeq \<and> frameSeq > 0 \<and> frameSeq = r_cursor r0) STRATEGY_FRAME) (\<lambda>_.
     bind_r (check (id_ok did) INVALID_ID) (\<lambda>_.
     bind_r (validateTargets targets (map fst (pa_weights (r_parameters r0)))) (\<lambda>_.
     bind_r (valuationsFresh r0) (\<lambda>ok.
     bind_r (check ok STALE_VALUATION) (\<lambda>_.
     bind_r (limits r0) (\<lambda>r1.
     bind_r (if r_trigger r1 \<noteq> None then liquidate r1 else rebalance targets False r1) (\<lambda>r2.
     Inr (r2\<lparr>r_lastDecision := Some \<lparr>di_id = did, di_frameSeq = frameSeq, di_at = r_clock r2, di_targets = targets,
            di_trades = int (length (r_trades r2)) - int (length (r_trades r0))\<rparr>\<rparr>))))))))))"

definition act_fund :: "fund_direction \<Rightarrow> string \<Rightarrow> run \<Rightarrow> automata_error + run" where
  "act_fund dir value r0 =
     bind_r (check (r_trigger r0 = None \<and> r_status r0 \<in> set [St_running, St_paused]) INVALID_STATUS) (\<lambda>_.
     bind_r (valuationsFresh r0) (\<lambda>ok.
     bind_r (check ok STALE_VALUATION) (\<lambda>_.
     bind_r (amount value) (\<lambda>cash.
     bind_r (check (cash > 0) INVALID_AMOUNT) (\<lambda>_.
     bind_r (if dir = Fund_out then bind_r (amount_int (r_cash r0)) (\<lambda>c. check (cash \<le> c) INSUFFICIENT_BOT_CASH)
             else Inr ()) (\<lambda>_.
     bind_r (changeUnits cash dir r0) (\<lambda>r1.
     let delta = (if dir = Fund_in then cash else - cash) in
     bind_r (amount_int (r_cash r1)) (\<lambda>c.
     Inr (r1\<lparr>r_cash := c + delta, r_netContributed := r_netContributed r1 + delta\<rparr>)))))))))"

definition act :: "action \<Rightarrow> run \<Rightarrow> automata_error + run" where
  "act a r =
    (case a of
       A_frame f \<Rightarrow> act_frame f r
     | A_decision did frameSeq targets \<Rightarrow> act_decision did frameSeq targets r
     | A_stop \<Rightarrow> bind_r (trigger By_manual r) liquidate
     | A_pause \<Rightarrow> bind_r (check (r_trigger r = None \<and> r_status r \<in> set [St_running, St_paused]) INVALID_STATUS) (\<lambda>_.
         Inr (r\<lparr>r_status := St_paused\<rparr>))
     | A_resume \<Rightarrow> bind_r (check (r_trigger r = None \<and> r_status r \<in> set [St_running, St_paused]) INVALID_STATUS) (\<lambda>_.
         Inr (r\<lparr>r_status := St_running\<rparr>))
     | A_fund dir value \<Rightarrow> act_fund dir value r)"

definition total_cost :: "run \<Rightarrow> automata_error + int" where
  "total_cost r = fold_r (\<lambda>ip n. bind_r (amount_int (p_cost (snd ip))) (\<lambda>c. Inr (n + c))) (r_positions r) 0"

definition closing_checks :: "run \<Rightarrow> automata_error + run" where
  "closing_checks r =
     bind_r (check (int (length (r_trades r)) \<le> 2000 \<and> int (length (r_history r)) < 2000) RUN_HISTORY_LIMIT) (\<lambda>_.
     bind_r (amount_int (r_cash r)) (\<lambda>c.
     bind_r (total_cost r) (\<lambda>cost.
     bind_r (check (c + cost = r_netContributed r + r_realizedPnl r) RUN_CONSERVATION) (\<lambda>_.
     bind_r (equity r) (\<lambda>e. push_history e (r_reason r) r)))))"

definition transition :: "run \<Rightarrow> action \<Rightarrow> automata_error + run" where
  "transition previous a =
    (case a of
       A_frame f \<Rightarrow>
         if f_seq f = r_cursor previous
         then bind_r (check (r_lastFrame previous = Some f) FRAME_CONFLICT) (\<lambda>_. Inr previous)
         else if r_status previous = St_stopped then Inr previous
         else bind_r (act a (previous\<lparr>r_reason := None\<rparr>)) closing_checks
     | A_stop \<Rightarrow>
         if r_status previous = St_stopped then Inr previous
         else bind_r (act a (previous\<lparr>r_reason := None\<rparr>)) closing_checks
     | _ \<Rightarrow> bind_r (act a (previous\<lparr>r_reason := None\<rparr>)) closing_checks)"

end
