(* ===== verification/Automata_Properties.thy ===== *)
theory Automata_Properties
  imports Automata_Engine
begin

text \<open>
  What holds of every portfolio run. \<open>run_invariant\<close> is the contract of a predicate on runs that trading keeps:
  from a few laws it derives that limits, liquidation and rebalancing keep it. \<open>transition_invariant\<close> adds the
  laws for frames and funding and derives that every transition keeps it. The properties are interpretations
  on the books, on the used capacity and on the identity of the last frame.
\<close>

lemma all_r_all: "all_r f xs = Inr True \<longleftrightarrow> (\<forall>x\<in>set xs. f x = Inr True)"
  by (induction xs) (auto simp: bind_r_Inr split: if_splits)

definition with_frame :: "frame \<Rightarrow> run \<Rightarrow> run" where
  "with_frame f r = fold take_quote (f_quotes f) (r\<lparr>r_cursor := f_seq f, r_clock := f_at f, r_lastFrame := Some f\<rparr>)"

section \<open>Predicates that trading keeps\<close>

locale run_invariant =
  fixes P :: "run \<Rightarrow> bool"
  assumes reason_irrelevant: "P (r\<lparr>r_reason := a\<rparr>) = P r"
    and status_irrelevant: "P (r\<lparr>r_status := b\<rparr>) = P r"
    and trigger_irrelevant: "P (r\<lparr>r_trigger := c\<rparr>) = P r"
    and schedule_irrelevant: "P (r\<lparr>r_nextDecisionAt := d\<rparr>) = P r"
    and decision_irrelevant: "P (r\<lparr>r_lastDecision := e\<rparr>) = P r"
    and history_irrelevant: "P (r\<lparr>r_history := h\<rparr>) = P r"
    and trade_keeps: "trade r i sd n why = Inr t \<Longrightarrow> P r \<Longrightarrow> P t"
begin

lemmas irrelevant = reason_irrelevant status_irrelevant trigger_irrelevant schedule_irrelevant
  decision_irrelevant history_irrelevant

lemma no_trade_keeps: "no_trade why r = Inr t \<Longrightarrow> P r \<Longrightarrow> P t"
  by (auto simp: no_trade_def irrelevant)

lemma trigger_keeps: "trigger why r = Inr t \<Longrightarrow> P r \<Longrightarrow> P t"
  by (auto simp: trigger_def bind_r_Inr irrelevant split: option.splits)

lemma limits_keeps: "limits r = Inr t \<Longrightarrow> P r \<Longrightarrow> P t"
  unfolding limits_def percent_limits_def price_limits_def Let_def
  by (auto simp: bind_r_Inr split: if_splits run_limits.splits option.splits dest: trigger_keeps)

lemma liquidate_keeps:
  assumes "liquidate r = Inr t" "P r"
  shows "P t"
proof -
  let ?f = "\<lambda>i r. bind_r (amount_int (p_quantity (position_of r i))) (\<lambda>n. trade r i Sell n For_liquidation)"
  obtain u where u: "fold_r ?f (sort (map fst (r_positions r))) (r\<lparr>r_status := St_liquidating\<rparr>) = Inr u"
    and t: "\<exists>a b. t = u\<lparr>r_status := a, r_reason := b\<rparr>"
    using assms(1) by (auto simp: liquidate_def bind_r_Inr split: if_splits)
  have "P u" using u by (rule fold_r_keeps) (auto simp: assms(2) irrelevant bind_r_Inr dest: trade_keeps)
  then show ?thesis using t by (auto simp: irrelevant)
qed

lemma intents_keeps: "intents targets nav is r = Inr (t, xs) \<Longrightarrow> P r \<Longrightarrow> P t"
  by (induction "is" arbitrary: r t xs)
    (force simp: bind_r_Inr irrelevant split: option.splits if_splits)+

lemma run_intents_keeps: "run_intents xs r = Inr t \<Longrightarrow> P r \<Longrightarrow> P t"
  by (induction xs r rule: run_intents.induct)
    (auto simp: bind_r_Inr split: if_splits dest: trade_keeps limits_keeps liquidate_keeps)

lemma rebalance_now_keeps: "rebalance_now targets r = Inr t \<Longrightarrow> P r \<Longrightarrow> P t"
  by (auto simp: rebalance_now_def bind_r_Inr split: if_splits
      dest: no_trade_keeps run_intents_keeps intents_keeps)

lemma rebalance_keeps: "rebalance targets scheduled r = Inr t \<Longrightarrow> P r \<Longrightarrow> P t"
  by (auto simp: rebalance_def irrelevant split: if_splits dest!: rebalance_now_keeps)

lemma push_history_keeps: "push_history e why r = Inr t \<Longrightarrow> P r \<Longrightarrow> P t"
  by (auto simp: push_history_def bind_r_Inr irrelevant)

lemma closing_keeps: "closing_checks r = Inr t \<Longrightarrow> P r \<Longrightarrow> P t"
  by (auto simp: closing_checks_def bind_r_Inr split: if_splits dest: push_history_keeps)

lemma decision_keeps: "act_decision did fs targets r = Inr t \<Longrightarrow> P r \<Longrightarrow> P t"
  by (auto simp: act_decision_def bind_r_Inr irrelevant split: if_splits
      dest: liquidate_keeps rebalance_keeps limits_keeps)

lemma act_frame_keeps: "act_frame f r = Inr t \<Longrightarrow> P (with_frame f r) \<Longrightarrow> P t"
  unfolding act_frame_def with_frame_def[symmetric]
  by (auto simp: bind_r_Inr split: if_splits dest: limits_keeps liquidate_keeps rebalance_keeps)

end

locale transition_invariant = run_invariant +
  assumes frame_keeps: "P r \<Longrightarrow> validateFrame r f = Inr u \<Longrightarrow> P (with_frame f r)"
    and fund_keeps: "act_fund dir value r = Inr t \<Longrightarrow> P r \<Longrightarrow> P t"
    and release_keeps: "releaseSettlementExcess r x = Inr t \<Longrightarrow> P r \<Longrightarrow> P t"
begin

lemma act_keeps: "act a r = Inr t \<Longrightarrow> P r \<Longrightarrow> P t"
proof (cases a)
  case (A_frame f)
  assume t: "act a r = Inr t" and p: "P r"
  then obtain u where "validateFrame r f = Inr u" by (auto simp: A_frame act_def act_frame_def bind_r_Inr)
  then show ?thesis using act_frame_keeps[of f r t] t frame_keeps[OF p] by (simp add: A_frame act_def)
qed (auto simp: act_def bind_r_Inr irrelevant split: if_splits
    dest: decision_keeps trigger_keeps liquidate_keeps fund_keeps)

lemma transition_keeps: "transition r a = Inr t \<Longrightarrow> P r \<Longrightarrow> P t"
  by (auto simp: transition_def bind_r_Inr irrelevant split: action.splits if_splits
      dest!: closing_keeps act_keeps)

end

section \<open>The effect of a trade\<close>

lemma reason_same: "r = r\<lparr>r_reason := r_reason r\<rparr>"
  by simp

lemma fill_Inr:
  assumes "fill r i sd wanted price why = Inr t"
  obtains (none) a where "t = r\<lparr>r_reason := a\<rparr>"
  | (filled) quantity gross fee r1 where "0 < quantity" "quantity \<le> wanted"
      "gross = gross_of sd quantity price" "fee = fee_of (r_parameters r) gross" "fee < gross"
      "sd = Buy \<Longrightarrow> gross + fee \<le> r_cash r"
      "settle_trade r i sd quantity gross fee = Inr r1" "record_trade r1 i sd quantity price fee why = Inr t"
proof -
  obtain quantity where q: "affordable r sd wanted price = Inr quantity" "quantity \<le> wanted"
    using assms by (fastforce simp: fill_def affordable_def bind_r_Inr Let_def split: side.splits if_splits)
  define gross where "gross = gross_of sd quantity price"
  define fee where "fee = fee_of (r_parameters r) gross"
  show thesis
  proof (cases "quantity \<le> 0 \<or> gross \<le> fee \<or> (sd = Buy \<and> gross + fee > r_cash r)")
    case True
    then have "\<exists>a. t = r\<lparr>r_reason := a\<rparr>"
      using assms q unfolding fill_def gross_def fee_def
      by (auto simp: bind_r_Inr Let_def no_trade_def amount_int_Inr split: if_splits)
    then show thesis using none by blast
  next
    case False
    then obtain r1 where "settle_trade r i sd quantity gross fee = Inr r1" "record_trade r1 i sd quantity price fee why = Inr t"
      using assms q unfolding fill_def gross_def fee_def
      by (auto simp: bind_r_Inr Let_def no_trade_def amount_int_Inr split: if_splits)
    then show thesis using False q by (intro filled[of quantity gross fee r1]) (auto simp: gross_def fee_def)
  qed
qed

lemma trade_Inr:
  assumes "trade r i sd n why = Inr t"
  obtains (none) a where "t = r\<lparr>r_reason := a\<rparr>"
  | (filled) q cap price quantity gross fee r1 where
      "map_of (r_quotes r) i = Some q" "amount (q_capacity q) = Inr cap"
      "0 < quantity" "quantity \<le> n" "0 < price" "0 \<le> used_capacity r i" "quantity + used_capacity r i \<le> cap"
      "gross = gross_of sd quantity price" "fee = fee_of (r_parameters r) gross" "fee < gross"
      "sd = Buy \<Longrightarrow> gross + fee \<le> r_cash r" "sd = Sell \<Longrightarrow> quantity \<le> p_quantity (position_of r i)"
      "settle_trade r i sd quantity gross fee = Inr r1" "record_trade r1 i sd quantity price fee why = Inr t"
proof (cases "\<exists>a. t = r\<lparr>r_reason := a\<rparr>")
  case True
  then show thesis using none by blast
next
  case False
  then have same: "t \<noteq> r" using reason_same[of r] by metis
  have nt: "no_trade x r \<noteq> Inr t" for x using False by (auto simp: no_trade_def)
  obtain q cap price wanted where
    q: "map_of (r_quotes r) i = Some q" "amount (q_capacity q) = Inr cap" "0 < price" "0 \<le> used_capacity r i"
    "trade_quantity r i sd (min n (cap - used_capacity r i)) price = Inr wanted" "fill r i sd wanted price why = Inr t"
    using assms same nt
    by (auto simp: trade_def bind_r_Inr amount_int_Inr not_le split: if_splits option.splits)
  have wanted: "wanted \<le> n" "wanted + used_capacity r i \<le> cap" "sd = Sell \<Longrightarrow> wanted \<le> p_quantity (position_of r i)"
    using q(5) by (auto simp: trade_quantity_def bind_r_Inr amount_int_Inr split: side.splits)
  from q(6) show thesis
  proof (cases rule: fill_Inr)
    case (none a)
    then show thesis using False by blast
  next
    case (filled quantity gross fee r1)
    show thesis
    proof (rule that(2)[of q cap quantity price gross fee r1])
      show "quantity \<le> n" "quantity + used_capacity r i \<le> cap" using filled(2) wanted(1,2) by simp_all
      show "quantity \<le> p_quantity (position_of r i)" if "sd = Sell" using filled(2) wanted(3)[OF that] by simp
    qed (use filled q in simp_all)
  qed
qed

lemma settle_trade_Inr:
  assumes "settle_trade r i sd quantity gross fee = Inr t"
  obtains cost where "sd = Buy" "cost = gross + fee"
      "t = r\<lparr>r_cash := r_cash r - cost, r_positions := AList.update i
          \<lparr>p_quantity = p_quantity (position_of r i) + quantity, p_cost = p_cost (position_of r i) + cost\<rparr> (r_positions r)\<rparr>"
  | cost where "sd = Sell" "sold_cost (position_of r i) quantity = Inr cost"
      "t = r\<lparr>r_cash := r_cash r + gross - fee, r_positions := AList.update i
          \<lparr>p_quantity = p_quantity (position_of r i) - quantity, p_cost = p_cost (position_of r i) - cost\<rparr> (r_positions r),
          r_realizedPnl := r_realizedPnl r + gross - fee - cost\<rparr>"
  using assms
  by (cases sd) (auto simp: settle_trade_def bind_r_Inr amount_int_Inr Let_def algebra_simps)

lemma record_trade_Inr:
  "record_trade r i sd quantity price fee why = Inr t \<Longrightarrow>
    \<exists>x. t = r\<lparr>r_fees := r_fees r + fee, r_usedCapacity := AList.update i (used_capacity r i + quantity) (r_usedCapacity r),
      r_trades := r_trades r @ [x]\<rparr> \<and> t_side x = sd \<and> t_purpose x = why \<and> t_assetId x = i"
  by (auto simp: record_trade_def bind_r_Inr amount_int_Inr)

section \<open>The books\<close>

definition costs :: "run \<Rightarrow> int" where
  "costs r = sum_list (map (p_cost \<circ> snd) (r_positions r))"

definition books :: "run \<Rightarrow> bool" where
  "books r \<longleftrightarrow> validateParameters (r_parameters r) = Inr () \<and> distinct (map fst (r_positions r)) \<and>
     (\<forall>ip\<in>set (r_positions r). 0 \<le> p_quantity (snd ip) \<and> 0 \<le> p_cost (snd ip)) \<and> 0 \<le> r_cash r \<and>
     r_cash r + costs r = r_netContributed r + r_realizedPnl r"

lemma position_of_nonneg: "books r \<Longrightarrow> 0 \<le> p_quantity (position_of r i) \<and> 0 \<le> p_cost (position_of r i)"
  by (auto simp: books_def position_of_def split: option.splits dest!: map_of_SomeD)

lemma costs_update:
  assumes "distinct (map fst (r_positions r))"
  shows "sum_list (map (p_cost \<circ> snd) (AList.update i p (r_positions r))) = costs r - p_cost (position_of r i) + p_cost p"
  by (simp add: sum_update[OF assms] costs_def position_of_def split: option.splits)

lemma fee_nonneg: "validateParameters p = Inr () \<Longrightarrow> 0 \<le> g \<Longrightarrow> 0 \<le> fee_of p g"
  unfolding fee_of_def by (rule ceilDiv_nonneg) (auto simp: validateParameters_def integer_def BPS_def split: if_splits)

lemma gross_nonneg: "0 < quantity \<Longrightarrow> 0 < price \<Longrightarrow> 0 \<le> gross_of sd quantity price"
  by (cases sd) (auto simp: gross_of_def SCALE_def ceilDiv_nonneg tdiv_def sgn_if pos_imp_zdiv_nonneg_iff)

lemma books_change:
  assumes "books r" and "r_parameters t = r_parameters r" "r_netContributed t = r_netContributed r"
    and "r_positions t = AList.update i p (r_positions r)" "0 \<le> r_cash t" "0 \<le> p_quantity p" "0 \<le> p_cost p"
    and "r_cash t + p_cost p - r_realizedPnl t = r_cash r + p_cost (position_of r i) - r_realizedPnl r"
  shows "books t"
proof -
  have d: "distinct (map fst (r_positions r))" using assms(1) by (simp add: books_def)
  have "\<forall>ip\<in>set (AList.update i p (r_positions r)). 0 \<le> p_quantity (snd ip) \<and> 0 \<le> p_cost (snd ip)"
    using assms(1,6,7) by (intro update_all) (auto simp: books_def)
  moreover have "costs t = costs r - p_cost (position_of r i) + p_cost p"
    using costs_update[OF d, of i p] by (simp add: costs_def assms(4))
  ultimately show ?thesis using assms by (simp add: books_def distinct_update)
qed

lemma sold_cost_bounds:
  assumes "sold_cost p quantity = Inr c" "0 < quantity" "quantity \<le> p_quantity p"
  shows "0 \<le> c \<and> c \<le> p_cost p"
proof (cases "quantity = p_quantity p")
  case True
  then show ?thesis using assms by (auto simp: sold_cost_def bind_r_Inr amount_int_Inr)
next
  case False
  then have k: "0 \<le> p_cost p" and c: "c = tdiv (p_cost p * quantity) (p_quantity p)"
    using assms by (auto simp: sold_cost_def bind_r_Inr amount_int_Inr big_div_def split: if_splits)
  have "c = (p_cost p * quantity) div p_quantity p"
    unfolding c tdiv_def using k assms by (cases "p_cost p = 0") (auto simp: sgn_if abs_mult)
  moreover have "p_cost p * quantity \<le> p_cost p * p_quantity p" using k assms by (simp add: mult_left_mono)
  ultimately show ?thesis using k assms(2,3)
    by (auto simp: pos_imp_zdiv_nonneg_iff intro: order_trans[OF zdiv_mono1])
qed

lemma books_settle:
  assumes b: "books r" and s: "settle_trade r i sd quantity gross fee = Inr t"
    and g: "0 < quantity" "0 \<le> fee" "fee < gross" "sd = Buy \<Longrightarrow> gross + fee \<le> r_cash r"
      "sd = Sell \<Longrightarrow> quantity \<le> p_quantity (position_of r i)"
  shows "books t"
  using s
proof (cases rule: settle_trade_Inr)
  case (1 cost)
  show ?thesis
    using 1 g position_of_nonneg[OF b, of i] by (intro books_change[OF b]) (auto simp: algebra_simps)
next
  case (2 cost)
  have "0 \<le> cost \<and> cost \<le> p_cost (position_of r i)" using 2 g by (intro sold_cost_bounds) auto
  moreover have "0 \<le> r_cash r" using b by (simp add: books_def)
  ultimately show ?thesis
    using 2 g position_of_nonneg[OF b, of i] by (intro books_change[OF b]) (auto simp: algebra_simps)
qed

lemma books_irrelevant:
  "books (r\<lparr>r_reason := a\<rparr>) = books r" "books (r\<lparr>r_status := b\<rparr>) = books r" "books (r\<lparr>r_trigger := c\<rparr>) = books r"
  "books (r\<lparr>r_nextDecisionAt := d\<rparr>) = books r" "books (r\<lparr>r_lastDecision := e\<rparr>) = books r" "books (r\<lparr>r_history := h\<rparr>) = books r"
  by (simp_all add: books_def costs_def)

lemma books_trade: "trade r i sd n why = Inr t \<Longrightarrow> books r \<Longrightarrow> books t"
proof (erule trade_Inr)
  fix a assume "books r" "t = r\<lparr>r_reason := a\<rparr>"
  then show "books t" by (simp add: books_def costs_def)
next
  fix q cap price quantity gross fee r1
  assume b: "books r" and f: "0 < quantity" "0 < price" "gross = gross_of sd quantity price" "fee = fee_of (r_parameters r) gross"
    "fee < gross" "sd = Buy \<Longrightarrow> gross + fee \<le> r_cash r" "sd = Sell \<Longrightarrow> quantity \<le> p_quantity (position_of r i)"
    "settle_trade r i sd quantity gross fee = Inr r1" "record_trade r1 i sd quantity price fee why = Inr t"
  have "0 \<le> fee" using f(1-4) b gross_nonneg fee_nonneg by (simp add: books_def)
  then have "books r1" using f by (intro books_settle[OF b f(8)]) auto
  then show "books t" using record_trade_Inr[OF f(9)] by (auto simp: books_def costs_def)
qed

lemma take_quotes_frame:
  "r_positions (fold take_quote qs r) = r_positions r \<and> r_cash (fold take_quote qs r) = r_cash r \<and>
   r_parameters (fold take_quote qs r) = r_parameters r \<and> r_netContributed (fold take_quote qs r) = r_netContributed r \<and>
   r_realizedPnl (fold take_quote qs r) = r_realizedPnl r \<and> r_trades (fold take_quote qs r) = r_trades r \<and>
   r_trigger (fold take_quote qs r) = r_trigger r \<and> r_status (fold take_quote qs r) = r_status r \<and>
   r_cursor (fold take_quote qs r) = r_cursor r \<and> r_lastFrame (fold take_quote qs r) = r_lastFrame r \<and>
   r_clock (fold take_quote qs r) = r_clock r"
  by (induction qs arbitrary: r) (auto simp: take_quote_def Let_def)

lemma books_with_frame: "books (with_frame f r) = books r"
  unfolding with_frame_def using take_quotes_frame[of "f_quotes f"] by (simp add: books_def costs_def)

lemma changeUnits_frame:
  "changeUnits c dir r = Inr t \<Longrightarrow> r_parameters t = r_parameters r \<and> r_positions t = r_positions r \<and>
     r_realizedPnl t = r_realizedPnl r \<and> r_cash t = r_cash r \<and> r_netContributed t = r_netContributed r \<and>
     r_quotes t = r_quotes r \<and> r_usedCapacity t = r_usedCapacity r"
  by (auto simp: changeUnits_def bind_r_Inr Let_def split: if_splits)

lemma books_move:
  "books r \<Longrightarrow> r_parameters t = r_parameters r \<Longrightarrow> r_positions t = r_positions r \<Longrightarrow> r_realizedPnl t = r_realizedPnl r \<Longrightarrow>
   r_cash t = r_cash r + x \<Longrightarrow> r_netContributed t = r_netContributed r + x \<Longrightarrow> 0 \<le> r_cash r + x \<Longrightarrow> books t"
  by (simp add: books_def costs_def)

lemma books_fund:
  assumes "act_fund dir value r = Inr t" "books r"
  shows "books t"
proof -
  obtain cash r1 where c: "0 < cash" "dir = Fund_out \<longrightarrow> cash \<le> r_cash r" "changeUnits cash dir r = Inr r1"
    and t: "t = r1\<lparr>r_cash := r_cash r1 + (if dir = Fund_in then cash else - cash),
      r_netContributed := r_netContributed r1 + (if dir = Fund_in then cash else - cash)\<rparr>"
    using assms(1) by (cases dir) (auto simp: act_fund_def bind_r_Inr amount_int_Inr check_Inr Let_def split: if_splits)
  have "0 \<le> r_cash r" using assms(2) by (simp add: books_def)
  then show ?thesis using c t changeUnits_frame[OF c(3)]
    by (intro books_move[OF assms(2), of _ "if dir = Fund_in then cash else - cash"]) (cases dir; auto)+
qed

lemma books_release:
  assumes "releaseSettlementExcess r x = Inr t" "books r"
  shows "books t"
proof (cases "x = 0")
  case True
  then show ?thesis using assms by (auto simp: releaseSettlementExcess_def bind_r_Inr split: if_splits)
next
  case False
  then obtain r1 where x: "x \<le> r_cash r" "changeUnits x Fund_out r = Inr r1"
    and t: "push_history (r_cash r - x) (Some Settlement_excess)
        (r1\<lparr>r_cash := r_cash r - x, r_netContributed := r_netContributed r1 - x\<rparr>) = Inr t"
    using assms(1) by (auto simp: releaseSettlementExcess_def bind_r_Inr amount_int_Inr Let_def split: if_splits)
  show ?thesis using x t changeUnits_frame[OF x(2)]
    by (intro books_move[OF assms(2), of _ "- x"]) (auto simp: push_history_def bind_r_Inr)
qed

interpretation run_books: transition_invariant books
  by unfold_locales (auto simp: books_with_frame books_irrelevant intro: books_trade books_fund books_release)


section \<open>Used capacity\<close>

definition capacity_ok :: "run \<Rightarrow> bool" where
  "capacity_ok r \<longleftrightarrow> (\<forall>i u. map_of (r_usedCapacity r) i = Some u \<longrightarrow>
     0 \<le> u \<and> (\<exists>q cap. map_of (r_quotes r) i = Some q \<and> amount (q_capacity q) = Inr cap \<and> u \<le> cap))"

lemma capacity_update:
  assumes "capacity_ok r" and "map_of (r_quotes t) i = Some q" "amount (q_capacity q) = Inr cap" "0 \<le> u" "u \<le> cap"
    and "r_usedCapacity t = AList.update i u (r_usedCapacity r)"
    and "\<And>j. j \<noteq> i \<Longrightarrow> map_of (r_quotes t) j = map_of (r_quotes r) j"
  shows "capacity_ok t"
  using assms by (auto simp: capacity_ok_def update_conv)

lemma capacity_trade: "trade r i sd n why = Inr t \<Longrightarrow> capacity_ok r \<Longrightarrow> capacity_ok t"
proof (erule trade_Inr)
  fix a assume "capacity_ok r" "t = r\<lparr>r_reason := a\<rparr>"
  then show "capacity_ok t" by (simp add: capacity_ok_def)
next
  fix q cap price quantity gross fee r1
  assume c: "capacity_ok r" and f: "map_of (r_quotes r) i = Some q" "amount (q_capacity q) = Inr cap" "0 < quantity"
    "0 \<le> used_capacity r i" "quantity + used_capacity r i \<le> cap"
    "settle_trade r i sd quantity gross fee = Inr r1" "record_trade r1 i sd quantity price fee why = Inr t"
  have r1: "r_quotes r1 = r_quotes r" "r_usedCapacity r1 = r_usedCapacity r"
    using f(6) by (auto elim!: settle_trade_Inr)
  then have "used_capacity r1 i = used_capacity r i" by (simp add: used_capacity_def)
  then show "capacity_ok t" using record_trade_Inr[OF f(7)] r1 f(1-5)
    by (intro capacity_update[OF c, of t i q cap "used_capacity r i + quantity"]) auto
qed

lemma take_quote_capacity:
  assumes "capacity_ok r" and "amount (q_capacity q) = Inr cap"
    and "\<And>b. map_of (r_quotes r) (q_assetId q) = Some b \<Longrightarrow> q_observedAt q = q_observedAt b \<Longrightarrow> q = b"
  shows "capacity_ok (take_quote q r)"
proof (cases "map_option q_observedAt (map_of (r_quotes r) (q_assetId q)) = Some (q_observedAt q)")
  case True
  then have "map_of (r_quotes r) (q_assetId q) = Some q" using assms(3) by auto
  then have "map_of (AList.update (q_assetId q) q (r_quotes r)) = map_of (r_quotes r)"
    by (simp add: update_conv' fun_upd_idem)
  then show ?thesis using True assms(1) by (simp add: take_quote_def capacity_ok_def)
next
  case False
  then show ?thesis using amount_reader.read_bounds[OF assms(2)] assms(2)
    by (intro capacity_update[OF assms(1), of _ "q_assetId q" q cap 0]) (auto simp: take_quote_def update_conv)
qed

lemma check_quote_Inr:
  assumes "check_quote r at seen q = Inr u"
  shows "(\<exists>cap. amount (q_capacity q) = Inr cap) \<and> q_assetId q \<notin> set seen \<and>
    (\<forall>b. map_of (r_quotes r) (q_assetId q) = Some b \<longrightarrow> q_observedAt q = q_observedAt b \<longrightarrow> q = b)"
  using assms by (auto simp: check_quote_def bind_r_Inr check_Inr split: if_splits option.splits)

lemma take_quotes_capacity:
  assumes "check_quotes r at seen qs = Inr u" "capacity_ok s"
    and "\<And>i. i \<notin> set seen \<Longrightarrow> map_of (r_quotes s) i = map_of (r_quotes r) i"
  shows "capacity_ok (fold take_quote qs s)"
  using assms
proof (induction qs arbitrary: s seen)
  case Nil
  then show ?case by simp
next
  case (Cons q qs)
  have c: "check_quote r at seen q = Inr ()" and rest: "check_quotes r at (q_assetId q # seen) qs = Inr u"
    using Cons.prems(1) by (auto split: sum.splits)
  obtain cap where "amount (q_capacity q) = Inr cap" using check_quote_Inr[OF c] by blast
  then have ok: "capacity_ok (take_quote q s)"
    using check_quote_Inr[OF c] Cons.prems(2,3) by (intro take_quote_capacity) auto
  have q: "map_of (r_quotes (take_quote q s)) i = map_of (r_quotes r) i" if "i \<notin> set (q_assetId q # seen)" for i
    using that Cons.prems(3) by (auto simp: take_quote_def Let_def update_conv)
  show ?case using Cons.IH[OF rest ok q] by simp
qed

lemma capacity_with_frame:
  "capacity_ok r \<Longrightarrow> validateFrame r f = Inr u \<Longrightarrow> capacity_ok (with_frame f r)"
  unfolding with_frame_def
  by (rule take_quotes_capacity[of r "f_at f" "[]"]) (auto simp: validateFrame_def capacity_ok_def split: if_splits)

lemma act_fund_frame:
  "act_fund dir value r = Inr t \<Longrightarrow> r_quotes t = r_quotes r \<and> r_usedCapacity t = r_usedCapacity r"
  by (auto simp: act_fund_def bind_r_Inr Let_def split: if_splits dest!: changeUnits_frame)

lemma release_frame:
  "releaseSettlementExcess r x = Inr t \<Longrightarrow> r_quotes t = r_quotes r \<and> r_usedCapacity t = r_usedCapacity r"
  by (auto simp: releaseSettlementExcess_def bind_r_Inr Let_def push_history_def split: if_splits dest!: changeUnits_frame)

lemma capacity_irrelevant:
  "capacity_ok (r\<lparr>r_reason := a\<rparr>) = capacity_ok r" "capacity_ok (r\<lparr>r_status := b\<rparr>) = capacity_ok r"
  "capacity_ok (r\<lparr>r_trigger := c\<rparr>) = capacity_ok r" "capacity_ok (r\<lparr>r_nextDecisionAt := d\<rparr>) = capacity_ok r"
  "capacity_ok (r\<lparr>r_lastDecision := e\<rparr>) = capacity_ok r" "capacity_ok (r\<lparr>r_history := h\<rparr>) = capacity_ok r"
  by (simp_all add: capacity_ok_def)

interpretation run_capacity: transition_invariant capacity_ok
proof unfold_locales
  show "capacity_ok t" if "act_fund dir x r = Inr t" "capacity_ok r" for dir x r t
    using act_fund_frame[OF that(1)] that(2) by (simp add: capacity_ok_def)
  show "capacity_ok t" if "releaseSettlementExcess r x = Inr t" "capacity_ok r" for x r t
    using release_frame[OF that(1)] that(2) by (simp add: capacity_ok_def)
qed (auto intro: capacity_trade capacity_with_frame simp: capacity_irrelevant)

section \<open>Liquidation\<close>

definition sold_down :: "run \<Rightarrow> run \<Rightarrow> bool" where
  "sold_down r t \<longleftrightarrow> r_trigger t = r_trigger r \<and>
     (\<exists>xs. r_trades t = r_trades r @ xs \<and> (\<forall>x\<in>set xs. t_side x = Sell \<and> t_purpose x = For_liquidation)) \<and>
     (\<forall>i. p_quantity (position_of t i) \<le> p_quantity (position_of r i))"

lemma sold_down_refl: "sold_down r r"
  by (simp add: sold_down_def)

lemma sold_down_trans: "sold_down r s \<Longrightarrow> sold_down s t \<Longrightarrow> sold_down r t"
  unfolding sold_down_def by (fastforce intro: order_trans)

lemma position_of_update:
  "r_positions t = AList.update i p (r_positions r) \<Longrightarrow> position_of t j = (if j = i then p else position_of r j)"
  by (simp add: position_of_def update_conv)

lemma sell_sold_down: "trade r i Sell n For_liquidation = Inr t \<Longrightarrow> sold_down r t"
proof (erule trade_Inr)
  fix a assume "t = r\<lparr>r_reason := a\<rparr>"
  then show "sold_down r t" by (simp add: sold_down_def position_of_def)
next
  fix q cap price quantity gross fee r1
  assume f: "0 < quantity" "settle_trade r i Sell quantity gross fee = Inr r1"
    "record_trade r1 i Sell quantity price fee For_liquidation = Inr t"
  obtain cost where r1: "r1 = r\<lparr>r_cash := r_cash r + gross - fee, r_positions := AList.update i
        \<lparr>p_quantity = p_quantity (position_of r i) - quantity, p_cost = p_cost (position_of r i) - cost\<rparr> (r_positions r),
        r_realizedPnl := r_realizedPnl r + gross - fee - cost\<rparr>"
    using f(2) by (auto elim!: settle_trade_Inr)
  have "r_positions t = AList.update i
      \<lparr>p_quantity = p_quantity (position_of r i) - quantity, p_cost = p_cost (position_of r i) - cost\<rparr> (r_positions r)"
    using record_trade_Inr[OF f(3)] r1 by auto
  from position_of_update[OF this] show "sold_down r t"
    using record_trade_Inr[OF f(3)] r1 f(1) by (auto simp: sold_down_def)
qed

lemma liquidate_sold_down:
  assumes "liquidate r = Inr t"
  shows "sold_down r t \<and> r_status t \<in> {St_stopped, St_blocked}"
proof -
  let ?f = "\<lambda>i r. bind_r (amount_int (p_quantity (position_of r i))) (\<lambda>n. trade r i Sell n For_liquidation)"
  obtain u where u: "fold_r ?f (sort (map fst (r_positions r))) (r\<lparr>r_status := St_liquidating\<rparr>) = Inr u"
    and t: "(\<exists>b. t = u\<lparr>r_status := St_stopped, r_reason := b\<rparr>) \<or> (\<exists>b. t = u\<lparr>r_status := St_blocked, r_reason := b\<rparr>)"
    using assms by (auto simp: liquidate_def bind_r_Inr split: if_splits)
  have "sold_down r u" using u
  proof (rule fold_r_keeps)
    show "sold_down r (r\<lparr>r_status := St_liquidating\<rparr>)" by (simp add: sold_down_def position_of_def)
  qed (auto simp: bind_r_Inr dest: sell_sold_down intro: sold_down_trans)
  then show ?thesis using t by (auto simp: sold_down_def position_of_def)
qed


lemma act_triggered:
  assumes "r_trigger r \<noteq> None" "act a r = Inr t"
  shows "sold_down r t \<and> r_status t \<in> {St_stopped, St_blocked}"
proof (cases a)
  case (A_frame f)
  let ?w = "with_frame f r"
  have w: "r_trigger ?w = r_trigger r" "sold_down r ?w"
    using take_quotes_frame[of "f_quotes f"] by (simp_all add: with_frame_def sold_down_def position_of_def)
  then have "limits ?w = Inr ?w" using assms(1) by (simp add: limits_def)
  then have "liquidate ?w = Inr t"
    using assms w by (auto simp: A_frame act_def act_frame_def bind_r_Inr with_frame_def[symmetric])
  then show ?thesis using liquidate_sold_down w(2) sold_down_trans by blast
next
  case A_stop
  then have "liquidate (r\<lparr>r_status := St_liquidating\<rparr>) = Inr t"
    using assms by (auto simp: act_def trigger_def split: option.splits)
  then show ?thesis using liquidate_sold_down[of "r\<lparr>r_status := St_liquidating\<rparr>" t]
    by (simp add: sold_down_def position_of_def)
qed (use assms in \<open>auto simp: act_def act_decision_def act_fund_def split: if_splits\<close>)

lemma closing_sold_down: "closing_checks r = Inr t \<Longrightarrow> sold_down r t \<and> r_status t = r_status r"
  by (auto simp: closing_checks_def push_history_def bind_r_Inr sold_down_def position_of_def split: if_splits)

lemma transition_cases:
  assumes "transition r a = Inr t"
  obtains "t = r" | u where "act a (r\<lparr>r_reason := None\<rparr>) = Inr u" "closing_checks u = Inr t"
  using assms by (auto simp: transition_def bind_r_Inr split: action.splits if_splits)

text \<open>A latched run only sells. Once a limit or the owner has triggered the liquidation of a run, no action
  buys again: whatever transition succeeds, the trigger stays, the trades it adds are all liquidation
  sales, no position grows, and the run is afterwards stopped or waiting for a quote, unless nothing
  happened at all.\<close>

theorem triggered_run_only_sells:
  assumes "r_trigger r \<noteq> None" and "transition r a = Inr t"
  shows "r_trigger t = r_trigger r \<and>
    (\<exists>xs. r_trades t = r_trades r @ xs \<and> (\<forall>x\<in>set xs. t_side x = Sell \<and> t_purpose x = For_liquidation)) \<and>
    (\<forall>i. p_quantity (position_of t i) \<le> p_quantity (position_of r i)) \<and>
    (t = r \<or> r_status t = St_stopped \<or> r_status t = St_blocked)"
  using assms(2)
proof (rule transition_cases)
  assume "t = r"
  then show ?thesis by simp
next
  fix u assume u: "act a (r\<lparr>r_reason := None\<rparr>) = Inr u" "closing_checks u = Inr t"
  have "sold_down r (r\<lparr>r_reason := None\<rparr>)" by (simp add: sold_down_def position_of_def)
  moreover have "sold_down (r\<lparr>r_reason := None\<rparr>) u \<and> r_status u \<in> {St_stopped, St_blocked}"
    using assms(1) u(1) by (intro act_triggered) simp_all
  ultimately have "sold_down r t \<and> r_status t \<in> {St_stopped, St_blocked}"
    using closing_sold_down[OF u(2)] sold_down_trans by metis
  then show ?thesis by (auto simp: sold_down_def)
qed

section \<open>Replayed frames\<close>

lemma trade_frame: "trade r i sd n why = Inr t \<Longrightarrow> r_cursor t = r_cursor r \<and> r_lastFrame t = r_lastFrame r"
  by (erule trade_Inr) (auto dest!: record_trade_Inr elim!: settle_trade_Inr)

interpretation same_frame: run_invariant "\<lambda>r. r_cursor r = c \<and> r_lastFrame r = l" for c l
  by unfold_locales (auto dest: trade_frame)

text \<open>Delivering a frame twice has the effect of delivering it once.\<close>

theorem frame_replay_idempotent:
  assumes "transition r (A_frame f) = Inr t"
  shows "transition t (A_frame f) = Inr t"
proof (cases "f_seq f = r_cursor r \<or> r_status r = St_stopped")
  case True
  then show ?thesis using assms by (auto simp: transition_def split: if_splits)
next
  case False
  then obtain u where u: "act_frame f (r\<lparr>r_reason := None\<rparr>) = Inr u" "closing_checks u = Inr t"
    using assms by (auto simp: transition_def bind_r_Inr act_def)
  let ?w = "with_frame f (r\<lparr>r_reason := None\<rparr>)"
  have "r_cursor ?w = f_seq f \<and> r_lastFrame ?w = Some f"
    using take_quotes_frame[of "f_quotes f"] by (simp add: with_frame_def)
  then have "r_cursor u = f_seq f \<and> r_lastFrame u = Some f"
    by (rule same_frame.act_frame_keeps[OF u(1)])
  then have "r_cursor t = f_seq f \<and> r_lastFrame t = Some f" using same_frame.closing_keeps[OF u(2)] by blast
  then show ?thesis by (simp add: transition_def)
qed


section \<open>Every reachable run\<close>

datatype run_call = Do_transition action | Do_release int

definition run_start :: "run \<Rightarrow> bool" where
  "run_start r \<longleftrightarrow> (\<exists>rid cash p. createRun rid cash p = Inr r)"

definition run_step :: "run \<Rightarrow> run_call \<Rightarrow> automata_error + run" where
  "run_step r c = (case c of Do_transition a \<Rightarrow> transition r a | Do_release x \<Rightarrow> releaseSettlementExcess r x)"

definition units_ok :: "run \<Rightarrow> bool" where
  "units_ok r \<longleftrightarrow> 0 \<le> r_unitsNumerator r \<and> 0 < r_unitsDenominator r \<and> 0 < r_emptyNumerator r \<and> 0 \<le> r_emptyDenominator r"

lemma run_start_facts: "run_start r \<Longrightarrow> books r \<and> capacity_ok r \<and> units_ok r"
  by (auto simp: run_start_def createRun_def bind_r_Inr check_Inr books_def costs_def capacity_ok_def units_ok_def
      split: if_splits)

section \<open>Funding\<close>

definition fund_delta :: "fund_direction \<Rightarrow> int \<Rightarrow> int" where
  "fund_delta dir cash = (if dir = Fund_in then cash else - cash)"

definition return_of :: "run \<Rightarrow> int \<Rightarrow> automata_error + int" where
  "return_of r nav =
    (if r_unitsNumerator r \<noteq> 0 then Inr (tdiv ((nav * r_unitsDenominator r - r_unitsNumerator r) * BPS) (r_unitsNumerator r))
     else big_div ((r_emptyNumerator r - r_emptyDenominator r) * BPS) (r_emptyDenominator r))"

lemma returnBps_return_of: "equity r = Inr nav \<Longrightarrow> returnBps r = bind_r (return_of r nav) (\<lambda>x. Inr (js_Number x))"
  by (simp add: returnBps_def return_of_def Let_def)

lemma fraction_return:
  fixes a b c d :: int
  assumes "b \<noteq> 0" "d \<noteq> 0" "a * d = c * b"
  shows "tdiv ((a - b) * BPS) b = tdiv ((c - d) * BPS) d"
proof (rule tdiv_same_fraction[OF assms(1,2)])
  have "(a - b) * d = (c - d) * b" using assms(3) by (simp add: algebra_simps)
  then show "(a - b) * BPS * d = (c - d) * BPS * b" by (metis mult.commute mult.left_commute)
qed

lemma changeUnits_reduced:
  assumes u: "units_ok r" and nav: "0 < nav" and n: "0 < m"
    and a: "n' = tdiv (r_unitsNumerator r * m) (euclid (r_unitsNumerator r * m) (r_unitsDenominator r * nav))"
      "d' = tdiv (r_unitsDenominator r * nav) (euclid (r_unitsNumerator r * m) (r_unitsDenominator r * nav))"
  shows "0 \<le> n' \<and> 0 < d' \<and> n' * (r_unitsDenominator r * nav) = d' * (r_unitsNumerator r * m)"
proof -
  let ?n = "r_unitsNumerator r * m" and ?d = "r_unitsDenominator r * nav"
  have pos: "0 \<le> ?n" "0 < ?d" using u nav n by (simp_all add: units_ok_def)
  then have g: "euclid ?n ?d = gcd ?n ?d" by (simp add: euclid_gcd)
  have g0: "0 < gcd ?n ?d" using pos(2) by (metis gcd_pos_int less_irrefl)
  have e: "n' * gcd ?n ?d = ?n" "d' * gcd ?n ?d = ?d"
    unfolding a g using g0 by (simp_all add: tdiv_dvd)
  have "0 \<le> n'" using e(1) pos(1) g0 by (metis mult_less_0_iff not_le)
  moreover have "0 < d'" using e(2) pos(2) g0 by (metis zero_less_mult_pos2)
  moreover have "n' * ?d = d' * ?n" using e by (metis mult.assoc mult.commute)
  ultimately show ?thesis by blast
qed

lemma changeUnits_effect:
  assumes "changeUnits cash dir r = Inr t" "equity r = Inr nav" "units_ok r" "0 < cash"
  obtains (refund) "nav = 0" "r_unitsNumerator r = 0" "dir = Fund_in" "r_unitsNumerator t = cash * r_emptyDenominator r"
      "r_unitsDenominator t = r_emptyNumerator r" "r_emptyNumerator t = r_emptyNumerator r" "r_emptyDenominator t = r_emptyDenominator r"
  | (empty) "dir = Fund_out" "cash = nav" "r_emptyNumerator t = nav * r_unitsDenominator r"
      "r_emptyDenominator t = r_unitsNumerator r" "r_unitsNumerator t = 0" "r_unitsDenominator t = 1" "0 < nav"
  | (reduced) "0 < nav" "0 < nav + fund_delta dir cash" "0 \<le> r_unitsNumerator t" "0 < r_unitsDenominator t"
      "r_unitsNumerator t * (r_unitsDenominator r * nav) = r_unitsDenominator t * (r_unitsNumerator r * (nav + fund_delta dir cash))"
      "r_emptyNumerator t = r_emptyNumerator r" "r_emptyDenominator t = r_emptyDenominator r"
proof -
  consider "nav = 0 \<and> r_unitsNumerator r = 0 \<and> dir = Fund_in" | "dir = Fund_out \<and> cash = nav" "nav > 0"
    | "\<not> (nav = 0 \<and> r_unitsNumerator r = 0 \<and> dir = Fund_in)" "\<not> (dir = Fund_out \<and> cash = nav)" "nav > 0"
      "dir = Fund_in \<or> cash \<le> nav"
    using assms(1,2) by (auto simp: changeUnits_def split: if_splits)
  then show thesis
  proof cases
    case 1
    then show thesis using assms(1,2) refund by (auto simp: changeUnits_def)
  next
    case 2
    then show thesis using assms(1,2) empty by (auto simp: changeUnits_def)
  next
    case 3
    have m: "0 < nav + fund_delta dir cash" using 3 assms(4) by (cases dir) (auto simp: fund_delta_def)
    have f: "(if dir = Fund_in then nav + cash else nav - cash) = nav + fund_delta dir cash" by (simp add: fund_delta_def)
    have t: "t = r\<lparr>r_unitsNumerator := r_unitsNumerator t, r_unitsDenominator := r_unitsDenominator t\<rparr> \<and>
      r_unitsNumerator t = tdiv (r_unitsNumerator r * (nav + fund_delta dir cash))
        (euclid (r_unitsNumerator r * (nav + fund_delta dir cash)) (r_unitsDenominator r * nav)) \<and>
      r_unitsDenominator t = tdiv (r_unitsDenominator r * nav)
        (euclid (r_unitsNumerator r * (nav + fund_delta dir cash)) (r_unitsDenominator r * nav))"
      using assms(1,2) 3 unfolding changeUnits_def f[symmetric]
      by (auto simp: bind_r_Inr big_div_def Let_def split: if_splits)
    have e: "r_emptyNumerator t = r_emptyNumerator r" "r_emptyDenominator t = r_emptyDenominator r"
      using t by (metis run.select_convs run.update_convs run.surjective)+
    show thesis using changeUnits_reduced[OF assms(3) 3(3) m conjunct1[OF conjunct2[OF t]] conjunct2[OF conjunct2[OF t]]] m 3 e
      by (intro reduced) auto
  qed
qed


lemma fold_sum:
  "fold_r (\<lambda>x s. bind_r (g x) (\<lambda>v. Inr (s + v))) xs (c::int) = Inr e \<longleftrightarrow> (\<exists>vs. map_r g xs = Inr vs \<and> e = c + sum_list vs)"
proof (induction xs arbitrary: c)
  case (Cons x xs)
  then show ?case by (cases "g x") (auto simp: bind_r_Inr algebra_simps)
qed auto

lemma equity_shift:
  assumes "equity r = Inr e" "equity t = Inr e'" "r_positions t = r_positions r" "r_quotes t = r_quotes r"
    "r_cash t = r_cash r + x"
  shows "e' = e + x"
proof -
  have "position_value t = position_value r" by (intro ext) (simp add: position_value_def bid_text_def assms(4))
  then show ?thesis using assms by (auto simp: equity_def bind_r_Inr amount_int_Inr fold_sum)
qed

lemma return_of_kept:
  assumes c: "changeUnits cash dir r = Inr t" and nav: "equity r = Inr nav" and u: "units_ok r" and "0 < cash"
    and n: "r_unitsNumerator r \<noteq> 0 \<or> nav = 0"
  shows "return_of t (nav + fund_delta dir cash) = return_of r nav"
  using c nav u \<open>0 < cash\<close>
proof (cases rule: changeUnits_effect)
  case refund
  show ?thesis
  proof (cases "r_emptyDenominator r = 0")
    case True
    then show ?thesis using refund by (simp add: return_of_def)
  next
    case False
    have "tdiv ((cash * r_emptyNumerator r - cash * r_emptyDenominator r) * BPS) (cash * r_emptyDenominator r) =
        tdiv ((r_emptyNumerator r - r_emptyDenominator r) * BPS) (r_emptyDenominator r)"
      using False \<open>0 < cash\<close> by (intro fraction_return) auto
    then show ?thesis using refund False \<open>0 < cash\<close> by (simp add: return_of_def fund_delta_def big_div_def)
  qed
next
  case empty
  then show ?thesis using n by (simp add: return_of_def big_div_def)
next
  case reduced
  let ?m = "nav + fund_delta dir cash"
  have un: "r_unitsNumerator r \<noteq> 0" using reduced n by simp
  have "r_unitsNumerator t \<noteq> 0" using reduced un by auto
  moreover have "?m * r_unitsDenominator t * r_unitsNumerator r = nav * r_unitsDenominator r * r_unitsNumerator t"
    using reduced(5) by (simp add: algebra_simps)
  ultimately show ?thesis using un
    by (simp add: return_of_def fraction_return[of "r_unitsNumerator t" "r_unitsNumerator r"])
qed

lemma units_trade: "trade r i sd n why = Inr t \<Longrightarrow> units_ok r \<Longrightarrow> units_ok t"
  by (erule trade_Inr) (auto simp: units_ok_def dest!: record_trade_Inr elim!: settle_trade_Inr)

lemma take_quotes_units: "units_ok (fold take_quote qs r) = units_ok r"
  by (induction qs arbitrary: r) (simp_all add: take_quote_def Let_def units_ok_def)

lemma changeUnits_units:
  assumes "changeUnits cash dir r = Inr t" "0 < cash" "units_ok r"
  shows "units_ok t"
proof -
  obtain nav where "equity r = Inr nav" using assms(1) by (auto simp: changeUnits_def bind_r_Inr)
  from assms(1) this assms(3,2) show ?thesis
    by (cases rule: changeUnits_effect) (use assms(2,3) in \<open>auto simp: units_ok_def\<close>)
qed

lemma act_fund_Inr:
  assumes "act_fund dir x r = Inr t"
  obtains cash u where "amount x = Inr cash" "0 < cash" "changeUnits cash dir r = Inr u"
    "t = u\<lparr>r_cash := r_cash u + fund_delta dir cash, r_netContributed := r_netContributed u + fund_delta dir cash\<rparr>"
  using assms by (auto simp: act_fund_def bind_r_Inr amount_int_Inr Let_def fund_delta_def split: if_splits)

lemma units_cash: "units_ok (r\<lparr>r_cash := c, r_netContributed := n\<rparr>) = units_ok r"
  by (simp add: units_ok_def)

lemma units_irrelevant:
  "units_ok (r\<lparr>r_reason := a\<rparr>) = units_ok r" "units_ok (r\<lparr>r_status := b\<rparr>) = units_ok r"
  "units_ok (r\<lparr>r_trigger := c\<rparr>) = units_ok r" "units_ok (r\<lparr>r_nextDecisionAt := d\<rparr>) = units_ok r"
  "units_ok (r\<lparr>r_lastDecision := e\<rparr>) = units_ok r" "units_ok (r\<lparr>r_history := h\<rparr>) = units_ok r"
  by (simp_all add: units_ok_def)

interpretation run_units: transition_invariant units_ok
proof unfold_locales
  show "units_ok t" if "act_fund dir x r = Inr t" "units_ok r" for dir x r t
    using that(1)
  proof (rule act_fund_Inr)
    fix cash u assume u: "0 < cash" "changeUnits cash dir r = Inr u"
      and t: "t = u\<lparr>r_cash := r_cash u + fund_delta dir cash, r_netContributed := r_netContributed u + fund_delta dir cash\<rparr>"
    show "units_ok t" unfolding t units_cash by (rule changeUnits_units[OF u(2,1) that(2)])
  qed
  show "units_ok t" if rel: "releaseSettlementExcess r x = Inr t" and ok: "units_ok r" for x r t
  proof (cases "x = 0")
    case True
    then show ?thesis using rel ok by (auto simp: releaseSettlementExcess_def bind_r_Inr split: if_splits)
  next
    case False
    then obtain u c n h where "0 < x" "changeUnits x Fund_out r = Inr u" "t = (u\<lparr>r_cash := c, r_netContributed := n\<rparr>)\<lparr>r_history := h\<rparr>"
      using rel by (auto simp: releaseSettlementExcess_def push_history_def bind_r_Inr Let_def split: if_splits)
    then show ?thesis using changeUnits_units[OF _ _ ok, of x Fund_out u] by (simp add: units_ok_def)
  qed
  show "units_ok (with_frame f r)" if "units_ok r" for f r
    unfolding with_frame_def take_quotes_units using that by (simp add: units_ok_def)
qed (auto intro: units_trade simp: units_irrelevant)

interpretation run_machine: guarded_machine run_start run_step "\<lambda>r. books r \<and> capacity_ok r \<and> units_ok r"
  by unfold_locales (auto simp: run_start_facts run_step_def split: run_call.splits
      dest: run_books.transition_keeps run_capacity.transition_keeps run_units.transition_keeps
      run_books.release_keeps run_capacity.release_keeps run_units.release_keeps)


section \<open>What every run guarantees\<close>

lemma total_cost_costs: "total_cost r = Inr c \<Longrightarrow> c = costs r"
proof -
  have *: "map_r (\<lambda>ip. amount_int (p_cost (snd ip))) xs = Inr vs \<Longrightarrow> sum_list vs = sum_list (map (p_cost \<circ> snd) xs)"
    for xs :: "(string \<times> position) list" and vs
    by (induction xs arbitrary: vs) (auto simp: bind_r_Inr amount_int_Inr)
  assume "total_cost r = Inr c"
  then show ?thesis by (auto simp: total_cost_def fold_sum costs_def dest: *)
qed

lemma fold_error: "fold_r f xs s = Inl e \<Longrightarrow> \<exists>x s. f x s = Inl e"
  by (induction xs arbitrary: s) (auto simp: bind_r_Inl)

lemma equity_error: "equity r = Inl e \<Longrightarrow> e = INVALID_AMOUNT"
  by (auto simp: equity_def position_value_def bind_r_Inl dest!: fold_error amount_Inl amount_int_Inl)

lemma push_history_error: "push_history x why r = Inl e \<Longrightarrow> e = INVALID_AMOUNT \<or> e = DIVISION_BY_ZERO"
  by (auto simp: push_history_def returnBps_def Let_def bind_r_Inl big_div_def split: if_splits dest: equity_error)

lemma total_cost_error: "total_cost r = Inl e \<Longrightarrow> e = INVALID_AMOUNT"
  by (auto simp: total_cost_def bind_r_Inl dest!: fold_error amount_int_Inl)

lemma closing_never_unbalanced: "books r \<Longrightarrow> closing_checks r \<noteq> Inl RUN_CONSERVATION"
  by (auto simp: closing_checks_def bind_r_Inl bind_r_Inr check_Inl amount_int_Inr books_def
      dest!: total_cost_costs total_cost_error amount_int_Inl equity_error push_history_error)

text \<open>C3: the books of a run always balance. Whatever calls led to a run, its cash and the cost of its positions
  are together what was contributed and what was realised, and neither the cash nor any quantity or cost
  is negative; and after any further action the closing check of the transition finds them balanced, so
  RUN_CONSERVATION is never thrown.\<close>

theorem run_books_balance:
  assumes "reaches run_start run_step r"
  shows "r_cash r + costs r = r_netContributed r + r_realizedPnl r \<and> 0 \<le> r_cash r \<and>
    (\<forall>ip\<in>set (r_positions r). 0 \<le> p_quantity (snd ip) \<and> 0 \<le> p_cost (snd ip)) \<and>
    (\<forall>a u. act a (r\<lparr>r_reason := None\<rparr>) = Inr u \<longrightarrow> closing_checks u \<noteq> Inl RUN_CONSERVATION)"
proof -
  have b: "books r" using run_machine.reachable_inv[OF assms] by blast
  have "books u" if "act a (r\<lparr>r_reason := None\<rparr>) = Inr u" for a u
    using run_books.act_keeps[OF that] b by (simp add: books_irrelevant)
  then show ?thesis using b closing_never_unbalanced by (auto simp: books_def)
qed

text \<open>A run never trades beyond what a quote offers. For every asset the quantity traded since its quote was
  observed is within the capacity of that quote.\<close>

theorem capacity_respected:
  assumes "reaches run_start run_step r" and "map_of (r_usedCapacity r) i = Some u"
  shows "0 \<le> u \<and> (\<exists>q cap. map_of (r_quotes r) i = Some q \<and> amount (q_capacity q) = Inr cap \<and> u \<le> cap)"
  using run_machine.reachable_inv[OF assms(1)] assms(2) by (auto simp: capacity_ok_def)

text \<open>C16: moving money is not performance, for a run with units outstanding. In every reachable run whose unit count
  is not zero, or which is worth nothing, an accepted funding or withdrawal leaves the reported return exactly as it
  was. The condition excludes the runs that are worth something with no unit outstanding, which are reachable: the
  whole equity is withdrawn while a held position is worth nothing, and then its price recovers (\<open>dust_run\<close> below).\<close>

theorem funding_keeps_return:
  assumes "reaches run_start run_step r" and "transition r (A_fund dir x) = Inr t"
    and "r_unitsNumerator r \<noteq> 0 \<or> equity r = Inr 0"
  shows "returnBps t = returnBps r"
proof -
  let ?r = "r\<lparr>r_reason := None\<rparr>"
  have u: "units_ok ?r" using run_machine.reachable_inv[OF assms(1)] by (simp add: units_irrelevant)
  obtain s where s: "act_fund dir x ?r = Inr s" "closing_checks s = Inr t"
    using assms(2) by (auto simp: transition_def act_def bind_r_Inr)
  obtain cash v where c: "0 < cash" "changeUnits cash dir ?r = Inr v"
    and sv: "s = v\<lparr>r_cash := r_cash v + fund_delta dir cash, r_netContributed := r_netContributed v + fund_delta dir cash\<rparr>"
    by (rule act_fund_Inr[OF s(1)])
  obtain nav where nav: "equity ?r = Inr nav" using c(2) by (auto simp: changeUnits_def bind_r_Inr)
  have er: "equity r = equity ?r" by (simp add: equity_def position_value_def[abs_def] bid_text_def)
  obtain e where e: "equity s = Inr e" and ts: "\<exists>h. t = s\<lparr>r_history := h\<rparr>"
    using s(2) by (auto simp: closing_checks_def push_history_def bind_r_Inr split: if_splits)
  have e': "e = nav + fund_delta dir cash"
    by (rule equity_shift[OF nav e]) (use changeUnits_frame[OF c(2)] sv in simp_all)
  have et: "equity t = Inr e" using e ts by (auto simp: equity_def position_value_def[abs_def] bid_text_def)
  have "return_of t e = return_of v e" using ts sv by (auto simp: return_of_def)
  also have "\<dots> = return_of ?r nav"
    unfolding e' by (rule return_of_kept[OF c(2) nav u c(1)]) (use assms(3) nav er in auto)
  also have "\<dots> = return_of r nav" by (simp add: return_of_def)
  finally show ?thesis using returnBps_return_of[OF et] returnBps_return_of[of r nav] nav er by simp
qed


section \<open>Witnesses\<close>

lemma not_isl_Inr: "\<not> isl x \<Longrightarrow> \<exists>t. x = Inr t"
  by (cases x) auto

definition demo_parameters :: parameters where
  "demo_parameters = \<lparr>pa_strategyMode = None, pa_weights = [(''rwa-a'', 5000)], pa_deviationBps = 100,
     pa_intervalMs = 1000, pa_feeBps = 10, pa_maxSlippageBps = 100, pa_limits = Limits_percent None (Some (- 1000))\<rparr>"

definition demo_quote_at :: "int \<Rightarrow> string \<Rightarrow> string \<Rightarrow> quote" where
  "demo_quote_at n price cap = \<lparr>q_assetId = ''rwa-a'', q_bid = price, q_ask = price, q_reference = None, q_observedAt = n,
     q_expiresAt = n + 10, q_capacity = cap, q_slippageBps = 0, q_available = True\<rparr>"

definition demo_frame :: "int \<Rightarrow> string \<Rightarrow> string \<Rightarrow> frame" where
  "demo_frame n price cap = \<lparr>f_seq = n, f_at = n, f_quotes = [demo_quote_at n price cap]\<rparr>"

definition demo_new_run :: run where
  "demo_new_run = (case createRun ''r'' ''1000000'' demo_parameters of Inr r \<Rightarrow> r)"

definition demo_run :: run where
  "demo_run = run_inputs run_step demo_new_run [Do_transition (A_frame (demo_frame 1 ''1000000'' ''900000''))]"

definition demo_falling :: run where
  "demo_falling = run_inputs run_step demo_run [Do_transition (A_frame (demo_frame 2 ''500000'' ''100''))]"

lemma demo_new_run_starts: "run_start demo_new_run"
proof -
  have "\<not> isl (createRun ''r'' ''1000000'' demo_parameters)" by code_simp
  then have "createRun ''r'' ''1000000'' demo_parameters = Inr demo_new_run"
    by (auto simp: demo_new_run_def split: sum.splits)
  then show ?thesis unfolding run_start_def by blast
qed

lemma demo_run_reaches: "reaches run_start run_step demo_run"
  unfolding demo_run_def by (intro run_machine.run_reaches reach_init demo_new_run_starts)

theorem run_books_balance_witness:
  "r_cash demo_run + costs demo_run = r_netContributed demo_run + r_realizedPnl demo_run \<and> length (r_trades demo_run) = 1"
proof -
  have "length (r_trades demo_run) = 1" by code_simp
  then show ?thesis using run_books_balance[OF demo_run_reaches] by simp
qed

theorem capacity_respected_witness:
  "map_of (r_usedCapacity demo_run) ''rwa-a'' = Some 500000 \<and>
    (\<exists>q cap. map_of (r_quotes demo_run) ''rwa-a'' = Some q \<and> amount (q_capacity q) = Inr cap \<and> 500000 \<le> cap)"
proof -
  have u: "map_of (r_usedCapacity demo_run) ''rwa-a'' = Some 500000" by code_simp
  then show ?thesis using capacity_respected[OF demo_run_reaches u] by simp
qed

definition demo_funded :: "automata_error + run" where
  "demo_funded = transition demo_run (A_fund Fund_out ''1000'')"

theorem funding_keeps_return_witness:
  "\<exists>t. demo_funded = Inr t \<and> returnBps t = returnBps demo_run"
proof -
  have "r_unitsNumerator demo_run \<noteq> 0 \<and> \<not> isl demo_funded" by code_simp
  then obtain t where t: "demo_funded = Inr t" and u: "r_unitsNumerator demo_run \<noteq> 0" using not_isl_Inr by blast
  then show ?thesis
    using funding_keeps_return[OF demo_run_reaches t[unfolded demo_funded_def]] by blast
qed

definition demo_triggered :: "automata_error + run" where
  "demo_triggered = transition demo_falling (A_frame (demo_frame 3 ''900000'' ''900000''))"

theorem triggered_run_only_sells_witness:
  "r_trigger demo_falling \<noteq> None \<and> (\<exists>t. demo_triggered = Inr t \<and>
     r_trigger t = r_trigger demo_falling \<and> p_quantity (position_of t ''rwa-a'') \<le> p_quantity (position_of demo_falling ''rwa-a''))"
proof -
  have "r_trigger demo_falling \<noteq> None \<and> \<not> isl demo_triggered" by code_simp
  then obtain t where r: "r_trigger demo_falling \<noteq> None" and t: "demo_triggered = Inr t" using not_isl_Inr by blast
  show ?thesis using triggered_run_only_sells[OF r t[unfolded demo_triggered_def]] r t by blast
qed

definition demo_delivered :: "automata_error + run" where
  "demo_delivered = transition demo_new_run (A_frame (demo_frame 1 ''1000000'' ''900000''))"

theorem frame_replay_idempotent_witness:
  "\<exists>t. demo_delivered = Inr t \<and> transition t (A_frame (demo_frame 1 ''1000000'' ''900000'')) = Inr t"
proof -
  have "\<not> isl demo_delivered" by code_simp
  then obtain t where t: "demo_delivered = Inr t" using not_isl_Inr by blast
  then show ?thesis using frame_replay_idempotent[OF t[unfolded demo_delivered_def]] by blast
qed

text \<open>The condition of \<open>funding_keeps_return\<close> is needed. A position can be worth nothing while its price is low; a
  withdrawal of the whole equity then clears the units although the position is still held. When its price
  recovers, the run is worth something with no units outstanding, and releasing the proceeds of its sale
  records an empty unit value with denominator zero, on which the return divides.\<close>

definition dust_run :: run where
  "dust_run = run_inputs run_step
     (case createRun ''r'' ''1000000'' (demo_parameters\<lparr>pa_limits := Limits_off\<rparr>) of Inr r \<Rightarrow> r)
     [Do_transition (A_frame (demo_frame 1 ''1000000'' ''900000'')), Do_transition (A_frame (demo_frame 2 ''1'' ''900000'')),
      Do_transition (A_fund Fund_out ''499500''), Do_transition (A_frame (demo_frame 3 ''1000000'' ''900000'')),
      Do_transition A_stop]"

lemma dust_release_divides_by_zero:
  "r_status dust_run = St_stopped \<and> r_cash dust_run = 499500 \<and>
    releaseSettlementExcess dust_run 499500 = Inl DIVISION_BY_ZERO"
  by code_simp

end
