(* ===== verification/Reference_Data.thy ===== *)
theory Reference_Data
  imports Canonical_Json Chain_Lifecycle
begin

text \<open>
  \<^bold>\<open>packages/market-data/src\<close>: reading the asset registry and price quotes (\<open>robinhood.ts\<close>), recomputing a stored
  capture (\<open>replayReference\<close> of \<open>capture.ts\<close>) and validating a batch of captures (\<open>batch.ts\<close>). A thrown error is its
  message. Untyped input is a \<open>json\<close> value whose numbers are integers, \<open>None\<close> is an absent property. \<open>JSON.parse\<close>,
  SHA-256 and \<open>Date\<close> are the arguments \<open>ref_env\<close>. The network half of the package (\<open>read\<close>, \<open>captureReference\<close>,
  \<open>captureReferenceBatch\<close>) and its SQLite journals are not modelled.
\<close>

type_synonym 'a checked = "string + 'a"

record ref_env =
  ref_parse :: "string \<Rightarrow> string + json"
  ref_sha256 :: "string \<Rightarrow> string"
  ref_dateParse :: "string \<Rightarrow> int option"
  ref_toISOString :: "int \<Rightarrow> string"

section \<open>Fields\<close>

definition field :: "json \<Rightarrow> string \<Rightarrow> json option" where
  "field v k = (case v of JObj es \<Rightarrow> map_of es k | _ \<Rightarrow> None)"

definition as_record :: "json option \<Rightarrow> json checked" where
  "as_record v = (case v of Some (JObj es) \<Rightarrow> Inr (JObj es) | _ \<Rightarrow> Inl ''INVALID_OBJECT'')"

definition as_text :: "json option \<Rightarrow> (string \<Rightarrow> bool) \<Rightarrow> string checked" where
  "as_text v pattern =
    (case v of Some (JStr s) \<Rightarrow> if pattern s then Inr s else Inl ''INVALID_FIELD'' | _ \<Rightarrow> Inl ''INVALID_FIELD'')"

definition is_upper :: "char \<Rightarrow> bool" where
  "is_upper c \<longleftrightarrow> c \<in> set ''ABCDEFGHIJKLMNOPQRSTUVWXYZ''"

definition ref_address :: "json option \<Rightarrow> string checked" where
  "ref_address v =
     bind_r (as_text v (hex_digits 40)) (\<lambda>s.
     bind_r (check (toLowerCase s \<noteq> ''0x'' @ replicate 40 CHR ''0'') ''ZERO_ADDRESS'') (\<lambda>_. Inr (toLowerCase s)))"

definition symbol_pattern :: "string \<Rightarrow> bool" where
  "symbol_pattern s \<longleftrightarrow> s \<noteq> [] \<and> is_upper (hd s) \<and> length s \<le> 24 \<and>
     list_all (\<lambda>c. is_upper c \<or> is_digit c \<or> c = CHR ''.'' \<or> c = CHR ''-'') (tl s)"

definition ref_symbol :: "json option \<Rightarrow> string checked" where
  "ref_symbol v = as_text v symbol_pattern"

definition whole_part :: "string \<Rightarrow> string" where
  "whole_part s = takeWhile (\<lambda>c. c \<noteq> CHR ''.'') s"

definition fraction_part :: "string \<Rightarrow> string" where
  "fraction_part s = drop (length (whole_part s) + 1) s"

definition decimal_pattern :: "string \<Rightarrow> bool" where
  "decimal_pattern s \<longleftrightarrow> canonical_dec 17 (whole_part s) \<and>
     (CHR ''.'' \<in> set s \<longrightarrow> 1 \<le> length (fraction_part s) \<and> length (fraction_part s) \<le> 18 \<and> list_all is_digit (fraction_part s))"

definition REF_SCALE :: int where
  "REF_SCALE = 10 ^ 18"

definition decimal :: "json option \<Rightarrow> int checked" where
  "decimal v =
     bind_r (as_text v decimal_pattern) (\<lambda>s.
     let f = fraction_part s;
         result = digits_val (whole_part s) * REF_SCALE + digits_val (f @ replicate (18 - length f) CHR ''0'') in
     bind_r (check (result > 0) ''NONPOSITIVE_DECIMAL'') (\<lambda>_. Inr result))"

section \<open>Registry\<close>

record selection =
  sel_chainId :: int
  sel_contractAddress :: string
  sel_symbol :: string

record deployment =
  dep_chainId :: int
  dep_contractAddress :: string

record registry_asset =
  ra_id :: string
  ra_symbol :: string
  ra_status :: string
  ra_multiplier :: string
  ra_pendingMultiplier :: string
  ra_deployments :: "deployment list"

record observation =
  ob_identity :: string
  ob_assetId :: string
  ob_symbol :: string
  ob_generatedAt :: int
  ob_receivedAt :: int
  ob_underlyingBid :: string
  ob_underlyingAsk :: string
  ob_multiplier :: string
  ob_tokenBidUsd18 :: string
  ob_tokenAskUsd18 :: string

fun deployment_rows :: "int list \<Rightarrow> json list \<Rightarrow> deployment list checked" where
  "deployment_rows seen [] = Inr []"
| "deployment_rows seen (item # items) =
     bind_r (as_record (Some item)) (\<lambda>row.
     bind_r (case field row ''chainId'' of Some (JNum n) \<Rightarrow> if isSafeInteger n \<and> n > 0 then Inr n else Inl ''INVALID_CHAIN''
             | _ \<Rightarrow> Inl ''INVALID_CHAIN'') (\<lambda>chain.
     bind_r (check (chain \<notin> set seen) ''DUPLICATE_DEPLOYMENT'') (\<lambda>_.
     bind_r (ref_address (field row ''contractAddress'')) (\<lambda>a.
     bind_r (deployment_rows (chain # seen) items) (\<lambda>ds. Inr (\<lparr>dep_chainId = chain, dep_contractAddress = a\<rparr> # ds))))))"

definition deployments :: "json option \<Rightarrow> deployment list checked" where
  "deployments v =
    (case v of
       Some (JArr items) \<Rightarrow>
         bind_r (check (items \<noteq> [] \<and> length items \<le> 100) ''INVALID_DEPLOYMENTS'') (\<lambda>_. deployment_rows [] items)
     | _ \<Rightarrow> Inl ''INVALID_DEPLOYMENTS'')"

definition selection_of :: "json option \<Rightarrow> json option \<Rightarrow> json option \<Rightarrow> selection checked" where
  "selection_of chain contract sname =
     bind_r (case chain of Some (JNum n) \<Rightarrow> if n = 4663 \<or> n = 46630 then Inr n else Inl ''INVALID_CHAIN'' | _ \<Rightarrow> Inl ''INVALID_CHAIN'') (\<lambda>n.
     bind_r (ref_symbol sname) (\<lambda>s.
     bind_r (ref_address contract) (\<lambda>a.
     Inr \<lparr>sel_chainId = n, sel_contractAddress = a, sel_symbol = s\<rparr>)))"

definition validateSelection :: "selection \<Rightarrow> selection checked" where
  "validateSelection s =
     selection_of (Some (JNum (sel_chainId s))) (Some (JStr (sel_contractAddress s))) (Some (JStr (sel_symbol s)))"

definition identity_of :: "int \<Rightarrow> string \<Rightarrow> string" where
  "identity_of chain contract = toString chain @ '':'' @ contract"

definition selection_identity :: "selection \<Rightarrow> string" where
  "selection_identity s = identity_of (sel_chainId s) (sel_contractAddress s)"

fun add_identities :: "deployment list \<Rightarrow> string list \<Rightarrow> string list checked" where
  "add_identities [] seen = Inr seen"
| "add_identities (d # ds) seen =
    (let i = identity_of (dep_chainId d) (dep_contractAddress d) in
     bind_r (check (i \<notin> set seen) ''DUPLICATE_DEPLOYMENT'') (\<lambda>_. add_identities ds (i # seen)))"

definition asset_id_pattern :: "string \<Rightarrow> bool" where
  "asset_id_pattern s \<longleftrightarrow> take 2 s = ''0x'' \<and> 3 \<le> length s \<and> length s \<le> 130 \<and> list_all is_lower_hex (drop 2 s)"

definition status_pattern :: "string \<Rightarrow> bool" where
  "status_pattern s \<longleftrightarrow> s \<in> set [''ASSET_STATUS_ACTIVE'', ''ASSET_STATUS_INACTIVE'', ''ASSET_STATUS_UNSPECIFIED'']"

definition line_pattern :: "nat \<Rightarrow> string \<Rightarrow> bool" where
  "line_pattern lo s \<longleftrightarrow> lo \<le> length s \<and> length s \<le> 64 \<and> list_all (\<lambda>c. c \<noteq> CHR 10 \<and> c \<noteq> CHR 13) s"

fun registry_rows :: "string list \<Rightarrow> string list \<Rightarrow> json list \<Rightarrow> registry_asset list checked" where
  "registry_rows ids identities [] = Inr []"
| "registry_rows ids identities (item # items) =
     bind_r (as_record (Some item)) (\<lambda>row.
     bind_r (as_text (field row ''id'') asset_id_pattern) (\<lambda>i.
     bind_r (check (i \<notin> set ids) ''DUPLICATE_ASSET'') (\<lambda>_.
     bind_r (check (field row ''tokenDecimals'' = Some (JNum 18)) ''INVALID_TOKEN_DECIMALS'') (\<lambda>_.
     bind_r (deployments (field row ''deployments'')) (\<lambda>ds.
     bind_r (add_identities ds identities) (\<lambda>identities'.
     bind_r (ref_symbol (field row ''tokenSymbol'')) (\<lambda>sname.
     bind_r (as_text (field row ''status'') status_pattern) (\<lambda>st.
     bind_r (as_text (field row ''currentMultiplier'') (line_pattern 1)) (\<lambda>m.
     bind_r (as_text (field row ''pendingMultiplier'') (line_pattern 0)) (\<lambda>p.
     bind_r (registry_rows (i # ids) identities' items) (\<lambda>rest.
     Inr (\<lparr>ra_id = i, ra_symbol = sname, ra_status = st, ra_multiplier = m, ra_pendingMultiplier = p,
           ra_deployments = ds\<rparr> # rest))))))))))))"

definition parseRegistry :: "json \<Rightarrow> registry_asset list checked" where
  "parseRegistry raw =
     bind_r (as_record (Some raw)) (\<lambda>r.
     case field r ''assets'' of
       Some (JArr rows) \<Rightarrow>
         bind_r (check (int (length rows) \<le> 10000) ''INVALID_REGISTRY'') (\<lambda>_. registry_rows [] [] rows)
     | _ \<Rightarrow> Inl ''INVALID_REGISTRY'')"

section \<open>Quotes\<close>

definition deployment_matches :: "selection \<Rightarrow> deployment \<Rightarrow> bool" where
  "deployment_matches s d \<longleftrightarrow> dep_chainId d = sel_chainId s \<and> dep_contractAddress d = sel_contractAddress s"

definition time_pattern :: "string \<Rightarrow> bool" where
  "time_pattern s \<longleftrightarrow>
     (let digits = (\<lambda>a n. list_all is_digit (take n (drop a s)) \<and> length (take n (drop a s)) = n) in
      digits 0 4 \<and> digits 5 2 \<and> digits 8 2 \<and> digits 11 2 \<and> digits 14 2 \<and> digits 17 2 \<and>
      take 1 (drop 4 s) = ''-'' \<and> take 1 (drop 7 s) = ''-'' \<and> take 1 (drop 10 s) = ''T'' \<and>
      take 1 (drop 13 s) = '':'' \<and> take 1 (drop 16 s) = '':'' \<and>
      (drop 19 s = ''Z'' \<or>
       (take 1 (drop 19 s) = ''.'' \<and> last s = CHR ''Z'' \<and> 22 \<le> length s \<and> length s \<le> 30 \<and>
        list_all is_digit (butlast (drop 20 s)))))"

definition matching_asset :: "registry_asset list \<Rightarrow> selection \<Rightarrow> registry_asset checked" where
  "matching_asset registry s =
    (case filter (\<lambda>a. list_ex (deployment_matches s) (ra_deployments a)) registry of
       [a] \<Rightarrow> bind_r (check (ra_symbol a = sel_symbol s) ''REGISTRY_DEPLOYMENT_MISMATCH'') (\<lambda>_. Inr a)
     | _ \<Rightarrow> Inl ''REGISTRY_DEPLOYMENT_MISMATCH'')"

definition quote_time :: "ref_env \<Rightarrow> json option \<Rightarrow> int \<Rightarrow> int \<Rightarrow> int checked" where
  "quote_time env v receivedAt maxAgeMs =
     bind_r (as_text v time_pattern) (\<lambda>time.
     case ref_dateParse env time of
       None \<Rightarrow> Inl ''INVALID_CALENDAR_TIME''
     | Some at \<Rightarrow>
         bind_r (check (take 19 (ref_toISOString env at) = take 19 time) ''INVALID_CALENDAR_TIME'') (\<lambda>_.
         bind_r (check (isSafeInteger at \<and> at \<le> receivedAt \<and> receivedAt - at \<le> maxAgeMs) ''STALE_OR_FUTURE_QUOTE'') (\<lambda>_.
         Inr at)))"

definition single_quote :: "json \<Rightarrow> json checked" where
  "single_quote raw =
     bind_r (as_record (Some raw)) (\<lambda>r.
     case field r ''quotes'' of Some (JArr [q]) \<Rightarrow> as_record (Some q) | _ \<Rightarrow> Inl ''AMBIGUOUS_QUOTES'')"

definition text_of :: "json option \<Rightarrow> string" where
  "text_of v = (case v of Some (JStr s) \<Rightarrow> s | _ \<Rightarrow> [])"

definition normalizeReference ::
  "ref_env \<Rightarrow> registry_asset list \<Rightarrow> json \<Rightarrow> selection \<Rightarrow> int \<Rightarrow> int \<Rightarrow> observation checked" where
  "normalizeReference env registry raw requested receivedAt maxAgeMs =
     bind_r (validateSelection requested) (\<lambda>s.
     bind_r (check (isSafeInteger receivedAt \<and> 0 \<le> receivedAt \<and> isSafeInteger maxAgeMs \<and> 0 < maxAgeMs) ''INVALID_TIME_POLICY'') (\<lambda>_.
     bind_r (matching_asset registry s) (\<lambda>a.
     bind_r (check (ra_status a = ''ASSET_STATUS_ACTIVE'') ''ASSET_INACTIVE'') (\<lambda>_.
     bind_r (check (ra_pendingMultiplier a = []) ''MULTIPLIER_TRANSITION_UNRESOLVED'') (\<lambda>_.
     bind_r (decimal (Some (JStr (ra_multiplier a)))) (\<lambda>multiplier.
     bind_r (single_quote raw) (\<lambda>q.
     bind_r (check (field q ''tokenSymbol'' = Some (JStr (sel_symbol s))) ''QUOTE_DEPLOYMENT_MISMATCH'') (\<lambda>_.
     bind_r (deployments (field q ''deployments'')) (\<lambda>ds.
     bind_r (check (list_ex (deployment_matches s) ds) ''QUOTE_DEPLOYMENT_MISMATCH'') (\<lambda>_.
     bind_r (check (field q ''currency'' = Some (JStr ''USD'') \<and> field q ''isTradingHalt'' = Some (JBool False)) ''QUOTE_UNAVAILABLE'') (\<lambda>_.
     bind_r (decimal (field q ''bid'')) (\<lambda>bid.
     bind_r (decimal (field q ''ask'')) (\<lambda>ask.
     bind_r (check (bid \<le> ask) ''INVERTED_QUOTE'') (\<lambda>_.
     bind_r (quote_time env (field q ''generatedAt'') receivedAt maxAgeMs) (\<lambda>at.
     let tokenBid = tdiv (bid * multiplier) REF_SCALE in
     bind_r (check (tokenBid > 0) ''SUBPRECISION_PRICE'') (\<lambda>_.
     Inr \<lparr>ob_identity = selection_identity s, ob_assetId = ra_id a, ob_symbol = ra_symbol a, ob_generatedAt = at,
          ob_receivedAt = receivedAt, ob_underlyingBid = text_of (field q ''bid''), ob_underlyingAsk = text_of (field q ''ask''),
          ob_multiplier = ra_multiplier a, ob_tokenBidUsd18 = toString tokenBid,
          ob_tokenAskUsd18 = toString (tdiv (ask * multiplier + REF_SCALE - 1) REF_SCALE)\<rparr>))))))))))))))))"

section \<open>Captures\<close>

record source_receipt =
  src_url :: string
  src_receivedAt :: int
  src_body :: string
  src_sha256 :: string

datatype accept_status = ACCEPTED | REJECTED

record reference_capture =
  cap_version :: string
  cap_status :: accept_status
  cap_reason :: "string option"
  cap_selection :: selection
  cap_maxAgeMs :: int
  cap_sources :: "source_receipt list"
  cap_observation :: "observation option"

definition byteLength :: "string \<Rightarrow> int" where
  "byteLength s = sum_list (map (\<lambda>c. if (of_char c :: nat) < 128 then 1 else 2) s)"

definition MAX_BYTES :: int where
  "MAX_BYTES = 4 * 1024 * 1024"

definition source_urls :: "string \<Rightarrow> string list" where
  "source_urls sname = [''https://api.robinhood.com/rhj/assets'', ''https://api.robinhood.com/rhj/prices/'' @ sname,
     ''https://api.robinhood.com/rhj/assets'']"

definition source_intact :: "ref_env \<Rightarrow> source_receipt \<Rightarrow> bool" where
  "source_intact env s \<longleftrightarrow> byteLength (src_body s) \<le> MAX_BYTES \<and> ref_sha256 env (src_body s) = src_sha256 s"

fun check_sources :: "ref_env \<Rightarrow> int option \<Rightarrow> string list \<Rightarrow> source_receipt list \<Rightarrow> unit checked" where
  "check_sources env previous urls [] = Inr ()"
| "check_sources env previous [] (s # ss) = Inl ''SOURCE_IDENTITY_MISMATCH''"
| "check_sources env previous (u # us) (s # ss) =
     bind_r (check (src_url s = u) ''SOURCE_IDENTITY_MISMATCH'') (\<lambda>_.
     bind_r (check (source_intact env s) ''SOURCE_INTEGRITY_FAILED'') (\<lambda>_.
     bind_r (check (isSafeInteger (src_receivedAt s) \<and> 0 \<le> src_receivedAt s \<and>
               (case previous of None \<Rightarrow> True | Some t \<Rightarrow> src_receivedAt s \<ge> t)) ''CLOCK_REGRESSION'') (\<lambda>_.
     check_sources env (Some (src_receivedAt s)) us ss)))"

definition replayReference :: "ref_env \<Rightarrow> reference_capture \<Rightarrow> observation checked" where
  "replayReference env c =
     bind_r (check (cap_version c = ''alphaforge-reference-1'' \<and> cap_status c = ACCEPTED \<and> cap_reason c = None)
               ''CAPTURE_NOT_ACCEPTED'') (\<lambda>_.
     bind_r (validateSelection (cap_selection c)) (\<lambda>s.
     bind_r (check (isSafeInteger (cap_maxAgeMs c) \<and> cap_maxAgeMs c > 0) ''INVALID_TIME_POLICY'') (\<lambda>_.
     bind_r (check (length (cap_sources c) = 3) ''INVALID_CAPTURE_SOURCES'') (\<lambda>_.
     bind_r (check_sources env None (source_urls (sel_symbol s)) (cap_sources c)) (\<lambda>_.
     case cap_sources c of
       [before, q, after] \<Rightarrow>
         let at = src_receivedAt after in
         bind_r (ref_parse env (src_body before)) (\<lambda>jb.
         bind_r (parseRegistry jb) (\<lambda>rb.
         bind_r (ref_parse env (src_body q)) (\<lambda>jq.
         bind_r (normalizeReference env rb jq s at (cap_maxAgeMs c)) (\<lambda>a.
         bind_r (ref_parse env (src_body after)) (\<lambda>ja.
         bind_r (parseRegistry ja) (\<lambda>ra.
         bind_r (normalizeReference env ra jq s at (cap_maxAgeMs c)) (\<lambda>b.
         bind_r (check (a = b) ''REGISTRY_CHANGED_DURING_CAPTURE'') (\<lambda>_.
         bind_r (check (cap_observation c = Some b) ''OBSERVATION_MISMATCH'') (\<lambda>_. Inr b)))))))))
     | _ \<Rightarrow> Inl ''INVALID_CAPTURE_SOURCES'')))))"

section \<open>Batches\<close>

record batch_policy =
  bp_selections :: "selection list"
  bp_maxAgeMs :: int
  bp_maxQuoteSkewMs :: int
  bp_maxCaptureSpanMs :: int

record reference_batch =
  rb_version :: string
  rb_policy :: json
  rb_startedAt :: int
  rb_completedAt :: int
  rb_status :: accept_status
  rb_reason :: "string option"
  rb_captures :: "reference_capture list"
  rb_observations :: "observation list option"

definition exactFields :: "json \<Rightarrow> string list \<Rightarrow> json checked" where
  "exactFields v keys =
    (case v of
       JObj es \<Rightarrow> bind_r (check (length es = length keys \<and> list_all (\<lambda>k. map_of es k \<noteq> None) keys) ''INVALID_BATCH_CONFIG'') (\<lambda>_. Inr v)
     | _ \<Rightarrow> Inl ''INVALID_BATCH_CONFIG'')"

definition batchInteger :: "json option \<Rightarrow> bool \<Rightarrow> int checked" where
  "batchInteger v allowZero =
    (case v of
       Some (JNum n) \<Rightarrow> bind_r (check (isSafeInteger n \<and> n \<ge> (if allowZero then 0 else 1)) ''INVALID_BATCH_POLICY'') (\<lambda>_. Inr n)
     | _ \<Rightarrow> Inl ''INVALID_BATCH_POLICY'')"

definition batch_selection :: "json \<Rightarrow> selection checked" where
  "batch_selection item =
     bind_r (exactFields item [''chainId'', ''contractAddress'', ''symbol'']) (\<lambda>s.
     selection_of (field s ''chainId'') (field s ''contractAddress'') (field s ''symbol''))"

definition parseBatchPolicy :: "json \<Rightarrow> batch_policy checked" where
  "parseBatchPolicy v =
     bind_r (exactFields v [''selections'', ''maxAgeMs'', ''maxQuoteSkewMs'', ''maxCaptureSpanMs'']) (\<lambda>row.
     bind_r (case field row ''selections'' of
               Some (JArr items) \<Rightarrow>
                 bind_r (check (1 \<le> length items \<and> length items \<le> 3) ''INVALID_BATCH_SELECTIONS'') (\<lambda>_. map_r batch_selection items)
             | _ \<Rightarrow> Inl ''INVALID_BATCH_SELECTIONS'') (\<lambda>ss.
     bind_r (check (distinct (map selection_identity ss)) ''DUPLICATE_BATCH_IDENTITY'') (\<lambda>_.
     bind_r (check (distinct (map sel_symbol ss)) ''DUPLICATE_BATCH_SYMBOL'') (\<lambda>_.
     bind_r (check (list_all (\<lambda>s. sel_chainId s = sel_chainId (hd ss)) ss) ''MIXED_BATCH_SOURCE_CHAINS'') (\<lambda>_.
     bind_r (batchInteger (field row ''maxCaptureSpanMs'') False) (\<lambda>span.
     bind_r (check (span \<le> 2147483647) ''INVALID_BATCH_CAPTURE_SPAN'') (\<lambda>_.
     bind_r (batchInteger (field row ''maxAgeMs'') False) (\<lambda>age.
     bind_r (batchInteger (field row ''maxQuoteSkewMs'') True) (\<lambda>skew.
     Inr \<lparr>bp_selections = ss, bp_maxAgeMs = age, bp_maxQuoteSkewMs = skew, bp_maxCaptureSpanMs = span\<rparr>)))))))))"

definition timestamp :: "int \<Rightarrow> unit checked" where
  "timestamp n = check (isSafeInteger n \<and> n \<ge> 0) ''INVALID_BATCH_CLOCK''"

definition code_pattern :: "string \<Rightarrow> bool" where
  "code_pattern s \<longleftrightarrow> 2 \<le> length s \<and> length s \<le> 81 \<and> is_upper (hd s) \<and>
     list_all (\<lambda>c. is_upper c \<or> is_digit c \<or> c = CHR ''_'') (tl s)"

fun inspect_sources :: "ref_env \<Rightarrow> string list \<Rightarrow> source_receipt list \<Rightarrow> unit checked" where
  "inspect_sources env urls [] = Inr ()"
| "inspect_sources env [] (s # ss) = Inl ''SOURCE_IDENTITY_MISMATCH''"
| "inspect_sources env (u # us) (s # ss) =
     bind_r (check (src_url s = u) ''SOURCE_IDENTITY_MISMATCH'') (\<lambda>_.
     bind_r (check (source_intact env s) ''SOURCE_INTEGRITY_FAILED'') (\<lambda>_.
     bind_r (timestamp (src_receivedAt s)) (\<lambda>_. inspect_sources env us ss)))"

fun inspect_captures ::
  "ref_env \<Rightarrow> int \<Rightarrow> selection list \<Rightarrow> reference_capture list \<Rightarrow> observation list checked" where
  "inspect_captures env age ss [] = Inr []"
| "inspect_captures env age [] (c # cs) = Inl ''BATCH_MEMBER_IDENTITY''"
| "inspect_captures env age (s # ss) (c # cs) =
     bind_r (check (cap_version c = ''alphaforge-reference-1'' \<and> cap_selection c = s \<and> cap_maxAgeMs c = age)
               ''BATCH_MEMBER_IDENTITY'') (\<lambda>_.
     bind_r (check (length (cap_sources c) \<le> 3) ''INVALID_CAPTURE_SOURCES'') (\<lambda>_.
     bind_r (inspect_sources env (source_urls (sel_symbol s)) (cap_sources c)) (\<lambda>_.
     bind_r (case cap_status c of
               ACCEPTED \<Rightarrow> bind_r (replayReference env c) (\<lambda>o1. Inr [o1])
             | REJECTED \<Rightarrow> bind_r (check (cap_observation c = None \<and> (case cap_reason c of None \<Rightarrow> False | Some r \<Rightarrow> code_pattern r))
                             ''INVALID_REJECTED_CAPTURE'') (\<lambda>_. Inr [])) (\<lambda>os.
     bind_r (inspect_captures env age ss cs) (\<lambda>rest. Inr (os @ rest))))))"

definition inspect :: "ref_env \<Rightarrow> reference_batch \<Rightarrow> (batch_policy \<times> observation list) checked" where
  "inspect env b =
     bind_r (check (rb_version b = ''alphaforge-reference-batch-1'') ''INVALID_BATCH_VERSION'') (\<lambda>_.
     bind_r (parseBatchPolicy (rb_policy b)) (\<lambda>p.
     bind_r (timestamp (rb_startedAt b)) (\<lambda>_.
     bind_r (timestamp (rb_completedAt b)) (\<lambda>_.
     bind_r (check (length (rb_captures b) \<le> length (bp_selections p)) ''INVALID_BATCH_MEMBERS'') (\<lambda>_.
     bind_r (inspect_captures env (bp_maxAgeMs p) (bp_selections p) (rb_captures b)) (\<lambda>os. Inr (p, os)))))))"

definition within_skew :: "int \<Rightarrow> int list \<Rightarrow> bool" where
  "within_skew skew ts \<longleftrightarrow> list_all (\<lambda>a. list_all (\<lambda>b. a - b \<le> skew) ts) ts"

definition derive :: "ref_env \<Rightarrow> reference_batch \<Rightarrow> observation list checked" where
  "derive env b =
     bind_r (inspect env b) (\<lambda>(p, os).
     bind_r (check (rb_completedAt b \<ge> rb_startedAt b \<and>
               list_all (\<lambda>c. list_all (\<lambda>s. src_receivedAt s \<ge> rb_startedAt b \<and> src_receivedAt s \<le> rb_completedAt b) (cap_sources c))
                 (rb_captures b)) ''BATCH_CLOCK_REGRESSION'') (\<lambda>_.
     bind_r (check (rb_completedAt b - rb_startedAt b \<le> bp_maxCaptureSpanMs p) ''BATCH_CAPTURE_SPAN'') (\<lambda>_.
     bind_r (check (length (rb_captures b) = length (bp_selections p) \<and> list_all (\<lambda>c. cap_status c = ACCEPTED) (rb_captures b))
               ''BATCH_MEMBER_REJECTED'') (\<lambda>_.
     bind_r (check (list_all (\<lambda>o1. ob_generatedAt o1 \<le> rb_completedAt b \<and> rb_completedAt b - ob_generatedAt o1 \<le> bp_maxAgeMs p) os)
               ''BATCH_STALE_OR_FUTURE_QUOTE'') (\<lambda>_.
     bind_r (check (within_skew (bp_maxQuoteSkewMs p) (map ob_generatedAt os)) ''BATCH_QUOTE_SKEW'') (\<lambda>_. Inr os))))))"

definition replayReferenceBatch :: "ref_env \<Rightarrow> reference_batch \<Rightarrow> observation list checked" where
  "replayReferenceBatch env b =
     bind_r (check (rb_status b = ACCEPTED \<and> rb_reason b = None) ''BATCH_NOT_ACCEPTED'') (\<lambda>_.
     bind_r (derive env b) (\<lambda>os.
     bind_r (check (rb_observations b = Some os) ''BATCH_OBSERVATION_MISMATCH'') (\<lambda>_. Inr os)))"

definition validateReferenceBatch :: "ref_env \<Rightarrow> reference_batch \<Rightarrow> observation list option checked" where
  "validateReferenceBatch env b =
    (if rb_status b = ACCEPTED then bind_r (replayReferenceBatch env b) (\<lambda>os. Inr (Some os))
     else bind_r (inspect env b) (\<lambda>_.
       bind_r (check (rb_observations b = None \<and> (case rb_reason b of None \<Rightarrow> False | Some r \<Rightarrow> code_pattern r))
                 ''INVALID_REJECTED_BATCH'') (\<lambda>_. Inr None)))"

section \<open>What an accepted batch means\<close>

lemma ref_address_idem: "ref_address v = Inr a \<Longrightarrow> ref_address (Some (JStr a)) = Inr a"
  using hex_digits_lower by (auto simp: ref_address_def as_text_def bind_r_Inr check_Inr split: option.splits json.splits if_splits)

lemma selection_of_valid: "selection_of c a s = Inr t \<Longrightarrow> validateSelection t = Inr t"
  by (auto simp: validateSelection_def selection_of_def bind_r_Inr ref_address_idem ref_symbol_def as_text_def
      split: option.splits json.splits if_splits)

lemma batch_selections_valid:
  "map_r batch_selection items = Inr ss \<Longrightarrow> \<forall>s\<in>set ss. validateSelection s = Inr s"
  by (induction items arbitrary: ss) (auto simp: bind_r_Inr batch_selection_def dest: selection_of_valid)

lemma policy_selections:
  assumes "parseBatchPolicy v = Inr p"
  shows "distinct (map selection_identity (bp_selections p)) \<and> (\<forall>s\<in>set (bp_selections p). validateSelection s = Inr s)"
proof -
  obtain row ss where r: "(case field row ''selections'' of Some (JArr items) \<Rightarrow>
        bind_r (check (1 \<le> length items \<and> length items \<le> 3) ''INVALID_BATCH_SELECTIONS'') (\<lambda>_. map_r batch_selection items)
      | _ \<Rightarrow> Inl ''INVALID_BATCH_SELECTIONS'') = Inr ss"
    and d: "distinct (map selection_identity ss)" and p: "bp_selections p = ss"
    using assms unfolding parseBatchPolicy_def by (simp only: bind_r_Inr check_Inr) (elim exE conjE, fastforce)
  obtain items where "field row ''selections'' = Some (JArr items)"
    using r by (cases "field row ''selections''"; cases "the (field row ''selections'')") auto
  then have "map_r batch_selection items = Inr ss" using r by (simp only: option.case json.case bind_r_Inr check_Inr) blast
  then show ?thesis using d p batch_selections_valid by simp
qed

definition sound_observation :: "selection \<Rightarrow> int \<Rightarrow> observation \<Rightarrow> bool" where
  "sound_observation s age x \<longleftrightarrow> ob_identity x = selection_identity s \<and> ob_symbol x = sel_symbol s \<and>
     ob_generatedAt x \<le> ob_receivedAt x \<and> ob_receivedAt x - ob_generatedAt x \<le> age \<and>
     (\<exists>bid ask. ob_tokenBidUsd18 x = toString bid \<and> ob_tokenAskUsd18 x = toString ask \<and> 0 < bid \<and> bid \<le> ask)"

lemma decimal_pos: "decimal v = Inr n \<Longrightarrow> 0 < n"
  by (auto simp: decimal_def bind_r_Inr Let_def split: if_splits)

lemma token_prices:
  assumes "0 < b" "b \<le> a" "0 < m"
  shows "tdiv (b * m) REF_SCALE \<le> tdiv (a * m + REF_SCALE - 1) REF_SCALE"
proof -
  have t: "tdiv n REF_SCALE = n div REF_SCALE" if "0 < n" for n
    using that by (simp add: tdiv_def REF_SCALE_def sgn_if)
  have "0 < b * m" "b * m \<le> a * m" using assms by (simp_all add: mult_right_mono)
  then show ?thesis by (subst (1 2) t) (simp_all add: REF_SCALE_def zdiv_mono1)
qed

lemma quote_time_bounds:
  assumes "quote_time env v at age = Inr t"
  shows "t \<le> at \<and> at - t \<le> age"
proof -
  obtain w where "as_text v time_pattern = Inr w" using assms by (auto simp only: quote_time_def bind_r_Inr)
  then show ?thesis using assms
    by (cases "ref_dateParse env w") (auto simp only: quote_time_def bind_r_simps option.case bind_r_Inr check_Inr)
qed

lemma normalize_sound:
  assumes "normalizeReference env registry raw s at age = Inr x" "validateSelection s = Inr s"
  shows "sound_observation s age x \<and> ob_receivedAt x = at"
proof -
  obtain a q bid ask m t where
    a: "matching_asset registry s = Inr a" and m: "decimal (Some (JStr (ra_multiplier a))) = Inr m"
    and b: "decimal (field q ''bid'') = Inr bid" "decimal (field q ''ask'') = Inr ask" "bid \<le> ask"
    and t: "quote_time env (field q ''generatedAt'') at age = Inr t" and pos: "tdiv (bid * m) REF_SCALE > 0"
    and x: "ob_identity x = selection_identity s" "ob_symbol x = ra_symbol a" "ob_generatedAt x = t" "ob_receivedAt x = at"
      "ob_tokenBidUsd18 x = toString (tdiv (bid * m) REF_SCALE)"
      "ob_tokenAskUsd18 x = toString (tdiv (ask * m + REF_SCALE - 1) REF_SCALE)"
    using assms unfolding normalizeReference_def Let_def
    by (simp only: bind_r_Inr bind_r_simps check_Inr) (elim exE conjE, fastforce)
  have "ra_symbol a = sel_symbol s" using a by (auto simp: matching_asset_def split: list.splits if_splits)
  moreover have "t \<le> at \<and> at - t \<le> age" by (rule quote_time_bounds[OF t])
  moreover have "tdiv (bid * m) REF_SCALE \<le> tdiv (ask * m + REF_SCALE - 1) REF_SCALE"
    using b m by (intro token_prices) (auto dest: decimal_pos)
  ultimately show ?thesis using x pos by (auto simp: sound_observation_def)
qed


lemma check_sources_known:
  "check_sources env t us ss = Inr () \<Longrightarrow> length ss \<le> length us \<and> (\<forall>s\<in>set ss. source_intact env s)"
  by (induction env t us ss rule: check_sources.induct) (auto split: if_splits)

lemma replay_sound:
  assumes "replayReference env c = Inr x" "validateSelection (cap_selection c) = Inr (cap_selection c)"
  shows "sound_observation (cap_selection c) (cap_maxAgeMs c) x \<and> cap_observation c = Some x \<and>
    (\<forall>s\<in>set (cap_sources c). source_intact env s) \<and> ob_receivedAt x \<in> src_receivedAt ` set (cap_sources c)"
proof -
  obtain b q a where src: "cap_sources c = [b, q, a]"
    using assms(1) by (auto simp: replayReference_def bind_r_Inr split: if_splits list.splits)
  then obtain rb jq where "normalizeReference env rb jq (cap_selection c) (src_receivedAt a) (cap_maxAgeMs c) = Inr x"
    and "cap_observation c = Some x" "check_sources env None (source_urls (sel_symbol (cap_selection c))) (cap_sources c) = Inr ()"
    using assms unfolding replayReference_def
    by (simp only: bind_r_Inr bind_r_simps check_Inr list.case Let_def) (elim exE conjE, simp)
  then show ?thesis using normalize_sound[OF _ assms(2)] check_sources_known src by fastforce
qed

lemma inspect_captures_sound:
  assumes "inspect_captures env age ss cs = Inr os" "list_all (\<lambda>c. cap_status c = ACCEPTED) cs" "length cs = length ss"
    and "\<forall>s\<in>set ss. validateSelection s = Inr s"
  shows "list_all2 (\<lambda>s x. sound_observation s age x) ss os"
  using assms
proof (induction env age ss cs arbitrary: os rule: inspect_captures.induct)
  case (3 env age s ss c cs)
  obtain x rest where "cap_selection c = s" "cap_maxAgeMs c = age" "replayReference env c = Inr x"
    "inspect_captures env age ss cs = Inr rest" "os = x # rest"
    using 3(2,3) by (auto simp: bind_r_Inr split: if_splits)
  then show ?case using 3 replay_sound[of env c x] by auto
qed auto

text \<open>C21: an accepted batch means what it says. If a stored batch passes its replay, its observations are exactly
  those recomputed from the stored sources, one for each selected asset in the order of the policy and
  for distinct assets; each was generated before the batch completed and within the allowed age, any two
  within the allowed skew, and each carries a positive bid not above its ask.\<close>

theorem accepted_batch_sound:
  assumes "replayReferenceBatch env b = Inr os"
  shows "\<exists>p. parseBatchPolicy (rb_policy b) = Inr p \<and> rb_observations b = Some os \<and>
    map ob_identity os = map selection_identity (bp_selections p) \<and> distinct (map ob_identity os) \<and>
    (\<forall>x\<in>set os. ob_generatedAt x \<le> rb_completedAt b \<and> rb_completedAt b - ob_generatedAt x \<le> bp_maxAgeMs p \<and>
       (\<forall>y\<in>set os. \<bar>ob_generatedAt x - ob_generatedAt y\<bar> \<le> bp_maxQuoteSkewMs p) \<and>
       (\<exists>bid ask. ob_tokenBidUsd18 x = toString bid \<and> ob_tokenAskUsd18 x = toString ask \<and> 0 < bid \<and> bid \<le> ask))"
proof -
  obtain p where p: "parseBatchPolicy (rb_policy b) = Inr p" "rb_observations b = Some os"
    and i: "inspect_captures env (bp_maxAgeMs p) (bp_selections p) (rb_captures b) = Inr os"
    and c: "length (rb_captures b) = length (bp_selections p)" "list_all (\<lambda>c. cap_status c = ACCEPTED) (rb_captures b)"
    and t: "list_all (\<lambda>o1. ob_generatedAt o1 \<le> rb_completedAt b \<and> rb_completedAt b - ob_generatedAt o1 \<le> bp_maxAgeMs p) os"
      "within_skew (bp_maxQuoteSkewMs p) (map ob_generatedAt os)"
    using assms unfolding replayReferenceBatch_def derive_def inspect_def
    by (auto simp only: bind_r_Inr bind_r_simps check_Inr prod.case split: prod.splits)
  have s: "list_all2 (\<lambda>s x. sound_observation s (bp_maxAgeMs p) x) (bp_selections p) os"
    using policy_selections[OF p(1)] by (intro inspect_captures_sound[OF i c(2,1)]) simp
  have ids: "map ob_identity os = map selection_identity (bp_selections p)"
    using s by (intro nth_equalityI) (auto simp: list_all2_conv_all_nth sound_observation_def)
  have skew: "\<bar>ob_generatedAt x - ob_generatedAt y\<bar> \<le> bp_maxQuoteSkewMs p" if "x \<in> set os" "y \<in> set os" for x y
    using t(2) that by (auto simp: within_skew_def list_all_iff abs_le_iff)
  have prices: "\<exists>bid ask. ob_tokenBidUsd18 x = toString bid \<and> ob_tokenAskUsd18 x = toString ask \<and> 0 < bid \<and> bid \<le> ask"
    if "x \<in> set os" for x
    using s that by (auto simp: list_all2_conv_all_nth in_set_conv_nth sound_observation_def)
  show ?thesis using p ids policy_selections[OF p(1)] t(1) skew prices by (auto simp: list_all_iff)
qed


section \<open>Witness\<close>

definition demo_contract :: string where
  "demo_contract = ''0x'' @ replicate 40 CHR ''a''"

definition demo_deployments :: json where
  "demo_deployments = JArr [JObj [(''chainId'', JNum 4663), (''contractAddress'', JStr demo_contract)]]"

definition demo_registry_json :: json where
  "demo_registry_json = JObj [(''assets'', JArr [JObj [(''id'', JStr ''0x1''), (''tokenDecimals'', JNum 18),
     (''deployments'', demo_deployments), (''tokenSymbol'', JStr ''A''), (''status'', JStr ''ASSET_STATUS_ACTIVE''),
     (''currentMultiplier'', JStr ''1''), (''pendingMultiplier'', JStr [])]])]"

definition demo_quote_json :: json where
  "demo_quote_json = JObj [(''quotes'', JArr [JObj [(''tokenSymbol'', JStr ''A''), (''deployments'', demo_deployments),
     (''currency'', JStr ''USD''), (''isTradingHalt'', JBool False), (''bid'', JStr ''2''), (''ask'', JStr ''2.5''),
     (''generatedAt'', JStr ''2026-01-01T00:00:00Z'')]])]"

definition demo_ref_env :: ref_env where
  "demo_ref_env = \<lparr>ref_parse = (\<lambda>s. Inr (if s = ''r'' then demo_registry_json else demo_quote_json)), ref_sha256 = (\<lambda>s. s),
     ref_dateParse = (\<lambda>s. Some 5), ref_toISOString = (\<lambda>n. ''2026-01-01T00:00:00.000Z'')\<rparr>"

definition demo_selection :: selection where
  "demo_selection = \<lparr>sel_chainId = 4663, sel_contractAddress = demo_contract, sel_symbol = ''A''\<rparr>"

definition demo_observation :: observation where
  "demo_observation = \<lparr>ob_identity = ''4663:'' @ demo_contract, ob_assetId = ''0x1'', ob_symbol = ''A'', ob_generatedAt = 5,
     ob_receivedAt = 8, ob_underlyingBid = ''2'', ob_underlyingAsk = ''2.5'', ob_multiplier = ''1'',
     ob_tokenBidUsd18 = ''2000000000000000000'', ob_tokenAskUsd18 = ''2500000000000000000''\<rparr>"

definition demo_source :: "string \<Rightarrow> int \<Rightarrow> string \<Rightarrow> source_receipt" where
  "demo_source url at body = \<lparr>src_url = ''https://api.robinhood.com/rhj/'' @ url, src_receivedAt = at, src_body = body, src_sha256 = body\<rparr>"

definition demo_batch :: reference_batch where
  "demo_batch = \<lparr>rb_version = ''alphaforge-reference-batch-1'',
     rb_policy = JObj [(''selections'', JArr [JObj [(''chainId'', JNum 4663), (''contractAddress'', JStr demo_contract), (''symbol'', JStr ''A'')]]),
       (''maxAgeMs'', JNum 10), (''maxQuoteSkewMs'', JNum 0), (''maxCaptureSpanMs'', JNum 5)],
     rb_startedAt = 5, rb_completedAt = 9, rb_status = ACCEPTED, rb_reason = None,
     rb_captures = [\<lparr>cap_version = ''alphaforge-reference-1'', cap_status = ACCEPTED, cap_reason = None,
       cap_selection = demo_selection, cap_maxAgeMs = 10,
       cap_sources = [demo_source ''assets'' 6 ''r'', demo_source ''prices/A'' 7 ''q'', demo_source ''assets'' 8 ''r''],
       cap_observation = Some demo_observation\<rparr>],
     rb_observations = Some [demo_observation]\<rparr>"

theorem accepted_batch_sound_witness:
  "replayReferenceBatch demo_ref_env demo_batch = Inr [demo_observation] \<and> distinct (map ob_identity [demo_observation]) \<and>
    ob_generatedAt demo_observation \<le> rb_completedAt demo_batch"
proof -
  have r: "replayReferenceBatch demo_ref_env demo_batch = Inr [demo_observation]" by code_simp
  show ?thesis using accepted_batch_sound[OF r] r by auto
qed

end
