(* ===== verification/Reference_Minutes.thy ===== *)
theory Reference_Minutes
  imports Reference_Data
begin

text \<open>
  \<^bold>\<open>packages/automata/src/reference-minutes.ts\<close>: sampled reference prices are collected per minute; the slowest source
  closes a minute, and minutes without a fresh sample of every source are gaps. Keys of \<open>pending\<close> are the starts
  of minutes. \<open>Math.floor(at / 60000)\<close> is integer division: the quotient of two safe integers is exact enough.
  Shown: the events always tile the time line (\<open>minutes_tile\<close>).
\<close>

definition MINUTE_MS :: int where
  "MINUTE_MS = 60000"

record minute_sample =
  ms_at :: int
  ms_bid :: string
  ms_ask :: string
  ms_assetId :: string
  ms_multiplier :: string

record minute_state =
  mi_identities :: "string list"
  mi_latest :: "(string \<times> minute_sample) list"
  mi_nextMinute :: "int option"
  mi_pending :: "(int \<times> (string \<times> minute_sample) list) list"

datatype minute_event = M_CLOSE int "(string \<times> string) list" | M_GAP int int

definition createMinutes :: "string list \<Rightarrow> minute_state checked" where
  "createMinutes identities =
     bind_r (check (length identities = 3 \<and> distinct identities) ''INVALID_MINUTE_IDENTITIES'') (\<lambda>_.
     Inr \<lparr>mi_identities = identities, mi_latest = [], mi_nextMinute = None, mi_pending = []\<rparr>)"

definition minute_start :: "int \<Rightarrow> int" where
  "minute_start at = (at div MINUTE_MS) * MINUTE_MS"

definition price_pattern :: "string \<Rightarrow> bool" where
  "price_pattern s \<longleftrightarrow> canonical_dec 77 s \<and> s \<noteq> ''0''"

definition sample_of :: "observation \<Rightarrow> minute_sample" where
  "sample_of ob = \<lparr>ms_at = ob_generatedAt ob, ms_bid = ob_tokenBidUsd18 ob, ms_ask = ob_tokenAskUsd18 ob,
     ms_assetId = ob_assetId ob, ms_multiplier = ob_multiplier ob\<rparr>"

definition pending_at :: "int \<Rightarrow> minute_state \<Rightarrow> (string \<times> minute_sample) list" where
  "pending_at start st = (case map_of (mi_pending st) start of None \<Rightarrow> [] | Some m \<Rightarrow> m)"

definition take_sample :: "observation \<Rightarrow> minute_state \<Rightarrow> minute_state checked" where
  "take_sample ob st =
     bind_r (check (isSafeInteger (ob_generatedAt ob) \<and> 0 \<le> ob_generatedAt ob \<and>
               ob_generatedAt ob \<le> MAX_SAFE_INTEGER - MINUTE_MS) ''INVALID_MINUTE_CLOCK'') (\<lambda>_.
     bind_r (check (price_pattern (ob_tokenBidUsd18 ob) \<and> price_pattern (ob_tokenAskUsd18 ob) \<and>
               digits_val (ob_tokenAskUsd18 ob) \<ge> digits_val (ob_tokenBidUsd18 ob)) ''INVALID_MINUTE_PRICE'') (\<lambda>_.
     let sample = sample_of ob; start = minute_start (ms_at sample);
         store = st\<lparr>mi_latest := AList.update (ob_identity ob) sample (mi_latest st),
                    mi_pending := AList.update start (AList.update (ob_identity ob) sample (pending_at start st)) (mi_pending st)\<rparr> in
     case map_of (mi_latest st) (ob_identity ob) of
       None \<Rightarrow> Inr store
     | Some old \<Rightarrow>
         bind_r (check (ms_at sample \<ge> ms_at old) ''REFERENCE_QUOTE_REGRESSION'') (\<lambda>_.
         bind_r (check (ms_assetId old = ms_assetId sample \<and> ms_multiplier old = ms_multiplier sample)
                   ''REFERENCE_TERMS_CHANGED'') (\<lambda>_.
         if ms_at sample = ms_at old
         then bind_r (check (ms_bid sample = ms_bid old \<and> ms_ask sample = ms_ask old) ''REFERENCE_QUOTE_CONFLICT'') (\<lambda>_. Inr st)
         else Inr store))))"

definition least :: "int list \<Rightarrow> int" where
  "least xs = (case xs of [] \<Rightarrow> 0 | y # ys \<Rightarrow> fold min ys y)"

definition latest_at :: "minute_state \<Rightarrow> string \<Rightarrow> int checked" where
  "latest_at st i =
    (case map_of (mi_latest st) i of None \<Rightarrow> Inl ''Cannot read properties of undefined'' | Some s \<Rightarrow> Inr (ms_at s))"

definition gap :: "int \<Rightarrow> int \<Rightarrow> minute_event list \<Rightarrow> minute_event list" where
  "gap from til events =
    (if from \<ge> til then events
     else if events \<noteq> [] \<and> (case last events of M_GAP f u \<Rightarrow> u = from | M_CLOSE _ _ \<Rightarrow> False)
     then butlast events @ [case last events of M_GAP f u \<Rightarrow> M_GAP f til | e \<Rightarrow> e]
     else events @ [M_GAP from til])"

definition close_minute :: "int \<Rightarrow> int \<Rightarrow> minute_state \<times> int \<times> minute_event list \<Rightarrow> minute_state \<times> int \<times> minute_event list" where
  "close_minute maxAge start acc =
    (case acc of (st, nextMinute, events) \<Rightarrow>
     let events1 = gap nextMinute start events; samples = pending_at start st; end_at = start + MINUTE_MS;
         closed = list_all (\<lambda>i. case map_of samples i of None \<Rightarrow> False | Some s \<Rightarrow> end_at - ms_at s \<le> maxAge) (mi_identities st);
         price = (\<lambda>i. case map_of samples i of None \<Rightarrow> [] | Some s \<Rightarrow> ms_bid s);
         events2 = (if closed then events1 @ [M_CLOSE end_at (map (\<lambda>i. (i, price i)) (mi_identities st))]
                    else gap start end_at events1) in
     (st\<lparr>mi_pending := AList.delete start (mi_pending st)\<rparr>, end_at, events2))"

definition advanceMinutes :: "minute_state \<Rightarrow> observation list \<Rightarrow> int \<Rightarrow> (minute_state \<times> minute_event list) checked" where
  "advanceMinutes before observations maxAge =
     bind_r (check (isSafeInteger maxAge \<and> maxAge > 0 \<and> maxAge \<le> MINUTE_MS) ''INVALID_MINUTE_POLICY'') (\<lambda>_.
     bind_r (check (map ob_identity observations = mi_identities before) ''MINUTE_IDENTITY_MISMATCH'') (\<lambda>_.
     bind_r (fold_r take_sample observations before) (\<lambda>st.
     bind_r (map_r (latest_at st) (mi_identities st)) (\<lambda>ats.
     let boundary = minute_start (least ats);
         first = (case mi_nextMinute st of None \<Rightarrow> least (map fst (mi_pending st)) | Some n \<Rightarrow> n);
         (st1, n1, events1) = fold (close_minute maxAge) (filter (\<lambda>s. s < boundary) (sort (map fst (mi_pending st)))) (st, first, []);
         events2 = gap n1 boundary events1;
         st2 = st1\<lparr>mi_nextMinute := Some (max n1 boundary)\<rparr> in
     bind_r (check (length (mi_pending st2) \<le> 3) ''MINUTE_PENDING_LIMIT'') (\<lambda>_. Inr (st2, events2))))))"

section \<open>The events tile the time line\<close>

fun span_of :: "minute_event \<Rightarrow> int \<times> int" where
  "span_of (M_CLOSE e ps) = (e - MINUTE_MS, e)"
| "span_of (M_GAP f u) = (f, u)"

fun tiles :: "int \<Rightarrow> minute_event list \<Rightarrow> int \<Rightarrow> bool" where
  "tiles a [] b \<longleftrightarrow> a = b"
| "tiles a (e # es) b \<longleftrightarrow> fst (span_of e) = a \<and> a < snd (span_of e) \<and> tiles (snd (span_of e)) es b"

lemma tiles_append: "tiles a (xs @ ys) b \<longleftrightarrow> (\<exists>m. tiles a xs m \<and> tiles m ys b)"
  by (induction xs arbitrary: a) auto

lemma gap_tiles: "tiles a events m \<Longrightarrow> m \<le> u \<Longrightarrow> tiles a (gap m u events) u"
proof (cases "events \<noteq> [] \<and> (case last events of M_GAP f u' \<Rightarrow> u' = m | M_CLOSE _ _ \<Rightarrow> False)")
  case True
  assume t: "tiles a events m" "m \<le> u"
  obtain es f where e: "events = es @ [M_GAP f m]"
    using True by (cases events rule: rev_cases) (auto split: minute_event.splits)
  then show ?thesis using t by (auto simp: gap_def tiles_append)
next
  case False
  assume "tiles a events m" "m \<le> u"
  then show ?thesis using False by (auto simp: gap_def tiles_append)
qed

lemma close_minute_tiles:
  assumes "tiles a events m" "m \<le> start"
  shows "\<exists>st' es. close_minute maxAge start (st, m, events) = (st', start + MINUTE_MS, es) \<and>
    tiles a es (start + MINUTE_MS) \<and> mi_pending st' = AList.delete start (mi_pending st) \<and>
    mi_latest st' = mi_latest st \<and> mi_identities st' = mi_identities st"
proof -
  have g: "tiles a (gap m start events) start" by (rule gap_tiles[OF assms])
  then have "tiles a (gap start (start + MINUTE_MS) (gap m start events)) (start + MINUTE_MS)"
    by (rule gap_tiles) (simp add: MINUTE_MS_def)
  moreover have "tiles a (gap m start events @ [M_CLOSE (start + MINUTE_MS) ps]) (start + MINUTE_MS)" for ps
    using g by (auto simp: tiles_append MINUTE_MS_def)
  ultimately show ?thesis by (auto simp: close_minute_def Let_def)
qed

lemma close_all_tiles:
  assumes "tiles a events m" "sorted starts" "distinct starts" "\<forall>s\<in>set starts. m \<le> s \<and> s < b \<and> MINUTE_MS dvd s"
    "MINUTE_MS dvd b" "m \<le> b"
  shows "\<exists>st' m' es. fold (close_minute maxAge) starts (st, m, events) = (st', m', es) \<and> tiles a es m' \<and> m' \<le> b \<and>
    set (map fst (mi_pending st')) = set (map fst (mi_pending st)) - set starts \<and>
    mi_latest st' = mi_latest st \<and> mi_identities st' = mi_identities st \<and>
    (distinct (map fst (mi_pending st)) \<longrightarrow> distinct (map fst (mi_pending st')))"
  using assms
proof (induction starts arbitrary: st m events)
  case (Cons s starts)
  obtain st1 es where c: "close_minute maxAge s (st, m, events) = (st1, s + MINUTE_MS, es)" "tiles a es (s + MINUTE_MS)"
    "mi_pending st1 = AList.delete s (mi_pending st)" "mi_latest st1 = mi_latest st" "mi_identities st1 = mi_identities st"
    using close_minute_tiles[OF Cons.prems(1), of s maxAge st] Cons.prems(4) by auto
  have next_minute: "s + MINUTE_MS \<le> t" if lt: "s < t" and t: "MINUTE_MS dvd t" for t
  proof -
    obtain j k where "s = MINUTE_MS * j" "t = MINUTE_MS * k" using t Cons.prems(4) by (auto elim!: dvdE)
    then show ?thesis using lt by (simp add: MINUTE_MS_def)
  qed
  have "\<forall>t\<in>set starts. s + MINUTE_MS \<le> t \<and> t < b \<and> MINUTE_MS dvd t"
    using Cons.prems(2,3,4) next_minute by (auto simp: less_le)
  moreover have "s + MINUTE_MS \<le> b" using next_minute[of b] Cons.prems(4,5) by simp
  ultimately obtain st' m' es' where "fold (close_minute maxAge) starts (st1, s + MINUTE_MS, es) = (st', m', es')" "tiles a es' m'"
    "m' \<le> b" "set (map fst (mi_pending st')) = set (map fst (mi_pending st1)) - set starts"
    "mi_latest st' = mi_latest st1" "mi_identities st' = mi_identities st1"
    "distinct (map fst (mi_pending st1)) \<longrightarrow> distinct (map fst (mi_pending st'))"
    using Cons.IH[OF c(2), of st1] Cons.prems(2,3,5) by auto
  then show ?case using c by (auto simp: delete_keys distinct_removeAll)
qed auto


lemma minute_start_mono: "a \<le> b \<Longrightarrow> minute_start a \<le> minute_start b"
  by (simp add: minute_start_def MINUTE_MS_def zdiv_mono1)

lemma minute_start_dvd: "MINUTE_MS dvd minute_start a"
  by (simp add: minute_start_def)

lemma fold_min: "fold min ys (y::int) \<le> y \<and> (\<forall>x\<in>set ys. fold min ys y \<le> x) \<and> fold min ys y \<in> insert y (set ys)"
proof (induction ys arbitrary: y)
  case (Cons z zs)
  show ?case using Cons[of "min z y"] by (auto simp: min_def split: if_splits)
qed simp

lemma least_le: "x \<in> set xs \<Longrightarrow> least xs \<le> x"
  using fold_min by (auto simp: least_def split: list.splits)

lemma least_in: "xs \<noteq> [] \<Longrightarrow> least xs \<in> set xs"
  using fold_min by (auto simp: least_def split: list.splits)

abbreviation pending_keys :: "minute_state \<Rightarrow> int set" where
  "pending_keys st \<equiv> set (map fst (mi_pending st))"

definition pending_ok :: "minute_state \<Rightarrow> bool" where
  "pending_ok st \<longleftrightarrow> distinct (map fst (mi_pending st)) \<and> (\<forall>k\<in>pending_keys st. MINUTE_MS dvd k) \<and>
     (case mi_nextMinute st of
        None \<Rightarrow> (\<forall>i s. map_of (mi_latest st) i = Some s \<longrightarrow> minute_start (ms_at s) \<in> pending_keys st)
      | Some n \<Rightarrow> MINUTE_MS dvd n \<and> (\<forall>k\<in>pending_keys st. n \<le> k) \<and>
          (\<forall>i s. map_of (mi_latest st) i = Some s \<longrightarrow> n \<le> minute_start (ms_at s)))"

definition sampled :: "minute_state \<Rightarrow> bool" where
  "sampled st \<longleftrightarrow> mi_identities st \<noteq> [] \<and>
     (mi_nextMinute st \<noteq> None \<longrightarrow> (\<forall>i\<in>set (mi_identities st). map_of (mi_latest st) i \<noteq> None)) \<and>
     set (map fst (mi_latest st)) \<subseteq> set (mi_identities st)"

lemma take_sample_cases:
  assumes "take_sample ob st = Inr t"
  obtains "t = st" "map_of (mi_latest st) (ob_identity ob) \<noteq> None"
  | m where "t = st\<lparr>mi_latest := AList.update (ob_identity ob) (sample_of ob) (mi_latest st),
        mi_pending := AList.update (minute_start (ob_generatedAt ob)) m (mi_pending st)\<rparr>"
      "\<forall>old. map_of (mi_latest st) (ob_identity ob) = Some old \<longrightarrow> ms_at old \<le> ob_generatedAt ob"
  using assms unfolding take_sample_def Let_def bind_check
  by (auto simp: sample_of_def split: if_splits option.splits)

lemma take_sample_ok:
  assumes "take_sample ob st = Inr t" "pending_ok st"
    and "\<forall>n. mi_nextMinute st = Some n \<longrightarrow> map_of (mi_latest st) (ob_identity ob) \<noteq> None"
  shows "pending_ok t \<and> mi_nextMinute t = mi_nextMinute st \<and> mi_identities t = mi_identities st \<and>
    set (map fst (mi_latest t)) = insert (ob_identity ob) (set (map fst (mi_latest st)))"
  using assms(1)
proof (cases rule: take_sample_cases)
  case 1
  then show ?thesis using assms(2) by (force dest: map_of_SomeD)
next
  case (2 m)
  have "pending_ok t"
  proof (cases "mi_nextMinute st")
    case None
    then show ?thesis using 2 assms(2)
      by (auto simp: pending_ok_def distinct_update update_keys minute_start_dvd update_conv sample_of_def)
  next
    case (Some n)
    then obtain old where old: "map_of (mi_latest st) (ob_identity ob) = Some old" using assms(3) by auto
    then have "n \<le> minute_start (ms_at old)" "ms_at old \<le> ob_generatedAt ob" using Some assms(2) 2(2) by (auto simp: pending_ok_def)
    then have "n \<le> minute_start (ob_generatedAt ob)" using minute_start_mono order_trans by blast
    then show ?thesis using 2 assms(2) Some
      by (auto simp: pending_ok_def distinct_update update_keys minute_start_dvd update_conv sample_of_def)
  qed
  then show ?thesis using 2 by (auto simp: update_keys)
qed

lemma take_samples_ok:
  assumes "fold_r take_sample obs st = Inr t" "pending_ok st"
    and "mi_nextMinute st \<noteq> None \<longrightarrow> ob_identity ` set obs \<subseteq> set (map fst (mi_latest st))"
  shows "pending_ok t \<and> mi_nextMinute t = mi_nextMinute st \<and> mi_identities t = mi_identities st \<and>
    set (map fst (mi_latest t)) = ob_identity ` set obs \<union> set (map fst (mi_latest st))"
  using assms
proof (induction obs arbitrary: st)
  case (Cons ob obs)
  obtain u where u: "take_sample ob st = Inr u" "fold_r take_sample obs u = Inr t"
    using Cons.prems(1) by (auto simp: bind_r_Inr)
  have known: "\<forall>n. mi_nextMinute st = Some n \<longrightarrow> map_of (mi_latest st) (ob_identity ob) \<noteq> None"
    using Cons.prems(3) by (auto simp: map_of_eq_None_iff)
  have step: "pending_ok u" "mi_nextMinute u = mi_nextMinute st" "mi_identities u = mi_identities st"
    "set (map fst (mi_latest u)) = insert (ob_identity ob) (set (map fst (mi_latest st)))"
    using take_sample_ok[OF u(1) Cons.prems(2) known] by simp_all
  have "mi_nextMinute u \<noteq> None \<longrightarrow> ob_identity ` set obs \<subseteq> set (map fst (mi_latest u))"
    unfolding step(2,4) using Cons.prems(3) by auto
  from Cons.IH[OF u(2) step(1) this] show ?case unfolding step(2,3,4) by simp
qed simp

lemma map_r_length: "map_r f xs = Inr ys \<Longrightarrow> length ys = length xs"
  by (induction xs arbitrary: ys) (auto simp: bind_r_Inr)

lemma map_r_image: "map_r f xs = Inr ys \<Longrightarrow> x \<in> set xs \<Longrightarrow> \<exists>y\<in>set ys. f x = Inr y"
  by (induction xs arbitrary: ys) (auto simp: bind_r_Inr)

lemma map_r_preimage: "map_r f xs = Inr ys \<Longrightarrow> y \<in> set ys \<Longrightarrow> \<exists>x\<in>set xs. f x = Inr y"
  by (induction xs arbitrary: ys) (auto simp: bind_r_Inr)

lemma latest_at_Inr: "latest_at st i = Inr a \<longleftrightarrow> (\<exists>s. map_of (mi_latest st) i = Some s \<and> a = ms_at s)"
  by (auto simp: latest_at_def split: option.splits)

definition minutes_ok :: "minute_state \<Rightarrow> bool" where
  "minutes_ok st \<longleftrightarrow> pending_ok st \<and> sampled st"

lemma advanceMinutes_tiles:
  assumes "minutes_ok before" "advanceMinutes before obs age = Inr (st2, events)"
  shows "minutes_ok st2 \<and> (\<exists>a b. mi_nextMinute st2 = Some b \<and> tiles a events b \<and>
    (\<forall>n. mi_nextMinute before = Some n \<longrightarrow> n = a))"
proof -
  obtain st ats where ids: "map ob_identity obs = mi_identities before" and st: "fold_r take_sample obs before = Inr st"
    and ats: "map_r (latest_at st) (mi_identities st) = Inr ats"
    using assms(2) by (auto simp: advanceMinutes_def bind_r_Inr split: if_splits)
  have obs: "ob_identity ` set obs = set (mi_identities before)" using ids by (metis list.set_map)
  have p: "pending_ok st" "mi_nextMinute st = mi_nextMinute before" "mi_identities st = mi_identities before"
    "set (map fst (mi_latest st)) = set (mi_identities before)"
  proof -
    have before: "pending_ok before" "set (map fst (mi_latest before)) \<subseteq> set (mi_identities before)"
      and known: "mi_nextMinute before \<noteq> None \<longrightarrow> ob_identity ` set obs \<subseteq> set (map fst (mi_latest before))"
      unfolding obs using assms(1) by (auto simp: minutes_ok_def sampled_def map_of_eq_None_iff)
    show "pending_ok st" "mi_nextMinute st = mi_nextMinute before" "mi_identities st = mi_identities before"
      "set (map fst (mi_latest st)) = set (mi_identities before)"
      using take_samples_ok[OF st before(1) known] before(2) unfolding obs by blast+
  qed
  have ne: "mi_identities st \<noteq> []" using assms(1) p(3) by (simp add: minutes_ok_def sampled_def)
  define b where "b = minute_start (least ats)"
  define a where "a = (case mi_nextMinute st of None \<Rightarrow> least (map fst (mi_pending st)) | Some n \<Rightarrow> n)"
  define starts where "starts = filter (\<lambda>s. s < b) (sort (map fst (mi_pending st)))"
  have "ats \<noteq> []" using map_r_length[OF ats] ne by auto
  from map_r_preimage[OF ats least_in[OF this]]
  obtain i0 s0 where s0: "i0 \<in> set (mi_identities st)" "map_of (mi_latest st) i0 = Some s0" "b = minute_start (ms_at s0)"
    unfolding b_def latest_at_Inr by metis
  have b_le: "b \<le> minute_start (ms_at s)" if "map_of (mi_latest st) i = Some s" for i s
  proof -
    have "i \<in> set (mi_identities st)" using that p(3,4) by (metis domI dom_map_of_conv_image_fst list.set_map)
    from map_r_image[OF ats this] have "ms_at s \<in> set ats" using that by (auto simp: latest_at_Inr)
    then show ?thesis unfolding b_def by (intro minute_start_mono least_le)
  qed
  have a: "(\<forall>k\<in>pending_keys st. a \<le> k) \<and> a \<le> b"
  proof (cases "mi_nextMinute st")
    case None
    then have "b \<in> pending_keys st" using p(1) s0 by (auto simp: pending_ok_def)
    then show ?thesis using None least_le[of _ "map fst (mi_pending st)"] by (simp add: a_def)
  qed (use p(1) s0 in \<open>auto simp: a_def pending_ok_def\<close>)
  have sb: "\<forall>s\<in>set starts. a \<le> s \<and> s < b \<and> MINUTE_MS dvd s" using a p(1) by (auto simp: starts_def pending_ok_def)
  have so: "sorted starts" "distinct starts" using p(1) by (auto simp: starts_def pending_ok_def sorted_wrt_filter)
  obtain st1 n1 es where f: "fold (close_minute age) starts (st, a, []) = (st1, n1, es)" "tiles a es n1" "n1 \<le> b"
    "pending_keys st1 = pending_keys st - set starts" "mi_latest st1 = mi_latest st" "mi_identities st1 = mi_identities st"
    "distinct (map fst (mi_pending st1))"
    using close_all_tiles[of a "[]" a starts b age st] so sb a p(1) minute_start_dvd
    by (auto simp: b_def pending_ok_def)
  have st2: "st2 = st1\<lparr>mi_nextMinute := Some (max n1 b)\<rparr>" "events = gap n1 b es"
    using assms(2) ids st ats f(1) unfolding advanceMinutes_def Let_def a_def[symmetric] b_def[symmetric] starts_def[symmetric]
    by (auto simp: bind_r_Inr a_def[symmetric] b_def[symmetric] starts_def[symmetric] split: if_splits)
  have keys: "\<forall>k\<in>pending_keys st1. b \<le> k" using f(4) by (auto simp: starts_def)
  have "pending_ok st2" using f keys b_le minute_start_dvd p(1) unfolding st2
    by (auto simp: pending_ok_def b_def max_def)
  moreover have "sampled st2" using f ne p unfolding st2 by (auto simp: sampled_def map_of_eq_None_iff)
  moreover have "tiles a events b" unfolding st2 by (rule gap_tiles[OF f(2,3)])
  ultimately show ?thesis using f(3) p(2) unfolding st2 by (auto simp: minutes_ok_def a_def max_def)
qed


definition minutes_start :: "minute_state \<Rightarrow> bool" where
  "minutes_start st \<longleftrightarrow> (\<exists>ids. createMinutes ids = Inr st)"

definition minutes_step :: "minute_state \<Rightarrow> observation list \<times> int \<Rightarrow> minute_state checked" where
  "minutes_step st i = bind_r (advanceMinutes st (fst i) (snd i)) (\<lambda>r. Inr (fst r))"

interpretation minutes: guarded_machine minutes_start minutes_step minutes_ok
proof unfold_locales
  show "minutes_ok s" if "minutes_start s" for s
    using that by (auto simp: minutes_start_def createMinutes_def minutes_ok_def pending_ok_def sampled_def split: if_splits)
  show "minutes_ok t" if "minutes_ok s" "minutes_step s i = Inr t" for s i t
    using that advanceMinutes_tiles[OF that(1)] by (auto simp: minutes_step_def bind_r_Inr)
qed

text \<open>The minutes never overlap and never skip. In every reachable state, the events of one call tile the
  time from the minute the state was waiting for up to the minute it waits for afterwards: each closed
  minute and each gap begins exactly where the previous event ended.\<close>

theorem minutes_tile:
  assumes "reaches minutes_start minutes_step st" and "advanceMinutes st observations age = Inr (st', events)"
  shows "\<exists>a b. mi_nextMinute st' = Some b \<and> tiles a events b \<and> (\<forall>n. mi_nextMinute st = Some n \<longrightarrow> n = a)"
  using advanceMinutes_tiles[OF minutes.reachable_inv[OF assms(1)] assms(2)] by blast

definition demo_minute_obs :: "string \<Rightarrow> int \<Rightarrow> observation" where
  "demo_minute_obs i at = \<lparr>ob_identity = i, ob_assetId = ''a'', ob_symbol = ''A'', ob_generatedAt = at, ob_receivedAt = at,
     ob_underlyingBid = ''1'', ob_underlyingAsk = ''1'', ob_multiplier = ''1'', ob_tokenBidUsd18 = ''1'', ob_tokenAskUsd18 = ''2''\<rparr>"

definition demo_minutes :: minute_state where
  "demo_minutes = \<lparr>mi_identities = [''x'', ''y'', ''z''], mi_latest = [], mi_nextMinute = None, mi_pending = []\<rparr>"

definition demo_sampled :: minute_state where
  "demo_sampled = run_inputs minutes_step demo_minutes [(map (\<lambda>i. demo_minute_obs i 59990) [''x'', ''y'', ''z''], 1000)]"

lemma demo_sampled_reaches: "reaches minutes_start minutes_step demo_sampled"
proof -
  have "createMinutes [''x'', ''y'', ''z''] = Inr demo_minutes" by (simp add: createMinutes_def demo_minutes_def)
  then have "minutes_start demo_minutes" unfolding minutes_start_def by blast
  then show ?thesis unfolding demo_sampled_def by (intro minutes.run_reaches reach_init)
qed

definition demo_advanced :: "(minute_state \<times> minute_event list) checked" where
  "demo_advanced = advanceMinutes demo_sampled (map (\<lambda>i. demo_minute_obs i 180001) [''x'', ''y'', ''z'']) 1000"

theorem minutes_tile_witness:
  "\<exists>st' events. demo_advanced = Inr (st', events) \<and> map span_of events = [(0, 60000), (60000, 180000)] \<and>
     (\<exists>a b. mi_nextMinute st' = Some b \<and> tiles a events b)"
proof -
  have "case demo_advanced of Inl e \<Rightarrow> False | Inr r \<Rightarrow> map span_of (snd r) = [(0, 60000), (60000, 180000)]" by code_simp
  then obtain st' events where r: "demo_advanced = Inr (st', events)" "map span_of events = [(0, 60000), (60000, 180000)]"
    by (auto split: sum.splits)
  show ?thesis using minutes_tile[OF demo_sampled_reaches r(1)[unfolded demo_advanced_def]] r by metis
qed

end
