(* ===== verification/Reference_Ema.thy ===== *)
theory Reference_Ema
  imports Automata_Model
begin

text \<open>
  The two implementations of the moving-average cross-over strategy: \<^bold>\<open>packages/automata/src/ema-strategy.ts\<close>
  recomputes the averages from the whole history of frames, \<^bold>\<open>reference-ema.ts\<close> keeps an accumulator per period
  and advances it with every closed minute. They are shown to give the same averages. Sums and values of an
  accumulator are written by \<open>toString\<close> and kept as integers; errors of \<open>reference-ema.ts\<close> are messages.
\<close>

section \<open>From the whole history\<close>

definition PRECISION :: int where
  "PRECISION = 1000000"

definition ema :: "int list \<Rightarrow> nat \<Rightarrow> int" where
  "ema values period =
     foldl (\<lambda>value price. tdiv (2 * price * PRECISION + (int period - 1) * value) (int period + 1))
       (tdiv (sum_list (map (\<lambda>price. price * PRECISION) (take period values))) (int period))
       (drop period values)"

record ema_context =
  ec_observations :: "frame list"
  ec_frameSeq :: int
  ec_parameters :: parameters
  ec_positions :: "(string \<times> position) list"

fun frames_ordered :: "int \<Rightarrow> int \<Rightarrow> frame list \<Rightarrow> bool" where
  "frames_ordered n previous [] \<longleftrightarrow> True"
| "frames_ordered n previous (f # fs) \<longleftrightarrow>
     f_seq f = n \<and> isSafeInteger (f_at f) \<and> f_at f > previous \<and> frames_ordered (n + 1) (f_at f) fs"

definition frame_quote :: "string \<Rightarrow> frame \<Rightarrow> quote option" where
  "frame_quote i f =
    (case find (\<lambda>q. q_assetId q = i) (f_quotes f) of
       None \<Rightarrow> None
     | Some q \<Rightarrow> if q_available q \<and> q_observedAt q \<le> f_at f \<and> f_at f \<le> q_expiresAt q then Some q else None)"

definition frame_price :: "quote \<Rightarrow> automata_error + int" where
  "frame_price q = bind_r (amount (q_bid q)) (\<lambda>p. bind_r (check (p > 0) STRATEGY_HISTORY) (\<lambda>_. Inr p))"

text \<open>One asset: \<open>None\<close> is the early \<open>return null\<close>, otherwise its target and whether it changes.\<close>

definition asset_target :: "ema_context \<Rightarrow> string \<times> int \<Rightarrow> automata_error + (int \<times> bool) option" where
  "asset_target c ib =
    (let quotes = map (frame_quote (fst ib)) (ec_observations c) in
     if list_ex (\<lambda>q. q = None) quotes then Inr None
     else bind_r (map_r (\<lambda>q. frame_price (the q)) quotes) (\<lambda>values.
       let fast = ema values 15; slow = ema values 30 in
       bind_r (amount_int (case map_of (ec_positions c) (fst ib) of None \<Rightarrow> 0 | Some p \<Rightarrow> p_quantity p)) (\<lambda>n.
       let held = n > 0;
           enter = (\<not> held \<and> snd ib > 0 \<and> fast * 100000 > slow * 100015);
           exit = (held \<and> fast < slow) in
       Inr (Some (if exit then 0 else if held \<or> enter then snd ib else 0, enter \<or> exit)))))"

fun asset_targets ::
  "ema_context \<Rightarrow> (string \<times> int) list \<Rightarrow> (string \<times> int) list \<Rightarrow> bool \<Rightarrow> automata_error + (string \<times> int) list option" where
  "asset_targets c [] targets changed = Inr (if changed then Some targets else None)"
| "asset_targets c (ib # ibs) targets changed =
     bind_r (asset_target c ib) (\<lambda>r.
     case r of None \<Rightarrow> Inr None
     | Some (t, ch) \<Rightarrow> asset_targets c ibs (AList.update (fst ib) t targets) (changed \<or> ch))"

definition emaTargets :: "ema_context \<Rightarrow> automata_error + (string \<times> int) list option" where
  "emaTargets c =
     bind_r (validateParameters (ec_parameters c)) (\<lambda>_.
     bind_r (check (isSafeInteger (ec_frameSeq c) \<and> 0 \<le> ec_frameSeq c \<and> ec_frameSeq c \<le> 120 \<and>
               int (length (ec_observations c)) = ec_frameSeq c \<and> frames_ordered 1 0 (ec_observations c)) STRATEGY_HISTORY) (\<lambda>_.
     if ec_frameSeq c < 30 then Inr None
     else asset_targets c (pa_weights (ec_parameters c)) [] False))"

section \<open>Incrementally\<close>

record accumulator =
  acc_count :: int
  acc_sum :: int
  acc_value :: "int option"

record ema_state =
  es_fast :: accumulator
  es_slow :: accumulator

definition new_accumulator :: accumulator where
  "new_accumulator = \<lparr>acc_count = 0, acc_sum = 0, acc_value = None\<rparr>"

definition createEma :: ema_state where
  "createEma = \<lparr>es_fast = new_accumulator, es_slow = new_accumulator\<rparr>"

definition ema_price_ok :: "string \<Rightarrow> bool" where
  "ema_price_ok p \<longleftrightarrow> canonical_dec 77 p \<and> p \<noteq> ''0''"

definition advance_accumulator :: "int \<Rightarrow> int \<Rightarrow> accumulator \<Rightarrow> string + accumulator" where
  "advance_accumulator scaled period a =
    (if acc_count a < period
     then let s = acc_sum a + scaled; n = acc_count a + 1 in
       Inr (if n = period then \<lparr>acc_count = n, acc_sum = 0, acc_value = Some (tdiv s period)\<rparr>
            else \<lparr>acc_count = n, acc_sum = s, acc_value = acc_value a\<rparr>)
     else case acc_value a of
         None \<Rightarrow> Inl ''Cannot convert null to a BigInt''
       | Some v \<Rightarrow> Inr (a\<lparr>acc_value := Some (tdiv (2 * scaled + (period - 1) * v) (period + 1))\<rparr>))"

definition advanceEma :: "ema_state \<Rightarrow> string \<Rightarrow> string + ema_state" where
  "advanceEma before price =
     bind_r (check (ema_price_ok price) ''INVALID_EMA_PRICE'') (\<lambda>_.
     let scaled = digits_val price * 1000000 in
     bind_r (advance_accumulator scaled 15 (es_fast before)) (\<lambda>f.
     bind_r (advance_accumulator scaled 30 (es_slow before)) (\<lambda>s. Inr \<lparr>es_fast = f, es_slow = s\<rparr>)))"

section \<open>Both give the same averages\<close>

text \<open>What an accumulator holds after the prices \<open>vs\<close>.\<close>

definition accumulated :: "int list \<Rightarrow> nat \<Rightarrow> accumulator" where
  "accumulated vs period =
    (if length vs < period
     then \<lparr>acc_count = int (length vs), acc_sum = sum_list (map (\<lambda>p. p * PRECISION) vs), acc_value = None\<rparr>
     else \<lparr>acc_count = int period, acc_sum = 0, acc_value = Some (ema vs period)\<rparr>)"

lemma ema_snoc:
  "period \<le> length vs \<Longrightarrow>
    ema (vs @ [p]) period = tdiv (2 * p * PRECISION + (int period - 1) * ema vs period) (int period + 1)"
  by (simp add: ema_def)

lemma ema_full: "length vs = period \<Longrightarrow> ema vs period = tdiv (sum_list (map (\<lambda>p. p * PRECISION) vs)) (int period)"
  by (simp add: ema_def)

lemma advance_accumulated:
  assumes "0 < period"
  shows "advance_accumulator (p * 1000000) (int period) (accumulated vs period) = Inr (accumulated (vs @ [p]) period)"
proof (cases "length vs < period")
  case True
  then show ?thesis
    by (cases "Suc (length vs) = period")
      (auto simp: advance_accumulator_def accumulated_def Let_def ema_full PRECISION_def)
next
  case False
  then show ?thesis
    by (simp add: advance_accumulator_def accumulated_def ema_snoc PRECISION_def mult.assoc)
qed

text \<open>C36: the incremental and the whole-history averages agree. Fed any list of valid prices, the accumulators never
  fail; the fast one holds no value before the fifteenth price and from then on exactly the average over 15 that the
  strategy computes from the complete list, and the slow one likewise with 30.\<close>

theorem incremental_ema_is_batch:
  assumes "\<forall>p\<in>set prices. ema_price_ok p"
  shows "\<exists>st. fold_r (\<lambda>p s. advanceEma s p) prices createEma = Inr st \<and>
    acc_value (es_fast st) = (if length prices < 15 then None else Some (ema (map digits_val prices) 15)) \<and>
    acc_value (es_slow st) = (if length prices < 30 then None else Some (ema (map digits_val prices) 30))"
proof -
  let ?st = "\<lambda>vs. \<lparr>es_fast = accumulated vs 15, es_slow = accumulated vs 30\<rparr>"
  have step: "advanceEma (?st vs) p = Inr (?st (vs @ [digits_val p]))" if "ema_price_ok p" for p vs
    using that advance_accumulated[of 15 "digits_val p" vs] advance_accumulated[of 30 "digits_val p" vs]
    by (simp add: advanceEma_def)
  have run: "fold_r (\<lambda>p s. advanceEma s p) ps (?st vs) = Inr (?st (vs @ map digits_val ps))" if "\<forall>p\<in>set ps. ema_price_ok p" for ps vs
    using that by (induction ps arbitrary: vs) (simp_all add: step)
  have "createEma = ?st []" by (simp add: createEma_def new_accumulator_def accumulated_def)
  then show ?thesis using run[OF assms, of "[]"] by (simp add: accumulated_def)
qed

theorem incremental_ema_is_batch_witness:
  "\<exists>st. fold_r (\<lambda>p s. advanceEma s p) (replicate 20 ''7'') createEma = Inr st \<and>
    acc_value (es_fast st) = Some (ema (map digits_val (replicate 20 ''7'')) 15) \<and> acc_value (es_slow st) = None"
proof -
  have "\<forall>p\<in>set (replicate 20 ''7''). ema_price_ok p" by (simp add: ema_price_ok_def canonical_dec_def is_digit_def)
  from incremental_ema_is_batch[OF this] show ?thesis by auto
qed

end
