(* ===== verification/Reference_Paper.thy ===== *)
theory Reference_Paper
  imports Reference_Minutes Reference_Ema Euclid
begin

text \<open>
  \<^bold>\<open>packages/automata/src/reference-paper.ts\<close>: the paper-trading engine that is driven by batches of reference prices.
  The code mutates a clone of its state; here a step returns the new state with the events it pushed, or
  the message of the error. Decimal texts that the engine itself writes (cash, quantities, costs, units)
  are kept as the integer, \<open>paper_int\<close> being \<open>paperAmount\<close> on its text. The constructors of \<open>paper_event\<close> are the
  kinds of events with their fields.
\<close>

definition VALUE_SCALE :: int where
  "VALUE_SCALE = 10 ^ 30"

definition PAPER_MAX :: int where
  "PAPER_MAX = 2 ^ 256 - 1"

definition PAPER_BPS :: int where
  "PAPER_BPS = 10000"

definition paperAmount :: "json option \<Rightarrow> bool \<Rightarrow> int checked" where
  "paperAmount v positive =
    (case v of
       Some (JStr s) \<Rightarrow>
         bind_r (check (canonical_dec 77 s) ''INVALID_PAPER_AMOUNT'') (\<lambda>_.
         let n = digits_val s in
         bind_r (check (n \<le> PAPER_MAX \<and> (positive \<longrightarrow> n > 0)) ''INVALID_PAPER_AMOUNT'') (\<lambda>_. Inr n))
     | _ \<Rightarrow> Inl ''INVALID_PAPER_AMOUNT'')"

definition paper_int :: "int \<Rightarrow> int checked" where
  "paper_int n = paperAmount (Some (JStr (toString n))) False"

section \<open>Configuration\<close>

datatype paper_limits =
    PL_off
  | PL_percent "int option" "int option"
  | PL_price string "string option" "string option"

record paper_config =
  pc_market :: batch_policy
  pc_minuteCloseMaxAgeMs :: int
  pc_reset :: bool
  pc_feeBps :: int
  pc_slippageBps :: int
  pc_initialCash6 :: int
  pc_limits :: paper_limits

definition paper_bps :: "json option \<Rightarrow> int checked" where
  "paper_bps v =
    (case v of
       Some (JNum n) \<Rightarrow> bind_r (check (isSafeInteger n \<and> 0 \<le> n \<and> n < 10000) ''INVALID_PAPER_COST'') (\<lambda>_. Inr n)
     | _ \<Rightarrow> Inl ''INVALID_PAPER_COST'')"

definition limit_bps :: "json option \<Rightarrow> int \<Rightarrow> int \<Rightarrow> int option checked" where
  "limit_bps v lo hi =
    (case v of
       Some JNull \<Rightarrow> Inr None
     | Some (JNum n) \<Rightarrow> bind_r (check (isSafeInteger n \<and> lo \<le> n \<and> n \<le> hi) ''INVALID_PAPER_LIMIT'') (\<lambda>_. Inr (Some n))
     | _ \<Rightarrow> Inl ''INVALID_PAPER_LIMIT'')"

definition limit_price :: "json option \<Rightarrow> string option checked" where
  "limit_price v = (case v of Some JNull \<Rightarrow> Inr None | _ \<Rightarrow> bind_r (paperAmount v True) (\<lambda>_. Inr (Some (text_of v))))"

definition parse_price_limits :: "batch_policy \<Rightarrow> json \<Rightarrow> paper_limits checked" where
  "parse_price_limits market l =
     bind_r (exactFields l [''mode'', ''identity'', ''lowerUsd18'', ''upperUsd18'']) (\<lambda>_.
     bind_r (check (field l ''mode'' = Some (JStr ''price'') \<and>
               (case field l ''identity'' of Some (JStr i) \<Rightarrow> i \<in> set (map selection_identity (bp_selections market)) | _ \<Rightarrow> False))
               ''INVALID_PAPER_LIMIT'') (\<lambda>_.
     bind_r (limit_price (field l ''lowerUsd18'')) (\<lambda>lower.
     bind_r (limit_price (field l ''upperUsd18'')) (\<lambda>upper.
     bind_r (check (lower \<noteq> None \<or> upper \<noteq> None) ''INVALID_PAPER_LIMIT'') (\<lambda>_.
     bind_r (check (case (lower, upper) of (Some a, Some b) \<Rightarrow> digits_val a < digits_val b | _ \<Rightarrow> True) ''INVALID_PAPER_LIMIT'') (\<lambda>_.
     Inr (PL_price (text_of (field l ''identity'')) lower upper)))))))"

definition parse_limits :: "batch_policy \<Rightarrow> json \<Rightarrow> paper_limits checked" where
  "parse_limits market l =
    (if field l ''mode'' = Some (JStr ''off'')
     then bind_r (exactFields l [''mode'']) (\<lambda>_. Inr PL_off)
     else if field l ''mode'' = Some (JStr ''percent'')
     then bind_r (exactFields l [''mode'', ''lowerBps'', ''upperBps'']) (\<lambda>_.
          bind_r (limit_bps (field l ''lowerBps'') (- 10000) (- 1)) (\<lambda>lower.
          bind_r (limit_bps (field l ''upperBps'') 1 100000000) (\<lambda>upper.
          bind_r (check (lower \<noteq> None \<or> upper \<noteq> None) ''INVALID_PAPER_LIMIT'') (\<lambda>_. Inr (PL_percent lower upper)))))
     else parse_price_limits market l)"

definition parsePaperConfig :: "json \<Rightarrow> paper_config checked" where
  "parsePaperConfig v =
     bind_r (exactFields v [''version'', ''mode'', ''market'', ''minuteCloseMaxAgeMs'', ''gapPolicy'', ''feeBps'', ''slippageBps'',
               ''initialCash6'', ''limits'']) (\<lambda>r.
     bind_r (check (field r ''version'' = Some (JStr ''alphaforge-reference-paper-1'') \<and> field r ''mode'' = Some (JStr ''REFERENCE_PAPER''))
               ''INVALID_PAPER_CONFIG'') (\<lambda>_.
     bind_r (parseBatchPolicy (the (field r ''market''))) (\<lambda>market.
     bind_r (check (length (bp_selections market) = 3 \<and> bp_maxQuoteSkewMs market < 60000) ''INVALID_PAPER_MARKET'') (\<lambda>_.
     bind_r (case field r ''minuteCloseMaxAgeMs'' of
               Some (JNum n) \<Rightarrow> bind_r (check (isSafeInteger n \<and> n > 0 \<and> n \<le> 60000) ''INVALID_PAPER_MINUTE_POLICY'') (\<lambda>_. Inr n)
             | _ \<Rightarrow> Inl ''INVALID_PAPER_MINUTE_POLICY'') (\<lambda>age.
     bind_r (check (field r ''gapPolicy'' = Some (JStr ''retain'') \<or> field r ''gapPolicy'' = Some (JStr ''reset'')) ''INVALID_PAPER_GAP_POLICY'') (\<lambda>_.
     bind_r (paperAmount (field r ''initialCash6'') True) (\<lambda>cash.
     bind_r (parse_limits market (the (field r ''limits''))) (\<lambda>limits.
     bind_r (paper_bps (field r ''feeBps'')) (\<lambda>fee.
     bind_r (paper_bps (field r ''slippageBps'')) (\<lambda>slip.
     Inr \<lparr>pc_market = market, pc_minuteCloseMaxAgeMs = age, pc_reset = (field r ''gapPolicy'' = Some (JStr ''reset'')),
          pc_feeBps = fee, pc_slippageBps = slip, pc_initialCash6 = cash, pc_limits = limits\<rparr>))))))))))"

section \<open>State\<close>

datatype paper_status = P_running | P_liquidating | P_stopped
datatype paper_trigger = T_manual | T_upper | T_lower

record paper_position =
  pp_quantity18 :: int
  pp_cost6 :: int

record paper_state =
  ps_config :: paper_config
  ps_clock :: int
  ps_status :: paper_status
  ps_trigger :: "paper_trigger option"
  ps_cash6 :: int
  ps_positions :: "(string \<times> paper_position) list"
  ps_quotes :: "(string \<times> observation) list"
  ps_netContributed6 :: int
  ps_fees6 :: int
  ps_realizedPnl6 :: int
  ps_units :: "int \<times> int"
  ps_emptyValue :: "int \<times> int"
  ps_minutes :: minute_state
  ps_emas :: "(string \<times> ema_state) list"
  ps_closedMinutes :: int
  ps_fills :: int

datatype paper_signal = Sig_warmup | Sig_sell | Sig_hold | Sig_buy | Sig_cash

datatype paper_event =
    E_minute minute_event
  | E_fill int string side int int int int
  | E_liquidation_blocked string int string
  | E_stopped int "paper_trigger option"
  | E_liquidation_trigger int paper_trigger
  | E_reference_rejected int string "int option"
  | E_signals int "(string \<times> paper_signal) list"
  | E_order_blocked int string string
  | E_nav int "int option" "(int \<times> int) option" int int int int
  | E_virtual_fund int fund_direction int "(int \<times> int) option"

definition createPaper :: "json \<Rightarrow> paper_state checked" where
  "createPaper v =
     bind_r (parsePaperConfig v) (\<lambda>config.
     let ids = map selection_identity (bp_selections (pc_market config)) in
     bind_r (createMinutes ids) (\<lambda>minutes.
     Inr \<lparr>ps_config = config, ps_clock = 0, ps_status = P_running, ps_trigger = None, ps_cash6 = pc_initialCash6 config,
          ps_positions = map (\<lambda>i. (i, \<lparr>pp_quantity18 = 0, pp_cost6 = 0\<rparr>)) ids, ps_quotes = [],
          ps_netContributed6 = pc_initialCash6 config, ps_fees6 = 0, ps_realizedPnl6 = 0,
          ps_units = (pc_initialCash6 config, 1), ps_emptyValue = (1, 1), ps_minutes = minutes,
          ps_emas = map (\<lambda>i. (i, createEma)) ids, ps_closedMinutes = 0, ps_fills = 0\<rparr>))"

definition paper_clock :: "int \<Rightarrow> unit checked" where
  "paper_clock at = check (isSafeInteger at \<and> at \<ge> 0) ''INVALID_PAPER_CLOCK''"

definition paper_fresh :: "paper_state \<Rightarrow> string \<Rightarrow> int \<Rightarrow> bool" where
  "paper_fresh s i at =
    (case map_of (ps_quotes s) i of None \<Rightarrow> False
     | Some q \<Rightarrow> ob_generatedAt q \<le> at \<and> at - ob_generatedAt q \<le> bp_maxAgeMs (pc_market (ps_config s)))"

definition bid_of :: "paper_state \<Rightarrow> string \<Rightarrow> int" where
  "bid_of s i = (case map_of (ps_quotes s) i of None \<Rightarrow> 0 | Some q \<Rightarrow> digits_val (ob_tokenBidUsd18 q))"

definition ask_of :: "paper_state \<Rightarrow> string \<Rightarrow> int" where
  "ask_of s i = (case map_of (ps_quotes s) i of None \<Rightarrow> 0 | Some q \<Rightarrow> digits_val (ob_tokenAskUsd18 q))"

fun add_values :: "paper_state \<Rightarrow> int \<Rightarrow> (string \<times> paper_position) list \<Rightarrow> int \<Rightarrow> int option" where
  "add_values s at [] v = Some v"
| "add_values s at ((i, p) # ps) v =
    (if pp_quantity18 p = 0 then add_values s at ps v
     else if \<not> paper_fresh s i at then None
     else add_values s at ps (v + tdiv (pp_quantity18 p * bid_of s i) VALUE_SCALE))"

definition paperNav :: "paper_state \<Rightarrow> int \<Rightarrow> int option checked" where
  "paperNav s at =
     bind_r (paper_clock at) (\<lambda>_.
     bind_r (check (at \<ge> ps_clock s) ''PAPER_CLOCK_REGRESSION'') (\<lambda>_.
     Inr (add_values s at (ps_positions s) (ps_cash6 s))))"

definition rational :: "int \<Rightarrow> int \<Rightarrow> (int \<times> int) checked" where
  "rational n d =
     bind_r (check (n \<ge> 0 \<and> d > 0) ''INVALID_PAPER_UNITS'') (\<lambda>_.
     let a = euclid n d in Inr (tdiv n a, tdiv d a))"

definition paperReturn :: "paper_state \<Rightarrow> int \<Rightarrow> (int \<times> int) option checked" where
  "paperReturn s at =
     bind_r (paperNav s at) (\<lambda>nav.
     case nav of None \<Rightarrow> Inr None
     | Some v \<Rightarrow> if fst (ps_units s) = 0 then Inr (Some (ps_emptyValue s))
         else bind_r (rational (v * snd (ps_units s)) (fst (ps_units s))) (\<lambda>r. Inr (Some r)))"

definition valuation :: "paper_state \<Rightarrow> int checked" where
  "valuation s =
     bind_r (paperNav s (ps_clock s)) (\<lambda>nav. case nav of None \<Rightarrow> Inl ''STALE_PAPER_VALUATION'' | Some v \<Rightarrow> Inr v)"

section \<open>Orders\<close>

definition tradeNumbers :: "paper_state \<Rightarrow> string \<Rightarrow> side \<Rightarrow> int \<Rightarrow> (int \<times> int \<times> int) checked" where
  "tradeNumbers s i sd quantity =
     bind_r (check (i \<in> set (map fst (ps_positions s))) ''PAPER_ASSET_MISMATCH'') (\<lambda>_.
     bind_r (check (paper_fresh s i (ps_clock s)) ''STALE_PAPER_VALUATION'') (\<lambda>_.
     let slip = pc_slippageBps (ps_config s);
         price = (case sd of Buy \<Rightarrow> ceilDiv (ask_of s i * (PAPER_BPS + slip)) PAPER_BPS
                  | Sell \<Rightarrow> tdiv (bid_of s i * (PAPER_BPS - slip)) PAPER_BPS);
         gross = (case sd of Buy \<Rightarrow> ceilDiv (quantity * price) VALUE_SCALE | Sell \<Rightarrow> tdiv (quantity * price) VALUE_SCALE);
         fee = ceilDiv (gross * pc_feeBps (ps_config s)) PAPER_BPS in
     Inr (price, gross, fee)))"

definition paper_position_of :: "paper_state \<Rightarrow> string \<Rightarrow> paper_position" where
  "paper_position_of s i =
    (case map_of (ps_positions s) i of None \<Rightarrow> \<lparr>pp_quantity18 = 0, pp_cost6 = 0\<rparr> | Some p \<Rightarrow> p)"

definition withinCap :: "paper_state \<Rightarrow> string \<Rightarrow> int \<Rightarrow> bool checked" where
  "withinCap s i quantity =
     bind_r (tradeNumbers s i Buy quantity) (\<lambda>(price, gross, fee).
     let charge = gross + fee in
     if charge > ps_cash6 s then Inr False
     else let held = pp_quantity18 (paper_position_of s i); bid = bid_of s i; old = tdiv (held * bid) VALUE_SCALE in
       bind_r (valuation s) (\<lambda>nav.
       let after = nav - charge + tdiv ((held + quantity) * bid) VALUE_SCALE - old in
       Inr ((old + charge) * 3 \<le> after)))"

definition paper_sold_cost :: "paper_position \<Rightarrow> int \<Rightarrow> int" where
  "paper_sold_cost p quantity =
    (if quantity = pp_quantity18 p then pp_cost6 p else tdiv (pp_cost6 p * quantity) (pp_quantity18 p))"

definition paper_buy :: "paper_state \<Rightarrow> string \<Rightarrow> int \<Rightarrow> int \<Rightarrow> int \<Rightarrow> paper_state checked" where
  "paper_buy s i quantity gross fee =
    (let p = paper_position_of s i in
     bind_r (withinCap s i quantity) (\<lambda>ok.
     bind_r (check ok ''ALLOCATION_LIMIT'') (\<lambda>_.
     bind_r (check (pp_quantity18 p + quantity \<le> PAPER_MAX \<and> pp_cost6 p + gross + fee \<le> PAPER_MAX) ''INVALID_PAPER_AMOUNT'') (\<lambda>_.
     Inr (s\<lparr>ps_cash6 := ps_cash6 s - gross - fee,
            ps_positions := AList.update i \<lparr>pp_quantity18 = pp_quantity18 p + quantity, pp_cost6 = pp_cost6 p + gross + fee\<rparr> (ps_positions s)\<rparr>)))))"

definition paper_sell :: "paper_state \<Rightarrow> string \<Rightarrow> int \<Rightarrow> int \<Rightarrow> int \<Rightarrow> paper_state checked" where
  "paper_sell s i quantity gross fee =
    (let p = paper_position_of s i in
     bind_r (check (quantity \<le> pp_quantity18 p) ''INSUFFICIENT_POSITION'') (\<lambda>_.
     bind_r (paper_int (ps_cash6 s + gross - fee)) (\<lambda>_.
     let cost = paper_sold_cost p quantity in
     Inr (s\<lparr>ps_cash6 := ps_cash6 s + gross - fee,
            ps_positions := AList.update i \<lparr>pp_quantity18 = pp_quantity18 p - quantity, pp_cost6 = pp_cost6 p - cost\<rparr> (ps_positions s),
            ps_realizedPnl6 := ps_realizedPnl6 s + gross - fee - cost\<rparr>))))"

definition paper_execute :: "paper_state \<Rightarrow> string \<Rightarrow> side \<Rightarrow> int \<Rightarrow> (paper_state \<times> paper_event) checked" where
  "paper_execute s i sd quantity =
     bind_r (check (quantity > 0 \<and> quantity \<le> PAPER_MAX) ''INVALID_PAPER_AMOUNT'') (\<lambda>_.
     bind_r (check (ps_status s \<noteq> P_stopped \<and> (sd = Sell \<or> ps_status s = P_running)) ''PAPER_NOT_RUNNING'') (\<lambda>_.
     bind_r (check (isSafeInteger (ps_fills s + 1)) ''PAPER_COUNTER_LIMIT'') (\<lambda>_.
     bind_r (tradeNumbers s i sd quantity) (\<lambda>(price, gross, fee).
     bind_r (check (gross > fee) ''PAPER_MINIMUM_FILL'') (\<lambda>_.
     bind_r (case sd of Buy \<Rightarrow> paper_buy s i quantity gross fee | Sell \<Rightarrow> paper_sell s i quantity gross fee) (\<lambda>t.
     Inr (t\<lparr>ps_fees6 := ps_fees6 t + fee, ps_fills := ps_fills t + 1\<rparr>,
          E_fill (ps_clock s) i sd quantity price gross fee)))))))"

definition executePaperOrder :: "paper_state \<Rightarrow> string \<Rightarrow> side \<Rightarrow> string \<Rightarrow> (paper_state \<times> paper_event list) checked" where
  "executePaperOrder s i sd quantity18 =
     bind_r (paperAmount (Some (JStr quantity18)) True) (\<lambda>n.
     bind_r (paper_execute s i sd n) (\<lambda>(t, e). Inr (t, [e])))"

definition error_code :: "string \<Rightarrow> string" where
  "error_code message = (if code_pattern message then message else ''PAPER_FAILED'')"

type_synonym paper_run = "paper_state \<times> paper_event list"

definition try_order :: "(string \<Rightarrow> paper_event) \<Rightarrow> string \<Rightarrow> side \<Rightarrow> int \<Rightarrow> paper_run \<Rightarrow> paper_run" where
  "try_order blocked i sd quantity r =
    (case paper_execute (fst r) i sd quantity of
       Inl e \<Rightarrow> (fst r, snd r @ [blocked (error_code e)])
     | Inr (t, ev) \<Rightarrow> (t, snd r @ [ev]))"

definition liquidate_one :: "string \<Rightarrow> paper_run \<Rightarrow> paper_run" where
  "liquidate_one i r =
    (let n = pp_quantity18 (paper_position_of (fst r) i) in
     if n = 0 then r else try_order (E_liquidation_blocked i (ps_clock (fst r))) i Sell n r)"

definition paper_liquidate :: "paper_run \<Rightarrow> paper_run" where
  "paper_liquidate r0 =
    (let r = fold liquidate_one (map fst (ps_positions (fst r0))) r0 in
     if list_all (\<lambda>ip. pp_quantity18 (snd ip) = 0) (ps_positions (fst r))
     then ((fst r)\<lparr>ps_status := P_stopped\<rparr>, snd r @ [E_stopped (ps_clock (fst r)) (ps_trigger (fst r))]) else r)"

definition latch :: "paper_trigger \<Rightarrow> paper_run \<Rightarrow> paper_run" where
  "latch why r =
    (if ps_status (fst r) = P_stopped then r
     else ((fst r)\<lparr>ps_trigger := (case ps_trigger (fst r) of None \<Rightarrow> Some why | Some t \<Rightarrow> Some t), ps_status := P_liquidating\<rparr>,
           snd r @ (if ps_trigger (fst r) = None then [E_liquidation_trigger (ps_clock (fst r)) why] else [])))"

definition evaluateLimits :: "paper_run \<Rightarrow> paper_run checked" where
  "evaluateLimits r =
    (let s = fst r in
     if ps_status s \<noteq> P_running then Inr r
     else case pc_limits (ps_config s) of
       PL_off \<Rightarrow> Inr r
     | PL_percent lower upper \<Rightarrow>
         bind_r (paperReturn s (ps_clock s)) (\<lambda>ret.
         case ret of None \<Rightarrow> Inr r
         | Some (num, den) \<Rightarrow>
             let n = (num - den) * PAPER_BPS in
             Inr (if (case lower of None \<Rightarrow> False | Some l \<Rightarrow> n \<le> l * den) then latch T_lower r
                  else if (case upper of None \<Rightarrow> False | Some u \<Rightarrow> n \<ge> u * den) then latch T_upper r else r))
     | PL_price i lower upper \<Rightarrow>
         if \<not> paper_fresh s i (ps_clock s) then Inr r
         else Inr (if (case lower of None \<Rightarrow> False | Some l \<Rightarrow> bid_of s i \<le> digits_val l) then latch T_lower r
                   else if (case upper of None \<Rightarrow> False | Some u \<Rightarrow> bid_of s i \<ge> digits_val u) then latch T_upper r else r))"

function budget_search :: "paper_state \<Rightarrow> string \<Rightarrow> int \<Rightarrow> int \<Rightarrow> int checked" where
  "budget_search s i low high =
    (if low < high
     then let middle = (low + high + 1) div 2 in
       (case withinCap s i middle of
          Inl e \<Rightarrow> Inl e
        | Inr ok \<Rightarrow> if ok then budget_search s i middle high else budget_search s i low (middle - 1))
     else Inr low)"
  by pat_completeness auto
termination
  by (relation "measure (\<lambda>(s, i, low, high). nat (high - low))") auto

declare budget_search.simps [simp del]

definition buyBudget :: "paper_state \<Rightarrow> string \<Rightarrow> int checked" where
  "buyBudget s i =
     bind_r (tradeNumbers s i Buy 1) (\<lambda>(price, gross, fee).
     bind_r (check (price \<noteq> 0) ''Division by zero'') (\<lambda>_.
     budget_search s i 0 (min (tdiv (ps_cash6 s * VALUE_SCALE) price) PAPER_MAX)))"

section \<open>Batches\<close>

definition take_event :: "minute_event \<Rightarrow> paper_run \<times> bool \<Rightarrow> (paper_run \<times> bool) checked" where
  "take_event ev acc =
    (case acc of ((s, events), closed) \<Rightarrow>
     let events1 = events @ [E_minute ev] in
     case ev of
       M_GAP f u \<Rightarrow>
         Inr ((if pc_reset (ps_config s) then s\<lparr>ps_emas := map (\<lambda>i. (i, createEma)) (mi_identities (ps_minutes s))\<rparr> else s, events1), closed)
     | M_CLOSE at prices \<Rightarrow>
         bind_r (check (isSafeInteger (ps_closedMinutes s + 1)) ''PAPER_COUNTER_LIMIT'') (\<lambda>_.
         bind_r (fold_r (\<lambda>i emas.
             bind_r (advanceEma (case map_of emas i of None \<Rightarrow> createEma | Some e \<Rightarrow> e)
                       (case map_of prices i of None \<Rightarrow> [] | Some p \<Rightarrow> p)) (\<lambda>e. Inr (AList.update i e emas)))
           (mi_identities (ps_minutes s)) (ps_emas s)) (\<lambda>emas.
         Inr ((s\<lparr>ps_closedMinutes := ps_closedMinutes s + 1, ps_emas := emas\<rparr>, events1), True))))"

definition signal_of :: "paper_state \<Rightarrow> string \<Rightarrow> paper_signal" where
  "signal_of s i =
    (let e = (case map_of (ps_emas s) i of None \<Rightarrow> createEma | Some e \<Rightarrow> e);
         held = (pp_quantity18 (paper_position_of s i) \<noteq> 0);
         fast = (case acc_value (es_fast e) of None \<Rightarrow> 0 | Some v \<Rightarrow> v) in
     case acc_value (es_slow e) of
       None \<Rightarrow> Sig_warmup
     | Some slow \<Rightarrow> if held then (if fast < slow then Sig_sell else Sig_hold)
         else (if fast * 100000 > slow * 100015 then Sig_buy else Sig_cash))"

fun run_sells :: "string list \<Rightarrow> paper_run \<Rightarrow> paper_run checked" where
  "run_sells [] r = Inr r"
| "run_sells (i # is) r =
     bind_r (evaluateLimits (try_order (E_order_blocked (ps_clock (fst r)) i) i Sell
               (pp_quantity18 (paper_position_of (fst r) i)) r)) (run_sells is)"

fun run_buys :: "string list \<Rightarrow> paper_run \<Rightarrow> paper_run checked" where
  "run_buys [] r = Inr r"
| "run_buys (i # is) r =
    (if ps_status (fst r) \<noteq> P_running then Inr r
     else bind_r (buyBudget (fst r) i) (\<lambda>quantity.
       if quantity = 0 then run_buys is (fst r, snd r @ [E_order_blocked (ps_clock (fst r)) i ''ALLOCATION_LIMIT''])
       else bind_r (evaluateLimits (try_order (E_order_blocked (ps_clock (fst r)) i) i Buy quantity r)) (run_buys is)))"

definition trade_signals :: "paper_run \<Rightarrow> paper_run checked" where
  "trade_signals r =
    (let s = fst r; signals = map (\<lambda>i. (i, signal_of s i)) (mi_identities (ps_minutes s)) in
     bind_r (run_sells (map fst (filter (\<lambda>x. snd x = Sig_sell) signals)) (s, snd r @ [E_signals (ps_clock s) signals])) (\<lambda>r1.
     bind_r (run_buys (map fst (filter (\<lambda>x. snd x = Sig_buy) signals)) r1) (\<lambda>r2.
     Inr (if ps_status (fst r2) = P_liquidating then paper_liquidate r2 else r2))))"

definition nav_event :: "paper_state \<Rightarrow> paper_event checked" where
  "nav_event s =
     bind_r (paperNav s (ps_clock s)) (\<lambda>nav.
     bind_r (paperReturn s (ps_clock s)) (\<lambda>unit_value.
     Inr (E_nav (ps_clock s) nav unit_value (ps_cash6 s) (ps_netContributed6 s) (ps_fees6 s) (ps_realizedPnl6 s))))"

definition apply_observations :: "paper_state \<Rightarrow> observation list \<Rightarrow> minute_state \<times> minute_event list \<Rightarrow> paper_run checked" where
  "apply_observations s observations m =
     bind_r (fold_r take_event (snd m)
               ((s\<lparr>ps_minutes := fst m, ps_quotes := map (\<lambda>ob. (ob_identity ob, ob)) observations\<rparr>, []), False)) (\<lambda>(r1, closed).
     bind_r (evaluateLimits r1) (\<lambda>r2.
     bind_r (if ps_status (fst r2) = P_liquidating then Inr (paper_liquidate r2)
             else if ps_status (fst r2) = P_running \<and> closed then trade_signals r2 else Inr r2) (\<lambda>r3.
     bind_r (nav_event (fst r3)) (\<lambda>e. Inr (fst r3, snd r3 @ [e])))))"

definition applyPaperBatch :: "ref_env \<Rightarrow> paper_state \<Rightarrow> reference_batch \<Rightarrow> paper_run checked" where
  "applyPaperBatch env before b =
     bind_r (validateReferenceBatch env b) (\<lambda>observations.
     bind_r (parseBatchPolicy (rb_policy b)) (\<lambda>policy.
     bind_r (check (pc_market (ps_config before) = policy) ''PAPER_POLICY_MISMATCH'') (\<lambda>_.
     bind_r (paper_clock (rb_completedAt b)) (\<lambda>_.
     if rb_completedAt b < ps_clock before
     then Inr (before, [E_reference_rejected (ps_clock before) ''PAPER_INPUT_BEFORE_CONTROL'' (Some (rb_completedAt b))])
     else let s = before\<lparr>ps_clock := rb_completedAt b\<rparr> in
       if rb_status b = REJECTED
       then Inr (s, [E_reference_rejected (ps_clock s) (case rb_reason b of None \<Rightarrow> [] | Some why \<Rightarrow> why) None])
       else case observations of
         None \<Rightarrow> Inl ''BATCH_NOT_ACCEPTED''
       | Some os \<Rightarrow>
           (case advanceMinutes (ps_minutes s) os (pc_minuteCloseMaxAgeMs (ps_config s)) of
              Inl e \<Rightarrow> Inr (s, [E_reference_rejected (ps_clock s) (error_code e) None])
            | Inr m \<Rightarrow> apply_observations s os m)))))"

definition resize_units :: "paper_state \<Rightarrow> int \<Rightarrow> int \<Rightarrow> int \<Rightarrow> paper_state checked" where
  "resize_units s nav delta cash =
    (let n = fst (ps_units s); d = snd (ps_units s) in
     if n = 0
     then bind_r (rational (cash * snd (ps_emptyValue s)) (fst (ps_emptyValue s))) (\<lambda>u. Inr (s\<lparr>ps_units := u\<rparr>))
     else bind_r (rational (nav * d) n) (\<lambda>e.
          bind_r (rational (n * (nav + delta)) (d * nav)) (\<lambda>u. Inr (s\<lparr>ps_emptyValue := e, ps_units := u\<rparr>))))"

definition fundPaper :: "paper_state \<Rightarrow> fund_direction \<Rightarrow> string \<Rightarrow> int \<Rightarrow> paper_run checked" where
  "fundPaper before dir amount6 at =
     bind_r (paper_clock at) (\<lambda>_.
     bind_r (check (at \<ge> ps_clock before) ''PAPER_CLOCK_REGRESSION'') (\<lambda>_.
     bind_r (paperAmount (Some (JStr amount6)) True) (\<lambda>cash.
     bind_r (check (dir = Fund_out \<or> ps_status before = P_running) ''PAPER_NOT_RUNNING'') (\<lambda>_.
     let s = before\<lparr>ps_clock := at\<rparr> in
     bind_r (valuation s) (\<lambda>nav.
     bind_r (check (nav > 0 \<or> fst (ps_units s) = 0) ''INSOLVENT_PAPER'') (\<lambda>_.
     bind_r (check (dir = Fund_in \<or> cash \<le> ps_cash6 s) ''INSUFFICIENT_CASH'') (\<lambda>_.
     let delta = (if dir = Fund_in then cash else - cash) in
     bind_r (resize_units s nav delta cash) (\<lambda>t.
     bind_r (paper_int (ps_cash6 t + delta)) (\<lambda>c.
     let u = t\<lparr>ps_cash6 := c, ps_netContributed6 := ps_netContributed6 t + delta\<rparr> in
     bind_r (paperReturn u at) (\<lambda>v. Inr (u, [E_virtual_fund at dir cash v])))))))))))"

definition stopPaper :: "paper_state \<Rightarrow> int \<Rightarrow> paper_run checked" where
  "stopPaper before at =
     bind_r (paper_clock at) (\<lambda>_.
     bind_r (check (at \<ge> ps_clock before) ''PAPER_CLOCK_REGRESSION'') (\<lambda>_.
     let r = latch T_manual (before\<lparr>ps_clock := at\<rparr>, []) in
     Inr (if ps_status (fst r) = P_liquidating then paper_liquidate r else r)))"

end
