(* ===== verification/Paper_Properties.thy ===== *)
theory Paper_Properties
  imports Reference_Paper
begin

text \<open>
  What holds of the paper engine. \<open>paper_invariant\<close> is the contract of a predicate that orders keep and that does not
  look at clocks, signals, quotes and status: batches, limits, liquidation and stopping keep it. It is interpreted
  on the books and on the identity of the configuration and the assets. \<open>budget_found\<close> is the correctness of the
  binary search for the size of a buy.
\<close>

section \<open>Predicates that orders keep\<close>

locale paper_invariant =
  fixes P :: "paper_state \<Rightarrow> bool"
  assumes clock_irrelevant: "P (s\<lparr>ps_clock := a\<rparr>) = P s"
    and status_irrelevant: "P (s\<lparr>ps_status := b\<rparr>) = P s"
    and trigger_irrelevant: "P (s\<lparr>ps_trigger := c\<rparr>) = P s"
    and quotes_irrelevant: "P (s\<lparr>ps_quotes := d\<rparr>) = P s"
    and minutes_irrelevant: "P (s\<lparr>ps_minutes := e\<rparr>) = P s"
    and emas_irrelevant: "P (s\<lparr>ps_emas := f\<rparr>) = P s"
    and closed_irrelevant: "P (s\<lparr>ps_closedMinutes := g\<rparr>) = P s"
    and execute_keeps: "paper_execute s i sd n = Inr (t, ev) \<Longrightarrow> P s \<Longrightarrow> P t"
begin

lemmas irrelevant = clock_irrelevant status_irrelevant trigger_irrelevant quotes_irrelevant minutes_irrelevant
  emas_irrelevant closed_irrelevant

lemma try_order_keeps: "P (fst r) \<Longrightarrow> P (fst (try_order blocked i sd n r))"
  by (auto simp: try_order_def split: sum.splits prod.splits dest: execute_keeps)

lemma liquidate_one_keeps: "P (fst r) \<Longrightarrow> P (fst (liquidate_one i r))"
  by (simp add: liquidate_one_def Let_def try_order_keeps)

lemma fold_liquidate_keeps: "P (fst r) \<Longrightarrow> P (fst (fold liquidate_one is r))"
  by (induction "is" arbitrary: r) (simp_all add: liquidate_one_keeps)

lemma paper_liquidate_keeps: "P (fst r) \<Longrightarrow> P (fst (paper_liquidate r))"
  by (simp add: paper_liquidate_def Let_def irrelevant fold_liquidate_keeps)

lemma latch_keeps: "P (fst r) \<Longrightarrow> P (fst (latch why r))"
  by (simp add: latch_def irrelevant)

lemma limits_keep: "evaluateLimits r = Inr u \<Longrightarrow> P (fst r) \<Longrightarrow> P (fst u)"
  unfolding evaluateLimits_def Let_def
  by (cases "paperReturn (fst r) (ps_clock (fst r))")
    (auto simp: latch_keeps split: if_splits paper_limits.splits option.splits)

lemma run_sells_keep: "run_sells is r = Inr u \<Longrightarrow> P (fst r) \<Longrightarrow> P (fst u)"
  by (induction "is" arbitrary: r) (auto simp: bind_r_Inr dest: limits_keep[OF _ try_order_keeps])

lemma run_buys_keep: "run_buys is r = Inr u \<Longrightarrow> P (fst r) \<Longrightarrow> P (fst u)"
  by (induction "is" arbitrary: r) (auto simp: bind_r_Inr split: if_splits dest: limits_keep[OF _ try_order_keeps])

lemma trade_signals_keep: "trade_signals r = Inr u \<Longrightarrow> P (fst r) \<Longrightarrow> P (fst u)"
  unfolding trade_signals_def Let_def
  by (auto simp: bind_r_Inr intro!: paper_liquidate_keeps dest!: run_sells_keep run_buys_keep split: if_splits)

lemma take_event_keeps: "take_event ev acc = Inr acc' \<Longrightarrow> P (fst (fst acc)) \<Longrightarrow> P (fst (fst acc'))"
  by (auto simp: take_event_def Let_def bind_r_Inr irrelevant split: prod.splits minute_event.splits if_splits)

lemma apply_observations_keep: "apply_observations s os m = Inr u \<Longrightarrow> P s \<Longrightarrow> P (fst u)"
proof -
  assume u: "apply_observations s os m = Inr u" and p: "P s"
  then obtain r1 closed r2 r3 where
    r1: "fold_r take_event (snd m) ((s\<lparr>ps_minutes := fst m, ps_quotes := map (\<lambda>ob. (ob_identity ob, ob)) os\<rparr>, []), False) = Inr (r1, closed)"
    and r2: "evaluateLimits r1 = Inr r2"
    and r3: "(if ps_status (fst r2) = P_liquidating then Inr (paper_liquidate r2)
             else if ps_status (fst r2) = P_running \<and> closed then trade_signals r2 else Inr r2) = Inr r3"
    and u: "fst u = fst r3"
    unfolding apply_observations_def by (auto simp: bind_r_Inr split: prod.splits)
  have "P (fst (fst (r1, closed)))" using r1
    by (rule fold_r_keeps) (auto simp: p irrelevant dest: take_event_keeps)
  then have "P (fst r2)" using limits_keep[OF r2] by simp
  then have "P (fst r3)" using r3 by (auto simp: paper_liquidate_keeps split: if_splits dest: trade_signals_keep)
  then show ?thesis by (simp add: u)
qed

lemma batch_keeps: "applyPaperBatch env s b = Inr u \<Longrightarrow> P s \<Longrightarrow> P (fst u)"
  unfolding applyPaperBatch_def Let_def
  by (auto simp: bind_r_Inr irrelevant split: if_splits option.splits sum.splits dest: apply_observations_keep)

lemma stop_keeps: "stopPaper s at = Inr u \<Longrightarrow> P s \<Longrightarrow> P (fst u)"
  unfolding stopPaper_def Let_def
  by (auto simp: bind_r_Inr irrelevant intro!: paper_liquidate_keeps latch_keeps split: if_splits)

lemma order_keeps: "executePaperOrder s i sd q = Inr u \<Longrightarrow> P s \<Longrightarrow> P (fst u)"
  by (auto simp: executePaperOrder_def bind_r_Inr dest: execute_keeps)

end

section \<open>The engine as a machine\<close>

datatype paper_input =
    PI_batch reference_batch
  | PI_order string side string
  | PI_fund fund_direction string int
  | PI_stop int

definition paper_start :: "paper_state \<Rightarrow> bool" where
  "paper_start s \<longleftrightarrow> (\<exists>v. createPaper v = Inr s)"

definition paper_step :: "ref_env \<Rightarrow> paper_state \<Rightarrow> paper_input \<Rightarrow> paper_state checked" where
  "paper_step env s i = bind_r
    (case i of PI_batch b \<Rightarrow> applyPaperBatch env s b | PI_order a sd q \<Rightarrow> executePaperOrder s a sd q
     | PI_fund dir amount6 at \<Rightarrow> fundPaper s dir amount6 at | PI_stop at \<Rightarrow> stopPaper s at) (\<lambda>u. Inr (fst u))"

section \<open>The books\<close>

definition paper_costs :: "paper_state \<Rightarrow> int" where
  "paper_costs s = sum_list (map (pp_cost6 \<circ> snd) (ps_positions s))"

definition position_ok :: "paper_position \<Rightarrow> bool" where
  "position_ok p \<longleftrightarrow> 0 \<le> pp_quantity18 p \<and> 0 \<le> pp_cost6 p \<and> (pp_quantity18 p = 0 \<longrightarrow> pp_cost6 p = 0)"

definition paper_books :: "paper_state \<Rightarrow> bool" where
  "paper_books s \<longleftrightarrow> 0 \<le> pc_feeBps (ps_config s) \<and> 0 \<le> pc_slippageBps (ps_config s) \<and> pc_slippageBps (ps_config s) < 10000 \<and>
     distinct (map fst (ps_positions s)) \<and> (\<forall>ip\<in>set (ps_positions s). position_ok (snd ip)) \<and> 0 \<le> ps_cash6 s \<and>
     0 \<le> ps_fees6 s \<and> ps_cash6 s + paper_costs s = ps_netContributed6 s + ps_realizedPnl6 s"

definition same_assets :: "paper_config \<Rightarrow> paper_state \<Rightarrow> bool" where
  "same_assets c s \<longleftrightarrow> ps_config s = c \<and> map fst (ps_positions s) = map selection_identity (bp_selections (pc_market c))"

lemma paper_position_ok: "\<forall>ip\<in>set (ps_positions s). position_ok (snd ip) \<Longrightarrow> position_ok (paper_position_of s i)"
  by (auto simp: paper_position_of_def position_ok_def split: option.splits dest!: map_of_SomeD)

lemma paper_costs_update:
  assumes "distinct (map fst (ps_positions s))"
  shows "sum_list (map (pp_cost6 \<circ> snd) (AList.update i p (ps_positions s))) = paper_costs s - pp_cost6 (paper_position_of s i) + pp_cost6 p"
  by (simp add: sum_update[OF assms] paper_costs_def paper_position_of_def split: option.splits)

lemma trade_numbers_nonneg:
  assumes "tradeNumbers s i sd n = Inr (price, gross, fee)" and "paper_books s" and "0 < n"
  shows "0 \<le> price" "0 \<le> gross" "0 \<le> fee"
proof -
  have q: "0 \<le> ask_of s i" "0 \<le> bid_of s i" by (simp_all add: ask_of_def bid_of_def split: option.splits)
  have v: "0 < VALUE_SCALE" "0 < PAPER_BPS" by (simp_all add: VALUE_SCALE_def PAPER_BPS_def)
  show p: "0 \<le> price" using assms q v
    by (auto simp: tradeNumbers_def Let_def paper_books_def PAPER_BPS_def intro!: ceilDiv_nonneg tdiv_nonneg split: side.splits if_splits)
  show g: "0 \<le> gross" using assms p v
    by (auto simp: tradeNumbers_def Let_def intro!: ceilDiv_nonneg tdiv_nonneg split: side.splits if_splits)
  show "0 \<le> fee" using assms g v
    by (auto simp: tradeNumbers_def Let_def paper_books_def intro!: ceilDiv_nonneg split: if_splits)
qed

lemma paper_sold_cost_bounds:
  assumes "position_ok p" "0 < n" "n \<le> pp_quantity18 p"
  shows "0 \<le> paper_sold_cost p n" "paper_sold_cost p n \<le> pp_cost6 p" "n = pp_quantity18 p \<Longrightarrow> paper_sold_cost p n = pp_cost6 p"
proof -
  have p: "0 \<le> pp_cost6 p" "0 < pp_quantity18 p" "0 \<le> pp_cost6 p * n" using assms by (auto simp: position_ok_def)
  have "pp_cost6 p * n \<le> pp_cost6 p * pp_quantity18 p" using p assms(3) by (simp add: mult_left_mono)
  then have "(pp_cost6 p * n) div pp_quantity18 p \<le> pp_cost6 p"
    using p(2) zdiv_mono1[of "pp_cost6 p * n" "pp_cost6 p * pp_quantity18 p" "pp_quantity18 p"] by simp
  then show "paper_sold_cost p n \<le> pp_cost6 p" using p by (simp add: paper_sold_cost_def tdiv_pos)
  show "0 \<le> paper_sold_cost p n" using p by (simp add: paper_sold_cost_def tdiv_nonneg)
  show "n = pp_quantity18 p \<Longrightarrow> paper_sold_cost p n = pp_cost6 p" by (simp add: paper_sold_cost_def)
qed

lemma position_books:
  assumes "paper_books s" "position_ok p" "0 \<le> cash" "cash - ps_cash6 s + pp_cost6 p - pp_cost6 (paper_position_of s i) = pnl - ps_realizedPnl6 s"
  shows "paper_books (s\<lparr>ps_cash6 := cash, ps_positions := AList.update i p (ps_positions s), ps_realizedPnl6 := pnl\<rparr>)"
proof -
  have "\<forall>ip\<in>set (AList.update i p (ps_positions s)). position_ok (snd ip)"
    using assms(1,2) by (intro update_all) (simp_all add: paper_books_def)
  moreover have "cash + (paper_costs s - pp_cost6 (paper_position_of s i) + pp_cost6 p) = ps_netContributed6 s + pnl"
    using assms(1,4) by (simp add: paper_books_def)
  ultimately show ?thesis using assms(1,3)
    by (simp add: paper_books_def paper_costs_def[of "_\<lparr>ps_positions := _\<rparr>"] paper_costs_def[of "_\<lparr>ps_realizedPnl6 := _\<rparr>"]
        paper_costs_update distinct_update)
qed

lemma paper_buy_books:
  assumes "paper_buy s i n gross fee = Inr t" "paper_books s" "0 < n" "0 \<le> gross" "0 \<le> fee"
    and "tradeNumbers s i Buy n = Inr (price, gross, fee)"
  shows "paper_books t"
proof -
  define p where "p = paper_position_of s i"
  have t: "t = s\<lparr>ps_cash6 := ps_cash6 s - gross - fee, ps_positions := AList.update i
      \<lparr>pp_quantity18 = pp_quantity18 p + n, pp_cost6 = pp_cost6 p + gross + fee\<rparr> (ps_positions s)\<rparr>"
    and "withinCap s i n = Inr True"
    using assms(1) by (auto simp: paper_buy_def Let_def bind_r_Inr p_def split: if_splits)
  then have "gross + fee \<le> ps_cash6 s" using assms(6) by (auto simp: withinCap_def Let_def split: if_splits)
  moreover have "position_ok p" using assms(2) by (simp add: p_def paper_books_def paper_position_ok)
  ultimately show ?thesis
    using position_books[OF assms(2), of "\<lparr>pp_quantity18 = pp_quantity18 p + n, pp_cost6 = pp_cost6 p + gross + fee\<rparr>"
        "ps_cash6 s - gross - fee" i "ps_realizedPnl6 s"] assms(3-5)
    unfolding t by (simp add: position_ok_def p_def[symmetric])
qed

lemma paper_sell_books:
  assumes "paper_sell s i n gross fee = Inr t" "paper_books s" "0 < n" "fee < gross"
  shows "paper_books t"
proof -
  define p where "p = paper_position_of s i"
  have t: "t = s\<lparr>ps_cash6 := ps_cash6 s + gross - fee, ps_positions := AList.update i
      \<lparr>pp_quantity18 = pp_quantity18 p - n, pp_cost6 = pp_cost6 p - paper_sold_cost p n\<rparr> (ps_positions s),
      ps_realizedPnl6 := ps_realizedPnl6 s + gross - fee - paper_sold_cost p n\<rparr>" and n: "n \<le> pp_quantity18 p"
    using assms(1) by (auto simp: paper_sell_def Let_def bind_r_Inr p_def split: if_splits)
  have p: "position_ok p" using assms(2) by (simp add: p_def paper_books_def paper_position_ok)
  show ?thesis
    using position_books[OF assms(2), of "\<lparr>pp_quantity18 = pp_quantity18 p - n, pp_cost6 = pp_cost6 p - paper_sold_cost p n\<rparr>"
        "ps_cash6 s + gross - fee" i "ps_realizedPnl6 s + gross - fee - paper_sold_cost p n"]
      assms(2-4) n paper_sold_cost_bounds[OF p assms(3) n] p
    unfolding t by (simp add: position_ok_def p_def[symmetric] paper_books_def)
qed

lemma paper_execute_cases:
  assumes "paper_execute s i sd n = Inr (t, ev)"
  obtains price gross fee u where "tradeNumbers s i sd n = Inr (price, gross, fee)" "0 < n" "fee < gross"
    "(case sd of Buy \<Rightarrow> paper_buy s i n gross fee | Sell \<Rightarrow> paper_sell s i n gross fee) = Inr u"
    "t = u\<lparr>ps_fees6 := ps_fees6 u + fee, ps_fills := ps_fills u + 1\<rparr>" "i \<in> set (map fst (ps_positions s))"
  using assms unfolding paper_execute_def tradeNumbers_def
  by (auto simp: bind_r_Inr Let_def split: if_splits)

lemma fees_books: "paper_books s \<Longrightarrow> 0 \<le> fee \<Longrightarrow> paper_books (s\<lparr>ps_fees6 := ps_fees6 s + fee, ps_fills := k\<rparr>)"
  by (simp add: paper_books_def paper_costs_def)

lemma paper_execute_books: "paper_execute s i sd n = Inr (t, ev) \<Longrightarrow> paper_books s \<Longrightarrow> paper_books t"
  by (erule paper_execute_cases, cases sd)
    (auto intro!: fees_books dest: trade_numbers_nonneg elim: paper_buy_books paper_sell_books)

lemma paper_execute_assets: "paper_execute s i sd n = Inr (t, ev) \<Longrightarrow> same_assets c s \<Longrightarrow> same_assets c t"
  by (erule paper_execute_cases, cases sd)
    (auto simp: same_assets_def paper_buy_def paper_sell_def Let_def bind_r_Inr update_keys split: if_splits)

interpretation books: paper_invariant paper_books
  by unfold_locales (erule (1) paper_execute_books | simp add: paper_books_def paper_costs_def)+

interpretation assets: paper_invariant "same_assets c"
  by unfold_locales (erule (1) paper_execute_assets | simp add: same_assets_def)+

lemma paper_reads: "paperAmount (Some (JStr x)) False = Inr n \<longleftrightarrow> x = toString n \<and> 0 \<le> n \<and> n \<le> PAPER_MAX"
proof -
  have "PAPER_MAX < 10 ^ Suc 77" by (simp add: PAPER_MAX_def)
  then show ?thesis using canonical_dec_iff[of 77 x] by (auto simp: paperAmount_def Let_def split: if_splits)
qed

interpretation paper_reader: canonical_reader "\<lambda>x. paperAmount (Some (JStr x)) False" PAPER_MAX
  by unfold_locales (simp_all add: paper_reads, simp add: PAPER_MAX_def)

lemma paper_int_Inr: "paper_int n = Inr m \<Longrightarrow> m = n \<and> 0 \<le> n"
  unfolding paper_int_def paper_reads by auto

lemma fund_effect:
  assumes "fundPaper s dir amt at = Inr u"
  shows "ps_cash6 (fst u) - ps_cash6 s = ps_netContributed6 (fst u) - ps_netContributed6 s \<and> 0 \<le> ps_cash6 (fst u) \<and>
    ps_config (fst u) = ps_config s \<and> ps_positions (fst u) = ps_positions s \<and> ps_fees6 (fst u) = ps_fees6 s \<and>
    ps_realizedPnl6 (fst u) = ps_realizedPnl6 s"
proof -
  obtain nav delta cash t c where t: "resize_units (s\<lparr>ps_clock := at\<rparr>) nav delta cash = Inr t" "paper_int (ps_cash6 t + delta) = Inr c"
    "fst u = t\<lparr>ps_cash6 := c, ps_netContributed6 := ps_netContributed6 t + delta\<rparr>"
    using assms unfolding fundPaper_def Let_def by (elim bind_r_elim) auto
  have "ps_cash6 t = ps_cash6 s \<and> ps_netContributed6 t = ps_netContributed6 s \<and> ps_config t = ps_config s \<and>
      ps_positions t = ps_positions s \<and> ps_fees6 t = ps_fees6 s \<and> ps_realizedPnl6 t = ps_realizedPnl6 s"
    using t(1) unfolding resize_units_def by (auto simp: bind_r_Inr Let_def split: if_splits)
  then show ?thesis using t(3) paper_int_Inr[OF t(2)] by simp
qed

lemma fund_books: "fundPaper s dir amt at = Inr u \<Longrightarrow> paper_books s \<Longrightarrow> paper_books (fst u)"
  using fund_effect[of s dir amt at u] by (simp add: paper_books_def paper_costs_def)

lemma fund_assets: "fundPaper s dir amt at = Inr u \<Longrightarrow> same_assets c s \<Longrightarrow> same_assets c (fst u)"
  using fund_effect[of s dir amt at u] by (simp add: same_assets_def)

lemma paper_bps_Inr: "paper_bps v = Inr n \<Longrightarrow> 0 \<le> n \<and> n < 10000"
  by (auto simp: paper_bps_def bind_r_Inr split: option.splits json.splits if_splits)

lemma paperAmount_positive: "paperAmount v True = Inr n \<Longrightarrow> 0 < n"
  by (auto simp: paperAmount_def bind_r_Inr Let_def split: option.splits json.splits if_splits)

lemma parsed_config:
  assumes "parsePaperConfig v = Inr c"
  shows "0 \<le> pc_feeBps c" "0 \<le> pc_slippageBps c" "pc_slippageBps c < 10000" "0 < pc_initialCash6 c"
proof -
  obtain x y z w where "paper_bps x = Inr (pc_feeBps c)" "paper_bps y = Inr (pc_slippageBps c)" "paperAmount z True = Inr (pc_initialCash6 c)"
    using assms unfolding parsePaperConfig_def by (auto simp: bind_r_Inr simp del: bind_check)
  then show "0 \<le> pc_feeBps c" "0 \<le> pc_slippageBps c" "pc_slippageBps c < 10000" "0 < pc_initialCash6 c"
    using paper_bps_Inr paperAmount_positive by blast+
qed

lemma createPaper_state:
  assumes "createPaper v = Inr s"
  shows "paper_books s \<and> (\<exists>c. same_assets c s)"
proof -
  obtain c m where c: "parsePaperConfig v = Inr c" "createMinutes (map selection_identity (bp_selections (pc_market c))) = Inr m"
    and s: "ps_config s = c" "ps_cash6 s = pc_initialCash6 c" "ps_netContributed6 s = pc_initialCash6 c" "ps_fees6 s = 0" "ps_realizedPnl6 s = 0"
      "ps_positions s = map (\<lambda>i. (i, \<lparr>pp_quantity18 = 0, pp_cost6 = 0\<rparr>)) (map selection_identity (bp_selections (pc_market c)))"
    using assms unfolding createPaper_def Let_def by (auto simp: bind_r_Inr simp del: map_map)
  have "distinct (map selection_identity (bp_selections (pc_market c)))" using c(2) by (auto simp: createMinutes_def split: if_splits)
  then have "paper_books s" using parsed_config[OF c(1)]
    by (simp add: paper_books_def paper_costs_def s comp_def position_ok_def distinct_map)
  moreover have "same_assets c s" by (simp add: same_assets_def s comp_def)
  ultimately show ?thesis by blast
qed

lemma paper_step_books: "paper_step env s i = Inr t \<Longrightarrow> paper_books s \<Longrightarrow> paper_books t"
  by (cases i) (auto simp: paper_step_def bind_r_Inr dest: books.batch_keeps books.order_keeps books.stop_keeps fund_books)

lemma paper_step_assets: "paper_step env s i = Inr t \<Longrightarrow> same_assets c s \<Longrightarrow> same_assets c t"
  by (cases i) (auto simp: paper_step_def bind_r_Inr dest: assets.batch_keeps assets.order_keeps assets.stop_keeps fund_assets)

interpretation paper: guarded_machine paper_start "paper_step env" "\<lambda>s. paper_books s \<and> (\<exists>c. same_assets c s)"
  by unfold_locales (auto simp: paper_start_def dest: createPaper_state paper_step_books paper_step_assets)

text \<open>C18: paper money is conserved. In every state that batches, orders, funding and stopping can reach, failed calls
  changing nothing, cash plus the cost of all positions is the net contribution plus the realised result, neither
  cash nor any quantity or cost is negative, a position that was sold out carries no cost, and the positions are
  those of the configured selections.\<close>

theorem paper_conservation:
  assumes "reaches paper_start (paper_step env) s"
  shows "ps_cash6 s + paper_costs s = ps_netContributed6 s + ps_realizedPnl6 s \<and> 0 \<le> ps_cash6 s \<and> 0 \<le> ps_fees6 s \<and>
    (\<forall>ip\<in>set (ps_positions s). 0 \<le> pp_quantity18 (snd ip) \<and> 0 \<le> pp_cost6 (snd ip) \<and>
       (pp_quantity18 (snd ip) = 0 \<longrightarrow> pp_cost6 (snd ip) = 0)) \<and>
    map fst (ps_positions s) = map selection_identity (bp_selections (pc_market (ps_config s)))"
  using paper.reachable_inv[OF assms] by (auto simp: paper_books_def position_ok_def same_assets_def)

section \<open>The size of a buy\<close>

lemma withinCap_total:
  assumes "tradeNumbers s i Buy q = Inr x" "valuation s = Inr nav"
  shows "\<exists>b. withinCap s i q = Inr b"
  using assms by (cases x) (auto simp: withinCap_def Let_def)

lemma budget_search_sound:
  assumes "\<And>q. \<exists>b. withinCap s i q = Inr b" and "0 \<le> low" "low \<le> high"
    and "low = 0 \<or> withinCap s i low = Inr True" and "high = most \<or> withinCap s i (high + 1) = Inr False" and "high \<le> most"
  shows "\<exists>q. budget_search s i low high = Inr q \<and> low \<le> q \<and> q \<le> high \<and> (q = 0 \<or> withinCap s i q = Inr True) \<and>
    (q = most \<or> withinCap s i (q + 1) = Inr False)"
  using assms(2-)
proof (induction "nat (high - low)" arbitrary: low high rule: less_induct)
  case less
  show ?case
  proof (cases "low < high")
    case False
    then show ?thesis using less.prems by (subst budget_search.simps) auto
  next
    case True
    define mid where "mid = (low + high + 1) div 2"
    have mid: "low < mid" "mid \<le> high" using True by (auto simp: mid_def)
    obtain b where b: "withinCap s i mid = Inr b" using assms(1) by blast
    have step: "budget_search s i low high = (if b then budget_search s i mid high else budget_search s i low (mid - 1))"
      using True b by (subst budget_search.simps) (simp add: Let_def mid_def[symmetric])
    show ?thesis
    proof (cases b)
      case True
      then show ?thesis using less.hyps[of high mid] less.prems mid b by (auto simp: step)
    next
      case False
      then show ?thesis using less.hyps[of "mid - 1" low] less.prems mid b by (auto simp: step)
    qed
  qed
qed

text \<open>C37: the binary search for the size of a buy ends, and ends at a boundary. When the account has a valuation and
  the asset a fresh, positive price, \<open>buyBudget\<close> returns a quantity that the affordable amount bounds; it is zero or
  passes the allocation check, and it is either all that the cash can buy or one unit more fails the check.\<close>

theorem buy_budget_found:
  assumes "tradeNumbers s i Buy 1 = Inr (price, gross, fee)" and "0 < price" and "valuation s = Inr nav" and "0 \<le> ps_cash6 s"
    and "most = min (ps_cash6 s * VALUE_SCALE div price) PAPER_MAX"
  shows "\<exists>q. buyBudget s i = Inr q \<and> 0 \<le> q \<and> q \<le> most \<and> (q = 0 \<or> withinCap s i q = Inr True) \<and>
    (q = most \<or> withinCap s i (q + 1) = Inr False)"
proof -
  have "\<exists>b. withinCap s i q = Inr b" for q
    using assms(1) by (intro withinCap_total[OF _ assms(3)]) (auto simp: tradeNumbers_def Let_def split: if_splits)
  moreover have "0 \<le> most" using assms(2,4,5) by (simp add: VALUE_SCALE_def PAPER_MAX_def pos_imp_zdiv_nonneg_iff)
  moreover have "buyBudget s i = budget_search s i 0 most"
    using assms by (simp add: buyBudget_def tdiv_pos VALUE_SCALE_def)
  ultimately show ?thesis using budget_search_sound[of s i 0 most most] by simp
qed

section \<open>Witnesses\<close>

definition demo_paper_selection :: "char \<Rightarrow> json" where
  "demo_paper_selection c = JObj [(''chainId'', JNum 4663), (''contractAddress'', JStr (''0x'' @ replicate 40 c)), (''symbol'', JStr [c])]"

definition demo_paper_config :: json where
  "demo_paper_config = JObj [(''version'', JStr ''alphaforge-reference-paper-1''), (''mode'', JStr ''REFERENCE_PAPER''),
     (''market'', JObj [(''selections'', JArr (map demo_paper_selection ''ABC'')), (''maxAgeMs'', JNum 10), (''maxQuoteSkewMs'', JNum 0),
       (''maxCaptureSpanMs'', JNum 5)]),
     (''minuteCloseMaxAgeMs'', JNum 1000), (''gapPolicy'', JStr ''reset''), (''feeBps'', JNum 10), (''slippageBps'', JNum 5),
     (''initialCash6'', JStr ''1000''), (''limits'', JObj [(''mode'', JStr ''percent''), (''lowerBps'', JNum (- 500)), (''upperBps'', JNull)])]"

theorem paper_conservation_witness:
  "\<exists>s. createPaper demo_paper_config = Inr s \<and>
     (let t = run_inputs (paper_step demo_ref_env) s [PI_fund Fund_in ''500'' 7, PI_fund Fund_out ''2000'' 8, PI_stop 9] in
      ps_cash6 t = 1500 \<and> ps_status t = P_stopped \<and> ps_cash6 t + paper_costs t = ps_netContributed6 t + ps_realizedPnl6 t)"
proof -
  have "case createPaper demo_paper_config of Inl e \<Rightarrow> False | Inr s \<Rightarrow>
      (let t = run_inputs (paper_step demo_ref_env) s [PI_fund Fund_in ''500'' 7, PI_fund Fund_out ''2000'' 8, PI_stop 9] in
       ps_cash6 t = 1500 \<and> ps_status t = P_stopped)" by code_simp
  then obtain s where s: "createPaper demo_paper_config = Inr s"
    and t: "let t = run_inputs (paper_step demo_ref_env) s [PI_fund Fund_in ''500'' 7, PI_fund Fund_out ''2000'' 8, PI_stop 9] in
       ps_cash6 t = 1500 \<and> ps_status t = P_stopped" by (auto split: sum.splits)
  have "paper_start s" using s unfolding paper_start_def by blast
  then have "reaches paper_start (paper_step demo_ref_env)
      (run_inputs (paper_step demo_ref_env) s [PI_fund Fund_in ''500'' 7, PI_fund Fund_out ''2000'' 8, PI_stop 9])"
    by (intro paper.run_reaches reach_init)
  from paper_conservation[OF this] s t show ?thesis unfolding Let_def by blast
qed

definition demo_budget_state :: paper_state where
  "demo_budget_state = \<lparr>
     ps_config = \<lparr>pc_market = \<lparr>bp_selections = [], bp_maxAgeMs = 10, bp_maxQuoteSkewMs = 0, bp_maxCaptureSpanMs = 5\<rparr>,
       pc_minuteCloseMaxAgeMs = 1000, pc_reset = False, pc_feeBps = 100, pc_slippageBps = 0, pc_initialCash6 = 300, pc_limits = PL_off\<rparr>,
     ps_clock = 9, ps_status = P_running, ps_trigger = None, ps_cash6 = 300, ps_positions = [(''x'', \<lparr>pp_quantity18 = 0, pp_cost6 = 0\<rparr>)],
     ps_quotes = [(''x'', demo_minute_obs ''x'' 5\<lparr>ob_tokenBidUsd18 := ''5'' @ replicate 29 CHR ''0'', ob_tokenAskUsd18 := ''5'' @ replicate 29 CHR ''0''\<rparr>)],
     ps_netContributed6 = 300, ps_fees6 = 0, ps_realizedPnl6 = 0, ps_units = (300, 1), ps_emptyValue = (1, 1),
     ps_minutes = demo_minutes, ps_emas = [], ps_closedMinutes = 0, ps_fills = 0\<rparr>"

theorem buy_budget_found_witness:
  "\<exists>q. buyBudget demo_budget_state ''x'' = Inr q \<and> 0 < q \<and> withinCap demo_budget_state ''x'' q = Inr True \<and>
     withinCap demo_budget_state ''x'' (q + 1) = Inr False"
proof -
  have "tradeNumbers demo_budget_state ''x'' Buy 1 = Inr (5 * 10 ^ 29, 1, 1)" by code_simp
  moreover have "valuation demo_budget_state = Inr 300" by code_simp
  moreover have "0 \<le> ps_cash6 demo_budget_state" by code_simp
  ultimately obtain q where q: "buyBudget demo_budget_state ''x'' = Inr q" "0 \<le> q" "q \<le> 600"
    "q = 0 \<or> withinCap demo_budget_state ''x'' q = Inr True" "q = 600 \<or> withinCap demo_budget_state ''x'' (q + 1) = Inr False"
    using buy_budget_found[of demo_budget_state "''x''" "5 * 10 ^ 29" 1 1 300 600]
    by (auto simp: demo_budget_state_def VALUE_SCALE_def PAPER_MAX_def)
  moreover have "withinCap demo_budget_state ''x'' 600 = Inr False" "withinCap demo_budget_state ''x'' 1 = Inr True" by code_simp+
  ultimately show ?thesis by (cases "q = 0"; cases "q = 600") auto
qed

end
