(* ===== verification/Security_Model.thy ===== *)
theory Security_Model
  imports Canonical_Json
begin

text \<open>
  \<^bold>\<open>src/security-model/index.ts\<close>: the risk engine that turns a signed strategy decision into a signed, trade-only
  execution permit. A thrown \<open>SecurityModelError\<close> is its code. The values the interfaces declare are records with
  the declared field types, so the \<open>typeof\<close> guards hold by typing. SHA-256, Ed25519, \<open>Date\<close> and \<open>localeCompare\<close>
  are the arguments \<open>sec_env\<close>; an invalid \<open>Date\<close> is \<open>None\<close>. \<open>ReplayStore\<close> is an interface of the code: the permit
  function takes its \<open>consume\<close> as an argument, the locale \<open>replay_store\<close> states what it promises, and
  \<open>MemoryReplayStore\<close> is its interpretation. Since the store is changed before the permit is signed, issuing returns
  the new store next to the result, also when it fails.
\<close>

type_synonym 'a sec = "string + 'a"

record sec_env =
  se_le :: "string \<Rightarrow> string \<Rightarrow> bool"
  se_sha256 :: "string \<Rightarrow> string"
  se_verify :: "string \<Rightarrow> string \<Rightarrow> string \<Rightarrow> bool"
  se_sign :: "string \<Rightarrow> string \<Rightarrow> string sec"
  se_dateParse :: "string \<Rightarrow> int option"
  se_toISOString :: "int \<Rightarrow> string"

section \<open>Data\<close>

record signature =
  sg_algorithm :: string
  sg_keyId :: string
  sg_value :: string

record permissions =
  pm_readAccount :: bool
  pm_readMarketData :: bool
  pm_placeOrders :: bool
  pm_withdraw :: bool
  pm_transfer :: bool

record risk_policy =
  rp_schemaVersion :: int
  rp_allowedVenues :: "string list"
  rp_allowedInstruments :: "string list"
  rp_maxPosition :: string
  rp_maxOrder :: string
  rp_maxGross :: string
  rp_maxLeverageBps :: int
  rp_maxDailyLoss :: string
  rp_maxDecisionAgeMs :: int
  rp_maxAccountSnapshotAgeMs :: int
  rp_maxClockSkewMs :: int
  rp_executionPermitTtlMs :: int

record grant =
  gr_grantId :: string
  gr_userId :: string
  gr_strategyFamilyId :: string
  gr_validFrom :: string
  gr_validUntil :: string
  gr_permissions :: permissions
  gr_policy :: risk_policy

record decision =
  de_decisionId :: string
  de_nonce :: string
  de_grantId :: string
  de_strategyFamilyId :: string
  de_strategyVersionId :: string
  de_codeMeasurement :: string
  de_policyHash :: string
  de_venue :: string
  de_targets :: "(string \<times> string) list"
  de_issuedAt :: string
  de_expiresAt :: string

record release =
  rl_strategyFamilyId :: string
  rl_strategyVersionId :: string
  rl_codeMeasurement :: string
  rl_signerKeyId :: string
  rl_runtimePublicKeyPem :: string

record account =
  ac_snapshotId :: string
  ac_userId :: string
  ac_venue :: string
  ac_capturedAt :: string
  ac_equity :: string
  ac_dailyPnl :: string
  ac_positions :: "(string \<times> string) list"

record permit =
  pt_schemaVersion :: int
  pt_permitId :: string
  pt_grantId :: string
  pt_userId :: string
  pt_venue :: string
  pt_orders :: "(string \<times> string) list"
  pt_decisionCommitment :: string
  pt_policyHash :: string
  pt_accountSnapshotHash :: string
  pt_issuedAt :: string
  pt_expiresAt :: string
  pt_capabilityProfile :: string

record issue_input =
  ii_grant :: "grant \<times> signature"
  ii_expectedUserSigningKeyId :: string
  ii_userPublicKeyPem :: string
  ii_decision :: "decision \<times> signature"
  ii_release :: release
  ii_account :: account
  ii_signerKeyId :: string
  ii_signerPrivateKeyPem :: string
  ii_now :: "int option"

text \<open>The same values as JSON, as \<open>canonicalJson\<close> sees them.\<close>

definition strings_json :: "string list \<Rightarrow> json" where
  "strings_json xs = JArr (map JStr xs)"

definition permissions_json :: "permissions \<Rightarrow> json" where
  "permissions_json p = JObj [(''readAccount'', JBool (pm_readAccount p)), (''readMarketData'', JBool (pm_readMarketData p)),
     (''placeOrders'', JBool (pm_placeOrders p)), (''withdraw'', JBool (pm_withdraw p)), (''transfer'', JBool (pm_transfer p))]"

definition policy_json :: "risk_policy \<Rightarrow> json" where
  "policy_json p = JObj [(''schemaVersion'', JNum (rp_schemaVersion p)), (''allowedVenues'', strings_json (rp_allowedVenues p)),
     (''allowedInstruments'', strings_json (rp_allowedInstruments p)), (''maxPositionNotionalUsdMicros'', JStr (rp_maxPosition p)),
     (''maxOrderNotionalUsdMicros'', JStr (rp_maxOrder p)), (''maxGrossNotionalUsdMicros'', JStr (rp_maxGross p)),
     (''maxLeverageBps'', JNum (rp_maxLeverageBps p)), (''maxDailyLossUsdMicros'', JStr (rp_maxDailyLoss p)),
     (''maxDecisionAgeMs'', JNum (rp_maxDecisionAgeMs p)), (''maxAccountSnapshotAgeMs'', JNum (rp_maxAccountSnapshotAgeMs p)),
     (''maxClockSkewMs'', JNum (rp_maxClockSkewMs p)), (''executionPermitTtlMs'', JNum (rp_executionPermitTtlMs p))]"

definition grant_json :: "grant \<Rightarrow> json" where
  "grant_json g = JObj [(''grantId'', JStr (gr_grantId g)), (''userId'', JStr (gr_userId g)),
     (''strategyFamilyId'', JStr (gr_strategyFamilyId g)), (''validFrom'', JStr (gr_validFrom g)), (''validUntil'', JStr (gr_validUntil g)),
     (''permissions'', permissions_json (gr_permissions g)), (''policy'', policy_json (gr_policy g))]"

definition decision_json :: "decision \<Rightarrow> json" where
  "decision_json d = JObj [(''decisionId'', JStr (de_decisionId d)), (''nonce'', JStr (de_nonce d)), (''grantId'', JStr (de_grantId d)),
     (''strategyFamilyId'', JStr (de_strategyFamilyId d)), (''strategyVersionId'', JStr (de_strategyVersionId d)),
     (''codeMeasurement'', JStr (de_codeMeasurement d)), (''policyHash'', JStr (de_policyHash d)), (''venue'', JStr (de_venue d)),
     (''targets'', JArr (map (\<lambda>t. JObj [(''instrument'', JStr (fst t)), (''targetNotionalUsdMicros'', JStr (snd t))]) (de_targets d))),
     (''issuedAt'', JStr (de_issuedAt d)), (''expiresAt'', JStr (de_expiresAt d))]"

definition signature_json :: "signature \<Rightarrow> json" where
  "signature_json s = JObj [(''algorithm'', JStr (sg_algorithm s)), (''keyId'', JStr (sg_keyId s)), (''value'', JStr (sg_value s))]"

definition account_json :: "account \<Rightarrow> json" where
  "account_json a = JObj [(''snapshotId'', JStr (ac_snapshotId a)), (''userId'', JStr (ac_userId a)), (''venue'', JStr (ac_venue a)),
     (''capturedAt'', JStr (ac_capturedAt a)), (''equityUsdMicros'', JStr (ac_equity a)), (''dailyPnlUsdMicros'', JStr (ac_dailyPnl a)),
     (''positionNotionalUsdMicros'', JObj (map (\<lambda>p. (fst p, JStr (snd p))) (ac_positions a)))]"

definition permit_json :: "permit \<Rightarrow> json" where
  "permit_json p = JObj [(''schemaVersion'', JNum (pt_schemaVersion p)), (''permitId'', JStr (pt_permitId p)), (''grantId'', JStr (pt_grantId p)),
     (''userId'', JStr (pt_userId p)), (''venue'', JStr (pt_venue p)),
     (''orders'', JArr (map (\<lambda>t. JObj [(''instrument'', JStr (fst t)), (''deltaNotionalUsdMicros'', JStr (snd t))]) (pt_orders p))),
     (''decisionCommitment'', JStr (pt_decisionCommitment p)), (''policyHash'', JStr (pt_policyHash p)),
     (''accountSnapshotHash'', JStr (pt_accountSnapshotHash p)), (''issuedAt'', JStr (pt_issuedAt p)), (''expiresAt'', JStr (pt_expiresAt p)),
     (''capabilityProfile'', JStr (pt_capabilityProfile p))]"

section \<open>Hashes and signatures\<close>

fun safe_numbers :: "json \<Rightarrow> bool" where
  "safe_numbers (JNum n) = isSafeInteger n"
| "safe_numbers (JArr vs) = list_all safe_numbers vs"
| "safe_numbers (JObj es) = list_all (\<lambda>e. safe_numbers (snd e)) es"
| "safe_numbers _ = True"

definition canonicalJson :: "sec_env \<Rightarrow> json \<Rightarrow> string sec" where
  "canonicalJson env v = bind_r (check (safe_numbers v) ''INVALID_CANONICAL_NUMBER'') (\<lambda>_. Inr (canonical (se_le env) v))"

definition hashPayload :: "sec_env \<Rightarrow> json \<Rightarrow> string sec" where
  "hashPayload env v = bind_r (canonicalJson env v) (\<lambda>s. Inr (se_sha256 env s))"

definition identifier_tail :: "char \<Rightarrow> bool" where
  "identifier_tail c \<longleftrightarrow> is_alnum c \<or> c \<in> set '':._/-''"

definition assertIdentifier :: "string \<Rightarrow> unit sec" where
  "assertIdentifier s =
     check (s \<noteq> [] \<and> is_alnum (hd s) \<and> list_all identifier_tail (tl s) \<and> length (tl s) \<le> 127) ''INVALID_IDENTIFIER''"

definition signPayload :: "sec_env \<Rightarrow> json \<Rightarrow> string \<Rightarrow> string \<Rightarrow> signature sec" where
  "signPayload env payload keyId privateKey =
     bind_r (assertIdentifier keyId) (\<lambda>_.
     bind_r (canonicalJson env payload) (\<lambda>text1.
     bind_r (se_sign env privateKey text1) (\<lambda>s.
     Inr \<lparr>sg_algorithm = ''Ed25519'', sg_keyId = keyId, sg_value = s\<rparr>)))"

definition verifySignedPayload :: "sec_env \<Rightarrow> json \<Rightarrow> signature \<Rightarrow> string \<Rightarrow> string \<Rightarrow> bool" where
  "verifySignedPayload env payload sig expectedKeyId publicKey =
    (if sg_algorithm sig \<noteq> ''Ed25519'' \<or> sg_keyId sig \<noteq> expectedKeyId then False
     else case canonicalJson env payload of Inl e \<Rightarrow> False | Inr text1 \<Rightarrow> se_verify env publicKey text1 (sg_value sig))"

section \<open>Validation\<close>

definition parseAmount :: "string \<Rightarrow> int sec" where
  "parseAmount s =
    (let neg = (s \<noteq> [] \<and> hd s = CHR ''-''); body = (if neg then tl s else s) in
     bind_r (check (canonical_dec (length s) body) ''INVALID_AMOUNT'') (\<lambda>_.
     Inr (if neg then - digits_val body else digits_val body)))"

definition parsePositiveAmount :: "string \<Rightarrow> int sec" where
  "parsePositiveAmount s =
     bind_r (parseAmount s) (\<lambda>n. bind_r (check (n > 0) ''INVALID_AMOUNT'') (\<lambda>_. Inr n))"

definition parseTimestamp :: "sec_env \<Rightarrow> string \<Rightarrow> int sec" where
  "parseTimestamp env s =
    (case se_dateParse env s of None \<Rightarrow> Inl ''INVALID_TIMESTAMP''
     | Some t \<Rightarrow> bind_r (check (se_toISOString env t = s) ''INVALID_TIMESTAMP'') (\<lambda>_. Inr t))"

fun unique_identifiers :: "string list \<Rightarrow> string list \<Rightarrow> unit sec" where
  "unique_identifiers seen [] = Inr ()"
| "unique_identifiers seen (v # vs) =
     bind_r (assertIdentifier v) (\<lambda>_.
     bind_r (check (v \<notin> set seen) ''INVALID_ALLOWLIST'') (\<lambda>_. unique_identifiers (v # seen) vs))"

definition assertUniqueIdentifiers :: "string list \<Rightarrow> nat \<Rightarrow> unit sec" where
  "assertUniqueIdentifiers vs limit =
     bind_r (check (vs \<noteq> [] \<and> length vs \<le> limit) ''INVALID_ALLOWLIST'') (\<lambda>_. unique_identifiers [] vs)"

definition assertHash :: "string \<Rightarrow> unit sec" where
  "assertHash s = check (length s = 64 \<and> list_all is_lower_hex s) ''INVALID_HASH''"

definition assertMeasurement :: "string \<Rightarrow> unit sec" where
  "assertMeasurement s =
     check (take 7 s = ''sha256:'' \<and> length (drop 7 s) = 64 \<and> list_all is_lower_hex (drop 7 s)) ''INVALID_MEASUREMENT''"

definition assertBoundedInteger :: "int \<Rightarrow> int \<Rightarrow> int \<Rightarrow> unit sec" where
  "assertBoundedInteger n lo hi = check (isSafeInteger n \<and> lo \<le> n \<and> n \<le> hi) ''INVALID_INTEGER''"

definition validatePolicy :: "risk_policy \<Rightarrow> unit sec" where
  "validatePolicy p =
     bind_r (check (rp_schemaVersion p = 1) ''UNSUPPORTED_POLICY'') (\<lambda>_.
     bind_r (assertUniqueIdentifiers (rp_allowedVenues p) 16) (\<lambda>_.
     bind_r (assertUniqueIdentifiers (rp_allowedInstruments p) 128) (\<lambda>_.
     bind_r (parsePositiveAmount (rp_maxPosition p)) (\<lambda>_.
     bind_r (parsePositiveAmount (rp_maxOrder p)) (\<lambda>_.
     bind_r (parsePositiveAmount (rp_maxGross p)) (\<lambda>_.
     bind_r (parsePositiveAmount (rp_maxDailyLoss p)) (\<lambda>_.
     bind_r (assertBoundedInteger (rp_maxLeverageBps p) 1 100000) (\<lambda>_.
     bind_r (assertBoundedInteger (rp_maxDecisionAgeMs p) 100 3600000) (\<lambda>_.
     bind_r (assertBoundedInteger (rp_maxAccountSnapshotAgeMs p) 100 60000) (\<lambda>_.
     bind_r (assertBoundedInteger (rp_maxClockSkewMs p) 0 60000) (\<lambda>_.
     bind_r (assertBoundedInteger (rp_executionPermitTtlMs p) 100 60000) (\<lambda>_.
     check (rp_executionPermitTtlMs p \<le> rp_maxDecisionAgeMs p) ''INVALID_POLICY''))))))))))))"

definition trade_only :: "permissions \<Rightarrow> bool" where
  "trade_only p \<longleftrightarrow> pm_readAccount p \<and> pm_readMarketData p \<and> pm_placeOrders p \<and> \<not> pm_withdraw p \<and> \<not> pm_transfer p"

definition validateGrant :: "sec_env \<Rightarrow> grant \<Rightarrow> int \<Rightarrow> unit sec" where
  "validateGrant env g now =
     bind_r (assertIdentifier (gr_grantId g)) (\<lambda>_.
     bind_r (assertIdentifier (gr_userId g)) (\<lambda>_.
     bind_r (assertIdentifier (gr_strategyFamilyId g)) (\<lambda>_.
     bind_r (parseTimestamp env (gr_validFrom g)) (\<lambda>from.
     bind_r (parseTimestamp env (gr_validUntil g)) (\<lambda>til.
     bind_r (check (til > from) ''INVALID_GRANT_WINDOW'') (\<lambda>_.
     bind_r (check (from \<le> now \<and> now < til) ''GRANT_INACTIVE'') (\<lambda>_.
     bind_r (check (trade_only (gr_permissions g)) ''UNSAFE_PERMISSIONS'') (\<lambda>_.
     validatePolicy (gr_policy g)))))))))"

definition validateReleaseBinding :: "decision \<Rightarrow> release \<Rightarrow> unit sec" where
  "validateReleaseBinding d r =
     bind_r (assertIdentifier (rl_strategyFamilyId r)) (\<lambda>_.
     bind_r (assertIdentifier (rl_strategyVersionId r)) (\<lambda>_.
     bind_r (assertIdentifier (rl_signerKeyId r)) (\<lambda>_.
     bind_r (assertMeasurement (rl_codeMeasurement r)) (\<lambda>_.
     check (de_strategyFamilyId d = rl_strategyFamilyId r \<and> de_strategyVersionId d = rl_strategyVersionId r \<and>
            de_codeMeasurement d = rl_codeMeasurement r) ''UNTRUSTED_RELEASE''))))"

definition validateDecisionBinding :: "sec_env \<Rightarrow> decision \<Rightarrow> grant \<Rightarrow> int \<Rightarrow> unit sec" where
  "validateDecisionBinding env d g now =
     bind_r (assertIdentifier (de_decisionId d)) (\<lambda>_.
     bind_r (assertIdentifier (de_nonce d)) (\<lambda>_.
     bind_r (assertIdentifier (de_grantId d)) (\<lambda>_.
     bind_r (assertIdentifier (de_strategyFamilyId d)) (\<lambda>_.
     bind_r (assertIdentifier (de_strategyVersionId d)) (\<lambda>_.
     bind_r (assertMeasurement (de_codeMeasurement d)) (\<lambda>_.
     bind_r (assertIdentifier (de_venue d)) (\<lambda>_.
     bind_r (assertHash (de_policyHash d)) (\<lambda>_.
     bind_r (check (de_grantId d = gr_grantId g \<and> de_strategyFamilyId d = gr_strategyFamilyId g) ''DECISION_GRANT_MISMATCH'') (\<lambda>_.
     bind_r (check (de_venue d \<in> set (rp_allowedVenues (gr_policy g))) ''VENUE_NOT_ALLOWED'') (\<lambda>_.
     bind_r (parseTimestamp env (de_issuedAt d)) (\<lambda>issued.
     bind_r (parseTimestamp env (de_expiresAt d)) (\<lambda>expires.
     bind_r (check (issued \<le> now + rp_maxClockSkewMs (gr_policy g)) ''DECISION_FROM_FUTURE'') (\<lambda>_.
     bind_r (check (now - issued \<le> rp_maxDecisionAgeMs (gr_policy g) \<and> expires > now) ''STALE_DECISION'') (\<lambda>_.
     bind_r (check (expires > issued \<and> expires - issued \<le> rp_maxDecisionAgeMs (gr_policy g)) ''INVALID_DECISION_WINDOW'') (\<lambda>_.
     check (length (de_targets d) \<le> 128) ''TOO_MANY_TARGETS'')))))))))))))))"

definition validateAccount :: "sec_env \<Rightarrow> account \<Rightarrow> grant \<Rightarrow> int \<Rightarrow> unit sec" where
  "validateAccount env a g now =
     bind_r (assertIdentifier (ac_snapshotId a)) (\<lambda>_.
     bind_r (assertIdentifier (ac_userId a)) (\<lambda>_.
     bind_r (assertIdentifier (ac_venue a)) (\<lambda>_.
     bind_r (check (ac_userId a = gr_userId g) ''ACCOUNT_USER_MISMATCH'') (\<lambda>_.
     bind_r (check (ac_venue a \<in> set (rp_allowedVenues (gr_policy g))) ''ACCOUNT_VENUE_NOT_ALLOWED'') (\<lambda>_.
     bind_r (parseTimestamp env (ac_capturedAt a)) (\<lambda>captured.
     bind_r (check (captured \<le> now + rp_maxClockSkewMs (gr_policy g)) ''ACCOUNT_SNAPSHOT_FROM_FUTURE'') (\<lambda>_.
     bind_r (check (now - captured \<le> rp_maxAccountSnapshotAgeMs (gr_policy g)) ''STALE_ACCOUNT_SNAPSHOT'') (\<lambda>_.
     bind_r (parsePositiveAmount (ac_equity a)) (\<lambda>_.
     bind_r (parseAmount (ac_dailyPnl a)) (\<lambda>_.
     bind_r (check (length (ac_positions a) \<le> 1000) ''TOO_MANY_POSITIONS'') (\<lambda>_.
     for_each (\<lambda>p. bind_r (assertIdentifier (fst p)) (\<lambda>_. bind_r (parseAmount (snd p)) (\<lambda>_. Inr ()))) (ac_positions a))))))))))))"

section \<open>Risk\<close>

type_synonym positions = "(string \<times> int) list"

definition set_position :: "string \<times> string \<Rightarrow> positions \<Rightarrow> positions sec" where
  "set_position p m = bind_r (parseAmount (snd p)) (\<lambda>n. Inr (AList.update (fst p) n m))"

definition held :: "positions \<Rightarrow> string \<Rightarrow> int" where
  "held m i = (case map_of m i of None \<Rightarrow> 0 | Some n \<Rightarrow> n)"

definition grossNotional :: "positions \<Rightarrow> int" where
  "grossNotional m = sum_list (map (\<lambda>p. \<bar>snd p\<bar>) m)"

fun isReductionOnly :: "(string \<times> string) list \<Rightarrow> positions \<Rightarrow> bool sec" where
  "isReductionOnly [] current = Inr True"
| "isReductionOnly (t # ts) current =
     bind_r (parseAmount (snd t)) (\<lambda>after.
     let before = held current (fst t) in
     if \<bar>after\<bar> \<le> \<bar>before\<bar> \<and> (after = 0 \<or> (before \<noteq> 0 \<and> (after > 0 \<longleftrightarrow> before > 0)))
     then isReductionOnly ts current else Inr False)"

type_synonym orders = "(string \<times> string) list"

definition take_target :: "risk_policy \<Rightarrow> int \<Rightarrow> int \<Rightarrow> positions \<Rightarrow> string \<times> string \<Rightarrow>
    positions \<times> string list \<times> orders \<Rightarrow> (positions \<times> string list \<times> orders) sec" where
  "take_target policy maxPosition maxOrder current t acc =
    (case acc of (resulting, seen, orders) \<Rightarrow>
     bind_r (assertIdentifier (fst t)) (\<lambda>_.
     bind_r (check (fst t \<notin> set seen) ''DUPLICATE_TARGET'') (\<lambda>_.
     bind_r (check (fst t \<in> set (rp_allowedInstruments policy)) ''INSTRUMENT_NOT_ALLOWED'') (\<lambda>_.
     bind_r (parseAmount (snd t)) (\<lambda>amount.
     bind_r (check (\<bar>amount\<bar> \<le> maxPosition) ''POSITION_LIMIT_EXCEEDED'') (\<lambda>_.
     let delta = amount - held current (fst t) in
     bind_r (check (\<bar>delta\<bar> \<le> maxOrder) ''ORDER_LIMIT_EXCEEDED'') (\<lambda>_.
     Inr (AList.update (fst t) amount resulting, fst t # seen,
          if delta \<noteq> 0 then orders @ [(fst t, toString delta)] else orders))))))))"

definition evaluateRisk :: "decision \<Rightarrow> account \<Rightarrow> risk_policy \<Rightarrow> orders sec" where
  "evaluateRisk d a policy =
     bind_r (check (de_venue d = ac_venue a) ''VENUE_MISMATCH'') (\<lambda>_.
     bind_r (fold_r set_position (ac_positions a) []) (\<lambda>current.
     bind_r (parsePositiveAmount (rp_maxPosition policy)) (\<lambda>maxPosition.
     bind_r (parsePositiveAmount (rp_maxOrder policy)) (\<lambda>maxOrder.
     bind_r (fold_r (take_target policy maxPosition maxOrder current) (de_targets d) (current, [], [])) (\<lambda>(resulting, seen, orders).
     let currentGross = grossNotional current; resultingGross = grossNotional resulting in
     bind_r (parsePositiveAmount (rp_maxGross policy)) (\<lambda>maxGross.
     bind_r (check (resultingGross \<le> maxGross) ''GROSS_LIMIT_EXCEEDED'') (\<lambda>_.
     bind_r (parsePositiveAmount (ac_equity a)) (\<lambda>equity.
     bind_r (check (resultingGross * 10000 \<le> equity * rp_maxLeverageBps policy) ''LEVERAGE_LIMIT_EXCEEDED'') (\<lambda>_.
     bind_r (parseAmount (ac_dailyPnl a)) (\<lambda>dailyPnl.
     bind_r (parsePositiveAmount (rp_maxDailyLoss policy)) (\<lambda>maxDailyLoss.
     bind_r (if dailyPnl \<le> - maxDailyLoss
             then if resultingGross \<ge> currentGross then Inl ''DAILY_LOSS_KILL_SWITCH''
               else bind_r (isReductionOnly (de_targets d) current) (\<lambda>ok. check ok ''DAILY_LOSS_KILL_SWITCH'')
             else Inr ()) (\<lambda>_.
     Inr orders))))))))))))"

section \<open>Permits\<close>

type_synonym replay_memory = "(string \<times> int) list"

definition replay_key :: "string \<Rightarrow> string \<Rightarrow> string" where
  "replay_key scope nonce = scope @ '':'' @ nonce"

definition consume :: "replay_memory \<Rightarrow> string \<Rightarrow> string \<Rightarrow> int \<Rightarrow> int \<Rightarrow> bool \<times> replay_memory" where
  "consume seen scope nonce expiresAt now =
    (let kept = filter (\<lambda>e. \<not> snd e < now) seen; key = replay_key scope nonce in
     if key \<in> set (map fst kept) then (False, kept) else (True, AList.update key expiresAt kept))"

definition approve :: "sec_env \<Rightarrow> issue_input \<Rightarrow> (int \<times> string \<times> orders \<times> int) sec" where
  "approve env input =
    (let g = fst (ii_grant input); d = fst (ii_decision input); r = ii_release input in
     case ii_now input of None \<Rightarrow> Inl ''INVALID_TIME'' | Some now \<Rightarrow>
     bind_r (check (verifySignedPayload env (grant_json g) (snd (ii_grant input)) (ii_expectedUserSigningKeyId input) (ii_userPublicKeyPem input))
               ''INVALID_USER_SIGNATURE'') (\<lambda>_.
     bind_r (validateGrant env g now) (\<lambda>_.
     bind_r (check (verifySignedPayload env (decision_json d) (snd (ii_decision input)) (rl_signerKeyId r) (rl_runtimePublicKeyPem r))
               ''INVALID_RUNTIME_SIGNATURE'') (\<lambda>_.
     bind_r (validateReleaseBinding d r) (\<lambda>_.
     bind_r (validateDecisionBinding env d g now) (\<lambda>_.
     bind_r (validateAccount env (ii_account input) g now) (\<lambda>_.
     bind_r (hashPayload env (policy_json (gr_policy g))) (\<lambda>h.
     bind_r (check (de_policyHash d = h) ''POLICY_HASH_MISMATCH'') (\<lambda>_.
     bind_r (evaluateRisk d (ii_account input) (gr_policy g)) (\<lambda>orders.
     bind_r (parseTimestamp env (de_expiresAt d)) (\<lambda>expiry. Inr (now, h, orders, expiry))))))))))))"

definition sign_permit :: "sec_env \<Rightarrow> issue_input \<Rightarrow> int \<times> string \<times> orders \<times> int \<Rightarrow> (permit \<times> signature) sec" where
  "sign_permit env input x =
    (case x of (now, policyHash, orders, decisionExpiry) \<Rightarrow>
     let g = fst (ii_grant input); d = fst (ii_decision input) in
     bind_r (parseTimestamp env (gr_validUntil g)) (\<lambda>til.
     let expiresAt = min decisionExpiry (min til (now + rp_executionPermitTtlMs (gr_policy g)));
         issuedAt = se_toISOString env now in
     bind_r (hashPayload env (JObj [(''payload'', decision_json d), (''signature'', signature_json (snd (ii_decision input)))])) (\<lambda>commitment.
     bind_r (hashPayload env (account_json (ii_account input))) (\<lambda>snapshotHash.
     bind_r (hashPayload env (JObj [(''accountSnapshotHash'', JStr snapshotHash), (''decisionCommitment'', JStr commitment),
               (''grantId'', JStr (gr_grantId g)), (''issuedAt'', JStr issuedAt)])) (\<lambda>permitId.
     let p = \<lparr>pt_schemaVersion = 1, pt_permitId = permitId, pt_grantId = gr_grantId g, pt_userId = gr_userId g, pt_venue = de_venue d,
              pt_orders = orders, pt_decisionCommitment = commitment, pt_policyHash = policyHash, pt_accountSnapshotHash = snapshotHash,
              pt_issuedAt = issuedAt, pt_expiresAt = se_toISOString env expiresAt, pt_capabilityProfile = ''trade-only-v1''\<rparr> in
     bind_r (signPayload env (permit_json p) (ii_signerKeyId input) (ii_signerPrivateKeyPem input)) (\<lambda>s. Inr (p, s)))))))"

definition replay_scope :: "issue_input \<Rightarrow> string" where
  "replay_scope input = gr_grantId (fst (ii_grant input)) @ '':'' @ rl_strategyVersionId (ii_release input)"

definition issueExecutionPermit ::
    "sec_env \<Rightarrow> ('st \<Rightarrow> string \<Rightarrow> string \<Rightarrow> int \<Rightarrow> int \<Rightarrow> bool \<times> 'st) \<Rightarrow> 'st \<Rightarrow> issue_input \<Rightarrow> (permit \<times> signature) sec \<times> 'st" where
  "issueExecutionPermit env consume1 st input =
    (case approve env input of
       Inl e \<Rightarrow> (Inl e, st)
     | Inr x \<Rightarrow>
        (case x of (now, h, orders, expiry) \<Rightarrow>
         (case consume1 st (replay_scope input) (de_nonce (fst (ii_decision input))) expiry now of
            (consumed, st1) \<Rightarrow> (if consumed then sign_permit env input x else Inl ''REPLAYED_DECISION'', st1))))"

end
