(* ===== verification/Security_Properties.thy ===== *)
theory Security_Properties
  imports Security_Model
begin

text \<open>
  What a permit means. The locale \<open>replay_store\<close> is the contract of the code's \<open>ReplayStore\<close> interface: a consumed nonce
  is remembered until its expiry. From it follows that one decision never yields two permits while the clock does
  not run backwards; \<open>MemoryReplayStore\<close> is shown to meet the contract. \<open>risk_limits_hold\<close> states the limits in terms of
  the orders that stand in the signed permit.
\<close>

section \<open>Replay\<close>

lemma issue_Inr:
  assumes "issueExecutionPermit env consume1 st input = (Inr ps, st1)"
  obtains now h orders expiry where "approve env input = Inr (now, h, orders, expiry)"
    "consume1 st (replay_scope input) (de_nonce (fst (ii_decision input))) expiry now = (True, st1)"
    "sign_permit env input (now, h, orders, expiry) = Inr ps"
  using assms by (auto simp: issueExecutionPermit_def split: sum.splits prod.splits if_splits)

lemma approve_facts:
  assumes "approve env input = Inr (now, h, orders, expiry)"
  shows "ii_now input = Some now" "parseTimestamp env (de_expiresAt (fst (ii_decision input))) = Inr expiry" "now < expiry"
    "de_grantId (fst (ii_decision input)) = gr_grantId (fst (ii_grant input))"
    "de_strategyVersionId (fst (ii_decision input)) = rl_strategyVersionId (ii_release input)"
    "evaluateRisk (fst (ii_decision input)) (ii_account input) (gr_policy (fst (ii_grant input))) = Inr orders"
    "trade_only (gr_permissions (fst (ii_grant input)))"
  using assms
  by (auto simp: approve_def Let_def bind_r_Inr validateDecisionBinding_def validateReleaseBinding_def validateGrant_def
      check_Inr split: option.splits if_splits)

fun run_issues :: "sec_env \<Rightarrow> ('st \<Rightarrow> string \<Rightarrow> string \<Rightarrow> int \<Rightarrow> int \<Rightarrow> bool \<times> 'st) \<Rightarrow> 'st \<Rightarrow> issue_input list \<Rightarrow>
    (permit \<times> signature) sec list" where
  "run_issues env consume1 st [] = []"
| "run_issues env consume1 st (i # is) =
    (case issueExecutionPermit env consume1 st i of (r, st1) \<Rightarrow> r # run_issues env consume1 st1 is)"

lemma length_run_issues [simp]: "length (run_issues env c st is) = length is"
  by (induction "is" arbitrary: st) (auto split: prod.splits)

locale replay_store =
  fixes consume1 :: "'st \<Rightarrow> string \<Rightarrow> string \<Rightarrow> int \<Rightarrow> int \<Rightarrow> bool \<times> 'st"
    and remembers :: "'st \<Rightarrow> string \<Rightarrow> string \<Rightarrow> int \<Rightarrow> bool"
  assumes stores: "consume1 st scope nonce expiry now = (True, st1) \<Longrightarrow> remembers st1 scope nonce expiry"
    and keeps: "remembers st scope nonce expiry \<Longrightarrow> now \<le> expiry \<Longrightarrow> consume1 st scope' nonce' expiry' now = (ok, st1) \<Longrightarrow>
      remembers st1 scope nonce expiry"
    and refuses: "remembers st scope nonce expiry \<Longrightarrow> now \<le> expiry \<Longrightarrow> \<not> fst (consume1 st scope nonce expiry' now)"
begin

lemma issue_remembers:
  assumes "remembers st scope nonce e" and "\<And>t. ii_now input = Some t \<Longrightarrow> t \<le> e"
    and "issueExecutionPermit env consume1 st input = (r, st1)"
  shows "remembers st1 scope nonce e"
  using assms approve_facts(1)[of env input]
  by (auto simp: issueExecutionPermit_def split: sum.splits prod.splits if_splits intro: keeps)

lemma issue_refuses:
  assumes "remembers st scope nonce e" and "\<And>t. ii_now input = Some t \<Longrightarrow> t \<le> e"
    and "issueExecutionPermit env consume1 st input = (Inr ps, st1)"
  shows "\<not> (replay_scope input = scope \<and> de_nonce (fst (ii_decision input)) = nonce)"
  using assms(3) by (rule issue_Inr) (use refuses[OF assms(1)] assms(2) approve_facts(1)[of env input] in \<open>metis fst_conv\<close>)

lemma no_second_permit:
  assumes "remembers st scope nonce e" and "\<forall>k\<le>j. \<forall>t. ii_now (is ! k) = Some t \<longrightarrow> t \<le> e"
    and "j < length is" and "run_issues env consume1 st is ! j = Inr ps"
  shows "\<not> (replay_scope (is ! j) = scope \<and> de_nonce (fst (ii_decision (is ! j))) = nonce)"
  using assms
proof (induction "is" arbitrary: st j)
  case (Cons i "is")
  obtain r st1 where r: "issueExecutionPermit env consume1 st i = (r, st1)" by force
  have now: "t \<le> e" if "ii_now i = Some t" for t using Cons.prems(2) that by fastforce
  show ?case
  proof (cases j)
    case 0
    then show ?thesis using issue_refuses[OF Cons.prems(1) now] r Cons.prems(4) by simp
  next
    case (Suc k)
    show ?thesis using Cons.IH[OF issue_remembers[OF Cons.prems(1) now r], of k] Cons.prems(2-4) r Suc by fastforce
  qed
qed simp

lemma decision_once:
  assumes "map ii_now is = map Some clocks" and "sorted clocks" and "i < j" and "j < length is"
    and "run_issues env consume1 st is ! i = Inr p" and "run_issues env consume1 st is ! j = Inr q"
  shows "fst (ii_decision (is ! i)) \<noteq> fst (ii_decision (is ! j))"
  using assms
proof (induction "is" arbitrary: st i j clocks)
  case (Cons x "is")
  obtain r st1 where r: "issueExecutionPermit env consume1 st x = (r, st1)" by force
  obtain t ts where clocks: "clocks = t # ts" "ii_now x = Some t" "map ii_now is = map Some ts" "sorted ts"
    using Cons.prems(1,2) by auto
  obtain l where j: "j = Suc l" using Cons.prems(3) by (cases j) auto
  show ?case
  proof (cases i)
    case (Suc k)
    show ?thesis using Cons.IH[OF clocks(3,4), of k l st1] Cons.prems(3-6) r j Suc by simp
  next
    case 0
    define y where "y = is ! l"
    have l: "l < length is" using Cons.prems(4) j by simp
    have ry: "run_issues env consume1 st1 is ! l = Inr q" and rx: "r = Inr p" using Cons.prems(5,6) r j 0 by simp_all
    obtain now h orders e where a: "approve env x = Inr (now, h, orders, e)"
      "consume1 st (replay_scope x) (de_nonce (fst (ii_decision x))) e now = (True, st1)"
      using r rx by (metis issue_Inr)
    have tl: "ii_now (is ! k) = Some (ts ! k)" if "k < length is" for k
      using clocks(3) that by (metis length_map nth_map)
    have mono: "ts ! k \<le> ts ! l" if "k \<le> l" for k
      using clocks(3,4) l that by (metis length_map sorted_nth_mono)
    have "approved_at l" if "approved_at = (\<lambda>k. \<exists>n h os ey. approve env (is ! k) = Inr (n, h, os, ey))" for approved_at
      using ry l unfolding that
    proof (induction "is" arbitrary: l st1)
      case (Cons z zs)
      then show ?case by (cases l) (auto split: prod.splits elim!: issue_Inr)
    qed simp
    then obtain n2 h2 os2 ey where b: "approve env y = Inr (n2, h2, os2, ey)" by (auto simp: y_def)
    show ?thesis
    proof
      assume "fst (ii_decision ((x # is) ! i)) = fst (ii_decision ((x # is) ! j))"
      then have d: "fst (ii_decision x) = fst (ii_decision y)" by (simp add: 0 j y_def)
      have "ey = e" using approve_facts(2)[OF a(1)] approve_facts(2)[OF b] d by simp
      then have "ts ! l < e" using approve_facts(1,3)[OF b] tl[OF l] by (simp add: y_def)
      then have "\<forall>k\<le>l. \<forall>t. ii_now (is ! k) = Some t \<longrightarrow> t \<le> e" using tl mono l by force
      from no_second_permit[OF stores[OF a(2)] this l ry]
      show False using approve_facts(4,5)[OF a(1)] approve_facts(4,5)[OF b] d by (simp add: y_def replay_scope_def)
    qed
  qed
qed simp

end

definition remembers_memory :: "replay_memory \<Rightarrow> string \<Rightarrow> string \<Rightarrow> int \<Rightarrow> bool" where
  "remembers_memory seen scope nonce expiry \<longleftrightarrow> (\<exists>e. (replay_key scope nonce, e) \<in> set seen \<and> expiry \<le> e)"

interpretation memory: replay_store consume remembers_memory
proof unfold_locales
  fix st st1 :: replay_memory and scope nonce scope' nonce' :: string and expiry expiry' now :: int and ok :: bool
  show "remembers_memory st1 scope nonce expiry" if "consume st scope nonce expiry now = (True, st1)"
    using that by (auto simp: consume_def Let_def remembers_memory_def update_new split: if_splits)
  show "remembers_memory st1 scope nonce expiry"
    if "remembers_memory st scope nonce expiry" "now \<le> expiry" "consume st scope' nonce' expiry' now = (ok, st1)"
    using that by (force simp: consume_def Let_def remembers_memory_def update_new split: if_splits)
  show "\<not> fst (consume st scope nonce expiry' now)" if r: "remembers_memory st scope nonce expiry" "now \<le> expiry"
  proof -
    obtain e where "(replay_key scope nonce, e) \<in> set st" "\<not> e < now" using r by (auto simp: remembers_memory_def)
    then have "replay_key scope nonce \<in> set (map fst (filter (\<lambda>e. \<not> snd e < now) st))" by force
    then show ?thesis by (simp add: consume_def Let_def)
  qed
qed

text \<open>C10: a signed decision buys at most one permit. Whatever requests the risk engine serves from one memory replay
  store, as long as its clock does not run backwards, two requests that both obtained a permit carry different
  decisions: also when grant, release, account or signer differ between the two.\<close>

theorem decision_permit_once:
  assumes "map ii_now inputs = map Some clocks" and "sorted clocks" and "i < j" and "j < length inputs"
    and "run_issues env consume st inputs ! i = Inr p" and "run_issues env consume st inputs ! j = Inr q"
  shows "fst (ii_decision (inputs ! i)) \<noteq> fst (ii_decision (inputs ! j))"
  using assms by (rule memory.decision_once)

section \<open>Risk limits\<close>

definition amount_of :: "string \<Rightarrow> int" where
  "amount_of s = (case parseAmount s of Inl e \<Rightarrow> 0 | Inr n \<Rightarrow> n)"

definition apply_order :: "string \<times> string \<Rightarrow> positions \<Rightarrow> positions" where
  "apply_order x m = AList.update (fst x) (held m (fst x) + amount_of (snd x)) m"

lemma canonical_dec_printed: "0 \<le> n \<Longrightarrow> length (dec_digits n) \<le> Suc k \<Longrightarrow> canonical_dec k (dec_digits n)"
  using hd_dec_digits[of n] dec_digits_all[of n]
  by (cases "dec_digits n"; cases "n = 0") (auto simp: canonical_dec_def digit_char_def)

lemma parseAmount_toString [simp]: "parseAmount (toString n) = Inr n"
proof (cases "n < 0")
  case True
  then show ?thesis by (simp add: parseAmount_def toString_def canonical_dec_printed)
next
  case False
  have "hd (dec_digits n) \<noteq> CHR ''-''" using dec_digits_all[of n] by (cases "dec_digits n") auto
  then show ?thesis using False by (simp add: parseAmount_def toString_def canonical_dec_printed)
qed

lemma amount_of_toString [simp]: "amount_of (toString n) = n"
  by (simp add: amount_of_def)

lemma positive_amount: "parsePositiveAmount s = Inr n \<Longrightarrow> amount_of s = n"
  by (auto simp: parsePositiveAmount_def amount_of_def bind_r_Inr split: if_splits)

lemma held_update: "held (AList.update k v m) i = (if i = k then v else held m i)"
  by (simp add: held_def update_conv)

lemma gross_update:
  "distinct (map fst m) \<Longrightarrow> grossNotional (AList.update k v m) = grossNotional m - \<bar>held m k\<bar> + \<bar>v\<bar>"
  using sum_update[of m abs k v] by (simp add: grossNotional_def held_def comp_def split: option.splits)

text \<open>The loop over the targets: the code's map of resulting positions and the portfolio after executing the orders
  agree, for every instrument and in gross.\<close>

definition agree :: "risk_policy \<Rightarrow> int \<Rightarrow> int \<Rightarrow> orders \<Rightarrow> positions \<Rightarrow> positions \<times> string list \<times> orders \<Rightarrow> bool" where
  "agree policy maxPosition maxOrder targets current acc \<longleftrightarrow>
    (case acc of (resulting, seen, orders) \<Rightarrow>
       let after = fold apply_order orders current in
       distinct (map fst resulting) \<and> distinct (map fst after) \<and> grossNotional resulting = grossNotional after \<and>
       (\<forall>i. held resulting i = held after i) \<and> (\<forall>i. i \<notin> set seen \<longrightarrow> held after i = held current i) \<and>
       (\<forall>i\<in>set seen. \<exists>t\<in>set targets. fst t = i \<and> held after i = amount_of (snd t)) \<and>
       set (map fst orders) \<subseteq> set seen \<and> distinct (map fst orders) \<and>
       (\<forall>x\<in>set orders. fst x \<in> set (rp_allowedInstruments policy) \<and> \<bar>amount_of (snd x)\<bar> \<le> maxOrder \<and> \<bar>held after (fst x)\<bar> \<le> maxPosition))"

lemma take_target_agree:
  assumes "t \<in> set targets" "agree policy mp mo targets current acc" "take_target policy mp mo current t acc = Inr acc'"
  shows "agree policy mp mo targets current acc'"
proof -
  obtain res seen ords where acc: "acc = (res, seen, ords)" by (cases acc)
  obtain v where v: "parseAmount (snd t) = Inr v" "fst t \<notin> set seen" "fst t \<in> set (rp_allowedInstruments policy)"
    "\<bar>v\<bar> \<le> mp" "\<bar>v - held current (fst t)\<bar> \<le> mo"
    and acc': "acc' = (AList.update (fst t) v res, fst t # seen,
       if v - held current (fst t) \<noteq> 0 then ords @ [(fst t, toString (v - held current (fst t)))] else ords)"
    using assms(3) by (auto simp: take_target_def acc bind_r_Inr Let_def split: if_splits)
  have "v = amount_of (snd t)" using v(1) by (simp add: amount_of_def)
  then show ?thesis
    using assms(1,2) v(2-) unfolding acc' acc agree_def Let_def
    by (auto simp: apply_order_def held_update gross_update distinct_update)
qed

lemma reduction_only:
  "isReductionOnly ts current = Inr True \<Longrightarrow> t \<in> set ts \<Longrightarrow> \<bar>amount_of (snd t)\<bar> \<le> \<bar>held current (fst t)\<bar>"
  by (induction ts current rule: isReductionOnly.induct) (auto simp: bind_r_Inr Let_def amount_of_def split: if_splits)

lemma set_position_distinct: "fold_r set_position ps m = Inr c \<Longrightarrow> distinct (map fst m) \<Longrightarrow> distinct (map fst c)"
  by (rule fold_r_keeps[of set_position ps m c "\<lambda>m. distinct (map fst m)"])
    (auto simp: set_position_def bind_r_Inr distinct_update)

lemma evaluateRisk_sound:
  assumes "evaluateRisk d a policy = Inr orders" "fold_r set_position (ac_positions a) [] = Inr current"
    and after: "after = fold apply_order orders current"
  shows "grossNotional after \<le> amount_of (rp_maxGross policy)"
    and "grossNotional after * 10000 \<le> amount_of (ac_equity a) * rp_maxLeverageBps policy"
    and "\<forall>x\<in>set orders. fst x \<in> set (rp_allowedInstruments policy) \<and> \<bar>amount_of (snd x)\<bar> \<le> amount_of (rp_maxOrder policy) \<and>
      \<bar>held after (fst x)\<bar> \<le> amount_of (rp_maxPosition policy)"
    and "distinct (map fst orders)"
    and "amount_of (ac_dailyPnl a) \<le> - amount_of (rp_maxDailyLoss policy) \<Longrightarrow>
      grossNotional after < grossNotional current \<and> (\<forall>i. \<bar>held after i\<bar> \<le> \<bar>held current i\<bar>)"
proof -
  obtain mp mo resulting seen where
    m: "parsePositiveAmount (rp_maxPosition policy) = Inr mp" "parsePositiveAmount (rp_maxOrder policy) = Inr mo"
    and f: "fold_r (take_target policy mp mo current) (de_targets d) (current, [], []) = Inr (resulting, seen, orders)"
    and g: "\<exists>n. parsePositiveAmount (rp_maxGross policy) = Inr n \<and> grossNotional resulting \<le> n"
    and e: "\<exists>n. parsePositiveAmount (ac_equity a) = Inr n \<and> grossNotional resulting * 10000 \<le> n * rp_maxLeverageBps policy"
    and k: "\<exists>n l. parseAmount (ac_dailyPnl a) = Inr n \<and> parsePositiveAmount (rp_maxDailyLoss policy) = Inr l \<and>
      (n \<le> - l \<longrightarrow> grossNotional resulting < grossNotional current \<and> isReductionOnly (de_targets d) current = Inr True)"
    using assms(1,2) unfolding evaluateRisk_def Let_def by (auto simp: bind_r_Inr check_Inr split: if_splits)
  have "agree policy mp mo (de_targets d) current (resulting, seen, orders)"
  proof (rule fold_r_invariant[OF f])
    show "agree policy mp mo (de_targets d) current (current, [], [])"
      by (simp add: agree_def set_position_distinct[OF assms(2)])
  qed (rule take_target_agree)
  note ag = this[unfolded agree_def Let_def prod.case, folded after]
  show "grossNotional after \<le> amount_of (rp_maxGross policy)"
    and "grossNotional after * 10000 \<le> amount_of (ac_equity a) * rp_maxLeverageBps policy"
    using g e ag positive_amount by auto
  show "\<forall>x\<in>set orders. fst x \<in> set (rp_allowedInstruments policy) \<and> \<bar>amount_of (snd x)\<bar> \<le> amount_of (rp_maxOrder policy) \<and>
      \<bar>held after (fst x)\<bar> \<le> amount_of (rp_maxPosition policy)" and "distinct (map fst orders)"
    using ag positive_amount[OF m(1)] positive_amount[OF m(2)] by blast+
  assume "amount_of (ac_dailyPnl a) \<le> - amount_of (rp_maxDailyLoss policy)"
  then have r: "grossNotional resulting < grossNotional current" "isReductionOnly (de_targets d) current = Inr True"
    using k positive_amount by (auto simp: amount_of_def[of "ac_dailyPnl a"])
  have "\<bar>held after i\<bar> \<le> \<bar>held current i\<bar>" for i
    using ag reduction_only[OF r(2)] by (cases "i \<in> set seen") force+
  then show "grossNotional after < grossNotional current \<and> (\<forall>i. \<bar>held after i\<bar> \<le> \<bar>held current i\<bar>)" using r(1) ag by simp
qed

text \<open>C12: a permit never lets the user's limits be exceeded. Executing exactly the orders that stand in the signed
  permit on the account's positions gives a portfolio whose gross value is within the gross and the leverage
  limit; every order is for an allowed instrument, is the only one for it, is within the order limit and leaves
  a position within the position limit; and once the daily loss limit is reached, the portfolio as a
  whole and every single position can only become smaller. Only trade-only grants get here.\<close>

theorem risk_limits_hold:
  assumes "issueExecutionPermit env consume1 st input = (Inr (p, s), st1)"
    and "policy = gr_policy (fst (ii_grant input))" and "a = ii_account input"
  shows "\<exists>current after. fold_r set_position (ac_positions a) [] = Inr current \<and> after = fold apply_order (pt_orders p) current \<and>
    grossNotional after \<le> amount_of (rp_maxGross policy) \<and>
    grossNotional after * 10000 \<le> amount_of (ac_equity a) * rp_maxLeverageBps policy \<and>
    distinct (map fst (pt_orders p)) \<and>
    (\<forall>x\<in>set (pt_orders p). fst x \<in> set (rp_allowedInstruments policy) \<and> \<bar>amount_of (snd x)\<bar> \<le> amount_of (rp_maxOrder policy) \<and>
      \<bar>held after (fst x)\<bar> \<le> amount_of (rp_maxPosition policy)) \<and>
    (amount_of (ac_dailyPnl a) \<le> - amount_of (rp_maxDailyLoss policy) \<longrightarrow>
      grossNotional after < grossNotional current \<and> (\<forall>i. \<bar>held after i\<bar> \<le> \<bar>held current i\<bar>)) \<and>
    trade_only (gr_permissions (fst (ii_grant input)))"
proof -
  obtain now h orders expiry where ok: "approve env input = Inr (now, h, orders, expiry)"
    and s: "sign_permit env input (now, h, orders, expiry) = Inr (p, s)" using assms(1) by (rule issue_Inr)
  have p: "pt_orders p = orders" using s by (auto simp: sign_permit_def Let_def bind_r_Inr)
  note r = approve_facts(6)[OF ok, folded assms(2,3)]
  obtain current where c: "fold_r set_position (ac_positions a) [] = Inr current"
    using r by (auto simp: evaluateRisk_def bind_r_Inr split: if_splits)
  show ?thesis using evaluateRisk_sound[OF r c refl] approve_facts(7)[OF ok] c by (simp add: p)
qed

section \<open>Witnesses\<close>

definition demo_sec_env :: sec_env where
  "demo_sec_env = \<lparr>se_le = (\<lambda>a b. True), se_sha256 = (\<lambda>s. replicate 64 CHR ''0''), se_verify = (\<lambda>k t s. s = ''sig''),
     se_sign = (\<lambda>k t. Inr ''sig''), se_dateParse = (\<lambda>s. Some (digits_val s)), se_toISOString = toString\<rparr>"

definition demo_sig :: "string \<Rightarrow> signature" where
  "demo_sig k = \<lparr>sg_algorithm = ''Ed25519'', sg_keyId = k, sg_value = ''sig''\<rparr>"

definition demo_policy :: risk_policy where
  "demo_policy = \<lparr>rp_schemaVersion = 1, rp_allowedVenues = [''v''], rp_allowedInstruments = [''btc'', ''eth''], rp_maxPosition = ''60'',
     rp_maxOrder = ''50'', rp_maxGross = ''100'', rp_maxLeverageBps = 20000, rp_maxDailyLoss = ''10'', rp_maxDecisionAgeMs = 500,
     rp_maxAccountSnapshotAgeMs = 500, rp_maxClockSkewMs = 0, rp_executionPermitTtlMs = 100\<rparr>"

definition demo_grant :: grant where
  "demo_grant = \<lparr>gr_grantId = ''g'', gr_userId = ''u'', gr_strategyFamilyId = ''f'', gr_validFrom = ''100'', gr_validUntil = ''900'',
     gr_permissions = \<lparr>pm_readAccount = True, pm_readMarketData = True, pm_placeOrders = True, pm_withdraw = False, pm_transfer = False\<rparr>,
     gr_policy = demo_policy\<rparr>"

definition demo_decision :: "string \<Rightarrow> decision" where
  "demo_decision nonce = \<lparr>de_decisionId = ''d'', de_nonce = nonce, de_grantId = ''g'', de_strategyFamilyId = ''f'', de_strategyVersionId = ''v1'',
     de_codeMeasurement = ''sha256:'' @ replicate 64 CHR ''1'', de_policyHash = replicate 64 CHR ''0'', de_venue = ''v'',
     de_targets = [(''btc'', ''20''), (''eth'', ''-30'')], de_issuedAt = ''150'', de_expiresAt = ''400''\<rparr>"

definition demo_release :: release where
  "demo_release = \<lparr>rl_strategyFamilyId = ''f'', rl_strategyVersionId = ''v1'', rl_codeMeasurement = ''sha256:'' @ replicate 64 CHR ''1'',
     rl_signerKeyId = ''tee'', rl_runtimePublicKeyPem = ''k''\<rparr>"

definition demo_account :: account where
  "demo_account = \<lparr>ac_snapshotId = ''s'', ac_userId = ''u'', ac_venue = ''v'', ac_capturedAt = ''180'', ac_equity = ''80'', ac_dailyPnl = ''-12'',
     ac_positions = [(''btc'', ''40''), (''eth'', ''-50'')]\<rparr>"

definition demo_issue :: "string \<Rightarrow> int \<Rightarrow> issue_input" where
  "demo_issue nonce now = \<lparr>ii_grant = (demo_grant, demo_sig ''user''), ii_expectedUserSigningKeyId = ''user'', ii_userPublicKeyPem = ''k'',
     ii_decision = (demo_decision nonce, demo_sig ''tee''), ii_release = demo_release, ii_account = demo_account,
     ii_signerKeyId = ''risk'', ii_signerPrivateKeyPem = ''k'', ii_now = Some now\<rparr>"

lemma demo_hash: "hashPayload demo_sec_env v = (if safe_numbers v then Inr (replicate 64 CHR ''0'') else Inl ''INVALID_CANONICAL_NUMBER'')"
  by (simp add: hashPayload_def canonicalJson_def demo_sec_env_def)

lemma demo_verify: "verifySignedPayload demo_sec_env v (demo_sig k) k pem = safe_numbers v"
  by (simp add: verifySignedPayload_def canonicalJson_def demo_sec_env_def demo_sig_def)

lemma demo_sign:
  "signPayload demo_sec_env v ''risk'' k = (if safe_numbers v then Inr (demo_sig ''risk'') else Inl ''INVALID_CANONICAL_NUMBER'')"
  by (simp add: signPayload_def canonicalJson_def demo_sec_env_def demo_sig_def assertIdentifier_def is_alnum_def identifier_tail_def)

lemma demo_safe:
  "safe_numbers (grant_json demo_grant)" "safe_numbers (decision_json (demo_decision n))" "safe_numbers (signature_json s)"
  "safe_numbers (account_json demo_account)" "safe_numbers (policy_json demo_policy)"
  by (simp_all add: grant_json_def decision_json_def signature_json_def account_json_def policy_json_def permissions_json_def
      strings_json_def demo_grant_def demo_policy_def demo_account_def isSafeInteger_def MAX_SAFE_INTEGER_def list_all_iff)

definition demo_orders :: orders where
  "demo_orders = [(''btc'', ''-20''), (''eth'', ''20'')]"

lemma demo_approve:
  "n \<in> {''n1'', ''n2''} \<Longrightarrow> now \<in> {200, 210, 220} \<Longrightarrow>
     approve demo_sec_env (demo_issue n now) = Inr (now, replicate 64 CHR ''0'', demo_orders, 400)"
proof -
  assume n: "n \<in> {''n1'', ''n2''}" and now: "now \<in> {200, 210, 220}"
  have "validateGrant demo_sec_env demo_grant now = Inr ()" using now by (elim insertE emptyE; hypsubst; code_simp)
  moreover have "validateReleaseBinding (demo_decision n) demo_release = Inr ()" using n by (elim insertE emptyE; hypsubst; code_simp)
  moreover have "validateDecisionBinding demo_sec_env (demo_decision n) demo_grant now = Inr ()"
    using n now by (elim insertE emptyE; hypsubst; code_simp)
  moreover have "validateAccount demo_sec_env demo_account demo_grant now = Inr ()" using now by (elim insertE emptyE; hypsubst; code_simp)
  moreover have "evaluateRisk (demo_decision n) demo_account demo_policy = Inr demo_orders" using n by (elim insertE emptyE; hypsubst; code_simp)
  moreover have "parseTimestamp demo_sec_env (de_expiresAt (demo_decision n)) = Inr 400" using n by (elim insertE emptyE; hypsubst; code_simp)
  ultimately show ?thesis
    by (simp add: approve_def demo_issue_def demo_verify demo_hash demo_safe demo_release_def demo_grant_def[THEN arg_cong, of gr_policy]
        demo_decision_def[THEN arg_cong, of de_policyHash])
qed

lemma demo_sign_permit:
  "\<exists>p s. sign_permit demo_sec_env (demo_issue n now) (now, h, demo_orders, 400) = Inr (p, s) \<and> pt_orders p = demo_orders"
proof -
  have "parseTimestamp demo_sec_env ''900'' = Inr 900" by code_simp
  then show ?thesis
    by (simp add: sign_permit_def demo_issue_def demo_hash demo_sign demo_safe demo_grant_def permit_json_def Let_def
        isSafeInteger_def MAX_SAFE_INTEGER_def list_all_iff)
qed

lemma demo_issue_result:
  assumes "n \<in> {''n1'', ''n2''}" "now \<in> {200, 210, 220}" "consume st ''g:v1'' n 400 now = (ok, st1)"
  shows "\<exists>r. issueExecutionPermit demo_sec_env consume st (demo_issue n now) = (r, st1) \<and> (isl r \<longleftrightarrow> \<not> ok) \<and>
    (\<forall>p s. r = Inr (p, s) \<longrightarrow> pt_orders p = demo_orders)"
proof -
  have "replay_scope (demo_issue n now) = ''g:v1''" "de_nonce (fst (ii_decision (demo_issue n now))) = n"
    by (simp_all add: replay_scope_def demo_issue_def demo_grant_def demo_release_def demo_decision_def)
  moreover obtain p s where "sign_permit demo_sec_env (demo_issue n now) (now, replicate 64 CHR ''0'', demo_orders, 400) = Inr (p, s)"
    "pt_orders p = demo_orders" using demo_sign_permit by blast
  ultimately show ?thesis using assms(3)
    by (cases ok) (simp_all add: issueExecutionPermit_def demo_approve[OF assms(1,2)])
qed

definition demo_issues :: "issue_input list" where
  "demo_issues = [demo_issue ''n1'' 200, demo_issue ''n1'' 210, demo_issue ''n2'' 220]"

lemma demo_issues_run: "map isl (run_issues demo_sec_env consume [] demo_issues) = [False, True, False]"
proof -
  have c: "consume [] ''g:v1'' ''n1'' 400 200 = (True, [(''g:v1:n1'', 400)])"
    "consume [(''g:v1:n1'', 400)] ''g:v1'' ''n1'' 400 210 = (False, [(''g:v1:n1'', 400)])"
    "consume [(''g:v1:n1'', 400)] ''g:v1'' ''n2'' 400 220 = (True, [(''g:v1:n1'', 400), (''g:v1:n2'', 400)])"
    by (simp_all add: consume_def replay_key_def)
  from demo_issue_result[OF _ _ c(1)] demo_issue_result[OF _ _ c(2)] demo_issue_result[OF _ _ c(3)]
  show ?thesis by (auto simp: demo_issues_def)
qed

theorem decision_permit_once_witness:
  "map isl (run_issues demo_sec_env consume [] demo_issues) = [False, True, False] \<and>
   fst (ii_decision (demo_issues ! 0)) \<noteq> fst (ii_decision (demo_issues ! 2))"
proof -
  have l: "length (run_issues demo_sec_env consume [] demo_issues) = 3" by (simp only: length_run_issues) (simp add: demo_issues_def)
  have "\<not> isl (run_issues demo_sec_env consume [] demo_issues ! 0)" "\<not> isl (run_issues demo_sec_env consume [] demo_issues ! 2)"
    using arg_cong[OF demo_issues_run, of "\<lambda>x. x ! 0"] arg_cong[OF demo_issues_run, of "\<lambda>x. x ! 2"] l by simp_all
  then obtain p q where pq: "run_issues demo_sec_env consume [] demo_issues ! 0 = Inr p"
    "run_issues demo_sec_env consume [] demo_issues ! 2 = Inr q" by (metis isl_def sum.exhaust)
  have t: "map ii_now demo_issues = map Some [200, 210, 220]" by (simp add: demo_issues_def demo_issue_def)
  have "fst (ii_decision (demo_issues ! 0)) \<noteq> fst (ii_decision (demo_issues ! 2))"
    by (rule decision_permit_once[OF t _ _ _ pq]) (simp_all add: demo_issues_def)
  then show ?thesis using demo_issues_run by blast
qed

theorem risk_limits_hold_witness:
  "\<exists>p s st1. issueExecutionPermit demo_sec_env consume [] (demo_issue ''n1'' 200) = (Inr (p, s), st1) \<and>
     pt_orders p = [(''btc'', ''-20''), (''eth'', ''20'')] \<and>
     (\<exists>current after. fold_r set_position [(''btc'', ''40''), (''eth'', ''-50'')] [] = Inr current \<and>
        after = fold apply_order (pt_orders p) current \<and> grossNotional after < grossNotional current)"
proof -
  have "consume [] ''g:v1'' ''n1'' 400 200 = (True, [(''g:v1:n1'', 400)])" by (simp add: consume_def replay_key_def)
  from demo_issue_result[OF _ _ this]
  obtain p s st1 where r: "issueExecutionPermit demo_sec_env consume [] (demo_issue ''n1'' 200) = (Inr (p, s), st1)"
    "pt_orders p = demo_orders" by (auto simp: isl_def) (metis surj_pair sum.exhaust)
  have l: "amount_of ''-12'' \<le> - amount_of ''10''" by code_simp
  have a: "ac_positions (ii_account (demo_issue ''n1'' 200)) = [(''btc'', ''40''), (''eth'', ''-50'')]"
    "ac_dailyPnl (ii_account (demo_issue ''n1'' 200)) = ''-12''"
    "rp_maxDailyLoss (gr_policy (fst (ii_grant (demo_issue ''n1'' 200)))) = ''10''"
    by (simp_all add: demo_issue_def demo_grant_def demo_policy_def demo_account_def)
  show ?thesis using risk_limits_hold[OF r(1) refl refl] r(1) r(2)[unfolded demo_orders_def] l unfolding a by blast
qed

end
