(* ===== verification/Json_Parse.thy ===== *)
theory Json_Parse
  imports Canonical_Json "HOL-Library.AList"
begin

text \<open>
  \<open>JSON.parse\<close>, which the stores apply to the JSON columns they wrote with \<open>JSON.stringify\<close>
  (\<open>print_json\<close>). A syntax error is \<open>None\<close>. White space and every escape are accepted; of two members
  with one key the last value wins. Numbers are integers and characters have 8 bits, as in the rest of
  the development: a text with a fraction, an exponent or a character above 255 is not a text of this
  model and is \<open>None\<close> too. The recursion is on fuel; the length of the text is enough of it.
  Shown: parsing a printed value gives the value back (\<open>parse_print\<close>).
\<close>

definition skip_ws :: "string \<Rightarrow> string" where
  "skip_ws s = dropWhile (\<lambda>c. c \<in> {CHR '' '', CHR 9, CHR 10, CHR 13}) s"

definition hex_val :: "char \<Rightarrow> nat option" where
  "hex_val c = (if is_digit c then Some (nat (digit_val c))
     else if c \<in> set ''abcdef'' then Some (of_char c - 87)
     else if c \<in> set ''ABCDEF'' then Some (of_char c - 55) else None)"

fun hex_code :: "string \<Rightarrow> nat option" where
  "hex_code s = foldl (\<lambda>a c. case (a, hex_val c) of (Some n, Some d) \<Rightarrow> Some (16 * n + d) | _ \<Rightarrow> None) (Some 0) s"

definition unescape :: "string \<Rightarrow> (char \<times> string) option" where
  "unescape s = (case s of [] \<Rightarrow> None | e # r \<Rightarrow>
     if e \<in> {CHR 34, CHR 92, CHR ''/''} then Some (e, r)
     else if e = CHR ''b'' then Some (char_of (8 :: nat), r) else if e = CHR ''t'' then Some (char_of (9 :: nat), r)
     else if e = CHR ''n'' then Some (char_of (10 :: nat), r) else if e = CHR ''f'' then Some (char_of (12 :: nat), r)
     else if e = CHR ''r'' then Some (char_of (13 :: nat), r)
     else if e = CHR ''u'' \<and> 4 \<le> length r then
       (case hex_code (take 4 r) of
          Some n \<Rightarrow> if n < 256 then Some (char_of n, drop 4 r) else None
        | None \<Rightarrow> None)
     else None)"

text \<open>The characters of a string literal up to its closing quote.\<close>

fun parse_chars :: "nat \<Rightarrow> string \<Rightarrow> (string \<times> string) option" where
  "parse_chars 0 s = None"
| "parse_chars (Suc n) [] = None"
| "parse_chars (Suc n) (c # r) =
     (if c = CHR 34 then Some ([], r)
      else if c = CHR 92 then
        (case unescape r of None \<Rightarrow> None
         | Some (d, t) \<Rightarrow> map_option (\<lambda>(cs, u). (d # cs, u)) (parse_chars n t))
      else if (of_char c :: nat) < 32 then None
      else map_option (\<lambda>(cs, u). (c # cs, u)) (parse_chars n r))"

definition parse_string :: "string \<Rightarrow> (string \<times> string) option" where
  "parse_string s = (case s of [] \<Rightarrow> None | c # r \<Rightarrow> if c = CHR 34 then parse_chars (length r) r else None)"

definition parse_number :: "string \<Rightarrow> (json \<times> string) option" where
  "parse_number s =
     (let t = takeWhile num_char s;
          n = (if take 1 t = ''-'' then - digits_val (drop 1 t) else digits_val t)
      in if toString n = t then Some (JNum n, drop (length t) s) else None)"

definition parse_word :: "string \<Rightarrow> json \<Rightarrow> string \<Rightarrow> (json \<times> string) option" where
  "parse_word w v s = (if take (length w) s = w then Some (v, drop (length w) s) else None)"

definition object_of :: "(string \<times> json) list \<Rightarrow> (string \<times> json) list" where
  "object_of es = foldl (\<lambda>m e. AList.update (fst e) (snd e) m) [] es"

fun parse_value :: "nat \<Rightarrow> string \<Rightarrow> (json \<times> string) option"
  and parse_items :: "nat \<Rightarrow> string \<Rightarrow> (json list \<times> string) option"
  and parse_members :: "nat \<Rightarrow> string \<Rightarrow> ((string \<times> json) list \<times> string) option" where
  "parse_value 0 s = None"
| "parse_value (Suc n) s = (case skip_ws s of [] \<Rightarrow> None | c # r \<Rightarrow>
     if c = CHR ''n'' then parse_word ''null'' JNull (c # r)
     else if c = CHR ''t'' then parse_word ''true'' (JBool True) (c # r)
     else if c = CHR ''f'' then parse_word ''false'' (JBool False) (c # r)
     else if c = CHR 34 then map_option (\<lambda>(t, u). (JStr t, u)) (parse_string (c # r))
     else if c = CHR ''['' then
       (if take 1 (skip_ws r) = '']'' then Some (JArr [], drop 1 (skip_ws r))
        else map_option (\<lambda>(vs, u). (JArr vs, u)) (parse_items n r))
     else if c = CHR ''{'' then
       (if take 1 (skip_ws r) = ''}'' then Some (JObj [], drop 1 (skip_ws r))
        else map_option (\<lambda>(es, u). (JObj (object_of es), u)) (parse_members n r))
     else parse_number (c # r))"
| "parse_items 0 s = None"
| "parse_items (Suc n) s = (case parse_value n s of None \<Rightarrow> None | Some (v, t) \<Rightarrow>
     (case skip_ws t of [] \<Rightarrow> None | c # u \<Rightarrow>
        if c = CHR '']'' then Some ([v], u)
        else if c = CHR '','' then map_option (\<lambda>(vs, w). (v # vs, w)) (parse_items n u)
        else None))"
| "parse_members 0 s = None"
| "parse_members (Suc n) s = (case parse_string (skip_ws s) of None \<Rightarrow> None | Some (k, q) \<Rightarrow>
     (case skip_ws q of [] \<Rightarrow> None | d # p \<Rightarrow>
        if d = CHR '':'' then
          (case parse_value n p of None \<Rightarrow> None | Some (v, t) \<Rightarrow>
             (case skip_ws t of [] \<Rightarrow> None | c # u \<Rightarrow>
                if c = CHR ''}'' then Some ([(k, v)], u)
                else if c = CHR '','' then map_option (\<lambda>(es, w). ((k, v) # es, w)) (parse_members n u)
                else None))
        else None))"

definition parse_json :: "string \<Rightarrow> json option" where
  "parse_json s = (case parse_value (length s) s of
     Some (v, r) \<Rightarrow> if skip_ws r = [] then Some v else None
   | None \<Rightarrow> None)"

fun keyed :: "json \<Rightarrow> bool" where
  "keyed (JArr vs) = list_all keyed vs"
| "keyed (JObj es) = (distinct (map fst es) \<and> list_all (\<lambda>e. keyed (snd e)) es)"
| "keyed _ = True"

section \<open>Reading members\<close>

text \<open>A member of an object is \<open>map_of es key\<close>; \<open>undefined\<close> is \<open>None\<close>.\<close>

fun text_of :: "json option \<Rightarrow> string option" where
  "text_of (Some (JStr s)) = Some s"
| "text_of _ = None"

fun number_of :: "json option \<Rightarrow> int option" where
  "number_of (Some (JNum n)) = Some n"
| "number_of _ = None"

fun bool_of :: "json option \<Rightarrow> bool option" where
  "bool_of (Some (JBool b)) = Some b"
| "bool_of _ = None"

fun entries_of :: "json option \<Rightarrow> (string \<times> json) list option" where
  "entries_of (Some (JObj es)) = Some es"
| "entries_of _ = None"

fun items_of :: "json option \<Rightarrow> json list option" where
  "items_of (Some (JArr vs)) = Some vs"
| "items_of _ = None"

lemma text_of_Some: "text_of v = Some s \<longleftrightarrow> v = Some (JStr s)"
  by (cases v rule: text_of.cases) auto

lemma number_of_Some: "number_of v = Some s \<longleftrightarrow> v = Some (JNum s)"
  by (cases v rule: number_of.cases) auto

text \<open>The order in which SQLite compares and sorts text columns: byte by byte.\<close>

fun text_less :: "string \<Rightarrow> string \<Rightarrow> bool" where
  "text_less [] t = (t \<noteq> [])"
| "text_less (c # s) [] = False"
| "text_less (c # s) (d # t) =
     ((of_char c :: nat) < of_char d \<or> c = d \<and> text_less s t)"

section \<open>Reading back what was printed\<close>

lemma skip_ws_simps [simp]:
  "skip_ws [] = []"
  "c \<notin> {CHR '' '', CHR 9, CHR 10, CHR 13} \<Longrightarrow> skip_ws (c # s) = c # s"
  by (simp_all add: skip_ws_def)

lemma object_of_distinct: "distinct (map fst es) \<Longrightarrow> object_of es = es"
proof -
  have "foldl (\<lambda>m e. AList.update (fst e) (snd e) m) m es = m @ es"
    if "distinct (map fst (m @ es))" for m :: "(string \<times> json) list"
    using that
  proof (induction es arbitrary: m)
    case (Cons e es)
    have "fst e \<notin> fst ` set m" using Cons.prems by auto
    then have "AList.update (fst e) (snd e) m = m @ [e]" by (simp add: update_new)
    then show ?case using Cons.IH[of "m @ [e]"] Cons.prems by simp
  qed simp
  from this[of "[]"] show "distinct (map fst es) \<Longrightarrow> object_of es = es" by (simp add: object_of_def)
qed

lemma esc_plain:
  assumes "32 \<le> (of_char c :: nat)" "c \<noteq> CHR 34" "c \<noteq> CHR 92"
  shows "esc c = [c]"
proof -
  have "(of_char c :: nat) \<noteq> of_char (CHR 34)" "(of_char c :: nat) \<noteq> of_char (CHR 92)"
    using assms(2,3) by (simp_all only: of_char_eq_iff not_False_eq_True)
  then show ?thesis using assms(1) by (simp add: esc_def)
qed

lemma esc_control:
  assumes "(of_char c :: nat) < 32"
  shows "\<exists>t. esc c = CHR 92 # t \<and> (\<forall>r. unescape (t @ r) = Some (c, r))"
proof -
  define n where "n = (of_char c :: nat)"
  have c: "c = char_of n" by (simp add: n_def)
  have "n = 31 \<or> n = 30 \<or> n = 29 \<or> n = 28 \<or> n = 27 \<or> n = 26 \<or> n = 25 \<or> n = 24 \<or>
    n = 23 \<or> n = 22 \<or> n = 21 \<or> n = 20 \<or> n = 19 \<or> n = 18 \<or> n = 17 \<or> n = 16 \<or>
    n = 15 \<or> n = 14 \<or> n = 13 \<or> n = 12 \<or> n = 11 \<or> n = 10 \<or> n = 9 \<or> n = 8 \<or>
    n = 7 \<or> n = 6 \<or> n = 5 \<or> n = 4 \<or> n = 3 \<or> n = 2 \<or> n = 1 \<or> n = 0"
    using assms unfolding n_def by presburger
  then show ?thesis unfolding c
    by (elim disjE) (simp_all add: esc_def unescape_def hex_char_def hex_val_def is_digit_def digit_val_def)
qed

lemma unescape_esc:
  assumes "(of_char c :: nat) < 32 \<or> c \<in> {CHR 34, CHR 92}"
  obtains t where "esc c = CHR 92 # t" "\<And>r. unescape (t @ r) = Some (c, r)"
proof (cases "(of_char c :: nat) < 32")
  case True
  then show ?thesis using esc_control[of c] that by blast
next
  case False
  then have "c = CHR 34 \<or> c = CHR 92" using assms by simp
  then show ?thesis using that by (auto simp: esc_def unescape_def)
qed

lemma length_esc: "1 \<le> length (esc c)"
  by (simp add: esc_def Let_def)

lemma parse_chars_esc:
  "length (concat (map esc s)) < n \<Longrightarrow>
   parse_chars n (concat (map esc s) @ CHR 34 # r) = Some (s, r)"
proof (induction s arbitrary: n)
  case Nil
  then show ?case by (cases n) auto
next
  case (Cons c s)
  then obtain m where n: "n = Suc m" by (cases n) auto
  have IH: "parse_chars m (concat (map esc s) @ CHR 34 # r) = Some (s, r)"
    using Cons.prems n length_esc[of c] by (intro Cons.IH) simp
  show ?case
  proof (cases "(of_char c :: nat) < 32 \<or> c \<in> {CHR 34, CHR 92}")
    case True
    then obtain t where "esc c = CHR 92 # t" "\<And>r. unescape (t @ r) = Some (c, r)"
      by (rule unescape_esc) blast
    then show ?thesis using n IH by simp
  next
    case False
    then show ?thesis using n IH esc_plain[of c] by auto
  qed
qed

lemma parse_string_quote [simp]: "parse_string (quote s @ r) = Some (s, r)"
  by (simp add: parse_string_def quote_def parse_chars_esc)

lemma parse_string_quote_nil [simp]: "parse_string (quote s) = Some (s, [])"
  using parse_string_quote[of s "[]"] by simp

lemma skip_ws_quote [simp]: "skip_ws (quote s @ r) = quote s @ r" "skip_ws (quote s) = quote s"
  by (simp_all add: quote_def)

lemma parse_number_toString: "terminated r \<Longrightarrow> parse_number (toString n @ r) = Some (JNum n, r)"
proof -
  assume "terminated r"
  then have t: "takeWhile num_char (toString n @ r) = toString n" by (rule takeWhile_toString)
  have head: "take 1 (toString n) = ''-'' \<longleftrightarrow> n < 0"
  proof (cases "n < 0")
    case False
    have "hd (dec_digits n) \<noteq> CHR ''-''" using dec_digits_all[of n] dec_digits_nonempty[of n]
      by (cases "dec_digits n") (auto simp: is_digit_def)
    then show ?thesis using False by (cases "dec_digits n") (auto simp: toString_def)
  qed (simp add: toString_def)
  have "(if take 1 (toString n) = ''-'' then - digits_val (drop 1 (toString n)) else digits_val (toString n)) = n"
    using head by (cases "n < 0") (auto simp: toString_def)
  then show ?thesis by (simp add: parse_number_def t Let_def)
qed

lemma toString_starts:
  obtains c t where "toString n = c # t" "num_char c"
  using toString_num_chars[of n] by (cases "toString n") (auto simp: toString_def split: if_splits)

lemma num_char_not:
  "num_char c \<Longrightarrow> c \<notin> {CHR '' '', CHR 9, CHR 10, CHR 13, CHR ''n'', CHR ''t'', CHR ''f'', CHR 34,
     CHR ''['', CHR ''{'', CHR '']'', CHR ''}''}"
  by (auto simp: num_char_def is_digit_def)

lemma print_json_nonempty: "1 \<le> length (print_json v)"
proof (cases v)
  case (JNum n)
  then show ?thesis using toString_starts[of n] by (metis One_nat_def Suc_leI length_greater_0_conv list.distinct(1) print_json.simps(3))
qed (auto simp: quote_def)

lemma skip_ws_print [simp]: "skip_ws (print_json v @ r) = print_json v @ r"
proof (cases v)
  case (JNum n)
  then show ?thesis using toString_starts[of n] num_char_not by (metis append_Cons insert_iff print_json.simps(3) skip_ws_simps(2))
qed (auto simp: quote_def)

lemma take_print [simp]: "take 1 (print_json v @ r) \<noteq> '']''"
  using print_json_nonempty[of v] print_json_head[where c = "CHR '']''" and v = v and r = r]
  by (cases "print_json v") auto

lemma parse_number_start: "num_char c \<Longrightarrow> parse_value (Suc n) (c # r) = parse_number (c # r)"
  using num_char_not[of c] by simp

lemma parse_value_number:
  "terminated r \<Longrightarrow> parse_value (Suc n) (toString m @ r) = Some (JNum m, r)"
  using parse_number_toString[of r m] toString_starts[of m] parse_number_start[of _ n]
  by (metis append_Cons)

lemma skip_ws_ends [simp]:
  "skip_ws (CHR '','' # r) = CHR '','' # r" "skip_ws (CHR '']'' # r) = CHR '']'' # r"
  "skip_ws (CHR ''}'' # r) = CHR ''}'' # r" "skip_ws (CHR '':'' # r) = CHR '':'' # r"
  by simp_all

lemma print_vals_start: "vs \<noteq> [] \<Longrightarrow> \<exists>r. print_vals vs @ t = print_json (hd vs) @ r"
  by (cases vs) auto

lemma print_entries_start: "es \<noteq> [] \<Longrightarrow> \<exists>r. print_entries es @ t = quote (fst (hd es)) @ r"
  by (cases es) auto

lemma parse_print_all:
  shows "terminated r \<Longrightarrow> keyed v \<Longrightarrow> length (print_json v) \<le> n \<Longrightarrow>
      parse_value n (print_json v @ r) = Some (v, r)"
    and "vs \<noteq> [] \<Longrightarrow> list_all keyed vs \<Longrightarrow> length (print_vals vs) + 1 \<le> n \<Longrightarrow>
      parse_items n (print_vals vs @ CHR '']'' # r) = Some (vs, r)"
    and "es \<noteq> [] \<Longrightarrow> list_all (\<lambda>e. keyed (snd e)) es \<Longrightarrow> length (print_entries es) + 1 \<le> n \<Longrightarrow>
      parse_members n (print_entries es @ CHR ''}'' # r) = Some (es, r)"
proof (induction v and vs and es arbitrary: n r and n r and n r
    rule: print_json_print_vals_print_entries.induct)
  case 1
  then show ?case by (cases n) (simp_all add: parse_word_def)
next
  case (2 b)
  then show ?case by (cases n; cases b) (simp_all add: parse_word_def)
next
  case (3 m)
  then obtain k where "n = Suc k" using print_json_nonempty[of "JNum m"] by (cases n) auto
  then show ?case using 3 by (simp add: parse_value_number del: parse_value.simps)
next
  case (4 s)
  then obtain k where "n = Suc k" by (cases n) (auto simp: quote_def)
  moreover have "\<exists>t. quote s @ r = CHR 34 # t" by (simp add: quote_def)
  ultimately show ?case using parse_string_quote[of s r] by (auto simp del: parse_string_quote)
next
  case (5 vs)
  then obtain k where n: "n = Suc k" by (cases n) auto
  show ?case
  proof (cases "vs = []")
    case False
    have "take 1 (skip_ws (print_vals vs @ CHR '']'' # r)) \<noteq> '']''"
      using print_vals_start[OF False, of "CHR '']'' # r"] by (metis skip_ws_print take_print)
    then show ?thesis using 5 n False by simp
  qed (simp add: n)
next
  case (6 es)
  then obtain k where n: "n = Suc k" by (cases n) auto
  show ?case
  proof (cases "es = []")
    case False
    obtain q where q: "print_entries es @ CHR ''}'' # r = quote (fst (hd es)) @ q"
      using print_entries_start[OF False] by blast
    then have "take 1 (skip_ws (print_entries es @ CHR ''}'' # r)) \<noteq> ''}''" by (simp add: quote_def)
    then show ?thesis using 6 n False by (simp add: object_of_distinct)
  qed (simp add: n)
next
  case (8 v vs)
  then obtain k where n: "n = Suc k" by (cases n) auto
  let ?t = "(if vs = [] then [] else '','' @ print_vals vs) @ CHR '']'' # r"
  have v: "parse_value k (print_json v @ ?t) = Some (v, ?t)"
    using 8(4,5) n by (intro 8(1)) (simp_all split: if_splits)
  show ?case
  proof (cases "vs = []")
    case False
    then have "parse_items k (print_vals vs @ CHR '']'' # r) = Some (vs, r)"
      using 8(4,5) n print_json_nonempty[of v] by (intro 8(2)) simp_all
    then show ?thesis using v n False by simp
  qed (use v n in simp)
next
  case (10 k v es)
  then obtain m where n: "n = Suc m" by (cases n) auto
  let ?t = "(if es = [] then [] else '','' @ print_entries es) @ CHR ''}'' # r"
  have v: "parse_value m (print_json v @ ?t) = Some (v, ?t)"
    using 10(4,5) n by (intro 10(1)) (simp_all split: if_splits)
  show ?case
  proof (cases "es = []")
    case False
    then have "parse_members m (print_entries es @ CHR ''}'' # r) = Some (es, r)"
      using 10(4,5) n print_json_nonempty[of v] by (intro 10(2)) simp_all
    then show ?thesis using v n False by simp
  qed (use v n in simp)
qed simp_all

lemma parse_print: "keyed v \<Longrightarrow> parse_json (print_json v) = Some v"
  using parse_print_all(1)[of "[]" v "length (print_json v)"] by (simp add: parse_json_def)

end
