(* ===== verification/Order_Journal.thy ===== *)
theory Order_Journal
  imports Chain_Lifecycle Json_Parse "HOL-Library.Monad_Syntax"
begin

text \<open>
  \<^bold>\<open>packages/testnet/src/order-journal.ts, address.ts\<close>: the private database of the executor's orders.
  The tables \<open>orders\<close> and \<open>order_outcomes\<close> are lists of rows; \<open>intent\<close> and \<open>payload\<close> are JSON texts,
  written with \<open>print_json\<close> and read with \<open>parse_json\<close>. An operation that throws leaves the tables as
  they were (\<open>ROLLBACK\<close>). The database has one writer, so an operation is one step.
  The third-party package \<open>ethers\<close> is the parameter \<open>order_env\<close>: \<open>getAddress\<close>, \<open>Transaction.from\<close> and
  \<open>keccak256\<close> of a raw envelope and of a text. A JSON value of another type than the program writes is
  refused by \<open>read_intent\<close>, where the source's regular expressions would look at its text first.
\<close>

section \<open>Data\<close>

record signed_tx =
  isSigned :: bool
  tx_type :: int
  tx_chainId :: int
  tx_from :: "string option"
  tx_to :: "string option"
  tx_value :: int
  tx_nonce :: int
  tx_data :: string
  tx_hash :: "string option"
  tx_gasLimit :: int
  tx_maxFeePerGas :: int
  tx_maxPriorityFeePerGas :: int

record order_env =
  getAddress :: "string \<Rightarrow> string option"
  transaction_from :: "string \<Rightarrow> signed_tx option"
  keccak_raw :: "string \<Rightarrow> string"
  keccak_text :: "string \<Rightarrow> string"

datatype order_error =
    ORDER_INPUT | ORDER_ID_CONFLICT | ORDER_TRANSITION | ORDER_NONCE_CONFLICT | ORDER_EXECUTOR_BLOCKED
  | ORDER_SIGNED_TRANSACTION | ORDER_ROW_INTEGRITY | ORDER_OUTCOME_INTEGRITY | ORDER_DATABASE_IDENTITY
  | AUTH_ADDRESS | ETHERS_ADDRESS | SYNTAX_ERROR

record order_intent =
  purpose :: "string option"
  feed :: "string option"
  order_id :: string
  chainId :: int
  order_owner :: string
  executor :: string
  order_vault :: string
  manifestDigest :: string
  sourceDigest :: string
  grantVersion :: string
  stateVersion :: string
  snapshotHash :: string
  calldata :: string
  createdAt :: int

datatype order_state =
  PREPARED | RESERVED | SIGNED | BROADCAST_UNCERTAIN | RECONCILED | REVERTED | REORGED | CANCELLED

datatype outcome = Outcome_Reconciled | Outcome_Reverted | Outcome_Reorged

record order_row =
  row_id :: string
  row_executor :: string
  row_intent :: string
  row_state :: order_state
  row_nonce :: "string option"
  row_raw :: "string option"
  row_hash :: "string option"
  row_evidence :: "string option"

record outcome_row =
  out_id :: string
  out_payload :: string
  out_sha256 :: string

record order_journal =
  configuration_hash :: string
  orders :: "order_row list"
  order_outcomes :: "outcome_row list"

record order_view =
  view_intent :: order_intent
  view_state :: order_state
  view_nonce :: "string option"
  view_hash :: "string option"
  view_evidence :: "string option"

section \<open>Checked values\<close>

definition all_zero :: "string \<Rightarrow> bool" where
  "all_zero v \<longleftrightarrow> take 2 v = ''0x'' \<and> drop 2 v \<noteq> [] \<and> list_all (\<lambda>c. c = CHR ''0'') (drop 2 v)"

definition walletAddress :: "order_env \<Rightarrow> string \<Rightarrow> order_error + string" where
  "walletAddress env v =
     bind_r (check (hex_digits 40 v \<and> \<not> all_zero v) AUTH_ADDRESS) (\<lambda>_.
     case getAddress env v of None \<Rightarrow> Inl ETHERS_ADDRESS | Some a \<Rightarrow> Inr (toLowerCase a))"

definition digest :: "string \<Rightarrow> bool" where
  "digest v \<longleftrightarrow> hex_digits 64 v \<and> \<not> all_zero v"

definition integer_text :: "string \<Rightarrow> bool" where
  "integer_text v \<longleftrightarrow> canonical_dec 77 v \<and> digits_val v < 2 ^ 256"

definition id_tail :: "char \<Rightarrow> bool" where
  "id_tail c \<longleftrightarrow> is_alnum c \<or> c \<in> set ''._-''"

definition order_id_ok :: "string \<Rightarrow> bool" where
  "order_id_ok v \<longleftrightarrow> (case v of [] \<Rightarrow> False
     | c # cs \<Rightarrow> is_alnum c \<and> list_all id_tail cs \<and> int (length cs) \<le> 95)"

definition hex_bytes :: "int \<Rightarrow> int \<Rightarrow> string \<Rightarrow> bool" where
  "hex_bytes lo hi v \<longleftrightarrow> take 2 v = ''0x'' \<and> list_all is_hex (drop 2 v) \<and> even (length (drop 2 v)) \<and>
     2 * lo \<le> int (length (drop 2 v)) \<and> int (length (drop 2 v)) \<le> 2 * hi"

section \<open>Intents\<close>

definition order_fields :: "string list" where
  "order_fields = [''id'', ''chainId'', ''owner'', ''executor'', ''vault'', ''manifestDigest'',
     ''sourceDigest'', ''grantVersion'', ''stateVersion'', ''snapshotHash'', ''calldata'', ''createdAt'']"

definition purposes :: "string list" where
  "purposes = [''EXECUTE'', ''RISK_CHECK'', ''FEED_UPDATE'']"

fun truthy :: "json option \<Rightarrow> bool" where
  "truthy None = False"
| "truthy (Some JNull) = False"
| "truthy (Some (JBool b)) = b"
| "truthy (Some (JNum n)) = (n \<noteq> 0)"
| "truthy (Some (JStr s)) = (s \<noteq> [])"
| "truthy (Some _) = True"

fun optional_text :: "json option \<Rightarrow> string option option" where
  "optional_text None = Some None"
| "optional_text (Some (JStr s)) = Some (Some s)"
| "optional_text _ = None"

definition read_intent :: "(string \<times> json) list \<Rightarrow> order_intent option" where
  "read_intent es = do {
     p \<leftarrow> optional_text (map_of es ''purpose'');
     f \<leftarrow> optional_text (map_of es ''feed'');
     i \<leftarrow> text_of (map_of es ''id'');
     c \<leftarrow> number_of (map_of es ''chainId'');
     w \<leftarrow> text_of (map_of es ''owner'');
     e \<leftarrow> text_of (map_of es ''executor'');
     v \<leftarrow> text_of (map_of es ''vault'');
     m \<leftarrow> text_of (map_of es ''manifestDigest'');
     s \<leftarrow> text_of (map_of es ''sourceDigest'');
     g \<leftarrow> text_of (map_of es ''grantVersion'');
     n \<leftarrow> text_of (map_of es ''stateVersion'');
     h \<leftarrow> text_of (map_of es ''snapshotHash'');
     d \<leftarrow> text_of (map_of es ''calldata'');
     t \<leftarrow> number_of (map_of es ''createdAt'');
     Some \<lparr>purpose = p, feed = f, order_id = i, chainId = c, order_owner = w, executor = e, order_vault = v,
       manifestDigest = m, sourceDigest = s, grantVersion = g, stateVersion = n, snapshotHash = h,
       calldata = d, createdAt = t\<rparr>}"

definition keys_ok :: "(string \<times> json) list \<Rightarrow> bool" where
  "keys_ok es \<longleftrightarrow>
     length es = 12 + (if truthy (map_of es ''purpose'') then 1 else 0) +
       (if truthy (map_of es ''feed'') then 1 else 0) \<and>
     list_all (\<lambda>e. fst e \<in> set order_fields \<or> fst e \<in> {''purpose'', ''feed''}) es"

definition intent_ok :: "order_intent \<Rightarrow> bool" where
  "intent_ok i \<longleftrightarrow>
     (case purpose i of None \<Rightarrow> True | Some p \<Rightarrow> p \<in> set purposes) \<and>
     ((purpose i = Some ''FEED_UPDATE'') \<longleftrightarrow> feed i \<noteq> None) \<and>
     chainId i = 46630 \<and> order_id_ok (order_id i) \<and>
     list_all digest [manifestDigest i, sourceDigest i, snapshotHash i] \<and>
     list_all integer_text [grantVersion i, stateVersion i] \<and>
     hex_bytes 4 4096 (calldata i) \<and> isSafeInteger (createdAt i) \<and> 0 \<le> createdAt i"

definition normalise_intent :: "order_env \<Rightarrow> order_intent \<Rightarrow> order_error + order_intent" where
  "normalise_intent env i =
     bind_r (walletAddress env (order_owner i)) (\<lambda>w.
     bind_r (walletAddress env (executor i)) (\<lambda>e.
     bind_r (walletAddress env (order_vault i)) (\<lambda>v.
     bind_r (check (w \<noteq> e \<and> v \<noteq> e \<and> v \<noteq> w) ORDER_INPUT) (\<lambda>_.
     bind_r (case feed i of None \<Rightarrow> Inr None
             | Some f \<Rightarrow> if f = [] then Inr None else bind_r (walletAddress env f) (\<lambda>a. Inr (Some a))) (\<lambda>f.
     Inr \<lparr>purpose = (if purpose i = Some [] then None else purpose i), feed = f, order_id = order_id i,
       chainId = 46630, order_owner = w,
       executor = e, order_vault = v, manifestDigest = toLowerCase (manifestDigest i),
       sourceDigest = toLowerCase (sourceDigest i), grantVersion = grantVersion i,
       stateVersion = stateVersion i, snapshotHash = toLowerCase (snapshotHash i),
       calldata = toLowerCase (calldata i), createdAt = createdAt i\<rparr>)))))"

definition validate :: "order_env \<Rightarrow> json \<Rightarrow> order_error + order_intent" where
  "validate env v = (case v of
     JObj es \<Rightarrow>
       (case read_intent es of
          Some i \<Rightarrow>
            if keys_ok es \<and> intent_ok i then
              (case normalise_intent env i of Inr n \<Rightarrow> Inr n | Inl _ \<Rightarrow> Inl ORDER_INPUT)
            else Inl ORDER_INPUT
        | None \<Rightarrow> Inl ORDER_INPUT)
   | _ \<Rightarrow> Inl ORDER_INPUT)"

definition opt_entry :: "string \<Rightarrow> string option \<Rightarrow> (string \<times> json) list" where
  "opt_entry k v = (case v of None \<Rightarrow> [] | Some s \<Rightarrow> [(k, JStr s)])"

definition intent_json :: "order_intent \<Rightarrow> json" where
  "intent_json i = JObj (opt_entry ''purpose'' (purpose i) @ opt_entry ''feed'' (feed i) @
     [(''id'', JStr (order_id i)), (''chainId'', JNum (chainId i)), (''owner'', JStr (order_owner i)),
      (''executor'', JStr (executor i)), (''vault'', JStr (order_vault i)),
      (''manifestDigest'', JStr (manifestDigest i)), (''sourceDigest'', JStr (sourceDigest i)),
      (''grantVersion'', JStr (grantVersion i)), (''stateVersion'', JStr (stateVersion i)),
      (''snapshotHash'', JStr (snapshotHash i)), (''calldata'', JStr (calldata i)),
      (''createdAt'', JNum (createdAt i))])"

definition signed_tx_ok :: "order_env \<Rightarrow> string \<Rightarrow> order_intent \<Rightarrow> string option \<Rightarrow> signed_tx \<Rightarrow> bool" where
  "signed_tx_ok env raw i nonce tx \<longleftrightarrow>
     isSigned tx \<and> tx_chainId tx = 46630 \<and>
     map_option toLowerCase (tx_from tx) = Some (executor i) \<and>
     map_option toLowerCase (tx_to tx) = Some (case feed i of Some f \<Rightarrow> f | None \<Rightarrow> order_vault i) \<and>
     tx_value tx = 0 \<and> Some (toString (tx_nonce tx)) = nonce \<and> toLowerCase (tx_data tx) = calldata i \<and>
     tx_hash tx \<noteq> Some [] \<and> tx_hash tx = Some (keccak_raw env raw)"

definition signedHash :: "order_env \<Rightarrow> string \<Rightarrow> order_intent \<Rightarrow> string option \<Rightarrow> order_error + string" where
  "signedHash env raw i nonce =
     (if hex_bytes 1 16384 raw then
        (case transaction_from env raw of
           Some tx \<Rightarrow> if signed_tx_ok env raw i nonce tx then Inr (the (tx_hash tx))
                      else Inl ORDER_SIGNED_TRANSACTION
         | None \<Rightarrow> Inl ORDER_SIGNED_TRANSACTION)
      else Inl ORDER_SIGNED_TRANSACTION)"

section \<open>The journal\<close>

fun outcome_state :: "outcome \<Rightarrow> order_state" where
  "outcome_state Outcome_Reconciled = RECONCILED"
| "outcome_state Outcome_Reverted = REVERTED"
| "outcome_state Outcome_Reorged = REORGED"

fun state_text :: "order_state \<Rightarrow> string" where
  "state_text PREPARED = ''PREPARED''"
| "state_text RESERVED = ''RESERVED''"
| "state_text SIGNED = ''SIGNED''"
| "state_text BROADCAST_UNCERTAIN = ''BROADCAST_UNCERTAIN''"
| "state_text RECONCILED = ''RECONCILED''"
| "state_text REVERTED = ''REVERTED''"
| "state_text REORGED = ''REORGED''"
| "state_text CANCELLED = ''CANCELLED''"

definition find_order :: "order_journal \<Rightarrow> string \<Rightarrow> order_row option" where
  "find_order j i = find (\<lambda>r. row_id r = i) (orders j)"

definition update_order :: "string \<Rightarrow> (order_row \<Rightarrow> order_row) \<Rightarrow> order_journal \<Rightarrow> order_journal" where
  "update_order i f j = j\<lparr>orders := map (\<lambda>r. if row_id r = i then f r else r) (orders j)\<rparr>"

definition row_intent_of :: "order_env \<Rightarrow> order_row \<Rightarrow> order_error + order_intent" where
  "row_intent_of env r = (case parse_json (row_intent r) of None \<Rightarrow> Inl SYNTAX_ERROR | Some v \<Rightarrow> validate env v)"

definition get_order :: "order_env \<Rightarrow> order_journal \<Rightarrow> string \<Rightarrow> order_error + order_view option" where
  "get_order env j i = (case find_order j i of None \<Rightarrow> Inr None
     | Some r \<Rightarrow> bind_r (row_intent_of env r) (\<lambda>n.
         Inr (Some \<lparr>view_intent = n, view_state = row_state r, view_nonce = row_nonce r,
           view_hash = row_hash r, view_evidence = row_evidence r\<rparr>)))"

definition prepare :: "order_env \<Rightarrow> order_journal \<Rightarrow> json \<Rightarrow> order_error + (order_journal \<times> order_view option)" where
  "prepare env j input =
     bind_r (validate env input) (\<lambda>n.
     let encoded = print_json (intent_json n) in
     bind_r (case find_order j (order_id n) of
        Some r \<Rightarrow> bind_r (check (row_intent r = encoded) ORDER_ID_CONFLICT) (\<lambda>_. Inr j)
      | None \<Rightarrow> Inr (j\<lparr>orders := orders j @ [\<lparr>row_id = order_id n, row_executor = executor n,
          row_intent = encoded, row_state = PREPARED, row_nonce = None, row_raw = None, row_hash = None,
          row_evidence = None\<rparr>]\<rparr>)) (\<lambda>k.
     bind_r (get_order env k (order_id n)) (\<lambda>v. Inr (k, v))))"

definition blocking_states :: "order_state list" where
  "blocking_states = [RESERVED, SIGNED, BROADCAST_UNCERTAIN, REORGED]"

definition blocked :: "order_env \<Rightarrow> order_journal \<Rightarrow> string \<Rightarrow> order_error + bool" where
  "blocked env j e = bind_r (walletAddress env e) (\<lambda>a.
     Inr (list_ex (\<lambda>r. row_executor r = a \<and> row_state r \<in> set blocking_states) (orders j)))"

definition attempts :: "order_journal \<Rightarrow> nat" where
  "attempts j = length (filter (\<lambda>r. row_nonce r \<noteq> None) (orders j))"

definition nonce_ok :: "string \<Rightarrow> bool" where
  "nonce_ok n \<longleftrightarrow> integer_text n \<and> digits_val n \<le> 2147483647"

definition verify_row :: "order_env \<Rightarrow> order_row \<Rightarrow> order_error + unit" where
  "verify_row env r =
     (case row_intent_of env r of Inl _ \<Rightarrow> Inl ORDER_ROW_INTEGRITY | Inr i \<Rightarrow>
        check (int (length (row_intent r)) \<le> 32768 \<and> row_id r = order_id i \<and> row_executor r = executor i \<and>
          (if row_state r \<in> {PREPARED, CANCELLED} then
             row_nonce r = None \<and> row_raw r = None \<and> row_hash r = None \<and> row_evidence r = None
           else
             (case row_nonce r of None \<Rightarrow> False | Some n \<Rightarrow> nonce_ok n) \<and>
             (if row_state r = RESERVED then row_raw r = None \<and> row_hash r = None \<and> row_evidence r = None
              else
                (case row_raw r of None \<Rightarrow> False
                 | Some raw \<Rightarrow> (case signedHash env raw i (row_nonce r) of
                     Inr h \<Rightarrow> row_hash r = Some h | Inl _ \<Rightarrow> False)) \<and>
                (row_state r \<in> {SIGNED, BROADCAST_UNCERTAIN} \<longrightarrow> row_evidence r = None) \<and>
                (row_state r \<in> {RECONCILED, REVERTED, REORGED} \<longrightarrow>
                   (case row_evidence r of None \<Rightarrow> False
                    | Some e \<Rightarrow> e \<noteq> [] \<and> int (length e) \<le> 32768)))))
          ORDER_ROW_INTEGRITY)"

definition verifyRows :: "order_env \<Rightarrow> order_journal \<Rightarrow> order_error + unit" where
  "verifyRows env j =
     bind_r (check (int (length (orders j)) \<le> 1000000) ORDER_ROW_INTEGRITY) (\<lambda>_.
     for_each (verify_row env) (orders j))"

type_synonym latest_outcomes = "(string \<times> string \<times> string) list"

definition outcome_states :: "string list" where
  "outcome_states = [''RECONCILED'', ''REVERTED'', ''REORGED'']"

definition verify_outcome ::
  "order_env \<Rightarrow> order_journal \<Rightarrow> outcome_row \<Rightarrow> latest_outcomes \<Rightarrow> order_error + latest_outcomes" where
  "verify_outcome env j o_row latest =
     bind_r (check (int (length (out_payload o_row)) \<le> 65536 \<and>
         out_sha256 o_row = keccak_text env (out_payload o_row)) ORDER_OUTCOME_INTEGRITY) (\<lambda>_.
     case parse_json (out_payload o_row) of None \<Rightarrow> Inl SYNTAX_ERROR
     | Some (JObj es) \<Rightarrow>
         (case (text_of (map_of es ''id''), text_of (map_of es ''state''), text_of (map_of es ''evidence'')) of
            (Some i, Some s, Some e) \<Rightarrow>
              bind_r (check (i = out_id o_row \<and> s \<in> set outcome_states \<and> e \<noteq> [] \<and> int (length e) \<le> 32768 \<and>
                  length es = 3) ORDER_OUTCOME_INTEGRITY) (\<lambda>_.
              bind_r (get_order env j i) (\<lambda>v.
              bind_r (check (v \<noteq> None) ORDER_OUTCOME_INTEGRITY) (\<lambda>_.
              Inr (AList.update i (s, e) latest))))
          | _ \<Rightarrow> Inl ORDER_OUTCOME_INTEGRITY)
     | Some _ \<Rightarrow> Inl ORDER_OUTCOME_INTEGRITY)"

definition verify_latest :: "order_env \<Rightarrow> order_journal \<Rightarrow> string \<times> string \<times> string \<Rightarrow> order_error + unit" where
  "verify_latest env j l =
     bind_r (get_order env j (fst l)) (\<lambda>v.
     check (case v of None \<Rightarrow> False
        | Some w \<Rightarrow> state_text (view_state w) = fst (snd l) \<and> view_evidence w = Some (snd (snd l)))
       ORDER_OUTCOME_INTEGRITY)"

definition verifyOutcomes :: "order_env \<Rightarrow> order_journal \<Rightarrow> order_error + unit" where
  "verifyOutcomes env j =
     bind_r (check (int (length (order_outcomes j)) \<le> 1000000) ORDER_OUTCOME_INTEGRITY) (\<lambda>_.
     bind_r (fold_r (verify_outcome env j) (order_outcomes j) []) (\<lambda>latest.
     bind_r (for_each (verify_latest env j) latest) (\<lambda>_.
     for_each (\<lambda>r. check (row_id r \<in> set (map fst latest)) ORDER_OUTCOME_INTEGRITY)
       (filter (\<lambda>r. row_state r \<in> {RECONCILED, REVERTED, REORGED}) (orders j)))))"

definition reconcileCandidates ::
  "order_env \<Rightarrow> order_journal \<Rightarrow> string \<Rightarrow> order_error + order_view option list" where
  "reconcileCandidates env j after =
     map_r (\<lambda>e. get_order env j (fst e)) (take 100 (sort_entries (\<lambda>a b. \<not> text_less b a)
       (map (\<lambda>r. (row_id r, ())) (filter (\<lambda>r. text_less after (row_id r) \<and>
         row_state r \<in> {BROADCAST_UNCERTAIN, RECONCILED, REVERTED, REORGED}) (orders j)))))"

definition reserve :: "order_env \<Rightarrow> order_journal \<Rightarrow> string \<Rightarrow> string \<Rightarrow> order_error + order_journal" where
  "reserve env j i nonce =
     bind_r (check (nonce_ok nonce) ORDER_INPUT) (\<lambda>_.
     bind_r (get_order env j i) (\<lambda>v.
     case v of None \<Rightarrow> Inl ORDER_TRANSITION | Some w \<Rightarrow>
     bind_r (check (view_state w = PREPARED) ORDER_TRANSITION) (\<lambda>_.
     bind_r (check (\<not> list_ex (\<lambda>r. row_executor r = executor (view_intent w) \<and> row_nonce r = Some nonce) (orders j))
       ORDER_NONCE_CONFLICT) (\<lambda>_.
     bind_r (blocked env j (executor (view_intent w))) (\<lambda>b.
     bind_r (check (\<not> b) ORDER_EXECUTOR_BLOCKED) (\<lambda>_.
     Inr (update_order i (\<lambda>r. r\<lparr>row_nonce := Some nonce, row_state := RESERVED\<rparr>) j)))))))"

definition signed :: "order_env \<Rightarrow> order_journal \<Rightarrow> string \<Rightarrow> string \<Rightarrow> order_error + (order_journal \<times> string)" where
  "signed env j i raw =
     bind_r (get_order env j i) (\<lambda>v.
     case v of None \<Rightarrow> Inl ORDER_TRANSITION | Some w \<Rightarrow>
     bind_r (check (view_state w = RESERVED) ORDER_TRANSITION) (\<lambda>_.
     bind_r (signedHash env raw (view_intent w) (view_nonce w)) (\<lambda>h.
     Inr (update_order i (\<lambda>r. if row_state r = RESERVED
        then r\<lparr>row_raw := Some raw, row_hash := Some h, row_state := SIGNED\<rparr> else r) j, h))))"

definition claimBroadcast :: "order_env \<Rightarrow> order_journal \<Rightarrow> string \<Rightarrow> order_error + (order_journal \<times> string)" where
  "claimBroadcast env j i =
     (case find (\<lambda>r. row_id r = i \<and> row_state r = SIGNED) (orders j) of None \<Rightarrow> Inl ORDER_TRANSITION
      | Some r \<Rightarrow>
          (case row_raw r of None \<Rightarrow> Inl ORDER_TRANSITION | Some raw \<Rightarrow>
             bind_r (get_order env j i) (\<lambda>v.
             case v of None \<Rightarrow> Inl ORDER_SIGNED_TRANSACTION | Some w \<Rightarrow>
             bind_r (signedHash env raw (view_intent w) (view_nonce w)) (\<lambda>h.
             bind_r (check (row_hash r = Some h) ORDER_SIGNED_TRANSACTION) (\<lambda>_.
             Inr (update_order i (\<lambda>r. r\<lparr>row_state := BROADCAST_UNCERTAIN\<rparr>) j, raw))))))"

definition outcome_json :: "string \<Rightarrow> outcome \<Rightarrow> string \<Rightarrow> json" where
  "outcome_json i s e = JObj [(''id'', JStr i), (''state'', JStr (state_text (outcome_state s))), (''evidence'', JStr e)]"

definition recordOutcome ::
  "order_env \<Rightarrow> order_journal \<Rightarrow> string \<Rightarrow> outcome \<Rightarrow> string \<Rightarrow> order_error + order_journal" where
  "recordOutcome env j i s e =
     bind_r (check (e \<noteq> [] \<and> int (length e) \<le> 32768) ORDER_INPUT) (\<lambda>_.
     bind_r (get_order env j i) (\<lambda>v.
     case v of None \<Rightarrow> Inl ORDER_TRANSITION | Some w \<Rightarrow>
     bind_r (check (view_state w \<in> {BROADCAST_UNCERTAIN, RECONCILED, REVERTED, REORGED}) ORDER_TRANSITION) (\<lambda>_.
     let payload = print_json (outcome_json i s e);
         k = (if view_state w \<noteq> outcome_state s \<or> view_evidence w \<noteq> Some e then
                j\<lparr>order_outcomes := order_outcomes j @ [\<lparr>out_id = i, out_payload = payload,
                   out_sha256 = keccak_text env payload\<rparr>]\<rparr>
              else j)
     in Inr (update_order i (\<lambda>r. r\<lparr>row_state := outcome_state s, row_evidence := Some e\<rparr>) k))))"

definition cancel :: "order_env \<Rightarrow> order_journal \<Rightarrow> string \<Rightarrow> order_error + order_journal" where
  "cancel env j i =
     bind_r (get_order env j i) (\<lambda>v.
     bind_r (check (case v of None \<Rightarrow> False | Some w \<Rightarrow> view_state w = PREPARED) ORDER_TRANSITION) (\<lambda>_.
     Inr (update_order i (\<lambda>r. r\<lparr>row_state := CANCELLED\<rparr>) j)))"

text \<open>The constructor on an empty file, and on the file of an earlier process.\<close>

definition create_journal :: "string \<Rightarrow> order_error + order_journal" where
  "create_journal configuration =
     bind_r (check (digest configuration) ORDER_DATABASE_IDENTITY) (\<lambda>_.
     Inr \<lparr>configuration_hash = toLowerCase configuration, orders = [], order_outcomes = []\<rparr>)"

definition open_journal :: "order_env \<Rightarrow> order_journal \<Rightarrow> string \<Rightarrow> order_error + order_journal" where
  "open_journal env j configuration =
     bind_r (check (digest configuration) ORDER_DATABASE_IDENTITY) (\<lambda>_.
     bind_r (check (configuration_hash j = toLowerCase configuration) ORDER_DATABASE_IDENTITY) (\<lambda>_.
     bind_r (verifyRows env j) (\<lambda>_.
     bind_r (verifyOutcomes env j) (\<lambda>_. Inr j))))"

datatype order_op =
    Prepare json
  | Reserve string string
  | Signed string string
  | Claim_Broadcast string
  | Record_Outcome string outcome string
  | Cancel string

fun order_step :: "order_env \<Rightarrow> order_journal \<Rightarrow> order_op \<Rightarrow> order_error + order_journal" where
  "order_step env j (Prepare v) = bind_r (prepare env j v) (\<lambda>x. Inr (fst x))"
| "order_step env j (Reserve i n) = reserve env j i n"
| "order_step env j (Signed i raw) = bind_r (signed env j i raw) (\<lambda>x. Inr (fst x))"
| "order_step env j (Claim_Broadcast i) = bind_r (claimBroadcast env j i) (\<lambda>x. Inr (fst x))"
| "order_step env j (Record_Outcome i s e) = recordOutcome env j i s e"
| "order_step env j (Cancel i) = cancel env j i"

end
