(* ===== verification/Order_Proofs.thy ===== *)
theory Order_Proofs
  imports Order_Journal
begin

text \<open>
  Facts about the values of the order journal: what it relies on in \<open>ethers\<close> (\<open>ethers_address\<close>), that an
  accepted intent is in normal form and survives being written and read back (\<open>validate_fixed\<close>,
  \<open>intent_text\<close>), and that its text stays under the 32768 characters a row may have (\<open>intent_length\<close>).
\<close>

section \<open>What the journal relies on in ethers\<close>

text \<open>Given forty hexadecimal digits after \<open>0x\<close>, \<open>getAddress\<close> can only return the same address with checksum
  capitals, and it accepts every such address written in lower case.\<close>

definition ethers_address :: "order_env \<Rightarrow> bool" where
  "ethers_address env \<longleftrightarrow>
     (\<forall>v a. hex_digits 40 v \<longrightarrow> getAddress env v = Some a \<longrightarrow> toLowerCase a = toLowerCase v) \<and>
     (\<forall>v. hex_digits 40 v \<longrightarrow> getAddress env (toLowerCase v) \<noteq> None)"

section \<open>Normal forms\<close>

lemma lower_char_zero: "is_hex c \<Longrightarrow> lower_char c = CHR ''0'' \<longleftrightarrow> c = CHR ''0''"
proof -
  have "list_all (\<lambda>c. lower_char c = CHR ''0'' \<longleftrightarrow> c = CHR ''0'') ''0123456789abcdefABCDEF''"
    by code_simp
  then show "is_hex c \<Longrightarrow> ?thesis" by (simp only: list_all_iff is_hex_def)
qed

lemma hex_split:
  assumes "hex_digits k v"
  shows "toLowerCase v = ''0x'' @ map lower_char (drop 2 v)" "list_all is_hex (drop 2 v)"
proof -
  have v: "v = ''0x'' @ drop 2 v" using assms by (metis append_take_drop_id hex_digits_def)
  show "toLowerCase v = ''0x'' @ map lower_char (drop 2 v)"
    by (subst v) (simp add: toLowerCase_def lower_char_def Let_def)
  show "list_all is_hex (drop 2 v)" using assms by (simp add: hex_digits_def)
qed

lemma all_zero_lower: "hex_digits k v \<Longrightarrow> all_zero (toLowerCase v) \<longleftrightarrow> all_zero v"
  using hex_split[of k v] by (auto simp: all_zero_def list_all_iff lower_char_zero hex_digits_def)

lemma digest_lower: "digest v \<Longrightarrow> digest (toLowerCase v) \<and> toLowerCase (toLowerCase v) = toLowerCase v"
  unfolding digest_def using all_zero_lower[of 64 v] hex_digits_lower[of 64 v] by blast

lemma hex_bytes_lower:
  assumes "hex_bytes a b v"
  shows "hex_bytes a b (toLowerCase v) \<and> toLowerCase (toLowerCase v) = toLowerCase v"
proof -
  have h: "hex_digits (length (drop 2 v)) v"
  proof -
    have "length (take 2 v) = 2" using assms by (simp add: hex_bytes_def)
    then have "length v = length (drop 2 v) + 2" by (metis add.commute append_take_drop_id length_append)
    then show ?thesis using assms by (simp add: hex_bytes_def hex_digits_def)
  qed
  then show ?thesis using assms hex_split[OF h] hex_digits_lower[OF h]
    by (simp add: hex_bytes_def hex_digits_def)
qed

lemma walletAddress_Inr:
  assumes "ethers_address env" "walletAddress env v = Inr a"
  shows "a = toLowerCase v" "hex_digits 40 a" "\<not> all_zero a" "walletAddress env a = Inr a"
proof -
  have same: "hex_digits 40 x \<Longrightarrow> getAddress env x = Some y \<Longrightarrow> toLowerCase y = toLowerCase x" for x y
    using assms(1) unfolding ethers_address_def by blast
  obtain c where v: "hex_digits 40 v" "\<not> all_zero v" and c: "getAddress env v = Some c" "a = toLowerCase c"
    using assms(2) by (auto simp: walletAddress_def split: if_splits option.splits)
  have a: "a = toLowerCase v" using same[OF v(1) c(1)] c(2) by simp
  obtain b where b: "getAddress env a = Some b" using assms(1) v(1) a unfolding ethers_address_def by blast
  have "toLowerCase b = toLowerCase a" by (rule same[OF _ b]) (simp add: a hex_digits_lower[OF v(1)])
  then show "a = toLowerCase v" "hex_digits 40 a" "\<not> all_zero a" "walletAddress env a = Inr a"
    using v a b hex_digits_lower[OF v(1)] by (auto simp: walletAddress_def all_zero_lower)
qed

lemmas walletAddress_normal = walletAddress_Inr(4)

lemma address_nonempty: "hex_digits k v \<Longrightarrow> v \<noteq> []"
  by (auto simp: hex_digits_def)

lemma walletAddress_nonempty: "ethers_address env \<Longrightarrow> walletAddress env v \<noteq> Inr []"
  using walletAddress_Inr(2)[of env v "[]"] by (auto simp: hex_digits_def)

lemma normalise_fixed:
  assumes "ethers_address env" "intent_ok i" "normalise_intent env i = Inr n" "feed i \<noteq> Some []"
  shows "intent_ok n \<and> normalise_intent env n = Inr n"
proof -
  from assms(3) obtain w e v f where
    w: "walletAddress env (order_owner i) = Inr w" and e: "walletAddress env (executor i) = Inr e" and
    v: "walletAddress env (order_vault i) = Inr v" and d: "w \<noteq> e" "v \<noteq> e" "v \<noteq> w" and
    f: "(case feed i of None \<Rightarrow> Inr None
         | Some f \<Rightarrow> if f = [] then Inr None else bind_r (walletAddress env f) (\<lambda>a. Inr (Some a))) = Inr f" and
    n: "n = \<lparr>purpose = (if purpose i = Some [] then None else purpose i), feed = f, order_id = order_id i,
       chainId = 46630, order_owner = w,
       executor = e, order_vault = v, manifestDigest = toLowerCase (manifestDigest i),
       sourceDigest = toLowerCase (sourceDigest i), grantVersion = grantVersion i,
       stateVersion = stateVersion i, snapshotHash = toLowerCase (snapshotHash i),
       calldata = toLowerCase (calldata i), createdAt = createdAt i\<rparr>"
    unfolding normalise_intent_def by (auto simp: bind_r_Inr check_Inr split: if_splits)
  have feed: "(f = None) = (feed i = None)"
    using f assms(4) by (auto simp: bind_r_Inr split: option.splits)
  have feed': "(case f of None \<Rightarrow> Inr None
         | Some f \<Rightarrow> if f = [] then Inr None else bind_r (walletAddress env f) (\<lambda>a. Inr (Some a))) = Inr f"
  proof (cases f)
    case (Some a)
    then obtain b where "walletAddress env b = Inr a" using f by (auto simp: bind_r_Inr split: option.splits if_splits)
    then have "walletAddress env a = Inr a" "a \<noteq> []" using walletAddress_Inr[OF assms(1)] address_nonempty by blast+
    then show ?thesis using Some by simp
  qed simp
  have addresses: "walletAddress env w = Inr w" "walletAddress env e = Inr e" "walletAddress env v = Inr v"
    using walletAddress_normal[OF assms(1)] w e v by blast+
  have lower: "digest (toLowerCase x) \<and> toLowerCase (toLowerCase x) = toLowerCase x"
    if "x \<in> {manifestDigest i, sourceDigest i, snapshotHash i}" for x
    using that assms(2) digest_lower[of x] by (auto simp: intent_ok_def)
  have data: "hex_bytes 4 4096 (toLowerCase (calldata i)) \<and> toLowerCase (toLowerCase (calldata i)) = toLowerCase (calldata i)"
    using assms(2) hex_bytes_lower[of 4 4096 "calldata i"] by (simp add: intent_ok_def)
  have p: "purpose i \<noteq> Some []" using assms(2) by (auto simp: intent_ok_def purposes_def)
  have "intent_ok n" using assms(2) n p feed lower data by (simp add: intent_ok_def)
  moreover have "normalise_intent env n = Inr n"
    unfolding normalise_intent_def using n addresses d feed' lower data p by simp
  ultimately show ?thesis ..
qed

lemma normalise_addresses:
  assumes "normalise_intent env i = Inr n"
  shows "walletAddress env (order_owner i) = Inr (order_owner n)" "walletAddress env (executor i) = Inr (executor n)"
    "walletAddress env (order_vault i) = Inr (order_vault n)"
    "feed n = None \<or> (\<exists>f. walletAddress env f = Inr (the (feed n)))"
  using assms unfolding normalise_intent_def by (auto simp: bind_r_Inr split: if_splits option.splits)

lemma read_intent_json: "intent_json i = JObj es \<Longrightarrow> read_intent es = Some i"
  by (cases "purpose i"; cases "feed i") (auto simp: intent_json_def opt_entry_def read_intent_def)

lemma keys_ok_json:
  "intent_json i = JObj es \<Longrightarrow> purpose i \<noteq> Some [] \<Longrightarrow> feed i \<noteq> Some [] \<Longrightarrow> keys_ok es"
  by (cases "purpose i"; cases "feed i") (auto simp: intent_json_def opt_entry_def keys_ok_def order_fields_def)

lemma intent_json_keyed: "keyed (intent_json i)"
  by (cases "purpose i"; cases "feed i") (simp_all add: intent_json_def opt_entry_def)

lemma intent_text: "parse_json (print_json (intent_json i)) = Some (intent_json i)"
  by (simp add: parse_print intent_json_keyed)

lemma optional_text_Some: "optional_text v = Some p \<longleftrightarrow> v = map_option JStr p"
  by (cases v rule: optional_text.cases; cases p) auto

lemma read_keys:
  assumes "read_intent es = Some i" "purpose i \<noteq> None" "feed i \<noteq> None"
  shows "set (''purpose'' # ''feed'' # order_fields) \<subseteq> set (map fst es)"
proof -
  have "\<forall>k\<in>set (''purpose'' # ''feed'' # order_fields). map_of es k \<noteq> None"
    using assms unfolding read_intent_def order_fields_def
    by (auto simp: bind_eq_Some_conv text_of_Some number_of_Some optional_text_Some)
  then show ?thesis by (auto simp: map_of_eq_None_iff)
qed

lemma keys_ok_feed:
  assumes "read_intent es = Some i" "keys_ok es" "intent_ok i"
  shows "feed i \<noteq> Some []"
proof
  assume f: "feed i = Some []"
  then have p: "purpose i = Some ''FEED_UPDATE''" using assms(3) by (simp add: intent_ok_def)
  have "map_of es ''feed'' = Some (JStr [])"
    using assms(1) f by (auto simp: read_intent_def bind_eq_Some_conv optional_text_Some)
  then have "length es \<le> 13" using assms(2) by (simp add: keys_ok_def split: if_splits)
  moreover have "card (set (''purpose'' # ''feed'' # order_fields)) \<le> card (set (map fst es))"
    using read_keys[OF assms(1)] f p by (intro card_mono) auto
  moreover have "card (set (''purpose'' # ''feed'' # order_fields)) = 14"
    by (subst distinct_card) (simp_all add: order_fields_def)
  moreover have "card (set (map fst es)) \<le> length es" by (metis card_length length_map)
  ultimately show False by linarith
qed

text \<open>An accepted intent is in normal form: validating it again changes nothing.\<close>

lemma validate_fixed:
  assumes "ethers_address env" "validate env v = Inr n"
  shows "validate env (intent_json n) = Inr n" "intent_ok n" "feed n \<noteq> Some []"
    "walletAddress env (executor n) = Inr (executor n)" "hex_digits 40 (order_owner n)"
    "hex_digits 40 (executor n)" "hex_digits 40 (order_vault n)" "case feed n of None \<Rightarrow> True | Some f \<Rightarrow> hex_digits 40 f"
proof -
  obtain es i where i: "read_intent es = Some i" "keys_ok es" "intent_ok i" "normalise_intent env i = Inr n"
    using assms(2) by (auto simp: validate_def split: json.splits option.splits if_splits sum.splits)
  note fixed = normalise_fixed[OF assms(1) i(3,4) keys_ok_feed[OF i(1-3)]]
  obtain fs where fs: "intent_json n = JObj fs" by (simp add: intent_json_def)
  show nf: "feed n \<noteq> Some []" using keys_ok_feed[OF i(1-3)] i(4) walletAddress_nonempty[OF assms(1)]
    unfolding normalise_intent_def
    by (auto simp: bind_r_Inr split: option.splits if_splits)
  show ok: "intent_ok n" using fixed by blast
  have "purpose n \<noteq> Some []" using ok by (auto simp: intent_ok_def purposes_def)
  then show "validate env (intent_json n) = Inr n"
    using fixed fs read_intent_json[OF fs] keys_ok_json[OF fs] nf by (simp add: validate_def)
  show "walletAddress env (executor n) = Inr (executor n)" "hex_digits 40 (order_owner n)"
    "hex_digits 40 (executor n)" "hex_digits 40 (order_vault n)" "case feed n of None \<Rightarrow> True | Some f \<Rightarrow> hex_digits 40 f"
    using normalise_addresses[OF i(4)] walletAddress_Inr[OF assms(1)] by (auto split: option.splits)
qed

section \<open>The size of an intent\<close>

definition plain :: "char \<Rightarrow> bool" where
  "plain c \<longleftrightarrow> 32 \<le> (of_char c :: nat) \<and> c \<noteq> CHR 34 \<and> c \<noteq> CHR 92"

lemma plain_classes:
  "is_hex c \<Longrightarrow> plain c" "is_alnum c \<Longrightarrow> plain c" "is_digit c \<Longrightarrow> plain c" "id_tail c \<Longrightarrow> plain c"
proof -
  have "list_all plain ''0123456789abcdefABCDEF''" "list_all plain ''0123456789''" "list_all plain ''._-''"
    "list_all plain ''ABCDEFGHIJKLMNOPQRSTUVWXYZabcdefghijklmnopqrstuvwxyz0123456789''"
    by code_simp+
  then show "is_hex c \<Longrightarrow> plain c" "is_alnum c \<Longrightarrow> plain c" "is_digit c \<Longrightarrow> plain c" "id_tail c \<Longrightarrow> plain c"
    unfolding is_hex_def is_alnum_def is_digit_def id_tail_def list_all_iff by blast+
qed

lemma length_quote_plain: "list_all plain s \<Longrightarrow> length (quote s) = length s + 2"
proof -
  have "list_all plain s \<Longrightarrow> concat (map esc s) = s"
    by (induction s) (auto simp: plain_def esc_plain)
  then show "list_all plain s \<Longrightarrow> ?thesis" by (simp add: quote_def)
qed

lemma length_quote_hex: "hex_digits k v \<Longrightarrow> length (quote v) = k + 4"
proof -
  assume h: "hex_digits k v"
  then have "v = ''0x'' @ drop 2 v" by (metis append_take_drop_id hex_digits_def)
  moreover have "list_all plain (''0x'' @ drop 2 v)"
    using h plain_classes(1) by (auto simp: hex_digits_def list_all_iff plain_def)
  ultimately show ?thesis using h length_quote_plain[of v] by (simp add: hex_digits_def)
qed

lemma length_quote_bytes: "hex_bytes a b v \<Longrightarrow> int (length (quote v)) \<le> 2 * b + 4"
proof -
  assume h: "hex_bytes a b v"
  then have v: "v = ''0x'' @ drop 2 v" by (metis append_take_drop_id hex_bytes_def)
  have "list_all plain (''0x'' @ drop 2 v)"
    using h plain_classes(1) by (auto simp: hex_bytes_def list_all_iff plain_def)
  then have "length (quote v) = length v + 2" using v length_quote_plain[of v] by argo
  moreover have "length v = length (drop 2 v) + 2" using arg_cong[OF v, of length] by simp
  moreover have "int (length (drop 2 v)) \<le> 2 * b" using h by (simp only: hex_bytes_def)
  ultimately show ?thesis by linarith
qed

lemma length_quote_integer: "integer_text v \<Longrightarrow> length (quote v) \<le> 80"
proof -
  assume "integer_text v"
  then have "list_all is_digit v" "length v \<le> 78"
    by (auto simp: integer_text_def canonical_dec_def is_digit_def split: list.splits)
  then show ?thesis using length_quote_plain[of v] plain_classes(3) by (auto simp: list_all_iff)
qed

lemma length_quote_id: "order_id_ok v \<Longrightarrow> length (quote v) \<le> 98"
proof -
  assume h: "order_id_ok v"
  then have "list_all plain v" using plain_classes(2,4)
    by (cases v) (auto simp: order_id_ok_def list_all_iff)
  then show ?thesis using h length_quote_plain[of v] by (cases v) (auto simp: order_id_ok_def)
qed

lemma length_createdAt: "0 \<le> n \<Longrightarrow> isSafeInteger n \<Longrightarrow> length (toString n) \<le> 16"
  using length_dec_digits_le[of n 15] by (simp add: isSafeInteger_def MAX_SAFE_INTEGER_def toString_nonneg)

lemma length_print_entries_append:
  "length (print_entries (xs @ ys)) \<le> length (print_entries xs) + length (print_entries ys) + 1"
  by (induction xs) auto

lemma intent_length:
  assumes "ethers_address env" "validate env v = Inr n"
  shows "int (length (print_json (intent_json n))) \<le> 32768"
proof -
  note f = validate_fixed[OF assms]
  have d: "length (quote x) = 68" if "digest x" for x using that length_quote_hex[of 64] by (simp add: digest_def)
  have a: "length (quote x) = 44" if "hex_digits 40 x" for x using that length_quote_hex[of 40] by simp
  have p: "length (print_entries (opt_entry ''purpose'' (purpose n))) \<le> 30"
    using f(2) by (auto simp: intent_ok_def purposes_def opt_entry_def quote_def esc_def split: option.splits)
  have e: "length (print_entries (opt_entry ''feed'' (feed n))) \<le> 60"
    using f(8) a by (auto simp: opt_entry_def quote_def esc_def split: option.splits)
  have keys: "length (quote ''id'') = 4" "length (quote ''chainId'') = 9" "length (quote ''owner'') = 7"
    "length (quote ''executor'') = 10" "length (quote ''vault'') = 7" "length (quote ''manifestDigest'') = 16"
    "length (quote ''sourceDigest'') = 14" "length (quote ''grantVersion'') = 14" "length (quote ''stateVersion'') = 14"
    "length (quote ''snapshotHash'') = 14" "length (quote ''calldata'') = 10" "length (quote ''createdAt'') = 11"
    by code_simp+
  define fixed where "fixed = [(''id'', JStr (order_id n)), (''chainId'', JNum (chainId n)), (''owner'', JStr (order_owner n)),
      (''executor'', JStr (executor n)), (''vault'', JStr (order_vault n)),
      (''manifestDigest'', JStr (manifestDigest n)), (''sourceDigest'', JStr (sourceDigest n)),
      (''grantVersion'', JStr (grantVersion n)), (''stateVersion'', JStr (stateVersion n)),
      (''snapshotHash'', JStr (snapshotHash n)), (''calldata'', JStr (calldata n)),
      (''createdAt'', JNum (createdAt n))]"
  have "length (toString 46630) = 5" by code_simp
  then have "int (length (print_entries fixed)) \<le> 20000"
    using f(2,5-7) length_quote_id[of "order_id n"] length_createdAt[of "createdAt n"]
      length_quote_integer[of "grantVersion n"] length_quote_integer[of "stateVersion n"]
      length_quote_bytes[of 4 4096 "calldata n"]
    by (simp add: fixed_def keys a d intent_ok_def)
  moreover have "length (print_json (intent_json n)) \<le> length (print_entries fixed) + 94"
    using p e length_print_entries_append[of "opt_entry ''purpose'' (purpose n)" "opt_entry ''feed'' (feed n) @ fixed"]
      length_print_entries_append[of "opt_entry ''feed'' (feed n)" fixed]
    by (simp add: intent_json_def fixed_def)
  ultimately show ?thesis by linarith
qed

end
