(* ===== verification/Order_Invariant.thy ===== *)
theory Order_Invariant
  imports Order_Proofs
begin

text \<open>
  What every operation of the order journal keeps. \<open>rows_inv\<close> says of the table \<open>orders\<close> what \<open>verifyRows\<close>
  checks row by row, and that no executor has one nonce twice; \<open>history_inv\<close> relates \<open>order_outcomes\<close> to
  the settled rows: the last outcome recorded for an order is the one its row shows. Hence the checks the
  constructor makes on the file of an earlier process succeed on every file the journal wrote.
\<close>

section \<open>Rows\<close>

definition rows_inv :: "order_env \<Rightarrow> order_journal \<Rightarrow> bool" where
  "rows_inv env j \<longleftrightarrow> distinct (map row_id (orders j)) \<and>
     list_all (\<lambda>r. verify_row env r = Inr ()) (orders j) \<and>
     (\<forall>r\<in>set (orders j). \<forall>s\<in>set (orders j).
        row_nonce r \<noteq> None \<and> row_nonce r = row_nonce s \<and> row_executor r = row_executor s \<longrightarrow> row_id r = row_id s)"

definition settled :: "order_state \<Rightarrow> bool" where
  "settled s \<longleftrightarrow> s \<in> {RECONCILED, REVERTED, REORGED}"

lemma rows_inv_cong: "orders j = orders k \<Longrightarrow> rows_inv env j \<longleftrightarrow> rows_inv env k"
  by (simp only: rows_inv_def)

lemma find_order_Some:
  "find_order j i = Some r \<Longrightarrow> r \<in> set (orders j) \<and> row_id r = i"
  by (auto simp: find_order_def find_Some_iff)

lemma find_order_iff:
  "rows_inv env j \<Longrightarrow> find_order j i = Some r \<longleftrightarrow> r \<in> set (orders j) \<and> row_id r = i"
proof
  assume inv: "rows_inv env j" and r: "r \<in> set (orders j) \<and> row_id r = i"
  then obtain s where s: "find_order j i = Some s"
    by (cases "find_order j i") (auto simp: find_order_def find_None_iff)
  then have "s = r" using r find_order_Some[OF s] inv
    by (auto simp: rows_inv_def distinct_map inj_on_def)
  then show "find_order j i = Some r" using s by simp
qed (use find_order_Some in blast)

lemma find_order_None: "find_order j i = None \<longleftrightarrow> i \<notin> set (map row_id (orders j))"
  by (auto simp: find_order_def find_None_iff)

lemma row_intent_of_cong [simp]:
  "row_intent_of env (r\<lparr>row_state := s\<rparr>) = row_intent_of env r"
  "row_intent_of env (r\<lparr>row_nonce := n\<rparr>) = row_intent_of env r"
  "row_intent_of env (r\<lparr>row_raw := w\<rparr>) = row_intent_of env r"
  "row_intent_of env (r\<lparr>row_hash := h\<rparr>) = row_intent_of env r"
  "row_intent_of env (r\<lparr>row_evidence := e\<rparr>) = row_intent_of env r"
  by (simp_all add: row_intent_of_def)

lemma get_order_Some:
  "get_order env j i = Inr (Some w) \<Longrightarrow> \<exists>r. find_order j i = Some r \<and> row_intent_of env r = Inr (view_intent w) \<and>
     view_state w = row_state r \<and> view_nonce w = row_nonce r \<and> view_hash w = row_hash r \<and> view_evidence w = row_evidence r"
  by (auto simp: get_order_def bind_r_Inr split: option.splits)

lemma get_order_row:
  assumes "find_order j i = Some r" "verify_row env r = Inr ()"
  obtains w where "get_order env j i = Inr (Some w)" "row_intent_of env r = Inr (view_intent w)"
    "view_state w = row_state r" "view_nonce w = row_nonce r" "view_hash w = row_hash r"
    "view_evidence w = row_evidence r" "executor (view_intent w) = row_executor r" "order_id (view_intent w) = i"
proof -
  obtain n where n: "row_intent_of env r = Inr n"
    using assms(2) by (auto simp: verify_row_def split: sum.splits)
  then have "executor n = row_executor r" "order_id n = row_id r"
    using assms(2) by (auto simp: verify_row_def check_Inr)
  then show ?thesis using n assms(1) find_order_Some[OF assms(1)]
    by (intro that[of "\<lparr>view_intent = n, view_state = row_state r, view_nonce = row_nonce r,
           view_hash = row_hash r, view_evidence = row_evidence r\<rparr>"]) (simp_all add: get_order_def)
qed

lemma row_ok: "rows_inv env j \<Longrightarrow> r \<in> set (orders j) \<Longrightarrow> verify_row env r = Inr ()"
  by (simp add: rows_inv_def list_all_iff)

lemma find_row_ok: "rows_inv env j \<Longrightarrow> find_order j i = Some r \<Longrightarrow> verify_row env r = Inr ()"
  using row_ok find_order_Some by blast

lemma update_rows: "set (orders (update_order i f j)) = (\<lambda>r. if row_id r = i then f r else r) ` set (orders j)"
  by (simp add: update_order_def)

lemma update_rows_inv:
  assumes inv: "rows_inv env j" and r: "find_order j i = Some r" and ok: "verify_row env (f r) = Inr ()"
    and keep: "row_id (f r) = row_id r" "row_executor (f r) = row_executor r"
    and nonce: "row_nonce (f r) = row_nonce r \<or>
      (\<forall>s\<in>set (orders j). row_executor s = row_executor r \<longrightarrow> row_nonce s \<noteq> row_nonce (f r))"
  shows "rows_inv env (update_order i f j)"
proof -
  let ?g = "\<lambda>r. if row_id r = i then f r else r"
  have uniq: "s = r" if "s \<in> set (orders j)" "row_id s = i" for s
    using that r find_order_iff[OF inv, of i s] by simp
  have ids: "row_id (?g s) = row_id s" "row_executor (?g s) = row_executor s" if "s \<in> set (orders j)" for s
    using that uniq keep by auto
  have "map row_id (map ?g (orders j)) = map row_id (orders j)" using ids(1) by simp
  then have 1: "distinct (map row_id (orders (update_order i f j)))"
    using inv unfolding rows_inv_def update_order_def by (simp del: map_map)
  have 2: "list_all (\<lambda>r. verify_row env r = Inr ()) (orders (update_order i f j))"
    using row_ok[OF inv] uniq ok by (auto simp: list_all_iff update_rows)
  have U: "row_id s = row_id t" if "s \<in> set (orders j)" "t \<in> set (orders j)"
    "row_nonce s \<noteq> None" "row_nonce s = row_nonce t" "row_executor s = row_executor t" for s t
    using inv that unfolding rows_inv_def by blast
  have other: "row_nonce a \<noteq> row_nonce (f r)"
    if "a \<in> set (orders j)" "row_id a \<noteq> i" "row_executor a = row_executor r" "row_nonce (f r) \<noteq> None" for a
  proof
    assume eq: "row_nonce a = row_nonce (f r)"
    then have "row_nonce (f r) = row_nonce r" using nonce that(1,3) by blast
    then show False using U[of a r] that eq find_order_Some[OF r] by metis
  qed
  have pair: "row_id s = row_id t" if st: "s \<in> set (orders j)" "t \<in> set (orders j)"
    "row_nonce (?g s) \<noteq> None" "row_nonce (?g s) = row_nonce (?g t)" "row_executor s = row_executor t" for s t
  proof (cases "row_id s = i"; cases "row_id t = i")
    assume "row_id s = i" "row_id t \<noteq> i"
    then show ?thesis using st other[of t] uniq[of s] by simp
  next
    assume "row_id s \<noteq> i" "row_id t = i"
    then show ?thesis using st other[of s] uniq[of t] by simp
  qed (use st U[of s t] in simp_all)
  have 3: "\<forall>a\<in>set (orders (update_order i f j)). \<forall>b\<in>set (orders (update_order i f j)).
        row_nonce a \<noteq> None \<and> row_nonce a = row_nonce b \<and> row_executor a = row_executor b \<longrightarrow> row_id a = row_id b"
  proof (intro ballI impI)
    fix a b
    assume "a \<in> set (orders (update_order i f j))" "b \<in> set (orders (update_order i f j))"
      and n: "row_nonce a \<noteq> None \<and> row_nonce a = row_nonce b \<and> row_executor a = row_executor b"
    then obtain s t where s: "s \<in> set (orders j)" "a = ?g s" and t: "t \<in> set (orders j)" "b = ?g t"
      unfolding update_rows by blast
    have "row_id s = row_id t"
      using n[unfolded s(2) t(2)] ids(2)[OF s(1)] ids(2)[OF t(1)] by (intro pair s(1) t(1)) metis+
    then show "row_id a = row_id b" using s(2) t(2) ids(1)[OF s(1)] ids(1)[OF t(1)] by simp
  qed
  show ?thesis using 1 2 3 by (simp add: rows_inv_def)
qed

text \<open>What a successful operation did, in terms of the row it was given.\<close>

lemma reserve_Inr:
  assumes "rows_inv env j" "reserve env j i n = Inr k"
  obtains r where "find_order j i = Some r" "row_state r = PREPARED" "nonce_ok n"
    "\<forall>s\<in>set (orders j). row_executor s = row_executor r \<longrightarrow> row_nonce s \<noteq> Some n"
    "blocked env j (row_executor r) = Inr False"
    "k = update_order i (\<lambda>r. r\<lparr>row_nonce := Some n, row_state := RESERVED\<rparr>) j"
proof -
  from assms(2) obtain w where w: "get_order env j i = Inr (Some w)" "nonce_ok n" "view_state w = PREPARED"
    "\<not> list_ex (\<lambda>r. row_executor r = executor (view_intent w) \<and> row_nonce r = Some n) (orders j)"
    "blocked env j (executor (view_intent w)) = Inr False"
    "k = update_order i (\<lambda>r. r\<lparr>row_nonce := Some n, row_state := RESERVED\<rparr>) j"
    unfolding reserve_def by (auto simp: bind_r_Inr split: option.splits if_splits)
  obtain r where r: "find_order j i = Some r" using get_order_Some[OF w(1)] by blast
  obtain w' where "get_order env j i = Inr (Some w')" "view_state w' = row_state r" "executor (view_intent w') = row_executor r"
    by (rule get_order_row[OF r find_row_ok[OF assms(1) r]])
  then show ?thesis using w r that by (auto simp: list_ex_iff)
qed

lemma signed_Inr:
  assumes "rows_inv env j" "signed env j i raw = Inr (k, h)"
  obtains r n where "find_order j i = Some r" "row_state r = RESERVED" "row_intent_of env r = Inr n"
    "signedHash env raw n (row_nonce r) = Inr h"
    "k = update_order i (\<lambda>r. if row_state r = RESERVED
        then r\<lparr>row_raw := Some raw, row_hash := Some h, row_state := SIGNED\<rparr> else r) j"
proof -
  from assms(2) obtain w where w: "get_order env j i = Inr (Some w)" "view_state w = RESERVED"
    "signedHash env raw (view_intent w) (view_nonce w) = Inr h"
    "k = update_order i (\<lambda>r. if row_state r = RESERVED
        then r\<lparr>row_raw := Some raw, row_hash := Some h, row_state := SIGNED\<rparr> else r) j"
    unfolding signed_def by (auto simp: bind_r_Inr split: option.splits if_splits)
  then show ?thesis using get_order_Some[OF w(1)] that by auto
qed

lemma claim_Inr:
  assumes "rows_inv env j" "claimBroadcast env j i = Inr (k, raw)"
  obtains r where "find_order j i = Some r" "row_state r = SIGNED" "row_raw r = Some raw"
    "k = update_order i (\<lambda>r. r\<lparr>row_state := BROADCAST_UNCERTAIN\<rparr>) j"
proof -
  from assms(2) obtain r where r: "find (\<lambda>r. row_id r = i \<and> row_state r = SIGNED) (orders j) = Some r"
    "row_raw r = Some raw" "k = update_order i (\<lambda>r. r\<lparr>row_state := BROADCAST_UNCERTAIN\<rparr>) j"
    unfolding claimBroadcast_def by (auto simp: bind_r_Inr split: option.splits if_splits)
  then have "r \<in> set (orders j)" "row_id r = i" "row_state r = SIGNED" by (auto simp: find_Some_iff)
  then show ?thesis using r(2,3) that find_order_iff[OF assms(1), of i r] by blast
qed

lemma outcome_Inr:
  assumes "recordOutcome env j i s e = Inr k"
  obtains r where "find_order j i = Some r" "row_state r \<in> {BROADCAST_UNCERTAIN, RECONCILED, REVERTED, REORGED}"
    "e \<noteq> []" "int (length e) \<le> 32768"
    "k = update_order i (\<lambda>r. r\<lparr>row_state := outcome_state s, row_evidence := Some e\<rparr>)
       (if row_state r \<noteq> outcome_state s \<or> row_evidence r \<noteq> Some e
        then j\<lparr>order_outcomes := order_outcomes j @ [\<lparr>out_id = i, out_payload = print_json (outcome_json i s e),
           out_sha256 = keccak_text env (print_json (outcome_json i s e))\<rparr>]\<rparr> else j)"
proof -
  have e: "e \<noteq> []" "int (length e) \<le> 32768"
    using assms unfolding recordOutcome_def by (auto split: if_splits)
  obtain w where w: "get_order env j i = Inr (Some w)"
    using assms e unfolding recordOutcome_def
    by (cases "get_order env j i") (auto split: option.splits)
  obtain r where r: "find_order j i = Some r" "view_state w = row_state r" "view_evidence w = row_evidence r"
    using get_order_Some[OF w] by blast
  have st: "row_state r \<in> {BROADCAST_UNCERTAIN, RECONCILED, REVERTED, REORGED}"
    using assms e w r(2) unfolding recordOutcome_def by (simp split: if_splits)
  show ?thesis
    by (rule that[OF r(1) st e]) (use assms e w r(2,3) st in \<open>simp add: recordOutcome_def Let_def\<close>)
qed

lemma cancel_Inr:
  assumes "cancel env j i = Inr k"
  obtains r where "find_order j i = Some r" "row_state r = PREPARED"
    "k = update_order i (\<lambda>r. r\<lparr>row_state := CANCELLED\<rparr>) j"
proof -
  from assms obtain w where w: "get_order env j i = Inr (Some w)" "view_state w = PREPARED"
    "k = update_order i (\<lambda>r. r\<lparr>row_state := CANCELLED\<rparr>) j"
    unfolding cancel_def by (auto simp: bind_r_Inr split: option.splits if_splits)
  then show ?thesis using get_order_Some[OF w(1)] that by auto
qed

lemma prepare_Inr:
  assumes "prepare env j v = Inr (k, w)"
  obtains (old) "k = j"
  | (fresh) n where "validate env v = Inr n" "order_id n \<notin> set (map row_id (orders j))"
    "k = j\<lparr>orders := orders j @ [\<lparr>row_id = order_id n, row_executor = executor n,
          row_intent = print_json (intent_json n), row_state = PREPARED, row_nonce = None, row_raw = None,
          row_hash = None, row_evidence = None\<rparr>]\<rparr>"
proof -
  obtain n where n: "validate env v = Inr n" using assms unfolding prepare_def by (auto simp: bind_r_Inr)
  show ?thesis
  proof (cases "find_order j (order_id n)")
    case None
    then have "order_id n \<notin> set (map row_id (orders j))" by (simp only: find_order_None not_False_eq_True)
    then show ?thesis using assms None n by (intro fresh[of n]) (auto simp: prepare_def Let_def bind_r_Inr)
  next
    case (Some r)
    then show ?thesis using assms n by (intro old) (auto simp: prepare_def Let_def bind_r_Inr split: if_splits)
  qed
qed

section \<open>Outcomes\<close>

type_synonym outcome_history = "(string \<times> outcome \<times> string) list"

definition outcome_row_of :: "order_env \<Rightarrow> string \<times> outcome \<times> string \<Rightarrow> outcome_row" where
  "outcome_row_of env h = (case h of (i, s, e) \<Rightarrow> \<lparr>out_id = i, out_payload = print_json (outcome_json i s e),
     out_sha256 = keccak_text env (print_json (outcome_json i s e))\<rparr>)"

definition latest_of :: "outcome_history \<Rightarrow> latest_outcomes" where
  "latest_of hist = foldl (\<lambda>m h. AList.update (fst h) (state_text (outcome_state (fst (snd h))), snd (snd h)) m) [] hist"

definition row_outcome :: "order_row \<Rightarrow> (string \<times> string) option" where
  "row_outcome r = (if settled (row_state r) then map_option (\<lambda>e. (state_text (row_state r), e)) (row_evidence r) else None)"

definition history_inv :: "order_env \<Rightarrow> order_journal \<Rightarrow> outcome_history \<Rightarrow> bool" where
  "history_inv env j hist \<longleftrightarrow> order_outcomes j = map (outcome_row_of env) hist \<and>
     (\<forall>h\<in>set hist. snd (snd h) \<noteq> [] \<and> int (length (snd (snd h))) \<le> 32768 \<and> fst h \<in> set (map row_id (orders j))) \<and>
     (\<forall>r\<in>set (orders j). map_of (latest_of hist) (row_id r) = row_outcome r)"

definition order_inv :: "order_env \<Rightarrow> order_journal \<Rightarrow> bool" where
  "order_inv env j \<longleftrightarrow> rows_inv env j \<and> (\<exists>hist. history_inv env j hist)"

lemma latest_of_snoc:
  "map_of (latest_of (hist @ [(i, s, e)])) = (map_of (latest_of hist))(i \<mapsto> (state_text (outcome_state s), e))"
  by (simp add: latest_of_def update_conv')

lemma settled_outcome [simp]: "settled (outcome_state s)"
  by (cases s) (simp_all add: settled_def)

lemma update_ids:
  "rows_inv env j \<Longrightarrow> find_order j i = Some r \<Longrightarrow> row_id (f r) = row_id r \<Longrightarrow>
   map row_id (orders (update_order i f j)) = map row_id (orders j)"
proof -
  assume "rows_inv env j" "find_order j i = Some r" "row_id (f r) = row_id r"
  then have "row_id (if row_id s = i then f s else s) = row_id s" if "s \<in> set (orders j)" for s
    using that find_order_iff[of env j i s] by auto
  then show ?thesis by (simp add: update_order_def)
qed

lemma update_history_inv:
  assumes inv: "rows_inv env j" and r: "find_order j i = Some r" and "row_id (f r) = row_id r"
    and "history_inv env j hist" "\<not> settled (row_state r)" "\<not> settled (row_state (f r))"
  shows "history_inv env (update_order i f j) hist"
proof -
  have uniq: "s = r" if "s \<in> set (orders j)" "row_id s = i" for s
    using that r find_order_iff[OF inv, of i s] by simp
  have "order_outcomes (update_order i f j) = order_outcomes j" by (simp add: update_order_def)
  moreover have "map_of (latest_of hist) (row_id s) = row_outcome s" if s: "s \<in> set (orders (update_order i f j))" for s
  proof -
    obtain t where t: "t \<in> set (orders j)" "s = (if row_id t = i then f t else t)" using s unfolding update_rows by blast
    have "map_of (latest_of hist) (row_id t) = row_outcome t" using assms(4) t(1) by (simp add: history_inv_def)
    then show ?thesis using t uniq[OF t(1)] assms(3,5,6) by (auto simp: row_outcome_def)
  qed
  ultimately show ?thesis using assms(4) update_ids[OF inv r, of f] assms(3) unfolding history_inv_def by metis
qed

lemma update_order_inv:
  assumes "order_inv env j" and r: "find_order j i = Some r" and "verify_row env (f r) = Inr ()"
    and "row_id (f r) = row_id r" "row_executor (f r) = row_executor r"
    and "row_nonce (f r) = row_nonce r \<or>
      (\<forall>s\<in>set (orders j). row_executor s = row_executor r \<longrightarrow> row_nonce s \<noteq> row_nonce (f r))"
    and "\<not> settled (row_state r)" "\<not> settled (row_state (f r))"
  shows "order_inv env (update_order i f j)"
  using assms update_rows_inv[of env j i r f] update_history_inv[of env j i r f] unfolding order_inv_def by blast

section \<open>Every operation keeps the invariant\<close>

lemma verify_row_Inr:
  "row_intent_of env r = Inr n \<Longrightarrow> verify_row env r = Inr () \<longleftrightarrow>
     int (length (row_intent r)) \<le> 32768 \<and> row_id r = order_id n \<and> row_executor r = executor n \<and>
     (if row_state r \<in> {PREPARED, CANCELLED} then
        row_nonce r = None \<and> row_raw r = None \<and> row_hash r = None \<and> row_evidence r = None
      else
        (case row_nonce r of None \<Rightarrow> False | Some n \<Rightarrow> nonce_ok n) \<and>
        (if row_state r = RESERVED then row_raw r = None \<and> row_hash r = None \<and> row_evidence r = None
         else
           (case row_raw r of None \<Rightarrow> False
            | Some raw \<Rightarrow> (case signedHash env raw n (row_nonce r) of
                Inr h \<Rightarrow> row_hash r = Some h | Inl _ \<Rightarrow> False)) \<and>
           (row_state r \<in> {SIGNED, BROADCAST_UNCERTAIN} \<longrightarrow> row_evidence r = None) \<and>
           (row_state r \<in> {RECONCILED, REVERTED, REORGED} \<longrightarrow>
              (case row_evidence r of None \<Rightarrow> False
               | Some e \<Rightarrow> e \<noteq> [] \<and> int (length e) \<le> 32768))))"
  by (simp add: verify_row_def check_Inr)

lemma verified_intent: "verify_row env r = Inr () \<Longrightarrow> \<exists>n. row_intent_of env r = Inr n"
  by (auto simp: verify_row_def split: sum.splits)

lemma reserve_inv:
  assumes "order_inv env j" "reserve env j i n = Inr k"
  shows "order_inv env k"
proof -
  have inv: "rows_inv env j" using assms(1) by (simp add: order_inv_def)
  obtain r where r: "find_order j i = Some r" "row_state r = PREPARED" "nonce_ok n"
    "\<forall>s\<in>set (orders j). row_executor s = row_executor r \<longrightarrow> row_nonce s \<noteq> Some n"
    and k: "k = update_order i (\<lambda>r. r\<lparr>row_nonce := Some n, row_state := RESERVED\<rparr>) j"
    by (rule reserve_Inr[OF inv assms(2)])
  note ok = find_row_ok[OF inv r(1)]
  obtain m where m: "row_intent_of env r = Inr m" using verified_intent[OF ok] by blast
  show ?thesis unfolding k
    using ok r m by (intro update_order_inv[OF assms(1) r(1)]) (simp_all add: verify_row_Inr settled_def)
qed

lemma signed_inv:
  assumes "order_inv env j" "signed env j i raw = Inr (k, h)"
  shows "order_inv env k"
proof -
  have inv: "rows_inv env j" using assms(1) by (simp add: order_inv_def)
  obtain r n where r: "find_order j i = Some r" "row_state r = RESERVED" "row_intent_of env r = Inr n"
    "signedHash env raw n (row_nonce r) = Inr h"
    and k: "k = update_order i (\<lambda>r. if row_state r = RESERVED
        then r\<lparr>row_raw := Some raw, row_hash := Some h, row_state := SIGNED\<rparr> else r) j"
    by (rule signed_Inr[OF inv assms(2)])
  note ok = find_row_ok[OF inv r(1)]
  show ?thesis unfolding k
    using ok r by (intro update_order_inv[OF assms(1) r(1)]) (simp_all add: verify_row_Inr settled_def)
qed

lemma claim_inv:
  assumes "order_inv env j" "claimBroadcast env j i = Inr (k, raw)"
  shows "order_inv env k"
proof -
  have inv: "rows_inv env j" using assms(1) by (simp add: order_inv_def)
  obtain r where r: "find_order j i = Some r" "row_state r = SIGNED"
    and k: "k = update_order i (\<lambda>r. r\<lparr>row_state := BROADCAST_UNCERTAIN\<rparr>) j"
    by (rule claim_Inr[OF inv assms(2)])
  note ok = find_row_ok[OF inv r(1)]
  obtain m where m: "row_intent_of env r = Inr m" using verified_intent[OF ok] by blast
  show ?thesis unfolding k
    using ok r m by (intro update_order_inv[OF assms(1) r(1)]) (simp_all add: verify_row_Inr settled_def split: option.splits sum.splits)
qed

lemma cancel_inv:
  assumes "order_inv env j" "cancel env j i = Inr k"
  shows "order_inv env k"
proof -
  have inv: "rows_inv env j" using assms(1) by (simp add: order_inv_def)
  obtain r where r: "find_order j i = Some r" "row_state r = PREPARED"
    and k: "k = update_order i (\<lambda>r. r\<lparr>row_state := CANCELLED\<rparr>) j"
    by (rule cancel_Inr[OF assms(2)])
  note ok = find_row_ok[OF inv r(1)]
  obtain m where m: "row_intent_of env r = Inr m" using verified_intent[OF ok] by blast
  show ?thesis unfolding k
    using ok r m by (intro update_order_inv[OF assms(1) r(1)]) (simp_all add: verify_row_Inr settled_def)
qed

lemma prepare_inv:
  assumes env: "ethers_address env" and inv: "order_inv env j" and "prepare env j v = Inr (k, w)"
  shows "order_inv env k"
  using assms(3)
proof (cases rule: prepare_Inr)
  case (fresh n)
  note fixed = validate_fixed[OF env fresh(1)]
  let ?r = "\<lparr>row_id = order_id n, row_executor = executor n, row_intent = print_json (intent_json n),
    row_state = PREPARED, row_nonce = None, row_raw = None, row_hash = None, row_evidence = None\<rparr>"
  have "row_intent_of env ?r = Inr n" by (simp add: row_intent_of_def intent_text fixed(1))
  then have ok: "verify_row env ?r = Inr ()"
    using intent_length[OF env fresh(1)] by (simp add: verify_row_Inr)
  have o: "orders k = orders j @ [?r]" "order_outcomes k = order_outcomes j" using fresh(3) by simp_all
  have "rows_inv env k"
    using inv ok fresh(2) unfolding order_inv_def rows_inv_def o by (simp add: ball_Un) (metis option.distinct(1))
  moreover obtain hist where h: "history_inv env j hist" using inv by (auto simp: order_inv_def)
  have ids: "fst ` set (latest_of hist) \<subseteq> fst ` set hist"
  proof (induction hist rule: rev_induct)
    case (snoc x xs)
    then show ?case by (auto simp: latest_of_def dom_update)
  qed (simp add: latest_of_def)
  have "order_id n \<notin> fst ` set (latest_of hist)"
  proof
    assume "order_id n \<in> fst ` set (latest_of hist)"
    then obtain x where x: "x \<in> set hist" "fst x = order_id n" using ids by (metis imageE subsetD)
    then show False using h fresh(2) unfolding history_inv_def by metis
  qed
  then have "map_of (latest_of hist) (order_id n) = None" by (simp only: map_of_eq_None_iff not_False_eq_True)
  then have "history_inv env k hist"
    using h unfolding history_inv_def o by (auto simp: row_outcome_def settled_def)
  ultimately show ?thesis by (auto simp: order_inv_def)
qed (use inv in simp)

lemma outcome_inv:
  assumes inv: "order_inv env j" and "recordOutcome env j i s e = Inr k"
  shows "order_inv env k"
proof -
  have ri: "rows_inv env j" using inv by (simp add: order_inv_def)
  define f where "f = (\<lambda>r :: order_row. r\<lparr>row_state := outcome_state s, row_evidence := Some e\<rparr>)"
  obtain r where r: "find_order j i = Some r" "row_state r \<in> {BROADCAST_UNCERTAIN, RECONCILED, REVERTED, REORGED}"
    and e: "e \<noteq> []" "int (length e) \<le> 32768"
    and k: "k = update_order i f (if row_state r \<noteq> outcome_state s \<or> row_evidence r \<noteq> Some e
        then j\<lparr>order_outcomes := order_outcomes j @ [outcome_row_of env (i, s, e)]\<rparr> else j)"
    using outcome_Inr[OF assms(2)] unfolding f_def outcome_row_of_def prod.case by metis
  have uniq: "t = r" if "t \<in> set (orders j)" "row_id t = i" for t
    using that r find_order_iff[OF ri, of i t] by simp
  note ok = find_row_ok[OF ri r(1)]
  obtain m where m: "row_intent_of env r = Inr m" using verified_intent[OF ok] by blast
  have "verify_row env (f r) = Inr ()" using ok r(2) m e
    by (cases s) (auto simp: f_def verify_row_Inr split: option.splits sum.splits)
  then have rows: "rows_inv env (update_order i f j)"
    using r(1) ri by (intro update_rows_inv) (auto simp: f_def)
  have same: "orders k = orders (update_order i f j)" by (simp add: k update_order_def)
  then have "rows_inv env k" using rows rows_inv_cong by metis
  moreover obtain hist where h: "history_inv env j hist" using inv by (auto simp: order_inv_def)
  define new where "new = (if row_state r \<noteq> outcome_state s \<or> row_evidence r \<noteq> Some e then hist @ [(i, s, e)] else hist)"
  have "map_of (latest_of hist) i = row_outcome r"
    using h find_order_Some[OF r(1)] by (auto simp: history_inv_def)
  then have last: "map_of (latest_of new) i = Some (state_text (outcome_state s), e)"
    by (simp add: new_def latest_of_snoc row_outcome_def)
  have others: "map_of (latest_of new) x = map_of (latest_of hist) x" if "x \<noteq> i" for x
    using that by (simp add: new_def latest_of_snoc)
  have "map_of (latest_of new) (row_id a) = row_outcome a" if a: "a \<in> set (orders k)" for a
  proof -
    obtain t where t: "t \<in> set (orders j)" "a = (if row_id t = i then f t else t)"
      using a unfolding same update_rows by blast
    show ?thesis
    proof (cases "row_id t = i")
      case True
      then show ?thesis using t last by (simp add: f_def row_outcome_def)
    next
      case False
      then show ?thesis using t others h by (simp add: history_inv_def)
    qed
  qed
  moreover have "order_outcomes k = map (outcome_row_of env) new"
    using h by (simp add: k new_def update_order_def history_inv_def)
  moreover have "map row_id (orders k) = map row_id (orders j)"
    unfolding same using update_ids[OF ri r(1), of f] by (simp add: f_def)
  moreover have "\<forall>h\<in>set new. snd (snd h) \<noteq> [] \<and> int (length (snd (snd h))) \<le> 32768 \<and> fst h \<in> set (map row_id (orders j))"
    using h e find_order_Some[OF r(1)] by (auto simp: new_def history_inv_def)
  ultimately have "history_inv env k new" unfolding history_inv_def by metis
  then show ?thesis using \<open>rows_inv env k\<close> by (auto simp: order_inv_def)
qed

lemma order_step_inv: "ethers_address env \<Longrightarrow> order_inv env j \<Longrightarrow> order_step env j x = Inr k \<Longrightarrow> order_inv env k"
  by (cases x) (auto simp: bind_r_Inr intro: prepare_inv reserve_inv signed_inv claim_inv outcome_inv cancel_inv)

section \<open>A journal reopens\<close>

definition order_start :: "order_journal \<Rightarrow> bool" where
  "order_start j \<longleftrightarrow> (\<exists>c. create_journal c = Inr j)"

definition journal_inv :: "order_env \<Rightarrow> order_journal \<Rightarrow> bool" where
  "journal_inv env j \<longleftrightarrow> order_inv env j \<and> digest (configuration_hash j) \<and>
     toLowerCase (configuration_hash j) = configuration_hash j"

lemma order_start_inv: "order_start j \<Longrightarrow> journal_inv env j"
proof -
  assume "order_start j"
  then obtain c where c: "digest c" "configuration_hash j = toLowerCase c" "orders j = []" "order_outcomes j = []"
    by (auto simp: order_start_def create_journal_def split: if_splits)
  then have "rows_inv env j" "history_inv env j []" by (simp_all add: rows_inv_def history_inv_def)
  then show ?thesis using c digest_lower[of c] by (auto simp: journal_inv_def order_inv_def)
qed

lemma update_configuration [simp]: "configuration_hash (update_order i f j) = configuration_hash j"
  by (simp add: update_order_def)

lemma step_configuration:
  assumes "rows_inv env j" "order_step env j x = Inr k"
  shows "configuration_hash k = configuration_hash j"
proof (cases x)
  case (Prepare v)
  then obtain w where "prepare env j v = Inr (k, w)" using assms(2) by (auto simp: bind_r_Inr)
  then show ?thesis by (cases rule: prepare_Inr) simp_all
next
  case (Reserve i n)
  then have "reserve env j i n = Inr k" using assms(2) by simp
  with assms(1) show ?thesis by (rule reserve_Inr) simp
next
  case (Signed i raw)
  then obtain h where "signed env j i raw = Inr (k, h)" using assms(2) by (auto simp: bind_r_Inr)
  with assms(1) show ?thesis by (rule signed_Inr) simp
next
  case (Claim_Broadcast i)
  then obtain raw where "claimBroadcast env j i = Inr (k, raw)" using assms(2) by (auto simp: bind_r_Inr)
  with assms(1) show ?thesis by (rule claim_Inr) simp
next
  case (Record_Outcome i s e)
  then have "recordOutcome env j i s e = Inr k" using assms(2) by simp
  then show ?thesis by (rule outcome_Inr) simp
next
  case (Cancel i)
  then have "cancel env j i = Inr k" using assms(2) by simp
  then show ?thesis by (rule cancel_Inr) simp
qed

lemma journal_step_inv:
  "ethers_address env \<Longrightarrow> journal_inv env j \<Longrightarrow> order_step env j x = Inr k \<Longrightarrow> journal_inv env k"
  using order_step_inv step_configuration unfolding journal_inv_def order_inv_def by metis

lemma outcome_payload: "parse_json (print_json (outcome_json i s e)) = Some (outcome_json i s e)"
  by (rule parse_print) (simp add: outcome_json_def)

lemma verify_outcome_row:
  assumes "rows_inv env j" "e \<noteq> []" "int (length e) \<le> 32768" "i \<in> set (map row_id (orders j))"
    "int (length (out_payload (outcome_row_of env (i, s, e)))) \<le> 65536"
  shows "verify_outcome env j (outcome_row_of env (i, s, e)) l =
    Inr (AList.update i (state_text (outcome_state s), e) l)"
proof -
  obtain r where r: "find_order j i = Some r" using assms(4) find_order_None[of j i] by (cases "find_order j i") auto
  obtain w where w: "get_order env j i = Inr (Some w)" by (rule get_order_row[OF r find_row_ok[OF assms(1) r]])
  have "state_text (outcome_state s) \<in> set outcome_states" by (cases s) (simp_all add: outcome_states_def)
  then show ?thesis using w assms(2,3,5) outcome_payload[of i s e]
    by (simp add: verify_outcome_def outcome_row_of_def outcome_json_def)
qed

lemma fold_outcomes:
  assumes inv: "rows_inv env j"
    and "\<forall>h\<in>set hist. snd (snd h) \<noteq> [] \<and> int (length (snd (snd h))) \<le> 32768 \<and> fst h \<in> set (map row_id (orders j))"
    and "\<forall>h\<in>set hist. int (length (out_payload (outcome_row_of env h))) \<le> 65536"
  shows "fold_r (verify_outcome env j) (map (outcome_row_of env) hist) l =
    Inr (foldl (\<lambda>m h. AList.update (fst h) (state_text (outcome_state (fst (snd h))), snd (snd h)) m) l hist)"
  using assms(2,3)
proof (induction hist arbitrary: l)
  case (Cons h hist)
  obtain i s e where h: "h = (i, s, e)" by (cases h)
  show ?case using Cons verify_outcome_row[OF inv, of e i s l] unfolding h by simp
qed simp

lemma latest_distinct: "distinct (map fst (latest_of hist))"
  by (induction hist rule: rev_induct) (simp_all add: latest_of_def distinct_update)

lemma verify_outcomes_ok:
  assumes inv: "order_inv env j" and "int (length (order_outcomes j)) \<le> 1000000"
    and "\<forall>x\<in>set (order_outcomes j). int (length (out_payload x)) \<le> 65536"
  shows "verifyOutcomes env j = Inr ()"
proof -
  obtain hist where h: "history_inv env j hist" and ri: "rows_inv env j" using inv by (auto simp: order_inv_def)
  have folded: "fold_r (verify_outcome env j) (order_outcomes j) [] = Inr (latest_of hist)"
    using fold_outcomes[OF ri, of hist "[]"] h assms(3) by (simp add: history_inv_def latest_of_def)
  have row: "\<exists>r. find_order j (fst l) = Some r \<and> row_outcome r = Some (snd l)" if l: "l \<in> set (latest_of hist)" for l
  proof -
    have m: "map_of (latest_of hist) (fst l) = Some (snd l)" using l latest_distinct by (simp add: map_of_is_SomeI)
    have "fst l \<in> set (map row_id (orders j))"
    proof (rule ccontr)
      assume no: "fst l \<notin> set (map row_id (orders j))"
      have "fst ` set (latest_of xs) \<subseteq> fst ` set xs" for xs
        by (induction xs rule: rev_induct) (auto simp: latest_of_def dom_update)
      then obtain x where "x \<in> set hist" "fst x = fst l" using l by (metis imageE imageI subsetD)
      then show False using no h unfolding history_inv_def by metis
    qed
    then obtain r where r: "r \<in> set (orders j)" "row_id r = fst l" by auto
    then have "row_outcome r = Some (snd l)" using m h by (metis history_inv_def)
    then show ?thesis using r find_order_iff[OF ri, of "fst l" r] by blast
  qed
  have latest: "verify_latest env j l = Inr ()" if l: "l \<in> set (latest_of hist)" for l
  proof -
    obtain r where r: "find_order j (fst l) = Some r" "row_outcome r = Some (snd l)" using row[OF l] by blast
    obtain w where "get_order env j (fst l) = Inr (Some w)" "view_state w = row_state r" "view_evidence w = row_evidence r"
      by (rule get_order_row[OF r(1) find_row_ok[OF ri r(1)]])
    then show ?thesis using r(2) by (cases l) (auto simp: verify_latest_def row_outcome_def check_Inr split: if_splits)
  qed
  have settled: "row_id r \<in> set (map fst (latest_of hist))"
    if r: "r \<in> set (orders j)" "row_state r \<in> {RECONCILED, REVERTED, REORGED}" for r
  proof -
    obtain m where "row_intent_of env r = Inr m" using verified_intent[OF row_ok[OF ri r(1)]] by blast
    then have "row_evidence r \<noteq> None" using row_ok[OF ri r(1)] r(2) by (auto simp: verify_row_Inr split: option.splits)
    then have "map_of (latest_of hist) (row_id r) \<noteq> None"
      using h r by (auto simp: history_inv_def row_outcome_def settled_def)
    then show ?thesis by (simp add: map_of_eq_None_iff)
  qed
  show ?thesis using assms(2) folded latest settled
    by (auto simp: verifyOutcomes_def bind_r_Inr for_each_Inr check_Inr)
qed

lemma verify_rows_ok:
  "order_inv env j \<Longrightarrow> int (length (orders j)) \<le> 1000000 \<Longrightarrow> verifyRows env j = Inr ()"
  by (simp add: verifyRows_def for_each_Inr order_inv_def rows_inv_def list_all_iff)

lemma journal_reopens_inv:
  assumes "order_inv env j" "digest (configuration_hash j)" "toLowerCase (configuration_hash j) = configuration_hash j"
    and "int (length (orders j)) \<le> 1000000" "int (length (order_outcomes j)) \<le> 1000000"
    and "\<forall>x\<in>set (order_outcomes j). int (length (out_payload x)) \<le> 65536"
  shows "open_journal env j (configuration_hash j) = Inr j"
  using assms verify_rows_ok[of env j] verify_outcomes_ok[of env j] by (simp add: open_journal_def)

end
