(* ===== verification/Order_Properties.thy ===== *)
theory Order_Properties
  imports Order_Invariant
begin

text \<open>
  The properties of the order journal: it reopens, it hands out at most one envelope per sender and nonce
  whatever the order of the operations, and an order that was prepared can be carried through to its
  outcome. \<open>broadcasts\<close> lists the envelopes the journal gave to the transport during a run.
\<close>

section \<open>The journal as a machine\<close>

text \<open>The guards are the theorem's hypotheses on \<open>ethers\<close>: with them the journal is a \<open>guarded_machine\<close>.\<close>

definition guarded_step :: "order_env \<Rightarrow> order_journal \<Rightarrow> order_op \<Rightarrow> order_error + order_journal" where
  "guarded_step env j x = (if ethers_address env then order_step env j x else Inl ETHERS_ADDRESS)"

interpretation order_machine: guarded_machine order_start "guarded_step env" "journal_inv env"
  by unfold_locales (auto simp: guarded_step_def intro: order_start_inv journal_step_inv split: if_splits)

lemma guarded_step_ok: "ethers_address env \<Longrightarrow> guarded_step env = order_step env"
  by (intro ext) (simp add: guarded_step_def)

lemma reachable_journal_inv:
  "ethers_address env \<Longrightarrow> reaches order_start (order_step env) j \<Longrightarrow> journal_inv env j"
  using order_machine.reachable_inv[of env j] by (simp add: guarded_step_ok)

section \<open>Envelopes\<close>

fun broadcasts :: "order_env \<Rightarrow> order_journal \<Rightarrow> order_op list \<Rightarrow> string list" where
  "broadcasts env j [] = []"
| "broadcasts env j (x # xs) =
     (case x of Claim_Broadcast i \<Rightarrow> (case claimBroadcast env j i of Inr (_, raw) \<Rightarrow> [raw] | Inl _ \<Rightarrow> []) | _ \<Rightarrow> []) @
     broadcasts env (case order_step env j x of Inr k \<Rightarrow> k | Inl _ \<Rightarrow> j) xs"

definition envelope_key :: "order_env \<Rightarrow> string \<Rightarrow> string option \<times> string option" where
  "envelope_key env raw = (case transaction_from env raw of None \<Rightarrow> (None, None)
     | Some tx \<Rightarrow> (map_option toLowerCase (tx_from tx), Some (toString (tx_nonce tx))))"

definition row_key :: "order_row \<Rightarrow> string option \<times> string option" where
  "row_key r = (Some (row_executor r), row_nonce r)"

definition sent :: "order_row \<Rightarrow> bool" where
  "sent r \<longleftrightarrow> row_state r \<in> {BROADCAST_UNCERTAIN, RECONCILED, REVERTED, REORGED}"

lemma not_sent: "row_state r \<in> {PREPARED, RESERVED, SIGNED} \<Longrightarrow> \<not> sent r"
  by (auto simp: sent_def)

lemma signedHash_key:
  "signedHash env raw n m = Inr h \<Longrightarrow> envelope_key env raw = (Some (executor n), m)"
  by (auto simp: signedHash_def signed_tx_ok_def envelope_key_def split: if_splits option.splits)

lemma signed_row_key:
  assumes "verify_row env r = Inr ()" "row_state r = SIGNED" "row_raw r = Some raw"
  shows "envelope_key env raw = row_key r" "row_nonce r \<noteq> None"
proof -
  obtain n where n: "row_intent_of env r = Inr n" using verified_intent[OF assms(1)] by blast
  then have v: "row_executor r = executor n" "row_nonce r \<noteq> None" "\<exists>h. signedHash env raw n (row_nonce r) = Inr h"
    using assms by (auto simp: verify_row_Inr split: option.splits sum.splits)
  then show "envelope_key env raw = row_key r" "row_nonce r \<noteq> None"
    using signedHash_key by (auto simp: row_key_def)
qed

lemma update_keeps_row:
  "r \<in> set (orders j) \<Longrightarrow> (if row_id r = i then f r else r) \<in> set (orders (update_order i f j))"
  by (auto simp: update_order_def)

lemma sent_kept:
  assumes inv: "rows_inv env j" and step: "order_step env j x = Inr k" and r: "r \<in> set (orders j)" "sent r"
  shows "\<exists>s\<in>set (orders k). sent s \<and> row_key s = row_key r"
proof -
  have upd: "\<exists>s\<in>set (orders (update_order i f j)). sent s \<and> row_key s = row_key r"
    if q: "find_order j i = Some q" "\<not> sent q \<or> sent (f q) \<and> row_key (f q) = row_key q" for i f q
  proof (cases "row_id r = i")
    case True
    then have "q = r" using q(1) r(1) find_order_iff[OF inv, of i r] by simp
    then show ?thesis using update_keeps_row[OF r(1), of i f] True q(2) r(2) by auto
  next
    case False
    then show ?thesis using update_keeps_row[OF r(1), of i f] r(2) by auto
  qed
  show ?thesis
  proof (cases x)
    case (Prepare v)
    then obtain w where "prepare env j v = Inr (k, w)" using step by (auto simp: bind_r_Inr)
    then show ?thesis by (cases rule: prepare_Inr) (use r in auto)
  next
    case (Reserve i n)
    then have "reserve env j i n = Inr k" using step by simp
    with inv show ?thesis by (rule reserve_Inr) (use upd not_sent in \<open>auto\<close>)
  next
    case (Signed i raw)
    then obtain h where "signed env j i raw = Inr (k, h)" using step by (auto simp: bind_r_Inr)
    with inv show ?thesis by (rule signed_Inr) (use upd not_sent in \<open>auto\<close>)
  next
    case (Claim_Broadcast i)
    then obtain raw where "claimBroadcast env j i = Inr (k, raw)" using step by (auto simp: bind_r_Inr)
    with inv show ?thesis by (rule claim_Inr) (use upd not_sent in \<open>auto\<close>)
  next
    case (Record_Outcome i s e)
    then have "recordOutcome env j i s e = Inr k" using step by simp
    then show ?thesis
    proof (rule outcome_Inr)
      fix q
      assume q: "find_order j i = Some q"
        and k: "k = update_order i (\<lambda>r. r\<lparr>row_state := outcome_state s, row_evidence := Some e\<rparr>)
         (if row_state q \<noteq> outcome_state s \<or> row_evidence q \<noteq> Some e
          then j\<lparr>order_outcomes := order_outcomes j @ [\<lparr>out_id = i, out_payload = print_json (outcome_json i s e),
             out_sha256 = keccak_text env (print_json (outcome_json i s e))\<rparr>]\<rparr> else j)"
      have "orders k = orders (update_order i (\<lambda>r. r\<lparr>row_state := outcome_state s, row_evidence := Some e\<rparr>) j)"
        by (simp add: k update_order_def)
      moreover have "sent (q\<lparr>row_state := outcome_state s, row_evidence := Some e\<rparr>)" by (cases s) (simp_all add: sent_def)
      ultimately show ?thesis using upd[OF q, of "\<lambda>r. r\<lparr>row_state := outcome_state s, row_evidence := Some e\<rparr>"]
        by (simp add: row_key_def)
    qed
  next
    case (Cancel i)
    then have "cancel env j i = Inr k" using step by simp
    then show ?thesis by (rule cancel_Inr) (use upd not_sent in \<open>auto\<close>)
  qed
qed

lemma broadcasts_fresh:
  assumes env: "ethers_address env" and "order_inv env j"
  shows "distinct (map (envelope_key env) (broadcasts env j xs)) \<and>
    (\<forall>r\<in>set (orders j). sent r \<longrightarrow> row_key r \<notin> envelope_key env ` set (broadcasts env j xs))"
  using assms(2)
proof (induction xs arbitrary: j)
  case (Cons x xs)
  have ri: "rows_inv env j" using Cons.prems by (simp add: order_inv_def)
  show ?case
  proof (cases "order_step env j x")
    case (Inl err)
    then have "broadcasts env j (x # xs) = broadcasts env j xs"
      by (auto simp: bind_r_Inl split: order_op.splits sum.splits)
    then show ?thesis using Cons.IH[OF Cons.prems] by simp
  next
    case (Inr k)
    note IH = Cons.IH[OF order_step_inv[OF env Cons.prems Inr]]
    have kept: "row_key r \<notin> envelope_key env ` set (broadcasts env k xs)" if "r \<in> set (orders j)" "sent r" for r
      using sent_kept[OF ri Inr that] IH by metis
    show ?thesis
    proof (cases "\<exists>i. x = Claim_Broadcast i")
      case False
      then have "broadcasts env j (x # xs) = broadcasts env k xs" using Inr by (cases x) auto
      then show ?thesis using IH kept by metis
    next
      case True
      then obtain i raw where x: "x = Claim_Broadcast i" and c: "claimBroadcast env j i = Inr (k, raw)"
        using Inr by (auto simp: bind_r_Inr)
      obtain r where r: "find_order j i = Some r" "row_state r = SIGNED" "row_raw r = Some raw"
        and k: "k = update_order i (\<lambda>r. r\<lparr>row_state := BROADCAST_UNCERTAIN\<rparr>) j"
        by (rule claim_Inr[OF ri c])
      have key: "envelope_key env raw = row_key r" "row_nonce r \<noteq> None"
        using signed_row_key[OF find_row_ok[OF ri r(1)] r(2,3)] by auto
      have "r\<lparr>row_state := BROADCAST_UNCERTAIN\<rparr> \<in> set (orders k)"
        using update_keeps_row[of r j i] find_order_Some[OF r(1)] k by auto
      then have "row_key r \<notin> envelope_key env ` set (broadcasts env k xs)"
        using IH by (auto simp: sent_def row_key_def dest!: bspec)
      moreover have "row_key s \<noteq> row_key r" if s: "s \<in> set (orders j)" "sent s" for s
      proof
        assume "row_key s = row_key r"
        then have "row_id s = i" using ri s(1) key(2) find_order_Some[OF r(1)]
          unfolding rows_inv_def row_key_def by (metis Pair_inject option.inject)
        then have "s = r" using find_order_iff[OF ri, of i s] s(1) r(1) by simp
        then show False using s(2) r(2) by (simp add: sent_def)
      qed
      moreover have "broadcasts env j (x # xs) = raw # broadcasts env k xs" using x c Inr by simp
      ultimately show ?thesis using IH kept key(1) by simp
    qed
  qed
qed simp

section \<open>Carrying an order through\<close>

lemma blocked_iff:
  "walletAddress env a = Inr a \<Longrightarrow>
   blocked env j a = Inr (\<exists>r\<in>set (orders j). row_executor r = a \<and> row_state r \<in> set blocking_states)"
  by (simp add: blocked_def list_ex_iff)

lemma find_update:
  assumes "find_order j i = Some r" "row_id (f r) = row_id r"
  shows "find_order (update_order i f j) i = Some (f r)"
proof -
  have "find (\<lambda>r. row_id r = i) (map (\<lambda>r. if row_id r = i then f r else r) xs) = Some (f r)"
    if "find (\<lambda>r. row_id r = i) xs = Some r" for xs
    using that assms(2) by (induction xs) (auto simp: find_Some_iff split: if_splits)
  then show ?thesis using assms(1) by (simp add: find_order_def update_order_def)
qed

lemma get_order_find:
  "find_order j i = Some r \<Longrightarrow> row_intent_of env r = Inr n \<Longrightarrow>
   get_order env j i = Inr (Some \<lparr>view_intent = n, view_state = row_state r, view_nonce = row_nonce r,
     view_hash = row_hash r, view_evidence = row_evidence r\<rparr>)"
  by (simp add: get_order_def)

lemma reserve_succeeds:
  assumes "find_order j i = Some r" "row_intent_of env r = Inr m" "row_state r = PREPARED"
    and "nonce_ok n" "blocked env j (executor m) = Inr False"
    and "\<forall>s\<in>set (orders j). row_executor s = executor m \<longrightarrow> row_nonce s \<noteq> Some n"
  shows "reserve env j i n = Inr (update_order i (\<lambda>r. r\<lparr>row_nonce := Some n, row_state := RESERVED\<rparr>) j)"
  using assms by (simp add: reserve_def get_order_find list_ex_iff)

lemma signed_succeeds:
  assumes "find_order j i = Some r" "row_intent_of env r = Inr m" "row_state r = RESERVED"
    and "signedHash env raw m (row_nonce r) = Inr h"
  shows "signed env j i raw = Inr (update_order i (\<lambda>r. if row_state r = RESERVED
        then r\<lparr>row_raw := Some raw, row_hash := Some h, row_state := SIGNED\<rparr> else r) j, h)"
  using assms by (simp add: signed_def get_order_find)

lemma claim_succeeds:
  assumes "find_order j i = Some r" "rows_inv env j" "row_intent_of env r = Inr m" "row_state r = SIGNED"
    and "row_raw r = Some raw" "row_hash r = Some h" "signedHash env raw m (row_nonce r) = Inr h"
  shows "claimBroadcast env j i = Inr (update_order i (\<lambda>r. r\<lparr>row_state := BROADCAST_UNCERTAIN\<rparr>) j, raw)"
proof -
  have "find (\<lambda>r. row_id r = i \<and> row_state r = SIGNED) (orders j) = Some r"
  proof (cases "find (\<lambda>r. row_id r = i \<and> row_state r = SIGNED) (orders j)")
    case None
    then show ?thesis using assms(4) find_order_Some[OF assms(1)] by (auto simp: find_None_iff)
  next
    case (Some s)
    then have "s \<in> set (orders j)" "row_id s = i" by (auto simp: find_Some_iff)
    then show ?thesis using Some assms(1) find_order_iff[OF assms(2), of i s] by simp
  qed
  then show ?thesis using assms by (simp add: claimBroadcast_def get_order_find)
qed

lemma outcome_succeeds:
  assumes "find_order j i = Some r" "row_intent_of env r = Inr m" "sent r" "e \<noteq> []" "int (length e) \<le> 32768"
  shows "\<exists>k. recordOutcome env j i s e = Inr k \<and>
    orders k = orders (update_order i (\<lambda>r. r\<lparr>row_state := outcome_state s, row_evidence := Some e\<rparr>) j)"
  using assms by (auto simp: recordOutcome_def get_order_find sent_def Let_def update_order_def)

lemma update_blocked:
  assumes "rows_inv env j" "find_order j i = Some r" "row_executor (f r) = row_executor r" "row_state r \<notin> set blocking_states"
    and "\<not> (\<exists>r\<in>set (orders j). row_executor r = a \<and> row_state r \<in> set blocking_states)" "row_executor r = a"
  shows "(\<exists>s\<in>set (orders (update_order i f j)). row_executor s = a \<and> row_state s \<in> set blocking_states) \<longleftrightarrow>
    row_state (f r) \<in> set blocking_states"
proof -
  have uniq: "s = r" if "s \<in> set (orders j)" "row_id s = i" for s
    using that assms(2) find_order_iff[OF assms(1), of i s] by simp
  show ?thesis unfolding update_rows using uniq assms(3-6) find_order_Some[OF assms(2)] by (auto split: if_splits)
qed

lemma update_update:
  "(\<And>r. row_id (f r) = row_id r) \<Longrightarrow> update_order i g (update_order i f j) = update_order i (g \<circ> f) j"
  by (simp add: update_order_def)

text \<open>The four rows an order goes through after it was prepared.\<close>

definition to_reserved :: "string \<Rightarrow> order_row \<Rightarrow> order_row" where
  "to_reserved n r = r\<lparr>row_nonce := Some n, row_state := RESERVED\<rparr>"

definition to_signed :: "string \<Rightarrow> string \<Rightarrow> order_row \<Rightarrow> order_row" where
  "to_signed raw h r = (if row_state r = RESERVED
     then r\<lparr>row_raw := Some raw, row_hash := Some h, row_state := SIGNED\<rparr> else r)"

definition to_uncertain :: "order_row \<Rightarrow> order_row" where
  "to_uncertain r = r\<lparr>row_state := BROADCAST_UNCERTAIN\<rparr>"

definition to_outcome :: "outcome \<Rightarrow> string \<Rightarrow> order_row \<Rightarrow> order_row" where
  "to_outcome s e r = r\<lparr>row_state := outcome_state s, row_evidence := Some e\<rparr>"

lemmas row_paths = to_reserved_def to_signed_def to_uncertain_def to_outcome_def

lemma order_carried:
  assumes inv: "order_inv env j" and r: "find_order j i = Some r" "row_state r = PREPARED" "row_intent_of env r = Inr m"
    and addr: "walletAddress env (executor m) = Inr (executor m)" and free: "blocked env j (executor m) = Inr False"
    and n: "nonce_ok n" "\<forall>s\<in>set (orders j). row_executor s = executor m \<longrightarrow> row_nonce s \<noteq> Some n"
    and h: "signedHash env raw m (Some n) = Inr h" and e: "e \<noteq> []" "int (length e) \<le> 32768"
  shows "\<exists>a b c d. reserve env j i n = Inr a \<and> signed env a i raw = Inr (b, h) \<and>
    claimBroadcast env b i = Inr (c, raw) \<and> recordOutcome env c i s e = Inr d \<and>
    list_all (\<lambda>x. blocked env x (executor m) = Inr True) [a, b, c] \<and>
    blocked env d (executor m) = Inr (s = Outcome_Reorged)"
proof -
  have ri: "rows_inv env j" using inv by (simp add: order_inv_def)
  let ?f = "to_reserved n" and ?g = "to_signed raw h \<circ> to_reserved n"
  let ?u = "to_uncertain \<circ> (to_signed raw h \<circ> to_reserved n)"
  let ?o = "to_outcome s e \<circ> (to_uncertain \<circ> (to_signed raw h \<circ> to_reserved n))"
  have ids: "row_id (?f x) = row_id x" "row_id (?g x) = row_id x" "row_id (?u x) = row_id x" "row_id (?o x) = row_id x" for x
    by (simp_all add: row_paths)
  have ints: "row_intent_of env (?f r) = Inr m" "row_intent_of env (?g r) = Inr m" "row_intent_of env (?u r) = Inr m"
    using r(3) by (simp_all add: row_paths)
  have ex: "row_executor r = executor m" using find_row_ok[OF ri r(1)] r(3) by (simp add: verify_row_Inr)
  have a: "reserve env j i n = Inr (update_order i ?f j)"
    using reserve_succeeds[OF r(1,3,2) n(1) free n(2)] by (simp add: to_reserved_def[abs_def])
  have fa: "find_order (update_order i ?f j) i = Some (?f r)" using r(1) ids(1) by (rule find_update)
  have "signed env (update_order i ?f j) i raw = Inr (update_order i (to_signed raw h) (update_order i ?f j), h)"
    using signed_succeeds[OF fa ints(1), of raw h] h by (simp add: row_paths to_signed_def[abs_def])
  then have b: "signed env (update_order i ?f j) i raw = Inr (update_order i ?g j, h)"
    using update_update[of ?f, OF ids(1)] by simp
  have ib: "order_inv env (update_order i ?g j)" using signed_inv[OF reserve_inv[OF inv a] b] .
  have fb: "find_order (update_order i ?g j) i = Some (?g r)" using r(1) ids(2) by (rule find_update)
  have "claimBroadcast env (update_order i ?g j) i = Inr (update_order i to_uncertain (update_order i ?g j), raw)"
    using claim_succeeds[OF fb _ ints(2), of raw h] ib h by (simp add: row_paths to_uncertain_def[abs_def] order_inv_def)
  then have c: "claimBroadcast env (update_order i ?g j) i = Inr (update_order i ?u j, raw)"
    using update_update[of ?g, OF ids(2)] by simp
  have fc: "find_order (update_order i ?u j) i = Some (?u r)" using r(1) ids(3) by (rule find_update)
  have "sent (?u r)" by (simp add: sent_def row_paths)
  then obtain d where d: "recordOutcome env (update_order i ?u j) i s e = Inr d"
    "orders d = orders (update_order i (to_outcome s e) (update_order i ?u j))"
    using outcome_succeeds[OF fc ints(3) _ e, of s] unfolding to_outcome_def[abs_def] by blast
  then have od: "orders d = orders (update_order i ?o j)" using update_update[of ?u, OF ids(3)] by simp
  have none: "\<not> (\<exists>r\<in>set (orders j). row_executor r = executor m \<and> row_state r \<in> set blocking_states)"
    using free blocked_iff[OF addr, of j] by simp
  have bl: "blocked env (update_order i f j) (executor m) = Inr (row_state (f r) \<in> set blocking_states)"
    if "row_executor (f r) = row_executor r" for f
    using update_blocked[where f = f, OF ri r(1) that _ none ex] r(2) by (simp add: blocked_iff[OF addr] blocking_states_def)
  have "blocked env d (executor m) = blocked env (update_order i ?o j) (executor m)" by (simp add: blocked_def od)
  then have "blocked env d (executor m) = Inr (s = Outcome_Reorged)"
    using bl[of ?o] r(2) by (cases s) (simp_all add: row_paths blocking_states_def)
  moreover have "list_all (\<lambda>x. blocked env x (executor m) = Inr True) [update_order i ?f j, update_order i ?g j, update_order i ?u j]"
    using bl[of ?f] bl[of ?g] bl[of ?u] by (simp add: row_paths blocking_states_def)
  ultimately show ?thesis using a b c d(1) by blast
qed

section \<open>An environment and an order to instantiate the properties with\<close>

definition demo_digest :: string where
  "demo_digest = ''0x'' @ replicate 63 (CHR ''a'') @ ''1''"

definition demo_address :: "char \<Rightarrow> string" where
  "demo_address c = ''0x'' @ replicate 40 c"

definition demo_intent :: order_intent where
  "demo_intent = \<lparr>purpose = None, feed = None, order_id = ''order-1'', chainId = 46630,
     order_owner = demo_address (CHR ''1''), executor = demo_address (CHR ''2''),
     order_vault = demo_address (CHR ''3''), manifestDigest = demo_digest, sourceDigest = demo_digest,
     grantVersion = ''1'', stateVersion = ''0'', snapshotHash = demo_digest, calldata = ''0x01020304'',
     createdAt = 5\<rparr>"

definition demo_env :: order_env where
  "demo_env = \<lparr>getAddress = Some,
     transaction_from = (\<lambda>_. Some \<lparr>isSigned = True, tx_type = 2, tx_chainId = 46630,
       tx_from = Some (demo_address (CHR ''2'')), tx_to = Some (demo_address (CHR ''3'')), tx_value = 0,
       tx_nonce = 7, tx_data = ''0x01020304'', tx_hash = Some ''0xbeef'', tx_gasLimit = 21000,
       tx_maxFeePerGas = 10, tx_maxPriorityFeePerGas = 1\<rparr>),
     keccak_raw = (\<lambda>_. ''0xbeef''), keccak_text = (\<lambda>s. s)\<rparr>"

definition demo_empty :: order_journal where
  "demo_empty = \<lparr>configuration_hash = demo_digest, orders = [], order_outcomes = []\<rparr>"

definition demo_prepared :: order_journal where
  "demo_prepared = demo_empty\<lparr>orders := [\<lparr>row_id = ''order-1'', row_executor = demo_address (CHR ''2''),
     row_intent = print_json (intent_json demo_intent), row_state = PREPARED, row_nonce = None,
     row_raw = None, row_hash = None, row_evidence = None\<rparr>]\<rparr>"

lemma demo_ethers: "ethers_address demo_env"
  by (simp add: ethers_address_def demo_env_def)

lemma demo_create: "create_journal demo_digest = Inr demo_empty"
  by code_simp

lemma demo_valid: "validate demo_env (intent_json demo_intent) = Inr demo_intent"
  by code_simp

lemma demo_signed: "signedHash demo_env ''0x1234'' demo_intent (Some ''7'') = Inr ''0xbeef''"
  by code_simp

lemma demo_get:
  "get_order demo_env demo_prepared ''order-1'' = Inr (Some \<lparr>view_intent = demo_intent, view_state = PREPARED,
     view_nonce = None, view_hash = None, view_evidence = None\<rparr>)"
  by (simp add: get_order_def find_order_def demo_prepared_def row_intent_of_def intent_text demo_valid)

lemma demo_prepare: "order_step demo_env demo_empty (Prepare (intent_json demo_intent)) = Inr demo_prepared"
proof -
  have "prepare demo_env demo_empty (intent_json demo_intent) =
    bind_r (get_order demo_env demo_prepared ''order-1'') (\<lambda>v. Inr (demo_prepared, v))"
    unfolding prepare_def demo_valid bind_r_simps Let_def
    by (simp add: find_order_def demo_empty_def demo_prepared_def demo_intent_def)
  then show ?thesis by (simp add: demo_get)
qed

lemma demo_reaches: "reaches order_start (order_step demo_env) demo_prepared"
proof (rule reach_step)
  show "reaches order_start (order_step demo_env) demo_empty"
    using demo_create by (intro reach_init) (auto simp: order_start_def)
qed (rule demo_prepare)

lemma demo_free: "blocked demo_env demo_prepared (demo_address (CHR ''2'')) = Inr False"
proof -
  have "walletAddress demo_env (demo_address (CHR ''2'')) = Inr (demo_address (CHR ''2''))" by code_simp
  then show ?thesis by (simp add: blocked_def demo_prepared_def blocking_states_def)
qed

section \<open>Properties\<close>

text \<open>C4: no two envelopes the order journal hands to the transport have the same sender and nonce.
  Starting from an empty journal, whatever operations are called in whatever order and whichever of them
  fail, the raw transactions returned by \<open>claimBroadcast\<close> decode to pairwise different pairs of sender and
  nonce: an order is broadcast at most once, a lost response cannot lead to a second send, and a reserved
  nonce is never given to another order of the same executor.\<close>

theorem one_envelope_per_nonce:
  assumes "ethers_address env" "create_journal c = Inr j"
  shows "distinct (map (envelope_key env) (broadcasts env j ops))"
proof -
  have "journal_inv env j" using assms(2) by (intro order_start_inv) (auto simp: order_start_def)
  then show ?thesis using broadcasts_fresh[OF assms(1)] by (simp add: journal_inv_def)
qed

theorem one_envelope_per_nonce_witness:
  "distinct (map (envelope_key demo_env) (broadcasts demo_env demo_empty
     [Prepare (intent_json demo_intent), Reserve ''order-1'' ''7'', Signed ''order-1'' ''0x1234'',
      Claim_Broadcast ''order-1'', Claim_Broadcast ''order-1'']))"
  by (rule one_envelope_per_nonce[OF demo_ethers demo_create])

text \<open>C34: a journal within its ceilings reopens. Every file the order journal can have written that has at most a million
  rows and a million outcomes, and no outcome of more than 65536 characters, passes the checks the constructor makes on
  the file of an earlier process, row by row and outcome by outcome, and the journal opens with the state it had. The
  ceilings are the constructor's own; the one on the outcomes is not enforced when an outcome is written
  (\<open>oversized_evidence_locks\<close>).\<close>

theorem journal_reopens:
  assumes "ethers_address env" "reaches order_start (order_step env) j"
    and "int (length (orders j)) \<le> 1000000" "int (length (order_outcomes j)) \<le> 1000000"
    and "list_all (\<lambda>x. int (length (out_payload x)) \<le> 65536) (order_outcomes j)"
  shows "open_journal env j (configuration_hash j) = Inr j"
  using reachable_journal_inv[OF assms(1,2)] assms(3-5)
  by (intro journal_reopens_inv) (auto simp: journal_inv_def list_all_iff)

theorem journal_reopens_witness: "open_journal demo_env demo_prepared demo_digest = Inr demo_prepared"
proof -
  have "configuration_hash demo_prepared = demo_digest" by (simp add: demo_prepared_def demo_empty_def)
  moreover have "open_journal demo_env demo_prepared (configuration_hash demo_prepared) = Inr demo_prepared"
    by (rule journal_reopens[OF demo_ethers demo_reaches]) (simp_all add: demo_prepared_def demo_empty_def)
  ultimately show ?thesis by simp
qed

text \<open>C35: a prepared order can always be carried through. In every reachable journal, an order that is
  \<open>PREPARED\<close> and whose executor is not blocked can be given any unused nonce, then any envelope that signs it,
  then be claimed for broadcast and given its outcome: none of the four calls fails, the executor is blocked
  from the first to the third and free again after the outcome, unless the outcome is a reorganisation.\<close>

theorem order_completes:
  assumes "ethers_address env" "reaches order_start (order_step env) j"
    and "get_order env j i = Inr (Some w)" "view_state w = PREPARED"
    and "blocked env j (executor (view_intent w)) = Inr False"
    and "nonce_ok n" "list_all (\<lambda>r. row_executor r = executor (view_intent w) \<longrightarrow> row_nonce r \<noteq> Some n) (orders j)"
    and "signedHash env raw (view_intent w) (Some n) = Inr h"
    and "e \<noteq> []" "int (length e) \<le> 32768"
  shows "\<exists>a b c d. reserve env j i n = Inr a \<and> signed env a i raw = Inr (b, h) \<and>
    claimBroadcast env b i = Inr (c, raw) \<and> recordOutcome env c i s e = Inr d \<and>
    list_all (\<lambda>x. blocked env x (executor (view_intent w)) = Inr True) [a, b, c] \<and>
    blocked env d (executor (view_intent w)) = Inr (s = Outcome_Reorged)"
proof -
  have inv: "order_inv env j" using reachable_journal_inv[OF assms(1,2)] by (simp add: journal_inv_def)
  obtain r where r: "find_order j i = Some r" "row_intent_of env r = Inr (view_intent w)" "view_state w = row_state r"
    using get_order_Some[OF assms(3)] by blast
  obtain v where "validate env v = Inr (view_intent w)" using r(2) by (auto simp: row_intent_of_def split: option.splits)
  then have "walletAddress env (executor (view_intent w)) = Inr (executor (view_intent w))"
    using validate_fixed(4)[OF assms(1)] by blast
  then show ?thesis using assms r inv by (intro order_carried) (simp_all add: list_all_iff)
qed

theorem order_completes_witness:
  "\<exists>a b c d. reserve demo_env demo_prepared ''order-1'' ''7'' = Inr a \<and>
    signed demo_env a ''order-1'' ''0x1234'' = Inr (b, ''0xbeef'') \<and>
    claimBroadcast demo_env b ''order-1'' = Inr (c, ''0x1234'') \<and>
    recordOutcome demo_env c ''order-1'' Outcome_Reverted ''{}'' = Inr d \<and>
    list_all (\<lambda>x. blocked demo_env x (demo_address (CHR ''2'')) = Inr True) [a, b, c] \<and>
    blocked demo_env d (demo_address (CHR ''2'')) = Inr False"
proof -
  have n: "nonce_ok ''7''" by code_simp
  have ex: "executor demo_intent = demo_address (CHR ''2'')" by (simp add: demo_intent_def)
  show ?thesis
    using order_completes[OF demo_ethers demo_reaches demo_get _ _ n, of "''0x1234''" "''0xbeef''" "''{}''" Outcome_Reverted]
      demo_free demo_signed ex by (simp add: demo_prepared_def)
qed

section \<open>Evidence that locks the journal\<close>

text \<open>\<open>recordOutcome\<close> bounds the evidence by 32768 characters, \<open>verifyOutcomes\<close> the JSON text around it by
  65536. Escaping can double the evidence and more, so evidence made of quotes is accepted, and the journal that
  holds it is refused by the next process.\<close>

lemma fold_r_each: "fold_r f xs s = Inr t \<Longrightarrow> x \<in> set xs \<Longrightarrow> \<exists>u v. f x u = Inr v"
  by (induction xs arbitrary: s) (auto simp: bind_r_Inr)

lemma length_quoted_quotes: "length (quote (replicate n (CHR 34))) = 2 * n + 2"
proof -
  have "length (concat (map esc (replicate n (CHR 34)))) = 2 * n"
    by (induction n) (simp_all add: esc_def)
  then show ?thesis by (simp add: quote_def)
qed

lemma oversized_evidence_locks:
  assumes "recordOutcome env j i s (replicate n (CHR 34)) = Inr k" "32768 \<le> int n"
    and "get_order env j i = Inr (Some w)" "view_evidence w \<noteq> Some (replicate n (CHR 34))"
  shows "\<exists>err. open_journal env k c = Inl err"
proof -
  let ?p = "print_json (outcome_json i s (replicate n (CHR 34)))"
  have logged: "\<lparr>out_id = i, out_payload = ?p, out_sha256 = keccak_text env ?p\<rparr> \<in> set (order_outcomes k)"
    using assms(1)
  proof (rule outcome_Inr)
    fix r
    assume "find_order j i = Some r" and k: "k = update_order i (\<lambda>r. r\<lparr>row_state := outcome_state s,
       row_evidence := Some (replicate n (CHR 34))\<rparr>)
       (if row_state r \<noteq> outcome_state s \<or> row_evidence r \<noteq> Some (replicate n (CHR 34))
        then j\<lparr>order_outcomes := order_outcomes j @ [\<lparr>out_id = i, out_payload = ?p, out_sha256 = keccak_text env ?p\<rparr>]\<rparr> else j)"
    then have "row_evidence r \<noteq> Some (replicate n (CHR 34))" using get_order_Some[OF assms(3)] assms(4) by auto
    then show ?thesis by (simp add: k update_order_def)
  qed
  have "int (length ?p) > 65536"
    using length_quoted_quotes[of n] assms(2) by (simp add: outcome_json_def)
  then have "verify_outcome env k \<lparr>out_id = i, out_payload = ?p, out_sha256 = keccak_text env ?p\<rparr> l \<noteq> Inr m" for l m
    by (simp add: verify_outcome_def)
  then have "fold_r (verify_outcome env k) (order_outcomes k) [] \<noteq> Inr l" for l
    using logged fold_r_each by metis
  then have "verifyOutcomes env k \<noteq> Inr ()" by (auto simp: verifyOutcomes_def bind_r_Inr)
  then show ?thesis unfolding open_journal_def by (cases "verifyRows env k"; cases "verifyOutcomes env k") auto
qed

end
