(* ===== verification/Restricted_Submission.thy ===== *)
theory Restricted_Submission
  imports Order_Properties
begin

text \<open>
  \<^bold>\<open>packages/testnet/src/restricted-submission.ts\<close>: the private service that turns an intent into one signed
  transaction. \<open>submitRestrictedIntent\<close> is asynchronous; what the transport, the signer and \<open>revalidate\<close> answer
  during one call is a value of \<open>submission_run\<close>, in the order the code asks (\<open>None\<close> is a rejected promise,
  \<open>False\<close> a \<open>revalidate\<close> that threw). An error leaves the journal as the steps before it made it, so the
  result carries the journal, the envelopes given to \<open>send\<close>, and the error or the outcome.
\<close>

record submission_policy =
  gasLimit :: string
  maxFeePerGas :: string
  maxPriorityFeePerGas :: string
  maxGasCostWei :: string

datatype submission_error =
    SUBMISSION_POLICY | SUBMISSION_AUTHORITY | SUBMISSION_ALREADY_ATTEMPTED | SUBMISSION_NONCE_UNCERTAIN
  | SUBMISSION_GAS_FUNDS | SUBMISSION_GAS_LIMIT | SUBMISSION_STATE_CHANGED | SUBMISSION_SIGNED_POLICY
  | SUBMISSION_BROADCAST_UNCERTAIN | TRANSPORT_REJECTED | REVALIDATION_FAILED | ETHERS_TRANSACTION
  | JOURNAL order_error

record unsigned_tx =
  utx_from :: string
  utx_to :: string
  utx_data :: string
  utx_chainId :: string
  utx_value :: string
  utx_nonce :: string
  utx_type :: string
  utx_gasLimit :: string
  utx_maxFeePerGas :: string
  utx_maxPriorityFeePerGas :: string

record submission_run =
  signer_address :: string
  first_chainId :: "int option"
  first_nonces :: "(int \<times> int \<times> int) option"
  estimate :: "unsigned_tx \<Rightarrow> int option"
  first_revalidate :: bool
  second_chainId :: "int option"
  second_pending :: "int option"
  second_latest :: "int option"
  sign :: "unsigned_tx \<Rightarrow> string option"
  second_revalidate :: bool
  third_chainId :: "int option"
  third_pending :: "int option"
  third_latest :: "int option"
  send_response :: "string \<Rightarrow> string option"

type_synonym 'a submission = "order_journal \<times> string list \<times> (submission_error + 'a)"

section \<open>Policy\<close>

definition raw_amount :: "string option \<Rightarrow> submission_error + int" where
  "raw_amount v = (case v of None \<Rightarrow> Inl SUBMISSION_POLICY
     | Some s \<Rightarrow> bind_r (check (canonical_dec 77 s \<and> s \<noteq> ''0'' \<and> digits_val s < 2 ^ 256) SUBMISSION_POLICY)
         (\<lambda>_. Inr (digits_val s)))"

definition policy_keys :: "string list" where
  "policy_keys = [''gasLimit'', ''maxFeePerGas'', ''maxPriorityFeePerGas'', ''maxGasCostWei'']"

definition validateSubmissionPolicy :: "(string \<times> string) list \<Rightarrow> submission_error + submission_policy" where
  "validateSubmissionPolicy p =
     bind_r (check (length p = 4 \<and> list_all (\<lambda>e. fst e \<in> set policy_keys) p) SUBMISSION_POLICY) (\<lambda>_.
     bind_r (raw_amount (map_of p ''gasLimit'')) (\<lambda>g.
     bind_r (check (g \<le> 30000000) SUBMISSION_POLICY) (\<lambda>_.
     bind_r (raw_amount (map_of p ''maxPriorityFeePerGas'')) (\<lambda>t.
     bind_r (raw_amount (map_of p ''maxFeePerGas'')) (\<lambda>f.
     bind_r (check (t \<le> f) SUBMISSION_POLICY) (\<lambda>_.
     bind_r (raw_amount (map_of p ''maxGasCostWei'')) (\<lambda>c.
     bind_r (check (g * f \<le> c) SUBMISSION_POLICY) (\<lambda>_.
     Inr \<lparr>gasLimit = the (map_of p ''gasLimit''), maxFeePerGas = the (map_of p ''maxFeePerGas''),
       maxPriorityFeePerGas = the (map_of p ''maxPriorityFeePerGas''),
       maxGasCostWei = the (map_of p ''maxGasCostWei'')\<rparr>))))))))"

section \<open>Steps between two awaits\<close>

definition await :: "'a option \<Rightarrow> submission_error + 'a" where
  "await p = (case p of None \<Rightarrow> Inl TRANSPORT_REJECTED | Some x \<Rightarrow> Inr x)"

definition journal :: "order_error + 'a \<Rightarrow> submission_error + 'a" where
  "journal r = (case r of Inl e \<Rightarrow> Inl (JOURNAL e) | Inr x \<Rightarrow> Inr x)"

text \<open>Up to \<open>journal.prepare\<close>.\<close>

definition submit_prepare ::
  "order_env \<Rightarrow> submission_run \<Rightarrow> order_intent \<Rightarrow> order_journal \<Rightarrow>
   submission_error + (order_journal \<times> order_view option)" where
  "submit_prepare env run i j =
     bind_r (check (toLowerCase (signer_address run) = executor i) SUBMISSION_AUTHORITY) (\<lambda>_.
     bind_r (await (first_chainId run)) (\<lambda>c.
     bind_r (check (c = 46630) SUBMISSION_AUTHORITY) (\<lambda>_.
     bind_r (journal (blocked env j (executor i))) (\<lambda>b.
     bind_r (check (\<not> b) SUBMISSION_AUTHORITY) (\<lambda>_.
     journal (prepare env j (intent_json i)))))))"

definition unsigned :: "order_intent \<Rightarrow> submission_policy \<Rightarrow> int \<Rightarrow> unsigned_tx" where
  "unsigned i p pending = \<lparr>utx_from = executor i,
     utx_to = (case feed i of Some f \<Rightarrow> f | None \<Rightarrow> order_vault i), utx_data = calldata i,
     utx_chainId = ''46630'', utx_value = ''0'', utx_nonce = toString pending, utx_type = ''2'',
     utx_gasLimit = gasLimit p, utx_maxFeePerGas = maxFeePerGas p,
     utx_maxPriorityFeePerGas = maxPriorityFeePerGas p\<rparr>"

definition unchanged :: "int option \<Rightarrow> int option \<Rightarrow> int option \<Rightarrow> int \<Rightarrow> submission_error + unit" where
  "unchanged c p l pending =
     bind_r (await c) (\<lambda>c. bind_r (check (c = 46630) SUBMISSION_STATE_CHANGED) (\<lambda>_.
     bind_r (await p) (\<lambda>p. bind_r (check (p = pending) SUBMISSION_STATE_CHANGED) (\<lambda>_.
     bind_r (await l) (\<lambda>l. check (l = pending) SUBMISSION_STATE_CHANGED)))))"

text \<open>From the check that the order is new to the reservation: the nonce to use.\<close>

definition submit_checks ::
  "submission_run \<Rightarrow> submission_policy \<Rightarrow> order_intent \<Rightarrow> order_view option \<Rightarrow> submission_error + int" where
  "submit_checks run p i v =
     bind_r (check (case v of None \<Rightarrow> False | Some w \<Rightarrow> view_state w = PREPARED) SUBMISSION_ALREADY_ATTEMPTED) (\<lambda>_.
     bind_r (await (first_nonces run)) (\<lambda>(pending, latest, balance).
     bind_r (check (isSafeInteger pending \<and> 0 \<le> pending \<and> pending \<le> 2147483647 \<and> pending = latest)
       SUBMISSION_NONCE_UNCERTAIN) (\<lambda>_.
     bind_r (raw_amount (Some (maxGasCostWei p))) (\<lambda>c.
     bind_r (check (c \<le> balance) SUBMISSION_GAS_FUNDS) (\<lambda>_.
     bind_r (await (estimate run (unsigned i p pending))) (\<lambda>e.
     bind_r (raw_amount (Some (gasLimit p))) (\<lambda>g.
     bind_r (check (e \<le> g) SUBMISSION_GAS_LIMIT) (\<lambda>_.
     bind_r (check (first_revalidate run) REVALIDATION_FAILED) (\<lambda>_.
     bind_r (unchanged (second_chainId run) (second_pending run) (second_latest run) pending) (\<lambda>_.
     Inr pending))))))))))"

text \<open>After the reservation: sign, check the fee fields of the signed transaction, record it.\<close>

definition submit_sign ::
  "order_env \<Rightarrow> submission_run \<Rightarrow> submission_policy \<Rightarrow> order_intent \<Rightarrow> int \<Rightarrow> order_journal \<Rightarrow>
   submission_error + (order_journal \<times> string)" where
  "submit_sign env run p i pending j =
     bind_r (await (sign run (unsigned i p pending))) (\<lambda>raw.
     case transaction_from env raw of None \<Rightarrow> Inl ETHERS_TRANSACTION | Some tx \<Rightarrow>
     bind_r (raw_amount (Some (gasLimit p))) (\<lambda>g.
     bind_r (raw_amount (Some (maxFeePerGas p))) (\<lambda>f.
     bind_r (raw_amount (Some (maxPriorityFeePerGas p))) (\<lambda>t.
     bind_r (check (tx_type tx = 2 \<and> tx_gasLimit tx = g \<and> tx_maxFeePerGas tx = f \<and> tx_maxPriorityFeePerGas tx = t)
       SUBMISSION_SIGNED_POLICY) (\<lambda>_.
     journal (signed env j (order_id i) raw))))))"

definition submit_claim ::
  "order_env \<Rightarrow> submission_run \<Rightarrow> order_intent \<Rightarrow> int \<Rightarrow> order_journal \<Rightarrow>
   submission_error + (order_journal \<times> string)" where
  "submit_claim env run i pending j =
     bind_r (check (second_revalidate run) REVALIDATION_FAILED) (\<lambda>_.
     bind_r (unchanged (third_chainId run) (third_pending run) (third_latest run) pending) (\<lambda>_.
     journal (claimBroadcast env j (order_id i))))"

definition response_ok :: "submission_run \<Rightarrow> string \<Rightarrow> string \<Rightarrow> bool" where
  "response_ok run raw hash = (case send_response run raw of None \<Rightarrow> False | Some r \<Rightarrow> toLowerCase r = hash)"

definition submitRestrictedIntent ::
  "order_env \<Rightarrow> submission_run \<Rightarrow> (string \<times> string) list \<Rightarrow> order_intent \<Rightarrow> order_journal \<Rightarrow> string submission" where
  "submitRestrictedIntent env run policy i j =
     (case validateSubmissionPolicy policy of Inl e \<Rightarrow> (j, [], Inl e) | Inr p \<Rightarrow>
     case submit_prepare env run i j of Inl e \<Rightarrow> (j, [], Inl e) | Inr (j1, v) \<Rightarrow>
     case submit_checks run p i v of Inl e \<Rightarrow> (j1, [], Inl e) | Inr pending \<Rightarrow>
     case reserve env j1 (order_id i) (toString pending) of Inl e \<Rightarrow> (j1, [], Inl (JOURNAL e)) | Inr j2 \<Rightarrow>
     case submit_sign env run p i pending j2 of Inl e \<Rightarrow> (j2, [], Inl e) | Inr (j3, hash) \<Rightarrow>
     case submit_claim env run i pending j3 of Inl e \<Rightarrow> (j3, [], Inl e) | Inr (j4, raw) \<Rightarrow>
       (j4, [raw], if response_ok run raw hash then Inr hash else Inl SUBMISSION_BROADCAST_UNCERTAIN))"

section \<open>What a submission did\<close>

lemma journal_Inr: "journal r = Inr x \<longleftrightarrow> r = Inr x"
  by (simp add: journal_def split: sum.splits)

lemma await_Inr: "await p = Inr x \<longleftrightarrow> p = Some x"
  by (simp add: await_def split: option.splits)

lemma submission_cases:
  assumes "submitRestrictedIntent env run policy i j = (k, raws, res)"
  obtains (refused) "k = j" "raws = []"
  | (prepared) p v where "validateSubmissionPolicy policy = Inr p" "submit_prepare env run i j = Inr (k, v)" "raws = []"
  | (reserved) p j1 v pending where "validateSubmissionPolicy policy = Inr p" "submit_prepare env run i j = Inr (j1, v)"
      "submit_checks run p i v = Inr pending" "reserve env j1 (order_id i) (toString pending) = Inr k" "raws = []"
  | (signed) p j1 v pending j2 h where "validateSubmissionPolicy policy = Inr p" "submit_prepare env run i j = Inr (j1, v)"
      "submit_checks run p i v = Inr pending" "reserve env j1 (order_id i) (toString pending) = Inr j2"
      "submit_sign env run p i pending j2 = Inr (k, h)" "raws = []"
  | (sent) p j1 v pending j2 j3 h raw where "validateSubmissionPolicy policy = Inr p" "submit_prepare env run i j = Inr (j1, v)"
      "submit_checks run p i v = Inr pending" "reserve env j1 (order_id i) (toString pending) = Inr j2"
      "submit_sign env run p i pending j2 = Inr (j3, h)" "submit_claim env run i pending j3 = Inr (k, raw)" "raws = [raw]"
proof (cases "validateSubmissionPolicy policy")
  case (Inl e)
  then show ?thesis using assms refused by (simp add: submitRestrictedIntent_def)
next
  case p: (Inr p)
  show ?thesis
  proof (cases "submit_prepare env run i j")
    case (Inl e)
    then show ?thesis using assms p refused by (simp add: submitRestrictedIntent_def)
  next
    case (Inr x)
    then obtain j1 v where j1: "submit_prepare env run i j = Inr (j1, v)" by (cases x) simp
    show ?thesis
    proof (cases "submit_checks run p i v")
      case (Inl e)
      then show ?thesis using assms p j1 prepared by (simp add: submitRestrictedIntent_def)
    next
      case n: (Inr pending)
      show ?thesis
      proof (cases "reserve env j1 (order_id i) (toString pending)")
        case (Inl e)
        then show ?thesis using assms p j1 n prepared by (simp add: submitRestrictedIntent_def)
      next
        case j2: (Inr j2)
        show ?thesis
        proof (cases "submit_sign env run p i pending j2")
          case (Inl e)
          then show ?thesis using assms p j1 n j2 reserved by (simp add: submitRestrictedIntent_def)
        next
          case (Inr y)
          then obtain j3 h where j3: "submit_sign env run p i pending j2 = Inr (j3, h)" by (cases y) simp
          show ?thesis
          proof (cases "submit_claim env run i pending j3")
            case (Inl e)
            then show ?thesis using assms p j1 n j2 j3 signed by (simp add: submitRestrictedIntent_def)
          next
            case (Inr z)
            then show ?thesis using assms p j1 n j2 j3 sent by (cases z) (simp add: submitRestrictedIntent_def)
          qed
        qed
      qed
    qed
  qed
qed

lemma submit_prepare_step:
  "submit_prepare env run i j = Inr (k, v) \<Longrightarrow>
   prepare env j (intent_json i) = Inr (k, v) \<and> order_step env j (Prepare (intent_json i)) = Inr k"
  by (auto simp: submit_prepare_def bind_r_Inr journal_Inr split: if_splits)

lemma submit_sign_step:
  assumes "submit_sign env run p i pending j = Inr (k, h)"
  obtains raw tx where "signed env j (order_id i) raw = Inr (k, h)" "order_step env j (Signed (order_id i) raw) = Inr k"
    "transaction_from env raw = Some tx" "tx_type tx = 2" "raw_amount (Some (gasLimit p)) = Inr (tx_gasLimit tx)"
    "raw_amount (Some (maxFeePerGas p)) = Inr (tx_maxFeePerGas tx)"
    "raw_amount (Some (maxPriorityFeePerGas p)) = Inr (tx_maxPriorityFeePerGas tx)"
  using assms by (auto simp: submit_sign_def bind_r_Inr journal_Inr await_Inr split: option.splits if_splits)

lemma submit_claim_step:
  "submit_claim env run i pending j = Inr (k, raw) \<Longrightarrow>
   claimBroadcast env j (order_id i) = Inr (k, raw) \<and> order_step env j (Claim_Broadcast (order_id i)) = Inr k"
  by (auto simp: submit_claim_def bind_r_Inr journal_Inr split: if_splits)

lemma submission_reaches:
  assumes r: "reaches order_start (order_step env) j" and "submitRestrictedIntent env run policy i j = (k, raws, res)"
  shows "reaches order_start (order_step env) k"
proof -
  have pr: "reaches order_start (order_step env) j1" if "submit_prepare env run i j = Inr (j1, v)" for j1 v
    using r submit_prepare_step[OF that] by (blast intro: reach_step)
  have rs: "reaches order_start (order_step env) y" if "reaches order_start (order_step env) x" "reserve env x a b = Inr y" for x y a b
    by (rule reach_step[where i = "Reserve a b", OF that(1)]) (simp add: that(2))
  have sg: "reaches order_start (order_step env) y"
    if "reaches order_start (order_step env) x" "submit_sign env run p i n x = Inr (y, h)" for x y p n h
    by (rule submit_sign_step[OF that(2)]) (rule reach_step[OF that(1)])
  have cl: "reaches order_start (order_step env) y"
    if "reaches order_start (order_step env) x" "submit_claim env run i n x = Inr (y, raw)" for x y n raw
    using that(1) submit_claim_step[OF that(2)] by (blast intro: reach_step)
  from assms(2) show ?thesis
  proof (cases rule: submission_cases)
    case refused
    then show ?thesis using r by simp
  next
    case (prepared p v)
    then show ?thesis using pr by simp
  next
    case (reserved p j1 v n)
    then show ?thesis using rs[OF pr] by simp
  next
    case (signed p j1 v n j2 h)
    then show ?thesis using sg[OF rs[OF pr]] by simp
  next
    case (sent p j1 v n j2 j3 h raw)
    then show ?thesis using cl[OF sg[OF rs[OF pr]]] by simp
  qed
qed

lemma find_append_new: "find P xs = None \<Longrightarrow> P y \<Longrightarrow> find P (xs @ [y]) = Some y"
  by (induction xs) (auto split: if_splits)

lemma prepare_row:
  assumes env: "ethers_address env" and inv: "rows_inv env j" and p: "prepare env j (intent_json i) = Inr (k, v)"
    and ik: "rows_inv env k"
  obtains n r where "walletAddress env (executor i) = Inr (executor n)" "walletAddress env (executor n) = Inr (executor n)"
    "find_order k (order_id i) = Some r" "row_intent_of env r = Inr n" "row_executor r = executor n"
    "attempts k = attempts j" "normalise_intent env i = Inr n"
proof -
  obtain n where n: "validate env (intent_json i) = Inr n" using p by (auto simp: prepare_def bind_r_Inr)
  obtain es where es: "intent_json i = JObj es" by (simp add: intent_json_def)
  have norm: "normalise_intent env i = Inr n"
    using n read_intent_json[OF es] es by (auto simp: validate_def split: if_splits sum.splits)
  then have ids: "order_id n = order_id i" by (auto simp: normalise_intent_def bind_r_Inr split: if_splits)
  have decoded: "row_intent_of env r = Inr n" if "row_intent r = print_json (intent_json n)" for r
    using that validate_fixed(1)[OF env n] by (simp add: row_intent_of_def intent_text)
  have "\<exists>r. find_order k (order_id i) = Some r \<and> row_intent r = print_json (intent_json n) \<and> attempts k = attempts j"
  proof (cases "find_order j (order_id n)")
    case None
    then have "find (\<lambda>r. row_id r = order_id i) (orders j) = None" using ids by (simp add: find_order_def)
    then show ?thesis using p n None ids unfolding prepare_def
      by (auto simp: bind_r_Inr Let_def find_order_def attempts_def find_append_new)
  next
    case (Some r)
    then show ?thesis using p n ids by (auto simp: prepare_def bind_r_Inr Let_def split: if_splits)
  qed
  then obtain r where r: "find_order k (order_id i) = Some r" "row_intent r = print_json (intent_json n)" "attempts k = attempts j"
    by blast
  moreover have "row_executor r = executor n"
    using find_row_ok[OF ik r(1)] decoded[OF r(2)] by (simp add: verify_row_Inr)
  ultimately show ?thesis
    using that normalise_addresses(2)[OF norm] validate_fixed(4)[OF env n] decoded norm by blast
qed

text \<open>The executor's address as the rows spell it, and an order of it that blocks.\<close>

definition holds :: "string \<Rightarrow> string \<Rightarrow> order_journal \<Rightarrow> bool" where
  "holds a i j \<longleftrightarrow> (case find_order j i of None \<Rightarrow> False
     | Some r \<Rightarrow> row_executor r = a \<and> row_state r \<in> set blocking_states)"

lemma holds_blocked: "walletAddress env e = Inr a \<Longrightarrow> holds a i j \<Longrightarrow> blocked env j e = Inr True"
  by (auto simp: holds_def blocked_def list_ex_iff split: option.splits dest!: find_order_Some)

lemma reserve_holds:
  assumes "rows_inv env j" "find_order j i = Some r" "reserve env j i n = Inr k"
  shows "holds (row_executor r) i k" "find_order k i = Some (to_reserved n r)"
proof -
  obtain q where "find_order j i = Some q" and k: "k = update_order i (\<lambda>r. r\<lparr>row_nonce := Some n, row_state := RESERVED\<rparr>) j"
    by (rule reserve_Inr[OF assms(1,3)])
  then show "find_order k i = Some (to_reserved n r)"
    using find_update[OF assms(2), of "to_reserved n"] by (simp add: to_reserved_def to_reserved_def[abs_def])
  then show "holds (row_executor r) i k" by (simp add: holds_def to_reserved_def blocking_states_def)
qed

lemma signed_holds:
  assumes "rows_inv env j" "find_order j i = Some r" "signed env j i raw = Inr (k, h)"
  shows "holds (row_executor r) i k" "find_order k i = Some (to_signed raw h r)" "row_state r = RESERVED"
    "\<exists>n. row_intent_of env r = Inr n \<and> signedHash env raw n (row_nonce r) = Inr h"
proof -
  obtain q n where q: "find_order j i = Some q" "row_state q = RESERVED" "row_intent_of env q = Inr n"
    "signedHash env raw n (row_nonce q) = Inr h" and
    k: "k = update_order i (\<lambda>r. if row_state r = RESERVED
        then r\<lparr>row_raw := Some raw, row_hash := Some h, row_state := SIGNED\<rparr> else r) j"
    by (rule signed_Inr[OF assms(1,3)])
  then show f: "find_order k i = Some (to_signed raw h r)" "row_state r = RESERVED"
      "\<exists>n. row_intent_of env r = Inr n \<and> signedHash env raw n (row_nonce r) = Inr h"
    using assms(2) find_update[OF assms(2), of "to_signed raw h"] by (simp_all add: to_signed_def to_signed_def[abs_def])
  then show "holds (row_executor r) i k" by (simp add: holds_def to_signed_def blocking_states_def)
qed

lemma claim_holds:
  assumes "rows_inv env j" "find_order j i = Some r" "claimBroadcast env j i = Inr (k, raw)"
  shows "holds (row_executor r) i k" "row_raw r = Some raw"
proof -
  obtain q where q: "find_order j i = Some q" "row_raw q = Some raw" and
    k: "k = update_order i (\<lambda>r. r\<lparr>row_state := BROADCAST_UNCERTAIN\<rparr>) j"
    by (rule claim_Inr[OF assms(1,3)])
  then show "row_raw r = Some raw" using assms(2) by simp
  have "find_order k i = Some (to_uncertain r)"
    using k find_update[OF assms(2), of to_uncertain] by (simp add: to_uncertain_def to_uncertain_def[abs_def])
  then show "holds (row_executor r) i k" by (simp add: holds_def to_uncertain_def blocking_states_def)
qed

lemma reachable_rows: "ethers_address env \<Longrightarrow> reaches order_start (order_step env) j \<Longrightarrow> rows_inv env j"
  using reachable_journal_inv by (simp add: journal_inv_def order_inv_def)

lemma prepared_trail:
  assumes env: "ethers_address env" and r: "reaches order_start (order_step env) j"
    and p: "submit_prepare env run i j = Inr (j1, v)"
  obtains a q where "reaches order_start (order_step env) j1" "walletAddress env (executor i) = Inr a"
    "find_order j1 (order_id i) = Some q" "row_executor q = a" "attempts j1 = attempts j"
    "row_intent_of env q = normalise_intent env i"
proof -
  have 1: "reaches order_start (order_step env) j1" using r submit_prepare_step[OF p] by (blast intro: reach_step)
  have 2: "prepare env j (intent_json i) = Inr (j1, v)" using submit_prepare_step[OF p] by blast
  show ?thesis
    by (rule prepare_row[OF env reachable_rows[OF env r] 2 reachable_rows[OF env 1]]) (use 1 that in simp)
qed

lemma reserved_trail:
  assumes env: "ethers_address env" and r: "reaches order_start (order_step env) j"
    and p: "submit_prepare env run i j = Inr (j1, v)" "reserve env j1 (order_id i) n = Inr j2"
  obtains a q where "reaches order_start (order_step env) j2" "walletAddress env (executor i) = Inr a"
    "find_order j2 (order_id i) = Some (to_reserved n q)" "row_executor q = a" "holds a (order_id i) j2"
    "row_intent_of env q = normalise_intent env i"
proof -
  obtain a q where a: "reaches order_start (order_step env) j1" "walletAddress env (executor i) = Inr a"
    "find_order j1 (order_id i) = Some q" "row_executor q = a" "row_intent_of env q = normalise_intent env i" by (rule prepared_trail[OF env r p(1)])
  note h = reserve_holds[OF reachable_rows[OF env a(1)] a(3) p(2)]
  have "reaches order_start (order_step env) j2"
    by (rule reach_step[where i = "Reserve (order_id i) n", OF a(1)]) (simp add: p(2))
  then show ?thesis using that a h by blast
qed

lemma signed_trail:
  assumes env: "ethers_address env" and r: "reaches order_start (order_step env) j"
    and p: "submit_prepare env run i j = Inr (j1, v)" "reserve env j1 (order_id i) n = Inr j2"
    and s: "submit_sign env run p i m j2 = Inr (j3, h)"
  obtains a q raw tx where "reaches order_start (order_step env) j3" "walletAddress env (executor i) = Inr a"
    "find_order j3 (order_id i) = Some q" "row_executor q = a" "holds a (order_id i) j3"
    "row_raw q = Some raw" "transaction_from env raw = Some tx" "tx_type tx = 2"
    "raw_amount (Some (gasLimit p)) = Inr (tx_gasLimit tx)"
    "raw_amount (Some (maxFeePerGas p)) = Inr (tx_maxFeePerGas tx)"
    "raw_amount (Some (maxPriorityFeePerGas p)) = Inr (tx_maxPriorityFeePerGas tx)"
    "\<exists>w. normalise_intent env i = Inr w \<and> signed_tx_ok env raw w (Some n) tx"
proof -
  obtain a q where a: "reaches order_start (order_step env) j2" "walletAddress env (executor i) = Inr a"
    "find_order j2 (order_id i) = Some (to_reserved n q)" "row_executor q = a" "row_intent_of env q = normalise_intent env i"
    by (rule reserved_trail[OF env r p])
  obtain raw tx where t: "signed env j2 (order_id i) raw = Inr (j3, h)" "order_step env j2 (Signed (order_id i) raw) = Inr j3"
    "transaction_from env raw = Some tx" "tx_type tx = 2" "raw_amount (Some (gasLimit p)) = Inr (tx_gasLimit tx)"
    "raw_amount (Some (maxFeePerGas p)) = Inr (tx_maxFeePerGas tx)"
    "raw_amount (Some (maxPriorityFeePerGas p)) = Inr (tx_maxPriorityFeePerGas tx)"
    by (rule submit_sign_step[OF s])
  note ri = reachable_rows[OF env a(1)]
  note h = signed_holds[OF ri a(3) t(1)]
  obtain w where w: "normalise_intent env i = Inr w" "signedHash env raw w (Some n) = Inr h"
    using h(4) a(5) by (auto simp: to_reserved_def)
  then have "signed_tx_ok env raw w (Some n) tx" using t(3) by (auto simp: signedHash_def split: if_splits)
  moreover have "reaches order_start (order_step env) j3" by (rule reach_step[OF a(1) t(2)])
  ultimately show ?thesis
    using that[of a "to_signed raw h (to_reserved n q)" raw tx] a(2,4) t(3-7) h(1,2) w(1)
    by (auto simp: to_signed_def to_reserved_def)
qed

lemma submission_blocks:
  assumes env: "ethers_address env" and r: "reaches order_start (order_step env) j"
    and sub: "submitRestrictedIntent env run policy i j = (k, raws, res)"
  shows "raws = [] \<and> attempts k = attempts j \<or> blocked env k (executor i) = Inr True"
  using sub
proof (cases rule: submission_cases)
  case (prepared p v)
  show ?thesis by (rule prepared_trail[OF env r prepared(2)]) (use prepared(3) in simp)
next
  case (reserved p j1 v m)
  show ?thesis by (rule reserved_trail[OF env r reserved(2,4)]) (use holds_blocked in blast)
next
  case (signed p j1 v m j2 h)
  show ?thesis by (rule signed_trail[OF env r signed(2,4,5)]) (use holds_blocked in blast)
next
  case (sent p j1 v m j2 j3 h raw)
  have c: "claimBroadcast env j3 (order_id i) = Inr (k, raw)" using submit_claim_step[OF sent(6)] by blast
  show ?thesis
  proof (rule signed_trail[OF env r sent(2,4,5)])
    fix a q
    assume "reaches order_start (order_step env) j3" "walletAddress env (executor i) = Inr a"
      "find_order j3 (order_id i) = Some q" "row_executor q = a"
    then show ?thesis using claim_holds(1)[OF reachable_rows[OF env] _ c] holds_blocked by blast
  qed
qed simp

text \<open>The amounts of an accepted policy are those of its entries, and the worst gas cost is within the limit.\<close>

lemma raw_amount_the: "raw_amount v = Inr x \<Longrightarrow> raw_amount (Some (the v)) = Inr x"
  by (cases v) (auto simp: raw_amount_def)

lemma policy_amounts:
  assumes "validateSubmissionPolicy policy = Inr p"
  shows "raw_amount (map_of policy ''gasLimit'') = raw_amount (Some (gasLimit p))"
    "raw_amount (map_of policy ''maxFeePerGas'') = raw_amount (Some (maxFeePerGas p))"
    "raw_amount (map_of policy ''maxPriorityFeePerGas'') = raw_amount (Some (maxPriorityFeePerGas p))"
    "raw_amount (map_of policy ''maxGasCostWei'') = raw_amount (Some (maxGasCostWei p))"
  using assms by (auto simp: validateSubmissionPolicy_def bind_r_Inr raw_amount_the split: if_splits)

lemma policy_bound:
  assumes "validateSubmissionPolicy policy = Inr p" "raw_amount (Some (gasLimit p)) = Inr g"
    "raw_amount (Some (maxFeePerGas p)) = Inr f" "raw_amount (Some (maxGasCostWei p)) = Inr c"
  shows "g * f \<le> c"
  using assms policy_amounts[OF assms(1)]
  by (auto simp: validateSubmissionPolicy_def bind_r_Inr split: if_splits)

lemma submit_checks_Inr:
  assumes "submit_checks run p i v = Inr n"
  obtains balance c where "first_nonces run = Some (n, n, balance)" "raw_amount (Some (maxGasCostWei p)) = Inr c" "c \<le> balance"
  using assms by (auto simp: submit_checks_def bind_r_Inr await_Inr split: if_splits)

definition demo_policy :: "(string \<times> string) list" where
  "demo_policy = [(''gasLimit'', ''21000''), (''maxFeePerGas'', ''10''), (''maxPriorityFeePerGas'', ''1''),
     (''maxGasCostWei'', ''210000'')]"

definition demo_run :: submission_run where
  "demo_run = \<lparr>signer_address = demo_address (CHR ''2''), first_chainId = Some 46630,
     first_nonces = Some (7, 7, 300000), estimate = (\<lambda>_. Some 20000), first_revalidate = True,
     second_chainId = Some 46630, second_pending = Some 7, second_latest = Some 7,
     sign = (\<lambda>_. Some ''0x1234''), second_revalidate = True, third_chainId = Some 46630,
     third_pending = Some 7, third_latest = Some 7, send_response = (\<lambda>_. Some ''0xBEEF'')\<rparr>"

lemma demo_submission:
  "fst (snd (submitRestrictedIntent demo_env demo_run demo_policy demo_intent demo_empty)) = [''0x1234'']"
proof -
  let ?p = "\<lparr>gasLimit = ''21000'', maxFeePerGas = ''10'', maxPriorityFeePerGas = ''1'', maxGasCostWei = ''210000''\<rparr>"
  let ?v = "\<lparr>view_intent = demo_intent, view_state = PREPARED, view_nonce = None, view_hash = None, view_evidence = None\<rparr>"
  have order: "order_id demo_intent = ''order-1''" "executor demo_intent = demo_address (CHR ''2'')"
    by (simp_all add: demo_intent_def)
  have 1: "validateSubmissionPolicy demo_policy = Inr ?p" by code_simp
  have 2: "submit_checks demo_run ?p demo_intent (Some ?v) = Inr 7" by code_simp
  have 3: "prepare demo_env demo_empty (intent_json demo_intent) = Inr (demo_prepared, Some ?v)"
    using demo_prepare demo_get demo_valid unfolding prepare_def Let_def
    by (auto simp: bind_r_Inr find_order_def demo_empty_def demo_prepared_def order)
  have 4: "blocked demo_env demo_empty (demo_address (CHR ''2'')) = Inr False" by code_simp
  have 5: "toLowerCase (signer_address demo_run) = executor demo_intent" by code_simp
  have p: "submit_prepare demo_env demo_run demo_intent demo_empty = Inr (demo_prepared, Some ?v)"
    unfolding submit_prepare_def 5 using 3 4 order by (simp add: await_def journal_def demo_run_def)
  obtain r where r: "find_order demo_prepared ''order-1'' = Some r" "row_state r = PREPARED"
    "row_intent_of demo_env r = Inr demo_intent"
    using get_order_Some[OF demo_get] by auto
  obtain a b c where abc: "reserve demo_env demo_prepared ''order-1'' ''7'' = Inr a"
    "signed demo_env a ''order-1'' ''0x1234'' = Inr (b, ''0xbeef'')"
    "claimBroadcast demo_env b ''order-1'' = Inr (c, ''0x1234'')"
  proof -
    have n: "nonce_ok ''7''" by code_simp
    have w: "walletAddress demo_env (executor demo_intent) = Inr (executor demo_intent)" by code_simp
    have inv: "order_inv demo_env demo_prepared"
      using reachable_journal_inv[OF demo_ethers demo_reaches] by (simp add: journal_inv_def)
    have fresh: "\<forall>s\<in>set (orders demo_prepared). row_executor s = executor demo_intent \<longrightarrow> row_nonce s \<noteq> Some ''7''"
      by (simp add: demo_prepared_def)
    show ?thesis
      using order_carried[OF inv r w _ n fresh demo_signed, of "''e''" Outcome_Reverted] demo_free order that by auto
  qed
  have s: "submit_sign demo_env demo_run ?p demo_intent 7 a = Inr (b, ''0xbeef'')"
  proof -
    have amounts: "raw_amount (Some ''21000'') = Inr 21000" "raw_amount (Some ''10'') = Inr 10" "raw_amount (Some ''1'') = Inr 1"
      by code_simp+
    show ?thesis unfolding submit_sign_def using abc(2) order(1)
      by (simp add: amounts demo_run_def demo_env_def await_def journal_def)
  qed
  have q: "submit_claim demo_env demo_run demo_intent 7 b = Inr (c, ''0x1234'')"
    using abc(3) order(1) by (simp add: submit_claim_def unchanged_def demo_run_def await_def journal_def)
  have "toString 7 = ''7''" by code_simp
  then show ?thesis using 1 2 p s q abc(1) order(1) by (simp add: submitRestrictedIntent_def)
qed
text \<open>What a sent envelope is: signed by the intent's executor for the intent's target and calldata on chain 46630,
  without value, under the nonce the transport reported, its fee fields those of the policy.\<close>

definition policy_envelope ::
  "order_env \<Rightarrow> (string \<times> string) list \<Rightarrow> order_intent \<Rightarrow> int \<Rightarrow> string \<Rightarrow> signed_tx \<Rightarrow> bool" where
  "policy_envelope env policy w pending raw tx \<longleftrightarrow>
     transaction_from env raw = Some tx \<and> isSigned tx \<and> tx_chainId tx = 46630 \<and> tx_value tx = 0 \<and>
     map_option toLowerCase (tx_from tx) = Some (executor w) \<and>
     map_option toLowerCase (tx_to tx) = Some (case feed w of Some f \<Rightarrow> f | None \<Rightarrow> order_vault w) \<and>
     toLowerCase (tx_data tx) = calldata w \<and> toString (tx_nonce tx) = toString pending \<and> tx_type tx = 2 \<and>
     raw_amount (map_of policy ''gasLimit'') = Inr (tx_gasLimit tx) \<and>
     raw_amount (map_of policy ''maxFeePerGas'') = Inr (tx_maxFeePerGas tx) \<and>
     raw_amount (map_of policy ''maxPriorityFeePerGas'') = Inr (tx_maxPriorityFeePerGas tx)"

lemma submission_envelope:
  assumes "ethers_address env" "reaches order_start (order_step env) j"
    and "submitRestrictedIntent env run policy i j = (k, raws, res)"
  shows "length raws \<le> 1 \<and> list_all (\<lambda>raw. \<exists>tx w pending balance cost. normalise_intent env i = Inr w \<and>
      first_nonces run = Some (pending, pending, balance) \<and> policy_envelope env policy w pending raw tx \<and>
      raw_amount (map_of policy ''maxGasCostWei'') = Inr cost \<and>
      tx_gasLimit tx * tx_maxFeePerGas tx \<le> cost \<and> cost \<le> balance) raws"
  using assms(3)
proof (cases rule: submission_cases)
  case (sent p j1 v n j2 j3 h raw)
  have c: "claimBroadcast env j3 (order_id i) = Inr (k, raw)" using submit_claim_step[OF sent(6)] by blast
  obtain q raw' tx where t: "reaches order_start (order_step env) j3" "find_order j3 (order_id i) = Some q"
    "row_raw q = Some raw'" "transaction_from env raw' = Some tx" "tx_type tx = 2"
    "raw_amount (Some (gasLimit p)) = Inr (tx_gasLimit tx)" "raw_amount (Some (maxFeePerGas p)) = Inr (tx_maxFeePerGas tx)"
    "raw_amount (Some (maxPriorityFeePerGas p)) = Inr (tx_maxPriorityFeePerGas tx)"
    "\<exists>w. normalise_intent env i = Inr w \<and> signed_tx_ok env raw' w (Some (toString n)) tx"
    by (rule signed_trail[OF assms(1,2) sent(2,4,5)])
  have eq: "raw' = raw" using claim_holds(2)[OF reachable_rows[OF assms(1) t(1)] t(2) c] t(3) by simp
  obtain w where w: "normalise_intent env i = Inr w" "signed_tx_ok env raw w (Some (toString n)) tx" using t(9) eq by blast
  obtain balance cost where b: "first_nonces run = Some (n, n, balance)" "raw_amount (Some (maxGasCostWei p)) = Inr cost"
    "cost \<le> balance" by (rule submit_checks_Inr[OF sent(3)])
  note amounts = policy_amounts[OF sent(1)]
  have "policy_envelope env policy w n raw tx"
    using w(2) t(4-8) eq amounts by (simp add: policy_envelope_def signed_tx_ok_def)
  moreover have "tx_gasLimit tx * tx_maxFeePerGas tx \<le> cost" using policy_bound[OF sent(1) t(6,7) b(2)] .
  ultimately show ?thesis using sent(7) w(1) b amounts by auto
qed simp_all

text \<open>C11: what a restricted submission can send. Whatever the signer and the transport answer, a call gives at most
  one envelope to \<open>send\<close>; that envelope is a signed transaction of type 2 of the intent (sender, target, data,
  chain 46630, no value) with the nonce the transport reported and exactly the gas limit, fee cap and priority fee
  of the policy, so that the most it can cost in gas is within the policy's \<open>maxGasCostWei\<close>, and that within
  the balance reported for the executor. And whatever error the call ends with, either it used no nonce and sent
  nothing, or the executor is blocked until the order's outcome is known.\<close>

theorem submission_bounded:
  assumes "ethers_address env" "reaches order_start (order_step env) j"
    and "submitRestrictedIntent env run policy i j = (k, raws, res)"
  shows "length raws \<le> 1 \<and>
    list_all (\<lambda>raw. \<exists>tx w pending balance cost. normalise_intent env i = Inr w \<and>
      first_nonces run = Some (pending, pending, balance) \<and> policy_envelope env policy w pending raw tx \<and>
      raw_amount (map_of policy ''maxGasCostWei'') = Inr cost \<and>
      tx_gasLimit tx * tx_maxFeePerGas tx \<le> cost \<and> cost \<le> balance) raws \<and>
    (raws = [] \<and> attempts k = attempts j \<or> blocked env k (executor i) = Inr True)"
  using submission_envelope[OF assms] submission_blocks[OF assms] by blast

theorem submission_bounded_witness:
  "\<exists>k res. submitRestrictedIntent demo_env demo_run demo_policy demo_intent demo_empty = (k, [''0x1234''], res) \<and>
     blocked demo_env k (executor demo_intent) = Inr True"
proof -
  obtain k res where s: "submitRestrictedIntent demo_env demo_run demo_policy demo_intent demo_empty = (k, [''0x1234''], res)"
    using demo_submission by (cases "submitRestrictedIntent demo_env demo_run demo_policy demo_intent demo_empty") auto
  have "reaches order_start (order_step demo_env) demo_empty"
    using demo_create by (intro reach_init) (auto simp: order_start_def)
  from submission_bounded[OF demo_ethers this s] s show ?thesis by blast
qed

end
