(* ===== verification/Vault_Json.thy ===== *)
theory Vault_Json
  imports Vault_Properties Json_Parse "HOL-Library.Monad_Syntax"
begin

text \<open>
  \<open>VaultState\<close> as JSON (\<open>packages/domain/src/vault.ts\<close>): what \<open>JSON.stringify\<close> makes of a Vault, and the Vault
  that \<open>restoreVault\<close> finds in a parsed text. A text whose members have other types is no Vault of this model;
  \<open>read_vault\<close> is \<open>None\<close> there, as for a syntax error.
  Shown: a Vault with one value per key is read back from its text (\<open>read_vault_text\<close>).
\<close>

fun status_text :: "vault_status \<Rightarrow> string" where
  "status_text Stopped = ''stopped''"
| "status_text Running = ''running''"
| "status_text Stopping = ''stopping''"

definition split_json :: "split \<Rightarrow> json" where
  "split_json s = JObj [(''profit'', JStr (profit s)), (''principal'', JStr (principal s))]"

definition lock_json :: "pass_lock \<Rightarrow> json" where
  "lock_json l = JObj [(''version'', JNum (lock_version l)), (''principal'', JStr (lock_principal l)),
     (''closed'', JBool (lock_closed l)),
     (''withdrawals'', JObj (map (map_prod id split_json) (lock_withdrawals l)))]"

definition receipt_json :: "receipt \<Rightarrow> json" where
  "receipt_json r = JObj [(''fingerprint'', JStr (fingerprint r)), (''revision'', JNum (receipt_revision r))]"

definition event_json :: "vault_event \<Rightarrow> json" where
  "event_json e = JObj [(''revision'', JNum (event_revision e)), (''commandId'', JStr (event_commandId e)),
     (''type'', JStr (event_type e)), (''actorId'', JStr (event_actorId e))]"

definition lock_entry :: "pass_lock option \<Rightarrow> (string \<times> json) list" where
  "lock_entry l = (case l of None \<Rightarrow> [] | Some k \<Rightarrow> [(''passLock'', lock_json k)])"

definition vault_json :: "vault \<Rightarrow> json" where
  "vault_json s = JObj ([(''scope'', JStr (scope s)), (''id'', JStr (vault_id s)), (''ownerId'', JStr (ownerId s)),
     (''executorId'', JStr (executorId s)), (''strategyId'', JStr (strategyId s)), (''passes'', JStr (passes s))] @
     lock_entry (passLock s) @
     [(''schemaVersion'', JNum (schemaVersion s)), (''revision'', JNum (revision s)),
      (''status'', JStr (status_text (status s))), (''idle'', JStr (idle s)), (''activeCash'', JStr (activeCash s)),
      (''positionCost'', JStr (positionCost s)), (''positionValue'', JStr (positionValue s)),
      (''feeLiability'', JStr (feeLiability s)), (''deposits'', JStr (deposits s)),
      (''withdrawalsPaid'', JStr (withdrawalsPaid s)), (''realizedPnl'', JStr (realizedPnl s)),
      (''feesAccrued'', JStr (feesAccrued s)), (''feesPaid'', JStr (feesPaid s)),
      (''orders'', JObj (map (map_prod id JStr) (orders s))),
      (''pendingWithdrawals'', JObj (map (map_prod id JStr) (pendingWithdrawals s))),
      (''receipts'', JObj (map (map_prod id receipt_json) (receipts s))),
      (''events'', JArr (map event_json (events s)))])"

section \<open>Reading\<close>

definition read_status :: "string \<Rightarrow> vault_status option" where
  "read_status t = (if t = ''stopped'' then Some Stopped else if t = ''running'' then Some Running
     else if t = ''stopping'' then Some Stopping else None)"

definition read_split :: "json \<Rightarrow> split option" where
  "read_split v = do {
     es \<leftarrow> entries_of (Some v);
     p \<leftarrow> text_of (map_of es ''profit'');
     q \<leftarrow> text_of (map_of es ''principal'');
     Some \<lparr>profit = p, principal = q\<rparr>}"

definition read_dict :: "(json \<Rightarrow> 'a option) \<Rightarrow> (string \<times> json) list \<Rightarrow> (string \<times> 'a) list option" where
  "read_dict f es = those (map (\<lambda>e. map_option (Pair (fst e)) (f (snd e))) es)"

definition read_lock :: "json \<Rightarrow> pass_lock option" where
  "read_lock v = do {
     es \<leftarrow> entries_of (Some v);
     n \<leftarrow> number_of (map_of es ''version'');
     p \<leftarrow> text_of (map_of es ''principal'');
     c \<leftarrow> bool_of (map_of es ''closed'');
     w \<leftarrow> entries_of (map_of es ''withdrawals'');
     ws \<leftarrow> read_dict read_split w;
     Some \<lparr>lock_version = n, lock_principal = p, lock_closed = c, lock_withdrawals = ws\<rparr>}"

definition read_receipt :: "json \<Rightarrow> receipt option" where
  "read_receipt v = do {
     es \<leftarrow> entries_of (Some v);
     f \<leftarrow> text_of (map_of es ''fingerprint'');
     r \<leftarrow> number_of (map_of es ''revision'');
     Some \<lparr>fingerprint = f, receipt_revision = r\<rparr>}"

definition read_event :: "json \<Rightarrow> vault_event option" where
  "read_event v = do {
     es \<leftarrow> entries_of (Some v);
     r \<leftarrow> number_of (map_of es ''revision'');
     c \<leftarrow> text_of (map_of es ''commandId'');
     t \<leftarrow> text_of (map_of es ''type'');
     a \<leftarrow> text_of (map_of es ''actorId'');
     Some \<lparr>event_revision = r, event_commandId = c, event_type = t, event_actorId = a\<rparr>}"

definition read_optional_lock :: "json option \<Rightarrow> pass_lock option option" where
  "read_optional_lock v = (case v of None \<Rightarrow> Some None | Some w \<Rightarrow> map_option Some (read_lock w))"

definition read_vault_json :: "json \<Rightarrow> vault option" where
  "read_vault_json v = do {
     es \<leftarrow> entries_of (Some v);
     l \<leftarrow> read_optional_lock (map_of es ''passLock'');
     sc \<leftarrow> text_of (map_of es ''scope'');
     sv \<leftarrow> number_of (map_of es ''schemaVersion'');
     i \<leftarrow> text_of (map_of es ''id'');
     w \<leftarrow> text_of (map_of es ''ownerId'');
     x \<leftarrow> text_of (map_of es ''executorId'');
     st \<leftarrow> text_of (map_of es ''strategyId'');
     p \<leftarrow> text_of (map_of es ''passes'');
     r \<leftarrow> number_of (map_of es ''revision'');
     t \<leftarrow> text_of (map_of es ''status'');
     u \<leftarrow> read_status t;
     a1 \<leftarrow> text_of (map_of es ''idle'');
     a2 \<leftarrow> text_of (map_of es ''activeCash'');
     a3 \<leftarrow> text_of (map_of es ''positionCost'');
     a4 \<leftarrow> text_of (map_of es ''positionValue'');
     a5 \<leftarrow> text_of (map_of es ''feeLiability'');
     a6 \<leftarrow> text_of (map_of es ''deposits'');
     a7 \<leftarrow> text_of (map_of es ''withdrawalsPaid'');
     a8 \<leftarrow> text_of (map_of es ''realizedPnl'');
     a9 \<leftarrow> text_of (map_of es ''feesAccrued'');
     a10 \<leftarrow> text_of (map_of es ''feesPaid'');
     os \<leftarrow> entries_of (map_of es ''orders'');
     ods \<leftarrow> read_dict (\<lambda>v. text_of (Some v)) os;
     ps \<leftarrow> entries_of (map_of es ''pendingWithdrawals'');
     pws \<leftarrow> read_dict (\<lambda>v. text_of (Some v)) ps;
     rs \<leftarrow> entries_of (map_of es ''receipts'');
     rcs \<leftarrow> read_dict read_receipt rs;
     vs \<leftarrow> items_of (map_of es ''events'');
     evs \<leftarrow> those (map read_event vs);
     Some \<lparr>passLock = l, scope = sc, schemaVersion = sv, vault_id = i, ownerId = w, executorId = x,
       strategyId = st, passes = p, revision = r, status = u, idle = a1, activeCash = a2, positionCost = a3,
       positionValue = a4, feeLiability = a5, deposits = a6, withdrawalsPaid = a7, realizedPnl = a8,
       feesAccrued = a9, feesPaid = a10, orders = ods, pendingWithdrawals = pws, receipts = rcs,
       events = evs\<rparr>}"

definition read_vault :: "string \<Rightarrow> vault option" where
  "read_vault t = do { v \<leftarrow> parse_json t; read_vault_json v }"

section \<open>Round trip\<close>

lemma read_dict_map: "(\<And>x. f (g x) = Some x) \<Longrightarrow> read_dict f (map (map_prod id g) xs) = Some xs"
  by (induction xs) (auto simp: read_dict_def)

lemma read_items_map: "(\<And>x. f (g x) = Some x) \<Longrightarrow> those (map (f \<circ> g) xs) = Some xs"
  by (induction xs) auto

lemma read_parts [simp]:
  "read_split (split_json s) = Some s" "read_receipt (receipt_json r) = Some r" "read_event (event_json e) = Some e"
  "read_status (status_text t) = Some t"
  by (cases t; simp add: read_split_def split_json_def read_receipt_def receipt_json_def read_event_def
      event_json_def read_status_def)+

lemma read_lock_json [simp]: "read_lock (lock_json l) = Some l"
  by (simp add: read_lock_def lock_json_def read_dict_map)

lemma read_vault_json_id: "read_vault_json (vault_json s) = Some s"
  by (cases "passLock s") (simp_all add: read_vault_json_def vault_json_def lock_entry_def read_optional_lock_def
      read_dict_map read_items_map)

lemma keyed_parts [simp]:
  "keyed (split_json s)" "keyed (receipt_json r)" "keyed (event_json e)"
  by (simp_all add: split_json_def receipt_json_def event_json_def)

lemma keyed_dict: "distinct (map fst xs) \<Longrightarrow> (\<And>x. keyed (g x)) \<Longrightarrow> keyed (JObj (map (map_prod id g) xs))"
  by (simp add: list_all_iff comp_def)

lemma vault_json_keyed: "objects_wf s \<Longrightarrow> keyed (vault_json s)"
  by (cases "passLock s")
    (auto simp: objects_wf_def vault_json_def lock_entry_def lock_json_def keyed_dict list_all_iff comp_def)

lemma read_vault_text: "objects_wf s \<Longrightarrow> read_vault (print_json (vault_json s)) = Some s"
  by (simp add: read_vault_def parse_print vault_json_keyed read_vault_json_id)

end
