(* ===== verification/Ledger_Store.thy ===== *)
theory Ledger_Store
  imports Vault_Json
begin

text \<open>
  \<^bold>\<open>apps/server/src/store.ts\<close>: \<open>LocalStore\<close>, the SQLite ledger of the local server, with the schema of
  \<open>migrations/001-local-ledger.sql\<close>. A table is a list of its rows; a primary key or \<open>UNIQUE\<close> clause that an
  insert would break is the error \<open>CONSTRAINT\<close>. Every method that writes runs between \<open>BEGIN IMMEDIATE\<close> and
  \<open>COMMIT\<close> or \<open>ROLLBACK\<close>, so it is one step, and an error leaves the tables as they were. Parameters: the
  SHA-256 digest, \<open>localeCompare\<close> (\<open>le\<close>, see \<open>Canonical_Json\<close>), \<open>randomUUID\<close>, the clock, and which Vaults
  have an active bot run (the table \<open>automata_runs\<close> of another component).
\<close>

section \<open>Tables\<close>

record ledger_row =
  lr_id :: string
  lr_owner :: string
  lr_strategy :: string
  lr_revision :: int
  state_json :: string
  lr_digest :: string

record audit_row =
  ar_vault :: string
  ar_revision :: int
  ar_command :: string
  ar_type :: string
  ar_actor :: string
  recorded_at :: string

record ledger =
  vaults :: "ledger_row list"
  audit_events :: "audit_row list"

datatype ledger_error =
    CORRUPT_LEDGER | VAULT_NOT_FOUND | BOT_OWNS_ALLOCATION | LEDGER_REVISION_CONFLICT | CONSTRAINT
  | TYPE_ERROR
  | DOMAIN domain_error

definition empty_ledger :: ledger where
  "empty_ledger = \<lparr>vaults = [], audit_events = []\<rparr>"

definition lift_domain :: "domain_error + 'a \<Rightarrow> ledger_error + 'a" where
  "lift_domain r = (case r of Inl e \<Rightarrow> Inl (DOMAIN e) | Inr x \<Rightarrow> Inr x)"

section \<open>Reading\<close>

definition decode :: "(string \<Rightarrow> string) \<Rightarrow> ledger_row \<Rightarrow> ledger_error + vault" where
  "decode sha r =
     bind_r (check (sha (state_json r) = lr_digest r) CORRUPT_LEDGER) (\<lambda>_.
     case restoreVault read_vault (state_json r) of Inl _ \<Rightarrow> Inl CORRUPT_LEDGER | Inr s \<Rightarrow>
     bind_r (check (vault_id s = lr_id r \<and> ownerId s = lr_owner r \<and> strategyId s = lr_strategy r \<and>
       revision s = lr_revision r) CORRUPT_LEDGER) (\<lambda>_. Inr s))"

definition get_vault :: "(string \<Rightarrow> string) \<Rightarrow> ledger \<Rightarrow> string \<Rightarrow> string \<Rightarrow> ledger_error + vault" where
  "get_vault sha l i owner = (case find (\<lambda>r. lr_id r = i \<and> lr_owner r = owner) (vaults l) of
     None \<Rightarrow> Inl VAULT_NOT_FOUND | Some r \<Rightarrow> decode sha r)"

definition rows_by_id :: "ledger_row list \<Rightarrow> ledger_row list" where
  "rows_by_id rs = map snd (sort_entries (\<lambda>a b. \<not> text_less b a) (map (\<lambda>r. (lr_id r, r)) rs))"

definition list_vaults :: "(string \<Rightarrow> string) \<Rightarrow> ledger \<Rightarrow> string \<Rightarrow> ledger_error + vault list" where
  "list_vaults sha l owner = map_r (decode sha) (rows_by_id (filter (\<lambda>r. lr_owner r = owner) (vaults l)))"

definition forStrategy :: "(string \<Rightarrow> string) \<Rightarrow> ledger \<Rightarrow> string \<Rightarrow> string \<Rightarrow> ledger_error + vault" where
  "forStrategy sha l owner strategy = (case find (\<lambda>r. lr_owner r = owner \<and> lr_strategy r = strategy) (vaults l) of
     None \<Rightarrow> Inl VAULT_NOT_FOUND | Some r \<Rightarrow> decode sha r)"

definition listPage ::
  "(string \<Rightarrow> string) \<Rightarrow> ledger \<Rightarrow> string \<Rightarrow> nat \<Rightarrow> string option \<Rightarrow> string option \<Rightarrow>
   ledger_error + (vault list \<times> string option)" where
  "listPage sha l owner limit after strategy =
     (let rows = take (limit + 1) (rows_by_id (filter (\<lambda>r. lr_owner r = owner \<and>
            text_less (case after of None \<Rightarrow> [] | Some a \<Rightarrow> a) (lr_id r) \<and>
            (case strategy of None \<Rightarrow> True | Some s \<Rightarrow> lr_strategy r = s)) (vaults l)))
      in bind_r (map_r (decode sha) (take limit rows)) (\<lambda>items.
         if length rows > limit
         then (if items = [] then Inl TYPE_ERROR else Inr (items, Some (vault_id (last items))))
         else Inr (items, None)))"

section \<open>Writing\<close>

definition vault_row :: "(string \<Rightarrow> string) \<Rightarrow> string \<Rightarrow> string \<Rightarrow> string \<Rightarrow> vault \<Rightarrow> ledger_row" where
  "vault_row sha i owner strategy s = (let json = print_json (vault_json s) in
     \<lparr>lr_id = i, lr_owner = owner, lr_strategy = strategy, lr_revision = revision s, state_json = json,
      lr_digest = sha json\<rparr>)"

definition principal_lock :: pass_lock where
  "principal_lock = \<lparr>lock_version = 1, lock_principal = ''0'', lock_closed = False, lock_withdrawals = []\<rparr>"

definition obtainTestPasses ::
  "(string \<Rightarrow> string) \<Rightarrow> string \<Rightarrow> ledger \<Rightarrow> string \<Rightarrow> string \<Rightarrow> bool \<Rightarrow> ledger_error + (ledger \<times> vault)" where
  "obtainTestPasses sha uuid l owner strategy principal_v1 =
     (case find (\<lambda>r. lr_owner r = owner \<and> lr_strategy r = strategy) (vaults l) of
        Some r \<Rightarrow> bind_r (decode sha r) (\<lambda>s. Inr (l, s))
      | None \<Rightarrow>
          bind_r (lift_domain (createVault (''vault_'' @ uuid) owner ''local-simulator'' strategy ''1000''
            ''TEST_ONLY'' (if principal_v1 then Some principal_lock else None))) (\<lambda>s.
          bind_r (check (vault_id s \<notin> set (map lr_id (vaults l)) \<and>
            (owner, strategy) \<notin> set (map (\<lambda>r. (lr_owner r, lr_strategy r)) (vaults l))) CONSTRAINT) (\<lambda>_.
          Inr (l\<lparr>vaults := vaults l @ [vault_row sha (vault_id s) owner strategy s]\<rparr>, s))))"

definition bot_commands :: "string list" where
  "bot_commands = [''deposit'', ''requestWithdrawal'', ''cancelWithdrawal'', ''confirmWithdrawal'']"

definition matches :: "string \<Rightarrow> string \<Rightarrow> int \<Rightarrow> ledger_row \<Rightarrow> bool" where
  "matches i owner n r \<longleftrightarrow> lr_id r = i \<and> lr_owner r = owner \<and> lr_revision r = n"

definition command_ledger ::
  "(string \<Rightarrow> string) \<Rightarrow> (string \<Rightarrow> string \<Rightarrow> bool) \<Rightarrow> (string \<Rightarrow> bool) \<Rightarrow> string \<Rightarrow> ledger \<Rightarrow> string \<Rightarrow> string \<Rightarrow>
   actor \<Rightarrow> command \<Rightarrow> policy option \<Rightarrow> ledger_error + (ledger \<times> vault \<times> bool)" where
  "command_ledger sha le bot_active now l owner i a c pol =
     bind_r (get_vault sha l i owner) (\<lambda>previous.
     bind_r (check (\<not> (bot_active i \<and> command_type (body c) \<notin> set bot_commands)) BOT_OWNS_ALLOCATION) (\<lambda>_.
     bind_r (lift_domain (execute le previous a c pol)) (\<lambda>s.
     if s = previous then Inr (l, s, True)
     else
       let json = print_json (vault_json s);
           changes = length (filter (matches i owner (revision previous)) (vaults l));
           event = \<lparr>ar_vault = i, ar_revision = revision s, ar_command = cmd_id c,
             ar_type = command_type (body c), ar_actor = actor_id a, recorded_at = now\<rparr>
       in
       bind_r (check (changes = 1) LEDGER_REVISION_CONFLICT) (\<lambda>_.
       bind_r (check ((i, revision s) \<notin> set (map (\<lambda>e. (ar_vault e, ar_revision e)) (audit_events l)) \<and>
         (i, cmd_id c) \<notin> set (map (\<lambda>e. (ar_vault e, ar_command e)) (audit_events l))) CONSTRAINT) (\<lambda>_.
       Inr (l\<lparr>vaults := map (\<lambda>r. if matches i owner (revision previous) r
                then r\<lparr>lr_revision := revision s, state_json := json, lr_digest := sha json\<rparr> else r) (vaults l),
              audit_events := audit_events l @ [event]\<rparr>, s, False))))))"

definition newest_first :: "audit_row list \<Rightarrow> audit_row list" where
  "newest_first es = rev (sort_key ar_revision es)"

definition audit :: "(string \<Rightarrow> string) \<Rightarrow> ledger \<Rightarrow> string \<Rightarrow> string \<Rightarrow> ledger_error + audit_row list" where
  "audit sha l owner i =
     bind_r (get_vault sha l i owner) (\<lambda>_.
     Inr (take 100 (newest_first (filter (\<lambda>e. ar_vault e = i) (audit_events l)))))"

definition auditPage ::
  "(string \<Rightarrow> string) \<Rightarrow> ledger \<Rightarrow> string \<Rightarrow> string \<Rightarrow> nat \<Rightarrow> int option \<Rightarrow>
   ledger_error + (audit_row list \<times> string option)" where
  "auditPage sha l owner i limit before =
     bind_r (get_vault sha l i owner) (\<lambda>_.
     let rows = take (limit + 1) (newest_first (filter (\<lambda>e. ar_vault e = i \<and>
           ar_revision e < (case before of None \<Rightarrow> 10001 | Some b \<Rightarrow> b)) (audit_events l)));
         items = take limit rows
     in if length rows > limit
        then (if items = [] then Inl TYPE_ERROR else Inr (items, Some (toString (ar_revision (last items)))))
        else Inr (items, None))"

end
