(* ===== verification/Ledger_Properties.thy ===== *)
theory Ledger_Properties
  imports Ledger_Store
begin

text \<open>
  The ledger refines a map from Vault ids to Vaults. \<open>ledger_inv\<close> is the invariant of the two tables: every row
  is the text of a Vault that satisfies \<open>vault_inv\<close>, with the digest of that text, and the audit rows of a Vault
  are its events. Under it no stored row is ever found corrupt, no insert breaks a constraint, and
  \<open>command_ledger\<close> does to the map what \<open>execute\<close> does to one Vault (\<open>ledger_refines_vaults\<close>).
\<close>

section \<open>The abstract ledger\<close>

type_synonym vault_map = "string \<Rightarrow> vault option"

definition ledger_vaults :: "ledger \<Rightarrow> vault_map" where
  "ledger_vaults l i = (case find (\<lambda>r. lr_id r = i) (vaults l) of None \<Rightarrow> None | Some r \<Rightarrow> read_vault (state_json r))"

definition spec_command ::
  "(string \<Rightarrow> string \<Rightarrow> bool) \<Rightarrow> (string \<Rightarrow> bool) \<Rightarrow> vault_map \<Rightarrow> string \<Rightarrow> string \<Rightarrow> actor \<Rightarrow> command \<Rightarrow>
   policy option \<Rightarrow> ledger_error + (vault_map \<times> vault \<times> bool)" where
  "spec_command le bot_active m owner i a c pol = (case m i of None \<Rightarrow> Inl VAULT_NOT_FOUND | Some v \<Rightarrow>
     if ownerId v \<noteq> owner then Inl VAULT_NOT_FOUND
     else if bot_active i \<and> command_type (body c) \<notin> set bot_commands then Inl BOT_OWNS_ALLOCATION
     else (case execute le v a c pol of Inl e \<Rightarrow> Inl (DOMAIN e) | Inr w \<Rightarrow> Inr (m(i \<mapsto> w), w, w = v)))"

section \<open>Invariant\<close>

definition row_of :: "(string \<Rightarrow> string) \<Rightarrow> vault \<Rightarrow> ledger_row" where
  "row_of sha s = vault_row sha (vault_id s) (ownerId s) (strategyId s) s"

definition event_of :: "audit_row \<Rightarrow> vault_event" where
  "event_of e = \<lparr>event_revision = ar_revision e, event_commandId = ar_command e, event_type = ar_type e,
     event_actorId = ar_actor e\<rparr>"

definition trail :: "ledger \<Rightarrow> string \<Rightarrow> vault_event list" where
  "trail l i = map event_of (filter (\<lambda>e. ar_vault e = i) (audit_events l))"

text \<open>The Vaults of a ledger, in the order of its rows.\<close>

definition ledger_inv :: "(string \<Rightarrow> string) \<Rightarrow> ledger \<Rightarrow> bool" where
  "ledger_inv sha l \<longleftrightarrow> (\<exists>ss. vaults l = map (row_of sha) ss \<and> (\<forall>s\<in>set ss. vault_inv s \<and> trail l (vault_id s) = events s) \<and>
     distinct (map vault_id ss) \<and> distinct (map (\<lambda>s. (ownerId s, strategyId s)) ss) \<and>
     (\<forall>e\<in>set (audit_events l). ar_vault e \<in> set (map vault_id ss)))"

lemma row_of_simps [simp]:
  "lr_id (row_of sha s) = vault_id s" "lr_owner (row_of sha s) = ownerId s" "lr_strategy (row_of sha s) = strategyId s"
  "lr_revision (row_of sha s) = revision s" "state_json (row_of sha s) = print_json (vault_json s)"
  "lr_digest (row_of sha s) = sha (print_json (vault_json s))"
  by (simp_all add: row_of_def vault_row_def Let_def)

lemma decode_row: "vault_inv s \<Longrightarrow> decode sha (row_of sha s) = Inr s"
  by (simp add: decode_def restoreVault_def read_vault_text vault_inv_def)

lemma find_row:
  assumes "distinct (map vault_id ss)" "s \<in> set ss"
  shows "find (\<lambda>r. lr_id r = vault_id s) (map (row_of sha) ss) = Some (row_of sha s)"
  using assms
proof (induction ss)
  case (Cons t ss)
  then show ?case by (cases "vault_id t = vault_id s") (auto simp: image_iff)
qed simp

lemma find_row_owner:
  assumes "distinct (map vault_id ss)"
  shows "find (\<lambda>r. lr_id r = i \<and> lr_owner r = owner) (map (row_of sha) ss) =
    map_option (row_of sha) (find (\<lambda>s. vault_id s = i \<and> ownerId s = owner) ss)"
  by (induction ss) auto

lemma ledger_vaults_rows:
  assumes "vaults l = map (row_of sha) ss" "\<forall>s\<in>set ss. vault_inv s"
  shows "ledger_vaults l i = find (\<lambda>s. vault_id s = i) ss"
proof -
  have "find (\<lambda>r. lr_id r = i) (map (row_of sha) ss) = map_option (row_of sha) (find (\<lambda>s. vault_id s = i) ss)"
    by (induction ss) auto
  moreover have "read_vault (print_json (vault_json s)) = Some s" if "find (\<lambda>s. vault_id s = i) ss = Some s" for s
    using that assms(2) by (auto simp: read_vault_text vault_inv_def find_Some_iff)
  ultimately show ?thesis using assms(1) by (auto simp: ledger_vaults_def split: option.splits)
qed

lemma find_unique:
  "distinct (map f xs) \<Longrightarrow> find (\<lambda>x. f x = k) xs = Some y \<longleftrightarrow> y \<in> set xs \<and> f y = k"
  by (induction xs) auto

lemma find_key_none: "find (\<lambda>x. f x = k) xs = None \<longleftrightarrow> k \<notin> set (map f xs)"
  by (auto simp: find_None_iff)

lemma get_vault_spec:
  assumes "vaults l = map (row_of sha) ss" "\<forall>s\<in>set ss. vault_inv s" "distinct (map vault_id ss)"
  shows "get_vault sha l i owner = (case find (\<lambda>s. vault_id s = i) ss of None \<Rightarrow> Inl VAULT_NOT_FOUND
    | Some s \<Rightarrow> if ownerId s = owner then Inr s else Inl VAULT_NOT_FOUND)"
proof (cases "find (\<lambda>s. vault_id s = i) ss")
  case None
  then have "find (\<lambda>s. vault_id s = i \<and> ownerId s = owner) ss = None" by (auto simp: find_None_iff)
  then show ?thesis using None assms(1) by (simp add: get_vault_def find_row_owner[OF assms(3)])
next
  case (Some s)
  then have s: "s \<in> set ss" "vault_id s = i" using find_unique[OF assms(3)] by blast+
  have uniq: "t = s" if "t \<in> set ss" "vault_id t = i" for t
    using that s assms(3) by (auto simp: distinct_map inj_on_def)
  show ?thesis
  proof (cases "find (\<lambda>s. vault_id s = i \<and> ownerId s = owner) ss")
    case None
    then have "ownerId s \<noteq> owner" using s by (auto simp: find_None_iff)
    then show ?thesis using None Some assms(1) by (simp add: get_vault_def find_row_owner[OF assms(3)])
  next
    case (Some t)
    then have "t \<in> set ss" "vault_id t = i" "ownerId t = owner" by (auto simp: find_Some_iff)
    then show ?thesis using Some \<open>find (\<lambda>s. vault_id s = i) ss = Some s\<close> uniq assms(1,2)
      by (simp add: get_vault_def find_row_owner[OF assms(3)] decode_row)
  qed
qed

section \<open>A command\<close>

lemma transition_events:
  assumes "transition_vault s a c pol fp = Inr t"
  shows "events t = events s @ [\<lparr>event_revision = revision s + 1, event_commandId = cmd_id c,
    event_type = command_type (body c), event_actorId = actor_id a\<rparr>]"
proof -
  from assms obtain amount r b n1 n2 av where st:
    "perform s (case r of None \<Rightarrow> s | Some l \<Rightarrow> s\<lparr>passLock := Some l\<rparr>) b av amount c pol = Inr n1"
    "finish_status n1 = Inr n2" "t = record_command n2 a c fp"
    by (auto simp: transition_vault_def Let_def bind_r_Inr split: if_splits)
  show ?thesis
    using perform_frame[OF st(1)] finish_status_cases[OF st(2)] st(3)
    by (auto simp: record_command_def Let_def split: option.splits)
qed

lemma event_known:
  assumes "vault_inv s" "e \<in> set (events s)"
  shows "event_revision e \<le> revision s" "map_of (receipts s) (event_commandId e) \<noteq> None"
proof -
  have h: "history_sane s" using assms(1) assertInvariant_sane[of s] by (simp add: vault_inv_def vault_sane_def)
  obtain k where "k < length (events s)" "e = events s ! k" using assms(2) by (metis in_set_conv_nth)
  then show "event_revision e \<le> revision s" "map_of (receipts s) (event_commandId e) \<noteq> None"
    using h by (auto simp: history_sane_def)
qed

lemma execute_changes:
  assumes "execute le s a c pol = Inr t" "t \<noteq> s"
  shows "same_identity s t \<and> revision t = revision s + 1 \<and> map_of (receipts s) (cmd_id c) = None \<and>
    events t = events s @ [\<lparr>event_revision = revision s + 1, event_commandId = cmd_id c,
      event_type = command_type (body c), event_actorId = actor_id a\<rparr>]"
  using assms(1)
  by (rule execute_cases) (use assms(2) transition_frame transition_events in blast)+

definition replace_vault :: "vault \<Rightarrow> vault \<Rightarrow> vault list \<Rightarrow> vault list" where
  "replace_vault s t ss = map (\<lambda>x. if x = s then t else x) ss"

lemma command_new:
  assumes rows: "vaults l = map (row_of sha) ss" and inv: "\<forall>s\<in>set ss. vault_inv s \<and> trail l (vault_id s) = events s"
    and ids: "distinct (map vault_id ss)" and s: "s \<in> set ss"
    and t: "execute le s a c pol = Inr t" "t \<noteq> s"
    and bot: "\<not> (bot_active (vault_id s) \<and> command_type (body c) \<notin> set bot_commands)"
  shows "\<exists>k. command_ledger sha le bot_active now l (ownerId s) (vault_id s) a c pol = Inr (k, t, False) \<and>
    vaults k = map (row_of sha) (replace_vault s t ss) \<and>
    audit_events k = audit_events l @ [\<lparr>ar_vault = vault_id s, ar_revision = revision t, ar_command = cmd_id c,
      ar_type = command_type (body c), ar_actor = actor_id a, recorded_at = now\<rparr>]"
proof -
  note ch = execute_changes[OF t]
  let ?m = "matches (vault_id s) (ownerId s) (revision s)"
  have uniq: "x = s" if "x \<in> set ss" "vault_id x = vault_id s" for x
    using that s ids by (auto simp: distinct_map inj_on_def)
  have m: "?m (row_of sha x) \<longleftrightarrow> x = s" if "x \<in> set ss" for x
    using that uniq by (auto simp: matches_def)
  have "filter ?m (vaults l) = map (row_of sha) (filter (\<lambda>x. x = s) ss)"
    unfolding rows filter_map comp_def using m by (metis (mono_tags, lifting) filter_cong)
  moreover have "filter (\<lambda>x. x = s) ss = [s]"
    using s ids by (induction ss) (auto simp: filter_empty_conv)
  ultimately have one: "length (filter ?m (vaults l)) = 1" by simp
  have row: "(row_of sha s)\<lparr>lr_revision := revision t, state_json := print_json (vault_json t),
      lr_digest := sha (print_json (vault_json t))\<rparr> = row_of sha t"
    using ch by (simp add: row_of_def vault_row_def same_identity_def Let_def)
  have upd: "map (\<lambda>r. if ?m r then r\<lparr>lr_revision := revision t, state_json := print_json (vault_json t),
      lr_digest := sha (print_json (vault_json t))\<rparr> else r) (vaults l) = map (row_of sha) (replace_vault s t ss)"
    unfolding rows replace_vault_def map_map using m row by (auto simp: comp_def)
  have known: "event_revision (event_of e) \<le> revision s" "map_of (receipts s) (ar_command e) \<noteq> None"
    if e: "e \<in> set (audit_events l)" "ar_vault e = vault_id s" for e
  proof -
    have "event_of e \<in> set (trail l (vault_id s))" using e by (auto simp: trail_def)
    then have "event_of e \<in> set (events s)" using inv s by simp
    then show "event_revision (event_of e) \<le> revision s" "map_of (receipts s) (ar_command e) \<noteq> None"
      using event_known[of s "event_of e"] inv s by (auto simp: event_of_def)
  qed
  have fresh: "(vault_id s, revision t) \<notin> set (map (\<lambda>e. (ar_vault e, ar_revision e)) (audit_events l))"
    "(vault_id s, cmd_id c) \<notin> set (map (\<lambda>e. (ar_vault e, ar_command e)) (audit_events l))"
    using known ch by (fastforce simp: event_of_def)+
  have "get_vault sha l (vault_id s) (ownerId s) = Inr s"
    using get_vault_spec[OF rows _ ids] inv find_unique[OF ids, of "vault_id s" s] s by simp
  then have "command_ledger sha le bot_active now l (ownerId s) (vault_id s) a c pol = Inr (l\<lparr>vaults := map (row_of sha) (replace_vault s t ss),
      audit_events := audit_events l @ [\<lparr>ar_vault = vault_id s, ar_revision = revision t, ar_command = cmd_id c,
      ar_type = command_type (body c), ar_actor = actor_id a, recorded_at = now\<rparr>]\<rparr>, t, False)"
    unfolding command_ledger_def Let_def upd[symmetric] using bot t one fresh by (simp add: lift_domain_def)
  then show ?thesis by simp
qed

lemma replace_inv:
  assumes rows: "vaults l = map (row_of sha) ss" and inv: "\<forall>s\<in>set ss. vault_inv s \<and> trail l (vault_id s) = events s"
    and ids: "distinct (map vault_id ss)" "distinct (map (\<lambda>s. (ownerId s, strategyId s)) ss)"
    and aud: "\<forall>e\<in>set (audit_events l). ar_vault e \<in> set (map vault_id ss)" and s: "s \<in> set ss"
    and vt: "vault_inv t" and ch: "same_identity s t" "events t = events s @ [event_of row]" and row: "ar_vault row = vault_id s"
    and k: "vaults k = map (row_of sha) (replace_vault s t ss)" "audit_events k = audit_events l @ [row]"
  shows "ledger_inv sha k" "ledger_vaults k = (ledger_vaults l)(vault_id s \<mapsto> t)"
proof -
  have uniq: "x = s" if "x \<in> set ss" "vault_id x = vault_id s" for x
    using that s ids by (auto simp: distinct_map inj_on_def)
  have frame: "map vault_id (replace_vault s t ss) = map vault_id ss"
    "map (\<lambda>s. (ownerId s, strategyId s)) (replace_vault s t ss) = map (\<lambda>s. (ownerId s, strategyId s)) ss"
    using ch by (auto simp: replace_vault_def same_identity_def)
  have tr: "trail k i = trail l i @ (if i = vault_id s then [event_of row] else [])" for i
    using k(2) row by (simp add: trail_def)
  have each: "vault_inv x \<and> trail k (vault_id x) = events x" if x: "x \<in> set (replace_vault s t ss)" for x
  proof -
    obtain y where y: "y \<in> set ss" "x = (if y = s then t else y)" using x by (auto simp: replace_vault_def)
    show ?thesis
    proof (cases "y = s")
      case True
      then show ?thesis using y vt tr[of "vault_id t"] ch inv s by (simp add: same_identity_def)
    next
      case False
      then have "vault_id y \<noteq> vault_id s" using uniq y(1) by blast
      then show ?thesis using y False inv tr[of "vault_id y"] by simp
    qed
  qed
  show "ledger_inv sha k"
    unfolding ledger_inv_def using k row each ids aud s by (intro exI[of _ "replace_vault s t ss"]) (simp add: frame)
  have lv: "ledger_vaults l i = find (\<lambda>s. vault_id s = i) ss" "ledger_vaults k i = find (\<lambda>s. vault_id s = i) (replace_vault s t ss)" for i
    using ledger_vaults_rows[OF rows] ledger_vaults_rows[OF k(1)] inv each by simp_all
  have "find (\<lambda>x. vault_id x = i) (replace_vault s t xs) =
      (if i = vault_id s then (if s \<in> set xs then Some t else None) else find (\<lambda>x. vault_id x = i) xs)"
    if "set xs \<subseteq> set ss" for i xs
    using that uniq ch by (induction xs) (auto simp: replace_vault_def same_identity_def)
  then show "ledger_vaults k = (ledger_vaults l)(vault_id s \<mapsto> t)" using lv s by (auto simp: fun_eq_iff)
qed

lemma ledger_invE:
  assumes "ledger_inv sha l"
  obtains ss where "vaults l = map (row_of sha) ss" "\<forall>s\<in>set ss. vault_inv s \<and> trail l (vault_id s) = events s"
    "distinct (map vault_id ss)" "distinct (map (\<lambda>s. (ownerId s, strategyId s)) ss)"
    "\<forall>e\<in>set (audit_events l). ar_vault e \<in> set (map vault_id ss)"
  using assms unfolding ledger_inv_def by blast

text \<open>A command on the tables is the command on the map, and keeps the invariant.\<close>

lemma command_refines:
  assumes "ledger_inv sha l"
  shows "map_sum id (map_prod ledger_vaults id) (command_ledger sha le bot_active now l owner i a c pol) =
    spec_command le bot_active (ledger_vaults l) owner i a c pol"
    and "command_ledger sha le bot_active now l owner i a c pol = Inr (k, t, r) \<Longrightarrow> ledger_inv sha k"
proof -
  obtain ss where ss: "vaults l = map (row_of sha) ss" "\<forall>s\<in>set ss. vault_inv s \<and> trail l (vault_id s) = events s"
    "distinct (map vault_id ss)" "distinct (map (\<lambda>s. (ownerId s, strategyId s)) ss)"
    "\<forall>e\<in>set (audit_events l). ar_vault e \<in> set (map vault_id ss)"
    using assms by (rule ledger_invE)
  have lv: "ledger_vaults l i = find (\<lambda>s. vault_id s = i) ss" using ledger_vaults_rows[OF ss(1)] ss(2) by simp
  have gv: "get_vault sha l i owner = (case find (\<lambda>s. vault_id s = i) ss of None \<Rightarrow> Inl VAULT_NOT_FOUND
    | Some s \<Rightarrow> if ownerId s = owner then Inr s else Inl VAULT_NOT_FOUND)" using get_vault_spec[OF ss(1) _ ss(3)] ss(2) by simp
  let ?cmd = "command_ledger sha le bot_active now l owner i a c pol"
  have "map_sum id (map_prod ledger_vaults id) ?cmd = spec_command le bot_active (ledger_vaults l) owner i a c pol \<and>
    (\<forall>k t r. ?cmd = Inr (k, t, r) \<longrightarrow> ledger_inv sha k)"
  proof (cases "find (\<lambda>s. vault_id s = i) ss")
    case None
    then show ?thesis using lv gv by (simp add: command_ledger_def spec_command_def)
  next
    case (Some s)
    then have s: "s \<in> set ss" "vault_id s = i" using find_unique[OF ss(3)] by blast+
    show ?thesis
    proof (cases "ownerId s = owner \<and> \<not> (bot_active i \<and> command_type (body c) \<notin> set bot_commands)")
      case False
      then show ?thesis using Some lv gv by (auto simp: command_ledger_def spec_command_def)
    next
      case ok: True
      show ?thesis
      proof (cases "execute le s a c pol")
        case (Inl e)
        then show ?thesis using Some lv gv ok by (auto simp: command_ledger_def spec_command_def lift_domain_def)
      next
        case (Inr t)
        show ?thesis
        proof (cases "t = s")
          case True
          then show ?thesis using Some lv gv ok Inr assms
            by (auto simp: command_ledger_def spec_command_def lift_domain_def fun_eq_iff)
        next
          case False
          have bot: "\<not> (bot_active (vault_id s) \<and> command_type (body c) \<notin> set bot_commands)" using ok s(2) by simp
          obtain k where k: "?cmd = Inr (k, t, False)" "vaults k = map (row_of sha) (replace_vault s t ss)"
            "audit_events k = audit_events l @ [\<lparr>ar_vault = vault_id s, ar_revision = revision t, ar_command = cmd_id c,
              ar_type = command_type (body c), ar_actor = actor_id a, recorded_at = now\<rparr>]"
            using command_new[where bot_active = bot_active, OF ss(1-3) s(1) Inr False bot] ok s(2) by auto
          have "vault_inv t" using execute_inv[OF _ Inr] ss(2) s(1) by blast
          note rep = replace_inv[OF ss s(1) this _ _ _ k(2,3)]
          show ?thesis using k(1) rep execute_changes[OF Inr False] Some lv ok Inr False s(2) by (auto simp: spec_command_def event_of_def)
        qed
      qed
    qed
  qed
  then show "map_sum id (map_prod ledger_vaults id) ?cmd = spec_command le bot_active (ledger_vaults l) owner i a c pol"
    "?cmd = Inr (k, t, r) \<Longrightarrow> ledger_inv sha k" by blast+
qed

section \<open>The ledger as a machine\<close>

lemma create_vault_fields:
  "createVault i owner executor strategy pas scp lock = Inr s \<Longrightarrow>
   vault_id s = i \<and> ownerId s = owner \<and> strategyId s = strategy \<and> events s = []"
  by (auto simp: createVault_def Let_def bind_r_Inr)

lemma obtain_inv:
  assumes inv: "ledger_inv sha l" and ob: "obtainTestPasses sha uuid l owner strategy v1 = Inr (k, s)"
  shows "ledger_inv sha k"
proof (cases "find (\<lambda>r. lr_owner r = owner \<and> lr_strategy r = strategy) (vaults l)")
  case (Some r)
  then show ?thesis using assms by (auto simp: obtainTestPasses_def bind_r_Inr)
next
  case None
  obtain ss where ss: "vaults l = map (row_of sha) ss" "\<forall>s\<in>set ss. vault_inv s \<and> trail l (vault_id s) = events s"
    "distinct (map vault_id ss)" "distinct (map (\<lambda>s. (ownerId s, strategyId s)) ss)"
    "\<forall>e\<in>set (audit_events l). ar_vault e \<in> set (map vault_id ss)"
    using inv by (rule ledger_invE)
  have c: "createVault (''vault_'' @ uuid) owner ''local-simulator'' strategy ''1000'' ''TEST_ONLY''
      (if v1 then Some principal_lock else None) = Inr s"
    and new: "vault_id s \<notin> set (map lr_id (vaults l))" "(owner, strategy) \<notin> set (map (\<lambda>r. (lr_owner r, lr_strategy r)) (vaults l))"
    and k: "k = l\<lparr>vaults := vaults l @ [vault_row sha (vault_id s) owner strategy s]\<rparr>"
    using ob None by (auto simp: obtainTestPasses_def bind_r_Inr lift_domain_def split: sum.splits if_splits)
  note f = create_vault_fields[OF c]
  have "vault_start s" unfolding vault_start_def using c by blast
  then have "vault_inv s" by (rule vault_start_inv)
  moreover have "trail k (vault_id s) = []"
    using ss(1,5) new(1) by (simp add: trail_def k filter_empty_conv) metis
  moreover have "trail k i = trail l i" for i by (simp add: trail_def k)
  moreover have "vaults k = map (row_of sha) (ss @ [s])" using f ss(1) by (simp add: k row_of_def)
  ultimately show ?thesis
    unfolding ledger_inv_def using ss f new k
    by (intro exI[of _ "ss @ [s]"]) (auto simp: comp_def)
qed

datatype ledger_op =
    Obtain string string string bool
  | Run "string list" string string string actor command "policy option"

fun ledger_step ::
  "(string \<Rightarrow> string) \<Rightarrow> (string \<Rightarrow> string \<Rightarrow> bool) \<Rightarrow> ledger \<Rightarrow> ledger_op \<Rightarrow> ledger_error + ledger" where
  "ledger_step sha le l (Obtain uuid owner strategy v1) =
     bind_r (obtainTestPasses sha uuid l owner strategy v1) (\<lambda>x. Inr (fst x))"
| "ledger_step sha le l (Run bots now owner i a c pol) =
     bind_r (command_ledger sha le (\<lambda>v. v \<in> set bots) now l owner i a c pol) (\<lambda>x. Inr (fst x))"

lemma empty_ledger_inv: "ledger_inv sha empty_ledger"
  unfolding ledger_inv_def by (rule exI[of _ "[]"]) (simp add: empty_ledger_def)

lemma ledger_step_inv: "ledger_inv sha l \<Longrightarrow> ledger_step sha le l x = Inr k \<Longrightarrow> ledger_inv sha k"
  by (cases x) (auto simp: bind_r_Inr intro: obtain_inv command_refines(2))

interpretation ledger_machine: guarded_machine "\<lambda>l. l = empty_ledger" "ledger_step sha le" "ledger_inv sha" for sha le
  by unfold_locales (auto simp: empty_ledger_inv intro: ledger_step_inv)

section \<open>Properties\<close>

text \<open>C6: the server's ledger implements the Vaults. On every ledger the server can have written, running a
  command through \<open>LocalStore.command\<close> is running \<open>execute\<close> on the one Vault with that id: the same result or the
  same error, that Vault replaced and no other touched. A stored state is never found corrupt, the
  compare-and-swap on the revision never misses, and no audit row ever collides with another.\<close>

theorem ledger_refines_vaults:
  assumes "reaches (\<lambda>l. l = empty_ledger) (ledger_step sha le) l"
  shows "map_sum id (map_prod ledger_vaults id) (command_ledger sha le bot_active now l owner i a c pol) =
    spec_command le bot_active (ledger_vaults l) owner i a c pol"
  using ledger_machine.reachable_inv[OF assms] by (rule command_refines(1))


definition demo_stored :: vault where
  "demo_stored = demo_vault\<lparr>passLock := None, vault_id := ''vault_u1'', executorId := ''local-simulator'', passes := ''1000''\<rparr>"

definition demo_ledger :: ledger where
  "demo_ledger = \<lparr>vaults = [row_of (\<lambda>t. t) demo_stored], audit_events = []\<rparr>"

lemma demo_ledger_reached: "reaches (\<lambda>l. l = empty_ledger) (ledger_step (\<lambda>t. t) demo_le) demo_ledger"
proof (rule reach_step[OF reach_init])
  have "createVault (''vault_'' @ ''u1'') ''alice'' ''local-simulator'' ''ema'' ''1000'' ''TEST_ONLY'' None = Inr demo_stored"
    by code_simp
  moreover have "ownerId demo_stored = ''alice''" "strategyId demo_stored = ''ema''"
    by (simp_all add: demo_stored_def demo_vault_def)
  ultimately show "ledger_step (\<lambda>t. t) demo_le empty_ledger (Obtain ''u1'' ''alice'' ''ema'' False) = Inr demo_ledger"
    by (simp add: obtainTestPasses_def empty_ledger_def demo_ledger_def row_of_def lift_domain_def)
qed simp

theorem ledger_refines_vaults_witness:
  "map_sum id (map_prod ledger_vaults id) (command_ledger (\<lambda>t. t) demo_le (\<lambda>_. False) ''now'' demo_ledger ''alice''
     ''vault_u1'' demo_owner (demo_command (Deposit ''3'')) None) =
   spec_command demo_le (\<lambda>_. False) (ledger_vaults demo_ledger) ''alice'' ''vault_u1'' demo_owner (demo_command (Deposit ''3'')) None"
  by (rule ledger_refines_vaults[OF demo_ledger_reached])


end
