(* ===== verification/Hex_Words.thy ===== *)
theory Hex_Words
  imports Keccak Money
begin

text \<open>
  Hexadecimal numbers as the ABI and JSON-RPC code writes and reads them: \<open>toString(16)\<close>, \<open>BigInt\<close> of a
  hexadecimal text and the split of call data into words of 64 digits, with their round trips.
\<close>

section \<open>Writing and reading\<close>

function hex_text :: "int \<Rightarrow> string" where
  "hex_text n = (if n < 16 then [hex_digit_char n] else hex_text (n div 16) @ [hex_digit_char (n mod 16)])"
  by pat_completeness auto
termination
  by (relation "measure nat") auto

declare hex_text.simps [simp del]

definition hex_number :: "string \<Rightarrow> int" where
  "hex_number s = foldl (\<lambda>a c. 16 * a + hex_value c) 0 s"

fun words_of :: "string \<Rightarrow> string list" where
  "words_of [] = []"
| "words_of (c # cs) = take 64 (c # cs) # words_of (drop 64 (c # cs))"

definition js_space :: "char \<Rightarrow> bool" where
  "js_space c \<longleftrightarrow> (of_char c :: nat) \<in> {9, 10, 11, 12, 13, 32, 160}"

text \<open>\<open>BigInt('0x' + s)\<close>; \<open>BigInt\<close> ignores white space at the end of its text.\<close>

definition BigInt_hex :: "string \<Rightarrow> int option" where
  "BigInt_hex s = (let d = rev (dropWhile js_space (rev s)) in
     if d \<noteq> [] \<and> list_all is_hex d then Some (hex_number d) else None)"

section \<open>Digits\<close>

text \<open>Facts about the 22 hexadecimal digits, by evaluation.\<close>

lemma hex_digit_facts:
  "list_all (\<lambda>c. 0 \<le> hex_value c \<and> hex_value c < 16 \<and> is_lower_hex (lower_char c) \<and> hex_value (lower_char c) = hex_value c \<and>
     \<not> js_space c) ''0123456789abcdefABCDEF''"
  "list_all (\<lambda>c. hex_digit_char (hex_value c) = c \<and> lower_char c = c \<and> is_hex c) ''0123456789abcdef''"
  "list_all (\<lambda>d. hex_value (hex_digit_char d) = d) [0, 1, 2, 3, 4, 5, 6, 7, 8, 9, 10, 11, 12, 13, 14, 15]"
  by code_simp+

lemma hex_digit_bound: "is_hex c \<Longrightarrow> 0 \<le> hex_value c \<and> hex_value c < 16"
  and lower_hex_char: "is_hex c \<Longrightarrow> is_lower_hex (lower_char c) \<and> hex_value (lower_char c) = hex_value c"
  and hex_not_space: "is_hex c \<Longrightarrow> \<not> js_space c"
  using hex_digit_facts(1) unfolding is_hex_def list_all_iff by blast+

lemma digit_of_lower_hex: "is_lower_hex c \<Longrightarrow> hex_digit_char (hex_value c) = c"
  and lower_hex_lower: "is_lower_hex c \<Longrightarrow> lower_char c = c"
  and lower_hex_is_hex: "is_lower_hex c \<Longrightarrow> is_hex c"
  using hex_digit_facts(2) by (simp_all only: is_lower_hex_def list_all_iff)

lemma hex_value_digit [simp]:
  assumes "0 \<le> d" "d < 16"
  shows "hex_value (hex_digit_char d) = d"
proof -
  have "d \<in> set [0..15]" using assms by simp
  moreover have "[0..15] = [0, 1, 2, 3, 4, 5, 6, 7, 8, 9, 10, 11, 12, 13, 14, 15::int]" by code_simp
  ultimately show ?thesis using hex_digit_facts(3) by (simp only: list_all_iff)
qed

lemma hex_digit_is_hex [simp]: "is_hex (hex_digit_char d)" "is_lower_hex (hex_digit_char d)"
  using hex_digit_lower lower_hex_is_hex by blast+

section \<open>Numbers\<close>

lemma hex_number_snoc [simp]: "hex_number (s @ [c]) = 16 * hex_number s + hex_value c"
  by (simp add: hex_number_def)

lemma hex_number_Nil [simp]: "hex_number [] = 0"
  by (simp add: hex_number_def)

lemma hex_number_bound: "list_all is_hex s \<Longrightarrow> 0 \<le> hex_number s \<and> hex_number s < 16 ^ length s"
proof (induction s rule: rev_induct)
  case (snoc c s)
  then show ?case using hex_digit_bound[of c] by simp
qed simp

lemma hex_number_zeros [simp]: "hex_number (replicate k (CHR ''0'') @ s) = hex_number s"
proof (induction s rule: rev_induct)
  case Nil
  have "hex_number (replicate k (CHR ''0'')) = 0"
    by (induction k) (simp_all add: replicate_append_same[symmetric] hex_value_def del: replicate_append_same)
  then show ?case by simp
next
  case (snoc c s)
  then show ?case by (simp flip: append_assoc)
qed

lemma hex_number_text [simp]: "0 \<le> n \<Longrightarrow> hex_number (hex_text n) = n"
proof (induction n rule: hex_text.induct)
  case (1 n)
  then show ?case by (subst hex_text.simps) (auto simp: hex_number_def)
qed

lemma hex_text_hex: "list_all is_hex (hex_text n)" "list_all is_lower_hex (hex_text n)"
proof (induction n rule: hex_text.induct)
  case (1 n)
  { case 1 show ?case by (subst hex_text.simps) (use "1.IH" in auto) }
  { case 2 show ?case by (subst hex_text.simps) (use "1.IH" in auto) }
qed

lemma hex_text_nonempty [simp]: "hex_text n \<noteq> []"
  by (subst hex_text.simps) simp

lemma length_hex_text: "0 \<le> n \<Longrightarrow> n < 16 ^ Suc k \<Longrightarrow> length (hex_text n) \<le> Suc k"
proof (induction k arbitrary: n)
  case 0
  then show ?case by (subst hex_text.simps) simp
next
  case (Suc k)
  then have "n div 16 < 16 ^ Suc k" by (simp add: div_less_iff_less_mult mult.commute)
  then show ?case using Suc.IH[of "n div 16"] Suc.prems by (subst hex_text.simps) simp
qed

lemma map_lower_hex: "list_all is_lower_hex s \<Longrightarrow> toLowerCase s = s"
  by (induction s) (simp_all add: toLowerCase_def lower_hex_lower)

section \<open>Words\<close>

lemma length_padStart: "length s \<le> k \<Longrightarrow> length (padStart s k c) = k"
  by (simp add: padStart_def)

lemma all_padStart: "list_all P s \<Longrightarrow> P c \<Longrightarrow> list_all P (padStart s k c)"
  by (auto simp: padStart_def list_all_iff)

lemma hex_number_pad [simp]: "hex_number (padStart s k (CHR ''0'')) = hex_number s"
  by (simp add: padStart_def)

lemma base16_unique:
  assumes "16 * x + c = 16 * y + d" "0 \<le> c" "c < 16" "0 \<le> d" "d < (16::int)"
  shows "c = d \<and> x = y"
proof -
  have m: "(16 * x + c) mod 16 = c" "(16 * y + d) mod 16 = d" using assms(2-5) by simp_all
  have "c = d" using m(1) unfolding assms(1) m(2) by simp
  then show ?thesis using assms(1) by simp
qed

text \<open>A number has one text of a given length.\<close>

lemma hex_text_unique:
  assumes "list_all is_lower_hex s" "list_all is_lower_hex t" "length s = length t" "hex_number s = hex_number t"
  shows "s = t"
  using assms
proof (induction s arbitrary: t rule: rev_induct)
  case (snoc c s)
  then obtain d u where t: "t = u @ [d]" by (cases t rule: rev_cases) auto
  have b: "0 \<le> hex_value x \<and> hex_value x < 16" if "is_lower_hex x" for x
    using that hex_digit_bound lower_hex_is_hex by blast
  have e: "16 * hex_number s + hex_value c = 16 * hex_number u + hex_value d" using snoc.prems t by simp
  have "hex_value c = hex_value d \<and> hex_number s = hex_number u"
    by (rule base16_unique[OF e]) (use b[of c] b[of d] snoc.prems t in auto)
  then have v: "hex_value c = hex_value d" and n: "hex_number s = hex_number u" by simp_all
  have "c = d" using digit_of_lower_hex[of c] digit_of_lower_hex[of d] snoc.prems(1,2) unfolding t v by simp
  moreover have "s = u" using snoc.IH[OF _ _ _ n] snoc.prems(1-3) unfolding t by simp
  ultimately show ?case using t by simp
qed simp

lemma hex_number_lower: "list_all is_hex s \<Longrightarrow> hex_number (toLowerCase s) = hex_number s"
  by (induction s rule: rev_induct) (simp_all add: toLowerCase_def lower_hex_char)

lemma lower_all_hex: "list_all is_hex s \<Longrightarrow> list_all is_lower_hex (toLowerCase s)"
  by (induction s) (simp_all add: toLowerCase_def lower_hex_char)

lemma zero_lower_hex [simp]: "is_lower_hex (CHR ''0'')" "is_hex (CHR ''0'')"
  by (simp_all add: is_lower_hex_def is_hex_def)

text \<open>The padded text of the number of a word is the word in lower case.\<close>

lemma pad_hex_number:
  assumes "list_all is_hex s" "0 < length s"
  shows "padStart (hex_text (hex_number s)) (length s) (CHR ''0'') = toLowerCase s"
proof (rule hex_text_unique)
  obtain k where k: "length s = Suc k" using assms(2) by (cases "length s") auto
  have b: "0 \<le> hex_number s" "hex_number s < 16 ^ Suc k" using hex_number_bound[OF assms(1)] k by simp_all
  show "list_all is_lower_hex (padStart (hex_text (hex_number s)) (length s) (CHR ''0''))"
    using hex_text_hex(2) by (rule all_padStart) simp
  show "list_all is_lower_hex (toLowerCase s)" by (rule lower_all_hex[OF assms(1)])
  show "length (padStart (hex_text (hex_number s)) (length s) (CHR ''0'')) = length (toLowerCase s)"
    using length_padStart[OF length_hex_text[OF b]] k by (simp add: toLowerCase_def)
  show "hex_number (padStart (hex_text (hex_number s)) (length s) (CHR ''0'')) = hex_number (toLowerCase s)"
    using b(1) hex_number_lower[OF assms(1)] by simp
qed

lemma BigInt_hex_digits: "s \<noteq> [] \<Longrightarrow> list_all is_hex s \<Longrightarrow> BigInt_hex s = Some (hex_number s)"
proof -
  assume s: "s \<noteq> []" "list_all is_hex s"
  then have "\<not> js_space (hd (rev s))" using hex_not_space by (simp add: hd_rev list_all_iff)
  then have "dropWhile js_space (rev s) = rev s" using s(1) by (simp add: dropWhile_eq_self_iff)
  then show ?thesis using s by (simp add: BigInt_hex_def)
qed

end
