(* ===== verification/Chain_Store.thy ===== *)
theory Chain_Store
  imports Chain_Lifecycle Json_Parse
begin

text \<open>
  \<^bold>\<open>apps/server/src/chain-store.ts\<close>: \<open>ChainStore\<close>, the SQLite index of canonical chain data, with the schema
  that \<open>chain-migrations/001\<close> to \<open>007\<close> build. A table is the list of its rows; all rows of all chains and
  contracts share it, as in the source. Every writing method is one transaction, hence one step that returns the
  new tables or the code it threw, in which case the tables stay as they were. Column values have the types the
  methods write (a state is a \<open>transaction_state\<close>, not an arbitrary text). Which texts \<open>Date.parse\<close> accepts is the
  parameter \<open>date_parses\<close>. \<open>Object.keys(..).sort()\<close> is the byte order of the keys.
\<close>

type_synonym 'a store = "string + 'a"

datatype sync_error = CHAIN_REORG_DEPTH_EXCEEDED | CHAIN_REORG_NO_COMMON_ANCESTOR | CHAIN_SYNC_INCOMPLETE

section \<open>Rows\<close>

record chain_block =
  bk_number :: int
  bk_hash :: string
  bk_parentHash :: string
  bk_timestamp :: int

record chain_event =
  ev_chainId :: int
  ev_address :: string
  ev_blockNumber :: int
  ev_blockHash :: string
  ev_transactionHash :: string
  ev_transactionIndex :: int
  ev_logIndex :: int
  ev_data :: string
  ev_topics :: "string list"
  ev_removed :: bool
  ev_signature :: string
  ev_name :: string
  ev_normalizedData :: json

record block_row =
  br_chain :: int
  br_contract :: string
  br_number :: int
  br_hash :: string
  br_parent :: string
  br_timestamp :: string
  br_logs :: int
  br_canonical :: bool

record event_row =
  er_chain :: int
  er_tx :: string
  er_log :: int
  er_index :: int
  er_contract :: string
  er_number :: int
  er_hash :: string
  er_data :: string
  er_topics :: string
  er_signature :: string
  er_name :: string
  er_normalized :: string
  er_canonical :: bool

record checkpoint_row =
  cp_chain :: int
  cp_contract :: string
  cp_number :: int
  cp_hash :: string
  cp_projected :: "int option"
  cp_projectedHash :: "string option"
  cp_healthy :: bool
  cp_error :: "sync_error option"
  cp_target :: "int option"

record lease_row =
  ls_chain :: int
  ls_contract :: string
  ls_owner :: string
  ls_target :: int

record projection_row =
  pr_chain :: int
  pr_owner :: string
  pr_contract :: string
  pr_key :: string
  pr_number :: int
  pr_hash :: string
  pr_state :: string

record chain_db =
  chain_blocks :: "block_row list"
  chain_events :: "event_row list"
  chain_checkpoints :: "checkpoint_row list"
  chain_sync_leases :: "lease_row list"
  chain_transactions :: "chain_operation list"
  product_projections :: "projection_row list"

record chain_checkpoint =
  ck_number :: int
  ck_hash :: string

record product_projection =
  pj_chainId :: int
  pj_owner :: string
  pj_contract :: string
  pj_key :: string
  pj_blockNumber :: int
  pj_blockHash :: string
  pj_state :: json

definition empty_chain_db :: chain_db where
  "empty_chain_db = \<lparr>chain_blocks = [], chain_events = [], chain_checkpoints = [], chain_sync_leases = [],
     chain_transactions = [], product_projections = []\<rparr>"

text \<open>\<open>UPDATE .. WHERE\<close>, and \<open>INSERT .. ON CONFLICT DO UPDATE\<close>.\<close>

definition update_where :: "('a \<Rightarrow> bool) \<Rightarrow> ('a \<Rightarrow> 'a) \<Rightarrow> 'a list \<Rightarrow> 'a list" where
  "update_where P f xs = map (\<lambda>x. if P x then f x else x) xs"

definition changes :: "('a \<Rightarrow> bool) \<Rightarrow> 'a list \<Rightarrow> nat" where
  "changes P xs = length (filter P xs)"

definition upsert :: "('a \<Rightarrow> bool) \<Rightarrow> ('a \<Rightarrow> 'a) \<Rightarrow> 'a \<Rightarrow> 'a list \<Rightarrow> 'a list" where
  "upsert P f new xs = (if list_ex P xs then update_where P f xs else xs @ [new])"

section \<open>Checked values\<close>

fun chain_error_text :: "chain_error \<Rightarrow> string" where
  "chain_error_text INVALID_ADDRESS = ''INVALID_ADDRESS''"
| "chain_error_text INVALID_TRANSACTION_HASH = ''INVALID_TRANSACTION_HASH''"
| "chain_error_text INVALID_BLOCK_HASH = ''INVALID_BLOCK_HASH''"
| "chain_error_text INVALID_HEX_DATA = ''INVALID_HEX_DATA''"
| "chain_error_text INVALID_OPERATION_ID = ''INVALID_OPERATION_ID''"
| "chain_error_text INVALID_CHAIN_ID = ''INVALID_CHAIN_ID''"
| "chain_error_text INVALID_OPERATION_TRANSITION = ''INVALID_OPERATION_TRANSITION''"
| "chain_error_text INVALID_SUBMITTED_AT = ''INVALID_SUBMITTED_AT''"
| "chain_error_text INVALID_BLOCK_NUMBER = ''INVALID_BLOCK_NUMBER''"
| "chain_error_text INVALID_TRANSACTION_INDEX = ''INVALID_TRANSACTION_INDEX''"
| "chain_error_text INVALID_CONFIRMATION_COUNT = ''INVALID_CONFIRMATION_COUNT''"
| "chain_error_text RECONCILIATION_REQUIRED = ''RECONCILIATION_REQUIRED''"
| "chain_error_text INVALID_CONFIRMED_AT = ''INVALID_CONFIRMED_AT''"
| "chain_error_text REPLACEMENT_HASH_REQUIRED = ''REPLACEMENT_HASH_REQUIRED''"
| "chain_error_text REPLACEMENT_HASH_MUST_DIFFER = ''REPLACEMENT_HASH_MUST_DIFFER''"
| "chain_error_text INVALID_CHAIN_SYNC_POLICY = ''INVALID_CHAIN_SYNC_POLICY''"
| "chain_error_text INVALID_DEPLOYMENT_MANIFEST = ''INVALID_DEPLOYMENT_MANIFEST''"

definition lift_chain :: "chain_error + 'a \<Rightarrow> 'a store" where
  "lift_chain r = (case r of Inl e \<Rightarrow> Inl (chain_error_text e) | Inr x \<Rightarrow> Inr x)"

definition safeNumber :: "int \<Rightarrow> int store" where
  "safeNumber n = (if n < 0 \<or> n > MAX_SAFE_INTEGER then Inl ''CHAIN_BLOCK_NUMBER_UNSUPPORTED'' else Inr n)"

definition chainId :: "int \<Rightarrow> int store" where
  "chainId n = (if isSafeInteger n \<and> 0 < n then Inr n else Inl ''INVALID_CHAIN_ID'')"

definition normalizedAddress :: "string \<Rightarrow> string store" where
  "normalizedAddress a = bind_r (lift_chain (asAddress a)) (\<lambda>b. Inr (toLowerCase b))"

definition name_char :: "char \<Rightarrow> bool" where
  "name_char c \<longleftrightarrow> is_alnum c \<or> c \<in> set ''._-''"

definition namePattern :: "string \<Rightarrow> bool" where
  "namePattern s \<longleftrightarrow> (case s of [] \<Rightarrow> False
     | c # cs \<Rightarrow> is_alnum c \<and> \<not> is_digit c \<and> list_all name_char cs \<and> length cs \<le> 127)"

fun safe_json :: "json \<Rightarrow> bool" where
  "safe_json (JNum n) = isSafeInteger n"
| "safe_json (JArr vs) = list_all safe_json vs"
| "safe_json (JObj es) = list_all (\<lambda>e. safe_json (snd e)) es"
| "safe_json _ = True"

definition stable :: "json \<Rightarrow> string store" where
  "stable v = (if safe_json v then Inr (canonical (\<lambda>a b. \<not> text_less b a) v) else Inl ''INVALID_CHAIN_JSON'')"

definition utf8_length :: "string \<Rightarrow> int" where
  "utf8_length s = sum_list (map (\<lambda>c. if (of_char c :: nat) < 128 then 1 else 2) s)"

definition boundedJson :: "json \<Rightarrow> string store" where
  "boundedJson v = bind_r (stable v) (\<lambda>t.
     bind_r (check (utf8_length t \<le> 65536) ''CHAIN_JSON_TOO_LARGE'') (\<lambda>_. Inr t))"

section \<open>Evidence of an operation\<close>

definition validTime :: "(string \<Rightarrow> bool) \<Rightarrow> string option \<Rightarrow> bool" where
  "validTime date_parses t = (case t of None \<Rightarrow> False | Some s \<Rightarrow> date_parses s)"

definition noBlock :: "chain_operation \<Rightarrow> bool" where
  "noBlock p \<longleftrightarrow> op_blockNumber p = None \<and> op_blockHash p = None \<and> transactionIndex p = None \<and> receiptStatus p = None"

definition blockWith :: "chain_operation \<Rightarrow> receipt_status \<Rightarrow> bool" where
  "blockWith p s \<longleftrightarrow> op_blockNumber p \<noteq> None \<and> op_blockHash p \<noteq> None \<and> receiptStatus p = Some s"

definition evidence_ok :: "(string \<Rightarrow> bool) \<Rightarrow> chain_operation \<Rightarrow> bool" where
  "evidence_ok date_parses p =
    (let submitted = txHash p \<noteq> None \<and> validTime date_parses (submittedAt p);
         displaced = (noBlock p \<and> confirmations p = 0) \<or>
           (op_blockNumber p \<noteq> None \<and> op_blockHash p \<noteq> None \<and> receiptStatus p \<noteq> None);
         basePending = confirmedAt p = None \<and> \<not> op_canonical p \<and> \<not> reconciled p;
         included = op_canonical p \<and> \<not> reconciled p \<and> confirmedAt p = None
     in case op_state p of
       AWAITING_SIGNATURE \<Rightarrow> txHash p = None \<and> submittedAt p = None \<and> noBlock p \<and> confirmations p = 0 \<and>
         replacementTxHash p = None \<and> basePending \<and> errorCode p = None
     | SUBMITTED \<Rightarrow> submitted \<and> noBlock p \<and> confirmations p = 0 \<and> replacementTxHash p = None \<and> basePending \<and>
         errorCode p = None
     | MINED \<Rightarrow> submitted \<and> blockWith p Success \<and> confirmations p = 0 \<and> replacementTxHash p = None \<and> included \<and>
         errorCode p = None
     | CONFIRMING \<Rightarrow> submitted \<and> blockWith p Success \<and> replacementTxHash p = None \<and> op_canonical p \<and>
         confirmedAt p = None \<and> errorCode p = None
     | CONFIRMED \<Rightarrow> submitted \<and> blockWith p Success \<and> replacementTxHash p = None \<and> op_canonical p \<and>
         reconciled p \<and> validTime date_parses (confirmedAt p) \<and> errorCode p = None
     | REJECTED \<Rightarrow> txHash p = None \<and> submittedAt p = None \<and> noBlock p \<and> confirmations p = 0 \<and>
         replacementTxHash p = None \<and> basePending \<and> errorCode p = Some WALLET_REJECTED
     | REVERTED \<Rightarrow> submitted \<and> blockWith p Reverted \<and> replacementTxHash p = None \<and> included \<and>
         errorCode p = Some TRANSACTION_REVERTED
     | REPLACED \<Rightarrow> submitted \<and> displaced \<and> replacementTxHash p \<noteq> None \<and> basePending \<and>
         errorCode p = Some TRANSACTION_REPLACED
     | DROPPED \<Rightarrow> submitted \<and> displaced \<and> replacementTxHash p = None \<and> basePending \<and>
         errorCode p = Some TRANSACTION_DROPPED
     | REORGED \<Rightarrow> submitted \<and> op_blockNumber p \<noteq> None \<and> op_blockHash p \<noteq> None \<and> receiptStatus p \<noteq> None \<and>
         replacementTxHash p = None \<and> basePending \<and> errorCode p = Some CHAIN_REORG
     | RECONCILIATION_FAILED \<Rightarrow> submitted \<and> blockWith p Success \<and> replacementTxHash p = None \<and> included \<and>
         errorCode p \<in> {Some EVENT_EVIDENCE_MISMATCH, Some CONTRACT_STATE_MISMATCH})"

definition validateOperationEvidence :: "(string \<Rightarrow> bool) \<Rightarrow> chain_operation \<Rightarrow> unit store" where
  "validateOperationEvidence date_parses p =
     check (evidence_ok date_parses p \<and> valid_index (transactionIndex p)) ''INVALID_OPERATION_EVIDENCE''"

section \<open>Fingerprints\<close>

fun state_name :: "transaction_state \<Rightarrow> string" where
  "state_name AWAITING_SIGNATURE = ''AWAITING_SIGNATURE''"
| "state_name SUBMITTED = ''SUBMITTED''"
| "state_name MINED = ''MINED''"
| "state_name CONFIRMING = ''CONFIRMING''"
| "state_name CONFIRMED = ''CONFIRMED''"
| "state_name REJECTED = ''REJECTED''"
| "state_name REVERTED = ''REVERTED''"
| "state_name REPLACED = ''REPLACED''"
| "state_name DROPPED = ''DROPPED''"
| "state_name REORGED = ''REORGED''"
| "state_name RECONCILIATION_FAILED = ''RECONCILIATION_FAILED''"

fun error_name :: "operation_error \<Rightarrow> string" where
  "error_name WALLET_REJECTED = ''WALLET_REJECTED''"
| "error_name TRANSACTION_REVERTED = ''TRANSACTION_REVERTED''"
| "error_name TRANSACTION_REPLACED = ''TRANSACTION_REPLACED''"
| "error_name TRANSACTION_DROPPED = ''TRANSACTION_DROPPED''"
| "error_name CHAIN_REORG = ''CHAIN_REORG''"
| "error_name EVENT_EVIDENCE_MISMATCH = ''EVENT_EVIDENCE_MISMATCH''"
| "error_name CONTRACT_STATE_MISMATCH = ''CONTRACT_STATE_MISMATCH''"
| "error_name RPC_UNAVAILABLE = ''RPC_UNAVAILABLE''"

fun receipt_name :: "receipt_status \<Rightarrow> string" where
  "receipt_name Success = ''SUCCESS''"
| "receipt_name Reverted = ''REVERTED''"

definition or_null :: "('a \<Rightarrow> json) \<Rightarrow> 'a option \<Rightarrow> json" where
  "or_null f v = (case v of None \<Rightarrow> JNull | Some x \<Rightarrow> f x)"

definition lower_str :: "string \<Rightarrow> json" where
  "lower_str s = JStr (toLowerCase s)"

definition operationFingerprint :: "chain_operation \<Rightarrow> string store" where
  "operationFingerprint p = boundedJson (JObj [
     (''operationId'', JStr (operationId p)), (''chainId'', JNum (op_chainId p)),
     (''owner'', lower_str (op_owner p)), (''target'', lower_str (op_target p)),
     (''calldata'', or_null JStr (op_calldata p)), (''state'', JStr (state_name (op_state p))),
     (''txHash'', or_null lower_str (txHash p)), (''submittedAt'', or_null JStr (submittedAt p)),
     (''blockNumber'', or_null (\<lambda>n. JStr (toString n)) (op_blockNumber p)),
     (''blockHash'', or_null lower_str (op_blockHash p)),
     (''transactionIndex'', or_null JNum (transactionIndex p)),
     (''receiptStatus'', or_null (\<lambda>s. JStr (receipt_name s)) (receiptStatus p)),
     (''confirmations'', JNum (confirmations p)),
     (''replacementTxHash'', or_null lower_str (replacementTxHash p)),
     (''canonical'', JBool (op_canonical p)), (''reconciled'', JBool (reconciled p)),
     (''confirmedAt'', or_null JStr (confirmedAt p)),
     (''errorCode'', or_null (\<lambda>e. JStr (error_name e)) (errorCode p))])"

definition event_payload :: "string \<Rightarrow> chain_event \<Rightarrow> (string \<times> json) list" where
  "event_payload address e = [(''address'', JStr address), (''transactionHash'', lower_str (ev_transactionHash e)),
     (''logIndex'', JNum (ev_logIndex e)), (''data'', lower_str (ev_data e)),
     (''topics'', JArr (map lower_str (ev_topics e))), (''removed'', JBool (ev_removed e)),
     (''eventSignature'', lower_str (ev_signature e)), (''eventName'', JStr (ev_name e)),
     (''normalizedData'', ev_normalizedData e)]"

definition eventFingerprint :: "chain_event \<Rightarrow> string store" where
  "eventFingerprint e = bind_r (normalizedAddress (ev_address e)) (\<lambda>a.
     boundedJson (JObj (event_payload a e @ [(''blockNumber'', JStr (toString (ev_blockNumber e))),
       (''blockHash'', lower_str (ev_blockHash e)), (''transactionIndex'', JNum (ev_transactionIndex e))])))"

definition eventPayloadFingerprint :: "chain_event \<Rightarrow> string store" where
  "eventPayloadFingerprint e = bind_r (normalizedAddress (ev_address e)) (\<lambda>a. boundedJson (JObj (event_payload a e)))"

definition validateEvent :: "chain_event \<Rightarrow> int \<Rightarrow> string \<Rightarrow> chain_block \<Rightarrow> unit store" where
  "validateEvent e expected contract block =
     bind_r (check (ev_chainId e = expected \<and> sameAddress (ev_address e) contract \<and>
       ev_blockNumber e = bk_number block \<and> toLowerCase (ev_blockHash e) = toLowerCase (bk_hash block) \<and>
       \<not> ev_removed e \<and> isSafeInteger (ev_transactionIndex e) \<and> 0 \<le> ev_transactionIndex e \<and>
       isSafeInteger (ev_logIndex e) \<and> 0 \<le> ev_logIndex e \<and> namePattern (ev_name e) \<and> ev_topics e \<noteq> [] \<and>
       toLowerCase (hd (ev_topics e)) = toLowerCase (ev_signature e)) ''INVALID_CHAIN_EVENT'') (\<lambda>_.
     bind_r (eventFingerprint e) (\<lambda>_. Inr ()))"

section \<open>Leases and checkpoints\<close>

definition lease_at :: "int \<Rightarrow> string \<Rightarrow> lease_row \<Rightarrow> bool" where
  "lease_at i a r \<longleftrightarrow> ls_chain r = i \<and> ls_contract r = a"

definition checkpoint_at :: "int \<Rightarrow> string \<Rightarrow> checkpoint_row \<Rightarrow> bool" where
  "checkpoint_at i a r \<longleftrightarrow> cp_chain r = i \<and> cp_contract r = a"

definition find_lease :: "chain_db \<Rightarrow> int \<Rightarrow> string \<Rightarrow> lease_row option" where
  "find_lease db i a = find (lease_at i a) (chain_sync_leases db)"

definition find_checkpoint :: "chain_db \<Rightarrow> int \<Rightarrow> string \<Rightarrow> checkpoint_row option" where
  "find_checkpoint db i a = find (checkpoint_at i a) (chain_checkpoints db)"

definition assertSyncOwner :: "chain_db \<Rightarrow> int \<Rightarrow> string \<Rightarrow> string option \<Rightarrow> unit store" where
  "assertSyncOwner db i a owner =
     check (map_option ls_owner (find_lease db i a) = owner) ''CHAIN_SYNC_SUPERSEDED''"

definition raise_target :: "int \<Rightarrow> checkpoint_row \<Rightarrow> checkpoint_row" where
  "raise_target t c = c\<lparr>cp_healthy := False, cp_error := Some CHAIN_SYNC_INCOMPLETE,
     cp_target := (case cp_target c of None \<Rightarrow> Some t | Some u \<Rightarrow> if u < t then Some t else Some u)\<rparr>"

definition owner_token_ok :: "string \<Rightarrow> bool" where
  "owner_token_ok t \<longleftrightarrow> length t = 36 \<and> list_all (\<lambda>c. is_lower_hex c \<or> c = CHR ''-'') t"

definition claimSync :: "chain_db \<Rightarrow> int \<Rightarrow> string \<Rightarrow> int \<Rightarrow> string \<Rightarrow> chain_db store" where
  "claimSync db chain contract target_block owner =
     bind_r (check (owner_token_ok owner) ''INVALID_CHAIN_SYNC_OWNER'') (\<lambda>_.
     bind_r (chainId chain) (\<lambda>i.
     bind_r (normalizedAddress contract) (\<lambda>a.
     bind_r (safeNumber target_block) (\<lambda>t.
     let required = max (case find_lease db i a of None \<Rightarrow> -1 | Some l \<Rightarrow> ls_target l)
           (case find_checkpoint db i a of None \<Rightarrow> -1 | Some c \<Rightarrow> (case cp_target c of None \<Rightarrow> -1 | Some u \<Rightarrow> u));
         claimed = max t required
     in
     bind_r (check (\<not> t < required) ''CHAIN_SYNC_TARGET_BEHIND'') (\<lambda>_.
     Inr (db\<lparr>chain_sync_leases := upsert (lease_at i a)
              (\<lambda>l. l\<lparr>ls_owner := owner, ls_target := (if ls_target l > claimed then ls_target l else claimed)\<rparr>)
              \<lparr>ls_chain = i, ls_contract = a, ls_owner = owner, ls_target = claimed\<rparr> (chain_sync_leases db),
            chain_checkpoints := update_where (checkpoint_at i a) (raise_target claimed) (chain_checkpoints db)\<rparr>))))))"

definition checkpoint :: "chain_db \<Rightarrow> int \<Rightarrow> string \<Rightarrow> chain_checkpoint option store" where
  "checkpoint db chain contract =
     bind_r (chainId chain) (\<lambda>i. bind_r (normalizedAddress contract) (\<lambda>a.
     case find_checkpoint db i a of None \<Rightarrow> Inr None
     | Some c \<Rightarrow> bind_r (lift_chain (asBlockHash (cp_hash c))) (\<lambda>h. Inr (Some \<lparr>ck_number = cp_number c, ck_hash = h\<rparr>))))"

definition projectionCheckpoint :: "chain_db \<Rightarrow> int \<Rightarrow> string \<Rightarrow> chain_checkpoint option store" where
  "projectionCheckpoint db chain contract =
     bind_r (chainId chain) (\<lambda>i. bind_r (normalizedAddress contract) (\<lambda>a.
     case find_checkpoint db i a of None \<Rightarrow> Inr None
     | Some c \<Rightarrow>
         (case (cp_projected c, cp_projectedHash c) of
            (None, None) \<Rightarrow> Inr None
          | (Some n, Some h) \<Rightarrow> bind_r (lift_chain (asBlockHash h)) (\<lambda>b. Inr (Some \<lparr>ck_number = n, ck_hash = b\<rparr>))
          | _ \<Rightarrow> Inl ''CORRUPT_CHAIN_DATABASE'')))"

definition health_valid :: "checkpoint_row \<Rightarrow> bool" where
  "health_valid c \<longleftrightarrow>
     cp_healthy c \<and> cp_error c = None \<and> cp_target c = None \<or>
     \<not> cp_healthy c \<and> cp_error c \<in> {Some CHAIN_REORG_DEPTH_EXCEEDED, Some CHAIN_REORG_NO_COMMON_ANCESTOR} \<and> cp_target c = None \<or>
     \<not> cp_healthy c \<and> cp_error c = Some CHAIN_SYNC_INCOMPLETE \<and> cp_target c \<noteq> None"

text \<open>The pair is \<open>healthy\<close> and \<open>error\<close>.\<close>

definition syncHealth :: "chain_db \<Rightarrow> int \<Rightarrow> string \<Rightarrow> (bool \<times> sync_error option) store" where
  "syncHealth db chain contract =
     bind_r (chainId chain) (\<lambda>i. bind_r (normalizedAddress contract) (\<lambda>a.
     if find_lease db i a \<noteq> None then Inr (False, Some CHAIN_SYNC_INCOMPLETE)
     else (case find_checkpoint db i a of None \<Rightarrow> Inr (True, None)
       | Some c \<Rightarrow> if health_valid c then Inr (cp_healthy c, cp_error c) else Inl ''CORRUPT_CHAIN_DATABASE'')))"

definition release :: "int \<Rightarrow> string \<Rightarrow> string \<Rightarrow> lease_row list \<Rightarrow> lease_row list" where
  "release i a owner ls = filter (\<lambda>l. \<not> (lease_at i a l \<and> ls_owner l = owner)) ls"

definition markSyncUnhealthy ::
  "chain_db \<Rightarrow> int \<Rightarrow> string \<Rightarrow> sync_error \<Rightarrow> int option \<Rightarrow> string option \<Rightarrow> chain_db store" where
  "markSyncUnhealthy db chain contract error target_block owner =
     bind_r (check ((error = CHAIN_SYNC_INCOMPLETE) = (target_block \<noteq> None)) ''INVALID_CHAIN_SYNC_HEALTH'') (\<lambda>_.
     bind_r (chainId chain) (\<lambda>i.
     bind_r (normalizedAddress contract) (\<lambda>a.
     bind_r (case target_block of None \<Rightarrow> Inr 0 | Some t \<Rightarrow> safeNumber t) (\<lambda>t.
     bind_r (assertSyncOwner db i a owner) (\<lambda>_.
     let f = (if error = CHAIN_SYNC_INCOMPLETE then raise_target t
              else (\<lambda>c. c\<lparr>cp_healthy := False, cp_error := Some error, cp_target := None\<rparr>))
     in
     bind_r (check (changes (checkpoint_at i a) (chain_checkpoints db) = 1) ''CHAIN_CHECKPOINT_NOT_FOUND'') (\<lambda>_.
     Inr (db\<lparr>chain_checkpoints := update_where (checkpoint_at i a) f (chain_checkpoints db),
            chain_sync_leases := (case owner of
              Some t \<Rightarrow> if error \<noteq> CHAIN_SYNC_INCOMPLETE then release i a t (chain_sync_leases db) else chain_sync_leases db
            | None \<Rightarrow> chain_sync_leases db)\<rparr>)))))))"

definition completed_row :: "int \<Rightarrow> string \<Rightarrow> int \<Rightarrow> checkpoint_row \<Rightarrow> bool" where
  "completed_row i a completed c \<longleftrightarrow> checkpoint_at i a c \<and> cp_error c = Some CHAIN_SYNC_INCOMPLETE \<and> cp_number c \<ge> completed \<and>
     cp_projected c = Some (cp_number c) \<and> cp_projectedHash c = Some (cp_hash c) \<and>
     (case cp_target c of None \<Rightarrow> False | Some t \<Rightarrow> t \<le> completed)"

definition markSyncHealthy ::
  "chain_db \<Rightarrow> int \<Rightarrow> string \<Rightarrow> int \<Rightarrow> string option \<Rightarrow> (chain_db \<times> bool) store" where
  "markSyncHealthy db chain contract completed_target owner =
     bind_r (chainId chain) (\<lambda>i.
     bind_r (normalizedAddress contract) (\<lambda>a.
     bind_r (safeNumber completed_target) (\<lambda>n.
     bind_r (assertSyncOwner db i a owner) (\<lambda>_.
     let P = completed_row i a n;
         finished = (changes P (chain_checkpoints db) = 1);
         db1 = db\<lparr>chain_checkpoints := update_where P
           (\<lambda>c. c\<lparr>cp_healthy := True, cp_error := None, cp_target := None\<rparr>) (chain_checkpoints db)\<rparr>
     in case owner of
          Some t \<Rightarrow>
            if finished then
              bind_r (check (changes (\<lambda>l. lease_at i a l \<and> ls_owner l = t) (chain_sync_leases db) = 1)
                ''CHAIN_SYNC_SUPERSEDED'') (\<lambda>_.
              Inr (db1\<lparr>chain_sync_leases := release i a t (chain_sync_leases db)\<rparr>, finished))
            else Inr (db1, finished)
        | None \<Rightarrow> Inr (db1, finished)))))"

definition releaseSyncIncomplete :: "chain_db \<Rightarrow> int \<Rightarrow> string \<Rightarrow> int \<Rightarrow> string \<Rightarrow> chain_db store" where
  "releaseSyncIncomplete db chain contract target_block owner =
     bind_r (chainId chain) (\<lambda>i.
     bind_r (normalizedAddress contract) (\<lambda>a.
     bind_r (safeNumber target_block) (\<lambda>t.
     bind_r (assertSyncOwner db i a (Some owner)) (\<lambda>_.
     bind_r (check (changes (checkpoint_at i a) (chain_checkpoints db) = 1) ''CHAIN_CHECKPOINT_NOT_FOUND'') (\<lambda>_.
     bind_r (check (changes (\<lambda>l. lease_at i a l \<and> ls_owner l = owner) (chain_sync_leases db) = 1)
       ''CHAIN_SYNC_SUPERSEDED'') (\<lambda>_.
     Inr (db\<lparr>chain_checkpoints := update_where (checkpoint_at i a) (raise_target t) (chain_checkpoints db),
            chain_sync_leases := release i a owner (chain_sync_leases db)\<rparr>)))))))"

definition syncTarget :: "chain_db \<Rightarrow> int \<Rightarrow> string \<Rightarrow> int option store" where
  "syncTarget db chain contract =
     bind_r (chainId chain) (\<lambda>i. bind_r (normalizedAddress contract) (\<lambda>a.
     Inr (case find_lease db i a of Some l \<Rightarrow> Some (ls_target l)
       | None \<Rightarrow> (case find_checkpoint db i a of Some c \<Rightarrow> cp_target c | None \<Rightarrow> None))))"

section \<open>Blocks and events\<close>

definition canonical_at :: "int \<Rightarrow> string \<Rightarrow> block_row \<Rightarrow> bool" where
  "canonical_at i a b \<longleftrightarrow> br_chain b = i \<and> br_contract b = a \<and> br_canonical b"

definition find_canonical :: "chain_db \<Rightarrow> int \<Rightarrow> string \<Rightarrow> int \<Rightarrow> block_row option" where
  "find_canonical db i a n = find (\<lambda>b. canonical_at i a b \<and> br_number b = n) (chain_blocks db)"

definition canonicalBlock :: "chain_db \<Rightarrow> int \<Rightarrow> string \<Rightarrow> int \<Rightarrow> chain_block option store" where
  "canonicalBlock db chain contract number =
     bind_r (chainId chain) (\<lambda>i. bind_r (normalizedAddress contract) (\<lambda>a. bind_r (safeNumber number) (\<lambda>n.
     case find_canonical db i a n of None \<Rightarrow> Inr None
     | Some b \<Rightarrow>
         bind_r (lift_chain (asBlockHash (br_hash b))) (\<lambda>h.
         bind_r (lift_chain (asBlockHash (br_parent b))) (\<lambda>p.
         Inr (Some \<lparr>bk_number = br_number b, bk_hash = h, bk_parentHash = p,
           bk_timestamp = digits_val (br_timestamp b)\<rparr>))))))"

definition decodeEvent :: "event_row \<Rightarrow> chain_event store" where
  "decodeEvent r =
     (case (parse_json (er_topics r), parse_json (er_normalized r)) of
        (Some (JArr ts), Some (JObj d)) \<Rightarrow>
          (case (asAddress (er_contract r), asBlockHash (er_hash r), asTransactionHash (er_tx r), asHexData (er_data r),
             map_r (\<lambda>t. case t of JStr x \<Rightarrow> asHexData x | _ \<Rightarrow> Inl INVALID_HEX_DATA) ts, asHexData (er_signature r)) of
             (Inr a, Inr h, Inr t, Inr x, Inr ys, Inr sg) \<Rightarrow>
               Inr \<lparr>ev_chainId = er_chain r, ev_address = a, ev_blockNumber = er_number r, ev_blockHash = h,
                 ev_transactionHash = t, ev_transactionIndex = er_index r, ev_logIndex = er_log r, ev_data = x,
                 ev_topics = ys, ev_removed = False, ev_signature = sg, ev_name = er_name r,
                 ev_normalizedData = JObj d\<rparr>
           | _ \<Rightarrow> Inl ''CORRUPT_CHAIN_DATABASE'')
      | _ \<Rightarrow> Inl ''CORRUPT_CHAIN_DATABASE'')"

definition event_order :: "chain_event list \<Rightarrow> chain_event list" where
  "event_order es = sort_key ev_transactionIndex (sort_key ev_logIndex es)"

definition event_row_order :: "event_row list \<Rightarrow> event_row list" where
  "event_row_order rs = sort_key er_index (sort_key er_log rs)"

definition event_identity :: "chain_event \<Rightarrow> string" where
  "event_identity e = toLowerCase (ev_transactionHash e) @ '':'' @ toString (ev_logIndex e)"

definition same_event :: "event_row \<Rightarrow> chain_event \<Rightarrow> unit store" where
  "same_event r supplied =
     bind_r (decodeEvent r) (\<lambda>d.
     bind_r (check (toLowerCase (ev_transactionHash d) = toLowerCase (ev_transactionHash supplied) \<and>
       ev_logIndex d = ev_logIndex supplied) ''CHAIN_BLOCK_CONFLICT'') (\<lambda>_.
     bind_r (eventFingerprint d) (\<lambda>x. bind_r (eventFingerprint supplied) (\<lambda>y.
     check (x = y) ''CHAIN_EVENT_CONFLICT''))))"

definition event_row_at :: "int \<Rightarrow> string \<Rightarrow> int \<Rightarrow> event_row \<Rightarrow> bool" where
  "event_row_at i tx n r \<longleftrightarrow> er_chain r = i \<and> er_tx r = tx \<and> er_log r = n"

definition write_event :: "int \<Rightarrow> string \<Rightarrow> int \<Rightarrow> chain_event \<Rightarrow> event_row store" where
  "write_event i a number e =
     bind_r (boundedJson (JArr (map lower_str (ev_topics e)))) (\<lambda>ts.
     bind_r (boundedJson (ev_normalizedData e)) (\<lambda>d.
     Inr \<lparr>er_chain = i, er_tx = toLowerCase (ev_transactionHash e), er_log = ev_logIndex e,
       er_index = ev_transactionIndex e, er_contract = a, er_number = number,
       er_hash = toLowerCase (ev_blockHash e), er_data = toLowerCase (ev_data e), er_topics = ts,
       er_signature = toLowerCase (ev_signature e), er_name = ev_name e, er_normalized = d, er_canonical = True\<rparr>))"

definition record_event ::
  "int \<Rightarrow> string \<Rightarrow> int \<Rightarrow> chain_event \<Rightarrow> event_row list \<times> nat \<Rightarrow> (event_row list \<times> nat) store" where
  "record_event i a number e st =
     (let P = event_row_at i (toLowerCase (ev_transactionHash e)) (ev_logIndex e) in
      case find P (fst st) of
        Some old \<Rightarrow>
          bind_r (decodeEvent old) (\<lambda>d.
          bind_r (if er_canonical old then eventFingerprint d else eventPayloadFingerprint d) (\<lambda>x.
          bind_r (if er_canonical old then eventFingerprint e else eventPayloadFingerprint e) (\<lambda>y.
          bind_r (check (x = y) ''CHAIN_EVENT_CONFLICT'') (\<lambda>_.
          if er_canonical old then Inr st
          else bind_r (write_event i a number e) (\<lambda>r. Inr (update_where P (\<lambda>_. r) (fst st), snd st + 1))))))
      | None \<Rightarrow> bind_r (write_event i a number e) (\<lambda>r. Inr (fst st @ [r], snd st + 1)))"

definition matching_events :: "event_row list \<Rightarrow> chain_event list \<Rightarrow> unit store" where
  "matching_events rows srt =
     bind_r (check (length rows = length srt) ''CHAIN_BLOCK_CONFLICT'') (\<lambda>_.
     for_each (\<lambda>p. same_event (fst p) (snd p)) (zip rows srt))"

definition same_block :: "int \<Rightarrow> string \<Rightarrow> int \<Rightarrow> string \<Rightarrow> block_row \<Rightarrow> bool" where
  "same_block i a n h b \<longleftrightarrow> br_chain b = i \<and> br_contract b = a \<and> br_number b = n \<and> br_hash b = h"

text \<open>The block table after \<open>recordCanonicalBlock\<close>, which a replay of the checkpoint's block leaves alone.\<close>

definition record_block ::
  "chain_db \<Rightarrow> int \<Rightarrow> string \<Rightarrow> chain_checkpoint option \<Rightarrow> chain_block \<Rightarrow> chain_event list \<Rightarrow> block_row list store" where
  "record_block db i a current block srt =
     (case find_canonical db i a (bk_number block) of
        Some b \<Rightarrow>
          bind_r (check (case current of None \<Rightarrow> True | Some c \<Rightarrow> \<not> bk_number block < ck_number c)
            ''CHAIN_BLOCK_OUT_OF_ORDER'') (\<lambda>_.
          bind_r (check (toLowerCase (br_hash b) = toLowerCase (bk_hash block) \<and> br_logs b = int (length srt))
            ''CHAIN_BLOCK_CONFLICT'') (\<lambda>_.
          bind_r (matching_events (event_row_order (filter (\<lambda>r. er_chain r = i \<and> er_contract r = a \<and>
            er_number r = bk_number block \<and> er_canonical r) (chain_events db))) srt) (\<lambda>_.
          Inr (chain_blocks db))))
      | None \<Rightarrow>
          bind_r (check (case current of None \<Rightarrow> True
              | Some c \<Rightarrow> bk_number block = ck_number c + 1 \<and> toLowerCase (bk_parentHash block) = toLowerCase (ck_hash c))
            ''CHAIN_PARENT_MISMATCH'') (\<lambda>_.
          let new = \<lparr>br_chain = i, br_contract = a, br_number = bk_number block, br_hash = toLowerCase (bk_hash block),
                br_parent = toLowerCase (bk_parentHash block), br_timestamp = toString (bk_timestamp block),
                br_logs = int (length srt), br_canonical = True\<rparr>
          in Inr (upsert (same_block i a (br_number new) (br_hash new))
             (\<lambda>b. b\<lparr>br_parent := br_parent new, br_timestamp := br_timestamp new, br_logs := br_logs new,
               br_canonical := True\<rparr>) new (chain_blocks db))))"

definition fresh_checkpoint :: "int \<Rightarrow> string \<Rightarrow> int \<Rightarrow> string \<Rightarrow> checkpoint_row" where
  "fresh_checkpoint i a n h = \<lparr>cp_chain = i, cp_contract = a, cp_number = n, cp_hash = h, cp_projected = None,
     cp_projectedHash = None, cp_healthy = True, cp_error = None, cp_target = None\<rparr>"

definition advance_checkpoint ::
  "int \<Rightarrow> string \<Rightarrow> chain_block \<Rightarrow> chain_checkpoint option \<Rightarrow> checkpoint_row list \<Rightarrow> checkpoint_row list" where
  "advance_checkpoint i a block current cps =
     (if (case current of None \<Rightarrow> True | Some c \<Rightarrow> bk_number block > ck_number c)
      then upsert (checkpoint_at i a) (\<lambda>c. c\<lparr>cp_number := bk_number block, cp_hash := toLowerCase (bk_hash block)\<rparr>)
             (fresh_checkpoint i a (bk_number block) (toLowerCase (bk_hash block))) cps
      else cps)"

definition require_target :: "int \<Rightarrow> string \<Rightarrow> int option \<Rightarrow> checkpoint_row list \<Rightarrow> checkpoint_row list store" where
  "require_target i a target cps = (case target of None \<Rightarrow> Inr cps
     | Some t \<Rightarrow>
         bind_r (safeNumber t) (\<lambda>m.
         bind_r (check (changes (checkpoint_at i a) cps = 1) ''CHAIN_CHECKPOINT_NOT_FOUND'') (\<lambda>_.
         Inr (update_where (checkpoint_at i a) (raise_target m) cps))))"

definition recordCanonicalBlock ::
  "chain_db \<Rightarrow> int \<Rightarrow> string \<Rightarrow> chain_block \<Rightarrow> chain_event list \<Rightarrow> int option \<Rightarrow> string option \<Rightarrow>
   (chain_db \<times> nat) store" where
  "recordCanonicalBlock db chain contract block events target owner =
     bind_r (chainId chain) (\<lambda>i.
     bind_r (normalizedAddress contract) (\<lambda>a.
     bind_r (safeNumber (bk_number block)) (\<lambda>n.
     bind_r (check (0 \<le> bk_timestamp block \<and> int (length events) \<le> 10000) ''INVALID_CHAIN_BLOCK'') (\<lambda>_.
     bind_r (check (case target of None \<Rightarrow> True | Some t \<Rightarrow> \<not> t < bk_number block) ''INVALID_CHAIN_SYNC_TARGET'') (\<lambda>_.
     bind_r (for_each (\<lambda>e. validateEvent e i contract block) events) (\<lambda>_.
     let srt = event_order events in
     bind_r (check (distinct (map event_identity srt)) ''CHAIN_EVENT_CONFLICT'') (\<lambda>_.
     bind_r (assertSyncOwner db i a owner) (\<lambda>_.
     bind_r (checkpoint db i contract) (\<lambda>current.
     bind_r (record_block db i a current block srt) (\<lambda>bs.
     bind_r (fold_r (record_event i a n) srt (chain_events db, 0)) (\<lambda>(es, inserted).
     bind_r (require_target i a target (advance_checkpoint i a block current (chain_checkpoints db))) (\<lambda>cps'.
     Inr (db\<lparr>chain_blocks := bs, chain_events := es, chain_checkpoints := cps'\<rparr>, inserted)))))))))))))"

definition canonicalEvents :: "chain_db \<Rightarrow> int \<Rightarrow> string \<Rightarrow> chain_event list store" where
  "canonicalEvents db chain contract =
     bind_r (chainId chain) (\<lambda>i. bind_r (normalizedAddress contract) (\<lambda>a.
     map_r decodeEvent (sort_key er_number (event_row_order
       (filter (\<lambda>r. er_chain r = i \<and> er_contract r = a \<and> er_canonical r) (chain_events db))))))"

section \<open>Operations\<close>

definition hex_opt :: "(string \<Rightarrow> chain_error + string) \<Rightarrow> string option \<Rightarrow> chain_error + string option" where
  "hex_opt f v = (case v of None \<Rightarrow> Inr None | Some s \<Rightarrow> bind_r (f s) (\<lambda>x. Inr (Some x)))"

definition decode_operation :: "chain_operation \<Rightarrow> chain_operation store" where
  "decode_operation r =
     (case (asAddress (op_owner r), asAddress (op_target r), hex_opt asHexData (op_calldata r),
        hex_opt asTransactionHash (txHash r), hex_opt asBlockHash (op_blockHash r),
        hex_opt asTransactionHash (replacementTxHash r)) of
        (Inr ow, Inr tg, Inr cd, Inr tx, Inr bh, Inr rp) \<Rightarrow>
          Inr (r\<lparr>op_owner := ow, op_target := tg, op_calldata := cd, txHash := tx, op_blockHash := bh,
                 replacementTxHash := rp\<rparr>)
      | _ \<Rightarrow> Inl ''CORRUPT_CHAIN_DATABASE'')"

definition find_operation :: "chain_db \<Rightarrow> string \<Rightarrow> chain_operation option" where
  "find_operation db oid = find (\<lambda>r. operationId r = oid) (chain_transactions db)"

definition operation :: "chain_db \<Rightarrow> string \<Rightarrow> chain_operation option store" where
  "operation db oid = (case find_operation db oid of None \<Rightarrow> Inr None
     | Some r \<Rightarrow> bind_r (decode_operation r) (\<lambda>p. Inr (Some p)))"

definition operationByTransaction :: "chain_db \<Rightarrow> int \<Rightarrow> string \<Rightarrow> chain_operation option store" where
  "operationByTransaction db chain tx =
     bind_r (chainId chain) (\<lambda>i.
     case find (\<lambda>r. op_chainId r = i \<and> txHash r = Some (toLowerCase tx) \<and> reconciled r) (chain_transactions db) of
       None \<Rightarrow> Inr None | Some r \<Rightarrow> operation db (operationId r))"

definition by_operation_id :: "chain_operation list \<Rightarrow> chain_operation list" where
  "by_operation_id rs = map snd (sort_entries (\<lambda>a b. \<not> text_less b a) (map (\<lambda>r. (operationId r, r)) rs))"

definition operationBySubmission ::
  "chain_db \<Rightarrow> int \<Rightarrow> string \<Rightarrow> string \<Rightarrow> string \<Rightarrow> string \<Rightarrow> chain_operation option store" where
  "operationBySubmission db chain tx owner target calldata =
     bind_r (chainId chain) (\<lambda>i.
     bind_r (normalizedAddress owner) (\<lambda>ow.
     bind_r (normalizedAddress target) (\<lambda>tg.
     case by_operation_id (filter (\<lambda>r. op_chainId r = i \<and> txHash r = Some (toLowerCase tx) \<and> op_owner r = ow \<and>
         op_target r = tg \<and> op_calldata r = Some (toLowerCase calldata)) (chain_transactions db)) of
       [] \<Rightarrow> Inr None | r # _ \<Rightarrow> operation db (operationId r))))"

definition trackable :: "transaction_state \<Rightarrow> bool" where
  "trackable st \<longleftrightarrow> st \<in> {SUBMITTED, MINED, CONFIRMING, REORGED, RECONCILIATION_FAILED}"

definition trackableOperationIds ::
  "chain_db \<Rightarrow> int \<Rightarrow> string \<Rightarrow> int \<Rightarrow> string option \<Rightarrow> string list store" where
  "trackableOperationIds db chain contract limit after =
     bind_r (check (isSafeInteger limit \<and> 1 \<le> limit \<and> limit \<le> 1000) ''INVALID_OPERATION_QUERY_LIMIT'') (\<lambda>_.
     bind_r (check (case after of None \<Rightarrow> True | Some c \<Rightarrow> validOperationId c) ''INVALID_OPERATION_ID'') (\<lambda>_.
     bind_r (chainId chain) (\<lambda>i.
     bind_r (normalizedAddress contract) (\<lambda>a.
     let rows = map operationId (by_operation_id (filter (\<lambda>r. op_chainId r = i \<and> op_target r = a \<and>
           trackable (op_state r)) (chain_transactions db)))
     in Inr (case after of None \<Rightarrow> take (nat limit) rows
        | Some c \<Rightarrow>
            let above = take (nat limit) (filter (\<lambda>o'. text_less c o') rows)
            in above @ take (nat limit - length above) (filter (\<lambda>o'. \<not> text_less c o') rows))))))"

text \<open>The columns \<open>saveOperation\<close> writes; on a conflict of \<open>operation_id\<close> the identity columns stay.\<close>

definition operation_row :: "chain_operation \<Rightarrow> chain_operation store" where
  "operation_row p =
     bind_r (chainId (op_chainId p)) (\<lambda>i.
     bind_r (normalizedAddress (op_owner p)) (\<lambda>ow.
     bind_r (normalizedAddress (op_target p)) (\<lambda>tg.
     bind_r (case op_blockNumber p of None \<Rightarrow> Inr None | Some n \<Rightarrow> bind_r (safeNumber n) (\<lambda>m. Inr (Some m))) (\<lambda>bn.
     Inr (p\<lparr>op_chainId := i, txHash := map_option toLowerCase (txHash p), op_owner := ow, op_target := tg,
            op_calldata := map_option toLowerCase (op_calldata p), op_blockNumber := bn,
            op_blockHash := map_option toLowerCase (op_blockHash p),
            replacementTxHash := map_option toLowerCase (replacementTxHash p)\<rparr>)))))"

definition claims_transaction :: "chain_operation \<Rightarrow> chain_operation \<Rightarrow> bool" where
  "claims_transaction p r \<longleftrightarrow> operationId r \<noteq> operationId p \<and> op_chainId r = op_chainId p \<and> txHash r = txHash p \<and>
     txHash p \<noteq> None \<and> reconciled r \<and> reconciled p"

definition write_operation :: "chain_db \<Rightarrow> chain_operation \<Rightarrow> chain_db store" where
  "write_operation db r =
     bind_r (check (0 \<le> confirmations r \<and> (case transactionIndex r of None \<Rightarrow> True | Some n \<Rightarrow> 0 \<le> n) \<and>
       \<not> list_ex (claims_transaction r) (chain_transactions db)) ''ERR_SQLITE_ERROR'') (\<lambda>_.
     Inr (db\<lparr>chain_transactions := upsert (\<lambda>o'. operationId o' = operationId r)
       (\<lambda>o'. r\<lparr>op_chainId := op_chainId o', op_owner := op_owner o', op_target := op_target o',
               op_calldata := op_calldata o'\<rparr>) r (chain_transactions db)\<rparr>))"

definition identity_kept :: "chain_operation \<Rightarrow> chain_operation \<Rightarrow> bool" where
  "identity_kept p q \<longleftrightarrow> op_chainId p = op_chainId q \<and> sameAddress (op_owner p) (op_owner q) \<and>
     sameAddress (op_target p) (op_target q) \<and>
     map_option toLowerCase (op_calldata p) = map_option toLowerCase (op_calldata q)"

definition truthy :: "string option \<Rightarrow> bool" where
  "truthy s \<longleftrightarrow> s \<noteq> None \<and> s \<noteq> Some []"

definition saveOperation :: "(string \<Rightarrow> bool) \<Rightarrow> chain_db \<Rightarrow> chain_operation \<Rightarrow> chain_db store" where
  "saveOperation date_parses db p =
     bind_r (validateOperationEvidence date_parses p) (\<lambda>_.
     bind_r (check (validOperationId (operationId p)) ''INVALID_OPERATION_ID'') (\<lambda>_.
     bind_r (operation db (operationId p)) (\<lambda>previous.
     bind_r (check (case previous of None \<Rightarrow> True
         | Some o' \<Rightarrow> identity_kept o' p \<and> (truthy (txHash o') \<and> truthy (txHash p) \<longrightarrow>
             map_option toLowerCase (txHash o') = map_option toLowerCase (txHash p)))
       ''OPERATION_IDENTITY_CONFLICT'') (\<lambda>_.
     case bind_r (operation_row p) (write_operation db) of
       Inr db' \<Rightarrow> Inr db'
     | Inl e \<Rightarrow>
         bind_r (if truthy (txHash p) then operationByTransaction db (op_chainId p) (the (txHash p)) else Inr None) (\<lambda>t.
         case t of None \<Rightarrow> Inl e
         | Some o' \<Rightarrow> if operationId o' \<noteq> operationId p then Inl ''OPERATION_IDENTITY_CONFLICT'' else Inl e)))))"

definition settled_checkpoint :: "checkpoint_row \<Rightarrow> bool" where
  "settled_checkpoint c \<longleftrightarrow> cp_projected c = Some (cp_number c) \<and>
     map_option toLowerCase (cp_projectedHash c) = Some (toLowerCase (cp_hash c))"

definition saveOperationAtCheckpoint ::
  "(string \<Rightarrow> bool) \<Rightarrow> chain_db \<Rightarrow> chain_operation \<Rightarrow> chain_operation \<Rightarrow> chain_checkpoint \<Rightarrow> chain_db store" where
  "saveOperationAtCheckpoint date_parses db p expected expected_checkpoint =
     bind_r (validateOperationEvidence date_parses p) (\<lambda>_.
     bind_r (check (operationId p = operationId expected \<and> identity_kept p expected \<and>
         map_option toLowerCase (txHash p) = map_option toLowerCase (txHash expected))
       ''OPERATION_IDENTITY_CONFLICT'') (\<lambda>_.
     bind_r (chainId (op_chainId p)) (\<lambda>i.
     bind_r (normalizedAddress (op_target p)) (\<lambda>a.
     bind_r (assertSyncOwner db i a None) (\<lambda>_.
     case find_checkpoint db i a of None \<Rightarrow> Inl ''CHAIN_SYNC_SUPERSEDED''
     | Some c \<Rightarrow>
         bind_r (safeNumber (ck_number expected_checkpoint)) (\<lambda>n.
         bind_r (check (cp_number c = n \<and> toLowerCase (cp_hash c) = toLowerCase (ck_hash expected_checkpoint) \<and>
             settled_checkpoint c \<and> cp_healthy c \<and> cp_error c = None \<and> cp_target c = None)
           ''CHAIN_SYNC_SUPERSEDED'') (\<lambda>_.
         bind_r (operation db (operationId expected)) (\<lambda>current.
         case current of None \<Rightarrow> Inl ''CHAIN_SYNC_SUPERSEDED''
         | Some o' \<Rightarrow>
             bind_r (operationFingerprint o') (\<lambda>x.
             bind_r (operationFingerprint expected) (\<lambda>y.
             bind_r (check (x = y) ''CHAIN_SYNC_SUPERSEDED'') (\<lambda>_.
             saveOperation date_parses db p)))))))))))"

section \<open>Projections\<close>

definition at_checkpoint :: "chain_db \<Rightarrow> int \<Rightarrow> string \<Rightarrow> chain_block \<Rightarrow> unit store" where
  "at_checkpoint db i contract block =
     bind_r (canonicalBlock db i contract (bk_number block)) (\<lambda>b.
     bind_r (checkpoint db i contract) (\<lambda>c.
     check (case (b, c) of
         (Some b', Some c') \<Rightarrow> toLowerCase (bk_hash b') = toLowerCase (bk_hash block) \<and>
           ck_number c' = bk_number block \<and> toLowerCase (ck_hash c') = toLowerCase (bk_hash block)
       | _ \<Rightarrow> False) ''PROJECTION_BLOCK_NOT_CANONICAL''))"

definition projection_anchored :: "chain_db \<Rightarrow> int \<Rightarrow> string \<Rightarrow> product_projection \<Rightarrow> unit store" where
  "projection_anchored db i contract p =
     bind_r (canonicalBlock db i contract (pj_blockNumber p)) (\<lambda>b.
     check (case b of None \<Rightarrow> False | Some b' \<Rightarrow> toLowerCase (bk_hash b') = toLowerCase (pj_blockHash p))
       ''PROJECTION_BLOCK_NOT_CANONICAL'')"

definition admit_projection ::
  "chain_db \<Rightarrow> int \<Rightarrow> string \<Rightarrow> chain_block \<Rightarrow> product_projection \<Rightarrow> string list \<Rightarrow> string list store" where
  "admit_projection db i contract block p keys =
     bind_r (check (pj_chainId p = i \<and> sameAddress (pj_contract p) contract \<and> \<not> pj_blockNumber p > bk_number block \<and>
       namePattern (pj_key p)) ''INVALID_PROJECTION'') (\<lambda>_.
     bind_r (projection_anchored db i contract p) (\<lambda>_.
     bind_r (normalizedAddress (pj_owner p)) (\<lambda>ow.
     let key = ow @ '':'' @ pj_key p in
     bind_r (check (key \<notin> set keys) ''DUPLICATE_PROJECTION'') (\<lambda>_.
     bind_r (boundedJson (pj_state p)) (\<lambda>_. Inr (key # keys))))))"

definition projection_row_of :: "int \<Rightarrow> string \<Rightarrow> product_projection \<Rightarrow> projection_row store" where
  "projection_row_of i a p =
     bind_r (normalizedAddress (pj_owner p)) (\<lambda>ow.
     bind_r (safeNumber (pj_blockNumber p)) (\<lambda>n.
     bind_r (boundedJson (pj_state p)) (\<lambda>st.
     Inr \<lparr>pr_chain = i, pr_owner = ow, pr_contract = a, pr_key = pj_key p, pr_number = n,
       pr_hash = toLowerCase (pj_blockHash p), pr_state = st\<rparr>)))"

definition projection_of :: "int \<Rightarrow> string \<Rightarrow> projection_row \<Rightarrow> bool" where
  "projection_of i a r \<longleftrightarrow> pr_chain r = i \<and> pr_contract r = a"

definition commitProjections ::
  "chain_db \<Rightarrow> int \<Rightarrow> string \<Rightarrow> chain_block \<Rightarrow> product_projection list \<Rightarrow> string option \<Rightarrow> chain_db store" where
  "commitProjections db chain contract block projections owner =
     bind_r (chainId chain) (\<lambda>i.
     bind_r (normalizedAddress contract) (\<lambda>a.
     bind_r (safeNumber (bk_number block)) (\<lambda>n.
     bind_r (at_checkpoint db i contract block) (\<lambda>_.
     bind_r (fold_r (admit_projection db i contract block) projections []) (\<lambda>_.
     bind_r (assertSyncOwner db i a owner) (\<lambda>_.
     bind_r (at_checkpoint db i contract block) (\<lambda>_.
     bind_r (for_each (projection_anchored db i contract) projections) (\<lambda>_.
     bind_r (map_r (projection_row_of i a) projections) (\<lambda>rows.
     let h = toLowerCase (bk_hash block);
         P = (\<lambda>c. checkpoint_at i a c \<and> cp_number c = n \<and> cp_hash c = h)
     in
     bind_r (check (changes P (chain_checkpoints db) = 1) ''CHAIN_CHECKPOINT_CHANGED'') (\<lambda>_.
     Inr (db\<lparr>product_projections := filter (\<lambda>r. \<not> projection_of i a r) (product_projections db) @ rows,
            chain_checkpoints := update_where P (\<lambda>c. c\<lparr>cp_projected := Some n, cp_projectedHash := Some h\<rparr>)
              (chain_checkpoints db)\<rparr>)))))))))))"

definition find_projection :: "chain_db \<Rightarrow> int \<Rightarrow> string \<Rightarrow> string \<Rightarrow> string \<Rightarrow> projection_row option" where
  "find_projection db i ow a key =
     find (\<lambda>r. projection_of i a r \<and> pr_owner r = ow \<and> pr_key r = key) (product_projections db)"

definition read_projection :: "int \<Rightarrow> string \<Rightarrow> string \<Rightarrow> string \<Rightarrow> projection_row \<Rightarrow> product_projection store" where
  "read_projection chain owner contract key r =
     (case (parse_json (pr_state r), asBlockHash (pr_hash r)) of
        (Some (JObj es), Inr h) \<Rightarrow>
          Inr \<lparr>pj_chainId = chain, pj_owner = owner, pj_contract = contract, pj_key = key,
            pj_blockNumber = pr_number r, pj_blockHash = h, pj_state = JObj es\<rparr>
      | _ \<Rightarrow> Inl ''CORRUPT_CHAIN_DATABASE'')"

definition projection ::
  "chain_db \<Rightarrow> int \<Rightarrow> string \<Rightarrow> string \<Rightarrow> string \<Rightarrow> product_projection option store" where
  "projection db chain owner contract key =
     bind_r (chainId chain) (\<lambda>i.
     bind_r (normalizedAddress contract) (\<lambda>a.
     bind_r (normalizedAddress owner) (\<lambda>ow.
     bind_r (check (find_lease db i a = None) ''CHAIN_SYNC_UNHEALTHY'') (\<lambda>_.
     let row = find_projection db i ow a key in
     case find_checkpoint db i a of
       None \<Rightarrow> if row = None then Inr None else Inl ''CORRUPT_CHAIN_DATABASE''
     | Some c \<Rightarrow>
         bind_r (check (health_valid c) ''CORRUPT_CHAIN_DATABASE'') (\<lambda>_.
         bind_r (check (cp_healthy c) ''CHAIN_SYNC_UNHEALTHY'') (\<lambda>_.
         bind_r (check (settled_checkpoint c) ''CHAIN_PROJECTION_PENDING'') (\<lambda>_.
         case row of None \<Rightarrow> Inr None
         | Some r \<Rightarrow> bind_r (read_projection chain owner contract key r) (\<lambda>p. Inr (Some p)))))))))"

section \<open>Evidence for the product\<close>

datatype reconciliation_status = Recon_FAILED | Recon_MATCHED | Recon_PENDING
datatype indexer_status = Indexer_SYNCING | Indexer_HEALTHY | Indexer_DEGRADED
datatype projection_milestone = Milestone_PENDING | Milestone_STALE | Milestone_READY
datatype chain_status = Chain_PENDING | Chain_INCLUDED | Chain_SOFT_READY | Chain_REORGED | Chain_FAILED

text \<open>\<open>l1Status\<close> and \<open>finalityStatus\<close> are always \<open>UNKNOWN\<close>; \<open>receipt\<close> is \<open>None\<close> for \<open>PENDING\<close>.\<close>

record product_evidence =
  pe_lifecycle :: transaction_state
  pe_receipt :: "receipt_status option"
  pe_receiptCanonical :: bool
  pe_confirmations :: int
  pe_reconciliation :: reconciliation_status
  pe_projection :: projection_milestone
  pe_chainStatus :: chain_status
  pe_indexerStatus :: indexer_status
  pe_degradedReason :: "sync_error option"
  pe_productReady :: bool

definition MAX_PRODUCT_EVIDENCE_ANCESTRY_BLOCKS :: int where
  "MAX_PRODUCT_EVIDENCE_ANCESTRY_BLOCKS = 2000"

text \<open>
  The loop over the canonical blocks from the operation's to the checkpoint's: \<open>observed\<close> blocks so far, the hash of
  the last one, whether the projection's block was met. The result is \<open>None\<close> after a \<open>break\<close>.
\<close>

fun ancestry_loop ::
  "int \<Rightarrow> string \<Rightarrow> product_projection \<Rightarrow> block_row list \<Rightarrow> int \<Rightarrow> string option \<Rightarrow> bool \<Rightarrow>
   (int \<times> string option \<times> bool) option store" where
  "ancestry_loop start op_hash p [] observed previous witnessed = Inr (Some (observed, previous, witnessed))"
| "ancestry_loop start op_hash p (b # bs) observed previous witnessed =
     (if br_number b \<noteq> start + observed then Inr None else
      bind_r (if observed = 0 then bind_r (lift_chain (asBlockHash (br_hash b))) (\<lambda>h. Inr (sameHash h op_hash))
        else Inr True) (\<lambda>first.
      if \<not> first then Inr None else
      bind_r (case previous of None \<Rightarrow> Inr True
        | Some q \<Rightarrow> bind_r (lift_chain (asBlockHash (br_parent b))) (\<lambda>x.
            bind_r (lift_chain (asBlockHash q)) (\<lambda>y. Inr (sameHash x y)))) (\<lambda>linked.
      if \<not> linked then Inr None else
      bind_r (if br_number b = pj_blockNumber p
        then bind_r (lift_chain (asBlockHash (br_hash b))) (\<lambda>h. Inr (sameHash h (pj_blockHash p)))
        else Inr witnessed) (\<lambda>w.
      ancestry_loop start op_hash p bs (observed + 1) (Some (br_hash b)) w))))"

definition canonical_between :: "chain_db \<Rightarrow> int \<Rightarrow> string \<Rightarrow> int \<Rightarrow> int \<Rightarrow> block_row list" where
  "canonical_between db i a start stop = sort_key br_number
     (filter (\<lambda>b. canonical_at i a b \<and> start \<le> br_number b \<and> br_number b \<le> stop) (chain_blocks db))"

definition canonical_ancestry ::
  "chain_db \<Rightarrow> chain_operation \<Rightarrow> product_projection \<Rightarrow> chain_checkpoint option \<Rightarrow> bool store" where
  "canonical_ancestry db p proj cp =
     (case (op_blockNumber p, op_blockHash p, cp) of
        (Some n, Some h, Some c) \<Rightarrow>
          if op_canonical p \<and> pj_chainId proj = op_chainId p \<and> sameAddress (pj_owner proj) (op_owner p) \<and>
             sameAddress (pj_contract proj) (op_target p) \<and> pj_blockNumber proj \<ge> n \<and>
             pj_blockNumber proj \<le> ck_number c
          then
            bind_r (safeNumber n) (\<lambda>start.
            bind_r (safeNumber (ck_number c)) (\<lambda>stop.
            if stop - start + 1 \<le> MAX_PRODUCT_EVIDENCE_ANCESTRY_BLOCKS then
              bind_r (chainId (op_chainId p)) (\<lambda>i.
              bind_r (normalizedAddress (op_target p)) (\<lambda>a.
              bind_r (ancestry_loop start h proj (canonical_between db i a start stop) 0 None False) (\<lambda>r.
              case r of None \<Rightarrow> Inr False
              | Some (observed, previous, witnessed) \<Rightarrow>
                  if observed = stop - start + 1 \<and> witnessed then
                    (case previous of None \<Rightarrow> Inr False
                     | Some q \<Rightarrow> bind_r (lift_chain (asBlockHash q)) (\<lambda>x. Inr (sameHash x (ck_hash c))))
                  else Inr False)))
            else Inr False))
          else Inr False
      | _ \<Rightarrow> Inr False)"

fun chain_status_of :: "transaction_state \<Rightarrow> chain_status" where
  "chain_status_of AWAITING_SIGNATURE = Chain_PENDING"
| "chain_status_of SUBMITTED = Chain_PENDING"
| "chain_status_of MINED = Chain_INCLUDED"
| "chain_status_of CONFIRMING = Chain_INCLUDED"
| "chain_status_of CONFIRMED = Chain_SOFT_READY"
| "chain_status_of REORGED = Chain_REORGED"
| "chain_status_of _ = Chain_FAILED"

definition reconciliation_of :: "chain_operation \<Rightarrow> reconciliation_status" where
  "reconciliation_of p = (if op_state p = RECONCILIATION_FAILED then Recon_FAILED
     else if reconciled p then Recon_MATCHED else Recon_PENDING)"

definition indexer_of :: "chain_checkpoint option \<Rightarrow> bool \<Rightarrow> sync_error option \<Rightarrow> indexer_status" where
  "indexer_of cp healthy error = (if cp = None then Indexer_SYNCING else if healthy then Indexer_HEALTHY
     else if error \<noteq> Some CHAIN_SYNC_INCOMPLETE then Indexer_DEGRADED else Indexer_SYNCING)"

definition projection_milestone_of ::
  "chain_db \<Rightarrow> chain_operation \<Rightarrow> string \<Rightarrow> chain_checkpoint option \<Rightarrow> indexer_status \<Rightarrow> projection_milestone store" where
  "projection_milestone_of db p key cp indexer =
     (if op_state p = REORGED \<or> indexer = Indexer_DEGRADED then Inr Milestone_STALE
      else if indexer = Indexer_HEALTHY then
        bind_r (projection db (op_chainId p) (op_owner p) (op_target p) key) (\<lambda>proj.
        case proj of None \<Rightarrow> Inr Milestone_PENDING
        | Some x \<Rightarrow> bind_r (canonical_ancestry db p x cp) (\<lambda>ok.
            Inr (if ok then Milestone_READY else Milestone_STALE)))
      else Inr Milestone_PENDING)"

definition evidence_of ::
  "chain_operation \<Rightarrow> projection_milestone \<Rightarrow> indexer_status \<Rightarrow> sync_error option \<Rightarrow> product_evidence" where
  "evidence_of p milestone indexer error =
     \<lparr>pe_lifecycle = op_state p, pe_receipt = receiptStatus p,
      pe_receiptCanonical = (receiptStatus p \<noteq> None \<and> op_canonical p), pe_confirmations = confirmations p,
      pe_reconciliation = reconciliation_of p, pe_projection = milestone, pe_chainStatus = chain_status_of (op_state p),
      pe_indexerStatus = indexer, pe_degradedReason = (if error = Some CHAIN_SYNC_INCOMPLETE then None else error),
      pe_productReady = (op_state p = CONFIRMED \<and> op_canonical p \<and> reconciliation_of p = Recon_MATCHED \<and>
        milestone = Milestone_READY \<and> indexer = Indexer_HEALTHY)\<rparr>"

definition operationEvidence :: "chain_db \<Rightarrow> string \<Rightarrow> string \<Rightarrow> product_evidence option store" where
  "operationEvidence db oid key =
     bind_r (operation db oid) (\<lambda>found.
     case found of None \<Rightarrow> Inr None
     | Some p \<Rightarrow>
         bind_r (syncHealth db (op_chainId p) (op_target p)) (\<lambda>(healthy, error).
         bind_r (checkpoint db (op_chainId p) (op_target p)) (\<lambda>cp.
         let indexer = indexer_of cp healthy error in
         bind_r (projection_milestone_of db p key cp indexer) (\<lambda>milestone.
         Inr (Some (evidence_of p milestone indexer error))))))"

section \<open>Rolling back\<close>

definition rolled_back :: "int \<Rightarrow> string \<Rightarrow> int \<Rightarrow> chain_operation \<Rightarrow> bool" where
  "rolled_back i a n r \<longleftrightarrow> op_chainId r = i \<and> op_target r = a \<and>
     (case op_blockNumber r of None \<Rightarrow> False | Some m \<Rightarrow> n \<le> m) \<and>
     op_state r \<in> {MINED, CONFIRMING, CONFIRMED, REVERTED, RECONCILIATION_FAILED}"

definition reorg_operation :: "chain_operation \<Rightarrow> chain_operation" where
  "reorg_operation r = r\<lparr>op_state := REORGED, op_canonical := False, reconciled := False, confirmedAt := None,
     errorCode := Some CHAIN_REORG\<rparr>"

definition last_canonical :: "int \<Rightarrow> string \<Rightarrow> block_row list \<Rightarrow> block_row option" where
  "last_canonical i a bs = (case rev (sort_key br_number (filter (canonical_at i a) bs)) of
     [] \<Rightarrow> None | b # _ \<Rightarrow> Some b)"

text \<open>The counts are of blocks, events, operations and projections.\<close>

definition rollbackFromBlock ::
  "chain_db \<Rightarrow> int \<Rightarrow> string \<Rightarrow> int \<Rightarrow> string option \<Rightarrow> (chain_db \<times> nat \<times> nat \<times> nat \<times> nat) store" where
  "rollbackFromBlock db chain contract from_block owner =
     bind_r (chainId chain) (\<lambda>i.
     bind_r (normalizedAddress contract) (\<lambda>a.
     bind_r (safeNumber from_block) (\<lambda>n.
     bind_r (assertSyncOwner db i a owner) (\<lambda>_.
     let B = (\<lambda>b. canonical_at i a b \<and> n \<le> br_number b);
         E = (\<lambda>r. er_chain r = i \<and> er_contract r = a \<and> n \<le> er_number r \<and> er_canonical r);
         bs = update_where B (\<lambda>b. b\<lparr>br_canonical := False\<rparr>) (chain_blocks db)
     in Inr (db\<lparr>chain_blocks := bs,
          chain_events := update_where E (\<lambda>r. r\<lparr>er_canonical := False\<rparr>) (chain_events db),
          chain_transactions := update_where (rolled_back i a n) reorg_operation (chain_transactions db),
          product_projections := filter (\<lambda>r. \<not> projection_of i a r) (product_projections db),
          chain_checkpoints := (case last_canonical i a bs of
              Some b \<Rightarrow> update_where (checkpoint_at i a) (\<lambda>c. c\<lparr>cp_number := br_number b, cp_hash := br_hash b,
                cp_projected := None, cp_projectedHash := None\<rparr>) (chain_checkpoints db)
            | None \<Rightarrow> filter (\<lambda>c. \<not> checkpoint_at i a c) (chain_checkpoints db))\<rparr>,
          changes B (chain_blocks db), changes E (chain_events db),
          changes (rolled_back i a n) (chain_transactions db),
          changes (projection_of i a) (product_projections db))))))"

end
