(* ===== verification/Chain_Store_Invariant.thy ===== *)
theory Chain_Store_Invariant
  imports Chain_Store
begin

text \<open>
  The invariant of the chain store. A database is run by the commands of \<open>store_command\<close>, in any order and for any
  number of chains and contracts. \<open>chain_store_inv\<close> says that the canonical blocks of each contract form one chain of
  parents that ends at its checkpoint, that every projection is anchored in that chain, that the recorded health is
  one that \<open>syncHealth\<close> accepts, and that every stored operation carries the evidence its state demands.
\<close>

section \<open>Commands\<close>

datatype store_command =
    Claim_Sync int string int string
  | Mark_Unhealthy int string sync_error "int option" "string option"
  | Mark_Healthy int string int "string option"
  | Release_Incomplete int string int string
  | Record_Block int string chain_block "chain_event list" "int option" "string option"
  | Save_Operation chain_operation
  | Save_At_Checkpoint chain_operation chain_operation chain_checkpoint
  | Commit_Projections int string chain_block "product_projection list" "string option"
  | Roll_Back int string int "string option"

fun chain_store_step :: "(string \<Rightarrow> bool) \<Rightarrow> chain_db \<Rightarrow> store_command \<Rightarrow> chain_db store" where
  "chain_store_step dp db (Claim_Sync i c t w) = claimSync db i c t w"
| "chain_store_step dp db (Mark_Unhealthy i c e t w) = markSyncUnhealthy db i c e t w"
| "chain_store_step dp db (Mark_Healthy i c t w) = bind_r (markSyncHealthy db i c t w) (\<lambda>r. Inr (fst r))"
| "chain_store_step dp db (Release_Incomplete i c t w) = releaseSyncIncomplete db i c t w"
| "chain_store_step dp db (Record_Block i c b es t w) = bind_r (recordCanonicalBlock db i c b es t w) (\<lambda>r. Inr (fst r))"
| "chain_store_step dp db (Save_Operation p) = saveOperation dp db p"
| "chain_store_step dp db (Save_At_Checkpoint p e k) = saveOperationAtCheckpoint dp db p e k"
| "chain_store_step dp db (Commit_Projections i c b ps w) = commitProjections db i c b ps w"
| "chain_store_step dp db (Roll_Back i c n w) = bind_r (rollbackFromBlock db i c n w) (\<lambda>r. Inr (fst r))"

definition chain_store_start :: "chain_db \<Rightarrow> bool" where
  "chain_store_start db \<longleftrightarrow> db = empty_chain_db"

section \<open>Invariant\<close>

definition canon :: "block_row list \<Rightarrow> int \<Rightarrow> string \<Rightarrow> block_row set" where
  "canon bs i a = {b \<in> set bs. canonical_at i a b}"

definition head_of :: "chain_db \<Rightarrow> int \<Rightarrow> string \<Rightarrow> (int \<times> string) option" where
  "head_of db i a = map_option (\<lambda>c. (cp_number c, cp_hash c)) (find_checkpoint db i a)"

definition links :: "block_row set \<Rightarrow> bool" where
  "links C \<longleftrightarrow> (\<forall>b\<in>C. \<forall>c\<in>C. br_number c = br_number b + 1 \<longrightarrow> br_parent c = br_hash b)"

fun chained :: "block_row set \<Rightarrow> (int \<times> string) option \<Rightarrow> bool" where
  "chained C None = (C = {})"
| "chained C (Some (n, h)) = (inj_on br_number C \<and> links C \<and> (\<exists>lo. lo \<le> n \<and> br_number ` C = {lo..n}) \<and>
     (\<exists>b\<in>C. br_number b = n \<and> br_hash b = h))"

definition lower :: "string \<Rightarrow> bool" where
  "lower s \<longleftrightarrow> toLowerCase s = s"

definition block_key :: "block_row \<Rightarrow> int \<times> string \<times> int \<times> string" where
  "block_key b = (br_chain b, br_contract b, br_number b, br_hash b)"

definition block_ok :: "block_row \<Rightarrow> bool" where
  "block_ok b \<longleftrightarrow> lower (br_hash b) \<and> lower (br_parent b) \<and> 0 \<le> br_number b \<and> br_number b \<le> MAX_SAFE_INTEGER"

definition blocks_inv :: "chain_db \<Rightarrow> bool" where
  "blocks_inv db \<longleftrightarrow> distinct (map block_key (chain_blocks db)) \<and> (\<forall>i a. chained (canon (chain_blocks db) i a) (head_of db i a)) \<and>
     (\<forall>b\<in>set (chain_blocks db). block_ok b)"

definition checkpoint_ok :: "checkpoint_row \<Rightarrow> bool" where
  "checkpoint_ok c \<longleftrightarrow> health_valid c \<and> lower (cp_hash c) \<and> (cp_projected c = None) = (cp_projectedHash c = None)"

definition projections_inv :: "chain_db \<Rightarrow> bool" where
  "projections_inv db \<longleftrightarrow> (\<forall>r\<in>set (product_projections db).
     \<exists>b\<in>canon (chain_blocks db) (pr_chain r) (pr_contract r). br_number b = pr_number r \<and> br_hash b = pr_hash r)"

definition operations_inv :: "(string \<Rightarrow> bool) \<Rightarrow> chain_operation list \<Rightarrow> bool" where
  "operations_inv dp rs \<longleftrightarrow> (\<forall>r\<in>set rs. evidence_ok dp r \<and> valid_index (transactionIndex r)) \<and>
     distinct (map operationId rs) \<and>
     (\<forall>r\<in>set rs. \<forall>s\<in>set rs. \<not> claims_transaction r s)"

definition lease_key :: "lease_row \<Rightarrow> int \<times> string" where
  "lease_key l = (ls_chain l, ls_contract l)"

definition checkpoint_key :: "checkpoint_row \<Rightarrow> int \<times> string" where
  "checkpoint_key c = (cp_chain c, cp_contract c)"

definition keys_inv :: "chain_db \<Rightarrow> bool" where
  "keys_inv db \<longleftrightarrow> distinct (map lease_key (chain_sync_leases db)) \<and> distinct (map checkpoint_key (chain_checkpoints db))"

definition chain_store_inv :: "(string \<Rightarrow> bool) \<Rightarrow> chain_db \<Rightarrow> bool" where
  "chain_store_inv dp db \<longleftrightarrow> blocks_inv db \<and> keys_inv db \<and> (\<forall>c\<in>set (chain_checkpoints db). checkpoint_ok c) \<and> projections_inv db \<and>
     operations_inv dp (chain_transactions db)"

section \<open>Values\<close>

lemma chainId_Inr: "chainId n = Inr i \<longleftrightarrow> i = n \<and> isSafeInteger n \<and> 0 < n"
  by (auto simp: chainId_def)

lemma safeNumber_Inr: "safeNumber n = Inr m \<longleftrightarrow> m = n \<and> 0 \<le> n \<and> n \<le> MAX_SAFE_INTEGER"
  by (auto simp: safeNumber_def)

lemma lift_chain_Inr: "lift_chain r = Inr x \<longleftrightarrow> r = Inr x"
  by (cases r) (simp_all add: lift_chain_def)

lemma asBlockHash_Inr: "asBlockHash s = Inr h \<longleftrightarrow> h = s \<and> hex_digits 64 s"
  by (auto simp: asBlockHash_def checkedHex_def)

lemma normalizedAddress_Inr: "normalizedAddress c = Inr a \<longleftrightarrow> hex_digits 40 c \<and> a = toLowerCase c"
  by (auto simp: normalizedAddress_def bind_r_Inr lift_chain_Inr asAddress_def checkedHex_def)

lemmas value_Inr = chainId_Inr safeNumber_Inr lift_chain_Inr asBlockHash_Inr normalizedAddress_Inr bind_r_Inr

lemma lower_char_idem: "lower_char (lower_char c) = lower_char c"
proof -
  have "(of_char c :: nat) < 256" by simp
  then show ?thesis by (auto simp: lower_char_def Let_def)
qed

lemma lower_lower [simp]: "lower (toLowerCase s)"
  by (induction s) (auto simp: lower_def toLowerCase_def lower_char_idem)

lemma lower_eq: "lower s \<Longrightarrow> toLowerCase s = s"
  by (simp add: lower_def)

section \<open>Tables\<close>

lemma in_update_where: "x \<in> set (update_where P f xs) \<longleftrightarrow> (\<exists>y\<in>set xs. x = (if P y then f y else y))"
  by (auto simp: update_where_def)

lemma find_update_where:
  "(\<And>x. Q (f x) = Q x) \<Longrightarrow> find Q (update_where P f xs) = map_option (\<lambda>x. if P x then f x else x) (find Q xs)"
  by (induction xs) (auto simp: update_where_def)

lemma find_append: "find Q (xs @ ys) = (case find Q xs of None \<Rightarrow> find Q ys | Some x \<Rightarrow> Some x)"
  by (induction xs) auto

lemma list_ex_find: "list_ex P xs \<longleftrightarrow> find P xs \<noteq> None"
  by (induction xs) auto

lemma find_SomeD: "find P xs = Some x \<Longrightarrow> x \<in> set xs \<and> P x"
  by (induction xs) (auto split: if_splits)

lemma list_all2_member: "list_all2 R xs ys \<Longrightarrow> y \<in> set ys \<Longrightarrow> \<exists>x\<in>set xs. R x y"
  by (induction rule: list_all2_induct) auto

lemma canon_append: "canon (bs @ [b]) i a = (if canonical_at i a b then insert b (canon bs i a) else canon bs i a)"
  by (auto simp: canon_def)

lemma keys_update_where: "(\<And>x. f (g x) = f x) \<Longrightarrow> map f (update_where P g xs) = map f xs"
  by (simp add: update_where_def)

lemma distinct_upsert:
  assumes "distinct (map f xs)" "\<And>x. P x \<longleftrightarrow> f x = f new" "\<And>x. f (g x) = f x"
  shows "distinct (map f (upsert P g new xs))"
proof (cases "list_ex P xs")
  case True
  have "f \<circ> (\<lambda>x. if P x then g x else x) = f" by (auto simp: assms(3))
  then show ?thesis using assms(1) True by (simp add: upsert_def update_where_def)
next
  case False
  then show ?thesis using assms(1,2) by (auto simp: upsert_def list_ex_iff)
qed

lemma distinct_filter_keys: "distinct (map f xs) \<Longrightarrow> distinct (map f (filter P xs))"
  by (simp add: distinct_map inj_on_def)

lemma lease_at_key: "lease_at i a l \<longleftrightarrow> lease_key l = (i, a)"
  by (simp add: lease_at_def lease_key_def)

lemma checkpoint_at_key: "checkpoint_at i a c \<longleftrightarrow> checkpoint_key c = (i, a)"
  by (simp add: checkpoint_at_def checkpoint_key_def)

section \<open>Health\<close>

definition health_change :: "(checkpoint_row \<Rightarrow> checkpoint_row) \<Rightarrow> bool" where
  "health_change f \<longleftrightarrow> (\<forall>c. cp_chain (f c) = cp_chain c \<and> cp_contract (f c) = cp_contract c \<and>
     cp_number (f c) = cp_number c \<and> cp_hash (f c) = cp_hash c \<and> cp_projected (f c) = cp_projected c \<and>
     cp_projectedHash (f c) = cp_projectedHash c \<and> health_valid (f c))"

text \<open>What the four methods that only touch a lease and the health columns do to the tables.\<close>

definition health_step :: "chain_db \<Rightarrow> chain_db \<Rightarrow> bool" where
  "health_step db db' \<longleftrightarrow> (\<exists>P f ls. health_change f \<and>
     (distinct (map lease_key (chain_sync_leases db)) \<longrightarrow> distinct (map lease_key ls)) \<and>
     db' = db\<lparr>chain_checkpoints := update_where P f (chain_checkpoints db), chain_sync_leases := ls\<rparr>)"

lemma raise_target_change: "health_change (raise_target t)"
  by (auto simp: health_change_def raise_target_def health_valid_def split: option.splits)

lemma reorg_change: "e \<noteq> CHAIN_SYNC_INCOMPLETE \<Longrightarrow>
  health_change (\<lambda>c. c\<lparr>cp_healthy := False, cp_error := Some e, cp_target := None\<rparr>)"
  by (cases e) (auto simp: health_change_def health_valid_def)

lemma healthy_change: "health_change (\<lambda>c. c\<lparr>cp_healthy := True, cp_error := None, cp_target := None\<rparr>)"
  by (auto simp: health_change_def health_valid_def)

definition leases_kept :: "lease_row list \<Rightarrow> lease_row list \<Rightarrow> bool" where
  "leases_kept ls ls' \<longleftrightarrow> (distinct (map lease_key ls) \<longrightarrow> distinct (map lease_key ls'))"

lemma leases_kept: "leases_kept ls ls" "leases_kept ls (release i a t ls)"
  by (simp_all add: leases_kept_def release_def distinct_filter_keys)

lemma leases_kept_claim: "leases_kept ls (upsert (lease_at i a) (\<lambda>l. l\<lparr>ls_owner := w, ls_target := g l\<rparr>)
    \<lparr>ls_chain = i, ls_contract = a, ls_owner = w, ls_target = n\<rparr> ls)"
  unfolding leases_kept_def by (intro impI distinct_upsert) (simp_all add: lease_at_key lease_key_def)

lemma health_stepI: "health_change f \<Longrightarrow> leases_kept (chain_sync_leases db) ls \<Longrightarrow>
  health_step db (db\<lparr>chain_checkpoints := update_where P f (chain_checkpoints db), chain_sync_leases := ls\<rparr>)"
  unfolding health_step_def leases_kept_def by blast

lemma health_stepI':  "health_change f \<Longrightarrow>
  health_step db (db\<lparr>chain_checkpoints := update_where P f (chain_checkpoints db)\<rparr>)"
  using health_stepI[where f = f and db = db and P = P and ls = "chain_sync_leases db"] leases_kept by simp

lemma health_stepI'': "health_change f \<Longrightarrow> leases_kept (chain_sync_leases db) ls \<Longrightarrow>
  health_step db (db\<lparr>chain_sync_leases := ls, chain_checkpoints := update_where P f (chain_checkpoints db)\<rparr>)"
  using health_stepI[where f = f and db = db and P = P and ls = ls] by (cases db) simp

lemma claimSync_health: "claimSync db i c t w = Inr db' \<Longrightarrow> health_step db db'"
  using health_stepI''[OF raise_target_change leases_kept_claim]
  by (auto simp: claimSync_def bind_r_Inr Let_def split: if_splits)

lemma markSyncUnhealthy_health: "markSyncUnhealthy db i c e t w = Inr db' \<Longrightarrow> health_step db db'"
  by (auto simp: markSyncUnhealthy_def bind_r_Inr Let_def leases_kept
      intro!: health_stepI[OF raise_target_change] health_stepI[OF reorg_change] split: if_splits option.split)

lemma markSyncHealthy_health: "markSyncHealthy db i c t w = Inr r \<Longrightarrow> health_step db (fst r)"
  using health_stepI[OF healthy_change leases_kept(2)] health_stepI'[OF healthy_change]
  by (auto simp: markSyncHealthy_def bind_r_Inr Let_def split: if_splits option.splits)

lemma releaseSyncIncomplete_health: "releaseSyncIncomplete db i c t w = Inr db' \<Longrightarrow> health_step db db'"
  using health_stepI[OF raise_target_change leases_kept(2)]
  by (auto simp: releaseSyncIncomplete_def bind_r_Inr Let_def split: if_splits)

lemma health_step_inv:
  assumes "health_step db db'" "chain_store_inv dp db"
  shows "chain_store_inv dp db'"
proof -
  from assms(1) obtain P f ls where f: "health_change f"
    and ls: "distinct (map lease_key (chain_sync_leases db)) \<longrightarrow> distinct (map lease_key ls)" and
    db': "db' = db\<lparr>chain_checkpoints := update_where P f (chain_checkpoints db), chain_sync_leases := ls\<rparr>"
    by (auto simp: health_step_def)
  have "checkpoint_at i a (f c) = checkpoint_at i a c" for i a c
    using f by (simp add: health_change_def checkpoint_at_def)
  then have h: "head_of db' i a = head_of db i a" for i a
    using f by (cases "find (checkpoint_at i a) (chain_checkpoints db)")
      (simp_all add: head_of_def find_checkpoint_def db' find_update_where health_change_def)
  have "\<forall>c\<in>set (chain_checkpoints db'). checkpoint_ok c"
    using assms(2) f by (auto simp: db' in_update_where chain_store_inv_def checkpoint_ok_def health_change_def split: if_splits)
  moreover have "keys_inv db'"
    using assms(2) ls f by (simp add: chain_store_inv_def keys_inv_def db' keys_update_where checkpoint_key_def health_change_def)
  ultimately show ?thesis using assms(2) h by (simp add: chain_store_inv_def blocks_inv_def projections_inv_def db')
qed

section \<open>Operations\<close>

lemma operation_row_Inr:
  assumes "operation_row p = Inr r"
  shows "r = p\<lparr>txHash := map_option toLowerCase (txHash p), op_owner := toLowerCase (op_owner p),
    op_target := toLowerCase (op_target p), op_calldata := map_option toLowerCase (op_calldata p),
    op_blockHash := map_option toLowerCase (op_blockHash p),
    replacementTxHash := map_option toLowerCase (replacementTxHash p)\<rparr>"
  using assms by (cases "op_blockNumber p") (auto simp: operation_row_def value_Inr)

lemma operation_row_evidence:
  "operation_row p = Inr r \<Longrightarrow> evidence_ok dp r = evidence_ok dp p \<and> transactionIndex r = transactionIndex p \<and>
    operationId r = operationId p"
  by (drule operation_row_Inr, cases "op_state p") (simp_all add: evidence_ok_def noBlock_def blockWith_def)

lemma evidence_identity: "evidence_ok dp (r\<lparr>op_chainId := a, op_owner := b, op_target := c, op_calldata := d\<rparr>) = evidence_ok dp r"
  by (cases "op_state r") (simp_all add: evidence_ok_def noBlock_def blockWith_def)

lemma decode_operation_chain: "decode_operation r = Inr q \<Longrightarrow> op_chainId q = op_chainId r"
  by (auto simp: decode_operation_def split: sum.splits)

lemma saveOperation_Inr:
  assumes "saveOperation dp db p = Inr db'"
  obtains r where "operation_row p = Inr r" "write_operation db r = Inr db'" "evidence_ok dp p"
    "valid_index (transactionIndex p)" "\<And>old. find_operation db (operationId p) = Some old \<Longrightarrow> op_chainId old = op_chainId p"
proof -
  from assms obtain previous where p: "evidence_ok dp p" "valid_index (transactionIndex p)"
    "operation db (operationId p) = Inr previous" "\<And>o'. previous = Some o' \<Longrightarrow> identity_kept o' p"
    and w: "bind_r (operation_row p) (write_operation db) = Inr db'"
    by (auto simp: saveOperation_def bind_r_Inr validateOperationEvidence_def check_Inr split: sum.splits if_splits
        option.splits)
  have "op_chainId old = op_chainId p" if "find_operation db (operationId p) = Some old" for old
    using that p(3,4) by (auto simp: operation_def bind_r_Inr identity_kept_def dest: decode_operation_chain)
  then show thesis using that w p(1,2) by (auto simp: bind_r_Inr)
qed

lemma claims_sym: "claims_transaction r s \<longleftrightarrow> claims_transaction s r"
  by (auto simp: claims_transaction_def)

lemma write_operation_inv:
  assumes inv: "operations_inv dp (chain_transactions db)" and w: "write_operation db r = Inr db'"
    and r: "evidence_ok dp r" "valid_index (transactionIndex r)"
    and ch: "\<And>old. find_operation db (operationId r) = Some old \<Longrightarrow> op_chainId old = op_chainId r"
  shows "operations_inv dp (chain_transactions db')"
proof (cases "find_operation db (operationId r)")
  case None
  have c: "\<not> claims_transaction r s" if "s \<in> set (chain_transactions db)" for s
    using w that by (auto simp: write_operation_def list_ex_iff split: if_splits)
  have "chain_transactions db' = chain_transactions db @ [r]"
    using w None by (auto simp: write_operation_def upsert_def list_ex_find find_operation_def split: if_splits)
  moreover have "operationId r \<notin> operationId ` set (chain_transactions db)"
    using None by (auto simp: find_operation_def find_None_iff)
  moreover have "\<not> claims_transaction r r" by (simp add: claims_transaction_def)
  ultimately show ?thesis using inv r c claims_sym by (auto simp: operations_inv_def)
next
  case (Some old)
  let ?f = "\<lambda>o'. r\<lparr>op_chainId := op_chainId o', op_owner := op_owner o', op_target := op_target o',
    op_calldata := op_calldata o'\<rparr>"
  let ?P = "\<lambda>o'. operationId o' = operationId r"
  have c: "\<not> claims_transaction r s" if "s \<in> set (chain_transactions db)" for s
    using w that by (auto simp: write_operation_def list_ex_iff split: if_splits)
  have d: "distinct (map operationId (chain_transactions db))" using inv by (simp add: operations_inv_def)
  have rs: "chain_transactions db' = update_where ?P ?f (chain_transactions db)"
    using w Some by (auto simp: write_operation_def upsert_def list_ex_find find_operation_def split: if_splits)
  have ids: "map operationId (chain_transactions db') = map operationId (chain_transactions db)"
    by (simp add: rs update_where_def)
  have o: "old \<in> set (chain_transactions db) \<and> ?P old"
    using Some unfolding find_operation_def by (rule find_SomeD)
  have old: "y = old" if "y \<in> set (chain_transactions db)" "?P y" for y
    using d that o by (auto simp: distinct_map intro: inj_onD[where f = operationId])
  have mem: "(y \<in> set (chain_transactions db) \<and> \<not> ?P y) \<or> y = ?f old" if "y \<in> set (chain_transactions db')" for y
    using that old by (auto simp: rs in_update_where split: if_splits)
  have new: "\<not> claims_transaction (?f old) s" if "s \<in> set (chain_transactions db)" for s
    using c[OF that] ch[OF Some] by (simp add: claims_transaction_def)
  have apart: "\<not> claims_transaction x y" if "x \<in> set (chain_transactions db')" "y \<in> set (chain_transactions db')" for x y
  proof (cases "x = ?f old")
    case True
    then show ?thesis using mem[OF that(2)] new by (auto simp: claims_transaction_def)
  next
    case False
    then have x: "x \<in> set (chain_transactions db)" using mem[OF that(1)] by blast
    show ?thesis
    proof (cases "y = ?f old")
      case True
      then show ?thesis using new[OF x] claims_sym by blast
    next
      case False
      then show ?thesis using mem[OF that(2)] x inv by (auto simp: operations_inv_def)
    qed
  qed
  have "evidence_ok dp y \<and> valid_index (transactionIndex y)" if "y \<in> set (chain_transactions db')" for y
    using mem[OF that] inv r by (auto simp: operations_inv_def evidence_identity)
  then show ?thesis using d ids apart by (simp add: operations_inv_def)
qed

lemma write_operation_frame: "write_operation db r = Inr db' \<Longrightarrow> \<exists>rs. db' = db\<lparr>chain_transactions := rs\<rparr>"
  by (auto simp: write_operation_def split: if_splits)

lemma store_inv_operations:
  "chain_store_inv dp db \<Longrightarrow> operations_inv dp rs \<Longrightarrow> chain_store_inv dp (db\<lparr>chain_transactions := rs\<rparr>)"
  by (simp add: chain_store_inv_def keys_inv_def blocks_inv_def projections_inv_def head_of_def find_checkpoint_def)

lemma saveOperation_inv:
  assumes "chain_store_inv dp db" "saveOperation dp db p = Inr db'"
  shows "chain_store_inv dp db'"
proof -
  from assms(2) obtain r where r: "operation_row p = Inr r" "write_operation db r = Inr db'" "evidence_ok dp p"
    "valid_index (transactionIndex p)" "\<And>old. find_operation db (operationId p) = Some old \<Longrightarrow> op_chainId old = op_chainId p"
    by (rule saveOperation_Inr) blast
  obtain rs where db': "db' = db\<lparr>chain_transactions := rs\<rparr>" using write_operation_frame[OF r(2)] by blast
  have e: "evidence_ok dp r" "valid_index (transactionIndex r)" "operationId r = operationId p"
    using operation_row_evidence[OF r(1), of dp] r(3,4) by simp_all
  have "op_chainId r = op_chainId p" using operation_row_Inr[OF r(1)] by simp
  then have "operations_inv dp (chain_transactions db')"
    using write_operation_inv[OF _ r(2) e(1,2)] assms(1) r(5) e(3) by (simp add: chain_store_inv_def)
  then show ?thesis using store_inv_operations[OF assms(1), of rs] by (simp add: db')
qed

lemma saveOperationAtCheckpoint_inv:
  assumes "chain_store_inv dp db" "saveOperationAtCheckpoint dp db p e k = Inr db'"
  shows "chain_store_inv dp db'"
proof -
  have "saveOperation dp db p = Inr db'"
    using assms(2) by (auto simp: saveOperationAtCheckpoint_def bind_r_Inr split: option.splits if_splits)
  then show ?thesis using saveOperation_inv assms(1) by blast
qed

section \<open>Projections\<close>

lemma checkpoint_ok_moved:
  "checkpoint_ok k \<Longrightarrow> checkpoint_ok (k\<lparr>cp_projected := Some n, cp_projectedHash := Some h\<rparr>)"
  "checkpoint_ok k \<Longrightarrow> lower h \<Longrightarrow>
    checkpoint_ok (k\<lparr>cp_number := n, cp_hash := h, cp_projected := None, cp_projectedHash := None\<rparr>)"
  "checkpoint_ok k \<Longrightarrow> lower h \<Longrightarrow> checkpoint_ok (k\<lparr>cp_number := n, cp_hash := h\<rparr>)"
  by (simp_all add: checkpoint_ok_def health_valid_def)

lemma canonicalBlock_Inr:
  assumes "canonicalBlock db i c n = Inr (Some b)"
  obtains r where "r \<in> canon (chain_blocks db) i (toLowerCase c)" "br_number r = n" "br_hash r = bk_hash b"
proof -
  from assms obtain r where r: "find_canonical db i (toLowerCase c) n = Some r" "br_hash r = bk_hash b"
    by (auto simp: canonicalBlock_def value_Inr split: option.splits)
  then show thesis using that find_SomeD[OF r(1)[unfolded find_canonical_def]] by (auto simp: canon_def)
qed

lemma projection_anchored_row:
  assumes "projection_anchored db i c p = Inr ()" "projection_row_of i (toLowerCase c) p = Inr r" "blocks_inv db"
  shows "pr_chain r = i" "pr_contract r = toLowerCase c"
    "\<exists>b\<in>canon (chain_blocks db) i (toLowerCase c). br_number b = pr_number r \<and> br_hash b = pr_hash r"
proof -
  show "pr_chain r = i" "pr_contract r = toLowerCase c" using assms(2) by (auto simp: projection_row_of_def value_Inr)
  from assms(1) obtain b where b: "canonicalBlock db i c (pj_blockNumber p) = Inr (Some b)"
    "toLowerCase (bk_hash b) = toLowerCase (pj_blockHash p)"
    by (auto simp: projection_anchored_def bind_r_Inr check_Inr split: option.splits)
  from b(1) obtain q where q: "q \<in> canon (chain_blocks db) i (toLowerCase c)" "br_number q = pj_blockNumber p"
    "br_hash q = bk_hash b" by (rule canonicalBlock_Inr)
  have "lower (br_hash q)" using q(1) assms(3) by (auto simp: canon_def blocks_inv_def block_ok_def)
  then have "br_hash q = pr_hash r" "br_number q = pr_number r"
    using assms(2) q(2,3) b(2) by (auto simp: projection_row_of_def value_Inr lower_def)
  then show "\<exists>b\<in>canon (chain_blocks db) i (toLowerCase c). br_number b = pr_number r \<and> br_hash b = pr_hash r"
    using q(1) by blast
qed

lemma commitProjections_Inr:
  assumes "commitProjections db i c b ps w = Inr db'"
  obtains rows where "\<forall>p\<in>set ps. projection_anchored db i c p = Inr ()"
    "list_all2 (\<lambda>p r. projection_row_of i (toLowerCase c) p = Inr r) ps rows"
    "db' = db\<lparr>product_projections := filter (\<lambda>r. \<not> projection_of i (toLowerCase c) r) (product_projections db) @ rows,
       chain_checkpoints := update_where (\<lambda>k. checkpoint_at i (toLowerCase c) k \<and> cp_number k = bk_number b \<and>
         cp_hash k = toLowerCase (bk_hash b))
         (\<lambda>k. k\<lparr>cp_projected := Some (bk_number b), cp_projectedHash := Some (toLowerCase (bk_hash b))\<rparr>)
         (chain_checkpoints db)\<rparr>"
    "map_option ls_owner (find_lease db i (toLowerCase c)) = w"
  using assms by (auto simp: commitProjections_def value_Inr map_r_Inr for_each_Inr assertSyncOwner_def check_Inr Let_def
      split: if_splits)

lemma commitProjections_inv:
  assumes "chain_store_inv dp db" "commitProjections db i c b ps w = Inr db'"
  shows "chain_store_inv dp db'"
proof -
  from assms(2) obtain rows where r: "\<forall>p\<in>set ps. projection_anchored db i c p = Inr ()"
    "list_all2 (\<lambda>p r. projection_row_of i (toLowerCase c) p = Inr r) ps rows"
    and db': "db' = db\<lparr>product_projections := filter (\<lambda>r. \<not> projection_of i (toLowerCase c) r) (product_projections db) @ rows,
       chain_checkpoints := update_where (\<lambda>k. checkpoint_at i (toLowerCase c) k \<and> cp_number k = bk_number b \<and>
         cp_hash k = toLowerCase (bk_hash b))
         (\<lambda>k. k\<lparr>cp_projected := Some (bk_number b), cp_projectedHash := Some (toLowerCase (bk_hash b))\<rparr>)
         (chain_checkpoints db)\<rparr>" by (rule commitProjections_Inr) blast
  have bi: "blocks_inv db" using assms(1) by (simp add: chain_store_inv_def)
  have h: "head_of db' j a = head_of db j a" for j a
    by (cases "find (checkpoint_at j a) (chain_checkpoints db)")
      (simp_all add: head_of_def find_checkpoint_def db' find_update_where checkpoint_at_def)
  have "\<forall>k\<in>set (chain_checkpoints db'). checkpoint_ok k"
    using assms(1) by (auto simp: db' in_update_where chain_store_inv_def checkpoint_ok_moved(1))
  moreover have "\<exists>p\<in>set ps. projection_row_of i (toLowerCase c) p = Inr x" if "x \<in> set rows" for x
    using r(2) that by (rule list_all2_member)
  then have "\<exists>q\<in>canon (chain_blocks db) (pr_chain x) (pr_contract x). br_number q = pr_number x \<and> br_hash q = pr_hash x"
    if "x \<in> set rows" for x
    using projection_anchored_row[OF _ _ bi] r(1) that by metis
  then have "projections_inv db'" using assms(1) by (auto simp: chain_store_inv_def projections_inv_def db')
  moreover have "keys_inv db'"
    using assms(1) by (simp add: chain_store_inv_def keys_inv_def db' keys_update_where checkpoint_key_def)
  ultimately show ?thesis using assms(1) h by (simp add: chain_store_inv_def blocks_inv_def db')
qed

section \<open>Blocks\<close>

lemma chained_extend:
  assumes "chained C head" "\<And>n h. head = Some (n, h) \<Longrightarrow> br_number b = n + 1 \<and> br_parent b = h"
  shows "chained (insert b C) (Some (br_number b, br_hash b))"
proof (cases head)
  case None
  then have "C = {}" using assms(1) by simp
  then show ?thesis by (auto simp: links_def)
next
  case (Some nh)
  then obtain n h where nh: "head = Some (n, h)" by (cases nh) auto
  then have b: "br_number b = n + 1" "br_parent b = h" using assms(2) by auto
  from assms(1) nh obtain lo top where C: "inj_on br_number C" "links C" "lo \<le> n" "br_number ` C = {lo..n}"
    and top: "top \<in> C" "br_number top = n" "br_hash top = h" by auto
  have le: "br_number x \<le> n" if "x \<in> C" for x using C(4) that by (metis atLeastAtMost_iff imageI)
  have "inj_on br_number (insert b C)" using C(1) le b(1) by (fastforce simp: inj_on_def)
  moreover have "x = top" if "x \<in> C" "br_number x = n" for x
    using C(1) top that by (metis inj_onD)
  then have "links (insert b C)" using C(2) le b top(3) by (fastforce simp: links_def)
  moreover have "br_number ` insert b C = {lo..n + 1}" using C(3,4) b(1) by auto
  ultimately show ?thesis using C(3) b(1) by (auto intro!: exI[of _ lo])
qed

lemma canon_upsert:
  assumes new: "canonical_at i a new" "same_block i a (br_number new) (br_hash new) new"
    and f: "\<And>b. same_block i a (br_number new) (br_hash new) b \<Longrightarrow> f b = new"
    and free: "\<And>b. b \<in> canon bs i a \<Longrightarrow> br_number b \<noteq> br_number new"
  shows "canon (upsert (same_block i a (br_number new) (br_hash new)) f new bs) j c =
    (if j = i \<and> c = a then insert new (canon bs i a) else canon bs j c)"
proof -
  let ?P = "same_block i a (br_number new) (br_hash new)"
  have keep: "\<not> ?P b" if "b \<in> set bs" "canonical_at j c b" for b j c
    using that free by (auto simp: canon_def same_block_def canonical_at_def)
  have new': "canonical_at j c new \<longleftrightarrow> j = i \<and> c = a" for j c using new(1) by (auto simp: canonical_at_def)
  show ?thesis
  proof (cases "list_ex ?P bs")
    case True
    then obtain q where q: "q \<in> set bs" "?P q" by (auto simp: list_ex_iff)
    have "x \<in> set (update_where ?P f bs) \<longleftrightarrow> x = new \<or> x \<in> set bs \<and> \<not> ?P x" for x
      using q f by (auto simp: in_update_where)
    then show ?thesis using True keep new' by (auto simp: canon_def upsert_def)
  next
    case False
    then show ?thesis using new' by (auto simp: upsert_def canon_append)
  qed
qed

definition head_in :: "checkpoint_row list \<Rightarrow> int \<Rightarrow> string \<Rightarrow> (int \<times> string) option" where
  "head_in cps i a = map_option (\<lambda>c. (cp_number c, cp_hash c)) (find (checkpoint_at i a) cps)"

lemma head_of_in: "head_of db i a = head_in (chain_checkpoints db) i a"
  by (simp add: head_of_def head_in_def find_checkpoint_def)

lemma head_in_update:
  assumes "\<And>c. cp_chain (f c) = cp_chain c \<and> cp_contract (f c) = cp_contract c \<and> cp_number (f c) = cp_number c \<and>
    cp_hash (f c) = cp_hash c"
  shows "head_in (update_where P f cps) i a = head_in cps i a"
  using assms by (cases "find (checkpoint_at i a) cps") (simp_all add: head_in_def find_update_where checkpoint_at_def)

lemma head_in_move:
  assumes "\<And>c. cp_chain (f c) = cp_chain c \<and> cp_contract (f c) = cp_contract c \<and> cp_number (f c) = n \<and> cp_hash (f c) = h"
  shows "head_in (update_where (checkpoint_at i a) f cps) j b =
    (if j = i \<and> b = a then map_option (\<lambda>_. (n, h)) (head_in cps i a) else head_in cps j b)"
  using assms find_SomeD[of "checkpoint_at j b" cps]
  by (cases "find (checkpoint_at j b) cps") (auto simp: head_in_def find_update_where checkpoint_at_def)

lemma head_in_upsert:
  assumes "\<And>c. cp_chain (f c) = cp_chain c \<and> cp_contract (f c) = cp_contract c \<and> cp_number (f c) = n \<and> cp_hash (f c) = h"
  shows "head_in (upsert (checkpoint_at i a) f (fresh_checkpoint i a n h) cps) j b =
    (if j = i \<and> b = a then Some (n, h) else head_in cps j b)"
proof (cases "list_ex (checkpoint_at i a) cps")
  case True
  then have "head_in cps i a \<noteq> None" by (simp add: list_ex_find head_in_def)
  then show ?thesis using True head_in_move[OF assms] by (auto simp: upsert_def)
next
  case False
  then have "find (checkpoint_at i a) cps = None" by (simp add: list_ex_find)
  then show ?thesis using False
    by (auto simp: upsert_def head_in_def find_append fresh_checkpoint_def checkpoint_at_def split: option.splits)
qed

lemma checkpoint_head: "checkpoint db i c = Inr k \<Longrightarrow>
  head_of db i (toLowerCase c) = map_option (\<lambda>x. (ck_number x, ck_hash x)) k"
  by (auto simp: checkpoint_def value_Inr head_of_def split: option.splits)

definition new_block :: "int \<Rightarrow> string \<Rightarrow> chain_block \<Rightarrow> nat \<Rightarrow> block_row" where
  "new_block i a block k = \<lparr>br_chain = i, br_contract = a, br_number = bk_number block, br_hash = toLowerCase (bk_hash block),
     br_parent = toLowerCase (bk_parentHash block), br_timestamp = toString (bk_timestamp block),
     br_logs = int k, br_canonical = True\<rparr>"

text \<open>The two ways \<open>recordCanonicalBlock\<close> succeeds: a replay of the checkpoint's block, or its child.\<close>

lemma record_block_cases:
  assumes "record_block db i a current block es = Inr bs" and inv: "blocks_inv db"
    and k: "head_of db i a = map_option (\<lambda>x. (ck_number x, ck_hash x)) current"
  shows "bs = chain_blocks db \<and> (\<exists>c. current = Some c \<and> bk_number block = ck_number c) \<or>
    (\<forall>c. current = Some c \<longrightarrow> bk_number block = ck_number c + 1 \<and> toLowerCase (bk_parentHash block) = ck_hash c) \<and>
    (\<forall>j b. canon bs j b = (if j = i \<and> b = a then insert (new_block i a block (length es)) (canon (chain_blocks db) i a)
       else canon (chain_blocks db) j b)) \<and>
    (\<forall>b\<in>set bs. b \<in> set (chain_blocks db) \<or> b = new_block i a block (length es))"
proof -
  let ?C = "canon (chain_blocks db) i a" and ?new = "new_block i a block (length es)"
  have ch: "chained ?C (head_of db i a)" using inv by (simp add: blocks_inv_def)
  have low: "toLowerCase (ck_hash c) = ck_hash c" if cur: "current = Some c" for c
  proof -
    obtain b where "b \<in> ?C" "br_hash b = ck_hash c" using ch unfolding k cur by auto
    then show ?thesis using inv by (auto simp: canon_def blocks_inv_def block_ok_def lower_def)
  qed
  show ?thesis
  proof (cases "find_canonical db i a (bk_number block)")
    case (Some b)
    then have b: "b \<in> ?C" "br_number b = bk_number block"
      using find_SomeD[OF Some[unfolded find_canonical_def]] by (auto simp: canon_def)
    then obtain c where c: "current = Some c" using ch k by (cases current) auto
    then have "bk_number block \<le> ck_number c" using ch k b by (auto dest!: arg_cong[where f = "\<lambda>S. br_number b \<in> S"])
    moreover have "bs = chain_blocks db" "\<not> bk_number block < ck_number c"
      using assms(1) Some c by (auto simp: record_block_def bind_r_Inr split: if_splits)
    ultimately show ?thesis using c by auto
  next
    case None
    let ?f = "\<lambda>b. b\<lparr>br_parent := br_parent ?new, br_timestamp := br_timestamp ?new, br_logs := br_logs ?new,
      br_canonical := True\<rparr>"
    have bs: "bs = upsert (same_block i a (br_number ?new) (br_hash ?new)) ?f ?new (chain_blocks db)"
      and lk: "\<forall>c. current = Some c \<longrightarrow> bk_number block = ck_number c + 1 \<and>
        toLowerCase (bk_parentHash block) = toLowerCase (ck_hash c)"
      using assms(1) None by (auto simp: record_block_def Let_def new_block_def split: if_splits)
    have free: "br_number b \<noteq> br_number ?new" if "b \<in> ?C" for b
      using None that by (auto simp: find_canonical_def find_None_iff canon_def new_block_def)
    have new: "canonical_at i a ?new" "same_block i a (br_number ?new) (br_hash ?new) ?new"
      by (simp_all add: new_block_def canonical_at_def same_block_def)
    have f: "?f b = ?new" if "same_block i a (br_number ?new) (br_hash ?new) b" for b
      using that by (cases b) (simp add: new_block_def same_block_def)
    have "\<forall>b\<in>set bs. b \<in> set (chain_blocks db) \<or> b = ?new"
      using f by (auto simp: bs upsert_def in_update_where)
    moreover have "\<forall>j b. canon bs j b = (if j = i \<and> b = a then insert ?new ?C else canon (chain_blocks db) j b)"
      unfolding bs by (intro allI canon_upsert new f free)
    moreover have "\<forall>c. current = Some c \<longrightarrow> bk_number block = ck_number c + 1 \<and> toLowerCase (bk_parentHash block) = ck_hash c"
      using lk low by simp
    ultimately show ?thesis by blast
  qed
qed

lemma record_block_keys:
  assumes "record_block db i a current block es = Inr bs" "blocks_inv db"
  shows "distinct (map block_key bs)"
  using assms
  by (auto simp: record_block_def Let_def bind_r_Inr blocks_inv_def same_block_def block_key_def intro!: distinct_upsert
      split: option.splits if_splits)

lemma recordCanonicalBlock_Inr:
  assumes "recordCanonicalBlock db i c block es target w = Inr r"
  obtains current bs evs cps where "checkpoint db i c = Inr current"
    "record_block db i (toLowerCase c) current block (event_order es) = Inr bs"
    "require_target i (toLowerCase c) target (advance_checkpoint i (toLowerCase c) block current (chain_checkpoints db)) = Inr cps"
    "fst r = db\<lparr>chain_blocks := bs, chain_events := evs, chain_checkpoints := cps\<rparr>"
    "map_option ls_owner (find_lease db i (toLowerCase c)) = w" "0 \<le> bk_number block" "bk_number block \<le> MAX_SAFE_INTEGER"
  using assms
  by (auto simp: recordCanonicalBlock_def value_Inr assertSyncOwner_def Let_def split: prod.splits if_splits)

lemma require_target_Inr:
  assumes "require_target i a target cps = Inr cps'"
  shows "head_in cps' j b = head_in cps j b" "(\<forall>k\<in>set cps. checkpoint_ok k) \<Longrightarrow> \<forall>k\<in>set cps'. checkpoint_ok k"
proof -
  have f: "checkpoint_ok (raise_target m k)" "cp_chain (raise_target m k) = cp_chain k \<and>
    cp_contract (raise_target m k) = cp_contract k \<and> cp_number (raise_target m k) = cp_number k \<and>
    cp_hash (raise_target m k) = cp_hash k" if "checkpoint_ok k" for m k
    using raise_target_change[of m] that by (auto simp: health_change_def checkpoint_ok_def)
  show "head_in cps' j b = head_in cps j b"
    using assms raise_target_change
    by (auto simp: require_target_def bind_r_Inr health_change_def intro!: head_in_update split: option.splits if_splits)
  show "(\<forall>k\<in>set cps. checkpoint_ok k) \<Longrightarrow> \<forall>k\<in>set cps'. checkpoint_ok k"
    using assms f(1) by (auto simp: require_target_def bind_r_Inr in_update_where split: option.splits if_splits)
qed

lemma advance_checkpoint_head:
  "head_in (advance_checkpoint i a block current cps) j b =
    (if (\<forall>k. current = Some k \<longrightarrow> bk_number block > ck_number k) \<and> j = i \<and> b = a
     then Some (bk_number block, toLowerCase (bk_hash block)) else head_in cps j b)"
  by (auto simp: advance_checkpoint_def head_in_upsert split: option.splits)

lemma advance_checkpoint_ok:
  "\<forall>k\<in>set cps. checkpoint_ok k \<Longrightarrow> \<forall>k\<in>set (advance_checkpoint i a block current cps). checkpoint_ok k"
  by (auto simp: advance_checkpoint_def upsert_def in_update_where checkpoint_ok_moved(3) fresh_checkpoint_def
      checkpoint_ok_def[of "\<lparr>cp_chain = _, cp_contract = _, cp_number = _, cp_hash = _, cp_projected = _,
        cp_projectedHash = _, cp_healthy = _, cp_error = _, cp_target = _\<rparr>"] health_valid_def)

lemma require_target_keys:
  "require_target i a target cps = Inr cps' \<Longrightarrow> distinct (map checkpoint_key cps) \<Longrightarrow> distinct (map checkpoint_key cps')"
  by (auto simp: require_target_def bind_r_Inr keys_update_where raise_target_def checkpoint_key_def
      split: option.splits if_splits)

lemma advance_checkpoint_keys:
  "distinct (map checkpoint_key cps) \<Longrightarrow> distinct (map checkpoint_key (advance_checkpoint i a block current cps))"
  by (auto simp: advance_checkpoint_def checkpoint_at_key fresh_checkpoint_def checkpoint_key_def intro!: distinct_upsert)

lemma projections_inv_grow:
  assumes "projections_inv db" "product_projections db' = product_projections db"
    and "\<forall>j b. canon (chain_blocks db) j b \<subseteq> canon (chain_blocks db') j b"
  shows "projections_inv db'"
  unfolding projections_inv_def assms(2)
proof
  fix x assume "x \<in> set (product_projections db)"
  then obtain q where "q \<in> canon (chain_blocks db) (pr_chain x) (pr_contract x)"
    "br_number q = pr_number x \<and> br_hash q = pr_hash x" using assms(1) by (auto simp: projections_inv_def)
  then show "\<exists>b\<in>canon (chain_blocks db') (pr_chain x) (pr_contract x). br_number b = pr_number x \<and> br_hash b = pr_hash x"
    using assms(3) by blast
qed

lemma recordCanonicalBlock_inv:
  assumes inv: "chain_store_inv dp db" and r: "recordCanonicalBlock db i c block es target w = Inr r"
  shows "chain_store_inv dp (fst r)"
proof -
  let ?a = "toLowerCase c" and ?new = "new_block i (toLowerCase c) block (length (event_order es))"
  from r obtain current bs evs cps where k: "checkpoint db i c = Inr current"
    and rb: "record_block db i ?a current block (event_order es) = Inr bs"
    and rt: "require_target i ?a target (advance_checkpoint i ?a block current (chain_checkpoints db)) = Inr cps"
    and db': "fst r = db\<lparr>chain_blocks := bs, chain_events := evs, chain_checkpoints := cps\<rparr>"
    and safe: "0 \<le> bk_number block" "bk_number block \<le> MAX_SAFE_INTEGER"
    by (rule recordCanonicalBlock_Inr) blast
  have bi: "blocks_inv db" and ok: "\<forall>k\<in>set (chain_checkpoints db). checkpoint_ok k"
    using inv by (simp_all add: chain_store_inv_def)
  have ok': "\<forall>k\<in>set cps. checkpoint_ok k" using require_target_Inr(2)[OF rt] advance_checkpoint_ok[OF ok] by blast
  have head: "head_of (fst r) j b = (if (\<forall>k. current = Some k \<longrightarrow> bk_number block > ck_number k) \<and> j = i \<and> b = ?a
      then Some (bk_number block, toLowerCase (bk_hash block)) else head_of db j b)" for j b
  proof -
    have "head_of (fst r) j b = head_in (advance_checkpoint i ?a block current (chain_checkpoints db)) j b"
      using require_target_Inr(1)[OF rt, of j b] by (simp add: head_of_in db')
    then show ?thesis by (simp only: advance_checkpoint_head head_of_in)
  qed
  have hd: "head_of db i ?a = map_option (\<lambda>x. (ck_number x, ck_hash x)) current" using checkpoint_head[OF k] .
  have new: "br_number ?new = bk_number block" "br_hash ?new = toLowerCase (bk_hash block)"
    "br_parent ?new = toLowerCase (bk_parentHash block)" by (simp_all add: new_block_def)
  from record_block_cases[OF rb bi hd]
  have "blocks_inv (fst r) \<and> (\<forall>j b. canon (chain_blocks db) j b \<subseteq> canon bs j b)"
  proof (elim disjE conjE exE)
    fix k assume "bs = chain_blocks db" "current = Some k" "bk_number block = ck_number k"
    then show ?thesis using bi head by (simp add: blocks_inv_def db')
  next
    assume lk: "\<forall>k. current = Some k \<longrightarrow> bk_number block = ck_number k + 1 \<and> toLowerCase (bk_parentHash block) = ck_hash k"
      and cn: "\<forall>j b. canon bs j b = (if j = i \<and> b = ?a then insert ?new (canon (chain_blocks db) i ?a) else canon (chain_blocks db) j b)"
      and mem: "\<forall>b\<in>set bs. b \<in> set (chain_blocks db) \<or> b = ?new"
    have "chained (canon (chain_blocks db) i ?a) (head_of db i ?a)" using bi by (simp add: blocks_inv_def)
    then have "chained (insert ?new (canon (chain_blocks db) i ?a)) (Some (br_number ?new, br_hash ?new))"
      by (rule chained_extend) (use lk new hd in auto)
    then have "chained (canon bs j b) (head_of (fst r) j b)" for j b
      using bi cn lk head[of j b] new(1,2) by (cases "j = i \<and> b = ?a") (auto simp: blocks_inv_def)
    moreover have "block_ok b" if "b \<in> set bs" for b
      using mem that bi new safe by (auto simp: blocks_inv_def block_ok_def)
    ultimately show ?thesis using cn record_block_keys[OF rb bi] by (auto simp: blocks_inv_def db')
  qed
  moreover from this have "projections_inv (fst r)"
    using inv projections_inv_grow[of db "fst r"] by (simp add: chain_store_inv_def db')
  ultimately have "blocks_inv (fst r)" "projections_inv (fst r)" by blast+
  moreover have "keys_inv (fst r)"
    using inv require_target_keys[OF rt] advance_checkpoint_keys by (simp add: chain_store_inv_def keys_inv_def db')
  ultimately show ?thesis using inv ok' by (simp add: chain_store_inv_def db')
qed

section \<open>Rolling back\<close>

lemma last_canonical_None: "last_canonical i a bs = None \<longleftrightarrow> canon bs i a = {}"
proof -
  let ?L = "sort_key br_number (filter (canonical_at i a) bs)"
  have "set ?L = canon bs i a" by (auto simp: canon_def)
  moreover have "last_canonical i a bs = None \<longleftrightarrow> ?L = []" by (simp add: last_canonical_def split: list.splits)
  ultimately show ?thesis by (metis set_empty)
qed

lemma last_canonical_Some:
  assumes "last_canonical i a bs = Some b"
  shows "b \<in> canon bs i a \<and> (\<forall>x\<in>canon bs i a. br_number x \<le> br_number b)"
proof -
  let ?L = "sort_key br_number (filter (canonical_at i a) bs)"
  from assms obtain xs where "rev ?L = b # xs" by (auto simp: last_canonical_def split: list.splits)
  then have L: "?L = rev xs @ [b]" by (metis rev.simps(2) rev_rev_ident)
  have "set ?L = canon bs i a" by (auto simp: canon_def)
  moreover have "sorted (map br_number ?L)" by simp
  ultimately show ?thesis unfolding L by (auto simp: sorted_append)
qed

lemma chained_restrict:
  assumes C: "chained C (Some (n, h))" and b: "b \<in> C" "br_number b < m"
    and max: "\<forall>x\<in>C. br_number x < m \<longrightarrow> br_number x \<le> br_number b"
  shows "chained {x \<in> C. br_number x < m} (Some (br_number b, br_hash b))"
proof -
  from C obtain lo where lo: "br_number ` C = {lo..n}" "inj_on br_number C" "links C" by auto
  have "br_number ` {x \<in> C. br_number x < m} = {lo..br_number b}"
  proof (intro set_eqI iffI)
    fix y assume "y \<in> br_number ` {x \<in> C. br_number x < m}"
    then show "y \<in> {lo..br_number b}" using lo(1) max by fastforce
  next
    fix y assume "y \<in> {lo..br_number b}"
    moreover have "br_number b \<le> n" using lo(1) b(1) by fastforce
    ultimately have "y \<in> br_number ` C" "y < m" using lo(1) b(2) by auto
    then show "y \<in> br_number ` {x \<in> C. br_number x < m}" by auto
  qed
  moreover have "lo \<le> br_number b" using lo(1) b(1) by fastforce
  ultimately show ?thesis using lo(2,3) b by (auto simp: links_def inj_on_def)
qed

lemma canon_rollback:
  "canon (update_where (\<lambda>b. canonical_at i a b \<and> n \<le> br_number b) (\<lambda>b. b\<lparr>br_canonical := False\<rparr>) bs) j c =
    (if j = i \<and> c = a then {b \<in> canon bs i a. br_number b < n} else canon bs j c)"
proof -
  let ?P = "\<lambda>b. canonical_at i a b \<and> n \<le> br_number b" and ?f = "\<lambda>b. b\<lparr>br_canonical := False\<rparr>"
  have f: "\<not> canonical_at j c (?f b)" for j c b by (simp add: canonical_at_def)
  have "x \<in> canon (update_where ?P ?f bs) j c \<longleftrightarrow> x \<in> canon bs j c \<and> \<not> ?P x" for x
    using f by (auto simp: canon_def in_update_where)
  moreover have "canonical_at i a x \<longleftrightarrow> j = i \<and> c = a" if "x \<in> canon bs j c" for x
    using that by (auto simp: canon_def canonical_at_def)
  ultimately show ?thesis by auto
qed

lemma reorg_evidence:
  assumes "evidence_ok dp r" "rolled_back i a n r"
  shows "evidence_ok dp (reorg_operation r)"
  using assms
  by (cases "op_state r") (auto simp: evidence_ok_def rolled_back_def reorg_operation_def blockWith_def)

lemma reorg_operations_inv:
  assumes "operations_inv dp rs"
  shows "operations_inv dp (update_where (rolled_back i a n) reorg_operation rs)"
proof -
  define g where "g r = (if rolled_back i a n r then reorg_operation r else r)" for r
  have u: "update_where (rolled_back i a n) reorg_operation rs = map g rs"
    by (simp add: update_where_def g_def)
  have g: "operationId (g r) = operationId r" "transactionIndex (g r) = transactionIndex r" for r
    by (simp_all add: g_def reorg_operation_def)
  have c: "claims_transaction (g r) (g s) \<Longrightarrow> claims_transaction r s" for r s
    by (simp add: g_def reorg_operation_def claims_transaction_def split: if_splits)
  have e: "evidence_ok dp (g r)" if "r \<in> set rs" for r
    using assms that reorg_evidence by (simp add: operations_inv_def g_def)
  have "operationId \<circ> g = operationId" by (simp add: fun_eq_iff g)
  then show ?thesis using assms e c unfolding operations_inv_def u by (simp add: g) blast
qed

lemma rollbackFromBlock_Inr:
  assumes "rollbackFromBlock db i c n w = Inr r"
  obtains bs evs where
    "bs = update_where (\<lambda>b. canonical_at i (toLowerCase c) b \<and> n \<le> br_number b) (\<lambda>b. b\<lparr>br_canonical := False\<rparr>) (chain_blocks db)"
    "fst r = db\<lparr>chain_blocks := bs, chain_events := evs,
       chain_transactions := update_where (rolled_back i (toLowerCase c) n) reorg_operation (chain_transactions db),
       product_projections := filter (\<lambda>r. \<not> projection_of i (toLowerCase c) r) (product_projections db),
       chain_checkpoints := (case last_canonical i (toLowerCase c) bs of
           Some b \<Rightarrow> update_where (checkpoint_at i (toLowerCase c)) (\<lambda>c. c\<lparr>cp_number := br_number b, cp_hash := br_hash b,
             cp_projected := None, cp_projectedHash := None\<rparr>) (chain_checkpoints db)
         | None \<Rightarrow> filter (\<lambda>k. \<not> checkpoint_at i (toLowerCase c) k) (chain_checkpoints db))\<rparr>"
    "map_option ls_owner (find_lease db i (toLowerCase c)) = w"
  using assms by (auto simp: rollbackFromBlock_def value_Inr assertSyncOwner_def Let_def split: if_splits)

lemma head_in_delete: "head_in (filter (\<lambda>c. \<not> checkpoint_at i a c) cps) j b = (if j = i \<and> b = a then None else head_in cps j b)"
  by (induction cps) (auto simp: head_in_def checkpoint_at_def)

lemma rollbackFromBlock_inv:
  assumes inv: "chain_store_inv dp db" and r: "rollbackFromBlock db i c n w = Inr r"
  shows "chain_store_inv dp (fst r)"
proof -
  let ?a = "toLowerCase c" and ?C = "canon (chain_blocks db) i (toLowerCase c)"
  from r obtain bs evs where
    bs: "bs = update_where (\<lambda>b. canonical_at i ?a b \<and> n \<le> br_number b) (\<lambda>b. b\<lparr>br_canonical := False\<rparr>) (chain_blocks db)"
    and db': "fst r = db\<lparr>chain_blocks := bs, chain_events := evs,
       chain_transactions := update_where (rolled_back i ?a n) reorg_operation (chain_transactions db),
       product_projections := filter (\<lambda>r. \<not> projection_of i ?a r) (product_projections db),
       chain_checkpoints := (case last_canonical i ?a bs of
           Some b \<Rightarrow> update_where (checkpoint_at i ?a) (\<lambda>c. c\<lparr>cp_number := br_number b, cp_hash := br_hash b,
             cp_projected := None, cp_projectedHash := None\<rparr>) (chain_checkpoints db)
         | None \<Rightarrow> filter (\<lambda>k. \<not> checkpoint_at i ?a k) (chain_checkpoints db))\<rparr>" by (rule rollbackFromBlock_Inr) blast
  have bi: "blocks_inv db" and ok: "\<forall>k\<in>set (chain_checkpoints db). checkpoint_ok k"
    using inv by (simp_all add: chain_store_inv_def)
  have cn: "canon bs j b = (if j = i \<and> b = ?a then {x \<in> ?C. br_number x < n} else canon (chain_blocks db) j b)" for j b
    unfolding bs by (rule canon_rollback)
  have low: "\<forall>b\<in>set bs. block_ok b"
    using bi by (auto simp: bs in_update_where blocks_inv_def block_ok_def)
  have "\<forall>j b. chained (canon bs j b) (head_of (fst r) j b)" "\<forall>k\<in>set (chain_checkpoints (fst r)). checkpoint_ok k"
  proof (atomize (full), cases "last_canonical i ?a bs")
    case None
    then have "{x \<in> ?C. br_number x < n} = {}" using last_canonical_None[of i ?a bs] cn[of i ?a] by simp
    then show "(\<forall>j b. chained (canon bs j b) (head_of (fst r) j b)) \<and> (\<forall>k\<in>set (chain_checkpoints (fst r)). checkpoint_ok k)"
      using None ok bi cn by (simp add: head_of_in db' head_in_delete blocks_inv_def)
  next
    case (Some b)
    then have b: "b \<in> ?C" "br_number b < n" and top: "\<forall>x\<in>?C. br_number x < n \<longrightarrow> br_number x \<le> br_number b"
      using last_canonical_Some[OF Some] cn[of i ?a] by auto
    have ch0: "chained ?C (head_of db i ?a)" using bi by (simp add: blocks_inv_def)
    obtain N h where nh: "head_of db i ?a = Some (N, h)" using ch0 b(1) by (cases "head_of db i ?a") auto
    have ch: "chained ?C (Some (N, h))" using ch0 by (simp only: nh)
    have l: "lower (br_hash b)" using b(1) bi by (auto simp: canon_def blocks_inv_def block_ok_def)
    have hd: "head_of (fst r) j d = (if j = i \<and> d = ?a then Some (br_number b, br_hash b) else head_of db j d)" for j d
      using nh by (simp add: head_of_in db' Some head_in_move[where n = "br_number b" and h = "br_hash b"])
    have "chained (canon bs j d) (head_of (fst r) j d)" for j d
      using chained_restrict[OF ch b top] bi cn[of j d] hd[of j d] by (simp add: blocks_inv_def)
    moreover have "\<forall>k\<in>set (chain_checkpoints (fst r)). checkpoint_ok k"
      using ok l by (auto simp: db' Some in_update_where checkpoint_ok_moved(2))
    ultimately show "(\<forall>j b. chained (canon bs j b) (head_of (fst r) j b)) \<and> (\<forall>k\<in>set (chain_checkpoints (fst r)). checkpoint_ok k)"
      by blast
  qed
  moreover have "projections_inv (fst r)"
    using inv cn by (auto simp: chain_store_inv_def projections_inv_def db' projection_of_def)
  moreover have "operations_inv dp (chain_transactions (fst r))"
    using inv reorg_operations_inv by (simp add: chain_store_inv_def db')
  moreover have "distinct (map block_key bs)"
  proof -
    have "block_key \<circ> (\<lambda>b. if canonical_at i ?a b \<and> n \<le> br_number b then b\<lparr>br_canonical := False\<rparr> else b) = block_key"
      by (auto simp: block_key_def)
    then show ?thesis using bi by (simp add: bs update_where_def blocks_inv_def)
  qed
  moreover have "keys_inv (fst r)"
    using inv by (simp add: chain_store_inv_def keys_inv_def db' keys_update_where checkpoint_key_def distinct_filter_keys
        split: option.split)
  ultimately show ?thesis using low by (simp add: chain_store_inv_def blocks_inv_def db')
qed

section \<open>Every command\<close>

lemma store_start_inv: "chain_store_start db \<Longrightarrow> chain_store_inv dp db"
  by (simp add: chain_store_start_def empty_chain_db_def chain_store_inv_def blocks_inv_def projections_inv_def operations_inv_def
      keys_inv_def canon_def head_of_in head_in_def)

lemma store_step_inv:
  assumes "chain_store_inv dp db" "chain_store_step dp db x = Inr db'"
  shows "chain_store_inv dp db'"
proof (cases x)
  case (Claim_Sync i c t w)
  then show ?thesis using assms(2) health_step_inv[OF claimSync_health assms(1)] by simp
next
  case (Mark_Unhealthy i c e t w)
  then show ?thesis using assms(2) health_step_inv[OF markSyncUnhealthy_health assms(1)] by simp
next
  case (Mark_Healthy i c t w)
  then obtain r where "markSyncHealthy db i c t w = Inr r" "db' = fst r" using assms(2) by (auto simp: bind_r_Inr)
  then show ?thesis using health_step_inv[OF markSyncHealthy_health assms(1)] by blast
next
  case (Release_Incomplete i c t w)
  then show ?thesis using assms(2) health_step_inv[OF releaseSyncIncomplete_health assms(1)] by simp
next
  case (Record_Block i c b es t w)
  then obtain r where "recordCanonicalBlock db i c b es t w = Inr r" "db' = fst r"
    using assms(2) by (auto simp: bind_r_Inr)
  then show ?thesis using recordCanonicalBlock_inv[OF assms(1)] by blast
next
  case (Save_Operation p)
  then show ?thesis using assms(2) saveOperation_inv[OF assms(1)] by simp
next
  case (Save_At_Checkpoint p e k)
  then show ?thesis using assms(2) saveOperationAtCheckpoint_inv[OF assms(1)] by simp
next
  case (Commit_Projections i c b ps w)
  then show ?thesis using assms(2) commitProjections_inv[OF assms(1)] by simp
next
  case (Roll_Back i c n w)
  then obtain r where "rollbackFromBlock db i c n w = Inr r" "db' = fst r" using assms(2) by (auto simp: bind_r_Inr)
  then show ?thesis using rollbackFromBlock_inv[OF assms(1)] by blast
qed

interpretation chain_machine: guarded_machine chain_store_start "chain_store_step dp" "chain_store_inv dp"
  by unfold_locales (auto intro: store_start_inv store_step_inv)

end
