(* ===== verification/Chain_Store_Properties.thy ===== *)
theory Chain_Store_Properties
  imports Chain_Store_Invariant
begin

text \<open>
  What the chain store promises, from the invariant of its databases: one chain of blocks per contract, which the
  evidence for the product may rely on; a writer whose lease was taken over changes nothing; the operations of
  \<open>Chain_Lifecycle\<close> are accepted, and a stored one is never without the evidence of its state.
\<close>

section \<open>The canonical chain\<close>

definition canonical_blocks :: "chain_db \<Rightarrow> int \<Rightarrow> string \<Rightarrow> block_row list" where
  "canonical_blocks db i a = sort_key br_number (filter (canonical_at i a) (chain_blocks db))"

lemma set_canonical_blocks: "set (canonical_blocks db i a) = canon (chain_blocks db) i a"
  by (auto simp: canonical_blocks_def canon_def)

lemma sorted_numbers:
  assumes inj: "inj_on br_number (set bs)" and d: "distinct bs" and s: "br_number ` set bs = {lo..hi}"
  shows "map br_number (sort_key br_number bs) = [lo..hi]"
proof -
  have "distinct (map br_number (sort_key br_number bs))" using inj d by (simp add: distinct_map)
  moreover have "set (map br_number (sort_key br_number bs)) = set [lo..hi]" using s by simp
  ultimately show ?thesis by (intro sorted_distinct_set_unique) simp_all
qed

lemma reachable_blocks: "reaches chain_store_start (chain_store_step dp) db \<Longrightarrow> blocks_inv db"
  using chain_machine.reachable_inv by (simp add: chain_store_inv_def)

lemma blocks_chained:
  assumes "blocks_inv db" "find_checkpoint db i a = Some c"
  obtains lo top where "inj_on br_number (canon (chain_blocks db) i a)" "links (canon (chain_blocks db) i a)"
    "lo \<le> cp_number c" "br_number ` canon (chain_blocks db) i a = {lo..cp_number c}"
    "top \<in> canon (chain_blocks db) i a" "br_number top = cp_number c" "br_hash top = cp_hash c"
proof -
  have "chained (canon (chain_blocks db) i a) (head_of db i a)" using assms(1) by (simp add: blocks_inv_def)
  then show thesis using that assms(2) by (auto simp: head_of_def)
qed

lemma distinct_canonical: "blocks_inv db \<Longrightarrow> distinct (filter P (chain_blocks db))"
  by (auto simp: blocks_inv_def distinct_map)

lemma linked_list:
  assumes "links C" "set L \<subseteq> C" "map br_number L = [lo..hi]" "Suc k < length L"
  shows "br_parent (L ! Suc k) = br_hash (L ! k)"
proof -
  have n: "br_number (L ! j) = lo + int j" if "j < length L" for j
  proof -
    have "length L = length [lo..hi]" using assms(3) by (metis length_map)
    then have "br_number (L ! j) = [lo..hi] ! j" using assms(3) that by (metis nth_map)
    moreover have "lo + int j \<le> hi" using that \<open>length L = length [lo..hi]\<close> by simp
    ultimately show ?thesis by simp
  qed
  have "L ! k \<in> C" "L ! Suc k \<in> C" using assms(2,4) by auto
  then show ?thesis using assms(1,4) n[of k] n[of "Suc k"] by (simp add: links_def)
qed

text \<open>C5: In every database the store can reach, the canonical blocks of a contract on a chain have consecutive numbers,
  each names its predecessor as its parent, and the last is the block of the checkpoint; without a checkpoint there
  are none.\<close>

theorem canonical_chain:
  assumes "reaches chain_store_start (chain_store_step dp) db"
  shows "case find_checkpoint db i a of None \<Rightarrow> canonical_blocks db i a = []
    | Some c \<Rightarrow> (\<exists>lo\<le>cp_number c. map br_number (canonical_blocks db i a) = [lo..cp_number c]) \<and>
        br_hash (last (canonical_blocks db i a)) = cp_hash c \<and>
        (\<forall>k. Suc k < length (canonical_blocks db i a) \<longrightarrow>
           br_parent (canonical_blocks db i a ! Suc k) = br_hash (canonical_blocks db i a ! k))"
proof (cases "find_checkpoint db i a")
  case None
  have "chained (canon (chain_blocks db) i a) (head_of db i a)"
    using reachable_blocks[OF assms] by (simp add: blocks_inv_def)
  then have "set (canonical_blocks db i a) = {}" using None by (simp add: set_canonical_blocks head_of_def)
  then show ?thesis using None by simp
next
  case (Some c)
  let ?L = "canonical_blocks db i a"
  have bi: "blocks_inv db" using reachable_blocks[OF assms] .
  from blocks_chained[OF bi Some] obtain lo top where C: "inj_on br_number (set ?L)" "links (set ?L)"
    "lo \<le> cp_number c" "br_number ` set ?L = {lo..cp_number c}" and top: "top \<in> set ?L" "br_number top = cp_number c"
    "br_hash top = cp_hash c" unfolding set_canonical_blocks by blast
  have m: "map br_number ?L = [lo..cp_number c]"
    using C(1,4) sorted_numbers[OF _ distinct_canonical[OF bi]] unfolding canonical_blocks_def by simp
  have "?L \<noteq> []" using top(1) by auto
  then have "br_number (last ?L) = last [lo..cp_number c]" by (metis last_map m)
  also have "\<dots> = cp_number c" using C(3) by (simp add: upto_rec2)
  finally have "last ?L = top" using C(1) top \<open>?L \<noteq> []\<close> by (metis inj_onD last_in_set)
  then show ?thesis using Some m C(3) top(3) linked_list[OF C(2) subset_refl m] by auto
qed

section \<open>The walk from an operation to the checkpoint\<close>

definition block_at :: "chain_db \<Rightarrow> int \<Rightarrow> string \<Rightarrow> int \<Rightarrow> string \<Rightarrow> bool" where
  "block_at db i a n h \<longleftrightarrow> (case find_canonical db i a n of None \<Rightarrow> False | Some b \<Rightarrow> sameHash (br_hash b) h)"

definition hash_typed :: "block_row \<Rightarrow> bool" where
  "hash_typed b \<longleftrightarrow> hex_digits 64 (br_hash b) \<and> hex_digits 64 (br_parent b)"

lemma asBlockHash_ok: "hex_digits 64 h \<Longrightarrow> lift_chain (asBlockHash h) = Inr h"
  by (simp add: value_Inr)

lemma ancestry_loop_walk:
  assumes "map br_number bs = [start + observed..stop]" "\<forall>b\<in>set bs. hash_typed b"
    and "\<And>k. Suc k < length bs \<Longrightarrow> br_parent (bs ! Suc k) = br_hash (bs ! k)"
    and "\<And>q. previous = Some q \<Longrightarrow> hex_digits 64 q \<and> (bs \<noteq> [] \<longrightarrow> br_parent (hd bs) = q)"
    and "0 \<le> observed" "(previous = None) = (observed = 0)"
  shows "ancestry_loop start h p bs observed previous witnessed =
    Inr (if observed = 0 \<and> bs \<noteq> [] \<and> \<not> sameHash (br_hash (hd bs)) h then None
      else Some (observed + int (length bs), if bs = [] then previous else Some (br_hash (last bs)),
        case find (\<lambda>b. br_number b = pj_blockNumber p) bs of None \<Rightarrow> witnessed
        | Some b \<Rightarrow> sameHash (br_hash b) (pj_blockHash p)))"
  using assms
proof (induction bs arbitrary: observed previous witnessed)
  case (Cons b bs)
  have le: "start + observed \<le> stop" using Cons.prems(1) by (cases "start + observed \<le> stop") auto
  then have up: "[start + observed..stop] = (start + observed) # [start + (observed + 1)..stop]"
    by (simp add: upto_rec1 add.assoc)
  have n: "br_number b = start + observed" "map br_number bs = [start + (observed + 1)..stop]"
    using Cons.prems(1) unfolding up by simp_all
  have b: "hex_digits 64 (br_hash b)" "hex_digits 64 (br_parent b)" using Cons.prems(2) by (simp_all add: hash_typed_def)
  have nxt: "bs \<noteq> [] \<longrightarrow> br_parent (hd bs) = br_hash b" using Cons.prems(3)[of 0] by (cases bs) simp_all
  have "br_number x > br_number b" if "x \<in> set bs" for x
  proof -
    have "br_number x \<in> set (map br_number bs)" using that by simp
    then show ?thesis unfolding n by simp
  qed
  then have apart: "find (\<lambda>x. br_number x = pj_blockNumber p) bs = None" if "br_number b = pj_blockNumber p"
    using that by (fastforce simp: find_None_iff)
  let ?w = "if br_number b = pj_blockNumber p then sameHash (br_hash b) (pj_blockHash p) else witnessed"
  have link: "(case previous of None \<Rightarrow> Inr True
        | Some q \<Rightarrow> bind_r (lift_chain (asBlockHash (br_parent b))) (\<lambda>x.
            bind_r (lift_chain (asBlockHash q)) (\<lambda>y. Inr (sameHash x y)))) = Inr True"
    using Cons.prems(4) b(2) by (auto simp: asBlockHash_ok sameHash_def split: option.splits)
  have IH: "ancestry_loop start h p bs (observed + 1) (Some (br_hash b)) ?w =
    Inr (Some (observed + 1 + int (length bs), if bs = [] then Some (br_hash b) else Some (br_hash (last bs)),
        case find (\<lambda>b. br_number b = pj_blockNumber p) bs of None \<Rightarrow> ?w | Some b \<Rightarrow> sameHash (br_hash b) (pj_blockHash p)))"
    using Cons.IH[of "observed + 1" "Some (br_hash b)" ?w] n(2) Cons.prems(2,5) Cons.prems(3)[of "Suc _"] nxt b(1) by simp
  show ?case using IH apart b(1) n(1) by (auto simp: link asBlockHash_ok split: if_splits)
qed simp

lemma find_number:
  assumes "distinct (map br_number bs)" "b \<in> set bs"
  shows "find (\<lambda>x. br_number x = br_number b) bs = Some b"
  using assms by (induction bs) auto

lemma find_canonical_in:
  assumes "blocks_inv db" "b \<in> canon (chain_blocks db) i a"
  shows "find_canonical db i a (br_number b) = Some b"
proof (cases "find_canonical db i a (br_number b)")
  case None
  then show ?thesis using assms(2) by (auto simp: find_canonical_def find_None_iff canon_def)
next
  case (Some c)
  then have c: "c \<in> canon (chain_blocks db) i a" "br_number c = br_number b"
    using find_SomeD[OF Some[unfolded find_canonical_def]] by (auto simp: canon_def)
  have "chained (canon (chain_blocks db) i a) (head_of db i a)" using assms(1) by (simp add: blocks_inv_def)
  then have "inj_on br_number (canon (chain_blocks db) i a)" by (cases "head_of db i a") auto
  then show ?thesis using Some c assms(2) by (simp add: inj_on_eq_iff)
qed

text \<open>What the walk meets between an operation's block and the checkpoint.\<close>

lemma canonical_between_numbers:
  assumes bi: "blocks_inv db" and c: "find_checkpoint db i a = Some c" and le: "start \<le> cp_number c"
  obtains lo where "start \<le> lo" "lo \<le> cp_number c" "map br_number (canonical_between db i a start (cp_number c)) = [lo..cp_number c]"
    "find_canonical db i a start \<noteq> None \<longleftrightarrow> lo = start"
    "br_hash (last (canonical_between db i a start (cp_number c))) = cp_hash c"
    "set (canonical_between db i a start (cp_number c)) \<subseteq> canon (chain_blocks db) i a"
    "links (canon (chain_blocks db) i a)"
proof -
  let ?C = "canon (chain_blocks db) i a" and ?L = "canonical_between db i a start (cp_number c)"
  from blocks_chained[OF bi c] obtain lo0 top where C: "inj_on br_number ?C" "links ?C" "lo0 \<le> cp_number c"
    "br_number ` ?C = {lo0..cp_number c}" and top: "top \<in> ?C" "br_number top = cp_number c" "br_hash top = cp_hash c" .
  define lo where "lo = max start lo0"
  have L: "set ?L = {b \<in> ?C. start \<le> br_number b \<and> br_number b \<le> cp_number c}"
    by (auto simp: canonical_between_def canon_def)
  have img: "br_number ` set ?L = {lo..cp_number c}"
  proof (intro set_eqI iffI)
    fix y assume "y \<in> br_number ` set ?L"
    then show "y \<in> {lo..cp_number c}" using C(4) by (fastforce simp: L lo_def)
  next
    fix y assume y: "y \<in> {lo..cp_number c}"
    then have "y \<in> br_number ` ?C" using C(4) by (simp add: lo_def)
    then show "y \<in> br_number ` set ?L" using y by (auto simp: L lo_def)
  qed
  have inj: "inj_on br_number (set ?L)" using C(1) by (rule inj_on_subset) (auto simp: L)
  have m: "map br_number ?L = [lo..cp_number c]"
    using inj img sorted_numbers[OF _ distinct_canonical[OF bi]] unfolding canonical_between_def by simp
  have "top \<in> set ?L" using top le by (simp add: L)
  then have ne: "?L \<noteq> []" by auto
  have "br_number (last ?L) = last [lo..cp_number c]" using ne by (metis last_map m)
  also have "\<dots> = cp_number c" using C(3) le by (simp add: upto_rec2 lo_def)
  finally have last: "last ?L = top" using inj top \<open>top \<in> set ?L\<close> ne by (metis inj_onD last_in_set)
  have "find_canonical db i a start \<noteq> None \<longleftrightarrow> start \<in> br_number ` ?C"
    by (auto simp: find_canonical_def find_None_iff canon_def)
  also have "\<dots> \<longleftrightarrow> lo = start" using C(4) le by (auto simp: lo_def)
  finally show thesis using that[of lo] m last top(3) C(2,3) le L by (auto simp: lo_def)
qed

lemma walk_from_start:
  assumes bi: "blocks_inv db" and c: "find_checkpoint db i a = Some c" and ty: "\<forall>b\<in>set (chain_blocks db). hash_typed b"
    and le: "start \<le> pj_blockNumber p" "pj_blockNumber p \<le> cp_number c"
  shows "ancestry_loop start h p (canonical_between db i a start (cp_number c)) 0 None False =
    Inr (if block_at db i a start h
      then Some (cp_number c - start + 1, Some (cp_hash c), block_at db i a (pj_blockNumber p) (pj_blockHash p)) else None)"
proof -
  let ?L = "canonical_between db i a start (cp_number c)"
  have le': "start \<le> cp_number c" using le by simp
  from canonical_between_numbers[OF bi c le'] obtain lo where lo: "start \<le> lo" "lo \<le> cp_number c"
    and m: "map br_number ?L = [lo..cp_number c]" and st: "find_canonical db i a start \<noteq> None \<longleftrightarrow> lo = start"
    and last: "br_hash (last ?L) = cp_hash c" and sub: "set ?L \<subseteq> canon (chain_blocks db) i a"
    and lk: "links (canon (chain_blocks db) i a)" .
  have ne: "?L \<noteq> []" using m lo(2) by auto
  then have "br_number (hd ?L) = hd [lo..cp_number c]" by (metis hd_map m)
  then have hd: "br_number (hd ?L) = lo" using lo(2) by (simp add: upto_rec1)
  show ?thesis
  proof (cases "lo = start")
    case False
    then have "\<not> block_at db i a start h" using st by (simp add: block_at_def)
    moreover have "br_number (hd ?L) \<noteq> start" using hd False by simp
    ultimately show ?thesis using ne by (cases ?L) auto
  next
    case True
    have fc: "find_canonical db i a (br_number b) = Some b" if "b \<in> set ?L" for b
      using find_canonical_in[OF bi] sub that by blast
    have d: "distinct (map br_number ?L)" unfolding m by simp
    have "pj_blockNumber p \<in> set (map br_number ?L)" unfolding m using le True by simp
    then obtain b where b: "b \<in> set ?L" "br_number b = pj_blockNumber p" by auto
    have ends: "block_at db i a start h \<longleftrightarrow> sameHash (br_hash (hd ?L)) h"
      using fc[of "hd ?L"] hd True ne by (simp add: block_at_def)
    have proj: "block_at db i a (pj_blockNumber p) (pj_blockHash p) \<longleftrightarrow> sameHash (br_hash b) (pj_blockHash p)"
      using fc[OF b(1)] b(2) by (simp add: block_at_def)
    have len: "int (length ?L) = cp_number c - start + 1" using arg_cong[OF m, of length] lo(2) True by simp
    have ty': "\<forall>b\<in>set ?L. hash_typed b" using sub ty by (auto simp: canon_def)
    have "ancestry_loop start h p ?L 0 None False = Inr (if 0 = (0::int) \<and> ?L \<noteq> [] \<and> \<not> sameHash (br_hash (hd ?L)) h then None
      else Some (0 + int (length ?L), if ?L = [] then None else Some (br_hash (last ?L)),
        case find (\<lambda>b. br_number b = pj_blockNumber p) ?L of None \<Rightarrow> False
        | Some b \<Rightarrow> sameHash (br_hash b) (pj_blockHash p)))"
      by (rule ancestry_loop_walk[where stop = "cp_number c"])
        (use m True ty' linked_list[OF lk sub m] in simp_all)
    then show ?thesis using find_number[OF d b(1)] b(2) ends proj len last ne by simp
  qed
qed

text \<open>C22: In every reachable database the walk over at most 2000 canonical blocks that the store makes from an operation's
  block to its checkpoint decides exactly this: the operation is canonical, the projection is its own and lies between
  the two, and both the operation's and the projection's block hash are those of the canonical blocks at their heights.
  The blocks in between never stop it, and it never throws when the block hashes are well typed.\<close>

theorem ancestry_walk_decides:
  assumes "reaches chain_store_start (chain_store_step dp) db" and k: "checkpoint db (op_chainId p) (op_target p) = Inr (Some c)"
    and n: "op_blockNumber p = Some n" "0 \<le> n" and h: "op_blockHash p = Some h"
    and ty: "\<forall>b\<in>set (chain_blocks db). hash_typed b"
  shows "canonical_ancestry db p proj (Some c) = Inr (op_canonical p \<and> pj_chainId proj = op_chainId p \<and>
    sameAddress (pj_owner proj) (op_owner p) \<and> sameAddress (pj_contract proj) (op_target p) \<and>
    n \<le> pj_blockNumber proj \<and> pj_blockNumber proj \<le> ck_number c \<and> ck_number c - n + 1 \<le> 2000 \<and>
    block_at db (op_chainId p) (toLowerCase (op_target p)) n h \<and>
    block_at db (op_chainId p) (toLowerCase (op_target p)) (pj_blockNumber proj) (pj_blockHash proj))"
proof (cases "op_canonical p \<and> pj_chainId proj = op_chainId p \<and> sameAddress (pj_owner proj) (op_owner p) \<and>
    sameAddress (pj_contract proj) (op_target p) \<and> n \<le> pj_blockNumber proj \<and> pj_blockNumber proj \<le> ck_number c")
  case False
  then show ?thesis using n h by (auto simp: canonical_ancestry_def)
next
  case True
  let ?a = "toLowerCase (op_target p)"
  have bi: "blocks_inv db" using reachable_blocks[OF assms(1)] .
  from k obtain r where r: "find_checkpoint db (op_chainId p) ?a = Some r" "ck_number c = cp_number r" "ck_hash c = cp_hash r"
    and ok: "chainId (op_chainId p) = Inr (op_chainId p)" "normalizedAddress (op_target p) = Inr ?a" "hex_digits 64 (cp_hash r)"
    by (auto simp: checkpoint_def value_Inr split: option.splits)
  obtain top where "top \<in> set (chain_blocks db)" "br_number top = cp_number r"
    using blocks_chained[OF bi r(1)] by (auto simp: canon_def)
  then have "cp_number r \<le> MAX_SAFE_INTEGER" "0 \<le> cp_number r" using bi by (auto simp: blocks_inv_def block_ok_def)
  then have sn: "safeNumber n = Inr n" "safeNumber (cp_number r) = Inr (cp_number r)"
    using n(2) True r(2) by (simp_all add: value_Inr)
  have w: "ancestry_loop n h proj (canonical_between db (op_chainId p) ?a n (cp_number r)) 0 None False =
    Inr (if block_at db (op_chainId p) ?a n h then Some (cp_number r - n + 1, Some (cp_hash r),
      block_at db (op_chainId p) ?a (pj_blockNumber proj) (pj_blockHash proj)) else None)"
    by (rule walk_from_start[OF bi r(1) ty]) (use True r(2) in simp_all)
  show ?thesis using True n h sn ok r(2,3)
    by (simp add: canonical_ancestry_def w asBlockHash_ok sameHash_def MAX_PRODUCT_EVIDENCE_ANCESTRY_BLOCKS_def)
qed

section \<open>Product readiness\<close>

lemma canonical_ancestry_True:
  assumes "canonical_ancestry db p proj cp = Inr True"
  obtains n h c where "op_blockNumber p = Some n" "op_blockHash p = Some h" "cp = Some c" "0 \<le> n"
  using assms by (auto simp: canonical_ancestry_def value_Inr split: option.splits if_splits)

lemma projection_Some:
  assumes "projection db i ow c key = Inr (Some p)"
  obtains k r where "find_lease db i (toLowerCase c) = None" "find_checkpoint db i (toLowerCase c) = Some k" "cp_healthy k"
    "settled_checkpoint k" "find_projection db i (toLowerCase ow) (toLowerCase c) key = Some r"
    "pj_blockNumber p = pr_number r" "pj_blockHash p = pr_hash r"
  using assms
  by (auto simp: projection_def value_Inr Let_def read_projection_def split: option.splits if_splits json.splits sum.splits)

lemma operationEvidence_ready:
  assumes "operationEvidence db oid key = Inr (Some ev)" "pe_productReady ev"
  obtains p cp proj where "operation db oid = Inr (Some p)" "op_state p = CONFIRMED" "op_canonical p" "reconciled p"
    "checkpoint db (op_chainId p) (op_target p) = Inr cp"
    "projection db (op_chainId p) (op_owner p) (op_target p) key = Inr (Some proj)" "canonical_ancestry db p proj cp = Inr True"
proof -
  from assms(1) obtain p cp milestone ix error where p: "operation db oid = Inr (Some p)"
    "checkpoint db (op_chainId p) (op_target p) = Inr cp" "projection_milestone_of db p key cp ix = Inr milestone"
    "ev = evidence_of p milestone ix error"
    by (auto simp: operationEvidence_def bind_r_Inr Let_def split: option.splits)
  have r: "op_state p = CONFIRMED" "op_canonical p" "reconciled p" "milestone = Milestone_READY"
    using assms(2) p(4) by (auto simp: evidence_of_def reconciliation_of_def split: if_splits)
  then obtain proj where "projection db (op_chainId p) (op_owner p) (op_target p) key = Inr (Some proj)"
    "canonical_ancestry db p proj cp = Inr True"
    using p(3) by (auto simp: projection_milestone_of_def bind_r_Inr split: if_splits option.splits)
  then show thesis using that p(1,2) r(1-3) by blast
qed

text \<open>C7: When the store reports an operation as ready for the product, the operation is confirmed, canonical and
  reconciled, nobody is synchronising its contract, the checkpoint is healthy and fully projected, the operation's
  block is the canonical one at its height, and the projection shown to the user is anchored in a canonical block
  between the operation's and the checkpoint's.\<close>

theorem product_ready_sound:
  assumes "reaches chain_store_start (chain_store_step dp) db" "\<forall>b\<in>set (chain_blocks db). hash_typed b"
    and ev: "operationEvidence db oid key = Inr (Some ev)" "pe_productReady ev"
  shows "\<exists>p n h c r. operation db oid = Inr (Some p) \<and> op_state p = CONFIRMED \<and> op_canonical p \<and> reconciled p \<and>
    op_blockNumber p = Some n \<and> op_blockHash p = Some h \<and>
    find_lease db (op_chainId p) (toLowerCase (op_target p)) = None \<and>
    find_checkpoint db (op_chainId p) (toLowerCase (op_target p)) = Some c \<and> cp_healthy c \<and> settled_checkpoint c \<and>
    find_projection db (op_chainId p) (toLowerCase (op_owner p)) (toLowerCase (op_target p)) key = Some r \<and>
    block_at db (op_chainId p) (toLowerCase (op_target p)) n h \<and>
    block_at db (op_chainId p) (toLowerCase (op_target p)) (pr_number r) (pr_hash r) \<and>
    n \<le> pr_number r \<and> pr_number r \<le> cp_number c"
proof -
  from operationEvidence_ready[OF ev] obtain p cp proj where
    p: "operation db oid = Inr (Some p)" "op_state p = CONFIRMED" "op_canonical p" "reconciled p"
    and k: "checkpoint db (op_chainId p) (op_target p) = Inr cp"
    and pr: "projection db (op_chainId p) (op_owner p) (op_target p) key = Inr (Some proj)"
    and an: "canonical_ancestry db p proj cp = Inr True" .
  from canonical_ancestry_True[OF an] obtain n h c' where
    nh: "op_blockNumber p = Some n" "op_blockHash p = Some h" "cp = Some c'" "0 \<le> n" .
  from projection_Some[OF pr] obtain c r where c: "find_lease db (op_chainId p) (toLowerCase (op_target p)) = None"
    "find_checkpoint db (op_chainId p) (toLowerCase (op_target p)) = Some c" "cp_healthy c" "settled_checkpoint c"
    "find_projection db (op_chainId p) (toLowerCase (op_owner p)) (toLowerCase (op_target p)) key = Some r"
    "pj_blockNumber proj = pr_number r" "pj_blockHash proj = pr_hash r" .
  have "ck_number c' = cp_number c" using k nh(3) c(2) by (auto simp: checkpoint_def value_Inr)
  then show ?thesis
    using ancestry_walk_decides[OF assms(1) k[unfolded nh(3)] nh(1,4,2) assms(2), of proj] an nh p c by auto
qed

section \<open>Leases\<close>

fun sync_write :: "store_command \<Rightarrow> (int \<times> string \<times> string option) option" where
  "sync_write (Mark_Unhealthy i c e t w) = Some (i, c, w)"
| "sync_write (Mark_Healthy i c t w) = Some (i, c, w)"
| "sync_write (Release_Incomplete i c t w) = Some (i, c, Some w)"
| "sync_write (Record_Block i c b es t w) = Some (i, c, w)"
| "sync_write (Save_At_Checkpoint p e k) = Some (op_chainId p, op_target p, None)"
| "sync_write (Commit_Projections i c b ps w) = Some (i, c, w)"
| "sync_write (Roll_Back i c n w) = Some (i, c, w)"
| "sync_write _ = None"

lemma sync_write_owner:
  assumes "sync_write x = Some (i, c, w)" "chain_store_step dp db x = Inr db'"
  shows "map_option ls_owner (find_lease db i (toLowerCase c)) = w"
proof (cases x)
  case (Record_Block i' c' b es t w')
  then show ?thesis using assms by (auto simp: bind_r_Inr elim: recordCanonicalBlock_Inr)
next
  case (Commit_Projections i' c' b ps w')
  then show ?thesis using assms by (auto elim: commitProjections_Inr)
next
  case (Roll_Back i' c' n w')
  then show ?thesis using assms by (auto simp: bind_r_Inr elim: rollbackFromBlock_Inr)
next
  case (Mark_Unhealthy i' c' e t w')
  then show ?thesis using assms by (auto simp: markSyncUnhealthy_def value_Inr assertSyncOwner_def check_Inr Let_def split: if_splits)
next
  case (Mark_Healthy i' c' t w')
  then show ?thesis using assms by (auto simp: markSyncHealthy_def value_Inr assertSyncOwner_def check_Inr Let_def split: if_splits)
next
  case (Release_Incomplete i' c' t w')
  then show ?thesis using assms by (auto simp: releaseSyncIncomplete_def value_Inr assertSyncOwner_def check_Inr Let_def split: if_splits)
next
  case (Save_At_Checkpoint p e k)
  then show ?thesis using assms
    by (auto simp: saveOperationAtCheckpoint_def value_Inr assertSyncOwner_def check_Inr split: if_splits)
qed (use assms in auto)

lemma claimSync_lease:
  assumes "claimSync db i c t v = Inr db'"
  shows "map_option ls_owner (find_lease db' i (toLowerCase c)) = Some v"
proof -
  let ?P = "lease_at i (toLowerCase c)"
  from assms obtain f l where ls: "chain_sync_leases db' = upsert ?P f l (chain_sync_leases db)"
    and f: "\<And>x. ?P (f x) = ?P x \<and> ls_owner (f x) = v" and l: "?P l" "ls_owner l = v"
    by (auto simp: claimSync_def value_Inr Let_def lease_at_def split: if_splits)
  show ?thesis
  proof (cases "find ?P (chain_sync_leases db)")
    case None
    then show ?thesis using l by (simp add: find_lease_def ls upsert_def list_ex_find find_append)
  next
    case (Some x)
    then have "?P x" using find_SomeD by fastforce
    then show ?thesis using Some f by (simp add: find_lease_def ls upsert_def list_ex_find find_update_where)
  qed
qed

text \<open>C31: Once a worker has claimed the synchronisation of a contract, every write to that contract's chain data under
  another worker's token, or under none, is refused, and the database stays as it was.\<close>

theorem superseded_writer_refused:
  assumes "claimSync db i c t v = Inr db'" "sync_write x = Some (i, c', w)" "sameAddress c' c" "w \<noteq> Some v"
  shows "\<exists>e. chain_store_step dp db' x = Inl e"
proof (cases "chain_store_step dp db' x")
  case (Inr db'')
  then show ?thesis using sync_write_owner[OF assms(2) Inr] claimSync_lease[OF assms(1)] assms(3,4)
    by (auto simp: sameAddress_def)
qed simp

section \<open>Operations\<close>

text \<open>C23: Every operation in a reachable database carries the evidence its state demands, also after a rollback, and at
  most one reconciled operation claims a transaction of a chain.\<close>

theorem stored_operations_evidenced:
  assumes "reaches chain_store_start (chain_store_step dp) db" "r \<in> set (chain_transactions db)"
  shows "validateOperationEvidence dp r = Inr () \<and>
    (\<forall>s\<in>set (chain_transactions db). reconciled r \<and> reconciled s \<and> op_chainId s = op_chainId r \<and>
       txHash s = txHash r \<longrightarrow> s = r)"
proof -
  have o: "operations_inv dp (chain_transactions db)"
    using chain_machine.reachable_inv[OF assms(1)] by (simp add: chain_store_inv_def)
  have e: "evidence_ok dp r" "valid_index (transactionIndex r)" using o assms(2) by (auto simp: operations_inv_def)
  have "s = r" if "s \<in> set (chain_transactions db)" "reconciled r" "reconciled s" "op_chainId s = op_chainId r"
    "txHash s = txHash r" for s
  proof -
    have "txHash r \<noteq> None" using e(1) that(2) by (cases "op_state r") (auto simp: evidence_ok_def)
    moreover have "\<not> claims_transaction r s" using o assms(2) that(1) by (auto simp: operations_inv_def)
    ultimately have "operationId s = operationId r" using that by (auto simp: claims_transaction_def)
    then show ?thesis using o assms(2) that(1) by (auto simp: operations_inv_def distinct_map dest: inj_onD)
  qed
  then show ?thesis using e by (auto simp: validateOperationEvidence_def)
qed

text \<open>The updates the type \<open>OperationTransition\<close> admits: a failed reconciliation has one of two codes.\<close>

fun typed_update :: "operation_transition \<Rightarrow> bool" where
  "typed_update (To_RECONCILIATION_FAILED e) = (e = EVENT_EVIDENCE_MISMATCH \<or> e = CONTRACT_STATE_MISMATCH)"
| "typed_update _ = True"

definition typed_transition :: "(string \<Rightarrow> bool) \<Rightarrow> chain_operation \<Rightarrow> operation_transition \<Rightarrow> chain_error + chain_operation" where
  "typed_transition dp p u = (if typed_update u then transitionOperation dp p u else Inl INVALID_OPERATION_TRANSITION)"

definition evidenced :: "(string \<Rightarrow> bool) \<Rightarrow> chain_operation \<Rightarrow> bool" where
  "evidenced dp p \<longleftrightarrow> evidence_ok dp p \<and> valid_index (transactionIndex p)"

lemmas evidence_defs = evidence_ok_def noBlock_def blockWith_def

lemma operation_start_evidenced: "operation_start p \<Longrightarrow> evidenced dp p"
  by (auto simp: operation_start_def createOperation_def bind_r_Inr evidenced_def evidence_ok_def noBlock_def
      valid_index_def split: if_splits)

lemma typed_transition_evidenced:
  assumes "evidenced dp p" "typed_transition dp p u = Inr q"
  shows "evidenced dp q"
proof -
  have ty: "typed_update u" and s: "transitionOperation dp p u = Inr q"
    using assms(2) by (simp_all add: typed_transition_def split: if_splits)
  have e: "evidence_ok dp p" "valid_index (transactionIndex p)" using assms(1) by (simp_all add: evidenced_def)
  show ?thesis
  proof (cases u)
    case (To_SUBMITTED h t)
    then have "op_state p = AWAITING_SIGNATURE" "dp t"
      "q = p\<lparr>op_state := SUBMITTED, txHash := Some h, submittedAt := Some t, errorCode := None\<rparr>"
      using s by (simp_all add: transition_defs split: if_splits)
    then show ?thesis using e by (simp add: evidenced_def evidence_defs validTime_def)
  next
    case (To_MINED n h k)
    then have "op_state p = SUBMITTED \<or> op_state p = REORGED" "valid_index k" "q = p\<lparr>op_state := MINED,
      op_blockNumber := Some n, op_blockHash := Some h, receiptStatus := Some Success, transactionIndex := k,
      confirmations := 0, op_canonical := True, reconciled := False, confirmedAt := None, errorCode := None\<rparr>"
      using s by (simp_all add: transition_defs split: if_splits)
    then show ?thesis using e by (elim disjE) (simp_all add: evidenced_def evidence_defs)
  next
    case (To_REVERTED n h k)
    then have "op_state p = SUBMITTED \<or> op_state p = REORGED" "valid_index k" "q = p\<lparr>op_state := REVERTED,
      op_blockNumber := Some n, op_blockHash := Some h, receiptStatus := Some Reverted,
      errorCode := Some TRANSACTION_REVERTED, transactionIndex := k, confirmations := 0, op_canonical := True,
      reconciled := False, confirmedAt := None\<rparr>"
      using s by (simp_all add: transition_defs split: if_splits)
    then show ?thesis using e by (elim disjE) (simp_all add: evidenced_def evidence_defs)
  next
    case (To_CONFIRMING n b)
    then obtain b where "op_state p = MINED \<or> op_state p = CONFIRMING \<or> op_state p = RECONCILIATION_FAILED"
      "q = p\<lparr>op_state := CONFIRMING, confirmations := n, reconciled := b, confirmedAt := None, errorCode := None\<rparr>"
      using step_CONFIRMING s by blast
    then show ?thesis using e by (elim disjE) (simp_all add: evidenced_def evidence_defs)
  next
    case (To_CONFIRMED n t b)
    then have "op_state p = CONFIRMING" "dp t" "q = p\<lparr>op_state := CONFIRMED, confirmations := n, confirmedAt := Some t,
      reconciled := True, op_canonical := True, errorCode := None\<rparr>"
      using s by (simp_all add: transition_defs split: if_splits)
    then show ?thesis using e by (simp add: evidenced_def evidence_defs validTime_def)
  next
    case (To_REPLACED r)
    then obtain h where "op_state p = SUBMITTED \<or> op_state p = REORGED" "q = p\<lparr>op_state := REPLACED,
      replacementTxHash := Some h, errorCode := Some TRANSACTION_REPLACED, op_canonical := False, reconciled := False,
      confirmedAt := None\<rparr>" using step_REPLACED s by blast
    then show ?thesis using e by (elim disjE) (simp_all add: evidenced_def evidence_defs)
  next
    case (To_RECONCILIATION_FAILED x)
    then have "op_state p = MINED \<or> op_state p = CONFIRMING" "q = p\<lparr>op_state := RECONCILIATION_FAILED,
      errorCode := Some x, reconciled := False, confirmedAt := None\<rparr>" using step_FAILED s by auto
    then show ?thesis using e ty To_RECONCILIATION_FAILED by (elim disjE) (auto simp: evidenced_def evidence_defs)
  next
    case To_REJECTED
    then have "op_state p = AWAITING_SIGNATURE" "q = p\<lparr>op_state := REJECTED, errorCode := Some WALLET_REJECTED,
      op_canonical := False, reconciled := False, confirmedAt := None\<rparr>"
      using s by (simp_all add: transition_defs split: if_splits)
    then show ?thesis using e by (simp add: evidenced_def evidence_defs)
  next
    case To_DROPPED
    then have "op_state p = SUBMITTED \<or> op_state p = REORGED" "q = p\<lparr>op_state := DROPPED,
      errorCode := Some TRANSACTION_DROPPED, op_canonical := False, reconciled := False, confirmedAt := None\<rparr>"
      using s by (simp_all add: transition_defs split: if_splits)
    then show ?thesis using e by (elim disjE) (simp_all add: evidenced_def evidence_defs)
  next
    case To_REORGED
    then have "in_block (op_state p)" "q = p\<lparr>op_state := REORGED, errorCode := Some CHAIN_REORG,
      op_canonical := False, reconciled := False, confirmedAt := None\<rparr>"
      using s by (simp_all add: transition_defs split: if_splits)
    then show ?thesis using e by (cases "op_state p") (simp_all add: evidenced_def evidence_defs)
  qed
qed

interpretation evidence_machine: guarded_machine operation_start "typed_transition dp" "evidenced dp"
  by unfold_locales (auto intro: operation_start_evidenced typed_transition_evidenced)

text \<open>Every operation that the life cycle of \<open>lifecycle.ts\<close> can produce has evidence that the store accepts.\<close>

theorem lifecycle_operations_accepted:
  assumes "reaches operation_start (typed_transition dp) p"
  shows "validateOperationEvidence dp p = Inr ()"
  using evidence_machine.reachable_inv[OF assms] by (simp add: evidenced_def validateOperationEvidence_def)

section \<open>A run\<close>

definition cdemo_contract :: string where "cdemo_contract = ''0x'' @ replicate 40 (CHR ''a'')"
definition cdemo_hash :: "char \<Rightarrow> string" where "cdemo_hash c = ''0x'' @ replicate 64 c"

definition cdemo_block :: "int \<Rightarrow> char \<Rightarrow> char \<Rightarrow> chain_block" where
  "cdemo_block n h p = \<lparr>bk_number = n, bk_hash = cdemo_hash h, bk_parentHash = cdemo_hash p, bk_timestamp = 5\<rparr>"

definition cdemo_operation :: chain_operation where
  "cdemo_operation = \<lparr>operationId = ''op'', op_chainId = 1, op_owner = cdemo_contract, op_target = cdemo_contract,
     op_calldata = None, op_state = CONFIRMED, txHash = Some (cdemo_hash (CHR ''7'')), submittedAt = Some ''t'',
     op_blockNumber = Some 10, op_blockHash = Some (cdemo_hash (CHR ''1'')), transactionIndex = Some 0,
     receiptStatus = Some Success, confirmations = 3, replacementTxHash = None, op_canonical = True, reconciled = True,
     confirmedAt = Some ''t'', errorCode = None\<rparr>"

definition cdemo_projection :: product_projection where
  "cdemo_projection = \<lparr>pj_chainId = 1, pj_owner = cdemo_contract, pj_contract = cdemo_contract, pj_key = ''vault'',
     pj_blockNumber = 11, pj_blockHash = cdemo_hash (CHR ''2''), pj_state = JObj []\<rparr>"

definition cdemo_row :: "int \<Rightarrow> char \<Rightarrow> char \<Rightarrow> block_row" where
  "cdemo_row n h p = \<lparr>br_chain = 1, br_contract = cdemo_contract, br_number = n, br_hash = cdemo_hash h, br_parent = cdemo_hash p,
     br_timestamp = ''5'', br_logs = 0, br_canonical = True\<rparr>"

text \<open>Two blocks, a confirmed operation in the first and a projection at the second.\<close>

definition cdemo_store :: "chain_operation list \<Rightarrow> bool \<Rightarrow> chain_db" where
  "cdemo_store ops projected = \<lparr>chain_blocks = [cdemo_row 10 (CHR ''1'') (CHR ''0''), cdemo_row 11 (CHR ''2'') (CHR ''1'')],
     chain_events = [],
     chain_checkpoints = [\<lparr>cp_chain = 1, cp_contract = cdemo_contract, cp_number = 11, cp_hash = cdemo_hash (CHR ''2''),
       cp_projected = (if projected then Some 11 else None),
       cp_projectedHash = (if projected then Some (cdemo_hash (CHR ''2'')) else None),
       cp_healthy = True, cp_error = None, cp_target = None\<rparr>],
     chain_sync_leases = [], chain_transactions = ops,
     product_projections = (if projected then [\<lparr>pr_chain = 1, pr_owner = cdemo_contract, pr_contract = cdemo_contract,
       pr_key = ''vault'', pr_number = 11, pr_hash = cdemo_hash (CHR ''2''), pr_state = ''{}''\<rparr>] else [])\<rparr>"

lemma lower_replicate: "toLowerCase (replicate n c) = replicate n (lower_char c)"
  by (simp add: toLowerCase_def map_replicate_const)

lemma lower_demo_chars: "lower_char (CHR ''x'') = CHR ''x''" "lower_char (CHR ''0'') = CHR ''0''" "lower_char (CHR ''1'') = CHR ''1''"
  "lower_char (CHR ''2'') = CHR ''2''" "lower_char (CHR ''7'') = CHR ''7''" "lower_char (CHR ''a'') = CHR ''a''"
  by code_simp+

lemma cdemo_lower [simp]: "toLowerCase cdemo_contract = cdemo_contract"
  "c \<in> set ''0127'' \<Longrightarrow> toLowerCase (cdemo_hash c) = cdemo_hash c"
proof -
  have two: "toLowerCase (''0x'' @ s) = ''0x'' @ toLowerCase s" for s
    by (simp add: toLowerCase_def lower_demo_chars)
  show "toLowerCase cdemo_contract = cdemo_contract"
    unfolding cdemo_contract_def two lower_replicate lower_demo_chars ..
  show "toLowerCase (cdemo_hash c) = cdemo_hash c" if "c \<in> set ''0127''"
    using that lower_demo_chars unfolding cdemo_hash_def two lower_replicate by auto
qed

lemma cdemo_hex [simp]: "hex_digits 40 cdemo_contract" "c \<in> set ''0127'' \<Longrightarrow> hex_digits 64 (cdemo_hash c)"
proof -
  have r: "list_all is_hex (replicate n c)" if "is_hex c" for n c using that by (simp add: list_all_iff)
  show "hex_digits 40 cdemo_contract"
    unfolding hex_digits_def cdemo_contract_def using r[of "CHR ''a''" 40] by (simp add: is_hex_def)
  show "hex_digits 64 (cdemo_hash c)" if "c \<in> set ''0127''"
    unfolding hex_digits_def cdemo_hash_def using r[of c 64] that by (auto simp: is_hex_def)
qed

lemma cdemo_hash_inj [simp]: "cdemo_hash c = cdemo_hash d \<longleftrightarrow> c = d"
  by (auto simp: cdemo_hash_def replicate_eq_replicate)


lemma cdemo_values: "toString 5 = ''5''" "boundedJson (JObj []) = Inr ''{}''" "parse_json ''{}'' = Some (JObj [])"
  "namePattern ''vault''" "validOperationId ''op''" "isSafeInteger 1" "10 \<le> MAX_SAFE_INTEGER" "11 \<le> MAX_SAFE_INTEGER"
  by code_simp+

lemma cdemo_checks: "chainId 1 = Inr 1" "normalizedAddress cdemo_contract = Inr cdemo_contract" "safeNumber 10 = Inr 10"
  "safeNumber 11 = Inr 11" "asAddress cdemo_contract = Inr cdemo_contract"
  "c \<in> set ''0127'' \<Longrightarrow> asBlockHash (cdemo_hash c) = Inr (cdemo_hash c)"
  "c \<in> set ''0127'' \<Longrightarrow> asTransactionHash (cdemo_hash c) = Inr (cdemo_hash c)"
  using cdemo_values by (simp_all add: value_Inr asAddress_def asBlockHash_def asTransactionHash_def checkedHex_def)

lemmas cdemo_simps = cdemo_values cdemo_checks cdemo_block_def cdemo_row_def cdemo_store_def cdemo_operation_def
  cdemo_projection_def lift_chain_def check_def assertSyncOwner_def find_lease_def find_checkpoint_def checkpoint_def
  checkpoint_at_def find_canonical_def canonical_at_def upsert_def update_where_def changes_def sameHash_def
  sameAddress_def same_block_def bind_r_def

definition cdemo_first :: chain_db where
  "cdemo_first = \<lparr>chain_blocks = [cdemo_row 10 (CHR ''1'') (CHR ''0'')], chain_events = [],
     chain_checkpoints = [fresh_checkpoint 1 cdemo_contract 10 (cdemo_hash (CHR ''1''))],
     chain_sync_leases = [], chain_transactions = [], product_projections = []\<rparr>"

lemmas cdemo_record = recordCanonicalBlock_def empty_chain_db_def record_block_def advance_checkpoint_def require_target_def
  fresh_checkpoint_def event_order_def event_row_order_def Let_def

lemma cdemo_step1: "chain_store_step dp empty_chain_db (Record_Block 1 cdemo_contract (cdemo_block 10 (CHR ''1'') (CHR ''0'')) [] None None) = Inr cdemo_first"
  by (simp add: cdemo_record cdemo_simps cdemo_first_def)

lemma cdemo_step2: "chain_store_step dp cdemo_first (Record_Block 1 cdemo_contract (cdemo_block 11 (CHR ''2'') (CHR ''1'')) [] None None) =
  Inr (cdemo_store [] False)"
  by (simp add: cdemo_record cdemo_simps cdemo_first_def)

lemma cdemo_step3: "chain_store_step (\<lambda>_. True) (cdemo_store [] False) (Save_Operation cdemo_operation) = Inr (cdemo_store [cdemo_operation] False)"
  by (simp add: saveOperation_def validateOperationEvidence_def evidence_ok_def blockWith_def validTime_def valid_index_def
      operation_def find_operation_def operation_row_def write_operation_def cdemo_simps)

lemma cdemo_step4: "chain_store_step dp (cdemo_store [cdemo_operation] False)
    (Commit_Projections 1 cdemo_contract (cdemo_block 11 (CHR ''2'') (CHR ''1'')) [cdemo_projection] None) =
  Inr (cdemo_store [cdemo_operation] True)"
  by (simp add: commitProjections_def at_checkpoint_def canonicalBlock_def admit_projection_def projection_anchored_def
      projection_row_of_def cdemo_simps Let_def digits_val_def)

lemma cdemo_reached: "reaches chain_store_start (chain_store_step (\<lambda>_. True)) (cdemo_store [cdemo_operation] True)"
proof -
  have "reaches chain_store_start (chain_store_step (\<lambda>_. True)) empty_chain_db" by (rule reach_init) (simp add: chain_store_start_def)
  then have "reaches chain_store_start (chain_store_step (\<lambda>_. True)) cdemo_first" by (rule reach_step) (rule cdemo_step1)
  then have "reaches chain_store_start (chain_store_step (\<lambda>_. True)) (cdemo_store [] False)" by (rule reach_step) (rule cdemo_step2)
  then have "reaches chain_store_start (chain_store_step (\<lambda>_. True)) (cdemo_store [cdemo_operation] False)" by (rule reach_step) (rule cdemo_step3)
  then show ?thesis by (rule reach_step) (rule cdemo_step4)
qed

lemma cdemo_typed: "\<forall>b\<in>set (chain_blocks (cdemo_store ops x)). hash_typed b"
  by (simp add: cdemo_store_def cdemo_row_def hash_typed_def)

lemma cdemo_ready: "\<exists>ev. operationEvidence (cdemo_store [cdemo_operation] True) ''op'' ''vault'' = Inr (Some ev) \<and> pe_productReady ev"
  by (simp add: operationEvidence_def operation_def find_operation_def decode_operation_def hex_opt_def
      syncHealth_def health_valid_def indexer_of_def projection_milestone_of_def projection_def settled_checkpoint_def
      find_projection_def projection_of_def read_projection_def canonical_ancestry_def canonical_between_def
      MAX_PRODUCT_EVIDENCE_ANCESTRY_BLOCKS_def evidence_of_def reconciliation_of_def cdemo_simps Let_def)

definition cdemo_lifecycle :: chain_operation where
  "cdemo_lifecycle = \<lparr>operationId = ''op'', op_chainId = 1, op_owner = cdemo_contract, op_target = cdemo_contract,
     op_calldata = None, op_state = AWAITING_SIGNATURE, txHash = None, submittedAt = None, op_blockNumber = None,
     op_blockHash = None, transactionIndex = None, receiptStatus = None, confirmations = 0, replacementTxHash = None,
     op_canonical = False, reconciled = False, confirmedAt = None, errorCode = None\<rparr>"

lemma cdemo_lifecycle_reached: "reaches operation_start (typed_transition (\<lambda>_. True))
    (cdemo_lifecycle\<lparr>op_state := SUBMITTED, txHash := Some (cdemo_hash (CHR ''7'')), submittedAt := Some ''t''\<rparr>)"
proof (rule reach_step)
  have "createOperation ''op'' 1 cdemo_contract cdemo_contract None = Inr cdemo_lifecycle"
    using cdemo_values by (simp add: createOperation_def cdemo_lifecycle_def)
  then show "reaches operation_start (typed_transition (\<lambda>_. True)) cdemo_lifecycle"
    unfolding operation_start_def by (intro reach_init) blast
  show "typed_transition (\<lambda>_. True) cdemo_lifecycle (To_SUBMITTED (cdemo_hash (CHR ''7'')) ''t'') =
    Inr (cdemo_lifecycle\<lparr>op_state := SUBMITTED, txHash := Some (cdemo_hash (CHR ''7'')), submittedAt := Some ''t''\<rparr>)"
    by (simp add: typed_transition_def transition_defs cdemo_lifecycle_def)
qed

section \<open>Witnesses\<close>

theorem canonical_chain_witness:
  "\<exists>lo\<le>11. map br_number (canonical_blocks (cdemo_store [cdemo_operation] True) 1 cdemo_contract) = [lo..11]"
proof -
  have "find_checkpoint (cdemo_store [cdemo_operation] True) 1 cdemo_contract \<noteq> None"
    "\<And>c. find_checkpoint (cdemo_store [cdemo_operation] True) 1 cdemo_contract = Some c \<Longrightarrow> cp_number c = 11"
    by (auto simp: cdemo_simps)
  then show ?thesis using canonical_chain[OF cdemo_reached, of 1 cdemo_contract] by (auto split: option.splits)
qed

theorem ancestry_walk_decides_witness:
  "canonical_ancestry (cdemo_store [cdemo_operation] True) cdemo_operation cdemo_projection
     (Some \<lparr>ck_number = 11, ck_hash = cdemo_hash (CHR ''2'')\<rparr>) = Inr True"
proof -
  have "checkpoint (cdemo_store [cdemo_operation] True) (op_chainId cdemo_operation) (op_target cdemo_operation) =
    Inr (Some \<lparr>ck_number = 11, ck_hash = cdemo_hash (CHR ''2'')\<rparr>)" by (simp add: cdemo_simps)
  from ancestry_walk_decides[OF cdemo_reached this, of 10 "cdemo_hash (CHR ''1'')" cdemo_projection] show ?thesis
    using cdemo_typed by (simp add: block_at_def cdemo_simps)
qed

theorem product_ready_sound_witness:
  "\<exists>p n h. operation (cdemo_store [cdemo_operation] True) ''op'' = Inr (Some p) \<and> op_blockNumber p = Some n \<and>
    op_blockHash p = Some h \<and> block_at (cdemo_store [cdemo_operation] True) (op_chainId p) (toLowerCase (op_target p)) n h"
  using cdemo_ready product_ready_sound[OF cdemo_reached cdemo_typed, of "''op''" "''vault''"] by blast

theorem superseded_writer_refused_witness:
  "\<exists>db'. claimSync (cdemo_store [cdemo_operation] True) 1 cdemo_contract 11 (replicate 36 (CHR ''a'')) = Inr db' \<and>
    (\<exists>e. chain_store_step (\<lambda>_. True) db' (Roll_Back 1 cdemo_contract 11 None) = Inl e)"
proof -
  have "owner_token_ok (replicate 36 (CHR ''a''))" by code_simp
  then obtain db' where c: "claimSync (cdemo_store [cdemo_operation] True) 1 cdemo_contract 11 (replicate 36 (CHR ''a'')) = Inr db'"
    by (simp add: claimSync_def Let_def cdemo_simps)
  then show ?thesis
    using superseded_writer_refused[OF c, of "Roll_Back 1 cdemo_contract 11 None" cdemo_contract None "\<lambda>_. True"]
    by (simp add: sameAddress_def)
qed

theorem stored_operations_evidenced_witness:
  "validateOperationEvidence (\<lambda>_. True) cdemo_operation = Inr ()"
  using stored_operations_evidenced[OF cdemo_reached, of cdemo_operation] by (simp add: cdemo_store_def)

theorem lifecycle_operations_accepted_witness:
  "validateOperationEvidence (\<lambda>_. True)
     (cdemo_lifecycle\<lparr>op_state := SUBMITTED, txHash := Some (cdemo_hash (CHR ''7'')), submittedAt := Some ''t''\<rparr>) = Inr ()"
  using lifecycle_operations_accepted[OF cdemo_lifecycle_reached] .

end
