(* ===== verification/Chain_Sync.thy ===== *)
theory Chain_Sync
  imports Chain_Store_Properties
begin

text \<open>
  \<^bold>\<open>apps/server/src/chain-sync.ts\<close>: \<open>ChainSynchronizer\<close>, which follows a remote chain and drives the chain store.
  A method is a computation on the pair of a counter and the database. The counter numbers the \<open>await\<close>s: at the
  \<open>k\<close>-th one the world answers with what \<open>sync_env\<close> says for \<open>k\<close>, and \<open>interfere\<close> gives the database as the other workers
  leave it when the method goes on, so every interleaving of writers is covered. An \<open>Error\<close> is its message; a
  \<open>ChainSyncFailure\<close> has its code as message, and the code only ever looks at the message. The RPC client, the
  contract integration, the clock and \<open>randomUUID\<close> are parameters. The promise chain \<open>syncTail\<close>, which lets one
  synchronizer run one \<open>syncTo\<close> at a time, is an \<open>await\<close> before the work.
\<close>

section \<open>The world\<close>

record chain_log =
  lg_address :: string
  lg_blockNumber :: int
  lg_blockHash :: string
  lg_transactionHash :: string
  lg_transactionIndex :: int
  lg_logIndex :: int
  lg_data :: string
  lg_topics :: "string list"
  lg_removed :: bool

record decoded_event =
  de_signature :: string
  de_name :: string
  de_normalizedData :: json

record chain_receipt =
  rc_transactionHash :: string
  rc_blockNumber :: int
  rc_blockHash :: string
  rc_transactionIndex :: int
  rc_from :: string
  rc_to :: "string option"
  rc_status :: receipt_status

record projection_candidate =
  pc_owner :: string
  pc_key :: string
  pc_blockNumber :: int
  pc_blockHash :: string
  pc_state :: json

datatype reconciliation_result = Match | Mismatch operation_error

record sync_manifest =
  mf_chainId :: int
  mf_contract :: string
  mf_deploymentBlock :: int

record sync_env =
  rpc_chainId :: "nat \<Rightarrow> string + int"
  rpc_block :: "nat \<Rightarrow> int \<Rightarrow> string + chain_block option"
  rpc_latest :: "nat \<Rightarrow> string + chain_block option"
  rpc_logs :: "nat \<Rightarrow> int \<Rightarrow> string + chain_log list"
  rpc_receipt :: "nat \<Rightarrow> string \<Rightarrow> string + chain_receipt option"
  decode_log :: "chain_log \<Rightarrow> string + decoded_event option"
  rebuild :: "nat \<Rightarrow> chain_event list \<Rightarrow> chain_block \<Rightarrow> string + projection_candidate list"
  reconcile :: "nat \<Rightarrow> chain_operation \<Rightarrow> chain_receipt \<Rightarrow> chain_event list \<Rightarrow> chain_block \<Rightarrow> string + reconciliation_result"
  interfere :: "nat \<Rightarrow> chain_db \<Rightarrow> chain_db"
  random_uuid :: "nat \<Rightarrow> string"
  clock :: "nat \<Rightarrow> string"
  parses :: "string \<Rightarrow> bool"

record sync_options =
  so_manifest :: sync_manifest
  so_softReadyDepth :: int
  so_reorgSearchLimit :: int
  so_maxBlocksPerSync :: int

section \<open>Computations\<close>

type_synonym 'a sync = "nat \<times> chain_db \<Rightarrow> (nat \<times> chain_db) \<times> (string + 'a)"

definition sync_return :: "'a \<Rightarrow> 'a sync" where
  "sync_return x s = (s, Inr x)"

definition sync_fail :: "string \<Rightarrow> 'a sync" where
  "sync_fail e s = (s, Inl e)"

definition sync_bind :: "'a sync \<Rightarrow> ('a \<Rightarrow> 'b sync) \<Rightarrow> 'b sync" where
  "sync_bind m f s = (case m s of (t, Inl e) \<Rightarrow> (t, Inl e) | (t, Inr x) \<Rightarrow> f x t)"

definition sync_catch :: "'a sync \<Rightarrow> (string \<Rightarrow> 'a sync) \<Rightarrow> 'a sync" where
  "sync_catch m h s = (case m s of (t, Inl e) \<Rightarrow> h e t | (t, Inr x) \<Rightarrow> (t, Inr x))"

definition sync_check :: "bool \<Rightarrow> string \<Rightarrow> unit sync" where
  "sync_check b e = (if b then sync_return () else sync_fail e)"

definition sync_await :: "sync_env \<Rightarrow> (nat \<Rightarrow> string + 'a) \<Rightarrow> 'a sync" where
  "sync_await env f s = ((fst s + 1, interfere env (fst s) (snd s)), f (fst s))"

definition pause :: "sync_env \<Rightarrow> unit sync" where
  "pause env = sync_await env (\<lambda>_. Inr ())"

text \<open>\<open>await\<close> of a method of the synchronizer itself: its own steps, then one more turn of the event loop.\<close>

definition sync_join :: "sync_env \<Rightarrow> 'a sync \<Rightarrow> 'a sync" where
  "sync_join env m s = (case m s of (t, r) \<Rightarrow> ((fst t + 1, interfere env (fst t) (snd t)), r))"

definition store_read :: "(chain_db \<Rightarrow> string + 'a) \<Rightarrow> 'a sync" where
  "store_read f s = (s, f (snd s))"

definition store_write :: "(chain_db \<Rightarrow> string + (chain_db \<times> 'a)) \<Rightarrow> 'a sync" where
  "store_write f s = (case f (snd s) of Inl e \<Rightarrow> (s, Inl e) | Inr (db, x) \<Rightarrow> ((fst s, db), Inr x))"

definition store_update :: "(chain_db \<Rightarrow> string + chain_db) \<Rightarrow> unit sync" where
  "store_update f = store_write (\<lambda>db. bind_r (f db) (\<lambda>d. Inr (d, ())))"

section \<open>The synchronizer\<close>

definition safePolicy :: "int \<Rightarrow> int \<Rightarrow> string + int" where
  "safePolicy v maximum = (if \<not> isSafeInteger v \<or> v < 1 \<or> v > maximum then Inl ''INVALID_CHAIN_SYNC_POLICY'' else Inr v)"

definition make_options :: "sync_manifest \<Rightarrow> int option \<Rightarrow> int option \<Rightarrow> int option \<Rightarrow> string + sync_options" where
  "make_options m soft limit blocks =
     (bind_r (lift_chain (m3ChainSyncPolicy soft limit)) (\<lambda>p. bind_r (safePolicy (case blocks of None \<Rightarrow> 2000 | Some b \<Rightarrow> b) 100000) (\<lambda>n.
          Inr \<lparr>so_manifest = m, so_softReadyDepth = softReadyDepth p, so_reorgSearchLimit = reorgSearchLimit p,
            so_maxBlocksPerSync = n\<rparr>)))"

definition toCount :: "int \<Rightarrow> string + int" where
  "toCount n = (if n < 0 \<or> n > MAX_SAFE_INTEGER then Inl ''CHAIN_SYNC_RANGE_EXCEEDED'' else Inr n)"

definition validLog :: "chain_log \<Rightarrow> chain_block \<Rightarrow> sync_manifest \<Rightarrow> bool" where
  "validLog l b m \<longleftrightarrow> sameAddress (lg_address l) (mf_contract m) \<and> lg_blockNumber l = bk_number b \<and>
     sameHash (lg_blockHash l) (bk_hash b) \<and> \<not> lg_removed l"

definition assertChain :: "sync_env \<Rightarrow> sync_manifest \<Rightarrow> unit sync" where
  "assertChain env m = sync_bind (sync_await env (rpc_chainId env)) (\<lambda>i.
     sync_check (i = mf_chainId m) ''CHAIN_ID_MISMATCH'')"

definition sync_head :: "sync_env \<Rightarrow> sync_manifest \<Rightarrow> chain_block sync" where
  "sync_head env m =
     sync_bind (sync_join env (assertChain env m)) (\<lambda>_.
     sync_bind (sync_await env (rpc_latest env)) (\<lambda>b.
     case b of None \<Rightarrow> sync_fail ''CHAIN_HEAD_UNAVAILABLE'' | Some h \<Rightarrow> sync_return h))"

text \<open>The search for a common ancestor; the first argument is what is left of \<open>reorgSearchLimit\<close>.\<close>

fun rewind_loop :: "sync_env \<Rightarrow> sync_manifest \<Rightarrow> string \<Rightarrow> nat \<Rightarrow> int \<Rightarrow> nat sync" where
  "rewind_loop env m token left candidate =
     (if candidate \<ge> mf_deploymentBlock m \<and> left > 0 then
        sync_bind (store_read (\<lambda>db. canonicalBlock db (mf_chainId m) (mf_contract m) candidate)) (\<lambda>local.
        sync_bind (sync_await env (\<lambda>k. rpc_block env k candidate)) (\<lambda>remote.
        case remote of None \<Rightarrow> sync_fail ''CHAIN_BLOCK_UNAVAILABLE''
        | Some r \<Rightarrow>
            if (case local of None \<Rightarrow> False | Some l \<Rightarrow> sameHash (bk_hash l) (bk_hash r))
            then sync_bind (store_write (\<lambda>db. rollbackFromBlock db (mf_chainId m) (mf_contract m) (candidate + 1) (Some token)))
                   (\<lambda>n. sync_return (fst n))
            else rewind_loop env m token (left - 1) (candidate - 1)))
      else
        let failure = (if candidate \<ge> mf_deploymentBlock m then CHAIN_REORG_DEPTH_EXCEEDED
              else CHAIN_REORG_NO_COMMON_ANCESTOR)
        in sync_bind (store_update (\<lambda>db. markSyncUnhealthy db (mf_chainId m) (mf_contract m) failure None (Some token))) (\<lambda>_.
           sync_fail (if failure = CHAIN_REORG_DEPTH_EXCEEDED then ''CHAIN_REORG_DEPTH_EXCEEDED''
             else ''CHAIN_REORG_NO_COMMON_ANCESTOR'')))"

declare rewind_loop.simps [simp del]

definition rewindIfNeeded :: "sync_env \<Rightarrow> sync_options \<Rightarrow> string \<Rightarrow> nat sync" where
  "rewindIfNeeded env so token =
     (let m = so_manifest so in
      sync_bind (store_read (\<lambda>db. checkpoint db (mf_chainId m) (mf_contract m))) (\<lambda>cp.
      case cp of None \<Rightarrow> sync_return 0
      | Some c \<Rightarrow>
          sync_bind (sync_await env (\<lambda>k. rpc_block env k (ck_number c))) (\<lambda>remote.
          case remote of None \<Rightarrow> sync_fail ''CHAIN_BLOCK_UNAVAILABLE''
          | Some r \<Rightarrow>
              if sameHash (bk_hash r) (ck_hash c) then sync_return 0
              else rewind_loop env m token (nat (so_reorgSearchLimit so)) (ck_number c - 1))))"

definition event_of_log :: "sync_manifest \<Rightarrow> chain_log \<Rightarrow> decoded_event \<Rightarrow> chain_event" where
  "event_of_log m l d = \<lparr>ev_chainId = mf_chainId m, ev_address = lg_address l, ev_blockNumber = lg_blockNumber l,
     ev_blockHash = lg_blockHash l, ev_transactionHash = lg_transactionHash l,
     ev_transactionIndex = lg_transactionIndex l, ev_logIndex = lg_logIndex l, ev_data = lg_data l,
     ev_topics = lg_topics l, ev_removed = lg_removed l, ev_signature = de_signature d, ev_name = de_name d,
     ev_normalizedData = de_normalizedData d\<rparr>"

fun decodeLogs :: "sync_env \<Rightarrow> sync_manifest \<Rightarrow> chain_log list \<Rightarrow> chain_block \<Rightarrow> string + chain_event list" where
  "decodeLogs env m [] b = Inr []"
| "decodeLogs env m (l # ls) b =
     bind_r (check (validLog l b m) ''CHAIN_LOG_MISMATCH'') (\<lambda>_.
     bind_r (decode_log env l) (\<lambda>d.
     bind_r (decodeLogs env m ls b) (\<lambda>es.
     Inr (case d of None \<Rightarrow> es | Some x \<Rightarrow> event_of_log m l x # es))))"

definition candidate_projection :: "sync_manifest \<Rightarrow> projection_candidate \<Rightarrow> product_projection" where
  "candidate_projection m c = \<lparr>pj_chainId = mf_chainId m, pj_owner = pc_owner c, pj_contract = mf_contract m,
     pj_key = pc_key c, pj_blockNumber = pc_blockNumber c, pj_blockHash = pc_blockHash c, pj_state = pc_state c\<rparr>"

definition rebuildProjection :: "sync_env \<Rightarrow> sync_manifest \<Rightarrow> chain_block \<Rightarrow> string \<Rightarrow> unit sync" where
  "rebuildProjection env m block token =
     sync_bind (store_read (\<lambda>db. canonicalEvents db (mf_chainId m) (mf_contract m))) (\<lambda>es.
     sync_bind (sync_await env (\<lambda>k. rebuild env k es block)) (\<lambda>ps.
     store_update (\<lambda>db. commitProjections db (mf_chainId m) (mf_contract m) block (map (candidate_projection m) ps)
       (Some token))))"

definition recoverProjection :: "sync_env \<Rightarrow> sync_manifest \<Rightarrow> string \<Rightarrow> unit sync" where
  "recoverProjection env m token =
     sync_bind (store_read (\<lambda>db. checkpoint db (mf_chainId m) (mf_contract m))) (\<lambda>cp.
     case cp of None \<Rightarrow> sync_return ()
     | Some c \<Rightarrow>
         sync_bind (store_read (\<lambda>db. projectionCheckpoint db (mf_chainId m) (mf_contract m))) (\<lambda>pr.
         if (case pr of None \<Rightarrow> False | Some p \<Rightarrow> ck_number p = ck_number c \<and> sameHash (ck_hash p) (ck_hash c))
         then sync_return ()
         else
           sync_bind (store_read (\<lambda>db. canonicalBlock db (mf_chainId m) (mf_contract m) (ck_number c))) (\<lambda>b.
           case b of None \<Rightarrow> sync_fail ''PROJECTION_REBUILD_FAILED''
           | Some block \<Rightarrow>
               sync_bind (sync_check (sameHash (bk_hash block) (ck_hash c)) ''PROJECTION_REBUILD_FAILED'') (\<lambda>_.
               sync_catch (sync_join env (rebuildProjection env m block token))
                 (\<lambda>e. sync_fail (if e = ''CHAIN_SYNC_SUPERSEDED'' then e else ''PROJECTION_REBUILD_FAILED''))))))"

text \<open>The projections of a block just recorded; if they cannot be rebuilt the block is taken back.\<close>

definition project_or_rollback :: "sync_env \<Rightarrow> sync_manifest \<Rightarrow> chain_block \<Rightarrow> string \<Rightarrow> int \<Rightarrow> unit sync" where
  "project_or_rollback env m current token number =
     sync_catch (sync_join env (rebuildProjection env m current token)) (\<lambda>e.
       sync_bind (store_write (\<lambda>db. rollbackFromBlock db (mf_chainId m) (mf_contract m) number (Some token))) (\<lambda>_.
       sync_fail (if e = ''CHAIN_SYNC_SUPERSEDED'' then e else ''PROJECTION_REBUILD_FAILED'')))"

text \<open>One turn of the loop over new blocks; the result is \<open>insertedEvents\<close> of the block.\<close>

definition scan_block :: "sync_env \<Rightarrow> sync_manifest \<Rightarrow> int \<Rightarrow> string \<Rightarrow> int \<Rightarrow> nat sync" where
  "scan_block env m required token number =
     sync_bind (sync_await env (\<lambda>k. rpc_block env k number)) (\<lambda>b.
     case b of None \<Rightarrow> sync_fail ''CHAIN_BLOCK_UNAVAILABLE''
     | Some current \<Rightarrow>
         sync_bind (sync_check (bk_number current = number) ''CHAIN_BLOCK_MISMATCH'') (\<lambda>_.
         sync_bind (store_read (\<lambda>db. checkpoint db (mf_chainId m) (mf_contract m))) (\<lambda>previous.
         sync_bind (sync_check (case previous of None \<Rightarrow> True | Some c \<Rightarrow> sameHash (bk_parentHash current) (ck_hash c))
           ''CHAIN_BLOCK_MISMATCH'') (\<lambda>_.
         sync_bind (sync_await env (\<lambda>k. rpc_logs env k number)) (\<lambda>logs.
         sync_bind (store_read (\<lambda>_. decodeLogs env m logs current)) (\<lambda>events.
         sync_bind (store_write (\<lambda>db. recordCanonicalBlock db (mf_chainId m) (mf_contract m) current events
           (Some required) (Some token))) (\<lambda>inserted.
         sync_bind (project_or_rollback env m current token number) (\<lambda>_.
         sync_return inserted))))))))"

fun scan_blocks :: "sync_env \<Rightarrow> sync_manifest \<Rightarrow> int \<Rightarrow> string \<Rightarrow> nat \<Rightarrow> int \<Rightarrow> nat \<Rightarrow> nat sync" where
  "scan_blocks env m required token 0 number inserted = sync_return inserted"
| "scan_blocks env m required token (Suc k) number inserted =
     sync_bind (scan_block env m required token number) (\<lambda>n.
     scan_blocks env m required token k (number + 1) (inserted + n))"

definition finish_sync :: "sync_manifest \<Rightarrow> int \<Rightarrow> int \<Rightarrow> string \<Rightarrow> unit sync" where
  "finish_sync m head required token =
     (if head < required
      then store_update (\<lambda>db. releaseSyncIncomplete db (mf_chainId m) (mf_contract m) required token)
      else sync_bind (store_write (\<lambda>db. markSyncHealthy db (mf_chainId m) (mf_contract m) head (Some token))) (\<lambda>ok.
             sync_check ok ''CHAIN_SYNC_SUPERSEDED''))"

text \<open>
  Up to the point where all blocks are scanned; both branches of the source then finish the same way. The result is
  the lease's token with \<open>scannedBlocks\<close>, \<open>insertedEvents\<close> and \<open>reorgedBlocks\<close>.
\<close>

definition sync_claim :: "sync_env \<Rightarrow> sync_options \<Rightarrow> int \<Rightarrow> int \<Rightarrow> string sync" where
  "sync_claim env so head required =
     (let m = so_manifest so in
      sync_bind (sync_join env (assertChain env m)) (\<lambda>_.
      sync_bind (sync_check (\<not> head < mf_deploymentBlock m) ''CHAIN_HEAD_BEFORE_DEPLOYMENT'') (\<lambda>_.
      sync_bind (sync_check (\<not> required < head) ''CHAIN_SYNC_TARGET_BEHIND'') (\<lambda>_.
      sync_bind (sync_await env (\<lambda>k. rpc_block env k head)) (\<lambda>b.
      case b of None \<Rightarrow> sync_fail ''CHAIN_HEAD_UNAVAILABLE''
      | Some remote \<Rightarrow>
          sync_bind (sync_check (bk_number remote = head) ''CHAIN_BLOCK_MISMATCH'') (\<lambda>_.
          sync_bind (\<lambda>s. (s, Inr (random_uuid env (fst s)))) (\<lambda>token.
          sync_bind (store_update (\<lambda>db. claimSync db (mf_chainId m) (mf_contract m) required token)) (\<lambda>_.
          sync_return token))))))))"

definition sync_scan :: "sync_env \<Rightarrow> sync_options \<Rightarrow> int \<Rightarrow> int \<Rightarrow> string \<Rightarrow> (int \<times> nat) sync" where
  "sync_scan env so head required token =
     (let m = so_manifest so in
      sync_bind (store_read (\<lambda>db. checkpoint db (mf_chainId m) (mf_contract m))) (\<lambda>cp.
      let start = (case cp of None \<Rightarrow> mf_deploymentBlock m | Some c \<Rightarrow> ck_number c + 1) in
      if start > head then sync_return (0, 0)
      else
        sync_bind (store_read (\<lambda>_. toCount (head - start + 1))) (\<lambda>n.
        sync_bind (sync_check (\<not> n > so_maxBlocksPerSync so) ''CHAIN_SYNC_RANGE_EXCEEDED'') (\<lambda>_.
        sync_bind (scan_blocks env m required token (nat n) start 0) (\<lambda>inserted.
        sync_return (n, inserted))))))"

definition sync_work :: "sync_env \<Rightarrow> sync_options \<Rightarrow> int \<Rightarrow> int \<Rightarrow> (string \<times> int \<times> nat \<times> nat) sync" where
  "sync_work env so head required =
     sync_bind (sync_claim env so head required) (\<lambda>token.
     sync_bind (sync_join env (rewindIfNeeded env so token)) (\<lambda>reorged.
     sync_bind (sync_join env (recoverProjection env (so_manifest so) token)) (\<lambda>_.
     sync_bind (sync_scan env so head required token) (\<lambda>r.
     sync_return (token, fst r, snd r, reorged)))))"

definition sync_body :: "sync_env \<Rightarrow> sync_options \<Rightarrow> int \<Rightarrow> int \<Rightarrow> (int \<times> nat \<times> nat) sync" where
  "sync_body env so head required =
     sync_bind (sync_work env so head required) (\<lambda>(token, counts).
     sync_bind (finish_sync (so_manifest so) head required token) (\<lambda>_. sync_return counts))"

definition syncTo :: "sync_env \<Rightarrow> sync_options \<Rightarrow> int \<Rightarrow> int \<Rightarrow> (int \<times> nat \<times> nat) sync" where
  "syncTo env so head required = sync_bind (pause env) (\<lambda>_. sync_join env (sync_body env so head required))"

section \<open>Operations\<close>

definition save_at :: "sync_env \<Rightarrow> chain_operation \<Rightarrow> chain_operation \<Rightarrow> chain_checkpoint \<Rightarrow> unit sync" where
  "save_at env q p c = store_update (\<lambda>db. saveOperationAtCheckpoint (parses env) db q p c)"

definition transition :: "sync_env \<Rightarrow> chain_operation \<Rightarrow> operation_transition \<Rightarrow> chain_operation sync" where
  "transition env p u = store_read (\<lambda>_. lift_chain (transitionOperation (parses env) p u))"

definition receipt_transition :: "chain_receipt \<Rightarrow> operation_transition" where
  "receipt_transition r = (if rc_status r = Reverted
     then To_REVERTED (rc_blockNumber r) (rc_blockHash r) (Some (rc_transactionIndex r))
     else To_MINED (rc_blockNumber r) (rc_blockHash r) (Some (rc_transactionIndex r)))"

definition receipt_matches :: "chain_receipt \<Rightarrow> string \<Rightarrow> chain_operation \<Rightarrow> bool" where
  "receipt_matches r tx p \<longleftrightarrow> sameHash (rc_transactionHash r) tx \<and> sameAddress (rc_from r) (op_owner p) \<and>
     (case rc_to r of None \<Rightarrow> False | Some t \<Rightarrow> t \<noteq> [] \<and> sameAddress t (op_target p))"

text \<open>From the receipt on: \<open>SUBMITTED\<close> or \<open>REORGED\<close> becomes \<open>MINED\<close> or \<open>REVERTED\<close>.\<close>

definition track_receipt :: "sync_env \<Rightarrow> chain_operation \<Rightarrow> chain_receipt \<Rightarrow> chain_checkpoint \<Rightarrow> chain_operation sync" where
  "track_receipt env p r c =
     (if op_state p = SUBMITTED \<or> op_state p = REORGED then
        sync_bind (transition env p (receipt_transition r)) (\<lambda>q.
        sync_bind (save_at env q p c) (\<lambda>_. sync_return q))
      else sync_return p)"

definition track_confirm ::
  "sync_env \<Rightarrow> sync_options \<Rightarrow> chain_operation \<Rightarrow> chain_receipt \<Rightarrow> chain_block \<Rightarrow> chain_checkpoint \<Rightarrow> chain_operation sync" where
  "track_confirm env so p r latest c =
     sync_bind (store_read (\<lambda>_. toCount (bk_number latest - rc_blockNumber r + 1))) (\<lambda>n.
     sync_bind (transition env p (To_CONFIRMING n (Some True))) (\<lambda>q.
     sync_bind (if n \<ge> so_softReadyDepth so
       then sync_bind (\<lambda>s. (s, Inr (clock env (fst s)))) (\<lambda>time. transition env q (To_CONFIRMED n time True))
       else sync_return q) (\<lambda>q'.
     sync_bind (save_at env q' p c) (\<lambda>_. sync_return q'))))"

definition track_reconcile ::
  "sync_env \<Rightarrow> sync_options \<Rightarrow> string \<Rightarrow> chain_operation \<Rightarrow> chain_receipt \<Rightarrow> chain_block \<Rightarrow> chain_block \<Rightarrow> chain_checkpoint \<Rightarrow>
   chain_operation sync" where
  "track_reconcile env so tx p r block latest c =
     sync_bind (store_read (\<lambda>db. canonicalEvents db (op_chainId p) (op_target p))) (\<lambda>es.
     sync_bind (sync_await env (\<lambda>k. reconcile env k p r (filter (\<lambda>e. sameHash (ev_transactionHash e) tx) es) block)) (\<lambda>res.
     case res of
       Mismatch code \<Rightarrow>
         if op_state p \<noteq> RECONCILIATION_FAILED then
           sync_bind (transition env p (To_RECONCILIATION_FAILED code)) (\<lambda>q.
           sync_bind (save_at env q p c) (\<lambda>_. sync_return q))
         else sync_return p
     | Match \<Rightarrow> track_confirm env so p r latest c))"

definition trackOperation :: "sync_env \<Rightarrow> sync_options \<Rightarrow> string \<Rightarrow> chain_block option \<Rightarrow> chain_operation sync" where
  "trackOperation env so oid synchronized =
     (let m = so_manifest so in
      sync_bind (store_read (\<lambda>db. operation db oid)) (\<lambda>found.
      case found of None \<Rightarrow> sync_fail ''OPERATION_NOT_FOUND''
      | Some p0 \<Rightarrow>
          sync_bind (sync_check (truthy (txHash p0) \<and> op_chainId p0 = mf_chainId m \<and> sameAddress (op_target p0) (mf_contract m))
            ''OPERATION_NOT_TRACKABLE'') (\<lambda>_.
          let tx = the (txHash p0) in
          sync_bind (case synchronized of Some b \<Rightarrow> sync_return (Some b) | None \<Rightarrow> sync_await env (rpc_latest env)) (\<lambda>l.
          case l of None \<Rightarrow> sync_fail ''CHAIN_HEAD_UNAVAILABLE''
          | Some latest \<Rightarrow>
              sync_bind (if synchronized = None
                then sync_join env (sync_bind (syncTo env so (bk_number latest) (bk_number latest)) (\<lambda>_. sync_return ()))
                else sync_return ()) (\<lambda>_.
              sync_bind (store_read (\<lambda>db. checkpoint db (mf_chainId m) (mf_contract m))) (\<lambda>cp.
              case cp of None \<Rightarrow> sync_fail ''CHAIN_SYNC_SUPERSEDED''
              | Some c \<Rightarrow>
                  sync_bind (sync_check (ck_number c = bk_number latest \<and> sameHash (ck_hash c) (bk_hash latest))
                    ''CHAIN_SYNC_SUPERSEDED'') (\<lambda>_.
                  sync_bind (store_read (\<lambda>db. syncHealth db (mf_chainId m) (mf_contract m))) (\<lambda>health.
                  sync_bind (sync_check (fst health) ''CHAIN_SYNC_SUPERSEDED'') (\<lambda>_.
                  sync_bind (store_read (\<lambda>db. operation db oid)) (\<lambda>again.
                  sync_bind (sync_await env (\<lambda>k. rpc_receipt env k tx)) (\<lambda>rec.
                  case (again, rec) of
                    (None, _) \<Rightarrow> sync_fail ''TypeError''
                  | (Some p, None) \<Rightarrow> sync_return p
                  | (Some p, Some r) \<Rightarrow>
                      sync_bind (sync_check (receipt_matches r tx p) ''RECEIPT_EVIDENCE_MISMATCH'') (\<lambda>_.
                      sync_bind (store_read (\<lambda>db. canonicalBlock db (op_chainId p) (op_target p) (rc_blockNumber r))) (\<lambda>b.
                      if (case b of None \<Rightarrow> True | Some x \<Rightarrow> \<not> sameHash (bk_hash x) (rc_blockHash r)) then sync_return p
                      else
                        sync_bind (track_receipt env p r c) (\<lambda>q.
                        if rc_status r = Reverted \<or> op_state q = REVERTED \<or> op_state q = CONFIRMED \<or>
                           op_state q \<notin> {MINED, CONFIRMING, RECONCILIATION_FAILED} then sync_return q
                        else track_reconcile env so tx q r (the b) latest c))))))))))))))"

definition recordReplacement :: "sync_env \<Rightarrow> string \<Rightarrow> string \<Rightarrow> chain_operation sync" where
  "recordReplacement env oid replacement =
     sync_bind (store_read (\<lambda>db. operation db oid)) (\<lambda>found.
     case found of None \<Rightarrow> sync_fail ''OPERATION_NOT_FOUND''
     | Some p \<Rightarrow>
         sync_bind (transition env p (To_REPLACED (Some replacement))) (\<lambda>q.
         sync_bind (store_update (\<lambda>db. saveOperation (parses env) db q)) (\<lambda>_. sync_return q)))"

definition recordDropped :: "sync_env \<Rightarrow> string \<Rightarrow> chain_operation sync" where
  "recordDropped env oid =
     sync_bind (store_read (\<lambda>db. operation db oid)) (\<lambda>found.
     case found of None \<Rightarrow> sync_fail ''OPERATION_NOT_FOUND''
     | Some p \<Rightarrow>
         sync_bind (transition env p To_DROPPED) (\<lambda>q.
         sync_bind (store_update (\<lambda>db. saveOperation (parses env) db q)) (\<lambda>_. sync_return q)))"

end
