(* ===== verification/Contract_Abi.thy ===== *)
theory Contract_Abi
  imports Hex_Words Chain_Sync
begin

text \<open>
  \<^bold>\<open>packages/chain-adapter/src/vault-abi.ts and pass-abi.ts\<close>: the call data of the Vault and of the strategy PASS and the
  decoding of results and events. A value of type \<open>unknown\<close> that is passed to an encoder is a bigint or a string. Shown: call data
  round trips in both directions, so what an operation does on chain can be read off its call data.
\<close>

definition or_throw :: "string \<Rightarrow> string + 'a \<Rightarrow> string + 'a" where
  "or_throw e r = (case r of Inl _ \<Rightarrow> Inl e | Inr x \<Rightarrow> Inr x)"

section \<open>The Vault's interface\<close>

datatype abi_argument = Abi_address | Abi_uint256

datatype abi_value = Abi_bigint int | Abi_string string

definition functionDefinitions :: "(string \<times> string \<times> abi_argument list) list" where
  "functionDefinitions = [
     (''afBtc()'', ''0xa8d937e9'', []),
     (''afEth()'', ''0xf20173bc'', []),
     (''afUsdc()'', ''0x8b5a851f'', []),
     (''close()'', ''0x43d726d6'', []),
     (''closed()'', ''0x597e1fb5'', []),
     (''deposit(uint256)'', ''0xb6b55f25'', [Abi_uint256]),
     (''openTrackedPositionCount()'', ''0x34dda870'', []),
     (''owner()'', ''0x8da5cb5b'', []),
     (''pass()'', ''0xa7a1ed72'', []),
     (''passLocker()'', ''0xab88dc4b'', []),
     (''passToUsdcRaw(uint256)'', ''0x18ba7fe2'', [Abi_uint256]),
     (''principalBasis()'', ''0xad587035'', []),
     (''realizedProfit()'', ''0x738b74f0'', []),
     (''rescueNative()'', ''0xfc82f084'', []),
     (''rescueUntrackedToken(address)'', ''0x45f5030f'', [Abi_address]),
     (''reservedTrackedBalance(address)'', ''0xc0bdb971'', [Abi_address]),
     (''strategyCreator()'', ''0x499bb2ab'', []),
     (''strategyId()'', ''0x492f4e18'', []),
     (''strategyRef()'', ''0xc288f3de'', []),
     (''trackedPosition(address)'', ''0xb31ede63'', [Abi_address]),
     (''trackedUsdcBalance()'', ''0x0510ca51'', []),
     (''untrackedExcess(address)'', ''0x21f38bbd'', [Abi_address]),
     (''usdcToPassRaw(uint256)'', ''0x643456f6'', [Abi_uint256]),
     (''withdraw(uint256)'', ''0x2e1a7d4d'', [Abi_uint256]),
     (''withdrawableUsdc()'', ''0x442ad6a0'', [])]"

definition eventTopics :: "(string \<times> string) list" where
  "eventTopics = [
     (''Closed(address,uint256,uint256)'', ''0x792b1058d55c02122048f16ecbfdaab6be257e8c903a60a01f220960238aefc7''),
     (''Deposited(address,uint256,uint256,uint256,uint256)'', ''0xe3b53cd1a44fbf11535e145d80b8ef1ed6d57a73bf5daa7e939b6b01657d6549''),
     (''NativeRescued(address,uint256)'', ''0xe3eb98b7fe2a0c1d490b92af73eeae611e9b00ab3c3f70b20bd7bb43f67a0f43''),
     (''TrackedPositionChanged(address,uint256,uint256)'', ''0xc918adb5da6f1094bf877bef10e664cd7ca5fb1216d89f807c19cdf60e5f1c88''),
     (''TrackedUsdcBalanceChanged(uint256,uint256)'', ''0x29a4ed269a24b639ce9313072bca1d8d408f35f61108737792b18153b9c5b470''),
     (''UntrackedTokenRescued(address,address,uint256)'', ''0x204874061edf1b61f01e55eb957ff789bf733451c43d111f54ba6d84122b7160''),
     (''Withdrawn(address,uint256,uint256,uint256,uint256,uint256,uint256)'',
      ''0x6b4651e8f4162f82274a25e57a29f7ed9156d17078e76dd4d05f04ba08831aa4'')]"

definition maximumUint256 :: int where
  "maximumUint256 = 2 ^ 256 - 1"

section \<open>Encoding\<close>

definition uintWord :: "abi_value \<Rightarrow> string + string" where
  "uintWord v = (case v of
     Abi_bigint n \<Rightarrow> if n < 0 \<or> n > maximumUint256 then Inl ''INVALID_M3_VAULT_CALL''
       else Inr (padStart (hex_text n) 64 (CHR ''0''))
   | Abi_string _ \<Rightarrow> Inl ''INVALID_M3_VAULT_CALL'')"

definition addressWord :: "abi_value \<Rightarrow> string + string" where
  "addressWord v = (case v of
     Abi_string s \<Rightarrow> bind_r (lift_chain (asAddress s)) (\<lambda>a. Inr (padStart (toLowerCase (drop 2 a)) 64 (CHR ''0'')))
   | Abi_bigint _ \<Rightarrow> Inl ''INVALID_M3_VAULT_CALL'')"

definition encodeM3VaultCall :: "string \<Rightarrow> abi_value list \<Rightarrow> string + string" where
  "encodeM3VaultCall signature values =
     (case map_of functionDefinitions signature of None \<Rightarrow> Inl ''INVALID_M3_VAULT_CALL''
      | Some (selector, arguments) \<Rightarrow>
          if length values \<noteq> length arguments then Inl ''INVALID_M3_VAULT_CALL''
          else bind_r (map_r (\<lambda>(type, v). if type = Abi_uint256 then uintWord v else addressWord v) (zip arguments values))
            (\<lambda>encoded. lift_chain (asHexData (selector @ concat encoded))))"

section \<open>Decoding\<close>

definition exactWords :: "string \<Rightarrow> nat \<Rightarrow> string + string list" where
  "exactWords data k = (if length data \<noteq> 2 + k * 64 then Inl ''INVALID_M3_VAULT_EVENT'' else Inr (words_of (drop 2 data)))"

definition parseUintWord :: "string \<Rightarrow> string + int" where
  "parseUintWord w = (if length w = 64 \<and> list_all is_hex w then Inr (hex_number w) else Inl ''INVALID_M3_VAULT_ABI_WORD'')"

definition address_word :: "string \<Rightarrow> bool" where
  "address_word w \<longleftrightarrow> length w = 64 \<and> take 24 w = replicate 24 (CHR ''0'') \<and> list_all is_hex (drop 24 w)"

definition parseAddressWord :: "string \<Rightarrow> string + string" where
  "parseAddressWord w = (if address_word w then lift_chain (asAddress (''0x'' @ drop 24 w)) else Inl ''INVALID_M3_VAULT_ABI_WORD'')"

definition outputWord :: "string \<Rightarrow> string + string" where
  "outputWord data = (if length data \<noteq> 66 then Inl ''INVALID_M3_VAULT_CALL_RESULT'' else Inr (drop 2 data))"

definition decodeM3VaultUintResult :: "string \<Rightarrow> string + int" where
  "decodeM3VaultUintResult data = or_throw ''INVALID_M3_VAULT_CALL_RESULT'' (bind_r (outputWord data) parseUintWord)"

definition decodeM3VaultAddressResult :: "string \<Rightarrow> string + string" where
  "decodeM3VaultAddressResult data = or_throw ''INVALID_M3_VAULT_CALL_RESULT'' (bind_r (outputWord data) parseAddressWord)"

definition decodeM3VaultBytes32Result :: "string \<Rightarrow> string + string" where
  "decodeM3VaultBytes32Result data =
     or_throw ''INVALID_M3_VAULT_CALL_RESULT'' (bind_r (outputWord data) (\<lambda>w. lift_chain (asHexData (''0x'' @ w))))"

definition decodeM3VaultBoolResult :: "string \<Rightarrow> string + bool" where
  "decodeM3VaultBoolResult data = bind_r (decodeM3VaultUintResult data) (\<lambda>v.
     if v \<noteq> 0 \<and> v \<noteq> 1 then Inl ''INVALID_M3_VAULT_CALL_RESULT'' else Inr (v = 1))"

datatype vault_calldata = DEPOSIT int | WITHDRAW int | CLOSE | RESCUE_UNTRACKED_TOKEN string | RESCUE_NATIVE

definition selector_of :: "string \<Rightarrow> string" where
  "selector_of signature = fst (the (map_of functionDefinitions signature))"

definition decode_action :: "string \<Rightarrow> string + vault_calldata option" where
  "decode_action data =
     (let selector = toLowerCase (take 10 data) in
      if selector = selector_of ''deposit(uint256)'' \<and> length data = 74
      then bind_r (parseUintWord (drop 10 data)) (\<lambda>n. Inr (Some (DEPOSIT n)))
      else if selector = selector_of ''withdraw(uint256)'' \<and> length data = 74
      then bind_r (parseUintWord (drop 10 data)) (\<lambda>n. Inr (Some (WITHDRAW n)))
      else if selector = selector_of ''close()'' \<and> length data = 10 then Inr (Some CLOSE)
      else if selector = selector_of ''rescueUntrackedToken(address)'' \<and> length data = 74
      then bind_r (parseAddressWord (drop 10 data)) (\<lambda>a. Inr (Some (RESCUE_UNTRACKED_TOKEN a)))
      else if selector = selector_of ''rescueNative()'' \<and> length data = 10 then Inr (Some RESCUE_NATIVE)
      else Inr None)"

definition decodeM3VaultCalldata :: "string \<Rightarrow> vault_calldata option" where
  "decodeM3VaultCalldata data = (case decode_action data of Inl _ \<Rightarrow> None | Inr r \<Rightarrow> r)"

section \<open>Events of the Vault\<close>

definition indexedAddress :: "string list \<Rightarrow> nat \<Rightarrow> string + string" where
  "indexedAddress topics index =
     (if index < length topics \<and> topics ! index \<noteq> []
      then or_throw ''INVALID_M3_VAULT_EVENT'' (parseAddressWord (drop 2 (topics ! index)))
      else Inl ''INVALID_M3_VAULT_EVENT'')"

definition uintValues :: "string \<Rightarrow> nat \<Rightarrow> string + string list" where
  "uintValues data k = or_throw ''INVALID_M3_VAULT_EVENT''
     (bind_r (exactWords data k) (map_r (\<lambda>w. bind_r (parseUintWord w) (\<lambda>n. Inr (toString n)))))"

text \<open>
  The branches of \<open>decodeM3VaultEvent\<close> differ in the name, the names of the indexed addresses and the names of the
  numbers in the data; every failure is the same error.
\<close>

definition event_branch :: "chain_log \<Rightarrow> string \<Rightarrow> string list \<Rightarrow> string list \<Rightarrow> string + decoded_event option" where
  "event_branch log name addresses numbers =
     bind_r (check (length (lg_topics log) = length addresses + 1) ''INVALID_M3_VAULT_EVENT'') (\<lambda>_.
     bind_r (uintValues (lg_data log) (length numbers)) (\<lambda>vs.
     bind_r (map_r (indexedAddress (lg_topics log)) [1..<length addresses + 1]) (\<lambda>as.
     Inr (Some \<lparr>de_signature = hd (lg_topics log), de_name = name,
       de_normalizedData = JObj (zip addresses (map JStr as) @ zip numbers (map JStr vs))\<rparr>))))"

definition decodeM3VaultEvent :: "chain_log \<Rightarrow> string + decoded_event option" where
  "decodeM3VaultEvent log =
     (if lg_topics log = [] \<or> hd (lg_topics log) = [] then Inr None
      else
        let topic = Some (toLowerCase (hd (lg_topics log))); at = map_of eventTopics in
        if topic = at ''Deposited(address,uint256,uint256,uint256,uint256)''
        then event_branch log ''Deposited'' [''owner''] [''usdcAmount'', ''passRaw'', ''principalBasis'', ''trackedUsdcBalance'']
        else if topic = at ''Withdrawn(address,uint256,uint256,uint256,uint256,uint256,uint256)''
        then event_branch log ''Withdrawn'' [''owner''] [''usdcAmount'', ''profitAmount'', ''principalAmount'', ''passRawUnlocked'',
          ''principalBasis'', ''trackedUsdcBalance'']
        else if topic = at ''Closed(address,uint256,uint256)''
        then event_branch log ''Closed'' [''owner''] [''usdcReturned'', ''passRawReleased'']
        else if topic = at ''TrackedUsdcBalanceChanged(uint256,uint256)''
        then event_branch log ''TrackedUsdcBalanceChanged'' [] [''previousBalance'', ''newBalance'']
        else if topic = at ''TrackedPositionChanged(address,uint256,uint256)''
        then event_branch log ''TrackedPositionChanged'' [''token''] [''previousAmount'', ''newAmount'']
        else if topic = at ''UntrackedTokenRescued(address,address,uint256)''
        then event_branch log ''UntrackedTokenRescued'' [''token'', ''owner''] [''amount'']
        else if topic = at ''NativeRescued(address,uint256)''
        then event_branch log ''NativeRescued'' [''owner''] [''amount'']
        else Inr None)"

section \<open>The strategy PASS\<close>

definition M3_STRATEGY_PASS_TRANSFER_TOPIC :: string where
  "M3_STRATEGY_PASS_TRANSFER_TOPIC = ''0xddf252ad1be2c89b69c2b068fc378daa952ba7f163c4a11628f55a4df523b3ef''"

definition nonzeroAddress :: "string \<Rightarrow> string + string" where
  "nonzeroAddress s = bind_r (lift_chain (asAddress s)) (\<lambda>a.
     if drop 2 a = replicate 40 (CHR ''0'') then Inl ''INVALID_M3_PASS_TRANSFER'' else Inr a)"

definition pass_address_word :: "string \<Rightarrow> string" where
  "pass_address_word a = padStart (toLowerCase (drop 2 a)) 64 (CHR ''0'')"

definition encodeM3StrategyPassTransfer :: "string \<Rightarrow> int \<Rightarrow> string + string" where
  "encodeM3StrategyPassTransfer recipient amountRaw =
     bind_r (nonzeroAddress recipient) (\<lambda>r.
     if amountRaw < 1 \<or> amountRaw > maximumUint256 then Inl ''INVALID_M3_PASS_TRANSFER''
     else lift_chain (asHexData (''0xa9059cbb'' @ pass_address_word r @ padStart (hex_text amountRaw) 64 (CHR ''0''))))"

text \<open>The decoded transfer is the pair of \<open>recipient\<close> and \<open>amountRaw\<close>.\<close>

definition decodeM3StrategyPassCalldata :: "string \<Rightarrow> (string \<times> int) option" where
  "decodeM3StrategyPassCalldata data =
     (if length data \<noteq> 138 \<or> toLowerCase (take 10 data) \<noteq> ''0xa9059cbb'' then None
      else
        let recipientWord = take 64 (drop 10 data) in
        if \<not> address_word recipientWord then None
        else case (nonzeroAddress (''0x'' @ drop 24 recipientWord), BigInt_hex (drop 74 data)) of
          (Inr recipient, Some amountRaw) \<Rightarrow> if amountRaw < 1 then None else Some (recipient, amountRaw)
        | _ \<Rightarrow> None)"

definition encodeM3StrategyPassBalanceOf :: "string \<Rightarrow> string + string" where
  "encodeM3StrategyPassBalanceOf owner =
     bind_r (lift_chain (asAddress owner)) (\<lambda>a. lift_chain (asHexData (''0x70a08231'' @ pass_address_word a)))"

definition M3_STRATEGY_PASS_DECIMALS_CALL :: string where "M3_STRATEGY_PASS_DECIMALS_CALL = ''0x313ce567''"
definition M3_STRATEGY_PASS_STRATEGY_ID_CALL :: string where "M3_STRATEGY_PASS_STRATEGY_ID_CALL = ''0x492f4e18''"

definition pass_indexed_address :: "string \<Rightarrow> string + string" where
  "pass_indexed_address topic =
     (if take 2 topic = ''0x'' \<and> address_word (drop 2 topic) then lift_chain (asAddress (''0x'' @ drop 26 topic))
      else Inl ''INVALID_M3_PASS_EVENT'')"

definition decodeM3StrategyPassEvent :: "chain_log \<Rightarrow> string + decoded_event option" where
  "decodeM3StrategyPassEvent log =
     (case lg_topics log of [] \<Rightarrow> Inr None
      | topic # topics \<Rightarrow>
          if toLowerCase topic \<noteq> toLowerCase M3_STRATEGY_PASS_TRANSFER_TOPIC then Inr None
          else
            bind_r (check (length topics = 2 \<and> hex_digits 64 (lg_data log)) ''INVALID_M3_PASS_EVENT'') (\<lambda>_.
            bind_r (pass_indexed_address (topics ! 0)) (\<lambda>f.
            bind_r (pass_indexed_address (topics ! 1)) (\<lambda>t.
            Inr (Some \<lparr>de_signature = M3_STRATEGY_PASS_TRANSFER_TOPIC, de_name = ''Transfer'',
              de_normalizedData = JObj [(''from'', JStr f), (''to'', JStr t),
                (''amountRaw'', JStr (toString (hex_number (drop 2 (lg_data log)))))]\<rparr>)))))"

section \<open>Words\<close>

lemma uintWord_Inr:
  "uintWord (Abi_bigint n) = Inr w \<longleftrightarrow> 0 \<le> n \<and> n \<le> maximumUint256 \<and> w = padStart (hex_text n) 64 (CHR ''0'')"
  by (auto simp: uintWord_def)

lemma uint_word:
  assumes "0 \<le> n" "n \<le> maximumUint256"
  shows "length (padStart (hex_text n) 64 (CHR ''0'')) = 64" "list_all is_hex (padStart (hex_text n) 64 (CHR ''0''))"
    "parseUintWord (padStart (hex_text n) 64 (CHR ''0'')) = Inr n"
proof -
  have "n < 16 ^ Suc 63" using assms(2) by (simp add: maximumUint256_def)
  then have "length (hex_text n) \<le> Suc 63" by (rule length_hex_text[OF assms(1)])
  then have "length (hex_text n) \<le> 64" by simp
  then show l: "length (padStart (hex_text n) 64 (CHR ''0'')) = 64" by (rule length_padStart)
  show h: "list_all is_hex (padStart (hex_text n) 64 (CHR ''0''))" using hex_text_hex(1) by (rule all_padStart) simp
  show "parseUintWord (padStart (hex_text n) 64 (CHR ''0'')) = Inr n" using assms(1) l h by (simp add: parseUintWord_def)
qed

lemma parseUintWord_Inr:
  assumes "parseUintWord w = Inr n"
  shows "uintWord (Abi_bigint n) = Inr (toLowerCase w)" "length w = 64" "list_all is_hex w"
proof -
  from assms show w: "length w = 64" "list_all is_hex w" by (simp_all add: parseUintWord_def split: if_splits)
  have n: "n = hex_number w" using assms w by (simp add: parseUintWord_def)
  have "(16::int) ^ 64 = maximumUint256 + 1" by (simp add: maximumUint256_def)
  then have "0 \<le> n" "n \<le> maximumUint256" using hex_number_bound[OF w(2)] w(1) n by simp_all
  moreover have "padStart (hex_text n) 64 (CHR ''0'') = toLowerCase w" using pad_hex_number[OF w(2)] w(1) n by simp
  ultimately show "uintWord (Abi_bigint n) = Inr (toLowerCase w)" by (simp add: uintWord_Inr)
qed

lemma lower_0x: "toLowerCase (''0x'' @ s) = ''0x'' @ toLowerCase s"
proof -
  have "toLowerCase ''0x'' = ''0x''" by code_simp
  then show ?thesis by (simp add: toLowerCase_def)
qed

lemma toLowerCase_append: "toLowerCase (s @ t) = toLowerCase s @ toLowerCase t"
  by (simp add: toLowerCase_def)

lemma length_toLowerCase [simp]: "length (toLowerCase s) = length s"
  by (simp add: toLowerCase_def)

lemma lower_hex_all: "list_all is_hex s \<Longrightarrow> list_all is_hex (toLowerCase s)"
  using lower_all_hex lower_hex_is_hex by (auto simp: list_all_iff)

lemma zeros_hex [simp]: "list_all is_hex (replicate k (CHR ''0''))"
  by (simp add: list_all_iff)

lemma asAddress_Inr: "asAddress s = Inr a \<longleftrightarrow> a = s \<and> hex_digits 40 s"
  by (auto simp: asAddress_def checkedHex_def)

lemma hex_digits_0x: "hex_digits k s \<longleftrightarrow> (\<exists>d. s = ''0x'' @ d \<and> length d = k \<and> list_all is_hex d)"
proof
  assume h: "hex_digits k s"
  then have "s = ''0x'' @ drop 2 s" unfolding hex_digits_def by (metis append_take_drop_id)
  then show "\<exists>d. s = ''0x'' @ d \<and> length d = k \<and> list_all is_hex d" using h unfolding hex_digits_def by (metis add_diff_cancel_right' length_drop)
qed (auto simp: hex_digits_def)

lemma addressWord_Inr:
  "addressWord (Abi_string s) = Inr w \<longleftrightarrow> (\<exists>d. s = ''0x'' @ d \<and> length d = 40 \<and> list_all is_hex d \<and>
     w = replicate 24 (CHR ''0'') @ toLowerCase d)"
  by (auto simp: addressWord_def bind_r_Inr lift_chain_Inr asAddress_Inr hex_digits_0x padStart_def)

lemma address_word_iff: "address_word w \<longleftrightarrow> (\<exists>d. w = replicate 24 (CHR ''0'') @ d \<and> length d = 40 \<and> list_all is_hex d)"
proof
  assume h: "address_word w"
  then have "w = replicate 24 (CHR ''0'') @ drop 24 w" unfolding address_word_def by (metis append_take_drop_id)
  moreover have "length (drop 24 w) = 40" "list_all is_hex (drop 24 w)" using h by (simp_all add: address_word_def)
  ultimately show "\<exists>d. w = replicate 24 (CHR ''0'') @ d \<and> length d = 40 \<and> list_all is_hex d" by blast
qed (auto simp: address_word_def)

lemma parseAddressWord_Inr:
  "parseAddressWord w = Inr a \<longleftrightarrow> (\<exists>d. w = replicate 24 (CHR ''0'') @ d \<and> length d = 40 \<and> list_all is_hex d \<and> a = ''0x'' @ d)"
  by (auto simp: parseAddressWord_def address_word_iff lift_chain_Inr asAddress_Inr hex_digits_0x)

section \<open>Call data\<close>

text \<open>The call that an action stands for.\<close>

fun call_of :: "vault_calldata \<Rightarrow> string + string" where
  "call_of (DEPOSIT n) = encodeM3VaultCall ''deposit(uint256)'' [Abi_bigint n]"
| "call_of (WITHDRAW n) = encodeM3VaultCall ''withdraw(uint256)'' [Abi_bigint n]"
| "call_of CLOSE = encodeM3VaultCall ''close()'' []"
| "call_of (RESCUE_UNTRACKED_TOKEN a) = encodeM3VaultCall ''rescueUntrackedToken(address)'' [Abi_string a]"
| "call_of RESCUE_NATIVE = encodeM3VaultCall ''rescueNative()'' []"

fun lower_action :: "vault_calldata \<Rightarrow> vault_calldata" where
  "lower_action (RESCUE_UNTRACKED_TOKEN a) = RESCUE_UNTRACKED_TOKEN (toLowerCase a)"
| "lower_action a = a"

lemma selectors:
  "selector_of ''deposit(uint256)'' = ''0xb6b55f25''" "selector_of ''withdraw(uint256)'' = ''0x2e1a7d4d''"
  "selector_of ''close()'' = ''0x43d726d6''" "selector_of ''rescueUntrackedToken(address)'' = ''0x45f5030f''"
  "selector_of ''rescueNative()'' = ''0xfc82f084''"
  by code_simp+

lemma lower_selectors:
  "toLowerCase ''0xb6b55f25'' = ''0xb6b55f25''" "toLowerCase ''0x2e1a7d4d'' = ''0x2e1a7d4d''"
  "toLowerCase ''0x43d726d6'' = ''0x43d726d6''" "toLowerCase ''0x45f5030f'' = ''0x45f5030f''"
  "toLowerCase ''0xfc82f084'' = ''0xfc82f084''"
  by code_simp+

lemma definitions_at:
  "map_of functionDefinitions ''deposit(uint256)'' = Some (''0xb6b55f25'', [Abi_uint256])"
  "map_of functionDefinitions ''withdraw(uint256)'' = Some (''0x2e1a7d4d'', [Abi_uint256])"
  "map_of functionDefinitions ''close()'' = Some (''0x43d726d6'', [])"
  "map_of functionDefinitions ''rescueUntrackedToken(address)'' = Some (''0x45f5030f'', [Abi_address])"
  "map_of functionDefinitions ''rescueNative()'' = Some (''0xfc82f084'', [])"
  by code_simp+

lemma asHexData_word: "take 2 sel = ''0x'' \<Longrightarrow> length sel = 10 \<Longrightarrow> list_all is_hex (drop 2 sel) \<Longrightarrow>
  length w \<in> {0, 64} \<Longrightarrow> list_all is_hex w \<Longrightarrow> asHexData (sel @ w) = Inr (sel @ w)"
  by (auto simp: asHexData_def)

lemma hex_selectors:
  "list_all is_hex (drop 2 ''0xb6b55f25'')" "list_all is_hex (drop 2 ''0x2e1a7d4d'')" "list_all is_hex (drop 2 ''0x43d726d6'')"
  "list_all is_hex (drop 2 ''0x45f5030f'')" "list_all is_hex (drop 2 ''0xfc82f084'')"
  by code_simp+

lemma call_of_uint:
  assumes "map_of functionDefinitions sg = Some (sel, [Abi_uint256])" "take 2 sel = ''0x''" "length sel = 10" "list_all is_hex (drop 2 sel)"
  shows "encodeM3VaultCall sg [Abi_bigint n] = Inr d \<longleftrightarrow> (\<exists>w. uintWord (Abi_bigint n) = Inr w \<and> d = sel @ w)"
proof -
  have "asHexData (sel @ w) = Inr (sel @ w)" if "uintWord (Abi_bigint n) = Inr w" for w
    using that uint_word[of n] by (intro asHexData_word assms) (auto simp: uintWord_Inr)
  then show ?thesis using assms(1) by (auto simp: encodeM3VaultCall_def bind_r_Inr lift_chain_Inr)
qed

lemma call_of_address:
  assumes "map_of functionDefinitions sg = Some (sel, [Abi_address])" "take 2 sel = ''0x''" "length sel = 10" "list_all is_hex (drop 2 sel)"
  shows "encodeM3VaultCall sg [Abi_string a] = Inr d \<longleftrightarrow> (\<exists>w. addressWord (Abi_string a) = Inr w \<and> d = sel @ w)"
proof -
  have "asHexData (sel @ w) = Inr (sel @ w)" if "addressWord (Abi_string a) = Inr w" for w
    using that lower_hex_all by (intro asHexData_word assms) (auto simp: addressWord_Inr)
  then show ?thesis using assms(1) by (auto simp: encodeM3VaultCall_def bind_r_Inr lift_chain_Inr)
qed

lemma call_of_none:
  assumes "map_of functionDefinitions sg = Some (sel, [])" "take 2 sel = ''0x''" "length sel = 10" "list_all is_hex (drop 2 sel)"
  shows "encodeM3VaultCall sg [] = Inr sel"
  using assms asHexData_word[of sel "[]"] by (simp add: encodeM3VaultCall_def lift_chain_Inr)

lemmas calls = call_of_uint[OF definitions_at(1) _ _ hex_selectors(1), simplified]
  call_of_uint[OF definitions_at(2) _ _ hex_selectors(2), simplified] call_of_none[OF definitions_at(3) _ _ hex_selectors(3), simplified]
  call_of_address[OF definitions_at(4) _ _ hex_selectors(4), simplified] call_of_none[OF definitions_at(5) _ _ hex_selectors(5), simplified]

lemma lower_zero [simp]: "lower_char (CHR ''0'') = CHR ''0''"
  using lower_hex_lower zero_lower_hex by blast

lemma decode_call:
  assumes "call_of a = Inr data"
  shows "decode_action data = Inr (Some (lower_action a))"
proof (cases a)
  case (DEPOSIT n)
  then show ?thesis using assms uint_word[of n]
    by (auto simp: calls uintWord_Inr decode_action_def selectors lower_selectors)
next
  case (WITHDRAW n)
  then show ?thesis using assms uint_word[of n]
    by (auto simp: calls uintWord_Inr decode_action_def selectors lower_selectors)
next
  case (RESCUE_UNTRACKED_TOKEN t)
  then obtain d where d: "t = ''0x'' @ d" "length d = 40" "list_all is_hex d"
    "data = ''0x45f5030f'' @ replicate 24 (CHR ''0'') @ toLowerCase d"
    using assms by (auto simp: calls addressWord_Inr)
  have "parseAddressWord (replicate 24 (CHR ''0'') @ toLowerCase d) = Inr (''0x'' @ toLowerCase d)"
    using d(2) lower_hex_all[OF d(3)] by (auto simp: parseAddressWord_Inr)
  moreover have "lower_action a = RESCUE_UNTRACKED_TOKEN (''0x'' @ toLowerCase d)"
    using RESCUE_UNTRACKED_TOKEN d(1) lower_0x[of d] by simp
  ultimately show ?thesis using d(2,4) by (simp add: decode_action_def selectors lower_selectors)
next
  case CLOSE
  then have "data = ''0x43d726d6''" using assms by (simp add: calls)
  then show ?thesis using CLOSE by (simp add: decode_action_def selectors lower_selectors)
next
  case RESCUE_NATIVE
  then have "data = ''0xfc82f084''" using assms by (simp add: calls)
  then show ?thesis using RESCUE_NATIVE by (simp add: decode_action_def selectors lower_selectors)
qed

lemma action_data:
  assumes "decode_action data = Inr (Some a)"
  shows "call_of a = Inr (toLowerCase data)"
proof -
  let ?s = "take 10 data" and ?w = "drop 10 data"
  have data: "toLowerCase data = toLowerCase ?s @ toLowerCase ?w" by (simp flip: toLowerCase_append)
  consider (d) n where "toLowerCase ?s = ''0xb6b55f25''" "parseUintWord ?w = Inr n" "a = DEPOSIT n"
    | (w) n where "toLowerCase ?s = ''0x2e1a7d4d''" "parseUintWord ?w = Inr n" "a = WITHDRAW n"
    | (c) "toLowerCase ?s = ''0x43d726d6''" "?w = []" "a = CLOSE"
    | (t) t where "toLowerCase ?s = ''0x45f5030f''" "parseAddressWord ?w = Inr t" "a = RESCUE_UNTRACKED_TOKEN t"
    | (n) "toLowerCase ?s = ''0xfc82f084''" "?w = []" "a = RESCUE_NATIVE"
    using assms unfolding decode_action_def Let_def selectors by (auto simp: bind_r_Inr split: if_splits)
  then show ?thesis
  proof cases
    case d
    then show ?thesis using parseUintWord_Inr(1)[OF d(2)] by (simp add: calls data)
  next
    case w
    then show ?thesis using parseUintWord_Inr(1)[OF w(2)] by (simp add: calls data)
  next
    case t
    then obtain d where "?w = replicate 24 (CHR ''0'') @ d" "length d = 40" "list_all is_hex d" "t = ''0x'' @ d"
      by (auto simp: parseAddressWord_Inr)
    moreover from this have "toLowerCase ?w = replicate 24 (CHR ''0'') @ toLowerCase d"
      by (simp add: toLowerCase_append) (simp add: toLowerCase_def)
    ultimately have "addressWord (Abi_string t) = Inr (toLowerCase ?w)" by (simp add: addressWord_Inr)
    then show ?thesis using t by (simp add: calls data)
  qed (simp_all add: calls data toLowerCase_def)
qed

text \<open>C29: Call data of the Vault can be read back. Every call the client can encode for one of the five actions is decoded
  to that action (a token's address in lower case), and every call data that is decoded to an action is the encoding
  of that action, up to the case of the digits. So two actions never share call data, and nothing but such call data
  is taken for an action.\<close>

theorem vault_calldata_roundtrip:
  "(call_of a = Inr data \<longrightarrow> decodeM3VaultCalldata data = Some (lower_action a)) \<and>
   (decodeM3VaultCalldata data = Some b \<longrightarrow> call_of b = Inr (toLowerCase data))"
  using decode_call[of a data] action_data[of data b]
  by (auto simp: decodeM3VaultCalldata_def split: sum.splits)

theorem vault_calldata_roundtrip_witness:
  "\<exists>data. call_of (DEPOSIT 1000000) = Inr data \<and> decodeM3VaultCalldata data = Some (DEPOSIT 1000000)"
proof -
  have "call_of (DEPOSIT 1000000) = Inr (''0xb6b55f25'' @ padStart (hex_text 1000000) 64 (CHR ''0''))"
    by (auto simp: calls uintWord_Inr maximumUint256_def)
  then show ?thesis using vault_calldata_roundtrip[of "DEPOSIT 1000000"] by fastforce
qed

section \<open>Transfers\<close>

lemma nonzeroAddress_Inr:
  "nonzeroAddress s = Inr a \<longleftrightarrow> a = s \<and> (\<exists>d. s = ''0x'' @ d \<and> length d = 40 \<and> list_all is_hex d \<and> d \<noteq> replicate 40 (CHR ''0''))"
proof -
  define z where "z = replicate 40 (CHR ''0'')"
  show ?thesis
  proof (cases "hex_digits 40 s")
    case True
    then obtain d where d: "s = ''0x'' @ d" "length d = 40" "list_all is_hex d" unfolding hex_digits_0x by blast
    have "nonzeroAddress s = (if d = z then Inl ''INVALID_M3_PASS_TRANSFER'' else Inr s)"
      using True by (simp add: nonzeroAddress_def asAddress_def checkedHex_def lift_chain_def z_def d(1))
    moreover have "(\<exists>d. s = ''0x'' @ d \<and> length d = 40 \<and> list_all is_hex d \<and> d \<noteq> z) \<longleftrightarrow> d \<noteq> z" using d by simp
    ultimately show ?thesis unfolding z_def[symmetric] by (cases "d = z") auto
  next
    case False
    then have "nonzeroAddress s \<noteq> Inr a" by (simp add: nonzeroAddress_def asAddress_def checkedHex_def lift_chain_def)
    then show ?thesis using False unfolding hex_digits_0x by blast
  qed
qed

lemma map_eq_replicate: "map f xs = replicate (length xs) x \<longleftrightarrow> (\<forall>c\<in>set xs. f c = x)"
  by (induction xs) auto

lemma lower_not_zeros:
  assumes "list_all is_hex d" "length d = 40"
  shows "toLowerCase d = replicate 40 (CHR ''0'') \<longleftrightarrow> d = replicate 40 (CHR ''0'')"
proof -
  have "list_all (\<lambda>c. lower_char c = CHR ''0'' \<longrightarrow> c = CHR ''0'') ''0123456789abcdefABCDEF''" by code_simp
  then have c: "lower_char c = CHR ''0'' \<longleftrightarrow> c = CHR ''0''" if "is_hex c" for c
    using that unfolding is_hex_def list_all_iff by auto
  show ?thesis
    using map_eq_replicate[of lower_char d "CHR ''0''"] map_eq_replicate[of id d "CHR ''0''"] assms c
    unfolding toLowerCase_def list_all_iff by auto
qed

lemma lower_transfer: "toLowerCase ''0xa9059cbb'' = ''0xa9059cbb''" "list_all is_hex ''a9059cbb''"
  by code_simp+

lemma encode_transfer_Inr:
  "encodeM3StrategyPassTransfer r n = Inr data \<longleftrightarrow> 1 \<le> n \<and> n \<le> maximumUint256 \<and>
     (\<exists>d. r = ''0x'' @ d \<and> length d = 40 \<and> list_all is_hex d \<and> d \<noteq> replicate 40 (CHR ''0'') \<and>
       data = ''0xa9059cbb'' @ (replicate 24 (CHR ''0'') @ toLowerCase d) @ padStart (hex_text n) 64 (CHR ''0''))"
  (is "?l \<longleftrightarrow> ?r")
proof -
  have h: "asHexData (''0xa9059cbb'' @ (replicate 24 (CHR ''0'') @ toLowerCase d) @ padStart (hex_text n) 64 (CHR ''0'')) =
      Inr (''0xa9059cbb'' @ (replicate 24 (CHR ''0'') @ toLowerCase d) @ padStart (hex_text n) 64 (CHR ''0''))"
    if "1 \<le> n" "n \<le> maximumUint256" "length d = 40" "list_all is_hex d" for d
    using uint_word(1,2)[of n] that lower_hex_all[OF that(4)] lower_transfer(2) by (simp add: asHexData_def)
  show ?thesis
    by (auto simp: encodeM3StrategyPassTransfer_def bind_r_Inr nonzeroAddress_Inr pass_address_word_def padStart_def[of "toLowerCase _"]
        lift_chain_Inr h[simplified] split: if_splits)
qed

text \<open>Transfers of the PASS can be read back: the call data of a transfer is decoded to its recipient (in lower case) and
  amount, and call data that is decoded to a transfer, if it is hexadecimal, is the encoding of that transfer up to
  the case of the digits; the zero address and the amount zero are neither encoded nor decoded.\<close>

theorem pass_transfer_roundtrip:
  "(encodeM3StrategyPassTransfer r n = Inr data \<longrightarrow> decodeM3StrategyPassCalldata data = Some (toLowerCase r, n)) \<and>
   (decodeM3StrategyPassCalldata data = Some (q, k) \<and> list_all is_hex (drop 2 data) \<longrightarrow>
      encodeM3StrategyPassTransfer q k = Inr (toLowerCase data))"
proof (intro conjI impI)
  assume "encodeM3StrategyPassTransfer r n = Inr data"
  then obtain d where d: "1 \<le> n" "n \<le> maximumUint256" "r = ''0x'' @ d" "length d = 40" "list_all is_hex d" "d \<noteq> replicate 40 (CHR ''0'')"
    "data = ''0xa9059cbb'' @ (replicate 24 (CHR ''0'') @ toLowerCase d) @ padStart (hex_text n) 64 (CHR ''0'')"
    unfolding encode_transfer_Inr by blast
  let ?w = "replicate 24 (CHR ''0'') @ toLowerCase d" and ?u = "padStart (hex_text n) 64 (CHR ''0'')"
  have u: "length ?u = 64" "list_all is_hex ?u" "hex_number ?u = n" using uint_word(1,2)[of n] d(1,2) by simp_all
  have p: "length data = 138" "take 10 data = ''0xa9059cbb''" "take 64 (drop 10 data) = ?w" "drop 74 data = ?u"
    using d(4,7) u(1) by simp_all
  have w: "address_word ?w" "drop 24 ?w = toLowerCase d" using d(4) lower_hex_all[OF d(5)] by (auto simp: address_word_iff)
  have "nonzeroAddress (''0x'' @ toLowerCase d) = Inr (''0x'' @ toLowerCase d)"
    using d(4,6) lower_hex_all[OF d(5)] lower_not_zeros[OF d(5,4)] by (auto simp: nonzeroAddress_Inr)
  moreover have "BigInt_hex ?u = Some n" using BigInt_hex_digits[OF _ u(2)] u(1,3) by fastforce
  ultimately show "decodeM3StrategyPassCalldata data = Some (toLowerCase r, n)"
    unfolding decodeM3StrategyPassCalldata_def p Let_def w(2) lower_transfer(1) d(3) lower_0x using w(1) d(1) by simp
next
  assume a: "decodeM3StrategyPassCalldata data = Some (q, k) \<and> list_all is_hex (drop 2 data)"
  let ?w = "take 64 (drop 10 data)" and ?u = "drop 74 data"
  have l: "length data = 138" "toLowerCase (take 10 data) = ''0xa9059cbb''" "address_word ?w" "1 \<le> k"
    "nonzeroAddress (''0x'' @ drop 24 ?w) = Inr q" "BigInt_hex ?u = Some k"
    using a unfolding decodeM3StrategyPassCalldata_def Let_def by (auto split: if_splits sum.splits option.splits)
  have "drop 74 data = drop 72 (drop 2 data)" by simp
  then have "set ?u \<subseteq> set (drop 2 data)" using set_drop_subset by metis
  then have u: "list_all is_hex ?u" "length ?u = 64" using a l(1) by (auto simp: list_all_iff)
  then have k: "k = hex_number ?u" using BigInt_hex_digits[of ?u] l(6) by fastforce
  obtain d where d: "?w = replicate 24 (CHR ''0'') @ d" "length d = 40" "list_all is_hex d" "q = ''0x'' @ d" "d \<noteq> replicate 40 (CHR ''0'')"
    using l(3,5) by (auto simp: address_word_iff nonzeroAddress_Inr)
  have "parseUintWord ?u = Inr k" using u k by (simp add: parseUintWord_def)
  then have b: "k \<le> maximumUint256" and pd: "padStart (hex_text k) 64 (CHR ''0'') = toLowerCase ?u"
    using parseUintWord_Inr(1)[of ?u k] by (simp_all add: uintWord_Inr)
  have "toLowerCase data = toLowerCase (take 10 data) @ toLowerCase ?w @ toLowerCase ?u"
    unfolding toLowerCase_append[symmetric]
    using append_take_drop_id[of 10 data] append_take_drop_id[of 64 "drop 10 data"] by simp
  moreover have "toLowerCase ?w = replicate 24 (CHR ''0'') @ toLowerCase d"
    unfolding d(1) by (simp add: toLowerCase_def)
  ultimately have "toLowerCase data = ''0xa9059cbb'' @ (replicate 24 (CHR ''0'') @ toLowerCase d) @ padStart (hex_text k) 64 (CHR ''0'')"
    unfolding pd l(2) by simp
  then show "encodeM3StrategyPassTransfer q k = Inr (toLowerCase data)"
    unfolding encode_transfer_Inr using l(4) b d(2-5) by blast
qed

theorem pass_transfer_roundtrip_witness:
  "\<exists>data. encodeM3StrategyPassTransfer (''0x'' @ replicate 40 (CHR ''a'')) 5 = Inr data \<and>
    decodeM3StrategyPassCalldata data = Some (toLowerCase (''0x'' @ replicate 40 (CHR ''a'')), 5)"
proof -
  have h: "list_all is_hex (replicate 40 (CHR ''a''))" "replicate 40 (CHR ''a'') \<noteq> replicate 40 (CHR ''0'')" by code_simp+
  obtain data where "encodeM3StrategyPassTransfer (''0x'' @ replicate 40 (CHR ''a'')) 5 = Inr data"
    unfolding encode_transfer_Inr using h by (simp only: maximumUint256_def) fastforce
  then show ?thesis using pass_transfer_roundtrip[of "''0x'' @ replicate 40 (CHR ''a'')" 5 data] by blast
qed

end
