(* ===== verification/Chain_Sync_Properties.thy ===== *)
theory Chain_Sync_Properties
  imports Chain_Sync
begin

text \<open>
  What a run of the synchronizer does to the chain store, with any answers from the chain and any other workers on
  the same database: it is a sequence of store methods (\<open>sync_invariant\<close> is the contract of a predicate that those
  methods and the other workers keep), a \<open>syncTo\<close> that returns has left a healthy, fully projected checkpoint and
  given back its lease, and an operation is confirmed only on a matching, canonical and deep enough receipt. With a
  chain that answers consistently and no other worker, the checkpoint ends up on that chain.
\<close>

section \<open>Runs are sequences of store methods\<close>

definition keeps :: "(chain_db \<Rightarrow> bool) \<Rightarrow> 'a sync \<Rightarrow> bool" where
  "keeps P m \<longleftrightarrow> (\<forall>s. P (snd s) \<longrightarrow> P (snd (fst (m s))))"

lemma keepsD: "keeps P m \<Longrightarrow> m s = (t, r) \<Longrightarrow> P (snd s) \<Longrightarrow> P (snd t)"
  unfolding keeps_def by (metis fst_conv)

lemma keeps_basic [intro, simp]: "keeps P (sync_return x)" "keeps P (sync_fail e)" "keeps P (store_read f)" "keeps P (sync_check b e)"
  by (simp_all add: keeps_def sync_return_def sync_fail_def store_read_def sync_check_def)

lemma keeps_bind [intro]:
  assumes "keeps P m" "\<And>x. keeps P (f x)"
  shows "keeps P (sync_bind m f)"
  unfolding keeps_def
proof (intro allI impI)
  fix s :: "nat \<times> chain_db" assume p: "P (snd s)"
  obtain t r where m: "m s = (t, r)" by fastforce
  have "P (snd t)" using keepsD[OF assms(1) m p] .
  then show "P (snd (fst (sync_bind m f s)))"
    using assms(2) m by (cases t; cases r) (simp_all add: sync_bind_def keeps_def)
qed

lemma keeps_catch [intro]:
  assumes "keeps P m" "\<And>e. keeps P (h e)"
  shows "keeps P (sync_catch m h)"
  unfolding keeps_def
proof (intro allI impI)
  fix s :: "nat \<times> chain_db" assume p: "P (snd s)"
  obtain t r where m: "m s = (t, r)" by fastforce
  have "P (snd t)" using keepsD[OF assms(1) m p] .
  then show "P (snd (fst (sync_catch m h s)))"
    using assms(2) m by (cases t; cases r) (simp_all add: sync_catch_def keeps_def)
qed

lemma keeps_pure [simp]: "keeps P (\<lambda>s. (s, f s))"
  by (simp add: keeps_def)

lemma keeps_write:
  assumes "\<And>db db' x. P db \<Longrightarrow> f db = Inr (db', x) \<Longrightarrow> P db'"
  shows "keeps P (store_write f)"
  using assms by (auto simp: keeps_def store_write_def split: sum.splits)

lemma keeps_update:
  assumes "\<And>db db'. P db \<Longrightarrow> f db = Inr db' \<Longrightarrow> P db'"
  shows "keeps P (store_update f)"
  unfolding store_update_def by (rule keeps_write) (use assms in \<open>auto simp: bind_r_Inr\<close>)

locale sync_invariant =
  fixes env :: sync_env and P :: "chain_db \<Rightarrow> bool"
  assumes others_keep: "P db \<Longrightarrow> P (interfere env k db)"
    and store_keeps: "P db \<Longrightarrow> chain_store_step (parses env) db x = Inr db' \<Longrightarrow> P db'"
begin

lemma keeps_await: "keeps P (sync_await env f)" "keeps P (pause env)"
  using others_keep by (simp_all add: keeps_def sync_await_def pause_def)

lemma keeps_join: "keeps P m \<Longrightarrow> keeps P (sync_join env m)"
  unfolding keeps_def
proof (intro allI impI)
  fix s :: "nat \<times> chain_db" assume m: "\<forall>s. P (snd s) \<longrightarrow> P (snd (fst (m s)))" and p: "P (snd s)"
  then have "P (snd (fst (m s)))" by blast
  then show "P (snd (fst (sync_join env m s)))" using others_keep by (simp add: sync_join_def case_prod_beta)
qed

lemma keeps_rollback: "keeps P (store_write (\<lambda>db. rollbackFromBlock db i c n w))"
  by (rule keeps_write, erule store_keeps[where x = "Roll_Back i c n w"]) simp

lemma keeps_record: "keeps P (store_write (\<lambda>db. recordCanonicalBlock db i c b es t w))"
  by (rule keeps_write, erule store_keeps[where x = "Record_Block i c b es t w"]) simp

lemma keeps_healthy: "keeps P (store_write (\<lambda>db. markSyncHealthy db i c t w))"
  by (rule keeps_write, erule store_keeps[where x = "Mark_Healthy i c t w"]) simp

lemma keeps_updates:
  "keeps P (store_update (\<lambda>db. claimSync db i c t v))" "keeps P (store_update (\<lambda>db. markSyncUnhealthy db i c e n w))"
  "keeps P (store_update (\<lambda>db. releaseSyncIncomplete db i c t v))"
  "keeps P (store_update (\<lambda>db. commitProjections db i c b ps w))"
  "keeps P (store_update (\<lambda>db. saveOperation (parses env) db q))"
  "keeps P (store_update (\<lambda>db. saveOperationAtCheckpoint (parses env) db q p k))"
  by (rule keeps_update, erule store_keeps[where x = "Claim_Sync i c t v"], simp)
    (rule keeps_update, erule store_keeps[where x = "Mark_Unhealthy i c e n w"], simp,
     rule keeps_update, erule store_keeps[where x = "Release_Incomplete i c t v"], simp,
     rule keeps_update, erule store_keeps[where x = "Commit_Projections i c b ps w"], simp,
     rule keeps_update, erule store_keeps[where x = "Save_Operation q"], simp,
     rule keeps_update, erule store_keeps[where x = "Save_At_Checkpoint q p k"], simp)

lemmas keeps_all = keeps_await keeps_join keeps_rollback keeps_record keeps_healthy keeps_updates

lemma keeps_assertChain: "keeps P (assertChain env m)"
  unfolding assertChain_def by (intro keeps_bind keeps_all keeps_basic)

lemma keeps_rewind_loop: "keeps P (rewind_loop env m token left candidate)"
proof (induction left arbitrary: candidate)
  case 0
  show ?case unfolding rewind_loop.simps[of env m token 0] Let_def by (auto intro!: keeps_bind keeps_all)
next
  case (Suc left)
  show ?case unfolding rewind_loop.simps[of env m token "Suc left"] Let_def
    by (auto intro!: keeps_bind keeps_all Suc.IH split: option.split)
qed

lemma keeps_rewind: "keeps P (rewindIfNeeded env so token)"
  unfolding rewindIfNeeded_def Let_def by (auto intro!: keeps_bind keeps_all keeps_rewind_loop split: option.split)

lemma keeps_rebuild: "keeps P (rebuildProjection env m block token)"
  unfolding rebuildProjection_def by (intro keeps_bind keeps_all keeps_basic)

lemma keeps_recover: "keeps P (recoverProjection env m token)"
  unfolding recoverProjection_def
  by (auto intro!: keeps_bind keeps_catch keeps_all keeps_rebuild split: option.split)

lemma keeps_scan: "keeps P (scan_block env m required token number)"
  unfolding scan_block_def project_or_rollback_def
  by (auto intro!: keeps_bind keeps_catch keeps_all keeps_rebuild split: option.split)

lemma keeps_scans: "keeps P (scan_blocks env m required token k number n)"
  by (induction k arbitrary: number n) (auto intro!: keeps_bind keeps_scan)

lemma keeps_finish: "keeps P (finish_sync m head required token)"
  unfolding finish_sync_def by (auto intro!: keeps_bind keeps_all)

lemma keeps_claim: "keeps P (sync_claim env so head required)"
  unfolding sync_claim_def Let_def by (auto intro!: keeps_bind keeps_all keeps_assertChain split: option.split)

lemma keeps_work: "keeps P (sync_work env so head required)"
  unfolding sync_work_def sync_scan_def Let_def
  by (auto intro!: keeps_bind keeps_all keeps_claim keeps_rewind keeps_recover keeps_scans split: option.split)

lemma keeps_body: "keeps P (sync_body env so head required)"
  unfolding sync_body_def by (auto intro!: keeps_bind keeps_work keeps_finish split: prod.split)

lemma keeps_syncTo: "keeps P (syncTo env so head required)"
  unfolding syncTo_def by (intro keeps_bind keeps_all keeps_body)

lemma keeps_tracking:
  "keeps P (save_at env q p c)" "keeps P (transition env p u)" "keeps P (track_receipt env p r c)"
  "keeps P (track_confirm env so p r latest c)"
  by (auto simp: save_at_def transition_def track_receipt_def track_confirm_def intro!: keeps_bind keeps_all)

lemma keeps_trackOperation: "keeps P (trackOperation env so oid latest)"
  unfolding trackOperation_def track_reconcile_def Let_def
  by (auto intro!: keeps_bind keeps_all keeps_syncTo keeps_tracking split: option.split reconciliation_result.split prod.split)

lemma keeps_records: "keeps P (recordReplacement env oid h)" "keeps P (recordDropped env oid)"
  unfolding recordReplacement_def recordDropped_def by (auto intro!: keeps_bind keeps_all keeps_tracking split: option.split)

end

text \<open>Other workers that only use the store.\<close>

definition honest :: "sync_env \<Rightarrow> bool" where
  "honest env \<longleftrightarrow> (\<forall>k db. reaches chain_store_start (chain_store_step (parses env)) db \<longrightarrow>
     reaches chain_store_start (chain_store_step (parses env)) (interfere env k db))"

interpretation sync_runs: sync_invariant env
  "\<lambda>db. honest env \<longrightarrow> reaches chain_store_start (chain_store_step (parses env)) db"
proof
  show "honest env \<longrightarrow> reaches chain_store_start (chain_store_step (parses env)) (interfere env k db)"
    if "honest env \<longrightarrow> reaches chain_store_start (chain_store_step (parses env)) db" for db k
    using that by (simp add: honest_def)
  show "honest env \<longrightarrow> reaches chain_store_start (chain_store_step (parses env)) db'"
    if "honest env \<longrightarrow> reaches chain_store_start (chain_store_step (parses env)) db"
      and "chain_store_step (parses env) db x = Inr db'" for db db' x
    using that reach_step by metis
qed

text \<open>Whatever the chain answers, however the other workers on the database interleave and wherever it fails, a run
  of the synchronizer leaves a database that the store's own methods can reach: everything shown of reachable
  databases holds after \<open>syncTo\<close>, \<open>trackOperation\<close>, \<open>recordReplacement\<close> and \<open>recordDropped\<close>.\<close>

lemma sync_runs_reach:
  assumes "honest env" "reaches chain_store_start (chain_store_step (parses env)) db"
    and "db' \<in> {snd (fst (syncTo env so head required (k, db))), snd (fst (trackOperation env so oid latest (k, db))),
      snd (fst (recordReplacement env oid h (k, db))), snd (fst (recordDropped env oid (k, db)))}"
  shows "reaches chain_store_start (chain_store_step (parses env)) db'"
proof -
  show ?thesis
    using sync_runs.keeps_syncTo[of env so head required] sync_runs.keeps_trackOperation[of env so oid latest]
      sync_runs.keeps_records(1)[of env oid h] sync_runs.keeps_records(2)[of env oid] assms
    unfolding keeps_def by auto
qed

section \<open>A synchronisation that returns\<close>

lemma sync_bind_Inr:
  "sync_bind m f s = (t, Inr y) \<longleftrightarrow> (\<exists>u x. m s = (u, Inr x) \<and> f x u = (t, Inr y))"
  by (auto simp: sync_bind_def split: prod.splits sum.splits)

lemma sync_return_Inr [simp]: "sync_return x s = (t, Inr y) \<longleftrightarrow> t = s \<and> y = x"
  by (auto simp: sync_return_def)

lemma sync_fail_Inr [simp]: "sync_fail e s \<noteq> (t, Inr y)"
  by (simp add: sync_fail_def)

lemma sync_check_Inr [simp]: "sync_check b e s = (t, Inr y) \<longleftrightarrow> b \<and> t = s"
  by (auto simp: sync_check_def sync_return_def sync_fail_def)

lemma store_read_Inr: "store_read f s = (t, Inr y) \<longleftrightarrow> t = s \<and> f (snd s) = Inr y"
  by (auto simp: store_read_def)

lemma store_write_Inr: "store_write f s = (t, Inr y) \<longleftrightarrow> fst t = fst s \<and> f (snd s) = Inr (snd t, y)"
  by (cases t) (auto simp: store_write_def split: sum.splits)

lemma store_update_Inr: "store_update f s = (t, Inr y) \<longleftrightarrow> fst t = fst s \<and> f (snd s) = Inr (snd t)"
  by (auto simp: store_update_def store_write_Inr bind_r_Inr)

lemma sync_required_Inr:
  "(case b of None \<Rightarrow> sync_fail e | Some x \<Rightarrow> f x) s = (t, Inr y) \<longleftrightarrow> (\<exists>x. b = Some x \<and> f x s = (t, Inr y))"
  by (cases b) simp_all

lemmas sync_Inr = sync_bind_Inr store_read_Inr store_write_Inr store_update_Inr

lemma sync_body_ends:
  assumes "honest env" "reaches chain_store_start (chain_store_step (parses env)) (snd s)"
    and "sync_body env so head required s = (t, Inr r)"
  obtains u token where "reaches chain_store_start (chain_store_step (parses env)) (snd u)"
    "finish_sync (so_manifest so) head required token u = (t, Inr ())"
proof -
  from assms(3) obtain u token c where w: "sync_work env so head required s = (u, Inr (token, c))"
    "finish_sync (so_manifest so) head required token u = (t, Inr ())"
    by (auto simp: sync_body_def sync_bind_Inr)
  have "honest env \<longrightarrow> reaches chain_store_start (chain_store_step (parses env)) (snd u)"
    using keepsD[OF sync_runs.keeps_work w(1)] assms(2) by blast
  then show thesis using that assms(1) w(2) by blast
qed

lemma find_key_unique:
  "distinct (map f xs) \<Longrightarrow> find P xs = Some x \<Longrightarrow> (\<And>y. P y \<longleftrightarrow> f y = k) \<Longrightarrow> y \<in> set xs \<Longrightarrow> P y \<Longrightarrow> y = x"
  by (metis (no_types, lifting) distinct_map find_SomeD inj_onD)

lemma find_release:
  assumes "distinct (map lease_key ls)" "map_option ls_owner (find (lease_at i a) ls) = Some t"
  shows "find (lease_at i a) (release i a t ls) = None"
proof -
  from assms(2) obtain l where l: "find (lease_at i a) ls = Some l" "ls_owner l = t" by auto
  have "y = l" if "y \<in> set ls" "lease_at i a y" for y
    using find_key_unique[OF assms(1) l(1)] that by (simp add: lease_at_key)
  then show ?thesis using l(2) by (auto simp: find_None_iff release_def)
qed

lemma markSyncHealthy_done:
  assumes "markSyncHealthy db i c head (Some t) = Inr (db', True)" "keys_inv db"
  shows "find_lease db' i (toLowerCase c) = None"
    "\<exists>k. find_checkpoint db' i (toLowerCase c) = Some k \<and> cp_healthy k \<and> head \<le> cp_number k \<and>
      cp_projected k = Some (cp_number k) \<and> cp_projectedHash k = Some (cp_hash k)"
proof -
  let ?a = "toLowerCase c" let ?P = "completed_row i (toLowerCase c) head"
  let ?f = "\<lambda>k. k\<lparr>cp_healthy := True, cp_error := None, cp_target := None\<rparr>"
  from assms(1) have ch: "changes ?P (chain_checkpoints db) = 1"
    and ow: "map_option ls_owner (find_lease db i ?a) = Some t"
    and ls: "chain_sync_leases db' = release i ?a t (chain_sync_leases db)"
    and cps: "chain_checkpoints db' = update_where ?P ?f (chain_checkpoints db)"
    by (auto simp: markSyncHealthy_def value_Inr assertSyncOwner_def Let_def split: if_splits)
  have d: "distinct (map lease_key (chain_sync_leases db))" "distinct (map checkpoint_key (chain_checkpoints db))"
    using assms(2) by (simp_all add: keys_inv_def)
  show "find_lease db' i ?a = None" using find_release[OF d(1)] ow by (simp add: find_lease_def ls)
  have "filter ?P (chain_checkpoints db) \<noteq> []" using ch by (auto simp: changes_def)
  then obtain k where k: "k \<in> set (chain_checkpoints db)" "?P k" by (auto simp: filter_empty_conv)
  then have at: "checkpoint_at i ?a k" by (simp add: completed_row_def)
  then obtain x where x: "find (checkpoint_at i ?a) (chain_checkpoints db) = Some x"
    using k(1) by (cases "find (checkpoint_at i ?a) (chain_checkpoints db)") (auto simp: find_None_iff)
  have "k = x" using find_key_unique[OF d(2) x _ k(1) at] by (simp add: checkpoint_at_key)
  then have "find_checkpoint db' i ?a = Some (?f k)"
    using x k(2) by (simp add: find_checkpoint_def cps find_update_where checkpoint_at_def)
  then show "\<exists>k. find_checkpoint db' i ?a = Some k \<and> cp_healthy k \<and> head \<le> cp_number k \<and>
      cp_projected k = Some (cp_number k) \<and> cp_projectedHash k = Some (cp_hash k)"
    using k(2) by (auto simp: completed_row_def)
qed

lemma releaseSyncIncomplete_done:
  assumes "releaseSyncIncomplete db i c required t = Inr db'" "keys_inv db"
  shows "find_lease db' i (toLowerCase c) = None"
    "\<exists>k n. find_checkpoint db' i (toLowerCase c) = Some k \<and> \<not> cp_healthy k \<and> cp_target k = Some n \<and> required \<le> n"
proof -
  let ?a = "toLowerCase c"
  from assms(1) have ch: "changes (checkpoint_at i ?a) (chain_checkpoints db) = 1"
    and ow: "map_option ls_owner (find_lease db i ?a) = Some t"
    and ls: "chain_sync_leases db' = release i ?a t (chain_sync_leases db)"
    and cps: "chain_checkpoints db' = update_where (checkpoint_at i ?a) (raise_target required) (chain_checkpoints db)"
    by (auto simp: releaseSyncIncomplete_def value_Inr assertSyncOwner_def split: if_splits)
  show "find_lease db' i ?a = None" using find_release assms(2) ow by (simp add: find_lease_def ls keys_inv_def)
  have "filter (checkpoint_at i ?a) (chain_checkpoints db) \<noteq> []" using ch by (auto simp: changes_def)
  then obtain x where x: "find (checkpoint_at i ?a) (chain_checkpoints db) = Some x"
    by (cases "find (checkpoint_at i ?a) (chain_checkpoints db)") (auto simp: find_None_iff filter_empty_conv)
  then have "find_checkpoint db' i ?a = Some (raise_target required x)"
    using find_SomeD[OF x] by (simp add: find_checkpoint_def cps find_update_where checkpoint_at_def raise_target_def)
  then show "\<exists>k n. find_checkpoint db' i ?a = Some k \<and> \<not> cp_healthy k \<and> cp_target k = Some n \<and> required \<le> n"
    by (auto simp: raise_target_def split: option.splits)
qed

text \<open>When a synchronisation returns, whatever other workers did meanwhile, its lease is gone. If the head it was
  asked for is all that is required, the checkpoint is healthy, at or beyond that head, and fully projected;
  otherwise the checkpoint is marked as incomplete with the required block as its target.\<close>

theorem sync_returns_settled:
  assumes "honest env" "reaches chain_store_start (chain_store_step (parses env)) (snd s)"
    and "sync_body env so head required s = (t, Inr r)"
  shows "find_lease (snd t) (mf_chainId (so_manifest so)) (toLowerCase (mf_contract (so_manifest so))) = None \<and>
    (\<exists>c. find_checkpoint (snd t) (mf_chainId (so_manifest so)) (toLowerCase (mf_contract (so_manifest so))) = Some c \<and>
      (if head < required then \<not> cp_healthy c \<and> (\<exists>n\<ge>required. cp_target c = Some n)
       else cp_healthy c \<and> head \<le> cp_number c \<and> cp_projected c = Some (cp_number c) \<and> cp_projectedHash c = Some (cp_hash c)))"
proof -
  from sync_body_ends[OF assms] obtain u token where u: "reaches chain_store_start (chain_store_step (parses env)) (snd u)"
    and f: "finish_sync (so_manifest so) head required token u = (t, Inr ())" .
  have k: "keys_inv (snd u)" using chain_machine.reachable_inv[OF u] by (simp add: chain_store_inv_def)
  show ?thesis
  proof (cases "head < required")
    case True
    then have "releaseSyncIncomplete (snd u) (mf_chainId (so_manifest so)) (mf_contract (so_manifest so)) required token = Inr (snd t)"
      using f by (simp add: finish_sync_def store_update_Inr)
    from releaseSyncIncomplete_done[OF this k] show ?thesis using True by auto
  next
    case False
    then have "markSyncHealthy (snd u) (mf_chainId (so_manifest so)) (mf_contract (so_manifest so)) head (Some token) = Inr (snd t, True)"
      using f by (auto simp: finish_sync_def sync_Inr)
    from markSyncHealthy_done[OF this k] show ?thesis using False by auto
  qed
qed

section \<open>Agreement with the chain\<close>

definition quiet :: "sync_env \<Rightarrow> bool" where
  "quiet env \<longleftrightarrow> (\<forall>k db. interfere env k db = db)"

definition serves :: "sync_env \<Rightarrow> (int \<Rightarrow> chain_block) \<Rightarrow> bool" where
  "serves env R \<longleftrightarrow> (\<forall>k n b. rpc_block env k n = Inr (Some b) \<longrightarrow> b = R n)"

definition on_chain :: "(int \<Rightarrow> chain_block) \<Rightarrow> (int \<times> string) option \<Rightarrow> bool" where
  "on_chain R head \<longleftrightarrow> (case head of None \<Rightarrow> True | Some (n, h) \<Rightarrow> h = toLowerCase (bk_hash (R n)))"

definition agrees :: "(int \<Rightarrow> chain_block) \<Rightarrow> sync_manifest \<Rightarrow> chain_db \<Rightarrow> bool" where
  "agrees R m db \<longleftrightarrow> on_chain R (head_of db (mf_chainId m) (toLowerCase (mf_contract m)))"

text \<open>A computation that keeps a predicate whenever it returns.\<close>

definition yields :: "(chain_db \<Rightarrow> bool) \<Rightarrow> 'a sync \<Rightarrow> bool" where
  "yields P m \<longleftrightarrow> (\<forall>s t x. P (snd s) \<longrightarrow> m s = (t, Inr x) \<longrightarrow> P (snd t))"

lemma yieldsD: "yields P m \<Longrightarrow> m s = (t, Inr x) \<Longrightarrow> P (snd s) \<Longrightarrow> P (snd t)"
  unfolding yields_def by blast

lemma yields_basic [simp]: "yields P (sync_return x)" "yields P (sync_fail e)" "yields P (store_read f)" "yields P (sync_check b e)"
  by (simp_all add: yields_def store_read_Inr)

lemma yields_bind: "yields P m \<Longrightarrow> (\<And>x. yields P (f x)) \<Longrightarrow> yields P (sync_bind m f)"
  unfolding yields_def sync_bind_Inr by blast

lemma yields_catch: "yields P m \<Longrightarrow> (\<And>e s t x. h e s \<noteq> (t, Inr x)) \<Longrightarrow> yields P (sync_catch m h)"
  unfolding yields_def sync_catch_def by (auto split: prod.splits sum.splits)

lemma yields_update: "(\<And>db db'. P db \<Longrightarrow> f db = Inr db' \<Longrightarrow> P db') \<Longrightarrow> yields P (store_update f)"
  by (auto simp: yields_def store_update_Inr)

lemma await_quiet: "quiet env \<Longrightarrow> sync_await env f s = (t, r) \<longleftrightarrow> t = (fst s + 1, snd s) \<and> f (fst s) = r"
  by (auto simp: sync_await_def quiet_def)

lemma join_quiet: "quiet env \<Longrightarrow> sync_join env m s = (t, Inr x) \<longleftrightarrow> (\<exists>u. m s = (u, Inr x) \<and> t = (fst u + 1, snd u))"
  by (auto simp: sync_join_def quiet_def split: prod.splits)

lemma yields_quiet: "quiet env \<Longrightarrow> yields P (sync_await env f)" "quiet env \<Longrightarrow> yields P m \<Longrightarrow> yields P (sync_join env m)"
  unfolding yields_def by (simp_all add: await_quiet join_quiet) fastforce

lemma health_step_head: "health_step db db' \<Longrightarrow> head_of db' i a = head_of db i a"
  by (auto simp: health_step_def head_of_in health_change_def intro!: head_in_update)

lemma commitProjections_head: "commitProjections db i c b ps w = Inr db' \<Longrightarrow> head_of db' j a = head_of db j a"
  by (erule commitProjections_Inr) (simp add: head_of_in head_in_update)

lemma recordCanonicalBlock_head:
  assumes "recordCanonicalBlock db i c b es t w = Inr r"
  shows "head_of (fst r) i (toLowerCase c) \<in> {Some (bk_number b, toLowerCase (bk_hash b)), head_of db i (toLowerCase c)}"
  using assms
proof (rule recordCanonicalBlock_Inr)
  fix current bs evs cps
  assume rt: "require_target i (toLowerCase c) t (advance_checkpoint i (toLowerCase c) b current (chain_checkpoints db)) = Inr cps"
    and r: "fst r = db\<lparr>chain_blocks := bs, chain_events := evs, chain_checkpoints := cps\<rparr>"
  have "head_of (fst r) i (toLowerCase c) =
    head_in (advance_checkpoint i (toLowerCase c) b current (chain_checkpoints db)) i (toLowerCase c)"
    using require_target_Inr(1)[OF rt] by (simp add: head_of_in r)
  then show ?thesis by (simp only: advance_checkpoint_head head_of_in) auto
qed

lemma yields_rebuild: "quiet env \<Longrightarrow> yields (agrees R m) (rebuildProjection env m b token)"
  unfolding rebuildProjection_def
  by (intro yields_bind yields_quiet yields_basic yields_update) (auto simp: agrees_def commitProjections_head)

lemma yields_recover: "quiet env \<Longrightarrow> yields (agrees R m) (recoverProjection env m token)"
  unfolding recoverProjection_def
  by (auto intro!: yields_bind yields_catch yields_quiet yields_rebuild split: option.split)

lemma yields_project: "quiet env \<Longrightarrow> yields (agrees R m) (project_or_rollback env m current token number)"
  unfolding project_or_rollback_def by (intro yields_catch yields_quiet yields_rebuild) (simp_all add: sync_bind_Inr)

lemma yields_scan:
  assumes q: "quiet env" and R: "serves env R"
  shows "yields (agrees R m) (scan_block env m required token number)"
  unfolding yields_def
proof (intro allI impI)
  fix s t :: "nat \<times> chain_db" and x assume p: "agrees R m (snd s)" and run: "scan_block env m required token number s = (t, Inr x)"
  from run obtain b where b: "rpc_block env (fst s) number = Inr b"
    and tl: "(case b of None \<Rightarrow> sync_fail ''CHAIN_BLOCK_UNAVAILABLE''
     | Some current \<Rightarrow>
         sync_bind (sync_check (bk_number current = number) ''CHAIN_BLOCK_MISMATCH'') (\<lambda>_.
         sync_bind (store_read (\<lambda>db. checkpoint db (mf_chainId m) (mf_contract m))) (\<lambda>previous.
         sync_bind (sync_check (case previous of None \<Rightarrow> True | Some c \<Rightarrow> sameHash (bk_parentHash current) (ck_hash c))
           ''CHAIN_BLOCK_MISMATCH'') (\<lambda>_.
         sync_bind (sync_await env (\<lambda>k. rpc_logs env k number)) (\<lambda>logs.
         sync_bind (store_read (\<lambda>_. decodeLogs env m logs current)) (\<lambda>events.
         sync_bind (store_write (\<lambda>db. recordCanonicalBlock db (mf_chainId m) (mf_contract m) current events
           (Some required) (Some token))) (\<lambda>inserted.
         sync_bind (project_or_rollback env m current token number) (\<lambda>_. sync_return inserted))))))))
      (fst s + 1, snd s) = (t, Inr x)"
    unfolding scan_block_def sync_bind_Inr[of "sync_await env _"] await_quiet[OF q] by auto
  obtain current where c: "b = Some current" using tl by (cases b) auto
  have R': "current = R number" using b R by (simp add: serves_def c)
  from tl obtain events u v where n: "bk_number current = number"
    and w: "recordCanonicalBlock (snd s) (mf_chainId m) (mf_contract m) current events (Some required) (Some token) = Inr (snd u, v)"
    and pr: "project_or_rollback env m current token number u = (t, Inr ())"
    unfolding c option.case by (auto simp: sync_bind_Inr store_read_Inr store_write_Inr await_quiet[OF q])
  have "agrees R m (snd u)"
    using recordCanonicalBlock_head[OF w] p n R' by (auto simp: agrees_def on_chain_def)
  then show "agrees R m (snd t)" using yieldsD[OF yields_project[OF q] pr] by blast
qed

lemma yields_scans: "quiet env \<Longrightarrow> serves env R \<Longrightarrow> yields (agrees R m) (scan_blocks env m required token k number n)"
  by (induction k arbitrary: number n) (auto intro!: yields_bind yields_scan)

lemma rollback_head:
  assumes inv: "chain_store_inv dp db" and q: "q \<in> canon (chain_blocks db) i (toLowerCase c)"
    and r: "rollbackFromBlock db i c (br_number q + 1) w = Inr r"
  shows "head_of (fst r) i (toLowerCase c) = Some (br_number q, br_hash q)"
proof -
  let ?a = "toLowerCase c" and ?D = "canon (chain_blocks (fst r)) i (toLowerCase c)"
  have "?D = {b \<in> canon (chain_blocks db) i ?a. br_number b < br_number q + 1}"
    using r by (rule rollbackFromBlock_Inr) (simp add: canon_rollback)
  then have D: "q \<in> ?D" "\<forall>b\<in>?D. br_number b \<le> br_number q" using q by auto
  have "blocks_inv (fst r)" using rollbackFromBlock_inv[OF inv r] by (simp add: chain_store_inv_def)
  then have ch: "chained ?D (head_of (fst r) i ?a)" by (simp add: blocks_inv_def)
  then obtain n h where h: "head_of (fst r) i ?a = Some (n, h)" using D(1) by (cases "head_of (fst r) i ?a") auto
  obtain b lo where b: "b \<in> ?D" "br_number b = n" "br_hash b = h" "inj_on br_number ?D" "br_number ` ?D = {lo..n}"
    using ch unfolding h by auto
  have "br_number q \<in> {lo..n}" using D(1) b(5) by blast
  then have "br_number b = br_number q" using D(2) b(1,2) by fastforce
  then have "b = q" using inj_onD[OF b(4)] b(1) D(1) by blast
  then show ?thesis using h b by simp
qed

lemma rewind_loop_agrees:
  assumes q: "quiet env" and R: "serves env R" and inv: "chain_store_inv dp (snd s)"
    and run: "rewind_loop env m token left candidate s = (t, Inr x)"
  shows "agrees R m (snd t)"
  using run inv
proof (induction left arbitrary: candidate s)
  case 0
  then show ?case unfolding rewind_loop.simps[of env m token 0] by (auto simp: Let_def sync_bind_Inr split: if_splits)
next
  case (Suc left)
  let ?k = "mf_chainId m" and ?c = "mf_contract m"
  have go: "candidate \<ge> mf_deploymentBlock m"
    using Suc.prems(1) unfolding rewind_loop.simps[of env m token "Suc left"] by (auto simp: Let_def sync_bind_Inr split: if_splits)
  obtain loc b where l: "canonicalBlock (snd s) ?k ?c candidate = Inr loc" and b: "rpc_block env (fst s) candidate = Inr (Some b)"
    and nx: "(if (case loc of None \<Rightarrow> False | Some l \<Rightarrow> sameHash (bk_hash l) (bk_hash b))
            then sync_bind (store_write (\<lambda>db. rollbackFromBlock db ?k ?c (candidate + 1) (Some token))) (\<lambda>n. sync_return (fst n))
            else rewind_loop env m token left (candidate - 1)) (fst s + 1, snd s) = (t, Inr x)"
    using Suc.prems(1) go unfolding rewind_loop.simps[of env m token "Suc left"] diff_Suc_1
    by (auto simp: sync_bind_Inr store_read_Inr await_quiet[OF q] sync_required_Inr)
  show ?case
  proof (cases "case loc of None \<Rightarrow> False | Some l \<Rightarrow> sameHash (bk_hash l) (bk_hash b)")
    case False
    then have "rewind_loop env m token left (candidate - 1) (fst s + 1, snd s) = (t, Inr x)" using nx by (simp only: if_False)
    then show ?thesis using Suc.IH Suc.prems(2) by simp
  next
    case True
    then obtain l' where l': "loc = Some l'" "sameHash (bk_hash l') (bk_hash b)" by (cases loc) auto
    obtain row where row: "row \<in> canon (chain_blocks (snd s)) ?k (toLowerCase ?c)" "br_number row = candidate" "br_hash row = bk_hash l'"
      using canonicalBlock_Inr[OF l[unfolded l'(1)]] by blast
    obtain v where v: "rollbackFromBlock (snd s) ?k ?c (candidate + 1) (Some token) = Inr (snd t, v)"
      using nx True by (auto simp: sync_bind_Inr store_write_Inr)
    have "head_of (snd t) ?k (toLowerCase ?c) = Some (candidate, br_hash row)"
      using rollback_head[OF Suc.prems(2) row(1)] v row(2) by fastforce
    moreover have "lower (br_hash row)" using row(1) Suc.prems(2) by (auto simp: canon_def chain_store_inv_def blocks_inv_def block_ok_def)
    moreover have "b = R candidate" using R b by (simp add: serves_def)
    ultimately show ?thesis using l'(2) row(3) by (simp add: agrees_def on_chain_def sameHash_def lower_def)
  qed
qed

lemma rewind_agrees:
  assumes q: "quiet env" and R: "serves env R" and inv: "chain_store_inv dp (snd s)"
    and run: "rewindIfNeeded env so token s = (t, Inr x)"
  shows "agrees R (so_manifest so) (snd t)"
proof -
  let ?m = "so_manifest so" let ?a = "toLowerCase (mf_contract (so_manifest so))"
  obtain cp where cp: "checkpoint (snd s) (mf_chainId ?m) (mf_contract ?m) = Inr cp"
    using run by (auto simp: rewindIfNeeded_def Let_def sync_bind_Inr store_read_Inr)
  have head: "head_of (snd s) (mf_chainId ?m) ?a = map_option (\<lambda>x. (ck_number x, ck_hash x)) cp"
    using checkpoint_head[OF cp] .
  show ?thesis
  proof (cases cp)
    case None
    then show ?thesis using run cp head by (auto simp: rewindIfNeeded_def Let_def sync_bind_Inr store_read_Inr agrees_def on_chain_def)
  next
    case (Some c)
    then obtain b where b: "rpc_block env (fst s) (ck_number c) = Inr (Some b)"
      and nx: "(if sameHash (bk_hash b) (ck_hash c) then sync_return 0
        else rewind_loop env ?m token (nat (so_reorgSearchLimit so)) (ck_number c - 1)) (fst s + 1, snd s) = (t, Inr x)"
      using run cp by (auto simp: rewindIfNeeded_def Let_def sync_bind_Inr store_read_Inr await_quiet[OF q] split: option.splits)
    show ?thesis
    proof (cases "sameHash (bk_hash b) (ck_hash c)")
      case False
      then have "rewind_loop env ?m token (nat (so_reorgSearchLimit so)) (ck_number c - 1) (fst s + 1, snd s) = (t, Inr x)"
        using nx by (simp only: if_False)
      then show ?thesis using rewind_loop_agrees[OF q R, where s = "(fst s + 1, snd s)"] inv by simp
    next
      case True
      obtain row where "find_checkpoint (snd s) (mf_chainId ?m) ?a = Some row" "cp_number row = ck_number c" "cp_hash row = ck_hash c"
        using head Some by (auto simp: head_of_def)
      then have "lower (ck_hash c)"
        using inv find_SomeD[of "checkpoint_at (mf_chainId ?m) ?a" "chain_checkpoints (snd s)" row]
        by (auto simp: find_checkpoint_def chain_store_inv_def checkpoint_ok_def)
      moreover have "b = R (ck_number c)" using R b by (simp add: serves_def)
      moreover have "snd t = snd s" using nx True by auto
      ultimately show ?thesis using True head Some by (simp add: agrees_def on_chain_def sameHash_def lower_def)
    qed
  qed
qed

lemma quiet_honest: "quiet env \<Longrightarrow> honest env"
  by (simp add: quiet_def honest_def)

lemma yields_sync_scan:
  "quiet env \<Longrightarrow> serves env R \<Longrightarrow> yields (agrees R (so_manifest so)) (sync_scan env so head required token)"
  unfolding sync_scan_def Let_def by (auto intro!: yields_bind yields_scans)

lemma finish_head:
  "finish_sync m head required token s = (t, Inr ()) \<Longrightarrow> head_of (snd t) i a = head_of (snd s) i a"
  using markSyncHealthy_health releaseSyncIncomplete_health health_step_head
  by (fastforce simp: finish_sync_def sync_bind_Inr store_update_Inr store_write_Inr split: if_splits)

lemma sync_body_agrees:
  assumes q: "quiet env" and R: "serves env R" and "reaches chain_store_start (chain_store_step (parses env)) (snd s)"
    and run: "sync_body env so head required s = (t, Inr r)"
  shows "agrees R (so_manifest so) (snd t)"
proof -
  from run obtain u token where w: "sync_work env so head required s = (u, Inr (token, r))"
    "finish_sync (so_manifest so) head required token u = (t, Inr ())"
    by (auto simp: sync_body_def sync_bind_Inr)
  from w(1) obtain u1 u2 u3 n c where c: "sync_claim env so head required s = (u1, Inr token)"
    and rw: "rewindIfNeeded env so token u1 = (u2, Inr n)"
    and rc: "recoverProjection env (so_manifest so) token (fst u2 + 1, snd u2) = (u3, Inr ())"
    and sc: "sync_scan env so head required token (fst u3 + 1, snd u3) = (u, Inr c)"
    by (auto simp: sync_work_def sync_bind_Inr join_quiet[OF q])
  have "honest env \<longrightarrow> reaches chain_store_start (chain_store_step (parses env)) (snd u1)"
    using keepsD[OF sync_runs.keeps_claim c] assms(3) by blast
  then have "reaches chain_store_start (chain_store_step (parses env)) (snd u1)" using quiet_honest[OF q] by blast
  then have "chain_store_inv (parses env) (snd u1)" by (rule chain_machine.reachable_inv)
  then have "agrees R (so_manifest so) (snd u2)" using rewind_agrees[OF q R _ rw] by blast
  then have "agrees R (so_manifest so) (snd u3)" using yieldsD[OF yields_recover[OF q] rc] by simp
  then have "agrees R (so_manifest so) (snd u)" using yieldsD[OF yields_sync_scan[OF q R] sc] by simp
  then show ?thesis using finish_head[OF w(2)] by (simp add: agrees_def)
qed

text \<open>C8: With no other writer, and a chain that gives each block number one block, a synchronisation that returns has
  its checkpoint on that chain: the checkpoint's hash is the chain's hash at that number, after however deep a
  reorganisation of what was stored before.\<close>

theorem sync_agrees_with_chain:
  assumes "quiet env" "serves env R" "reaches chain_store_start (chain_store_step (parses env)) (snd s)"
    and "sync_body env so head required s = (t, Inr r)"
    and "find_checkpoint (snd t) (mf_chainId (so_manifest so)) (toLowerCase (mf_contract (so_manifest so))) = Some c"
  shows "cp_hash c = toLowerCase (bk_hash (R (cp_number c)))"
  using sync_body_agrees[OF assms(1-4)] assms(5) by (simp add: agrees_def on_chain_def head_of_def)

section \<open>Confirmation\<close>

lemma sync_await_Inr: "sync_await env f s = (t, Inr x) \<longleftrightarrow> t = (fst s + 1, interfere env (fst s) (snd s)) \<and> f (fst s) = Inr x"
  by (auto simp: sync_await_def)

lemma transition_Inr_state: "transition env p u s = (t, Inr q) \<Longrightarrow> op_state q = update_state u \<and> t = s"
  by (auto simp: transition_def store_read_Inr lift_chain_Inr dest: transition_allowed)

lemma write_operation_events: "write_operation db r = Inr db' \<Longrightarrow> chain_events db' = chain_events db"
  by (auto simp: write_operation_def split: if_splits option.splits)

lemma saveOperation_events:
  assumes "saveOperation dp db p = Inr db'"
  shows "chain_events db' = chain_events db"
proof -
  have "\<exists>r. write_operation db r = Inr db'" using assms
    unfolding saveOperation_def
    by (elim bind_r_elim) (auto simp: bind_r_Inr bind_r_Inl split: sum.splits option.splits if_splits)
  then show ?thesis using write_operation_events by blast
qed

lemma saveOperationAtCheckpoint_events:
  assumes "saveOperationAtCheckpoint dp db q p c = Inr db'"
  shows "chain_events db' = chain_events db"
  using assms unfolding saveOperationAtCheckpoint_def
  by (elim bind_r_elim) (auto simp: bind_r_Inr check_simps split: option.splits if_splits dest: saveOperation_events)

lemma transition_same: "transitionOperation dp p u = Inr q \<Longrightarrow> same_operation p q"
  by (cases u) (auto simp: transition_defs same_operation_def split: if_splits option.splits)

lemma track_receipt_Inr:
  assumes "track_receipt env p r c s = (t, Inr q)"
  shows "fst t = fst s" "op_state p = CONFIRMED \<or> op_state q \<noteq> CONFIRMED" "same_operation p q"
    "chain_events (snd t) = chain_events (snd s)"
proof -
  have "(fst t = fst s \<and> chain_events (snd t) = chain_events (snd s)) \<and> same_operation p q \<and> (op_state p = CONFIRMED \<or> op_state q \<noteq> CONFIRMED)"
  proof (cases "op_state p = SUBMITTED \<or> op_state p = REORGED")
    case True
    then obtain u where u: "transition env p (receipt_transition r) s = (u, Inr q)" and sv: "save_at env q p c u = (t, Inr ())"
      using assms unfolding track_receipt_def by (auto simp: sync_bind_Inr)
    have "u = s" "op_state q = update_state (receipt_transition r)" using transition_Inr_state[OF u] by simp_all
    moreover have "same_operation p q" using u by (auto simp: transition_def store_read_Inr lift_chain_Inr dest: transition_same)
    ultimately show ?thesis using sv
      by (auto simp: save_at_def store_update_Inr receipt_transition_def dest: saveOperationAtCheckpoint_events split: if_splits)
  qed (use assms in \<open>auto simp: track_receipt_def same_operation_def\<close>)
  then show "fst t = fst s" "op_state p = CONFIRMED \<or> op_state q \<noteq> CONFIRMED" "same_operation p q"
    "chain_events (snd t) = chain_events (snd s)" by blast+
qed

lemma track_confirm_Inr:
  assumes "track_confirm env so p r latest c s = (t, Inr q)" "op_state q = CONFIRMED"
  shows "so_softReadyDepth so \<le> bk_number latest - rc_blockNumber r + 1"
  using assms
  by (auto simp: track_confirm_def save_at_def sync_bind_Inr store_read_Inr toCount_def dest!: transition_Inr_state split: if_splits)

lemma track_reconcile_Inr:
  assumes "track_reconcile env so tx p r block latest c s = (t, Inr q)" "op_state q = CONFIRMED" "op_state p \<noteq> CONFIRMED"
  shows "so_softReadyDepth so \<le> bk_number latest - rc_blockNumber r + 1"
    "\<exists>es. canonicalEvents (snd s) (op_chainId p) (op_target p) = Inr es \<and>
       reconcile env (fst s) p r (filter (\<lambda>e. sameHash (ev_transactionHash e) tx) es) block = Inr Match"
proof -
  from assms(1) obtain es res where c: "canonicalEvents (snd s) (op_chainId p) (op_target p) = Inr es"
    and e: "reconcile env (fst s) p r (filter (\<lambda>e. sameHash (ev_transactionHash e) tx) es) block = Inr res"
    and nx: "(case res of
       Mismatch code \<Rightarrow>
         if op_state p \<noteq> RECONCILIATION_FAILED then
           sync_bind (transition env p (To_RECONCILIATION_FAILED code)) (\<lambda>q.
           sync_bind (save_at env q p c) (\<lambda>_. sync_return q))
         else sync_return p
     | Match \<Rightarrow> track_confirm env so p r latest c) (fst s + 1, interfere env (fst s) (snd s)) = (t, Inr q)"
    by (auto simp: track_reconcile_def sync_bind_Inr store_read_Inr sync_await_Inr)
  have m: "res = Match"
    using nx assms(2,3) by (cases res) (auto simp: sync_bind_Inr dest!: transition_Inr_state split: if_splits)
  show "so_softReadyDepth so \<le> bk_number latest - rc_blockNumber r + 1"
    using track_confirm_Inr[OF _ assms(2)] nx unfolding m by simp
  show "\<exists>es. canonicalEvents (snd s) (op_chainId p) (op_target p) = Inr es \<and>
       reconcile env (fst s) p r (filter (\<lambda>e. sameHash (ev_transactionHash e) tx) es) block = Inr Match" using c e m by blast
qed

text \<open>Where the tracking of an operation starts from: with a head that was handed over, from the database as it is; without
  one, from the database after a synchronisation up to the head the chain reports.\<close>

definition tracking_point ::
  "sync_env \<Rightarrow> sync_options \<Rightarrow> chain_block option \<Rightarrow> nat \<times> chain_db \<Rightarrow> chain_block \<Rightarrow> nat \<times> chain_db \<Rightarrow> bool" where
  "tracking_point env so synchronized s latest s' \<longleftrightarrow> (case synchronized of
     Some b \<Rightarrow> latest = b \<and> s' = s
   | None \<Rightarrow> rpc_latest env (fst s) = Inr (Some latest) \<and>
       (\<exists>u counts. syncTo env so (bk_number latest) (bk_number latest) (fst s + 1, interfere env (fst s) (snd s)) = (u, Inr counts) \<and>
          s' = (fst u + 1, interfere env (fst u) (snd u))))"

lemma sync_join_Inr:
  "sync_join env m s = (t, Inr y) \<longleftrightarrow> (\<exists>u. m s = (u, Inr y) \<and> t = (fst u + 1, interfere env (fst u) (snd u)))"
  by (auto simp: sync_join_def split: prod.splits)

text \<open>What follows the receipt.\<close>

definition track_rest ::
  "sync_env \<Rightarrow> sync_options \<Rightarrow> string \<Rightarrow> chain_block \<Rightarrow> chain_checkpoint \<Rightarrow> chain_operation \<Rightarrow> chain_receipt option \<Rightarrow>
   chain_operation sync" where
  "track_rest env so tx latest c p rec = (case rec of None \<Rightarrow> sync_return p
                  | Some r \<Rightarrow>
                      sync_bind (sync_check (receipt_matches r tx p) ''RECEIPT_EVIDENCE_MISMATCH'') (\<lambda>_.
                      sync_bind (store_read (\<lambda>db. canonicalBlock db (op_chainId p) (op_target p) (rc_blockNumber r))) (\<lambda>b.
                      if (case b of None \<Rightarrow> True | Some x \<Rightarrow> \<not> sameHash (bk_hash x) (rc_blockHash r)) then sync_return p
                      else
                        sync_bind (track_receipt env p r c) (\<lambda>q.
                        if rc_status r = Reverted \<or> op_state q = REVERTED \<or> op_state q = CONFIRMED \<or>
                           op_state q \<notin> {MINED, CONFIRMING, RECONCILIATION_FAILED} then sync_return q
                        else track_reconcile env so tx q r (the b) latest c))))"

lemma trackOperation_rest:
  "trackOperation env so oid synchronized =
     (let m = so_manifest so in
      sync_bind (store_read (\<lambda>db. operation db oid)) (\<lambda>found.
      case found of None \<Rightarrow> sync_fail ''OPERATION_NOT_FOUND''
      | Some p0 \<Rightarrow>
          sync_bind (sync_check (truthy (txHash p0) \<and> op_chainId p0 = mf_chainId m \<and> sameAddress (op_target p0) (mf_contract m))
            ''OPERATION_NOT_TRACKABLE'') (\<lambda>_.
          sync_bind (case synchronized of Some b \<Rightarrow> sync_return (Some b) | None \<Rightarrow> sync_await env (rpc_latest env)) (\<lambda>l.
          case l of None \<Rightarrow> sync_fail ''CHAIN_HEAD_UNAVAILABLE''
          | Some latest \<Rightarrow>
              sync_bind (if synchronized = None
                then sync_join env (sync_bind (syncTo env so (bk_number latest) (bk_number latest)) (\<lambda>_. sync_return ()))
                else sync_return ()) (\<lambda>_.
              sync_bind (store_read (\<lambda>db. checkpoint db (mf_chainId m) (mf_contract m))) (\<lambda>cp.
              case cp of None \<Rightarrow> sync_fail ''CHAIN_SYNC_SUPERSEDED''
              | Some c \<Rightarrow>
                  sync_bind (sync_check (ck_number c = bk_number latest \<and> sameHash (ck_hash c) (bk_hash latest))
                    ''CHAIN_SYNC_SUPERSEDED'') (\<lambda>_.
                  sync_bind (store_read (\<lambda>db. syncHealth db (mf_chainId m) (mf_contract m))) (\<lambda>health.
                  sync_bind (sync_check (fst health) ''CHAIN_SYNC_SUPERSEDED'') (\<lambda>_.
                  sync_bind (store_read (\<lambda>db. operation db oid)) (\<lambda>again.
                  sync_bind (sync_await env (\<lambda>k. rpc_receipt env k (the (txHash p0)))) (\<lambda>rec.
                  case again of None \<Rightarrow> sync_fail ''TypeError''
                  | Some p \<Rightarrow> track_rest env so (the (txHash p0)) latest c p rec)))))))))))"
  unfolding trackOperation_def track_rest_def Let_def prod.case by (rule refl)

lemma trackOperation_Inr:
  assumes "trackOperation env so oid synchronized s = (t, Inr q)"
  obtains p0 latest s' c p rec where "operation (snd s) oid = Inr (Some p0)" "tracking_point env so synchronized s latest s'"
    "checkpoint (snd s') (mf_chainId (so_manifest so)) (mf_contract (so_manifest so)) = Inr (Some c)"
    "ck_number c = bk_number latest" "sameHash (ck_hash c) (bk_hash latest)" "operation (snd s') oid = Inr (Some p)"
    "rpc_receipt env (fst s') (the (txHash p0)) = Inr rec"
    "track_rest env so (the (txHash p0)) latest c p rec (fst s' + 1, interfere env (fst s') (snd s')) = (t, Inr q)"
  using assms unfolding trackOperation_rest Let_def
  by (cases synchronized)
    (auto simp: sync_bind_Inr store_read_Inr sync_await_Inr sync_required_Inr sync_join_Inr tracking_point_def)

lemma tracked_receipt:
  assumes nx0: "track_rest env so tx latest c p rec (k + 1, db) = (t, Inr q)" and qc: "op_state q = CONFIRMED"
  shows "op_state p = CONFIRMED \<and> q = p \<or> (\<exists>r b p' es. rec = Some r \<and> receipt_matches r tx p \<and> rc_status r = Success \<and>
      canonicalBlock db (op_chainId p) (op_target p) (rc_blockNumber r) = Inr (Some b) \<and>
      sameHash (bk_hash b) (rc_blockHash r) \<and> same_operation p p' \<and>
      canonicalEvents db (op_chainId p) (op_target p) = Inr es \<and>
      reconcile env (k + 1) p' r (filter (\<lambda>e. sameHash (ev_transactionHash e) tx) es) b = Inr Match \<and>
      so_softReadyDepth so \<le> bk_number latest - rc_blockNumber r + 1)"
proof (cases rec)
  note nx = nx0[unfolded track_rest_def]
  case None
  then show ?thesis using nx qc by (simp add: sync_return_Inr)
next
  case r: (Some r)
  from nx0[unfolded track_rest_def] obtain bo where m: "receipt_matches r tx p"
    and bo: "canonicalBlock db (op_chainId p) (op_target p) (rc_blockNumber r) = Inr bo"
    and nx': "(if (case bo of None \<Rightarrow> True | Some x \<Rightarrow> \<not> sameHash (bk_hash x) (rc_blockHash r)) then sync_return p
                      else
                        sync_bind (track_receipt env p r c) (\<lambda>q.
                        if rc_status r = Reverted \<or> op_state q = REVERTED \<or> op_state q = CONFIRMED \<or>
                           op_state q \<notin> {MINED, CONFIRMING, RECONCILIATION_FAILED} then sync_return q
                        else track_reconcile env so tx q r (the bo) latest c)) (k + 1, db) = (t, Inr q)"
    unfolding r option.case by (auto simp: sync_bind_Inr[of "sync_check _ _"] sync_bind_Inr[of "store_read _"] store_read_Inr)
  show ?thesis
  proof (cases "op_state p = CONFIRMED")
    case True
    then have "track_receipt env p r c = sync_return p" by (simp add: track_receipt_def)
    then show ?thesis using nx' True by (auto simp: sync_bind_Inr sync_return_Inr split: if_splits)
  next
    case False
    obtain b where b: "bo = Some b" "sameHash (bk_hash b) (rc_blockHash r)"
      using nx' False qc by (cases bo) (auto simp: sync_return_Inr split: if_splits)
    obtain u q' where tr: "track_receipt env p r c (k + 1, db) = (u, Inr q')"
      and fin: "(if rc_status r = Reverted \<or> op_state q' = REVERTED \<or> op_state q' = CONFIRMED \<or>
                   op_state q' \<notin> {MINED, CONFIRMING, RECONCILIATION_FAILED} then sync_return q'
                 else track_reconcile env so tx q' r b latest c) u = (t, Inr q)"
      using nx' b(2) unfolding b(1) option.sel by (auto simp: sync_bind_Inr)
    have k: "fst u = k + 1" "op_state q' \<noteq> CONFIRMED" using track_receipt_Inr[OF tr] False by auto
    have st: "rc_status r = Success" and rr: "track_reconcile env so tx q' r b latest c u = (t, Inr q)"
      using fin k(2) qc by (cases "rc_status r"; auto split: if_splits)+
    have same: "same_operation p q'" and "chain_events (snd u) = chain_events db" using track_receipt_Inr(3,4)[OF tr] by simp_all
    then have "canonicalEvents (snd u) (op_chainId q') (op_target q') = canonicalEvents db (op_chainId p) (op_target p)"
      by (simp add: canonicalEvents_def same_operation_def)
    then obtain es where es: "canonicalEvents db (op_chainId p) (op_target p) = Inr es"
      "reconcile env (k + 1) q' r (filter (\<lambda>e. sameHash (ev_transactionHash e) tx) es) b = Inr Match"
      using track_reconcile_Inr(2)[OF rr qc k(2)] k(1) by auto
    show ?thesis
      using track_reconcile_Inr(1)[OF rr qc k(2)] st b(2) bo[unfolded b(1)] m r es same by blast
  qed
qed

lemma confirmation_evidence:
  assumes "trackOperation env so oid synchronized s = (t, Inr q)" and "op_state q = CONFIRMED"
  shows "\<exists>p0 latest s' p. operation (snd s) oid = Inr (Some p0) \<and> tracking_point env so synchronized s latest s' \<and>
    operation (snd s') oid = Inr (Some p) \<and>
    (op_state p = CONFIRMED \<and> q = p \<or>
      (\<exists>r b p' es c. rpc_receipt env (fst s') (the (txHash p0)) = Inr (Some r) \<and> rc_status r = Success \<and>
        sameHash (rc_transactionHash r) (the (txHash p0)) \<and> sameAddress (rc_from r) (op_owner p) \<and>
        (\<exists>a. rc_to r = Some a \<and> sameAddress a (op_target p)) \<and>
        canonicalBlock (interfere env (fst s') (snd s')) (op_chainId p) (op_target p) (rc_blockNumber r) = Inr (Some b) \<and>
        sameHash (bk_hash b) (rc_blockHash r) \<and> same_operation p p' \<and>
        canonicalEvents (interfere env (fst s') (snd s')) (op_chainId p) (op_target p) = Inr es \<and>
        reconcile env (fst s' + 1) p' r (filter (\<lambda>e. sameHash (ev_transactionHash e) (the (txHash p0))) es) b = Inr Match \<and>
        so_softReadyDepth so \<le> bk_number latest - rc_blockNumber r + 1 \<and>
        checkpoint (snd s') (mf_chainId (so_manifest so)) (mf_contract (so_manifest so)) = Inr (Some c) \<and>
        ck_number c = bk_number latest \<and> sameHash (ck_hash c) (bk_hash latest)))"
  using assms(1)
proof (rule trackOperation_Inr)
  fix p0 p :: chain_operation and latest s' c rec
  let ?m = "so_manifest so" and ?tx = "the (txHash p0)" and ?db = "interfere env (fst s') (snd s')"
  assume p0: "operation (snd s) oid = Inr (Some p0)" "tracking_point env so synchronized s latest s'"
      "operation (snd s') oid = Inr (Some p)"
    and c: "checkpoint (snd s') (mf_chainId ?m) (mf_contract ?m) = Inr (Some c)"
      "ck_number c = bk_number latest" "sameHash (ck_hash c) (bk_hash latest)"
    and rec: "rpc_receipt env (fst s') ?tx = Inr rec"
    and nx: "track_rest env so ?tx latest c p rec (fst s' + 1, ?db) = (t, Inr q)"
  have "op_state p = CONFIRMED \<and> q = p \<or> (\<exists>r b p' es. rec = Some r \<and> receipt_matches r ?tx p \<and> rc_status r = Success \<and>
      canonicalBlock ?db (op_chainId p) (op_target p) (rc_blockNumber r) = Inr (Some b) \<and>
      sameHash (bk_hash b) (rc_blockHash r) \<and> same_operation p p' \<and>
      canonicalEvents ?db (op_chainId p) (op_target p) = Inr es \<and>
      reconcile env (fst s' + 1) p' r (filter (\<lambda>e. sameHash (ev_transactionHash e) ?tx) es) b = Inr Match \<and>
      so_softReadyDepth so \<le> bk_number latest - rc_blockNumber r + 1)"
    using tracked_receipt[OF nx assms(2)] by simp
  then show ?thesis
  proof
    assume "\<exists>r b p' es. rec = Some r \<and> receipt_matches r ?tx p \<and> rc_status r = Success \<and>
      canonicalBlock ?db (op_chainId p) (op_target p) (rc_blockNumber r) = Inr (Some b) \<and>
      sameHash (bk_hash b) (rc_blockHash r) \<and> same_operation p p' \<and>
      canonicalEvents ?db (op_chainId p) (op_target p) = Inr es \<and>
      reconcile env (fst s' + 1) p' r (filter (\<lambda>e. sameHash (ev_transactionHash e) ?tx) es) b = Inr Match \<and>
      so_softReadyDepth so \<le> bk_number latest - rc_blockNumber r + 1"
    then obtain r b p' es where e: "rec = Some r" "receipt_matches r ?tx p" "rc_status r = Success"
      "canonicalBlock ?db (op_chainId p) (op_target p) (rc_blockNumber r) = Inr (Some b)"
      "sameHash (bk_hash b) (rc_blockHash r)" "same_operation p p'" "canonicalEvents ?db (op_chainId p) (op_target p) = Inr es"
      "reconcile env (fst s' + 1) p' r (filter (\<lambda>e. sameHash (ev_transactionHash e) ?tx) es) b = Inr Match"
      "so_softReadyDepth so \<le> bk_number latest - rc_blockNumber r + 1" by blast
    have m: "sameHash (rc_transactionHash r) ?tx" "sameAddress (rc_from r) (op_owner p)" "\<exists>a. rc_to r = Some a \<and> sameAddress a (op_target p)"
      using e(2) by (auto simp: receipt_matches_def split: option.splits)
    show ?thesis using p0 c rec[unfolded e(1)] e(3-) m by blast
  qed (use p0 in blast)
qed

text \<open>C25: An operation is reported as confirmed only on evidence, whether \<open>trackOperation\<close> is handed a synchronised head or,
  called with the operation's id alone, first synchronises with the head the chain reports. Read again from that point on,
  the operation was already confirmed and is returned as it is, or there is a successful receipt of the transaction
  that is being tracked, from the operation's owner to its target, in a block that the store has as canonical at that
  moment, which matches the operation's intent and is at least \<open>softReadyDepth\<close> blocks deep under a head the checkpoint
  agrees with.\<close>

theorem confirmation_justified:
  assumes "trackOperation env so oid synchronized s = (t, Inr q)" and "op_state q = CONFIRMED"
  shows "\<exists>p0 latest s' p. operation (snd s) oid = Inr (Some p0) \<and> tracking_point env so synchronized s latest s' \<and>
    operation (snd s') oid = Inr (Some p) \<and>
    (op_state p = CONFIRMED \<and> q = p \<or>
      (\<exists>r b p' es c. rpc_receipt env (fst s') (the (txHash p0)) = Inr (Some r) \<and> rc_status r = Success \<and>
        sameHash (rc_transactionHash r) (the (txHash p0)) \<and> sameAddress (rc_from r) (op_owner p) \<and>
        (\<exists>a. rc_to r = Some a \<and> sameAddress a (op_target p)) \<and>
        canonicalBlock (interfere env (fst s') (snd s')) (op_chainId p) (op_target p) (rc_blockNumber r) = Inr (Some b) \<and>
        sameHash (bk_hash b) (rc_blockHash r) \<and> same_operation p p' \<and>
        canonicalEvents (interfere env (fst s') (snd s')) (op_chainId p) (op_target p) = Inr es \<and>
        reconcile env (fst s' + 1) p' r (filter (\<lambda>e. sameHash (ev_transactionHash e) (the (txHash p0))) es) b = Inr Match \<and>
        so_softReadyDepth so \<le> bk_number latest - rc_blockNumber r + 1 \<and>
        checkpoint (snd s') (mf_chainId (so_manifest so)) (mf_contract (so_manifest so)) = Inr (Some c) \<and>
        ck_number c = bk_number latest \<and> sameHash (ck_hash c) (bk_hash latest)))"
  using assms by (rule confirmation_evidence)

section \<open>A run\<close>

text \<open>A store that is at block 11 of a branch the chain has left follows the chain back to block 10 and on to its block 11.\<close>

definition sdemo_chain :: "int \<Rightarrow> chain_block" where
  "sdemo_chain n = (if n = 11 then cdemo_block 11 (CHR ''7'') (CHR ''1'') else cdemo_block n (CHR ''1'') (CHR ''0''))"

definition sdemo_token :: string where "sdemo_token = replicate 36 (CHR ''a'')"

definition sdemo_env :: sync_env where
  "sdemo_env = \<lparr>rpc_chainId = (\<lambda>_. Inr 1), rpc_block = (\<lambda>_ n. Inr (Some (sdemo_chain n))),
     rpc_latest = (\<lambda>_. Inr (Some (sdemo_chain 11))), rpc_logs = (\<lambda>_ _. Inr []), rpc_receipt = (\<lambda>_ _. Inr None),
     decode_log = (\<lambda>_. Inr None), rebuild = (\<lambda>_ _ _. Inr []), reconcile = (\<lambda>_ _ _ _ _. Inr Match),
     interfere = (\<lambda>_ db. db), random_uuid = (\<lambda>_. sdemo_token), clock = (\<lambda>_. ''t''), parses = (\<lambda>_. True)\<rparr>"

definition sdemo_options :: sync_options where
  "sdemo_options = \<lparr>so_manifest = \<lparr>mf_chainId = 1, mf_contract = cdemo_contract, mf_deploymentBlock = 10\<rparr>,
     so_softReadyDepth = 1, so_reorgSearchLimit = 64, so_maxBlocksPerSync = 2000\<rparr>"

lemma sdemo_token_ok: "owner_token_ok sdemo_token"
  unfolding sdemo_token_def by code_simp

lemma sdemo_env_ok: "quiet sdemo_env" "serves sdemo_env sdemo_chain" "parses sdemo_env = (\<lambda>_. True)"
  by (simp_all add: quiet_def serves_def sdemo_env_def)

lemmas sdemo_simps = sync_bind_def sync_return_def sync_check_def sync_await_def sync_join_def pause_def store_read_def store_write_def
  store_update_def assertChain_def sdemo_env_def sdemo_options_def sdemo_chain_def sdemo_token_ok cdemo_simps
  event_row_order_def lease_at_def Let_def

definition sdemo_claimed :: chain_db where
  "sdemo_claimed = (cdemo_store [] False)\<lparr>chain_sync_leases := [\<lparr>ls_chain = 1, ls_contract = cdemo_contract,
       ls_owner = sdemo_token, ls_target = 11\<rparr>],
     chain_checkpoints := map (raise_target 11) (chain_checkpoints (cdemo_store [] False))\<rparr>"

lemma sdemo_claim: "sync_claim sdemo_env sdemo_options 11 11 (k, cdemo_store [] False) = ((k + 3, sdemo_claimed), Inr sdemo_token)"
  by (simp add: sync_claim_def claimSync_def sdemo_claimed_def sdemo_simps)

definition sdemo_db :: "block_row list \<Rightarrow> int \<Rightarrow> char \<Rightarrow> bool \<Rightarrow> bool \<Rightarrow> chain_db" where
  "sdemo_db bs n h projected finished = \<lparr>chain_blocks = bs, chain_events = [],
     chain_checkpoints = [\<lparr>cp_chain = 1, cp_contract = cdemo_contract, cp_number = n, cp_hash = cdemo_hash h,
       cp_projected = (if projected then Some n else None), cp_projectedHash = (if projected then Some (cdemo_hash h) else None),
       cp_healthy = finished, cp_error = (if finished then None else Some CHAIN_SYNC_INCOMPLETE),
       cp_target = (if finished then None else Some 11)\<rparr>],
     chain_sync_leases = (if finished then [] else [\<lparr>ls_chain = 1, ls_contract = cdemo_contract, ls_owner = sdemo_token, ls_target = 11\<rparr>]),
     chain_transactions = [], product_projections = []\<rparr>"

definition sdemo_rewound :: "block_row list" where
  "sdemo_rewound = [cdemo_row 10 (CHR ''1'') (CHR ''0''), (cdemo_row 11 (CHR ''2'') (CHR ''1''))\<lparr>br_canonical := False\<rparr>]"

definition sdemo_scanned :: "block_row list" where
  "sdemo_scanned = sdemo_rewound @ [cdemo_row 11 (CHR ''7'') (CHR ''1'')]"

lemma sdemo_rewind: "rewindIfNeeded sdemo_env sdemo_options sdemo_token (k, sdemo_claimed) =
    ((k + 2, sdemo_db sdemo_rewound 10 (CHR ''1'') False False), Inr 1)"
  by (simp add: rewindIfNeeded_def rewind_loop.simps[of _ _ _ 64] rollbackFromBlock_def canonicalBlock_def last_canonical_def
      projection_of_def sdemo_claimed_def sdemo_db_def sdemo_rewound_def raise_target_def sdemo_simps)

lemma sdemo_recover: "recoverProjection sdemo_env (so_manifest sdemo_options) sdemo_token
      (k, sdemo_db sdemo_rewound 10 (CHR ''1'') False False) =
    ((k + 2, sdemo_db sdemo_rewound 10 (CHR ''1'') True False), Inr ())"
  by (simp add: recoverProjection_def projectionCheckpoint_def canonicalBlock_def rebuildProjection_def canonicalEvents_def
      commitProjections_def at_checkpoint_def sync_catch_def sdemo_db_def sdemo_rewound_def digits_val_def sdemo_simps)

lemma sdemo_scan: "sync_scan sdemo_env sdemo_options 11 11 sdemo_token (k, sdemo_db sdemo_rewound 10 (CHR ''1'') True False) =
    ((k + 4, sdemo_db sdemo_scanned 11 (CHR ''7'') True False), Inr (1, 0))"
  by (simp add: sync_scan_def toCount_def MAX_SAFE_INTEGER_def scan_block_def project_or_rollback_def rebuildProjection_def canonicalEvents_def
      canonicalBlock_def
      commitProjections_def at_checkpoint_def sync_catch_def cdemo_record raise_target_def sdemo_db_def sdemo_rewound_def
      sdemo_scanned_def digits_val_def sdemo_simps)

lemma sdemo_finish: "finish_sync (so_manifest sdemo_options) 11 11 sdemo_token (k, sdemo_db sdemo_scanned 11 (CHR ''7'') True False) =
    ((k, sdemo_db sdemo_scanned 11 (CHR ''7'') True True), Inr ())"
  by (simp add: finish_sync_def markSyncHealthy_def completed_row_def release_def lease_at_def sdemo_db_def sdemo_simps)

lemma sdemo_run: "sync_body sdemo_env sdemo_options 11 11 (0, cdemo_store [] False) =
    ((13, sdemo_db sdemo_scanned 11 (CHR ''7'') True True), Inr (1, 0, 1))"
proof -
  have j: "sync_join sdemo_env c s = ((fst (fst (c s)) + 1, snd (fst (c s))), snd (c s))" for c :: "'a sync" and s
    by (simp add: sync_join_def sdemo_env_def split: prod.split)
  show ?thesis
    by (simp add: sync_body_def sync_work_def sync_bind_def sync_return_def j sdemo_claim sdemo_rewind sdemo_recover sdemo_scan sdemo_finish)
qed

lemma sdemo_start: "reaches chain_store_start (chain_store_step (parses sdemo_env)) (cdemo_store [] False)"
proof -
  have "reaches chain_store_start (chain_store_step (\<lambda>_. True)) empty_chain_db"
    by (rule reach_init) (simp add: chain_store_start_def)
  then have "reaches chain_store_start (chain_store_step (\<lambda>_. True)) cdemo_first" by (rule reach_step) (rule cdemo_step1)
  then show ?thesis unfolding sdemo_env_ok(3) by (rule reach_step) (rule cdemo_step2)
qed

theorem sync_returns_settled_witness:
  "find_lease (sdemo_db sdemo_scanned 11 (CHR ''7'') True True) 1 cdemo_contract = None"
proof -
  have s: "reaches chain_store_start (chain_store_step (parses sdemo_env)) (snd (0, cdemo_store [] False))" using sdemo_start by simp
  show ?thesis using sync_returns_settled[OF quiet_honest[OF sdemo_env_ok(1)] s sdemo_run] by (simp add: sdemo_options_def)
qed

theorem sync_agrees_with_chain_witness:
  "\<exists>c. find_checkpoint (sdemo_db sdemo_scanned 11 (CHR ''7'') True True) 1 cdemo_contract = Some c \<and>
    cp_hash c = toLowerCase (bk_hash (sdemo_chain (cp_number c)))"
proof -
  have s: "reaches chain_store_start (chain_store_step (parses sdemo_env)) (snd (0, cdemo_store [] False))" using sdemo_start by simp
  obtain c where c: "find_checkpoint (sdemo_db sdemo_scanned 11 (CHR ''7'') True True) 1 cdemo_contract = Some c"
    by (simp add: sdemo_db_def find_checkpoint_def checkpoint_at_def)
  then show ?thesis
    using sync_agrees_with_chain[OF sdemo_env_ok(1,2) s sdemo_run, of c] by (simp add: sdemo_options_def)
qed

text \<open>A mined operation whose block is two deep is confirmed.\<close>

definition sdemo_mined :: chain_operation where
  "sdemo_mined = cdemo_operation\<lparr>op_calldata := Some ''0x43d726d6'', op_state := MINED, confirmations := 0, reconciled := False, confirmedAt := None\<rparr>"

definition sdemo_confirmed :: chain_operation where
  "sdemo_confirmed = cdemo_operation\<lparr>op_calldata := Some ''0x43d726d6'', confirmations := 2\<rparr>"

definition sdemo_rows :: "event_row list" where
  "sdemo_rows = [\<lparr>er_chain = 1, er_tx = cdemo_hash (CHR ''7''), er_log = 0, er_index = 0, er_contract = cdemo_contract, er_number = 10,
     er_hash = cdemo_hash (CHR ''1''), er_data = ''0x'', er_topics = ''[]'', er_signature = ''0x'', er_name = ''Closed'',
     er_normalized = ''{\"owner\":\"0xaaaaaaaaaaaaaaaaaaaaaaaaaaaaaaaaaaaaaaaa\"}'', er_canonical = True\<rparr>]"

definition sdemo_store :: "chain_operation \<Rightarrow> chain_db" where
  "sdemo_store p = (cdemo_store [p] True)\<lparr>chain_events := sdemo_rows\<rparr>"

definition sdemo_events :: "chain_event list" where
  "sdemo_events = (case canonicalEvents (sdemo_store sdemo_mined) 1 cdemo_contract of Inl _ \<Rightarrow> [] | Inr es \<Rightarrow> es)"

definition sdemo_receipt :: chain_receipt where
  "sdemo_receipt = \<lparr>rc_transactionHash = cdemo_hash (CHR ''7''), rc_blockNumber = 10, rc_blockHash = cdemo_hash (CHR ''1''),
     rc_transactionIndex = 0, rc_from = cdemo_contract, rc_to = Some cdemo_contract, rc_status = Success\<rparr>"

definition sdemo_world :: sync_env where
  "sdemo_world = sdemo_env\<lparr>rpc_receipt := (\<lambda>_ _. Inr (Some sdemo_receipt))\<rparr>"

lemma sdemo_fingerprint: "\<exists>x. operationFingerprint sdemo_mined = Inr x"
proof -
  have "case operationFingerprint sdemo_mined of Inl _ \<Rightarrow> False | Inr _ \<Rightarrow> True" by code_simp
  then show ?thesis by (cases "operationFingerprint sdemo_mined") simp_all
qed

lemma sdemo_hex: "asHexData ''0x43d726d6'' = Inr ''0x43d726d6''" "toLowerCase ''0x43d726d6'' = ''0x43d726d6''"
  by code_simp+

lemma sdemo_canonical: "canonicalEvents (sdemo_store sdemo_mined) 1 cdemo_contract = Inr sdemo_events"
proof -
  have "case canonicalEvents (sdemo_store sdemo_mined) 1 cdemo_contract of Inl _ \<Rightarrow> False | Inr _ \<Rightarrow> True" by code_simp
  then show ?thesis unfolding sdemo_events_def by (cases "canonicalEvents (sdemo_store sdemo_mined) 1 cdemo_contract") simp_all
qed

lemma sdemo_own: "filter (\<lambda>e. toLowerCase (ev_transactionHash e) = cdemo_hash (CHR ''7'')) sdemo_events = sdemo_events"
  unfolding filter_id_conv list_all_iff[symmetric] by code_simp

lemmas sdemo_defs = sdemo_mined_def sdemo_confirmed_def sdemo_store_def sdemo_hex

lemma sdemo_stored: "operation (sdemo_store sdemo_mined) ''op'' = Inr (Some sdemo_mined)"
  by (simp add: operation_def find_operation_def decode_operation_def hex_opt_def sdemo_defs cdemo_simps)

lemma sdemo_saved:
  "saveOperationAtCheckpoint (\<lambda>_. True) (sdemo_store sdemo_mined) sdemo_confirmed sdemo_mined
     \<lparr>ck_number = 11, ck_hash = cdemo_hash (CHR ''2'')\<rparr> = Inr (sdemo_store sdemo_confirmed)"
proof -
  have i: "operationId sdemo_mined = ''op''" "identity_kept sdemo_confirmed sdemo_mined"
    "txHash sdemo_mined = txHash cdemo_operation" "txHash sdemo_confirmed = txHash cdemo_operation"
    "operationId sdemo_confirmed = ''op''" "op_chainId sdemo_confirmed = 1" "op_target sdemo_confirmed = cdemo_contract"
    "assertSyncOwner (sdemo_store sdemo_mined) 1 cdemo_contract None = Inr ()"
    "validateOperationEvidence (\<lambda>_. True) sdemo_confirmed = Inr ()"
    "find_checkpoint (sdemo_store sdemo_mined) 1 cdemo_contract = Some (hd (chain_checkpoints (cdemo_store [] True)))"
    by (simp_all add: sdemo_defs identity_kept_def validateOperationEvidence_def evidence_ok_def blockWith_def validTime_def
        valid_index_def cdemo_simps)
  have c: "cp_number (hd (chain_checkpoints (cdemo_store [] True))) = 11"
    "cp_hash (hd (chain_checkpoints (cdemo_store [] True))) = cdemo_hash (CHR ''2'')"
    "settled_checkpoint (hd (chain_checkpoints (cdemo_store [] True)))" "cp_healthy (hd (chain_checkpoints (cdemo_store [] True)))"
    "cp_error (hd (chain_checkpoints (cdemo_store [] True))) = None" "cp_target (hd (chain_checkpoints (cdemo_store [] True))) = None"
    by (simp_all add: cdemo_store_def settled_checkpoint_def)
  have s: "saveOperation (\<lambda>_. True) (sdemo_store sdemo_mined) sdemo_confirmed =
      Inr (sdemo_store sdemo_confirmed)"
    unfolding saveOperation_def
    by (simp add: sdemo_defs validateOperationEvidence_def evidence_ok_def blockWith_def validTime_def valid_index_def identity_kept_def
      hex_opt_def decode_operation_def operation_def find_operation_def operation_row_def write_operation_def claims_transaction_def cdemo_simps)
  show ?thesis using sdemo_fingerprint
    by (auto simp: saveOperationAtCheckpoint_def i c s sdemo_stored cdemo_checks)
qed

lemma sdemo_tracked:
  assumes "\<And>k. reco k sdemo_mined sdemo_receipt sdemo_events (cdemo_block 10 (CHR ''1'') (CHR ''0'')) = Inr Match"
  shows "trackOperation (sdemo_world\<lparr>reconcile := reco\<rparr>) sdemo_options ''op'' (Some (cdemo_block 11 (CHR ''2'') (CHR ''1''))) (0, sdemo_store sdemo_mined) =
     ((2, sdemo_store sdemo_confirmed), Inr sdemo_confirmed)"
proof -
  have op: "op_state sdemo_mined = MINED" "txHash sdemo_mined = Some (cdemo_hash (CHR ''7''))" "op_chainId sdemo_mined = 1"
    "op_target sdemo_mined = cdemo_contract" "op_owner sdemo_mined = cdemo_contract" "truthy (Some (cdemo_hash (CHR ''7'')))"
    by (simp_all add: sdemo_mined_def cdemo_operation_def truthy_def cdemo_hash_def)
  have w: "rpc_receipt sdemo_world k tx = Inr (Some sdemo_receipt)" "interfere sdemo_world k db = db" "clock sdemo_world k = ''t''"
    "parses sdemo_world = (\<lambda>_. True)" for k tx db
    by (simp_all add: sdemo_world_def sdemo_env_def)
  have st: "checkpoint (sdemo_store sdemo_mined) 1 cdemo_contract = Inr (Some \<lparr>ck_number = 11, ck_hash = cdemo_hash (CHR ''2'')\<rparr>)"
    "canonicalBlock (sdemo_store sdemo_mined) 1 cdemo_contract 10 = Inr (Some (cdemo_block 10 (CHR ''1'') (CHR ''0'')))"
    "\<exists>e. syncHealth (sdemo_store sdemo_mined) 1 cdemo_contract = Inr (True, e)"
    by (simp_all add: sdemo_store_def canonicalBlock_def syncHealth_def health_valid_def digits_val_def digit_val_def cdemo_simps)
  have tr: "transitionOperation (\<lambda>_. True) sdemo_mined (To_CONFIRMING 2 (Some True)) =
      Inr (sdemo_confirmed\<lparr>op_state := CONFIRMING, confirmations := 2, confirmedAt := None\<rparr>)"
    "transitionOperation (\<lambda>_. True) (sdemo_confirmed\<lparr>op_state := CONFIRMING, confirmations := 2, confirmedAt := None\<rparr>)
      (To_CONFIRMED 2 ''t'' True) = Inr sdemo_confirmed"
    by (simp_all add: transition_defs sdemo_mined_def sdemo_confirmed_def cdemo_operation_def isSafeInteger_def MAX_SAFE_INTEGER_def check_def)
  have m: "receipt_matches sdemo_receipt (cdemo_hash (CHR ''7'')) sdemo_mined" "rc_blockNumber sdemo_receipt = 10"
    "rc_blockHash sdemo_receipt = cdemo_hash (CHR ''1'')" "rc_status sdemo_receipt = Success"
    by (simp_all add: receipt_matches_def sdemo_receipt_def op sameHash_def sameAddress_def cdemo_contract_def)
  have bl: "bk_number (cdemo_block n h p) = n" "bk_hash (cdemo_block n h p) = cdemo_hash h" for n h p by (simp_all add: cdemo_block_def)
  show ?thesis using st(3)
    by (auto simp: trackOperation_def track_receipt_def track_reconcile_def track_confirm_def save_at_def transition_def Let_def
      sync_bind_def sync_check_def sync_return_def sync_await_def store_read_def store_write_def store_update_def
      sdemo_options_def sdemo_stored st(1,2) sdemo_canonical sdemo_own assms op w m tr sdemo_saved lift_chain_def toCount_def MAX_SAFE_INTEGER_def bl
      sameHash_def sameAddress_def)
qed

theorem confirmation_justified_witness:
  "\<exists>r. rpc_receipt sdemo_world 0 (cdemo_hash (CHR ''7'')) = Inr (Some r) \<and> rc_status r = Success \<and>
    sameAddress (rc_from r) (op_owner sdemo_mined) \<and> so_softReadyDepth sdemo_options \<le> 11 - rc_blockNumber r + 1"
proof -
  have "op_state sdemo_mined \<noteq> CONFIRMED" "op_state sdemo_confirmed = CONFIRMED"
    "txHash sdemo_mined = Some (cdemo_hash (CHR ''7''))"
    by (simp_all add: sdemo_mined_def sdemo_confirmed_def cdemo_operation_def)
  moreover have "sdemo_world\<lparr>reconcile := reconcile sdemo_world\<rparr> = sdemo_world" "reconcile sdemo_world k p r es b = Inr Match" for k p r es b
    by (simp_all add: sdemo_world_def sdemo_env_def)
  ultimately show ?thesis using confirmation_justified[OF sdemo_tracked, of "reconcile sdemo_world"]
    by (auto simp: cdemo_block_def tracking_point_def sdemo_stored)
qed

end
