(* ===== verification/Contract_Integration.thy ===== *)
theory Contract_Integration
  imports Contract_Abi Chain_Sync_Properties
begin

text \<open>
  \<^bold>\<open>apps/server/src/m3-vault-integration.ts and m3-pass-integration.ts\<close>: the two implementations of \<open>ContractIntegration\<close>, which the
  synchronizer asks to decode logs, to rebuild projections and to compare an operation with what happened on chain.
  \<open>rpc.call\<close> is the parameter \<open>ask\<close>: the answer to the \<open>k\<close>-th call of a method, given the address, the call data and the
  hash of the block; so two equal calls may have different answers. \<open>Promise.all\<close> fails if one of its calls fails; the
  error is that of the first failed call in the order of the list. Shown: an operation is matched only with the log
  whose topic and words are those of its call data, and a confirmation rests on the events and the state of the
  action. What an action leaves on the chain is said by \<open>log_of_action\<close>, \<open>event_of_action\<close> and \<open>state_of_action\<close>, which
  are written from the contract's interface and not from the functions that compare.
\<close>

type_synonym contract_calls = "nat \<Rightarrow> string \<Rightarrow> string \<Rightarrow> string \<Rightarrow> string + string"

section \<open>The Vault\<close>

definition M3_VAULT_PROJECTION_KEY :: string where "M3_VAULT_PROJECTION_KEY = ''m3-vault''"

record vault_projection =
  vp_owner :: string
  vp_strategyCreator :: string
  vp_strategyId :: string
  vp_strategyRef :: string
  vp_pass :: string
  vp_passStrategyId :: string
  vp_afUsdc :: string
  vp_afEth :: string
  vp_afBtc :: string
  vp_passLocker :: string
  vp_principalBasis :: string
  vp_trackedUsdcBalance :: string
  vp_realizedProfit :: string
  vp_withdrawableUsdc :: string
  vp_trackedAfEth :: string
  vp_trackedAfBtc :: string
  vp_openTrackedPositionCount :: string
  vp_closed :: bool

definition read_word ::
  "contract_calls \<Rightarrow> nat \<Rightarrow> string \<Rightarrow> chain_block \<Rightarrow> string \<Rightarrow> abi_value list \<Rightarrow> (string \<Rightarrow> string + 'a) \<Rightarrow> string + 'a" where
  "read_word ask k address block signature values decode =
     bind_r (encodeM3VaultCall signature values) (\<lambda>data. bind_r (ask k address data (bk_hash block)) decode)"

definition readVault :: "contract_calls \<Rightarrow> string \<Rightarrow> string \<Rightarrow> chain_block \<Rightarrow> string + vault_projection" where
  "readVault ask contract strategyPass block =
     (let address = (\<lambda>k sg. read_word ask k contract block sg [] decodeM3VaultAddressResult);
          bytes = (\<lambda>k sg. read_word ask k contract block sg [] decodeM3VaultBytes32Result);
          uint = (\<lambda>k sg. read_word ask k contract block sg [] decodeM3VaultUintResult)
      in
      bind_r (address 0 ''owner()'') (\<lambda>owner.
      bind_r (address 1 ''strategyCreator()'') (\<lambda>strategyCreator.
      bind_r (bytes 2 ''strategyId()'') (\<lambda>strategyId.
      bind_r (bytes 3 ''strategyRef()'') (\<lambda>strategyRef.
      bind_r (address 4 ''pass()'') (\<lambda>pass.
      bind_r (address 5 ''afUsdc()'') (\<lambda>afUsdc.
      bind_r (address 6 ''afEth()'') (\<lambda>afEth.
      bind_r (address 7 ''afBtc()'') (\<lambda>afBtc.
      bind_r (address 8 ''passLocker()'') (\<lambda>passLocker.
      bind_r (uint 9 ''principalBasis()'') (\<lambda>principalBasis.
      bind_r (uint 10 ''trackedUsdcBalance()'') (\<lambda>trackedUsdcBalance.
      bind_r (uint 11 ''realizedProfit()'') (\<lambda>realizedProfit.
      bind_r (uint 12 ''withdrawableUsdc()'') (\<lambda>withdrawableUsdc.
      bind_r (uint 13 ''openTrackedPositionCount()'') (\<lambda>openCount.
      bind_r (read_word ask 14 contract block ''closed()'' [] decodeM3VaultBoolResult) (\<lambda>closed.
      bind_r (read_word ask 15 contract block ''trackedPosition(address)'' [Abi_string afEth] decodeM3VaultUintResult) (\<lambda>trackedAfEth.
      bind_r (read_word ask 16 contract block ''trackedPosition(address)'' [Abi_string afBtc] decodeM3VaultUintResult) (\<lambda>trackedAfBtc.
      bind_r (read_word ask 17 pass block ''strategyId()'' [] decodeM3VaultBytes32Result) (\<lambda>passStrategyId.
      bind_r (check (toLowerCase passStrategyId = toLowerCase strategyId) ''M3_VAULT_STRATEGY_PASS_MISMATCH'') (\<lambda>_.
      bind_r (check (sameAddress pass strategyPass) ''M3_VAULT_STRATEGY_PASS_MISMATCH'') (\<lambda>_.
      Inr \<lparr>vp_owner = owner, vp_strategyCreator = strategyCreator, vp_strategyId = strategyId, vp_strategyRef = strategyRef,
        vp_pass = pass, vp_passStrategyId = passStrategyId, vp_afUsdc = afUsdc, vp_afEth = afEth, vp_afBtc = afBtc,
        vp_passLocker = passLocker, vp_principalBasis = toString principalBasis,
        vp_trackedUsdcBalance = toString trackedUsdcBalance, vp_realizedProfit = toString realizedProfit,
        vp_withdrawableUsdc = toString withdrawableUsdc, vp_trackedAfEth = toString trackedAfEth,
        vp_trackedAfBtc = toString trackedAfBtc, vp_openTrackedPositionCount = toString openCount, vp_closed = closed\<rparr>)))))))))))))))))))))"

definition vault_state_json :: "vault_projection \<Rightarrow> json" where
  "vault_state_json v = JObj [(''owner'', JStr (vp_owner v)), (''strategyCreator'', JStr (vp_strategyCreator v)),
     (''strategyId'', JStr (vp_strategyId v)), (''strategyRef'', JStr (vp_strategyRef v)), (''pass'', JStr (vp_pass v)),
     (''passStrategyId'', JStr (vp_passStrategyId v)), (''afUsdc'', JStr (vp_afUsdc v)), (''afEth'', JStr (vp_afEth v)),
     (''afBtc'', JStr (vp_afBtc v)), (''passLocker'', JStr (vp_passLocker v)), (''principalBasis'', JStr (vp_principalBasis v)),
     (''trackedUsdcBalance'', JStr (vp_trackedUsdcBalance v)), (''realizedProfit'', JStr (vp_realizedProfit v)),
     (''withdrawableUsdc'', JStr (vp_withdrawableUsdc v)), (''trackedAfEth'', JStr (vp_trackedAfEth v)),
     (''trackedAfBtc'', JStr (vp_trackedAfBtc v)), (''openTrackedPositionCount'', JStr (vp_openTrackedPositionCount v)),
     (''closed'', JBool (vp_closed v))]"

definition event_field :: "chain_event \<Rightarrow> string \<Rightarrow> string option" where
  "event_field e name = (case ev_normalizedData e of
     JObj es \<Rightarrow> (case map_of es name of Some (JStr v) \<Rightarrow> Some v | _ \<Rightarrow> None) | _ \<Rightarrow> None)"

definition expectedEvent :: "chain_event list \<Rightarrow> string \<Rightarrow> chain_event option" where
  "expectedEvent es name = (case filter (\<lambda>e. ev_name e = name) es of [e] \<Rightarrow> Some e | _ \<Rightarrow> None)"

definition eventOwnerMatches :: "chain_event \<Rightarrow> string \<Rightarrow> bool" where
  "eventOwnerMatches e owner = (case event_field e ''owner'' of None \<Rightarrow> False | Some v \<Rightarrow> v \<noteq> [] \<and> sameAddress v owner)"

definition eventUint :: "chain_event \<Rightarrow> string \<Rightarrow> int option" where
  "eventUint e name = (case event_field e name of None \<Rightarrow> None
     | Some v \<Rightarrow> if canonical_dec (length v) v then Some (digits_val v) else None)"

definition vault_rebuild :: "contract_calls \<Rightarrow> string \<Rightarrow> string \<Rightarrow> chain_block \<Rightarrow> string + projection_candidate list" where
  "vault_rebuild ask contract strategyPass block =
     bind_r (readVault ask contract strategyPass block) (\<lambda>v.
     Inr [\<lparr>pc_owner = vp_owner v, pc_key = M3_VAULT_PROJECTION_KEY, pc_blockNumber = bk_number block,
       pc_blockHash = bk_hash block, pc_state = vault_state_json v\<rparr>])"

definition vault_event_matches :: "vault_calldata \<Rightarrow> chain_event list \<Rightarrow> string \<Rightarrow> bool" where
  "vault_event_matches action es owner = (case action of
     DEPOSIT n \<Rightarrow> (case expectedEvent es ''Deposited'' of None \<Rightarrow> False
       | Some e \<Rightarrow> eventOwnerMatches e owner \<and> event_field e ''usdcAmount'' = Some (toString n) \<and>
           eventUint e ''passRaw'' = Some (n * 1000000000000))
   | WITHDRAW n \<Rightarrow> (case expectedEvent es ''Withdrawn'' of None \<Rightarrow> False
       | Some e \<Rightarrow> eventOwnerMatches e owner \<and> event_field e ''usdcAmount'' = Some (toString n) \<and>
           (case (eventUint e ''profitAmount'', eventUint e ''principalAmount'') of
              (Some profitAmount, Some principalAmount) \<Rightarrow> profitAmount + principalAmount = n \<and>
                eventUint e ''passRawUnlocked'' = Some (principalAmount * 1000000000000)
            | _ \<Rightarrow> False))
   | CLOSE \<Rightarrow> (case expectedEvent es ''Closed'' of None \<Rightarrow> False | Some e \<Rightarrow> eventOwnerMatches e owner)
   | RESCUE_UNTRACKED_TOKEN t \<Rightarrow> (case expectedEvent es ''UntrackedTokenRescued'' of None \<Rightarrow> False
       | Some e \<Rightarrow> eventOwnerMatches e owner \<and> map_option toLowerCase (event_field e ''token'') = Some (toLowerCase t))
   | RESCUE_NATIVE \<Rightarrow> (case expectedEvent es ''NativeRescued'' of None \<Rightarrow> False | Some e \<Rightarrow> eventOwnerMatches e owner))"

definition vault_state_matches :: "vault_calldata \<Rightarrow> vault_projection \<Rightarrow> string \<Rightarrow> bool" where
  "vault_state_matches action v owner \<longleftrightarrow> sameAddress (vp_owner v) owner \<and>
     (case action of
        CLOSE \<Rightarrow> vp_closed v \<and> vp_principalBasis v = ''0'' \<and> vp_trackedUsdcBalance v = ''0'' \<and> vp_openTrackedPositionCount v = ''0''
      | RESCUE_NATIVE \<Rightarrow> vp_closed v
      | RESCUE_UNTRACKED_TOKEN _ \<Rightarrow> vp_closed v
      | _ \<Rightarrow> True)"

definition vault_reconcile ::
  "contract_calls \<Rightarrow> string \<Rightarrow> string \<Rightarrow> chain_operation \<Rightarrow> chain_event list \<Rightarrow> chain_block \<Rightarrow> reconciliation_result" where
  "vault_reconcile ask contract strategyPass p es block =
     (case (if truthy (op_calldata p) then decodeM3VaultCalldata (the (op_calldata p)) else None) of
        None \<Rightarrow> Mismatch EVENT_EVIDENCE_MISMATCH
      | Some action \<Rightarrow>
          if \<not> vault_event_matches action es (op_owner p) then Mismatch EVENT_EVIDENCE_MISMATCH
          else case readVault ask contract strategyPass block of
            Inl _ \<Rightarrow> Mismatch CONTRACT_STATE_MISMATCH
          | Inr v \<Rightarrow> if vault_state_matches action v (op_owner p) then Match else Mismatch CONTRACT_STATE_MISMATCH)"

section \<open>The strategy PASS\<close>

definition M3_PASS_PROJECTION_KEY :: string where "M3_PASS_PROJECTION_KEY = ''m3-strategy-pass''"
definition zeroAddress :: string where "zeroAddress = ''0x'' @ replicate 40 (CHR ''0'')"
definition zeroBytes32 :: string where "zeroBytes32 = ''0x'' @ replicate 64 (CHR ''0'')"

definition eventAddress :: "chain_event \<Rightarrow> string \<Rightarrow> string option" where
  "eventAddress e name = (case event_field e name of None \<Rightarrow> None
     | Some v \<Rightarrow> (case asAddress v of Inl _ \<Rightarrow> None | Inr a \<Rightarrow> Some a))"

text \<open>The decimals are checked to be 18; the result is the strategy's id.\<close>

definition readPassMetadata :: "contract_calls \<Rightarrow> string \<Rightarrow> chain_block \<Rightarrow> string + string" where
  "readPassMetadata ask contract block =
     bind_r (bind_r (ask 0 contract M3_STRATEGY_PASS_STRATEGY_ID_CALL (bk_hash block)) decodeM3VaultBytes32Result) (\<lambda>strategyId.
     bind_r (bind_r (ask 1 contract M3_STRATEGY_PASS_DECIMALS_CALL (bk_hash block)) decodeM3VaultUintResult) (\<lambda>decimals.
     if toLowerCase strategyId = zeroBytes32 \<or> decimals \<noteq> 18 then Inl ''M3_STRATEGY_PASS_STATE_MISMATCH'' else Inr strategyId))"

definition readBalance :: "contract_calls \<Rightarrow> nat \<Rightarrow> string \<Rightarrow> chain_block \<Rightarrow> string \<Rightarrow> string + int" where
  "readBalance ask k contract block owner =
     bind_r (encodeM3StrategyPassBalanceOf owner) (\<lambda>data.
     bind_r (ask k contract data (bk_hash block)) decodeM3VaultUintResult)"

definition add_owner :: "string option \<Rightarrow> (string \<times> string) list \<Rightarrow> (string \<times> string) list" where
  "add_owner a owners = (case a of None \<Rightarrow> owners
     | Some owner \<Rightarrow> if sameAddress owner zeroAddress then owners else AList.update (toLowerCase owner) owner owners)"

definition transfer_owners :: "chain_event list \<Rightarrow> (string \<times> string) list" where
  "transfer_owners es = fold (\<lambda>e owners. if ev_name e \<noteq> ''Transfer'' then owners
     else add_owner (eventAddress e ''to'') (add_owner (eventAddress e ''from'') owners)) es []"

definition pass_projection :: "contract_calls \<Rightarrow> string \<Rightarrow> chain_block \<Rightarrow> string \<Rightarrow> nat \<times> string \<Rightarrow> string + projection_candidate" where
  "pass_projection ask contract block strategyId = (\<lambda>(k, owner).
     bind_r (readBalance ask k contract block owner) (\<lambda>balance.
     Inr \<lparr>pc_owner = owner, pc_key = M3_PASS_PROJECTION_KEY, pc_blockNumber = bk_number block, pc_blockHash = bk_hash block,
       pc_state = JObj [(''owner'', JStr owner), (''pass'', JStr contract), (''strategyId'', JStr strategyId),
         (''decimals'', JNum 18), (''balanceRaw'', JStr (toString balance))]\<rparr>))"

definition pass_rebuild :: "contract_calls \<Rightarrow> string \<Rightarrow> chain_event list \<Rightarrow> chain_block \<Rightarrow> string + projection_candidate list" where
  "pass_rebuild ask contract es block =
     bind_r (readPassMetadata ask contract block) (\<lambda>strategyId.
     let owners = map snd (transfer_owners es)
     in map_r (pass_projection ask contract block strategyId) (zip [2..<2 + length owners] owners))"

definition pass_reconcile ::
  "contract_calls \<Rightarrow> string \<Rightarrow> chain_operation \<Rightarrow> chain_event list \<Rightarrow> chain_block \<Rightarrow> reconciliation_result" where
  "pass_reconcile ask contract p es block =
     (case (if truthy (op_calldata p) then decodeM3StrategyPassCalldata (the (op_calldata p)) else None,
        filter (\<lambda>e. ev_name e = ''Transfer'') es) of
        (Some (recipient, amountRaw), [transfer]) \<Rightarrow>
          if sameAddress (case eventAddress transfer ''from'' of None \<Rightarrow> zeroAddress | Some a \<Rightarrow> a) (op_owner p) \<and>
             sameAddress (case eventAddress transfer ''to'' of None \<Rightarrow> zeroAddress | Some a \<Rightarrow> a) recipient \<and>
             event_field transfer ''amountRaw'' = Some (toString amountRaw)
          then case bind_r (readPassMetadata ask contract block) (\<lambda>_.
                 bind_r (readBalance ask 2 contract block (op_owner p)) (\<lambda>_. readBalance ask 3 contract block recipient)) of
                 Inl _ \<Rightarrow> Mismatch CONTRACT_STATE_MISMATCH | Inr _ \<Rightarrow> Match
          else Mismatch EVENT_EVIDENCE_MISMATCH
      | _ \<Rightarrow> Mismatch EVENT_EVIDENCE_MISMATCH)"

section \<open>Decoded logs\<close>

text \<open>The numbers in the data of a log, and the address in one of its topics.\<close>

definition log_words :: "chain_log \<Rightarrow> int list" where
  "log_words l = map hex_number (words_of (drop 2 (lg_data l)))"

definition topic_address :: "chain_log \<Rightarrow> nat \<Rightarrow> string" where
  "topic_address l k = ''0x'' @ drop 26 (lg_topics l ! k)"

lemma words_of_step: "s \<noteq> [] \<Longrightarrow> words_of s = take 64 s # words_of (drop 64 s)"
  by (cases s) (simp_all only: words_of.simps not_Cons_self2 simp_thms)

lemma words_of_length: "length s = k * 64 \<Longrightarrow> length (words_of s) = k \<and> (\<forall>w\<in>set (words_of s). length w = 64)"
proof (induction k arbitrary: s)
  case (Suc k)
  then have "s \<noteq> []" by auto
  then have e: "words_of s = take 64 s # words_of (drop 64 s)" by (rule words_of_step)
  have l: "length (drop 64 s) = k * 64" and t: "length (take 64 s) = 64" using Suc.prems by simp_all
  have "length (words_of s) = Suc k" unfolding e using Suc.IH[OF l] by (simp only: list.size)
  moreover have "\<forall>w\<in>set (words_of s). length w = 64" unfolding e list.set using Suc.IH[OF l] t by blast
  ultimately show ?case by blast
qed simp

lemma or_throw_Inr [simp]: "or_throw e r = Inr x \<longleftrightarrow> r = Inr x"
  by (auto simp: or_throw_def split: sum.splits)

lemma uintValues_Inr:
  assumes "uintValues (lg_data l) k = Inr vs"
  shows "vs = map toString (log_words l)" "length (log_words l) = k" "\<forall>n\<in>set (log_words l). 0 \<le> n"
proof -
  from assms have len: "length (lg_data l) = 2 + k * 64"
    and ws: "list_all2 (\<lambda>w v. bind_r (parseUintWord w) (\<lambda>n. Inr (toString n)) = Inr v) (words_of (drop 2 (lg_data l))) vs"
    by (auto simp: uintValues_def bind_r_Inr exactWords_def map_r_Inr split: if_splits)
  have "list_all2 (\<lambda>w v. list_all is_hex w \<and> v = toString (hex_number w)) (words_of (drop 2 (lg_data l))) vs"
    by (rule list_all2_mono[OF ws]) (auto simp: bind_r_Inr parseUintWord_def split: if_splits)
  then have "vs = map toString (log_words l) \<and> (\<forall>w\<in>set (words_of (drop 2 (lg_data l))). list_all is_hex w)"
    unfolding log_words_def by (induction rule: list_all2_induct) auto
  then show "vs = map toString (log_words l)" "\<forall>n\<in>set (log_words l). 0 \<le> n"
    using hex_number_bound by (auto simp: log_words_def)
  show "length (log_words l) = k" using words_of_length[of "drop 2 (lg_data l)" k] len by (simp add: log_words_def)
qed

lemma indexedAddress_Inr: "indexedAddress (lg_topics l) k = Inr a \<Longrightarrow> a = topic_address l k"
  by (auto simp: indexedAddress_def parseAddressWord_Inr topic_address_def split: if_splits)
    (metis drop_drop append_eq_conv_conj length_replicate numeral_plus_numeral add_num_simps)

lemma event_branch_Inr:
  assumes "event_branch l name as ns = Inr (Some d)"
  shows "de_name d = name" "length (log_words l) = length ns" "\<forall>n\<in>set (log_words l). 0 \<le> n"
    "de_normalizedData d = JObj (zip as (map (\<lambda>k. JStr (topic_address l k)) [1..<length as + 1]) @
       zip ns (map (\<lambda>n. JStr (toString n)) (log_words l)))"
proof -
  define ks where "ks = [1..<length as + 1]"
  from assms obtain vs xs where v: "uintValues (lg_data l) (length ns) = Inr vs"
    and x: "list_all2 (\<lambda>k a. indexedAddress (lg_topics l) k = Inr a) ks xs"
    and d: "d = \<lparr>de_signature = hd (lg_topics l), de_name = name,
       de_normalizedData = JObj (zip as (map JStr xs) @ zip ns (map JStr vs))\<rparr>"
    unfolding event_branch_def bind_r_Inr map_r_Inr ks_def[symmetric] by auto
  note u = uintValues_Inr[OF v]
  have "list_all2 (\<lambda>k a. a = topic_address l k) ks xs"
    by (rule list_all2_mono[OF x]) (rule indexedAddress_Inr)
  then have "xs = map (topic_address l) ks" by (induction rule: list_all2_induct) simp_all
  then show "de_name d = name" "length (log_words l) = length ns" "\<forall>n\<in>set (log_words l). 0 \<le> n"
    "de_normalizedData d = JObj (zip as (map (\<lambda>k. JStr (topic_address l k)) [1..<length as + 1]) @
       zip ns (map (\<lambda>n. JStr (toString n)) (log_words l)))"
    unfolding ks_def[symmetric] using u by (simp_all add: d o_def)
qed

text \<open>The topics of the events an action leaves.\<close>

lemma vault_topics:
  "the (map_of eventTopics ''Deposited(address,uint256,uint256,uint256,uint256)'') =
     ''0xe3b53cd1a44fbf11535e145d80b8ef1ed6d57a73bf5daa7e939b6b01657d6549''"
  "the (map_of eventTopics ''Withdrawn(address,uint256,uint256,uint256,uint256,uint256,uint256)'') =
     ''0x6b4651e8f4162f82274a25e57a29f7ed9156d17078e76dd4d05f04ba08831aa4''"
  "the (map_of eventTopics ''Closed(address,uint256,uint256)'') =
     ''0x792b1058d55c02122048f16ecbfdaab6be257e8c903a60a01f220960238aefc7''"
  "the (map_of eventTopics ''UntrackedTokenRescued(address,address,uint256)'') =
     ''0x204874061edf1b61f01e55eb957ff789bf733451c43d111f54ba6d84122b7160''"
  "the (map_of eventTopics ''NativeRescued(address,uint256)'') =
     ''0xe3eb98b7fe2a0c1d490b92af73eeae611e9b00ab3c3f70b20bd7bb43f67a0f43''"
  by code_simp+

lemma decoded_branch:
  assumes "decodeM3VaultEvent l = Inr (Some d)"
  shows
    "de_name d = ''Deposited'' \<Longrightarrow>
      toLowerCase (hd (lg_topics l)) = the (map_of eventTopics ''Deposited(address,uint256,uint256,uint256,uint256)'') \<and>
      event_branch l ''Deposited'' [''owner''] [''usdcAmount'', ''passRaw'', ''principalBasis'', ''trackedUsdcBalance''] = Inr (Some d)"
    "de_name d = ''Withdrawn'' \<Longrightarrow>
      toLowerCase (hd (lg_topics l)) = the (map_of eventTopics ''Withdrawn(address,uint256,uint256,uint256,uint256,uint256,uint256)'') \<and>
      event_branch l ''Withdrawn'' [''owner''] [''usdcAmount'', ''profitAmount'', ''principalAmount'', ''passRawUnlocked'', ''principalBasis'', ''trackedUsdcBalance''] = Inr (Some d)"
    "de_name d = ''Closed'' \<Longrightarrow>
      toLowerCase (hd (lg_topics l)) = the (map_of eventTopics ''Closed(address,uint256,uint256)'') \<and>
      event_branch l ''Closed'' [''owner''] [''usdcReturned'', ''passRawReleased''] = Inr (Some d)"
    "de_name d = ''UntrackedTokenRescued'' \<Longrightarrow>
      toLowerCase (hd (lg_topics l)) = the (map_of eventTopics ''UntrackedTokenRescued(address,address,uint256)'') \<and>
      event_branch l ''UntrackedTokenRescued'' [''token'', ''owner''] [''amount''] = Inr (Some d)"
    "de_name d = ''NativeRescued'' \<Longrightarrow>
      toLowerCase (hd (lg_topics l)) = the (map_of eventTopics ''NativeRescued(address,uint256)'') \<and>
      event_branch l ''NativeRescued'' [''owner''] [''amount''] = Inr (Some d)"
proof -
  obtain at where at: "at = map_of eventTopics" by blast
  show "de_name d = ''Deposited'' \<Longrightarrow>
      toLowerCase (hd (lg_topics l)) = the (map_of eventTopics ''Deposited(address,uint256,uint256,uint256,uint256)'') \<and>
      event_branch l ''Deposited'' [''owner''] [''usdcAmount'', ''passRaw'', ''principalBasis'', ''trackedUsdcBalance''] = Inr (Some d)"
    using assms unfolding decodeM3VaultEvent_def Let_def at[symmetric]
    by (auto dest: event_branch_Inr(1) split: if_splits simp del: map_of.simps) (metis option.sel)+
  show "de_name d = ''Withdrawn'' \<Longrightarrow>
      toLowerCase (hd (lg_topics l)) = the (map_of eventTopics ''Withdrawn(address,uint256,uint256,uint256,uint256,uint256,uint256)'') \<and>
      event_branch l ''Withdrawn'' [''owner''] [''usdcAmount'', ''profitAmount'', ''principalAmount'', ''passRawUnlocked'', ''principalBasis'', ''trackedUsdcBalance''] = Inr (Some d)"
    using assms unfolding decodeM3VaultEvent_def Let_def at[symmetric]
    by (auto dest: event_branch_Inr(1) split: if_splits simp del: map_of.simps) (metis option.sel)+
  show "de_name d = ''Closed'' \<Longrightarrow>
      toLowerCase (hd (lg_topics l)) = the (map_of eventTopics ''Closed(address,uint256,uint256)'') \<and>
      event_branch l ''Closed'' [''owner''] [''usdcReturned'', ''passRawReleased''] = Inr (Some d)"
    using assms unfolding decodeM3VaultEvent_def Let_def at[symmetric]
    by (auto dest: event_branch_Inr(1) split: if_splits simp del: map_of.simps) (metis option.sel)+
  show "de_name d = ''UntrackedTokenRescued'' \<Longrightarrow>
      toLowerCase (hd (lg_topics l)) = the (map_of eventTopics ''UntrackedTokenRescued(address,address,uint256)'') \<and>
      event_branch l ''UntrackedTokenRescued'' [''token'', ''owner''] [''amount''] = Inr (Some d)"
    using assms unfolding decodeM3VaultEvent_def Let_def at[symmetric]
    by (auto dest: event_branch_Inr(1) split: if_splits simp del: map_of.simps) (metis option.sel)+
  show "de_name d = ''NativeRescued'' \<Longrightarrow>
      toLowerCase (hd (lg_topics l)) = the (map_of eventTopics ''NativeRescued(address,uint256)'') \<and>
      event_branch l ''NativeRescued'' [''owner''] [''amount''] = Inr (Some d)"
    using assms unfolding decodeM3VaultEvent_def Let_def at[symmetric]
    by (auto dest: event_branch_Inr(1) split: if_splits simp del: map_of.simps) (metis option.sel)+
qed

section \<open>A match speaks about the chain\<close>

definition from_logs :: "sync_manifest \<Rightarrow> chain_block \<Rightarrow> chain_log list \<Rightarrow> chain_event list \<Rightarrow> bool" where
  "from_logs m b logs es \<longleftrightarrow> (\<forall>e\<in>set es. \<exists>l\<in>set logs. validLog l b m \<and>
     (\<exists>d. decodeM3VaultEvent l = Inr (Some d) \<and> e = event_of_log m l d))"

lemma decodeLogs_from:
  "decode_log env = decodeM3VaultEvent \<Longrightarrow> decodeLogs env m logs b = Inr es \<Longrightarrow> from_logs m b logs es"
proof (induction logs arbitrary: es)
  case (Cons l ls)
  from Cons.prems obtain d es' where d: "decodeM3VaultEvent l = Inr d" "decodeLogs env m ls b = Inr es'"
    "es = (case d of None \<Rightarrow> es' | Some x \<Rightarrow> event_of_log m l x # es')" "validLog l b m"
    by (auto simp: bind_r_Inr split: if_splits)
  have "from_logs m b ls es'" using Cons.IH Cons.prems(1) d(2) by blast
  then show ?case using d(1,3,4) by (cases d) (auto simp: from_logs_def)
qed (simp add: from_logs_def)

lemma expectedEvent_Some: "expectedEvent es name = Some e \<Longrightarrow> e \<in> set es \<and> ev_name e = name"
proof -
  assume "expectedEvent es name = Some e"
  then have "filter (\<lambda>e. ev_name e = name) es = [e]" by (auto simp: expectedEvent_def split: list.splits)
  then have "e \<in> set (filter (\<lambda>e. ev_name e = name) es)" by simp
  then show ?thesis by simp
qed

lemma toString_bound: "0 \<le> n \<Longrightarrow> n < 10 * 10 ^ length (toString n)"
proof -
  assume n: "0 \<le> n"
  then have "n < 10 ^ length (toString n)" using digits_val_less[of "dec_digits n"] dec_digits_all by (simp add: toString_nonneg)
  moreover have "(10::int) ^ length (toString n) \<le> 10 ^ Suc (length (toString n))" by (rule power_increasing) simp_all
  ultimately have "n < 10 ^ Suc (length (toString n))" by (rule less_le_trans)
  then show ?thesis by (simp only: power_Suc)
qed

lemma eventUint_number:
  "event_field e name = Some (toString n) \<Longrightarrow> 0 \<le> n \<Longrightarrow> eventUint e name = Some n"
  by (simp add: eventUint_def toString_bound digits_val_toString)

lemma expected_log:
  assumes "from_logs m b logs es" "expectedEvent es name = Some e"
  obtains l d where "l \<in> set logs" "decodeM3VaultEvent l = Inr (Some d)" "de_name d = name"
    "ev_normalizedData e = de_normalizedData d" "validLog l b m"
  using assms expectedEvent_Some[OF assms(2)] by (auto simp: from_logs_def event_of_log_def)

lemma one_indexed: "[1..<length [x] + 1] = [1]"
  by simp

lemma two_indexed: "[1..<length [x, y] + 1] = [1, 2]"
  by (simp add: upt_rec numeral_2_eq_2)

lemma eventUint_text: "eventUint e name = Some n \<Longrightarrow> event_field e name = Some (toString n)"
  by (auto simp: eventUint_def canonical_dec_iff digits_val_toString split: option.splits if_splits)

lemma expectedEvent_only: "expectedEvent es name = Some e \<Longrightarrow> filter (\<lambda>x. ev_name x = ev_name e) es = [e]"
  using expectedEvent_Some[of es name e] by (auto simp: expectedEvent_def split: list.splits)

text \<open>The event an action leaves, by its fields.\<close>

definition event_of_action :: "vault_calldata \<Rightarrow> string \<Rightarrow> chain_event \<Rightarrow> bool" where
  "event_of_action action owner e \<longleftrightarrow> (\<exists>a. event_field e ''owner'' = Some a \<and> sameAddress a owner) \<and>
     (case action of
        DEPOSIT n \<Rightarrow> ev_name e = ''Deposited'' \<and> event_field e ''usdcAmount'' = Some (toString n) \<and>
          event_field e ''passRaw'' = Some (toString (n * 1000000000000))
      | WITHDRAW n \<Rightarrow> ev_name e = ''Withdrawn'' \<and> event_field e ''usdcAmount'' = Some (toString n) \<and>
          (\<exists>profit capital. profit + capital = n \<and> event_field e ''profitAmount'' = Some (toString profit) \<and>
             event_field e ''principalAmount'' = Some (toString capital) \<and>
             event_field e ''passRawUnlocked'' = Some (toString (capital * 1000000000000)))
      | CLOSE \<Rightarrow> ev_name e = ''Closed''
      | RESCUE_UNTRACKED_TOKEN t \<Rightarrow> ev_name e = ''UntrackedTokenRescued'' \<and>
          (\<exists>a. event_field e ''token'' = Some a \<and> toLowerCase a = toLowerCase t)
      | RESCUE_NATIVE \<Rightarrow> ev_name e = ''NativeRescued'')"

text \<open>The log it is decoded from: its first topic, its indexed addresses and its words.\<close>

definition log_of_action :: "vault_calldata \<Rightarrow> string \<Rightarrow> chain_log \<Rightarrow> bool" where
  "log_of_action action owner l \<longleftrightarrow> (case action of
     DEPOSIT n \<Rightarrow> toLowerCase (hd (lg_topics l)) = ''0xe3b53cd1a44fbf11535e145d80b8ef1ed6d57a73bf5daa7e939b6b01657d6549'' \<and>
       sameAddress (topic_address l 1) owner \<and> (\<exists>x y. log_words l = [n, n * 1000000000000, x, y])
   | WITHDRAW n \<Rightarrow> toLowerCase (hd (lg_topics l)) = ''0x6b4651e8f4162f82274a25e57a29f7ed9156d17078e76dd4d05f04ba08831aa4'' \<and>
       sameAddress (topic_address l 1) owner \<and>
       (\<exists>profit capital x y. log_words l = [n, profit, capital, capital * 1000000000000, x, y] \<and> profit + capital = n)
   | CLOSE \<Rightarrow> toLowerCase (hd (lg_topics l)) = ''0x792b1058d55c02122048f16ecbfdaab6be257e8c903a60a01f220960238aefc7'' \<and>
       sameAddress (topic_address l 1) owner \<and> length (log_words l) = 2
   | RESCUE_UNTRACKED_TOKEN t \<Rightarrow>
       toLowerCase (hd (lg_topics l)) = ''0x204874061edf1b61f01e55eb957ff789bf733451c43d111f54ba6d84122b7160'' \<and>
       toLowerCase (topic_address l 1) = toLowerCase t \<and> sameAddress (topic_address l 2) owner \<and> length (log_words l) = 1
   | RESCUE_NATIVE \<Rightarrow> toLowerCase (hd (lg_topics l)) = ''0xe3eb98b7fe2a0c1d490b92af73eeae611e9b00ab3c3f70b20bd7bb43f67a0f43'' \<and>
       sameAddress (topic_address l 1) owner \<and> length (log_words l) = 1)"

text \<open>The state of the Vault after it.\<close>

definition state_of_action :: "vault_calldata \<Rightarrow> string \<Rightarrow> vault_projection \<Rightarrow> bool" where
  "state_of_action action owner v \<longleftrightarrow> sameAddress (vp_owner v) owner \<and>
     ((\<exists>n. action = DEPOSIT n) \<or> (\<exists>n. action = WITHDRAW n) \<or> vp_closed v) \<and>
     (action = CLOSE \<longrightarrow> vp_principalBasis v = ''0'' \<and> vp_trackedUsdcBalance v = ''0'' \<and> vp_openTrackedPositionCount v = ''0'')"

lemma owner_text: "eventOwnerMatches e owner \<Longrightarrow> \<exists>a. event_field e ''owner'' = Some a \<and> sameAddress a owner"
  by (auto simp: eventOwnerMatches_def split: option.splits)

lemma matches_event:
  assumes "vault_event_matches action es owner"
  obtains name e where "expectedEvent es name = Some e" "event_of_action action owner e"
proof -
  have "\<exists>name e. expectedEvent es name = Some e \<and> event_of_action action owner e"
  proof (cases action)
    case (DEPOSIT n)
    then obtain e where e: "expectedEvent es ''Deposited'' = Some e" "eventOwnerMatches e owner"
      "event_field e ''usdcAmount'' = Some (toString n)" "eventUint e ''passRaw'' = Some (n * 1000000000000)"
      using assms by (auto simp: vault_event_matches_def split: option.splits)
    have "event_of_action action owner e"
      using DEPOSIT owner_text[OF e(2)] e(3) eventUint_text[OF e(4)] expectedEvent_Some[OF e(1)] by (simp add: event_of_action_def)
    then show ?thesis using e(1) by blast
  next
    case (WITHDRAW n)
    then obtain e a c where e: "expectedEvent es ''Withdrawn'' = Some e" "eventOwnerMatches e owner"
      "event_field e ''usdcAmount'' = Some (toString n)" "eventUint e ''profitAmount'' = Some a"
      "eventUint e ''principalAmount'' = Some c" "eventUint e ''passRawUnlocked'' = Some (c * 1000000000000)" "a + c = n"
      using assms by (auto simp: vault_event_matches_def split: option.splits)
    have "event_of_action action owner e"
      using WITHDRAW owner_text[OF e(2)] e(3) eventUint_text[OF e(4)] eventUint_text[OF e(5)] eventUint_text[OF e(6)] e(7)
        expectedEvent_Some[OF e(1)] by (auto simp: event_of_action_def)
    then show ?thesis using e(1) by blast
  next
    case CLOSE
    then obtain e where e: "expectedEvent es ''Closed'' = Some e" "eventOwnerMatches e owner"
      using assms by (auto simp: vault_event_matches_def split: option.splits)
    then show ?thesis using CLOSE owner_text[OF e(2)] expectedEvent_Some[OF e(1)] by (auto simp: event_of_action_def)
  next
    case (RESCUE_UNTRACKED_TOKEN t)
    then obtain e where e: "expectedEvent es ''UntrackedTokenRescued'' = Some e" "eventOwnerMatches e owner"
      "map_option toLowerCase (event_field e ''token'') = Some (toLowerCase t)"
      using assms by (auto simp: vault_event_matches_def split: option.splits)
    then show ?thesis using RESCUE_UNTRACKED_TOKEN owner_text[OF e(2)] expectedEvent_Some[OF e(1)]
      by (auto simp: event_of_action_def)
  next
    case RESCUE_NATIVE
    then obtain e where e: "expectedEvent es ''NativeRescued'' = Some e" "eventOwnerMatches e owner"
      using assms by (auto simp: vault_event_matches_def split: option.splits)
    then show ?thesis using RESCUE_NATIVE owner_text[OF e(2)] expectedEvent_Some[OF e(1)] by (auto simp: event_of_action_def)
  qed
  then show thesis using that by blast
qed

lemma matches_state: "vault_state_matches action v owner \<Longrightarrow> state_of_action action owner v"
  by (cases action) (auto simp: vault_state_matches_def state_of_action_def)

lemma action_log:
  assumes "from_logs m b logs es" "expectedEvent es name = Some e" "event_of_action action owner e"
  shows "\<exists>l\<in>set logs. validLog l b m \<and> log_of_action action owner l"
proof -
  obtain l d where l: "l \<in> set logs" "decodeM3VaultEvent l = Inr (Some d)" "de_name d = name"
    "ev_normalizedData e = de_normalizedData d" "validLog l b m" by (rule expected_log[OF assms(1,2)])
  have n: "de_name d = ev_name e" using l(3) expectedEvent_Some[OF assms(2)] by simp
  note branch = decoded_branch[OF l(2), unfolded n]
  have "log_of_action action owner l"
  proof (cases action)
    case (DEPOSIT k)
    then have f: "ev_name e = ''Deposited''" using assms(3) by (simp add: event_of_action_def)
    note w = event_branch_Inr[OF conjunct2[OF branch(1)[OF f]]]
    obtain p q x y where ws: "log_words l = [p, q, x, y]" using w(2) by (simp add: length_Suc_conv numeral_eq_Suc) blast
    have "ev_normalizedData e = JObj [(''owner'', JStr (topic_address l 1)), (''usdcAmount'', JStr (toString p)),
      (''passRaw'', JStr (toString q)), (''principalBasis'', JStr (toString x)), (''trackedUsdcBalance'', JStr (toString y))]"
      unfolding l(4) w(4) ws one_indexed by simp
    then show ?thesis using assms(3) DEPOSIT ws branch(1)[OF f]
      by (auto simp: event_of_action_def log_of_action_def event_field_def vault_topics)
  next
    case (WITHDRAW k)
    then have f: "ev_name e = ''Withdrawn''" using assms(3) by (simp add: event_of_action_def)
    note w = event_branch_Inr[OF conjunct2[OF branch(2)[OF f]]]
    obtain p q r u x y where ws: "log_words l = [p, q, r, u, x, y]" using w(2) by (simp add: length_Suc_conv numeral_eq_Suc) blast
    have "ev_normalizedData e = JObj [(''owner'', JStr (topic_address l 1)), (''usdcAmount'', JStr (toString p)),
      (''profitAmount'', JStr (toString q)), (''principalAmount'', JStr (toString r)), (''passRawUnlocked'', JStr (toString u)),
      (''principalBasis'', JStr (toString x)), (''trackedUsdcBalance'', JStr (toString y))]"
      unfolding l(4) w(4) ws one_indexed by simp
    then show ?thesis using assms(3) WITHDRAW ws branch(2)[OF f]
      by (auto simp: event_of_action_def log_of_action_def event_field_def vault_topics)
  next
    case CLOSE
    then have f: "ev_name e = ''Closed''" using assms(3) by (simp add: event_of_action_def)
    note w = event_branch_Inr[OF conjunct2[OF branch(3)[OF f]]]
    show ?thesis using assms(3) CLOSE w(2) branch(3)[OF f] unfolding event_of_action_def event_field_def l(4) w(4) one_indexed
      by (simp add: log_of_action_def vault_topics)
  next
    case (RESCUE_UNTRACKED_TOKEN k)
    then have f: "ev_name e = ''UntrackedTokenRescued''" using assms(3) by (simp add: event_of_action_def)
    note w = event_branch_Inr[OF conjunct2[OF branch(4)[OF f]]]
    show ?thesis using assms(3) RESCUE_UNTRACKED_TOKEN w(2) branch(4)[OF f]
      unfolding event_of_action_def event_field_def l(4) w(4) two_indexed by (simp add: log_of_action_def vault_topics)
  next
    case RESCUE_NATIVE
    then have f: "ev_name e = ''NativeRescued''" using assms(3) by (simp add: event_of_action_def)
    note w = event_branch_Inr[OF conjunct2[OF branch(5)[OF f]]]
    show ?thesis using assms(3) RESCUE_NATIVE w(2) branch(5)[OF f] unfolding event_of_action_def event_field_def l(4) w(4) one_indexed
      by (simp add: log_of_action_def vault_topics)
  qed
  then show ?thesis using l(1,5) by blast
qed

lemma vault_match:
  assumes "vault_reconcile ask contract strategyPass p es block = Match"
  shows "\<exists>data action v. op_calldata p = Some data \<and> call_of action = Inr (toLowerCase data) \<and>
    vault_event_matches action es (op_owner p) \<and> readVault ask contract strategyPass block = Inr v \<and>
    vault_state_matches action v (op_owner p)"
proof -
  obtain data action v where a: "op_calldata p = Some data" "decodeM3VaultCalldata data = Some action"
    "vault_event_matches action es (op_owner p)" "readVault ask contract strategyPass block = Inr v"
    "vault_state_matches action v (op_owner p)"
    using assms by (auto simp: vault_reconcile_def truthy_def split: option.splits if_splits sum.splits)
  have "decode_action data = Inr (Some action)" using a(2) by (auto simp: decodeM3VaultCalldata_def split: sum.splits)
  from action_data[OF this] show ?thesis using a by blast
qed

text \<open>C24: When the Vault's integration matches an operation with events decoded from the raw logs of a block, the chain did
  what the call data asked for. There is a log of the contract in that block, not removed, with the first topic of the
  action's event and the operation's owner as indexed address: for a deposit of \<open>n\<close> its words are \<open>n\<close> and the PASS
  locked for it, \<open>n\<close> times 10 to the 12; for a withdrawal its profit and principal add up to the amount and it unlocks the
  PASS of exactly the principal; for the rescue of a token it names that token. The Vault read at that block belongs to
  the owner; after a closing or a rescue it is closed, and after a closing it holds no principal, no USDC and no position.\<close>

theorem matched_action_on_chain:
  assumes "decode_log env = decodeM3VaultEvent" "decodeLogs env m logs b = Inr es"
    and "vault_reconcile ask contract strategyPass p (filter P es) block = Match"
  shows "\<exists>data action v. op_calldata p = Some data \<and> call_of action = Inr (toLowerCase data) \<and>
    (\<exists>l\<in>set logs. sameAddress (lg_address l) (mf_contract m) \<and> lg_blockNumber l = bk_number b \<and> \<not> lg_removed l \<and>
       log_of_action action (op_owner p) l) \<and>
    readVault ask contract strategyPass block = Inr v \<and> state_of_action action (op_owner p) v"
proof -
  have from_chain: "from_logs m b logs (filter P es)" using decodeLogs_from[OF assms(1,2)] by (auto simp: from_logs_def)
  obtain data action v where a: "op_calldata p = Some data" "call_of action = Inr (toLowerCase data)"
    "vault_event_matches action (filter P es) (op_owner p)" "readVault ask contract strategyPass block = Inr v"
    "vault_state_matches action v (op_owner p)"
    using vault_match[OF assms(3)] by blast
  obtain name e where "expectedEvent (filter P es) name = Some e" "event_of_action action (op_owner p) e"
    by (rule matches_event[OF a(3)])
  from action_log[OF from_chain this] show ?thesis
    using a(1,2,4) matches_state[OF a(5)] unfolding validLog_def by blast
qed

text \<open>A deposit of one unit, its log and a Vault that answers.\<close>

definition wdemo_word :: "string \<Rightarrow> string" where "wdemo_word s = ''0x'' @ padStart s 64 (CHR ''0'')"
definition wdemo_owner :: string where "wdemo_owner = ''0x'' @ replicate 40 (CHR ''a'')"

definition wdemo_log :: chain_log where
  "wdemo_log = \<lparr>lg_address = wdemo_owner, lg_blockNumber = 7, lg_blockHash = wdemo_word ''1'', lg_transactionHash = wdemo_word ''2'',
     lg_transactionIndex = 0, lg_logIndex = 0,
     lg_data = ''0x'' @ padStart ''1'' 64 (CHR ''0'') @ padStart (hex_text 1000000000000) 64 (CHR ''0'') @ padStart ''1'' 64 (CHR ''0'') @
       padStart ''1'' 64 (CHR ''0''),
     lg_topics = [''0xe3b53cd1a44fbf11535e145d80b8ef1ed6d57a73bf5daa7e939b6b01657d6549'', wdemo_word (replicate 40 (CHR ''a''))],
     lg_removed = False\<rparr>"

definition wdemo_ask :: contract_calls where
  "wdemo_ask k _ _ _ = Inr (wdemo_word (if k \<in> {0, 1, 4, 5, 6, 7, 8} then replicate 40 (CHR ''a'') else ''1''))"

definition wdemo_operation :: chain_operation where
  "wdemo_operation = cdemo_operation\<lparr>op_owner := wdemo_owner, op_calldata := Some (''0xb6b55f25'' @ padStart ''1'' 64 (CHR ''0''))\<rparr>"

definition wdemo_block :: chain_block where
  "wdemo_block = \<lparr>bk_number = 7, bk_hash = wdemo_word ''1'', bk_parentHash = wdemo_word ''0'', bk_timestamp = 5\<rparr>"

definition wdemo_env :: sync_env where
  "wdemo_env = sdemo_env\<lparr>decode_log := decodeM3VaultEvent\<rparr>"

definition wdemo_manifest :: sync_manifest where
  "wdemo_manifest = \<lparr>mf_chainId = 1, mf_contract = wdemo_owner, mf_deploymentBlock = 1\<rparr>"

definition wdemo_events :: "chain_event list" where
  "wdemo_events = (case decodeLogs wdemo_env wdemo_manifest [wdemo_log] wdemo_block of Inl _ \<Rightarrow> [] | Inr es \<Rightarrow> es)"

lemma wdemo_decoded: "decodeLogs wdemo_env wdemo_manifest [wdemo_log] wdemo_block = Inr wdemo_events"
proof -
  have "case decodeLogs wdemo_env wdemo_manifest [wdemo_log] wdemo_block of Inl _ \<Rightarrow> False | Inr _ \<Rightarrow> True" by code_simp
  then show ?thesis unfolding wdemo_events_def by (cases "decodeLogs wdemo_env wdemo_manifest [wdemo_log] wdemo_block") (simp_all only: sum.case)
qed

lemma wdemo_match: "vault_reconcile wdemo_ask wdemo_owner wdemo_owner wdemo_operation (filter (\<lambda>_. True) wdemo_events) wdemo_block = Match"
  by code_simp

theorem matched_action_on_chain_witness:
  "\<exists>action v. call_of action = Inr (toLowerCase (the (op_calldata wdemo_operation))) \<and>
    log_of_action action wdemo_owner wdemo_log \<and>
    readVault wdemo_ask wdemo_owner wdemo_owner wdemo_block = Inr v \<and> state_of_action action wdemo_owner v"
proof -
  have d: "decode_log wdemo_env = decodeM3VaultEvent" "op_owner wdemo_operation = wdemo_owner"
    by (simp_all add: wdemo_env_def wdemo_operation_def)
  from matched_action_on_chain[OF d(1) wdemo_decoded wdemo_match] show ?thesis unfolding d(2) by force
qed

section \<open>Confirmation with the Vault's integration\<close>

text \<open>C26: With the Vault's integration, the synchronizer reports an operation as confirmed, called with or without a
  synchronised head, only if it was confirmed before or its call data is that of a Vault action and the action took
  effect: of the events that the store has as canonical for the operation's transaction exactly one has the name of
  the action's event, and its fields are the operation's owner and the amounts (deposit: the amount and its PASS;
  withdrawal: profit and principal that add up to the amount, and the PASS of the principal; rescue: the token); and the
  Vault, read at the block of the receipt, belongs to that owner, is closed after a closing or a rescue and empty
  after a closing. The store's entry for that block is the block of a successful receipt of the transaction.\<close>

theorem confirmed_vault_action:
  assumes "reconcile env = (\<lambda>k p r es b. Inr (vault_reconcile (calls k) contract strategyPass p es b))"
    and "trackOperation env so oid synchronized s = (t, Inr q)" "op_state q = CONFIRMED"
  shows "\<exists>p0 latest s' p. operation (snd s) oid = Inr (Some p0) \<and> tracking_point env so synchronized s latest s' \<and>
    operation (snd s') oid = Inr (Some p) \<and>
    (op_state p = CONFIRMED \<and> q = p \<or>
      (\<exists>data action r b es e v. op_calldata p = Some data \<and> call_of action = Inr (toLowerCase data) \<and>
        rpc_receipt env (fst s') (the (txHash p0)) = Inr (Some r) \<and> rc_status r = Success \<and>
        canonicalBlock (interfere env (fst s') (snd s')) (op_chainId p) (op_target p) (rc_blockNumber r) = Inr (Some b) \<and>
        sameHash (bk_hash b) (rc_blockHash r) \<and>
        canonicalEvents (interfere env (fst s') (snd s')) (op_chainId p) (op_target p) = Inr es \<and>
        filter (\<lambda>x. sameHash (ev_transactionHash x) (the (txHash p0)) \<and> ev_name x = ev_name e) es = [e] \<and>
        event_of_action action (op_owner p) e \<and>
        readVault (calls (fst s' + 1)) contract strategyPass b = Inr v \<and> state_of_action action (op_owner p) v))"
proof -
  obtain p0 latest s' p where o: "operation (snd s) oid = Inr (Some p0)" "tracking_point env so synchronized s latest s'"
      "operation (snd s') oid = Inr (Some p)"
    and "op_state p = CONFIRMED \<and> q = p \<or> (\<exists>r b p' es. rpc_receipt env (fst s') (the (txHash p0)) = Inr (Some r) \<and>
      rc_status r = Success \<and>
      canonicalBlock (interfere env (fst s') (snd s')) (op_chainId p) (op_target p) (rc_blockNumber r) = Inr (Some b) \<and>
      sameHash (bk_hash b) (rc_blockHash r) \<and> same_operation p p' \<and>
      canonicalEvents (interfere env (fst s') (snd s')) (op_chainId p) (op_target p) = Inr es \<and>
      reconcile env (fst s' + 1) p' r (filter (\<lambda>e. sameHash (ev_transactionHash e) (the (txHash p0))) es) b = Inr Match)"
    using confirmation_evidence[OF assms(2,3)] by blast
  then consider "op_state p = CONFIRMED" "q = p"
    | r b p' es where "rpc_receipt env (fst s') (the (txHash p0)) = Inr (Some r)" "rc_status r = Success"
      "canonicalBlock (interfere env (fst s') (snd s')) (op_chainId p) (op_target p) (rc_blockNumber r) = Inr (Some b)"
      "sameHash (bk_hash b) (rc_blockHash r)" "same_operation p p'"
      "canonicalEvents (interfere env (fst s') (snd s')) (op_chainId p) (op_target p) = Inr es"
      "reconcile env (fst s' + 1) p' r (filter (\<lambda>e. sameHash (ev_transactionHash e) (the (txHash p0))) es) b = Inr Match"
    by blast
  then show ?thesis
  proof cases
    case 1
    then show ?thesis using o by blast
  next
    case (2 r b p' es)
    let ?own = "filter (\<lambda>e. sameHash (ev_transactionHash e) (the (txHash p0))) es"
    have "vault_reconcile (calls (fst s' + 1)) contract strategyPass p' ?own b = Match" using 2(7) unfolding assms(1) by simp
    then obtain data action v where a: "op_calldata p' = Some data" "call_of action = Inr (toLowerCase data)"
      "vault_event_matches action ?own (op_owner p')" "readVault (calls (fst s' + 1)) contract strategyPass b = Inr v"
      "vault_state_matches action v (op_owner p')" using vault_match by blast
    obtain name e where e: "expectedEvent ?own name = Some e" "event_of_action action (op_owner p') e"
      by (rule matches_event[OF a(3)])
    have same: "op_calldata p = op_calldata p'" "op_owner p = op_owner p'" using 2(5) by (simp_all add: same_operation_def)
    have only: "filter (\<lambda>x. sameHash (ev_transactionHash x) (the (txHash p0)) \<and> ev_name x = ev_name e) es = [e]"
      using expectedEvent_only[OF e(1)] by (simp add: conj_commute)
    have mine: "op_calldata p = Some data" "event_of_action action (op_owner p) e" "state_of_action action (op_owner p) v"
      using a(1) e(2) matches_state[OF a(5)] same by simp_all
    show ?thesis
      by (rule exI[of _ p0], rule exI[of _ latest], rule exI[of _ s'], rule exI[of _ p],
          intro conjI disjI2 exI[of _ data] exI[of _ action] exI[of _ r] exI[of _ b] exI[of _ es] exI[of _ e] exI[of _ v])
        (fact o 2 a(2,4) only mine)+
  qed
qed

text \<open>A closed Vault.\<close>

definition vdemo_ask :: contract_calls where
  "vdemo_ask k _ _ _ = Inr (wdemo_word (if k \<in> {0, 1, 4, 5, 6, 7, 8} then replicate 40 (CHR ''a'')
     else if k \<in> {9, 10, 13} then ''0'' else ''1''))"

definition vdemo_reconcile ::
  "nat \<Rightarrow> chain_operation \<Rightarrow> chain_receipt \<Rightarrow> chain_event list \<Rightarrow> chain_block \<Rightarrow> string + reconciliation_result" where
  "vdemo_reconcile = (\<lambda>k p r es b. Inr (vault_reconcile ((\<lambda>_. vdemo_ask) k) cdemo_contract cdemo_contract p es b))"

lemma vdemo_match: "vault_reconcile vdemo_ask cdemo_contract cdemo_contract sdemo_mined sdemo_events (cdemo_block 10 (CHR ''1'') (CHR ''0'')) = Match"
  by code_simp

theorem confirmed_vault_action_witness:
  "\<exists>action b v. call_of action = Inr ''0x43d726d6'' \<and> readVault vdemo_ask cdemo_contract cdemo_contract b = Inr v \<and>
    state_of_action action cdemo_contract v"
proof -
  have r: "reconcile (sdemo_world\<lparr>reconcile := vdemo_reconcile\<rparr>) =
      (\<lambda>k p r es b. Inr (vault_reconcile ((\<lambda>_. vdemo_ask) k) cdemo_contract cdemo_contract p es b))"
    by (simp add: vdemo_reconcile_def)
  have m: "vdemo_reconcile k sdemo_mined sdemo_receipt sdemo_events (cdemo_block 10 (CHR ''1'') (CHR ''0'')) = Inr Match" for k
    by (simp add: vdemo_reconcile_def vdemo_match)
  have p: "op_state sdemo_mined \<noteq> CONFIRMED" "op_state sdemo_confirmed = CONFIRMED"
    "op_calldata sdemo_mined = Some ''0x43d726d6''" "op_owner sdemo_mined = cdemo_contract"
    by (simp_all add: sdemo_mined_def sdemo_confirmed_def cdemo_operation_def)
  let ?here = "tracking_point (sdemo_world\<lparr>reconcile := vdemo_reconcile\<rparr>) sdemo_options
      (Some (cdemo_block 11 (CHR ''2'') (CHR ''1''))) (0, sdemo_store sdemo_mined)"
  have mined: "p = sdemo_mined" if "?here x s'" "operation (snd s') ''op'' = Inr (Some p)" for x s' p
    using that sdemo_stored by (simp add: tracking_point_def)
  from confirmed_vault_action[OF r sdemo_tracked[of vdemo_reconcile, OF m] p(2)] show ?thesis
  proof (elim exE conjE disjE)
    fix x s' q assume "?here x s'" "operation (snd s') ''op'' = Inr (Some q)" "op_state q = CONFIRMED"
    then show ?thesis using mined p(1) by blast
  next
    fix x s' q data action b v
    assume t: "?here x s'" "operation (snd s') ''op'' = Inr (Some q)" and d: "op_calldata q = Some data" "call_of action = Inr (toLowerCase data)"
      "readVault vdemo_ask cdemo_contract cdemo_contract b = Inr v" "state_of_action action (op_owner q) v"
    have q: "q = sdemo_mined" by (rule mined[OF t])
    have "data = ''0x43d726d6''" using d(1) p(3) q by simp
    then have "call_of action = Inr ''0x43d726d6''" using d(2) sdemo_hex(2) by simp
    then show ?thesis using d(3,4) p(4) q by metis
  qed
qed

end
