(* ===== verification/Json_Rpc.thy ===== *)
theory Json_Rpc
  imports Hex_Words Chain_Sync
begin

text \<open>
  \<^bold>\<open>packages/chain-adapter/src/rpc.ts\<close>: the JSON-RPC client through which the synchronizer sees the chain: reading a
  bounded body, the attempts of a request over the endpoints, the check of the envelope, and the parsing of blocks,
  logs, receipts and transactions from untrusted JSON. The transport (or \<open>fetch\<close>), \<open>URL\<close> and the UTF-8 decoder are
  parameters. A request gives the client with its next id; \<open>AbortSignal.timeout\<close> is part of the transport, which throws.
  Shown: a result is the result of the first answer that is not to be retried, checked to be the answer to this very request, and after
  at most \<open>maxAttempts\<close> attempts; and an honest answer is always understood.
\<close>

section \<open>Failures and data\<close>

datatype rpc_failure = RpcFailure string bool

abbreviation rpc_invalid :: rpc_failure where
  "rpc_invalid \<equiv> RpcFailure ''RPC_INVALID_RESPONSE'' False"

record rpc_request =
  rq_id :: int
  rq_method :: string
  rq_params :: "json list"

text \<open>What a transport does: it throws, a failure of its own or another error, or answers with status and body.\<close>

datatype transport_result = Thrown "rpc_failure option" | Answer int string

type_synonym transport = "nat \<Rightarrow> string \<Rightarrow> rpc_request \<Rightarrow> transport_result"

record full_receipt = chain_receipt +
  rf_contractAddress :: "string option option"
  rf_gasUsed :: "int option"
  rf_effectiveGasPrice :: "int option"
  rf_logs :: "chain_log list"

record chain_transaction =
  tn_hash :: string
  tn_chainId :: int
  tn_from :: string
  tn_to :: "string option"
  tn_data :: string
  tn_value :: int
  tn_nonce :: int
  tn_blockHash :: "string option"
  tn_blockNumber :: "int option"
  tn_transactionIndex :: "int option"

record log_filter =
  lf_address :: string
  lf_fromBlock :: int
  lf_toBlock :: int
  lf_topics :: "string option list option"

record chain_call =
  cl_from :: "string option"
  cl_to :: string
  cl_data :: string

datatype call_block = At_number int | Latest | Reference "(string \<times> json) list"

record rpc_client =
  jc_endpoints :: "string list"
  jc_timeoutMs :: int
  jc_maxAttempts :: int
  jc_maxResponseBytes :: int
  jc_nextId :: int

record rpc_options =
  ro_timeoutMs :: "int option"
  ro_maxAttempts :: "int option"
  ro_maxResponseBytes :: "int option"

section \<open>The transport over \<open>fetch\<close>\<close>

text \<open>A read of the body gives bytes or fails.\<close>

fun read_body :: "int \<Rightarrow> int list option list \<Rightarrow> int \<Rightarrow> int list \<Rightarrow> rpc_failure option + int list" where
  "read_body maximum [] so_far bytes = Inr bytes"
| "read_body maximum (None # rest) so_far bytes = Inl None"
| "read_body maximum (Some chunk # rest) so_far bytes =
     (if so_far + int (length chunk) > maximum then Inl (Some (RpcFailure ''RPC_RESPONSE_TOO_LARGE'' False))
      else read_body maximum rest (so_far + int (length chunk)) (bytes @ chunk))"

definition boundedResponseBody ::
  "(int list \<Rightarrow> string option) \<Rightarrow> string option \<Rightarrow> int list option list option \<Rightarrow> int \<Rightarrow> rpc_failure option + string" where
  "boundedResponseBody utf8 contentLength body maximum =
     bind_r (check (case contentLength of None \<Rightarrow> True
        | Some l \<Rightarrow> \<not> (l \<noteq> [] \<and> list_all is_digit l \<and> digits_val l > maximum))
       (Some (RpcFailure ''RPC_RESPONSE_TOO_LARGE'' False))) (\<lambda>_.
     case body of None \<Rightarrow> Inr []
     | Some chunks \<Rightarrow> bind_r (read_body maximum chunks 0 []) (\<lambda>bytes.
         case utf8 bytes of None \<Rightarrow> Inl (Some rpc_invalid) | Some t \<Rightarrow> Inr t))"

text \<open>What \<open>fetch\<close> gives: an error, or status, \<open>content-length\<close> and body.\<close>

datatype fetch_result = Fetch_failed | Fetched int "string option" "int list option list option"

definition createFetchTransport ::
  "(int list \<Rightarrow> string option) \<Rightarrow> (nat \<Rightarrow> string \<Rightarrow> rpc_request \<Rightarrow> fetch_result) \<Rightarrow> int \<Rightarrow> transport" where
  "createFetchTransport utf8 fetcher maxResponseBytes k endpoint request =
     (case fetcher k endpoint request of
        Fetch_failed \<Rightarrow> Thrown None
      | Fetched status contentLength body \<Rightarrow>
          if status < 200 \<or> status \<ge> 300 then Answer status []
          else case boundedResponseBody utf8 contentLength body maxResponseBytes of
            Inl e \<Rightarrow> Thrown e | Inr t \<Rightarrow> Answer status t)"

section \<open>Reading JSON\<close>

text \<open>\<open>new URL\<close> is a parameter that gives protocol, user name, password and the text of the URL.\<close>

definition rpc_endpoint :: "(string \<Rightarrow> (string \<times> string \<times> string \<times> string) option) \<Rightarrow> string \<Rightarrow> rpc_failure + string" where
  "rpc_endpoint url s = (case url s of None \<Rightarrow> Inl (RpcFailure ''RPC_INVALID_ENDPOINT'' False)
     | Some (protocol, username, password, t) \<Rightarrow>
         if protocol \<noteq> ''https:'' \<or> username \<noteq> [] \<or> password \<noteq> [] then Inl (RpcFailure ''RPC_INVALID_ENDPOINT'' False) else Inr t)"

definition rpc_object :: "json \<Rightarrow> rpc_failure + (string \<times> json) list" where
  "rpc_object v = (case v of JObj es \<Rightarrow> Inr es | _ \<Rightarrow> Inl rpc_invalid)"

definition quantity_text :: "string \<Rightarrow> bool" where
  "quantity_text s \<longleftrightarrow> take 2 s = ''0x'' \<and> drop 2 s \<noteq> [] \<and> list_all is_hex (drop 2 s) \<and>
     (hd (drop 2 s) = CHR ''0'' \<longrightarrow> drop 2 s = ''0'')"

definition quantity :: "json option \<Rightarrow> rpc_failure + int" where
  "quantity v = (case v of Some (JStr s) \<Rightarrow> if quantity_text s then Inr (hex_number (drop 2 s)) else Inl rpc_invalid
     | _ \<Rightarrow> Inl rpc_invalid)"

definition safeIndex :: "json option \<Rightarrow> rpc_failure + int" where
  "safeIndex v = bind_r (quantity v) (\<lambda>n. if n > MAX_SAFE_INTEGER then Inl rpc_invalid else Inr n)"

definition hexQuantity :: "int \<Rightarrow> rpc_failure + string" where
  "hexQuantity n = (if n < 0 then Inl (RpcFailure ''RPC_INVALID_REQUEST'' False) else Inr (''0x'' @ hex_text n))"

definition blockParameter :: "call_block \<Rightarrow> rpc_failure + json" where
  "blockParameter b = (case b of
     At_number n \<Rightarrow> bind_r (hexQuantity n) (\<lambda>s. Inr (JStr s))
   | Latest \<Rightarrow> Inr (JStr ''latest'')
   | Reference es \<Rightarrow>
       if map_of es ''requireCanonical'' \<noteq> Some (JBool True) \<or> length es \<noteq> 2 \<or> map_of es ''blockHash'' = None
       then Inl (RpcFailure ''RPC_INVALID_REQUEST'' False)
       else case map_of es ''blockHash'' of
         Some (JStr h) \<Rightarrow> (case asBlockHash h of Inl _ \<Rightarrow> Inl (RpcFailure ''RPC_INVALID_REQUEST'' False)
           | Inr a \<Rightarrow> Inr (JObj [(''blockHash'', JStr a), (''requireCanonical'', JBool True)]))
       | _ \<Rightarrow> Inl (RpcFailure ''RPC_INVALID_REQUEST'' False))"

text \<open>\<open>String(v)\<close> of a JSON value; in an array, \<open>null\<close> is the empty text.\<close>

fun join_text :: "string list \<Rightarrow> string" where
  "join_text [] = []"
| "join_text [s] = s"
| "join_text (s # ss) = s @ '','' @ join_text ss"

fun js_string :: "json \<Rightarrow> string" where
  "js_string JNull = ''null''"
| "js_string (JBool b) = (if b then ''true'' else ''false'')"
| "js_string (JNum n) = toString n"
| "js_string (JStr s) = s"
| "js_string (JArr vs) = join_text (map (\<lambda>v. if v = JNull then [] else js_string v) vs)"
| "js_string (JObj es) = ''[object Object]''"

definition string_of :: "json option \<Rightarrow> string" where
  "string_of v = (case v of None \<Rightarrow> ''undefined'' | Some j \<Rightarrow> js_string j)"

definition rpc_hex :: "(string \<Rightarrow> chain_error + string) \<Rightarrow> json option \<Rightarrow> rpc_failure + string" where
  "rpc_hex f v = (case f (string_of v) of Inl _ \<Rightarrow> Inl rpc_invalid | Inr s \<Rightarrow> Inr s)"

definition parse_topic :: "json \<Rightarrow> rpc_failure + string" where
  "parse_topic t = (case t of JStr s \<Rightarrow> if hex_digits 64 s then Inr s else Inl rpc_invalid | _ \<Rightarrow> Inl rpc_invalid)"

definition parseLog :: "json \<Rightarrow> rpc_failure + chain_log" where
  "parseLog v =
     bind_r (rpc_object v) (\<lambda>row.
     case (map_of row ''topics'', map_of row ''removed'') of
       (Some (JArr ts), Some (JBool removed)) \<Rightarrow>
         bind_r (map_r parse_topic ts) (\<lambda>topics.
         bind_r (rpc_hex asAddress (map_of row ''address'')) (\<lambda>address.
         bind_r (quantity (map_of row ''blockNumber'')) (\<lambda>number.
         bind_r (rpc_hex asBlockHash (map_of row ''blockHash'')) (\<lambda>hash.
         bind_r (rpc_hex asTransactionHash (map_of row ''transactionHash'')) (\<lambda>tx.
         bind_r (safeIndex (map_of row ''transactionIndex'')) (\<lambda>ti.
         bind_r (safeIndex (map_of row ''logIndex'')) (\<lambda>li.
         bind_r (rpc_hex asHexData (map_of row ''data'')) (\<lambda>data.
         Inr \<lparr>lg_address = address, lg_blockNumber = number, lg_blockHash = hash, lg_transactionHash = tx,
           lg_transactionIndex = ti, lg_logIndex = li, lg_data = data, lg_topics = topics, lg_removed = removed\<rparr>))))))))
     | _ \<Rightarrow> Inl rpc_invalid)"

definition parseBlock :: "json \<Rightarrow> rpc_failure + chain_block option" where
  "parseBlock v =
     (if v = JNull then Inr None
      else
        bind_r (rpc_object v) (\<lambda>row.
        bind_r (quantity (map_of row ''number'')) (\<lambda>number.
        bind_r (rpc_hex asBlockHash (map_of row ''hash'')) (\<lambda>hash.
        bind_r (rpc_hex asBlockHash (map_of row ''parentHash'')) (\<lambda>parent.
        bind_r (quantity (map_of row ''timestamp'')) (\<lambda>time.
        Inr (Some \<lparr>bk_number = number, bk_hash = hash, bk_parentHash = parent, bk_timestamp = time\<rparr>)))))))"

definition optional_r :: "(json option \<Rightarrow> rpc_failure + 'a) \<Rightarrow> json option \<Rightarrow> rpc_failure + 'a option" where
  "optional_r f v = (if v = None then Inr None else bind_r (f v) (\<lambda>x. Inr (Some x)))"

definition nullable_r :: "(json option \<Rightarrow> rpc_failure + 'a) \<Rightarrow> json option \<Rightarrow> rpc_failure + 'a option" where
  "nullable_r f v = (if v = Some JNull then Inr None else bind_r (f v) (\<lambda>x. Inr (Some x)))"

definition parseReceipt :: "json \<Rightarrow> rpc_failure + full_receipt option" where
  "parseReceipt v =
     (if v = JNull then Inr None
      else
        bind_r (rpc_object v) (\<lambda>row.
        case (map_of row ''logs'', map_of row ''to'') of
          (Some (JArr ls), Some to) \<Rightarrow>
            bind_r (check (case to of JNull \<Rightarrow> True | JStr _ \<Rightarrow> True | _ \<Rightarrow> False) rpc_invalid) (\<lambda>_.
            bind_r (quantity (map_of row ''status'')) (\<lambda>status.
            bind_r (check (status = 0 \<or> status = 1) rpc_invalid) (\<lambda>_.
            bind_r (optional_r (nullable_r (rpc_hex asAddress)) (map_of row ''contractAddress'')) (\<lambda>contract.
            bind_r (optional_r quantity (map_of row ''gasUsed'')) (\<lambda>gas.
            bind_r (optional_r quantity (map_of row ''effectiveGasPrice'')) (\<lambda>price.
            bind_r (rpc_hex asTransactionHash (map_of row ''transactionHash'')) (\<lambda>tx.
            bind_r (quantity (map_of row ''blockNumber'')) (\<lambda>number.
            bind_r (rpc_hex asBlockHash (map_of row ''blockHash'')) (\<lambda>hash.
            bind_r (safeIndex (map_of row ''transactionIndex'')) (\<lambda>ti.
            bind_r (rpc_hex asAddress (map_of row ''from'')) (\<lambda>sender.
            bind_r (nullable_r (rpc_hex asAddress) (Some to)) (\<lambda>receiver.
            bind_r (map_r parseLog ls) (\<lambda>logs.
            Inr (Some \<lparr>rc_transactionHash = tx, rc_blockNumber = number, rc_blockHash = hash, rc_transactionIndex = ti,
              rc_from = sender, rc_to = receiver, rc_status = (if status = 1 then Success else Reverted),
              rf_contractAddress = contract, rf_gasUsed = gas, rf_effectiveGasPrice = price, rf_logs = logs\<rparr>))))))))))))))
        | _ \<Rightarrow> Inl rpc_invalid))"

section \<open>The client\<close>

definition in_policy :: "int \<Rightarrow> int \<Rightarrow> int \<Rightarrow> bool" where
  "in_policy lo hi n \<longleftrightarrow> isSafeInteger n \<and> lo \<le> n \<and> n \<le> hi"

definition make_client ::
  "(string \<Rightarrow> (string \<times> string \<times> string \<times> string) option) \<Rightarrow> string list \<Rightarrow> rpc_options \<Rightarrow> rpc_failure + rpc_client" where
  "make_client url endpoints opts =
     (let or_default = (\<lambda>v d. case v of None \<Rightarrow> d | Some n \<Rightarrow> n); policy = RpcFailure ''RPC_INVALID_POLICY'' False in
      bind_r (check (1 \<le> length endpoints \<and> length endpoints \<le> 8) (RpcFailure ''RPC_INVALID_ENDPOINTS'' False)) (\<lambda>_.
      bind_r (map_r (rpc_endpoint url) endpoints) (\<lambda>es.
      let timeoutMs = or_default (ro_timeoutMs opts) 5000;
          maxAttempts = or_default (ro_maxAttempts opts) (min 3 (int (length es)));
          maxResponseBytes = or_default (ro_maxResponseBytes opts) 2000000
      in
      bind_r (check (in_policy 100 30000 timeoutMs) policy) (\<lambda>_.
      bind_r (check (in_policy 1 8 maxAttempts) policy) (\<lambda>_.
      bind_r (check (in_policy 64 10000000 maxResponseBytes) policy) (\<lambda>_.
      Inr \<lparr>jc_endpoints = es, jc_timeoutMs = timeoutMs, jc_maxAttempts = maxAttempts, jc_maxResponseBytes = maxResponseBytes,
        jc_nextId = 1\<rparr>))))))"

text \<open>An answer that is not to be retried.\<close>

definition accept_response :: "rpc_client \<Rightarrow> int \<Rightarrow> int \<Rightarrow> string \<Rightarrow> rpc_failure + json" where
  "accept_response c rid status body =
     bind_r (check (200 \<le> status \<and> status < 300) (RpcFailure ''RPC_HTTP_ERROR'' False)) (\<lambda>_.
     bind_r (check (utf8_length body \<le> jc_maxResponseBytes c) (RpcFailure ''RPC_RESPONSE_TOO_LARGE'' False)) (\<lambda>_.
     case parse_json body of None \<Rightarrow> Inl rpc_invalid
     | Some parsed \<Rightarrow>
         bind_r (rpc_object parsed) (\<lambda>envelope.
         bind_r (check (map_of envelope ''jsonrpc'' = Some (JStr ''2.0'') \<and> map_of envelope ''id'' = Some (JNum rid))
           (RpcFailure ''RPC_INVALID_ENVELOPE'' False)) (\<lambda>_.
         case (map_of envelope ''result'', map_of envelope ''error'') of
           (Some r, None) \<Rightarrow> Inr r
         | (None, Some _) \<Rightarrow> Inl (RpcFailure ''RPC_REMOTE_ERROR'' False)
         | _ \<Rightarrow> Inl (RpcFailure ''RPC_INVALID_ENVELOPE'' False)))))"

text \<open>The loop over the attempts; the last argument is how many are left.\<close>

fun request_loop :: "rpc_client \<Rightarrow> transport \<Rightarrow> rpc_request \<Rightarrow> nat \<Rightarrow> nat \<Rightarrow> rpc_failure + json" where
  "request_loop c send rq attempt 0 = Inl (RpcFailure ''RPC_UNAVAILABLE'' True)"
| "request_loop c send rq attempt (Suc left) =
     (case send attempt (jc_endpoints c ! (attempt mod length (jc_endpoints c))) rq of
        Thrown (Some (RpcFailure code False)) \<Rightarrow> Inl (RpcFailure code False)
      | Thrown _ \<Rightarrow> if left > 0 then request_loop c send rq (Suc attempt) left else Inl (RpcFailure ''RPC_UNAVAILABLE'' True)
      | Answer status body \<Rightarrow>
          if status = 429 \<or> status \<ge> 500
          then if left > 0 then request_loop c send rq (Suc attempt) left else Inl (RpcFailure ''RPC_UNAVAILABLE'' True)
          else accept_response c (rq_id rq) status body)"

definition client_request :: "transport \<Rightarrow> string \<Rightarrow> json list \<Rightarrow> rpc_client \<Rightarrow> rpc_client \<times> (rpc_failure + json)" where
  "client_request send meth params c =
     (c\<lparr>jc_nextId := jc_nextId c + 1\<rparr>,
      request_loop c send \<lparr>rq_id = jc_nextId c, rq_method = meth, rq_params = params\<rparr> 0 (nat (jc_maxAttempts c)))"

definition then_r :: "rpc_client \<times> (rpc_failure + json) \<Rightarrow> (json \<Rightarrow> rpc_failure + 'a) \<Rightarrow> rpc_client \<times> (rpc_failure + 'a)" where
  "then_r r f = (fst r, bind_r (snd r) f)"

definition client_chainId :: "transport \<Rightarrow> rpc_client \<Rightarrow> rpc_client \<times> (rpc_failure + int)" where
  "client_chainId send c = then_r (client_request send ''eth_chainId'' [] c) (\<lambda>v. safeIndex (Some v))"

definition client_block :: "transport \<Rightarrow> int option \<Rightarrow> rpc_client \<Rightarrow> rpc_client \<times> (rpc_failure + chain_block option)" where
  "client_block send number c =
     (case (case number of None \<Rightarrow> Inr ''latest'' | Some n \<Rightarrow> hexQuantity n) of
        Inl e \<Rightarrow> (c, Inl e)
      | Inr p \<Rightarrow> then_r (client_request send ''eth_getBlockByNumber'' [JStr p, JBool False] c) parseBlock)"

definition client_receipt :: "transport \<Rightarrow> string \<Rightarrow> rpc_client \<Rightarrow> rpc_client \<times> (rpc_failure + full_receipt option)" where
  "client_receipt send hash c = then_r (client_request send ''eth_getTransactionReceipt'' [JStr hash] c) parseReceipt"

definition parse_transaction :: "string \<Rightarrow> json \<Rightarrow> rpc_failure + chain_transaction option" where
  "parse_transaction hash raw =
     (if raw = JNull then Inr None
      else
        bind_r (rpc_object raw) (\<lambda>row.
        bind_r (safeIndex (map_of row ''chainId'')) (\<lambda>chain.
        bind_r (rpc_hex asTransactionHash (map_of row ''hash'')) (\<lambda>actual.
        bind_r (check (toLowerCase actual = toLowerCase hash) rpc_invalid) (\<lambda>_.
        let nulls = map (\<lambda>k. map_of row k = Some JNull) [''blockHash'', ''blockNumber'', ''transactionIndex''];
            pending = list_all (\<lambda>b. b) nulls in
        bind_r (check (pending \<or> \<not> list_ex (\<lambda>b. b) nulls) rpc_invalid) (\<lambda>_.
        bind_r (rpc_hex asAddress (map_of row ''from'')) (\<lambda>sender.
        bind_r (nullable_r (rpc_hex asAddress) (map_of row ''to'')) (\<lambda>receiver.
        bind_r (rpc_hex asHexData (map_of row ''input'')) (\<lambda>data.
        bind_r (quantity (map_of row ''value'')) (\<lambda>wei.
        bind_r (quantity (map_of row ''nonce'')) (\<lambda>nonce.
        bind_r (if pending then Inr None else bind_r (rpc_hex asBlockHash (map_of row ''blockHash'')) (\<lambda>x. Inr (Some x))) (\<lambda>bh.
        bind_r (if pending then Inr None else bind_r (quantity (map_of row ''blockNumber'')) (\<lambda>x. Inr (Some x))) (\<lambda>bn.
        bind_r (if pending then Inr None else bind_r (safeIndex (map_of row ''transactionIndex'')) (\<lambda>x. Inr (Some x))) (\<lambda>ti.
        Inr (Some \<lparr>tn_hash = actual, tn_chainId = chain, tn_from = sender, tn_to = receiver, tn_data = data, tn_value = wei,
          tn_nonce = nonce, tn_blockHash = bh, tn_blockNumber = bn, tn_transactionIndex = ti\<rparr>)))))))))))))))"

definition client_transaction :: "transport \<Rightarrow> string \<Rightarrow> rpc_client \<Rightarrow> rpc_client \<times> (rpc_failure + chain_transaction option)" where
  "client_transaction send hash c =
     then_r (client_request send ''eth_getTransactionByHash'' [JStr hash] c) (parse_transaction hash)"

definition client_code :: "transport \<Rightarrow> string \<Rightarrow> call_block \<Rightarrow> rpc_client \<Rightarrow> rpc_client \<times> (rpc_failure + string)" where
  "client_code send address block c = (case blockParameter block of Inl e \<Rightarrow> (c, Inl e)
     | Inr p \<Rightarrow> then_r (client_request send ''eth_getCode'' [JStr address, p] c) (\<lambda>v. rpc_hex asHexData (Some v)))"

definition log_filter_json :: "log_filter \<Rightarrow> rpc_failure + json" where
  "log_filter_json f =
     bind_r (check (\<not> lf_toBlock f < lf_fromBlock f) (RpcFailure ''RPC_INVALID_REQUEST'' False)) (\<lambda>_.
     bind_r (hexQuantity (lf_fromBlock f)) (\<lambda>a.
     bind_r (hexQuantity (lf_toBlock f)) (\<lambda>b.
     Inr (JObj ([(''address'', JStr (lf_address f)), (''fromBlock'', JStr a), (''toBlock'', JStr b)] @
       (case lf_topics f of None \<Rightarrow> []
        | Some ts \<Rightarrow> [(''topics'', JArr (map (\<lambda>t. case t of None \<Rightarrow> JNull | Some s \<Rightarrow> JStr s) ts))]))))))"

definition client_logs :: "transport \<Rightarrow> log_filter \<Rightarrow> rpc_client \<Rightarrow> rpc_client \<times> (rpc_failure + chain_log list)" where
  "client_logs send f c = (case log_filter_json f of Inl e \<Rightarrow> (c, Inl e)
     | Inr p \<Rightarrow> then_r (client_request send ''eth_getLogs'' [p] c) (\<lambda>v. case v of JArr ls \<Rightarrow> map_r parseLog ls | _ \<Rightarrow> Inl rpc_invalid))"

definition client_call :: "transport \<Rightarrow> chain_call \<Rightarrow> call_block \<Rightarrow> rpc_client \<Rightarrow> rpc_client \<times> (rpc_failure + string)" where
  "client_call send q block c = (case blockParameter block of Inl e \<Rightarrow> (c, Inl e)
     | Inr p \<Rightarrow>
         then_r (client_request send ''eth_call'' [JObj ((case cl_from q of None \<Rightarrow> [] | Some a \<Rightarrow> [(''from'', JStr a)]) @
             [(''to'', JStr (cl_to q)), (''data'', JStr (cl_data q))]), p] c)
           (\<lambda>v. rpc_hex asHexData (Some v)))"

section \<open>Requests\<close>

text \<open>What makes the client try again.\<close>

fun retried :: "transport_result \<Rightarrow> bool" where
  "retried (Thrown (Some (RpcFailure _ r))) = r"
| "retried (Thrown None) = True"
| "retried (Answer status _) = (status = 429 \<or> status \<ge> 500)"

definition attempt_of :: "rpc_client \<Rightarrow> transport \<Rightarrow> rpc_request \<Rightarrow> nat \<Rightarrow> transport_result" where
  "attempt_of c send rq a = send a (jc_endpoints c ! (a mod length (jc_endpoints c))) rq"

lemma request_loop_Inr:
  "request_loop c send rq a left = Inr v \<longleftrightarrow>
     (\<exists>k<left. (\<forall>j<k. retried (attempt_of c send rq (a + j))) \<and>
        (\<exists>status body. attempt_of c send rq (a + k) = Answer status body \<and> \<not> retried (Answer status body) \<and>
          accept_response c (rq_id rq) status body = Inr v))"
proof (induction left arbitrary: a)
  case (Suc left)
  let ?r = "attempt_of c send rq a"
  have shift: "(\<exists>k<Suc left. P k) \<longleftrightarrow> P 0 \<or> (\<exists>k<left. P (Suc k))" for P
    using less_Suc_eq_0_disj by auto
  have all: "(\<forall>j<Suc k. Q j) \<longleftrightarrow> Q 0 \<and> (\<forall>j<k. Q (Suc j))" for Q :: "nat \<Rightarrow> bool" and k
    using less_Suc_eq_0_disj by auto
  show ?case
  proof (cases "retried ?r")
    case True
    then have "request_loop c send rq a (Suc left) = (if left > 0 then request_loop c send rq (Suc a) left
        else Inl (RpcFailure ''RPC_UNAVAILABLE'' True))"
      by (cases ?r rule: retried.cases) (auto simp: attempt_of_def split: bool.splits)
    moreover have "\<not> (\<exists>status body. ?r = Answer status body \<and> \<not> retried (Answer status body) \<and>
          accept_response c (rq_id rq) status body = Inr v)" using True by auto
    ultimately show ?thesis using True unfolding shift all by (auto simp: Suc.IH)
  next
    case False
    then show ?thesis unfolding shift all
      by (cases ?r rule: retried.cases) (auto simp: attempt_of_def split: bool.splits)
  qed
qed simp

definition answers :: "rpc_client \<Rightarrow> int \<Rightarrow> json \<Rightarrow> transport_result \<Rightarrow> bool" where
  "answers c rid v r \<longleftrightarrow> (\<exists>status body es. r = Answer status body \<and> 200 \<le> status \<and> status < 300 \<and>
     utf8_length body \<le> jc_maxResponseBytes c \<and> parse_json body = Some (JObj es) \<and> map_of es ''jsonrpc'' = Some (JStr ''2.0'') \<and>
     map_of es ''id'' = Some (JNum rid) \<and> map_of es ''result'' = Some v \<and> map_of es ''error'' = None)"

lemma accept_response_Inr:
  "\<not> retried (Answer status body) \<and> accept_response c rid status body = Inr v \<longleftrightarrow> answers c rid v (Answer status body)"
proof
  assume "answers c rid v (Answer status body)"
  then show "\<not> retried (Answer status body) \<and> accept_response c rid status body = Inr v"
    by (auto simp: accept_response_def answers_def rpc_object_def)
next
  assume "\<not> retried (Answer status body) \<and> accept_response c rid status body = Inr v"
  then show "answers c rid v (Answer status body)"
    by (auto simp: accept_response_def answers_def rpc_object_def bind_r_Inr split: option.splits json.splits if_splits)
qed

lemma client_request_Inr:
  "snd (client_request send meth params c) = Inr v \<longleftrightarrow>
     (\<exists>k<nat (jc_maxAttempts c).
        (\<forall>j<k. retried (attempt_of c send \<lparr>rq_id = jc_nextId c, rq_method = meth, rq_params = params\<rparr> j)) \<and>
        answers c (jc_nextId c) v (attempt_of c send \<lparr>rq_id = jc_nextId c, rq_method = meth, rq_params = params\<rparr> k))"
proof -
  have "(\<exists>status body. r = Answer status body \<and> \<not> retried (Answer status body) \<and> accept_response c i status body = Inr v) \<longleftrightarrow>
    answers c i v r" for r i
    using accept_response_Inr[of _ _ c i v] by (cases r) (auto simp: answers_def)
  then show ?thesis by (simp add: client_request_def request_loop_Inr)
qed

text \<open>C28: A request gives a result exactly when some attempt, within the allowed number, answers this very request (status, size,
  version and id are right, there is a result and no error) and every attempt before it failed in a way that is to
  be retried. So no answer to another request, no oversized body and no answer after a final failure is ever used,
  and a good answer within the allowed attempts is never lost.\<close>

theorem request_answered:
  "snd (client_request send meth params c) = Inr v \<longleftrightarrow>
     (\<exists>k<nat (jc_maxAttempts c).
        (\<forall>j<k. retried (attempt_of c send \<lparr>rq_id = jc_nextId c, rq_method = meth, rq_params = params\<rparr> j)) \<and>
        answers c (jc_nextId c) v (attempt_of c send \<lparr>rq_id = jc_nextId c, rq_method = meth, rq_params = params\<rparr> k))"
  by (rule client_request_Inr)

section \<open>Blocks\<close>

definition block_json :: "chain_block \<Rightarrow> json" where
  "block_json b = JObj [(''number'', JStr (''0x'' @ hex_text (bk_number b))), (''hash'', JStr (bk_hash b)),
     (''parentHash'', JStr (bk_parentHash b)), (''timestamp'', JStr (''0x'' @ hex_text (bk_timestamp b)))]"

definition block_typed :: "chain_block \<Rightarrow> bool" where
  "block_typed b \<longleftrightarrow> 0 \<le> bk_number b \<and> 0 \<le> bk_timestamp b \<and> hex_digits 64 (bk_hash b) \<and> hex_digits 64 (bk_parentHash b)"

definition envelope :: "int \<Rightarrow> json \<Rightarrow> json" where
  "envelope rid v = JObj [(''jsonrpc'', JStr ''2.0''), (''id'', JNum rid), (''result'', v)]"

lemma envelope_answers:
  assumes "keyed v" "utf8_length (print_json (envelope rid v)) \<le> jc_maxResponseBytes c"
  shows "answers c rid v (Answer 200 (print_json (envelope rid v)))"
proof -
  have "parse_json (print_json (envelope rid v)) = Some (envelope rid v)" using assms(1) by (intro parse_print) (simp add: envelope_def)
  then have "parse_json (print_json (envelope rid v)) = Some (JObj [(''jsonrpc'', JStr ''2.0''), (''id'', JNum rid), (''result'', v)])"
    unfolding envelope_def .
  then show ?thesis using assms(2) unfolding answers_def
    by (intro exI[of _ 200] exI[of _ "print_json (envelope rid v)"] exI[of _ "[(''jsonrpc'', JStr ''2.0''), (''id'', JNum rid), (''result'', v)]"]) simp
qed

lemma keyed_block: "keyed (block_json b)"
  by (simp add: block_json_def)

lemma hd_hex_text: "0 < n \<Longrightarrow> hd (hex_text n) \<noteq> CHR ''0''"
proof (induction n rule: hex_text.induct)
  case (1 n)
  show ?case
  proof (cases "n < 16")
    case True
    then have "hex_value (hex_digit_char n) = n" using "1.prems" by simp
    moreover have "hex_value (CHR ''0'') = 0" by code_simp
    ultimately have "hex_digit_char n \<noteq> CHR ''0''" using "1.prems" by auto
    then show ?thesis using True by (subst hex_text.simps) simp
  next
    case False
    then have "hd (hex_text (n div 16)) \<noteq> CHR ''0''" using "1.IH" "1.prems" by simp
    then show ?thesis using False by (subst hex_text.simps) simp
  qed
qed

lemma quantity_hex: "0 \<le> n \<Longrightarrow> quantity (Some (JStr (''0x'' @ hex_text n))) = Inr n"
proof -
  assume n: "0 \<le> n"
  have "hex_text 0 = ''0''" by code_simp
  then have "hd (hex_text n) = CHR ''0'' \<longrightarrow> hex_text n = ''0''" using hd_hex_text[of n] n by (cases "n = 0") auto
  then show ?thesis using n hex_text_hex(1)[of n] by (simp add: quantity_def quantity_text_def)
qed

lemma quantity_Inr: "quantity v = Inr n \<Longrightarrow> 0 \<le> n"
  using hex_number_bound by (auto simp: quantity_def quantity_text_def split: option.splits json.splits if_splits)

lemma rpc_hex_block: "rpc_hex asBlockHash v = Inr h \<Longrightarrow> hex_digits 64 h"
  by (auto simp: rpc_hex_def asBlockHash_Inr split: sum.splits)

lemma parseBlock_block: "block_typed b \<Longrightarrow> parseBlock (block_json b) = Inr (Some b)"
  using quantity_hex[of "bk_number b"] quantity_hex[of "bk_timestamp b"]
  by (simp add: parseBlock_def block_json_def rpc_object_def rpc_hex_def string_of_def asBlockHash_def checkedHex_def block_typed_def)

lemma parseBlock_typed: "parseBlock v = Inr (Some b) \<Longrightarrow> block_typed b"
  by (auto simp: parseBlock_def bind_r_Inr block_typed_def dest: quantity_Inr rpc_hex_block split: if_splits)

text \<open>C30: What the client reports as a block is well typed (two hashes of 32 bytes, a number and a time that are not
  negative), whatever the server sends. Conversely, if the first answer that is not retried is the JSON text of a well-typed
  block under this request's id, within the size limit and the allowed attempts, the client reports exactly that block.\<close>

theorem client_block_faithful:
  "(snd (client_block send number c) = Inr (Some b) \<longrightarrow> block_typed b) \<and>
   (0 \<le> n \<and> block_typed d \<and> k < nat (jc_maxAttempts c) \<and> utf8_length (print_json (envelope (jc_nextId c) (block_json d))) \<le> jc_maxResponseBytes c \<and>
      (\<forall>j<k. retried (attempt_of c send \<lparr>rq_id = jc_nextId c, rq_method = ''eth_getBlockByNumber'',
          rq_params = [JStr (''0x'' @ hex_text n), JBool False]\<rparr> j)) \<and>
      attempt_of c send \<lparr>rq_id = jc_nextId c, rq_method = ''eth_getBlockByNumber'', rq_params = [JStr (''0x'' @ hex_text n), JBool False]\<rparr> k =
        Answer 200 (print_json (envelope (jc_nextId c) (block_json d))) \<longrightarrow>
    snd (client_block send (Some n) c) = Inr (Some d))"
proof (intro conjI impI)
  assume "snd (client_block send number c) = Inr (Some b)"
  then show "block_typed b" using parseBlock_typed
    by (auto simp: client_block_def then_r_def bind_r_Inr split: sum.splits)
next
  let ?r = "\<lparr>rq_id = jc_nextId c, rq_method = ''eth_getBlockByNumber'', rq_params = [JStr (''0x'' @ hex_text n), JBool False]\<rparr>"
  let ?e = "envelope (jc_nextId c) (block_json d)"
  assume a: "0 \<le> n \<and> block_typed d \<and> k < nat (jc_maxAttempts c) \<and> utf8_length (print_json ?e) \<le> jc_maxResponseBytes c \<and>
      (\<forall>j<k. retried (attempt_of c send ?r j)) \<and> attempt_of c send ?r k = Answer 200 (print_json ?e)"
  have "answers c (jc_nextId c) (block_json d) (Answer 200 (print_json ?e))" using a by (intro envelope_answers keyed_block) blast
  then have "snd (client_request send ''eth_getBlockByNumber'' [JStr (''0x'' @ hex_text n), JBool False] c) = Inr (block_json d)"
    unfolding client_request_Inr using a by auto
  then show "snd (client_block send (Some n) c) = Inr (Some d)"
    using a parseBlock_block[of d] by (simp add: client_block_def hexQuantity_def then_r_def)
qed

section \<open>A request\<close>

definition jdemo_client :: rpc_client where
  "jdemo_client = \<lparr>jc_endpoints = [''https://a/'', ''https://b/''], jc_timeoutMs = 5000, jc_maxAttempts = 2, jc_maxResponseBytes = 2000000,
     jc_nextId = 7\<rparr>"

definition jdemo_block :: chain_block where
  "jdemo_block = \<lparr>bk_number = 291, bk_hash = ''0x'' @ replicate 64 (CHR ''a''), bk_parentHash = ''0x'' @ replicate 64 (CHR ''b''), bk_timestamp = 5\<rparr>"

text \<open>The first endpoint is overloaded, the second answers.\<close>

definition jdemo_send :: transport where
  "jdemo_send k e q = (if k = 0 then Answer 503 [] else Answer 200 (print_json (envelope 7 (block_json jdemo_block))))"

lemma jdemo_facts: "block_typed jdemo_block" "utf8_length (print_json (envelope 7 (block_json jdemo_block))) \<le> 2000000"
  by code_simp+

lemma jdemo_attempts: "retried (attempt_of jdemo_client jdemo_send q 0)"
  "attempt_of jdemo_client jdemo_send q 1 = Answer 200 (print_json (envelope 7 (block_json jdemo_block)))"
  by (simp_all add: attempt_of_def jdemo_send_def)

theorem request_answered_witness:
  "snd (client_request jdemo_send ''eth_getBlockByNumber'' [] jdemo_client) = Inr (block_json jdemo_block)"
proof -
  have "answers jdemo_client 7 (block_json jdemo_block) (Answer 200 (print_json (envelope 7 (block_json jdemo_block))))"
    using jdemo_facts(2) by (intro envelope_answers keyed_block) (simp add: jdemo_client_def)
  then show ?thesis unfolding request_answered using jdemo_attempts
    by (intro exI[of _ 1]) (simp add: jdemo_client_def)
qed

theorem client_block_faithful_witness:
  "snd (client_block jdemo_send (Some 291) jdemo_client) = Inr (Some jdemo_block)"
  using client_block_faithful[of jdemo_send None jdemo_client jdemo_block 291 jdemo_block 1] jdemo_facts jdemo_attempts
  by (simp add: jdemo_client_def)

end
