(* ===== verification/Automata_Store.thy ===== *)
theory Automata_Store
  imports Ledger_Properties Automata_Properties
begin

text \<open>
  \<^bold>\<open>apps/server/src/automata-store.ts\<close>: \<open>AutomataStore\<close>, which keeps automated runs in the table \<open>automata_runs\<close> of the ledger's
  database and writes the effect of every command on the allocated money into the Vault of the run; with
  \<open>packages/automata/src/fixtures.ts\<close>, the replayed datasets. Every method that writes is one transaction, so it is one
  step and an error leaves the tables as they were.

  The column \<open>json\<close> is written by \<open>JSON.stringify\<close> of a record and read by \<open>JSON.parse\<close>; the model keeps the record.
  SHA-256 is a parameter; the program applies it to the text of an id, of a Vault, and to the JSON text of a record, a run,
  a dataset, a creation and a command. The last five are one function each in \<open>run_hashes\<close>, the digest of the value's
  text. As elsewhere in the model of the engine an amount that a run keeps is an integer and not its decimal text.
  The titles of the datasets and the constant field \<open>scope\<close> of the
  views are left out.
\<close>

section \<open>Datasets\<close>

datatype bot_error = Bot string | Of_ledger ledger_error | Of_domain domain_error | Of_engine automata_error

definition lift_ledger :: "ledger_error + 'a \<Rightarrow> bot_error + 'a" where
  "lift_ledger r = (case r of Inl e \<Rightarrow> Inl (Of_ledger e) | Inr x \<Rightarrow> Inr x)"

definition lift_money :: "domain_error + 'a \<Rightarrow> bot_error + 'a" where
  "lift_money r = (case r of Inl e \<Rightarrow> Inl (Of_domain e) | Inr x \<Rightarrow> Inr x)"

definition lift_engine :: "automata_error + 'a \<Rightarrow> bot_error + 'a" where
  "lift_engine r = (case r of Inl e \<Rightarrow> Inl (Of_engine e) | Inr x \<Rightarrow> Inr x)"

definition DATASETS :: "string list" where
  "DATASETS = [''ema-cycle'', ''trend'', ''decline'', ''liquidity'']"

definition dataset_price :: "string \<Rightarrow> int \<Rightarrow> int" where
  "dataset_price d index =
     (let shift = min index 60 * 500000 in
      if d = ''ema-cycle''
      then (if index < 30 then 100 else if index < 60 then 100 + index - 29 else max 70 (130 - (index - 59) * 2)) * 1000000
      else if d = ''decline'' then 100000000 - shift
      else if d = ''trend'' then 100000000 + shift
      else 100000000)"

definition dataset_frame :: "string \<Rightarrow> int \<Rightarrow> frame" where
  "dataset_frame d index =
     (let seq = index + 1; at = seq * 1000; price = toString (dataset_price d index) in
      \<lparr>f_seq = seq, f_at = at, f_quotes = map (\<lambda>a.
         \<lparr>q_assetId = a, q_bid = price, q_ask = price, q_reference = Some ''100000000'', q_observedAt = at, q_expiresAt = at + 1000,
          q_capacity = (if d = ''liquidity'' \<and> seq \<ge> 3 \<and> seq \<le> 6 then ''0'' else ''1000000000''), q_slippageBps = 0,
          q_available = True\<rparr>) [''rwa-a'', ''rwa-b'']\<rparr>)"

definition datasetFrames :: "string \<Rightarrow> bot_error + frame list" where
  "datasetFrames d = (if d \<in> set DATASETS then Inr (map (\<lambda>k. dataset_frame d (int k)) [0..<120]) else Inl (Bot ''UNKNOWN_DATASET''))"

section \<open>Tables and requests\<close>

record create_run =
  cr_id :: string
  cr_vaultId :: string
  cr_amount :: string
  cr_datasetId :: string
  cr_parameters :: parameters

datatype run_request =
    C_step | C_stop | C_pause | C_resume
  | C_fund fund_direction string
  | C_decision string string int "(string \<times> int) list"

record run_command =
  cm_id :: string
  cm_expectedRevision :: int
  cm_request :: run_request

record run_record =
  rr_state :: run
  rr_revision :: int
  rr_owner :: string
  rr_vaultId :: string
  rr_datasetId :: string
  rr_datasetHash :: string
  rr_baselineRealized :: string
  rr_creation :: string
  rr_receipts :: "(string \<times> string) list"
  rr_settlementReleased :: "int option"

record run_row =
  row_id :: string
  row_owner :: string
  row_vault :: string
  row_revision :: int
  row_active :: bool
  row_json :: run_record
  row_digest :: string

record bot_db =
  bot_ledger :: ledger
  automata_runs :: "run_row list"

record run_hashes =
  hash_text :: "string \<Rightarrow> string"
  hash_record :: "run_record \<Rightarrow> string"
  hash_run :: "run \<Rightarrow> string"
  hash_frames :: "frame list \<Rightarrow> string"
  hash_creation :: "create_run \<Rightarrow> string"
  hash_command :: "run_command \<Rightarrow> string"

record run_view =
  vw_state :: run
  vw_revision :: int
  vw_vaultId :: string
  vw_datasetId :: string
  vw_datasetHash :: string
  vw_equity :: int
  vw_returnBps :: js_number
  vw_settlementReleased :: int
  vw_replayComplete :: bool

definition running :: "run \<Rightarrow> bool" where
  "running r \<longleftrightarrow> r_status r \<noteq> St_stopped"

section \<open>Reading\<close>

definition read_run :: "run_hashes \<Rightarrow> bot_db \<Rightarrow> string \<Rightarrow> string \<Rightarrow> bot_error + run_record" where
  "read_run H db owner i = (case find (\<lambda>r. row_id r = i \<and> row_owner r = owner) (automata_runs db) of
     None \<Rightarrow> Inl (Bot ''BOT_NOT_FOUND'')
   | Some row \<Rightarrow> let record = row_json row in
       bind_r (check (hash_record H record = row_digest row) (Bot ''CORRUPT_AUTOMATA'')) (\<lambda>_.
       bind_r (check (rr_owner record = owner \<and> rr_vaultId record = row_vault row \<and> r_id (rr_state record) = row_id row \<and>
           rr_revision record = row_revision row \<and> r_version (rr_state record) = ENGINE_VERSION \<and>
           running (rr_state record) = row_active row) (Bot ''CORRUPT_AUTOMATA'')) (\<lambda>_.
       bind_r (datasetFrames (rr_datasetId record)) (\<lambda>frames.
       bind_r (check (rr_datasetHash record = hash_frames H frames) (Bot ''CORRUPT_AUTOMATA'')) (\<lambda>_.
       Inr record)))))"

definition view_run :: "run_record \<Rightarrow> bot_error + run_view" where
  "view_run record =
     bind_r (lift_engine (Automata_Engine.equity (rr_state record))) (\<lambda>e.
     bind_r (lift_engine (returnBps (rr_state record))) (\<lambda>b.
     bind_r (datasetFrames (rr_datasetId record)) (\<lambda>frames.
     Inr \<lparr>vw_state = rr_state record, vw_revision = rr_revision record, vw_vaultId = rr_vaultId record,
          vw_datasetId = rr_datasetId record, vw_datasetHash = rr_datasetHash record, vw_equity = e, vw_returnBps = b,
          vw_settlementReleased = (case rr_settlementReleased record of None \<Rightarrow> 0 | Some n \<Rightarrow> n),
          vw_replayComplete = (r_cursor (rr_state record) \<ge> int (length frames))\<rparr>)))"

definition get_run :: "run_hashes \<Rightarrow> bot_db \<Rightarrow> string \<Rightarrow> string \<Rightarrow> bot_error + run_view" where
  "get_run H db owner i = bind_r (read_run H db owner i) view_run"

definition list_runs :: "run_hashes \<Rightarrow> bot_db \<Rightarrow> string \<Rightarrow> bot_error + run_view list" where
  "list_runs H db owner =
     map_r (\<lambda>row. get_run H db owner (row_id row)) (take 50 (rev (filter (\<lambda>row. row_owner row = owner) (automata_runs db))))"

record strategy_context =
  sx_protocol :: string
  sx_runId :: string
  sx_revision :: int
  sx_frameSeq :: int
  sx_clock :: int
  sx_mode :: strategy_mode
  sx_status :: run_status
  sx_ready :: bool
  sx_cash :: int
  sx_equity :: int
  sx_positions :: "(string \<times> position) list"
  sx_quotes :: "(string \<times> quote) list"
  sx_observations :: "frame list"
  sx_eligibleAssets :: "string list"
  sx_parameters :: parameters
  sx_lastDecision :: "decision_info option"
  sx_replayComplete :: bool

definition strategyContext :: "run_hashes \<Rightarrow> bot_db \<Rightarrow> string \<Rightarrow> string \<Rightarrow> bot_error + strategy_context" where
  "strategyContext H db owner i =
     bind_r (get_run H db owner i) (\<lambda>v.
     bind_r (datasetFrames (vw_datasetId v)) (\<lambda>frames.
     let s = vw_state v; mode = pa_strategyMode (r_parameters s) in
     Inr \<lparr>sx_protocol = STRATEGY_PROTOCOL, sx_runId = i, sx_revision = vw_revision v, sx_frameSeq = r_cursor s, sx_clock = r_clock s,
          sx_mode = (case mode of None \<Rightarrow> Mode_rebalance | Some m \<Rightarrow> m), sx_status = r_status s,
          sx_ready = (mode = Some Mode_external \<and> r_status s = St_running \<and> r_trigger s = None \<and> r_cursor s > 0),
          sx_cash = r_cash s, sx_equity = vw_equity v, sx_positions = r_positions s, sx_quotes = r_quotes s,
          sx_observations = take (nat (r_cursor s)) frames, sx_eligibleAssets = map fst (pa_weights (r_parameters s)),
          sx_parameters = r_parameters s, sx_lastDecision = r_lastDecision s, sx_replayComplete = vw_replayComplete v\<rparr>))"

section \<open>Writing\<close>

definition free_slot :: "run_row list \<Rightarrow> string \<Rightarrow> bool" where
  "free_slot rows v \<longleftrightarrow> list_all (\<lambda>r. row_active r \<longrightarrow> row_vault r \<noteq> v) rows"

definition row_of_record :: "run_hashes \<Rightarrow> run_record \<Rightarrow> run_row" where
  "row_of_record H record = \<lparr>row_id = r_id (rr_state record), row_owner = rr_owner record, row_vault = rr_vaultId record,
     row_revision = rr_revision record, row_active = running (rr_state record), row_json = record,
     row_digest = hash_record H record\<rparr>"

text \<open>The update is refused by the index \<open>one_active_automaton\<close> if it gives a Vault a second active run.\<close>

definition persist :: "run_hashes \<Rightarrow> bot_db \<Rightarrow> run_record \<Rightarrow> bot_error + bot_db" where
  "persist H db record =
     (let this = (\<lambda>r. row_id r = r_id (rr_state record) \<and> row_owner r = rr_owner record) in
      bind_r (check (\<not> running (rr_state record) \<or> list_all (\<lambda>r. this r \<longrightarrow> free_slot (filter (\<lambda>x. \<not> this x) (automata_runs db)) (row_vault r))
        (automata_runs db)) (Bot ''CONSTRAINT'')) (\<lambda>_.
      Inr (db\<lparr>automata_runs := map (\<lambda>r. if this r
        then r\<lparr>row_revision := rr_revision record, row_active := running (rr_state record), row_json := record,
               row_digest := hash_record H record\<rparr>
        else r) (automata_runs db)\<rparr>)))"

definition bot_command_id :: "run_hashes \<Rightarrow> string \<Rightarrow> int \<Rightarrow> string" where
  "bot_command_id H i n = ''bot_'' @ take 48 (hash_text H (i @ '':'' @ toString n))"

definition checkpoint_id :: "run_hashes \<Rightarrow> run_record \<Rightarrow> string" where
  "checkpoint_id H record = bot_command_id H (r_id (rr_state record)) (rr_revision record)"

definition checkpoint_status :: "run \<Rightarrow> vault_status" where
  "checkpoint_status s = (if r_status s = St_stopped then Stopped else if r_trigger s \<noteq> None then Stopping else Running)"

definition checkpoint_vault :: "run_hashes \<Rightarrow> run_record \<Rightarrow> vault \<Rightarrow> int \<Rightarrow> int \<Rightarrow> int \<Rightarrow> vault" where
  "checkpoint_vault H record previous idleDelta cost positions =
     (let state = rr_state record; commandId = checkpoint_id H record in
      previous\<lparr>revision := revision previous + 1, idle := toString (big_int (idle previous) + idleDelta),
        activeCash := toString (r_cash state), positionCost := toString cost, positionValue := toString positions,
        realizedPnl := toString (big_int (rr_baselineRealized record) + r_realizedPnl state), status := checkpoint_status state,
        receipts := AList.update commandId \<lparr>fingerprint = hash_run H state, receipt_revision = revision previous + 1\<rparr>
          (receipts previous),
        events := events previous @ [\<lparr>event_revision = revision previous + 1, event_commandId = commandId,
          event_type = ''automataCheckpoint'', event_actorId = ''local-simulator''\<rparr>]\<rparr>)"

definition checkpoint_audit :: "run_hashes \<Rightarrow> string \<Rightarrow> run_record \<Rightarrow> vault \<Rightarrow> audit_row" where
  "checkpoint_audit H now record v = \<lparr>ar_vault = vault_id v, ar_revision = revision v, ar_command = checkpoint_id H record,
     ar_type = ''automataCheckpoint'', ar_actor = ''local-simulator'', recorded_at = now\<rparr>"

definition checkpoint_run ::
  "run_hashes \<Rightarrow> string \<Rightarrow> bot_db \<Rightarrow> run_record \<Rightarrow> vault \<Rightarrow> int \<Rightarrow> bot_error + bot_db" where
  "checkpoint_run H now db record previous idleDelta =
     (let sha = hash_text H; state = rr_state record; l = bot_ledger db in
      bind_r (check (revision previous < 9999) (Bot ''TEST_HISTORY_LIMIT'')) (\<lambda>_.
      bind_r (lift_engine (total_cost state)) (\<lambda>cost.
      bind_r (lift_engine (Automata_Engine.equity state)) (\<lambda>e.
      bind_r (lift_engine (amount_int (r_cash state))) (\<lambda>cash.
      let next = checkpoint_vault H record previous idleDelta cost (e - cash);
          json = print_json (vault_json next);
          target = matches (vault_id next) (ownerId next) (revision previous);
          event = checkpoint_audit H now record next
      in
      bind_r (lift_money (assertInvariant next)) (\<lambda>_.
      bind_r (check (length (filter target (vaults l)) = 1) (Bot ''REVISION_CONFLICT'')) (\<lambda>_.
      bind_r (check ((ar_vault event, ar_revision event) \<notin> set (map (\<lambda>x. (ar_vault x, ar_revision x)) (audit_events l)) \<and>
          (ar_vault event, ar_command event) \<notin> set (map (\<lambda>x. (ar_vault x, ar_command x)) (audit_events l)))
        (Bot ''CONSTRAINT'')) (\<lambda>_.
      Inr (db\<lparr>bot_ledger := l\<lparr>
        vaults := map (\<lambda>r. if target r then r\<lparr>lr_revision := revision next, state_json := json, lr_digest := sha json\<rparr> else r) (vaults l),
        audit_events := audit_events l @ [event]\<rparr>\<rparr>)))))))))"

section \<open>Creation\<close>

definition vault_ready :: "vault \<Rightarrow> bool" where
  "vault_ready v \<longleftrightarrow> status v = Stopped \<and> activeCash v = ''0'' \<and> positionCost v = ''0'' \<and> feeLiability v = ''0'' \<and> orders v = []"

definition new_record :: "run_hashes \<Rightarrow> string \<Rightarrow> create_run \<Rightarrow> run \<Rightarrow> frame list \<Rightarrow> vault \<Rightarrow> run_record" where
  "new_record H owner input initial frames v = \<lparr>rr_state = initial, rr_revision = 0, rr_owner = owner,
     rr_vaultId = cr_vaultId input, rr_datasetId = cr_datasetId input, rr_datasetHash = hash_frames H frames,
     rr_baselineRealized = realizedPnl v, rr_creation = hash_creation H input, rr_receipts = [],
     rr_settlementReleased = None\<rparr>"

definition start_run ::
  "run_hashes \<Rightarrow> string \<Rightarrow> bot_db \<Rightarrow> string \<Rightarrow> create_run \<Rightarrow> bot_error + (bot_db \<times> run_view)" where
  "start_run H now db owner input =
     bind_r (lift_ledger (get_vault (hash_text H) (bot_ledger db) (cr_vaultId input) owner)) (\<lambda>v.
     bind_r (check (vault_ready v) (Bot ''BOT_VAULT_NOT_READY'')) (\<lambda>_.
     bind_r (lift_engine (Automata_Model.amount (cr_amount input))) (\<lambda>cash.
     bind_r (check (cash \<le> big_int (idle v)) (Bot ''INSUFFICIENT_IDLE'')) (\<lambda>_.
     bind_r (lift_money (balances v)) (\<lambda>b.
     bind_r (check (cash \<le> allowance b) (Bot ''ALLOWANCE_EXCEEDED'')) (\<lambda>_.
     bind_r (check (length (filter (\<lambda>r. row_owner r = owner) (automata_runs db)) < 50) (Bot ''BOT_RUN_LIMIT'')) (\<lambda>_.
     case createRun (cr_id input) (cr_amount input) (cr_parameters input) of Inl _ \<Rightarrow> Inl (Bot ''INVALID_REQUEST'')
     | Inr initial \<Rightarrow>
     bind_r (datasetFrames (cr_datasetId input)) (\<lambda>frames.
     let record = new_record H owner input initial frames v in
     bind_r (check (cr_id input \<notin> set (map row_id (automata_runs db)) \<and> free_slot (automata_runs db) (cr_vaultId input))
       (Bot ''CONSTRAINT'')) (\<lambda>_.
     bind_r (checkpoint_run H now (db\<lparr>automata_runs := automata_runs db @ [row_of_record H record]\<rparr>) record v (- cash)) (\<lambda>db'.
     bind_r (view_run record) (\<lambda>w. Inr (db', w))))))))))))"

definition bot_create ::
  "run_hashes \<Rightarrow> string \<Rightarrow> bot_db \<Rightarrow> string \<Rightarrow> create_run \<Rightarrow> bot_error + (bot_db \<times> run_view)" where
  "bot_create H now db owner input =
     bind_r (check (id_ok (cr_id input)) (Bot ''INVALID_ID'')) (\<lambda>_.
     bind_r (check (id_ok (cr_vaultId input)) (Bot ''INVALID_ID'')) (\<lambda>_.
     case find (\<lambda>r. row_id r = cr_id input) (automata_runs db) of
       Some found \<Rightarrow>
         bind_r (check (row_owner found = owner) (Bot ''BOT_NOT_FOUND'')) (\<lambda>_.
         bind_r (read_run H db owner (cr_id input)) (\<lambda>previous.
         bind_r (check (rr_creation previous = hash_creation H input) (Bot ''IDEMPOTENCY_CONFLICT'')) (\<lambda>_.
         bind_r (view_run previous) (\<lambda>w. Inr (db, w)))))
     | None \<Rightarrow> start_run H now db owner input))"

section \<open>Commands\<close>

definition decision_of :: "run_command \<Rightarrow> strategy_decision option" where
  "decision_of c = (case cm_request c of
     C_decision protocol runId frameSeq targets \<Rightarrow>
       Some \<lparr>sd_protocol = protocol, sd_runId = runId, sd_id = cm_id c, sd_expectedRevision = cm_expectedRevision c,
             sd_frameSeq = frameSeq, sd_targets = targets\<rparr>
   | _ \<Rightarrow> None)"

definition run_action :: "run_record \<Rightarrow> vault \<Rightarrow> run_command \<Rightarrow> bot_error + (action \<times> int)" where
  "run_action record v c = (case cm_request c of
     C_step \<Rightarrow> bind_r (datasetFrames (rr_datasetId record)) (\<lambda>frames.
       let k = r_cursor (rr_state record) in
       if 0 \<le> k \<and> k < int (length frames) then Inr (A_frame (frames ! nat k), 0) else Inl (Bot ''REPLAY_COMPLETE''))
   | C_fund dir value \<Rightarrow>
       bind_r (lift_engine (Automata_Model.amount value)) (\<lambda>cash.
       if dir = Fund_in
       then bind_r (check (cash \<le> big_int (idle v)) (Bot ''INSUFFICIENT_IDLE'')) (\<lambda>_.
            bind_r (lift_engine (Automata_Engine.equity (rr_state record))) (\<lambda>e.
            bind_r (lift_money (balances v)) (\<lambda>b.
            bind_r (check (e + cash \<le> allowance b) (Bot ''ALLOWANCE_EXCEEDED'')) (\<lambda>_.
            Inr (A_fund dir value, - cash)))))
       else Inr (A_fund dir value, cash))
   | C_decision _ _ frameSeq targets \<Rightarrow> Inr (A_decision (cm_id c) frameSeq targets, 0)
   | C_stop \<Rightarrow> Inr (A_stop, 0)
   | C_pause \<Rightarrow> Inr (A_pause, 0)
   | C_resume \<Rightarrow> Inr (A_resume, 0))"

definition no_positions :: "run \<Rightarrow> automata_error + bool" where
  "no_positions r = all_r (\<lambda>ip. bind_r (amount_int (p_quantity (snd ip))) (\<lambda>n. Inr (n = 0))) (r_positions r)"

definition had_positions :: "run \<Rightarrow> automata_error + bool" where
  "had_positions r =
     bind_r (all_r (\<lambda>ip. bind_r (amount_int (p_quantity (snd ip))) (\<lambda>n. Inr (\<not> n > 0))) (r_positions r)) (\<lambda>none. Inr (\<not> none))"

text \<open>The run after the action, and what was released to the idle cash of the Vault.\<close>

definition settle_run :: "run \<Rightarrow> vault \<Rightarrow> action \<Rightarrow> bool \<Rightarrow> bot_error + (run \<times> int option)" where
  "settle_run state v a had =
     bind_r (lift_engine (transition state a)) (\<lambda>s.
     bind_r (if had then lift_engine (no_positions s) else Inr False) (\<lambda>flat.
     if flat
     then bind_r (lift_engine (amount_int (r_cash s))) (\<lambda>cash.
          bind_r (lift_money (balances v)) (\<lambda>b.
          let excess = snd (assess ZERO_FEE_FULL_SETTLEMENT \<lparr>proceeds_in = 0, cost_in = 0, cash_in = cash,
                existingFeeLiability = 0, allowance_in = allowance b\<rparr>) in
          bind_r (lift_engine (releaseSettlementExcess s excess)) (\<lambda>s'. Inr (s', Some excess))))
     else Inr (s, None)))"

text \<open>Assigning to the key \<open>__proto__\<close> of an object sets its prototype, which ignores a string.\<close>

definition set_receipt :: "string \<Rightarrow> string \<Rightarrow> (string \<times> string) list \<Rightarrow> (string \<times> string) list" where
  "set_receipt i fp m = (if i = ''__proto__'' then m else AList.update i fp m)"

definition next_record :: "run_hashes \<Rightarrow> run_record \<Rightarrow> run_command \<Rightarrow> run \<Rightarrow> int option \<Rightarrow> run_record" where
  "next_record H record c s released = record\<lparr>rr_state := s, rr_revision := rr_revision record + 1,
     rr_receipts := set_receipt (cm_id c) (hash_command H c) (rr_receipts record),
     rr_settlementReleased := (case released of None \<Rightarrow> rr_settlementReleased record
       | Some x \<Rightarrow> Some ((case rr_settlementReleased record of None \<Rightarrow> 0 | Some n \<Rightarrow> n) + x))\<rparr>"

definition revision_ok :: "run_record \<Rightarrow> run_command \<Rightarrow> bool" where
  "revision_ok record c \<longleftrightarrow> isSafeInteger (cm_expectedRevision c) \<and> cm_expectedRevision c \<ge> 0 \<and>
     (cm_expectedRevision c = rr_revision record \<or> (cm_request c = C_stop \<and> cm_expectedRevision c < rr_revision record))"

definition apply_command ::
  "run_hashes \<Rightarrow> string \<Rightarrow> bot_db \<Rightarrow> string \<Rightarrow> run_record \<Rightarrow> run_command \<Rightarrow> bot_error + (bot_db \<times> run_view)" where
  "apply_command H now db owner record c =
     bind_r (check (rr_revision record < 1000 \<or> cm_request c = C_stop) (Bot ''RUN_HISTORY_LIMIT'')) (\<lambda>_.
     bind_r (lift_ledger (get_vault (hash_text H) (bot_ledger db) (rr_vaultId record) owner)) (\<lambda>v.
     bind_r (run_action record v c) (\<lambda>(a, delta).
     bind_r (lift_engine (had_positions (rr_state record))) (\<lambda>had.
     bind_r (settle_run (rr_state record) v a had) (\<lambda>(s, released).
     let record' = next_record H record c s released in
     bind_r (checkpoint_run H now db record' v (delta + (case released of None \<Rightarrow> 0 | Some x \<Rightarrow> x))) (\<lambda>db1.
     bind_r (persist H db1 record') (\<lambda>db2.
     bind_r (view_run record') (\<lambda>w. Inr (db2, w)))))))))"

definition bot_command ::
  "run_hashes \<Rightarrow> string \<Rightarrow> bot_db \<Rightarrow> string \<Rightarrow> string \<Rightarrow> run_command \<Rightarrow> bot_error + (bot_db \<times> run_view)" where
  "bot_command H now db owner i c =
     bind_r (check (id_ok (cm_id c)) (Bot ''INVALID_ID'')) (\<lambda>_.
     bind_r (read_run H db owner i) (\<lambda>record.
     bind_r (case decision_of c of None \<Rightarrow> Inr ()
       | Some d \<Rightarrow> lift_engine (validateDecision d i (map fst (pa_weights (r_parameters (rr_state record)))))) (\<lambda>_.
     case map_of (rr_receipts record) (cm_id c) of
       Some fp \<Rightarrow> bind_r (check (fp = hash_command H c) (Bot ''IDEMPOTENCY_CONFLICT'')) (\<lambda>_.
         bind_r (view_run record) (\<lambda>w. Inr (db, w)))
     | None \<Rightarrow>
         bind_r (check (revision_ok record c) (Bot ''REVISION_CONFLICT'')) (\<lambda>_.
         if \<not> running (rr_state record)
         then bind_r (check (cm_request c = C_stop) (Bot ''INVALID_STATUS'')) (\<lambda>_. bind_r (view_run record) (\<lambda>w. Inr (db, w)))
         else apply_command H now db owner record c))))"

definition decide :: "run_hashes \<Rightarrow> string \<Rightarrow> bot_db \<Rightarrow> string \<Rightarrow> string \<Rightarrow> strategy_decision \<Rightarrow> bot_error + (bot_db \<times> run_view)" where
  "decide H now db owner i d = bot_command H now db owner i
     \<lparr>cm_id = sd_id d, cm_expectedRevision = sd_expectedRevision d,
      cm_request = C_decision (sd_protocol d) (sd_runId d) (sd_frameSeq d) (sd_targets d)\<rparr>"

text \<open>One round of the replay; \<open>now\<close> is the clock when the command of a run is executed.\<close>

definition tick_run :: "run_hashes \<Rightarrow> (string \<Rightarrow> string) \<Rightarrow> run_row \<Rightarrow> bot_db \<times> string list \<Rightarrow> bot_db \<times> string list" where
  "tick_run H now row = (\<lambda>(db, failures).
     case bind_r (get_run H db (row_owner row) (row_id row)) (\<lambda>v.
       if vw_replayComplete v then Inr db
       else bind_r (bot_command H (now (row_id row)) db (row_owner row) (row_id row)
         \<lparr>cm_id = ''replay_'' @ toString (r_cursor (vw_state v) + 1) @ ''_'' @ toString (vw_revision v),
          cm_expectedRevision = vw_revision v, cm_request = C_step\<rparr>) (\<lambda>x. Inr (fst x))) of
       Inl _ \<Rightarrow> (db, failures @ [row_id row]) | Inr db' \<Rightarrow> (db', failures))"

definition tick :: "run_hashes \<Rightarrow> (string \<Rightarrow> string) \<Rightarrow> bot_db \<Rightarrow> bot_db \<times> string list" where
  "tick H now db = fold (tick_run H now)
     (take 20 (map snd (sort_entries (\<lambda>a b. \<not> text_less b a) (map (\<lambda>r. (row_id r, r)) (filter row_active (automata_runs db))))))
     (db, [])"

end
