(* ===== verification/Automata_Store_Invariant.thy ===== *)
theory Automata_Store_Invariant
  imports Automata_Store
begin

text \<open>
  The store of runs and the ledger of Vaults together. \<open>bot_inv\<close> is the invariant of the three tables: the
  ledger's own invariant; every row of \<open>automata_runs\<close> is the record it was written with, of a run whose books balance; a
  Vault has at most one active run, and its active money is that run's cash and positions.
\<close>

section \<open>What an action leaves alone\<close>

definition identified :: "string \<Rightarrow> string \<Rightarrow> run \<Rightarrow> bool" where
  "identified i v r \<longleftrightarrow> r_id r = i \<and> r_version r = v"

lemma identified_trade: "trade r i sd n why = Inr t \<Longrightarrow> identified x y t = identified x y r"
  by (erule trade_Inr) (auto simp: identified_def elim!: settle_trade_Inr dest!: record_trade_Inr)

lemma identified_units: "changeUnits c dir r = Inr t \<Longrightarrow> identified x y t = identified x y r"
  by (auto simp: changeUnits_def identified_def bind_r_Inr Let_def split: if_splits)

lemma identified_quotes: "identified x y (fold take_quote qs r) = identified x y r"
  by (induction qs arbitrary: r) (auto simp: take_quote_def identified_def Let_def)

lemma identified_irrelevant:
  "identified x y (r\<lparr>r_cash := c, r_netContributed := n\<rparr>) = identified x y r"
  "identified x y (r\<lparr>r_history := h\<rparr>) = identified x y r"
  by (simp_all add: identified_def)

interpretation run_identity: transition_invariant "identified x y" for x y
proof unfold_locales
  show "identified x y (with_frame f r)" if "identified x y r" for r f
    unfolding with_frame_def identified_quotes using that by (simp add: identified_def)
  show "identified x y t" if "act_fund dir value r = Inr t" "identified x y r" for dir "value" r t
    using that by (auto simp: act_fund_def bind_r_Inr Let_def identified_irrelevant dest: identified_units split: if_splits)
  show "identified x y t" if "releaseSettlementExcess r a = Inr t" "identified x y r" for r a t
    using that by (auto simp: releaseSettlementExcess_def push_history_def bind_r_Inr Let_def identified_irrelevant
        dest: identified_units split: if_splits)
qed (auto simp: identified_def identified_trade[unfolded identified_def])

text \<open>What the commands allowed beside a run leave of the Vault.\<close>

definition same_active :: "vault \<Rightarrow> vault \<Rightarrow> bool" where
  "same_active s t \<longleftrightarrow> activeCash t = activeCash s \<and> positionCost t = positionCost s \<and> realizedPnl t = realizedPnl s \<and>
     orders t = orders s \<and> feeLiability t = feeLiability s \<and> ownerId t = ownerId s \<and>
     ((\<exists>l. passLock t = Some l \<and> lock_closed l) \<longrightarrow> (\<exists>l. passLock s = Some l \<and> lock_closed l))"

lemma bot_command_frame:
  assumes "execute le s a c pol = Inr t" "command_type (body c) \<in> set bot_commands"
  shows "same_active s t"
  using assms(1)
proof (rule execute_cases)
  assume "transition_vault s a c pol (command_fingerprint le a c pol) = Inr t"
  then obtain amount r b n1 n2 av where st: "applyPassCommand s c = Inr r"
    "perform s (case r of None \<Rightarrow> s | Some l \<Rightarrow> s\<lparr>passLock := Some l\<rparr>) b av amount c pol = Inr n1"
    "finish_status n1 = Inr n2" "t = record_command n2 a c (command_fingerprint le a c pol)"
    by (auto simp: transition_vault_def Let_def bind_r_Inr split: if_splits)
  have r: "r = Some l \<Longrightarrow> lock_closed l \<Longrightarrow> \<exists>k. passLock s = Some k \<and> lock_closed k" for l
    using st(1) assms(2)
    by (cases "body c") (auto simp: applyPassCommand_def updatePassLock_def bot_commands_def bind_r_Inr Let_def split: option.splits if_splits)
  have "same_active s n1"
    using st(2) assms(2) r
    by (cases "body c") (auto simp: same_active_def perform_def bot_commands_def bind_r_Inr split: option.splits if_splits)
  then show ?thesis using finish_status_cases[OF st(3)] unfolding st(4)
    by (auto simp: same_active_def record_command_def Let_def)
qed (simp add: same_active_def)

section \<open>The invariant\<close>

definition coupled :: "run_record \<Rightarrow> vault \<Rightarrow> bool" where
  "coupled record v \<longleftrightarrow> activeCash v = toString (r_cash (rr_state record)) \<and>
     positionCost v = toString (costs (rr_state record)) \<and>
     realizedPnl v = toString (big_int (rr_baselineRealized record) + r_realizedPnl (rr_state record)) \<and>
     orders v = [] \<and> feeLiability v = ''0'' \<and> ownerId v = rr_owner record \<and> (\<nexists>l. passLock v = Some l \<and> lock_closed l)"

definition record_ok :: "run_hashes \<Rightarrow> run_record \<Rightarrow> bool" where
  "record_ok H record \<longleftrightarrow> r_version (rr_state record) = ENGINE_VERSION \<and> books (rr_state record) \<and>
     (\<exists>frames. datasetFrames (rr_datasetId record) = Inr frames \<and> rr_datasetHash record = hash_frames H frames)"

definition runs_inv :: "run_hashes \<Rightarrow> vault_map \<Rightarrow> run_record list \<Rightarrow> bool" where
  "runs_inv H m rs \<longleftrightarrow> distinct (map (\<lambda>r. r_id (rr_state r)) rs) \<and> (\<forall>r\<in>set rs. record_ok H r) \<and>
     (\<forall>r\<in>set rs. \<forall>r'\<in>set rs. running (rr_state r) \<longrightarrow> running (rr_state r') \<longrightarrow> rr_vaultId r = rr_vaultId r' \<longrightarrow> r = r') \<and>
     (\<forall>r\<in>set rs. running (rr_state r) \<longrightarrow> (\<exists>v. m (rr_vaultId r) = Some v \<and> coupled r v))"

definition bot_inv :: "run_hashes \<Rightarrow> bot_db \<Rightarrow> bool" where
  "bot_inv H db \<longleftrightarrow> ledger_inv (hash_text H) (bot_ledger db) \<and>
     (\<exists>rs. automata_runs db = map (row_of_record H) rs \<and> runs_inv H (ledger_vaults (bot_ledger db)) rs)"

lemma books_nonneg: "books r \<Longrightarrow> 0 \<le> r_cash r" "books r \<Longrightarrow> 0 \<le> costs r"
  by (auto simp: books_def costs_def intro!: sum_list_nonneg)

lemma stored_vault:
  assumes "ledger_inv sha l" "ledger_vaults l i = Some v"
  shows "vault_id v = i" "vault_inv v" "vault_sane v"
proof -
  obtain ss where ss: "vaults l = map (row_of sha) ss" "\<forall>s\<in>set ss. vault_inv s \<and> trail l (vault_id s) = events s"
    "distinct (map vault_id ss)" using assms(1) by (rule ledger_invE)
  have "find (\<lambda>s. vault_id s = i) ss = Some v" using assms(2) ledger_vaults_rows[OF ss(1)] ss(2) by simp
  then show "vault_id v = i" "vault_inv v" using ss(2) find_unique[OF ss(3)] by auto
  then show "vault_sane v" using assertInvariant_sane[of v "()"] by (simp add: vault_inv_def)
qed

lemma get_vault_Inr:
  assumes "ledger_inv sha l" "get_vault sha l i owner = Inr v"
  shows "ledger_vaults l i = Some v" "vault_id v = i" "ownerId v = owner" "vault_inv v"
proof -
  obtain ss where ss: "vaults l = map (row_of sha) ss" "\<forall>s\<in>set ss. vault_inv s \<and> trail l (vault_id s) = events s"
    "distinct (map vault_id ss)" using assms(1) by (rule ledger_invE)
  have "find (\<lambda>s. vault_id s = i) ss = Some v \<and> ownerId v = owner"
    using get_vault_spec[OF ss(1) _ ss(3), of i owner] assms(2) ss(2) by (auto split: option.splits if_splits)
  then show "ledger_vaults l i = Some v" "ownerId v = owner" using ledger_vaults_rows[OF ss(1)] ss(2) by auto
  then show "vault_id v = i" "vault_inv v" using stored_vault[OF assms(1)] by auto
qed

lemma get_vault_stored:
  assumes "ledger_inv sha l" "ledger_vaults l i = Some v"
  shows "get_vault sha l i (ownerId v) = Inr v"
proof -
  obtain ss where ss: "vaults l = map (row_of sha) ss" "\<forall>s\<in>set ss. vault_inv s \<and> trail l (vault_id s) = events s"
    "distinct (map vault_id ss)" using assms(1) by (rule ledger_invE)
  then show ?thesis using get_vault_spec[OF ss(1) _ ss(3), of i "ownerId v"] assms(2) ledger_vaults_rows[OF ss(1)] by simp
qed

lemma checkpoint_vault_frame:
  "same_identity v (checkpoint_vault H record v delta cost positions)"
  "events (checkpoint_vault H record v delta cost positions) =
    events v @ [event_of (checkpoint_audit H now record (checkpoint_vault H record v delta cost positions))]"
  "revision (checkpoint_vault H record v delta cost positions) = revision v + 1"
  by (simp_all add: checkpoint_vault_def checkpoint_audit_def same_identity_def event_of_def Let_def)

lemma checkpoint_vault_inv:
  assumes "vault_inv v" "assertInvariant (checkpoint_vault H record v delta cost positions) = Inr ()"
  shows "vault_inv (checkpoint_vault H record v delta cost positions)"
  using assms
  by (auto simp: vault_inv_def objects_wf_def pending_recorded_def checkpoint_vault_def Let_def keys_update distinct_update)

lemma length_update_known: "map_of m k \<noteq> None \<Longrightarrow> length (AList.update k y m) = length m"
  by (induction m) auto

lemma checkpoint_id_fresh:
  assumes "vault_inv v" "assertInvariant (checkpoint_vault H record v delta cost positions) = Inr ()"
  shows "map_of (receipts v) (checkpoint_id H record) = None"
proof (rule ccontr)
  let ?t = "checkpoint_vault H record v delta cost positions"
  assume "map_of (receipts v) (checkpoint_id H record) \<noteq> None"
  then have "length (receipts ?t) = length (receipts v)" by (simp add: checkpoint_vault_def Let_def length_update_known)
  moreover have "history_sane v" "history_sane ?t"
    using assms assertInvariant_sane by (auto simp: vault_inv_def vault_sane_def)
  ultimately show False using checkpoint_vault_frame(3)[of H "record" v delta cost positions] by (simp add: history_sane_def)
qed

text \<open>A checkpoint writes the new state of one Vault and its audit row.\<close>

lemma checkpoint_Inr:
  assumes inv: "ledger_inv (hash_text H) (bot_ledger db)" and v: "get_vault (hash_text H) (bot_ledger db) i owner = Inr v"
    and ck: "checkpoint_run H now db record v delta = Inr db'"
  obtains cost e where "total_cost (rr_state record) = Inr cost" "Automata_Engine.equity (rr_state record) = Inr e"
    "assertInvariant (checkpoint_vault H record v delta cost (e - r_cash (rr_state record))) = Inr ()"
    "ledger_inv (hash_text H) (bot_ledger db')" "automata_runs db' = automata_runs db"
    "ledger_vaults (bot_ledger db') = (ledger_vaults (bot_ledger db))(i \<mapsto> checkpoint_vault H record v delta cost (e - r_cash (rr_state record)))"
proof -
  let ?sha = "hash_text H" and ?l = "bot_ledger db"
  obtain ss where ss: "vaults ?l = map (row_of ?sha) ss" "\<forall>s\<in>set ss. vault_inv s \<and> trail ?l (vault_id s) = events s"
    "distinct (map vault_id ss)" "distinct (map (\<lambda>s. (ownerId s, strategyId s)) ss)"
    "\<forall>e\<in>set (audit_events ?l). ar_vault e \<in> set (map vault_id ss)"
    using inv by (rule ledger_invE)
  note g = get_vault_Inr[OF inv v]
  have vs: "v \<in> set ss" using g(1,2) ledger_vaults_rows[OF ss(1)] ss(2) find_unique[OF ss(3)] by auto
  obtain cost e where c: "total_cost (rr_state record) = Inr cost" "Automata_Engine.equity (rr_state record) = Inr e"
    using ck by (auto simp: checkpoint_run_def lift_engine_def bind_r_Inr Let_def split: sum.splits if_splits)
  define t where "t = checkpoint_vault H record v delta cost (e - r_cash (rr_state record))"
  define m where "m = matches (vault_id t) (ownerId t) (revision v)"
  have ok: "assertInvariant t = Inr ()"
    and d: "db' = db\<lparr>bot_ledger := ?l\<lparr>vaults := map (\<lambda>r. if m r then r\<lparr>lr_revision := revision t,
        state_json := print_json (vault_json t), lr_digest := ?sha (print_json (vault_json t))\<rparr> else r) (vaults ?l),
      audit_events := audit_events ?l @ [checkpoint_audit H now record t]\<rparr>\<rparr>"
    using ck c unfolding checkpoint_run_def Let_def bind_r_Inr t_def m_def
    by (auto simp: lift_engine_def lift_money_def bind_r_Inr check_Inr amount_int_Inr split: sum.splits if_splits)
  have fr: "same_identity v t" "revision t = revision v + 1" unfolding t_def by (rule checkpoint_vault_frame)+
  have m: "m (row_of ?sha x) \<longleftrightarrow> x = v" if "x \<in> set ss" for x
    using that vs ss(3) fr(1) by (auto simp: m_def matches_def same_identity_def distinct_map inj_on_def)
  have "(row_of ?sha v)\<lparr>lr_revision := revision t, state_json := print_json (vault_json t), lr_digest := ?sha (print_json (vault_json t))\<rparr>
      = row_of ?sha t"
    using fr by (simp add: row_of_def vault_row_def same_identity_def Let_def)
  then have k: "vaults (bot_ledger db') = map (row_of ?sha) (replace_vault v t ss)"
    "audit_events (bot_ledger db') = audit_events ?l @ [checkpoint_audit H now record t]"
    unfolding d ss(1) replace_vault_def map_map using m by (auto simp: comp_def)
  have ti: "vault_inv t" unfolding t_def by (rule checkpoint_vault_inv[OF g(4)]) (use ok t_def in simp)
  have av: "ar_vault (checkpoint_audit H now record t) = vault_id v" using fr(1) by (simp add: checkpoint_audit_def same_identity_def)
  have ev: "events t = events v @ [event_of (checkpoint_audit H now record t)]" unfolding t_def by (rule checkpoint_vault_frame(2))
  note rep = replace_inv[OF ss vs ti fr(1) ev av k]
  show thesis
    by (rule that[OF c]) (use ok rep g(2) d in \<open>simp_all add: t_def\<close>)
qed

text \<open>Once the drafted Vault passes its check, nothing else refuses a checkpoint: the row is found and the audit row is new.\<close>

lemma checkpoint_total:
  assumes inv: "ledger_inv (hash_text H) (bot_ledger db)" and v: "get_vault (hash_text H) (bot_ledger db) i owner = Inr v"
    and c: "revision v < 9999" "total_cost (rr_state record) = Inr cost" "Automata_Engine.equity (rr_state record) = Inr e"
      "amount_int (r_cash (rr_state record)) = Inr cash" "assertInvariant (checkpoint_vault H record v delta cost (e - cash)) = Inr ()"
  shows "\<exists>db'. checkpoint_run H now db record v delta = Inr db'"
proof -
  let ?sha = "hash_text H" and ?l = "bot_ledger db" and ?t = "checkpoint_vault H record v delta cost (e - cash)"
  obtain ss where ss: "vaults ?l = map (row_of ?sha) ss" "\<forall>s\<in>set ss. vault_inv s \<and> trail ?l (vault_id s) = events s"
    "distinct (map vault_id ss)" using inv by (rule ledger_invE)
  note g = get_vault_Inr[OF inv v]
  have vs: "v \<in> set ss" using g(1,2) ledger_vaults_rows[OF ss(1)] ss(2) find_unique[OF ss(3)] by auto
  have fr: "vault_id ?t = vault_id v" "ownerId ?t = ownerId v" "revision ?t = revision v + 1"
    by (simp_all add: checkpoint_vault_def Let_def)
  have "filter (matches (vault_id v) (ownerId v) (revision v)) (vaults ?l) = map (row_of ?sha) (filter (\<lambda>x. x = v) ss)"
    unfolding ss(1) filter_map comp_def using vs ss(3)
    by (intro arg_cong[of _ _ "map (row_of ?sha)"] filter_cong) (auto simp: matches_def distinct_map inj_on_def)
  moreover have "filter (\<lambda>x. x = v) ss = [v]" using vs ss(3) by (induction ss) (auto simp: filter_empty_conv)
  ultimately have one: "length (filter (matches (vault_id v) (ownerId v) (revision v)) (vaults ?l)) = 1" by simp
  have known: "event_revision (event_of x) \<le> revision v" "map_of (receipts v) (ar_command x) \<noteq> None"
    if "x \<in> set (audit_events ?l)" "ar_vault x = vault_id v" for x
  proof -
    have "event_of x \<in> set (trail ?l (vault_id v))" using that by (auto simp: trail_def)
    then show "event_revision (event_of x) \<le> revision v" "map_of (receipts v) (ar_command x) \<noteq> None"
      using event_known[of v "event_of x"] ss(2) vs by (auto simp: event_of_def)
  qed
  have new: "map_of (receipts v) (checkpoint_id H record) = None" by (rule checkpoint_id_fresh[OF g(4) c(5)])
  have "(vault_id v, revision v + 1) \<notin> set (map (\<lambda>x. (ar_vault x, ar_revision x)) (audit_events ?l))"
    "(vault_id v, checkpoint_id H record) \<notin> set (map (\<lambda>x. (ar_vault x, ar_command x)) (audit_events ?l))"
    using known new by (fastforce simp: event_of_def)+
  then show ?thesis
    unfolding checkpoint_run_def Let_def using c one fr
    by (simp add: checkpoint_audit_def lift_engine_def lift_money_def)
qed

section \<open>The table of runs\<close>

lemma row_of_record_simps [simp]:
  "row_id (row_of_record H r) = r_id (rr_state r)" "row_owner (row_of_record H r) = rr_owner r"
  "row_vault (row_of_record H r) = rr_vaultId r" "row_active (row_of_record H r) = running (rr_state r)"
  "row_revision (row_of_record H r) = rr_revision r" "row_json (row_of_record H r) = r"
  "row_digest (row_of_record H r) = hash_record H r"
  by (simp_all add: row_of_record_def)

lemma runs_invD:
  assumes "runs_inv H m rs"
  shows "distinct (map (\<lambda>r. r_id (rr_state r)) rs)" "r \<in> set rs \<Longrightarrow> record_ok H r"
    "r \<in> set rs \<Longrightarrow> r' \<in> set rs \<Longrightarrow> running (rr_state r) \<Longrightarrow> running (rr_state r') \<Longrightarrow> rr_vaultId r = rr_vaultId r' \<Longrightarrow> r = r'"
    "r \<in> set rs \<Longrightarrow> running (rr_state r) \<Longrightarrow> \<exists>v. m (rr_vaultId r) = Some v \<and> coupled r v"
    "r \<in> set rs \<Longrightarrow> r' \<in> set rs \<Longrightarrow> r_id (rr_state r) = r_id (rr_state r') \<Longrightarrow> r = r'"
  using assms by (auto simp: runs_inv_def distinct_map inj_on_def)

lemma read_run_rows:
  assumes "automata_runs db = map (row_of_record H) rs" "runs_inv H m rs"
  shows "read_run H db owner i = Inr r \<longleftrightarrow> r \<in> set rs \<and> r_id (rr_state r) = i \<and> rr_owner r = owner"
proof -
  have f: "find (\<lambda>x. row_id x = i \<and> row_owner x = owner) (map (row_of_record H) rs) =
      map_option (row_of_record H) (find (\<lambda>x. r_id (rr_state x) = i \<and> rr_owner x = owner) rs)" for rs
    by (induction rs) auto
  have g: "find (\<lambda>x. r_id (rr_state x) = i \<and> rr_owner x = owner) rs = Some y \<longleftrightarrow>
      y \<in> set rs \<and> r_id (rr_state y) = i \<and> rr_owner y = owner" for y
    using runs_invD(1)[OF assms(2)] by (induction rs) auto
  show ?thesis
  proof (cases "find (\<lambda>x. r_id (rr_state x) = i \<and> rr_owner x = owner) rs")
    case None
    then show ?thesis using g f assms(1) by (auto simp: read_run_def)
  next
    case (Some y)
    then have y: "y \<in> set rs" "r_id (rr_state y) = i" "rr_owner y = owner" using g by auto
    then obtain fs where "r_version (rr_state y) = ENGINE_VERSION" "datasetFrames (rr_datasetId y) = Inr fs"
      "rr_datasetHash y = hash_frames H fs" using runs_invD(2)[OF assms(2)] by (auto simp: record_ok_def)
    then have "read_run H db owner i = Inr y" using y Some f[of rs] assms(1) by (simp add: read_run_def Let_def)
    then show ?thesis using y g[of r] Some by auto
  qed
qed

lemma persist_rows:
  assumes "automata_runs db = map (row_of_record H) rs" "runs_inv H m rs" "r \<in> set rs" "persist H db r' = Inr db'"
    and "r_id (rr_state r') = r_id (rr_state r)" "rr_owner r' = rr_owner r" "rr_vaultId r' = rr_vaultId r"
  shows "automata_runs db' = map (row_of_record H) (map (\<lambda>x. if x = r then r' else x) rs)" "bot_ledger db' = bot_ledger db"
proof -
  have "x \<in> set rs \<Longrightarrow> (r_id (rr_state x) = r_id (rr_state r') \<and> rr_owner x = rr_owner r') = (x = r)" for x
    using runs_invD(5)[OF assms(2) _ assms(3), of x] assms(5,6) by auto
  moreover have "(row_of_record H r)\<lparr>row_revision := rr_revision r', row_active := running (rr_state r'), row_json := r',
      row_digest := hash_record H r'\<rparr> = row_of_record H r'"
    using assms(5-7) by (simp add: row_of_record_def)
  ultimately show "automata_runs db' = map (row_of_record H) (map (\<lambda>x. if x = r then r' else x) rs)" "bot_ledger db' = bot_ledger db"
    using assms(4) unfolding persist_def Let_def assms(1) by (auto simp: check_Inr split: if_splits)
qed

text \<open>Writing one run and the Vault it is active in.\<close>

lemma runs_replace:
  assumes inv: "runs_inv H m rs" and r: "r \<in> set rs" "running (rr_state r)" and ok: "record_ok H r'"
    and same: "r_id (rr_state r') = r_id (rr_state r)" "rr_vaultId r' = rr_vaultId r" and c: "coupled r' w"
  shows "runs_inv H (m(rr_vaultId r \<mapsto> w)) (map (\<lambda>x. if x = r then r' else x) rs)"
  unfolding runs_inv_def
proof (intro conjI ballI impI)
  have "map (\<lambda>x. r_id (rr_state x)) (map (\<lambda>x. if x = r then r' else x) rs) = map (\<lambda>x. r_id (rr_state x)) rs" using same(1) by auto
  then show "distinct (map (\<lambda>r. r_id (rr_state r)) (map (\<lambda>x. if x = r then r' else x) rs))" using runs_invD(1)[OF inv] by (simp only:)
  fix x assume x: "x \<in> set (map (\<lambda>x. if x = r then r' else x) rs)"
  then obtain y where y: "y \<in> set rs" "x = (if y = r then r' else y)" by auto
  show "record_ok H x" using y ok runs_invD(2)[OF inv] by auto
  show "\<exists>v. (m(rr_vaultId r \<mapsto> w)) (rr_vaultId x) = Some v \<and> coupled x v" if "running (rr_state x)"
  proof (cases "y = r")
    case True
    then show ?thesis using y(2) same(2) c by simp
  next
    case False
    then have "rr_vaultId y \<noteq> rr_vaultId r" "running (rr_state y)" using runs_invD(3)[OF inv y(1) r(1) _ r(2)] y(2) that by auto
    then show ?thesis using False y(2) runs_invD(4)[OF inv y(1)] by simp
  qed
  fix x' assume x': "x' \<in> set (map (\<lambda>x. if x = r then r' else x) rs)" and run: "running (rr_state x)" "running (rr_state x')"
    and v: "rr_vaultId x = rr_vaultId x'"
  obtain y' where y': "y' \<in> set rs" "x' = (if y' = r then r' else y')" using x' by auto
  have vr: "rr_vaultId x = rr_vaultId y" "running (rr_state y)" if "y \<in> set rs" "x = (if y = r then r' else y)" "running (rr_state x)" for x y
    using that same(2) r(2) by (simp_all split: if_splits)
  have "rr_vaultId y = rr_vaultId y'" "running (rr_state y)" "running (rr_state y')"
    using vr[OF y run(1)] vr[OF y' run(2)] v by simp_all
  then have "y = y'" using runs_invD(3)[OF inv y(1) y'(1)] by blast
  then show "x = x'" using y y' by simp
qed

lemma runs_append:
  assumes inv: "runs_inv H m rs" and ok: "record_ok H r" and new: "r_id (rr_state r) \<notin> set (map (\<lambda>r. r_id (rr_state r)) rs)"
    and free: "\<And>x. x \<in> set rs \<Longrightarrow> running (rr_state x) \<Longrightarrow> rr_vaultId x \<noteq> rr_vaultId r" and c: "coupled r w"
  shows "runs_inv H (m(rr_vaultId r \<mapsto> w)) (rs @ [r])"
  unfolding runs_inv_def
proof (intro conjI ballI impI)
  show "distinct (map (\<lambda>r. r_id (rr_state r)) (rs @ [r]))" using new runs_invD(1)[OF inv] by simp
  fix x assume x: "x \<in> set (rs @ [r])"
  show "record_ok H x" using x ok runs_invD(2)[OF inv] by auto
  show "\<exists>v. (m(rr_vaultId r \<mapsto> w)) (rr_vaultId x) = Some v \<and> coupled x v" if "running (rr_state x)"
  proof (cases "x \<in> set rs")
    case True
    then show ?thesis using runs_invD(4)[OF inv True that] free[OF True that] by simp
  qed (use x c in simp)
  fix x' assume "x' \<in> set (rs @ [r])" "running (rr_state x)" "running (rr_state x')" "rr_vaultId x = rr_vaultId x'"
  then show "x = x'" using x runs_invD(3)[OF inv, of x x'] free[of x] free[of x']
    by (cases "x \<in> set rs"; cases "x' \<in> set rs") simp_all
qed

lemma runs_same:
  assumes "runs_inv H m rs" "\<And>i v. m i = Some v \<Longrightarrow> (\<exists>r\<in>set rs. running (rr_state r) \<and> rr_vaultId r = i) \<Longrightarrow>
      \<exists>w. m' i = Some w \<and> same_active v w"
  shows "runs_inv H m' rs"
proof -
  have "\<exists>w. m' (rr_vaultId r) = Some w \<and> coupled r w" if r: "r \<in> set rs" "running (rr_state r)" for r
  proof -
    obtain v where v: "m (rr_vaultId r) = Some v" "coupled r v" using runs_invD(4)[OF assms(1) r] by blast
    then obtain w where "m' (rr_vaultId r) = Some w" "same_active v w" using assms(2) r by blast
    then show ?thesis using v(2) by (auto simp: coupled_def same_active_def)
  qed
  then show ?thesis using assms(1) by (auto simp: runs_inv_def)
qed

section \<open>Creation and commands\<close>

lemma lift_Inr [simp]:
  "lift_ledger x = Inr a \<longleftrightarrow> x = Inr a" "lift_money y = Inr b \<longleftrightarrow> y = Inr b" "lift_engine z = Inr c \<longleftrightarrow> z = Inr c"
  by (auto simp: lift_ledger_def lift_money_def lift_engine_def split: sum.splits)

lemma checkpoint_coupled:
  assumes "orders v = []" "feeLiability v = ''0''" "ownerId v = rr_owner record" "\<nexists>l. passLock v = Some l \<and> lock_closed l"
    "total_cost (rr_state record) = Inr cost"
  shows "coupled record (checkpoint_vault H record v delta cost positions)"
  using assms total_cost_costs[OF assms(5)] by (simp add: coupled_def checkpoint_vault_def Let_def)

text \<open>A closed Vault has no idle cash, so no run can be started from it.\<close>

lemma closed_vault_empty:
  "vault_inv v \<Longrightarrow> passLock v = Some l \<Longrightarrow> lock_closed l \<Longrightarrow> idle v = ''0''"
  using assertInvariant_sane[of v "()"] by (auto simp: vault_inv_def vault_sane_def lock_sane_def)

lemma with_rows:
  "bot_ledger (db\<lparr>automata_runs := x\<rparr>) = bot_ledger db" "automata_runs (db\<lparr>automata_runs := x\<rparr>) = x"
  by simp_all

lemma start_run_inv:
  assumes inv: "bot_inv H db" and st: "start_run H now db owner input = Inr (db', w)"
  shows "bot_inv H db'"
proof -
  obtain rs where l: "ledger_inv (hash_text H) (bot_ledger db)" and rs: "automata_runs db = map (row_of_record H) rs"
    "runs_inv H (ledger_vaults (bot_ledger db)) rs" using inv by (auto simp: bot_inv_def)
  obtain v cash initial frames where v: "get_vault (hash_text H) (bot_ledger db) (cr_vaultId input) owner = Inr v"
    and rdy: "vault_ready v" and cash: "Automata_Model.amount (cr_amount input) = Inr cash" "cash \<le> big_int (idle v)"
    and cr: "createRun (cr_id input) (cr_amount input) (cr_parameters input) = Inr initial"
    and fr: "datasetFrames (cr_datasetId input) = Inr frames"
    and new: "cr_id input \<notin> set (map row_id (automata_runs db))" "free_slot (automata_runs db) (cr_vaultId input)"
    and ck: "checkpoint_run H now (db\<lparr>automata_runs := automata_runs db @ [row_of_record H (new_record H owner input initial frames v)]\<rparr>)
      (new_record H owner input initial frames v) v (- cash) = Inr db'"
    using st unfolding start_run_def Let_def
    by (cases "createRun (cr_id input) (cr_amount input) (cr_parameters input)") (auto simp: bind_r_Inr check_Inr split: if_splits)
  define rec where "rec = new_record H owner input initial frames v"
  have "books initial" using cr run_start_facts[of initial] unfolding run_start_def by blast
  then have i: "r_id initial = cr_id input" "r_version initial = ENGINE_VERSION" "0 < cash" "books initial" "running initial"
    using cr cash(1) by (auto simp: createRun_def bind_r_Inr check_Inr running_def split: if_splits)
  have ok: "record_ok H rec" "r_id (rr_state rec) = cr_id input" "rr_owner rec = owner" "rr_vaultId rec = cr_vaultId input"
    using i fr by (simp_all add: record_ok_def rec_def new_record_def)
  note g = get_vault_Inr[OF l v]
  have open_lock: "\<nexists>k. passLock v = Some k \<and> lock_closed k"
    using closed_vault_empty[OF g(4)] cash(2) i(3) by (auto simp: big_int_def digits_val_def digit_val_def)
  obtain cost e where c: "total_cost (rr_state rec) = Inr cost" "ledger_inv (hash_text H) (bot_ledger db')"
    "automata_runs db' = map (row_of_record H) (rs @ [rec])"
    "ledger_vaults (bot_ledger db') = (ledger_vaults (bot_ledger db))(cr_vaultId input \<mapsto>
      checkpoint_vault H rec v (- cash) cost (e - r_cash (rr_state rec)))"
    using checkpoint_Inr[OF _ _ ck[folded rec_def], of "cr_vaultId input" owner] l v rs(1)
    unfolding with_rows map_append list.map by metis
  have "coupled rec (checkpoint_vault H rec v (- cash) cost (e - r_cash (rr_state rec)))"
    using rdy g(3) ok(3) open_lock c(1) by (intro checkpoint_coupled) (auto simp: vault_ready_def)
  then have "runs_inv H (ledger_vaults (bot_ledger db')) (rs @ [rec])"
    unfolding c(4) ok(4)[symmetric] using new rs(1) ok
    by (intro runs_append[OF rs(2) ok(1)]) (auto simp: free_slot_def list_all_iff)
  then show ?thesis unfolding bot_inv_def using c(2,3) by blast
qed

lemma settle_run_Inr:
  assumes "settle_run r v a had = Inr (s, released)"
  obtains u where "transition r a = Inr u" "released = None" "s = u"
  | u x where "transition r a = Inr u" "released = Some x" "releaseSettlementExcess u x = Inr s" "0 \<le> x"
  using assms unfolding settle_run_def
  by (auto simp: bind_r_Inr Let_def releaseSettlementExcess_def check_Inr split: if_splits)

lemma settle_run_keeps:
  assumes "settle_run r v a had = Inr (s, released)" "books r" "identified x y r"
  shows "books s" "identified x y s"
  using assms
  by (auto elim!: settle_run_Inr dest: run_books.transition_keeps run_books.release_keeps
      run_identity.transition_keeps run_identity.release_keeps)

lemma apply_command_inv:
  assumes inv: "bot_inv H db" and r: "read_run H db owner i = Inr record" "running (rr_state record)"
    and ap: "apply_command H now db owner record c = Inr (db', w)"
  shows "bot_inv H db'"
proof -
  obtain rs where l: "ledger_inv (hash_text H) (bot_ledger db)" and rs: "automata_runs db = map (row_of_record H) rs"
    "runs_inv H (ledger_vaults (bot_ledger db)) rs" using inv by (auto simp: bot_inv_def)
  have rr: "record \<in> set rs" "rr_owner record = owner" using r(1) read_run_rows[OF rs] by auto
  obtain v a delta had s released db1 where v: "get_vault (hash_text H) (bot_ledger db) (rr_vaultId record) owner = Inr v"
    and st: "settle_run (rr_state record) v a had = Inr (s, released)"
    and ck: "checkpoint_run H now db (next_record H record c s released) v (delta + (case released of None \<Rightarrow> 0 | Some x \<Rightarrow> x)) = Inr db1"
    and p: "persist H db1 (next_record H record c s released) = Inr db'"
    using ap unfolding apply_command_def Let_def by (auto simp: bind_r_Inr check_Inr split: if_splits)
  define record' where "record' = next_record H record c s released"
  have same: "rr_state record' = s" "rr_vaultId record' = rr_vaultId record" "rr_owner record' = rr_owner record"
    "rr_datasetId record' = rr_datasetId record" "rr_datasetHash record' = rr_datasetHash record"
    by (simp_all add: record'_def next_record_def)
  have ok: "record_ok H record" by (rule runs_invD(2)[OF rs(2) rr(1)])
  have k: "books s" "r_id s = r_id (rr_state record)" "r_version s = r_version (rr_state record)"
    using settle_run_keeps[OF st] ok by (auto simp: record_ok_def identified_def)
  have ok': "record_ok H record'" using ok k same by (simp add: record_ok_def)
  note g = get_vault_Inr[OF l v]
  obtain u where "ledger_vaults (bot_ledger db) (rr_vaultId record) = Some u" "coupled record u"
    using runs_invD(4)[OF rs(2) rr(1) r(2)] by blast
  then have cp: "coupled record v" using g(1) by simp
  obtain cost e where c: "total_cost s = Inr cost" "ledger_inv (hash_text H) (bot_ledger db1)" "automata_runs db1 = automata_runs db"
    "ledger_vaults (bot_ledger db1) = (ledger_vaults (bot_ledger db))(rr_vaultId record \<mapsto>
      checkpoint_vault H record' v (delta + (case released of None \<Rightarrow> 0 | Some x \<Rightarrow> x)) cost (e - r_cash s))"
    using checkpoint_Inr[OF l v ck[folded record'_def]] unfolding same(1) by blast
  have "coupled record' (checkpoint_vault H record' v (delta + (case released of None \<Rightarrow> 0 | Some x \<Rightarrow> x)) cost (e - r_cash s))"
    using cp c(1) same by (intro checkpoint_coupled) (auto simp: coupled_def)
  then have "runs_inv H (ledger_vaults (bot_ledger db1)) (map (\<lambda>x. if x = record then record' else x) rs)"
    unfolding c(4) using same k by (intro runs_replace[OF rs(2) rr(1) r(2) ok']) auto
  moreover have "automata_runs db' = map (row_of_record H) (map (\<lambda>x. if x = record then record' else x) rs)" "bot_ledger db' = bot_ledger db1"
    using persist_rows[OF _ rs(2) rr(1) p[folded record'_def]] c(3) rs(1) same k by auto
  ultimately show ?thesis unfolding bot_inv_def using c(2) by metis
qed

lemma bot_create_inv: "bot_inv H db \<Longrightarrow> bot_create H now db owner input = Inr (db', w) \<Longrightarrow> bot_inv H db'"
  unfolding bot_create_def by (auto simp: bind_r_Inr check_Inr split: option.splits if_splits intro: start_run_inv)

lemma bot_command_inv: "bot_inv H db \<Longrightarrow> bot_command H now db owner i c = Inr (db', w) \<Longrightarrow> bot_inv H db'"
  unfolding bot_command_def by (auto simp: bind_r_Inr check_Inr split: option.splits if_splits intro: apply_command_inv)

section \<open>The system\<close>

definition active_vault :: "bot_db \<Rightarrow> string \<Rightarrow> bool" where
  "active_vault db i \<longleftrightarrow> list_ex (\<lambda>r. row_vault r = i \<and> row_active r) (automata_runs db)"

datatype bot_call =
    Claim_passes string string string bool
  | Vault_call string string string actor command "policy option"
  | Create_run string string create_run
  | Run_call string string string run_command
  | Tick "string \<Rightarrow> string"

fun bot_step :: "run_hashes \<Rightarrow> (string \<Rightarrow> string \<Rightarrow> bool) \<Rightarrow> bot_db \<Rightarrow> bot_call \<Rightarrow> bot_error + bot_db" where
  "bot_step H le db (Claim_passes uuid owner strategy v1) =
     bind_r (lift_ledger (obtainTestPasses (hash_text H) uuid (bot_ledger db) owner strategy v1)) (\<lambda>x. Inr (db\<lparr>bot_ledger := fst x\<rparr>))"
| "bot_step H le db (Vault_call now owner i a c pol) =
     bind_r (lift_ledger (command_ledger (hash_text H) le (active_vault db) now (bot_ledger db) owner i a c pol)) (\<lambda>x.
     Inr (db\<lparr>bot_ledger := fst x\<rparr>))"
| "bot_step H le db (Create_run now owner input) = bind_r (bot_create H now db owner input) (\<lambda>x. Inr (fst x))"
| "bot_step H le db (Run_call now owner i c) = bind_r (bot_command H now db owner i c) (\<lambda>x. Inr (fst x))"
| "bot_step H le db (Tick now) = Inr (fst (tick H now db))"

definition empty_bots :: bot_db where
  "empty_bots = \<lparr>bot_ledger = empty_ledger, automata_runs = []\<rparr>"

lemma find_prefix: "find P xs = Some x \<Longrightarrow> find P (xs @ ys) = Some x"
  by (induction xs) auto

lemma obtain_vaults:
  assumes "obtainTestPasses sha uuid l owner strategy v1 = Inr (k, s)" "ledger_vaults l i = Some v"
  shows "ledger_vaults k i = Some v"
proof -
  have "k = l \<or> (\<exists>row. k = l\<lparr>vaults := vaults l @ [row]\<rparr>)"
    using assms(1) by (auto simp: obtainTestPasses_def bind_r_Inr split: option.splits if_splits)
  then show ?thesis using assms(2) by (auto simp: ledger_vaults_def find_prefix split: option.splits)
qed

lemma command_ledger_Inr:
  assumes "ledger_inv sha l" "command_ledger sha le bots now l owner i a c pol = Inr (k, t, r)"
  obtains v where "ledger_vaults l i = Some v" "execute le v a c pol = Inr t" "ledger_vaults k = (ledger_vaults l)(i \<mapsto> t)"
    "bots i \<Longrightarrow> command_type (body c) \<in> set bot_commands"
proof -
  have "spec_command le bots (ledger_vaults l) owner i a c pol = Inr (ledger_vaults k, t, r)"
    using command_refines(1)[OF assms(1), where bot_active = bots and le = le and now = now and owner = owner and i = i and a = a
        and c = c and pol = pol] assms(2) by simp
  then obtain v where "ledger_vaults l i = Some v" "execute le v a c pol = Inr t" "ledger_vaults k = (ledger_vaults l)(i \<mapsto> t)"
    "\<not> (bots i \<and> command_type (body c) \<notin> set bot_commands)"
    unfolding spec_command_def by (fastforce split: option.splits if_splits sum.splits)
  then show thesis using that by blast
qed

lemma tick_inv:
  assumes "bot_inv H db"
  shows "bot_inv H (fst (tick H now db))"
proof -
  have one: "bot_inv H (fst x) \<Longrightarrow> bot_inv H (fst (tick_run H now row x))" for row x
    by (cases x) (auto simp: tick_run_def bind_r_Inr intro: bot_command_inv split: sum.splits if_splits)
  have "bot_inv H (fst x) \<Longrightarrow> bot_inv H (fst (fold (tick_run H now) rows x))" for rows x
    by (induction rows arbitrary: x) (auto simp: one)
  then show ?thesis unfolding tick_def using assms by simp
qed

lemma bot_step_inv:
  assumes inv: "bot_inv H db" and st: "bot_step H le db x = Inr db'"
  shows "bot_inv H db'"
proof -
  obtain rs where l: "ledger_inv (hash_text H) (bot_ledger db)" and rs: "automata_runs db = map (row_of_record H) rs"
    "runs_inv H (ledger_vaults (bot_ledger db)) rs" using inv by (auto simp: bot_inv_def)
  show ?thesis
  proof (cases x)
    case (Claim_passes uuid owner strategy v1)
    then obtain k s where k: "obtainTestPasses (hash_text H) uuid (bot_ledger db) owner strategy v1 = Inr (k, s)" "db' = db\<lparr>bot_ledger := k\<rparr>"
      using st by (auto simp: bind_r_Inr)
    have "runs_inv H (ledger_vaults k) rs"
      by (rule runs_same[OF rs(2)]) (auto simp: obtain_vaults[OF k(1)] same_active_def)
    then show ?thesis unfolding bot_inv_def using obtain_inv[OF l k(1)] rs(1) k(2) by auto
  next
    case (Vault_call now owner i a c pol)
    then obtain k t r where k: "command_ledger (hash_text H) le (active_vault db) now (bot_ledger db) owner i a c pol = Inr (k, t, r)"
      "db' = db\<lparr>bot_ledger := k\<rparr>" using st by (auto simp: bind_r_Inr)
    obtain v where v: "ledger_vaults (bot_ledger db) i = Some v" "execute le v a c pol = Inr t"
      "ledger_vaults k = (ledger_vaults (bot_ledger db))(i \<mapsto> t)" "active_vault db i \<Longrightarrow> command_type (body c) \<in> set bot_commands"
      using command_ledger_Inr[OF l k(1)] by blast
    have "runs_inv H (ledger_vaults k) rs"
    proof (rule runs_same[OF rs(2)])
      fix j u assume u: "ledger_vaults (bot_ledger db) j = Some u" "\<exists>r\<in>set rs. running (rr_state r) \<and> rr_vaultId r = j"
      then have "j = i \<Longrightarrow> same_active u t" using bot_command_frame[OF v(2)] v(1,4) rs(1) by (auto simp: active_vault_def list_ex_iff)
      then show "\<exists>w. ledger_vaults k j = Some w \<and> same_active u w" using u(1) v(3) by (cases "j = i") (auto simp: same_active_def)
    qed
    then show ?thesis unfolding bot_inv_def using command_refines(2)[OF l k(1)] rs(1) k(2) by auto
  qed (use st inv in \<open>auto simp: bind_r_Inr intro: bot_create_inv bot_command_inv tick_inv\<close>)
qed

lemma empty_bots_inv: "bot_inv H empty_bots"
  by (simp add: bot_inv_def empty_bots_def empty_ledger_inv runs_inv_def)

interpretation bots: guarded_machine "\<lambda>db. db = empty_bots" "bot_step H le" "bot_inv H" for H le
  by unfold_locales (auto simp: empty_bots_inv intro: bot_step_inv)

end
