(* ===== verification/Automata_Store_Properties.thy ===== *)
theory Automata_Store_Properties
  imports Automata_Store_Invariant
begin

text \<open>
  What the invariant of the store of runs gives: the money of a run is the active money of its Vault, and the accounting
  check of the Vault cannot fail because of what a run did, unless the id of the checkpoint was used before.
\<close>

section \<open>The accounting check of a checkpoint\<close>

interpretation run_net: run_invariant "\<lambda>r. r_netContributed r = n" for n
proof unfold_locales
  show "r_netContributed t = n" if "trade r i sd m why = Inr t" "r_netContributed r = n" for r i sd m why t
    using that by (auto elim!: trade_Inr settle_trade_Inr dest!: record_trade_Inr)
qed simp_all

definition put_in :: "action \<Rightarrow> int" where
  "put_in a = (case a of A_fund dir value \<Rightarrow> fund_delta dir (digits_val value) | _ \<Rightarrow> 0)"

lemma act_net: "act a r = Inr t \<Longrightarrow> r_netContributed t = r_netContributed r + put_in a"
proof (cases a)
  case (A_frame f)
  assume "act a r = Inr t"
  then show ?thesis using run_net.act_frame_keeps[of f r t "r_netContributed r"] take_quotes_frame[of "f_quotes f"]
    by (simp add: A_frame act_def put_in_def with_frame_def)
next
  case (A_fund dir x)
  assume "act a r = Inr t"
  then have "act_fund dir x r = Inr t" by (simp add: A_fund act_def)
  then show ?thesis by (rule act_fund_Inr)
    (auto simp: A_fund put_in_def Automata_Model.amount_def dest: changeUnits_frame split: if_splits)
qed (auto simp: act_def put_in_def bind_r_Inr split: if_splits
    dest: run_net.decision_keeps run_net.trigger_keeps run_net.liquidate_keeps)

lemma transition_net:
  assumes "transition r a = Inr t"
  shows "r_netContributed t = r_netContributed r + put_in a"
proof -
  consider "t = r" "put_in a = 0" | u where "act a (r\<lparr>r_reason := None\<rparr>) = Inr u" "closing_checks u = Inr t"
    using assms by (auto simp: transition_def bind_r_Inr put_in_def split: action.splits if_splits)
  then show ?thesis using act_net run_net.closing_keeps by cases auto
qed

lemma release_net: "releaseSettlementExcess r x = Inr t \<Longrightarrow> r_netContributed t = r_netContributed r - x"
  by (auto simp: releaseSettlementExcess_def push_history_def bind_r_Inr Let_def split: if_splits dest: changeUnits_frame)

lemma run_action_delta:
  assumes "run_action record v c = Inr (a, delta)" "0 \<le> big_int (idle v)"
  shows "delta = - put_in a" "0 \<le> big_int (idle v) + delta"
  using assms
  by (auto simp: run_action_def put_in_def fund_delta_def bind_r_Inr Let_def Automata_Model.amount_def
      split: run_request.splits if_splits)

lemma equity_above_cash:
  assumes "Automata_Engine.equity r = Inr e"
  shows "r_cash r \<le> e"
proof -
  have "0 \<le> n \<Longrightarrow> 0 \<le> tdiv n SCALE" for n by (auto simp: tdiv_def SCALE_def sgn_if pos_imp_zdiv_nonneg_iff)
  moreover have "\<exists>n\<ge>0. x = tdiv n SCALE" if "position_value r ip = Inr x" for ip x
    using that unfolding position_value_def bind_r_Inr amount_int_Inr amount_reads by (metis mult_nonneg_nonneg sum.inject(2))
  ultimately have "0 \<le> x" if "position_value r ip = Inr x" for ip x using that by blast
  then have "map_r (position_value r) xs = Inr vs \<Longrightarrow> 0 \<le> sum_list vs" for xs vs
    by (induction xs arbitrary: vs) (auto simp: bind_r_Inr)
  then show ?thesis using assms by (auto simp: equity_def bind_r_Inr amount_int_Inr fold_sum)
qed

lemma checkpoint_history:
  assumes "history_sane v" "map_of (receipts v) (checkpoint_id H record) = None" "revision v < 9999"
  shows "history_sane (checkpoint_vault H record v delta cost positions)"
  using assms(3) by (intro history_append[OF assms(1,2)]) (simp add: checkpoint_vault_def Let_def)+

text \<open>The state a checkpoint drafts is sane whenever the money that leaves the idle cash is the money the run received.\<close>

lemma checkpoint_sane:
  assumes v: "vault_sane v" "orders v = []" "feeLiability v = ''0''" "\<nexists>l. passLock v = Some l \<and> lock_closed l"
    and b: "books (rr_state record)" "total_cost (rr_state record) = Inr cost" "Automata_Engine.equity (rr_state record) = Inr e"
    and d: "0 \<le> big_int (idle v) + delta"
      "delta + r_netContributed (rr_state record) = amt (activeCash v) + amt (positionCost v) - (pnl v - big_int (rr_baselineRealized record))"
    and h: "map_of (receipts v) (checkpoint_id H record) = None" "revision v < 9999"
  shows "vault_sane (checkpoint_vault H record v delta cost (e - r_cash (rr_state record)))"
proof -
  let ?t = "checkpoint_vault H record v delta cost (e - r_cash (rr_state record))"
  have m: "money_sane v" using v(1) by (simp add: vault_sane_def)
  have idle: "big_int (idle v) = amt (idle v)" using m by (metis big_int_toString money_sane_def printed_def)
  have cost: "cost = costs (rr_state record)" by (rule total_cost_costs[OF b(2)])
  have "money_sane ?t"
    using m v(2,3) d books_nonneg[OF b(1)] b(1) equity_above_cash[OF b(3)] cost
    by (auto simp: money_sane_def checkpoint_vault_def Let_def pnl_def idle books_def)
  moreover have "ids_sane ?t" "history_sane ?t" using v(1) checkpoint_history[OF _ h]
    by (auto simp: vault_sane_def ids_sane_def checkpoint_vault_def Let_def)
  moreover have "lock_sane ?t l" if "passLock ?t = Some l" for l
    using that v(1,4) by (auto simp: vault_sane_def checkpoint_vault_def Let_def intro: lock_sane_frame)
  ultimately show ?thesis by (simp add: vault_sane_def)
qed

lemma checkpoint_error:
  assumes "checkpoint_run H now db record v delta = Inl (Of_domain x)"
  obtains cost e where "total_cost (rr_state record) = Inr cost" "Automata_Engine.equity (rr_state record) = Inr e" "revision v < 9999"
    "assertInvariant (checkpoint_vault H record v delta cost (e - r_cash (rr_state record))) = Inl x"
  using assms unfolding checkpoint_run_def Let_def
  by (auto simp: bind_r_Inl bind_r_Inr check_Inl lift_engine_def lift_money_def amount_int_Inr split: sum.splits if_splits)

lemma sane_checkpoint_error:
  assumes "checkpoint_run H now db record v delta = Inl (Of_domain x)" "audit_failure x"
    and "vault_sane v" "orders v = []" "feeLiability v = ''0''" "\<nexists>l. passLock v = Some l \<and> lock_closed l" "books (rr_state record)"
    "0 \<le> big_int (idle v) + delta"
    "delta + r_netContributed (rr_state record) = amt (activeCash v) + amt (positionCost v) - (pnl v - big_int (rr_baselineRealized record))"
  shows "map_of (receipts v) (checkpoint_id H record) \<noteq> None"
  using assms(1)
proof (rule checkpoint_error)
  fix cost e
  assume c: "total_cost (rr_state record) = Inr cost" "Automata_Engine.equity (rr_state record) = Inr e" "revision v < 9999"
    "assertInvariant (checkpoint_vault H record v delta cost (e - r_cash (rr_state record))) = Inl x"
  then show ?thesis
    using checkpoint_sane[OF assms(3-7) c(1,2) assms(8,9) _ c(3)] sane_range_error[OF _ c(4)] range_not_audit assms(2) by blast
qed

lemma vault_balances: "vault_inv v \<Longrightarrow> \<exists>b. balances v = Inr b"
  by (auto simp: vault_inv_def assertInvariant_def bind_r_Inr split: if_splits)

definition id_taken :: "run_hashes \<Rightarrow> bot_db \<Rightarrow> string \<Rightarrow> string \<Rightarrow> int \<Rightarrow> bool" where
  "id_taken H db j i n \<longleftrightarrow> (\<exists>v. ledger_vaults (bot_ledger db) j = Some v \<and> map_of (receipts v) (bot_command_id H i n) \<noteq> None)"

lemma lift_Inl [simp]:
  "lift_ledger x \<noteq> Inl (Of_domain e)" "lift_money y = Inl (Of_domain e) \<longleftrightarrow> y = Inl e" "lift_engine z \<noteq> Inl (Of_domain e)"
  by (auto simp: lift_ledger_def lift_money_def lift_engine_def split: sum.splits)

lemma datasetFrames_error [simp]: "datasetFrames d \<noteq> Inl (Of_domain e)"
  by (simp add: datasetFrames_def)

lemma view_run_error [simp]: "view_run r \<noteq> Inl (Of_domain e)"
  by (auto simp: view_run_def bind_r_Inl)

lemma read_run_error [simp]: "read_run H db owner i \<noteq> Inl (Of_domain e)"
  by (auto simp: read_run_def bind_r_Inl check_Inl Let_def split: option.splits)

lemma persist_error [simp]: "persist H db r \<noteq> Inl (Of_domain e)"
  by (auto simp: persist_def bind_r_Inl check_Inl Let_def)

lemma start_run_error:
  assumes inv: "bot_inv H db" and st: "start_run H now db owner input = Inl (Of_domain x)" "audit_failure x"
  shows "id_taken H db (cr_vaultId input) (cr_id input) 0"
proof -
  have l: "ledger_inv (hash_text H) (bot_ledger db)" using inv by (simp add: bot_inv_def)
  obtain v where v: "get_vault (hash_text H) (bot_ledger db) (cr_vaultId input) owner = Inr v"
    using st(1) by (auto simp: start_run_def bind_r_Inl)
  note g = get_vault_Inr[OF l v]
  obtain cash initial frames where rdy: "vault_ready v" and cash: "Automata_Model.amount (cr_amount input) = Inr cash" "cash \<le> big_int (idle v)"
    and cr: "createRun (cr_id input) (cr_amount input) (cr_parameters input) = Inr initial"
    and ck: "checkpoint_run H now (db\<lparr>automata_runs := automata_runs db @ [row_of_record H (new_record H owner input initial frames v)]\<rparr>)
      (new_record H owner input initial frames v) v (- cash) = Inl (Of_domain x)"
    using st(1) v vault_balances[OF g(4)] unfolding start_run_def Let_def
    by (cases "createRun (cr_id input) (cr_amount input) (cr_parameters input)")
      (auto simp: bind_r_Inl bind_r_Inr check_Inl check_Inr split: if_splits)
  have b: "books initial" using cr run_start_facts[of initial] unfolding run_start_def by blast
  have i: "r_netContributed initial = cash" "0 < cash" "r_id initial = cr_id input"
    using cr cash(1) by (auto simp: createRun_def bind_r_Inr check_Inr split: if_splits)
  have "\<nexists>k. passLock v = Some k \<and> lock_closed k"
    using closed_vault_empty[OF g(4)] cash(2) i(2) by (auto simp: big_int_def digits_val_def digit_val_def)
  then have "map_of (receipts v) (checkpoint_id H (new_record H owner input initial frames v)) \<noteq> None"
    using sane_checkpoint_error[OF ck st(2) stored_vault(3)[OF l g(1)]] rdy b i cash(2)
    by (simp add: vault_ready_def new_record_def pnl_def)
  then show ?thesis using g(1) i(3) by (auto simp: id_taken_def checkpoint_id_def new_record_def)
qed

lemma settle_run_net:
  assumes "settle_run r v a had = Inr (s, released)"
  shows "r_netContributed s = r_netContributed r + put_in a - (case released of None \<Rightarrow> 0 | Some x \<Rightarrow> x)"
    "0 \<le> (case released of None \<Rightarrow> 0 | Some x \<Rightarrow> x)"
  using assms by (auto elim!: settle_run_Inr dest!: transition_net release_net)

lemma settle_run_error:
  "vault_inv v \<Longrightarrow> settle_run r v a had \<noteq> Inl (Of_domain e)" "vault_inv v \<Longrightarrow> run_action record v c \<noteq> Inl (Of_domain e)"
  using vault_balances[of v]
  by (auto simp: settle_run_def run_action_def bind_r_Inl check_Inl Let_def split: run_request.splits if_splits)

lemma apply_command_error:
  assumes inv: "bot_inv H db" and r: "read_run H db owner i = Inr record" "running (rr_state record)"
    and ap: "apply_command H now db owner record c = Inl (Of_domain x)" "audit_failure x"
  shows "id_taken H db (rr_vaultId record) i (rr_revision record + 1)"
proof -
  obtain rs where l: "ledger_inv (hash_text H) (bot_ledger db)" and rs: "automata_runs db = map (row_of_record H) rs"
    "runs_inv H (ledger_vaults (bot_ledger db)) rs" using inv by (auto simp: bot_inv_def)
  have rr: "record \<in> set rs" and i: "r_id (rr_state record) = i" using r(1) read_run_rows[OF rs] by auto
  obtain v where v: "get_vault (hash_text H) (bot_ledger db) (rr_vaultId record) owner = Inr v"
    using ap(1) by (auto simp: apply_command_def bind_r_Inl check_Inl split: if_splits)
  note g = get_vault_Inr[OF l v] and err = settle_run_error[OF get_vault_Inr(4)[OF l v]]
  obtain a delta had s released where ra: "run_action record v c = Inr (a, delta)"
    and st: "settle_run (rr_state record) v a had = Inr (s, released)"
    and ck: "checkpoint_run H now db (next_record H record c s released) v (delta + (case released of None \<Rightarrow> 0 | Some x \<Rightarrow> x)) =
      Inl (Of_domain x)"
    using ap(1) v err unfolding apply_command_def Let_def by (auto simp: bind_r_Inl check_Inl split: if_splits)
  have cp: "coupled record v" using runs_invD(4)[OF rs(2) rr r(2)] g(1) by auto
  have b: "books (rr_state record)" using runs_invD(2)[OF rs(2) rr] by (simp add: record_ok_def)
  have bs: "books s" "r_id s = i"
    using settle_run_keeps[OF st b, of "r_id (rr_state record)" "r_version (rr_state record)"] i by (simp_all add: identified_def)
  have sane: "vault_sane v" by (rule stored_vault(3)[OF l g(1)])
  then have idle: "0 \<le> big_int (idle v)" using amt_nonneg[of "idle v"]
    by (metis big_int_toString money_sane_def printed_def vault_sane_def)
  have "amt (activeCash v) + amt (positionCost v) - (pnl v - big_int (rr_baselineRealized record)) = r_netContributed (rr_state record)"
    using cp books_nonneg[OF b] b by (simp add: coupled_def pnl_def books_def)
  then have "map_of (receipts v) (checkpoint_id H (next_record H record c s released)) \<noteq> None"
    using sane_checkpoint_error[OF ck ap(2) sane] cp bs run_action_delta[OF ra idle] settle_run_net[OF st]
    by (simp add: coupled_def next_record_def)
  then show ?thesis using g(1) bs(2) by (auto simp: id_taken_def checkpoint_id_def next_record_def)
qed

section \<open>Properties\<close>

text \<open>C9: A Vault and the automated run it pays for keep the same books. In every database the server can reach, with any
  interleaving of Vault commands, run commands and replay ticks, a Vault has at most one active run; the Vault's
  active cash, position cost and realised result are those of the run; and what the Vault holds idle, the run's cash, the
  cost of its positions and the pending withdrawals are together the deposits less the withdrawals, plus the realised
  result, less fees.\<close>

theorem run_money_is_vault_money:
  assumes "reaches (\<lambda>db. db = empty_bots) (bot_step H le) db"
    and "row \<in> set (automata_runs db)" "row_active row"
  shows "(\<exists>v. ledger_vaults (bot_ledger db) (row_vault row) = Some v \<and> ownerId v = row_owner row \<and>
      amt (activeCash v) = r_cash (rr_state (row_json row)) \<and> amt (positionCost v) = costs (rr_state (row_json row)) \<and>
      pnl v = big_int (rr_baselineRealized (row_json row)) + r_realizedPnl (rr_state (row_json row)) \<and>
      amt (idle v) + r_cash (rr_state (row_json row)) + costs (rr_state (row_json row)) + held (pendingWithdrawals v) =
        amt (deposits v) - amt (withdrawalsPaid v) + pnl v - amt (feesAccrued v)) \<and>
    (\<forall>other\<in>set (automata_runs db). row_active other \<longrightarrow> row_vault other = row_vault row \<longrightarrow> other = row)"
proof -
  have inv: "bot_inv H db" by (rule bots.reachable_inv[OF assms(1)])
  then obtain rs where l: "ledger_inv (hash_text H) (bot_ledger db)" and rs: "automata_runs db = map (row_of_record H) rs"
    "runs_inv H (ledger_vaults (bot_ledger db)) rs" by (auto simp: bot_inv_def)
  obtain r where r: "r \<in> set rs" "row = row_of_record H r" "running (rr_state r)" using assms(2,3) rs(1) by auto
  have b: "books (rr_state r)" using runs_invD(2)[OF rs(2) r(1)] by (simp add: record_ok_def)
  note nn = books_nonneg[OF b]
  obtain v where v: "ledger_vaults (bot_ledger db) (rr_vaultId r) = Some v" "coupled r v" using runs_invD(4)[OF rs(2) r(1,3)] by blast
  have "money_sane v" using stored_vault(3)[OF l v(1)] by (simp add: vault_sane_def)
  then have "\<exists>v. ledger_vaults (bot_ledger db) (row_vault row) = Some v \<and> ownerId v = row_owner row \<and>
      amt (activeCash v) = r_cash (rr_state (row_json row)) \<and> amt (positionCost v) = costs (rr_state (row_json row)) \<and>
      pnl v = big_int (rr_baselineRealized (row_json row)) + r_realizedPnl (rr_state (row_json row)) \<and>
      amt (idle v) + r_cash (rr_state (row_json row)) + costs (rr_state (row_json row)) + held (pendingWithdrawals v) =
        amt (deposits v) - amt (withdrawalsPaid v) + pnl v - amt (feesAccrued v)"
    using v nn r(2) by (auto simp: coupled_def money_sane_def pnl_def held_def)
  moreover have "other = row" if "other \<in> set (automata_runs db)" "row_active other" "row_vault other = row_vault row" for other
  proof -
    have "other \<in> row_of_record H ` set rs" using that(1) rs(1) by simp
    then obtain x where x: "x \<in> set rs" "other = row_of_record H x" by blast
    then have "x = r" using that(2,3) r runs_invD(3)[OF rs(2) x(1) r(1) _ r(3)] by simp
    then show ?thesis using x r by simp
  qed
  ultimately show ?thesis by blast
qed

text \<open>C27: The accounting check of a Vault never fails because of a run. In every database the server can reach, if creating a run or
  a command of a run is refused by the check of the Vault it would write, with a conservation, solvency, lock or history
  failure, then that Vault already has a receipt under the id of this checkpoint, the digest of the run's id and its
  new revision; nothing else makes the check fail.\<close>

theorem checkpoint_books_never_break:
  assumes "reaches (\<lambda>db. db = empty_bots) (bot_step H le) db"
    and "bot_step H le db x = Inl (Of_domain e)"
    and "e \<in> {UNSUPPORTED_SCOPE, INVALID_REVISION, EMPTY_RESERVATION, INVALID_PASS_LOCK,
      NEGATIVE_ACTIVE_EQUITY, UNFUNDED_FEE_LIABILITY, FEE_CONSERVATION, EQUITY_CONSERVATION, HISTORY_MISMATCH}"
  shows "case x of
      Create_run now owner input \<Rightarrow> id_taken H db (cr_vaultId input) (cr_id input) 0
    | Run_call now owner i c \<Rightarrow> (\<exists>record. read_run H db owner i = Inr record \<and> id_taken H db (rr_vaultId record) i (rr_revision record + 1))
    | _ \<Rightarrow> False"
proof -
  have inv: "bot_inv H db" by (rule bots.reachable_inv[OF assms(1)])
  have e: "audit_failure e" using assms(3) by (simp add: audit_failure_def)
  show ?thesis
  proof (cases x)
    case (Create_run now owner input)
    then show ?thesis using assms(2) start_run_error[OF inv _ e]
      by (auto simp: bot_create_def bind_r_Inl check_Inl split: option.splits if_splits)
  next
    case (Run_call now owner i c)
    then show ?thesis using assms(2) apply_command_error[OF inv _ _ _ e]
      by (auto simp: bot_command_def bind_r_Inl check_Inl split: option.splits if_splits)
  qed (use assms(2) in \<open>auto simp: bind_r_Inl\<close>)
qed

text \<open>A run that was stored can be read. In every database the server can reach, reading a row of \<open>automata_runs\<close> gives the record
  it was written with: no row is found corrupt.\<close>

lemma stored_runs_readable:
  assumes "reaches (\<lambda>db. db = empty_bots) (bot_step H le) db" "row \<in> set (automata_runs db)"
  shows "read_run H db (row_owner row) (row_id row) = Inr (row_json row)"
proof -
  obtain rs where rs: "automata_runs db = map (row_of_record H) rs" "runs_inv H (ledger_vaults (bot_ledger db)) rs"
    using bots.reachable_inv[OF assms(1)] by (auto simp: bot_inv_def)
  then obtain r where "r \<in> set rs" "row = row_of_record H r" using assms(2) by auto
  then show ?thesis using read_run_rows[OF rs] by simp
qed

text \<open>The other way round, a receipt under the id of the next checkpoint blocks a run for good: the id depends only on the
  run's id and revision, so every command of the run is refused, and while the run is active the Vault refuses the
  commands that would free its allocation. The owner can create such a receipt with a deposit under that id.\<close>

lemma taken_id_blocks_run:
  assumes "bot_inv H db" "read_run H db owner i = Inr record" "running (rr_state record)"
    and "id_taken H db (rr_vaultId record) i (rr_revision record + 1)"
  shows "apply_command H now db owner record c \<noteq> Inr x"
proof
  assume ap: "apply_command H now db owner record c = Inr x"
  obtain rs where l: "ledger_inv (hash_text H) (bot_ledger db)" and rs: "automata_runs db = map (row_of_record H) rs"
    "runs_inv H (ledger_vaults (bot_ledger db)) rs" using assms(1) by (auto simp: bot_inv_def)
  have rr: "record \<in> set rs" "r_id (rr_state record) = i" using assms(2) read_run_rows[OF rs] by auto
  obtain v a delta had s released db1 where v: "get_vault (hash_text H) (bot_ledger db) (rr_vaultId record) owner = Inr v"
    and st: "settle_run (rr_state record) v a had = Inr (s, released)"
    and ck: "checkpoint_run H now db (next_record H record c s released) v (delta + (case released of None \<Rightarrow> 0 | Some x \<Rightarrow> x)) = Inr db1"
    using ap unfolding apply_command_def Let_def by (auto simp: bind_r_Inr check_Inr split: if_splits)
  have "books (rr_state record)" using runs_invD(2)[OF rs(2) rr(1)] by (simp add: record_ok_def)
  then have "r_id s = i" using settle_run_keeps(2)[OF st, of i "r_version (rr_state record)"] rr(2) by (simp add: identified_def)
  then have "checkpoint_id H (next_record H record c s released) = bot_command_id H i (rr_revision record + 1)"
    by (simp add: checkpoint_id_def next_record_def)
  moreover have "map_of (receipts v) (checkpoint_id H (next_record H record c s released)) = None"
    using checkpoint_Inr[OF l v ck] checkpoint_id_fresh[OF get_vault_Inr(4)[OF l v]] by metis
  ultimately show False using assms(4) get_vault_Inr(1)[OF l v] by (simp add: id_taken_def)
qed

text \<open>A Vault with a deposit and a run on half of it; every digest is the same text.\<close>

definition bdemo_hashes :: run_hashes where
  "bdemo_hashes = \<lparr>hash_text = (\<lambda>_. ''h''), hash_record = (\<lambda>_. ''h''), hash_run = (\<lambda>_. ''h''), hash_frames = (\<lambda>_. ''h''),
     hash_creation = (\<lambda>_. ''h''), hash_command = (\<lambda>_. ''h'')\<rparr>"

definition bdemo_input :: create_run where
  "bdemo_input = \<lparr>cr_id = ''run'', cr_vaultId = ''vault_u1'', cr_amount = ''1000'', cr_datasetId = ''trend'',
     cr_parameters = demo_parameters\<rparr>"

definition bdemo_vault :: vault where
  "bdemo_vault = demo_stored\<lparr>revision := 1, idle := ''2000'', deposits := ''2000'',
     receipts := [(''c1'', \<lparr>fingerprint = command_fingerprint demo_le demo_owner (demo_command (Deposit ''2000'')) None, receipt_revision = 1\<rparr>)],
     events := [\<lparr>event_revision = 1, event_commandId = ''c1'', event_type = ''deposit'', event_actorId = ''alice''\<rparr>]\<rparr>"

definition bdemo_run :: run where
  "bdemo_run = \<lparr>r_lastDecision = None, r_version = ENGINE_VERSION, r_id = ''run'', r_parameters = demo_parameters, r_status = St_running,
     r_cursor = 0, r_clock = 0, r_lastFrame = None, r_nextDecisionAt = 0, r_cash = 1000, r_positions = [], r_quotes = [],
     r_usedCapacity = [], r_initialCash = 1000, r_netContributed = 1000, r_unitsNumerator = 1000, r_unitsDenominator = 1,
     r_emptyNumerator = 1, r_emptyDenominator = 1, r_fees = 0, r_realizedPnl = 0, r_trades = [], r_trigger = None, r_reason = None,
     r_history = []\<rparr>"

definition bdemo_record :: run_record where
  "bdemo_record = new_record bdemo_hashes ''alice'' bdemo_input bdemo_run [] bdemo_vault"

lemma bdemo_deposit: "execute demo_le demo_stored demo_owner (demo_command (Deposit ''2000'')) None = Inr bdemo_vault"
  by code_simp

lemma bdemo_created: "createRun ''run'' ''1000'' demo_parameters = Inr bdemo_run"
  by code_simp

lemma bdemo_vault_facts:
  "revision bdemo_vault < 9999" "vault_ready bdemo_vault" "big_int (idle bdemo_vault) = 2000" "bdemo_vault \<noteq> demo_stored"
  by (simp_all add: bdemo_vault_def vault_ready_def demo_stored_def demo_vault_def big_int_def digits_val_def digit_val_def)

lemma bdemo_run_facts:
  "total_cost bdemo_run = Inr 0" "Automata_Engine.equity bdemo_run = Inr 1000" "amount_int (r_cash bdemo_run) = Inr 1000"
  "r_cash bdemo_run = 1000" "running bdemo_run" "r_id bdemo_run = ''run''"
  by (simp_all add: bdemo_run_def total_cost_def equity_def amount_int_def running_def)

lemma bdemo_checked: "assertInvariant (checkpoint_vault bdemo_hashes bdemo_record bdemo_vault (- 1000) 0 0) = Inr ()"
  by code_simp

lemma bdemo_allowance: "\<exists>b. balances bdemo_vault = Inr b \<and> 1000 \<le> allowance b"
proof -
  have "case balances bdemo_vault of Inl _ \<Rightarrow> False | Inr b \<Rightarrow> 1000 \<le> allowance b" by code_simp
  then show ?thesis by (auto split: sum.splits)
qed

lemma bdemo_viewed: "\<exists>w. view_run bdemo_record = Inr w"
proof -
  have "returnBps bdemo_run = Inr (Finite 0)" by code_simp
  then show ?thesis using bdemo_run_facts(2)
    by (simp add: view_run_def bdemo_record_def new_record_def bdemo_input_def lift_engine_def datasetFrames_def DATASETS_def)
qed

definition bdemo_sha :: "string \<Rightarrow> string" where "bdemo_sha = hash_text bdemo_hashes"

definition bdemo_ledger :: ledger where
  "bdemo_ledger = \<lparr>vaults = [row_of bdemo_sha demo_stored], audit_events = []\<rparr>"

lemma bdemo_stored: "createVault (''vault_'' @ ''u1'') ''alice'' ''local-simulator'' ''ema'' ''1000'' ''TEST_ONLY'' None = Inr demo_stored"
  by code_simp

lemma bdemo_stored_fields: "vault_id demo_stored = ''vault_u1''" "ownerId demo_stored = ''alice''" "strategyId demo_stored = ''ema''" "events demo_stored = []"
  by (simp_all add: demo_stored_def demo_vault_def)

lemma bdemo_claimed: "reaches (\<lambda>db. db = empty_bots) (bot_step bdemo_hashes demo_le) \<lparr>bot_ledger = bdemo_ledger, automata_runs = []\<rparr>"
proof (rule reach_step[OF reach_init])
  show "bot_step bdemo_hashes demo_le empty_bots (Claim_passes ''u1'' ''alice'' ''ema'' False) = Inr \<lparr>bot_ledger = bdemo_ledger, automata_runs = []\<rparr>"
    using bdemo_stored bdemo_stored_fields
    by (simp add: empty_bots_def obtainTestPasses_def empty_ledger_def bdemo_ledger_def row_of_def lift_domain_def lift_ledger_def bdemo_sha_def)
qed simp

lemma bdemo_funded:
  "\<exists>k. reaches (\<lambda>db. db = empty_bots) (bot_step bdemo_hashes demo_le) \<lparr>bot_ledger = k, automata_runs = []\<rparr> \<and>
     get_vault bdemo_sha k ''vault_u1'' ''alice'' = Inr bdemo_vault"
proof -
  have vi: "vault_inv demo_stored" by (rule vault_start_inv) (unfold vault_start_def, use bdemo_stored in blast)
  have "\<exists>k. command_ledger bdemo_sha demo_le (\<lambda>_. False) ''now'' bdemo_ledger (ownerId demo_stored) (vault_id demo_stored)
      demo_owner (demo_command (Deposit ''2000'')) None = Inr (k, bdemo_vault, False) \<and>
      vaults k = map (row_of bdemo_sha) (replace_vault demo_stored bdemo_vault [demo_stored]) \<and>
      audit_events k = audit_events bdemo_ledger @ [\<lparr>ar_vault = vault_id demo_stored, ar_revision = revision bdemo_vault,
        ar_command = cmd_id (demo_command (Deposit ''2000'')), ar_type = command_type (body (demo_command (Deposit ''2000''))),
        ar_actor = actor_id demo_owner, recorded_at = ''now''\<rparr>]"
    by (rule command_new) (use vi bdemo_stored_fields bdemo_deposit bdemo_vault_facts(4) in \<open>auto simp: bdemo_ledger_def trail_def\<close>)
  then obtain k where k: "command_ledger bdemo_sha demo_le (\<lambda>_. False) ''now'' bdemo_ledger ''alice'' ''vault_u1'' demo_owner
      (demo_command (Deposit ''2000'')) None = Inr (k, bdemo_vault, False)" "vaults k = [row_of bdemo_sha bdemo_vault]"
    using bdemo_stored_fields by (auto simp: replace_vault_def)
  have "active_vault \<lparr>bot_ledger = bdemo_ledger, automata_runs = []\<rparr> = (\<lambda>_. False)" by (simp add: active_vault_def fun_eq_iff)
  then have "bot_step bdemo_hashes demo_le \<lparr>bot_ledger = bdemo_ledger, automata_runs = []\<rparr>
      (Vault_call ''now'' ''alice'' ''vault_u1'' demo_owner (demo_command (Deposit ''2000'')) None) = Inr \<lparr>bot_ledger = k, automata_runs = []\<rparr>"
    using k(1) by (simp add: bdemo_sha_def lift_ledger_def)
  then have r: "reaches (\<lambda>db. db = empty_bots) (bot_step bdemo_hashes demo_le) \<lparr>bot_ledger = k, automata_runs = []\<rparr>"
    by (rule reach_step[OF bdemo_claimed])
  have f: "vault_id bdemo_vault = ''vault_u1''" "ownerId bdemo_vault = ''alice''" by (simp_all add: bdemo_vault_def bdemo_stored_fields)
  have "get_vault bdemo_sha k ''vault_u1'' ''alice'' = Inr bdemo_vault"
    using get_vault_spec[of k bdemo_sha "[bdemo_vault]" "''vault_u1''" "''alice''"] k(2) f execute_inv[OF vi bdemo_deposit] by simp
  then show ?thesis using r by blast
qed

lemma bdemo_reached:
  "\<exists>db. reaches (\<lambda>db. db = empty_bots) (bot_step bdemo_hashes demo_le) db \<and>
     automata_runs db = [row_of_record bdemo_hashes bdemo_record] \<and>
     ledger_vaults (bot_ledger db) ''vault_u1'' = Some (checkpoint_vault bdemo_hashes bdemo_record bdemo_vault (- 1000) 0 0)"
proof -
  let ?H = bdemo_hashes
  obtain k where k: "reaches (\<lambda>db. db = empty_bots) (bot_step ?H demo_le) \<lparr>bot_ledger = k, automata_runs = []\<rparr>"
    "get_vault bdemo_sha k ''vault_u1'' ''alice'' = Inr bdemo_vault" using bdemo_funded by blast
  let ?db = "\<lparr>bot_ledger = k, automata_runs = [row_of_record ?H bdemo_record]\<rparr>"
  have l: "ledger_inv (hash_text ?H) (bot_ledger ?db)" using bots.reachable_inv[OF k(1)] by (simp add: bot_inv_def)
  have v: "get_vault (hash_text ?H) (bot_ledger ?db) ''vault_u1'' ''alice'' = Inr bdemo_vault" using k(2) by (simp add: bdemo_sha_def)
  have st: "rr_state bdemo_record = bdemo_run" by (simp add: bdemo_record_def new_record_def)
  obtain db where ck: "checkpoint_run ?H ''now'' ?db bdemo_record bdemo_vault (- 1000) = Inr db"
    using checkpoint_total[OF l v bdemo_vault_facts(1), of bdemo_record 0 1000 1000 "- 1000" "''now''"] bdemo_run_facts bdemo_checked
    unfolding st by auto
  have rec: "new_record ?H ''alice'' bdemo_input bdemo_run frames bdemo_vault = bdemo_record" for frames
    by (simp add: bdemo_record_def new_record_def bdemo_hashes_def)
  have inp: "cr_id bdemo_input = ''run''" "cr_vaultId bdemo_input = ''vault_u1''" "cr_amount bdemo_input = ''1000''"
    "cr_datasetId bdemo_input = ''trend''" "cr_parameters bdemo_input = demo_parameters" "id_ok ''run''" "id_ok ''vault_u1''"
    "Automata_Model.amount ''1000'' = Inr 1000" by code_simp+
  obtain b where b: "balances bdemo_vault = Inr b" "1000 \<le> allowance b" using bdemo_allowance by blast
  obtain w where w: "view_run bdemo_record = Inr w" using bdemo_viewed by blast
  obtain fs where fs: "datasetFrames ''trend'' = Inr fs" by (simp add: datasetFrames_def DATASETS_def)
  have "bot_step ?H demo_le \<lparr>bot_ledger = k, automata_runs = []\<rparr> (Create_run ''now'' ''alice'' bdemo_input) = Inr db"
    using v ck b w fs bdemo_vault_facts bdemo_created
    by (simp add: bot_create_def start_run_def inp rec lift_ledger_def lift_engine_def lift_money_def free_slot_def)
  then have "reaches (\<lambda>db. db = empty_bots) (bot_step ?H demo_le) db" by (rule reach_step[OF k(1)])
  moreover have "automata_runs db = [row_of_record ?H bdemo_record]"
    "ledger_vaults (bot_ledger db) ''vault_u1'' = Some (checkpoint_vault ?H bdemo_record bdemo_vault (- 1000) 0 0)"
  proof -
    from l v ck show "automata_runs db = [row_of_record ?H bdemo_record]" by (rule checkpoint_Inr) simp
    from l v ck show "ledger_vaults (bot_ledger db) ''vault_u1'' = Some (checkpoint_vault ?H bdemo_record bdemo_vault (- 1000) 0 0)"
      by (rule checkpoint_Inr) (simp add: st bdemo_run_facts)
  qed
  ultimately show ?thesis by blast
qed

theorem run_money_is_vault_money_witness:
  "\<exists>(db::bot_db) v. ledger_vaults (bot_ledger db) ''vault_u1'' = Some v \<and> amt (activeCash v) = 1000 \<and> amt (idle v) + 1000 + held (pendingWithdrawals v) =
     amt (deposits v) - amt (withdrawalsPaid v) + pnl v - amt (feesAccrued v)"
proof -
  let ?row = "row_of_record bdemo_hashes bdemo_record"
  obtain db where db: "reaches (\<lambda>db. db = empty_bots) (bot_step bdemo_hashes demo_le) db" "automata_runs db = [?row]"
    using bdemo_reached by blast
  have st: "rr_state bdemo_record = bdemo_run" "rr_vaultId bdemo_record = ''vault_u1''" "costs bdemo_run = 0"
    by (simp_all add: bdemo_record_def new_record_def bdemo_input_def bdemo_run_def costs_def)
  have "?row \<in> set (automata_runs db)" "row_active ?row" using db(2) st(1) bdemo_run_facts(5) by simp_all
  from run_money_is_vault_money[OF db(1) this] show ?thesis unfolding row_of_record_simps st bdemo_run_facts(4) add_0_right by blast
qed

definition bdemo_paused :: run where
  "bdemo_paused = bdemo_run\<lparr>r_status := St_paused,
     r_history := [\<lparr>h_at = 0, h_equity = 1000, h_returnBps = Finite 0, h_status = St_paused, h_reason = None\<rparr>]\<rparr>"

definition bdemo_pause :: run_command where
  "bdemo_pause = \<lparr>cm_id = ''c2'', cm_expectedRevision = 0, cm_request = C_pause\<rparr>"

lemma bdemo_transition: "transition bdemo_run A_pause = Inr bdemo_paused" "had_positions bdemo_run = Inr False"
  by code_simp+

lemma bdemo_collision:
  "assertInvariant (checkpoint_vault bdemo_hashes (next_record bdemo_hashes bdemo_record bdemo_pause bdemo_paused None)
     (checkpoint_vault bdemo_hashes bdemo_record bdemo_vault (- 1000) 0 0) 0 0 0) = Inl HISTORY_MISMATCH"
  by code_simp

lemma bdemo_refused:
  assumes db: "reaches (\<lambda>db. db = empty_bots) (bot_step bdemo_hashes demo_le) db" "automata_runs db = [row_of_record bdemo_hashes bdemo_record]"
    "ledger_vaults (bot_ledger db) ''vault_u1'' = Some (checkpoint_vault bdemo_hashes bdemo_record bdemo_vault (- 1000) 0 0)"
  shows "bot_step bdemo_hashes demo_le db (Run_call ''now'' ''alice'' ''run'' bdemo_pause) = Inl (Of_domain HISTORY_MISMATCH)"
proof -
  let ?v = "checkpoint_vault bdemo_hashes bdemo_record bdemo_vault (- 1000) 0 0"
  have l: "ledger_inv (hash_text bdemo_hashes) (bot_ledger db)" using bots.reachable_inv[OF db(1)] by (simp add: bot_inv_def)
  have f: "rr_state bdemo_record = bdemo_run" "rr_owner bdemo_record = ''alice''" "rr_vaultId bdemo_record = ''vault_u1''" "rr_receipts bdemo_record = []"
    "rr_revision bdemo_record = 0"
    by (simp_all add: bdemo_record_def new_record_def bdemo_input_def)
  have r: "read_run bdemo_hashes db ''alice'' ''run'' = Inr bdemo_record"
    using stored_runs_readable[OF db(1), of "row_of_record bdemo_hashes bdemo_record"] db(2) f bdemo_run_facts(6) by simp
  have "ownerId ?v = ''alice''" "revision ?v = 2" by (simp_all add: checkpoint_vault_def bdemo_vault_def bdemo_stored_fields Let_def)
  then have v: "get_vault (hash_text bdemo_hashes) (bot_ledger db) ''vault_u1'' ''alice'' = Inr ?v" "revision ?v < 9999"
    using get_vault_stored[OF l db(3)] by simp_all
  have c: "cm_id bdemo_pause = ''c2''" "cm_request bdemo_pause = C_pause" "id_ok ''c2''" "revision_ok bdemo_record bdemo_pause"
    by (simp_all add: bdemo_pause_def revision_ok_def f isSafeInteger_def MAX_SAFE_INTEGER_def id_ok_def is_alnum_def)
  have p: "total_cost bdemo_paused = Inr 0" "Automata_Engine.equity bdemo_paused = Inr 1000" "amount_int (r_cash bdemo_paused) = Inr 1000"
    by (simp_all add: bdemo_paused_def bdemo_run_def total_cost_def equity_def amount_int_def)
  have "checkpoint_run bdemo_hashes ''now'' db (next_record bdemo_hashes bdemo_record bdemo_pause bdemo_paused None) ?v 0 = Inl (Of_domain HISTORY_MISMATCH)"
    using v(2) p bdemo_collision by (simp add: checkpoint_run_def next_record_def lift_engine_def lift_money_def)
  then have "apply_command bdemo_hashes ''now'' db ''alice'' bdemo_record bdemo_pause = Inl (Of_domain HISTORY_MISMATCH)"
    using v(1) bdemo_transition by (simp add: apply_command_def f c run_action_def settle_run_def lift_ledger_def lift_engine_def)
  then show ?thesis using r bdemo_run_facts(5) by (simp add: bot_command_def c f decision_of_def)
qed

theorem checkpoint_books_never_break_witness:
  "\<exists>db record. read_run bdemo_hashes db ''alice'' ''run'' = Inr record \<and>
     id_taken bdemo_hashes db (rr_vaultId record) ''run'' (rr_revision record + 1)"
proof -
  obtain db where db: "reaches (\<lambda>db. db = empty_bots) (bot_step bdemo_hashes demo_le) db"
    "automata_runs db = [row_of_record bdemo_hashes bdemo_record]"
    "ledger_vaults (bot_ledger db) ''vault_u1'' = Some (checkpoint_vault bdemo_hashes bdemo_record bdemo_vault (- 1000) 0 0)"
    using bdemo_reached by blast
  from checkpoint_books_never_break[OF db(1) bdemo_refused[OF db]] show ?thesis by auto
qed

end
