(* ===== verification/Spec2Isabelle.thy ===== *)
theory Spec2Isabelle
  imports Vault_Properties Keccak Chain_Manifest Launch_Projection Automata_Properties Paper_Properties Security_Properties
    Restricted_Submission Ledger_Properties Contract_Integration Json_Rpc Automata_Store_Properties
begin

text \<open>
  \<^bold>\<open>A verification library for AlphaForge (QuantPass)\<close>: the pure cores of its TypeScript packages, modelled in HOL
  from the sources, with the theorems that make them correct.

  \<^bold>\<open>The program.\<close> Users put money into strategy Vaults whose capacity is backed by a PASS token, buy PASS in a launch
  market on a test chain, and let automated portfolios trade against frames of quotes or, on paper, against
  reference prices. Every package keeps a small deterministic core (books, state machines, validation of
  untrusted input) and leaves I/O to a server. The cores are modelled here, in the order of the packages:

  \<^item> \<^bold>\<open>Domain\<close> (\<open>packages/domain/src\<close>). \<open>Money\<close> is \<open>money.ts\<close>; \<open>Vault\<close> is \<open>vault.ts\<close>: the record \<open>state\<close>, one definition per
    command, \<open>perform\<close> as the switch over commands and \<open>execute\<close> with idempotency by command id and the audit entry.
    \<open>Vault_Sane\<close> and \<open>Vault_Steps\<close> show command by command that the books are kept, \<open>Vault_Properties\<close> draws the
    conclusions for all reachable states: exact cash flows and payouts, the lock of PASS, confinement of the executor,
    finality of closing, settlement and allocation limits, command ids bound for ever.
  \<^item> \<^bold>\<open>Canonical JSON\<close>. \<open>Canonical_Json\<close> is the canonical serialisation on which fingerprints, digests and signatures rest;
    it determines the value up to the order of object entries, and forgets that order where keys are compared linearly.
  \<^item> \<^bold>\<open>Chain adapter\<close> (\<open>packages/chain-adapter/src\<close>). \<open>Chain_Lifecycle\<close> is the life cycle of a chain operation
    (\<open>types.ts\<close>, \<open>lifecycle.ts\<close>, \<open>policy.ts\<close>) as a state machine with its evidence; \<open>Keccak\<close> is \<open>keccak.ts\<close>, whose masked integers
    refine 64-bit words (the tables of rotations and round constants are those of the source on both sides); \<open>Chain_Manifest\<close> is \<open>manifest.ts\<close>.
  \<^item> \<^bold>\<open>Launch market\<close> (\<open>packages/launch-market/src\<close>). \<open>Launch_Math\<close> and \<open>Launch_Types\<close> are \<open>math.ts\<close>, \<open>config.ts\<close> and \<open>types.ts\<close>
    (rounding in the pool's favour, manifests); \<open>Launch_Store\<close> is \<open>store.ts\<close>, tables as lists of rows, with \<open>Launch_Claims\<close>:
    one claim per identity, the limit of one hundred, single use of vouchers and challenges. \<open>Launch_Projection\<close> is
    \<open>projection.ts\<close>: snapshots per block, reorganisations, versions, and the broker that publishes them.
  \<^item> \<^bold>\<open>Portfolio engine\<close> (\<open>packages/automata/src\<close>). \<open>Automata_Model\<close> (\<open>model.ts\<close>, \<open>strategy-protocol.ts\<close>), \<open>Automata_Engine\<close>
    (\<open>engine.ts\<close>) and \<open>Automata_Properties\<close>: books, capacity of quotes, the liquidation latch, replay of frames, and
    funding that leaves the return of a run with units outstanding unchanged; \<open>Euclid\<close> is the loop that reduces fractions there and in the paper engine.
  \<^item> \<^bold>\<open>Reference data and paper trading.\<close> \<open>Reference_Data\<close> is \<open>robinhood.ts\<close>, the replay half of \<open>capture.ts\<close> and the
    validation half of \<open>batch.ts\<close> (\<open>packages/market-data/src\<close>); \<open>Reference_Ema\<close> is \<open>ema-strategy.ts\<close> and \<open>reference-ema.ts\<close>,
    shown equivalent; \<open>Reference_Minutes\<close> is \<open>reference-minutes.ts\<close>; \<open>Reference_Paper\<close> is \<open>reference-paper.ts\<close>, which consumes the three, with
    \<open>Paper_Properties\<close>: conservation of paper money and correctness of the search for an order size.
  \<^item> \<^bold>\<open>Security model\<close> (\<open>src/security-model/index.ts\<close>). \<open>Security_Model\<close> and \<open>Security_Properties\<close>: permits are issued once per
    decision and keep the limits of the user's policy.
  \<^item> \<^bold>\<open>Server ledger\<close> (\<open>apps/server/src/store.ts\<close>). \<open>Json_Parse\<close> is \<open>JSON.parse\<close> with its round trip, \<open>Vault_Json\<close> the text of a
    Vault, \<open>Ledger_Store\<close> the class \<open>LocalStore\<close> over the tables \<open>vaults\<close> and \<open>audit_events\<close>. \<open>Ledger_Properties\<close>: the ledger refines
    a map from ids to Vaults, on which a command is \<open>execute\<close>; the audit rows of a Vault are its events.
  \<^item> \<^bold>\<open>Strategy storage\<close> (\<open>apps/server/src/automata-store.ts\<close>). \<open>Automata_Store\<close> is the class \<open>AutomataStore\<close>, which runs the portfolio engine on
    stored runs and writes each effect into the Vault of the run, in the same database as the ledger, with the replayed
    datasets of \<open>fixtures.ts\<close>. \<open>Automata_Store_Invariant\<close> is the invariant of both under any interleaving of their commands;
    \<open>Automata_Store_Properties\<close>: the money of a run is the active money of its Vault, and a run cannot break the Vault's books.
  \<^item> \<^bold>\<open>Chain store\<close> (\<open>apps/server/src/chain-store.ts\<close>). \<open>Chain_Store\<close> is the class \<open>ChainStore\<close> over its six tables: leases and
    checkpoints, blocks and events, operations, projections, the evidence for the product, the rollback.
    \<open>Chain_Store_Invariant\<close> shows the invariant of every sequence of its writing methods, \<open>Chain_Store_Properties\<close> what follows:
    one parent-linked canonical chain per contract, readiness that can be trusted, refused writes of superseded
    workers, evidence for every stored operation, and acceptance of whatever \<open>Chain_Lifecycle\<close> produces.
  \<^item> \<^bold>\<open>Chain synchronisation\<close> (\<open>apps/server/src/chain-sync.ts\<close>). \<open>Chain_Sync\<close> is the class \<open>ChainSynchronizer\<close>: following the chain, finding
    the common ancestor after a reorganisation, rebuilding projections, tracking operations. Its computations take
    the answers of the chain and the writes of other workers between two awaits from \<open>sync_env\<close>. \<open>Chain_Sync_Properties\<close>: a
    run is a sequence of store methods, one that returns is settled and on the chain, and confirmations are justified,
    with a given head or after a synchronisation of its own.
  \<^item> \<^bold>\<open>Chain access\<close>. \<open>Hex_Words\<close> holds hexadecimal numbers; \<open>Json_Rpc\<close> is \<open>rpc.ts\<close>, the JSON-RPC client (which answer of which attempt
    becomes the result; blocks are typed and understood); \<open>Contract_Abi\<close> is \<open>vault-abi.ts\<close> and \<open>pass-abi.ts\<close> (call data round
    trips); \<open>Contract_Integration\<close> is \<open>m3-vault-integration.ts\<close> and \<open>m3-pass-integration.ts\<close> of the server, which the
    synchronizer asks whether an operation did on chain what its call data says, and the confirmation that rests on the answer.
  \<^item> \<^bold>\<open>Order journal and restricted submission\<close> (\<open>packages/testnet/src\<close>). \<open>Order_Journal\<close> is \<open>order-journal.ts\<close> with \<open>address.ts\<close>;
    \<open>Order_Proofs\<close> and \<open>Order_Invariant\<close> show its invariant, \<open>Order_Properties\<close>: one envelope per sender and nonce, a journal that
    reopens within its ceilings, orders that can be completed. \<open>Restricted_Submission\<close> is \<open>restricted-submission.ts\<close> on top of it: at most
    one envelope leaves, with the fees of the policy, whatever signer and transport answer.

  \<^bold>\<open>Conventions.\<close> A function that may throw returns \<open>Inl\<close> of the code or message, sequenced by \<open>bind_r\<close> (\<open>Prelude\<close>);
  mutation is a returned record, and a store method returns the store also when it throws. BigInt is \<open>int\<close> with
  truncating division \<open>tdiv\<close>. JavaScript numbers are integers in all modelled code; where the code checks
  \<open>Number.isSafeInteger\<close> the model checks \<open>isSafeInteger\<close>. Objects used as dictionaries are association lists. Strings
  are lists of 8-bit characters, so texts beyond Latin-1 are outside the model. Where the code stores as a decimal
  text a number it has just printed itself, the model may keep the number; texts that come from outside
  stay texts and are parsed as the code parses them.

  \<^bold>\<open>Interfaces as locales.\<close> \<open>guarded_machine\<close> (\<open>Prelude\<close>) turns an invariant kept by each step into one of all reachable states;
  \<open>canonical_reader\<close> (\<open>Decimal\<close>) is the contract of the readers of decimal texts; \<open>run_invariant\<close> and \<open>transition_invariant\<close>
  are the contracts of predicates that trading keeps, \<open>paper_invariant\<close> the same for the paper engine; \<open>replay_store\<close> is the
  code's \<open>ReplayStore\<close> interface. The order journal (\<open>order_machine\<close>), the ledger (\<open>ledger_machine\<close>), the chain store
  (\<open>chain_machine\<close>), the evidence of an operation (\<open>evidence_machine\<close>) and ledger and runs together (\<open>bots\<close>) are interpretations of \<open>guarded_machine\<close>. \<open>sync_invariant\<close>
  is the contract of a predicate that the store's methods and the other workers keep; \<open>sync_runs\<close> interprets it by reachability. Each is interpreted on the definitions of the component that provides it.

  \<^bold>\<open>Parameters.\<close> Code outside the repository is an argument: \<open>localeCompare\<close> (a comparison \<open>le\<close>, about which nothing is
  assumed but where a theorem says \<open>key_order\<close>), SHA-256 (of a value's JSON text: \<open>run_hashes\<close>), Ed25519, \<open>Date.parse\<close> and \<open>toISOString\<close>, \<open>getAddress\<close>, \<open>Transaction.from\<close>, \<open>keccak256\<close>, \<open>verifyMessage\<close> and \<open>id\<close> of
  ethers (the record \<open>order_env\<close> for the journal, with the hypothesis \<open>ethers_address\<close> that a checksummed address differs from
  its input of forty hexadecimal digits only in case), random ids and the clock, \<open>fetch\<close>, \<open>URL\<close> and the UTF-8 decoder; the answers of the chain and the writes of other
  workers are \<open>sync_env\<close>, those of contracts \<open>contract_calls\<close>; the answers of signer and transport are \<open>submission_run\<close>. Witnesses instantiate them by concrete functions.

  \<^bold>\<open>Termination.\<close> \<open>parse_json\<close> takes the length of its text as fuel, which \<open>parse_print\<close> shows to be enough for every
  printed value; no other definition uses fuel: recursion is structural or has a proved measure (\<open>dec_digits\<close>, \<open>euclid\<close>,
  \<open>canonical\<close>, \<open>budget_search\<close>).

  \<^bold>\<open>Not modelled.\<close> Network and database halves of \<open>market-data\<close> (\<open>captureReference\<close>, journals, polling), opening, migrating and
  backing up SQLite files, the launch market's service and ABI encoding (they call ethers), HTTP routes,
  the rest of the test network tooling, the web application, the Solidity contracts (another language), and the
  repository's tools and documentation.
\<close>

end
